(* ===== verification/Prelude.thy ===== *)
theory Prelude
  imports Main
begin

text \<open>
  Shared vocabulary of the development: the JavaScript string operations the sources use
  (\<open>startsWith\<close>, \<open>endsWith\<close>, \<open>includes\<close>, \<open>indexOf\<close>, \<open>split\<close>, \<open>join\<close>, decimal
  \<open>toString\<close> and \<open>Number\<close>), a monad of handlers that either throw or return and keep the
  state in both cases, rules that carry an invariant through such a handler, and the
  locales for state machines that every stateful component interprets.

  A JavaScript string is a HOL \<open>string\<close>; lengths and slices count its characters.
\<close>

named_theorems pres \<open>rules that carry an invariant through a handler\<close>
named_theorems frame \<open>what an operation leaves unchanged\<close>

section \<open>Strings\<close>

definition js_startsWith :: "string \<Rightarrow> string \<Rightarrow> bool" where
  "js_startsWith s p = (take (length p) s = p)"

definition js_endsWith :: "string \<Rightarrow> string \<Rightarrow> bool" where
  "js_endsWith s p = js_startsWith (rev s) (rev p)"

fun js_includes :: "string \<Rightarrow> string \<Rightarrow> bool" where
  "js_includes [] p = (p = [])"
| "js_includes (c # cs) p = (js_startsWith (c # cs) p \<or> js_includes cs p)"

text \<open>\<open>None\<close> is the source's \<open>-1\<close>.\<close>

fun js_indexOf :: "string \<Rightarrow> string \<Rightarrow> nat option" where
  "js_indexOf [] p = (if p = [] then Some 0 else None)"
| "js_indexOf (c # cs) p =
     (if js_startsWith (c # cs) p then Some 0 else map_option Suc (js_indexOf cs p))"

definition js_slice :: "nat \<Rightarrow> nat \<Rightarrow> string \<Rightarrow> string" where
  "js_slice i j s = take (j - i) (drop i s)"

text \<open>\<open>split\<close> on a one-character separator always returns at least one part.\<close>

fun js_split :: "char \<Rightarrow> string \<Rightarrow> string list" where
  "js_split d [] = [[]]"
| "js_split d (c # cs) =
     (if c = d then [] # js_split d cs
      else (case js_split d cs of [] \<Rightarrow> [[c]] | p # ps \<Rightarrow> (c # p) # ps))"

fun js_join :: "string \<Rightarrow> string list \<Rightarrow> string" where
  "js_join sep [] = []"
| "js_join sep [x] = x"
| "js_join sep (x # y # ys) = x @ sep @ js_join sep (y # ys)"

lemma js_startsWith_append [simp]: "js_startsWith (p @ s) p"
  by (simp add: js_startsWith_def)

lemma js_startsWith_iff: "js_startsWith s p \<longleftrightarrow> (\<exists>t. s = p @ t)"
  unfolding js_startsWith_def by (metis append_eq_conv_conj append_take_drop_id)

lemma js_endsWith_iff: "js_endsWith s p \<longleftrightarrow> (\<exists>t. s = t @ p)"
proof
  assume "js_endsWith s p"
  then obtain t where "rev s = rev p @ t"
    by (auto simp: js_endsWith_def js_startsWith_iff)
  then have "s = rev t @ p"
    by (metis rev_append rev_rev_ident)
  then show "\<exists>t. s = t @ p" ..
qed (auto simp: js_endsWith_def)

lemma js_includes_iff: "js_includes s p \<longleftrightarrow> (\<exists>u v. s = u @ p @ v)"
proof (induction s)
  case Nil
  then show ?case by auto
next
  case (Cons c cs)
  have "(\<exists>u v. c # cs = u @ p @ v) \<longleftrightarrow> js_startsWith (c # cs) p \<or> (\<exists>u v. cs = u @ p @ v)"
    unfolding js_startsWith_iff
    by (metis (no_types, opaque_lifting) append_Cons append_Nil list.sel(3) tl_append2
        append_eq_Cons_conv)
  with Cons show ?case by simp
qed

lemma js_indexOf_None: "js_indexOf s p = None \<longleftrightarrow> \<not> js_includes s p"
  by (induction s) auto

lemma js_indexOf_Some:
  "js_indexOf s p = Some i \<Longrightarrow> i \<le> length s \<and> js_startsWith (drop i s) p"
proof (induction s arbitrary: i)
  case Nil
  then show ?case by (auto simp: js_startsWith_def split: if_splits)
next
  case (Cons c cs)
  then show ?case by (auto split: if_splits)
qed

lemma js_split_not_Nil [simp]: "js_split d s \<noteq> []"
  by (induction s) (auto split: list.splits)

lemma js_split_no_sep: "d \<notin> set s \<Longrightarrow> js_split d s = [s]"
  by (induction s) auto

lemma js_split_append: "d \<notin> set p \<Longrightarrow> js_split d (p @ d # s) = p # js_split d s"
  by (induction p) auto

lemma js_split_join:
  "xs \<noteq> [] \<Longrightarrow> \<forall>x \<in> set xs. d \<notin> set x \<Longrightarrow> js_split d (js_join [d] xs) = xs"
  by (induction "[d]" xs rule: js_join.induct) (auto simp: js_split_append js_split_no_sep)

lemma js_join_split: "js_join [d] (js_split d s) = s"
proof (induction s)
  case (Cons c cs)
  then show ?case by (cases "js_split d cs"; cases "tl (js_split d cs)") auto
qed simp

section \<open>Decimal numerals\<close>

definition digit_char :: "nat \<Rightarrow> char" where
  "digit_char n = char_of (48 + n)"

definition is_digit :: "char \<Rightarrow> bool" where
  "is_digit c = (48 \<le> (of_char c :: nat) \<and> (of_char c :: nat) \<le> 57)"

definition digit_val :: "char \<Rightarrow> nat" where
  "digit_val c = of_char c - 48"

fun nat_to_string :: "nat \<Rightarrow> string" where
  "nat_to_string n =
     (if n < 10 then [digit_char n] else nat_to_string (n div 10) @ [digit_char (n mod 10)])"

declare nat_to_string.simps [simp del]

definition string_to_nat :: "string \<Rightarrow> nat" where
  "string_to_nat s = foldl (\<lambda>n c. n * 10 + digit_val c) 0 s"

lemma of_digit_char [simp]: "n < 10 \<Longrightarrow> (of_char (digit_char n) :: nat) = 48 + n"
  by (simp add: digit_char_def)

lemma is_digit_digit_char [simp]: "n < 10 \<Longrightarrow> is_digit (digit_char n)"
  by (simp add: is_digit_def)

lemma digit_val_digit_char [simp]: "n < 10 \<Longrightarrow> digit_val (digit_char n) = n"
  by (simp add: digit_val_def)

lemma nat_to_string_digits: "\<forall>c \<in> set (nat_to_string n). is_digit c"
proof (induction n rule: nat_to_string.induct)
  case (1 n)
  then show ?case by (cases "n < 10") (simp_all add: nat_to_string.simps [of n])
qed

lemma nat_to_string_not_Nil [simp]: "nat_to_string n \<noteq> []"
  by (simp add: nat_to_string.simps)

lemma string_to_nat_snoc: "string_to_nat (s @ [c]) = string_to_nat s * 10 + digit_val c"
  by (simp add: string_to_nat_def)

lemma string_to_nat_to_string [simp]: "string_to_nat (nat_to_string n) = n"
proof (induction n rule: nat_to_string.induct)
  case (1 n)
  show ?case
  proof (cases "n < 10")
    case True
    then show ?thesis by (simp add: nat_to_string.simps [of n] string_to_nat_def)
  next
    case False
    with 1 show ?thesis by (simp add: nat_to_string.simps [of n] string_to_nat_snoc)
  qed
qed

lemma nat_to_string_inject: "nat_to_string m = nat_to_string n \<longleftrightarrow> m = n"
  by (metis string_to_nat_to_string)

section \<open>Handlers: state passing with exceptions\<close>

text \<open>
  A handler of type \<open>('w, 'e, 'a) handler\<close> takes the state and either throws (\<open>Inl\<close>) or
  returns (\<open>Inr\<close>). The state is kept in both cases, as writes made before an exception are.
\<close>

type_synonym ('w, 'e, 'a) handler = "'w \<Rightarrow> ('e + 'a) \<times> 'w"

definition ret :: "'a \<Rightarrow> ('w, 'e, 'a) handler" where
  "ret x w = (Inr x, w)"

definition throw :: "'e \<Rightarrow> ('w, 'e, 'a) handler" where
  "throw e w = (Inl e, w)"

definition andThen :: "('w, 'e, 'a) handler \<Rightarrow> ('a \<Rightarrow> ('w, 'e, 'b) handler) \<Rightarrow> ('w, 'e, 'b) handler" where
  "andThen m f w = (case m w of (Inl e, w') \<Rightarrow> (Inl e, w') | (Inr x, w') \<Rightarrow> f x w')"

definition andDo :: "('w, 'e, 'a) handler \<Rightarrow> ('w, 'e, 'b) handler \<Rightarrow> ('w, 'e, 'b) handler" where
  "andDo m k = andThen m (\<lambda>_. k)"

definition reading :: "('w \<Rightarrow> 'a) \<Rightarrow> ('w, 'e, 'a) handler" where
  "reading f w = (Inr (f w), w)"

definition modify :: "('w \<Rightarrow> 'w) \<Rightarrow> ('w, 'e, unit) handler" where
  "modify f w = (Inr (), f w)"

definition whenever :: "bool \<Rightarrow> ('w, 'e, unit) handler \<Rightarrow> ('w, 'e, unit) handler" where
  "whenever b m = (if b then m else ret ())"

text \<open>\<open>if (!b) throw e\<close>.\<close>

definition require :: "bool \<Rightarrow> 'e \<Rightarrow> ('w, 'e, unit) handler" where
  "require b e = (if b then ret () else throw e)"

text \<open>\<open>if (x === undefined) throw e\<close>, otherwise go on with the value.\<close>

definition required :: "'a option \<Rightarrow> 'e \<Rightarrow> ('w, 'e, 'a) handler" where
  "required x e = (case x of None \<Rightarrow> throw e | Some v \<Rightarrow> ret v)"

fun forEach :: "'a list \<Rightarrow> ('a \<Rightarrow> ('w, 'e, unit) handler) \<Rightarrow> ('w, 'e, unit) handler" where
  "forEach [] f = ret ()"
| "forEach (x # xs) f = andDo (f x) (forEach xs f)"

definition state_after :: "('w, 'e, 'a) handler \<Rightarrow> 'w \<Rightarrow> 'w" where
  "state_after m w = snd (m w)"

definition result_of :: "('w, 'e, 'a) handler \<Rightarrow> 'w \<Rightarrow> 'e + 'a" where
  "result_of m w = fst (m w)"

lemmas handler_simps =
  ret_def throw_def andDo_def reading_def modify_def whenever_def require_def required_def

lemma andThen_ret [simp]: "andThen (ret x) f = f x"
  by (rule ext) (simp add: andThen_def ret_def)

lemma andThen_throw [simp]: "andThen (throw e) f = throw e"
  by (rule ext) (simp add: andThen_def throw_def)

lemma andThen_reading [simp]: "andThen (reading g) f w = f (g w) w"
  by (simp add: andThen_def reading_def)

lemma andThen_Inr: "m w = (Inr x, w') \<Longrightarrow> andThen m f w = f x w'"
  by (simp add: andThen_def)

lemma andThen_Inl: "m w = (Inl e, w') \<Longrightarrow> andThen m f w = (Inl e, w')"
  by (simp add: andThen_def)

subsection \<open>Carrying an invariant through a handler\<close>

definition preserves :: "('w \<Rightarrow> bool) \<Rightarrow> ('w, 'e, 'a) handler \<Rightarrow> bool" where
  "preserves I m = (\<forall>w. I w \<longrightarrow> I (snd (m w)))"

text \<open>
  \<open>ensures P m Q\<close>: from a state with \<open>P\<close>, a normal return \<open>x\<close> of \<open>m\<close> satisfies \<open>Q x\<close>
  in the state it leaves.
\<close>

definition ensures :: "('w \<Rightarrow> bool) \<Rightarrow> ('w, 'e, 'a) handler \<Rightarrow> ('a \<Rightarrow> 'w \<Rightarrow> bool) \<Rightarrow> bool" where
  "ensures P m Q = (\<forall>w x w'. P w \<longrightarrow> m w = (Inr x, w') \<longrightarrow> Q x w')"

lemma preservesD: "preserves I m \<Longrightarrow> I w \<Longrightarrow> I (snd (m w))"
  by (simp add: preserves_def)

lemma preserves_ret [pres]: "preserves I (ret x)"
  by (simp add: preserves_def ret_def)

lemma preserves_throw [pres]: "preserves I (throw e)"
  by (simp add: preserves_def throw_def)

lemma preserves_reading [pres]: "preserves I (reading f)"
  by (simp add: preserves_def reading_def)

lemma preserves_require [pres]: "preserves I (require b e)"
  by (simp add: preserves_def require_def ret_def throw_def)

lemma preserves_required [pres]: "preserves I (required x e)"
  by (simp add: preserves_def required_def ret_def throw_def split: option.split)

lemma preserves_andThen [pres]:
  "preserves I m \<Longrightarrow> (\<And>x. preserves I (f x)) \<Longrightarrow> preserves I (andThen m f)"
  unfolding preserves_def andThen_def by (auto split: prod.splits sum.splits)

lemma preserves_andDo [pres]:
  "preserves I m \<Longrightarrow> preserves I k \<Longrightarrow> preserves I (andDo m k)"
  by (simp add: andDo_def preserves_andThen)

lemma preserves_whenever [pres]: "preserves I m \<Longrightarrow> preserves I (whenever b m)"
  by (simp add: whenever_def preserves_ret)

lemma preserves_forEach [pres]: "(\<And>x. preserves I (f x)) \<Longrightarrow> preserves I (forEach xs f)"
  by (induction xs) (simp_all add: preserves_ret preserves_andDo)

lemma preserves_modify: "(\<And>w. I w \<Longrightarrow> I (f w)) \<Longrightarrow> preserves I (modify f)"
  by (simp add: preserves_def modify_def)

lemma preserves_if [pres]:
  "(b \<Longrightarrow> preserves I m) \<Longrightarrow> (\<not> b \<Longrightarrow> preserves I n) \<Longrightarrow> preserves I (if b then m else n)"
  by simp

lemma preserves_option [pres]:
  "preserves I m \<Longrightarrow> (\<And>y. x = Some y \<Longrightarrow> preserves I (f y)) \<Longrightarrow>
   preserves I (case x of None \<Rightarrow> m | Some y \<Rightarrow> f y)"
  by (cases x) simp_all

section \<open>State machines\<close>

text \<open>
  A component with a step function and an invariant every step keeps. Its interpretations
  give the invariant over whole runs.
\<close>

locale step_machine =
  fixes step :: "'s \<Rightarrow> 'ev \<Rightarrow> 's"
    and inv :: "'s \<Rightarrow> bool"
  assumes step_inv: "inv s \<Longrightarrow> inv (step s e)"
begin

lemma run_inv: "inv s \<Longrightarrow> inv (foldl step s es)"
  by (induction es arbitrary: s) (auto intro: step_inv)

end

text \<open>
  A machine whose steps only move up in a preorder: what a run reaches is above its start.
\<close>

locale monotone_machine =
  fixes step :: "'s \<Rightarrow> 'ev \<Rightarrow> 's"
    and le :: "'s \<Rightarrow> 's \<Rightarrow> bool"
  assumes le_refl: "le s s"
    and le_trans: "le s t \<Longrightarrow> le t u \<Longrightarrow> le s u"
    and step_le: "le s (step s e)"
begin

lemma run_le: "le s (foldl step s es)"
proof (induction es arbitrary: s)
  case Nil
  show ?case by (simp add: le_refl)
next
  case (Cons e es)
  have "le s (step s e)" by (rule step_le)
  moreover have "le (step s e) (foldl step (step s e) es)" by (rule Cons)
  ultimately show ?case by (simp add: le_trans)
qed

end

text \<open>A machine of which some events are left out.\<close>

locale guarded_machine =
  fixes step :: "'s \<Rightarrow> 'ev \<Rightarrow> 's"
    and allowed :: "'ev \<Rightarrow> bool"
    and inv :: "'s \<Rightarrow> bool"
  assumes step_inv: "allowed e \<Longrightarrow> inv s \<Longrightarrow> inv (step s e)"
begin

lemma run_inv: "list_all allowed es \<Longrightarrow> inv s \<Longrightarrow> inv (foldl step s es)"
  by (induction es arbitrary: s) (auto intro: step_inv)

end

sublocale step_machine \<subseteq> guarded: guarded_machine step "\<lambda>_. True" inv
  by unfold_locales (simp add: step_inv)

end
