(* ===== verification/TaskErrors.thy ===== *)
theory TaskErrors
  imports Prelude
begin

text \<open>
  The errors of a task run (\<open>packages/core/src/v3/errors.ts\<close> and the schema
  \<open>TaskRunError\<close> of \<open>schemas/common.ts\<close>): classification of out-of-memory errors,
  truncation and sanitising before an error is stored, enhancement for display and for the
  retry decision, and the two predicates the retry logic asks.
\<close>

section \<open>The error types\<close>

datatype error_code =
    COULD_NOT_FIND_EXECUTOR | COULD_NOT_FIND_TASK | COULD_NOT_IMPORT_TASK
  | CONFIGURED_INCORRECTLY | TASK_ALREADY_RUNNING | TASK_EXECUTION_FAILED
  | TASK_EXECUTION_ABORTED | TASK_PROCESS_EXITED_WITH_NON_ZERO_CODE
  | TASK_PROCESS_SIGKILL_TIMEOUT | TASK_PROCESS_SIGSEGV | TASK_PROCESS_SIGTERM
  | TASK_PROCESS_OOM_KILLED | TASK_PROCESS_MAYBE_OOM_KILLED | TASK_RUN_CANCELLED
  | TASK_INPUT_ERROR | TASK_OUTPUT_ERROR | TASK_MIDDLEWARE_ERROR | HANDLE_ERROR_ERROR
  | GRACEFUL_EXIT_TIMEOUT | TASK_RUN_HEARTBEAT_TIMEOUT | TASK_RUN_CRASHED
  | TASK_RUN_UNCAUGHT_EXCEPTION | MAX_DURATION_EXCEEDED | DISK_SPACE_EXCEEDED | POD_EVICTED
  | POD_UNKNOWN_ERROR | TASK_HAS_N0_EXECUTION_SNAPSHOT | TASK_DEQUEUED_INVALID_STATE
  | TASK_DEQUEUED_QUEUE_NOT_FOUND | TASK_RUN_DEQUEUED_MAX_RETRIES | TASK_RUN_STALLED_EXECUTING
  | TASK_RUN_STALLED_EXECUTING_WITH_WAITPOINTS | OUTDATED_SDK_VERSION
  | TASK_DID_CONCURRENT_WAIT | RECURSIVE_WAIT_DEADLOCK | BATCH_ITEM_COULD_NOT_TRIGGER
  | PAYLOAD_TOO_LARGE | UNSPECIFIED_ERROR

text \<open>
  \<open>BUILT_IN_ERROR name message stackTrace\<close>, \<open>INTERNAL_ERROR code message? stackTrace?\<close>;
  an absent optional field is \<open>None\<close>.
\<close>

datatype task_run_error =
    BUILT_IN_ERROR string string string
  | CUSTOM_ERROR string
  | STRING_ERROR string
  | INTERNAL_ERROR error_code "string option" "string option"

section \<open>Out of memory\<close>

definition MANUAL_OOM_KILL_ERROR_MESSAGE :: string where
  "MANUAL_OOM_KILL_ERROR_MESSAGE = ''MANUAL_OOM_KILL_ERROR''"

fun isManualOutOfMemoryError :: "task_run_error \<Rightarrow> bool" where
  "isManualOutOfMemoryError (BUILT_IN_ERROR name message stackTrace) =
     (message \<noteq> [] \<and> message = MANUAL_OOM_KILL_ERROR_MESSAGE)"
| "isManualOutOfMemoryError _ = False"

definition oomIndicators :: "string list" where
  "oomIndicators =
     [''JavaScript heap out of memory'', ''Reached heap limit'',
      ''FATAL ERROR: Reached heap limit Allocation failed'']"

fun isOOMRunError :: "task_run_error \<Rightarrow> bool" where
  "isOOMRunError (INTERNAL_ERROR code message stackTrace) =
     (code = TASK_PROCESS_OOM_KILLED \<or> code = TASK_PROCESS_MAYBE_OOM_KILLED \<or>
      (code = TASK_PROCESS_EXITED_WITH_NON_ZERO_CODE \<and>
       (case message of None \<Rightarrow> False
        | Some m \<Rightarrow> m \<noteq> [] \<and> js_includes m ''-1'' \<and>
            (js_includes m ''SIGKILL'' \<or>
             (js_includes m ''SIGABRT'' \<and>
              (case stackTrace of None \<Rightarrow> False
               | Some st \<Rightarrow> st \<noteq> [] \<and> (\<exists>i \<in> set oomIndicators. js_includes st i)))))))"
| "isOOMRunError (BUILT_IN_ERROR name message stackTrace) =
     ((message \<noteq> [] \<and> js_includes message ''ffmpeg was killed with signal SIGKILL'') \<or>
      isManualOutOfMemoryError (BUILT_IN_ERROR name message stackTrace))"
| "isOOMRunError e = isManualOutOfMemoryError e"

section \<open>Truncation and sanitising\<close>

definition MAX_STACK_FRAMES :: nat where "MAX_STACK_FRAMES = 50"
definition KEEP_TOP_FRAMES :: nat where "KEEP_TOP_FRAMES = 5"
definition MAX_STACK_LINE_LENGTH :: nat where "MAX_STACK_LINE_LENGTH = 1024"
definition MAX_MESSAGE_LENGTH :: nat where "MAX_MESSAGE_LENGTH = 1000"

lemmas limits = MAX_STACK_FRAMES_def KEEP_TOP_FRAMES_def MAX_STACK_LINE_LENGTH_def
  MAX_MESSAGE_LENGTH_def

definition newline :: char where "newline = CHR 0x0A"

definition is_js_space :: "char \<Rightarrow> bool" where
  "is_js_space c = (c \<in> {CHR 0x09, CHR 0x0A, CHR 0x0B, CHR 0x0C, CHR 0x0D, CHR 0x20, CHR 0xA0})"

definition js_trimStart :: "string \<Rightarrow> string" where
  "js_trimStart s = dropWhile is_js_space s"

definition safe_line :: "string \<Rightarrow> string" where
  "safe_line line =
     (if length line > MAX_STACK_LINE_LENGTH
      then take MAX_STACK_LINE_LENGTH line @ ''...[truncated]'' else line)"

definition is_frame_line :: "string \<Rightarrow> bool" where
  "is_frame_line line = js_startsWith (js_trimStart line) ''at ''"

text \<open>The loop over the lines, with the accumulators \<open>messageLines\<close> and \<open>frameLines\<close>.\<close>

fun split_stack :: "string list \<Rightarrow> string list \<Rightarrow> string list \<Rightarrow> string list \<times> string list" where
  "split_stack [] messageLines frameLines = (messageLines, frameLines)"
| "split_stack (line # lines) messageLines frameLines =
     (if frameLines = [] \<and> \<not> is_frame_line line
      then split_stack lines (messageLines @ [safe_line line]) frameLines
      else split_stack lines messageLines (frameLines @ [safe_line line]))"

definition omitted_line :: "nat \<Rightarrow> string" where
  "omitted_line n = ''    ... '' @ nat_to_string n @ '' frames omitted ...''"

definition truncate_frames :: "string list \<Rightarrow> string list" where
  "truncate_frames frameLines =
     (if length frameLines \<le> MAX_STACK_FRAMES then frameLines
      else take KEEP_TOP_FRAMES frameLines
        @ [omitted_line (length frameLines - MAX_STACK_FRAMES)]
        @ drop (length frameLines - (MAX_STACK_FRAMES - KEEP_TOP_FRAMES)) frameLines)"

definition truncateStack :: "string option \<Rightarrow> string" where
  "truncateStack stack =
     (case stack of None \<Rightarrow> []
      | Some s \<Rightarrow>
          if s = [] then []
          else (let (messageLines, frameLines) = split_stack (js_split newline s) [] []
                in js_join [newline] (messageLines @ truncate_frames frameLines)))"

definition truncateMessage :: "string option \<Rightarrow> string" where
  "truncateMessage message =
     (case message of None \<Rightarrow> []
      | Some m \<Rightarrow>
          if m = [] then []
          else if length m > MAX_MESSAGE_LENGTH
          then take MAX_MESSAGE_LENGTH m @ ''...[truncated]'' else m)"

text \<open>\<open>replace(/\0/g, "")\<close>.\<close>

definition remove_nul :: "string \<Rightarrow> string" where
  "remove_nul s = filter (\<lambda>c. c \<noteq> CHR 0x00) s"

text \<open>\<open>JSON.stringify\<close> of a string.\<close>

definition hex_digit :: "nat \<Rightarrow> char" where
  "hex_digit n = (if n < 10 then char_of (48 + n) else char_of (87 + n))"

definition json_escape_char :: "char \<Rightarrow> string" where
  "json_escape_char c =
     (if c = CHR 0x22 then [CHR 0x5C, CHR 0x22]
      else if c = CHR 0x5C then [CHR 0x5C, CHR 0x5C]
      else if c = CHR 0x08 then [CHR 0x5C, CHR ''b'']
      else if c = CHR 0x0C then [CHR 0x5C, CHR ''f'']
      else if c = CHR 0x0A then [CHR 0x5C, CHR ''n'']
      else if c = CHR 0x0D then [CHR 0x5C, CHR ''r'']
      else if c = CHR 0x09 then [CHR 0x5C, CHR ''t'']
      else if (of_char c :: nat) < 32
      then [CHR 0x5C, CHR ''u'', CHR ''0'', CHR ''0'',
            hex_digit (of_char c div 16), hex_digit (of_char c mod 16)]
      else [c])"

definition json_string :: "string \<Rightarrow> string" where
  "json_string s = CHR 0x22 # concat (map json_escape_char s) @ [CHR 0x22]"

text \<open>\<open>JSON.stringify\<close> of an object whose values are given as JSON texts.\<close>

definition json_object :: "(string \<times> string) list \<Rightarrow> string" where
  "json_object fields =
     ''{'' @ js_join '','' (map (\<lambda>(k, v). json_string k @ '':'' @ v) fields) @ ''}''"

fun sanitizeError :: "task_run_error \<Rightarrow> task_run_error" where
  "sanitizeError (BUILT_IN_ERROR name message stackTrace) =
     BUILT_IN_ERROR (remove_nul name) (truncateMessage (Some (remove_nul message)))
       (truncateStack (Some (remove_nul stackTrace)))"
| "sanitizeError (STRING_ERROR raw) = STRING_ERROR (truncateMessage (Some (remove_nul raw)))"
| "sanitizeError (CUSTOM_ERROR raw) =
     (let clean = remove_nul raw in
      CUSTOM_ERROR
        (if length clean > MAX_MESSAGE_LENGTH
         then json_object [(''truncated'', ''true''),
                           (''preview'', json_string (take MAX_MESSAGE_LENGTH clean))]
         else clean))"
| "sanitizeError (INTERNAL_ERROR code message stackTrace) =
     INTERNAL_ERROR code
       (case message of None \<Rightarrow> None | Some m \<Rightarrow> Some (truncateMessage (Some (remove_nul m))))
       (case stackTrace of None \<Rightarrow> None | Some s \<Rightarrow> Some (truncateStack (Some (remove_nul s))))"

section \<open>The retry predicates\<close>

fun shouldRetryError :: "task_run_error \<Rightarrow> bool" where
  "shouldRetryError (INTERNAL_ERROR code _ _) =
     (case code of
        COULD_NOT_FIND_EXECUTOR \<Rightarrow> False | COULD_NOT_FIND_TASK \<Rightarrow> False
      | COULD_NOT_IMPORT_TASK \<Rightarrow> False | CONFIGURED_INCORRECTLY \<Rightarrow> False
      | TASK_ALREADY_RUNNING \<Rightarrow> False | TASK_PROCESS_SIGKILL_TIMEOUT \<Rightarrow> False
      | TASK_PROCESS_OOM_KILLED \<Rightarrow> False | TASK_PROCESS_MAYBE_OOM_KILLED \<Rightarrow> False
      | TASK_RUN_CANCELLED \<Rightarrow> False | MAX_DURATION_EXCEEDED \<Rightarrow> False
      | DISK_SPACE_EXCEEDED \<Rightarrow> False | OUTDATED_SDK_VERSION \<Rightarrow> False
      | TASK_RUN_HEARTBEAT_TIMEOUT \<Rightarrow> False | TASK_DID_CONCURRENT_WAIT \<Rightarrow> False
      | RECURSIVE_WAIT_DEADLOCK \<Rightarrow> False | TASK_DEQUEUED_INVALID_STATE \<Rightarrow> False
      | TASK_DEQUEUED_QUEUE_NOT_FOUND \<Rightarrow> False | TASK_HAS_N0_EXECUTION_SNAPSHOT \<Rightarrow> False
      | TASK_RUN_DEQUEUED_MAX_RETRIES \<Rightarrow> False | BATCH_ITEM_COULD_NOT_TRIGGER \<Rightarrow> False
      | PAYLOAD_TOO_LARGE \<Rightarrow> False | UNSPECIFIED_ERROR \<Rightarrow> False
      | TASK_RUN_STALLED_EXECUTING \<Rightarrow> True
      | TASK_RUN_STALLED_EXECUTING_WITH_WAITPOINTS \<Rightarrow> True
      | GRACEFUL_EXIT_TIMEOUT \<Rightarrow> True | HANDLE_ERROR_ERROR \<Rightarrow> True | TASK_INPUT_ERROR \<Rightarrow> True
      | TASK_OUTPUT_ERROR \<Rightarrow> True | TASK_MIDDLEWARE_ERROR \<Rightarrow> True | POD_EVICTED \<Rightarrow> True
      | POD_UNKNOWN_ERROR \<Rightarrow> True | TASK_EXECUTION_ABORTED \<Rightarrow> True
      | TASK_EXECUTION_FAILED \<Rightarrow> True | TASK_RUN_CRASHED \<Rightarrow> True
      | TASK_RUN_UNCAUGHT_EXCEPTION \<Rightarrow> True | TASK_PROCESS_EXITED_WITH_NON_ZERO_CODE \<Rightarrow> True
      | TASK_PROCESS_SIGTERM \<Rightarrow> True | TASK_PROCESS_SIGSEGV \<Rightarrow> True)"
| "shouldRetryError (STRING_ERROR _) = True"
| "shouldRetryError (BUILT_IN_ERROR _ _ _) = True"
| "shouldRetryError (CUSTOM_ERROR _) = True"

fun shouldLookupRetrySettings :: "task_run_error \<Rightarrow> bool" where
  "shouldLookupRetrySettings (INTERNAL_ERROR code _ _) =
     (case code of
        TASK_PROCESS_EXITED_WITH_NON_ZERO_CODE \<Rightarrow> True
      | TASK_PROCESS_SIGTERM \<Rightarrow> True
      | TASK_PROCESS_SIGSEGV \<Rightarrow> True
      | TASK_RUN_UNCAUGHT_EXCEPTION \<Rightarrow> True
      | TASK_MIDDLEWARE_ERROR \<Rightarrow> True
      | _ \<Rightarrow> False)"
| "shouldLookupRetrySettings (STRING_ERROR _) = False"
| "shouldLookupRetrySettings (BUILT_IN_ERROR _ _ _) = False"
| "shouldLookupRetrySettings (CUSTOM_ERROR _) = False"

section \<open>Enhancing an error\<close>

text \<open>The name of a code, as it appears in messages and in stored JSON.\<close>

fun code_name :: "error_code \<Rightarrow> string" where
  "code_name COULD_NOT_FIND_EXECUTOR = ''COULD_NOT_FIND_EXECUTOR''"
| "code_name COULD_NOT_FIND_TASK = ''COULD_NOT_FIND_TASK''"
| "code_name COULD_NOT_IMPORT_TASK = ''COULD_NOT_IMPORT_TASK''"
| "code_name CONFIGURED_INCORRECTLY = ''CONFIGURED_INCORRECTLY''"
| "code_name TASK_ALREADY_RUNNING = ''TASK_ALREADY_RUNNING''"
| "code_name TASK_EXECUTION_FAILED = ''TASK_EXECUTION_FAILED''"
| "code_name TASK_EXECUTION_ABORTED = ''TASK_EXECUTION_ABORTED''"
| "code_name TASK_PROCESS_EXITED_WITH_NON_ZERO_CODE = ''TASK_PROCESS_EXITED_WITH_NON_ZERO_CODE''"
| "code_name TASK_PROCESS_SIGKILL_TIMEOUT = ''TASK_PROCESS_SIGKILL_TIMEOUT''"
| "code_name TASK_PROCESS_SIGSEGV = ''TASK_PROCESS_SIGSEGV''"
| "code_name TASK_PROCESS_SIGTERM = ''TASK_PROCESS_SIGTERM''"
| "code_name TASK_PROCESS_OOM_KILLED = ''TASK_PROCESS_OOM_KILLED''"
| "code_name TASK_PROCESS_MAYBE_OOM_KILLED = ''TASK_PROCESS_MAYBE_OOM_KILLED''"
| "code_name TASK_RUN_CANCELLED = ''TASK_RUN_CANCELLED''"
| "code_name TASK_INPUT_ERROR = ''TASK_INPUT_ERROR''"
| "code_name TASK_OUTPUT_ERROR = ''TASK_OUTPUT_ERROR''"
| "code_name TASK_MIDDLEWARE_ERROR = ''TASK_MIDDLEWARE_ERROR''"
| "code_name HANDLE_ERROR_ERROR = ''HANDLE_ERROR_ERROR''"
| "code_name GRACEFUL_EXIT_TIMEOUT = ''GRACEFUL_EXIT_TIMEOUT''"
| "code_name TASK_RUN_HEARTBEAT_TIMEOUT = ''TASK_RUN_HEARTBEAT_TIMEOUT''"
| "code_name TASK_RUN_CRASHED = ''TASK_RUN_CRASHED''"
| "code_name TASK_RUN_UNCAUGHT_EXCEPTION = ''TASK_RUN_UNCAUGHT_EXCEPTION''"
| "code_name MAX_DURATION_EXCEEDED = ''MAX_DURATION_EXCEEDED''"
| "code_name DISK_SPACE_EXCEEDED = ''DISK_SPACE_EXCEEDED''"
| "code_name POD_EVICTED = ''POD_EVICTED''"
| "code_name POD_UNKNOWN_ERROR = ''POD_UNKNOWN_ERROR''"
| "code_name TASK_HAS_N0_EXECUTION_SNAPSHOT = ''TASK_HAS_N0_EXECUTION_SNAPSHOT''"
| "code_name TASK_DEQUEUED_INVALID_STATE = ''TASK_DEQUEUED_INVALID_STATE''"
| "code_name TASK_DEQUEUED_QUEUE_NOT_FOUND = ''TASK_DEQUEUED_QUEUE_NOT_FOUND''"
| "code_name TASK_RUN_DEQUEUED_MAX_RETRIES = ''TASK_RUN_DEQUEUED_MAX_RETRIES''"
| "code_name TASK_RUN_STALLED_EXECUTING = ''TASK_RUN_STALLED_EXECUTING''"
| "code_name TASK_RUN_STALLED_EXECUTING_WITH_WAITPOINTS = ''TASK_RUN_STALLED_EXECUTING_WITH_WAITPOINTS''"
| "code_name OUTDATED_SDK_VERSION = ''OUTDATED_SDK_VERSION''"
| "code_name TASK_DID_CONCURRENT_WAIT = ''TASK_DID_CONCURRENT_WAIT''"
| "code_name RECURSIVE_WAIT_DEADLOCK = ''RECURSIVE_WAIT_DEADLOCK''"
| "code_name BATCH_ITEM_COULD_NOT_TRIGGER = ''BATCH_ITEM_COULD_NOT_TRIGGER''"
| "code_name PAYLOAD_TOO_LARGE = ''PAYLOAD_TOO_LARGE''"
| "code_name UNSPECIFIED_ERROR = ''UNSPECIFIED_ERROR''"

text \<open>\<open>link_magic\<close> is set for the link that opens a contact form.\<close>

record error_link =
  link_name :: string
  link_href :: string
  link_magic :: bool

definition plain_link :: "string \<Rightarrow> string \<Rightarrow> error_link" where
  "plain_link name href = \<lparr>link_name = name, link_href = href, link_magic = False\<rparr>"

definition OOM_MESSAGE :: string where
  "OOM_MESSAGE = ''Your run was terminated due to exceeding the machine's memory limit. Try increasing the machine preset in your task options or replay using a larger machine.''"

definition machines_link :: error_link where
  "machines_link = plain_link ''Machines'' ''https://trigger.dev/docs/v3/machines''"

text \<open>\<open>prettyInternalErrors[code]\<close>: an optional message and an optional link.\<close>

fun prettyInternalErrors :: "error_code \<Rightarrow> string option \<times> error_link option" where
  "prettyInternalErrors TASK_PROCESS_OOM_KILLED = (Some OOM_MESSAGE, Some machines_link)"
| "prettyInternalErrors TASK_PROCESS_MAYBE_OOM_KILLED = (Some OOM_MESSAGE, Some machines_link)"
| "prettyInternalErrors TASK_PROCESS_SIGSEGV =
     (Some ''Your task crashed with a segmentation fault (SIGSEGV). Most likely there's a bug in a package or binary you're using. If this keeps happening and you're unsure why, please get in touch.'',
      Some \<lparr>link_name = ''Contact us'', link_href = ''https://trigger.dev/contact'', link_magic = True\<rparr>)"
| "prettyInternalErrors TASK_PROCESS_SIGTERM =
     (Some ''Your task exited after receiving SIGTERM but we don't know why. If this keeps happening, please get in touch so we can investigate.'',
      Some \<lparr>link_name = ''Contact us'', link_href = ''https://trigger.dev/contact'', link_magic = True\<rparr>)"
| "prettyInternalErrors OUTDATED_SDK_VERSION =
     (Some ''Your task is using an outdated version of the SDK. Please upgrade to the latest version.'',
      Some (plain_link ''Beta upgrade guide'' ''https://trigger.dev/docs/upgrading-beta''))"
| "prettyInternalErrors TASK_DID_CONCURRENT_WAIT =
     (Some ''Parallel waits are not supported, e.g. using Promise.all() around our wait functions.'',
      Some (plain_link ''Read the docs for solutions''
        ''https://trigger.dev/docs/troubleshooting#parallel-waits-are-not-supported''))"
| "prettyInternalErrors RECURSIVE_WAIT_DEADLOCK =
     (Some ''This run will never execute because it was triggered recursively and the task has no remaining concurrency available.'',
      Some (plain_link ''See docs for help''
        ''https://trigger.dev/docs/queue-concurrency#waiting-for-a-subtask-on-the-same-queue''))"
| "prettyInternalErrors TASK_RUN_STALLED_EXECUTING =
     (None, Some (plain_link ''Read our troubleshooting guide''
        ''https://trigger.dev/docs/troubleshooting#task-run-stalled-executing''))"
| "prettyInternalErrors TASK_RUN_UNCAUGHT_EXCEPTION =
     (None, Some (plain_link ''Read our troubleshooting guide''
        ''https://trigger.dev/docs/troubleshooting#uncaught-exceptions''))"
| "prettyInternalErrors _ = (None, None)"

text \<open>
  An enhanced error is an error with an optional link. \<open>getPrettyTaskRunError\<close> has no stack
  trace, and a message only where the table has one.
\<close>

type_synonym enhanced_error = "task_run_error \<times> error_link option"

definition getPrettyTaskRunError :: "error_code \<Rightarrow> enhanced_error" where
  "getPrettyTaskRunError code =
     (INTERNAL_ERROR code (fst (prettyInternalErrors code)) None, snd (prettyInternalErrors code))"

datatype signal = SIGTERM | SIGSEGV | SIGKILL | SIGABRT

definition findSignalInMessage :: "string option \<Rightarrow> signal option" where
  "findSignalInMessage message =
     (case message of None \<Rightarrow> None
      | Some m \<Rightarrow>
          if m = [] then None
          else (let trunc = take 100 m in
                if js_includes trunc ''SIGTERM'' then Some SIGTERM
                else if js_includes trunc ''SIGSEGV'' then Some SIGSEGV
                else if js_includes trunc ''SIGKILL'' then Some SIGKILL
                else if js_includes trunc ''SIGABRT'' then Some SIGABRT
                else None))"

text \<open>
  The two \<open>switch (signal)\<close> blocks of the source are the same: they differ in where the
  default case takes its message and its stack trace from.
\<close>

fun enhance_exit :: "signal option \<Rightarrow> string option \<Rightarrow> string option \<Rightarrow> enhanced_error" where
  "enhance_exit (Some SIGTERM) message stackTrace = getPrettyTaskRunError TASK_PROCESS_SIGTERM"
| "enhance_exit (Some SIGSEGV) message stackTrace = getPrettyTaskRunError TASK_PROCESS_SIGSEGV"
| "enhance_exit (Some SIGKILL) message stackTrace =
     getPrettyTaskRunError TASK_PROCESS_MAYBE_OOM_KILLED"
| "enhance_exit (Some SIGABRT) message stackTrace =
     getPrettyTaskRunError TASK_PROCESS_MAYBE_OOM_KILLED"
| "enhance_exit None message stackTrace =
     (INTERNAL_ERROR TASK_PROCESS_EXITED_WITH_NON_ZERO_CODE message stackTrace,
      snd (prettyInternalErrors TASK_PROCESS_EXITED_WITH_NON_ZERO_CODE))"

fun taskRunErrorEnhancer :: "task_run_error \<Rightarrow> enhanced_error" where
  "taskRunErrorEnhancer (BUILT_IN_ERROR name message stackTrace) =
     (if name = ''UnexpectedExitError'' \<and> js_startsWith message ''Unexpected exit with code -1''
      then enhance_exit (findSignalInMessage (Some stackTrace)) (Some message) (Some stackTrace)
      else if name = ''Error'' \<and> message = ''ffmpeg was killed with signal SIGKILL''
      then getPrettyTaskRunError TASK_PROCESS_OOM_KILLED
      else if isManualOutOfMemoryError (BUILT_IN_ERROR name message stackTrace)
      then getPrettyTaskRunError TASK_PROCESS_OOM_KILLED
      else if name = ''TriggerApiError'' \<and> js_startsWith message ''Deadlock detected:''
      then (BUILT_IN_ERROR ''Concurrency Deadlock Error'' message [],
            Some (plain_link ''Read the docs''
              ''https://trigger.dev/docs/queue-concurrency#deadlock''))
      else (BUILT_IN_ERROR name message stackTrace, None))"
| "taskRunErrorEnhancer (STRING_ERROR raw) = (STRING_ERROR raw, None)"
| "taskRunErrorEnhancer (CUSTOM_ERROR raw) = (CUSTOM_ERROR raw, None)"
| "taskRunErrorEnhancer (INTERNAL_ERROR code message stackTrace) =
     (if code = TASK_PROCESS_EXITED_WITH_NON_ZERO_CODE
      then enhance_exit (findSignalInMessage message) message stackTrace
      else (INTERNAL_ERROR code
              (case fst (prettyInternalErrors code) of None \<Rightarrow> message | Some m \<Rightarrow> Some m) stackTrace,
            snd (prettyInternalErrors code)))"

text \<open>\<open>SerializedError\<close>: message, and name and stack trace where the error has them.\<close>

record serialized_error =
  se_message :: string
  se_name :: "string option"
  se_stackTrace :: "string option"

fun json_error_of :: "task_run_error \<Rightarrow> serialized_error" where
  "json_error_of (BUILT_IN_ERROR name message stackTrace) =
     \<lparr>se_message = message, se_name = Some name, se_stackTrace = Some stackTrace\<rparr>"
| "json_error_of (STRING_ERROR raw) = \<lparr>se_message = raw, se_name = None, se_stackTrace = None\<rparr>"
| "json_error_of (CUSTOM_ERROR raw) = \<lparr>se_message = raw, se_name = None, se_stackTrace = None\<rparr>"
| "json_error_of (INTERNAL_ERROR code message stackTrace) =
     \<lparr>se_message = ''trigger.dev internal error ('' @ code_name code @ '')'',
      se_name = None, se_stackTrace = None\<rparr>"

definition createJsonErrorObject :: "task_run_error \<Rightarrow> serialized_error" where
  "createJsonErrorObject e = json_error_of (fst (taskRunErrorEnhancer e))"

fun taskRunErrorToString :: "task_run_error \<Rightarrow> string" where
  "taskRunErrorToString (INTERNAL_ERROR code message stackTrace) =
     ''Internal error ['' @ code_name code @ '']'' @
     (case message of None \<Rightarrow> [] | Some m \<Rightarrow> if m = [] then [] else '': '' @ m)"
| "taskRunErrorToString (BUILT_IN_ERROR name message stackTrace) = name @ '': '' @ message"
| "taskRunErrorToString (STRING_ERROR raw) = raw"
| "taskRunErrorToString (CUSTOM_ERROR raw) = raw"

text \<open>\<open>JSON.stringify(error)\<close>, with the keys in the order the source builds them.\<close>

definition json_opt :: "string \<Rightarrow> string option \<Rightarrow> (string \<times> string) list" where
  "json_opt k v = (case v of None \<Rightarrow> [] | Some s \<Rightarrow> [(k, json_string s)])"

fun stringify_error :: "task_run_error \<Rightarrow> string" where
  "stringify_error (BUILT_IN_ERROR name message stackTrace) =
     json_object [(''type'', json_string ''BUILT_IN_ERROR''), (''name'', json_string name),
       (''message'', json_string message), (''stackTrace'', json_string stackTrace)]"
| "stringify_error (CUSTOM_ERROR raw) =
     json_object [(''type'', json_string ''CUSTOM_ERROR''), (''raw'', json_string raw)]"
| "stringify_error (STRING_ERROR raw) =
     json_object [(''type'', json_string ''STRING_ERROR''), (''raw'', json_string raw)]"
| "stringify_error (INTERNAL_ERROR code message stackTrace) =
     json_object ([(''type'', json_string ''INTERNAL_ERROR''), (''code'', json_string (code_name code))]
       @ json_opt ''message'' message @ json_opt ''stackTrace'' stackTrace)"

section \<open>Errors of a process that exited\<close>

definition int_to_string :: "int \<Rightarrow> string" where
  "int_to_string i = (if i < 0 then ''-'' @ nat_to_string (nat (- i)) else nat_to_string (nat i))"

record unexpected_exit =
  exit_code :: int
  exit_signal :: "string option"
  exit_stderr :: "string option"

definition internalErrorFromUnexpectedExit :: "unexpected_exit \<Rightarrow> bool \<Rightarrow> task_run_error" where
  "internalErrorFromUnexpectedExit e dockerMode =
     (let msg = ''Process exited with code '' @ int_to_string (exit_code e) @ '' after signal '' @
            (case exit_signal e of None \<Rightarrow> ''null'' | Some s \<Rightarrow> s) @ ''.'';
          with_code = (\<lambda>code. INTERNAL_ERROR code (Some msg) (exit_stderr e))
      in if exit_code e = 137
         then (if dockerMode then with_code TASK_PROCESS_OOM_KILLED
               else with_code TASK_PROCESS_MAYBE_OOM_KILLED)
         else if (case exit_stderr e of None \<Rightarrow> False | Some s \<Rightarrow> js_includes s ''OOMErrorHandler'')
         then with_code TASK_PROCESS_OOM_KILLED
         else if exit_signal e = Some ''SIGTERM'' then with_code TASK_PROCESS_SIGTERM
         else with_code TASK_PROCESS_EXITED_WITH_NON_ZERO_CODE)"

section \<open>What truncation and sanitising guarantee\<close>

lemma safe_line_length: "length (safe_line l) \<le> MAX_STACK_LINE_LENGTH + 14"
  by (simp add: safe_line_def)

lemma safe_line_id: "length l \<le> MAX_STACK_LINE_LENGTH \<Longrightarrow> safe_line l = l"
  by (simp add: safe_line_def)

lemma split_stack_frames_append:
  "fs \<noteq> [] \<Longrightarrow> split_stack ls ms fs = (ms, fs @ map safe_line ls)"
  by (induction ls arbitrary: fs) auto

lemma split_stack_lines:
  "split_stack ls ms [] = (ms', fs') \<Longrightarrow> ms' @ fs' = ms @ map safe_line ls"
proof (induction ls arbitrary: ms)
  case (Cons l ls)
  then show ?case
    by (cases "is_frame_line l") (auto simp: split_stack_frames_append)
qed auto

lemma truncate_frames_length: "length (truncate_frames fs) \<le> MAX_STACK_FRAMES + 1"
  by (auto simp: truncate_frames_def limits)

lemma truncate_frames_ends:
  "length fs > MAX_STACK_FRAMES \<Longrightarrow>
   take KEEP_TOP_FRAMES (truncate_frames fs) = take KEEP_TOP_FRAMES fs
   \<and> last (truncate_frames fs) = last fs"
  by (auto simp: truncate_frames_def limits last_drop)

text \<open>A stack with few frames and no overlong line is stored as it is.\<close>

lemma truncateStack_unchanged:
  assumes short: "\<forall>l \<in> set (js_split newline s). length l \<le> MAX_STACK_LINE_LENGTH"
    and few: "length (snd (split_stack (js_split newline s) [] [])) \<le> MAX_STACK_FRAMES"
  shows "truncateStack (Some s) = s"
proof -
  obtain ms fs where sp: "split_stack (js_split newline s) [] [] = (ms, fs)"
    by fastforce
  have "map safe_line (js_split newline s) = js_split newline s"
    using short by (simp add: safe_line_id map_idI)
  with split_stack_lines [OF sp] have "ms @ fs = js_split newline s"
    by simp
  moreover have "truncate_frames fs = fs"
    using few sp by (simp add: truncate_frames_def)
  ultimately show ?thesis
    using sp by (simp add: truncateStack_def js_join_split)
qed

lemma truncateMessage_length: "length (truncateMessage m) \<le> MAX_MESSAGE_LENGTH + 14"
  by (simp add: truncateMessage_def split: option.split)

lemma truncateMessage_prefix:
  "truncateMessage (Some m) = m
   \<or> truncateMessage (Some m) = take MAX_MESSAGE_LENGTH m @ ''...[truncated]''"
  by (simp add: truncateMessage_def)

lemma remove_nul_no_nul [simp]: "CHR 0x00 \<notin> set (remove_nul s)"
  by (simp add: remove_nul_def)

lemma remove_nul_id: "CHR 0x00 \<notin> set s \<Longrightarrow> remove_nul s = s"
  unfolding remove_nul_def by (rule filter_True) metis

lemma set_truncateMessage:
  "c \<in> set (truncateMessage (Some m)) \<Longrightarrow> c \<in> set m \<or> c \<in> set ''...[truncated]''"
  by (auto simp: truncateMessage_def split: if_splits dest: in_set_takeD)

lemma set_js_join: "c \<in> set (js_join sep xs) \<Longrightarrow> c \<in> set sep \<or> (\<exists>x \<in> set xs. c \<in> set x)"
  by (induction sep xs rule: js_join.induct) auto

lemma in_js_join: "x \<in> set xs \<Longrightarrow> c \<in> set x \<Longrightarrow> c \<in> set (js_join sep xs)"
  by (induction sep xs rule: js_join.induct) auto

lemma set_js_split: "x \<in> set (js_split d s) \<Longrightarrow> c \<in> set x \<Longrightarrow> c \<in> set s"
  using in_js_join [of x "js_split d s" c "[d]"] by (simp add: js_join_split)

lemma set_safe_line: "c \<in> set (safe_line l) \<Longrightarrow> c \<in> set l \<or> c \<in> set ''...[truncated]''"
  by (auto simp: safe_line_def split: if_splits dest: in_set_takeD)

lemma set_truncate_frames:
  "f \<in> set (truncate_frames fs) \<Longrightarrow> f \<in> set fs \<or> (\<exists>n. f = omitted_line n)"
  by (auto simp: truncate_frames_def split: if_splits dest: in_set_takeD in_set_dropD)

lemma omitted_line_no_nul: "CHR 0x00 \<notin> set (omitted_line n)"
  using nat_to_string_digits [of n] by (auto simp: omitted_line_def is_digit_def)

lemma truncateStack_no_nul:
  assumes "CHR 0x00 \<notin> set s" shows "CHR 0x00 \<notin> set (truncateStack (Some s))"
proof
  assume a: "CHR 0x00 \<in> set (truncateStack (Some s))"
  obtain ms fs where sp: "split_stack (js_split newline s) [] [] = (ms, fs)"
    by fastforce
  have lines: "x \<in> set (ms @ fs) \<Longrightarrow> CHR 0x00 \<notin> set x" for x
    unfolding split_stack_lines [OF sp, simplified] using assms
    by (auto dest!: set_safe_line dest: set_js_split)
  from a sp obtain x where "x \<in> set (ms @ truncate_frames fs)" "CHR 0x00 \<in> set x"
    by (auto simp: truncateStack_def newline_def split: if_splits dest!: set_js_join)
  with lines show False
    by (auto dest!: set_truncate_frames simp: omitted_line_no_nul)
qed

text \<open>The texts of an error that are stored in the database.\<close>

fun error_texts :: "task_run_error \<Rightarrow> string list" where
  "error_texts (BUILT_IN_ERROR name message stackTrace) = [name, message, stackTrace]"
| "error_texts (CUSTOM_ERROR raw) = [raw]"
| "error_texts (STRING_ERROR raw) = [raw]"
| "error_texts (INTERNAL_ERROR code message stackTrace) =
     (case message of None \<Rightarrow> [] | Some m \<Rightarrow> [m]) @ (case stackTrace of None \<Rightarrow> [] | Some s \<Rightarrow> [s])"

fun error_message :: "task_run_error \<Rightarrow> string option" where
  "error_message (BUILT_IN_ERROR name message stackTrace) = Some message"
| "error_message (STRING_ERROR raw) = Some raw"
| "error_message (CUSTOM_ERROR raw) = None"
| "error_message (INTERNAL_ERROR code message stackTrace) = message"

lemma hex_digit_nonzero [simp]: "n < 16 \<Longrightarrow> CHR 0x00 \<noteq> hex_digit n"
proof -
  assume n: "n < 16"
  have "CHR 0x00 = hex_digit n \<Longrightarrow> (of_char (hex_digit n) :: nat) = 0"
    by (drule sym) simp
  moreover have "(of_char (hex_digit n) :: nat) \<noteq> 0"
    using n by (simp add: hex_digit_def)
  ultimately show ?thesis by blast
qed

lemma json_escape_char_no_nul: "CHR 0x00 \<noteq> c \<Longrightarrow> CHR 0x00 \<notin> set (json_escape_char c)"
  by (simp add: json_escape_char_def split: if_split)

lemma json_string_no_nul: "CHR 0x00 \<notin> set s \<Longrightarrow> CHR 0x00 \<notin> set (json_string s)"
  unfolding json_string_def by (induction s) (simp_all add: json_escape_char_no_nul)

lemma no_nul_truncated: "CHR 0x00 \<notin> set s \<Longrightarrow> CHR 0x00 \<notin> set (truncateMessage (Some s))"
  using set_truncateMessage [of "CHR 0x00" s] by auto

lemma json_object_preview_no_nul:
  "CHR 0x00 \<notin> set s \<Longrightarrow>
   CHR 0x00 \<notin> set (json_object [(''truncated'', ''true''), (''preview'', json_string s)])"
  using json_string_no_nul [of s]
  by (auto simp: json_object_def json_string_def json_escape_char_def)

text \<open>What sanitising keeps: the kind of the error, with the code of an internal one.\<close>

fun same_kind :: "task_run_error \<Rightarrow> task_run_error \<Rightarrow> bool" where
  "same_kind (BUILT_IN_ERROR _ _ _) (BUILT_IN_ERROR _ _ _) = True"
| "same_kind (CUSTOM_ERROR _) (CUSTOM_ERROR _) = True"
| "same_kind (STRING_ERROR _) (STRING_ERROR _) = True"
| "same_kind (INTERNAL_ERROR code message stackTrace) (INTERNAL_ERROR code' message' stackTrace') =
     (code = code' \<and> (message = None) = (message' = None) \<and> (stackTrace = None) = (stackTrace' = None))"
| "same_kind _ _ = False"

lemma sanitized_texts: "list_all (\<lambda>t. CHR 0x00 \<notin> set t) (error_texts (sanitizeError e))"
proof (cases e)
  case (CUSTOM_ERROR raw)
  have "CHR 0x00 \<notin> set (take MAX_MESSAGE_LENGTH (remove_nul raw))"
    using remove_nul_no_nul [of raw] by (meson in_set_takeD)
  from json_object_preview_no_nul [OF this] CUSTOM_ERROR show ?thesis
    by (simp add: Let_def)
qed (simp_all add: no_nul_truncated truncateStack_no_nul split: option.split)

lemma sanitized_length:
  "case error_message (sanitizeError e) of None \<Rightarrow> True | Some m \<Rightarrow> length m \<le> MAX_MESSAGE_LENGTH + 14"
  by (cases e) (simp_all add: truncateMessage_length Let_def split: option.split)

lemma sanitized_kind: "same_kind e (sanitizeError e)"
  by (cases e) (simp_all add: Let_def split: option.split)

text \<open>
  Truncating a stack is not idempotent: the omission marker counts as a frame, so a stack of
  more than 50 frames has 51 after one pass, and a second pass drops the marker that said how
  many frames were omitted and writes that one was.
\<close>

theorem truncate_frames_not_idempotent:
  assumes "length fs > MAX_STACK_FRAMES"
  shows "length (truncate_frames fs) = MAX_STACK_FRAMES + 1
    \<and> truncate_frames (truncate_frames fs)
        = take KEEP_TOP_FRAMES fs @ [omitted_line 1]
          @ drop (length fs - (MAX_STACK_FRAMES - KEEP_TOP_FRAMES)) fs"
  using assms by (simp add: truncate_frames_def limits min_def)

theorem truncate_frames_not_idempotent_witness:
  "truncate_frames (truncate_frames (replicate 60 ''at f''))
     = replicate 5 ''at f'' @ [omitted_line 1] @ replicate 45 ''at f''"
  using truncate_frames_not_idempotent [of "replicate 60 ''at f''"] by (simp add: limits)

end
