(* ===== verification/Statuses.thy ===== *)
theory Statuses
  imports TaskErrors
begin

text \<open>
  The two status enumerations of a run (the run's own status and the execution status of its
  latest snapshot), the classifications of \<open>run-engine/src/engine/statuses.ts\<close>, and the
  status a run gets from the error that ended it (\<open>run-engine/src/engine/errors.ts\<close>).

  Both enumerations have a \<open>DELAYED\<close> and an \<open>EXECUTING\<close>; without a qualifier these names are
  the execution statuses.
\<close>

section \<open>The enumerations\<close>

datatype TaskRunStatus =
    DELAYED | PENDING | PENDING_VERSION | WAITING_FOR_DEPLOY | DEQUEUED | EXECUTING
  | WAITING_TO_RESUME | RETRYING_AFTER_FAILURE | PAUSED | CANCELED | INTERRUPTED
  | COMPLETED_SUCCESSFULLY | COMPLETED_WITH_ERRORS | SYSTEM_FAILURE | CRASHED | EXPIRED
  | TIMED_OUT

datatype TaskRunExecutionStatus =
    RUN_CREATED | DELAYED | QUEUED | QUEUED_EXECUTING | PENDING_EXECUTING | EXECUTING
  | EXECUTING_WITH_WAITPOINTS | SUSPENDED | PENDING_CANCEL | FINISHED

datatype RuntimeEnvironmentType = PRODUCTION | STAGING | DEVELOPMENT | PREVIEW

section \<open>Classifications\<close>

definition isDequeueableExecutionStatus :: "TaskRunExecutionStatus \<Rightarrow> bool" where
  "isDequeueableExecutionStatus status = (status \<in> {QUEUED, QUEUED_EXECUTING})"

definition isExecuting :: "TaskRunExecutionStatus \<Rightarrow> bool" where
  "isExecuting status = (status \<in> {EXECUTING, EXECUTING_WITH_WAITPOINTS})"

definition isPendingExecuting :: "TaskRunExecutionStatus \<Rightarrow> bool" where
  "isPendingExecuting status = (status \<in> {PENDING_EXECUTING})"

definition isCheckpointable :: "TaskRunExecutionStatus \<Rightarrow> bool" where
  "isCheckpointable status =
     (status \<in> {RUN_CREATED, QUEUED, EXECUTING, EXECUTING_WITH_WAITPOINTS, QUEUED_EXECUTING})"

definition isFinishedOrPendingFinished :: "TaskRunExecutionStatus \<Rightarrow> bool" where
  "isFinishedOrPendingFinished status = (status \<in> {FINISHED, PENDING_CANCEL})"

definition isInitialState :: "TaskRunExecutionStatus \<Rightarrow> bool" where
  "isInitialState status = (status \<in> {RUN_CREATED, DELAYED})"

definition finalStatuses :: "TaskRunStatus list" where
  "finalStatuses =
     [CANCELED, INTERRUPTED, COMPLETED_SUCCESSFULLY, COMPLETED_WITH_ERRORS, SYSTEM_FAILURE,
      CRASHED, EXPIRED, TIMED_OUT]"

definition isFinalRunStatus :: "TaskRunStatus \<Rightarrow> bool" where
  "isFinalRunStatus status = (status \<in> set finalStatuses)"

lemmas status_simps =
  isDequeueableExecutionStatus_def isExecuting_def isPendingExecuting_def isCheckpointable_def
  isFinishedOrPendingFinished_def isInitialState_def

section \<open>The status an error leads to\<close>

fun runStatusFromError :: "task_run_error \<Rightarrow> RuntimeEnvironmentType \<Rightarrow> TaskRunStatus" where
  "runStatusFromError (INTERNAL_ERROR code _ _) environmentType =
     (case code of
        RECURSIVE_WAIT_DEADLOCK \<Rightarrow> COMPLETED_WITH_ERRORS
      | TASK_INPUT_ERROR \<Rightarrow> COMPLETED_WITH_ERRORS
      | TASK_OUTPUT_ERROR \<Rightarrow> COMPLETED_WITH_ERRORS
      | TASK_MIDDLEWARE_ERROR \<Rightarrow> COMPLETED_WITH_ERRORS
      | TASK_RUN_UNCAUGHT_EXCEPTION \<Rightarrow> COMPLETED_WITH_ERRORS
      | TASK_RUN_CANCELLED \<Rightarrow> CANCELED
      | MAX_DURATION_EXCEEDED \<Rightarrow> TIMED_OUT
      | TASK_RUN_STALLED_EXECUTING \<Rightarrow>
          (if environmentType = DEVELOPMENT then CANCELED else COMPLETED_WITH_ERRORS)
      | TASK_RUN_STALLED_EXECUTING_WITH_WAITPOINTS \<Rightarrow>
          (if environmentType = DEVELOPMENT then CANCELED else COMPLETED_WITH_ERRORS)
      | TASK_PROCESS_OOM_KILLED \<Rightarrow> CRASHED
      | TASK_PROCESS_MAYBE_OOM_KILLED \<Rightarrow> CRASHED
      | TASK_PROCESS_SIGSEGV \<Rightarrow> CRASHED
      | DISK_SPACE_EXCEEDED \<Rightarrow> CRASHED
      | OUTDATED_SDK_VERSION \<Rightarrow> CRASHED
      | HANDLE_ERROR_ERROR \<Rightarrow> CRASHED
      | TASK_RUN_CRASHED \<Rightarrow> CRASHED
      | TASK_PROCESS_EXITED_WITH_NON_ZERO_CODE \<Rightarrow> CRASHED
      | COULD_NOT_FIND_EXECUTOR \<Rightarrow> SYSTEM_FAILURE
      | COULD_NOT_FIND_TASK \<Rightarrow> SYSTEM_FAILURE
      | COULD_NOT_IMPORT_TASK \<Rightarrow> SYSTEM_FAILURE
      | CONFIGURED_INCORRECTLY \<Rightarrow> SYSTEM_FAILURE
      | TASK_ALREADY_RUNNING \<Rightarrow> SYSTEM_FAILURE
      | TASK_PROCESS_SIGKILL_TIMEOUT \<Rightarrow> SYSTEM_FAILURE
      | TASK_RUN_HEARTBEAT_TIMEOUT \<Rightarrow> SYSTEM_FAILURE
      | TASK_DEQUEUED_INVALID_STATE \<Rightarrow> SYSTEM_FAILURE
      | TASK_DEQUEUED_QUEUE_NOT_FOUND \<Rightarrow> SYSTEM_FAILURE
      | TASK_RUN_DEQUEUED_MAX_RETRIES \<Rightarrow> SYSTEM_FAILURE
      | TASK_HAS_N0_EXECUTION_SNAPSHOT \<Rightarrow> SYSTEM_FAILURE
      | GRACEFUL_EXIT_TIMEOUT \<Rightarrow> SYSTEM_FAILURE
      | POD_EVICTED \<Rightarrow> SYSTEM_FAILURE
      | POD_UNKNOWN_ERROR \<Rightarrow> SYSTEM_FAILURE
      | TASK_EXECUTION_ABORTED \<Rightarrow> SYSTEM_FAILURE
      | TASK_EXECUTION_FAILED \<Rightarrow> SYSTEM_FAILURE
      | TASK_PROCESS_SIGTERM \<Rightarrow> SYSTEM_FAILURE
      | TASK_DID_CONCURRENT_WAIT \<Rightarrow> SYSTEM_FAILURE
      | BATCH_ITEM_COULD_NOT_TRIGGER \<Rightarrow> SYSTEM_FAILURE
      | PAYLOAD_TOO_LARGE \<Rightarrow> SYSTEM_FAILURE
      | UNSPECIFIED_ERROR \<Rightarrow> SYSTEM_FAILURE)"
| "runStatusFromError (STRING_ERROR _) environmentType = COMPLETED_WITH_ERRORS"
| "runStatusFromError (BUILT_IN_ERROR _ _ _) environmentType = COMPLETED_WITH_ERRORS"
| "runStatusFromError (CUSTOM_ERROR _) environmentType = COMPLETED_WITH_ERRORS"

section \<open>What the components rely on\<close>

lemma runStatusFromError_range:
  "runStatusFromError e env \<in> {COMPLETED_WITH_ERRORS, CANCELED, TIMED_OUT, CRASHED, SYSTEM_FAILURE}"
  by (cases e; simp split: error_code.split)

lemma isFinalRunStatus_runStatusFromError [simp]: "isFinalRunStatus (runStatusFromError e env)"
  using runStatusFromError_range [of e env] by (auto simp: isFinalRunStatus_def finalStatuses_def)

lemma isFinal_simps [simp]:
  "isFinalRunStatus CANCELED" "isFinalRunStatus COMPLETED_SUCCESSFULLY"
  "isFinalRunStatus COMPLETED_WITH_ERRORS" "isFinalRunStatus SYSTEM_FAILURE"
  "isFinalRunStatus CRASHED" "isFinalRunStatus EXPIRED" "isFinalRunStatus TIMED_OUT"
  "isFinalRunStatus INTERRUPTED"
  "\<not> isFinalRunStatus PENDING" "\<not> isFinalRunStatus DEQUEUED"
  "\<not> isFinalRunStatus TaskRunStatus.EXECUTING" "\<not> isFinalRunStatus TaskRunStatus.DELAYED"
  "\<not> isFinalRunStatus RETRYING_AFTER_FAILURE" "\<not> isFinalRunStatus WAITING_TO_RESUME"
  "\<not> isFinalRunStatus PENDING_VERSION" "\<not> isFinalRunStatus WAITING_FOR_DEPLOY"
  "\<not> isFinalRunStatus PAUSED"
  by (simp_all add: isFinalRunStatus_def finalStatuses_def)

text \<open>
  An error never makes a run look successful or unfinished: whatever error ends a run, in
  whatever environment, the status it gets is final and is not \<open>COMPLETED_SUCCESSFULLY\<close>; and
  it is \<open>CANCELED\<close> only for a cancellation or, in a development environment, a stalled
  attempt.
\<close>

theorem runStatusFromError_sound:
  "isFinalRunStatus (runStatusFromError e env)
   \<and> runStatusFromError e env \<noteq> COMPLETED_SUCCESSFULLY
   \<and> (runStatusFromError e env = CANCELED \<longleftrightarrow>
        (\<exists>m st. e = INTERNAL_ERROR TASK_RUN_CANCELLED m st)
      \<or> (env = DEVELOPMENT \<and>
          (\<exists>m st. e = INTERNAL_ERROR TASK_RUN_STALLED_EXECUTING m st
                \<or> e = INTERNAL_ERROR TASK_RUN_STALLED_EXECUTING_WITH_WAITPOINTS m st)))"
  using runStatusFromError_range [of e env]
  by (cases e) (auto split: error_code.splits if_splits)

text \<open>Errors of a kind are treated alike.\<close>

lemma kind_decides:
  assumes "same_kind e e'"
  shows "runStatusFromError e env = runStatusFromError e' env" "shouldRetryError e = shouldRetryError e'"
    "shouldLookupRetrySettings e = shouldLookupRetrySettings e'"
  using assms by (cases e; cases e'; simp)+

text \<open>
  C37. What is stored for an error is safe to store, and the error stays what it is: sanitising removes
  every NUL character (which Postgres rejects) from every text of the error, keeps the message of an error
  that has one within 1000 characters and the truncation marker, keeps the kind of the error with the code
  of an internal one, and so changes neither the status the error gives a run in any environment nor
  whether it may be retried, with or without a look at the task's retry settings.
\<close>

theorem sanitizeError_safe:
  "list_all (\<lambda>t. CHR 0x00 \<notin> set t) (error_texts (sanitizeError e))
   \<and> (case error_message (sanitizeError e) of None \<Rightarrow> True
      | Some m \<Rightarrow> length m \<le> MAX_MESSAGE_LENGTH + 14)
   \<and> same_kind e (sanitizeError e)
   \<and> runStatusFromError (sanitizeError e) env = runStatusFromError e env
   \<and> shouldRetryError (sanitizeError e) = shouldRetryError e
   \<and> shouldLookupRetrySettings (sanitizeError e) = shouldLookupRetrySettings e"
  using sanitized_texts [of e] sanitized_length [of e] sanitized_kind [of e]
    kind_decides(1) [OF sanitized_kind [of e], of env] kind_decides(2,3) [OF sanitized_kind [of e]] by (simp only: simp_thms)

end
