(* ===== verification/FriendlyId.thy ===== *)
theory FriendlyId
  imports Prelude "HOL-Library.Word"
begin

text \<open>
  Identifiers (\<open>packages/core/src/v3/isomorphic/friendlyId.ts\<close>, \<open>runOpsResidency.ts\<close>): the
  base32hex codec on its 32-bit shift register, minting and parsing of run ids of both
  generations and of webhook delivery ids, friendly ids, and the store an id belongs to.

  A byte is an \<open>8 word\<close>, the shift register \<open>buf\<close> a \<open>32 word\<close> (the operands of JavaScript's
  bitwise operators), a \<open>Date\<close> its milliseconds. The clock and the random bytes are arguments
  of the functions that mint.
\<close>

unbundle bit_operations_syntax

section \<open>base32hex\<close>

definition RUN_OPS_ID_ALPHABET :: string where
  "RUN_OPS_ID_ALPHABET = ''0123456789abcdefghijklmnopqrstuv''"

definition RUN_OPS_ID_LENGTH :: nat where "RUN_OPS_ID_LENGTH = 26"
definition RUN_OPS_ID_REGION_INDEX :: nat where "RUN_OPS_ID_REGION_INDEX = 24"
definition RUN_OPS_ID_VERSION_INDEX :: nat where "RUN_OPS_ID_VERSION_INDEX = 25"
definition RUN_OPS_ID_VERSION :: char where "RUN_OPS_ID_VERSION = CHR ''1''"
definition RUN_OPS_ID_VERSION_2 :: char where "RUN_OPS_ID_VERSION_2 = CHR ''2''"
definition RUN_OPS_ID_CORE_LENGTH :: nat where "RUN_OPS_ID_CORE_LENGTH = 24"
definition RUN_OPS_ID_TIMESTAMP_BYTES :: nat where "RUN_OPS_ID_TIMESTAMP_BYTES = 6"

lemmas run_ops_consts =
  RUN_OPS_ID_LENGTH_def RUN_OPS_ID_REGION_INDEX_def RUN_OPS_ID_VERSION_INDEX_def
  RUN_OPS_ID_VERSION_def RUN_OPS_ID_VERSION_2_def RUN_OPS_ID_CORE_LENGTH_def
  RUN_OPS_ID_TIMESTAMP_BYTES_def

text \<open>The \<open>while (bits >= 5)\<close> loop, with the text it appends.\<close>

function emit5 :: "32 word \<Rightarrow> nat \<Rightarrow> string \<times> nat" where
  "emit5 buf bits =
     (if bits \<ge> 5
      then (let (out, bits') = emit5 buf (bits - 5)
            in (RUN_OPS_ID_ALPHABET ! unat (signed_drop_bit (bits - 5) buf AND 31) # out, bits'))
      else ([], bits))"
  by pat_completeness auto

termination emit5
  by (relation "measure snd") auto

declare emit5.simps [simp del]

fun encode_loop :: "8 word list \<Rightarrow> 32 word \<Rightarrow> nat \<Rightarrow> string" where
  "encode_loop [] buf bits = []"
| "encode_loop (b # bytes) buf bits =
     (let buf' = push_bit 8 buf OR ucast b;
          (out, bits') = emit5 buf' (bits + 8)
      in out @ encode_loop bytes buf' bits')"

definition base32hexEncode :: "8 word list \<Rightarrow> string" where
  "base32hexEncode bytes = encode_loop bytes 0 0"

text \<open>\<open>indexOf\<close> of a character; \<open>None\<close> is \<open>-1\<close>.\<close>

fun char_index :: "string \<Rightarrow> char \<Rightarrow> nat option" where
  "char_index [] c = None"
| "char_index (a # as) c = (if a = c then Some 0 else map_option Suc (char_index as c))"

fun decode_loop :: "string \<Rightarrow> 32 word \<Rightarrow> nat \<Rightarrow> 8 word list option" where
  "decode_loop [] buf bits = Some []"
| "decode_loop (c # cs) buf bits =
     (case char_index RUN_OPS_ID_ALPHABET c of
        None \<Rightarrow> None
      | Some v \<Rightarrow>
          (let buf' = push_bit 5 buf OR word_of_nat v
           in if bits + 5 \<ge> 8
              then map_option
                     (\<lambda>out. ucast (signed_drop_bit (bits + 5 - 8) buf' AND 0xff) # out)
                     (decode_loop cs buf' (bits + 5 - 8))
              else decode_loop cs buf' (bits + 5)))"

text \<open>\<open>None\<close> is the exception \<open>invalid run id char\<close>.\<close>

definition base32hexDecode :: "string \<Rightarrow> 8 word list option" where
  "base32hexDecode s = decode_loop s 0 0"

section \<open>Minting\<close>

definition REGION_CODES :: "string \<Rightarrow> char option" where
  "REGION_CODES = map_of [(''us-east-1'', CHR ''e''), (''us-west-2'', CHR ''w''),
                          (''eu-central-1'', CHR ''c'')]"

definition DEFAULT_REGION_CHAR :: char where "DEFAULT_REGION_CHAR = CHR ''0''"

definition regionCharForRegion :: "string option \<Rightarrow> char" where
  "regionCharForRegion region =
     (case region of None \<Rightarrow> DEFAULT_REGION_CHAR
      | Some r \<Rightarrow>
          (if r = [] then DEFAULT_REGION_CHAR
           else (case REGION_CODES r of None \<Rightarrow> DEFAULT_REGION_CHAR | Some c \<Rightarrow> c)))"

text \<open>\<open>/^[a-z0-9]$/\<close>.\<close>

definition is_region_char :: "char \<Rightarrow> bool" where
  "is_region_char c =
     ((48 \<le> (of_char c :: nat) \<and> (of_char c :: nat) \<le> 57)
    \<or> (97 \<le> (of_char c :: nat) \<and> (of_char c :: nat) \<le> 122))"

text \<open>The loop that writes the \<open>n\<close> low bytes of \<open>ms\<close>, last byte first.\<close>

fun timestamp_bytes :: "nat \<Rightarrow> nat \<Rightarrow> 8 word list" where
  "timestamp_bytes 0 ms = []"
| "timestamp_bytes (Suc n) ms = timestamp_bytes n (ms div 256) @ [word_of_nat (ms mod 256)]"

definition mintRunOpsIdCore :: "nat \<Rightarrow> 8 word list \<Rightarrow> string" where
  "mintRunOpsIdCore now random = base32hexEncode (timestamp_bytes RUN_OPS_ID_TIMESTAMP_BYTES now @ random)"

definition generateRunOpsId :: "nat \<Rightarrow> 8 word list \<Rightarrow> string option \<Rightarrow> string" where
  "generateRunOpsId now random region =
     mintRunOpsIdCore now random @ [regionCharForRegion region, RUN_OPS_ID_VERSION]"

text \<open>\<open>None\<close> is the exception \<open>invalid run-ops shard char\<close>.\<close>

definition generateRunOpsIdV2 :: "nat \<Rightarrow> 8 word list \<Rightarrow> string \<Rightarrow> string option" where
  "generateRunOpsIdV2 now random shardChar =
     (case shardChar of
        [c] \<Rightarrow> (if is_region_char c
                then Some (mintRunOpsIdCore now random @ [c, RUN_OPS_ID_VERSION_2]) else None)
      | _ \<Rightarrow> None)"

section \<open>Parsing\<close>

text \<open>The loop over the first bytes of the core; \<open>core[i] ?? 0\<close>.\<close>

fun bytes_to_ms :: "nat \<Rightarrow> 8 word list \<Rightarrow> nat \<Rightarrow> nat" where
  "bytes_to_ms 0 core ms = ms"
| "bytes_to_ms (Suc n) [] ms = bytes_to_ms n [] (ms * 256)"
| "bytes_to_ms (Suc n) (b # core) ms = bytes_to_ms n core (ms * 256 + unat b)"

definition parseRunOpsIdCoreTimestamp :: "string \<Rightarrow> nat option" where
  "parseRunOpsIdCoreTimestamp body =
     (case base32hexDecode (take RUN_OPS_ID_CORE_LENGTH body) of
        None \<Rightarrow> None
      | Some core \<Rightarrow> Some (bytes_to_ms RUN_OPS_ID_TIMESTAMP_BYTES core 0))"

text \<open>The two parsers: timestamp, region or shard character, version.\<close>

definition parseRunOpsIdBody :: "string \<Rightarrow> (nat \<times> char \<times> char) option" where
  "parseRunOpsIdBody body =
     (if length body \<noteq> RUN_OPS_ID_LENGTH then None
      else if body ! RUN_OPS_ID_VERSION_INDEX \<noteq> RUN_OPS_ID_VERSION then None
      else if \<not> is_region_char (body ! RUN_OPS_ID_REGION_INDEX) then None
      else (case parseRunOpsIdCoreTimestamp body of
              None \<Rightarrow> None
            | Some timestamp \<Rightarrow>
                Some (timestamp, body ! RUN_OPS_ID_REGION_INDEX, RUN_OPS_ID_VERSION)))"

definition parseRunOpsIdV2Body :: "string \<Rightarrow> (nat \<times> char \<times> char) option" where
  "parseRunOpsIdV2Body body =
     (if length body \<noteq> RUN_OPS_ID_LENGTH then None
      else if body ! RUN_OPS_ID_VERSION_INDEX \<noteq> RUN_OPS_ID_VERSION_2 then None
      else if \<not> is_region_char (body ! RUN_OPS_ID_REGION_INDEX) then None
      else (case parseRunOpsIdCoreTimestamp body of
              None \<Rightarrow> None
            | Some timestamp \<Rightarrow>
                Some (timestamp, body ! RUN_OPS_ID_REGION_INDEX, RUN_OPS_ID_VERSION_2)))"

definition isRunOpsIdBody :: "string \<Rightarrow> bool" where
  "isRunOpsIdBody body = (parseRunOpsIdBody body \<noteq> None)"

text \<open>
  \<open>b32hex timestamp region version\<close> and \<open>b32hexV2 timestamp shard version\<close> live in the
  partitioned table.
\<close>

datatype ParsedRunId = b32hex nat char char | b32hexV2 nat char char | legacy_run_id

definition parseRunId :: "string \<Rightarrow> ParsedRunId" where
  "parseRunId i =
     (if \<not> js_startsWith i ''run_'' then legacy_run_id
      else (case parseRunOpsIdBody (drop 4 i) of
              Some (t, region, version) \<Rightarrow> b32hex t region version
            | None \<Rightarrow>
                (case parseRunOpsIdV2Body (drop 4 i) of
                   Some (t, shard, version) \<Rightarrow> b32hexV2 t shard version
                 | None \<Rightarrow> legacy_run_id)))"

section \<open>Friendly ids\<close>

definition underscore :: char where "underscore = CHR ''_''"

text \<open>\<open>None\<close> is an exception: an empty name, an empty id or a malformed friendly id.\<close>

definition toFriendlyId :: "string \<Rightarrow> string \<Rightarrow> string option" where
  "toFriendlyId entityName internalId =
     (if entityName = [] then None
      else if internalId = [] then None
      else if js_startsWith internalId (entityName @ [underscore]) then Some internalId
      else Some (entityName @ [underscore] @ internalId))"

definition fromFriendlyId :: "string \<Rightarrow> string option \<Rightarrow> string option" where
  "fromFriendlyId friendlyId expectedEntityName =
     (if friendlyId = [] then None
      else (case js_split underscore friendlyId of
              [entityName, internalId] \<Rightarrow>
                (if entityName = [] then None
                 else if internalId = [] then None
                 else if (case expectedEntityName of None \<Rightarrow> False
                          | Some e \<Rightarrow> e \<noteq> [] \<and> entityName \<noteq> e) then None
                 else Some internalId)
            | _ \<Rightarrow> None))"

definition toId :: "string \<Rightarrow> string \<Rightarrow> string option" where
  "toId entityName v =
     (if js_startsWith v (entityName @ [underscore]) then fromFriendlyId v None else Some v)"

section \<open>Webhook delivery ids\<close>

definition WEBHOOK_DELIVERY_ID_PREFIX :: string where "WEBHOOK_DELIVERY_ID_PREFIX = ''whd''"

definition webhookDeliveryIdBody :: "string \<Rightarrow> string" where
  "webhookDeliveryIdBody i =
     (if js_startsWith i (WEBHOOK_DELIVERY_ID_PREFIX @ [underscore])
      then drop (length WEBHOOK_DELIVERY_ID_PREFIX + 1) i else i)"

definition generateWebhookDeliveryId :: "nat \<Rightarrow> 8 word list \<Rightarrow> string" where
  "generateWebhookDeliveryId now random = base32hexEncode (timestamp_bytes 6 now @ random) @ ''1''"

definition webhookDeliveryToFriendlyId :: "string \<Rightarrow> string" where
  "webhookDeliveryToFriendlyId i =
     (if js_startsWith i (WEBHOOK_DELIVERY_ID_PREFIX @ [underscore]) then i
      else WEBHOOK_DELIVERY_ID_PREFIX @ [underscore] @ i)"

definition webhookDeliveryParseTimestamp :: "string \<Rightarrow> nat option" where
  "webhookDeliveryParseTimestamp i =
     (let body = webhookDeliveryIdBody i
      in if length body \<noteq> 25 then None
         else if body ! 24 \<noteq> CHR ''1'' then None
         else (case base32hexDecode (take 24 body) of
                 None \<Rightarrow> None | Some core \<Rightarrow> Some (bytes_to_ms 6 core 0)))"

section \<open>Residency\<close>

datatype Residency = LEGACY | NEW
datatype ResidencyKind = kind_cuid | kind_runOpsId

text \<open>\<open>"legacy"\<close>, \<open>"new"\<close> or a shard character.\<close>

datatype ShardKey = shard_legacy | shard_new | shard char

definition internalForm :: "string \<Rightarrow> string" where
  "internalForm i =
     (case char_index i underscore of None \<Rightarrow> i | Some k \<Rightarrow> drop (k + 1) i)"

definition resolveShard :: "string \<Rightarrow> ShardKey" where
  "resolveShard i =
     (let body = internalForm i
      in case parseRunOpsIdV2Body body of
           Some (t, s, v) \<Rightarrow> shard s
         | None \<Rightarrow> (if isRunOpsIdBody body then shard_new else shard_legacy))"

definition classifyKind :: "string \<Rightarrow> ResidencyKind" where
  "classifyKind i = (if resolveShard i = shard_legacy then kind_cuid else kind_runOpsId)"

definition classifyResidency :: "string \<Rightarrow> Residency" where
  "classifyResidency i = (if classifyKind i = kind_runOpsId then NEW else LEGACY)"

section \<open>The codec is a regrouping of bits\<close>

text \<open>The \<open>n\<close> low bits of a word, most significant first.\<close>

definition wbits :: "nat \<Rightarrow> 'a::len word \<Rightarrow> bool list" where
  "wbits n w = map (bit w) (rev [0..<n])"

lemma length_wbits [simp]: "length (wbits n w) = n"
  by (simp add: wbits_def)

lemma wbits_0 [simp]: "wbits 0 w = []"
  by (simp add: wbits_def)

lemma wbits_nth: "i < n \<Longrightarrow> wbits n w ! i = bit w (n - Suc i)"
  by (simp add: wbits_def rev_nth)

lemma wbits_push:
  assumes "n + k \<le> 32" and "\<And>i. k \<le> i \<Longrightarrow> \<not> bit v i"
  shows "wbits (n + k) (push_bit k buf OR v) = wbits n (buf :: 32 word) @ wbits k v"
proof (rule nth_equalityI)
  fix i assume i: "i < length (wbits (n + k) (push_bit k buf OR v))"
  then have "wbits (n + k) (push_bit k buf OR v) ! i = bit (push_bit k buf OR v) (n + k - Suc i)"
    by (simp add: wbits_nth)
  also have "\<dots> = (wbits n buf @ wbits k v) ! i"
    using i assms(1) assms(2) [of "n + k - Suc i"]
    by (auto simp: bit_simps nth_append wbits_nth add.commute)
  finally show "wbits (n + k) (push_bit k buf OR v) ! i = (wbits n buf @ wbits k v) ! i" .
qed simp

lemma wbits_take:
  assumes "k \<le> m" "m \<le> 32"
  shows "wbits k (signed_drop_bit (m - k) buf AND mask k) = take k (wbits m (buf :: 32 word))"
proof (rule nth_equalityI)
  fix i assume "i < length (wbits k (signed_drop_bit (m - k) buf AND mask k))"
  with assms show "wbits k (signed_drop_bit (m - k) buf AND mask k) ! i = take k (wbits m buf) ! i"
    by (auto simp: wbits_nth bit_simps)
qed (use assms in simp)

lemma wbits_drop: "k \<le> m \<Longrightarrow> wbits (m - k) w = drop k (wbits m w)"
  by (rule nth_equalityI) (auto simp: wbits_nth)

lemma wbits_inject:
  assumes "wbits LENGTH('a) v = wbits LENGTH('a) (w :: 'a::len word)" shows "v = w"
proof (rule bit_word_eqI)
  fix i assume i: "i < LENGTH('a)"
  have "wbits LENGTH('a) v ! (LENGTH('a) - Suc i) = wbits LENGTH('a) w ! (LENGTH('a) - Suc i)"
    using assms by simp
  with i show "bit v i = bit w i" by (simp add: wbits_nth)
qed

text \<open>Five bits are one character.\<close>

lemma alphabet_length [simp]: "length RUN_OPS_ID_ALPHABET = 32"
  by (simp add: RUN_OPS_ID_ALPHABET_def)

lemma alphabet_distinct: "distinct RUN_OPS_ID_ALPHABET"
  by (simp add: RUN_OPS_ID_ALPHABET_def)

lemma char_index_nth: "distinct as \<Longrightarrow> i < length as \<Longrightarrow> char_index as (as ! i) = Some i"
proof (induction as arbitrary: i)
  case (Cons a as)
  then show ?case by (cases i) (auto simp: nth_mem)
qed simp

lemma mask5_eq: "(31 :: 32 word) = mask 5"
  by (simp add: mask_eq_exp_minus_1)

lemma maskff_eq: "(0xff :: 32 word) = mask 8"
  by (simp add: mask_eq_exp_minus_1)

lemma unat_and_mask5: "unat (w AND mask 5 :: 32 word) < 32"
proof -
  have "w AND mask 5 = take_bit 5 w" by (simp add: take_bit_eq_mask)
  then show ?thesis
    by (simp add: take_bit_eq_mod unat_mod)
qed

definition char_bits :: "char \<Rightarrow> bool list" where
  "char_bits c =
     (case char_index RUN_OPS_ID_ALPHABET c of
        None \<Rightarrow> [] | Some v \<Rightarrow> wbits 5 (word_of_nat v :: 32 word))"

lemma char_index_alphabet:
  "char_index RUN_OPS_ID_ALPHABET (RUN_OPS_ID_ALPHABET ! unat (w AND mask 5 :: 32 word))
     = Some (unat (w AND mask 5))"
  by (rule char_index_nth) (simp_all add: alphabet_distinct unat_and_mask5)

lemma char_bits_emitted:
  "char_bits (RUN_OPS_ID_ALPHABET ! unat (w AND mask 5 :: 32 word)) = wbits 5 (w AND mask 5)"
  by (simp add: char_bits_def char_index_alphabet)

lemma emit5_bits:
  "bits \<le> 32 \<Longrightarrow> emit5 buf bits = (out, bits') \<Longrightarrow>
   bits' < 5 \<and> wbits bits buf = concat (map char_bits out) @ wbits bits' buf
   \<and> list_all (\<lambda>c. char_index RUN_OPS_ID_ALPHABET c \<noteq> None) out
   \<and> bits = 5 * length out + bits'"
proof (induction buf bits arbitrary: out bits' rule: emit5.induct)
  case (1 buf bits)
  show ?case
  proof (cases "bits \<ge> 5")
    case True
    obtain out' b where rec: "emit5 buf (bits - 5) = (out', b)"
      by fastforce
    with True 1(3) have out: "out = RUN_OPS_ID_ALPHABET ! unat (signed_drop_bit (bits - 5) buf AND mask 5) # out'"
      and b: "bits' = b"
      by (auto simp: emit5.simps [of buf bits] mask5_eq)
    have "wbits bits buf = take 5 (wbits bits buf) @ drop 5 (wbits bits buf)"
      by simp
    also have "take 5 (wbits bits buf) = wbits 5 (signed_drop_bit (bits - 5) buf AND mask 5)"
      using True 1(2) by (simp add: wbits_take)
    also have "drop 5 (wbits bits buf) = wbits (bits - 5) buf"
      using True by (simp add: wbits_drop)
    finally have split: "wbits bits buf
        = wbits 5 (signed_drop_bit (bits - 5) buf AND mask 5) @ wbits (bits - 5) buf" .
    have "bits - 5 \<le> 32" using 1(2) by simp
    from 1(1) [OF True this rec] have "b < 5" "wbits (bits - 5) buf = concat (map char_bits out') @ wbits b buf"
      "list_all (\<lambda>c. char_index RUN_OPS_ID_ALPHABET c \<noteq> None) out'" "bits - 5 = 5 * length out' + b"
      by blast+
    with split True out b show ?thesis
      by (simp add: char_bits_emitted char_index_alphabet)
  next
    case False
    with 1 show ?thesis by (simp add: emit5.simps [of buf bits])
  qed
qed

lemma bit_ucast_byte: "8 \<le> i \<Longrightarrow> \<not> bit (ucast (b :: 8 word) :: 32 word) i"
  by (auto simp: bit_simps dest: bit_imp_le_length)

lemma wbits_ucast_byte: "wbits 8 (ucast (b :: 8 word) :: 32 word) = wbits 8 b"
  by (rule nth_equalityI) (auto simp: wbits_nth bit_simps)

lemma encode_loop_bits:
  "bits < 5 \<Longrightarrow>
   \<exists>rest. length rest < 5
     \<and> wbits bits buf @ concat (map (wbits 8) bytes)
         = concat (map char_bits (encode_loop bytes buf bits)) @ rest
     \<and> list_all (\<lambda>c. char_index RUN_OPS_ID_ALPHABET c \<noteq> None) (encode_loop bytes buf bits)
     \<and> bits + 8 * length bytes = 5 * length (encode_loop bytes buf bits) + length rest"
proof (induction bytes arbitrary: buf bits)
  case Nil
  then show ?case by (intro exI [of _ "wbits bits buf"]) simp
next
  case (Cons b bytes)
  let ?buf = "push_bit 8 buf OR ucast b"
  obtain out bits' where e: "emit5 ?buf (bits + 8) = (out, bits')"
    by fastforce
  from emit5_bits [OF _ e] Cons.prems
  have bits': "bits' < 5" and pend: "wbits (bits + 8) ?buf = concat (map char_bits out) @ wbits bits' ?buf"
    and ok: "list_all (\<lambda>c. char_index RUN_OPS_ID_ALPHABET c \<noteq> None) out"
    and len: "bits + 8 = 5 * length out + bits'"
    by auto
  have "wbits (bits + 8) ?buf = wbits bits buf @ wbits 8 b"
    using Cons.prems by (simp add: wbits_push bit_ucast_byte wbits_ucast_byte)
  with pend have front: "wbits bits buf @ wbits 8 b = concat (map char_bits out) @ wbits bits' ?buf"
    by simp
  from Cons.IH [OF bits', of ?buf] obtain rest where rest: "length rest < 5"
    "wbits bits' ?buf @ concat (map (wbits 8) bytes)
       = concat (map char_bits (encode_loop bytes ?buf bits')) @ rest"
    "list_all (\<lambda>c. char_index RUN_OPS_ID_ALPHABET c \<noteq> None) (encode_loop bytes ?buf bits')"
    "bits' + 8 * length bytes = 5 * length (encode_loop bytes ?buf bits') + length rest"
    by blast
  have "wbits bits buf @ concat (map (wbits 8) (b # bytes))
      = concat (map char_bits (out @ encode_loop bytes ?buf bits')) @ rest"
    using rest(2) by (simp flip: front append_assoc) (simp add: front)
  with rest(1,3,4) ok len e show ?case
    by (intro exI [of _ rest]) (simp add: list_all_append)
qed

lemma word_of_nat_bits5: "v < 32 \<Longrightarrow> 5 \<le> i \<Longrightarrow> \<not> bit (word_of_nat v :: 32 word) i"
proof -
  assume "v < 32" "5 \<le> i"
  then have "take_bit 5 v = v" "5 \<le> i"
    by (simp_all add: take_bit_nat_eq_self)
  then have "\<not> bit v i"
    by (metis bit_take_bit_iff leD)
  then show ?thesis by (simp add: bit_simps)
qed

lemma char_index_less: "char_index as c = Some v \<Longrightarrow> v < length as"
  by (induction as arbitrary: v) (auto split: if_splits)

text \<open>
  Decoding regroups the same bits by eight. At most seven bits are left over.
\<close>

lemma decode_loop_bits:
  "bits < 8 \<Longrightarrow> list_all (\<lambda>c. char_index RUN_OPS_ID_ALPHABET c \<noteq> None) s \<Longrightarrow>
   \<exists>out rest. decode_loop s buf bits = Some out \<and> length rest < 8
     \<and> wbits bits buf @ concat (map char_bits s) = concat (map (wbits 8) out) @ rest"
proof (induction s arbitrary: buf bits)
  case Nil
  then show ?case by (intro exI [of _ "[]"] exI [of _ "wbits bits buf"]) simp
next
  case (Cons c s)
  then obtain v where v: "char_index RUN_OPS_ID_ALPHABET c = Some v"
    by auto
  let ?v = "word_of_nat v :: 32 word" and ?buf = "push_bit 5 buf OR word_of_nat v"
  have v32: "v < 32" using char_index_less [OF v] by simp
  have pend: "wbits bits buf @ char_bits c = wbits (bits + 5) ?buf"
    using v v32 Cons.prems(1) by (simp add: char_bits_def wbits_push word_of_nat_bits5)
  show ?case
  proof (cases "bits + 5 \<ge> 8")
    case True
    let ?b = "signed_drop_bit (bits + 5 - 8) ?buf AND mask 8"
    have "wbits 8 ?b = take 8 (wbits (bits + 5) ?buf)"
      using True Cons.prems(1) by (intro wbits_take) auto
    moreover have "wbits (bits + 5 - 8) ?buf = drop 8 (wbits (bits + 5) ?buf)"
      using True by (intro wbits_drop)
    ultimately have split: "wbits (bits + 5) ?buf = wbits 8 ?b @ wbits (bits + 5 - 8) ?buf"
      by simp
    have byte: "wbits 8 (ucast ?b :: 8 word) = wbits 8 ?b"
      by (rule nth_equalityI) (auto simp: wbits_nth bit_simps)
    have "bits + 5 - 8 < 8" "list_all (\<lambda>c. char_index RUN_OPS_ID_ALPHABET c \<noteq> None) s"
      using Cons.prems by simp_all
    from Cons.IH [OF this, of ?buf] obtain out rest where
      "decode_loop s ?buf (bits + 5 - 8) = Some out" "length rest < 8"
      "wbits (bits + 5 - 8) ?buf @ concat (map char_bits s) = concat (map (wbits 8) out) @ rest"
      by blast
    note rec = this
    have "wbits bits buf @ concat (map char_bits (c # s))
        = (wbits bits buf @ char_bits c) @ concat (map char_bits s)"
      by simp
    also have "\<dots> = wbits 8 ?b @ (wbits (bits + 5 - 8) ?buf @ concat (map char_bits s))"
      by (simp only: pend split append_assoc)
    also have "\<dots> = concat (map (wbits 8) (ucast ?b # out)) @ rest"
      by (simp only: rec(3) byte list.map concat.simps append_assoc)
    finally have "wbits bits buf @ concat (map char_bits (c # s))
      = concat (map (wbits 8) ((ucast ?b :: 8 word) # out)) @ rest" .
    moreover have "decode_loop (c # s) buf bits = Some (ucast ?b # out)"
      using v True rec(1) by (simp add: maskff_eq)
    ultimately show ?thesis using rec(2) by blast
  next
    case False
    have "bits + 5 < 8" "list_all (\<lambda>c. char_index RUN_OPS_ID_ALPHABET c \<noteq> None) s"
      using Cons.prems False by simp_all
    from Cons.IH [OF this, of ?buf] obtain out rest where
      "decode_loop s ?buf (bits + 5) = Some out" "length rest < 8"
      "wbits (bits + 5) ?buf @ concat (map char_bits s) = concat (map (wbits 8) out) @ rest"
      by blast
    with v False pend show ?thesis
      by (intro exI [of _ out] exI [of _ rest]) (simp flip: append_assoc)
  qed
qed

lemma length_concat_wbits: "length (concat (map (wbits 8) bytes)) = 8 * length bytes"
  by (induction bytes) auto

lemma concat_wbits_inject:
  "concat (map (wbits 8) xs) @ r = concat (map (wbits 8) (ys :: 8 word list)) \<Longrightarrow>
   length r < 8 \<Longrightarrow> xs = ys"
proof (induction xs arbitrary: ys)
  case Nil
  then have "length r = 8 * length ys"
    by (metis append_Nil concat.simps(1) length_concat_wbits list.map(1))
  with Nil show ?case by (cases ys) auto
next
  case (Cons x xs)
  then obtain y ys' where ys: "ys = y # ys'"
    by (cases ys) (auto dest: arg_cong [where f = length])
  with Cons.prems have "wbits 8 x = wbits 8 y" "concat (map (wbits 8) xs) @ r = concat (map (wbits 8) ys')"
    by (simp_all add: append_eq_append_conv)
  with Cons.IH Cons.prems(2) ys wbits_inject [where 'a = 8, of x y] show ?case by simp
qed

lemma encode_bits:
  "\<exists>rest. length rest < 5
     \<and> concat (map (wbits 8) bytes) = concat (map char_bits (base32hexEncode bytes)) @ rest
     \<and> list_all (\<lambda>c. char_index RUN_OPS_ID_ALPHABET c \<noteq> None) (base32hexEncode bytes)
     \<and> 8 * length bytes = 5 * length (base32hexEncode bytes) + length rest"
  using encode_loop_bits [of 0 0 bytes] by (simp add: base32hexEncode_def)

lemma encode_alphabet:
  "list_all (\<lambda>c. char_index RUN_OPS_ID_ALPHABET c \<noteq> None) (base32hexEncode bytes)"
  using encode_bits [of bytes] by blast

lemma encode_length:
  assumes "8 * length bytes mod 5 = 0"
  shows "5 * length (base32hexEncode bytes) = 8 * length bytes"
proof -
  from encode_bits [of bytes] obtain rest :: "bool list" where
    r: "length rest < 5" "8 * length bytes = 5 * length (base32hexEncode bytes) + length rest"
    by blast
  have "8 * length bytes mod 5 = length rest"
    by (simp only: r(2) mod_mult_self4 mod_less [OF r(1)])
  with assms r(2) show ?thesis by (simp only: add_0_right)
qed

lemma decode_encode:
  assumes m: "8 * length bytes mod 5 = 0"
  shows "base32hexDecode (base32hexEncode bytes) = Some bytes"
proof -
  let ?e = "base32hexEncode bytes"
  from encode_bits [of bytes] obtain rest where
    bits: "concat (map (wbits 8) bytes) = concat (map char_bits ?e) @ rest"
    and len: "8 * length bytes = 5 * length ?e + length rest"
    by blast
  from len encode_length [OF m] have "rest = []" by simp
  with bits have bits: "concat (map char_bits ?e) = concat (map (wbits 8) bytes)"
    by simp
  have "(0 :: nat) < 8" by simp
  from decode_loop_bits [OF this encode_alphabet] obtain out r where
    out: "decode_loop ?e 0 0 = Some out" "length r < 8"
    and "wbits 0 (0 :: 32 word) @ concat (map char_bits ?e) = concat (map (wbits 8) out) @ r"
    by blast
  then have "concat (map (wbits 8) out) @ r = concat (map (wbits 8) bytes)"
    by (simp add: bits)
  with out concat_wbits_inject show ?thesis
    by (simp add: base32hexDecode_def)
qed

section \<open>Minted ids are parsed and routed back\<close>

lemma bytes_to_ms_append:
  "bytes_to_ms (length bs) (bs @ rest) acc = foldl (\<lambda>a b. a * 256 + unat b) acc bs"
  by (induction bs arbitrary: acc) auto

lemma length_timestamp_bytes [simp]: "length (timestamp_bytes n ms) = n"
  by (induction n arbitrary: ms) auto

lemma foldl_timestamp_bytes:
  "foldl (\<lambda>a b. a * 256 + unat b) acc (timestamp_bytes n ms) = acc * 256 ^ n + ms mod 256 ^ n"
proof (induction n arbitrary: ms acc)
  case (Suc n)
  have "ms mod 256 ^ Suc n = ms mod 256 + 256 * (ms div 256 mod 256 ^ n)"
    by (simp add: mod_mult2_eq)
  with Suc show ?case
    by (simp add: unat_of_nat algebra_simps)
qed simp

lemma bytes_to_ms_timestamp_bytes:
  "ms < 256 ^ n \<Longrightarrow> bytes_to_ms n (timestamp_bytes n ms @ rest) 0 = ms"
  using bytes_to_ms_append [of "timestamp_bytes n ms" rest 0]
  by (simp add: foldl_timestamp_bytes)

lemma length_core:
  "length random = 9 \<Longrightarrow> length (mintRunOpsIdCore now random) = 24"
  using encode_length [of "timestamp_bytes 6 now @ random"]
  by (simp add: mintRunOpsIdCore_def run_ops_consts)

lemma core_timestamp:
  assumes "length random = 9" "now < 2 ^ 48"
  shows "parseRunOpsIdCoreTimestamp (mintRunOpsIdCore now random @ tail) = Some now"
proof -
  have "take 24 (mintRunOpsIdCore now random @ tail) = mintRunOpsIdCore now random"
    using length_core [OF assms(1)] by simp
  moreover have "base32hexDecode (mintRunOpsIdCore now random) = Some (timestamp_bytes 6 now @ random)"
    unfolding mintRunOpsIdCore_def run_ops_consts by (rule decode_encode) (simp add: assms(1))
  moreover have "bytes_to_ms 6 (timestamp_bytes 6 now @ random) 0 = now"
    by (rule bytes_to_ms_timestamp_bytes) (use assms(2) in simp)
  ultimately show ?thesis
    by (simp add: parseRunOpsIdCoreTimestamp_def run_ops_consts)
qed

lemma is_region_char_regionCharForRegion: "is_region_char (regionCharForRegion region)"
  by (auto simp: regionCharForRegion_def REGION_CODES_def DEFAULT_REGION_CHAR_def
      is_region_char_def split: option.splits if_splits)

lemma mint_nth:
  assumes "length random = 9"
  shows "(mintRunOpsIdCore now random @ [r, v]) ! 24 = r"
    and "(mintRunOpsIdCore now random @ [r, v]) ! 25 = v"
  using length_core [OF assms, of now] by (simp_all add: nth_append)

lemma parse_minted:
  assumes "length random = 9" "now < 2 ^ 48"
  shows "parseRunOpsIdBody (generateRunOpsId now random region)
           = Some (now, regionCharForRegion region, CHR ''1'')"
    and "parseRunOpsIdV2Body (generateRunOpsId now random region) = None"
  using core_timestamp [OF assms] length_core [OF assms(1), of now]
    is_region_char_regionCharForRegion [of region]
  by (simp_all add: parseRunOpsIdBody_def parseRunOpsIdV2Body_def generateRunOpsId_def
      run_ops_consts mint_nth [OF assms(1), unfolded run_ops_consts])

lemma parse_minted_v2:
  assumes "length random = 9" "now < 2 ^ 48" "is_region_char c"
  shows "generateRunOpsIdV2 now random [c] = Some (mintRunOpsIdCore now random @ [c, CHR ''2''])"
    and "parseRunOpsIdV2Body (mintRunOpsIdCore now random @ [c, CHR ''2''])
           = Some (now, c, CHR ''2'')"
    and "parseRunOpsIdBody (mintRunOpsIdCore now random @ [c, CHR ''2'']) = None"
  using core_timestamp [OF assms(1,2)] length_core [OF assms(1), of now] assms(3)
  by (simp_all add: parseRunOpsIdBody_def parseRunOpsIdV2Body_def generateRunOpsIdV2_def
      run_ops_consts mint_nth [OF assms(1)])

lemma underscore_not_alphabet: "char_index RUN_OPS_ID_ALPHABET underscore = None"
  by (simp add: RUN_OPS_ID_ALPHABET_def underscore_def)

lemma char_index_None: "char_index as c = None \<longleftrightarrow> c \<notin> set as"
  by (induction as) auto

lemma core_no_underscore: "underscore \<notin> set (mintRunOpsIdCore now random)"
  using encode_alphabet [of "timestamp_bytes RUN_OPS_ID_TIMESTAMP_BYTES now @ random"]
    underscore_not_alphabet
  by (auto simp: mintRunOpsIdCore_def list_all_iff)

lemma region_not_underscore: "is_region_char c \<Longrightarrow> c \<noteq> underscore"
  by (auto simp: is_region_char_def underscore_def)

lemma internalForm_plain: "underscore \<notin> set i \<Longrightarrow> internalForm i = i"
  by (simp add: internalForm_def char_index_None [THEN iffD2])

lemma internalForm_prefixed: "underscore \<notin> set p \<Longrightarrow> internalForm (p @ underscore # i) = i"
proof -
  assume "underscore \<notin> set p"
  then have "char_index (p @ underscore # i) underscore = Some (length p)"
    by (induction p) auto
  then show ?thesis by (simp add: internalForm_def)
qed

text \<open>
  C39. A run id of either generation, minted with nine random bytes at a time below \<open>2^48\<close>, carries its
  routing with it. From its public form, with the \<open>run_\<close> prefix, the parser recovers the minting time,
  the region or shard and the generation, while it takes the internal form without the prefix for a
  legacy id; \<open>resolveShard\<close> reads both forms, and sends a first-generation id to the new store and a
  second-generation id to its own shard.
\<close>

theorem minted_ids_route_back:
  assumes "length random = 9" "now < 2 ^ 48" "is_region_char c"
  shows "parseRunId (''run_'' @ generateRunOpsId now random region)
           = b32hex now (regionCharForRegion region) RUN_OPS_ID_VERSION
    \<and> parseRunId (generateRunOpsId now random region) = legacy_run_id
    \<and> resolveShard (generateRunOpsId now random region) = shard_new
    \<and> resolveShard (''run_'' @ generateRunOpsId now random region) = shard_new
    \<and> (\<exists>i. generateRunOpsIdV2 now random [c] = Some i
         \<and> parseRunId (''run_'' @ i) = b32hexV2 now c RUN_OPS_ID_VERSION_2 \<and> parseRunId i = legacy_run_id
         \<and> resolveShard i = shard c \<and> resolveShard (''run_'' @ i) = shard c)"
proof -
  have run: "''run_'' @ i = ''run'' @ underscore # i" and pre: "underscore \<notin> set ''run''" for i
    by (simp_all add: underscore_def)
  have v1: "underscore \<notin> set (generateRunOpsId now random region)"
    using core_no_underscore [of now random]
      region_not_underscore [OF is_region_char_regionCharForRegion, of region]
    by (auto simp: generateRunOpsId_def run_ops_consts underscore_def)
  have v2: "underscore \<notin> set (mintRunOpsIdCore now random @ [c, CHR ''2''])"
    using core_no_underscore [of now random] region_not_underscore [OF assms(3)]
    by (auto simp: underscore_def)
  have bare: "parseRunId i = legacy_run_id" if "underscore \<notin> set i" for i
    using that by (auto simp: parseRunId_def js_startsWith_iff underscore_def)
  show ?thesis
    using bare [OF v1] bare [OF v2] parse_minted [OF assms(1,2), of region] parse_minted_v2 [OF assms]
      internalForm_plain [OF v1] internalForm_plain [OF v2]
      internalForm_prefixed [OF pre, folded run, of "generateRunOpsId now random region"]
      internalForm_prefixed [OF pre, folded run, of "mintRunOpsIdCore now random @ [c, CHR ''2'']"]
    by (simp add: parseRunId_def resolveShard_def isRunOpsIdBody_def js_startsWith_def
        run_ops_consts)
qed

theorem minted_ids_route_back_witness:
  "resolveShard (generateRunOpsId 1735689600000 [1,2,3,4,5,6,7,8,9] (Some ''us-west-2'')) = shard_new
    \<and> parseRunId (''run_'' @ generateRunOpsId 1735689600000 [1,2,3,4,5,6,7,8,9] (Some ''us-west-2''))
      = b32hex 1735689600000 (regionCharForRegion (Some ''us-west-2'')) RUN_OPS_ID_VERSION"
  using minted_ids_route_back [of "[1,2,3,4,5,6,7,8,9]" 1735689600000 "CHR ''a''" "Some ''us-west-2''"]
  by (simp add: is_region_char_def)

text \<open>
  Friendly ids: an entity's id survives the way out and back, \<open>toId\<close> undoes
  \<open>toFriendlyId\<close> and accepts both forms, and adding the prefix twice is adding it once.
\<close>

theorem friendly_id_roundtrip:
  assumes "entity \<noteq> []" "i \<noteq> []" "underscore \<notin> set entity" "underscore \<notin> set i"
  shows "\<exists>f. toFriendlyId entity i = Some f \<and> fromFriendlyId f (Some entity) = Some i
    \<and> toId entity f = Some i \<and> toId entity i = Some i \<and> toFriendlyId entity f = Some f"
proof -
  have split: "js_split underscore (entity @ underscore # i) = [entity, i]"
    using assms by (simp add: js_split_append js_split_no_sep)
  have "\<not> js_startsWith i (entity @ [underscore])"
    using assms(4) by (auto simp: js_startsWith_iff)
  moreover have "js_startsWith (entity @ underscore # i) (entity @ [underscore])"
    by (auto simp: js_startsWith_iff)
  ultimately show ?thesis
    using assms split by (simp add: toFriendlyId_def fromFriendlyId_def toId_def)
qed

theorem friendly_id_roundtrip_witness:
  "\<exists>f. toFriendlyId ''run'' ''abc1'' = Some f \<and> toId ''run'' f = Some ''abc1''"
  using friendly_id_roundtrip [of "''run''" "''abc1''"] by (auto simp: underscore_def)

end
