(* ===== verification/Duration.thy ===== *)
theory Duration
  imports Prelude
begin

text \<open>
  Natural-language durations (\<open>packages/core/src/v3/isomorphic/duration.ts\<close>): the parser of
  strings such as \<open>"1h30m"\<close>, used for a run's \<open>ttl\<close> and delay, and the printer of a number of
  seconds. Dates are milliseconds, the clock is an argument, numbers are unbounded.
\<close>

section \<open>The five regular expressions\<close>

text \<open>
  \<open>match(/(\d+)u/)\<close>: the digits of the leftmost match, where \<open>u\<close> says whether the unit follows.
  The digits of a match are a whole run of digits, since the unit does not start with one.
\<close>

function match_unit :: "(string \<Rightarrow> bool) \<Rightarrow> string \<Rightarrow> string option" where
  "match_unit u [] = None"
| "match_unit u (c # cs) =
     (if is_digit c
      then (if u (dropWhile is_digit cs) then Some (c # takeWhile is_digit cs)
            else match_unit u (dropWhile is_digit cs))
      else match_unit u cs)"
  by pat_completeness auto

termination match_unit
  by (relation "measure (length \<circ> snd)") (auto simp: le_imp_less_Suc length_dropWhile_le)

definition unit_char :: "char \<Rightarrow> string \<Rightarrow> bool" where
  "unit_char d s = (case s of [] \<Rightarrow> False | c # _ \<Rightarrow> c = d)"

text \<open>\<open>/(\d+)(?:hr|h)/\<close> matches exactly where \<open>/(\d+)h/\<close> does, with the same digits.\<close>

definition weekMatch :: "string \<Rightarrow> string option" where
  "weekMatch = match_unit (unit_char (CHR ''w''))"
definition dayMatch :: "string \<Rightarrow> string option" where
  "dayMatch = match_unit (unit_char (CHR ''d''))"
definition hourMatch :: "string \<Rightarrow> string option" where
  "hourMatch = match_unit (unit_char (CHR ''h''))"
definition minuteMatch :: "string \<Rightarrow> string option" where
  "minuteMatch = match_unit (unit_char (CHR ''m''))"
definition secondMatch :: "string \<Rightarrow> string option" where
  "secondMatch = match_unit (unit_char (CHR ''s''))"

text \<open>\<open>/^(\d+(?:w|d|hr|h|m|s))+$/\<close>: after the digits one unit, then the end or another item.\<close>

definition strip_unit :: "string \<Rightarrow> string option" where
  "strip_unit s =
     (case s of
        [] \<Rightarrow> None
      | c # cs \<Rightarrow>
          if c = CHR ''h'' then Some (if unit_char (CHR ''r'') cs then tl cs else cs)
          else if c \<in> {CHR ''w'', CHR ''d'', CHR ''m'', CHR ''s''} then Some cs
          else None)"

lemma strip_unit_length: "strip_unit s = Some t \<Longrightarrow> length t < length s"
  by (auto simp: strip_unit_def unit_char_def split: list.splits if_splits)

function valid_items :: "string \<Rightarrow> bool" where
  "valid_items [] = True"
| "valid_items (c # cs) =
     (is_digit c \<and>
      (case strip_unit (dropWhile is_digit cs) of None \<Rightarrow> False | Some rest \<Rightarrow> valid_items rest))"
  by pat_completeness auto

termination valid_items
proof (relation "measure length")
  fix c cs rest
  assume "strip_unit (dropWhile is_digit cs) = Some rest"
  from strip_unit_length [OF this] length_dropWhile_le [of is_digit cs]
  show "(rest, c # cs) \<in> measure length" by simp
qed simp

definition validPattern :: "string \<Rightarrow> bool" where
  "validPattern s = (s \<noteq> [] \<and> valid_items s)"

section \<open>The parsers\<close>

definition ms_of :: "string option \<Rightarrow> nat \<Rightarrow> nat" where
  "ms_of m factor = (case m of None \<Rightarrow> 0 | Some ds \<Rightarrow> string_to_nat ds * factor)"

definition parseNaturalLanguageDurationInMs :: "string \<Rightarrow> nat option" where
  "parseNaturalLanguageDurationInMs duration =
     (if length duration > 100 then None
      else if \<not> validPattern duration then None
      else (let total = ms_of (weekMatch duration) (7 * 24 * 60 * 60 * 1000)
                  + ms_of (dayMatch duration) (24 * 60 * 60 * 1000)
                  + ms_of (hourMatch duration) (60 * 60 * 1000)
                  + ms_of (minuteMatch duration) (60 * 1000)
                  + ms_of (secondMatch duration) 1000;
                hasMatch = (weekMatch duration \<noteq> None \<or> dayMatch duration \<noteq> None
                  \<or> hourMatch duration \<noteq> None \<or> minuteMatch duration \<noteq> None
                  \<or> secondMatch duration \<noteq> None)
            in if hasMatch then Some total else None))"

definition parseNaturalLanguageDuration :: "int \<Rightarrow> string \<Rightarrow> int option" where
  "parseNaturalLanguageDuration now duration =
     (case parseNaturalLanguageDurationInMs duration of
        None \<Rightarrow> None | Some ms \<Rightarrow> Some (now + int ms))"

text \<open>\<open>parseNaturalLanguageDurationAgo\<close> repeats the text of the parser above.\<close>

definition parseNaturalLanguageDurationAgo :: "int \<Rightarrow> string \<Rightarrow> int option" where
  "parseNaturalLanguageDurationAgo now duration =
     (if length duration > 100 then None
      else if \<not> validPattern duration then None
      else (let total = ms_of (weekMatch duration) (7 * 24 * 60 * 60 * 1000)
                  + ms_of (dayMatch duration) (24 * 60 * 60 * 1000)
                  + ms_of (hourMatch duration) (60 * 60 * 1000)
                  + ms_of (minuteMatch duration) (60 * 1000)
                  + ms_of (secondMatch duration) 1000;
                hasMatch = (weekMatch duration \<noteq> None \<or> dayMatch duration \<noteq> None
                  \<or> hourMatch duration \<noteq> None \<or> minuteMatch duration \<noteq> None
                  \<or> secondMatch duration \<noteq> None)
            in if hasMatch then Some (now - int total) else None))"

section \<open>The printer\<close>

definition print_unit :: "nat \<Rightarrow> char \<Rightarrow> string" where
  "print_unit v c = (if v \<noteq> 0 then nat_to_string v @ [c] else [])"

text \<open>The argument is a whole number of seconds.\<close>

definition stringifyDuration :: "int \<Rightarrow> string option" where
  "stringifyDuration seconds =
     (if seconds \<le> 0 then None
      else (let n = nat seconds
            in Some (print_unit (n div 604800) CHR ''w''
                   @ print_unit (n mod 604800 div 86400) CHR ''d''
                   @ print_unit (n mod 86400 div 3600) CHR ''h''
                   @ print_unit (n mod 3600 div 60) CHR ''m''
                   @ print_unit (n mod 60) CHR ''s'')))"

section \<open>What is printed is parsed back\<close>

lemma dropWhile_digits: "\<forall>c \<in> set ds. is_digit c \<Longrightarrow> \<not> is_digit u \<Longrightarrow>
   dropWhile is_digit (ds @ u # s) = u # s \<and> takeWhile is_digit (ds @ u # s) = ds"
  by (induction ds) auto

lemma match_unit_item:
  assumes "ds \<noteq> []" "\<forall>c \<in> set ds. is_digit c" "\<not> is_digit v"
  shows "match_unit u (ds @ v # s) = (if u (v # s) then Some ds else match_unit u (v # s))"
proof -
  obtain c cs where ds: "ds = c # cs" using assms(1) by (cases ds) auto
  with dropWhile_digits [of cs v s] assms show ?thesis by simp
qed

lemma match_print_unit:
  assumes "\<not> is_digit v"
  shows "match_unit (unit_char d) (print_unit n v @ s)
    = (if n \<noteq> 0 \<and> v = d then Some (nat_to_string n) else match_unit (unit_char d) s)"
  using match_unit_item [of "nat_to_string n" v "unit_char d" s] nat_to_string_digits [of n] assms
  by (auto simp: print_unit_def unit_char_def)

lemma valid_print_unit:
  assumes "v \<in> {CHR ''w'', CHR ''d'', CHR ''m'', CHR ''s'', CHR ''h''}" "\<not> unit_char (CHR ''r'') s"
  shows "valid_items (print_unit n v @ s) = valid_items s"
proof (cases "n = 0")
  case False
  obtain c cs where ds: "nat_to_string n = c # cs"
    by (cases "nat_to_string n") auto
  have v: "\<not> is_digit v" using assms(1) by (auto simp: is_digit_def)
  have "is_digit c" "\<forall>x \<in> set cs. is_digit x"
    using nat_to_string_digits [of n] ds by auto
  with dropWhile_digits [of cs v s] v have "dropWhile is_digit (cs @ v # s) = v # s"
    by simp
  with assms \<open>is_digit c\<close> False ds show ?thesis
    by (auto simp: print_unit_def strip_unit_def)
qed (simp add: print_unit_def)

lemma not_r_print_unit:
  "\<not> unit_char (CHR ''r'') s \<Longrightarrow> \<not> unit_char (CHR ''r'') (print_unit n v @ s)"
proof (cases "nat_to_string n")
  case (Cons c cs)
  with nat_to_string_digits [of n] have "is_digit c" by simp
  then have "c \<noteq> CHR ''r''" by (auto simp: is_digit_def)
  moreover assume "\<not> unit_char (CHR ''r'') s"
  ultimately show ?thesis using Cons by (simp add: print_unit_def unit_char_def)
qed simp

lemma length_nat_to_string: "n < 10 ^ Suc k \<Longrightarrow> length (nat_to_string n) \<le> Suc k"
proof (induction k arbitrary: n)
  case (Suc k)
  then have "n div 10 < 10 ^ Suc k" by (simp add: less_mult_imp_div_less)
  with Suc.IH show ?case by (simp add: nat_to_string.simps [of n])
qed (simp add: nat_to_string.simps)

lemma length_print_unit: "n < 10 ^ Suc k \<Longrightarrow> length (print_unit n c) \<le> k + 2"
  using length_nat_to_string [of n k] by (simp add: print_unit_def)

lemma split_seconds:
  "(n div 604800) * 604800 + (n mod 604800 div 86400) * 86400 + (n mod 86400 div 3600) * 3600
     + (n mod 3600 div 60) * 60 + n mod 60 = (n :: nat)"
proof -
  have "n mod 604800 mod 86400 = n mod 86400" "n mod 86400 mod 3600 = n mod 3600"
    "n mod 3600 mod 60 = n mod 60"
    by (simp_all add: mod_mod_cancel)
  then show ?thesis
    using div_mult_mod_eq [of n 604800] div_mult_mod_eq [of "n mod 604800" 86400]
      div_mult_mod_eq [of "n mod 86400" 3600] div_mult_mod_eq [of "n mod 3600" 60]
    by linarith
qed

lemmas unit_matches =
  weekMatch_def dayMatch_def hourMatch_def minuteMatch_def secondMatch_def

lemma match_unit_Nil_append [simp]:
  "\<not> is_digit v \<Longrightarrow> match_unit (unit_char d) (print_unit n v)
     = (if n \<noteq> 0 \<and> v = d then Some (nat_to_string n) else None)"
  using match_print_unit [of v d n "[]"] by simp

lemma valid_print_unit_Nil:
  "v \<in> {CHR ''w'', CHR ''d'', CHR ''m'', CHR ''s'', CHR ''h''} \<Longrightarrow> valid_items (print_unit n v)"
  using valid_print_unit [of v "[]" n] by (simp add: unit_char_def)

text \<open>
  The printer and the parser of durations agree: every positive number of seconds up to
  \<open>Number.MAX_SAFE_INTEGER\<close> is printed as a string that the parser accepts, and it stands for
  exactly that many thousand milliseconds.
\<close>

theorem duration_roundtrip:
  assumes "0 < n" "n < 2 ^ 53"
  shows "\<exists>s. stringifyDuration n = Some s
    \<and> parseNaturalLanguageDurationInMs s = Some (nat n * 1000)
    \<and> parseNaturalLanguageDuration now s = Some (now + n * 1000)"
proof -
  define m where "m = nat n"
  have m: "0 < m" "m < 2 ^ 53" using assms by (simp_all add: m_def nat_less_iff)
  let ?w = "m div 604800" and ?d = "m mod 604800 div 86400" and ?h = "m mod 86400 div 3600"
    and ?m = "m mod 3600 div 60" and ?s = "m mod 60"
  define s where "s = print_unit ?w CHR ''w'' @ print_unit ?d CHR ''d'' @ print_unit ?h CHR ''h''
    @ print_unit ?m CHR ''m'' @ print_unit ?s CHR ''s''"
  have str: "stringifyDuration n = Some s"
    using assms by (simp add: stringifyDuration_def Let_def s_def m_def)
  have nr: "\<not> unit_char (CHR ''r'') []" by (simp add: unit_char_def)
  note nd = is_digit_def
  have valid: "valid_items s"
    unfolding s_def using not_r_print_unit [OF nr, of ?s "CHR ''s''"]
    by (simp add: valid_print_unit valid_print_unit_Nil not_r_print_unit)
  have matches: "ms_of (weekMatch s) k = ?w * k" "ms_of (dayMatch s) k = ?d * k"
    "ms_of (hourMatch s) k = ?h * k" "ms_of (minuteMatch s) k = ?m * k"
    "ms_of (secondMatch s) k = ?s * k" for k
    unfolding s_def unit_matches by (simp_all add: match_print_unit nd ms_of_def)
  have total: "?w * 604800000 + ?d * 86400000 + ?h * 3600000 + ?m * 60000 + ?s * 1000 = m * 1000"
    using split_seconds [of m] by linarith
  have some: "weekMatch s \<noteq> None \<or> dayMatch s \<noteq> None \<or> hourMatch s \<noteq> None
      \<or> minuteMatch s \<noteq> None \<or> secondMatch s \<noteq> None"
  proof (rule ccontr)
    assume "\<not> ?thesis"
    then have "ms_of (weekMatch s) 604800000 + ms_of (dayMatch s) 86400000
        + ms_of (hourMatch s) 3600000 + ms_of (minuteMatch s) 60000 + ms_of (secondMatch s) 1000 = 0"
      by (simp add: ms_of_def)
    with matches total m(1) show False by simp
  qed
  have len: "length s \<le> 100"
  proof -
    have "?w < 10 ^ Suc 15" using m(2) by (simp add: less_mult_imp_div_less)
    moreover have "?d < 10 ^ Suc 0" "?h < 10 ^ Suc 1" "?m < 10 ^ Suc 1" "?s < 10 ^ Suc 1"
      by (simp_all add: less_mult_imp_div_less order_less_le_trans [OF mod_less_divisor])
    ultimately show ?thesis
      using length_print_unit [of ?w 15 "CHR ''w''"] length_print_unit [of ?d 0 "CHR ''d''"]
        length_print_unit [of ?h 1 "CHR ''h''"] length_print_unit [of ?m 1 "CHR ''m''"]
        length_print_unit [of ?s 1 "CHR ''s''"]
      by (simp add: s_def)
  qed
  have "s \<noteq> []" using some by (auto simp: unit_matches)
  then have "parseNaturalLanguageDurationInMs s = Some (m * 1000)"
    using valid len some total
    by (simp add: parseNaturalLanguageDurationInMs_def validPattern_def Let_def matches)
  then show ?thesis
    using str assms by (simp add: parseNaturalLanguageDuration_def m_def)
qed

theorem duration_roundtrip_witness:
  "\<exists>s. stringifyDuration 5400 = Some s \<and> parseNaturalLanguageDurationInMs s = Some 5400000"
  using duration_roundtrip [of 5400 0] by auto

text \<open>
  A duration that names a unit twice is accepted, and only the first amount of the unit counts:
  the string passes the validation of the whole input but \<open>"1h1h"\<close> is one hour.
\<close>

theorem duration_repeated_unit:
  "validPattern ''1h1h'' \<and> parseNaturalLanguageDurationInMs ''1h1h'' = Some 3600000
   \<and> parseNaturalLanguageDurationInMs ''1h1h'' = parseNaturalLanguageDurationInMs ''1h''"
  by (simp add: parseNaturalLanguageDurationInMs_def validPattern_def unit_matches ms_of_def
      unit_char_def strip_unit_def is_digit_def digit_val_def string_to_nat_def)

end
