(* ===== verification/KeyProducer.thy ===== *)
theory KeyProducer
  imports Statuses
begin

text \<open>
  The Redis keys of the run queue (\<open>run-engine/src/run-queue/keyProducer.ts\<close>) and the jump
  consistent hash that picks the shard of an environment
  (\<open>packages/core/src/v3/serverOnly/jumpHash.ts\<close>).

  The SHA-256 digest of a key is an argument. The quotient of the jump hash is exact integer
  division, which is what the source's division of doubles gives for up to \<open>2 ^ 22\<close> shards.
\<close>

section \<open>Environments and descriptors\<close>

text \<open>\<open>MinimalAuthenticatedEnvironment\<close> and the descriptors read back from a key.\<close>

record environment =
  env_id :: string
  env_type :: RuntimeEnvironmentType
  env_maximumConcurrencyLimit :: nat
  env_projectId :: string
  env_organizationId :: string

record env_descriptor =
  ed_orgId :: string
  ed_projectId :: string
  ed_envId :: string

record queue_descriptor =
  qd_orgId :: string
  qd_projectId :: string
  qd_envId :: string
  qd_queue :: string
  qd_concurrencyKey :: "string option"

definition colon :: char where "colon = CHR '':''"

section \<open>Sections of a key\<close>

definition envKeySection :: "string \<Rightarrow> string" where
  "envKeySection envId = ''env:'' @ envId"

definition projKeySection :: "string \<Rightarrow> string" where
  "projKeySection projId = ''proj:'' @ projId"

definition orgKeySection :: "string \<Rightarrow> string" where
  "orgKeySection orgId = ''{org:'' @ orgId @ ''}''"

definition queueSection :: "string \<Rightarrow> string" where
  "queueSection queue = ''queue:'' @ queue"

definition concurrencyKeySection :: "string \<Rightarrow> string" where
  "concurrencyKeySection concurrencyKey = ''ck:'' @ concurrencyKey"

lemmas section_defs = envKeySection_def projKeySection_def orgKeySection_def queueSection_def
  concurrencyKeySection_def

section \<open>Keys\<close>

definition masterQueueKeyForShard :: "nat \<Rightarrow> string" where
  "masterQueueKeyForShard n = js_join '':'' [''masterQueue'', ''shard'', nat_to_string n]"

definition workerQueueKey :: "string \<Rightarrow> string" where
  "workerQueueKey workerQueue = js_join '':'' [''workerQueue'', workerQueue]"

definition queueKey :: "environment \<Rightarrow> string \<Rightarrow> string option \<Rightarrow> string" where
  "queueKey env queue concurrencyKey =
     js_join '':''
       ([orgKeySection (env_organizationId env), projKeySection (env_projectId env),
         envKeySection (env_id env), queueSection queue]
        @ (case concurrencyKey of None \<Rightarrow> []
           | Some k \<Rightarrow> if k = [] then [] else [concurrencyKeySection k]))"

definition queueCurrentDequeuedKey :: "environment \<Rightarrow> string \<Rightarrow> string option \<Rightarrow> string" where
  "queueCurrentDequeuedKey env queue concurrencyKey =
     js_join '':'' [queueKey env queue concurrencyKey, ''currentDequeued'']"

definition queueCurrentConcurrencyKey :: "environment \<Rightarrow> string \<Rightarrow> string option \<Rightarrow> string" where
  "queueCurrentConcurrencyKey env queue concurrencyKey =
     js_join '':'' [queueKey env queue concurrencyKey, ''currentConcurrency'']"

definition queueConcurrencyLimitKey :: "environment \<Rightarrow> string \<Rightarrow> string" where
  "queueConcurrencyLimitKey env queue = js_join '':'' [queueKey env queue None, ''concurrency'']"

text \<open>The keys of an environment: the two overloads of the source differ in their argument only.\<close>

definition env_key :: "env_descriptor \<Rightarrow> string \<Rightarrow> string" where
  "env_key d part =
     js_join '':'' [orgKeySection (ed_orgId d), projKeySection (ed_projectId d),
                  envKeySection (ed_envId d), part]"

definition envConcurrencyLimitKey :: "env_descriptor \<Rightarrow> string" where
  "envConcurrencyLimitKey d = env_key d ''concurrency''"

definition envConcurrencyLimitBurstFactorKey :: "env_descriptor \<Rightarrow> string" where
  "envConcurrencyLimitBurstFactorKey d = env_key d ''concurrencyBurstFactor''"

definition envCurrentConcurrencyKey :: "env_descriptor \<Rightarrow> string" where
  "envCurrentConcurrencyKey d = env_key d ''currentConcurrency''"

definition envCurrentDequeuedKey :: "env_descriptor \<Rightarrow> string" where
  "envCurrentDequeuedKey d = env_key d ''currentDequeued''"

definition deadLetterQueueKey :: "env_descriptor \<Rightarrow> string" where
  "deadLetterQueueKey d = env_key d ''deadLetter''"

definition descriptorOfEnvironment :: "environment \<Rightarrow> env_descriptor" where
  "descriptorOfEnvironment env =
     \<lparr>ed_orgId = env_organizationId env, ed_projectId = env_projectId env, ed_envId = env_id env\<rparr>"

definition envQueueKey :: "environment \<Rightarrow> string" where
  "envQueueKey env = js_join '':'' [orgKeySection (env_organizationId env), envKeySection (env_id env)]"

definition messageKey :: "string \<Rightarrow> string \<Rightarrow> string" where
  "messageKey orgId messageId = js_join '':'' [orgKeySection orgId, ''message:'' @ messageId]"

definition ttlQueueKeyForShard :: "nat \<Rightarrow> string" where
  "ttlQueueKeyForShard n = js_join '':'' [''ttl'', ''shard'', nat_to_string n]"

section \<open>Reading a queue key\<close>

text \<open>\<open>replace("{", "").replace("}", "")\<close> removes the first brace of each kind.\<close>

definition strip_braces :: "string \<Rightarrow> string" where
  "strip_braces s = remove1 CHR ''}'' (remove1 CHR ''{'' s)"

text \<open>\<open>None\<close> is the exception of \<open>parts[1].replace\<close> on a key with one part.\<close>

definition nth_part :: "string list \<Rightarrow> nat \<Rightarrow> string option" where
  "nth_part parts i = (if i < length parts then Some (parts ! i) else None)"

text \<open>A missing part of a key is \<open>undefined\<close>, here the empty string.\<close>

definition part_or_empty :: "string list \<Rightarrow> nat \<Rightarrow> string" where
  "part_or_empty parts i = (case nth_part parts i of None \<Rightarrow> [] | Some p \<Rightarrow> p)"

definition descriptorFromQueue :: "string \<Rightarrow> queue_descriptor" where
  "descriptorFromQueue queue =
     (let parts = js_split colon queue
      in \<lparr>qd_orgId = strip_braces (part_or_empty parts 1), qd_projectId = part_or_empty parts 3,
          qd_envId = part_or_empty parts 5, qd_queue = part_or_empty parts 7,
          qd_concurrencyKey = nth_part parts 9\<rparr>)"

definition envDescriptorFromQueue :: "string \<Rightarrow> env_descriptor" where
  "envDescriptorFromQueue queue =
     (let d = descriptorFromQueue queue
      in \<lparr>ed_orgId = qd_orgId d, ed_projectId = qd_projectId d, ed_envId = qd_envId d\<rparr>)"

definition orgIdFromQueue :: "string \<Rightarrow> string" where
  "orgIdFromQueue queue = qd_orgId (descriptorFromQueue queue)"

definition envIdFromQueue :: "string \<Rightarrow> string" where
  "envIdFromQueue queue = qd_envId (descriptorFromQueue queue)"

definition projectIdFromQueue :: "string \<Rightarrow> string" where
  "projectIdFromQueue queue = qd_projectId (descriptorFromQueue queue)"

definition envQueueKeyFromQueue :: "string \<Rightarrow> string" where
  "envQueueKeyFromQueue queue =
     js_join '':'' [orgKeySection (orgIdFromQueue queue), envKeySection (envIdFromQueue queue)]"

definition envConcurrencyLimitKeyFromQueue :: "string \<Rightarrow> string" where
  "envConcurrencyLimitKeyFromQueue queue = envConcurrencyLimitKey (envDescriptorFromQueue queue)"

definition envConcurrencyLimitBurstFactorKeyFromQueue :: "string \<Rightarrow> string" where
  "envConcurrencyLimitBurstFactorKeyFromQueue queue =
     envConcurrencyLimitBurstFactorKey (envDescriptorFromQueue queue)"

definition envCurrentConcurrencyKeyFromQueue :: "string \<Rightarrow> string" where
  "envCurrentConcurrencyKeyFromQueue queue = envCurrentConcurrencyKey (envDescriptorFromQueue queue)"

definition envCurrentDequeuedKeyFromQueue :: "string \<Rightarrow> string" where
  "envCurrentDequeuedKeyFromQueue queue = envCurrentDequeuedKey (envDescriptorFromQueue queue)"

definition deadLetterQueueKeyFromQueue :: "string \<Rightarrow> string" where
  "deadLetterQueueKeyFromQueue queue = deadLetterQueueKey (envDescriptorFromQueue queue)"

definition messageKeyPrefixFromQueue :: "string \<Rightarrow> string" where
  "messageKeyPrefixFromQueue queue = orgKeySection (orgIdFromQueue queue) @ '':message:''"

section \<open>Concurrency keys\<close>

definition baseQueueKeyFromQueue :: "string \<Rightarrow> string" where
  "baseQueueKeyFromQueue queue =
     (case js_indexOf queue '':ck:'' of
        None \<Rightarrow> queue
      | Some idx \<Rightarrow> if idx + 4 \<ge> length queue then queue else take idx queue)"

definition queueConcurrencyLimitKeyFromQueue :: "string \<Rightarrow> string" where
  "queueConcurrencyLimitKeyFromQueue queue = baseQueueKeyFromQueue queue @ '':concurrency''"

definition queueCurrentConcurrencyKeyFromQueue :: "string \<Rightarrow> string" where
  "queueCurrentConcurrencyKeyFromQueue queue = queue @ '':currentConcurrency''"

definition queueCurrentDequeuedKeyFromQueue :: "string \<Rightarrow> string" where
  "queueCurrentDequeuedKeyFromQueue queue = queue @ '':currentDequeued''"

definition ckIndexKeyFromQueue :: "string \<Rightarrow> string" where
  "ckIndexKeyFromQueue queue = baseQueueKeyFromQueue queue @ '':ckIndex''"

definition queueLengthCounterKeyFromQueue :: "string \<Rightarrow> string" where
  "queueLengthCounterKeyFromQueue queue = baseQueueKeyFromQueue queue @ '':lengthCounter''"

definition queueRunningCounterKeyFromQueue :: "string \<Rightarrow> string" where
  "queueRunningCounterKeyFromQueue queue = baseQueueKeyFromQueue queue @ '':runningCounter''"

definition isCkWildcard :: "string \<Rightarrow> bool" where
  "isCkWildcard queue = js_endsWith queue '':ck:*''"

definition toCkWildcard :: "string \<Rightarrow> string" where
  "toCkWildcard queue =
     (let base = baseQueueKeyFromQueue queue in if base = queue then queue else base @ '':ck:*'')"

section \<open>Jump consistent hash\<close>

text \<open>The first eight bytes of the digest, big endian.\<close>

definition bytesToBigInt :: "nat list \<Rightarrow> nat" where
  "bytesToBigInt bytes =
     (bytes ! 0 * 2 ^ 24 + bytes ! 1 * 2 ^ 16 + bytes ! 2 * 2 ^ 8 + bytes ! 3) * 2 ^ 32
     + (bytes ! 4 * 2 ^ 24 + bytes ! 5 * 2 ^ 16 + bytes ! 6 * 2 ^ 8 + bytes ! 7)"

definition next_key :: "nat \<Rightarrow> nat" where
  "next_key key = (key * 2862933555777941757) mod 2 ^ 64 + 1"

text \<open>The next bucket to jump to, from bucket \<open>b\<close> with the new key.\<close>

definition next_jump :: "nat \<Rightarrow> nat \<Rightarrow> nat" where
  "next_jump b key = ((b + 1) * 2 ^ 31) div (key div 2 ^ 33 + 1)"

lemma next_key_le: "next_key key \<le> 2 ^ 64"
proof -
  have "key * 2862933555777941757 mod 2 ^ 64 < 2 ^ 64" by (rule mod_less_divisor) simp
  then show ?thesis unfolding next_key_def by simp
qed

lemma next_jump_ge:
  assumes "key \<le> 2 ^ 64" "b < 2 ^ 31"
  shows "b \<le> next_jump b key"
proof -
  have "key div 2 ^ 33 \<le> 2 ^ 64 div 2 ^ 33"
    using assms(1) by (rule div_le_mono)
  then have d: "key div 2 ^ 33 + 1 \<le> 2 ^ 31 + 1" by simp
  have "b * (key div 2 ^ 33 + 1) \<le> b * (2 ^ 31 + 1)"
    using d by (rule mult_le_mono2)
  also have "\<dots> \<le> (b + 1) * 2 ^ 31"
    using assms(2) by (simp add: algebra_simps)
  finally show ?thesis
    unfolding next_jump_def by (simp add: less_eq_div_iff_mult_less_eq)
qed

lemma next_jump_greater:
  assumes "key < 2 ^ 64" shows "b < next_jump b key"
proof -
  have "key div 2 ^ 33 < 2 ^ 31"
    using assms by (simp add: less_mult_imp_div_less)
  then have "(b + 1) * (key div 2 ^ 33 + 1) \<le> (b + 1) * 2 ^ 31"
    by (intro mult_le_mono2) simp
  then have "b + 1 \<le> next_jump b key"
    unfolding next_jump_def by (subst less_eq_div_iff_mult_less_eq) simp_all
  then show ?thesis by simp
qed

lemma next_key_top: "next_key (2 ^ 64) = 1"
  by (simp add: next_key_def)

text \<open>
  The \<open>while (j < numBuckets)\<close> loop. With the largest key, \<open>2 ^ 64\<close>, a round does not
  advance; the key after it is 1, so the next round does. The bound on the number of buckets is
  the source's (a 32-bit number).
\<close>

function jump_loop :: "nat \<Rightarrow> nat \<Rightarrow> int \<Rightarrow> nat \<Rightarrow> int" where
  "jump_loop numBuckets key b j =
     (if j < min numBuckets (2 ^ 31)
      then (let key' = next_key key in jump_loop numBuckets key' (int j) (next_jump j key'))
      else b)"
  by pat_completeness auto

termination jump_loop
proof (relation "measures [\<lambda>(n, key, b, j). n - j, \<lambda>(n, key, b, j). if key = 2 ^ 64 then 0 else 1]")
  fix n key :: nat and b :: int and j key' :: nat
  assume j: "j < min n (2 ^ 31)" and key': "key' = next_key key"
  show "((n, key', int j, next_jump j key'), n, key, b, j)
    \<in> measures [\<lambda>(n, key, b, j). n - j, \<lambda>(n, key, b, j). if key = 2 ^ 64 then 0 else 1]"
  proof (cases "key' = 2 ^ 64")
    case True
    then have "key \<noteq> 2 ^ 64" using key' next_key_top by auto
    with True j next_jump_ge [of key' j] show ?thesis by auto
  next
    case False
    with key' next_key_le [of key] have "key' < 2 ^ 64" by simp
    from next_jump_greater [OF this, of j] j show ?thesis by auto
  qed
qed simp

declare jump_loop.simps [simp del]

definition jumpConsistentHash :: "nat list \<Rightarrow> nat \<Rightarrow> int" where
  "jumpConsistentHash key numBuckets = jump_loop numBuckets (bytesToBigInt key) (- 1) 0"

text \<open>\<open>sha256\<close> is the digest.\<close>

definition jumpHash :: "(string \<Rightarrow> nat list) \<Rightarrow> string \<Rightarrow> nat \<Rightarrow> int" where
  "jumpHash sha256 key buckets = jumpConsistentHash (sha256 key) buckets"

definition masterQueueShardForEnvironment :: "(string \<Rightarrow> nat list) \<Rightarrow> string \<Rightarrow> nat \<Rightarrow> nat" where
  "masterQueueShardForEnvironment sha256 envId shardCount = nat (jumpHash sha256 envId shardCount)"

section \<open>Properties of the hash\<close>

lemma jump_loop_range:
  "b < int n \<Longrightarrow> n \<le> 2 ^ 31 \<Longrightarrow> jump_loop n key b j < int n"
proof (induction n key b j rule: jump_loop.induct)
  case (1 n key b j)
  then show ?case by (simp add: jump_loop.simps [of n key b j] Let_def)
qed

lemma jump_loop_nonneg: "0 \<le> b \<Longrightarrow> 0 \<le> jump_loop n key b j"
proof (induction n key b j rule: jump_loop.induct)
  case (1 n key b j)
  then show ?case by (simp add: jump_loop.simps [of n key b j] Let_def)
qed

lemma jump_loop_at_last:
  "j = n \<Longrightarrow> b = int n \<or> j < m \<Longrightarrow> m = Suc n \<Longrightarrow> m \<le> 2 ^ 31 \<Longrightarrow> jump_loop m key b j = int n"
proof (induction m key b j rule: jump_loop.induct)
  case (1 m key b j)
  have ge: "j \<le> next_jump j (next_key key)"
    using 1 by (intro next_jump_ge next_key_le) simp
  have lt: "j < min m (2 ^ 31)" using 1 by simp
  then have step: "jump_loop m key b j
      = jump_loop m (next_key key) (int j) (next_jump j (next_key key))"
    by (subst jump_loop.simps) (simp only: if_True Let_def)
  show ?case
  proof (cases "next_jump j (next_key key) = j")
    case True
    with 1(1) [OF lt refl] 1 step show ?thesis by simp
  next
    case False
    with ge 1 have "\<not> next_jump j (next_key key) < min m (2 ^ 31)" by simp
    then have "jump_loop m (next_key key) (int j) (next_jump j (next_key key)) = int j"
      by (subst jump_loop.simps) (simp only: if_False)
    with 1 step show ?thesis by simp
  qed
qed

lemma jump_loop_Suc:
  "Suc n \<le> 2 ^ 31 \<Longrightarrow>
   jump_loop (Suc n) key b j = jump_loop n key b j \<or> jump_loop (Suc n) key b j = int n"
proof (induction n key b j rule: jump_loop.induct)
  case (1 n key b j)
  consider "j < n" | "j = n" | "j > n" by linarith
  then show ?case
  proof cases
    case 1
    with "1.IH" "1.prems" show ?thesis
      by (simp add: jump_loop.simps [of n key b j] jump_loop.simps [of "Suc n" key b j] Let_def)
  next
    case 2
    with jump_loop_at_last [of j n b "Suc n" key] "1.prems" show ?thesis by simp
  next
    case 3
    then have "\<not> j < min n (2 ^ 31)" "\<not> j < min (Suc n) (2 ^ 31)" by simp_all
    then show ?thesis
      by (simp only: jump_loop.simps [of n key b j] jump_loop.simps [of "Suc n" key b j] if_False) simp
  qed
qed

text \<open>
  The shard of an environment is always an existing shard, and adding a shard moves an
  environment to the new shard or not at all, so that growing the number of master queues
  never shuffles environments between the old ones.
\<close>

theorem jumpHash_consistent:
  assumes "1 \<le> n" "n < 2 ^ 31"
  shows "0 \<le> jumpHash sha256 key n \<and> jumpHash sha256 key n < int n
    \<and> jumpHash sha256 key (n + 1) \<in> {jumpHash sha256 key n, int n}"
proof -
  let ?k = "bytesToBigInt (sha256 key)"
  have "jump_loop n ?k (- 1) 0 = jump_loop n (next_key ?k) 0 (next_jump 0 (next_key ?k))"
    using assms by (simp add: jump_loop.simps [of n ?k "- 1" 0] Let_def)
  then have "0 \<le> jump_loop n ?k (- 1) 0" by (simp add: jump_loop_nonneg)
  moreover have "jump_loop n ?k (- 1) 0 < int n" using assms by (intro jump_loop_range) auto
  moreover have "jump_loop (Suc n) ?k (- 1) 0 \<in> {jump_loop n ?k (- 1) 0, int n}"
    using jump_loop_Suc [of n ?k "- 1" 0] assms by auto
  ultimately show ?thesis by (simp add: jumpHash_def jumpConsistentHash_def)
qed

theorem jumpHash_consistent_witness:
  "jumpHash (\<lambda>_. [1,2,3,4,5,6,7,8]) ''env'' (2 + 1)
     \<in> {jumpHash (\<lambda>_. [1,2,3,4,5,6,7,8]) ''env'' 2, int 2}"
  using jumpHash_consistent [of 2 "\<lambda>_. [1,2,3,4,5,6,7,8]" "''env''"] by simp

section \<open>Reading back what was written\<close>

lemma colon_free_section:
  "colon \<notin> set s \<Longrightarrow> js_split colon (''env:'' @ s) = [''env'', s]"
  "colon \<notin> set s \<Longrightarrow> js_split colon (''proj:'' @ s) = [''proj'', s]"
  by (simp_all add: js_split_no_sep colon_def)

lemma js_split_cons: "colon \<notin> set p \<Longrightarrow> js_split colon (p @ '':'' @ s) = p # js_split colon s"
  using js_split_append [of colon p s] by (simp add: colon_def)

text \<open>The parts of a queue key.\<close>

definition key_parts :: "string \<Rightarrow> string \<Rightarrow> string \<Rightarrow> string \<Rightarrow> string option \<Rightarrow> string list" where
  "key_parts o_id p_id e_id q ck =
     [''{org'', o_id @ ''}'', ''proj'', p_id, ''env'', e_id, ''queue'', q]
     @ (case ck of None \<Rightarrow> [] | Some k \<Rightarrow> [''ck'', k])"

lemma queueKey_parts:
  "ck \<noteq> Some [] \<Longrightarrow>
   queueKey env q ck
     = js_join [colon] (key_parts (env_organizationId env) (env_projectId env) (env_id env) q ck)"
  by (auto simp: queueKey_def key_parts_def section_defs colon_def split: option.splits)

lemma queueKey_split:
  assumes "colon \<notin> set (env_organizationId env)" "colon \<notin> set (env_projectId env)"
    "colon \<notin> set (env_id env)" "colon \<notin> set q" "ck \<noteq> Some []"
    "\<forall>k. ck = Some k \<longrightarrow> colon \<notin> set k"
  shows "js_split colon (queueKey env q ck)
    = key_parts (env_organizationId env) (env_projectId env) (env_id env) q ck"
  unfolding queueKey_parts [OF assms(5)]
  by (rule js_split_join) (use assms in \<open>auto simp: key_parts_def colon_def split: option.splits\<close>)

text \<open>
  C38. A queue key determines its queue: the descriptor read from the key is the organization,
  project, environment, queue and concurrency key it was made of, and the environment keys
  derived from the queue key are the ones derived from the environment, as long as no part
  contains a colon and the organization no brace.
\<close>

theorem queueKey_roundtrip:
  assumes "colon \<notin> set (env_organizationId env)" "colon \<notin> set (env_projectId env)"
    "colon \<notin> set (env_id env)" "colon \<notin> set q" "ck \<noteq> Some []"
    "case ck of None \<Rightarrow> True | Some k \<Rightarrow> colon \<notin> set k"
    "CHR ''{'' \<notin> set (env_organizationId env)" "CHR ''}'' \<notin> set (env_organizationId env)"
  shows "descriptorFromQueue (queueKey env q ck)
      = \<lparr>qd_orgId = env_organizationId env, qd_projectId = env_projectId env,
         qd_envId = env_id env, qd_queue = q, qd_concurrencyKey = ck\<rparr>
    \<and> envDescriptorFromQueue (queueKey env q ck) = descriptorOfEnvironment env
    \<and> envQueueKeyFromQueue (queueKey env q ck) = envQueueKey env"
proof -
  have "\<forall>k. ck = Some k \<longrightarrow> colon \<notin> set k" using assms(6) by auto
  note split = queueKey_split [OF assms(1-5) this]
  have "strip_braces (env_organizationId env @ ''}'') = env_organizationId env"
    using assms(7,8) by (simp add: strip_braces_def remove1_append remove1_idem)
  then show ?thesis
    unfolding descriptorFromQueue_def envDescriptorFromQueue_def envQueueKeyFromQueue_def
      orgIdFromQueue_def envIdFromQueue_def Let_def split
    by (cases ck) (simp_all add: key_parts_def part_or_empty_def nth_part_def
        descriptorOfEnvironment_def envQueueKey_def)
qed

definition example_env :: environment where
  "example_env = \<lparr>env_id = ''e1'', env_type = PRODUCTION, env_maximumConcurrencyLimit = 10,
     env_projectId = ''p1'', env_organizationId = ''o1''\<rparr>"

theorem queueKey_roundtrip_witness:
  "qd_concurrencyKey (descriptorFromQueue (queueKey example_env ''task/hello'' (Some ''user-1'')))
     = Some ''user-1''"
  using queueKey_roundtrip [of example_env "''task/hello''" "Some ''user-1''"]
  by (simp add: example_env_def colon_def)

text \<open>
  A concurrency key that contains a colon is not read back: the descriptor has only the
  part before the first colon, although concurrency keys are chosen by users.
\<close>

theorem concurrency_key_truncated:
  "qd_concurrencyKey (descriptorFromQueue (queueKey example_env ''q'' (Some ''user:42'')))
     = Some ''user''"
proof -
  have "queueKey example_env ''q'' (Some ''user:42'') = ''{org:o1}:proj:p1:env:e1:queue:q:ck:user:42''"
    by (simp add: queueKey_def example_env_def section_defs)
  then show ?thesis
    by (simp add: descriptorFromQueue_def colon_def nth_part_def Let_def)
qed

end
