(* ===== verification/RetryDelay.thy ===== *)
theory RetryDelay
  imports Complex_Main
begin

text \<open>
  Retry options (\<open>packages/core/src/v3/schemas/schemas.ts\<close>) and the exponential backoff
  (\<open>packages/core/src/v3/utils/retries.ts\<close>).

  Delays are computed in rational arithmetic, where the source uses doubles. The value of
  \<open>Math.random()\<close> is an argument, between 0 and 1. Where the factor is 0 and the attempt below
  1, JavaScript's \<open>Math.pow\<close> is \<open>Infinity\<close> and the power here is 0; attempts start at 1.
\<close>

record retry_options =
  ro_maxAttempts :: "int option"
  ro_factor :: "rat option"
  ro_minTimeoutInMs :: "int option"
  ro_maxTimeoutInMs :: "int option"
  ro_randomize :: "bool option"
  ro_oomMachine :: "string option"

definition or_default :: "'a option \<Rightarrow> 'a \<Rightarrow> 'a" where
  "or_default x d = (case x of None \<Rightarrow> d | Some v \<Rightarrow> v)"

text \<open>\<open>{ ...defaultRetryOptions, ...options }\<close>.\<close>

definition default_maxAttempts :: int where "default_maxAttempts = 3"
definition default_factor :: rat where "default_factor = 2"
definition default_minTimeoutInMs :: int where "default_minTimeoutInMs = 1000"
definition default_maxTimeoutInMs :: int where "default_maxTimeoutInMs = 60000"
definition default_randomize :: bool where "default_randomize = True"

lemmas retry_defaults = default_maxAttempts_def default_factor_def default_minTimeoutInMs_def
  default_maxTimeoutInMs_def default_randomize_def

definition js_round :: "rat \<Rightarrow> int" where
  "js_round x = \<lfloor>x + 1 / 2\<rfloor>"

definition calculateNextRetryDelay :: "rat \<Rightarrow> retry_options \<Rightarrow> int \<Rightarrow> int option" where
  "calculateNextRetryDelay rnd options attempt =
     (if attempt \<ge> or_default (ro_maxAttempts options) default_maxAttempts then None
      else (let factor = or_default (ro_factor options) default_factor;
                minTimeoutInMs = or_default (ro_minTimeoutInMs options) default_minTimeoutInMs;
                maxTimeoutInMs = or_default (ro_maxTimeoutInMs options) default_maxTimeoutInMs;
                random = (if or_default (ro_randomize options) default_randomize then rnd + 1 else 1);
                timeout = min (of_int maxTimeoutInMs)
                            (random * of_int minTimeoutInMs * factor powi (attempt - 1))
            in Some (js_round timeout)))"

lemma js_round_mono: "x \<le> y \<Longrightarrow> js_round x \<le> js_round y"
  by (simp add: js_round_def floor_mono)

lemma js_round_of_int [simp]: "js_round (of_int n) = n"
  by (simp add: js_round_def floor_eq_iff)

lemma calculateNextRetryDelay_None:
  "calculateNextRetryDelay rnd options attempt = None
     \<longleftrightarrow> attempt \<ge> or_default (ro_maxAttempts options) default_maxAttempts"
  by (simp add: calculateNextRetryDelay_def Let_def)

lemma powi_mono_factor: "1 \<le> f \<Longrightarrow> 1 \<le> m \<Longrightarrow> m \<le> n \<Longrightarrow> f powi (m - 1) \<le> f powi (n - 1)"
  for f :: rat
  by (simp add: power_int_def nat_diff_distrib power_increasing)

text \<open>
  C40. The backoff behaves like one: a delay is computed exactly as long as attempts are left; where the
  factor is at least 1 and the minimum timeout neither negative nor above the maximum, the delay
  lies between the two; and with the same random number no later attempt has a shorter one.
\<close>

theorem retry_delay_bounds:
  assumes "0 \<le> rnd" "rnd < 1" "1 \<le> attempt"
    and "1 \<le> or_default (ro_factor options) default_factor"
    and "0 \<le> or_default (ro_minTimeoutInMs options) default_minTimeoutInMs"
    and "or_default (ro_minTimeoutInMs options) default_minTimeoutInMs
           \<le> or_default (ro_maxTimeoutInMs options) default_maxTimeoutInMs"
  shows "case calculateNextRetryDelay rnd options attempt of
      None \<Rightarrow> or_default (ro_maxAttempts options) default_maxAttempts \<le> attempt
    | Some d \<Rightarrow> attempt < or_default (ro_maxAttempts options) default_maxAttempts
        \<and> or_default (ro_minTimeoutInMs options) default_minTimeoutInMs \<le> d
        \<and> d \<le> or_default (ro_maxTimeoutInMs options) default_maxTimeoutInMs
        \<and> (\<forall>later \<ge> attempt. case calculateNextRetryDelay rnd options later of None \<Rightarrow> True | Some d' \<Rightarrow> d \<le> d')"
proof -
  let ?f = "or_default (ro_factor options) default_factor"
  let ?lo = "or_default (ro_minTimeoutInMs options) default_minTimeoutInMs"
  let ?hi = "or_default (ro_maxTimeoutInMs options) default_maxTimeoutInMs"
  define r where "r = (if or_default (ro_randomize options) default_randomize then rnd + 1 else 1)"
  define t where "t k = min (of_int ?hi) (r * of_int ?lo * ?f powi (k - 1))" for k :: int
  have r: "1 \<le> r" using assms(1) by (simp add: r_def)
  have d: "calculateNextRetryDelay rnd options k = Some (js_round (t k))"
    if "k < or_default (ro_maxAttempts options) default_maxAttempts" for k
    using that by (simp add: calculateNextRetryDelay_def Let_def r_def t_def)
  have lo: "(of_int ?lo :: rat) \<le> r * of_int ?lo"
    using r assms(5) mult_right_mono [of 1 r "of_int ?lo"] by simp
  have p: "1 \<le> ?f powi (attempt - 1)"
    using powi_mono_factor [of ?f 1 attempt] assms(3,4) by simp
  have "0 \<le> r * of_int ?lo" using assms(5) r by simp
  from mult_left_mono [OF p this] lo
  have "of_int ?lo \<le> r * of_int ?lo * ?f powi (attempt - 1)"
    by (simp only: mult_1_right)
  then have "of_int ?lo \<le> t attempt" using assms(6) by (simp add: t_def)
  then have 1: "?lo \<le> js_round (t attempt)"
    using js_round_mono [of "of_int ?lo" "t attempt"] by simp
  have "r * of_int ?lo * ?f powi (attempt - 1) \<le> r * of_int ?lo * ?f powi (k - 1)" if "attempt \<le> k" for k
    using powi_mono_factor [of ?f attempt k] assms(3,4,5) r that
    by (intro mult_left_mono) auto
  then have 2: "js_round (t attempt) \<le> js_round (t k)" if "attempt \<le> k" for k
    using that by (intro js_round_mono) (auto simp: t_def min.coboundedI2)
  have "js_round (t attempt) \<le> js_round (of_int ?hi)"
    by (intro js_round_mono) (simp add: t_def)
  then have 3: "js_round (t attempt) \<le> ?hi" by simp
  have later: "case calculateNextRetryDelay rnd options k of None \<Rightarrow> True | Some d' \<Rightarrow> js_round (t attempt) \<le> d'"
    if "attempt \<le> k" for k
    using 2 [OF that] d [of k] calculateNextRetryDelay_None [of rnd options k]
    by (cases "k < or_default (ro_maxAttempts options) default_maxAttempts") simp_all
  show ?thesis
  proof (cases "attempt < or_default (ro_maxAttempts options) default_maxAttempts")
    case True
    with 1 3 later d show ?thesis by simp
  next
    case False
    with calculateNextRetryDelay_None [of rnd options attempt] show ?thesis by simp
  qed
qed

definition plain_options :: retry_options where
  "plain_options = \<lparr>ro_maxAttempts = None, ro_factor = None, ro_minTimeoutInMs = None,
     ro_maxTimeoutInMs = None, ro_randomize = None, ro_oomMachine = None\<rparr>"

theorem retry_delay_bounds_witness:
  "\<exists>d d'. calculateNextRetryDelay (1 / 2) (plain_options\<lparr>ro_maxAttempts := Some 3\<rparr>) 1 = Some d
    \<and> calculateNextRetryDelay (1 / 2) (plain_options\<lparr>ro_maxAttempts := Some 3\<rparr>) 2 = Some d' \<and> 1000 \<le> d \<and> d \<le> 60000 \<and> d \<le> d'"
proof -
  let ?o = "plain_options\<lparr>ro_maxAttempts := Some 3\<rparr>"
  have some: "calculateNextRetryDelay (1 / 2) ?o 1 \<noteq> None" "calculateNextRetryDelay (1 / 2) ?o 2 \<noteq> None"
    by (simp_all add: calculateNextRetryDelay_None plain_options_def or_default_def)
  then obtain d d' where d: "calculateNextRetryDelay (1 / 2) ?o 1 = Some d" "calculateNextRetryDelay (1 / 2) ?o 2 = Some d'" by blast
  have "case calculateNextRetryDelay (1 / 2) ?o 1 of
      None \<Rightarrow> or_default (ro_maxAttempts ?o) default_maxAttempts \<le> 1
    | Some d \<Rightarrow> 1 < or_default (ro_maxAttempts ?o) default_maxAttempts
        \<and> or_default (ro_minTimeoutInMs ?o) default_minTimeoutInMs \<le> d
        \<and> d \<le> or_default (ro_maxTimeoutInMs ?o) default_maxTimeoutInMs
        \<and> (\<forall>later \<ge> 1. case calculateNextRetryDelay (1 / 2) ?o later of None \<Rightarrow> True | Some d' \<Rightarrow> d \<le> d')"
    by (rule retry_delay_bounds) (simp_all add: plain_options_def or_default_def retry_defaults)
  then have facts: "1000 \<le> d \<and> d \<le> 60000 \<and> (\<forall>later \<ge> 1. case calculateNextRetryDelay (1 / 2) ?o later of None \<Rightarrow> True | Some d' \<Rightarrow> d \<le> d')"
    unfolding d option.case by (simp add: plain_options_def or_default_def retry_defaults)
  then have "case calculateNextRetryDelay (1 / 2) ?o 2 of None \<Rightarrow> True | Some d' \<Rightarrow> d \<le> d'" by simp
  with facts d show ?thesis by simp
qed

end
