(* ===== verification/Redis.thy ===== *)
theory Redis
  imports Complex_Main Prelude "HOL-Library.Char_ord" "HOL-Library.List_Lexorder"
    "HOL-Library.Product_Lexorder"
begin

text \<open>
  The part of a Redis server the Lua scripts of the run queue use: sorted sets, sets, lists,
  counters and plain values under string keys. A sorted set is the list of its members with
  their scores, ordered by score and then member; a set is a list without duplicates of which
  only membership and length are used. Key expiry is not modelled.

  \<open>'m\<close> is the type of the messages stored under message keys.
\<close>

section \<open>Sorted sets\<close>

type_synonym zset = "(string \<times> int) list"

definition zscore_key :: "string \<times> int \<Rightarrow> int \<times> string" where
  "zscore_key e = (snd e, fst e)"

definition zrem :: "string \<Rightarrow> zset \<Rightarrow> zset" where
  "zrem m z = filter (\<lambda>e. fst e \<noteq> m) z"

definition zadd :: "int \<Rightarrow> string \<Rightarrow> zset \<Rightarrow> zset" where
  "zadd s m z = insort_key zscore_key (m, s) (zrem m z)"

definition zmembers :: "zset \<Rightarrow> string set" where
  "zmembers z = fst ` set z"

text \<open>\<open>ZRANGE key 0 0 WITHSCORES\<close>.\<close>

fun zfirst :: "zset \<Rightarrow> (string \<times> int) option" where
  "zfirst [] = None"
| "zfirst (e # z) = Some e"

text \<open>\<open>ZRANGEBYSCORE key -inf t WITHSCORES LIMIT 0 n\<close>.\<close>

definition zrangebyscore :: "int \<Rightarrow> nat \<Rightarrow> zset \<Rightarrow> zset" where
  "zrangebyscore t n z = take n (filter (\<lambda>e. snd e \<le> t) z)"

definition zset_ok :: "zset \<Rightarrow> bool" where
  "zset_ok z = (sorted (map zscore_key z) \<and> distinct (map fst z))"

lemma zmembers_zrem [simp]: "zmembers (zrem m z) = zmembers z - {m}"
  by (auto simp: zmembers_def zrem_def)

lemma zmembers_zadd [simp]: "zmembers (zadd s m z) = insert m (zmembers z)"
  by (auto simp: zmembers_def zadd_def zrem_def set_insort_key)

lemma zmembers_Nil [simp]: "zmembers [] = {}"
  by (simp add: zmembers_def)

lemma zmembers_Cons [simp]: "zmembers (e # z) = insert (fst e) (zmembers z)"
  by (simp add: zmembers_def)

lemma zrangebyscore_subset: "set (zrangebyscore t n z) \<subseteq> {e \<in> set z. snd e \<le> t}"
  by (auto simp: zrangebyscore_def dest: in_set_takeD)

lemma length_zrangebyscore: "length (zrangebyscore t n z) \<le> n"
  by (simp add: zrangebyscore_def)

lemma set_zrem: "set (zrem m z) = {e \<in> set z. fst e \<noteq> m}"
  by (auto simp: zrem_def)

lemma set_zadd: "set (zadd s m z) = insert (m, s) {e \<in> set z. fst e \<noteq> m}"
  by (auto simp: zadd_def set_insort_key set_zrem)

lemma zset_ok_zrem: "zset_ok z \<Longrightarrow> zset_ok (zrem m z)"
  by (induction z) (auto simp: zset_ok_def zrem_def)

lemma zset_ok_zadd: "zset_ok z \<Longrightarrow> zset_ok (zadd s m z)"
proof -
  assume "zset_ok z"
  then have ok: "zset_ok (zrem m z)" and "m \<notin> fst ` set (zrem m z)"
    by (simp add: zset_ok_zrem) (auto simp: zrem_def)
  have "distinct (map fst (insort_key zscore_key (m, s) y))"
    if "distinct (map fst y)" "m \<notin> fst ` set y" for y
    using that by (induction y) (auto simp: set_insort_key)
  with ok \<open>m \<notin> fst ` set (zrem m z)\<close> show ?thesis
    by (simp add: zset_ok_def zadd_def sorted_insort_key)
qed

lemma zset_ok_Nil [simp]: "zset_ok []"
  by (simp add: zset_ok_def)

text \<open>\<open>ZSCORE\<close>.\<close>

definition zscore :: "string \<Rightarrow> zset \<Rightarrow> int option" where
  "zscore m z = map_of z m"

lemma zscore_zrem [simp]: "zscore m (zrem m' z) = (if m = m' then None else zscore m z)"
  by (induction z) (auto simp: zscore_def zrem_def)

lemma zscore_insort: "zscore m' z = None \<Longrightarrow> zscore m (insort_key zscore_key (m', s) z) = (if m = m' then Some s else zscore m z)"
  by (induction z) (auto simp: zscore_def split: if_splits)

lemma zscore_zadd [simp]: "zscore m (zadd s m' z) = (if m = m' then Some s else zscore m z)"
  by (simp add: zadd_def zscore_insort)

lemma zscore_None: "zscore m z = None \<longleftrightarrow> m \<notin> zmembers z"
  by (simp add: zscore_def zmembers_def map_of_eq_None_iff)

lemma zscore_iff: "zset_ok z \<Longrightarrow> zscore m z = Some s \<longleftrightarrow> (m, s) \<in> set z"
  by (simp add: zscore_def zset_ok_def)

section \<open>Sets and lists\<close>

definition sadd :: "string \<Rightarrow> string list \<Rightarrow> string list" where
  "sadd m xs = (if m \<in> set xs then xs else m # xs)"

definition srem :: "string \<Rightarrow> string list \<Rightarrow> string list" where
  "srem m xs = filter (\<lambda>x. x \<noteq> m) xs"

lemma set_sadd [simp]: "set (sadd m xs) = insert m (set xs)"
  by (auto simp: sadd_def)

lemma set_srem [simp]: "set (srem m xs) = set xs - {m}"
  by (auto simp: srem_def)

lemma length_sadd: "length (sadd m xs) \<le> length xs + 1"
  by (simp add: sadd_def)

lemma length_srem: "length (srem m xs) \<le> length xs"
  by (simp add: srem_def)

section \<open>The store\<close>

record 'm redis =
  r_messages :: "string \<Rightarrow> 'm option"
  r_limits :: "string \<Rightarrow> rat option"
  r_counters :: "string \<Rightarrow> nat option"
  r_zsets :: "string \<Rightarrow> zset"
  r_sets :: "string \<Rightarrow> string list"
  r_lists :: "string \<Rightarrow> string list"

definition empty_redis :: "'m redis" where
  "empty_redis = \<lparr>r_messages = (\<lambda>_. None), r_limits = (\<lambda>_. None), r_counters = (\<lambda>_. None),
     r_zsets = (\<lambda>_. []), r_sets = (\<lambda>_. []), r_lists = (\<lambda>_. [])\<rparr>"

definition SETM :: "string \<Rightarrow> 'm \<Rightarrow> 'm redis \<Rightarrow> 'm redis" where
  "SETM k m r = r\<lparr>r_messages := (r_messages r)(k := Some m)\<rparr>"

definition DEL :: "string \<Rightarrow> 'm redis \<Rightarrow> 'm redis" where
  "DEL k r = r\<lparr>r_messages := (r_messages r)(k := None)\<rparr>"

definition ZADD :: "string \<Rightarrow> int \<Rightarrow> string \<Rightarrow> 'm redis \<Rightarrow> 'm redis" where
  "ZADD k s m r = r\<lparr>r_zsets := (r_zsets r)(k := zadd s m (r_zsets r k))\<rparr>"

definition ZREM :: "string \<Rightarrow> string \<Rightarrow> 'm redis \<Rightarrow> 'm redis" where
  "ZREM k m r = r\<lparr>r_zsets := (r_zsets r)(k := zrem m (r_zsets r k))\<rparr>"

definition SADD :: "string \<Rightarrow> string \<Rightarrow> 'm redis \<Rightarrow> 'm redis" where
  "SADD k m r = r\<lparr>r_sets := (r_sets r)(k := sadd m (r_sets r k))\<rparr>"

definition SREM :: "string \<Rightarrow> string \<Rightarrow> 'm redis \<Rightarrow> 'm redis" where
  "SREM k m r = r\<lparr>r_sets := (r_sets r)(k := srem m (r_sets r k))\<rparr>"

definition RPUSH :: "string \<Rightarrow> string \<Rightarrow> 'm redis \<Rightarrow> 'm redis" where
  "RPUSH k v r = r\<lparr>r_lists := (r_lists r)(k := r_lists r k @ [v])\<rparr>"

text \<open>\<open>LREM key 0 v\<close> removes every occurrence.\<close>

definition LREM :: "string \<Rightarrow> string \<Rightarrow> 'm redis \<Rightarrow> 'm redis" where
  "LREM k v r = r\<lparr>r_lists := (r_lists r)(k := filter (\<lambda>x. x \<noteq> v) (r_lists r k))\<rparr>"

definition SETC :: "string \<Rightarrow> nat \<Rightarrow> 'm redis \<Rightarrow> 'm redis" where
  "SETC k n r = r\<lparr>r_counters := (r_counters r)(k := Some n)\<rparr>"

text \<open>\<open>INCR\<close> of an absent key sets it to 1.\<close>

definition INCR :: "string \<Rightarrow> 'm redis \<Rightarrow> 'm redis" where
  "INCR k r = SETC k ((case r_counters r k of None \<Rightarrow> 0 | Some n \<Rightarrow> n) + 1) r"

text \<open>The scripts' \<open>decrFloored\<close>: a counter above zero is decremented.\<close>

definition decrFloored :: "string \<Rightarrow> 'm redis \<Rightarrow> 'm redis" where
  "decrFloored k r =
     (case r_counters r k of None \<Rightarrow> r | Some n \<Rightarrow> if n > 0 then SETC k (n - 1) r else r)"

text \<open>\<open>ZADD\<close> and \<open>ZREM\<close> return whether a member was added or removed.\<close>

definition zadded :: "string \<Rightarrow> string \<Rightarrow> 'm redis \<Rightarrow> bool" where
  "zadded k m r = (m \<notin> zmembers (r_zsets r k))"

definition smember :: "string \<Rightarrow> string \<Rightarrow> 'm redis \<Rightarrow> bool" where
  "smember k m r = (m \<in> set (r_sets r k))"

text \<open>What each command leaves alone, and what it does to the component it changes.\<close>

lemma redis_cmds [simp]:
  "r_messages (SETM k m r) = (r_messages r)(k := Some m)" "r_messages (DEL k r) = (r_messages r)(k := None)"
  "r_messages (ZADD k s x r) = r_messages r" "r_messages (ZREM k x r) = r_messages r"
  "r_messages (SADD k x r) = r_messages r" "r_messages (SREM k x r) = r_messages r"
  "r_messages (RPUSH k x r) = r_messages r" "r_messages (LREM k x r) = r_messages r"
  "r_messages (SETC k n r) = r_messages r"
  "r_limits (SETM k m r) = r_limits r" "r_limits (DEL k r) = r_limits r"
  "r_limits (ZADD k s x r) = r_limits r" "r_limits (ZREM k x r) = r_limits r"
  "r_limits (SADD k x r) = r_limits r" "r_limits (SREM k x r) = r_limits r"
  "r_limits (RPUSH k x r) = r_limits r" "r_limits (LREM k x r) = r_limits r"
  "r_limits (SETC k n r) = r_limits r"
  "r_counters (SETM k m r) = r_counters r" "r_counters (DEL k r) = r_counters r"
  "r_counters (ZADD k s x r) = r_counters r" "r_counters (ZREM k x r) = r_counters r"
  "r_counters (SADD k x r) = r_counters r" "r_counters (SREM k x r) = r_counters r"
  "r_counters (RPUSH k x r) = r_counters r" "r_counters (LREM k x r) = r_counters r"
  "r_counters (SETC k n r) = (r_counters r)(k := Some n)"
  "r_zsets (SETM k m r) = r_zsets r" "r_zsets (DEL k r) = r_zsets r"
  "r_zsets (ZADD k s x r) = (r_zsets r)(k := zadd s x (r_zsets r k))"
  "r_zsets (ZREM k x r) = (r_zsets r)(k := zrem x (r_zsets r k))"
  "r_zsets (SADD k x r) = r_zsets r" "r_zsets (SREM k x r) = r_zsets r"
  "r_zsets (RPUSH k x r) = r_zsets r" "r_zsets (LREM k x r) = r_zsets r"
  "r_zsets (SETC k n r) = r_zsets r"
  "r_sets (SETM k m r) = r_sets r" "r_sets (DEL k r) = r_sets r"
  "r_sets (ZADD k s x r) = r_sets r" "r_sets (ZREM k x r) = r_sets r"
  "r_sets (SADD k x r) = (r_sets r)(k := sadd x (r_sets r k))"
  "r_sets (SREM k x r) = (r_sets r)(k := srem x (r_sets r k))"
  "r_sets (RPUSH k x r) = r_sets r" "r_sets (LREM k x r) = r_sets r" "r_sets (SETC k n r) = r_sets r"
  "r_lists (SETM k m r) = r_lists r" "r_lists (DEL k r) = r_lists r"
  "r_lists (ZADD k s x r) = r_lists r" "r_lists (ZREM k x r) = r_lists r"
  "r_lists (SADD k x r) = r_lists r" "r_lists (SREM k x r) = r_lists r"
  "r_lists (RPUSH k x r) = (r_lists r)(k := r_lists r k @ [x])"
  "r_lists (LREM k x r) = (r_lists r)(k := filter (\<lambda>y. y \<noteq> x) (r_lists r k))"
  "r_lists (SETC k n r) = r_lists r"
  by (simp_all add: SETM_def DEL_def ZADD_def ZREM_def SADD_def SREM_def RPUSH_def LREM_def SETC_def)

lemma redis_counter_cmds [simp]:
  "r_messages (INCR k r) = r_messages r" "r_limits (INCR k r) = r_limits r"
  "r_zsets (INCR k r) = r_zsets r" "r_sets (INCR k r) = r_sets r" "r_lists (INCR k r) = r_lists r"
  "r_messages (decrFloored k r) = r_messages r" "r_limits (decrFloored k r) = r_limits r"
  "r_zsets (decrFloored k r) = r_zsets r" "r_sets (decrFloored k r) = r_sets r"
  "r_lists (decrFloored k r) = r_lists r"
  by (simp_all add: INCR_def decrFloored_def split: option.split)

end
