(* ===== verification/RunQueue.thy ===== *)
theory RunQueue
  imports KeyProducer RetryDelay Redis
begin

text \<open>
  The run queue (\<open>run-engine/src/run-queue/index.ts\<close>): the Lua scripts that move a message
  between a queue, the concurrency sets, the worker queue and the dead letter queue, and the
  TypeScript operations that call them, for queues with and without concurrency keys.

  A script is a function on the Redis store and runs atomically, as scripts do. Keys are built
  by the key producer with an empty key prefix. Not modelled: metrics gauges, tracing, the
  expiry of counters, the first message format (version 1).
\<close>

section \<open>Messages and options\<close>

record message =
  m_runId :: string
  m_orgId :: string
  m_projectId :: string
  m_environmentId :: string
  m_environmentType :: RuntimeEnvironmentType
  m_queue :: string
  m_concurrencyKey :: "string option"
  m_timestamp :: int
  m_eligibleAtMs :: "int option"
  m_attempt :: nat
  m_ttlExpiresAt :: "int option"
  m_workerQueue :: string

text \<open>Worker queue overrides; an absent table overrides nothing.\<close>

record worker_queue_overrides =
  wo_environmentId :: "string \<Rightarrow> string option"
  wo_projectId :: "string \<Rightarrow> string option"
  wo_orgId :: "string \<Rightarrow> string option"
  wo_workerQueue :: "string \<Rightarrow> string option"

record queue_options =
  qo_defaultEnvConcurrency :: rat
  qo_defaultEnvConcurrencyBurstFactor :: "rat option"
  qo_shardCount :: nat
  qo_ttlShardCount :: "nat option"
  qo_ttlSystem :: bool
  qo_retryOptions :: "retry_options option"
  qo_overrides :: "worker_queue_overrides option"
  qo_sha256 :: "string \<Rightarrow> nat list"

text \<open>An empty string overrides nothing.\<close>

definition nonempty :: "string option \<Rightarrow> string option" where
  "nonempty x = (case x of None \<Rightarrow> None | Some s \<Rightarrow> if s = [] then None else Some s)"

definition getOverride :: "worker_queue_overrides option \<Rightarrow> message \<Rightarrow> string option" where
  "getOverride overrides m =
     (case overrides of None \<Rightarrow> None
      | Some ov \<Rightarrow>
          (case nonempty (wo_environmentId ov (m_environmentId m)) of Some q \<Rightarrow> Some q
           | None \<Rightarrow> (case nonempty (wo_projectId ov (m_projectId m)) of Some q \<Rightarrow> Some q
           | None \<Rightarrow> (case nonempty (wo_orgId ov (m_orgId m)) of Some q \<Rightarrow> Some q
           | None \<Rightarrow> nonempty (wo_workerQueue ov (m_workerQueue m))))))"

definition getWorkerQueueFromMessage :: "worker_queue_overrides option \<Rightarrow> message \<Rightarrow> string" where
  "getWorkerQueueFromMessage overrides m =
     (case getOverride overrides m of Some q \<Rightarrow> q | None \<Rightarrow> m_workerQueue m)"

definition has_ck :: "message \<Rightarrow> bool" where
  "has_ck m = (case m_concurrencyKey m of None \<Rightarrow> False | Some k \<Rightarrow> k \<noteq> [])"

definition masterQueueKey :: "queue_options \<Rightarrow> string \<Rightarrow> string" where
  "masterQueueKey cfg envId =
     masterQueueKeyForShard (masterQueueShardForEnvironment (qo_sha256 cfg) envId (qo_shardCount cfg))"

definition getTtlShardForQueue :: "queue_options \<Rightarrow> string \<Rightarrow> nat" where
  "getTtlShardForQueue cfg queue =
     masterQueueShardForEnvironment (qo_sha256 cfg) (envIdFromQueue queue)
       (or_default (qo_ttlShardCount cfg) (qo_shardCount cfg))"

section \<open>Limits\<close>

definition limit_or :: "string \<Rightarrow> rat \<Rightarrow> 'm redis \<Rightarrow> rat" where
  "limit_or k d r = (case r_limits r k of None \<Rightarrow> d | Some v \<Rightarrow> v)"

definition env_limit :: "queue_options \<Rightarrow> string \<Rightarrow> 'm redis \<Rightarrow> rat" where
  "env_limit cfg queue r =
     limit_or (envConcurrencyLimitKeyFromQueue queue) (qo_defaultEnvConcurrency cfg) r"

definition env_limit_with_burst :: "queue_options \<Rightarrow> string \<Rightarrow> 'm redis \<Rightarrow> int" where
  "env_limit_with_burst cfg queue r =
     \<lfloor>env_limit cfg queue r
      * limit_or (envConcurrencyLimitBurstFactorKeyFromQueue queue)
          (or_default (qo_defaultEnvConcurrencyBurstFactor cfg) 1) r\<rfloor>"

definition queue_limit :: "queue_options \<Rightarrow> string \<Rightarrow> 'm redis \<Rightarrow> rat" where
  "queue_limit cfg queue r =
     min (limit_or (queueConcurrencyLimitKeyFromQueue queue) 1000000 r) (env_limit cfg queue r)"

definition env_current :: "string \<Rightarrow> 'm redis \<Rightarrow> nat" where
  "env_current queue r = length (r_sets r (envCurrentConcurrencyKeyFromQueue queue))"

definition queue_current :: "string \<Rightarrow> 'm redis \<Rightarrow> nat" where
  "queue_current queue r = length (r_sets r (queueCurrentConcurrencyKeyFromQueue queue))"

section \<open>Pieces the scripts share\<close>

text \<open>The four \<open>SREM\<close>s that take a message out of the concurrency sets.\<close>

definition release_sets :: "string \<Rightarrow> string \<Rightarrow> 'm redis \<Rightarrow> 'm redis" where
  "release_sets queue runId r =
     SREM (envCurrentDequeuedKeyFromQueue queue) runId
       (SREM (queueCurrentDequeuedKeyFromQueue queue) runId
         (SREM (envCurrentConcurrencyKeyFromQueue queue) runId
           (SREM (queueCurrentConcurrencyKeyFromQueue queue) runId r)))"

text \<open>The same, and the running counter follows a member that was really removed.\<close>

definition release_sets_tracked :: "string \<Rightarrow> string \<Rightarrow> 'm redis \<Rightarrow> 'm redis" where
  "release_sets_tracked queue runId r =
     (let removed = smember (queueCurrentDequeuedKeyFromQueue queue) runId r;
          r1 = release_sets queue runId r
      in if removed then decrFloored (queueRunningCounterKeyFromQueue queue) r1 else r1)"

definition rebalance_master :: "string \<Rightarrow> string \<Rightarrow> 'm redis \<Rightarrow> 'm redis" where
  "rebalance_master master queue r =
     (case zfirst (r_zsets r queue) of
        None \<Rightarrow> ZREM master queue r
      | Some e \<Rightarrow> ZADD master (snd e) queue r)"

definition rebalance_ck_index :: "string \<Rightarrow> string \<Rightarrow> 'm redis \<Rightarrow> 'm redis" where
  "rebalance_ck_index ckIndexKey queue r =
     (case zfirst (r_zsets r queue) of
        None \<Rightarrow> ZREM ckIndexKey queue r
      | Some e \<Rightarrow> ZADD ckIndexKey (snd e) queue r)"

definition rebalance_ck_master :: "string \<Rightarrow> string \<Rightarrow> string \<Rightarrow> 'm redis \<Rightarrow> 'm redis" where
  "rebalance_ck_master master ckIndexKey wildcard r =
     (case zfirst (r_zsets r ckIndexKey) of
        None \<Rightarrow> ZREM master wildcard r
      | Some e \<Rightarrow> ZADD master (snd e) wildcard r)"

definition drop_old_master :: "string \<Rightarrow> string \<Rightarrow> 'm redis \<Rightarrow> 'm redis" where
  "drop_old_master master queue r =
     (if queue \<noteq> toCkWildcard queue then ZREM master queue r else r)"

text \<open>The enqueue scripts only add to the index and the master queue.\<close>

definition index_after_enqueue :: "string \<Rightarrow> 'm redis \<Rightarrow> 'm redis" where
  "index_after_enqueue queue r =
     (case zfirst (r_zsets r queue) of
        None \<Rightarrow> r | Some e \<Rightarrow> ZADD (ckIndexKeyFromQueue queue) (snd e) queue r)"

definition master_after_enqueue :: "string \<Rightarrow> string \<Rightarrow> 'm redis \<Rightarrow> 'm redis" where
  "master_after_enqueue master queue r =
     (case zfirst (r_zsets r (ckIndexKeyFromQueue queue)) of
        None \<Rightarrow> r | Some e \<Rightarrow> ZADD master (snd e) (toCkWildcard queue) r)"

text \<open>The lazy initialisation of a counter from the variants in the index.\<close>

definition init_length_counter :: "string \<Rightarrow> 'm redis \<Rightarrow> 'm redis" where
  "init_length_counter queue r =
     (case r_counters r (queueLengthCounterKeyFromQueue queue) of
        Some n \<Rightarrow> r
      | None \<Rightarrow>
          SETC (queueLengthCounterKeyFromQueue queue)
            (sum_list (map (\<lambda>e. length (r_zsets r (fst e))) (r_zsets r (ckIndexKeyFromQueue queue)))) r)"

definition init_running_counter :: "string \<Rightarrow> 'm redis \<Rightarrow> 'm redis" where
  "init_running_counter queue r =
     (case r_counters r (queueRunningCounterKeyFromQueue queue) of
        Some n \<Rightarrow> r
      | None \<Rightarrow>
          SETC (queueRunningCounterKeyFromQueue queue)
            (sum_list (map (\<lambda>e. length (r_sets r (queueCurrentDequeuedKeyFromQueue (fst e))))
               (r_zsets r (ckIndexKeyFromQueue queue)))) r)"

text \<open>\<open>ZADD\<close> of the message into its queue and the environment's, counting a new entry.\<close>

definition requeue_tracked :: "string \<Rightarrow> int \<Rightarrow> string \<Rightarrow> 'm redis \<Rightarrow> 'm redis" where
  "requeue_tracked queue score runId r =
     (let added = zadded queue runId r;
          r1 = ZADD (envQueueKeyFromQueue queue) score runId (ZADD queue score runId r)
      in if added then INCR (queueLengthCounterKeyFromQueue queue) r1 else r1)"

definition unqueue_tracked :: "string \<Rightarrow> string \<Rightarrow> 'm redis \<Rightarrow> 'm redis" where
  "unqueue_tracked queue runId r =
     (let removed = \<not> zadded queue runId r;
          r1 = ZREM (envQueueKeyFromQueue queue) runId (ZREM queue runId r)
      in if removed then decrFloored (queueLengthCounterKeyFromQueue queue) r1 else r1)"

section \<open>Enqueue\<close>

text \<open>The fast path's conditions, the same in the four scripts.\<close>

definition fast_path_available :: "queue_options \<Rightarrow> int \<Rightarrow> message \<Rightarrow> message redis \<Rightarrow> bool" where
  "fast_path_available cfg now m r =
     (zrangebyscore now 1 (r_zsets r (m_queue m)) = []
      \<and> int (env_current (m_queue m) r) < env_limit_with_burst cfg (m_queue m) r
      \<and> of_nat (queue_current (m_queue m) r) < queue_limit cfg (m_queue m) r)"

definition enqueue_fast :: "message \<Rightarrow> message redis \<Rightarrow> message redis" where
  "enqueue_fast m r =
     RPUSH (workerQueueKey (m_workerQueue m)) (messageKey (m_orgId m) (m_runId m))
       (SADD (envCurrentConcurrencyKeyFromQueue (m_queue m)) (m_runId m)
         (SADD (queueCurrentConcurrencyKeyFromQueue (m_queue m)) (m_runId m)
           (SETM (messageKey (m_orgId m) (m_runId m)) m r)))"

text \<open>What a script adds to the TTL set: the set, the score and the member.\<close>

type_synonym ttl_info = "(string \<times> int \<times> string) option"

definition add_ttl :: "ttl_info \<Rightarrow> 'm redis \<Rightarrow> 'm redis" where
  "add_ttl ttl r = (case ttl of None \<Rightarrow> r | Some (k, score, member) \<Rightarrow> ZADD k score member r)"

text \<open>The slow path of \<open>enqueueMessage\<close> and \<open>enqueueMessageWithTtl\<close>.\<close>

definition enqueue_slow :: "queue_options \<Rightarrow> ttl_info \<Rightarrow> message \<Rightarrow> message redis \<Rightarrow> message redis" where
  "enqueue_slow cfg ttl m r =
     (let q = m_queue m; i = m_runId m;
          r1 = SETM (messageKey (m_orgId m) i) m r;
          r2 = ZADD (envQueueKeyFromQueue q) (m_timestamp m) i (ZADD q (m_timestamp m) i r1);
          r3 = add_ttl ttl r2;
          r4 = rebalance_master (masterQueueKey cfg (m_environmentId m)) q r3
      in release_sets q i r4)"

text \<open>The slow path of \<open>enqueueMessageCkTracked\<close> and \<open>enqueueMessageWithTtlCkTracked\<close>.\<close>

definition enqueue_slow_ck :: "queue_options \<Rightarrow> ttl_info \<Rightarrow> message \<Rightarrow> message redis \<Rightarrow> message redis" where
  "enqueue_slow_ck cfg ttl m r =
     (let q = m_queue m; i = m_runId m; master = masterQueueKey cfg (m_environmentId m);
          r1 = init_length_counter q (SETM (messageKey (m_orgId m) i) m r);
          r2 = add_ttl ttl (requeue_tracked q (m_timestamp m) i r1);
          r3 = index_after_enqueue q r2;
          r4 = master_after_enqueue master q r3;
          r5 = drop_old_master master q r4
      in release_sets q i r5)"

text \<open>\<open>#callEnqueueMessage\<close>: whether the fast path was taken, and the store.\<close>

definition callEnqueueMessage ::
    "queue_options \<Rightarrow> int \<Rightarrow> ttl_info \<Rightarrow> bool \<Rightarrow> message \<Rightarrow> message redis \<Rightarrow> bool \<times> message redis" where
  "callEnqueueMessage cfg now ttl enableFastPath m r =
     (let shouldEnableFastPath = (enableFastPath \<and> m_timestamp m \<le> now)
      in if shouldEnableFastPath \<and> fast_path_available cfg now m r then (True, enqueue_fast m r)
         else if has_ck m then (False, enqueue_slow_ck cfg ttl m r)
         else (False, enqueue_slow cfg ttl m r))"

definition ttl_member :: "string \<Rightarrow> string \<Rightarrow> string \<Rightarrow> string" where
  "ttl_member queue runId orgId = queue @ ''|'' @ runId @ ''|'' @ orgId"

text \<open>
  \<open>enqueueMessage\<close>: the message gets its queue key, its worker queue and attempt 0. The result
  says whether a dequeue job has to be scheduled for the queue.
\<close>

definition enqueueMessage ::
    "queue_options \<Rightarrow> int \<Rightarrow> environment \<Rightarrow> string \<Rightarrow> bool \<Rightarrow> bool \<Rightarrow> message \<Rightarrow> message redis
     \<Rightarrow> bool \<times> message redis" where
  "enqueueMessage cfg now env workerQueue skipDequeueProcessing enableFastPath input r =
     (let key = queueKey env (m_queue input) (m_concurrencyKey input);
          m = input\<lparr>m_queue := key, m_workerQueue := workerQueue, m_attempt := 0\<rparr>;
          ttl = (case m_ttlExpiresAt input of
                   None \<Rightarrow> None
                 | Some t \<Rightarrow>
                     if t \<noteq> 0 \<and> qo_ttlSystem cfg
                     then Some (ttlQueueKeyForShard (getTtlShardForQueue cfg key), t,
                                ttl_member key (m_runId input) (m_orgId input))
                     else None);
          (fastPathTaken, r') = callEnqueueMessage cfg now ttl enableFastPath m r
      in (\<not> fastPathTaken \<and> \<not> skipDequeueProcessing, r'))"

section \<open>Dequeue from a queue\<close>

text \<open>The body of the loop over the messages read from the queue.\<close>

definition dequeue_one ::
    "string \<Rightarrow> int \<Rightarrow> string \<Rightarrow> string \<times> int \<Rightarrow> message redis
     \<Rightarrow> (string \<times> int \<times> message) option \<times> message redis" where
  "dequeue_one queue now ttlQueueKey e r =
     (let i = fst e; envQueue = envQueueKeyFromQueue queue;
          removed = ZREM envQueue i (ZREM queue i r)
      in case r_messages r (messageKeyPrefixFromQueue queue @ i) of
           None \<Rightarrow> (None, removed)
         | Some m \<Rightarrow>
             (case m_ttlExpiresAt m of
                Some t \<Rightarrow>
                  if t \<le> now
                  then (None, if ttlQueueKey \<noteq> [] then ZADD ttlQueueKey t (ttl_member queue i (m_orgId m)) removed
                              else removed)
                  else (let r1 = SADD (envCurrentConcurrencyKeyFromQueue queue) i
                               (SADD (queueCurrentConcurrencyKeyFromQueue queue) i removed);
                            r2 = (if ttlQueueKey \<noteq> []
                                  then ZREM ttlQueueKey (ttl_member queue i (m_orgId m)) r1 else r1)
                        in (Some (i, snd e, m), r2))
              | None \<Rightarrow>
                  (Some (i, snd e, m),
                   SADD (envCurrentConcurrencyKeyFromQueue queue) i
                     (SADD (queueCurrentConcurrencyKeyFromQueue queue) i removed))))"

fun dequeue_loop ::
    "string \<Rightarrow> int \<Rightarrow> string \<Rightarrow> zset \<Rightarrow> message redis \<Rightarrow> (string \<times> int \<times> message) list \<times> message redis" where
  "dequeue_loop queue now ttl [] r = ([], r)"
| "dequeue_loop queue now ttl (e # es) r =
     (let (x, r1) = dequeue_one queue now ttl e r;
          (xs, r2) = dequeue_loop queue now ttl es r1
      in ((case x of None \<Rightarrow> xs | Some y \<Rightarrow> y # xs), r2))"

definition ttl_key :: "queue_options \<Rightarrow> string \<Rightarrow> string" where
  "ttl_key cfg queue =
     (if qo_ttlSystem cfg then ttlQueueKeyForShard (getTtlShardForQueue cfg queue) else [])"

text \<open>
  \<open>#callDequeueMessagesFromQueue\<close> and its script. The count is the least of \<open>maxCount\<close> and the
  two capacities; \<open>LIMIT 0 n\<close> with a fractional capacity never arises, as limits are integers.
\<close>

definition callDequeueMessagesFromQueue ::
    "queue_options \<Rightarrow> int \<Rightarrow> string \<Rightarrow> nat \<Rightarrow> nat \<Rightarrow> message redis
     \<Rightarrow> (string \<times> int \<times> message) list \<times> message redis" where
  "callDequeueMessagesFromQueue cfg now queue n maxCount r =
     (let envCap = env_limit_with_burst cfg queue r - int (env_current queue r);
          queueCap = \<lfloor>queue_limit cfg queue r\<rfloor> - int (queue_current queue r);
          actualMaxCount = min (int maxCount) (min envCap queueCap)
      in if envCap \<le> 0 then ([], r)
         else if queueCap \<le> 0 then ([], r)
         else if actualMaxCount \<le> 0 then ([], r)
         else (case zrangebyscore now (nat actualMaxCount) (r_zsets r queue) of
                 [] \<Rightarrow> ([], r)
               | messages \<Rightarrow>
                   (let (results, r1) = dequeue_loop queue now (ttl_key cfg queue) messages r
                    in (results, rebalance_master (masterQueueKeyForShard n) queue r1))))"

section \<open>Dequeue from the variants of a queue with concurrency keys\<close>

text \<open>
  One variant: at most one message, while the variant is below the queue's limit. Its entry in the index
  is brought up to date unless it is at the limit.
\<close>

definition dequeue_variant ::
    "string \<Rightarrow> int \<Rightarrow> string \<Rightarrow> rat \<Rightarrow> string \<Rightarrow> message redis
     \<Rightarrow> (string \<times> int \<times> message) option \<times> message redis" where
  "dequeue_variant wildcard now ttlQueueKey queueLimit q r =
     (let idx = ckIndexKeyFromQueue wildcard; counter = queueLengthCounterKeyFromQueue wildcard
      in if of_nat (length (r_sets r (queueCurrentConcurrencyKeyFromQueue q))) < queueLimit
         then (case zrangebyscore now 1 (r_zsets r q) of
                 [] \<Rightarrow> (None, rebalance_ck_index idx q r)
               | e # _ \<Rightarrow>
                   (let i = fst e;
                        removed = decrFloored counter
                          (ZREM (envQueueKeyFromQueue wildcard) i (ZREM q i r));
                        running = (\<lambda>r. SADD (envCurrentConcurrencyKeyFromQueue wildcard) i
                          (SADD (queueCurrentConcurrencyKeyFromQueue q) i r));
                        (x, r1) =
                          (case r_messages r (messageKeyPrefixFromQueue wildcard @ i) of
                             None \<Rightarrow> (None, removed)
                           | Some m \<Rightarrow>
                               (case m_ttlExpiresAt m of
                                  Some t \<Rightarrow>
                                    if t \<le> now
                                    then (None, if ttlQueueKey \<noteq> []
                                                then ZADD ttlQueueKey t (ttl_member q i (m_orgId m)) removed
                                                else removed)
                                    else (Some (i, snd e, m),
                                          if ttlQueueKey \<noteq> []
                                          then ZREM ttlQueueKey (ttl_member q i (m_orgId m)) (running removed)
                                          else running removed)
                                | None \<Rightarrow> (Some (i, snd e, m), running removed)))
                    in (x, rebalance_ck_index idx q r1)))
         else (None, r))"

text \<open>\<open>budget\<close> is \<open>actualMaxCount - dequeuedCount\<close>; at 0 the loop breaks.\<close>

fun dequeue_variants ::
    "string \<Rightarrow> int \<Rightarrow> string \<Rightarrow> rat \<Rightarrow> nat \<Rightarrow> string list \<Rightarrow> message redis
     \<Rightarrow> (string \<times> int \<times> message) list \<times> message redis" where
  "dequeue_variants wildcard now ttl queueLimit budget [] r = ([], r)"
| "dequeue_variants wildcard now ttl queueLimit 0 (q # qs) r = ([], r)"
| "dequeue_variants wildcard now ttl queueLimit (Suc budget) (q # qs) r =
     (case dequeue_variant wildcard now ttl queueLimit q r of
        (None, r1) \<Rightarrow> dequeue_variants wildcard now ttl queueLimit (Suc budget) qs r1
      | (Some x, r1) \<Rightarrow>
          (let (xs, r2) = dequeue_variants wildcard now ttl queueLimit budget qs r1
           in (x # xs, r2)))"

definition callDequeueMessagesFromCkQueue ::
    "queue_options \<Rightarrow> int \<Rightarrow> string \<Rightarrow> nat \<Rightarrow> nat \<Rightarrow> message redis
     \<Rightarrow> (string \<times> int \<times> message) list \<times> message redis" where
  "callDequeueMessagesFromCkQueue cfg now wildcard n maxCount r =
     (let envCap = env_limit_with_burst cfg wildcard r - int (env_current wildcard r);
          actualMaxCount = min (int maxCount) envCap;
          idx = ckIndexKeyFromQueue wildcard; master = masterQueueKeyForShard n
      in if envCap \<le> 0 then ([], r)
         else if actualMaxCount \<le> 0 then ([], r)
         else (case zrangebyscore now (nat actualMaxCount * 3) (r_zsets r idx) of
                 [] \<Rightarrow> ([], rebalance_ck_master master idx wildcard r)
               | ckQueues \<Rightarrow>
                   (let (results, r1) = dequeue_variants wildcard now (ttl_key cfg wildcard)
                          (queue_limit cfg wildcard r) (nat actualMaxCount) (map fst ckQueues) r
                    in (results, rebalance_ck_master master idx wildcard r1))))"

section \<open>To the worker queue and to a worker\<close>

text \<open>\<open>#enqueueMessagesToWorkerQueues\<close>.\<close>

fun enqueueMessagesToWorkerQueues ::
    "queue_options \<Rightarrow> (string \<times> int \<times> message) list \<Rightarrow> message redis \<Rightarrow> message redis" where
  "enqueueMessagesToWorkerQueues cfg [] r = r"
| "enqueueMessagesToWorkerQueues cfg ((i, score, m) # ms) r =
     enqueueMessagesToWorkerQueues cfg ms
       (RPUSH (workerQueueKey (getWorkerQueueFromMessage (qo_overrides cfg) m)) (messageKey (m_orgId m) i) r)"

text \<open>
  \<open>#processQueueForWorkerQueue\<close> repeats while it gets ten messages; \<open>fuel\<close> bounds the rounds.
  Every round that continues takes ten messages out of the queues.
\<close>

fun processQueueForWorkerQueue ::
    "nat \<Rightarrow> queue_options \<Rightarrow> int \<Rightarrow> string \<Rightarrow> string \<Rightarrow> message redis \<Rightarrow> message redis option" where
  "processQueueForWorkerQueue 0 cfg now queue envId r = None"
| "processQueueForWorkerQueue (Suc fuel) cfg now queue envId r =
     (let n = masterQueueShardForEnvironment (qo_sha256 cfg) envId (qo_shardCount cfg);
          (messages, r1) = (if isCkWildcard queue
                            then callDequeueMessagesFromCkQueue cfg now queue n 10 r
                            else callDequeueMessagesFromQueue cfg now queue n 10 r)
      in if messages = [] then Some r1
         else (let r2 = enqueueMessagesToWorkerQueues cfg messages r1
               in if length messages = 10
                  then processQueueForWorkerQueue fuel cfg now queue envId r2
                  else Some r2))"

text \<open>
  Lua's \<open>string.match(queue, "(.+):queue:")\<close>, greedy: what stands before the last \<open>:queue:\<close>.
  \<open>None\<close> is \<open>nil\<close>, on which the script's concatenation is an error.
\<close>

fun lua_env_match :: "string \<Rightarrow> string option" where
  "lua_env_match [] = None"
| "lua_env_match (c # cs) =
     (case lua_env_match cs of
        Some p \<Rightarrow> Some (c # p)
      | None \<Rightarrow> if js_startsWith cs '':queue:'' then Some [c] else None)"

text \<open>The text before the first \<open>:ck:\<close>, Lua's \<open>"(.-):ck:"\<close>.\<close>

definition lua_ck_match :: "string \<Rightarrow> string option" where
  "lua_ck_match queue = map_option (\<lambda>i. take i queue) (js_indexOf queue '':ck:'')"

definition bump_running_counter :: "string \<Rightarrow> string \<Rightarrow> 'm redis \<Rightarrow> 'm redis" where
  "bump_running_counter base queue r =
     (let counter = base @ '':runningCounter''; variants = map fst (r_zsets r (base @ '':ckIndex''));
          card = (\<lambda>v. length (r_sets r (queueCurrentDequeuedKeyFromQueue v)));
          total = sum_list (map card variants) + (if queue \<in> set variants then 0 else card queue);
          r1 = (case r_counters r counter of Some n \<Rightarrow> r | None \<Rightarrow> SETC counter (total - 1) r)
      in INCR counter r1)"

text \<open>The script \<open>dequeueMessageFromKeyTracked\<close>.\<close>

definition dequeueMessageFromKey :: "string \<Rightarrow> message redis \<Rightarrow> message option \<times> message redis" where
  "dequeueMessageFromKey key r =
     (case r_messages r key of
        None \<Rightarrow> (None, r)
      | Some m \<Rightarrow>
          (case lua_env_match (m_queue m) of
             None \<Rightarrow> (None, r)
           | Some envPart \<Rightarrow>
               (let dk = queueCurrentDequeuedKeyFromQueue (m_queue m);
                    added = (\<not> smember dk (m_runId m) r);
                    r1 = SADD (envPart @ '':currentDequeued'') (m_runId m) (SADD dk (m_runId m) r)
                in (Some m, case lua_ck_match (m_queue m) of
                              None \<Rightarrow> r1
                            | Some base \<Rightarrow> if added then bump_running_counter base (m_queue m) r1 else r1))))"

text \<open>\<open>dequeueMessageFromWorkerQueue\<close> without blocking: pop a key, then read its message.\<close>

definition dequeueMessageFromWorkerQueue :: "string \<Rightarrow> message redis \<Rightarrow> message option \<times> message redis" where
  "dequeueMessageFromWorkerQueue workerQueue r =
     (case r_lists r (workerQueueKey workerQueue) of
        [] \<Rightarrow> (None, r)
      | key # rest \<Rightarrow>
          dequeueMessageFromKey key (r\<lparr>r_lists := (r_lists r)(workerQueueKey workerQueue := rest)\<rparr>))"

section \<open>Acknowledge, negative acknowledge, dead letter, release\<close>

definition readMessage :: "string \<Rightarrow> string \<Rightarrow> message redis \<Rightarrow> message option" where
  "readMessage orgId runId r = r_messages r (messageKey orgId runId)"

definition callAcknowledgeMessage ::
    "queue_options \<Rightarrow> message \<Rightarrow> bool \<Rightarrow> message redis \<Rightarrow> message redis" where
  "callAcknowledgeMessage cfg m removeFromWorkerQueue r =
     (let q = m_queue m; i = m_runId m; key = messageKey (m_orgId m) i;
          master = masterQueueKey cfg (m_environmentId m);
          wq = workerQueueKey (getWorkerQueueFromMessage (qo_overrides cfg) m);
          r1 = DEL key r;
          r2 = (if has_ck m
                then release_sets_tracked q i
                       (drop_old_master master q
                         (rebalance_ck_master master (ckIndexKeyFromQueue q) (toCkWildcard q)
                           (rebalance_ck_index (ckIndexKeyFromQueue q) q (unqueue_tracked q i r1))))
                else release_sets q i
                       (rebalance_master master q (ZREM (envQueueKeyFromQueue q) i (ZREM q i r1))))
      in if removeFromWorkerQueue then LREM wq key r2 else r2)"

text \<open>The result says whether a dequeue job has to be scheduled for the queue.\<close>

definition acknowledgeMessage ::
    "queue_options \<Rightarrow> string \<Rightarrow> string \<Rightarrow> bool \<Rightarrow> bool \<Rightarrow> message redis \<Rightarrow> bool \<times> message redis" where
  "acknowledgeMessage cfg orgId runId skipDequeueProcessing removeFromWorkerQueue r =
     (case readMessage orgId runId r of
        None \<Rightarrow> (False, r)
      | Some m \<Rightarrow> (\<not> skipDequeueProcessing, callAcknowledgeMessage cfg m removeFromWorkerQueue r))"

definition queue_retry_options :: "queue_options \<Rightarrow> retry_options" where
  "queue_retry_options cfg =
     (case qo_retryOptions cfg of
        Some o' \<Rightarrow> o'
      | None \<Rightarrow> \<lparr>ro_maxAttempts = Some 12, ro_factor = Some 2, ro_minTimeoutInMs = Some 1000,
                 ro_maxTimeoutInMs = Some 3600000, ro_randomize = Some True, ro_oomMachine = None\<rparr>)"

text \<open>\<open>rnd\<close> is the random number of the backoff.\<close>

definition nack_score :: "queue_options \<Rightarrow> rat \<Rightarrow> int \<Rightarrow> message \<Rightarrow> int option \<Rightarrow> int" where
  "nack_score cfg rnd now m retryAt =
     (case retryAt of
        Some t \<Rightarrow> t
      | None \<Rightarrow>
          (case calculateNextRetryDelay rnd (queue_retry_options cfg) (int (m_attempt m)) of
             None \<Rightarrow> now | Some d \<Rightarrow> now + d))"

definition callNackMessage ::
    "queue_options \<Rightarrow> rat \<Rightarrow> int \<Rightarrow> message \<Rightarrow> int option \<Rightarrow> message redis \<Rightarrow> message redis" where
  "callNackMessage cfg rnd now m retryAt r =
     (let q = m_queue m; i = m_runId m; score = nack_score cfg rnd now m retryAt;
          master = masterQueueKey cfg (m_environmentId m);
          r1 = SETM (messageKey (m_orgId m) i) m r
      in if has_ck m
         then drop_old_master master q
                (rebalance_ck_master master (ckIndexKeyFromQueue q) (toCkWildcard q)
                  (index_after_enqueue q
                    (requeue_tracked q score i (init_length_counter q (release_sets_tracked q i r1)))))
         else rebalance_master master q
                (ZADD (envQueueKeyFromQueue q) score i (ZADD q score i (release_sets q i r1))))"

definition callMoveToDeadLetterQueue :: "queue_options \<Rightarrow> int \<Rightarrow> message \<Rightarrow> message redis \<Rightarrow> message redis" where
  "callMoveToDeadLetterQueue cfg now m r =
     (let q = m_queue m; i = m_runId m; master = masterQueueKey cfg (m_environmentId m);
          dlq = deadLetterQueueKeyFromQueue q
      in if has_ck m
         then release_sets_tracked q i
                (ZADD dlq (now div 1000) i
                  (drop_old_master master q
                    (rebalance_ck_master master (ckIndexKeyFromQueue q) (toCkWildcard q)
                      (rebalance_ck_index (ckIndexKeyFromQueue q) q (unqueue_tracked q i r)))))
         else release_sets q i
                (ZADD dlq (now div 1000) i
                  (rebalance_master master q (ZREM (envQueueKeyFromQueue q) i (ZREM q i r)))))"

text \<open>
  \<open>nackMessage\<close>: \<open>None\<close> when there is no message, \<open>Some False\<close> when it went to the dead letter
  queue, \<open>Some True\<close> when it was requeued.
\<close>

definition nackMessage ::
    "queue_options \<Rightarrow> rat \<Rightarrow> int \<Rightarrow> string \<Rightarrow> string \<Rightarrow> int option \<Rightarrow> bool \<Rightarrow> message redis
     \<Rightarrow> bool option \<times> message redis" where
  "nackMessage cfg rnd now orgId runId retryAt incrementAttemptCount r =
     (let maxAttempts = or_default (ro_maxAttempts (queue_retry_options cfg)) 12
      in case readMessage orgId runId r of
           None \<Rightarrow> (None, r)
         | Some m0 \<Rightarrow>
             (let m = (if incrementAttemptCount then m0\<lparr>m_attempt := m_attempt m0 + 1\<rparr> else m0)
              in if incrementAttemptCount \<and> int (m_attempt m) \<ge> maxAttempts
                 then (Some False, callMoveToDeadLetterQueue cfg now m r)
                 else (Some True, callNackMessage cfg rnd now (m\<lparr>m_ttlExpiresAt := None\<rparr>) retryAt r)))"

definition releaseAllConcurrency :: "string \<Rightarrow> string \<Rightarrow> message redis \<Rightarrow> message redis" where
  "releaseAllConcurrency orgId runId r =
     (case readMessage orgId runId r of
        None \<Rightarrow> r
      | Some m \<Rightarrow>
          if has_ck m
          then release_sets_tracked (m_queue m) runId (init_running_counter (m_queue m) r)
          else release_sets (m_queue m) runId r)"

text \<open>The keys come from the environment and the name of a queue, not from a message.\<close>

definition clear_sets :: "environment \<Rightarrow> string \<Rightarrow> string \<Rightarrow> 'm redis \<Rightarrow> 'm redis" where
  "clear_sets env queue runId r =
     SREM (envCurrentDequeuedKey (descriptorOfEnvironment env)) runId
       (SREM (queueCurrentDequeuedKey env queue None) runId
         (SREM (envCurrentConcurrencyKey (descriptorOfEnvironment env)) runId
           (SREM (queueCurrentConcurrencyKey env queue None) runId r)))"

definition clearMessageFromConcurrencySets :: "environment \<Rightarrow> string \<Rightarrow> string \<Rightarrow> 'm redis \<Rightarrow> 'm redis" where
  "clearMessageFromConcurrencySets env queue runId r =
     (if js_includes queue '':ck:''
      then (let r1 = init_running_counter queue r;
                removed = smember (queueCurrentDequeuedKey env queue None) runId r1;
                r2 = clear_sets env queue runId r1
            in if removed then decrFloored (queueRunningCounterKeyFromQueue queue) r2 else r2)
      else clear_sets env queue runId r)"

section \<open>Limits\<close>

definition updateQueueConcurrencyLimits :: "environment \<Rightarrow> string \<Rightarrow> rat \<Rightarrow> 'm redis \<Rightarrow> 'm redis" where
  "updateQueueConcurrencyLimits env queue concurrency r =
     r\<lparr>r_limits := (r_limits r)(queueConcurrencyLimitKey env queue := Some concurrency)\<rparr>"

definition removeQueueConcurrencyLimits :: "environment \<Rightarrow> string \<Rightarrow> 'm redis \<Rightarrow> 'm redis" where
  "removeQueueConcurrencyLimits env queue r =
     r\<lparr>r_limits := (r_limits r)(queueConcurrencyLimitKey env queue := None)\<rparr>"

definition updateEnvConcurrencyLimits :: "environment \<Rightarrow> rat \<Rightarrow> 'm redis \<Rightarrow> 'm redis" where
  "updateEnvConcurrencyLimits env burst r =
     (let d = descriptorOfEnvironment env
      in r\<lparr>r_limits := (r_limits r)(envConcurrencyLimitKey d := Some (of_nat (env_maximumConcurrencyLimit env)),
                                   envConcurrencyLimitBurstFactorKey d := Some burst)\<rparr>)"

section \<open>Queue keys of an environment\<close>

definition good_env :: "environment \<Rightarrow> bool" where
  "good_env env =
     (colon \<notin> set (env_organizationId env) \<and> colon \<notin> set (env_projectId env)
      \<and> colon \<notin> set (env_id env)
      \<and> CHR ''{'' \<notin> set (env_organizationId env) \<and> CHR ''}'' \<notin> set (env_organizationId env))"

definition env_prefix :: "environment \<Rightarrow> string" where
  "env_prefix env = js_join '':'' [orgKeySection (env_organizationId env),
     projKeySection (env_projectId env), envKeySection (env_id env)]"

lemma queueKey_prefix:
  "\<exists>rest. queueKey env name ck = env_prefix env @ '':queue:'' @ name @ rest"
  by (cases ck) (auto simp: queueKey_def env_prefix_def section_defs)

lemma split_queueKey:
  assumes "good_env env"
  shows "\<exists>ps. js_split colon (queueKey env name ck)
    = [''{org'', env_organizationId env @ ''}'', ''proj'', env_projectId env, ''env'', env_id env,
       ''queue''] @ ps"
proof -
  obtain rest where "queueKey env name ck = env_prefix env @ '':queue:'' @ name @ rest"
    using queueKey_prefix by blast
  then have "queueKey env name ck
      = ''{org'' @ colon # (env_organizationId env @ ''}'') @ colon # ''proj'' @ colon # env_projectId env
        @ colon # ''env'' @ colon # env_id env @ colon # ''queue'' @ colon # name @ rest"
    by (simp add: env_prefix_def section_defs colon_def)
  moreover have free: "colon \<notin> set ''{org''" "colon \<notin> set (env_organizationId env @ ''}'')"
    "colon \<notin> set ''proj''" "colon \<notin> set (env_projectId env)" "colon \<notin> set ''env''"
    "colon \<notin> set (env_id env)" "colon \<notin> set ''queue''"
    using assms by (simp_all add: good_env_def colon_def)
  ultimately show ?thesis
    by (intro exI [of _ "js_split colon (name @ rest)"])
      (simp only: js_split_append [OF free(1)] js_split_append [OF free(2)]
        js_split_append [OF free(3)] js_split_append [OF free(4)] js_split_append [OF free(5)]
        js_split_append [OF free(6)] js_split_append [OF free(7)], simp)
qed

lemma envDescriptorFromQueue_queueKey:
  assumes "good_env env"
  shows "envDescriptorFromQueue (queueKey env name ck) = descriptorOfEnvironment env"
proof -
  from split_queueKey [OF assms, of name ck] obtain ps where
    "js_split colon (queueKey env name ck)
      = [''{org'', env_organizationId env @ ''}'', ''proj'', env_projectId env, ''env'', env_id env,
         ''queue''] @ ps" by blast
  moreover have "strip_braces (env_organizationId env @ ''}'') = env_organizationId env"
    using assms by (simp add: good_env_def strip_braces_def remove1_append remove1_idem)
  ultimately show ?thesis
    by (simp add: envDescriptorFromQueue_def descriptorFromQueue_def Let_def part_or_empty_def
        nth_part_def descriptorOfEnvironment_def)
qed

lemma env_keys_queueKey:
  assumes "good_env env"
  shows "envCurrentConcurrencyKeyFromQueue (queueKey env name ck)
           = envCurrentConcurrencyKey (descriptorOfEnvironment env)"
    and "envCurrentDequeuedKeyFromQueue (queueKey env name ck)
           = envCurrentDequeuedKey (descriptorOfEnvironment env)"
    and "envConcurrencyLimitKeyFromQueue (queueKey env name ck)
           = envConcurrencyLimitKey (descriptorOfEnvironment env)"
    and "envConcurrencyLimitBurstFactorKeyFromQueue (queueKey env name ck)
           = envConcurrencyLimitBurstFactorKey (descriptorOfEnvironment env)"
  using envDescriptorFromQueue_queueKey [OF assms]
  by (simp_all add: envCurrentConcurrencyKeyFromQueue_def envCurrentDequeuedKeyFromQueue_def
      envConcurrencyLimitKeyFromQueue_def envConcurrencyLimitBurstFactorKeyFromQueue_def)

lemma env_key_prefix: "env_key (descriptorOfEnvironment env) part = env_prefix env @ '':'' @ part"
  by (simp add: env_key_def env_prefix_def descriptorOfEnvironment_def)

text \<open>The four sets a script touches for a queue of a proper environment are different sets.\<close>

lemma set_keys_distinct:
  fixes name :: string and ck :: "string option"
  assumes "good_env env"
  defines "q \<equiv> queueKey env name ck"
  shows "distinct [queueCurrentConcurrencyKeyFromQueue q, envCurrentConcurrencyKeyFromQueue q,
    queueCurrentDequeuedKeyFromQueue q, envCurrentDequeuedKeyFromQueue q]"
proof -
  obtain rest where q: "q = env_prefix env @ '':queue:'' @ name @ rest"
    unfolding q_def using queueKey_prefix by blast
  have ends: "x @ '':currentConcurrency'' \<noteq> y @ '':currentDequeued''" for x y :: string
    using arg_cong [of "x @ '':currentConcurrency''" "y @ '':currentDequeued''" last] by auto
  show ?thesis
    unfolding q_def env_keys_queueKey [OF assms(1)]
    using ends [of q] ends [of "env_prefix env"] ends [of q "env_prefix env"] ends [of "env_prefix env" q]
    by (auto simp: queueCurrentConcurrencyKeyFromQueue_def queueCurrentDequeuedKeyFromQueue_def
        envCurrentConcurrencyKey_def envCurrentDequeuedKey_def env_key_prefix q q_def [symmetric])
qed

section \<open>Nothing but a claim of concurrency grows a set\<close>

text \<open>\<open>sets_le r r'\<close>: every set of \<open>r'\<close> is at most as large as in \<open>r\<close>, and no limit changed.\<close>

definition sets_le :: "'m redis \<Rightarrow> 'm redis \<Rightarrow> bool" where
  "sets_le r r' = (r_limits r' = r_limits r \<and> (\<forall>k. length (r_sets r' k) \<le> length (r_sets r k)))"

lemma sets_le_refl [simp]: "sets_le r r"
  by (simp add: sets_le_def)

lemma sets_le_trans: "sets_le r r1 \<Longrightarrow> sets_le r1 r2 \<Longrightarrow> sets_le r r2"
  unfolding sets_le_def by (metis order_trans)

lemma sets_le_same: "r_limits r' = r_limits r \<Longrightarrow> r_sets r' = r_sets r \<Longrightarrow> sets_le r r'"
  by (simp add: sets_le_def)

lemma sets_le_SREM: "sets_le r (SREM k i r)"
  by (simp add: sets_le_def length_srem)

lemma sets_le_release_sets: "sets_le r (release_sets queue i r)"
  unfolding release_sets_def by (blast intro: sets_le_SREM sets_le_trans)

lemma sets_le_release_sets_tracked: "sets_le r (release_sets_tracked queue i r)"
  using sets_le_release_sets [of r queue i]
  by (simp add: release_sets_tracked_def Let_def sets_le_def)

lemma same_sets [simp]:
  "r_sets (rebalance_master master queue r) = r_sets r"
  "r_sets (rebalance_ck_index idx queue r) = r_sets r"
  "r_sets (rebalance_ck_master master idx w r) = r_sets r"
  "r_sets (drop_old_master master queue r) = r_sets r"
  "r_sets (index_after_enqueue queue r) = r_sets r"
  "r_sets (master_after_enqueue master queue r) = r_sets r"
  "r_sets (init_length_counter queue r) = r_sets r"
  "r_sets (init_running_counter queue r) = r_sets r"
  "r_sets (requeue_tracked queue score i r) = r_sets r"
  "r_sets (unqueue_tracked queue i r) = r_sets r"
  "r_sets (add_ttl ttl r) = r_sets r"
  by (simp_all add: rebalance_master_def rebalance_ck_index_def rebalance_ck_master_def
      drop_old_master_def index_after_enqueue_def master_after_enqueue_def init_length_counter_def
      init_running_counter_def requeue_tracked_def unqueue_tracked_def add_ttl_def Let_def
      split: option.split prod.split)

lemma same_limits [simp]:
  "r_limits (rebalance_master master queue r) = r_limits r"
  "r_limits (rebalance_ck_index idx queue r) = r_limits r"
  "r_limits (rebalance_ck_master master idx w r) = r_limits r"
  "r_limits (drop_old_master master queue r) = r_limits r"
  "r_limits (index_after_enqueue queue r) = r_limits r"
  "r_limits (master_after_enqueue master queue r) = r_limits r"
  "r_limits (init_length_counter queue r) = r_limits r"
  "r_limits (init_running_counter queue r) = r_limits r"
  "r_limits (requeue_tracked queue score i r) = r_limits r"
  "r_limits (unqueue_tracked queue i r) = r_limits r"
  "r_limits (add_ttl ttl r) = r_limits r"
  "r_limits (release_sets queue i r) = r_limits r"
  "r_limits (release_sets_tracked queue i r) = r_limits r"
  by (simp_all add: rebalance_master_def rebalance_ck_index_def rebalance_ck_master_def
      drop_old_master_def index_after_enqueue_def master_after_enqueue_def init_length_counter_def
      init_running_counter_def requeue_tracked_def unqueue_tracked_def add_ttl_def release_sets_def
      release_sets_tracked_def Let_def split: option.split prod.split)

section \<open>A dequeue claims one place per message it returns\<close>

text \<open>\<open>grows n r r'\<close>: every set grew by at most \<open>n\<close>, and no limit changed.\<close>

definition grows :: "nat \<Rightarrow> 'm redis \<Rightarrow> 'm redis \<Rightarrow> bool" where
  "grows n r r' =
     (r_limits r' = r_limits r \<and> (\<forall>k. length (r_sets r' k) \<le> length (r_sets r k) + n))"

lemma grows_trans: "grows m r r1 \<Longrightarrow> grows n r1 r2 \<Longrightarrow> grows (m + n) r r2"
  unfolding grows_def
proof safe
  fix k
  assume "\<forall>k. length (r_sets r1 k) \<le> length (r_sets r k) + m"
    "\<forall>k. length (r_sets r2 k) \<le> length (r_sets r1 k) + n"
  then have "length (r_sets r1 k) \<le> length (r_sets r k) + m"
    "length (r_sets r2 k) \<le> length (r_sets r1 k) + n" by blast+
  then show "length (r_sets r2 k) \<le> length (r_sets r k) + (m + n)" by linarith
qed simp

lemma grows_sets_le: "sets_le r r' \<longleftrightarrow> grows 0 r r'"
  by (simp add: sets_le_def grows_def)

lemma grows_same: "r_limits r' = r_limits r \<Longrightarrow> r_sets r' = r_sets r \<Longrightarrow> grows n r r'"
  by (simp add: grows_def)

lemma grows_SADD2: "grows 1 r (SADD k1 i (SADD k2 i r))"
  by (auto simp: grows_def sadd_def)

definition claimed :: "'a option \<Rightarrow> nat" where
  "claimed x = (case x of None \<Rightarrow> 0 | Some _ \<Rightarrow> 1)"

lemma claimed_simps [simp]: "claimed None = 0" "claimed (Some x) = 1"
  by (simp_all add: claimed_def)

lemma dequeue_one_grows:
  "dequeue_one queue now ttl e r = (x, r') \<Longrightarrow> grows (claimed x) r r'"
  unfolding dequeue_one_def Let_def
  by (auto split: option.splits if_splits
      simp: grows_def sadd_def)

lemma dequeue_loop_grows:
  "dequeue_loop queue now ttl es r = (xs, r') \<Longrightarrow> grows (length xs) r r' \<and> length xs \<le> length es"
proof (induction es arbitrary: r xs r')
  case Nil
  then show ?case by (simp add: grows_same)
next
  case (Cons e es)
  obtain x r1 where one: "dequeue_one queue now ttl e r = (x, r1)" by fastforce
  obtain ys r2 where rec: "dequeue_loop queue now ttl es r1 = (ys, r2)" by fastforce
  from one rec Cons.prems have xs: "xs = (case x of None \<Rightarrow> ys | Some y \<Rightarrow> y # ys)" and "r' = r2"
    by auto
  with dequeue_one_grows [OF one] Cons.IH [OF rec] grows_trans [of "claimed x" r r1 "length ys" r2]
  show ?case by (cases x) (auto simp: le_SucI)
qed

lemma dequeue_variant_grows:
  "dequeue_variant w now ttl qlim q r = (x, r') \<Longrightarrow> grows (claimed x) r r'"
  unfolding dequeue_variant_def Let_def
  by (auto split: option.splits if_splits list.splits
      simp: grows_def sadd_def)

lemma dequeue_variants_grows:
  "dequeue_variants w now ttl qlim budget qs r = (xs, r') \<Longrightarrow> grows (length xs) r r' \<and> length xs \<le> budget"
proof (induction w now ttl qlim budget qs r arbitrary: xs r' rule: dequeue_variants.induct)
  case (3 w now ttl qlim budget q qs r)
  obtain x r1 where v: "dequeue_variant w now ttl qlim q r = (x, r1)" by fastforce
  note g = dequeue_variant_grows [OF v]
  show ?case
  proof (cases x)
    case None
    with 3 v g grows_trans [of 0 r r1 "length xs" r'] show ?thesis by auto
  next
    case (Some y)
    obtain ys r2 where rec: "dequeue_variants w now ttl qlim budget qs r1 = (ys, r2)" by fastforce
    with 3(2) [OF _ ] 3(3) Some v have "grows (length ys) r1 r2 \<and> length ys \<le> budget"
      by (metis "3.IH"(2) v)
    with g grows_trans [of 1 r r1 "length ys" r2] 3(3) v Some rec show ?thesis by auto
  qed
qed (auto simp: grows_same)

text \<open>What a dequeue may claim is within both capacities.\<close>

lemma callDequeue_cases:
  assumes "callDequeueMessagesFromQueue cfg now queue n maxCount r = (xs, r')"
  shows "grows (length xs) r r' \<and> length xs \<le> maxCount
    \<and> (xs \<noteq> [] \<longrightarrow>
         int (env_current queue r) + int (length xs) \<le> env_limit_with_burst cfg queue r
       \<and> int (queue_current queue r) + int (length xs) \<le> \<lfloor>queue_limit cfg queue r\<rfloor>)"
proof -
  let ?envCap = "env_limit_with_burst cfg queue r - int (env_current queue r)"
  let ?queueCap = "\<lfloor>queue_limit cfg queue r\<rfloor> - int (queue_current queue r)"
  let ?n = "nat (min (int maxCount) (min ?envCap ?queueCap))"
  let ?ms = "zrangebyscore now ?n (r_zsets r queue)"
  show ?thesis
  proof (cases "?envCap \<le> 0 \<or> ?queueCap \<le> 0 \<or> min (int maxCount) (min ?envCap ?queueCap) \<le> 0 \<or> ?ms = []")
    case True
    with assms have "xs = []" "r' = r"
      by (auto simp: callDequeueMessagesFromQueue_def Let_def split: if_splits)
    then show ?thesis by (simp add: grows_same)
  next
    case False
    obtain ys r1 where loop: "dequeue_loop queue now (ttl_key cfg queue) ?ms r = (ys, r1)"
      by fastforce
    from False loop assms have xs: "xs = ys" and r': "r' = rebalance_master (masterQueueKeyForShard n) queue r1"
      by (auto simp: callDequeueMessagesFromQueue_def Let_def split: list.splits)
    from dequeue_loop_grows [OF loop] have "grows (length xs) r r1" "length xs \<le> length ?ms"
      by (simp_all add: xs)
    moreover have "length ?ms \<le> ?n" by (rule length_zrangebyscore)
    ultimately have "length xs \<le> ?n" "grows (length xs) r r'"
      by (simp_all add: r' grows_def)
    with False show ?thesis by linarith
  qed
qed

lemma callDequeueCk_cases:
  assumes "callDequeueMessagesFromCkQueue cfg now w n maxCount r = (xs, r')"
  shows "grows (length xs) r r' \<and> length xs \<le> maxCount
    \<and> (xs \<noteq> [] \<longrightarrow>
         int (env_current w r) + int (length xs) \<le> env_limit_with_burst cfg w r)"
proof -
  let ?envCap = "env_limit_with_burst cfg w r - int (env_current w r)"
  let ?n = "nat (min (int maxCount) ?envCap)"
  let ?qs = "zrangebyscore now (?n * 3) (r_zsets r (ckIndexKeyFromQueue w))"
  show ?thesis
  proof (cases "?envCap \<le> 0 \<or> min (int maxCount) ?envCap \<le> 0 \<or> ?qs = []")
    case True
    with assms have "xs = []" "grows 0 r r'"
      by (auto simp: callDequeueMessagesFromCkQueue_def Let_def grows_same split: if_splits)
    then show ?thesis by simp
  next
    case False
    obtain ys r1 where loop: "dequeue_variants w now (ttl_key cfg w) (queue_limit cfg w r) ?n (map fst ?qs) r
        = (ys, r1)"
      by fastforce
    from False loop assms have xs: "xs = ys"
      and r': "r' = rebalance_ck_master (masterQueueKeyForShard n) (ckIndexKeyFromQueue w) w r1"
      by (auto simp: callDequeueMessagesFromCkQueue_def Let_def split: list.splits)
    from dequeue_variants_grows [OF loop] have "grows (length xs) r r'" "length xs \<le> ?n"
      by (simp_all add: xs r' grows_def)
    with False show ?thesis by linarith
  qed
qed

section \<open>The environment's limit over whole runs of the queue\<close>

text \<open>
  What can happen to the queues of one environment: an enqueue of any message under any queue
  name and concurrency key, a dequeue from a queue or from the variants of a queue, a worker
  taking a message, an acknowledgement, a negative acknowledgement (with or without the dead
  letter queue) and a release of concurrency.
\<close>

datatype queue_event =
    EvEnqueue int string bool message
  | EvDequeue int string nat nat
  | EvDequeueCk int string nat nat
  | EvTake string
  | EvAck string string bool
  | EvNack rat int string string "int option" bool
  | EvRelease string string

fun queue_step :: "queue_options \<Rightarrow> environment \<Rightarrow> message redis \<Rightarrow> queue_event \<Rightarrow> message redis" where
  "queue_step cfg env r (EvEnqueue now workerQueue fast m) =
     snd (enqueueMessage cfg now env workerQueue False fast m r)"
| "queue_step cfg env r (EvDequeue now name n maxCount) =
     snd (callDequeueMessagesFromQueue cfg now (queueKey env name None) n maxCount r)"
| "queue_step cfg env r (EvDequeueCk now name n maxCount) =
     snd (callDequeueMessagesFromCkQueue cfg now (queueKey env name (Some ''*'')) n maxCount r)"
| "queue_step cfg env r (EvTake workerQueue) = snd (dequeueMessageFromWorkerQueue workerQueue r)"
| "queue_step cfg env r (EvAck orgId runId removeFromWorkerQueue) =
     snd (acknowledgeMessage cfg orgId runId False removeFromWorkerQueue r)"
| "queue_step cfg env r (EvNack rnd now orgId runId retryAt increment) =
     snd (nackMessage cfg rnd now orgId runId retryAt increment r)"
| "queue_step cfg env r (EvRelease orgId runId) = releaseAllConcurrency orgId runId r"

definition env_running :: "environment \<Rightarrow> 'm redis \<Rightarrow> nat" where
  "env_running env r = length (r_sets r (envCurrentConcurrencyKey (descriptorOfEnvironment env)))"

definition env_burst_limit :: "queue_options \<Rightarrow> environment \<Rightarrow> 'm redis \<Rightarrow> int" where
  "env_burst_limit cfg env r =
     \<lfloor>limit_or (envConcurrencyLimitKey (descriptorOfEnvironment env)) (qo_defaultEnvConcurrency cfg) r
      * limit_or (envConcurrencyLimitBurstFactorKey (descriptorOfEnvironment env))
          (or_default (qo_defaultEnvConcurrencyBurstFactor cfg) 1) r\<rfloor>"

definition within_env_limit :: "queue_options \<Rightarrow> environment \<Rightarrow> 'm redis \<Rightarrow> bool" where
  "within_env_limit cfg env r = (int (env_running env r) \<le> env_burst_limit cfg env r)"

lemma env_of_queueKey:
  assumes "good_env env"
  shows "env_current (queueKey env name ck) r = env_running env r"
    and "env_limit_with_burst cfg (queueKey env name ck) r = env_burst_limit cfg env r"
  by (simp_all add: env_current_def env_running_def env_limit_with_burst_def env_burst_limit_def
      env_limit_def env_keys_queueKey [OF assms])

lemma within_grows:
  "within_env_limit cfg env r \<Longrightarrow> grows n r r' \<Longrightarrow>
   n = 0 \<or> int (env_running env r) + int n \<le> env_burst_limit cfg env r \<Longrightarrow>
   within_env_limit cfg env r'"
proof -
  assume w: "within_env_limit cfg env r" and g: "grows n r r'"
    and n: "n = 0 \<or> int (env_running env r) + int n \<le> env_burst_limit cfg env r"
  have "env_running env r' \<le> env_running env r + n"
    using g by (simp add: grows_def env_running_def)
  moreover have "env_burst_limit cfg env r' = env_burst_limit cfg env r"
    using g by (simp add: grows_def env_burst_limit_def limit_or_def)
  ultimately show ?thesis
    using w n by (auto simp: within_env_limit_def)
qed

lemma grows_frame [simp]:
  "grows n r (rebalance_master master queue r1) = grows n r r1"
  "grows n r (rebalance_ck_index idx queue r1) = grows n r r1"
  "grows n r (rebalance_ck_master master idx w r1) = grows n r r1"
  "grows n r (drop_old_master master queue r1) = grows n r r1"
  "grows n r (index_after_enqueue queue r1) = grows n r r1"
  "grows n r (master_after_enqueue master queue r1) = grows n r r1"
  "grows n r (init_length_counter queue r1) = grows n r r1"
  "grows n r (init_running_counter queue r1) = grows n r r1"
  "grows n r (requeue_tracked queue score i r1) = grows n r r1"
  "grows n r (unqueue_tracked queue i r1) = grows n r r1"
  "grows n r (add_ttl ttl r1) = grows n r r1"
  "grows n r (SETM k m r1) = grows n r r1" "grows n r (DEL k r1) = grows n r r1"
  "grows n r (ZADD k s i r1) = grows n r r1" "grows n r (ZREM k i r1) = grows n r r1"
  "grows n r (LREM k v r1) = grows n r r1"
  by (simp_all add: grows_def)

lemma grows_0_refl [simp]: "grows 0 r r"
  by (simp add: grows_def)

lemma grows_release [simp]: "grows n r r1 \<Longrightarrow> grows n r (release_sets q i r1)"
  using grows_trans [of n r r1 0 "release_sets q i r1"] sets_le_release_sets [of r1 q i]
  by (simp add: grows_sets_le)

lemma grows_release_tracked [simp]: "grows n r r1 \<Longrightarrow> grows n r (release_sets_tracked q i r1)"
  using grows_trans [of n r r1 0 "release_sets_tracked q i r1"] sets_le_release_sets_tracked [of r1 q i]
  by (simp add: grows_sets_le)

lemma ack_grows: "grows 0 r (callAcknowledgeMessage cfg m rm r)"
  by (simp add: callAcknowledgeMessage_def Let_def)

lemma nack_grows: "grows 0 r (callNackMessage cfg rnd now m retryAt r)"
  by (simp add: callNackMessage_def Let_def)

lemma dlq_grows: "grows 0 r (callMoveToDeadLetterQueue cfg now m r)"
  by (simp add: callMoveToDeadLetterQueue_def Let_def)

lemma enqueue_slow_grows:
  "grows 0 r (enqueue_slow cfg ttl m r)" "grows 0 r (enqueue_slow_ck cfg ttl m r)"
  by (simp_all add: enqueue_slow_def enqueue_slow_ck_def Let_def)

lemma release_all_grows: "grows 0 r (releaseAllConcurrency orgId runId r)"
  by (simp add: releaseAllConcurrency_def split: option.split)

lemma enqueue_fast_grows: "grows 1 r (enqueue_fast m r)"
  by (auto simp: enqueue_fast_def grows_def sadd_def)

lemma suffix_ne: "x @ '':currentConcurrency'' \<noteq> y @ '':currentDequeued''"
  using arg_cong [of "x @ '':currentConcurrency''" "y @ '':currentDequeued''" last] by auto

lemma take_same:
  "env_running env (snd (dequeueMessageFromKey key r)) = env_running env r
   \<and> r_limits (snd (dequeueMessageFromKey key r)) = r_limits r"
proof -
  let ?k = "envCurrentConcurrencyKey (descriptorOfEnvironment env)"
  have k: "?k \<noteq> x @ '':currentDequeued''" for x
    using suffix_ne [of "env_prefix env" x] by (simp add: envCurrentConcurrencyKey_def env_key_prefix)
  show ?thesis
    using k by (auto simp: dequeueMessageFromKey_def Let_def env_running_def bump_running_counter_def
        queueCurrentDequeuedKeyFromQueue_def split: option.splits)
qed

lemma queue_step_within:
  assumes env: "good_env env" and w: "within_env_limit cfg env r"
  shows "within_env_limit cfg env (queue_step cfg env r ev)"
proof (cases ev)
  case (EvEnqueue now workerQueue fast m)
  let ?m = "m\<lparr>m_queue := queueKey env (m_queue m) (m_concurrencyKey m), m_workerQueue := workerQueue, m_attempt := 0\<rparr>"
  obtain ttl where "queue_step cfg env r ev = snd (callEnqueueMessage cfg now ttl fast ?m r)"
    unfolding EvEnqueue by (simp add: enqueueMessage_def Let_def case_prod_unfold)
  moreover have "within_env_limit cfg env (snd (callEnqueueMessage cfg now ttl fast ?m r))"
  proof (cases "fast \<and> m_timestamp ?m \<le> now \<and> fast_path_available cfg now ?m r")
    case True
    then have "int (env_running env r) + 1 \<le> env_burst_limit cfg env r"
      by (simp add: fast_path_available_def env_of_queueKey [OF env])
    with True within_grows [OF w enqueue_fast_grows [of r ?m]] show ?thesis
      by (simp add: callEnqueueMessage_def)
  next
    case False
    then have "snd (callEnqueueMessage cfg now ttl fast ?m r)
        = (if has_ck ?m then enqueue_slow_ck cfg ttl ?m r else enqueue_slow cfg ttl ?m r)"
      by (auto simp: callEnqueueMessage_def Let_def)
    with within_grows [OF w enqueue_slow_grows(1) [of r cfg ttl ?m]]
      within_grows [OF w enqueue_slow_grows(2) [of r cfg ttl ?m]] show ?thesis
      by simp
  qed
  ultimately show ?thesis by simp
next
  case (EvDequeue now name n maxCount)
  obtain xs r' where d: "callDequeueMessagesFromQueue cfg now (queueKey env name None) n maxCount r = (xs, r')"
    by fastforce
  from callDequeue_cases [OF d]
  have "grows (length xs) r r'" "length xs = 0 \<or> int (env_running env r) + int (length xs) \<le> env_burst_limit cfg env r"
    by (auto simp: env_of_queueKey [OF env])
  with within_grows [OF w] d EvDequeue show ?thesis by simp
next
  case (EvDequeueCk now name n maxCount)
  obtain xs r' where d:
      "callDequeueMessagesFromCkQueue cfg now (queueKey env name (Some ''*'')) n maxCount r = (xs, r')"
    by fastforce
  from callDequeueCk_cases [OF d]
  have "grows (length xs) r r'" "length xs = 0 \<or> int (env_running env r) + int (length xs) \<le> env_burst_limit cfg env r"
    by (auto simp: env_of_queueKey [OF env])
  with within_grows [OF w] d EvDequeueCk show ?thesis by simp
next
  case (EvTake workerQueue)
  have "within_env_limit cfg env (snd (dequeueMessageFromKey key (r\<lparr>r_lists := l\<rparr>)))" for key l
  proof -
    have "env_running env (r\<lparr>r_lists := l\<rparr>) = env_running env r" by (simp add: env_running_def)
    with take_same [of env key "r\<lparr>r_lists := l\<rparr>"] w show ?thesis
      by (simp add: within_env_limit_def env_burst_limit_def limit_or_def)
  qed
  with EvTake w show ?thesis
    by (simp add: dequeueMessageFromWorkerQueue_def split: list.split)
next
  case (EvAck orgId runId rm)
  then show ?thesis
    using within_grows [OF w ack_grows] w by (simp add: acknowledgeMessage_def split: option.split)
next
  case (EvNack rnd now orgId runId retryAt increment)
  then show ?thesis
    using within_grows [OF w nack_grows] within_grows [OF w dlq_grows] w
    by (simp add: nackMessage_def Let_def split: option.split)
next
  case (EvRelease orgId runId)
  with within_grows [OF w release_all_grows] show ?thesis by simp
qed

text \<open>
  The queues of one environment are a machine whose steps keep the limit. An environment that
  is not well formed has no such guarantee, so its steps are left out.
\<close>

definition env_step :: "queue_options \<Rightarrow> environment \<Rightarrow> message redis \<Rightarrow> queue_event \<Rightarrow> message redis" where
  "env_step cfg env r ev = (if good_env env then queue_step cfg env r ev else r)"

interpretation env_queues: step_machine "env_step cfg env" "within_env_limit cfg env" for cfg env
  by unfold_locales (simp add: env_step_def queue_step_within)

text \<open>
  C36. An environment never runs more than it may: whatever is enqueued (directly to a worker
  queue or not), dequeued (with and without concurrency keys), taken, acknowledged, negatively
  acknowledged, dead-lettered and released, in any order and under any queue names, the number
  of messages claiming concurrency in the environment stays within its concurrency limit times
  its burst factor.
\<close>

theorem env_concurrency_bounded:
  assumes "good_env env" "within_env_limit cfg env r"
  shows "int (env_running env (foldl (queue_step cfg env) r evs))
    \<le> env_burst_limit cfg env (foldl (queue_step cfg env) r evs)"
proof -
  have "env_step cfg env = queue_step cfg env"
    using assms(1) by (intro ext) (simp add: env_step_def)
  with env_queues.run_inv [OF assms(2), of evs] show ?thesis
    by (simp add: within_env_limit_def)
qed

definition example_cfg :: queue_options where
  "example_cfg = \<lparr>qo_defaultEnvConcurrency = 2, qo_defaultEnvConcurrencyBurstFactor = Some (3 / 2),
     qo_shardCount = 1, qo_ttlShardCount = None, qo_ttlSystem = False, qo_retryOptions = None,
     qo_overrides = None, qo_sha256 = (\<lambda>_. [1, 2, 3, 4, 5, 6, 7, 8])\<rparr>"

section \<open>A message is in one place\<close>

text \<open>Where a message is: in its queue, in a concurrency set, in the dead letter queue.\<close>

definition queued :: "message \<Rightarrow> 'm redis \<Rightarrow> bool" where
  "queued m r = (m_runId m \<in> zmembers (r_zsets r (m_queue m)))"

definition running :: "message \<Rightarrow> 'm redis \<Rightarrow> bool" where
  "running m r =
     (list_ex (\<lambda>k. m_runId m \<in> set (r_sets r k))
        [queueCurrentConcurrencyKeyFromQueue (m_queue m), envCurrentConcurrencyKeyFromQueue (m_queue m),
         queueCurrentDequeuedKeyFromQueue (m_queue m), envCurrentDequeuedKeyFromQueue (m_queue m)])"

definition dead :: "message \<Rightarrow> 'm redis \<Rightarrow> bool" where
  "dead m r = (m_runId m \<in> zmembers (r_zsets r (deadLetterQueueKeyFromQueue (m_queue m))))"

lemma not_running_release: "\<not> running m (release_sets (m_queue m) (m_runId m) r)"
  by (auto simp: running_def release_sets_def)

lemma running_cong: "r_sets r1 = r_sets r \<Longrightarrow> running m r1 = running m r"
  by (simp add: running_def)

lemma not_running_release_tracked: "\<not> running m (release_sets_tracked (m_queue m) (m_runId m) r)"
  using not_running_release [of m r]
  by (simp add: release_sets_tracked_def Let_def running_def)

lemma running_frame [simp]:
  "running m (rebalance_master master queue r1) = running m r1"
  "running m (rebalance_ck_index idx queue r1) = running m r1"
  "running m (rebalance_ck_master master idx w r1) = running m r1"
  "running m (drop_old_master master queue r1) = running m r1"
  "running m (index_after_enqueue queue r1) = running m r1"
  "running m (init_length_counter queue r1) = running m r1"
  "running m (requeue_tracked queue score i r1) = running m r1"
  "running m (ZADD k s i r1) = running m r1" "running m (ZREM k i r1) = running m r1"
  "running m (LREM k v r1) = running m r1"
  by (simp_all add: running_def)

text \<open>The sorted set of a queue is none of the other sorted sets of the scripts.\<close>

definition own_zset :: "string \<Rightarrow> bool" where
  "own_zset q =
     (q \<noteq> envQueueKeyFromQueue q \<and> q \<noteq> deadLetterQueueKeyFromQueue q \<and> q \<noteq> ckIndexKeyFromQueue q
      \<and> (\<forall>n. q \<noteq> masterQueueKeyForShard n) \<and> (\<forall>n. q \<noteq> ttlQueueKeyForShard n))"

lemma base_append_ne: "q \<noteq> baseQueueKeyFromQueue q @ '':ckIndex''"
proof (cases "baseQueueKeyFromQueue q = q")
  case False
  then obtain i where i: "js_indexOf q '':ck:'' = Some i" "baseQueueKeyFromQueue q = take i q"
    by (auto simp: baseQueueKeyFromQueue_def split: option.splits if_splits)
  from js_indexOf_Some [OF i(1)] obtain t where "drop i q = '':ck:'' @ t"
    by (auto simp: js_startsWith_iff)
  then have "q = take i q @ '':ck:'' @ t" by (metis append_take_drop_id)
  moreover have "take i q @ '':ck:'' @ t \<noteq> take i q @ '':ckIndex''"
    by (simp only: same_append_eq) simp
  ultimately show ?thesis using i by metis
qed simp

lemma own_zset_queueKey:
  assumes "good_env env" shows "own_zset (queueKey env name ck)"
proof -
  obtain rest where q: "queueKey env name ck = env_prefix env @ '':queue:'' @ name @ rest"
    using queueKey_prefix by blast
  have d: "envDescriptorFromQueue (queueKey env name ck) = descriptorOfEnvironment env"
    by (rule envDescriptorFromQueue_queueKey [OF assms])
  then have "orgIdFromQueue (queueKey env name ck) = env_organizationId env"
    "envIdFromQueue (queueKey env name ck) = env_id env"
    by (simp_all add: envDescriptorFromQueue_def orgIdFromQueue_def envIdFromQueue_def Let_def
        descriptorOfEnvironment_def)
  then have "envQueueKeyFromQueue (queueKey env name ck) = envQueueKey env"
    by (simp add: envQueueKeyFromQueue_def envQueueKey_def)
  moreover have "queueKey env name ck \<noteq> envQueueKey env"
    by (simp add: q env_prefix_def envQueueKey_def section_defs)
  moreover have "queueKey env name ck \<noteq> deadLetterQueueKey (descriptorOfEnvironment env)"
    by (simp add: q deadLetterQueueKey_def env_key_prefix)
  moreover have "queueKey env name ck \<noteq> masterQueueKeyForShard n"
    "queueKey env name ck \<noteq> ttlQueueKeyForShard n" for n
    by (simp_all add: q env_prefix_def section_defs masterQueueKeyForShard_def ttlQueueKeyForShard_def)
  ultimately show ?thesis
    using base_append_ne d
    by (simp add: own_zset_def ckIndexKeyFromQueue_def deadLetterQueueKeyFromQueue_def)
qed

lemma zset_other [simp]:
  "k \<noteq> master \<Longrightarrow> r_zsets (rebalance_master master queue r) k = r_zsets r k"
  "k \<noteq> idx \<Longrightarrow> r_zsets (rebalance_ck_index idx queue r) k = r_zsets r k"
  "k \<noteq> master \<Longrightarrow> r_zsets (rebalance_ck_master master idx w r) k = r_zsets r k"
  "k \<noteq> master \<Longrightarrow> r_zsets (drop_old_master master queue r) k = r_zsets r k"
  "k \<noteq> ckIndexKeyFromQueue queue \<Longrightarrow> r_zsets (index_after_enqueue queue r) k = r_zsets r k"
  "r_zsets (init_length_counter queue r) = r_zsets r"
  "r_zsets (release_sets queue i r) = r_zsets r"
  "r_zsets (release_sets_tracked queue i r) = r_zsets r"
  by (simp_all add: rebalance_master_def rebalance_ck_index_def rebalance_ck_master_def
      drop_old_master_def index_after_enqueue_def init_length_counter_def release_sets_def
      release_sets_tracked_def Let_def split: option.split)

lemma requeue_zset:
  "r_zsets (requeue_tracked queue s i r) queue
     = (if queue = envQueueKeyFromQueue queue then zadd s i (zadd s i (r_zsets r queue))
        else zadd s i (r_zsets r queue))"
  by (simp add: requeue_tracked_def Let_def)

lemma unqueue_zset: "i \<notin> zmembers (r_zsets (unqueue_tracked queue i r) queue)"
  by (simp add: unqueue_tracked_def Let_def)

lemma same_messages [simp]:
  "r_messages (rebalance_master master queue r) = r_messages r"
  "r_messages (rebalance_ck_index idx queue r) = r_messages r"
  "r_messages (rebalance_ck_master master idx w r) = r_messages r"
  "r_messages (drop_old_master master queue r) = r_messages r"
  "r_messages (index_after_enqueue queue r) = r_messages r"
  "r_messages (init_length_counter queue r) = r_messages r"
  "r_messages (requeue_tracked queue s i r) = r_messages r"
  "r_messages (unqueue_tracked queue i r) = r_messages r"
  "r_messages (release_sets queue i r) = r_messages r"
  "r_messages (release_sets_tracked queue i r) = r_messages r"
  by (simp_all add: rebalance_master_def rebalance_ck_index_def rebalance_ck_master_def
      drop_old_master_def index_after_enqueue_def init_length_counter_def requeue_tracked_def
      unqueue_tracked_def release_sets_def release_sets_tracked_def Let_def split: option.split)

lemma ack_places:
  assumes "own_zset (m_queue m)"
  shows "\<not> queued m (callAcknowledgeMessage cfg m rm r)
    \<and> \<not> running m (callAcknowledgeMessage cfg m rm r)
    \<and> readMessage (m_orgId m) (m_runId m) (callAcknowledgeMessage cfg m rm r) = None"
proof -
  have k: "m_queue m \<noteq> masterQueueKey cfg (m_environmentId m)"
    "m_queue m \<noteq> ckIndexKeyFromQueue (m_queue m)"
    using assms by (auto simp: own_zset_def masterQueueKey_def)
  then show ?thesis
    by (simp add: callAcknowledgeMessage_def Let_def queued_def readMessage_def unqueue_zset
        not_running_release not_running_release_tracked)
qed

lemma nack_places:
  assumes "own_zset (m_queue m)"
  shows "queued m (callNackMessage cfg rnd now m retryAt r)
    \<and> \<not> running m (callNackMessage cfg rnd now m retryAt r)
    \<and> readMessage (m_orgId m) (m_runId m) (callNackMessage cfg rnd now m retryAt r) = Some m"
proof -
  have k: "m_queue m \<noteq> masterQueueKey cfg (m_environmentId m)"
    "m_queue m \<noteq> ckIndexKeyFromQueue (m_queue m)" "m_queue m \<noteq> envQueueKeyFromQueue (m_queue m)"
    using assms by (auto simp: own_zset_def masterQueueKey_def)
  then show ?thesis
    by (simp add: callNackMessage_def Let_def queued_def readMessage_def requeue_zset
        not_running_release not_running_release_tracked)
qed

lemma dlq_places:
  assumes "own_zset (m_queue m)"
  shows "\<not> queued m (callMoveToDeadLetterQueue cfg now m r)
    \<and> \<not> running m (callMoveToDeadLetterQueue cfg now m r)
    \<and> dead m (callMoveToDeadLetterQueue cfg now m r)"
proof -
  have k: "m_queue m \<noteq> masterQueueKey cfg (m_environmentId m)"
    "m_queue m \<noteq> ckIndexKeyFromQueue (m_queue m)" "m_queue m \<noteq> deadLetterQueueKeyFromQueue (m_queue m)"
    using assms by (auto simp: own_zset_def masterQueueKey_def)
  then show ?thesis
    by (simp add: callMoveToDeadLetterQueue_def Let_def queued_def dead_def unqueue_zset
        not_running_release not_running_release_tracked)
qed

text \<open>
  A negative acknowledgement either requeues a message or buries it, and never both: a
  message that has attempts left goes back to its queue with its attempt counted and without a
  TTL, a message whose attempts are used up goes to the dead letter queue, and in both cases
  it gives up every claim of concurrency.
\<close>

theorem nack_requeues_or_buries:
  assumes "good_env env" "readMessage orgId runId r = Some m"
    and "m_runId m = runId" "m_orgId m = orgId" "m_queue m = queueKey env name ck"
  shows "\<exists>again r'. nackMessage cfg rnd now orgId runId retryAt True r = (Some again, r')
    \<and> (again \<longleftrightarrow> int (m_attempt m) + 1 < or_default (ro_maxAttempts (queue_retry_options cfg)) 12)
    \<and> \<not> running m r' \<and> (queued m r' \<longleftrightarrow> again) \<and> (again \<or> dead m r')
    \<and> (again \<longrightarrow> readMessage orgId runId r'
          = Some (m\<lparr>m_attempt := m_attempt m + 1, m_ttlExpiresAt := None\<rparr>))"
proof -
  let ?m = "m\<lparr>m_attempt := m_attempt m + 1\<rparr>" and ?n = "m\<lparr>m_attempt := m_attempt m + 1, m_ttlExpiresAt := None\<rparr>"
  have own: "own_zset (m_queue ?m)" "own_zset (m_queue ?n)"
    using own_zset_queueKey [OF assms(1)] assms(5) by simp_all
  have same: "queued ?n x = queued m x" "running ?n x = running m x"
    "queued ?m x = queued m x" "running ?m x = running m x" "dead ?m x = dead m x" for x :: "message redis"
    by (simp_all add: queued_def running_def dead_def)
  let ?left = "int (m_attempt m) + 1 < or_default (ro_maxAttempts (queue_retry_options cfg)) 12"
  have eq: "nackMessage cfg rnd now orgId runId retryAt True r
      = (if ?left then (Some True, callNackMessage cfg rnd now ?n retryAt r)
         else (Some False, callMoveToDeadLetterQueue cfg now ?m r))"
    using assms(2) by (simp add: nackMessage_def Let_def)
  show ?thesis
  proof (cases ?left)
    case True
    with eq nack_places [OF own(2), of cfg rnd now retryAt r] assms(3,4) show ?thesis
      by (auto simp: same [simplified])
  next
    case False
    with eq dlq_places [OF own(1), of cfg now r] show ?thesis
      by (auto simp: same [simplified])
  qed
qed

definition example_message :: message where
  "example_message = \<lparr>m_runId = ''r1'', m_orgId = ''o1'', m_projectId = ''p1'', m_environmentId = ''e1'',
     m_environmentType = PRODUCTION, m_queue = queueKey example_env ''q'' None, m_concurrencyKey = None,
     m_timestamp = 10, m_eligibleAtMs = None, m_attempt = 0, m_ttlExpiresAt = None,
     m_workerQueue = ''us-east''\<rparr>"

text \<open>
  Four messages with a limit of three: one goes to the worker queue at once, two are dequeued, with and
  without a concurrency key, and the last has to wait.
\<close>

definition busy_redis :: "message redis" where
  "busy_redis =
     (let q = queueKey example_env ''q'' None; ck = queueKey example_env ''q'' (Some ''a'') in
      ZADD (ckIndexKeyFromQueue ck) 10 ck (ZADD ck 10 ''r2'' (ZADD q 12 ''r4'' (ZADD q 11 ''r3''
        (fold (\<lambda>(i, k). SETM (messageKey ''o1'' i) (example_message\<lparr>m_runId := i, m_queue := k\<rparr>))
           [(''r2'', ck), (''r3'', q), (''r4'', q)] empty_redis)))))"

definition example_traffic :: "queue_event list" where
  "example_traffic =
     [EvDequeueCk 30 ''q'' 0 10, EvDequeue 30 ''q'' 0 1,
      EvEnqueue 20 ''w'' True (example_message\<lparr>m_runId := ''r1'', m_queue := ''p''\<rparr>), EvTake ''w'', EvDequeue 30 ''q'' 0 10]"

lemma example_traffic_running:
  "env_running example_env (foldl (queue_step example_cfg example_env) busy_redis example_traffic) = 3"
  by code_simp

theorem env_concurrency_bounded_witness:
  "3 \<le> env_burst_limit example_cfg example_env (foldl (queue_step example_cfg example_env) busy_redis example_traffic)"
proof -
  have "good_env example_env" by (simp add: good_env_def example_env_def colon_def)
  moreover have "within_env_limit example_cfg example_env busy_redis" by code_simp
  ultimately show ?thesis using env_concurrency_bounded [of example_env example_cfg busy_redis example_traffic]
    by (simp add: example_traffic_running)
qed

definition example_redis :: "message redis" where
  "example_redis = SETM (messageKey ''o1'' ''r1'') example_message empty_redis"

theorem nack_requeues_or_buries_witness:
  "\<exists>again r'. nackMessage example_cfg 0 5 ''o1'' ''r1'' None True example_redis = (Some again, r')
    \<and> \<not> running example_message r' \<and> (queued example_message r' \<longleftrightarrow> again)"
proof -
  have "good_env example_env" "readMessage ''o1'' ''r1'' example_redis = Some example_message"
    "m_runId example_message = ''r1''" "m_orgId example_message = ''o1''"
    "m_queue example_message = queueKey example_env ''q'' None"
    by (simp_all add: good_env_def example_env_def colon_def readMessage_def example_redis_def
        example_message_def)
  from nack_requeues_or_buries [OF this, of example_cfg 0 5 None] show ?thesis by blast
qed

text \<open>
  An acknowledged message leaves nothing behind: it is in no queue and in no concurrency set,
  and its payload is deleted.
\<close>

theorem ack_leaves_nothing:
  assumes "good_env env" "m_queue m = queueKey env name ck"
  shows "\<not> queued m (callAcknowledgeMessage cfg m rm r)
    \<and> \<not> running m (callAcknowledgeMessage cfg m rm r)
    \<and> readMessage (m_orgId m) (m_runId m) (callAcknowledgeMessage cfg m rm r) = None"
  using ack_places [of m cfg rm r] own_zset_queueKey [OF assms(1)] assms(2) by simp

theorem ack_leaves_nothing_witness:
  "\<not> running example_message (callAcknowledgeMessage example_cfg example_message True example_redis)"
  using ack_leaves_nothing [of example_env example_message "''q''" None example_cfg True example_redis]
  by (simp add: good_env_def example_env_def colon_def example_message_def)

definition leaky_message :: message where
  "leaky_message = example_message\<lparr>m_queue := queueKey example_env ''q'' (Some ''a:queue:b''),
     m_concurrencyKey := Some ''a:queue:b''\<rparr>"

lemma ack_other_sets:
  "k \<notin> {queueCurrentConcurrencyKeyFromQueue (m_queue m), envCurrentConcurrencyKeyFromQueue (m_queue m),
         queueCurrentDequeuedKeyFromQueue (m_queue m), envCurrentDequeuedKeyFromQueue (m_queue m)} \<Longrightarrow>
   r_sets (callAcknowledgeMessage cfg m rm r) k = r_sets r k"
  by (simp add: callAcknowledgeMessage_def Let_def release_sets_tracked_def release_sets_def)

lemma bump_running_counter_sets: "r_sets (bump_running_counter base queue r) = r_sets r"
  by (simp add: bump_running_counter_def Let_def split: option.split)

lemma dequeue_marks_env_part:
  "r_messages r key = Some m \<Longrightarrow> lua_env_match (m_queue m) = Some envPart \<Longrightarrow>
   m_runId m \<in> set (r_sets (snd (dequeueMessageFromKey key r)) (envPart @ '':currentDequeued''))"
  by (simp add: dequeueMessageFromKey_def Let_def bump_running_counter_sets split: option.split)

text \<open>
  A concurrency key that contains \<open>:queue:\<close> leaks: the script that marks a message as dequeued
  computes the environment's key with a greedy match, so it writes to another set than the one
  the acknowledgement cleans, and the run stays in it after it was acknowledged.
\<close>

theorem dequeued_set_leak:
  "let r1 = SETM (messageKey ''o1'' ''r1'') leaky_message empty_redis;
       r2 = snd (dequeueMessageFromKey (messageKey ''o1'' ''r1'') r1);
       r3 = callAcknowledgeMessage example_cfg leaky_message False r2
   in ''r1'' \<in> set (r_sets r3 (queueKey example_env ''q'' (Some ''a'') @ '':currentDequeued''))"
proof -
  let ?k = "messageKey ''o1'' ''r1''" and ?leak = "queueKey example_env ''q'' (Some ''a'') @ '':currentDequeued''"
  have q: "m_queue leaky_message = ''{org:o1}:proj:p1:env:e1:queue:q:ck:a:queue:b''"
    "m_runId leaky_message = ''r1''"
    by (simp_all add: leaky_message_def example_message_def queueKey_def example_env_def section_defs)
  have leak: "?leak = ''{org:o1}:proj:p1:env:e1:queue:q:ck:a:currentDequeued''"
    by (simp add: queueKey_def example_env_def section_defs)
  have match: "lua_env_match (m_queue leaky_message) = Some ''{org:o1}:proj:p1:env:e1:queue:q:ck:a''"
    by (simp add: q js_startsWith_def)
  have env: "good_env example_env" by (simp add: good_env_def example_env_def colon_def)
  have key: "m_queue leaky_message = queueKey example_env ''q'' (Some ''a:queue:b'')"
    by (simp add: leaky_message_def)
  have d: "envCurrentDequeuedKeyFromQueue (m_queue leaky_message) = ''{org:o1}:proj:p1:env:e1:currentDequeued''"
    "envCurrentConcurrencyKeyFromQueue (m_queue leaky_message) = ''{org:o1}:proj:p1:env:e1:currentConcurrency''"
    unfolding key env_keys_queueKey [OF env]
    by (simp_all add: envCurrentDequeuedKey_def envCurrentConcurrencyKey_def env_key_def
        descriptorOfEnvironment_def example_env_def section_defs)
  have "m_runId leaky_message \<in> set (r_sets (snd (dequeueMessageFromKey ?k (SETM ?k leaky_message empty_redis)))
      (''{org:o1}:proj:p1:env:e1:queue:q:ck:a'' @ '':currentDequeued''))"
    by (rule dequeue_marks_env_part [OF _ match]) simp
  then have marked: "''r1'' \<in> set (r_sets (snd (dequeueMessageFromKey ?k (SETM ?k leaky_message empty_redis))) ?leak)"
    unfolding q(2) leak by simp
  have other: "?leak \<notin> {queueCurrentConcurrencyKeyFromQueue (m_queue leaky_message),
      envCurrentConcurrencyKeyFromQueue (m_queue leaky_message),
      queueCurrentDequeuedKeyFromQueue (m_queue leaky_message), envCurrentDequeuedKeyFromQueue (m_queue leaky_message)}"
    unfolding leak d by (simp add: q queueCurrentConcurrencyKeyFromQueue_def queueCurrentDequeuedKeyFromQueue_def)
  show ?thesis
    unfolding Let_def ack_other_sets [OF other] by (rule marked)
qed

text \<open>
  The fast path ignores the worker queue overrides: with an override for the environment, a
  message enqueued over the fast path is pushed to the worker queue it was triggered for, while
  a dequeue pushes the same message to the queue the override names.
\<close>

theorem fast_path_ignores_overrides:
  assumes "fast_path_available cfg now m r" "m_timestamp m \<le> now"
    and "getWorkerQueueFromMessage (qo_overrides cfg) m = wq" "workerQueueKey wq \<noteq> workerQueueKey (m_workerQueue m)"
  shows "r_lists (snd (callEnqueueMessage cfg now ttl True m r)) (workerQueueKey wq)
       = r_lists r (workerQueueKey wq)
    \<and> r_lists (snd (callEnqueueMessage cfg now ttl True m r)) (workerQueueKey (m_workerQueue m))
       = r_lists r (workerQueueKey (m_workerQueue m)) @ [messageKey (m_orgId m) (m_runId m)]
    \<and> r_lists (enqueueMessagesToWorkerQueues cfg [(m_runId m, m_timestamp m, m)] r) (workerQueueKey wq)
       = r_lists r (workerQueueKey wq) @ [messageKey (m_orgId m) (m_runId m)]"
  using assms by (simp add: callEnqueueMessage_def enqueue_fast_def)

theorem fast_path_ignores_overrides_witness:
  "r_lists (snd (callEnqueueMessage
      (example_cfg\<lparr>qo_overrides := Some \<lparr>wo_environmentId = (\<lambda>e. Some ''eu''), wo_projectId = (\<lambda>_. None),
         wo_orgId = (\<lambda>_. None), wo_workerQueue = (\<lambda>_. None)\<rparr>\<rparr>) 20 None True example_message empty_redis))
     (workerQueueKey ''eu'') = []"
proof -
  let ?cfg = "example_cfg\<lparr>qo_overrides := Some \<lparr>wo_environmentId = (\<lambda>e. Some ''eu''), wo_projectId = (\<lambda>_. None),
         wo_orgId = (\<lambda>_. None), wo_workerQueue = (\<lambda>_. None)\<rparr>\<rparr>"
  have "fast_path_available ?cfg 20 example_message empty_redis"
    by (simp add: fast_path_available_def empty_redis_def zrangebyscore_def env_current_def
        queue_current_def env_limit_with_burst_def env_limit_def queue_limit_def limit_or_def
        example_cfg_def or_default_def)
  from fast_path_ignores_overrides [OF this, of "''eu''" None] show ?thesis
    by (simp add: example_message_def getWorkerQueueFromMessage_def getOverride_def nonempty_def
        workerQueueKey_def empty_redis_def)
qed

end
