(* ===== verification/Machines.thy ===== *)
theory Machines
  imports Complex_Main Prelude Statuses RetryDelay
begin

text \<open>
  Machine presets (\<open>engine/machinePresets.ts\<close>) and the usage accounting of a run attempt
  (\<open>#calculateUpdatedUsage\<close> of \<open>engine/systems/runAttemptSystem.ts\<close>).

  The configured machines are an object with string keys; its entries are kept in insertion
  order, which \<open>derivePresetNameFromValues\<close> depends on. Money is rational where the source uses
  doubles; a cost that is \<open>NaN\<close>, which arises when a preset is missing, is \<open>None\<close>.
\<close>

section \<open>Presets\<close>

datatype MachinePresetName =
  micro | small_1x | small_2x | medium_1x | medium_2x | large_1x | large_2x

text \<open>\<open>MachinePresetName.safeParse\<close> on a string.\<close>

definition parseMachinePresetName :: "string \<Rightarrow> MachinePresetName option" where
  "parseMachinePresetName s =
     map_of [(''micro'', micro), (''small-1x'', small_1x), (''small-2x'', small_2x),
             (''medium-1x'', medium_1x), (''medium-2x'', medium_2x),
             (''large-1x'', large_1x), (''large-2x'', large_2x)] s"

fun preset_key :: "MachinePresetName \<Rightarrow> string" where
  "preset_key micro = ''micro''"
| "preset_key small_1x = ''small-1x''"
| "preset_key small_2x = ''small-2x''"
| "preset_key medium_1x = ''medium-1x''"
| "preset_key medium_2x = ''medium-2x''"
| "preset_key large_1x = ''large-1x''"
| "preset_key large_2x = ''large-2x''"

record MachinePreset =
  mp_name :: MachinePresetName
  mp_cpu :: rat
  mp_memory :: rat
  mp_centsPerMs :: rat

type_synonym machines = "(string \<times> MachinePreset) list"

text \<open>A machine configuration that \<open>MachineConfig.safeParse\<close> accepts.\<close>

record MachineConfig =
  mc_cpu :: "rat option"
  mc_memory :: "rat option"
  mc_preset :: "MachinePresetName option"

text \<open>The spread of an entry the object does not have is an object without fields: \<open>None\<close>.\<close>

definition machinePresetFromName :: "machines \<Rightarrow> string \<Rightarrow> MachinePreset option" where
  "machinePresetFromName machines name = map_of machines name"

fun derivePresetNameFromValues :: "machines \<Rightarrow> rat \<Rightarrow> rat \<Rightarrow> string option" where
  "derivePresetNameFromValues [] cpu memory = None"
| "derivePresetNameFromValues ((name, preset) # machines) cpu memory =
     (if mp_cpu preset \<ge> cpu \<and> mp_memory preset \<ge> memory then Some name
      else derivePresetNameFromValues machines cpu memory)"

text \<open>\<open>config\<close> is \<open>None\<close> where it does not parse. A cpu or memory of 0 counts as absent.\<close>

definition positive :: "rat option \<Rightarrow> rat option" where
  "positive x = (case x of None \<Rightarrow> None | Some v \<Rightarrow> if v = 0 then None else Some v)"

definition getMachinePreset ::
    "string \<Rightarrow> machines \<Rightarrow> MachineConfig option \<Rightarrow> string option \<Rightarrow> MachinePreset option" where
  "getMachinePreset defaultMachine machines config machinePreset =
     (case (case machinePreset of None \<Rightarrow> None | Some s \<Rightarrow> if s = [] then None else Some s) of
        Some s \<Rightarrow>
          (case parseMachinePresetName s of
             None \<Rightarrow> machinePresetFromName machines defaultMachine
           | Some p \<Rightarrow> machinePresetFromName machines (preset_key p))
      | None \<Rightarrow>
          (case config of
             None \<Rightarrow> machinePresetFromName machines ''small-1x''
           | Some c \<Rightarrow>
               (case mc_preset c of
                  Some p \<Rightarrow> machinePresetFromName machines (preset_key p)
                | None \<Rightarrow>
                    (case (positive (mc_cpu c), positive (mc_memory c)) of
                       (Some cpu, Some memory) \<Rightarrow>
                         (case derivePresetNameFromValues machines cpu memory of
                            None \<Rightarrow> machinePresetFromName machines defaultMachine
                          | Some name \<Rightarrow> machinePresetFromName machines name)
                     | _ \<Rightarrow> machinePresetFromName machines ''small-1x''))))"

lemma parse_preset_key [simp]: "parseMachinePresetName (preset_key p) = Some p"
  by (cases p) (simp_all add: parseMachinePresetName_def)

lemma parseMachinePresetName_Some: "parseMachinePresetName s = Some p \<Longrightarrow> s = preset_key p"
  by (auto simp: parseMachinePresetName_def split: if_splits)

lemma derive_satisfies:
  "derivePresetNameFromValues machines cpu memory = Some name \<Longrightarrow> distinct (map fst machines) \<Longrightarrow>
   \<exists>p. machinePresetFromName machines name = Some p \<and> mp_cpu p \<ge> cpu \<and> mp_memory p \<ge> memory"
proof (induction machines)
  case (Cons m machines)
  show ?case
  proof (cases "mp_cpu (snd m) \<ge> cpu \<and> mp_memory (snd m) \<ge> memory")
    case True
    with Cons.prems show ?thesis
      by (cases m) (simp add: machinePresetFromName_def)
  next
    case False
    with Cons.prems have d: "derivePresetNameFromValues machines cpu memory = Some name"
      by (cases m) (auto split: if_splits)
    from Cons.IH [OF d] Cons.prems(2) obtain p where
      "map_of machines name = Some p" "mp_cpu p \<ge> cpu" "mp_memory p \<ge> memory"
      by (auto simp: machinePresetFromName_def)
    moreover from this(1) have "name \<in> fst ` set machines"
      by (metis map_of_eq_None_iff option.distinct(1))
    ultimately show ?thesis using Cons.prems(2)
      by (cases m) (auto simp: machinePresetFromName_def)
  qed
qed simp

lemma derive_None:
  "derivePresetNameFromValues machines cpu memory = None \<longleftrightarrow>
   (\<forall>(name, p) \<in> set machines. mp_cpu p < cpu \<or> mp_memory p < memory)"
proof (induction machines)
  case (Cons m machines)
  then show ?case by (cases m) (auto simp: not_le)
qed simp

text \<open>A derived preset is the first in the order of the configuration that is large enough.\<close>

lemma derive_first:
  "derivePresetNameFromValues machines cpu memory = Some name \<Longrightarrow>
   \<exists>xs p ys. machines = xs @ (name, p) # ys \<and>
     derivePresetNameFromValues xs cpu memory = None \<and> mp_cpu p \<ge> cpu \<and> mp_memory p \<ge> memory"
proof (induction machines)
  case (Cons m machines)
  show ?case
  proof (cases "mp_cpu (snd m) \<ge> cpu \<and> mp_memory (snd m) \<ge> memory")
    case True
    with Cons.prems show ?thesis
      by (intro exI [of _ "[]"] exI [of _ "snd m"] exI [of _ machines]) (cases m, simp)
  next
    case False
    with Cons.prems have "derivePresetNameFromValues machines cpu memory = Some name"
      by (cases m) (auto split: if_splits)
    from Cons.IH [OF this] obtain xs p ys where
      "machines = xs @ (name, p) # ys" "derivePresetNameFromValues xs cpu memory = None"
      "mp_cpu p \<ge> cpu" "mp_memory p \<ge> memory"
      by blast
    with False show ?thesis
      by (intro exI [of _ "m # xs"] exI [of _ p] exI [of _ ys]) (cases m, auto)
  qed
qed simp

section \<open>Usage\<close>

definition MAX_INT4 :: int where "MAX_INT4 = 2147483647"

text \<open>
  \<open>#calculateUpdatedUsage\<close>. The preset name of a run is used unchecked; an unknown one has no
  price, and the cost becomes \<open>NaN\<close>, as it does when it was \<open>NaN\<close> before.
\<close>

definition calculateUpdatedUsage ::
    "string \<Rightarrow> machines \<Rightarrow> int \<Rightarrow> rat option \<Rightarrow> int \<Rightarrow> string option \<Rightarrow> RuntimeEnvironmentType
     \<Rightarrow> int \<times> rat option" where
  "calculateUpdatedUsage defaultMachine machines currentUsage currentCost attemptDurationMs presetName env =
     (let total = currentUsage + attemptDurationMs;
          usage = (if total > MAX_INT4 then MAX_INT4 else total);
          preset = machinePresetFromName machines
            (case presetName of None \<Rightarrow> defaultMachine | Some s \<Rightarrow> if s = [] then defaultMachine else s);
          cost = (if env \<noteq> DEVELOPMENT
                  then (case (currentCost, preset) of
                          (Some c, Some p) \<Rightarrow> Some (c + of_int attemptDurationMs * mp_centsPerMs p)
                        | _ \<Rightarrow> None)
                  else currentCost)
      in (usage, cost))"

lemma usage_bounded: "fst (calculateUpdatedUsage d ms u c a n e) \<le> MAX_INT4"
  by (simp add: calculateUpdatedUsage_def Let_def)

lemma usage_mono:
  "u \<le> MAX_INT4 \<Longrightarrow> 0 \<le> a \<Longrightarrow> u \<le> fst (calculateUpdatedUsage d ms u c a n e)"
  by (simp add: calculateUpdatedUsage_def Let_def)

lemma usage_exact:
  "u + a \<le> MAX_INT4 \<Longrightarrow> fst (calculateUpdatedUsage d ms u c a n e) = u + a"
  by (simp add: calculateUpdatedUsage_def Let_def)

lemma cost_development [simp]:
  "snd (calculateUpdatedUsage d ms u c a n DEVELOPMENT) = c"
  by (simp add: calculateUpdatedUsage_def Let_def)

section \<open>Properties\<close>

definition priced :: "machines \<Rightarrow> bool" where
  "priced machines = (\<forall>(name, p) \<in> set machines. 0 \<le> mp_centsPerMs p)"

text \<open>
  A machine is always found and is large enough: with a default machine and the machine
  \<open>small-1x\<close> configured, and every known preset name configured that a run or a task may name,
  \<open>getMachinePreset\<close> returns a configured preset; and when it derives one from a task's cpu and
  memory, the preset has at least that much of both unless no machine has.
\<close>

theorem machine_preset_sound:
  assumes "distinct (map fst machines)" "defaultMachine \<in> fst ` set machines"
    and "\<And>p. preset_key p \<in> fst ` set machines"
  shows "(case getMachinePreset defaultMachine machines config preset of
            None \<Rightarrow> False | Some p \<Rightarrow> p \<in> snd ` set machines)
    \<and> (case getMachinePreset defaultMachine machines
              (Some \<lparr>mc_cpu = Some cpu, mc_memory = Some mem, mc_preset = None\<rparr>) None of
         None \<Rightarrow> False
       | Some p \<Rightarrow> cpu = 0 \<or> mem = 0 \<or> (cpu \<le> mp_cpu p \<and> mem \<le> mp_memory p)
           \<or> list_all (\<lambda>(_, m). mp_cpu m < cpu \<or> mp_memory m < mem) machines)"
proof -
  have found: "\<exists>p. machinePresetFromName machines n = Some p \<and> p \<in> snd ` set machines"
    if n: "n \<in> fst ` set machines" for n
  proof -
    from n obtain p where "map_of machines n = Some p"
      by (metis map_of_eq_None_iff option.exhaust)
    then show ?thesis by (force simp: machinePresetFromName_def dest: map_of_SomeD)
  qed
  have derived: "n \<in> fst ` set machines"
    if "derivePresetNameFromValues machines c m = Some n" for n c m
    using derive_first [OF that] by force
  have known: "\<exists>p. machinePresetFromName machines (preset_key k) = Some p \<and> p \<in> snd ` set machines" for k
    using assms(3) by (rule found)
  have "\<exists>p. getMachinePreset defaultMachine machines config preset = Some p \<and> p \<in> snd ` set machines"
    using found [OF assms(2)] known [of small_1x] known found [OF derived]
    by (simp add: getMachinePreset_def split: option.split prod.split)
  moreover have "\<exists>p. getMachinePreset defaultMachine machines
      (Some \<lparr>mc_cpu = Some cpu, mc_memory = Some mem, mc_preset = None\<rparr>) None = Some p
      \<and> (cpu = 0 \<or> mem = 0 \<or> (cpu \<le> mp_cpu p \<and> mem \<le> mp_memory p)
        \<or> list_all (\<lambda>(_, m). mp_cpu m < cpu \<or> mp_memory m < mem) machines)"
  proof (cases "cpu = 0 \<or> mem = 0")
    case True
    with known [of small_1x] show ?thesis
      by (auto simp: getMachinePreset_def positive_def)
  next
    case False
    show ?thesis
    proof (cases "derivePresetNameFromValues machines cpu mem")
      case None
      with False found [OF assms(2)] show ?thesis
        using derive_None [of machines cpu mem]
        by (auto simp: getMachinePreset_def positive_def list_all_iff)
    next
      case (Some n)
      with False derive_satisfies [OF Some assms(1)] show ?thesis
        by (auto simp: getMachinePreset_def positive_def)
    qed
  qed
  ultimately show ?thesis by (elim exE conjE) (simp del: mem_Collect_eq)
qed

definition example_machines :: machines where
  "example_machines = map (\<lambda>(n, c, m). (preset_key n, \<lparr>mp_name = n, mp_cpu = c, mp_memory = m, mp_centsPerMs = c / 1000\<rparr>))
     [(micro, 1/4, 1/4), (small_1x, 1/2, 1/2), (small_2x, 1, 1), (medium_1x, 1, 2), (medium_2x, 2, 4),
      (large_1x, 4, 8), (large_2x, 8, 16)]"

lemma example_machines_keys:
  "map fst example_machines = map preset_key [micro, small_1x, small_2x, medium_1x, medium_2x, large_1x, large_2x]"
  by (simp add: example_machines_def)

lemma example_machines_all: "preset_key p \<in> fst ` set example_machines"
proof -
  have "fst ` set example_machines = set (map fst example_machines)" by simp
  then show ?thesis unfolding example_machines_keys by (cases p) simp_all
qed

theorem machine_preset_sound_witness:
  "(case getMachinePreset ''small-1x'' example_machines
              (Some \<lparr>mc_cpu = Some 1, mc_memory = Some 2, mc_preset = None\<rparr>) None of
         None \<Rightarrow> False
       | Some p \<Rightarrow> (1::rat) = 0 \<or> (2::rat) = 0 \<or> (1 \<le> mp_cpu p \<and> 2 \<le> mp_memory p)
           \<or> list_all (\<lambda>(_, m). mp_cpu m < 1 \<or> mp_memory m < 2) example_machines)"
  using machine_preset_sound [of example_machines "''small-1x''", OF _ _ example_machines_all,
      where cpu = 1 and mem = 2 and config = None and preset = None]
    example_machines_all [of small_1x] by (simp add: example_machines_keys)

text \<open>
  The accumulated usage of a run stays a Postgres integer over any sequence of attempts, is the
  exact sum as long as that fits, and a development environment is never charged.
\<close>

theorem usage_stays_int4:
  "let after = foldl (\<lambda>(u, c) a. calculateUpdatedUsage defaultMachine machines u c a preset env) (0, cost) ds
   in fst after \<le> MAX_INT4
    \<and> (list_all (\<lambda>d. 0 \<le> d) ds \<and> sum_list ds \<le> MAX_INT4 \<longrightarrow> fst after = sum_list ds)
    \<and> (env = DEVELOPMENT \<longrightarrow> snd after = cost)"
proof -
  define step where "step = (\<lambda>(u, c) a. calculateUpdatedUsage defaultMachine machines u c a preset env)"
  have bounded: "fst (foldl step s ds) \<le> MAX_INT4" if "fst s \<le> MAX_INT4" for s ds
    using that
  proof (induction ds arbitrary: s)
    case (Cons d ds)
    have "fst (step s d) \<le> MAX_INT4"
      by (cases s) (simp add: step_def usage_bounded)
    with Cons.IH [of "step s d"] show ?case by simp
  qed simp
  have exact: "fst (foldl step s ds) = fst s + sum_list ds"
    if "0 \<le> fst s" "list_all (\<lambda>d. 0 \<le> d) ds" "fst s + sum_list ds \<le> MAX_INT4" for s ds
    using that
  proof (induction ds arbitrary: s)
    case (Cons d ds)
    then have "0 \<le> sum_list ds" by (auto simp: list_all_iff intro: sum_list_nonneg)
    with Cons.prems have "fst (step s d) = fst s + d"
      by (cases s) (simp add: step_def usage_exact)
    with Cons show ?case by simp
  qed simp
  have free: "snd (foldl step s ds) = snd s" if "env = DEVELOPMENT" for s ds
    using that by (induction ds arbitrary: s) (auto simp: step_def)
  have "foldl (\<lambda>(u, c) a. calculateUpdatedUsage defaultMachine machines u c a preset env) (0, cost) ds
      = foldl step (0, cost) ds"
    by (simp add: step_def)
  with bounded [of "(0, cost)" ds] exact [of "(0, cost)" ds] free [of "(0, cost)" ds] show ?thesis
    by (simp add: Let_def MAX_INT4_def)
qed

theorem usage_stays_int4_witness:
  "fst (foldl (\<lambda>(u, c) a. calculateUpdatedUsage ''small-1x'' example_machines u c a None PRODUCTION)
     (0, Some 0) [2147483000, 647]) = 2147483647"
  using usage_stays_int4 [of "''small-1x''" example_machines None PRODUCTION "Some 0" "[2147483000, 647]"]
  by (simp add: MAX_INT4_def Let_def case_prod_unfold del: foldl_Cons)

end
