(* ===== verification/Retrying.thy ===== *)
theory Retrying
  imports Complex_Main TaskErrors RetryDelay
begin

text \<open>
  What follows a failed attempt: \<open>retryOutcomeFromCompletion\<close> of \<open>engine/retrying.ts\<close>. It cancels
  the run, fails it, or retries it, at once or over the queue, on a larger machine after an
  out-of-memory error.

  The row the run store finds is an argument (\<open>None\<close> where there is none). The clock and
  \<open>Math.random()\<close> are arguments.
\<close>

definition MAX_TASK_RUN_ATTEMPTS :: int where "MAX_TASK_RUN_ATTEMPTS = 250"

text \<open>The JSON column \<open>lockedRetryConfig\<close>: absent or falsy, rejected by the schema, or parsed.\<close>

datatype locked_retry_config = no_config | invalid_config | config retry_options

record retry_run =
  rr_maxAttempts :: "int option"
  rr_lockedRetryConfig :: locked_retry_config
  rr_usageDurationMs :: int
  rr_costInCents :: "rat option"
  rr_machinePreset :: "string option"

record retry_settings =
  rs_timestamp :: int
  rs_delay :: int

datatype retry_method = via_queue | immediate

record retry_usage =
  ru_usageDurationMs :: int
  ru_costInCents :: "rat option"
  ru_machinePreset :: "string option"

text \<open>\<open>retry method settings machine wasOOMError usage\<close>.\<close>

datatype retry_outcome =
    cancel_run "string option"
  | fail_run task_run_error bool
  | retry retry_method retry_settings "string option" bool retry_usage

record oom_result =
  oom_machine :: string
  oom_retrySettings :: retry_options
  oom_usage :: retry_usage

definition usage_of :: "retry_run \<Rightarrow> retry_usage" where
  "usage_of run = \<lparr>ru_usageDurationMs = rr_usageDurationMs run, ru_costInCents = rr_costInCents run,
                   ru_machinePreset = rr_machinePreset run\<rparr>"

text \<open>A string that is absent or empty is falsy.\<close>

definition truthy :: "string option \<Rightarrow> string option" where
  "truthy x = (case x of None \<Rightarrow> None | Some s \<Rightarrow> if s = [] then None else Some s)"

definition retryOOMOnMachine :: "retry_run option \<Rightarrow> oom_result option" where
  "retryOOMOnMachine found =
     (case found of
        None \<Rightarrow> None
      | Some run \<Rightarrow>
          (case (rr_lockedRetryConfig run, truthy (rr_machinePreset run)) of
             (config c, Some preset) \<Rightarrow>
               (case truthy (ro_oomMachine c) of
                  None \<Rightarrow> None
                | Some retryMachine \<Rightarrow>
                    if preset = retryMachine then None
                    else Some \<lparr>oom_machine = retryMachine, oom_retrySettings = c, oom_usage = usage_of run\<rparr>)
           | _ \<Rightarrow> None))"

text \<open>\<open>attemptNumber ?? 1\<close>.\<close>

definition attempt_or_first :: "int option \<Rightarrow> int" where
  "attempt_or_first attemptNumber = (case attemptNumber of None \<Rightarrow> 1 | Some n \<Rightarrow> n)"

text \<open>\<open>if (!delay)\<close>: a delay of 0 is treated like none.\<close>

definition nonzero :: "int option \<Rightarrow> int option" where
  "nonzero x = (case x of None \<Rightarrow> None | Some d \<Rightarrow> if d = 0 then None else Some d)"

text \<open>\<open>!run.maxAttempts\<close>.\<close>

definition retryOutcomeFromCompletion ::
    "rat \<Rightarrow> int \<Rightarrow> retry_run option \<Rightarrow> int option \<Rightarrow> task_run_error \<Rightarrow> bool \<Rightarrow> retry_settings option
     \<Rightarrow> string + retry_outcome" where
  "retryOutcomeFromCompletion rnd now found attemptNumber error retryUsingQueue retrySettings =
     (let sanitizedError = sanitizeError error;
          enhancedError = fst (taskRunErrorEnhancer error)
      in case error of
           INTERNAL_ERROR TASK_RUN_CANCELLED message _ \<Rightarrow> Inr (cancel_run message)
         | _ \<Rightarrow>
       if isOOMRunError error
       then (case retryOOMOnMachine found of
               None \<Rightarrow> Inr (fail_run sanitizedError True)
             | Some oom \<Rightarrow>
                 (case nonzero (calculateNextRetryDelay rnd (oom_retrySettings oom) (attempt_or_first attemptNumber)) of
                    None \<Rightarrow> Inr (fail_run sanitizedError True)
                  | Some delay \<Rightarrow>
                      Inr (retry via_queue \<lparr>rs_timestamp = now + delay, rs_delay = delay\<rparr>
                             (Some (oom_machine oom)) True (oom_usage oom))))
       else if \<not> shouldRetryError enhancedError then Inr (fail_run sanitizedError False)
       else if (case attemptNumber of None \<Rightarrow> False | Some k \<Rightarrow> k > MAX_TASK_RUN_ATTEMPTS)
       then Inr (fail_run sanitizedError False)
       else (case found of
               None \<Rightarrow> Inl ''Run not found''
             | Some run \<Rightarrow>
                 (case nonzero (rr_maxAttempts run) of
                    None \<Rightarrow> Inr (fail_run sanitizedError False)
                  | Some maxAttempts \<Rightarrow>
                      if (case attemptNumber of None \<Rightarrow> False | Some k \<Rightarrow> k \<ge> maxAttempts)
                      then Inr (fail_run sanitizedError False)
                      else (case retrySettings of
                              Some settings \<Rightarrow>
                                Inr (retry (if retryUsingQueue then via_queue else immediate) settings None False
                                       (usage_of run))
                            | None \<Rightarrow>
                                if \<not> shouldLookupRetrySettings enhancedError
                                then Inr (fail_run sanitizedError False)
                                else (case rr_lockedRetryConfig run of
                                        config c \<Rightarrow>
                                          (case nonzero (calculateNextRetryDelay rnd c (attempt_or_first attemptNumber)) of
                                             None \<Rightarrow> Inr (fail_run sanitizedError False)
                                           | Some d \<Rightarrow>
                                               Inr (retry via_queue \<lparr>rs_timestamp = now + d, rs_delay = d\<rparr> None False
                                                      (usage_of run)))
                                      | _ \<Rightarrow> Inr (fail_run sanitizedError False))))))"

section \<open>Properties\<close>

lemma retryOOMOnMachine_Some:
  "retryOOMOnMachine found = Some oom \<longleftrightarrow>
   (\<exists>run c. found = Some run \<and> rr_lockedRetryConfig run = config c \<and>
      truthy (ro_oomMachine c) = Some (oom_machine oom) \<and> truthy (rr_machinePreset run) \<noteq> None \<and>
      rr_machinePreset run \<noteq> Some (oom_machine oom) \<and>
      oom_retrySettings oom = c \<and> oom_usage oom = usage_of run)"
  by (cases oom) (auto simp: retryOOMOnMachine_def truthy_def split: option.splits locked_retry_config.splits if_splits)

lemma nonzero_Some [simp]: "nonzero x = Some d \<longleftrightarrow> x = Some d \<and> d \<noteq> 0"
  by (auto simp: nonzero_def split: option.splits)

lemma delay_SomeD:
  "calculateNextRetryDelay rnd c n = Some d \<Longrightarrow> n < or_default (ro_maxAttempts c) default_maxAttempts"
  using calculateNextRetryDelay_None [of rnd c n] by force

lemma retry_cases:
  assumes "retryOutcomeFromCompletion rnd now found n error q s = Inr (retry m settings machine oom usage)"
  obtains (oom) r where "isOOMRunError error" "retryOOMOnMachine found = Some r" "m = via_queue" "oom"
      "machine = Some (oom_machine r)" "usage = oom_usage r"
      "calculateNextRetryDelay rnd (oom_retrySettings r) (attempt_or_first n) = Some (rs_delay settings)"
      "rs_timestamp settings = now + rs_delay settings"
  | (other) run maxAttempts where "\<not> isOOMRunError error" "found = Some run" "\<not> oom" "machine = None"
      "shouldRetryError (fst (taskRunErrorEnhancer error))" "rr_maxAttempts run = Some maxAttempts"
      "case n of None \<Rightarrow> True | Some k \<Rightarrow> k < maxAttempts \<and> k \<le> MAX_TASK_RUN_ATTEMPTS" "usage = usage_of run"
proof -
  from assms have "error \<noteq> INTERNAL_ERROR TASK_RUN_CANCELLED a b" for a b
    by (auto simp: retryOutcomeFromCompletion_def Let_def)
  then have plain: "(case error of INTERNAL_ERROR TASK_RUN_CANCELLED message _ \<Rightarrow> (x message :: 'z) | _ \<Rightarrow> y) = y" for x y
    by (auto split: task_run_error.split error_code.split)
  show thesis
  proof (cases "isOOMRunError error")
    case True
    with assms show ?thesis
      unfolding retryOutcomeFromCompletion_def Let_def plain
      by (auto split: option.splits intro!: oom)
  next
    case False
    with assms show ?thesis
      unfolding retryOutcomeFromCompletion_def Let_def plain
      by (auto split: option.splits if_splits locked_retry_config.splits intro!: other)
  qed
qed

text \<open>
  A failed attempt is retried only when it may be: after an out-of-memory error only over the
  queue, on a machine the task names that differs from the run's, and with attempts of the
  task's retry configuration left; after any other error only when the error is retriable and
  the attempt is below both the run's maximum and the global one. The totals a retry carries
  are those of the run's row.
\<close>

theorem retry_only_with_attempts_left:
  assumes "retryOutcomeFromCompletion rnd now found n error q s = Inr (retry m settings machine oom usage)"
  shows "oom = isOOMRunError error
    \<and> (case found of None \<Rightarrow> False
       | Some run \<Rightarrow>
           usage = usage_of run
           \<and> (if oom then
                m = via_queue \<and> machine \<noteq> None \<and> machine \<noteq> rr_machinePreset run
                \<and> (case rr_lockedRetryConfig run of
                     config c \<Rightarrow> machine = ro_oomMachine c
                       \<and> attempt_or_first n < or_default (ro_maxAttempts c) default_maxAttempts
                   | _ \<Rightarrow> False)
              else
                machine = None \<and> shouldRetryError (fst (taskRunErrorEnhancer error))
                \<and> (case rr_maxAttempts run of None \<Rightarrow> False
                   | Some maxAttempts \<Rightarrow>
                       (case n of None \<Rightarrow> True
                        | Some k \<Rightarrow> k < maxAttempts \<and> k \<le> MAX_TASK_RUN_ATTEMPTS))))"
  using assms
proof (cases rule: retry_cases)
  case (oom r)
  then obtain run c where run: "found = Some run" "rr_lockedRetryConfig run = config c"
    "truthy (ro_oomMachine c) = Some (oom_machine r)" "rr_machinePreset run \<noteq> Some (oom_machine r)"
    "oom_retrySettings r = c" "oom_usage r = usage_of run"
    unfolding retryOOMOnMachine_Some by blast
  moreover have "ro_oomMachine c = Some (oom_machine r)"
    using run(3) by (auto simp: truthy_def split: option.splits if_splits)
  ultimately show ?thesis
    using oom by (auto dest: delay_SomeD)
next
  case (other run maxAttempts)
  then show ?thesis by simp
qed

definition example_run :: retry_run where
  "example_run = \<lparr>rr_maxAttempts = Some 3, rr_lockedRetryConfig = config plain_options, rr_usageDurationMs = 7,
     rr_costInCents = Some 0, rr_machinePreset = Some ''small-1x''\<rparr>"

theorem retry_only_with_attempts_left_witness:
  "retryOutcomeFromCompletion 0 0 (Some example_run) (Some 1) (STRING_ERROR ''boom'') False
       (Some \<lparr>rs_timestamp = 5, rs_delay = 5\<rparr>)
     = Inr (retry immediate \<lparr>rs_timestamp = 5, rs_delay = 5\<rparr> None False (usage_of example_run))
   \<and> shouldRetryError (fst (taskRunErrorEnhancer (STRING_ERROR ''boom'')))"
proof -
  have o: "retryOutcomeFromCompletion 0 0 (Some example_run) (Some 1) (STRING_ERROR ''boom'') False
       (Some \<lparr>rs_timestamp = 5, rs_delay = 5\<rparr>)
     = Inr (retry immediate \<lparr>rs_timestamp = 5, rs_delay = 5\<rparr> None False (usage_of example_run))"
    by (simp add: retryOutcomeFromCompletion_def Let_def example_run_def nonzero_def MAX_TASK_RUN_ATTEMPTS_def)
  with retry_only_with_attempts_left [OF o] show ?thesis by simp
qed

text \<open>
  A delay of zero means no retry: with a minimum timeout of 0 a run that has attempts left
  and whose crash is retriable fails instead of being retried, because a computed delay of 0
  is taken for the absence of one.
\<close>

theorem zero_delay_fails_run:
  assumes "\<not> isOOMRunError error" "shouldRetryError (fst (taskRunErrorEnhancer error))"
    and "shouldLookupRetrySettings (fst (taskRunErrorEnhancer error))"
    and "rr_lockedRetryConfig run = config c" "ro_minTimeoutInMs c = Some 0"
    and "0 \<le> or_default (ro_maxTimeoutInMs c) default_maxTimeoutInMs"
    and "rr_maxAttempts run = Some maxAttempts" "n < maxAttempts" "n \<le> MAX_TASK_RUN_ATTEMPTS"
    and "n < or_default (ro_maxAttempts c) default_maxAttempts"
  shows "calculateNextRetryDelay rnd c n = Some 0
    \<and> retryOutcomeFromCompletion rnd now (Some run) (Some n) error q None
        = Inr (fail_run (sanitizeError error) False)"
proof
  show zero: "calculateNextRetryDelay rnd c n = Some 0"
    using assms(5,6,10) js_round_of_int [of 0]
    by (simp add: calculateNextRetryDelay_def Let_def or_default_def)
  have "error \<noteq> INTERNAL_ERROR TASK_RUN_CANCELLED a b" for a b
    using assms(2) by (auto simp: getPrettyTaskRunError_def)
  with assms zero show "retryOutcomeFromCompletion rnd now (Some run) (Some n) error q None
      = Inr (fail_run (sanitizeError error) False)"
    unfolding retryOutcomeFromCompletion_def Let_def
    by (simp add: attempt_or_first_def nonzero_def split: option.split task_run_error.split error_code.split)
qed

theorem zero_delay_fails_run_witness:
  "retryOutcomeFromCompletion 0 0
      (Some (example_run\<lparr>rr_lockedRetryConfig := config (plain_options\<lparr>ro_minTimeoutInMs := Some 0\<rparr>)\<rparr>)) (Some 1)
      (INTERNAL_ERROR TASK_RUN_UNCAUGHT_EXCEPTION None None) False None
    = Inr (fail_run (INTERNAL_ERROR TASK_RUN_UNCAUGHT_EXCEPTION None None) False)"
proof -
  let ?run = "example_run\<lparr>rr_lockedRetryConfig := config (plain_options\<lparr>ro_minTimeoutInMs := Some 0\<rparr>)\<rparr>"
  show ?thesis
    using zero_delay_fails_run [of "INTERNAL_ERROR TASK_RUN_UNCAUGHT_EXCEPTION None None" ?run
        "plain_options\<lparr>ro_minTimeoutInMs := Some 0\<rparr>" 3 1 0 0 False]
    by (simp add: example_run_def plain_options_def or_default_def retry_defaults MAX_TASK_RUN_ATTEMPTS_def
        getPrettyTaskRunError_def)
qed

end
