(* ===== verification/EngineState.thy ===== *)
theory EngineState
  imports RunQueue Statuses Retrying Machines
begin

text \<open>
  The state of the run engine and the operations of its run store
  (\<open>internal-packages/run-store/src/PostgresRunStore.ts\<close>).

  \<open>world\<close> holds the tables the engine reads and writes (runs, execution snapshots, waitpoints,
  the edges between runs and waitpoints, checkpoints, batches), the jobs of the background worker by id,
  the Redis store of the run queue, the keys of the debounce system with the time each
  expires, the events emitted on the event bus, the clock and a
  counter that stands for the generator of ids. Snapshots are kept newest first, which is the
  order by creation time the source asks for. A table is a list of rows; a row's id is unique.

  The columns the engine neither reads nor rewrites (trace context, the schedule, the versions
  of SDK and CLI and the like) are left out. There is one database: the routing of a row to one of two databases, and
  replicas that lag, are not modelled. Every operation on a run that the source performs
  under the run's lock is one atomic step.

  A handler throws or returns and keeps what was written before an exception;
  \<open>runInTransaction\<close> undoes it.
\<close>

section \<open>Rows\<close>

datatype waitpoint_status = WP_PENDING | WP_COMPLETED

datatype waitpoint_type = WP_RUN | WP_DATETIME | WP_MANUAL | WP_BATCH

record waitpoint =
  wp_id :: string
  wp_type :: waitpoint_type
  wp_status :: waitpoint_status
  wp_idempotencyKey :: string
  wp_userProvidedIdempotencyKey :: bool
  wp_idempotencyKeyExpiresAt :: "int option"
  wp_inactiveIdempotencyKey :: "string option"
  wp_environmentId :: string
  wp_projectId :: string
  wp_completedAt :: "int option"
  wp_completedAfter :: "int option"
  wp_completedByTaskRunId :: "string option"
  wp_completedByBatchId :: "string option"
  wp_output :: "string option"
  wp_outputType :: string
  wp_outputIsError :: bool

text \<open>A row of \<open>TaskRunWaitpoint\<close>: a run is blocked by a waitpoint.\<close>

record edge =
  eg_id :: string
  eg_taskRunId :: string
  eg_waitpointId :: string
  eg_projectId :: string
  eg_spanIdToComplete :: "string option"
  eg_batchId :: "string option"
  eg_batchIndex :: "int option"
  eg_createdAt :: int

record snapshot =
  sn_id :: string
  sn_runId :: string
  sn_executionStatus :: TaskRunExecutionStatus
  sn_description :: string
  sn_metadata :: "string option"
  sn_runStatus :: TaskRunStatus
  sn_attemptNumber :: "int option"
  sn_previousSnapshotId :: "string option"
  sn_batchId :: "string option"
  sn_environmentId :: string
  sn_environmentType :: RuntimeEnvironmentType
  sn_projectId :: string
  sn_organizationId :: string
  sn_checkpointId :: "string option"
  sn_workerId :: "string option"
  sn_runnerId :: "string option"
  sn_completedWaitpointOrder :: "string list"
  sn_completedWaitpointIds :: "string list"
  sn_isValid :: bool
  sn_error :: "string option"
  sn_createdAt :: int

text \<open>What a run was triggered with and a debounced trigger may rewrite, and its unique keys.\<close>

record run_data =
  rd_idempotencyKey :: "string option"
  rd_oneTimeUseToken :: "string option"
  rd_payload :: string
  rd_payloadType :: string
  rd_metadata :: "string option"
  rd_metadataType :: string
  rd_runTags :: "string list"
  rd_maxDurationInSeconds :: "int option"

text \<open>\<open>tr_externalDeploymentId\<close> is the annotation of that name, where it is a string.\<close>

record run =
  tr_id :: string
  tr_status :: TaskRunStatus
  tr_statusReason :: "string option"
  tr_taskIdentifier :: string
  tr_attemptNumber :: "int option"
  tr_lockedAt :: "int option"
  tr_lockedById :: "string option"
  tr_lockedToVersionId :: "string option"
  tr_lockedQueueId :: "string option"
  tr_ttl :: "string option"
  tr_batchId :: "string option"
  tr_runtimeEnvironmentId :: string
  tr_projectId :: string
  tr_organizationId :: "string option"
  tr_parentTaskRunId :: "string option"
  tr_queue :: string
  tr_concurrencyKey :: "string option"
  tr_workerQueue :: string
  tr_queueTimestamp :: "int option"
  tr_createdAt :: int
  tr_queuedAt :: "int option"
  tr_priorityMs :: int
  tr_delayUntil :: "int option"
  tr_maxAttempts :: "int option"
  tr_lockedRetryConfig :: locked_retry_config
  tr_machinePreset :: "string option"
  tr_usageDurationMs :: int
  tr_costInCents :: "rat option"
  tr_output :: "string option"
  tr_outputType :: string
  tr_error :: "task_run_error option"
  tr_startedAt :: "int option"
  tr_executedAt :: "int option"
  tr_completedAt :: "int option"
  tr_expiredAt :: "int option"
  tr_isWarmStart :: bool
  tr_bulkActionGroupIds :: "string list"
  tr_externalDeploymentId :: "string option"
  tr_data :: run_data

record checkpoint =
  cp_id :: string
  cp_type :: string
  cp_location :: string
  cp_imageRef :: "string option"
  cp_reason :: "string option"
  cp_environmentId :: string
  cp_projectId :: string

datatype BatchTaskRunStatus = BATCH_PENDING | BATCH_PROCESSING | BATCH_COMPLETED | BATCH_PARTIAL_FAILED | BATCH_ABORTED

record batch =
  bt_id :: string
  bt_friendlyId :: string
  bt_status :: BatchTaskRunStatus
  bt_sealed :: bool
  bt_batchVersion :: string
  bt_runtimeEnvironmentId :: string
  bt_runCount :: int
  bt_expectedCount :: int
  bt_processingJobsCount :: int
  bt_successfulRunCount :: "int option"
  bt_failedRunCount :: "int option"
  bt_completedAt :: "int option"
  bt_processingCompletedAt :: "int option"
  bt_processingStartedAt :: "int option"
  bt_sealedAt :: "int option"
  bt_runIds :: "string list"

section \<open>Jobs, events and the world\<close>

text \<open>The jobs of \<open>engine/workerCatalog.ts\<close> the modelled systems enqueue.\<close>

datatype job_payload =
    finishWaitpoint string "string option"
  | heartbeatSnapshot string string "nat option"
  | expireRunJob string
  | cancelRunJob string int string
  | tryCompleteBatchJob string
  | expireBatchJob string
  | continueRunIfUnblockedJob string
  | enqueueDelayedRunJob string
  | queueRunsPendingVersionJob string "nat option"
  | expireParkedExternalDeploymentRunJob string string

record job =
  jb_payload :: job_payload
  jb_availableAt :: int

datatype event =
    runCreated string
  | executionSnapshotCreated string string "string list"
  | workerNotification string string
  | cachedRunCompleted string string bool "string option"
  | runLocked string
  | runAttemptStarted string int
  | runAttemptFailed string task_run_error int
  | runRetryScheduled string int int "string option"
  | runSucceeded string "string option"
  | runFailed string TaskRunStatus task_run_error
  | runCancelled string
  | runExpired string
  | runStatusChanged string TaskRunStatus
  | runEnqueuedAfterDelay string
  | runDelayRescheduled string int
  | incomingCheckpointDiscarded string string

record world =
  en_runs :: "run list"
  en_snapshots :: "snapshot list"
  en_waitpoints :: "waitpoint list"
  en_edges :: "edge list"
  en_checkpoints :: "checkpoint list"
  en_batches :: "batch list"
  en_jobs :: "string \<Rightarrow> job option"
  en_redis :: "message redis"
  en_debounce :: "string \<Rightarrow> (string \<times> int) option"
  en_events :: "event list"
  en_now :: int
  en_fresh :: nat

text \<open>
  The status of a service error that gives none is \<open>0\<close>. \<open>UniqueConstraint\<close> is Prisma's error
  P2002 with the fields of the constraint.
\<close>

datatype engine_error =
    ServiceValidationError string nat
  | Error string
  | RecordNotFound
  | NotImplementedError string
  | RunDuplicateIdempotencyKeyError string
  | RunOneTimeUseTokenError string
  | UniqueConstraint "string list"
  | OutOfFuel

type_synonym 'a engine = "(world, engine_error, 'a) handler"

section \<open>Configuration\<close>

record heartbeat_timeouts =
  ht_PENDING_EXECUTING :: int
  ht_PENDING_CANCEL :: int
  ht_EXECUTING :: int
  ht_EXECUTING_WITH_WAITPOINTS :: int
  ht_SUSPENDED :: int

text \<open>\<open>suspendedHeartbeatRetriesConfig\<close>.\<close>

record suspended_retries =
  sr_maxCount :: "nat option"
  sr_maxDelayMs :: "int option"
  sr_initialDelayMs :: "int option"
  sr_factor :: "rat option"

text \<open>
  What the control plane knows of a background worker (\<open>engine/controlPlaneResolver.ts\<close>): its
  tasks, its queues and its deployment with the reference of its image. The configurations are
  as parsed: a machine configuration that is null is the empty one, \<open>None\<close> one the schema
  rejects.
\<close>

record worker_task =
  wt_id :: string
  wt_slug :: string
  wt_machineConfig :: "MachineConfig option"
  wt_retryConfig :: locked_retry_config

record task_queue =
  tq_id :: string
  tq_name :: string

record worker_deployment =
  wd_id :: string
  wd_imageReference :: "string option"

record worker_version =
  wv_workerId :: string
  wv_tasks :: "worker_task list"
  wv_queues :: "task_queue list"
  wv_deployment :: "worker_deployment option"

text \<open>What a worker version is looked up by: environment, type, worker, task and queue.\<close>

record worker_lookup =
  wl_environmentId :: string
  wl_type :: RuntimeEnvironmentType
  wl_workerId :: "string option"
  wl_taskIdentifier :: string
  wl_lockedQueueId :: "string option"
  wl_queueName :: string

text \<open>
  The options of the engine, with the control plane's resolution of an environment and the
  random number of a backoff and the package \<open>humanize-duration\<close> as a function of the
  milliseconds and the units; further whether an environment is archived, the resolution of a
  worker version, and the version of the newest worker that has a task of a name, for a
  project and an environment.
\<close>

record engine_options =
  eo_queue :: queue_options
  eo_resolveEnv :: "string \<Rightarrow> environment option"
  eo_archived :: "string \<Rightarrow> bool"
  eo_resolveWorkerVersion :: "worker_lookup \<Rightarrow> worker_version option"
  eo_knownTask :: "string \<Rightarrow> string \<Rightarrow> string \<Rightarrow> string option"
  eo_heartbeats :: heartbeat_timeouts
  eo_defaultMachine :: string
  eo_machines :: machines
  eo_retryWarmStartThresholdMs :: "int option"
  eo_random :: rat
  eo_humanizeDuration :: "int \<Rightarrow> string list \<Rightarrow> string"
  eo_treatProductionExecutionStallsAsOOM :: bool
  eo_suspendedHeartbeatRetries :: "suspended_retries option"
  eo_defaultMaxTtl :: "string option"

section \<open>Clock, ids, jobs, events, the queue\<close>

text \<open>\<open>new Date()\<close>.\<close>

definition the_time :: "int engine" where
  "the_time = reading en_now"

text \<open>An id no row has: a prefix and the counter.\<close>

definition fresh_id :: "string \<Rightarrow> string engine" where
  "fresh_id prefix w = (Inr (prefix @ nat_to_string (en_fresh w)), w\<lparr>en_fresh := en_fresh w + 1\<rparr>)"

text \<open>
  The background worker (\<open>packages/redis-worker/src/queue.ts\<close>): enqueueing under an id replaces
  the job of that id, rescheduling moves an existing one, acknowledging removes it.
\<close>

definition enqueueJob :: "string \<Rightarrow> job_payload \<Rightarrow> int \<Rightarrow> unit engine" where
  "enqueueJob i p t = modify (\<lambda>w. w\<lparr>en_jobs := (en_jobs w)(i := Some \<lparr>jb_payload = p, jb_availableAt = t\<rparr>)\<rparr>)"

text \<open>A job enqueued without an id gets a new one.\<close>

definition enqueueNewJob :: "job_payload \<Rightarrow> int \<Rightarrow> unit engine" where
  "enqueueNewJob p t w =
     (Inr (), w\<lparr>en_fresh := en_fresh w + 1,
        en_jobs := (en_jobs w)(''job_'' @ nat_to_string (en_fresh w) := Some \<lparr>jb_payload = p, jb_availableAt = t\<rparr>)\<rparr>)"

definition rescheduleJob :: "string \<Rightarrow> int \<Rightarrow> unit engine" where
  "rescheduleJob i t =
     modify (\<lambda>w. w\<lparr>en_jobs := (en_jobs w)(i := map_option (\<lambda>j. j\<lparr>jb_availableAt := t\<rparr>) (en_jobs w i))\<rparr>)"

definition ackJob :: "string \<Rightarrow> unit engine" where
  "ackJob i = modify (\<lambda>w. w\<lparr>en_jobs := (en_jobs w)(i := None)\<rparr>)"

definition emit :: "event \<Rightarrow> unit engine" where
  "emit e = modify (\<lambda>w. w\<lparr>en_events := en_events w @ [e]\<rparr>)"

text \<open>Runs an operation of the run queue on its store.\<close>

definition on_queue :: "(message redis \<Rightarrow> 'a \<times> message redis) \<Rightarrow> 'a engine" where
  "on_queue f w = (let (x, r) = f (en_redis w) in (Inr x, w\<lparr>en_redis := r\<rparr>))"

text \<open>\<open>runInTransaction\<close>: an exception undoes what the body wrote.\<close>

definition runInTransaction :: "'a engine \<Rightarrow> 'a engine" where
  "runInTransaction m w = (case m w of (Inl e, _) \<Rightarrow> (Inl e, w) | (Inr x, w') \<Rightarrow> (Inr x, w'))"

section \<open>The run store: runs\<close>

definition run_of :: "string \<Rightarrow> world \<Rightarrow> run option" where
  "run_of i w = List.find (\<lambda>t. tr_id t = i) (en_runs w)"

definition findRun :: "string \<Rightarrow> run option engine" where
  "findRun i = reading (run_of i)"

text \<open>\<open>taskRun.update\<close>, which throws when there is no such row, returns the new row.\<close>

definition updateTaskRun :: "string \<Rightarrow> (run \<Rightarrow> run) \<Rightarrow> run engine" where
  "updateTaskRun i f w =
     (case run_of i w of
        None \<Rightarrow> (Inl RecordNotFound, w)
      | Some t \<Rightarrow> (Inr (f t), w\<lparr>en_runs := map (\<lambda>t. if tr_id t = i then f t else t) (en_runs w)\<rparr>))"

text \<open>A field that is \<open>undefined\<close> in an update keeps its value.\<close>

definition keep :: "'a option \<Rightarrow> 'a \<Rightarrow> 'a" where
  "keep x old = (case x of None \<Rightarrow> old | Some v \<Rightarrow> v)"

definition startAttempt :: "string \<Rightarrow> int \<Rightarrow> int option \<Rightarrow> bool \<Rightarrow> run engine" where
  "startAttempt i attemptNumber executedAt isWarmStart =
     updateTaskRun i (\<lambda>t. t\<lparr>tr_status := TaskRunStatus.EXECUTING, tr_attemptNumber := Some attemptNumber,
       tr_executedAt := (case executedAt of None \<Rightarrow> tr_executedAt t | Some x \<Rightarrow> Some x),
       tr_isWarmStart := isWarmStart\<rparr>)"

definition recordRetryOutcome :: "string \<Rightarrow> string option \<Rightarrow> int \<Rightarrow> rat option \<Rightarrow> run engine" where
  "recordRetryOutcome i machine usage cost =
     updateTaskRun i (\<lambda>t. t\<lparr>tr_machinePreset := (case machine of None \<Rightarrow> tr_machinePreset t | Some m \<Rightarrow> Some m),
       tr_usageDurationMs := usage, tr_costInCents := cost\<rparr>)"

definition requeueRun :: "string \<Rightarrow> run engine" where
  "requeueRun i = updateTaskRun i (\<lambda>t. t\<lparr>tr_status := PENDING\<rparr>)"

definition recordBulkActionMembership :: "string \<Rightarrow> string \<Rightarrow> run engine" where
  "recordBulkActionMembership i bulk =
     updateTaskRun i (\<lambda>t. t\<lparr>tr_bulkActionGroupIds := tr_bulkActionGroupIds t @ [bulk]\<rparr>)"

text \<open>\<open>usage\<close> is the pair of the usage and the cost.\<close>

definition store_cancelRun ::
    "string \<Rightarrow> int option \<Rightarrow> task_run_error \<Rightarrow> string option \<Rightarrow> (int \<times> rat option) option \<Rightarrow> run engine" where
  "store_cancelRun i completedAt error bulk usage =
     updateTaskRun i (\<lambda>t. t\<lparr>tr_status := CANCELED,
       tr_completedAt := (case completedAt of None \<Rightarrow> tr_completedAt t | Some x \<Rightarrow> Some x),
       tr_error := Some error,
       tr_bulkActionGroupIds := tr_bulkActionGroupIds t @ (case bulk of None \<Rightarrow> [] | Some b \<Rightarrow> [b]),
       tr_usageDurationMs := (case usage of None \<Rightarrow> tr_usageDurationMs t | Some u \<Rightarrow> fst u),
       tr_costInCents := (case usage of None \<Rightarrow> tr_costInCents t | Some u \<Rightarrow> snd u)\<rparr>)"

definition failRunPermanently ::
    "string \<Rightarrow> TaskRunStatus \<Rightarrow> int \<Rightarrow> task_run_error \<Rightarrow> int \<Rightarrow> rat option \<Rightarrow> run engine" where
  "failRunPermanently i status completedAt error usage cost =
     updateTaskRun i (\<lambda>t. t\<lparr>tr_status := status, tr_completedAt := Some completedAt, tr_error := Some error,
       tr_usageDurationMs := usage, tr_costInCents := cost\<rparr>)"

definition suspendForCheckpoint :: "string \<Rightarrow> run engine" where
  "suspendForCheckpoint i = updateTaskRun i (\<lambda>t. t\<lparr>tr_status := WAITING_TO_RESUME\<rparr>)"

definition resumeFromCheckpoint :: "string \<Rightarrow> run engine" where
  "resumeFromCheckpoint i = updateTaskRun i (\<lambda>t. t\<lparr>tr_status := TaskRunStatus.EXECUTING\<rparr>)"

definition store_enqueueDelayedRun :: "string \<Rightarrow> int \<Rightarrow> run engine" where
  "store_enqueueDelayedRun i queuedAt =
     updateTaskRun i (\<lambda>t. t\<lparr>tr_status := PENDING, tr_queuedAt := Some queuedAt\<rparr>)"

text \<open>One statement over all the given runs; those that do not exist are skipped.\<close>

definition store_expireRunsBatch :: "string list \<Rightarrow> task_run_error \<Rightarrow> int \<Rightarrow> unit engine" where
  "store_expireRunsBatch ids error now =
     modify (\<lambda>w. w\<lparr>en_runs := map (\<lambda>t. if tr_id t \<in> set ids
       then t\<lparr>tr_status := EXPIRED, tr_completedAt := Some now, tr_expiredAt := Some now, tr_error := Some error\<rparr>
       else t) (en_runs w)\<rparr>)"

section \<open>The run store: snapshots\<close>

record snapshot_input =
  si_runId :: string
  si_runStatus :: TaskRunStatus
  si_attemptNumber :: "int option"
  si_executionStatus :: TaskRunExecutionStatus
  si_description :: string
  si_metadata :: "string option"
  si_previousSnapshotId :: "string option"
  si_batchId :: "string option"
  si_environmentId :: string
  si_environmentType :: RuntimeEnvironmentType
  si_projectId :: string
  si_organizationId :: string
  si_checkpointId :: "string option"
  si_workerId :: "string option"
  si_runnerId :: "string option"
  si_completedWaitpoints :: "(string \<times> int option) list"
  si_error :: "string option"

text \<open>The waitpoints with an index, by their index (a stable sort).\<close>

definition waitpoint_order :: "(string \<times> int option) list \<Rightarrow> string list" where
  "waitpoint_order ws = map fst (sort_key (\<lambda>x. the (snd x)) (filter (\<lambda>x. snd x \<noteq> None) ws))"

definition snapshot_row :: "string \<Rightarrow> int \<Rightarrow> snapshot_input \<Rightarrow> snapshot" where
  "snapshot_row i now x =
     \<lparr>sn_id = i, sn_runId = si_runId x, sn_executionStatus = si_executionStatus x,
      sn_description = si_description x, sn_metadata = si_metadata x,
      sn_runStatus = (if si_runStatus x = DEQUEUED then PENDING else si_runStatus x),
      sn_attemptNumber = si_attemptNumber x, sn_previousSnapshotId = si_previousSnapshotId x,
      sn_batchId = si_batchId x, sn_environmentId = si_environmentId x,
      sn_environmentType = si_environmentType x, sn_projectId = si_projectId x,
      sn_organizationId = si_organizationId x, sn_checkpointId = si_checkpointId x,
      sn_workerId = si_workerId x, sn_runnerId = si_runnerId x,
      sn_completedWaitpointOrder = waitpoint_order (si_completedWaitpoints x),
      sn_completedWaitpointIds = remdups (map fst (si_completedWaitpoints x)),
      sn_isValid = (truthy (si_error x) = None), sn_error = si_error x, sn_createdAt = now\<rparr>"

definition insertSnapshot :: "snapshot \<Rightarrow> snapshot engine" where
  "insertSnapshot s w = (Inr s, w\<lparr>en_snapshots := s # en_snapshots w\<rparr>)"

definition store_createExecutionSnapshot :: "snapshot_input \<Rightarrow> snapshot engine" where
  "store_createExecutionSnapshot x =
     andThen (fresh_id ''snapshot_'') (\<lambda>i. andThen the_time (\<lambda>now. insertSnapshot (snapshot_row i now x)))"

text \<open>The newest valid snapshot of a run, in one environment where one is given.\<close>

definition latest_in :: "string option \<Rightarrow> string \<Rightarrow> world \<Rightarrow> snapshot option" where
  "latest_in envId i w =
     List.find (\<lambda>s. sn_runId s = i \<and> sn_isValid s \<and>
       (case truthy envId of None \<Rightarrow> True | Some e \<Rightarrow> sn_environmentId s = e)) (en_snapshots w)"

definition latest :: "string \<Rightarrow> world \<Rightarrow> snapshot option" where
  "latest i w = latest_in None i w"

text \<open>A snapshot that a write of the run creates with it; it has no attempt number unless given.\<close>

definition nested_snapshot ::
    "string \<Rightarrow> TaskRunExecutionStatus \<Rightarrow> string \<Rightarrow> TaskRunStatus \<Rightarrow> int option \<Rightarrow> snapshot
     \<Rightarrow> string option \<Rightarrow> string option \<Rightarrow> snapshot_input" where
  "nested_snapshot i executionStatus description runStatus attemptNumber s workerId runnerId =
     \<lparr>si_runId = i, si_runStatus = runStatus, si_attemptNumber = attemptNumber,
      si_executionStatus = executionStatus, si_description = description, si_metadata = None,
      si_previousSnapshotId = None, si_batchId = None, si_environmentId = sn_environmentId s,
      si_environmentType = sn_environmentType s, si_projectId = sn_projectId s,
      si_organizationId = sn_organizationId s, si_checkpointId = None, si_workerId = workerId,
      si_runnerId = runnerId, si_completedWaitpoints = [], si_error = None\<rparr>"

text \<open>\<open>completeAttemptSuccess\<close>: the row and its last snapshot in one write.\<close>

definition completeAttemptSuccess ::
    "string \<Rightarrow> int \<Rightarrow> string option \<Rightarrow> string \<Rightarrow> int \<Rightarrow> rat option \<Rightarrow> snapshot_input \<Rightarrow> run engine" where
  "completeAttemptSuccess i completedAt out outType usage cost snap =
     andThen (updateTaskRun i (\<lambda>t. t\<lparr>tr_status := COMPLETED_SUCCESSFULLY, tr_completedAt := Some completedAt,
         tr_output := (case out of None \<Rightarrow> tr_output t | Some v \<Rightarrow> Some v), tr_outputType := outType,
         tr_usageDurationMs := usage, tr_costInCents := cost\<rparr>))
       (\<lambda>t. andThen (store_createExecutionSnapshot snap) (\<lambda>_. ret t))"

definition store_expireRun :: "string \<Rightarrow> task_run_error \<Rightarrow> int \<Rightarrow> snapshot_input \<Rightarrow> run engine" where
  "store_expireRun i error now snap =
     andThen (updateTaskRun i (\<lambda>t. t\<lparr>tr_status := EXPIRED, tr_completedAt := Some now, tr_expiredAt := Some now,
         tr_error := Some error\<rparr>))
       (\<lambda>t. andThen (store_createExecutionSnapshot snap) (\<lambda>_. ret t))"

definition store_rescheduleRun :: "string \<Rightarrow> int \<Rightarrow> snapshot_input \<Rightarrow> run engine" where
  "store_rescheduleRun i delayUntil snap =
     andThen (updateTaskRun i (\<lambda>t. t\<lparr>tr_delayUntil := Some delayUntil\<rparr>))
       (\<lambda>t. andThen (store_createExecutionSnapshot snap) (\<lambda>_. ret t))"

text \<open>\<open>lockRunToWorker\<close>; a retry configuration, a machine or a number of attempts that is absent keeps its value.\<close>

definition lockRunToWorker ::
    "string \<Rightarrow> int \<Rightarrow> worker_task \<Rightarrow> string \<Rightarrow> string \<Rightarrow> locked_retry_config \<Rightarrow> int \<Rightarrow> string option \<Rightarrow> int option
     \<Rightarrow> snapshot_input \<Rightarrow> (run \<times> snapshot) engine" where
  "lockRunToWorker i lockedAt task workerId queueId retryConfig startedAt machine maxAttempts snap =
     andThen (updateTaskRun i (\<lambda>t. t\<lparr>tr_status := DEQUEUED, tr_lockedAt := Some lockedAt,
         tr_lockedById := Some (wt_id task), tr_lockedToVersionId := Some workerId, tr_lockedQueueId := Some queueId,
         tr_lockedRetryConfig := (if retryConfig = no_config then tr_lockedRetryConfig t else retryConfig),
         tr_startedAt := Some startedAt,
         tr_machinePreset := (case machine of None \<Rightarrow> tr_machinePreset t | Some m \<Rightarrow> Some m),
         tr_maxAttempts := (case maxAttempts of None \<Rightarrow> tr_maxAttempts t | Some n \<Rightarrow> Some n)\<rparr>))
       (\<lambda>t. andThen (store_createExecutionSnapshot snap) (\<lambda>s. ret (t, s)))"

definition parkPendingVersion :: "string \<Rightarrow> string \<Rightarrow> run engine" where
  "parkPendingVersion i statusReason =
     updateTaskRun i (\<lambda>t. t\<lparr>tr_status := PENDING_VERSION, tr_statusReason := Some statusReason\<rparr>)"

text \<open>\<open>promotePendingVersionRuns\<close>: what is absent keeps its value; it returns how many rows it changed.\<close>

definition promotePendingVersionRuns :: "string \<Rightarrow> TaskRunStatus \<Rightarrow> string option \<Rightarrow> nat engine" where
  "promotePendingVersionRuns i status lockedToVersionId w =
     (let p = (\<lambda>t. tr_id t = i \<and> tr_status t = PENDING_VERSION)
      in (Inr (length (filter p (en_runs w))),
          w\<lparr>en_runs := map (\<lambda>t. if p t then t\<lparr>tr_status := status,
              tr_lockedToVersionId := (case lockedToVersionId of None \<Rightarrow> tr_lockedToVersionId t | Some v \<Rightarrow> Some v)\<rparr>
            else t) (en_runs w)\<rparr>))"

text \<open>\<open>expireParkedRun\<close>: the row, where it still waits for its version, with its last snapshot.\<close>

definition expireParkedRun :: "string \<Rightarrow> task_run_error \<Rightarrow> int \<Rightarrow> string \<Rightarrow> snapshot_input \<Rightarrow> nat engine" where
  "expireParkedRun i error now statusReason snap =
     andThen (findRun i) (\<lambda>found.
       case found of
         None \<Rightarrow> ret 0
       | Some row \<Rightarrow>
           if tr_status row \<noteq> PENDING_VERSION then ret 0
           else
             andThen (updateTaskRun i (\<lambda>t. t\<lparr>tr_status := EXPIRED, tr_statusReason := Some statusReason,
                 tr_completedAt := Some now, tr_expiredAt := Some now, tr_error := Some error\<rparr>))
               (\<lambda>_. andThen (store_createExecutionSnapshot snap) (\<lambda>_. ret 1)))"

text \<open>
  What a trailing trigger of a debounced run writes over it; what is absent keeps its value.
\<close>

record debounce_update =
  du_payload :: string
  du_payloadType :: string
  du_metadata :: "(string \<times> string) option"
  du_maxAttempts :: "int option"
  du_maxDurationInSeconds :: "int option"
  du_machinePreset :: "string option"
  du_runTags :: "string list option"

definition rewriteDebouncedRun :: "string \<Rightarrow> debounce_update \<Rightarrow> run engine" where
  "rewriteDebouncedRun i u =
     updateTaskRun i (\<lambda>t. t\<lparr>
       tr_maxAttempts := (case du_maxAttempts u of None \<Rightarrow> tr_maxAttempts t | Some n \<Rightarrow> Some n),
       tr_machinePreset := (case du_machinePreset u of None \<Rightarrow> tr_machinePreset t | Some m \<Rightarrow> Some m),
       tr_data := (tr_data t)\<lparr>rd_payload := du_payload u, rd_payloadType := du_payloadType u,
         rd_metadata := (case du_metadata u of None \<Rightarrow> rd_metadata (tr_data t) | Some m \<Rightarrow> Some (fst m)),
         rd_metadataType := (case du_metadata u of None \<Rightarrow> rd_metadataType (tr_data t) | Some m \<Rightarrow> snd m),
         rd_runTags := keep (du_runTags u) (rd_runTags (tr_data t)),
         rd_maxDurationInSeconds := (case du_maxDurationInSeconds u of
             None \<Rightarrow> rd_maxDurationInSeconds (tr_data t) | Some n \<Rightarrow> Some n)\<rparr>\<rparr>)"

section \<open>The run store: waitpoints, edges, checkpoints\<close>

definition waitpoint_of :: "string \<Rightarrow> world \<Rightarrow> waitpoint option" where
  "waitpoint_of i w = List.find (\<lambda>x. wp_id x = i) (en_waitpoints w)"

text \<open>The waitpoint a run completes: the relation \<open>associatedWaitpoint\<close>.\<close>

definition associatedWaitpoint :: "string \<Rightarrow> world \<Rightarrow> waitpoint option" where
  "associatedWaitpoint i w = List.find (\<lambda>x. wp_completedByTaskRunId x = Some i) (en_waitpoints w)"

definition updateWaitpoints :: "(waitpoint \<Rightarrow> bool) \<Rightarrow> (waitpoint \<Rightarrow> waitpoint) \<Rightarrow> nat engine" where
  "updateWaitpoints p f w =
     (Inr (length (filter p (en_waitpoints w))),
      w\<lparr>en_waitpoints := map (\<lambda>x. if p x then f x else x) (en_waitpoints w)\<rparr>)"

definition insertWaitpoint :: "waitpoint \<Rightarrow> waitpoint engine" where
  "insertWaitpoint x w = (Inr x, w\<lparr>en_waitpoints := x # en_waitpoints w\<rparr>)"

text \<open>
  \<open>blockRunWithWaitpointEdges\<close>: \<open>ON CONFLICT DO NOTHING\<close> on the run, the waitpoint and the
  batch index, of which the absent one is unique as well.
\<close>

definition has_edge :: "string \<Rightarrow> string \<Rightarrow> int option \<Rightarrow> edge list \<Rightarrow> bool" where
  "has_edge runId wpId idx es =
     list_ex (\<lambda>e. eg_taskRunId e = runId \<and> eg_waitpointId e = wpId \<and> eg_batchIndex e = idx) es"

definition add_edge ::
    "string \<Rightarrow> string \<Rightarrow> string option \<Rightarrow> (string \<times> int option) option \<Rightarrow> string \<Rightarrow> unit engine" where
  "add_edge runId projectId spanId batch wpId =
     andThen (fresh_id ''edge_'') (\<lambda>i. modify (\<lambda>w.
       (let idx = (case batch of None \<Rightarrow> None | Some b \<Rightarrow> snd b)
        in if has_edge runId wpId idx (en_edges w) then w
           else w\<lparr>en_edges := en_edges w @
             [\<lparr>eg_id = i, eg_taskRunId = runId, eg_waitpointId = wpId, eg_projectId = projectId,
               eg_spanIdToComplete = spanId, eg_batchId = map_option fst batch, eg_batchIndex = idx,
               eg_createdAt = en_now w\<rparr>]\<rparr>)))"

definition blockRunWithWaitpointEdges ::
    "string \<Rightarrow> string list \<Rightarrow> string \<Rightarrow> string option \<Rightarrow> (string \<times> int option) option \<Rightarrow> unit engine" where
  "blockRunWithWaitpointEdges runId wpIds projectId spanId batch =
     forEach wpIds (add_edge runId projectId spanId batch)"

definition countPendingWaitpoints :: "string list \<Rightarrow> nat engine" where
  "countPendingWaitpoints ids =
     reading (\<lambda>w. length (filter (\<lambda>x. wp_id x \<in> set ids \<and> wp_status x = WP_PENDING) (en_waitpoints w)))"

definition edges_of :: "string \<Rightarrow> world \<Rightarrow> edge list" where
  "edges_of runId w = filter (\<lambda>e. eg_taskRunId e = runId) (en_edges w)"

definition deleteEdges :: "(edge \<Rightarrow> bool) \<Rightarrow> nat engine" where
  "deleteEdges p w = (Inr (length (filter p (en_edges w))), w\<lparr>en_edges := filter (\<lambda>e. \<not> p e) (en_edges w)\<rparr>)"

definition batch_of :: "string \<Rightarrow> world \<Rightarrow> batch option" where
  "batch_of i w = List.find (\<lambda>b. bt_id b = i) (en_batches w)"

text \<open>\<open>updateManyBatchTaskRun\<close> returns how many rows it changed.\<close>

definition updateBatches :: "(batch \<Rightarrow> bool) \<Rightarrow> (batch \<Rightarrow> batch) \<Rightarrow> nat engine" where
  "updateBatches p f w =
     (Inr (length (filter p (en_batches w))),
      w\<lparr>en_batches := map (\<lambda>b. if p b then f b else b) (en_batches w)\<rparr>)"

text \<open>
  The unique constraint a new row of \<open>TaskRun\<close> violates, by its fields: the id, the one-time
  token, or the environment, task and idempotency key. Absent keys are different from each
  other.
\<close>

definition unique_conflict :: "run \<Rightarrow> run list \<Rightarrow> string list option" where
  "unique_conflict t ts =
     (if list_ex (\<lambda>u. tr_id u = tr_id t) ts then Some [''id'']
      else if list_ex (\<lambda>u. rd_oneTimeUseToken (tr_data t) \<noteq> None
          \<and> rd_oneTimeUseToken (tr_data u) = rd_oneTimeUseToken (tr_data t)) ts then Some [''oneTimeUseToken'']
      else if list_ex (\<lambda>u. rd_idempotencyKey (tr_data t) \<noteq> None
          \<and> rd_idempotencyKey (tr_data u) = rd_idempotencyKey (tr_data t)
          \<and> tr_taskIdentifier u = tr_taskIdentifier t \<and> tr_runtimeEnvironmentId u = tr_runtimeEnvironmentId t) ts
        then Some [''runtimeEnvironmentId'', ''taskIdentifier'', ''idempotencyKey'']
      else None)"

definition insertRun :: "run \<Rightarrow> unit engine" where
  "insertRun t w =
     (case unique_conflict t (en_runs w) of
        Some target \<Rightarrow> (Inl (UniqueConstraint target), w)
      | None \<Rightarrow> (Inr (), w\<lparr>en_runs := t # en_runs w\<rparr>))"

text \<open>\<open>createRun\<close>: the row, its first snapshot under the id given, and its waitpoint where it has one.\<close>

definition createRun :: "run \<Rightarrow> string \<Rightarrow> snapshot_input \<Rightarrow> waitpoint option \<Rightarrow> waitpoint option engine" where
  "createRun t snapshotId snap associated =
     andDo (insertRun t)
     (andThen the_time (\<lambda>now.
      andThen (insertSnapshot (snapshot_row snapshotId now snap)) (\<lambda>_.
        case associated of
          None \<Rightarrow> ret None
        | Some x \<Rightarrow> andThen (insertWaitpoint (x\<lparr>wp_completedByTaskRunId := Some (tr_id t)\<rparr>)) (\<lambda>x. ret (Some x)))))"

definition store_createCancelledRun :: "run \<Rightarrow> snapshot_input \<Rightarrow> run engine" where
  "store_createCancelledRun t snap =
     andDo (insertRun t) (andThen (store_createExecutionSnapshot snap) (\<lambda>_. ret t))"

definition createFailedRun :: "run \<Rightarrow> waitpoint option \<Rightarrow> waitpoint option engine" where
  "createFailedRun t associated =
     andDo (insertRun t)
       (case associated of
          None \<Rightarrow> ret None
        | Some x \<Rightarrow> andThen (insertWaitpoint (x\<lparr>wp_completedByTaskRunId := Some (tr_id t)\<rparr>)) (\<lambda>x. ret (Some x)))"

definition insertCheckpoint :: "checkpoint \<Rightarrow> checkpoint engine" where
  "insertCheckpoint c w = (Inr c, w\<lparr>en_checkpoints := c # en_checkpoints w\<rparr>)"

section \<open>Effects\<close>

text \<open>What the primitive operations do, and the frame of those that touch one table only.\<close>

lemmas effects = the_time_def fresh_id_def enqueueJob_def enqueueNewJob_def rescheduleJob_def ackJob_def emit_def on_queue_def
  findRun_def insertSnapshot_def updateWaitpoints_def insertWaitpoint_def countPendingWaitpoints_def
  deleteEdges_def insertCheckpoint_def updateBatches_def reading_def modify_def ret_def throw_def

lemma findRun_run [simp]: "findRun i w = (Inr (run_of i w), w)"
  by (simp add: findRun_def reading_def)

lemma store_createExecutionSnapshot_eq:
  "store_createExecutionSnapshot x w =
     (Inr (snapshot_row (''snapshot_'' @ nat_to_string (en_fresh w)) (en_now w) x),
      w\<lparr>en_fresh := en_fresh w + 1,
        en_snapshots := snapshot_row (''snapshot_'' @ nat_to_string (en_fresh w)) (en_now w) x # en_snapshots w\<rparr>)"
  by (simp add: store_createExecutionSnapshot_def andThen_def effects)

text \<open>The part of the world the decisions about a run rest on.\<close>

definition core :: "world \<Rightarrow> run list \<times> snapshot list" where
  "core w = (en_runs w, en_snapshots w)"

lemma core_update [simp]:
  "core (w\<lparr>en_jobs := a\<rparr>) = core w" "core (w\<lparr>en_events := b\<rparr>) = core w"
  "core (w\<lparr>en_redis := c\<rparr>) = core w" "core (w\<lparr>en_waitpoints := d\<rparr>) = core w"
  "core (w\<lparr>en_edges := e\<rparr>) = core w" "core (w\<lparr>en_checkpoints := f\<rparr>) = core w"
  "core (w\<lparr>en_fresh := g\<rparr>) = core w" "core (w\<lparr>en_now := h\<rparr>) = core w"
  "core (w\<lparr>en_batches := i\<rparr>) = core w" "core (w\<lparr>en_debounce := k\<rparr>) = core w"
  by (simp_all add: core_def)

text \<open>The handlers that leave the core as it is.\<close>

definition quiet :: "'a engine \<Rightarrow> bool" where
  "quiet m = (\<forall>w. core (snd (m w)) = core w)"

lemma quiet_preserves [pres]: "quiet m \<Longrightarrow> preserves (\<lambda>w. P (core w)) m"
  by (simp add: quiet_def preserves_def)

lemma quiet_core: "quiet m \<Longrightarrow> core (snd (m w)) = core w"
  by (simp add: quiet_def)

named_theorems quiet_intros \<open>handlers that leave runs and snapshots alone\<close>

lemma quiet_effects [quiet_intros]:
  "quiet (ret x)" "quiet (throw e)" "quiet (reading f)" "quiet the_time" "quiet (fresh_id p)"
  "quiet (enqueueJob i pl t)" "quiet (rescheduleJob i t)" "quiet (ackJob i)" "quiet (emit ev)"
  "quiet (findRun i)" "quiet (updateWaitpoints q g)" "quiet (insertWaitpoint wp)"
  "quiet (countPendingWaitpoints ids)" "quiet (deleteEdges r)" "quiet (insertCheckpoint c)" "quiet (updateBatches bp bf)"
  "quiet (require b e)" "quiet (required y e)" "quiet (enqueueNewJob pl t)"
  by (simp_all add: quiet_def effects require_def required_def split: option.split)

lemma quiet_on_queue [quiet_intros]: "quiet (on_queue f)"
  by (simp add: quiet_def on_queue_def split: prod.split)

lemma quiet_andThen [quiet_intros]: "quiet m \<Longrightarrow> (\<And>x. quiet (f x)) \<Longrightarrow> quiet (andThen m f)"
  unfolding quiet_def andThen_def by (auto split: prod.splits sum.splits) (metis snd_conv)+

lemma quiet_andDo [quiet_intros]: "quiet m \<Longrightarrow> quiet k \<Longrightarrow> quiet (andDo m k)"
  by (simp add: andDo_def quiet_andThen)

lemma quiet_whenever [quiet_intros]: "quiet m \<Longrightarrow> quiet (whenever b m)"
  by (simp add: whenever_def quiet_effects)

lemma quiet_forEach [quiet_intros]: "(\<And>x. quiet (f x)) \<Longrightarrow> quiet (forEach xs f)"
  by (induction xs) (simp_all add: quiet_effects quiet_andDo)

lemma quiet_add_edge [quiet_intros]: "quiet (add_edge r p s b i)"
  unfolding add_edge_def
  by (intro quiet_intros) (simp add: quiet_def modify_def Let_def)

lemma quiet_blockRunWithWaitpointEdges [quiet_intros]: "quiet (blockRunWithWaitpointEdges r is p s b)"
  unfolding blockRunWithWaitpointEdges_def by (intro quiet_intros)

text \<open>Rows and newest snapshots are functions of the core.\<close>

lemma run_of_core: "run_of i w = List.find (\<lambda>t. tr_id t = i) (fst (core w))"
  by (simp add: run_of_def core_def)

lemma latest_core: "latest i w = List.find (\<lambda>s. sn_runId s = i \<and> sn_isValid s) (snd (core w))"
  by (simp add: latest_def latest_in_def core_def truthy_def)

lemma core_eqD:
  assumes "core w = core w'"
  shows "run_of i w = run_of i w'" "latest i w = latest i w'" "latest_in e i w = latest_in e i w'"
  using assms by (simp_all add: run_of_core latest_core) (simp add: latest_in_def core_def)

lemma find_map_update:
  "(\<And>t. tr_id (f t) = tr_id t) \<Longrightarrow>
   List.find (\<lambda>t. tr_id t = j) (map (\<lambda>t. if tr_id t = i then f t else t) ts)
     = (if i = j then map_option f (List.find (\<lambda>t. tr_id t = j) ts)
        else List.find (\<lambda>t. tr_id t = j) ts)"
  by (induction ts) auto

lemma updateTaskRun_cases:
  assumes "\<And>t. tr_id (f t) = tr_id t"
  obtains (missing) "run_of i w = None" "updateTaskRun i f w = (Inl RecordNotFound, w)"
  | (found) t w' where "run_of i w = Some t" "updateTaskRun i f w = (Inr (f t), w')"
      "run_of i w' = Some (f t)" "\<And>j. j \<noteq> i \<Longrightarrow> run_of j w' = run_of j w"
      "en_snapshots w' = en_snapshots w" "\<And>j. latest j w' = latest j w"
proof (cases "run_of i w")
  case None
  then show ?thesis by (intro missing) (simp_all add: updateTaskRun_def)
next
  case (Some t)
  let ?w = "w\<lparr>en_runs := map (\<lambda>t. if tr_id t = i then f t else t) (en_runs w)\<rparr>"
  have r: "run_of j ?w = (if i = j then map_option f (run_of j w) else run_of j w)" for j
    by (simp add: run_of_def find_map_update assms)
  have "latest j ?w = latest j w" for j by (simp add: latest_def latest_in_def)
  with Some r show ?thesis by (intro found [of t ?w]) (simp_all add: updateTaskRun_def)
qed

lemma latest_cons [simp]:
  "latest i (w\<lparr>en_fresh := n, en_snapshots := s # ss\<rparr>) =
     (if sn_runId s = i \<and> sn_isValid s then Some s else latest i (w\<lparr>en_snapshots := ss\<rparr>))"
  by (simp add: latest_def latest_in_def truthy_def)

lemma snapshot_row_simps [simp]:
  "sn_id (snapshot_row i now x) = i" "sn_runId (snapshot_row i now x) = si_runId x"
  "sn_executionStatus (snapshot_row i now x) = si_executionStatus x"
  "sn_attemptNumber (snapshot_row i now x) = si_attemptNumber x"
  "sn_checkpointId (snapshot_row i now x) = si_checkpointId x"
  "sn_isValid (snapshot_row i now x) = (truthy (si_error x) = None)"
  by (simp_all add: snapshot_row_def)

end
