(* ===== verification/Snapshots.thy ===== *)
theory Snapshots
  imports EngineState "HOL-Library.Multiset"
begin

text \<open>
  Execution snapshots (\<open>engine/systems/executionSnapshotSystem.ts\<close>): reading the latest one with
  its completed waitpoints, the snapshots a runner has not seen yet, creating a snapshot with
  the heartbeat that watches it, and heartbeats of a runner.

  Friendly ids, which are computed from ids (theory FriendlyId), are left out of the results.
\<close>

section \<open>A snapshot with its completed waitpoints\<close>

record completed_waitpoint =
  cw_id :: string
  cw_index :: "nat option"
  cw_type :: waitpoint_type
  cw_completedAt :: int
  cw_idempotencyKey :: "string option"
  cw_completedByTaskRun :: "(string \<times> string option) option"
  cw_completedAfter :: "int option"
  cw_completedByBatch :: "string option"
  cw_output :: "string option"
  cw_outputType :: string
  cw_outputIsError :: bool

type_synonym enhanced_snapshot = "snapshot \<times> completed_waitpoint list"

text \<open>The positions of an id in the order; \<open>[None]\<close> when there is none.\<close>

definition indexes_of :: "string \<Rightarrow> string list \<Rightarrow> nat option list" where
  "indexes_of i order =
     (case filter (\<lambda>k. order ! k = i) [0..<length order] of
        [] \<Rightarrow> [None] | ks \<Rightarrow> map Some ks)"

definition completed_waitpoint_of :: "int \<Rightarrow> snapshot \<Rightarrow> waitpoint \<Rightarrow> nat option \<Rightarrow> completed_waitpoint" where
  "completed_waitpoint_of now s w k =
     \<lparr>cw_id = wp_id w, cw_index = k, cw_type = wp_type w,
      cw_completedAt = or_default (wp_completedAt w) now,
      cw_idempotencyKey =
        (if wp_userProvidedIdempotencyKey w \<and> truthy (wp_inactiveIdempotencyKey w) = None
         then Some (wp_idempotencyKey w) else None),
      cw_completedByTaskRun =
        map_option (\<lambda>r. (r, truthy (sn_batchId s))) (truthy (wp_completedByTaskRunId w)),
      cw_completedAfter = wp_completedAfter w,
      cw_completedByBatch = truthy (wp_completedByBatchId w),
      cw_output = wp_output w, cw_outputType = wp_outputType w, cw_outputIsError = wp_outputIsError w\<rparr>"

definition enhanceExecutionSnapshotWithWaitpoints ::
    "int \<Rightarrow> snapshot \<Rightarrow> waitpoint list \<Rightarrow> string list \<Rightarrow> enhanced_snapshot" where
  "enhanceExecutionSnapshotWithWaitpoints now s ws order =
     (s, concat (map (\<lambda>w. map (completed_waitpoint_of now s w) (indexes_of (wp_id w) order)) ws))"

text \<open>The rows of the waitpoints with the given ids, in chunks of 100 in the source.\<close>

definition waitpoints_of :: "string list \<Rightarrow> world \<Rightarrow> waitpoint list" where
  "waitpoints_of ids w = filter (\<lambda>x. wp_id x \<in> set ids) (en_waitpoints w)"

definition enhanceExecutionSnapshot :: "world \<Rightarrow> snapshot \<Rightarrow> enhanced_snapshot" where
  "enhanceExecutionSnapshot w s =
     enhanceExecutionSnapshotWithWaitpoints (en_now w) s (waitpoints_of (sn_completedWaitpointIds s) w)
       (sn_completedWaitpointOrder s)"

text \<open>What a snapshot passes on as \<open>completedWaitpoints\<close>.\<close>

definition pass_on :: "completed_waitpoint list \<Rightarrow> (string \<times> int option) list" where
  "pass_on cs = map (\<lambda>c. (cw_id c, map_option int (cw_index c))) cs"

definition no_snapshot :: "string option \<Rightarrow> string \<Rightarrow> engine_error" where
  "no_snapshot envId i =
     (case truthy envId of
        None \<Rightarrow> Error (''No execution snapshot found for TaskRun '' @ i)
      | Some _ \<Rightarrow> ServiceValidationError (''No execution snapshot found for TaskRun '' @ i) 404)"

definition getLatestExecutionSnapshot :: "string option \<Rightarrow> string \<Rightarrow> enhanced_snapshot engine" where
  "getLatestExecutionSnapshot envId i w =
     (case latest_in envId i w of
        None \<Rightarrow> (Inl (no_snapshot envId i), w)
      | Some s \<Rightarrow> (Inr (enhanceExecutionSnapshot w s), w))"

record execution_result =
  er_snapshotId :: string
  er_executionStatus :: TaskRunExecutionStatus
  er_description :: string
  er_createdAt :: int
  er_runId :: string
  er_runStatus :: TaskRunStatus
  er_attemptNumber :: "int option"

definition executionResultFromSnapshot :: "snapshot \<Rightarrow> execution_result" where
  "executionResultFromSnapshot s =
     \<lparr>er_snapshotId = sn_id s, er_executionStatus = sn_executionStatus s, er_description = sn_description s,
      er_createdAt = sn_createdAt s, er_runId = sn_runId s, er_runStatus = sn_runStatus s,
      er_attemptNumber = sn_attemptNumber s\<rparr>"

section \<open>The snapshots since one a runner knows\<close>

text \<open>
  \<open>getExecutionSnapshotsSince\<close> reads the rows from one reader and the links of the newest to its
  waitpoints, and these waitpoints, from another; either may be a replica that lags. Where a
  primary is given to repair from, the links are read there when the second reader does not
  have the snapshot or has fewer links than the order column promises. \<open>present\<close> with the ids
  is \<open>findSnapshotCompletedWaitpointIdsWithPresence\<close>.
\<close>

definition row_of :: "string \<Rightarrow> world \<Rightarrow> snapshot option" where
  "row_of i w = List.find (\<lambda>s. sn_id s = i) (en_snapshots w)"

definition snapshot_waitpoint_ids :: "world \<Rightarrow> string \<Rightarrow> bool \<times> string list" where
  "snapshot_waitpoint_ids w i =
     (case row_of i w of None \<Rightarrow> (False, []) | Some s \<Rightarrow> (True, sn_completedWaitpointIds s))"

definition repaired_ids :: "world \<Rightarrow> world option \<Rightarrow> snapshot \<Rightarrow> string list \<times> world" where
  "repaired_ids reader repair newest =
     (let (present, ids) = snapshot_waitpoint_ids reader (sn_id newest);
          (ids1, client1) =
            (case repair of
               Some primary \<Rightarrow>
                 if present then (ids, reader)
                 else (snd (snapshot_waitpoint_ids primary (sn_id newest)), primary)
             | None \<Rightarrow> (ids, reader))
      in case repair of
           Some primary \<Rightarrow>
             (if length ids1 < card (set (sn_completedWaitpointOrder newest))
              then (let repaired = snd (snapshot_waitpoint_ids primary (sn_id newest))
                    in if length repaired > length ids1 then (repaired, primary) else (ids1, client1))
              else (ids1, client1))
         | None \<Rightarrow> (ids1, client1))"

definition snapshots_after :: "world \<Rightarrow> string option \<Rightarrow> string \<Rightarrow> int \<Rightarrow> snapshot list" where
  "snapshots_after w envId i t =
     take 50 (filter (\<lambda>s. sn_runId s = i \<and> sn_isValid s \<and> sn_createdAt s > t \<and>
       (case truthy envId of None \<Rightarrow> True | Some e \<Rightarrow> sn_environmentId s = e)) (en_snapshots w))"

definition getExecutionSnapshotsSince ::
    "world \<Rightarrow> world \<Rightarrow> world option \<Rightarrow> string option \<Rightarrow> string \<Rightarrow> string
     \<Rightarrow> engine_error + enhanced_snapshot list" where
  "getExecutionSnapshotsSince rows links repair envId i sinceSnapshotId =
     (case List.find (\<lambda>s. sn_id s = sinceSnapshotId \<and> sn_runId s = i \<and>
         (case truthy envId of None \<Rightarrow> True | Some e \<Rightarrow> sn_environmentId s = e)) (en_snapshots rows) of
        None \<Rightarrow> Inl (Error (''Execution snapshot not found: '' @ sinceSnapshotId))
      | Some since \<Rightarrow>
          (case snapshots_after rows envId i (sn_createdAt since) of
             [] \<Rightarrow> Inr []
           | newest # older \<Rightarrow>
               (let (ids, client) = repaired_ids links repair newest;
                    waitpoints = waitpoints_of ids client
                in Inr (map (\<lambda>s. enhanceExecutionSnapshotWithWaitpoints (en_now rows) s
                                 (if sn_id s = sn_id newest then waitpoints else [])
                                 (sn_completedWaitpointOrder newest))
                          (rev (newest # older))))))"

section \<open>Creating a snapshot; heartbeats\<close>

fun getHeartbeatIntervalMs :: "heartbeat_timeouts \<Rightarrow> TaskRunExecutionStatus \<Rightarrow> int option" where
  "getHeartbeatIntervalMs ht PENDING_EXECUTING = Some (ht_PENDING_EXECUTING ht)"
| "getHeartbeatIntervalMs ht PENDING_CANCEL = Some (ht_PENDING_CANCEL ht)"
| "getHeartbeatIntervalMs ht EXECUTING = Some (ht_EXECUTING ht)"
| "getHeartbeatIntervalMs ht EXECUTING_WITH_WAITPOINTS = Some (ht_EXECUTING_WITH_WAITPOINTS ht)"
| "getHeartbeatIntervalMs ht SUSPENDED = Some (ht_SUSPENDED ht)"
| "getHeartbeatIntervalMs ht RUN_CREATED = None"
| "getHeartbeatIntervalMs ht DELAYED = None"
| "getHeartbeatIntervalMs ht QUEUED = None"
| "getHeartbeatIntervalMs ht QUEUED_EXECUTING = None"
| "getHeartbeatIntervalMs ht FINISHED = None"

definition heartbeat_job :: "string \<Rightarrow> string" where
  "heartbeat_job i = ''heartbeatSnapshot.'' @ i"

definition enqueueHeartbeatIfNeeded :: "engine_options \<Rightarrow> snapshot \<Rightarrow> unit engine" where
  "enqueueHeartbeatIfNeeded cfg s =
     (case getHeartbeatIntervalMs (eo_heartbeats cfg) (sn_executionStatus s) of
        None \<Rightarrow> ret ()
      | Some ms \<Rightarrow>
          andThen the_time (\<lambda>now.
            enqueueJob (heartbeat_job (sn_runId s)) (heartbeatSnapshot (sn_runId s) (sn_id s) None) (now + ms)))"

definition createExecutionSnapshot :: "engine_options \<Rightarrow> snapshot_input \<Rightarrow> snapshot engine" where
  "createExecutionSnapshot cfg x =
     andThen (store_createExecutionSnapshot x) (\<lambda>s.
       andDo (whenever (truthy (si_error x) = None) (enqueueHeartbeatIfNeeded cfg s))
         (andDo (emit (executionSnapshotCreated (sn_runId s) (sn_id s) (map fst (si_completedWaitpoints x))))
           (ret s)))"

definition heartbeatRun :: "engine_options \<Rightarrow> string \<Rightarrow> string \<Rightarrow> execution_result engine" where
  "heartbeatRun cfg i snapshotId =
     andThen (getLatestExecutionSnapshot None i) (\<lambda>(s, _).
       if sn_id s \<noteq> snapshotId then ret (executionResultFromSnapshot s)
       else andDo
         (case getHeartbeatIntervalMs (eo_heartbeats cfg) (sn_executionStatus s) of
            None \<Rightarrow> ret ()
          | Some ms \<Rightarrow> andThen the_time (\<lambda>now. rescheduleJob (heartbeat_job i) (now + ms)))
         (ret (executionResultFromSnapshot s)))"

definition restartHeartbeatForRun :: "string \<Rightarrow> int \<Rightarrow> nat \<Rightarrow> execution_result engine" where
  "restartHeartbeatForRun i delayMs restartAttempt =
     andThen (getLatestExecutionSnapshot None i) (\<lambda>(s, _).
       andThen the_time (\<lambda>now.
         andDo (enqueueJob (heartbeat_job i) (heartbeatSnapshot i (sn_id s) (Some restartAttempt)) (now + delayMs))
           (ret (executionResultFromSnapshot s))))"

text \<open>\<open>sendNotificationToWorker\<close> of \<open>engine/eventBus.ts\<close>.\<close>

definition sendNotificationToWorker :: "string \<Rightarrow> snapshot \<Rightarrow> unit engine" where
  "sendNotificationToWorker i s = emit (workerNotification i (sn_id s))"

section \<open>Lemmas\<close>

lemma getLatest_simps:
  "latest_in envId i w = Some s \<Longrightarrow> getLatestExecutionSnapshot envId i w = (Inr (enhanceExecutionSnapshot w s), w)"
  "latest_in envId i w = None \<Longrightarrow> getLatestExecutionSnapshot envId i w = (Inl (no_snapshot envId i), w)"
  by (simp_all add: getLatestExecutionSnapshot_def)

lemma fst_enhance [simp]: "fst (enhanceExecutionSnapshot w s) = s"
  by (simp add: enhanceExecutionSnapshot_def enhanceExecutionSnapshotWithWaitpoints_def)

lemma indexes_of_occurs:
  "i \<in> set order \<Longrightarrow> set (indexes_of i order) = Some ` {k. k < length order \<and> order ! k = i}"
proof -
  assume "i \<in> set order"
  then obtain k where "k < length order" "order ! k = i" by (auto simp: in_set_conv_nth)
  then have "filter (\<lambda>k. order ! k = i) [0..<length order] \<noteq> []"
    by (auto simp: filter_empty_conv)
  then have "indexes_of i order = map Some (filter (\<lambda>k. order ! k = i) [0..<length order])"
    by (auto simp: indexes_of_def split: list.split)
  then show ?thesis by auto
qed

lemma indexes_of_not_Nil [simp]: "indexes_of a b \<noteq> []"
  by (auto simp: indexes_of_def split: list.splits)

lemma cw_id_completed_waitpoint_of [simp]: "cw_id (completed_waitpoint_of now s w k) = wp_id w"
  by (simp add: completed_waitpoint_of_def)

lemma ids_of_enhanced:
  "set (map cw_id (snd (enhanceExecutionSnapshotWithWaitpoints now s ws order))) = wp_id ` set ws"
proof -
  have "set (map cw_id (concat (map (\<lambda>w. map (completed_waitpoint_of now s w) (indexes_of (wp_id w) order)) ws)))
      = (\<Union>w \<in> set ws. (\<lambda>_. wp_id w) ` set (indexes_of (wp_id w) order))"
    by (simp add: image_UN image_image)
  also have "\<dots> = wp_id ` set ws" by (auto simp: image_constant_conv)
  finally show ?thesis by (simp add: enhanceExecutionSnapshotWithWaitpoints_def)
qed

text \<open>Indexes that are exactly \<open>0, 1, \<dots>\<close> are positions in the order.\<close>

lemma waitpoint_order_positions:
  assumes "mset (map snd ws) = mset (map (Some \<circ> int) [0..<length ws])"
  shows "length (waitpoint_order ws) = length ws"
    and "(i, Some (int k)) \<in> set ws \<longleftrightarrow> k < length ws \<and> waitpoint_order ws ! k = i"
    and "x \<in> set ws \<Longrightarrow> \<exists>k < length ws. snd x = Some (int k)"
proof -
  have snds: "set (map snd ws) = Some ` int ` {0..<length ws}"
    using arg_cong [OF assms, of set_mset] by (simp add: image_comp)
  then show 3: "\<exists>k < length ws. snd x = Some (int k)" if "x \<in> set ws" for x
  proof -
    from that have "snd x \<in> set (map snd ws)" by simp
    then show ?thesis unfolding snds by auto
  qed
  then have all: "filter (\<lambda>x. snd x \<noteq> None) ws = ws"
    by (intro filter_True) force
  define ys where "ys = sort_key (\<lambda>x. the (snd x)) ws"
  have order: "waitpoint_order ws = map fst ys"
    unfolding waitpoint_order_def all ys_def ..
  have "mset (map (\<lambda>x. the (snd x)) ys) = image_mset the (mset (map snd ws))"
    by (simp add: ys_def image_mset.compositionality comp_def)
  also have "\<dots> = mset (map int [0..<length ws])"
    unfolding assms by (simp add: image_mset.compositionality comp_def)
  finally have m: "mset (map (\<lambda>x. the (snd x)) ys) = mset (map int [0..<length ws])" .
  have "sorted (map (\<lambda>x. the (snd x)) ys)" by (simp add: ys_def)
  then have "map (\<lambda>x. the (snd x)) ys = sort (map int [0..<length ws])"
    using m by (metis properties_for_sort)
  also have "\<dots> = map int [0..<length ws]"
    by (intro sort_key_id_if_sorted) (simp add: sorted_iff_nth_mono)
  finally have keys: "map (\<lambda>x. the (snd x)) ys = map int [0..<length ws]" .
  have len: "length ys = length ws" by (simp add: ys_def)
  then show "length (waitpoint_order ws) = length ws" by (simp add: order)
  have nth: "snd (ys ! k) = Some (int k)" if "k < length ws" for k
  proof -
    have "the (snd (ys ! k)) = int k"
      using arg_cong [OF keys, of "\<lambda>l. l ! k"] that len by simp
    moreover have "ys ! k \<in> set ws"
      using nth_mem [of k ys] that len by (simp add: ys_def)
    ultimately show ?thesis using 3 by fastforce
  qed
  have set: "set ys = set ws" by (simp add: ys_def)
  show "(i, Some (int k)) \<in> set ws \<longleftrightarrow> k < length ws \<and> waitpoint_order ws ! k = i"
  proof
    assume "(i, Some (int k)) \<in> set ws"
    with set obtain j where j: "j < length ws" "ys ! j = (i, Some (int k))"
      using len by (metis in_set_conv_nth)
    with nth [of j] have "j = k" by simp
    with j len show "k < length ws \<and> waitpoint_order ws ! k = i" by (simp add: order)
  next
    assume *: "k < length ws \<and> waitpoint_order ws ! k = i"
    then have "ys ! k = (i, Some (int k))"
      using nth [of k] len nth_map [of k ys fst] by (auto simp: order prod_eq_iff)
    with * len show "(i, Some (int k)) \<in> set ws"
      using nth_mem [of k ys] set by simp
  qed
qed

subsection \<open>The effect of creating a snapshot\<close>

definition the_new_snapshot :: "world \<Rightarrow> snapshot_input \<Rightarrow> snapshot" where
  "the_new_snapshot w x = snapshot_row (''snapshot_'' @ nat_to_string (en_fresh w)) (en_now w) x"

lemma the_new_snapshot_simps [simp]:
  "sn_runId (the_new_snapshot w x) = si_runId x"
  "sn_executionStatus (the_new_snapshot w x) = si_executionStatus x"
  "sn_isValid (the_new_snapshot w x) = (truthy (si_error x) = None)"
  "sn_completedWaitpointIds (the_new_snapshot w x) = remdups (map fst (si_completedWaitpoints x))"
  "sn_runStatus (the_new_snapshot w x) = (if si_runStatus x = DEQUEUED then PENDING else si_runStatus x)"
  "sn_attemptNumber (the_new_snapshot w x) = si_attemptNumber x"
  by (simp_all add: the_new_snapshot_def snapshot_row_def)

lemma store_create_new:
  "store_createExecutionSnapshot x w = (Inr (the_new_snapshot w x),
     w\<lparr>en_fresh := en_fresh w + 1, en_snapshots := the_new_snapshot w x # en_snapshots w\<rparr>)"
  unfolding the_new_snapshot_def by (rule store_createExecutionSnapshot_eq)

lemma enqueueHeartbeat_effect:
  "\<exists>f. enqueueHeartbeatIfNeeded cfg s w = (Inr (), w\<lparr>en_jobs := f\<rparr>)
     \<and> (\<forall>k. k \<noteq> heartbeat_job (sn_runId s) \<longrightarrow> f k = en_jobs w k)"
  by (auto simp: enqueueHeartbeatIfNeeded_def andThen_def effects fun_upd_def split: option.split)
    (auto intro: exI [of _ "en_jobs w"])

lemma createExecutionSnapshot_effect:
  "\<exists>f e. createExecutionSnapshot cfg x w =
      (Inr (the_new_snapshot w x),
       w\<lparr>en_fresh := en_fresh w + 1, en_snapshots := the_new_snapshot w x # en_snapshots w,
         en_jobs := f, en_events := e\<rparr>)
    \<and> (\<forall>k. k \<noteq> heartbeat_job (si_runId x) \<longrightarrow> f k = en_jobs w k)"
proof -
  let ?s = "the_new_snapshot w x"
  let ?w = "w\<lparr>en_fresh := en_fresh w + 1, en_snapshots := ?s # en_snapshots w\<rparr>"
  have run: "sn_runId ?s = si_runId x" by (simp add: the_new_snapshot_def)
  obtain f where f: "enqueueHeartbeatIfNeeded cfg ?s ?w = (Inr (), ?w\<lparr>en_jobs := f\<rparr>)"
    "\<forall>k. k \<noteq> heartbeat_job (si_runId x) \<longrightarrow> f k = en_jobs w k"
    using enqueueHeartbeat_effect [of cfg ?s ?w] run by auto
  define g where "g = (if truthy (si_error x) = None then f else en_jobs w)"
  have "whenever (truthy (si_error x) = None) (enqueueHeartbeatIfNeeded cfg ?s) ?w = (Inr (), ?w\<lparr>en_jobs := g\<rparr>)"
    using f(1) by (simp add: whenever_def g_def ret_def)
  then have "createExecutionSnapshot cfg x w =
      (Inr ?s, ?w\<lparr>en_jobs := g, en_events := en_events w
         @ [executionSnapshotCreated (sn_runId ?s) (sn_id ?s) (map fst (si_completedWaitpoints x))]\<rparr>)"
    by (simp add: createExecutionSnapshot_def andThen_def andDo_def store_create_new emit_def modify_def ret_def)
  moreover have "\<forall>k. k \<noteq> heartbeat_job (si_runId x) \<longrightarrow> g k = en_jobs w k"
    using f(2) by (simp add: g_def)
  ultimately show ?thesis by blast
qed

lemma latest_after_create:
  "latest i (w\<lparr>en_fresh := n, en_snapshots := the_new_snapshot w x # en_snapshots w, en_jobs := f, en_events := e\<rparr>)
     = (if si_runId x = i \<and> truthy (si_error x) = None then Some (the_new_snapshot w x) else latest i w)"
  by (simp add: latest_def latest_in_def truthy_def the_new_snapshot_def)

section \<open>Properties\<close>

text \<open>
  The results of a batch come back in their places: when the waitpoints a snapshot is created
  with carry the indexes 0, 1, ... (each once; one waitpoint may have several), reading the
  snapshot back yields every waitpoint with exactly its indexes.
\<close>

theorem completed_waitpoints_roundtrip:
  assumes "mset (map snd ws) = mset (map (Some \<circ> int) [0..<length ws])"
    and "si_completedWaitpoints x = ws" "set (map fst ws) \<subseteq> wp_id ` set (en_waitpoints w)"
  shows "set (pass_on (snd (enhanceExecutionSnapshot w (snapshot_row i now x)))) = set ws"
proof -
  let ?order = "waitpoint_order ws"
  note pos = waitpoint_order_positions [OF assms(1)]
  have ids: "set ?order = fst ` set ws"
  proof (intro set_eqI iffI)
    fix a assume "a \<in> set ?order"
    then obtain k where "k < length ws" "?order ! k = a" by (auto simp: in_set_conv_nth pos(1))
    then have "(a, Some (int k)) \<in> set ws" by (simp add: pos(2))
    then show "a \<in> fst ` set ws" by force
  next
    fix a assume "a \<in> fst ` set ws"
    then obtain b where "(a, b) \<in> set ws" by auto
    with pos(3) [OF this] obtain k where "(a, Some (int k)) \<in> set ws" by auto
    then have "k < length ws" "?order ! k = a" by (simp_all add: pos(2))
    then show "a \<in> set ?order" using pos(1) nth_mem by metis
  qed
  have "set (pass_on (snd (enhanceExecutionSnapshot w (snapshot_row i now x))))
      = (\<Union>v \<in> {v \<in> set (en_waitpoints w). wp_id v \<in> fst ` set ws}.
           (\<lambda>k. (wp_id v, map_option int k)) ` set (indexes_of (wp_id v) ?order))"
    by (simp add: pass_on_def enhanceExecutionSnapshot_def enhanceExecutionSnapshotWithWaitpoints_def
        snapshot_row_def waitpoints_of_def assms(2) completed_waitpoint_of_def image_UN image_image)
  also have "\<dots> = (\<Union>v \<in> {v \<in> set (en_waitpoints w). wp_id v \<in> fst ` set ws}.
           {(wp_id v, Some (int k)) |k. k < length ws \<and> ?order ! k = wp_id v})"
    by (intro SUP_cong refl) (auto simp: indexes_of_occurs ids pos(1) image_image)
  also have "\<dots> = set ws"
  proof (intro set_eqI iffI)
    fix y assume "y \<in> (\<Union>v \<in> {v \<in> set (en_waitpoints w). wp_id v \<in> fst ` set ws}.
           {(wp_id v, Some (int k)) |k. k < length ws \<and> ?order ! k = wp_id v})"
    then show "y \<in> set ws" by (auto simp flip: pos(2))
  next
    fix y assume y: "y \<in> set ws"
    obtain a b where ab: "y = (a, b)" by (cases y)
    from pos(3) [OF y] ab obtain k where k: "b = Some (int k)" "k < length ws" by auto
    from y ab k have "?order ! k = a" using pos(2) [of a k] by simp
    moreover from y ab assms(3) obtain v where "v \<in> set (en_waitpoints w)" "wp_id v = a"
      by (force simp: image_iff subset_iff)
    ultimately show "y \<in> (\<Union>v \<in> {v \<in> set (en_waitpoints w). wp_id v \<in> fst ` set ws}.
           {(wp_id v, Some (int k)) |k. k < length ws \<and> ?order ! k = wp_id v})"
      using y ab k by force
  qed
  finally show ?thesis .
qed

definition example_waitpoint :: waitpoint where
  "example_waitpoint = \<lparr>wp_id = ''w1'', wp_type = WP_RUN, wp_status = WP_PENDING, wp_idempotencyKey = ''k'',
     wp_userProvidedIdempotencyKey = False, wp_idempotencyKeyExpiresAt = None, wp_inactiveIdempotencyKey = None,
     wp_environmentId = ''e1'', wp_projectId = ''p1'', wp_completedAt = None, wp_completedAfter = None,
     wp_completedByTaskRunId = Some ''child'', wp_completedByBatchId = None, wp_output = None,
     wp_outputType = ''application/json'', wp_outputIsError = False\<rparr>"

definition example_input :: snapshot_input where
  "example_input = \<lparr>si_runId = ''run1'', si_runStatus = TaskRunStatus.EXECUTING, si_attemptNumber = Some 1,
     si_executionStatus = EXECUTING, si_description = ''d'', si_metadata = None, si_previousSnapshotId = None,
     si_batchId = None, si_environmentId = ''e1'', si_environmentType = PRODUCTION, si_projectId = ''p1'',
     si_organizationId = ''o1'', si_checkpointId = None, si_workerId = None, si_runnerId = None,
     si_completedWaitpoints = [], si_error = None\<rparr>"

definition empty_world :: world where
  "empty_world = \<lparr>en_runs = [], en_snapshots = [], en_waitpoints = [], en_edges = [], en_checkpoints = [], en_batches = [],
     en_jobs = (\<lambda>_. None), en_redis = empty_redis, en_debounce = (\<lambda>_. None), en_events = [], en_now = 1000, en_fresh = 0\<rparr>"

theorem completed_waitpoints_roundtrip_witness:
  "set (pass_on (snd (enhanceExecutionSnapshot
       (empty_world\<lparr>en_waitpoints := [example_waitpoint, example_waitpoint\<lparr>wp_id := ''w2''\<rparr>]\<rparr>)
       (snapshot_row ''s'' 5 (example_input\<lparr>si_completedWaitpoints :=
          [(''w2'', Some 2), (''w1'', Some 0), (''w2'', Some 1)]\<rparr>)))))
   = {(''w2'', Some 2), (''w1'', Some 0), (''w2'', Some 1)}"
  using completed_waitpoints_roundtrip [of "[(''w2'', Some 2), (''w1'', Some 0), (''w2'', Some 1)]"
      "example_input\<lparr>si_completedWaitpoints := [(''w2'', Some 2), (''w1'', Some 0), (''w2'', Some 1)]\<rparr>"
      "empty_world\<lparr>en_waitpoints := [example_waitpoint, example_waitpoint\<lparr>wp_id := ''w2''\<rparr>]\<rparr>" "''s''" 5]
  by (simp add: example_waitpoint_def upt_rec numeral_3_eq_3 add_mset_commute)

text \<open>
  A runner that polls a lagging replica is not handed a resume without its waitpoints: when the
  second reader, if it has the newest snapshot at all, has its links (they commit together),
  and the primary has the snapshot, the newest snapshot returned carries the waitpoints the
  primary links to it.
\<close>

theorem snapshots_since_repaired:
  assumes "getExecutionSnapshotsSince rows links (Some primary) envId i since = Inr result" "result \<noteq> []"
    and "row_of (sn_id (fst (last result))) primary = Some s"
    and "row_of (sn_id (fst (last result))) links \<in> {None, Some s}"
  shows "\<exists>client \<in> {links, primary}.
    set (map cw_id (snd (last result))) = wp_id ` set (waitpoints_of (sn_completedWaitpointIds s) client)"
proof -
  from assms(1) obtain t where t:
    "(case snapshots_after rows envId i t of [] \<Rightarrow> Inr [] | newest # older \<Rightarrow>
       (let (ids, client) = repaired_ids links (Some primary) newest; waitpoints = waitpoints_of ids client
        in Inr (map (\<lambda>s. enhanceExecutionSnapshotWithWaitpoints (en_now rows) s
             (if sn_id s = sn_id newest then waitpoints else []) (sn_completedWaitpointOrder newest))
          (rev (newest # older))))) = (Inr result :: engine_error + enhanced_snapshot list)"
    by (auto simp: getExecutionSnapshotsSince_def split: option.splits)
  with assms(2) obtain newest older where n: "snapshots_after rows envId i t = newest # older"
    by (cases "snapshots_after rows envId i t") auto
  obtain ids client where r: "repaired_ids links (Some primary) newest = (ids, client)"
    by fastforce
  have last: "last result = enhanceExecutionSnapshotWithWaitpoints (en_now rows) newest
      (waitpoints_of ids client) (sn_completedWaitpointOrder newest)"
    using t by (auto simp: n r Let_def)
  then have newest: "sn_id (fst (last result)) = sn_id newest"
    by (simp add: enhanceExecutionSnapshotWithWaitpoints_def)
  have "ids = sn_completedWaitpointIds s \<and> client \<in> {links, primary}"
    using r assms(3,4) unfolding newest
    by (auto simp: repaired_ids_def snapshot_waitpoint_ids_def Let_def split: option.splits if_splits)
  moreover have "set (map cw_id (snd (last result))) = wp_id ` set (waitpoints_of ids client)"
    unfolding last by (rule ids_of_enhanced)
  ultimately show ?thesis by blast
qed

definition example_world :: world where
  "example_world = empty_world\<lparr>en_waitpoints := [example_waitpoint],
     en_snapshots := [snapshot_row ''s2'' 7 (example_input\<lparr>si_completedWaitpoints := [(''w1'', None)]\<rparr>),
                      snapshot_row ''s1'' 5 example_input]\<rparr>"

theorem snapshots_since_repaired_witness:
  "(case getExecutionSnapshotsSince example_world empty_world (Some example_world) None ''run1'' ''s1'' of
      Inl _ \<Rightarrow> False
    | Inr result \<Rightarrow>
        (\<exists>client \<in> {empty_world, example_world}. set (map cw_id (snd (last result))) = wp_id ` set (waitpoints_of [''w1''] client)))"
proof -
  have e: "getExecutionSnapshotsSince example_world empty_world (Some example_world) None ''run1'' ''s1''
      = Inr [enhanceExecutionSnapshotWithWaitpoints 1000 (hd (en_snapshots example_world)) [example_waitpoint] []]"
    by (simp add: getExecutionSnapshotsSince_def example_world_def snapshot_row_def example_input_def truthy_def
        snapshots_after_def repaired_ids_def snapshot_waitpoint_ids_def row_of_def empty_world_def Let_def
        waitpoints_of_def example_waitpoint_def waitpoint_order_def)
  show ?thesis
    using snapshots_since_repaired [OF e, of "hd (en_snapshots example_world)"] unfolding e
    by (simp add: enhanceExecutionSnapshotWithWaitpoints_def row_of_def example_world_def snapshot_row_def
        example_input_def empty_world_def)
qed

end
