(* ===== verification/EnqueueSystem.thy ===== *)
theory EnqueueSystem
  imports Snapshots Duration
begin

text \<open>
  Putting a run into its queue (\<open>engine/systems/enqueueSystem.ts\<close>): the queued snapshot and the
  message the run queue gets.
\<close>

record enqueue_args =
  ea_status :: "TaskRunExecutionStatus option"
  ea_description :: "string option"
  ea_metadata :: "string option"
  ea_previousSnapshotId :: "string option"
  ea_batchId :: "string option"
  ea_checkpointId :: "string option"
  ea_completedWaitpoints :: "(string \<times> int option) list"
  ea_workerId :: "string option"
  ea_runnerId :: "string option"
  ea_includeTtl :: bool
  ea_anchorEligibilityAtQueuePosition :: bool
  ea_enableFastPath :: bool

definition no_args :: enqueue_args where
  "no_args = \<lparr>ea_status = None, ea_description = None, ea_metadata = None, ea_previousSnapshotId = None,
     ea_batchId = None, ea_checkpointId = None, ea_completedWaitpoints = [], ea_workerId = None,
     ea_runnerId = None, ea_includeTtl = False, ea_anchorEligibilityAtQueuePosition = False,
     ea_enableFastPath = False\<rparr>"

text \<open>When a run's time to live ends, counted from now; a text that does not parse sets no end.\<close>

definition ttl_expiry :: "int \<Rightarrow> bool \<Rightarrow> run \<Rightarrow> int option" where
  "ttl_expiry now includeTtl t =
     (if includeTtl
      then (case truthy (tr_ttl t) of None \<Rightarrow> None | Some d \<Rightarrow> parseNaturalLanguageDuration now d)
      else None)"

text \<open>The message \<open>publishRun\<close> builds; the queue fills in its key, worker queue and attempt.\<close>

definition run_message :: "int \<Rightarrow> run \<Rightarrow> environment \<Rightarrow> bool \<Rightarrow> bool \<Rightarrow> message" where
  "run_message now t env includeTtl anchor =
     (let position = or_default (tr_queueTimestamp t) (tr_createdAt t)
      in \<lparr>m_runId = tr_id t, m_orgId = env_organizationId env, m_projectId = env_projectId env,
          m_environmentId = env_id env, m_environmentType = env_type env, m_queue = tr_queue t,
          m_concurrencyKey = tr_concurrencyKey t, m_timestamp = position - tr_priorityMs t,
          m_eligibleAtMs = Some (if anchor then position else now), m_attempt = 0,
          m_ttlExpiresAt = ttl_expiry now includeTtl t, m_workerQueue = []\<rparr>)"

definition publishRun :: "engine_options \<Rightarrow> run \<Rightarrow> environment \<Rightarrow> bool \<Rightarrow> bool \<Rightarrow> bool \<Rightarrow> unit engine" where
  "publishRun cfg t env includeTtl anchor enableFastPath =
     andThen the_time (\<lambda>now.
       andThen (on_queue (enqueueMessage (eo_queue cfg) now env
           (if env_type env = DEVELOPMENT then env_id env else tr_workerQueue t) False enableFastPath
           (run_message now t env includeTtl anchor)))
         (\<lambda>_. ret ()))"

definition QUEUED_SNAPSHOT_DESCRIPTION :: string where
  "QUEUED_SNAPSHOT_DESCRIPTION = ''Run was QUEUED''"

definition queued_input :: "run \<Rightarrow> environment \<Rightarrow> enqueue_args \<Rightarrow> snapshot_input" where
  "queued_input t env a =
     \<lparr>si_runId = tr_id t, si_runStatus = tr_status t, si_attemptNumber = tr_attemptNumber t,
      si_executionStatus = or_default (ea_status a) QUEUED,
      si_description = or_default (ea_description a) QUEUED_SNAPSHOT_DESCRIPTION,
      si_metadata = ea_metadata a, si_previousSnapshotId = ea_previousSnapshotId a,
      si_batchId = ea_batchId a, si_environmentId = env_id env, si_environmentType = env_type env,
      si_projectId = env_projectId env, si_organizationId = env_organizationId env,
      si_checkpointId = ea_checkpointId a, si_workerId = ea_workerId a, si_runnerId = ea_runnerId a,
      si_completedWaitpoints = ea_completedWaitpoints a, si_error = None\<rparr>"

definition enqueueRun :: "engine_options \<Rightarrow> run \<Rightarrow> environment \<Rightarrow> enqueue_args \<Rightarrow> snapshot engine" where
  "enqueueRun cfg t env a =
     andThen (createExecutionSnapshot cfg (queued_input t env a)) (\<lambda>s.
       andDo (publishRun cfg t env (ea_includeTtl a) (ea_anchorEligibilityAtQueuePosition a)
           (ea_enableFastPath a))
         (ret s))"

section \<open>The effect of enqueueing\<close>

lemma on_queue_effect: "\<exists>x r. on_queue f w = (Inr x, w\<lparr>en_redis := r\<rparr>)"
  by (auto simp: on_queue_def split: prod.split)

lemma publishRun_effect: "\<exists>r. publishRun cfg t env a b c w = (Inr (), w\<lparr>en_redis := r\<rparr>)"
  by (auto simp: publishRun_def andThen_def the_time_def reading_def on_queue_def ret_def split: prod.split)

lemma enqueueRun_effect:
  "\<exists>f e r. enqueueRun cfg t env a w =
      (Inr (the_new_snapshot w (queued_input t env a)),
       w\<lparr>en_fresh := en_fresh w + 1,
         en_snapshots := the_new_snapshot w (queued_input t env a) # en_snapshots w,
         en_jobs := f, en_events := e, en_redis := r\<rparr>)
    \<and> (\<forall>k. k \<noteq> heartbeat_job (tr_id t) \<longrightarrow> f k = en_jobs w k)"
proof -
  let ?x = "queued_input t env a"
  obtain f e where c: "createExecutionSnapshot cfg ?x w =
      (Inr (the_new_snapshot w ?x), w\<lparr>en_fresh := en_fresh w + 1,
         en_snapshots := the_new_snapshot w ?x # en_snapshots w, en_jobs := f, en_events := e\<rparr>)"
    "\<forall>k. k \<noteq> heartbeat_job (si_runId ?x) \<longrightarrow> f k = en_jobs w k"
    using createExecutionSnapshot_effect by blast
  obtain r where "publishRun cfg t env (ea_includeTtl a) (ea_anchorEligibilityAtQueuePosition a) (ea_enableFastPath a)
      (w\<lparr>en_fresh := en_fresh w + 1, en_snapshots := the_new_snapshot w ?x # en_snapshots w,
         en_jobs := f, en_events := e\<rparr>) = (Inr (), w\<lparr>en_fresh := en_fresh w + 1,
         en_snapshots := the_new_snapshot w ?x # en_snapshots w, en_jobs := f, en_events := e, en_redis := r\<rparr>)"
    using publishRun_effect [of cfg t env _ _ _ "w\<lparr>en_fresh := en_fresh w + 1,
      en_snapshots := the_new_snapshot w ?x # en_snapshots w, en_jobs := f, en_events := e\<rparr>"] by fastforce
  with c show ?thesis
    by (intro exI [of _ f] exI [of _ e] exI [of _ r])
      (simp add: enqueueRun_def andThen_def andDo_def ret_def queued_input_def)
qed

lemma latest_after_enqueue:
  "latest i (w\<lparr>en_fresh := n, en_snapshots := the_new_snapshot w (queued_input t env a) # en_snapshots w,
       en_jobs := f, en_events := e, en_redis := r\<rparr>)
     = (if tr_id t = i then Some (the_new_snapshot w (queued_input t env a)) else latest i w)"
  by (simp add: latest_def latest_in_def truthy_def the_new_snapshot_def queued_input_def)

end
