(* ===== verification/Waitpoints.thy ===== *)
theory Waitpoints
  imports EnqueueSystem
begin

text \<open>
  Waitpoints (\<open>engine/systems/waitpointSystem.ts\<close>): creating and completing them, blocking a run
  on them and continuing it when nothing blocks it any more.

  A conflict of two writers on an idempotency key, after which the source tries again, does not
  arise between atomic steps; the upsert is the one that succeeds.
\<close>

section \<open>Timeouts\<close>

text \<open>\<open>Date.prototype.toISOString\<close>, for the years 0 to 9999.\<close>

definition padded :: "nat \<Rightarrow> int \<Rightarrow> string" where
  "padded n x = (let s = nat_to_string (nat x) in replicate (n - length s) (CHR ''0'') @ s)"

definition toISOString :: "int \<Rightarrow> string" where
  "toISOString t =
     (let days = t div 86400000; ms = t mod 86400000; z = days + 719468;
          era = z div 146097; doe = z mod 146097;
          yoe = (doe - doe div 1460 + doe div 36524 - doe div 146096) div 365;
          doy = doe - (365 * yoe + yoe div 4 - yoe div 100);
          mp = (5 * doy + 2) div 153; d = doy - (153 * mp + 2) div 5 + 1;
          m = (if mp < 10 then mp + 3 else mp - 9);
          y = yoe + era * 400 + (if m \<le> 2 then 1 else 0)
      in padded 4 y @ ''-'' @ padded 2 m @ ''-'' @ padded 2 d @ ''T'' @ padded 2 (ms div 3600000) @ '':''
         @ padded 2 (ms div 60000 mod 60) @ '':'' @ padded 2 (ms div 1000 mod 60) @ ''.''
         @ padded 3 (ms mod 1000) @ ''Z'')"

text \<open>\<open>JSON.stringify(timeoutError(timeout))\<close>.\<close>

definition timeoutError :: "int \<Rightarrow> string" where
  "timeoutError timeout =
     json_object [(''code'', json_string ''TRIGGER_WAITPOINT_TIMEOUT''),
       (''message'', json_string (''Waitpoint timed out at '' @ toISOString timeout))]"

definition finish_job :: "string \<Rightarrow> string" where
  "finish_job i = ''finishWaitpoint.'' @ i"

definition continue_job :: "string \<Rightarrow> string" where
  "continue_job i = ''continueRunIfUnblocked:'' @ i"

definition schedule_timeouts :: "int option \<Rightarrow> string list \<Rightarrow> unit engine" where
  "schedule_timeouts timeout wpIds =
     (case timeout of
        None \<Rightarrow> ret ()
      | Some t \<Rightarrow> forEach wpIds (\<lambda>i. enqueueJob (finish_job i) (finishWaitpoint i (Some (timeoutError t))) t))"

definition schedule_continue :: "string \<Rightarrow> unit engine" where
  "schedule_continue runId =
     andThen the_time (\<lambda>now. enqueueJob (continue_job runId) (continueRunIfUnblockedJob runId) (now + 50))"

section \<open>Completing a waitpoint\<close>

record waitpoint_output =
  wo_value :: string
  wo_type :: "string option"
  wo_isError :: bool

definition complete_row :: "int \<Rightarrow> waitpoint_output option \<Rightarrow> waitpoint \<Rightarrow> waitpoint" where
  "complete_row now out x =
     x\<lparr>wp_status := WP_COMPLETED, wp_completedAt := Some now,
       wp_output := (case out of None \<Rightarrow> wp_output x | Some v \<Rightarrow> Some (wo_value v)),
       wp_outputType := (case out of None \<Rightarrow> wp_outputType x | Some v \<Rightarrow> keep (wo_type v) (wp_outputType x)),
       wp_outputIsError := (case out of None \<Rightarrow> wp_outputIsError x | Some v \<Rightarrow> wo_isError v)\<rparr>"

definition continue_blocked :: "waitpoint \<Rightarrow> waitpoint_output option \<Rightarrow> edge \<Rightarrow> unit engine" where
  "continue_blocked x out e =
     andDo (schedule_continue (eg_taskRunId e))
       (case truthy (eg_spanIdToComplete e) of
          None \<Rightarrow> ret ()
        | Some spanId \<Rightarrow>
            emit (cachedRunCompleted spanId (eg_taskRunId e)
              (case out of None \<Rightarrow> False | Some v \<Rightarrow> wo_isError v) (wp_completedByTaskRunId x)))"

definition completeWaitpoint :: "string \<Rightarrow> waitpoint_output option \<Rightarrow> waitpoint engine" where
  "completeWaitpoint i out =
     andThen the_time (\<lambda>now.
     andThen (updateWaitpoints (\<lambda>x. wp_id x = i \<and> wp_status x = WP_PENDING) (complete_row now out)) (\<lambda>_.
     andThen (reading (waitpoint_of i)) (\<lambda>found.
     andThen (required found (Error ''Waitpoint not found'')) (\<lambda>x.
     andDo (require (wp_status x = WP_COMPLETED) (Error ''Waitpoint not completed''))
       (andThen (reading (\<lambda>w. filter (\<lambda>e. eg_waitpointId e = i) (en_edges w))) (\<lambda>es.
         andDo (forEach es (continue_blocked x out)) (ret x)))))))"

section \<open>Creating a waitpoint\<close>

text \<open>The columns of a new row that the caller does not choose.\<close>

definition new_waitpoint :: "string \<Rightarrow> waitpoint_type \<Rightarrow> string \<Rightarrow> string \<Rightarrow> string \<Rightarrow> waitpoint" where
  "new_waitpoint i type key environmentId projectId =
     \<lparr>wp_id = i, wp_type = type, wp_status = WP_PENDING, wp_idempotencyKey = key,
      wp_userProvidedIdempotencyKey = False, wp_idempotencyKeyExpiresAt = None, wp_inactiveIdempotencyKey = None,
      wp_environmentId = environmentId, wp_projectId = projectId, wp_completedAt = None, wp_completedAfter = None,
      wp_completedByTaskRunId = None, wp_completedByBatchId = None, wp_output = None,
      wp_outputType = ''application/json'', wp_outputIsError = False\<rparr>"

definition find_by_key :: "string \<Rightarrow> string \<Rightarrow> world \<Rightarrow> waitpoint option" where
  "find_by_key environmentId key w =
     List.find (\<lambda>x. wp_environmentId x = environmentId \<and> wp_idempotencyKey x = key) (en_waitpoints w)"

text \<open>\<open>upsertWaitpoint\<close> with an empty update.\<close>

definition upsertWaitpoint :: "waitpoint \<Rightarrow> waitpoint engine" where
  "upsertWaitpoint x =
     andThen (reading (find_by_key (wp_environmentId x) (wp_idempotencyKey x))) (\<lambda>found.
       case found of Some y \<Rightarrow> ret y | None \<Rightarrow> insertWaitpoint x)"

text \<open>
  The lookup both kinds share: the existing waitpoint of a key that has not expired. The key of
  one that has is moved to \<open>inactiveIdempotencyKey\<close>.
\<close>

definition cached_waitpoint :: "string \<Rightarrow> string option \<Rightarrow> waitpoint option engine" where
  "cached_waitpoint environmentId idempotencyKey =
     (case truthy idempotencyKey of
        None \<Rightarrow> ret None
      | Some key \<Rightarrow>
          andThen (reading (find_by_key environmentId key)) (\<lambda>found.
            case found of
              None \<Rightarrow> ret None
            | Some x \<Rightarrow>
                andThen the_time (\<lambda>now.
                  if (case wp_idempotencyKeyExpiresAt x of None \<Rightarrow> False | Some t \<Rightarrow> now > t)
                  then andThen (fresh_id ''key_'') (\<lambda>k.
                    andThen (updateWaitpoints (\<lambda>y. wp_id y = wp_id x)
                        (\<lambda>y. y\<lparr>wp_idempotencyKey := k, wp_inactiveIdempotencyKey := Some (wp_idempotencyKey x)\<rparr>))
                      (\<lambda>_. ret None))
                  else ret (Some x))))"

definition createWaitpointRow ::
    "waitpoint_type \<Rightarrow> string \<Rightarrow> string \<Rightarrow> string option \<Rightarrow> int option \<Rightarrow> int option \<Rightarrow> waitpoint engine" where
  "createWaitpointRow type projectId environmentId idempotencyKey keyExpiresAt completedAfter =
     andThen (fresh_id ''waitpoint_'') (\<lambda>i.
     andThen (fresh_id ''key_'') (\<lambda>k.
       upsertWaitpoint ((new_waitpoint i type (keep idempotencyKey k) environmentId projectId)
         \<lparr>wp_idempotencyKeyExpiresAt := keyExpiresAt,
          wp_userProvidedIdempotencyKey := (truthy idempotencyKey \<noteq> None),
          wp_completedAfter := completedAfter\<rparr>)))"

definition createDateTimeWaitpoint ::
    "string \<Rightarrow> string \<Rightarrow> int \<Rightarrow> string option \<Rightarrow> int option \<Rightarrow> (waitpoint \<times> bool) engine" where
  "createDateTimeWaitpoint projectId environmentId completedAfter idempotencyKey keyExpiresAt =
     andThen (cached_waitpoint environmentId idempotencyKey) (\<lambda>cached.
       case cached of
         Some x \<Rightarrow> ret (x, True)
       | None \<Rightarrow>
           andThen (createWaitpointRow WP_DATETIME projectId environmentId idempotencyKey keyExpiresAt
               (Some completedAfter)) (\<lambda>x.
             andDo (enqueueJob (finish_job (wp_id x)) (finishWaitpoint (wp_id x) None) completedAfter)
               (ret (x, False))))"

definition createManualWaitpoint ::
    "string \<Rightarrow> string \<Rightarrow> string option \<Rightarrow> int option \<Rightarrow> int option \<Rightarrow> (waitpoint \<times> bool) engine" where
  "createManualWaitpoint projectId environmentId idempotencyKey keyExpiresAt timeout =
     andThen (cached_waitpoint environmentId idempotencyKey) (\<lambda>cached.
       case cached of
         Some x \<Rightarrow> ret (x, True)
       | None \<Rightarrow>
           andThen (createWaitpointRow WP_MANUAL projectId environmentId idempotencyKey keyExpiresAt timeout) (\<lambda>x.
             andDo (schedule_timeouts timeout [wp_id x]) (ret (x, False))))"

text \<open>\<open>buildRunAssociatedWaitpoint\<close>.\<close>

definition buildRunAssociatedWaitpoint :: "string \<Rightarrow> string \<Rightarrow> waitpoint engine" where
  "buildRunAssociatedWaitpoint projectId environmentId =
     andThen (fresh_id ''waitpoint_'') (\<lambda>i. andThen (fresh_id ''key_'') (\<lambda>k.
       ret (new_waitpoint i WP_RUN k environmentId projectId)))"

text \<open>\<open>#buildWaitpointOutputFromRun\<close>.\<close>

definition buildWaitpointOutputFromRun :: "run \<Rightarrow> waitpoint_output option" where
  "buildWaitpointOutputFromRun t =
     (if tr_status t = COMPLETED_SUCCESSFULLY
      then map_option (\<lambda>v. \<lparr>wo_value = v, wo_type = Some (tr_outputType t), wo_isError = False\<rparr>) (tr_output t)
      else if isFinalRunStatus (tr_status t)
      then Some \<lparr>wo_value = (case tr_error t of None \<Rightarrow> ''{}'' | Some e \<Rightarrow> stringify_error e),
                 wo_type = None, wo_isError = True\<rparr>
      else None)"

definition getOrCreateRunWaitpoint :: "string \<Rightarrow> string \<Rightarrow> string \<Rightarrow> waitpoint engine" where
  "getOrCreateRunWaitpoint runId projectId environmentId =
     andThen (findRun runId) (\<lambda>found.
     andThen (required found (Error (''Run not found: '' @ runId))) (\<lambda>t.
     andThen (reading (associatedWaitpoint runId)) (\<lambda>existing.
       case existing of
         Some x \<Rightarrow> ret x
       | None \<Rightarrow>
           andThen (getLatestExecutionSnapshot None runId) (\<lambda>(s, _).
           andThen (buildRunAssociatedWaitpoint projectId environmentId) (\<lambda>x.
           andThen (insertWaitpoint (x\<lparr>wp_completedByTaskRunId := Some runId\<rparr>)) (\<lambda>x.
             if sn_executionStatus s = FINISHED
             then completeWaitpoint (wp_id x) (buildWaitpointOutputFromRun t)
             else ret x))))))"

section \<open>Blocking a run\<close>

text \<open>The snapshot that carries a run on from \<open>s\<close>, in the run's state as \<open>s\<close> has it.\<close>

definition follow_up :: "snapshot \<Rightarrow> TaskRunExecutionStatus \<Rightarrow> string \<Rightarrow> snapshot_input" where
  "follow_up s executionStatus description =
     \<lparr>si_runId = sn_runId s, si_runStatus = sn_runStatus s, si_attemptNumber = sn_attemptNumber s,
      si_executionStatus = executionStatus, si_description = description, si_metadata = None,
      si_previousSnapshotId = Some (sn_id s), si_batchId = None, si_environmentId = sn_environmentId s,
      si_environmentType = sn_environmentType s, si_projectId = sn_projectId s,
      si_organizationId = sn_organizationId s, si_checkpointId = None, si_workerId = None,
      si_runnerId = None, si_completedWaitpoints = [], si_error = None\<rparr>"

record block_args =
  ba_projectId :: string
  ba_organizationId :: string
  ba_timeout :: "int option"
  ba_spanIdToComplete :: "string option"
  ba_batch :: "(string \<times> int option) option"
  ba_workerId :: "string option"
  ba_runnerId :: "string option"

definition blocked_status :: "TaskRunExecutionStatus \<Rightarrow> TaskRunExecutionStatus" where
  "blocked_status s =
     (if s = EXECUTING \<or> s = EXECUTING_WITH_WAITPOINTS then EXECUTING_WITH_WAITPOINTS else SUSPENDED)"

definition blockRunWithWaitpoint ::
    "engine_options \<Rightarrow> string \<Rightarrow> string list \<Rightarrow> block_args \<Rightarrow> snapshot engine" where
  "blockRunWithWaitpoint cfg runId wpIds a =
     andThen (getLatestExecutionSnapshot None runId) (\<lambda>(s, _).
     andDo (blockRunWithWaitpointEdges runId wpIds (ba_projectId a) (ba_spanIdToComplete a) (ba_batch a))
     (andThen (countPendingWaitpoints wpIds) (\<lambda>pendingCount.
     andThen
       (let newStatus = blocked_status (sn_executionStatus s)
        in if newStatus \<noteq> sn_executionStatus s
           then andThen (createExecutionSnapshot cfg
                  ((follow_up s newStatus ''Run was blocked by a waitpoint.'')
                     \<lparr>si_organizationId := ba_organizationId a, si_batchId := map_option fst (ba_batch a),
                      si_workerId := ba_workerId a, si_runnerId := ba_runnerId a\<rparr>)) (\<lambda>s'.
                andDo (sendNotificationToWorker runId s') (ret s'))
           else ret s) (\<lambda>s'.
     andDo (schedule_timeouts (ba_timeout a) wpIds)
       (andDo (whenever (pendingCount = 0) (schedule_continue runId)) (ret s'))))))"

definition blockRunWithWaitpointLockless :: "string \<Rightarrow> string list \<Rightarrow> block_args \<Rightarrow> unit engine" where
  "blockRunWithWaitpointLockless runId wpIds a =
     andDo (blockRunWithWaitpointEdges runId wpIds (ba_projectId a) (ba_spanIdToComplete a) (ba_batch a))
       (schedule_timeouts (ba_timeout a) wpIds)"

definition blockRunAndCompleteWaitpoint ::
    "engine_options \<Rightarrow> string \<Rightarrow> string \<Rightarrow> waitpoint_output \<Rightarrow> block_args \<Rightarrow> unit engine" where
  "blockRunAndCompleteWaitpoint cfg runId wpId out a =
     andDo (blockRunWithWaitpoint cfg runId [wpId]
         (a\<lparr>ba_timeout := None, ba_spanIdToComplete := None, ba_workerId := None, ba_runnerId := None\<rparr>))
       (andDo (completeWaitpoint wpId (Some out)) (ret ()))"

text \<open>\<open>clearBlockingWaitpoints\<close>.\<close>

definition clearBlockingWaitpoints :: "string \<Rightarrow> nat engine" where
  "clearBlockingWaitpoints runId = deleteEdges (\<lambda>e. eg_taskRunId e = runId)"

section \<open>Continuing a run\<close>

datatype continuation =
    blocked "waitpoint list"
  | skipped string
  | unblocked "waitpoint list"

text \<open>The edges of a run with their waitpoints; an edge without one is an error of the query.\<close>

definition blockers :: "string \<Rightarrow> world \<Rightarrow> (edge \<times> waitpoint) list option" where
  "blockers runId w =
     those (map (\<lambda>e. map_option (Pair e) (waitpoint_of (eg_waitpointId e) w)) (edges_of runId w))"

definition completed_of :: "(edge \<times> waitpoint) list \<Rightarrow> (string \<times> int option) list" where
  "completed_of bs = map (\<lambda>(e, x). (wp_id x, eg_batchIndex e)) bs"

text \<open>The last step: remove the edges that were read.\<close>

definition remove_blockers :: "string \<Rightarrow> (edge \<times> waitpoint) list \<Rightarrow> continuation engine" where
  "remove_blockers runId bs =
     andDo (whenever (bs \<noteq> [])
         (andThen (deleteEdges (\<lambda>e. eg_taskRunId e = runId \<and> eg_id e \<in> set (map (eg_id \<circ> fst) bs))) (\<lambda>_. ret ())))
       (ret (unblocked (map snd bs)))"

definition continue_by_status ::
    "engine_options \<Rightarrow> run \<Rightarrow> environment \<Rightarrow> snapshot \<Rightarrow> (edge \<times> waitpoint) list \<Rightarrow> continuation engine" where
  "continue_by_status cfg t env s bs =
     (case sn_executionStatus s of
        RUN_CREATED \<Rightarrow> ret (skipped ''run is already executing'')
      | DELAYED \<Rightarrow> ret (skipped ''run is delayed'')
      | QUEUED \<Rightarrow> ret (skipped ''run is already queued'')
      | PENDING_EXECUTING \<Rightarrow> ret (skipped ''run is already pending executing'')
      | QUEUED_EXECUTING \<Rightarrow> ret (skipped ''run is already queued executing'')
      | EXECUTING \<Rightarrow> ret (skipped ''run is already executing'')
      | PENDING_CANCEL \<Rightarrow> ret (skipped ''run is finished'')
      | FINISHED \<Rightarrow> ret (skipped ''run is finished'')
      | EXECUTING_WITH_WAITPOINTS \<Rightarrow>
          andThen (createExecutionSnapshot cfg
              ((follow_up s EXECUTING ''Run was continued, whilst still executing.'')
                 \<lparr>si_runId := tr_id t, si_batchId := sn_batchId s, si_completedWaitpoints := completed_of bs\<rparr>)) (\<lambda>s'.
            andDo (sendNotificationToWorker (tr_id t) s') (remove_blockers (tr_id t) bs))
      | SUSPENDED \<Rightarrow>
          (case truthy (sn_checkpointId s) of
             None \<Rightarrow>
               if sn_runStatus s = CANCELED then ret (skipped ''run was canceled while suspended'')
               else throw (Error (''continueRunIfUnblocked: run is suspended, but has no checkpoint: '' @ tr_id t))
           | Some cp \<Rightarrow>
               andThen (enqueueRun cfg t env
                   (no_args\<lparr>ea_status := Some QUEUED,
                      ea_description := Some ''Run was QUEUED, because all waitpoints are completed'',
                      ea_batchId := sn_batchId s, ea_completedWaitpoints := completed_of bs,
                      ea_checkpointId := Some cp\<rparr>))
                 (\<lambda>_. remove_blockers (tr_id t) bs)))"

definition continueRunIfUnblocked :: "engine_options \<Rightarrow> string \<Rightarrow> continuation engine" where
  "continueRunIfUnblocked cfg runId =
     andThen (reading (blockers runId)) (\<lambda>found.
     andThen (required found RecordNotFound) (\<lambda>bs.
       if list_ex (\<lambda>(e, x). wp_status x \<noteq> WP_COMPLETED) bs then ret (blocked (map snd bs))
       else
         andThen (findRun runId) (\<lambda>row.
         andThen (required row (Error (''continueRunIfUnblocked: run not found: '' @ runId))) (\<lambda>t.
         andThen (required (eo_resolveEnv cfg (tr_runtimeEnvironmentId t))
             (Error (''continueRunIfUnblocked: environment not found: '' @ tr_runtimeEnvironmentId t))) (\<lambda>env.
         andThen (getLatestExecutionSnapshot None runId) (\<lambda>(s, _).
           continue_by_status cfg t env s bs))))))"

section \<open>Effects of the operations\<close>

text \<open>What scheduling leaves alone.\<close>

definition tables :: "world \<Rightarrow> (run list \<times> snapshot list) \<times> waitpoint list \<times> edge list \<times> int" where
  "tables w = (core w, en_waitpoints w, en_edges w, en_now w)"

lemma tables_update [simp]:
  "tables (w\<lparr>en_jobs := a\<rparr>) = tables w" "tables (w\<lparr>en_events := b\<rparr>) = tables w"
  "tables (w\<lparr>en_fresh := c\<rparr>) = tables w" "tables (w\<lparr>en_redis := d\<rparr>) = tables w"
  by (simp_all add: tables_def core_def)

lemma tables_eqD:
  assumes "tables w = tables w'"
  shows "core w = core w'" "en_waitpoints w = en_waitpoints w'" "en_edges w = en_edges w'"
    "en_now w = en_now w'" "edges_of r w = edges_of r w'" "latest i w = latest i w'"
  using assms by (auto simp: tables_def edges_of_def intro: core_eqD)

lemma continue_job_inject [simp]: "continue_job r = continue_job r' \<longleftrightarrow> r = r'"
  by (simp add: continue_job_def)

lemma finish_job_not_continue [simp]:
  "finish_job i \<noteq> continue_job r" "heartbeat_job i \<noteq> continue_job r"
  "continue_job r \<noteq> finish_job i" "continue_job r \<noteq> heartbeat_job i"
  by (simp_all add: finish_job_def continue_job_def heartbeat_job_def)

definition continue_at :: "string \<Rightarrow> int \<Rightarrow> job" where
  "continue_at r now = \<lparr>jb_payload = continueRunIfUnblockedJob r, jb_availableAt = now + 50\<rparr>"

lemma schedule_continue_eq:
  "schedule_continue r w = (Inr (), w\<lparr>en_jobs := (en_jobs w)(continue_job r := Some (continue_at r (en_now w)))\<rparr>)"
  by (simp add: schedule_continue_def andThen_def effects continue_at_def)

lemma continue_blocked_effect:
  "\<exists>w'. continue_blocked x out e w = (Inr (), w') \<and> tables w' = tables w \<and>
     en_jobs w' = (en_jobs w)(continue_job (eg_taskRunId e) := Some (continue_at (eg_taskRunId e) (en_now w)))"
  by (simp add: continue_blocked_def andDo_def andThen_def schedule_continue_eq ret_def emit_def modify_def
      split: option.split)

lemma continue_all_effect:
  "\<exists>w'. forEach es (continue_blocked x out) w = (Inr (), w') \<and> tables w' = tables w \<and>
     (\<forall>k. en_jobs w' k = (if k \<in> (continue_job \<circ> eg_taskRunId) ` set es
        then Some (continue_at (drop (length (continue_job [])) k) (en_now w)) else en_jobs w k))"
proof (induction es arbitrary: w)
  case Nil
  then show ?case by (simp add: ret_def)
next
  case (Cons e es)
  obtain w1 where w1: "continue_blocked x out e w = (Inr (), w1)" "tables w1 = tables w"
    "en_jobs w1 = (en_jobs w)(continue_job (eg_taskRunId e) := Some (continue_at (eg_taskRunId e) (en_now w)))"
    using continue_blocked_effect by blast
  from Cons [of w1] obtain w2 where w2: "forEach es (continue_blocked x out) w1 = (Inr (), w2)" "tables w2 = tables w1"
    "\<And>k. en_jobs w2 k = (if k \<in> (continue_job \<circ> eg_taskRunId) ` set es
        then Some (continue_at (drop (length (continue_job [])) k) (en_now w1)) else en_jobs w1 k)"
    by blast
  have "drop (length (continue_job [])) (continue_job r) = r" for r
    by (simp add: continue_job_def)
  with w1 w2 tables_eqD(4) [OF w1(2)] show ?case
    by (intro exI [of _ w2]) (auto simp: andDo_def andThen_def image_iff)
qed

text \<open>The rows after a completion.\<close>

definition completed_rows :: "int \<Rightarrow> string \<Rightarrow> waitpoint_output option \<Rightarrow> waitpoint list \<Rightarrow> waitpoint list" where
  "completed_rows now i out xs =
     map (\<lambda>x. if wp_id x = i \<and> wp_status x = WP_PENDING then complete_row now out x else x) xs"

lemma complete_row_simps [simp]:
  "wp_id (complete_row now out x) = wp_id x" "wp_status (complete_row now out x) = WP_COMPLETED"
  by (simp_all add: complete_row_def)

lemma completed_rows_status:
  "x \<in> set (completed_rows now i out xs) \<Longrightarrow> wp_id x = i \<Longrightarrow> wp_status x = WP_COMPLETED"
proof -
  assume x: "x \<in> set (completed_rows now i out xs)" "wp_id x = i"
  from x(1) obtain y where "x = (if wp_id y = i \<and> wp_status y = WP_PENDING then complete_row now out y else y)"
    unfolding completed_rows_def set_map by blast
  with x(2) show ?thesis by (cases "wp_status y") (simp_all split: if_splits)
qed

lemma completed_rows_ids: "map wp_id (completed_rows now i out xs) = map wp_id xs"
  by (simp add: completed_rows_def)

lemma completed_rows_idem: "completed_rows now' i out' (completed_rows now i out xs) = completed_rows now i out xs"
  by (auto simp: completed_rows_def)

lemma completed_rows_missing:
  "\<forall>x \<in> set xs. wp_id x \<noteq> i \<Longrightarrow> completed_rows now i out xs = xs"
  by (induction xs) (auto simp: completed_rows_def)

lemma completeWaitpoint_effect:
  "\<exists>w'. snd (completeWaitpoint i out w) = w' \<and> core w' = core w \<and> en_edges w' = en_edges w \<and>
     en_now w' = en_now w \<and> en_waitpoints w' = completed_rows (en_now w) i out (en_waitpoints w) \<and>
     (if \<exists>x \<in> set (en_waitpoints w). wp_id x = i
      then (\<exists>x. fst (completeWaitpoint i out w) = Inr x \<and> wp_id x = i \<and> wp_status x = WP_COMPLETED
                \<and> x \<in> set (en_waitpoints w')) \<and>
           (\<forall>k. en_jobs w' k = (if k \<in> (continue_job \<circ> eg_taskRunId) ` {e \<in> set (en_edges w). eg_waitpointId e = i}
              then Some (continue_at (drop (length (continue_job [])) k) (en_now w)) else en_jobs w k))
      else fst (completeWaitpoint i out w) = Inl (Error ''Waitpoint not found'') \<and> w' = w)"
proof -
  let ?w = "w\<lparr>en_waitpoints := completed_rows (en_now w) i out (en_waitpoints w)\<rparr>"
  have u: "updateWaitpoints (\<lambda>x. wp_id x = i \<and> wp_status x = WP_PENDING) (complete_row (en_now w) out) w
      = (Inr (length (filter (\<lambda>x. wp_id x = i \<and> wp_status x = WP_PENDING) (en_waitpoints w))), ?w)"
    by (simp add: updateWaitpoints_def completed_rows_def)
  show ?thesis
  proof (cases "\<exists>x \<in> set (en_waitpoints w). wp_id x = i")
    case True
    then have "i \<in> set (map wp_id (completed_rows (en_now w) i out (en_waitpoints w)))"
      unfolding completed_rows_ids by auto
    then have "\<exists>x \<in> set (en_waitpoints ?w). wp_id x = i" by auto
    then obtain x where x: "waitpoint_of i ?w = Some x"
      by (metis (mono_tags, lifting) find_None_iff not_None_eq waitpoint_of_def)
    then have "x \<in> set (en_waitpoints ?w)" "wp_id x = i"
      by (auto simp: waitpoint_of_def find_Some_iff)
    moreover then have "wp_status x = WP_COMPLETED"
      using completed_rows_status by simp
    moreover obtain w' where w': "forEach (filter (\<lambda>e. eg_waitpointId e = i) (en_edges w)) (continue_blocked x out) ?w = (Inr (), w')"
      "tables w' = tables ?w"
      "\<forall>k. en_jobs w' k = (if k \<in> (continue_job \<circ> eg_taskRunId) ` set (filter (\<lambda>e. eg_waitpointId e = i) (en_edges w))
        then Some (continue_at (drop (length (continue_job [])) k) (en_now ?w)) else en_jobs ?w k)"
      using continue_all_effect by blast
    moreover have "completeWaitpoint i out w = (Inr x, w')"
      using x w'(1) \<open>wp_status x = WP_COMPLETED\<close>
      by (simp add: completeWaitpoint_def andThen_def andDo_def the_time_def reading_def u required_def
          require_def ret_def)
    ultimately show ?thesis
      using True tables_eqD [OF w'(2)] by (intro exI [of _ w']) auto
  next
    case False
    then have same: "completed_rows (en_now w) i out (en_waitpoints w) = en_waitpoints w"
      by (intro completed_rows_missing) auto
    have "waitpoint_of i w = None"
      using False by (auto simp: waitpoint_of_def find_None_iff)
    then have "completeWaitpoint i out w = (Inl (Error ''Waitpoint not found''), w)"
      by (simp add: completeWaitpoint_def andThen_def the_time_def reading_def u same required_def throw_def)
    with False same show ?thesis by simp
  qed
qed

subsection \<open>Edges\<close>

definition only_edges :: "world \<Rightarrow> world \<Rightarrow> bool" where
  "only_edges w w' = (core w' = core w \<and> en_waitpoints w' = en_waitpoints w \<and> en_jobs w' = en_jobs w
     \<and> en_now w' = en_now w \<and> set (en_edges w) \<subseteq> set (en_edges w'))"

lemma only_edges_trans: "only_edges w w1 \<Longrightarrow> only_edges w1 w2 \<Longrightarrow> only_edges w w2"
  by (auto simp: only_edges_def)

lemma add_edge_effect:
  "\<exists>w'. add_edge r p s b i w = (Inr (), w') \<and> only_edges w w' \<and>
     (\<exists>e \<in> set (edges_of r w'). eg_waitpointId e = i) \<and> (\<forall>q. q \<noteq> r \<longrightarrow> edges_of q w' = edges_of q w)"
proof (cases "has_edge r i (case b of None \<Rightarrow> None | Some x \<Rightarrow> snd x) (en_edges w)")
  case True
  then have "\<exists>e \<in> set (edges_of r w). eg_waitpointId e = i"
    by (auto simp: has_edge_def list_ex_iff edges_of_def)
  moreover have "add_edge r p s b i w = (Inr (), w\<lparr>en_fresh := en_fresh w + 1\<rparr>)"
    using True by (simp add: add_edge_def andThen_def fresh_id_def modify_def Let_def)
  moreover have "only_edges w (w\<lparr>en_fresh := en_fresh w + 1\<rparr>)"
    by (simp add: only_edges_def)
  moreover have "edges_of q (w\<lparr>en_fresh := en_fresh w + 1\<rparr>) = edges_of q w" for q
    by (simp add: edges_of_def)
  ultimately show ?thesis by auto
next
  case False
  let ?e = "\<lparr>eg_id = ''edge_'' @ nat_to_string (en_fresh w), eg_taskRunId = r, eg_waitpointId = i, eg_projectId = p,
    eg_spanIdToComplete = s, eg_batchId = map_option fst b,
    eg_batchIndex = (case b of None \<Rightarrow> None | Some x \<Rightarrow> snd x), eg_createdAt = en_now w\<rparr>"
  let ?w = "w\<lparr>en_fresh := en_fresh w + 1, en_edges := en_edges w @ [?e]\<rparr>"
  have "add_edge r p s b i w = (Inr (), ?w)"
    using False by (simp add: add_edge_def andThen_def fresh_id_def modify_def Let_def)
  moreover have "only_edges w ?w" by (auto simp: only_edges_def)
  moreover have "\<exists>e \<in> set (edges_of r ?w). eg_waitpointId e = i" by (simp add: edges_of_def)
  moreover have "\<forall>q. q \<noteq> r \<longrightarrow> edges_of q ?w = edges_of q w"
    by (simp add: edges_of_def)
  ultimately show ?thesis by blast
qed

lemma blockEdges_effect:
  "\<exists>w'. blockRunWithWaitpointEdges r ids p s b w = (Inr (), w') \<and> only_edges w w' \<and>
     (\<forall>i \<in> set ids. \<exists>e \<in> set (edges_of r w'). eg_waitpointId e = i) \<and>
     (\<forall>q. q \<noteq> r \<longrightarrow> edges_of q w' = edges_of q w)"
  unfolding blockRunWithWaitpointEdges_def
proof (induction ids arbitrary: w)
  case Nil
  then show ?case by (simp add: ret_def only_edges_def)
next
  case (Cons i ids)
  obtain w1 where w1: "add_edge r p s b i w = (Inr (), w1)" "only_edges w w1"
    "\<exists>e \<in> set (edges_of r w1). eg_waitpointId e = i" "\<forall>q. q \<noteq> r \<longrightarrow> edges_of q w1 = edges_of q w"
    using add_edge_effect by blast
  obtain w2 where w2: "forEach ids (add_edge r p s b) w1 = (Inr (), w2)" "only_edges w1 w2"
    "\<forall>i \<in> set ids. \<exists>e \<in> set (edges_of r w2). eg_waitpointId e = i" "\<forall>q. q \<noteq> r \<longrightarrow> edges_of q w2 = edges_of q w1"
    using Cons by blast
  have "\<exists>e \<in> set (edges_of r w2). eg_waitpointId e = i"
    using w1(3) w2(2) by (auto simp: edges_of_def only_edges_def)
  with w1 w2 only_edges_trans [OF w1(2) w2(2)] show ?case
    by (intro exI [of _ w2]) (simp add: andDo_def andThen_def)
qed

lemma schedule_timeouts_effect:
  "\<exists>w'. schedule_timeouts t ids w = (Inr (), w') \<and> tables w' = tables w \<and>
     (\<forall>r. en_jobs w' (continue_job r) = en_jobs w (continue_job r))"
proof (cases t)
  case None
  then show ?thesis by (simp add: schedule_timeouts_def ret_def)
next
  case (Some a)
  have "\<exists>w'. forEach ids (\<lambda>i. enqueueJob (finish_job i) (finishWaitpoint i (Some (timeoutError a))) a) w = (Inr (), w')
     \<and> tables w' = tables w \<and> (\<forall>r. en_jobs w' (continue_job r) = en_jobs w (continue_job r))"
  proof (induction ids arbitrary: w)
    case (Cons i ids)
    show ?case
      using Cons [of "w\<lparr>en_jobs := (en_jobs w)(finish_job i := Some \<lparr>jb_payload = finishWaitpoint i (Some (timeoutError a)),
        jb_availableAt = a\<rparr>)\<rparr>"] by (simp add: andDo_def andThen_def enqueueJob_def modify_def)
  qed (simp add: ret_def)
  with Some show ?thesis by (simp add: schedule_timeouts_def)
qed

subsection \<open>Continuing\<close>

lemma remove_blockers_effect:
  "\<exists>w'. remove_blockers r bs w = (Inr (unblocked (map snd bs)), w') \<and> core w' = core w \<and>
     en_waitpoints w' = en_waitpoints w \<and> en_jobs w' = en_jobs w \<and> en_now w' = en_now w \<and>
     (\<forall>q. edges_of q w' = (if q = r then filter (\<lambda>e. eg_id e \<notin> set (map (eg_id \<circ> fst) bs)) (edges_of q w)
                            else edges_of q w))"
proof (cases "bs = []")
  case True
  then show ?thesis by (simp add: remove_blockers_def andDo_def andThen_def whenever_def ret_def)
next
  case False
  let ?w = "w\<lparr>en_edges := filter (\<lambda>e. \<not> (eg_taskRunId e = r \<and> eg_id e \<in> set (map (eg_id \<circ> fst) bs))) (en_edges w)\<rparr>"
  have "remove_blockers r bs w = (Inr (unblocked (map snd bs)), ?w)"
    using False by (simp add: remove_blockers_def andDo_def andThen_def whenever_def ret_def deleteEdges_def)
  moreover have "edges_of q ?w = (if q = r then filter (\<lambda>e. eg_id e \<notin> set (map (eg_id \<circ> fst) bs)) (edges_of q w)
      else edges_of q w)" for q
    by (auto simp: edges_of_def intro: filter_cong)
  ultimately show ?thesis by simp
qed

lemma blockers_edges: "blockers r w = Some bs \<Longrightarrow> map fst bs = edges_of r w"
proof -
  have "those (map (\<lambda>e. map_option (Pair e) (f e)) es) = Some bs \<Longrightarrow> map fst bs = es"
    for f :: "edge \<Rightarrow> waitpoint option" and es
    by (induction es arbitrary: bs) (auto split: option.splits)
  then show "blockers r w = Some bs \<Longrightarrow> map fst bs = edges_of r w"
    by (simp add: blockers_def)
qed

lemma blockers_waitpoints:
  "blockers r w = Some bs \<Longrightarrow> (e, x) \<in> set bs \<Longrightarrow>
   e \<in> set (edges_of r w) \<and> x \<in> set (en_waitpoints w) \<and> wp_id x = eg_waitpointId e"
proof -
  have "those (map (\<lambda>e. map_option (Pair e) (f e)) es) = Some bs \<Longrightarrow> (e, x) \<in> set bs \<Longrightarrow>
      e \<in> set es \<and> f e = Some x" for f :: "edge \<Rightarrow> waitpoint option" and es
    by (induction es arbitrary: bs) (auto split: option.splits)
  from this [of "\<lambda>e. waitpoint_of (eg_waitpointId e) w" "edges_of r w"]
  show "blockers r w = Some bs \<Longrightarrow> (e, x) \<in> set bs \<Longrightarrow>
    e \<in> set (edges_of r w) \<and> x \<in> set (en_waitpoints w) \<and> wp_id x = eg_waitpointId e"
    by (auto simp: blockers_def waitpoint_of_def find_Some_iff)
qed

lemma run_of_id: "run_of r w = Some t \<Longrightarrow> tr_id t = r"
  by (auto simp: run_of_def find_Some_iff)

text \<open>The four ways a call can end.\<close>

lemma continue_cases:
  obtains (throws) e where "continueRunIfUnblocked cfg r w = (Inl e, w)"
  | (blocked) bs where "blockers r w = Some bs" "list_ex (\<lambda>(e, x). wp_status x \<noteq> WP_COMPLETED) bs"
      "continueRunIfUnblocked cfg r w = (Inr (blocked (map snd bs)), w)"
  | (skipped) s why where "latest r w = Some s" "continueRunIfUnblocked cfg r w = (Inr (skipped why), w)"
      "sn_executionStatus s \<noteq> EXECUTING_WITH_WAITPOINTS"
      "sn_executionStatus s = SUSPENDED \<Longrightarrow> sn_runStatus s = CANCELED"
  | (unblocked) bs s w' where "blockers r w = Some bs" "list_all (\<lambda>(e, x). wp_status x = WP_COMPLETED) bs"
      "continueRunIfUnblocked cfg r w = (Inr (unblocked (map snd bs)), w')"
      "edges_of r w' = []" "latest r w' = Some s" "sn_executionStatus s \<in> {EXECUTING, QUEUED}"
      "sn_completedWaitpointIds s = remdups (map (wp_id \<circ> snd) bs)"
      "en_waitpoints w' = en_waitpoints w"
      "\<And>q. q \<noteq> r \<Longrightarrow> latest q w' = latest q w \<and> edges_of q w' = edges_of q w"
      "\<And>q. en_jobs w' (continue_job q) = en_jobs w (continue_job q)" "en_now w' = en_now w"
proof (cases "blockers r w")
  case None
  then show ?thesis
    by (intro throws) (simp add: continueRunIfUnblocked_def andThen_def reading_def required_def throw_def)
next
  case (Some bs)
  show ?thesis
  proof (cases "list_ex (\<lambda>(e, x). wp_status x \<noteq> WP_COMPLETED) bs")
    case True
    with Some show ?thesis
      by (intro blocked) (simp_all add: continueRunIfUnblocked_def andThen_def reading_def required_def ret_def)
  next
    case False
    then have all: "list_all (\<lambda>(e, x). wp_status x = WP_COMPLETED) bs"
      by (auto simp: list_ex_iff list_all_iff)
    show ?thesis
    proof (cases "\<exists>t env s. run_of r w = Some t \<and> eo_resolveEnv cfg (tr_runtimeEnvironmentId t) = Some env
        \<and> latest_in None r w = Some s")
      case no: False
      have "\<exists>e. continueRunIfUnblocked cfg r w = (Inl e, w)"
      proof (cases "run_of r w")
        case None
        with Some False show ?thesis
          by (simp add: continueRunIfUnblocked_def andThen_def reading_def required_def throw_def ret_def)
      next
        case t: (Some t)
        show ?thesis
        proof (cases "eo_resolveEnv cfg (tr_runtimeEnvironmentId t)")
          case None
          with Some False t show ?thesis
            by (simp add: continueRunIfUnblocked_def andThen_def reading_def required_def throw_def ret_def)
        next
          case (Some env)
          with no t have "latest_in None r w = None" by auto
          with Some False t \<open>blockers r w = Some bs\<close> show ?thesis
            by (simp add: continueRunIfUnblocked_def andThen_def reading_def required_def throw_def ret_def
                getLatest_simps)
        qed
      qed
      then show ?thesis using throws by blast
    next
      case True
      then obtain t env s where t: "run_of r w = Some t" and env: "eo_resolveEnv cfg (tr_runtimeEnvironmentId t) = Some env"
        and s: "latest_in None r w = Some s" by blast
      have eq: "continueRunIfUnblocked cfg r w = continue_by_status cfg t env s bs w"
        using Some False t env s
        by (cases "enhanceExecutionSnapshot w s")
          (use fst_enhance [of w s] in \<open>simp add: continueRunIfUnblocked_def andThen_def reading_def required_def
            ret_def getLatest_simps\<close>)
      have l: "latest r w = Some s" using s by (simp add: latest_def)
      have id: "tr_id t = r" using t by (rule run_of_id)
      have finish: thesis if 1: "continue_by_status cfg t env s bs w = remove_blockers r bs w1"
        and 2: "latest r w1 = Some s1" "sn_executionStatus s1 \<in> {EXECUTING, QUEUED}"
          "sn_completedWaitpointIds s1 = remdups (map fst (completed_of bs))"
        and 3: "en_waitpoints w1 = en_waitpoints w" "en_edges w1 = en_edges w"
          "\<And>q. q \<noteq> r \<Longrightarrow> latest q w1 = latest q w"
          "\<And>q. en_jobs w1 (continue_job q) = en_jobs w (continue_job q)" "en_now w1 = en_now w" for w1 s1
      proof -
        obtain w2 where w2: "remove_blockers r bs w1 = (Inr (unblocked (map snd bs)), w2)" "core w2 = core w1"
          "en_waitpoints w2 = en_waitpoints w1" "en_jobs w2 = en_jobs w1" "en_now w2 = en_now w1"
          "\<forall>q. edges_of q w2 = (if q = r then filter (\<lambda>e. eg_id e \<notin> set (map (eg_id \<circ> fst) bs)) (edges_of q w1)
            else edges_of q w1)"
          using remove_blockers_effect by blast
        have e: "edges_of q w1 = edges_of q w" for q using 3(2) by (simp add: edges_of_def)
        have "map (eg_id \<circ> fst) bs = map eg_id (edges_of r w)"
          using blockers_edges [OF Some] by (metis map_map)
        then have "edges_of r w2 = []"
          using w2(6) e by (simp add: filter_empty_conv)
        moreover have "map fst (completed_of bs) = map (wp_id \<circ> snd) bs"
          by (auto simp: completed_of_def)
        ultimately show thesis
          using 1 2 3 w2 e Some all core_eqD(2) [OF w2(2)] eq by (intro unblocked [of bs w2 s1]) simp_all
      qed
      show ?thesis
      proof (cases "sn_executionStatus s")
        case EXECUTING_WITH_WAITPOINTS
        let ?x = "(follow_up s EXECUTING ''Run was continued, whilst still executing.'')
          \<lparr>si_runId := tr_id t, si_batchId := sn_batchId s, si_completedWaitpoints := completed_of bs\<rparr>"
        obtain f e where c: "createExecutionSnapshot cfg ?x w =
            (Inr (the_new_snapshot w ?x), w\<lparr>en_fresh := en_fresh w + 1,
              en_snapshots := the_new_snapshot w ?x # en_snapshots w, en_jobs := f, en_events := e\<rparr>)"
          "\<forall>k. k \<noteq> heartbeat_job (si_runId ?x) \<longrightarrow> f k = en_jobs w k"
          using createExecutionSnapshot_effect by blast
        let ?w1 = "w\<lparr>en_fresh := en_fresh w + 1, en_snapshots := the_new_snapshot w ?x # en_snapshots w,
          en_jobs := f, en_events := e @ [workerNotification (tr_id t) (sn_id (the_new_snapshot w ?x))]\<rparr>"
        have "continue_by_status cfg t env s bs w = remove_blockers r bs ?w1"
          using c(1) by (simp add: continue_by_status_def EXECUTING_WITH_WAITPOINTS andThen_def andDo_def
              sendNotificationToWorker_def emit_def modify_def id)
        then show ?thesis
          using c(2) by (intro finish [of ?w1 "the_new_snapshot w ?x"])
            (simp_all add: latest_def latest_in_def truthy_def id follow_up_def)
      next
        case SUSPENDED
        show ?thesis
        proof (cases "truthy (sn_checkpointId s)")
          case None
          then show ?thesis
            using SUSPENDED l eq skipped throws
            by (cases "sn_runStatus s = CANCELED") (simp_all add: continue_by_status_def ret_def throw_def)
        next
          case cp: (Some cp)
          let ?a = "no_args\<lparr>ea_status := Some QUEUED,
            ea_description := Some ''Run was QUEUED, because all waitpoints are completed'',
            ea_batchId := sn_batchId s, ea_completedWaitpoints := completed_of bs, ea_checkpointId := Some cp\<rparr>"
          obtain f e rd where c: "enqueueRun cfg t env ?a w =
              (Inr (the_new_snapshot w (queued_input t env ?a)), w\<lparr>en_fresh := en_fresh w + 1,
                en_snapshots := the_new_snapshot w (queued_input t env ?a) # en_snapshots w,
                en_jobs := f, en_events := e, en_redis := rd\<rparr>)"
            "\<forall>k. k \<noteq> heartbeat_job (tr_id t) \<longrightarrow> f k = en_jobs w k"
            using enqueueRun_effect by blast
          let ?w1 = "w\<lparr>en_fresh := en_fresh w + 1,
            en_snapshots := the_new_snapshot w (queued_input t env ?a) # en_snapshots w,
            en_jobs := f, en_events := e, en_redis := rd\<rparr>"
          have "continue_by_status cfg t env s bs w = remove_blockers r bs ?w1"
            using c(1) by (simp add: continue_by_status_def SUSPENDED cp andThen_def id)
          then show ?thesis
            using c(2) by (intro finish [of ?w1 "the_new_snapshot w (queued_input t env ?a)"])
              (simp_all add: latest_def latest_in_def truthy_def id queued_input_def or_default_def no_args_def)
        qed
      qed (rule skipped [OF l]; simp add: eq continue_by_status_def ret_def)+
    qed
  qed
qed

end
