(* ===== verification/Wakeups.thy ===== *)
theory Wakeups
  imports Waitpoints
begin

text \<open>
  What the waitpoint system promises: a run is continued exactly when nothing blocks it any
  more. A completed waitpoint stays as it is; a call to continue a run changes nothing while a
  waitpoint is pending; and no wake-up is lost: over any sequence of the operations on
  waitpoints, a run that waits and whose waitpoints are all completed has a job that will
  continue it.
\<close>

section \<open>The operations as steps\<close>

text \<open>
  \<open>WpContinueJob\<close> is the worker running the job: it is acknowledged when the handler returns
  and kept, to be retried, when it throws. The lockless block is used for the items of a batch
  while the batch's own waitpoint still blocks the run, so it is a step only while a pending
  waitpoint does.
\<close>

datatype wp_event =
    WpComplete string "waitpoint_output option"
  | WpBlock string "string list" block_args
  | WpBlockLockless string "string list" block_args
  | WpContinueJob string
  | WpClear string
  | WpCreateDateTime string string int "string option" "int option"
  | WpCreateManual string string "string option" "int option" "int option"
  | WpGetOrCreate string string string

definition has_pending_blocker :: "string \<Rightarrow> world \<Rightarrow> bool" where
  "has_pending_blocker r w =
     list_ex (\<lambda>e. list_ex (\<lambda>x. wp_id x = eg_waitpointId e \<and> wp_status x = WP_PENDING) (en_waitpoints w))
       (edges_of r w)"

fun wp_step :: "engine_options \<Rightarrow> world \<Rightarrow> wp_event \<Rightarrow> world" where
  "wp_step cfg w (WpComplete i out) = state_after (completeWaitpoint i out) w"
| "wp_step cfg w (WpBlock r ids a) = state_after (blockRunWithWaitpoint cfg r ids a) w"
| "wp_step cfg w (WpBlockLockless r ids a) =
     (if has_pending_blocker r w then state_after (blockRunWithWaitpointLockless r ids a) w else w)"
| "wp_step cfg w (WpContinueJob r) =
     (case continueRunIfUnblocked cfg r w of
        (Inl _, w') \<Rightarrow> w'
      | (Inr _, w') \<Rightarrow> state_after (ackJob (continue_job r)) w')"
| "wp_step cfg w (WpClear r) = state_after (clearBlockingWaitpoints r) w"
| "wp_step cfg w (WpCreateDateTime p e t k x) = state_after (createDateTimeWaitpoint p e t k x) w"
| "wp_step cfg w (WpCreateManual p e k x t) = state_after (createManualWaitpoint p e k x t) w"
| "wp_step cfg w (WpGetOrCreate r p e) = state_after (getOrCreateRunWaitpoint r p e) w"

section \<open>No wake-up is lost\<close>

definition waiting :: "string \<Rightarrow> world \<Rightarrow> bool" where
  "waiting r w =
     (case latest r w of
        None \<Rightarrow> False
      | Some s \<Rightarrow> sn_executionStatus s = EXECUTING_WITH_WAITPOINTS
          \<or> (sn_executionStatus s = SUSPENDED \<and> sn_runStatus s \<noteq> CANCELED))"

definition released :: "string \<Rightarrow> world \<Rightarrow> bool" where
  "released r w = (edges_of r w \<noteq> [] \<and> \<not> has_pending_blocker r w)"

text \<open>The job that continues the run is there, with the run it is to continue, and due within 50 milliseconds.\<close>

definition will_continue :: "string \<Rightarrow> world \<Rightarrow> bool" where
  "will_continue r w =
     (case en_jobs w (continue_job r) of
        None \<Rightarrow> False
      | Some j \<Rightarrow> jb_payload j = continueRunIfUnblockedJob r \<and> jb_availableAt j \<le> en_now w + 50)"

lemma will_continue_frame:
  "will_continue r w \<Longrightarrow> en_jobs w' (continue_job r) = en_jobs w (continue_job r) \<Longrightarrow> en_now w \<le> en_now w' \<Longrightarrow> will_continue r w'"
  by (auto simp: will_continue_def split: option.splits)

lemma will_continue_update [simp]:
  "will_continue r (w\<lparr>en_fresh := a\<rparr>) = will_continue r w" "will_continue r (w\<lparr>en_waitpoints := b\<rparr>) = will_continue r w"
  "will_continue r (w\<lparr>en_edges := c\<rparr>) = will_continue r w" "will_continue r (w\<lparr>en_events := d\<rparr>) = will_continue r w"
  "k \<noteq> continue_job r \<Longrightarrow> will_continue r (w\<lparr>en_jobs := (en_jobs w)(k := j)\<rparr>) = will_continue r w"
  by (simp_all add: will_continue_def split: option.split)

lemma will_continue_at: "en_jobs w (continue_job r) = Some (continue_at r t) \<Longrightarrow> t \<le> en_now w \<Longrightarrow> will_continue r w"
  by (simp add: will_continue_def continue_at_def)

definition awake :: "string \<Rightarrow> world \<Rightarrow> bool" where
  "awake r w = (waiting r w \<and> released r w \<longrightarrow> will_continue r w)"

lemma latest_update [simp]:
  "latest r (w\<lparr>en_jobs := a\<rparr>) = latest r w" "latest r (w\<lparr>en_edges := b\<rparr>) = latest r w"
  "latest r (w\<lparr>en_waitpoints := c\<rparr>) = latest r w"
  by (simp_all add: latest_def latest_in_def)

lemma has_pending_blocker_iff:
  "has_pending_blocker r w \<longleftrightarrow> (\<exists>e \<in> set (edges_of r w). \<exists>x \<in> set (en_waitpoints w).
     wp_id x = eg_waitpointId e \<and> wp_status x = WP_PENDING)"
  by (auto simp: has_pending_blocker_def list_ex_iff)

lemma waiting_core: "core w' = core w \<Longrightarrow> waiting r w' = waiting r w"
  by (simp add: waiting_def core_eqD(2) [of w' w])

lemma awake_unreleased: "\<not> released r w \<Longrightarrow> awake r w"
  by (simp add: awake_def)

text \<open>A step that does not concern the run.\<close>

lemma awake_frame:
  assumes "awake r w" "latest r w' = latest r w" "edges_of r w' = edges_of r w"
    and "\<And>x. x \<in> set (en_waitpoints w) \<Longrightarrow> wp_status x = WP_PENDING \<Longrightarrow>
      \<exists>y \<in> set (en_waitpoints w'). wp_id y = wp_id x \<and> wp_status y = WP_PENDING"
    and "will_continue r w \<Longrightarrow> will_continue r w'"
  shows "awake r w'"
proof -
  have "has_pending_blocker r w \<Longrightarrow> has_pending_blocker r w'"
    using assms(3,4) unfolding has_pending_blocker_iff by metis
  with assms show ?thesis
    by (auto simp: awake_def waiting_def released_def)
qed

lemma awake_tables:
  assumes "awake r w" "tables w' = tables w"
    and "will_continue r w \<Longrightarrow> will_continue r w'"
  shows "awake r w'"
  using assms tables_eqD [OF assms(2)] by (intro awake_frame [of r w w']) auto

lemma awake_completeWaitpoint [pres]: "preserves (awake r) (completeWaitpoint i out)"
  unfolding preserves_def
proof (intro allI impI)
  fix w assume a: "awake r w"
  obtain w' where w': "snd (completeWaitpoint i out w) = w'" "core w' = core w" "en_edges w' = en_edges w"
    "en_waitpoints w' = completed_rows (en_now w) i out (en_waitpoints w)"
    "(\<forall>k. en_jobs w' k = (if k \<in> (continue_job \<circ> eg_taskRunId) ` {e \<in> set (en_edges w). eg_waitpointId e = i}
        then Some (continue_at (drop (length (continue_job [])) k) (en_now w)) else en_jobs w k)) \<or> w' = w"
    "en_now w' = en_now w"
    using completeWaitpoint_effect [of i out w] by (auto split: if_splits)
  have "awake r w'"
  proof (cases "w' = w \<or> (\<exists>e \<in> set (edges_of r w). eg_waitpointId e = i)")
    case True
    then consider "w' = w" | "continue_job r \<in> (continue_job \<circ> eg_taskRunId) ` {e \<in> set (en_edges w). eg_waitpointId e = i}"
      by (force simp: edges_of_def)
    then show ?thesis
    proof cases
      case 1
      with a show ?thesis by simp
    next
      case 2
      with w'(5) a show ?thesis
      proof (elim disjE)
        assume "\<forall>k. en_jobs w' k = (if k \<in> (continue_job \<circ> eg_taskRunId) ` {e \<in> set (en_edges w). eg_waitpointId e = i}
          then Some (continue_at (drop (length (continue_job [])) k) (en_now w)) else en_jobs w k)"
        with 2 have "en_jobs w' (continue_job r) = Some (continue_at (drop (length (continue_job [])) (continue_job r)) (en_now w))"
          by metis
        then have "en_jobs w' (continue_job r) = Some (continue_at r (en_now w))" by (simp add: continue_job_def)
        then show ?thesis using will_continue_at [of w' r "en_now w"] w'(6) by (simp add: awake_def)
      qed simp
    qed
  next
    case False
    have "has_pending_blocker r w \<Longrightarrow> has_pending_blocker r w'"
    proof -
      assume "has_pending_blocker r w"
      then obtain e x where "e \<in> set (edges_of r w)" "x \<in> set (en_waitpoints w)" "wp_id x = eg_waitpointId e"
        "wp_status x = WP_PENDING" unfolding has_pending_blocker_iff by blast
      moreover with False have "wp_id x \<noteq> i" by metis
      ultimately show ?thesis
        using w'(3,4) unfolding has_pending_blocker_iff
        by (intro bexI [of _ e] bexI [of _ x]) (auto simp: completed_rows_def edges_of_def image_iff)
    qed
    moreover have "will_continue r w \<Longrightarrow> will_continue r w'"
    proof (erule will_continue_frame)
      show "en_jobs w' (continue_job r) = en_jobs w (continue_job r)" using w'(5) False by (auto simp: edges_of_def)
    qed (simp add: w'(6))
    moreover have "edges_of r w' = edges_of r w" using w'(3) by (simp add: edges_of_def)
    ultimately show ?thesis using a waiting_core [OF w'(2), of r]
      by (auto simp: awake_def released_def)
  qed
  then show "awake r (snd (completeWaitpoint i out w))" by (simp add: w'(1))
qed

lemma completeWaitpoint_wakes:
  assumes "completeWaitpoint i out w = (Inr x, w')" "e \<in> set (en_edges w)" "eg_waitpointId e = i"
  shows "will_continue (eg_taskRunId e) w'"
proof -
  have "en_now w' = en_now w \<and> (\<forall>k. en_jobs w' k = (if k \<in> (continue_job \<circ> eg_taskRunId) ` {e \<in> set (en_edges w). eg_waitpointId e = i}
      then Some (continue_at (drop (length (continue_job [])) k) (en_now w)) else en_jobs w k))"
    using completeWaitpoint_effect [of i out w] assms(1) by (auto split: if_splits)
  moreover have "continue_job (eg_taskRunId e) \<in> (continue_job \<circ> eg_taskRunId) ` {e \<in> set (en_edges w). eg_waitpointId e = i}"
    using assms(2,3) by force
  moreover have "drop (length (continue_job [])) (continue_job (eg_taskRunId e)) = eg_taskRunId e"
    by (simp add: continue_job_def)
  ultimately have "en_jobs w' (continue_job (eg_taskRunId e)) = Some (continue_at (eg_taskRunId e) (en_now w))" "en_now w' = en_now w"
    by metis+
  then show ?thesis by (simp add: will_continue_at)
qed

lemma awake_reads [pres]:
  "preserves (awake r) the_time" "preserves (awake r) (findRun i)"
  "preserves (awake r) (getLatestExecutionSnapshot env i)"
  by (simp_all add: the_time_def findRun_def preserves_reading)
    (simp add: preserves_def getLatestExecutionSnapshot_def split: option.split)

lemma awake_fresh_id [pres]: "preserves (awake r) (fresh_id p)"
proof -
  have "awake r w \<Longrightarrow> awake r (snd (fresh_id p w))" for w
    by (erule awake_tables) (simp_all add: fresh_id_def)
  then show ?thesis by (simp add: preserves_def)
qed

lemma awake_enqueueJob [pres]:
  assumes "k \<noteq> continue_job r"
  shows "preserves (awake r) (enqueueJob k pl t)"
proof -
  have "awake r w \<Longrightarrow> awake r (snd (enqueueJob k pl t w))" for w
    using assms by (elim awake_tables) (simp_all add: enqueueJob_def modify_def)
  then show ?thesis by (simp add: preserves_def)
qed

lemma awake_insertWaitpoint [pres]: "preserves (awake r) (insertWaitpoint x)"
proof -
  have "awake r w \<Longrightarrow> awake r (snd (insertWaitpoint x w))" for w
    by (erule awake_frame)
      (auto simp: insertWaitpoint_def edges_of_def)
  then show ?thesis by (simp add: preserves_def)
qed

lemma awake_rotate [pres]:
  assumes "\<And>y. wp_id (f y) = wp_id y \<and> wp_status (f y) = wp_status y"
  shows "preserves (awake r) (updateWaitpoints q f)"
proof -
  have "awake r w \<Longrightarrow> awake r (w\<lparr>en_waitpoints := map (\<lambda>x. if q x then f x else x) (en_waitpoints w)\<rparr>)" for w
  proof (erule awake_frame)
    fix x assume x: "x \<in> set (en_waitpoints w)" "wp_status x = WP_PENDING"
    then show "\<exists>y \<in> set (en_waitpoints (w\<lparr>en_waitpoints := map (\<lambda>x. if q x then f x else x) (en_waitpoints w)\<rparr>)).
        wp_id y = wp_id x \<and> wp_status y = WP_PENDING"
      using assms by (intro bexI [of _ "if q x then f x else x"]) auto
  qed (simp_all add: edges_of_def)
  then show ?thesis by (simp add: preserves_def effects)
qed

lemma awake_schedule_timeouts [pres]: "preserves (awake r) (schedule_timeouts t ids)"
proof -
  have "awake r w \<Longrightarrow> awake r (snd (schedule_timeouts t ids w))" for w
    using schedule_timeouts_effect [of t ids w]
    by (auto elim!: awake_tables will_continue_frame dest: tables_eqD(4))
  then show ?thesis by (simp add: preserves_def)
qed

lemma awake_upsert [pres]: "preserves (awake r) (upsertWaitpoint x)"
  unfolding upsertWaitpoint_def by (intro pres)

lemma awake_createRow [pres]: "preserves (awake r) (createWaitpointRow ty p e k x t)"
  unfolding createWaitpointRow_def by (intro pres)

lemma awake_cached [pres]: "preserves (awake r) (cached_waitpoint e k)"
  unfolding cached_waitpoint_def by (intro pres) simp

lemma awake_creates [pres]:
  "preserves (awake r) (createDateTimeWaitpoint p e t k x)"
  "preserves (awake r) (createManualWaitpoint p e k x u)"
  unfolding createDateTimeWaitpoint_def createManualWaitpoint_def by (intro pres; simp)+

lemma awake_getOrCreate [pres]: "preserves (awake r) (getOrCreateRunWaitpoint i p e)"
  unfolding getOrCreateRunWaitpoint_def buildRunAssociatedWaitpoint_def case_prod_unfold by (intro pres)

subsection \<open>Blocking, continuing and clearing\<close>

text \<open>What blocking leaves behind: the edges are there, and a job unless a waitpoint is pending.\<close>

lemma block_effect:
  assumes "latest_in None r w = Some s"
  shows "\<exists>w'. snd (blockRunWithWaitpoint cfg r ids a w) = w' \<and> en_waitpoints w' = en_waitpoints w \<and>
    (\<forall>q. q \<noteq> r \<longrightarrow> latest q w' = latest q w \<and> edges_of q w' = edges_of q w) \<and>
    (\<forall>q. will_continue q w \<longrightarrow> will_continue q w') \<and>
    (has_pending_blocker r w' \<or> will_continue r w') \<and>
    map_option sn_executionStatus (latest r w') = Some (blocked_status (sn_executionStatus s))"
proof -
  obtain w1 where w1: "blockRunWithWaitpointEdges r ids (ba_projectId a) (ba_spanIdToComplete a) (ba_batch a) w = (Inr (), w1)"
    "only_edges w w1" "\<forall>i \<in> set ids. \<exists>e \<in> set (edges_of r w1). eg_waitpointId e = i"
    "\<forall>q. q \<noteq> r \<longrightarrow> edges_of q w1 = edges_of q w"
    using blockEdges_effect by blast
  define n where "n = length (filter (\<lambda>x. wp_id x \<in> set ids \<and> wp_status x = WP_PENDING) (en_waitpoints w1))"
  define new where "new = (let newStatus = blocked_status (sn_executionStatus s)
        in if newStatus \<noteq> sn_executionStatus s
           then andThen (createExecutionSnapshot cfg
                  ((follow_up s newStatus ''Run was blocked by a waitpoint.'')
                     \<lparr>si_organizationId := ba_organizationId a, si_batchId := map_option fst (ba_batch a),
                      si_workerId := ba_workerId a, si_runnerId := ba_runnerId a\<rparr>)) (\<lambda>s'.
                andDo (sendNotificationToWorker r s') (ret s'))
           else ret s)"
  have id: "sn_runId s = r" using assms by (auto simp: latest_in_def find_Some_iff)
  have "\<exists>s' w2. new w1 = (Inr s', w2) \<and> en_waitpoints w2 = en_waitpoints w1 \<and> en_edges w2 = en_edges w1 \<and>
      en_now w2 = en_now w1 \<and>
      (\<forall>q. q \<noteq> r \<longrightarrow> latest q w2 = latest q w1) \<and> (\<forall>q. en_jobs w2 (continue_job q) = en_jobs w1 (continue_job q)) \<and>
      map_option sn_executionStatus (latest r w2) = Some (blocked_status (sn_executionStatus s))"
  proof (cases "blocked_status (sn_executionStatus s) = sn_executionStatus s")
    case True
    with assms core_eqD(3) [of w1 w None r] w1(2) show ?thesis
      by (simp add: new_def Let_def ret_def latest_def only_edges_def)
  next
    case False
    let ?x = "(follow_up s (blocked_status (sn_executionStatus s)) ''Run was blocked by a waitpoint.'')
       \<lparr>si_organizationId := ba_organizationId a, si_batchId := map_option fst (ba_batch a),
        si_workerId := ba_workerId a, si_runnerId := ba_runnerId a\<rparr>"
    obtain f e where c: "createExecutionSnapshot cfg ?x w1 =
        (Inr (the_new_snapshot w1 ?x), w1\<lparr>en_fresh := en_fresh w1 + 1,
          en_snapshots := the_new_snapshot w1 ?x # en_snapshots w1, en_jobs := f, en_events := e\<rparr>)"
      "\<forall>k. k \<noteq> heartbeat_job (si_runId ?x) \<longrightarrow> f k = en_jobs w1 k"
      using createExecutionSnapshot_effect by blast
    have "si_runId ?x = r" by (simp add: follow_up_def id)
    with c False show ?thesis
      by (simp add: new_def Let_def andThen_def andDo_def sendNotificationToWorker_def emit_def modify_def ret_def
          latest_def latest_in_def truthy_def the_new_snapshot_def follow_up_def)
  qed
  then obtain s' w2 where w2: "new w1 = (Inr s', w2)" "en_waitpoints w2 = en_waitpoints w1" "en_edges w2 = en_edges w1"
    "\<forall>q. q \<noteq> r \<longrightarrow> latest q w2 = latest q w1" "\<forall>q. en_jobs w2 (continue_job q) = en_jobs w1 (continue_job q)"
    "map_option sn_executionStatus (latest r w2) = Some (blocked_status (sn_executionStatus s))" "en_now w2 = en_now w1"
    by blast
  obtain w3 where w3: "schedule_timeouts (ba_timeout a) ids w2 = (Inr (), w3)" "tables w3 = tables w2"
    "\<forall>q. en_jobs w3 (continue_job q) = en_jobs w2 (continue_job q)"
    using schedule_timeouts_effect by blast
  define w4 where "w4 = (if n = 0 then w3\<lparr>en_jobs := (en_jobs w3)(continue_job r := Some (continue_at r (en_now w3)))\<rparr> else w3)"
  have n0: "n = 0 \<longleftrightarrow> filter (\<lambda>x. wp_id x \<in> set ids \<and> wp_status x = WP_PENDING) (en_waitpoints w1) = []"
    by (simp add: n_def)
  have "blockRunWithWaitpoint cfg r ids a w = (Inr s', w4)"
    using assms w1(1) w2(1) w3(1) fst_enhance [of w s]
    by (cases "enhanceExecutionSnapshot w s")
      (simp add: blockRunWithWaitpoint_def getLatest_simps andThen_def andDo_def countPendingWaitpoints_def reading_def
        n0 new_def [symmetric] whenever_def schedule_continue_eq ret_def w4_def)
  moreover have now: "en_now w4 = en_now w"
    using w1(2) w2(7) tables_eqD(4) [OF w3(2)] by (simp add: w4_def only_edges_def)
  moreover have "en_waitpoints w4 = en_waitpoints w" "\<forall>q. q \<noteq> r \<longrightarrow> latest q w4 = latest q w \<and> edges_of q w4 = edges_of q w"
    using w1 w2 w3 tables_eqD [OF w3(2)] core_eqD(2) [of w1 w]
    by (auto simp: w4_def only_edges_def edges_of_def latest_def latest_in_def)
  moreover have "will_continue q w4" if "will_continue q w" for q
  proof (cases "n = 0 \<and> q = r")
    case True
    then have "en_jobs w4 (continue_job q) = Some (continue_at q (en_now w3))" "en_now w3 = en_now w4" by (simp_all add: w4_def)
    then show ?thesis by (simp add: will_continue_at)
  next
    case False
    then have "en_jobs w4 (continue_job q) = en_jobs w (continue_job q)"
      using w1(2) w2(5) w3(3) by (auto simp: w4_def only_edges_def)
    with that now show ?thesis by (intro will_continue_frame [of q w w4]) simp_all
  qed
  moreover have "has_pending_blocker r w4 \<or> will_continue r w4"
  proof (cases "n = 0")
    case False
    then obtain x where "x \<in> set (en_waitpoints w1)" "wp_id x \<in> set ids" "wp_status x = WP_PENDING"
      by (auto simp: n_def filter_empty_conv)
    moreover obtain e where "e \<in> set (edges_of r w1)" "eg_waitpointId e = wp_id x"
      using w1(3) \<open>wp_id x \<in> set ids\<close> by blast
    moreover have "edges_of r w4 = edges_of r w1" "en_waitpoints w4 = en_waitpoints w1"
      using False w2 tables_eqD [OF w3(2)] by (simp_all add: w4_def edges_of_def)
    ultimately have "has_pending_blocker r w4"
      unfolding has_pending_blocker_iff by metis
    then show ?thesis ..
  next
    case True
    then have "en_jobs w4 (continue_job r) = Some (continue_at r (en_now w3))" "en_now w3 = en_now w4" by (simp_all add: w4_def)
    then show ?thesis by (simp add: will_continue_at)
  qed
  moreover have "latest r w4 = latest r w2"
    using tables_eqD [OF w3(2)] by (simp add: w4_def latest_def latest_in_def)
  ultimately show ?thesis using w2(6) by simp
qed

lemma awake_block: "awake q w \<Longrightarrow> awake q (state_after (blockRunWithWaitpoint cfg r ids a) w)"
proof (cases "latest_in None r w")
  case None
  then show "awake q w \<Longrightarrow> ?thesis"
    by (simp add: state_after_def blockRunWithWaitpoint_def andThen_def getLatest_simps)
next
  case (Some s)
  assume a: "awake q w"
  obtain w' where w': "snd (blockRunWithWaitpoint cfg r ids a w) = w'" "en_waitpoints w' = en_waitpoints w"
    "\<forall>q. q \<noteq> r \<longrightarrow> latest q w' = latest q w \<and> edges_of q w' = edges_of q w"
    "\<forall>q. will_continue q w \<longrightarrow> will_continue q w'" "has_pending_blocker r w' \<or> will_continue r w'"
    using block_effect [OF Some] by blast
  have "awake q w'"
  proof (cases "q = r")
    case True
    with w'(5) show ?thesis by (auto simp: awake_def released_def)
  next
    case False
    with a w' show ?thesis by (intro awake_frame [OF a]) auto
  qed
  then show ?thesis by (simp add: state_after_def w'(1))
qed

lemma awake_lockless:
  assumes "awake q w" "has_pending_blocker r w"
  shows "awake q (state_after (blockRunWithWaitpointLockless r ids a) w)"
proof -
  obtain w1 where w1: "blockRunWithWaitpointEdges r ids (ba_projectId a) (ba_spanIdToComplete a) (ba_batch a) w = (Inr (), w1)"
    "only_edges w w1" "\<forall>q. q \<noteq> r \<longrightarrow> edges_of q w1 = edges_of q w"
    using blockEdges_effect by blast
  have "awake q w1"
  proof (cases "q = r")
    case True
    have "has_pending_blocker r w1"
      using assms(2) w1(2) by (auto simp: has_pending_blocker_iff only_edges_def edges_of_def)
    with True show ?thesis by (simp add: awake_unreleased released_def)
  next
    case False
    with w1 core_eqD(2) [of w1 w] show ?thesis
      by (intro awake_frame [OF assms(1)]) (auto simp: only_edges_def intro: will_continue_frame)
  qed
  then have "awake q (snd (schedule_timeouts (ba_timeout a) ids w1))"
    using preservesD [OF awake_schedule_timeouts] by blast
  then show ?thesis
    by (simp add: state_after_def blockRunWithWaitpointLockless_def andDo_def andThen_def w1(1))
qed

lemma awake_continue: "awake q w \<Longrightarrow> awake q (wp_step cfg w (WpContinueJob r))"
proof -
  assume a: "awake q w"
  have ack: "awake q (state_after (ackJob (continue_job r)) w)" if "awake q w" "q \<noteq> r" for w
    by (rule awake_frame [OF that(1)])
      (use that(2) in \<open>auto simp: state_after_def ackJob_def modify_def edges_of_def\<close>)
  have same: "has_pending_blocker p (state_after (ackJob k) w) = has_pending_blocker p w"
    "waiting p (state_after (ackJob k) w) = waiting p w" "edges_of p (state_after (ackJob k) w) = edges_of p w" for p k w
    by (simp_all add: state_after_def ackJob_def modify_def has_pending_blocker_def edges_of_def waiting_def)
  show ?thesis
  proof (cases cfg r w rule: continue_cases)
    case (throws e)
    with a show ?thesis by simp
  next
    case (blocked bs)
    obtain e x where ex: "(e, x) \<in> set bs" "wp_status x \<noteq> WP_COMPLETED"
      using blocked(2) by (auto simp: list_ex_iff)
    then have "wp_status x = WP_PENDING" by (cases "wp_status x") simp_all
    with blockers_waitpoints [OF blocked(1) ex(1)] have "has_pending_blocker r w"
      unfolding has_pending_blocker_iff by blast
    with blocked(3) ack [OF a] show ?thesis
      by (cases "q = r") (simp_all add: awake_unreleased released_def same)
  next
    case (skipped s why)
    then have "\<not> waiting r w" by (auto simp: waiting_def)
    with skipped(2) ack [OF a] show ?thesis
      by (cases "q = r") (simp_all add: awake_def same)
  next
    case (unblocked bs s w')
    show ?thesis
    proof (cases "q = r")
      case True
      with unblocked(3,4) show ?thesis by (simp add: awake_unreleased released_def same)
    next
      case False
      have "awake q w'"
        using unblocked(8-11) False by (intro awake_frame [OF a]) (auto intro: will_continue_frame)
      with False unblocked(3) ack show ?thesis by simp
    qed
  qed
qed

lemma awake_clear: "awake q w \<Longrightarrow> awake q (state_after (clearBlockingWaitpoints r) w)"
proof -
  assume a: "awake q w"
  let ?w = "w\<lparr>en_edges := filter (\<lambda>e. eg_taskRunId e \<noteq> r) (en_edges w)\<rparr>"
  have "awake q ?w"
  proof (cases "q = r")
    case True
    then have "edges_of q ?w = []" by (simp add: edges_of_def filter_empty_conv)
    then show ?thesis by (simp add: awake_unreleased released_def)
  next
    case False
    then show ?thesis
      by (intro awake_frame [OF a]) (auto simp: edges_of_def intro: filter_cong)
  qed
  then show ?thesis by (simp add: state_after_def clearBlockingWaitpoints_def deleteEdges_def)
qed

lemma awake_step: "awake r w \<Longrightarrow> awake r (wp_step cfg w ev)"
  using awake_continue awake_block awake_lockless awake_clear
  by (cases ev) (auto simp: state_after_def intro!: preservesD [of "awake r"] pres)

interpretation wakeups: step_machine "wp_step cfg" "awake r"
  by unfold_locales (rule awake_step)

section \<open>Properties\<close>


definition blocked_world :: world where
  "blocked_world = empty_world\<lparr>en_waitpoints := [example_waitpoint],
     en_snapshots := [snapshot_row ''s1'' 5 example_input]\<rparr>"

definition plain_block :: block_args where
  "plain_block = \<lparr>ba_projectId = ''p1'', ba_organizationId = ''o1'', ba_timeout = None,
     ba_spanIdToComplete = None, ba_batch = None, ba_workerId = None, ba_runnerId = None\<rparr>"

definition example_engine :: engine_options where
  "example_engine = \<lparr>eo_queue = example_cfg, eo_resolveEnv = (\<lambda>_. Some example_env),
     eo_archived = (\<lambda>_. False), eo_resolveWorkerVersion = (\<lambda>_. None), eo_knownTask = (\<lambda>_ _ _. None),
     eo_heartbeats = \<lparr>ht_PENDING_EXECUTING = 1, ht_PENDING_CANCEL = 1, ht_EXECUTING = 1,
       ht_EXECUTING_WITH_WAITPOINTS = 1, ht_SUSPENDED = 1\<rparr>,
     eo_defaultMachine = ''small-1x'', eo_machines = example_machines, eo_retryWarmStartThresholdMs = None,
     eo_random = 0, eo_humanizeDuration = (\<lambda>n _. nat_to_string (nat n)),
     eo_treatProductionExecutionStallsAsOOM = False, eo_suspendedHeartbeatRetries = None,
     eo_defaultMaxTtl = None\<rparr>"


text \<open>
  A run is continued only when nothing blocks it: while a waitpoint of the run is pending a call
  to continue it changes nothing; when the call reports the run unblocked, all its waitpoints
  were completed, they are handed to the run in its new snapshot, the run executes or is
  queued, and none of them blocks it any more; otherwise the state is as before.
\<close>

theorem continue_only_when_unblocked:
  "case continueRunIfUnblocked cfg r w of
     (Inr (unblocked xs), w') \<Rightarrow>
       list_all (\<lambda>x. wp_status x = WP_COMPLETED) xs \<and> edges_of r w' = []
       \<and> (case latest r w' of None \<Rightarrow> False
          | Some s \<Rightarrow> sn_executionStatus s \<in> {EXECUTING, QUEUED}
              \<and> sn_completedWaitpointIds s = remdups (map wp_id xs))
   | (Inr (blocked xs), w') \<Rightarrow> list_ex (\<lambda>x. wp_status x \<noteq> WP_COMPLETED) xs \<and> w' = w
   | (Inr (skipped why), w') \<Rightarrow> w' = w
   | (Inl e, w') \<Rightarrow> w' = w"
proof (cases cfg r w rule: continue_cases)
  case (blocked bs)
  then show ?thesis by (force simp: list_ex_iff)
next
  case (unblocked bs s w')
  have "list_all (\<lambda>x. wp_status x = WP_COMPLETED) (map snd bs)"
    using unblocked(2) by (auto simp: list_all_iff)
  with unblocked show ?thesis by simp
qed simp_all

text \<open>
  A waitpoint is completed once: completing one that exists leaves it completed, schedules the
  continuation of every run it blocks, and touches no run; completing it again, with whatever
  output, changes no waitpoint. An unknown waitpoint is reported and nothing is changed.
\<close>

theorem waitpoint_completed_once:
  "let (result, w1) = completeWaitpoint i out w; (result2, w2) = completeWaitpoint i out' w1
   in en_waitpoints w2 = en_waitpoints w1 \<and> core w2 = core w
    \<and> (case result of
         Inl e \<Rightarrow> w1 = w
       | Inr x \<Rightarrow> wp_id x = i \<and> wp_status x = WP_COMPLETED \<and> x \<in> set (en_waitpoints w1)
           \<and> list_all (\<lambda>e. will_continue (eg_taskRunId e) w1)
               (filter (\<lambda>e. eg_waitpointId e = i) (en_edges w1)))"
proof -
  obtain result w1 where r1: "completeWaitpoint i out w = (result, w1)" by fastforce
  obtain result2 w2 where r2: "completeWaitpoint i out' w1 = (result2, w2)" by fastforce
  have e1: "core w1 = core w" "en_edges w1 = en_edges w" "en_waitpoints w1 = completed_rows (en_now w) i out (en_waitpoints w)"
    using completeWaitpoint_effect [of i out w] r1 by auto
  have e2: "core w2 = core w1" "en_waitpoints w2 = completed_rows (en_now w1) i out' (en_waitpoints w1)"
    using completeWaitpoint_effect [of i out' w1] r2 by auto
  have "case result of Inl e \<Rightarrow> w1 = w
     | Inr x \<Rightarrow> wp_id x = i \<and> wp_status x = WP_COMPLETED \<and> x \<in> set (en_waitpoints w1)
         \<and> list_all (\<lambda>e. will_continue (eg_taskRunId e) w1)
               (filter (\<lambda>e. eg_waitpointId e = i) (en_edges w1))"
    using completeWaitpoint_effect [of i out w] r1 e1(2) completeWaitpoint_wakes [of i out w]
    by (auto split: if_splits simp: list_all_iff)
  with r1 r2 e1 e2 show ?thesis by (simp add: completed_rows_idem)
qed

end
