(* ===== verification/RunAttempts.thy ===== *)
theory RunAttempts
  imports Waitpoints
begin

text \<open>
  Attempts of a run (\<open>engine/systems/runAttemptSystem.ts\<close>): starting one, its success or failure
  with the retry that may follow, the failure the system decides on, putting a run back into
  its queue, cancelling a run, and what ends every run.

  The description of the execution that \<open>startRunAttempt\<close> returns to the worker (task, queue,
  organisation, machine and the like, read from caches of the control plane) is left out, and
  so are the metadata events of a completion.

  \<open>attemptFailed\<close>, \<open>tryNackAndRequeue\<close> and \<open>systemFailure\<close> call each other. \<open>attemptFailed\<close> takes
  fuel; two rounds are enough, since the failure of the second is one that is never retried.
\<close>

section \<open>Results\<close>

datatype attempt_status = RUN_FINISHED | RUN_PENDING_CANCEL | RETRY_QUEUED | RETRY_IMMEDIATELY

type_synonym attempt_result = "attempt_status \<times> execution_result"

text \<open>A result whose run comes from the row and whose snapshot is \<open>s\<close>.\<close>

definition result_of_row :: "run \<Rightarrow> snapshot \<Rightarrow> execution_result" where
  "result_of_row t s =
     (executionResultFromSnapshot s)\<lparr>er_runStatus := tr_status t, er_attemptNumber := tr_attemptNumber t\<rparr>"

definition truncateString :: "nat \<Rightarrow> string \<Rightarrow> string" where
  "truncateString n s = take n s"

fun truncateTaskRunError :: "task_run_error \<Rightarrow> task_run_error" where
  "truncateTaskRunError (BUILT_IN_ERROR name message stackTrace) =
     BUILT_IN_ERROR (truncateString 1024 name) (truncateString (1024 * 16) message)
       (truncateString (1024 * 16) stackTrace)"
| "truncateTaskRunError e = e"

section \<open>The end of a run\<close>

definition expire_job :: "string \<Rightarrow> string" where
  "expire_job i = ''expireRun:'' @ i"

definition delayed_job :: "string \<Rightarrow> string" where
  "delayed_job i = ''enqueueDelayedRun:'' @ i"

definition batch_job :: "string \<Rightarrow> string" where
  "batch_job i = ''tryCompleteBatch:'' @ i"

text \<open>\<open>scheduleCompleteBatch\<close> of the batch system.\<close>

definition scheduleCompleteBatch :: "string \<Rightarrow> unit engine" where
  "scheduleCompleteBatch b = andThen the_time (\<lambda>now. enqueueJob (batch_job b) (tryCompleteBatchJob b) (now + 200))"

definition finalizeRun :: "run \<Rightarrow> unit engine" where
  "finalizeRun t =
     andDo (case truthy (tr_batchId t) of None \<Rightarrow> ret () | Some b \<Rightarrow> scheduleCompleteBatch b)
       (ackJob (heartbeat_job (tr_id t)))"

text \<open>Completes the waitpoint the run is associated with, where there is one.\<close>

definition complete_associated :: "string \<Rightarrow> waitpoint_output option \<Rightarrow> unit engine" where
  "complete_associated i out =
     andThen (reading (associatedWaitpoint i)) (\<lambda>found.
       case found of None \<Rightarrow> ret () | Some x \<Rightarrow> andDo (completeWaitpoint (wp_id x) out) (ret ()))"

definition error_output :: "task_run_error \<Rightarrow> waitpoint_output" where
  "error_output e = \<lparr>wo_value = stringify_error e, wo_type = None, wo_isError = True\<rparr>"

definition ack_message :: "engine_options \<Rightarrow> string \<Rightarrow> string \<Rightarrow> bool \<Rightarrow> bool engine" where
  "ack_message cfg orgId i removeFromWorkerQueue =
     on_queue (acknowledgeMessage (eo_queue cfg) orgId i False removeFromWorkerQueue)"

text \<open>\<open>#calculateUpdatedUsage\<close> for the row of a run.\<close>

definition updated_usage :: "engine_options \<Rightarrow> run \<Rightarrow> int \<Rightarrow> RuntimeEnvironmentType \<Rightarrow> int \<times> rat option" where
  "updated_usage cfg t durationMs envType =
     calculateUpdatedUsage (eo_defaultMachine cfg) (eo_machines cfg) (tr_usageDurationMs t)
       (tr_costInCents t) durationMs (tr_machinePreset t) envType"

definition no_env :: engine_error where
  "no_env = ServiceValidationError ''Task run environment not found'' 404"

definition not_found :: engine_error where
  "not_found = ServiceValidationError ''Run not found'' 404"

section \<open>Success\<close>

record success =
  su_output :: "string option"
  su_outputType :: string
  su_durationMs :: "int option"

text \<open>A check that the caller's snapshot is the latest and the run not finished.\<close>

definition current_snapshot :: "string option \<Rightarrow> string \<Rightarrow> string \<Rightarrow> snapshot engine" where
  "current_snapshot envId i snapshotId =
     andThen (getLatestExecutionSnapshot envId i) (\<lambda>(s, _).
       andDo (require (sn_id s = snapshotId)
           (ServiceValidationError ''Snapshot ID doesn't match the latest snapshot'' 400))
         (andDo (require (sn_executionStatus s \<noteq> FINISHED) (ServiceValidationError ''Run is already finished'' 400))
           (ret s)))"

definition attemptSucceeded ::
    "engine_options \<Rightarrow> string option \<Rightarrow> string \<Rightarrow> string \<Rightarrow> success \<Rightarrow> string option \<Rightarrow> string option
     \<Rightarrow> attempt_result engine" where
  "attemptSucceeded cfg envId i snapshotId completion workerId runnerId =
     andThen (current_snapshot envId i snapshotId) (\<lambda>s.
     andThen the_time (\<lambda>now.
     andThen (findRun i) (\<lambda>found.
     andThen (required found not_found) (\<lambda>current.
     andThen (case updated_usage cfg current (or_default (su_durationMs completion) 0) (sn_environmentType s) of
         (usage, cost) \<Rightarrow>
           completeAttemptSuccess i now (su_output completion) (su_outputType completion) usage cost
             (nested_snapshot i FINISHED ''Task completed successfully'' COMPLETED_SUCCESSFULLY
                (sn_attemptNumber s) s workerId runnerId)) (\<lambda>t.
     andThen (required (eo_resolveEnv cfg (tr_runtimeEnvironmentId t)) no_env) (\<lambda>env.
     andThen (getLatestExecutionSnapshot None i) (\<lambda>(s', cs).
     andDo (ack_message cfg (env_organizationId env) i False)
     (andDo (emit (executionSnapshotCreated (sn_runId s') (sn_id s') (map cw_id cs)))
     (andDo (complete_associated i
         (case truthy (su_output completion) of None \<Rightarrow> None
          | Some v \<Rightarrow> Some \<lparr>wo_value = v, wo_type = Some (su_outputType completion), wo_isError = False\<rparr>))
     (andDo (emit (runSucceeded i (su_output completion)))
     (andDo (finalizeRun t)
       (ret (RUN_FINISHED, result_of_row t s')))))))))))))"

section \<open>Cancelling\<close>

record cancel_args =
  ca_workerId :: "string option"
  ca_runnerId :: "string option"
  ca_completedAt :: "int option"
  ca_reason :: "string option"
  ca_finalizeRun :: bool
  ca_bulkActionId :: "string option"
  ca_attemptDurationMs :: "int option"

definition child_runs :: "string \<Rightarrow> world \<Rightarrow> run list" where
  "child_runs i w = filter (\<lambda>t. tr_parentTaskRunId t = Some i) (en_runs w)"

definition cancel_children :: "string \<Rightarrow> run \<Rightarrow> string \<Rightarrow> unit engine" where
  "cancel_children i t reason =
     andThen (reading (child_runs i)) (\<lambda>children.
       forEach children (\<lambda>c.
         andThen the_time (\<lambda>now.
           enqueueJob (''cancelRun:'' @ tr_id c)
             (cancelRunJob (tr_id c) (or_default (tr_completedAt t) now) reason) now)))"

text \<open>The row's half of a snapshot that ends or carries on the run.\<close>

definition run_snapshot :: "run \<Rightarrow> snapshot \<Rightarrow> TaskRunExecutionStatus \<Rightarrow> string \<Rightarrow> string option \<Rightarrow> string option
    \<Rightarrow> snapshot_input" where
  "run_snapshot t s executionStatus description workerId runnerId =
     (follow_up s executionStatus description)
       \<lparr>si_runId := tr_id t, si_runStatus := tr_status t, si_attemptNumber := tr_attemptNumber t,
        si_workerId := workerId, si_runnerId := runnerId\<rparr>"

text \<open>The rest of \<open>cancelRun\<close> once the row is written and the queue is left.\<close>

definition finish_cancelled ::
    "engine_options \<Rightarrow> string \<Rightarrow> run \<Rightarrow> snapshot \<Rightarrow> task_run_error \<Rightarrow> string \<Rightarrow> cancel_args
     \<Rightarrow> (bool \<times> execution_result) engine" where
  "finish_cancelled cfg i t s error reason a =
     andThen (createExecutionSnapshot cfg
         (run_snapshot t s FINISHED ''Run was cancelled, not finished'' (ca_workerId a) (ca_runnerId a))) (\<lambda>s'.
     andDo (complete_associated i (Some (error_output error)))
     (andDo (finalizeRun t)
     (andDo (emit (runCancelled i))
     (andDo (cancel_children i t reason)
       (ret (False, executionResultFromSnapshot s'))))))"

definition cancelRun :: "engine_options \<Rightarrow> string \<Rightarrow> cancel_args \<Rightarrow> (bool \<times> execution_result) engine" where
  "cancelRun cfg i a =
     (let reason = or_default (ca_reason a) ''Canceled by user''
      in andThen (getLatestExecutionSnapshot None i) (\<lambda>(s, _).
      if sn_executionStatus s = FINISHED
      then andDo (case truthy (ca_bulkActionId a) of None \<Rightarrow> ret ()
                  | Some b \<Rightarrow> andDo (recordBulkActionMembership i b) (ret ()))
             (ret (True, executionResultFromSnapshot s))
      else if sn_executionStatus s = PENDING_CANCEL \<and> \<not> ca_finalizeRun a
      then andDo (sendNotificationToWorker i s) (ret (False, executionResultFromSnapshot s))
      else
        andThen the_time (\<lambda>now.
        andThen (case ca_attemptDurationMs a of
            None \<Rightarrow> ret None
          | Some d \<Rightarrow>
              andThen (findRun i) (\<lambda>found. andThen (required found not_found) (\<lambda>current.
                ret (Some (updated_usage cfg current d (sn_environmentType s)))))) (\<lambda>usage.
        andThen (store_cancelRun i
            (if ca_finalizeRun a then Some (or_default (ca_completedAt a) now) else ca_completedAt a)
            (STRING_ERROR reason) (truthy (ca_bulkActionId a)) usage) (\<lambda>t.
        andThen (required (eo_resolveEnv cfg (tr_runtimeEnvironmentId t)) no_env) (\<lambda>env.
        andDo (whenever (isInitialState (sn_executionStatus s) \<and> tr_delayUntil t \<noteq> None) (ackJob (delayed_job i)))
        (andDo (ack_message cfg (env_organizationId env) i True)
        (if (isExecuting (sn_executionStatus s) \<or> isPendingExecuting (sn_executionStatus s)) \<and> \<not> ca_finalizeRun a
         then andThen (createExecutionSnapshot cfg
                  (run_snapshot t s PENDING_CANCEL ''Run was cancelled'' (ca_workerId a) (ca_runnerId a))) (\<lambda>s'.
                andDo (sendNotificationToWorker i s') (ret (False, executionResultFromSnapshot s')))
         else finish_cancelled cfg i t s (STRING_ERROR reason) reason a))))))))"

section \<open>Failing\<close>

definition permanentlyFailRun ::
    "engine_options \<Rightarrow> string \<Rightarrow> snapshot \<Rightarrow> int \<Rightarrow> task_run_error \<Rightarrow> string option \<Rightarrow> string option \<Rightarrow> int option
     \<Rightarrow> attempt_result engine" where
  "permanentlyFailRun cfg i s failedAt error workerId runnerId durationMs =
     andThen (findRun i) (\<lambda>found.
     andThen (required found not_found) (\<lambda>current.
     andThen (case updated_usage cfg current (or_default durationMs 0) (sn_environmentType s) of
         (usage, cost) \<Rightarrow>
           failRunPermanently i (runStatusFromError error (sn_environmentType s)) failedAt
             (truncateTaskRunError error) usage cost) (\<lambda>t.
     andThen (required (eo_resolveEnv cfg (tr_runtimeEnvironmentId t)) no_env) (\<lambda>env.
     andThen (createExecutionSnapshot cfg
         ((run_snapshot t s FINISHED ''Run failed'' workerId runnerId)
            \<lparr>si_environmentId := env_id env, si_environmentType := env_type env,
             si_projectId := env_projectId env, si_organizationId := env_organizationId env\<rparr>)) (\<lambda>s'.
     andDo (ack_message cfg (env_organizationId env) i True)
     (andDo (complete_associated i (Some (error_output (truncateTaskRunError error))))
     (andDo (emit (runFailed i (tr_status t) error))
     (andDo (finalizeRun t)
       (ret (RUN_FINISHED, result_of_row t s'))))))))))"

record failure =
  fa_error :: task_run_error
  fa_retry :: "retry_settings option"
  fa_durationMs :: "int option"

record nack_args =
  na_environmentId :: string
  na_environmentType :: RuntimeEnvironmentType
  na_orgId :: string
  na_projectId :: string
  na_timestamp :: "int option"
  na_error :: task_run_error
  na_workerId :: "string option"
  na_runnerId :: "string option"
  na_checkpointId :: "string option"
  na_completedWaitpoints :: "(string \<times> int option) list"
  na_batchId :: "string option"

text \<open>\<open>tryNackAndRequeue\<close> over what it does when the queue gives the message up.\<close>

definition nack_and_requeue_or ::
    "(string \<Rightarrow> task_run_error \<Rightarrow> attempt_result engine) \<Rightarrow> engine_options \<Rightarrow> string \<Rightarrow> nack_args
     \<Rightarrow> (bool \<times> execution_result) engine" where
  "nack_and_requeue_or fail cfg i a =
     andThen the_time (\<lambda>now.
     andThen (on_queue (nackMessage (eo_queue cfg) (eo_random cfg) now (na_orgId a) i (na_timestamp a) True)) (\<lambda>gotRequeued.
       if gotRequeued \<noteq> Some True
       then andThen (fail i (na_error a)) (\<lambda>(_, r). ret (False, r))
       else andThen (requeueRun i) (\<lambda>t.
         andThen (createExecutionSnapshot cfg
             \<lparr>si_runId = tr_id t, si_runStatus = tr_status t, si_attemptNumber = tr_attemptNumber t,
              si_executionStatus = QUEUED, si_description = ''Requeued the run after a failure'',
              si_metadata = None, si_previousSnapshotId = None, si_batchId = na_batchId a,
              si_environmentId = na_environmentId a, si_environmentType = na_environmentType a,
              si_projectId = na_projectId a, si_organizationId = na_orgId a,
              si_checkpointId = na_checkpointId a, si_workerId = na_workerId a, si_runnerId = na_runnerId a,
              si_completedWaitpoints = na_completedWaitpoints a, si_error = None\<rparr>) (\<lambda>s'.
           ret (True, executionResultFromSnapshot s')))))"

definition retry_row :: "run \<Rightarrow> retry_run" where
  "retry_row t = \<lparr>rr_maxAttempts = tr_maxAttempts t, rr_lockedRetryConfig = tr_lockedRetryConfig t,
     rr_usageDurationMs = tr_usageDurationMs t, rr_costInCents = tr_costInCents t,
     rr_machinePreset = tr_machinePreset t\<rparr>"

definition max_retries_error :: task_run_error where
  "max_retries_error = INTERNAL_ERROR TASK_RUN_DEQUEUED_MAX_RETRIES
     (Some ''We tried to dequeue the run the maximum number of times but it wouldn't start executing'') None"

text \<open>The retry of a failed attempt.\<close>

definition retry_attempt ::
    "(string \<Rightarrow> task_run_error \<Rightarrow> attempt_result engine) \<Rightarrow> engine_options \<Rightarrow> string \<Rightarrow> snapshot \<Rightarrow> failure \<Rightarrow> bool
     \<Rightarrow> string option \<Rightarrow> string option \<Rightarrow> retry_method \<Rightarrow> retry_settings \<Rightarrow> string option \<Rightarrow> bool \<Rightarrow> retry_usage
     \<Rightarrow> attempt_result engine" where
  "retry_attempt fail cfg i s completion forceRequeue workerId runnerId method settings machine oom usage =
     andThen (case calculateUpdatedUsage (eo_defaultMachine cfg) (eo_machines cfg) (ru_usageDurationMs usage)
           (ru_costInCents usage) (or_default (fa_durationMs completion) 0) (ru_machinePreset usage) (sn_environmentType s) of
         (u, c) \<Rightarrow> recordRetryOutcome i machine u c) (\<lambda>t.
     andThen (required (eo_resolveEnv cfg (tr_runtimeEnvironmentId t)) no_env) (\<lambda>env.
     andDo (whenever oom (emit (runAttemptFailed i (fa_error completion) (or_default (sn_attemptNumber s) 0))))
     (andDo (emit (runRetryScheduled i
         (case sn_attemptNumber s of None \<Rightarrow> 1 | Some n \<Rightarrow> n + 1) (rs_timestamp settings) machine))
     (if forceRequeue \<or> method = via_queue \<or>
         (case eo_retryWarmStartThresholdMs cfg of None \<Rightarrow> False | Some d \<Rightarrow> rs_delay settings \<ge> d)
      then andThen (nack_and_requeue_or fail cfg i
               \<lparr>na_environmentId = env_id env, na_environmentType = env_type env, na_orgId = env_organizationId env,
                na_projectId = env_projectId env, na_timestamp = Some (rs_timestamp settings),
                na_error = max_retries_error, na_workerId = None, na_runnerId = None, na_checkpointId = None,
                na_completedWaitpoints = [], na_batchId = None\<rparr>) (\<lambda>(wasRequeued, r).
             ret (if wasRequeued then RETRY_QUEUED else RUN_FINISHED, r))
      else andThen (createExecutionSnapshot cfg
               (run_snapshot t s EXECUTING ''Attempt failed with a short delay, starting a new attempt'' workerId runnerId)) (\<lambda>s'.
             andDo (sendNotificationToWorker i s')
               (ret (RETRY_IMMEDIATELY, executionResultFromSnapshot s')))))))"

definition attempt_failed_or ::
    "(string \<Rightarrow> task_run_error \<Rightarrow> attempt_result engine) \<Rightarrow> engine_options \<Rightarrow> string option \<Rightarrow> string \<Rightarrow> string
     \<Rightarrow> failure \<Rightarrow> bool \<Rightarrow> string option \<Rightarrow> string option \<Rightarrow> attempt_result engine" where
  "attempt_failed_or fail cfg envId i snapshotId completion forceRequeue workerId runnerId =
     andThen (current_snapshot envId i snapshotId) (\<lambda>s.
     andThen (clearBlockingWaitpoints i) (\<lambda>_.
     andThen the_time (\<lambda>failedAt.
     andThen (findRun i) (\<lambda>found.
     andThen (case retryOutcomeFromCompletion (eo_random cfg) failedAt (map_option retry_row found)
           (sn_attemptNumber s) (fa_error completion) forceRequeue (fa_retry completion) of
         Inl msg \<Rightarrow> throw (ServiceValidationError msg 404) | Inr outcome \<Rightarrow> ret outcome) (\<lambda>outcome.
     andDo (whenever forceRequeue (andThen (required found not_found) (\<lambda>_.
         emit (runAttemptFailed i (fa_error completion) (or_default (sn_attemptNumber s) 0)))))
     (case outcome of
        cancel_run reason \<Rightarrow>
          andThen (cancelRun cfg i \<lparr>ca_workerId = None, ca_runnerId = None, ca_completedAt = Some failedAt,
              ca_reason = reason, ca_finalizeRun = True, ca_bulkActionId = None,
              ca_attemptDurationMs = fa_durationMs completion\<rparr>) (\<lambda>(_, r).
            ret (if er_executionStatus r = PENDING_CANCEL then RUN_PENDING_CANCEL else RUN_FINISHED, r))
      | fail_run sanitizedError _ \<Rightarrow>
          permanentlyFailRun cfg i s failedAt sanitizedError workerId runnerId (fa_durationMs completion)
      | retry method settings machine oom usage \<Rightarrow>
          retry_attempt fail cfg i s completion forceRequeue workerId runnerId method settings machine oom usage))))))"

text \<open>\<open>systemFailure\<close> over the failing of an attempt.\<close>

definition system_failure_by ::
    "(string \<Rightarrow> string \<Rightarrow> failure \<Rightarrow> attempt_result engine) \<Rightarrow> string \<Rightarrow> task_run_error \<Rightarrow> attempt_result engine" where
  "system_failure_by failed i error =
     andThen (getLatestExecutionSnapshot None i) (\<lambda>(s, _).
       if sn_executionStatus s = FINISHED then ret (RUN_FINISHED, executionResultFromSnapshot s)
       else failed i (sn_id s) \<lparr>fa_error = error, fa_retry = None, fa_durationMs = None\<rparr>)"

fun attemptFailed_fuel ::
    "nat \<Rightarrow> engine_options \<Rightarrow> string option \<Rightarrow> string \<Rightarrow> string \<Rightarrow> failure \<Rightarrow> bool \<Rightarrow> string option \<Rightarrow> string option
     \<Rightarrow> attempt_result engine" where
  "attemptFailed_fuel 0 cfg envId i snapshotId completion forceRequeue workerId runnerId = throw OutOfFuel"
| "attemptFailed_fuel (Suc n) cfg envId i snapshotId completion forceRequeue workerId runnerId =
     attempt_failed_or
       (system_failure_by (\<lambda>i snapshotId completion.
          attemptFailed_fuel n cfg None i snapshotId completion False None None))
       cfg envId i snapshotId completion forceRequeue workerId runnerId"

definition attemptFailed ::
    "engine_options \<Rightarrow> string option \<Rightarrow> string \<Rightarrow> string \<Rightarrow> failure \<Rightarrow> bool \<Rightarrow> string option \<Rightarrow> string option
     \<Rightarrow> attempt_result engine" where
  "attemptFailed cfg envId i snapshotId completion forceRequeue workerId runnerId =
     attemptFailed_fuel 2 cfg envId i snapshotId completion forceRequeue workerId runnerId"

definition systemFailure :: "engine_options \<Rightarrow> string \<Rightarrow> task_run_error \<Rightarrow> attempt_result engine" where
  "systemFailure cfg i error =
     system_failure_by (\<lambda>i snapshotId completion. attemptFailed cfg None i snapshotId completion False None None) i error"

definition tryNackAndRequeue :: "engine_options \<Rightarrow> string \<Rightarrow> nack_args \<Rightarrow> (bool \<times> execution_result) engine" where
  "tryNackAndRequeue cfg i a = nack_and_requeue_or (systemFailure cfg) cfg i a"

section \<open>Completing and starting an attempt\<close>

datatype completion = Succeeded success | Failed failure

definition completeRunAttempt ::
    "engine_options \<Rightarrow> string option \<Rightarrow> string \<Rightarrow> string \<Rightarrow> completion \<Rightarrow> string option \<Rightarrow> string option
     \<Rightarrow> attempt_result engine" where
  "completeRunAttempt cfg envId i snapshotId completion workerId runnerId =
     (case completion of
        Succeeded c \<Rightarrow> attemptSucceeded cfg envId i snapshotId c workerId runnerId
      | Failed c \<Rightarrow> attemptFailed cfg envId i snapshotId c False workerId runnerId)"

definition max_attempts_failure :: failure where
  "max_attempts_failure = \<lparr>fa_error = INTERNAL_ERROR TASK_RUN_CRASHED (Some ''Max attempts reached.'') None,
     fa_retry = None, fa_durationMs = None\<rparr>"

text \<open>The two writes of a new attempt, in one transaction.\<close>

definition begin_attempt ::
    "engine_options \<Rightarrow> run \<Rightarrow> int \<Rightarrow> bool \<Rightarrow> enhanced_snapshot \<Rightarrow> string option \<Rightarrow> string option
     \<Rightarrow> (run \<times> snapshot) engine" where
  "begin_attempt cfg row nextAttemptNumber isWarmStart latestSnapshot workerId runnerId =
     andThen the_time (\<lambda>now.
     andThen (startAttempt (tr_id row) nextAttemptNumber
         (if tr_attemptNumber row = None then Some now else None) isWarmStart) (\<lambda>t.
     andThen (createExecutionSnapshot cfg
         ((run_snapshot t (fst latestSnapshot) EXECUTING
             (''Attempt created, starting execution'' @ (if isWarmStart then '' (warm start)'' else []))
             workerId runnerId)
            \<lparr>si_batchId := sn_batchId (fst latestSnapshot),
             si_completedWaitpoints := pass_on (snd latestSnapshot)\<rparr>)) (\<lambda>s'.
     andDo (whenever (truthy (tr_ttl row) \<noteq> None) (ackJob (expire_job (tr_id row))))
       (ret (t, s')))))"

text \<open>A transaction that throws is reported as a service error.\<close>

definition transaction_or_500 :: "'a engine \<Rightarrow> 'a engine" where
  "transaction_or_500 m w =
     (case runInTransaction m w of
        (Inl _, w') \<Rightarrow> (Inl (ServiceValidationError ''Failed to update task run and execution snapshot'' 500), w')
      | (Inr x, w') \<Rightarrow> (Inr x, w'))"

definition startRunAttempt ::
    "engine_options \<Rightarrow> string option \<Rightarrow> string \<Rightarrow> string \<Rightarrow> bool \<Rightarrow> string option \<Rightarrow> string option
     \<Rightarrow> (run \<times> snapshot) engine" where
  "startRunAttempt cfg envId i snapshotId isWarmStart workerId runnerId =
     andThen (getLatestExecutionSnapshot envId i) (\<lambda>latestSnapshot.
     andDo (require (sn_id (fst latestSnapshot) = snapshotId)
         (ServiceValidationError ''Snapshot changed inside startRunAttempt'' 409))
     (andThen (findRun i) (\<lambda>found.
     andThen (required found (ServiceValidationError ''Task run not found'' 404)) (\<lambda>row.
     andDo (require (\<not> isFinishedOrPendingFinished (sn_executionStatus (fst latestSnapshot)))
         (ServiceValidationError ''Task run is already finished'' 400))
     (andDo (require (truthy (tr_lockedById row) \<noteq> None) (ServiceValidationError ''Task run is not locked'' 400))
     (let nextAttemptNumber = or_default (tr_attemptNumber row) 0 + 1
      in if nextAttemptNumber > MAX_TASK_RUN_ATTEMPTS
         then andDo (attemptFailed cfg None (tr_id row) snapshotId max_attempts_failure False None None)
                (throw (ServiceValidationError ''Max attempts reached'' 400))
         else andThen (transaction_or_500
             (begin_attempt cfg row nextAttemptNumber isWarmStart latestSnapshot workerId runnerId)) (\<lambda>(t, s').
           andThen (required (eo_resolveEnv cfg (tr_runtimeEnvironmentId t)) no_env) (\<lambda>env.
             andDo (emit (runAttemptStarted i nextAttemptNumber)) (ret (t, s'))))))))))"

end
