(* ===== verification/Checkpoints.thy ===== *)
theory Checkpoints
  imports RunAttempts
begin

text \<open>
  Checkpoints (\<open>engine/systems/checkpointSystem.ts\<close>): suspending a run whose process was saved, and
  continuing it once the process has been restored.
\<close>

record checkpoint_input =
  ci_type :: string
  ci_location :: string
  ci_imageRef :: "string option"
  ci_reason :: "string option"

fun execution_status_name :: "TaskRunExecutionStatus \<Rightarrow> string" where
  "execution_status_name RUN_CREATED = ''RUN_CREATED''"
| "execution_status_name DELAYED = ''DELAYED''"
| "execution_status_name QUEUED = ''QUEUED''"
| "execution_status_name QUEUED_EXECUTING = ''QUEUED_EXECUTING''"
| "execution_status_name PENDING_EXECUTING = ''PENDING_EXECUTING''"
| "execution_status_name EXECUTING = ''EXECUTING''"
| "execution_status_name EXECUTING_WITH_WAITPOINTS = ''EXECUTING_WITH_WAITPOINTS''"
| "execution_status_name SUSPENDED = ''SUSPENDED''"
| "execution_status_name PENDING_CANCEL = ''PENDING_CANCEL''"
| "execution_status_name FINISHED = ''FINISHED''"

datatype checkpoint_result = Discarded string | Checkpointed execution_result checkpoint

definition discard_checkpoint :: "string \<Rightarrow> string \<Rightarrow> checkpoint_result engine" where
  "discard_checkpoint i reason = andDo (emit (incomingCheckpointDiscarded i reason)) (ret (Discarded reason))"

text \<open>The caller knows the latest snapshot, or the one before a run that was queued while executing.\<close>

definition knows_snapshot :: "snapshot \<Rightarrow> string \<Rightarrow> bool" where
  "knows_snapshot s snapshotId =
     (sn_id s = snapshotId
      \<or> (sn_previousSnapshotId s = Some snapshotId \<and> sn_executionStatus s = QUEUED_EXECUTING))"

definition create_checkpoint_row :: "environment \<Rightarrow> checkpoint_input \<Rightarrow> checkpoint engine" where
  "create_checkpoint_row env c =
     andThen (fresh_id ''checkpoint_'') (\<lambda>k.
       insertCheckpoint \<lparr>cp_id = k, cp_type = ci_type c, cp_location = ci_location c, cp_imageRef = ci_imageRef c,
         cp_reason = ci_reason c, cp_environmentId = env_id env, cp_projectId = env_projectId env\<rparr>)"

text \<open>The snapshot of the suspended run: queued again, where it was queued while executing.\<close>

definition suspended_snapshot ::
    "engine_options \<Rightarrow> run \<Rightarrow> environment \<Rightarrow> enhanced_snapshot \<Rightarrow> string \<Rightarrow> string option \<Rightarrow> string option \<Rightarrow> snapshot engine" where
  "suspended_snapshot cfg t env latestSnapshot checkpointId workerId runnerId =
     (let s = fst latestSnapshot
      in if sn_executionStatus s = QUEUED_EXECUTING
         then enqueueRun cfg t env
           (no_args\<lparr>ea_status := Some QUEUED,
              ea_description := Some ''Run was QUEUED, because it was queued and executing and a checkpoint was created'',
              ea_metadata := sn_metadata s, ea_previousSnapshotId := Some (sn_id s), ea_batchId := sn_batchId s,
              ea_completedWaitpoints := pass_on (snd latestSnapshot), ea_checkpointId := Some checkpointId\<rparr>)
         else createExecutionSnapshot cfg
           ((run_snapshot t s SUSPENDED ''Run was suspended after creating a checkpoint.'' workerId runnerId)
              \<lparr>si_metadata := sn_metadata s, si_batchId := sn_batchId s,
               si_completedWaitpoints := pass_on (snd latestSnapshot), si_checkpointId := Some checkpointId\<rparr>))"

definition createCheckpoint ::
    "engine_options \<Rightarrow> string \<Rightarrow> string \<Rightarrow> checkpoint_input \<Rightarrow> string option \<Rightarrow> string option
     \<Rightarrow> checkpoint_result engine" where
  "createCheckpoint cfg i snapshotId c workerId runnerId =
     andThen (getLatestExecutionSnapshot None i) (\<lambda>latestSnapshot.
       let s = fst latestSnapshot
       in if \<not> knows_snapshot s snapshotId then discard_checkpoint i ''Not the latest snapshot''
          else if \<not> isCheckpointable (sn_executionStatus s)
          then discard_checkpoint i
            (''Status '' @ execution_status_name (sn_executionStatus s) @ '' is not checkpointable'')
          else
            andThen (suspendForCheckpoint i) (\<lambda>t.
            andThen (required (eo_resolveEnv cfg (tr_runtimeEnvironmentId t)) not_found) (\<lambda>env.
            andDo (emit (runStatusChanged i (tr_status t)))
            (andThen (create_checkpoint_row env c) (\<lambda>cp.
            andThen (suspended_snapshot cfg t env latestSnapshot (cp_id cp) workerId runnerId) (\<lambda>s'.
            andDo (case truthy (tr_organizationId t) of None \<Rightarrow> ret ()
                   | Some orgId \<Rightarrow> on_queue (\<lambda>r. ((), releaseAllConcurrency orgId (tr_id t) r)))
              (ret (Checkpointed (executionResultFromSnapshot s') cp))))))))"

definition continueRunExecution ::
    "engine_options \<Rightarrow> string option \<Rightarrow> string \<Rightarrow> string \<Rightarrow> string option \<Rightarrow> string option
     \<Rightarrow> execution_result engine" where
  "continueRunExecution cfg envId i snapshotId workerId runnerId =
     andThen (getLatestExecutionSnapshot envId i) (\<lambda>latestSnapshot.
     let s = fst latestSnapshot
     in andDo (require (sn_id s = snapshotId)
           (ServiceValidationError ''Snapshot ID doesn't match the latest snapshot in continueRunExecution'' 400))
        (andDo (require (isPendingExecuting (sn_executionStatus s))
           (ServiceValidationError ''Snapshot is not in a valid state to continue in continueRunExecution'' 400))
        (andThen (resumeFromCheckpoint i) (\<lambda>t.
         andDo (emit (runStatusChanged i (tr_status t)))
        (andThen (createExecutionSnapshot cfg
            ((run_snapshot t s EXECUTING ''Run was continued after being suspended'' workerId runnerId)
               \<lparr>si_batchId := sn_batchId s, si_completedWaitpoints := pass_on (snd latestSnapshot)\<rparr>)) (\<lambda>s'.
         andDo (sendNotificationToWorker i s') (ret (executionResultFromSnapshot s'))))))))"

end
