(* ===== verification/Expiry.thy ===== *)
theory Expiry
  imports RunAttempts
begin

text \<open>
  Runs that start later or never: delayed runs (\<open>engine/systems/delayedRunSystem.ts\<close>) and the time
  to live of queued ones (\<open>engine/systems/ttlSystem.ts\<close>).
\<close>

section \<open>Time to live\<close>

definition ttl_text :: "string option \<Rightarrow> string" where
  "ttl_text ttl = (case ttl of None \<Rightarrow> ''null'' | Some s \<Rightarrow> s)"

definition expired_error :: "run \<Rightarrow> task_run_error" where
  "expired_error t = STRING_ERROR (''Run expired because the TTL ('' @ ttl_text (tr_ttl t) @ '') was reached'')"

definition expireRun :: "engine_options \<Rightarrow> string \<Rightarrow> unit engine" where
  "expireRun cfg i =
     andThen (getLatestExecutionSnapshot None i) (\<lambda>(s, _).
       if isExecuting (sn_executionStatus s) then ret ()
       else andThen (findRun i) (\<lambda>found.
         case found of
           None \<Rightarrow> ret ()
         | Some row \<Rightarrow>
             if tr_status row \<noteq> PENDING then ret ()
             else if tr_lockedAt row \<noteq> None then ret ()
             else
               andThen the_time (\<lambda>now.
               andThen (store_expireRun i (expired_error row) now
                   (nested_snapshot i FINISHED ''Run was expired because the TTL was reached'' EXPIRED None s None None)) (\<lambda>t.
               andDo (ack_message cfg (sn_organizationId s) i True)
               (andDo (complete_associated i (Some (error_output (expired_error row))))
                 (emit (runExpired i)))))))"

definition scheduleExpireRun :: "string \<Rightarrow> string \<Rightarrow> unit engine" where
  "scheduleExpireRun i ttl =
     andThen the_time (\<lambda>now.
       case parseNaturalLanguageDuration now ttl of
         None \<Rightarrow> ret () | Some t \<Rightarrow> enqueueJob (expire_job i) (expireRunJob i) t)"

fun run_status_name :: "TaskRunStatus \<Rightarrow> string" where
  "run_status_name TaskRunStatus.DELAYED = ''DELAYED''"
| "run_status_name PENDING = ''PENDING''"
| "run_status_name PENDING_VERSION = ''PENDING_VERSION''"
| "run_status_name WAITING_FOR_DEPLOY = ''WAITING_FOR_DEPLOY''"
| "run_status_name DEQUEUED = ''DEQUEUED''"
| "run_status_name TaskRunStatus.EXECUTING = ''EXECUTING''"
| "run_status_name WAITING_TO_RESUME = ''WAITING_TO_RESUME''"
| "run_status_name RETRYING_AFTER_FAILURE = ''RETRYING_AFTER_FAILURE''"
| "run_status_name PAUSED = ''PAUSED''"
| "run_status_name CANCELED = ''CANCELED''"
| "run_status_name INTERRUPTED = ''INTERRUPTED''"
| "run_status_name COMPLETED_SUCCESSFULLY = ''COMPLETED_SUCCESSFULLY''"
| "run_status_name COMPLETED_WITH_ERRORS = ''COMPLETED_WITH_ERRORS''"
| "run_status_name SYSTEM_FAILURE = ''SYSTEM_FAILURE''"
| "run_status_name CRASHED = ''CRASHED''"
| "run_status_name EXPIRED = ''EXPIRED''"
| "run_status_name TIMED_OUT = ''TIMED_OUT''"

definition can_expire :: "run \<Rightarrow> bool" where
  "can_expire t = (tr_status t = PENDING \<and> tr_lockedAt t = None)"

text \<open>The runs a batch skips, with the reason: those that cannot expire, then those not found.\<close>

definition skip_reason :: "run \<Rightarrow> string" where
  "skip_reason t = (if tr_status t \<noteq> PENDING then ''status_'' @ run_status_name (tr_status t) else ''locked'')"

definition skipped_runs :: "string list \<Rightarrow> run list \<Rightarrow> (string \<times> string) list" where
  "skipped_runs ids runs =
     map (\<lambda>t. (tr_id t, skip_reason t)) (filter (\<lambda>t. \<not> can_expire t) runs)
     @ map (\<lambda>i. (i, ''not_found'')) (filter (\<lambda>i. i \<notin> set (map tr_id runs)) ids)"

definition ttl_finish_job :: "string \<Rightarrow> string" where
  "ttl_finish_job i = ''finishWaitpoint.ttl.'' @ i"

definition batch_error :: task_run_error where
  "batch_error = STRING_ERROR ''Run expired because the TTL was reached''"

definition announce_expired :: "int \<Rightarrow> run \<Rightarrow> unit engine" where
  "announce_expired now t =
     andThen (reading (associatedWaitpoint (tr_id t))) (\<lambda>found.
       andDo (case found of
           None \<Rightarrow> ret ()
         | Some x \<Rightarrow> enqueueJob (ttl_finish_job (wp_id x)) (finishWaitpoint (wp_id x) (Some (stringify_error batch_error))) now)
         (case truthy (tr_organizationId t) of None \<Rightarrow> ret () | Some _ \<Rightarrow> emit (runExpired (tr_id t))))"

text \<open>\<open>expireRunsBatch\<close>, after the queue's script has taken the runs out of their queues.\<close>

definition expireRunsBatch :: "string list \<Rightarrow> (string list \<times> (string \<times> string) list) engine" where
  "expireRunsBatch ids =
     (if ids = [] then ret ([], [])
      else
        andThen (reading (\<lambda>w. filter (\<lambda>t. tr_id t \<in> set ids) (en_runs w))) (\<lambda>runs.
          let skipped = skipped_runs ids runs; runsToExpire = filter can_expire runs
          in if runsToExpire = [] then ret ([], skipped)
             else
               andThen the_time (\<lambda>now.
               andDo (store_expireRunsBatch (map tr_id runsToExpire) batch_error now)
               (andDo (forEach runsToExpire (announce_expired now))
                 (ret (map tr_id (filter (\<lambda>t. truthy (tr_organizationId t) \<noteq> None) runsToExpire), skipped))))))"

section \<open>Delayed runs\<close>

definition rescheduled_snapshot :: "string \<Rightarrow> snapshot \<Rightarrow> snapshot_input" where
  "rescheduled_snapshot i s =
     (if sn_runStatus s = PENDING_VERSION
      then nested_snapshot i RUN_CREATED ''Parked run was rescheduled to a future date'' PENDING_VERSION None s None None
      else nested_snapshot i DELAYED ''Delayed run was rescheduled to a future date'' TaskRunStatus.DELAYED None s None None)"

definition rescheduleDelayedRun :: "string \<Rightarrow> int \<Rightarrow> run engine" where
  "rescheduleDelayedRun i delayUntil =
     andThen (getLatestExecutionSnapshot None i) (\<lambda>(s, _).
     andDo (require (sn_executionStatus s = DELAYED \<or> sn_executionStatus s = RUN_CREATED)
         (ServiceValidationError ''Cannot reschedule a run that is not delayed'' 0))
     (andThen (store_rescheduleRun i delayUntil (rescheduled_snapshot i s)) (\<lambda>t.
      andDo (rescheduleJob (delayed_job (tr_id t)) delayUntil)
      (andDo (emit (runDelayRescheduled (tr_id t) delayUntil)) (ret t)))))"

definition enqueueDelayedRun :: "engine_options \<Rightarrow> string \<Rightarrow> unit engine" where
  "enqueueDelayedRun cfg i =
     andThen (getLatestExecutionSnapshot None i) (\<lambda>(s, _).
       if sn_executionStatus s \<noteq> DELAYED \<and> sn_executionStatus s \<noteq> RUN_CREATED then ret ()
       else
         andThen (findRun i) (\<lambda>found.
         andThen (required found (Error (''#enqueueDelayedRun: run not found: '' @ i))) (\<lambda>row.
         andThen (required (eo_resolveEnv cfg (tr_runtimeEnvironmentId row))
             (Error (''#enqueueDelayedRun: environment not found for run: '' @ i))) (\<lambda>env.
         andThen the_time (\<lambda>now.
           if (case tr_delayUntil row of None \<Rightarrow> False | Some d \<Rightarrow> d > now) then ret ()
           else
             andDo (case truthy (tr_ttl row) of None \<Rightarrow> ret ()
                    | Some ttl \<Rightarrow> whenever (env_type env = DEVELOPMENT) (scheduleExpireRun i ttl))
             (andDo (enqueueRun cfg row env
                 (no_args\<lparr>ea_batchId := tr_batchId row, ea_includeTtl := True,
                    ea_anchorEligibilityAtQueuePosition := True\<rparr>))
             (andThen (store_enqueueDelayedRun i now) (\<lambda>_. emit (runEnqueuedAfterDelay i)))))))))"

definition scheduleDelayedRunEnqueuing :: "string \<Rightarrow> int \<Rightarrow> unit engine" where
  "scheduleDelayedRunEnqueuing i delayUntil = enqueueJob (delayed_job i) (enqueueDelayedRunJob i) delayUntil"

definition preventDelayedRunFromBeingEnqueued :: "string \<Rightarrow> unit engine" where
  "preventDelayedRunFromBeingEnqueued i = ackJob (delayed_job i)"

end
