(* ===== verification/Batches.thy ===== *)
theory Batches
  imports RunAttempts
begin

text \<open>
  Batches of runs (\<open>engine/systems/batchSystem.ts\<close>): completing a batch once all its runs have
  ended, and giving up one whose items never arrived. (\<open>scheduleCompleteBatch\<close> is in RunAttempts.)
\<close>

definition expire_batch_job :: "string \<Rightarrow> string" where
  "expire_batch_job b = ''expireBatch:'' @ b"

definition scheduleExpireBatch :: "string \<Rightarrow> int \<Rightarrow> unit engine" where
  "scheduleExpireBatch b availableAt = enqueueJob (expire_batch_job b) (expireBatchJob b) availableAt"

definition batch_waitpoint :: "string \<Rightarrow> world \<Rightarrow> waitpoint option" where
  "batch_waitpoint b w = List.find (\<lambda>x. wp_completedByBatchId x = Some b) (en_waitpoints w)"

definition complete_batch_waitpoint :: "string \<Rightarrow> waitpoint_output \<Rightarrow> unit engine" where
  "complete_batch_waitpoint b out =
     andThen (reading (batch_waitpoint b)) (\<lambda>found.
       case found of None \<Rightarrow> ret () | Some x \<Rightarrow> andDo (completeWaitpoint (wp_id x) (Some out)) (ret ()))"

definition never_created :: "batch \<Rightarrow> task_run_error" where
  "never_created b = STRING_ERROR
     (''Batch '' @ bt_friendlyId b @ '' was never fully created: its '' @ nat_to_string (nat (bt_expectedCount b))
      @ '' items could not be streamed before it timed out, so the batch can never complete. ''
      @ ''batchTriggerAndWait failed rather than waiting forever.'')"

definition still_open :: "string \<Rightarrow> batch \<Rightarrow> bool" where
  "still_open b x = (bt_id x = b \<and> \<not> bt_sealed x \<and> bt_status x = BATCH_PENDING)"

definition abort_row :: "int \<Rightarrow> batch \<Rightarrow> batch" where
  "abort_row now x = x\<lparr>bt_status := BATCH_ABORTED, bt_completedAt := Some now, bt_processingCompletedAt := Some now\<rparr>"

definition expireBatch :: "string \<Rightarrow> unit engine" where
  "expireBatch b =
     andThen (reading (batch_of b)) (\<lambda>found.
       case found of
         None \<Rightarrow> ret ()
       | Some x \<Rightarrow>
           if bt_sealed x \<or> (bt_status x \<noteq> BATCH_PENDING \<and> bt_status x \<noteq> BATCH_ABORTED) then ret ()
           else if bt_status x = BATCH_PENDING
           then
             andThen the_time (\<lambda>now.
             andThen (updateBatches (still_open b) (abort_row now)) (\<lambda>aborted.
             andThen (reading (batch_of b)) (\<lambda>current.
               if aborted = 0 \<and>
                  (case current of None \<Rightarrow> True | Some y \<Rightarrow> bt_sealed y \<or> bt_status y \<noteq> BATCH_ABORTED)
               then ret ()
               else complete_batch_waitpoint b (error_output (never_created x)))))
           else complete_batch_waitpoint b (error_output (never_created x)))"

definition processed_count :: "batch \<Rightarrow> int" where
  "processed_count x =
     (if bt_batchVersion x = ''runengine:v2''
      then or_default (bt_successfulRunCount x) 0 + or_default (bt_failedRunCount x) 0
      else bt_processingJobsCount x)"

definition batch_runs :: "batch \<Rightarrow> world \<Rightarrow> run list" where
  "batch_runs x w =
     filter (\<lambda>t. tr_batchId t = Some (bt_id x) \<and> tr_runtimeEnvironmentId t = bt_runtimeEnvironmentId x) (en_runs w)"

text \<open>\<open>#tryCompleteBatch\<close>.\<close>

definition tryCompleteBatch :: "string \<Rightarrow> unit engine" where
  "tryCompleteBatch b =
     andThen (reading (batch_of b)) (\<lambda>found.
       case found of
         None \<Rightarrow> ret ()
       | Some x \<Rightarrow>
           if bt_status x = BATCH_COMPLETED then ret ()
           else if processed_count x < bt_runCount x then ret ()
           else
             andThen (reading (batch_runs x)) (\<lambda>runs.
               if list_all (\<lambda>t. isFinalRunStatus (tr_status t)) runs
               then
                 andThen (updateBatches (\<lambda>y. bt_id y = b \<and> bt_status y \<notin> {BATCH_ABORTED, BATCH_COMPLETED})
                     (\<lambda>y. y\<lparr>bt_status := BATCH_COMPLETED\<rparr>)) (\<lambda>completed.
                   if completed = 0 then ret ()
                   else complete_batch_waitpoint b
                     \<lparr>wo_value = ''Batch waitpoint completed'', wo_type = None, wo_isError = False\<rparr>)
               else ret ()))"

end
