(* ===== verification/StalledRuns.thy ===== *)
theory StalledRuns
  imports RunAttempts
begin

text \<open>
  Runs that stall (\<open>engine/index.ts\<close>): the handler of a heartbeat that was missed and the repair
  of a run whose entries in the queue's concurrency sets outlived its execution.
\<close>

section \<open>A missed heartbeat\<close>

text \<open>\<open>formatDurationMilliseconds\<close> of \<open>packages/core/src/v3/utils/durations.ts\<close>, without options.\<close>

definition formatDurationMilliseconds :: "engine_options \<Rightarrow> int \<Rightarrow> string" where
  "formatDurationMilliseconds cfg ms =
     eo_humanizeDuration cfg ms (if ms < 1000 then [''ms''] else [''d'', ''h'', ''m'', ''s''])"

definition stalled_message :: "engine_options \<Rightarrow> snapshot \<Rightarrow> string" where
  "stalled_message cfg s =
     ''Run timed out after '' @
     formatDurationMilliseconds cfg
       (if sn_executionStatus s = EXECUTING then ht_EXECUTING (eo_heartbeats cfg)
        else ht_EXECUTING_WITH_WAITPOINTS (eo_heartbeats cfg)) @
     '' due to missing heartbeats (sent every 30s). '' @
     (if sn_environmentType s = DEVELOPMENT
      then ''Check if your `trigger.dev dev` CLI is still running, or if CPU-heavy work is blocking the main thread.''
      else ''This typically happens when CPU-heavy work blocks the main thread.'')"

definition stalled_error :: "engine_options \<Rightarrow> snapshot \<Rightarrow> task_run_error" where
  "stalled_error cfg s =
     (if sn_environmentType s \<noteq> DEVELOPMENT \<and> eo_treatProductionExecutionStallsAsOOM cfg
      then INTERNAL_ERROR TASK_PROCESS_OOM_KILLED (Some ''Run was terminated due to running out of memory'') None
      else INTERNAL_ERROR
        (if sn_executionStatus s = EXECUTING then TASK_RUN_STALLED_EXECUTING
         else TASK_RUN_STALLED_EXECUTING_WITH_WAITPOINTS)
        (Some (stalled_message cfg s)) None)"

definition retryDelay :: int where
  "retryDelay = 250"

text \<open>A run in development is not retried.\<close>

definition stalled_failure :: "engine_options \<Rightarrow> int \<Rightarrow> snapshot \<Rightarrow> failure" where
  "stalled_failure cfg now s =
     \<lparr>fa_error = stalled_error cfg s,
      fa_retry = (if sn_environmentType s \<noteq> DEVELOPMENT
                  then Some \<lparr>rs_timestamp = now + retryDelay, rs_delay = retryDelay\<rparr> else None),
      fa_durationMs = None\<rparr>"

text \<open>The delay before a suspended run's next heartbeat; \<open>None\<close> when the retries are used up.\<close>

definition suspended_delay :: "suspended_retries \<Rightarrow> nat \<Rightarrow> int option" where
  "suspended_delay sr restartAttempt =
     (if restartAttempt \<ge> or_default (sr_maxCount sr) 12 then None
      else Some (floor (min
        (of_int (or_default (sr_initialDelayMs sr) 60000) * or_default (sr_factor sr) 2 ^ (restartAttempt - 1))
        (of_int (or_default (sr_maxDelayMs sr) (60000 * 60 * 6))))))"

definition stalled_suspended :: "engine_options \<Rightarrow> string \<Rightarrow> nat option \<Rightarrow> unit engine" where
  "stalled_suspended cfg i restartAttempt =
     andThen (continueRunIfUnblocked cfg i) (\<lambda>result.
       case result of
         blocked waitpoints \<Rightarrow>
           (case eo_suspendedHeartbeatRetries cfg of
              None \<Rightarrow> ret ()
            | Some sr \<Rightarrow>
                if \<not> list_ex (\<lambda>x. wp_type x = WP_RUN \<or> wp_type x = WP_BATCH) waitpoints then ret ()
                else
                  let attempt = or_default restartAttempt 0 + 1
                  in (case suspended_delay sr attempt of
                        None \<Rightarrow> ret ()
                      | Some delayMs \<Rightarrow> andDo (restartHeartbeatForRun i delayMs attempt) (ret ())))
       | _ \<Rightarrow> ret ())"

definition stalled_nack :: "snapshot \<Rightarrow> completed_waitpoint list \<Rightarrow> nack_args" where
  "stalled_nack s cs =
     \<lparr>na_environmentId = sn_environmentId s, na_environmentType = sn_environmentType s,
      na_orgId = sn_organizationId s, na_projectId = sn_projectId s, na_timestamp = None,
      na_error = INTERNAL_ERROR TASK_RUN_DEQUEUED_MAX_RETRIES
        (Some ''Trying to create an attempt failed multiple times, exceeding how many times we retry.'') None,
      na_workerId = None, na_runnerId = None, na_checkpointId = sn_checkpointId s,
      na_completedWaitpoints = pass_on cs, na_batchId = sn_batchId s\<rparr>"

definition finalize_cancel :: cancel_args where
  "finalize_cancel = \<lparr>ca_workerId = None, ca_runnerId = None, ca_completedAt = None, ca_reason = None,
     ca_finalizeRun = True, ca_bulkActionId = None, ca_attemptDurationMs = None\<rparr>"

definition no_heartbeat :: "string \<Rightarrow> engine_error" where
  "no_heartbeat status = NotImplementedError (''There shouldn't be a heartbeat for '' @ status)"

text \<open>\<open>#handleStalledSnapshot\<close>.\<close>

definition handleStalledSnapshot :: "engine_options \<Rightarrow> string \<Rightarrow> string \<Rightarrow> nat option \<Rightarrow> unit engine" where
  "handleStalledSnapshot cfg i snapshotId restartAttempt =
     andThen (getLatestExecutionSnapshot None i) (\<lambda>(s, cs).
       if sn_id s \<noteq> snapshotId then ret ()
       else
         case sn_executionStatus s of
           RUN_CREATED \<Rightarrow> throw (no_heartbeat ''RUN_CREATED'')
         | QUEUED \<Rightarrow> throw (no_heartbeat ''QUEUED'')
         | QUEUED_EXECUTING \<Rightarrow> throw (no_heartbeat ''QUEUED_EXECUTING'')
         | FINISHED \<Rightarrow> throw (no_heartbeat ''FINISHED'')
         | DELAYED \<Rightarrow> throw (no_heartbeat ''DELAYED'')
         | PENDING_EXECUTING \<Rightarrow>
             andThen (findRun i) (\<lambda>found.
             andThen (required found (Error (''Run '' @ i @ '' not found''))) (\<lambda>_.
             andDo (tryNackAndRequeue cfg i (stalled_nack s cs)) (ret ())))
         | EXECUTING \<Rightarrow>
             andThen the_time (\<lambda>now.
               andDo (attemptFailed cfg None i (sn_id s) (stalled_failure cfg now s) True None None) (ret ()))
         | EXECUTING_WITH_WAITPOINTS \<Rightarrow>
             andThen the_time (\<lambda>now.
               andDo (attemptFailed cfg None i (sn_id s) (stalled_failure cfg now s) True None None) (ret ()))
         | SUSPENDED \<Rightarrow> stalled_suspended cfg i restartAttempt
         | PENDING_CANCEL \<Rightarrow> andDo (cancelRun cfg (sn_runId s) finalize_cancel) (ret ()))"

section \<open>Repair\<close>

text \<open>The environment that is handed on has no concurrency limit of its own; nothing reads it here.\<close>

definition snapshot_env :: "snapshot \<Rightarrow> environment" where
  "snapshot_env s = \<lparr>env_id = sn_environmentId s, env_type = sn_environmentType s,
     env_maximumConcurrencyLimit = 0, env_projectId = sn_projectId s, env_organizationId = sn_organizationId s\<rparr>"

text \<open>\<open>#handleRepairSnapshot\<close>.\<close>

definition handleRepairSnapshot :: "engine_options \<Rightarrow> string \<Rightarrow> string \<Rightarrow> unit engine" where
  "handleRepairSnapshot cfg i snapshotId =
     andThen (getLatestExecutionSnapshot None i) (\<lambda>(s, _).
       if sn_id s \<noteq> snapshotId then ret ()
       else if sn_executionStatus s = QUEUED
       then andThen the_time (\<lambda>now.
              andDo (on_queue (nackMessage (eo_queue cfg) (eo_random cfg) now (sn_organizationId s) i None True)) (ret ()))
       else if sn_executionStatus s = FINISHED \<or> sn_executionStatus s = SUSPENDED
       then andThen (findRun i) (\<lambda>found.
              case found of
                None \<Rightarrow> ret ()
              | Some t \<Rightarrow> on_queue (\<lambda>r. ((), clearMessageFromConcurrencySets (snapshot_env s) (tr_queue t) i r)))
       else ret ())"

end
