(* ===== verification/DequeueSystem.thy ===== *)
theory DequeueSystem
  imports Checkpoints
begin

text \<open>
  Taking a run from a worker queue (\<open>engine/systems/dequeueSystem.ts\<close>): the checks on its state, its
  worker, task, queue and deployment, parking a run that waits for a deployment, locking the
  run to its worker, and what happens when any of it throws.

  The message the worker gets is reduced to what the engine decides on; the billing plan, the
  trace context and the deployment's platform are left out. A deployed worker is polled without
  blocking.
\<close>

section \<open>The worker a run is for\<close>

datatype worker_result =
    NO_RUN
  | RUN_ENVIRONMENT_ARCHIVED
  | NO_WORKER string
  | BACKGROUND_WORKER_MISMATCH string string
  | TASK_NOT_IN_LATEST string
  | TASK_NEVER_REGISTERED string
  | QUEUE_NOT_FOUND string
  | SUCCESS run environment worker_version worker_task task_queue

definition worker_lookup_of :: "run \<Rightarrow> environment \<Rightarrow> string option \<Rightarrow> worker_lookup" where
  "worker_lookup_of t env backgroundWorkerId =
     \<lparr>wl_environmentId = tr_runtimeEnvironmentId t, wl_type = env_type env,
      wl_workerId = (case tr_lockedToVersionId t of None \<Rightarrow> backgroundWorkerId | Some v \<Rightarrow> Some v),
      wl_taskIdentifier = tr_taskIdentifier t, wl_lockedQueueId = tr_lockedQueueId t, wl_queueName = tr_queue t\<rparr>"

definition queue_matches :: "run \<Rightarrow> task_queue \<Rightarrow> bool" where
  "queue_matches t q =
     (case truthy (tr_lockedQueueId t) of None \<Rightarrow> tq_name q = tr_queue t | Some i \<Rightarrow> tq_id q = i)"

definition unknown_task :: "engine_options \<Rightarrow> run \<Rightarrow> worker_result" where
  "unknown_task cfg t =
     (case eo_knownTask cfg (tr_taskIdentifier t) (tr_projectId t) (tr_runtimeEnvironmentId t) of
        Some version \<Rightarrow> TASK_NOT_IN_LATEST
          (''Task not found in latest version: '' @ tr_taskIdentifier t @ ''. Found in '' @ version)
      | None \<Rightarrow> TASK_NEVER_REGISTERED
          (''Task has never been registered (in dev or deployed): '' @ tr_taskIdentifier t))"

definition worker_task_of :: "engine_options \<Rightarrow> run \<Rightarrow> environment \<Rightarrow> worker_version \<Rightarrow> worker_result" where
  "worker_task_of cfg t env v =
     (case List.find (\<lambda>task. wt_slug task = tr_taskIdentifier t) (wv_tasks v) of
        None \<Rightarrow> unknown_task cfg t
      | Some task \<Rightarrow>
          (case List.find (queue_matches t) (wv_queues v) of
             None \<Rightarrow> QUEUE_NOT_FOUND (''Queue not found for run: '' @ tr_id t)
           | Some queue \<Rightarrow> SUCCESS t env v task queue))"

text \<open>\<open>#getRunWithBackgroundWorkerTasks\<close> of the row that was found.\<close>

definition getRunWithBackgroundWorkerTasks ::
    "engine_options \<Rightarrow> run option \<Rightarrow> string option \<Rightarrow> worker_result" where
  "getRunWithBackgroundWorkerTasks cfg found backgroundWorkerId =
     (case found of
        None \<Rightarrow> NO_RUN
      | Some t \<Rightarrow>
          (case eo_resolveEnv cfg (tr_runtimeEnvironmentId t) of
             None \<Rightarrow> NO_RUN
           | Some env \<Rightarrow>
               if eo_archived cfg (tr_runtimeEnvironmentId t) then RUN_ENVIRONMENT_ARCHIVED
               else
                 (case eo_resolveWorkerVersion cfg (worker_lookup_of t env backgroundWorkerId) of
                    None \<Rightarrow> NO_WORKER (''No worker found for run: '' @ tr_id t)
                  | Some v \<Rightarrow>
                      if (case truthy backgroundWorkerId of None \<Rightarrow> False | Some b \<Rightarrow> b \<noteq> wv_workerId v)
                      then BACKGROUND_WORKER_MISMATCH (or_default backgroundWorkerId []) (wv_workerId v)
                      else worker_task_of cfg t env v)))"

section \<open>Dequeueing\<close>

record dequeued =
  dq_runId :: string
  dq_snapshotId :: string
  dq_attemptNumber :: int
  dq_machine :: "MachinePreset option"
  dq_image :: "string option"
  dq_checkpointId :: "string option"
  dq_completedWaitpoints :: "completed_waitpoint list"
  dq_backgroundWorkerId :: string

text \<open>\<open>#pendingVersion\<close>: the run waits for a deployment, out of its queue.\<close>

definition pendingVersion :: "engine_options \<Rightarrow> string \<Rightarrow> string \<Rightarrow> string \<Rightarrow> string \<Rightarrow> unit engine" where
  "pendingVersion cfg orgId i reason statusReason =
     andThen (parkPendingVersion i statusReason) (\<lambda>t.
       case eo_resolveEnv cfg (tr_runtimeEnvironmentId t) of
         None \<Rightarrow> andDo (ack_message cfg orgId i False) (ret ())
       | Some env \<Rightarrow>
           andDo (createExecutionSnapshot cfg
             \<lparr>si_runId = tr_id t, si_runStatus = tr_status t, si_attemptNumber = tr_attemptNumber t,
              si_executionStatus = RUN_CREATED, si_description = reason, si_metadata = None,
              si_previousSnapshotId = None, si_batchId = None, si_environmentId = env_id env,
              si_environmentType = env_type env, si_projectId = env_projectId env,
              si_organizationId = env_organizationId env, si_checkpointId = None, si_workerId = None,
              si_runnerId = None, si_completedWaitpoints = [], si_error = None\<rparr>)
           (andDo (ack_message cfg orgId i False)
             (emit (runStatusChanged i (tr_status t)))))"

definition invalid_state :: "snapshot \<Rightarrow> task_run_error" where
  "invalid_state s = INTERNAL_ERROR TASK_DEQUEUED_INVALID_STATE
     (Some (''Task was in the '' @ execution_status_name (sn_executionStatus s)
        @ '' state when it was dequeued for execution.'')) None"

text \<open>The snapshot of a run that cannot be dequeued; as it has an error it is not valid.\<close>

definition failed_dequeue :: "enhanced_snapshot \<Rightarrow> string option \<Rightarrow> string option \<Rightarrow> snapshot_input" where
  "failed_dequeue latestSnapshot workerId runnerId =
     (let s = fst latestSnapshot; text = ''Tried to dequeue a run that is not in a valid state to be dequeued.''
      in (follow_up s (sn_executionStatus s) text)
           \<lparr>si_attemptNumber := None, si_checkpointId := sn_checkpointId s, si_workerId := workerId,
            si_runnerId := runnerId, si_completedWaitpoints := pass_on (snd latestSnapshot), si_error := Some text\<rparr>)"

definition locked_snapshot :: "run \<Rightarrow> enhanced_snapshot \<Rightarrow> string option \<Rightarrow> string option \<Rightarrow> snapshot_input" where
  "locked_snapshot t latestSnapshot workerId runnerId =
     (let s = fst latestSnapshot
      in (follow_up s PENDING_EXECUTING ''Run was dequeued for execution'')
           \<lparr>si_runId := tr_id t, si_runStatus := PENDING, si_attemptNumber := tr_attemptNumber t,
            si_batchId := sn_batchId s, si_checkpointId := sn_checkpointId s, si_workerId := workerId,
            si_runnerId := runnerId, si_completedWaitpoints := pass_on (snd latestSnapshot)\<rparr>)"

text \<open>The attempts of the run, or else those of the task's retry configuration.\<close>

definition max_attempts_of :: "run \<Rightarrow> worker_task \<Rightarrow> int option" where
  "max_attempts_of t task =
     (case nonzero (tr_maxAttempts t) of
        Some n \<Rightarrow> Some n
      | None \<Rightarrow> (case wt_retryConfig task of config c \<Rightarrow> ro_maxAttempts c | _ \<Rightarrow> None))"

definition lock_to_worker ::
    "engine_options \<Rightarrow> string option \<Rightarrow> string option \<Rightarrow> enhanced_snapshot \<Rightarrow> run \<Rightarrow> worker_version
     \<Rightarrow> worker_task \<Rightarrow> task_queue \<Rightarrow> dequeued option engine" where
  "lock_to_worker cfg workerId runnerId latestSnapshot row version task queue =
     (let machine = getMachinePreset (eo_defaultMachine cfg) (eo_machines cfg) (wt_machineConfig task) (tr_machinePreset row)
      in andThen the_time (\<lambda>lockedAt.
         andThen (lockRunToWorker (tr_id row) lockedAt task (wv_workerId version) (tq_id queue)
             (if tr_lockedRetryConfig row = no_config then wt_retryConfig task else no_config)
             (or_default (tr_startedAt row) lockedAt) (map_option (preset_key \<circ> mp_name) machine)
             (max_attempts_of row task) (locked_snapshot row latestSnapshot workerId runnerId)) (\<lambda>(t, s).
         andDo (emit (runLocked (tr_id row)))
         (andDo (emit (executionSnapshotCreated (tr_id row) (sn_id s) (map cw_id (snd latestSnapshot))))
         (andDo (enqueueHeartbeatIfNeeded cfg s)
           (ret (Some \<lparr>dq_runId = tr_id t, dq_snapshotId = sn_id s,
             dq_attemptNumber = or_default (tr_attemptNumber t) 0 + 1, dq_machine = machine,
             dq_image = (case wv_deployment version of None \<Rightarrow> None | Some d \<Rightarrow> wd_imageReference d),
             dq_checkpointId = sn_checkpointId (fst latestSnapshot),
             dq_completedWaitpoints = snd latestSnapshot, dq_backgroundWorkerId = wv_workerId version\<rparr>)))))))"

definition deployed :: "worker_version \<Rightarrow> bool" where
  "deployed v =
     (case wv_deployment v of None \<Rightarrow> False | Some d \<Rightarrow> truthy (wd_imageReference d) \<noteq> None)"

text \<open>What is done for each answer about the run's worker.\<close>

definition dequeue_for_worker ::
    "engine_options \<Rightarrow> string option \<Rightarrow> string option \<Rightarrow> string \<Rightarrow> string \<Rightarrow> enhanced_snapshot \<Rightarrow> worker_result
     \<Rightarrow> dequeued option engine" where
  "dequeue_for_worker cfg workerId runnerId orgId i latestSnapshot result =
     (case result of
        NO_RUN \<Rightarrow> andDo (ack_message cfg orgId i False) (ret None)
      | RUN_ENVIRONMENT_ARCHIVED \<Rightarrow> andDo (ack_message cfg orgId i False) (ret None)
      | NO_WORKER msg \<Rightarrow> andDo (pendingVersion cfg orgId i msg ''NO_WORKER'') (ret None)
      | TASK_NEVER_REGISTERED msg \<Rightarrow> andDo (pendingVersion cfg orgId i msg ''TASK_NEVER_REGISTERED'') (ret None)
      | QUEUE_NOT_FOUND msg \<Rightarrow> andDo (pendingVersion cfg orgId i msg ''QUEUE_NOT_FOUND'') (ret None)
      | TASK_NOT_IN_LATEST msg \<Rightarrow> andDo (pendingVersion cfg orgId i msg ''TASK_NOT_IN_LATEST'') (ret None)
      | BACKGROUND_WORKER_MISMATCH expected received \<Rightarrow>
          andThen the_time (\<lambda>now.
            andDo (on_queue (nackMessage (eo_queue cfg) (eo_random cfg) now orgId i None True)) (ret None))
      | SUCCESS row env version task queue \<Rightarrow>
          if env_type env \<noteq> DEVELOPMENT \<and> \<not> deployed version
          then andDo (pendingVersion cfg orgId i
                 ''No deployment or deployment image reference found for deployed run'' ''NO_DEPLOYMENT'') (ret None)
          else lock_to_worker cfg workerId runnerId latestSnapshot row version task queue)"

text \<open>The part that runs under the run's lock.\<close>

definition dequeue_locked ::
    "engine_options \<Rightarrow> string option \<Rightarrow> string option \<Rightarrow> string option \<Rightarrow> string \<Rightarrow> string \<Rightarrow> dequeued option engine" where
  "dequeue_locked cfg backgroundWorkerId workerId runnerId orgId i =
     andThen (getLatestExecutionSnapshot None i) (\<lambda>latestSnapshot.
       let s = fst latestSnapshot
       in if \<not> isDequeueableExecutionStatus (sn_executionStatus s)
          then if sn_executionStatus s = PENDING_EXECUTING
               then andDo (ack_message cfg orgId i False) (ret None)
               else andDo (createExecutionSnapshot cfg (failed_dequeue latestSnapshot workerId runnerId))
                      (andDo (systemFailure cfg i (invalid_state s)) (ret None))
          else if sn_executionStatus s = QUEUED_EXECUTING
          then andThen (createExecutionSnapshot cfg
                   ((follow_up s EXECUTING ''Run was continued, whilst still executing.'')
                      \<lparr>si_runId := i, si_batchId := sn_batchId s,
                       si_completedWaitpoints := pass_on (snd latestSnapshot)\<rparr>)) (\<lambda>s'.
                 andDo (sendNotificationToWorker i s') (ret None))
          else andThen (findRun i) (\<lambda>found.
                 dequeue_for_worker cfg workerId runnerId orgId i latestSnapshot
                   (getRunWithBackgroundWorkerTasks cfg found backgroundWorkerId)))"

definition dequeue_nack :: "run \<Rightarrow> environment \<Rightarrow> string \<Rightarrow> nack_args" where
  "dequeue_nack t env orgId =
     \<lparr>na_environmentId = env_id env, na_environmentType = env_type env, na_orgId = orgId,
      na_projectId = tr_projectId t, na_timestamp = None, na_error = max_retries_error, na_workerId = None,
      na_runnerId = None, na_checkpointId = None, na_completedWaitpoints = [], na_batchId = None\<rparr>"

text \<open>An error while the run is prepared: it is tried again later.\<close>

definition dequeue_failed :: "engine_options \<Rightarrow> string \<Rightarrow> string \<Rightarrow> dequeued option engine" where
  "dequeue_failed cfg orgId i =
     andThen (findRun i) (\<lambda>found.
       let env = (case found of None \<Rightarrow> None | Some t \<Rightarrow> eo_resolveEnv cfg (tr_runtimeEnvironmentId t))
       in case (found, env) of
            (Some t, Some env) \<Rightarrow> andDo (tryNackAndRequeue cfg i (dequeue_nack t env orgId)) (ret None)
          | _ \<Rightarrow> andThen the_time (\<lambda>now.
              andDo (on_queue (nackMessage (eo_queue cfg) (eo_random cfg) now orgId i None True)) (ret None)))"

text \<open>\<open>try { m } catch { h }\<close>: what \<open>m\<close> wrote before it threw stays.\<close>

definition catching :: "'a engine \<Rightarrow> 'a engine \<Rightarrow> 'a engine" where
  "catching m h w = (case m w of (Inl e, w') \<Rightarrow> h w' | (Inr x, w') \<Rightarrow> (Inr x, w'))"

definition dequeueFromWorkerQueue ::
    "engine_options \<Rightarrow> string \<Rightarrow> string option \<Rightarrow> string option \<Rightarrow> string option \<Rightarrow> dequeued option engine" where
  "dequeueFromWorkerQueue cfg workerQueue backgroundWorkerId workerId runnerId =
     andThen (on_queue (dequeueMessageFromWorkerQueue workerQueue)) (\<lambda>message.
       case message of
         None \<Rightarrow> ret None
       | Some m \<Rightarrow>
           catching (dequeue_locked cfg backgroundWorkerId workerId runnerId (m_orgId m) (m_runId m))
             (dequeue_failed cfg (m_orgId m) (m_runId m)))"

end
