(* ===== verification/Debounce.thy ===== *)
theory Debounce
  imports Expiry
begin

text \<open>
  Debouncing of triggers (\<open>engine/systems/debounceSystem.ts\<close>): a key of a debounced run maps to the
  run in Redis, or to the claim of the server that is about to create it.

  A trigger goes through phases, each of which is one command to Redis or one section that holds
  the lock of a run; other servers and the clock may come between any two of them, which is
  why \<open>handleDebounce\<close> is given as the steps of a machine. The choice of a replica for the
  reads of the fast path is left out: there is one database.
\<close>

section \<open>The keys\<close>

text \<open>A key is gone when it expires.\<close>

definition live_key :: "string \<Rightarrow> world \<Rightarrow> string option" where
  "live_key k w =
     (case en_debounce w k of None \<Rightarrow> None | Some (v, t) \<Rightarrow> if en_now w < t then Some v else None)"

definition setKey :: "string \<Rightarrow> string \<Rightarrow> int \<Rightarrow> unit engine" where
  "setKey k v ttlMs = modify (\<lambda>w. w\<lparr>en_debounce := (en_debounce w)(k := Some (v, en_now w + ttlMs))\<rparr>)"

text \<open>\<open>SET k v PX ttl NX\<close>: whether the key was set.\<close>

definition setKeyNX :: "string \<Rightarrow> string \<Rightarrow> int \<Rightarrow> bool engine" where
  "setKeyNX k v ttlMs =
     andThen (reading (live_key k)) (\<lambda>found.
       case found of None \<Rightarrow> andDo (setKey k v ttlMs) (ret True) | Some _ \<Rightarrow> ret False)"

definition delKey :: "string \<Rightarrow> unit engine" where
  "delKey k = modify (\<lambda>w. w\<lparr>en_debounce := (en_debounce w)(k := None)\<rparr>)"

definition pexpireKey :: "string \<Rightarrow> int \<Rightarrow> unit engine" where
  "pexpireKey k ttlMs =
     andThen (reading (live_key k)) (\<lambda>found. case found of None \<Rightarrow> ret () | Some v \<Rightarrow> setKey k v ttlMs)"

text \<open>The two scripts. The first returns the run that has the key, where it was not deleted.\<close>

definition conditionallyDeletePendingKey :: "string \<Rightarrow> string option engine" where
  "conditionallyDeletePendingKey k =
     andThen (reading (live_key k)) (\<lambda>found.
       case found of
         None \<Rightarrow> ret None
       | Some v \<Rightarrow> if take 8 v = ''pending:'' then andDo (delKey k) (ret None) else ret (Some v))"

definition registerIfClaimOwned :: "string \<Rightarrow> string \<Rightarrow> string \<Rightarrow> int \<Rightarrow> bool engine" where
  "registerIfClaimOwned k expectedClaim runId ttlMs =
     andThen (reading (live_key k)) (\<lambda>found.
       if found = Some expectedClaim then andDo (setKey k runId ttlMs) (ret True) else ret False)"

definition getDebounceRedisKey :: "string \<Rightarrow> string \<Rightarrow> string \<Rightarrow> string" where
  "getDebounceRedisKey envId taskId debounceKey = envId @ '':'' @ taskId @ '':'' @ debounceKey"

section \<open>Options\<close>

datatype debounce_mode = leading | trailing

record debounce_data =
  dd_payload :: string
  dd_payloadType :: string
  dd_metadata :: "string option"
  dd_metadataType :: "string option"
  dd_tags :: "string list option"
  dd_maxAttempts :: "int option"
  dd_maxDurationInSeconds :: "int option"
  dd_machine :: "string option"

record debounce_options =
  db_key :: string
  db_delay :: string
  db_mode :: "debounce_mode option"
  db_maxDelay :: "string option"
  db_updateData :: "debounce_data option"

record debounce_settings =
  ds_maxDebounceDurationMs :: "int option"
  ds_quantizeNewDelayUntilMs :: "int option"
  ds_fastPathSkipEnabled :: "bool option"

datatype debounce_result =
    New "string option"
  | Existing run "waitpoint option"
  | MaxDurationExceeded

definition CLAIM_TTL_MS :: int where "CLAIM_TTL_MS = 30000"
definition MAX_CLAIM_RETRIES :: nat where "MAX_CLAIM_RETRIES = 10"

definition DEBOUNCEABLE_RUN_STATUSES :: "TaskRunStatus list" where
  "DEBOUNCEABLE_RUN_STATUSES = [TaskRunStatus.DELAYED, PENDING_VERSION]"

definition debounceable :: "run \<Rightarrow> bool" where
  "debounceable t = (tr_status t \<in> set DEBOUNCEABLE_RUN_STATUSES)"

text \<open>The time a trigger asks for, rounded down to a bucket.\<close>

definition computeQuantizedDelayUntil :: "debounce_settings \<Rightarrow> int \<Rightarrow> string \<Rightarrow> int option" where
  "computeQuantizedDelayUntil ds now delay =
     (let bucket = max 0 (or_default (ds_quantizeNewDelayUntilMs ds) 1000)
      in case parseNaturalLanguageDuration now delay of
           None \<Rightarrow> None
         | Some t \<Rightarrow> if bucket \<le> 0 then Some t else Some (t div bucket * bucket))"

definition resolveMaxDurationMs :: "debounce_settings \<Rightarrow> debounce_options \<Rightarrow> int option" where
  "resolveMaxDurationMs ds d =
     (case db_maxDelay d of
        None \<Rightarrow> ds_maxDebounceDurationMs ds
      | Some m \<Rightarrow>
          (case parseNaturalLanguageDurationInMs m of
             None \<Rightarrow> ds_maxDebounceDurationMs ds
           | Some ms \<Rightarrow> Some (int ms)))"

definition exceeds_window :: "debounce_settings \<Rightarrow> debounce_options \<Rightarrow> run \<Rightarrow> int \<Rightarrow> bool" where
  "exceeds_window ds d t newDelayUntil =
     (case resolveMaxDurationMs ds d of None \<Rightarrow> False | Some ms \<Rightarrow> newDelayUntil > tr_createdAt t + ms)"

section \<open>Meeting an existing run\<close>

text \<open>\<open>#tryFastPathSkip\<close>: the run, where what is scheduled already covers this trigger.\<close>

definition carries_update :: "debounce_options \<Rightarrow> bool" where
  "carries_update d = (db_mode d = Some trailing \<and> db_updateData d \<noteq> None)"

definition tryFastPathSkip ::
    "debounce_settings \<Rightarrow> debounce_options \<Rightarrow> string \<Rightarrow> int \<Rightarrow> debounce_result option engine" where
  "tryFastPathSkip ds d existingRunId newDelayUntil =
     (if carries_update d then ret None
      else
        andThen (findRun existingRunId) (\<lambda>probe.
          case probe of
            None \<Rightarrow> ret None
          | Some t \<Rightarrow>
              if \<not> debounceable t \<or> tr_delayUntil t = None then ret None
              else if newDelayUntil > or_default (tr_delayUntil t) 0 then ret None
              else if exceeds_window ds d t newDelayUntil then ret None
              else
                andThen (reading (associatedWaitpoint existingRunId)) (\<lambda>waitpoint.
                  ret (Some (Existing t waitpoint)))))"

text \<open>\<open>#handleLockContentionFallback\<close>.\<close>

definition handleLockContentionFallback :: "string \<Rightarrow> engine_error \<Rightarrow> debounce_result engine" where
  "handleLockContentionFallback existingRunId error =
     andThen (findRun existingRunId) (\<lambda>found.
       case found of
         None \<Rightarrow> throw error
       | Some t \<Rightarrow>
           if \<not> debounceable t then throw error
           else andThen (reading (associatedWaitpoint existingRunId)) (\<lambda>waitpoint. ret (Existing t waitpoint)))"

definition trailing_update :: "debounce_data \<Rightarrow> debounce_update" where
  "trailing_update u =
     \<lparr>du_payload = dd_payload u, du_payloadType = dd_payloadType u,
      du_metadata = map_option (\<lambda>m. (m, or_default (dd_metadataType u) ''application/json'')) (dd_metadata u),
      du_maxAttempts = dd_maxAttempts u, du_maxDurationInSeconds = dd_maxDurationInSeconds u,
      du_machinePreset = dd_machine u, du_runTags = dd_tags u\<rparr>"

definition updateRunForTrailingMode :: "string \<Rightarrow> debounce_data \<Rightarrow> run engine" where
  "updateRunForTrailingMode i u = rewriteDebouncedRun i (trailing_update u)"

definition key_ttl :: "int \<Rightarrow> int \<Rightarrow> int" where
  "key_ttl now delayUntil = max (delayUntil - now + 60000) 60000"

text \<open>
  \<open>#handleExistingRunLocked\<close>: what it decides under the lock of the run. \<open>Stale\<close> is a key to be
  deleted and claimed, \<open>Reclaim\<close> one to be claimed.
\<close>

datatype locked_outcome = Stale | Reclaim | Answer debounce_result

definition push_later :: "string \<Rightarrow> string \<Rightarrow> run \<Rightarrow> int \<Rightarrow> unit engine" where
  "push_later redisKey i t newDelayUntil =
     (if (case tr_delayUntil t of None \<Rightarrow> True | Some d \<Rightarrow> newDelayUntil > d)
      then andDo (rescheduleDelayedRun i newDelayUntil)
        (andThen the_time (\<lambda>now. pexpireKey redisKey (key_ttl now newDelayUntil)))
      else ret ())"

definition handleExistingRunLocked ::
    "debounce_settings \<Rightarrow> debounce_options \<Rightarrow> string \<Rightarrow> string \<Rightarrow> int option \<Rightarrow> locked_outcome engine" where
  "handleExistingRunLocked ds d redisKey i newDelayUntil =
     andThen (reading (latest i)) (\<lambda>snapshot.
     andThen (findRun i) (\<lambda>existingRun.
       case (snapshot, existingRun) of
         (Some s, Some t) \<Rightarrow>
           if sn_executionStatus s \<noteq> DELAYED \<and> sn_executionStatus s \<noteq> RUN_CREATED then ret Stale
           else
             (case newDelayUntil of
                None \<Rightarrow> ret Reclaim
              | Some u \<Rightarrow>
                  if exceeds_window ds d t u
                  then andDo (delKey redisKey) (ret (Answer MaxDurationExceeded))
                  else
                    andThen (reading (associatedWaitpoint i)) (\<lambda>waitpoint.
                    andDo (push_later redisKey i t u)
                      (case (db_mode d, db_updateData d) of
                         (Some trailing, Some x) \<Rightarrow>
                           andThen (updateRunForTrailingMode i x) (\<lambda>updated. ret (Answer (Existing updated waitpoint)))
                       | _ \<Rightarrow> ret (Answer (Existing t waitpoint)))))
       | _ \<Rightarrow> ret Stale))"

section \<open>The steps of a trigger\<close>

text \<open>
  \<open>Claiming\<close> and \<open>ReadingBack\<close> are the two commands of \<open>claimDebounceKey\<close>; \<open>Waiting n\<close> is the
  loop of \<open>waitForExistingRun\<close> after \<open>n\<close> polls, \<open>GivingUp\<close> its conditional deletion;
  \<open>Meeting\<close>, \<open>Locking\<close> and \<open>Inside\<close> are \<open>handleExistingRun\<close> before, at and under the lock.
\<close>

datatype phase =
    Claiming
  | ReadingBack
  | Waiting nat
  | GivingUp
  | Meeting string
  | Locking string "int option"
  | Inside string "int option"
  | Dropping
  | Decided debounce_result

record debounce_call =
  dc_environmentId :: string
  dc_taskIdentifier :: string
  dc_debounce :: debounce_options

definition call_key :: "debounce_call \<Rightarrow> string" where
  "call_key c = getDebounceRedisKey (dc_environmentId c) (dc_taskIdentifier c) (db_key (dc_debounce c))"

definition claim_value :: "string \<Rightarrow> string" where
  "claim_value claimId = ''pending:'' @ claimId"

definition is_pending :: "string \<Rightarrow> bool" where
  "is_pending v = js_startsWith v ''pending:''"

text \<open>\<open>claimDebounceKey\<close>: the claim, with an id of its own.\<close>

definition claimDebounceKey :: "string \<Rightarrow> string option engine" where
  "claimDebounceKey redisKey =
     andThen (fresh_id []) (\<lambda>claimId.
     andThen (setKeyNX redisKey (claim_value claimId) CLAIM_TTL_MS) (\<lambda>claimed.
       ret (if claimed then Some claimId else None)))"

definition handleExistingRun :: "debounce_settings \<Rightarrow> debounce_options \<Rightarrow> string \<Rightarrow> phase engine" where
  "handleExistingRun ds d existingRunId =
     andThen the_time (\<lambda>now.
       let newDelayUntil = computeQuantizedDelayUntil ds now (db_delay d)
       in case newDelayUntil of
            None \<Rightarrow> ret (Locking existingRunId None)
          | Some u \<Rightarrow>
              if \<not> or_default (ds_fastPathSkipEnabled ds) True then ret (Locking existingRunId (Some u))
              else
                andThen (tryFastPathSkip ds d existingRunId u) (\<lambda>skip.
                  ret (case skip of None \<Rightarrow> Locking existingRunId (Some u) | Some r \<Rightarrow> Decided r)))"

text \<open>\<open>waitForExistingRun\<close> after the sleep: a poll of the key, or the end of the loop.\<close>

definition poll_key :: "string \<Rightarrow> nat \<Rightarrow> phase engine" where
  "poll_key redisKey n =
     andThen (reading (live_key redisKey)) (\<lambda>found.
       ret (case truthy found of
              None \<Rightarrow> Claiming
            | Some v \<Rightarrow>
                if \<not> is_pending v then Meeting v
                else if n + 1 < MAX_CLAIM_RETRIES then Waiting (n + 1) else GivingUp))"

text \<open>One step of \<open>handleDebounce\<close>. A trigger that waits for a lock or is answered has none.\<close>

fun debounce_step :: "debounce_settings \<Rightarrow> debounce_call \<Rightarrow> phase \<Rightarrow> phase engine" where
  "debounce_step ds c Claiming =
     andThen (claimDebounceKey (call_key c)) (\<lambda>claim.
       ret (case claim of None \<Rightarrow> ReadingBack | Some claimId \<Rightarrow> Decided (New (Some claimId))))"
| "debounce_step ds c ReadingBack =
     andThen (reading (live_key (call_key c))) (\<lambda>found.
       ret (case truthy found of
              None \<Rightarrow> Waiting 0
            | Some v \<Rightarrow> if is_pending v then Waiting 0 else Meeting v))"
| "debounce_step ds c (Waiting n) = poll_key (call_key c) n"
| "debounce_step ds c GivingUp =
     andThen (conditionallyDeletePendingKey (call_key c)) (\<lambda>existing.
       ret (case existing of None \<Rightarrow> Claiming | Some v \<Rightarrow> Meeting v))"
| "debounce_step ds c (Meeting i) = handleExistingRun ds (dc_debounce c) i"
| "debounce_step ds c (Inside i u) =
     andThen (handleExistingRunLocked ds (dc_debounce c) (call_key c) i u) (\<lambda>outcome.
       ret (case outcome of Stale \<Rightarrow> Dropping | Reclaim \<Rightarrow> Claiming | Answer r \<Rightarrow> Decided r))"
| "debounce_step ds c Dropping = andDo (delKey (call_key c)) (ret Claiming)"
| "debounce_step ds c (Locking i u) = ret (Locking i u)"
| "debounce_step ds c (Decided r) = ret (Decided r)"

section \<open>Registering\<close>

definition registerDebouncedRun :: "string \<Rightarrow> string \<Rightarrow> int \<Rightarrow> string option \<Rightarrow> bool engine" where
  "registerDebouncedRun redisKey runId delayUntil claimId =
     andThen the_time (\<lambda>now.
       let ttlMs = key_ttl now delayUntil
       in case truthy claimId of
            Some c \<Rightarrow> registerIfClaimOwned redisKey (claim_value c) runId ttlMs
          | None \<Rightarrow> andDo (setKey redisKey runId ttlMs) (ret True))"

definition clearDebounceKey :: "string \<Rightarrow> unit engine" where
  "clearDebounceKey redisKey = delKey redisKey"

end
