(* ===== verification/PendingVersions.thy ===== *)
theory PendingVersions
  imports Expiry
begin

text \<open>
  Runs that wait for a version of their task (\<open>engine/systems/pendingVersionSystem.ts\<close>): a deployed
  worker releases the runs that waited for it, and a run parked on an external deployment that
  never comes is expired.

  What the control plane and the analytics store answer are parameters: the background worker of
  an id, the deployments of an external id, and the candidates among the waiting runs, which
  may be stale or incomplete.
\<close>

section \<open>Deployment versions\<close>

text \<open>
  \<open>Number\<close> of a text that is a decimal integer, with spaces around it; an empty text is 0 and
  any other is not a number. Exponents and other bases do not occur in versions.
\<close>

definition strip_spaces :: "string \<Rightarrow> string" where
  "strip_spaces s =
     rev (dropWhile (\<lambda>c. c = CHR '' '') (rev (dropWhile (\<lambda>c. c = CHR '' '') s)))"

definition js_number :: "string option \<Rightarrow> int option" where
  "js_number x =
     (case x of
        None \<Rightarrow> None
      | Some s \<Rightarrow>
          (case strip_spaces s of
             [] \<Rightarrow> Some 0
           | c # ds \<Rightarrow>
               if c \<in> {CHR ''-'', CHR ''+''} \<and> ds \<noteq> [] \<and> list_all is_digit ds
               then Some ((if c = CHR ''-'' then -1 else 1) * int (string_to_nat ds))
               else if list_all is_digit (c # ds) then Some (int (string_to_nat (c # ds)))
               else None))"

text \<open>The version as its date and the text of its number.\<close>

definition version_parts :: "string \<Rightarrow> string \<times> string option" where
  "version_parts v =
     (case js_split (CHR ''.'') v of
        [] \<Rightarrow> ([], None) | d # ns \<Rightarrow> (d, case ns of [] \<Rightarrow> None | n # _ \<Rightarrow> Some n))"

definition compareDeploymentVersions :: "string \<Rightarrow> string \<Rightarrow> int" where
  "compareDeploymentVersions versionA versionB =
     (let (dateA, numberA) = version_parts versionA; (dateB, numberB) = version_parts versionB
      in if dateA < dateB then -1
         else if dateB < dateA then 1
         else case (js_number numberA, js_number numberB) of
                (Some a, Some b) \<Rightarrow> if a < b then -1 else if a > b then 1 else 0
              | _ \<Rightarrow> 0)"

section \<open>Parameters\<close>

record external_worker =
  xw_id :: string
  xw_version :: string

record background_worker =
  bw_id :: string
  bw_version :: string
  bw_environment :: environment
  bw_tasks :: "string list"
  bw_queues :: "string list"
  bw_externalDeploymentId :: "string option"

record pending_lookup =
  pl_organizationId :: string
  pl_projectId :: string
  pl_environmentId :: string
  pl_taskIdentifiers :: "string list"
  pl_queues :: "string list"
  pl_externalDeploymentId :: "string option"
  pl_limit :: nat

record pending_settings =
  pv_batchSize :: "nat option"
  pv_lagRetryDelayMs :: "int option"
  pv_lagMaxRetries :: "nat option"
  pv_parkDeadlineMs :: "int option"
  pv_lookup :: "pending_lookup \<Rightarrow> string list"
  pv_backgroundWorker :: "string \<Rightarrow> background_worker option"
  pv_deployments :: "string \<Rightarrow> string \<Rightarrow> (string \<times> external_worker option) list"

definition PARKED_ON_EXTERNAL_DEPLOYMENT_STATUS_REASON :: string where
  "PARKED_ON_EXTERNAL_DEPLOYMENT_STATUS_REASON = ''EXTERNAL_DEPLOYMENT_PENDING''"

definition EXPIRED_ON_EXTERNAL_DEPLOYMENT_STATUS_REASON :: string where
  "EXPIRED_ON_EXTERNAL_DEPLOYMENT_STATUS_REASON = ''EXTERNAL_DEPLOYMENT_NOT_FOUND''"

definition readExternalDeploymentIdAnnotation :: "run \<Rightarrow> string option" where
  "readExternalDeploymentIdAnnotation t = truthy (tr_externalDeploymentId t)"

section \<open>The deployed worker of an external id\<close>

text \<open>The candidate replaces the highest so far where its version is higher.\<close>

definition higher_version ::
    "(string \<times> external_worker) option \<Rightarrow> string \<times> external_worker option \<Rightarrow> (string \<times> external_worker) option" where
  "higher_version highest candidate =
     (case snd candidate of
        None \<Rightarrow> highest
      | Some worker \<Rightarrow>
          (case highest of
             None \<Rightarrow> Some (fst candidate, worker)
           | Some h \<Rightarrow>
               if compareDeploymentVersions (fst candidate) (fst h) \<le> 0 then highest
               else Some (fst candidate, worker)))"

definition findDeployedWorkerForExternalId :: "pending_settings \<Rightarrow> string \<Rightarrow> string \<Rightarrow> external_worker option" where
  "findDeployedWorkerForExternalId pv environmentId externalDeploymentId =
     map_option snd (foldl higher_version None (pv_deployments pv environmentId externalDeploymentId))"

section \<open>Scheduling\<close>

definition scheduleResolvePendingVersionRuns :: "string \<Rightarrow> nat option \<Rightarrow> int option \<Rightarrow> unit engine" where
  "scheduleResolvePendingVersionRuns workerId attempt availableAt =
     andThen the_time (\<lambda>now.
       enqueueNewJob (queueRunsPendingVersionJob workerId attempt) (or_default availableAt now))"

definition maybeScheduleLagRetry :: "pending_settings \<Rightarrow> string \<Rightarrow> nat \<Rightarrow> unit engine" where
  "maybeScheduleLagRetry pv workerId attempt =
     (if attempt \<ge> or_default (pv_lagMaxRetries pv) 1 then ret ()
      else
        andThen the_time (\<lambda>now.
          scheduleResolvePendingVersionRuns workerId (Some (attempt + 1))
            (Some (now + or_default (pv_lagRetryDelayMs pv) 5000))))"

definition maybeScheduleExternalDeploymentLagRetry ::
    "pending_settings \<Rightarrow> string \<Rightarrow> nat \<Rightarrow> string option \<Rightarrow> unit engine" where
  "maybeScheduleExternalDeploymentLagRetry pv workerId attempt externalDeploymentId =
     (if truthy externalDeploymentId = None then ret () else maybeScheduleLagRetry pv workerId attempt)"

definition park_job :: "string \<Rightarrow> string" where
  "park_job i = ''expireParkedExternalDeploymentRun:'' @ i"

text \<open>The deadline counts from the time the run is due; an earlier end of its time to live comes first.\<close>

definition park_deadline :: "pending_settings \<Rightarrow> int \<Rightarrow> string option \<Rightarrow> int option \<Rightarrow> int" where
  "park_deadline pv now ttl delayUntil =
     (let anchor = (case delayUntil of None \<Rightarrow> now | Some d \<Rightarrow> if d > now then d else now);
          defaultDeadline = anchor + or_default (pv_parkDeadlineMs pv) (60 * 60 * 1000);
          ttlDeadline = (case truthy ttl of None \<Rightarrow> None | Some d \<Rightarrow> parseNaturalLanguageDuration now d)
      in case ttlDeadline of
           None \<Rightarrow> defaultDeadline | Some t \<Rightarrow> if t < defaultDeadline then t else defaultDeadline)"

definition scheduleExternalDeploymentParkDeadline ::
    "pending_settings \<Rightarrow> string \<Rightarrow> string \<Rightarrow> string option \<Rightarrow> int option \<Rightarrow> unit engine" where
  "scheduleExternalDeploymentParkDeadline pv i externalDeploymentId ttl delayUntil =
     andThen the_time (\<lambda>now.
       enqueueJob (park_job i) (expireParkedExternalDeploymentRunJob i externalDeploymentId)
         (park_deadline pv now ttl delayUntil))"

section \<open>Releasing a run\<close>

definition still_delayed :: "int \<Rightarrow> run \<Rightarrow> bool" where
  "still_delayed now t = (case tr_delayUntil t of None \<Rightarrow> False | Some d \<Rightarrow> d > now)"

definition delayed_input :: "run \<Rightarrow> environment \<Rightarrow> snapshot_input" where
  "delayed_input t env =
     \<lparr>si_runId = tr_id t, si_runStatus = TaskRunStatus.DELAYED, si_attemptNumber = None,
      si_executionStatus = DELAYED, si_description = ''Run is delayed'', si_metadata = None,
      si_previousSnapshotId = None, si_batchId = tr_batchId t, si_environmentId = env_id env,
      si_environmentType = env_type env, si_projectId = env_projectId env,
      si_organizationId = env_organizationId env, si_checkpointId = None, si_workerId = None,
      si_runnerId = None, si_completedWaitpoints = [], si_error = None\<rparr>"

text \<open>
  The transaction that takes a run out of \<open>PENDING_VERSION\<close>: back to waiting for its delay or into
  its queue. It does nothing when the run no longer waits. \<open>pin\<close> is the worker to lock it to.
\<close>

definition promote_run :: "engine_options \<Rightarrow> environment \<Rightarrow> run \<Rightarrow> bool \<Rightarrow> string option \<Rightarrow> bool engine" where
  "promote_run cfg env t stillDelayed pin =
     runInTransaction
       (andThen (promotePendingVersionRuns (tr_id t)
           (if stillDelayed then TaskRunStatus.DELAYED else PENDING) pin) (\<lambda>count.
          if count = 0 then ret False
          else if stillDelayed then andDo (createExecutionSnapshot cfg (delayed_input t env)) (ret True)
          else
            andThen (findRun (tr_id t)) (\<lambda>found.
            andThen (required found RecordNotFound) (\<lambda>updated.
            andDo (enqueueRun cfg updated env (no_args\<lparr>ea_includeTtl := True\<rparr>)) (ret True)))))"

text \<open>\<open>#promoteParkedRun\<close>, which is also the body of the loop over the waiting runs.\<close>

definition promoteParkedRun :: "engine_options \<Rightarrow> environment \<Rightarrow> run \<Rightarrow> string option \<Rightarrow> bool engine" where
  "promoteParkedRun cfg env t pin =
     andThen the_time (\<lambda>now.
       let stillDelayed = still_delayed now t
       in andThen (promote_run cfg env t stillDelayed pin) (\<lambda>promoted.
            if \<not> promoted then ret False
            else
              andDo (case tr_delayUntil t of
                  None \<Rightarrow> ret ()
                | Some d \<Rightarrow> whenever stillDelayed (enqueueJob (delayed_job (tr_id t)) (enqueueDelayedRunJob (tr_id t)) d))
              (andDo (emit (runStatusChanged (tr_id t) (if stillDelayed then TaskRunStatus.DELAYED else PENDING)))
                (ret True))))"

text \<open>The deployment a run insists on: another one must not release it.\<close>

definition insists_on :: "run \<Rightarrow> string option" where
  "insists_on t =
     (if tr_statusReason t = Some PARKED_ON_EXTERNAL_DEPLOYMENT_STATUS_REASON
      then readExternalDeploymentIdAnnotation t else None)"

definition skips_run :: "string option \<Rightarrow> run \<Rightarrow> bool" where
  "skips_run externalDeploymentId t = (insists_on t \<noteq> None \<and> insists_on t \<noteq> externalDeploymentId)"

text \<open>The loop: how many runs it promoted.\<close>

fun promote_all ::
    "engine_options \<Rightarrow> environment \<Rightarrow> string option \<Rightarrow> string option \<Rightarrow> run list \<Rightarrow> nat \<Rightarrow> nat engine" where
  "promote_all cfg env externalDeploymentId pinned [] n = ret n"
| "promote_all cfg env externalDeploymentId pinned (t # ts) n =
     (if skips_run externalDeploymentId t
      then promote_all cfg env externalDeploymentId pinned ts n
      else andThen (promoteParkedRun cfg env t (if insists_on t \<noteq> None then pinned else None)) (\<lambda>promoted.
        promote_all cfg env externalDeploymentId pinned ts (if promoted then n + 1 else n)))"

definition pending_query :: "background_worker \<Rightarrow> nat \<Rightarrow> pending_lookup" where
  "pending_query b n =
     \<lparr>pl_organizationId = env_organizationId (bw_environment b), pl_projectId = env_projectId (bw_environment b),
      pl_environmentId = env_id (bw_environment b), pl_taskIdentifiers = bw_tasks b, pl_queues = bw_queues b,
      pl_externalDeploymentId = bw_externalDeploymentId b, pl_limit = n\<rparr>"

text \<open>The worker the runs that insist on the deployment are locked to.\<close>

definition deployment_pin :: "pending_settings \<Rightarrow> background_worker \<Rightarrow> string option" where
  "deployment_pin pv b =
     (case truthy (bw_externalDeploymentId b) of
        None \<Rightarrow> None
      | Some x \<Rightarrow>
          (case findDeployedWorkerForExternalId pv (env_id (bw_environment b)) x of
             None \<Rightarrow> Some (bw_id b) | Some worker \<Rightarrow> Some (xw_id worker)))"

definition waiting_runs :: "string list \<Rightarrow> world \<Rightarrow> run list" where
  "waiting_runs candidateIds w =
     sort_key tr_createdAt (filter (\<lambda>t. tr_id t \<in> set candidateIds \<and> tr_status t = PENDING_VERSION) (en_runs w))"

definition enqueueRunsForBackgroundWorker ::
    "engine_options \<Rightarrow> pending_settings \<Rightarrow> string \<Rightarrow> nat \<Rightarrow> unit engine" where
  "enqueueRunsForBackgroundWorker cfg pv workerId attempt =
     (let maxCount = or_default (pv_batchSize pv) 200
      in case pv_backgroundWorker pv workerId of
           None \<Rightarrow> ret ()
         | Some b \<Rightarrow>
             let externalDeploymentId = bw_externalDeploymentId b;
                 candidateIds = pv_lookup pv (pending_query b (maxCount + 1))
             in if candidateIds = [] then maybeScheduleLagRetry pv workerId attempt
                else
                  andThen (reading (waiting_runs candidateIds)) (\<lambda>pendingRuns.
                    if pendingRuns = []
                    then maybeScheduleExternalDeploymentLagRetry pv workerId attempt externalDeploymentId
                    else
                      andThen (promote_all cfg (bw_environment b) externalDeploymentId (deployment_pin pv b) pendingRuns 0)
                        (\<lambda>promotedCount.
                          if length candidateIds > maxCount \<and>
                             (promotedCount > 0 \<or> filter (skips_run externalDeploymentId) pendingRuns = [])
                          then scheduleResolvePendingVersionRuns workerId None None
                          else maybeScheduleExternalDeploymentLagRetry pv workerId attempt externalDeploymentId)))"

section \<open>Expiring a parked run\<close>

definition parked_message :: "string \<Rightarrow> string" where
  "parked_message externalDeploymentId =
     ''because no deployment with external id '' @ [CHR 0x27] @ externalDeploymentId @ [CHR 0x27] @ '' became available''"

definition parked_error :: "string \<Rightarrow> task_run_error" where
  "parked_error externalDeploymentId = STRING_ERROR (''Run expired '' @ parked_message externalDeploymentId)"

definition parked_snapshot :: "run \<Rightarrow> environment \<Rightarrow> string \<Rightarrow> string \<Rightarrow> snapshot_input" where
  "parked_snapshot t env orgId externalDeploymentId =
     (delayed_input t env)\<lparr>si_runStatus := EXPIRED, si_executionStatus := FINISHED,
        si_description := ''Run was expired '' @ parked_message externalDeploymentId, si_batchId := None,
        si_environmentId := tr_runtimeEnvironmentId t, si_projectId := tr_projectId t, si_organizationId := orgId\<rparr>"

definition park_finish_job :: "string \<Rightarrow> string" where
  "park_finish_job waitpointId = ''finishWaitpoint.externalDeploymentPark.'' @ waitpointId"

definition expire_parked :: "run \<Rightarrow> environment \<Rightarrow> string \<Rightarrow> string \<Rightarrow> unit engine" where
  "expire_parked t env orgId externalDeploymentId =
     andThen the_time (\<lambda>now.
     andThen (reading (associatedWaitpoint (tr_id t))) (\<lambda>waitpoint.
     andThen (expireParkedRun (tr_id t) (parked_error externalDeploymentId) now
         EXPIRED_ON_EXTERNAL_DEPLOYMENT_STATUS_REASON (parked_snapshot t env orgId externalDeploymentId)) (\<lambda>count.
       if count = 0 then ret ()
       else
         andDo (case waitpoint of
             None \<Rightarrow> ret ()
           | Some x \<Rightarrow> enqueueJob (park_finish_job (wp_id x))
               (finishWaitpoint (wp_id x) (Some (stringify_error (parked_error externalDeploymentId)))) now)
         (emit (runExpired (tr_id t))))))"

text \<open>
  A deployment that landed after all releases the run; the answer is whether the handler is
  finished with the run.
\<close>

definition release_parked ::
    "engine_options \<Rightarrow> pending_settings \<Rightarrow> run \<Rightarrow> environment \<Rightarrow> string \<Rightarrow> bool engine" where
  "release_parked cfg pv t env externalDeploymentId =
     (case findDeployedWorkerForExternalId pv (tr_runtimeEnvironmentId t) externalDeploymentId of
        None \<Rightarrow> ret False
      | Some worker \<Rightarrow>
          andThen (promoteParkedRun cfg env t (Some (xw_id worker))) (\<lambda>released.
            if released then ret True
            else andThen (findRun (tr_id t)) (\<lambda>found.
              ret (case found of None \<Rightarrow> True | Some u \<Rightarrow> tr_status u \<noteq> PENDING_VERSION))))"

definition expireParkedExternalDeploymentRun ::
    "engine_options \<Rightarrow> pending_settings \<Rightarrow> string \<Rightarrow> string \<Rightarrow> unit engine" where
  "expireParkedExternalDeploymentRun cfg pv i externalDeploymentId =
     andThen (findRun i) (\<lambda>found.
       case found of
         None \<Rightarrow> ret ()
       | Some t \<Rightarrow>
           (case truthy (tr_organizationId t) of
              None \<Rightarrow> ret ()
            | Some orgId \<Rightarrow>
                if tr_status t \<noteq> PENDING_VERSION then ret ()
                else if readExternalDeploymentIdAnnotation t \<noteq> Some externalDeploymentId then ret ()
                else
                  (case eo_resolveEnv cfg (tr_runtimeEnvironmentId t) of
                     None \<Rightarrow> ret ()
                   | Some env \<Rightarrow>
                       andThen (release_parked cfg pv t env externalDeploymentId) (\<lambda>finished.
                         if finished then ret ()
                         else
                           andThen the_time (\<lambda>now.
                             if still_delayed now t
                             then scheduleExternalDeploymentParkDeadline pv i externalDeploymentId (tr_ttl t) (tr_delayUntil t)
                             else expire_parked t env orgId externalDeploymentId)))))"

end
