(* ===== verification/Trigger.thy ===== *)
theory Trigger
  imports Debounce PendingVersions
begin

text \<open>
  Creating runs (\<open>engine/index.ts\<close>): \<open>trigger\<close> with its debounced, parked, delayed and queued
  ends, runs that are cancelled before they exist, and runs that fail before they are triggered.

  \<open>trigger\<close> is given the answer of \<open>handleDebounce\<close>, whose steps are those of theory Debounce, and
  the id that \<open>RunId.fromFriendlyId\<close> reads from the friendly id (theory FriendlyId).
\<close>

section \<open>Parameters of a trigger\<close>

record trigger_params =
  tg_id :: string
  tg_environment :: environment
  tg_taskIdentifier :: string
  tg_data :: run_data
  tg_lockedToVersionId :: "string option"
  tg_lockedQueueId :: "string option"
  tg_queue :: string
  tg_concurrencyKey :: "string option"
  tg_workerQueue :: "string option"
  tg_enableFastPath :: bool
  tg_delayUntil :: "int option"
  tg_queuedAt :: "int option"
  tg_queueTimestamp :: "int option"
  tg_priorityMs :: "int option"
  tg_maxAttempts :: "int option"
  tg_machine :: "string option"
  tg_ttl :: "string option"
  tg_parentTaskRunId :: "string option"
  tg_resumeParentOnCompletion :: bool
  tg_batch :: "(string \<times> int option) option"
  tg_workerId :: "string option"
  tg_runnerId :: "string option"
  tg_createdAt :: "int option"
  tg_bulkActionId :: "string option"
  tg_externalDeploymentId :: "string option"
  tg_parkedOnExternalDeploymentId :: "string option"
  tg_debounce :: "debounce_options option"
  tg_spanIdToComplete :: "string option"

text \<open>\<open>#resolveMaxTtl\<close>: the default time to live, and the least of the two.\<close>

definition resolveMaxTtl :: "engine_options \<Rightarrow> string option \<Rightarrow> string option" where
  "resolveMaxTtl cfg ttl =
     (case truthy (eo_defaultMaxTtl cfg) of
        None \<Rightarrow> ttl
      | Some maxTtl \<Rightarrow>
          (case truthy ttl of
             None \<Rightarrow> Some maxTtl
           | Some d \<Rightarrow>
               (case (parseNaturalLanguageDurationInMs maxTtl, parseNaturalLanguageDurationInMs d) of
                  (None, _) \<Rightarrow> Some d
                | (Some _, None) \<Rightarrow> Some maxTtl
                | (Some maxTtlMs, Some ttlMs) \<Rightarrow> Some (if ttlMs \<le> maxTtlMs then d else maxTtl))))"

definition initial_status :: "trigger_params \<Rightarrow> TaskRunStatus" where
  "initial_status tg =
     (if truthy (tg_parkedOnExternalDeploymentId tg) \<noteq> None then PENDING_VERSION
      else if tg_delayUntil tg \<noteq> None then TaskRunStatus.DELAYED else PENDING)"

text \<open>The row of a new run: what the schema sets and what the caller gave.\<close>

definition new_row :: "trigger_params \<Rightarrow> int \<Rightarrow> TaskRunStatus \<Rightarrow> run" where
  "new_row tg now status =
     \<lparr>tr_id = tg_id tg, tr_status = status, tr_statusReason = None, tr_taskIdentifier = tg_taskIdentifier tg,
      tr_attemptNumber = None, tr_lockedAt = None, tr_lockedById = None,
      tr_lockedToVersionId = tg_lockedToVersionId tg, tr_lockedQueueId = tg_lockedQueueId tg, tr_ttl = None,
      tr_batchId = map_option fst (tg_batch tg), tr_runtimeEnvironmentId = env_id (tg_environment tg),
      tr_projectId = env_projectId (tg_environment tg),
      tr_organizationId = Some (env_organizationId (tg_environment tg)),
      tr_parentTaskRunId = tg_parentTaskRunId tg, tr_queue = tg_queue tg, tr_concurrencyKey = tg_concurrencyKey tg,
      tr_workerQueue = or_default (tg_workerQueue tg) ''main'', tr_queueTimestamp = None,
      tr_createdAt = or_default (tg_createdAt tg) now, tr_queuedAt = None, tr_priorityMs = 0, tr_delayUntil = None,
      tr_maxAttempts = None, tr_lockedRetryConfig = no_config, tr_machinePreset = tg_machine tg,
      tr_usageDurationMs = 0, tr_costInCents = Some 0, tr_output = None, tr_outputType = ''application/json'',
      tr_error = None, tr_startedAt = None, tr_executedAt = None, tr_completedAt = None, tr_expiredAt = None,
      tr_isWarmStart = False,
      tr_bulkActionGroupIds = (case truthy (tg_bulkActionId tg) of None \<Rightarrow> [] | Some b \<Rightarrow> [b]),
      tr_externalDeploymentId = tg_externalDeploymentId tg, tr_data = tg_data tg\<rparr>"

definition triggered_row :: "engine_options \<Rightarrow> trigger_params \<Rightarrow> int \<Rightarrow> run" where
  "triggered_row cfg tg now =
     (new_row tg now (initial_status tg))
       \<lparr>tr_statusReason := (if truthy (tg_parkedOnExternalDeploymentId tg) \<noteq> None
            then Some PARKED_ON_EXTERNAL_DEPLOYMENT_STATUS_REASON else None),
        tr_ttl := resolveMaxTtl cfg (tg_ttl tg),
        tr_queueTimestamp := Some (case tg_queueTimestamp tg of Some t \<Rightarrow> t | None \<Rightarrow> or_default (tg_delayUntil tg) now),
        tr_queuedAt := tg_queuedAt tg, tr_priorityMs := or_default (tg_priorityMs tg) 0,
        tr_delayUntil := tg_delayUntil tg, tr_maxAttempts := tg_maxAttempts tg\<rparr>"

definition initial_execution_status :: "trigger_params \<Rightarrow> TaskRunExecutionStatus" where
  "initial_execution_status tg =
     (if truthy (tg_parkedOnExternalDeploymentId tg) \<noteq> None then RUN_CREATED
      else if tg_delayUntil tg \<noteq> None then DELAYED else QUEUED)"

definition initial_description :: "trigger_params \<Rightarrow> string" where
  "initial_description tg =
     (case truthy (tg_parkedOnExternalDeploymentId tg) of
        Some x \<Rightarrow> ''Run is waiting for a deployment of '' @ [CHR 0x27] @ x @ [CHR 0x27]
      | None \<Rightarrow> if tg_delayUntil tg \<noteq> None then ''Run is delayed'' else QUEUED_SNAPSHOT_DESCRIPTION)"

definition first_snapshot ::
    "trigger_params \<Rightarrow> TaskRunExecutionStatus \<Rightarrow> string \<Rightarrow> TaskRunStatus \<Rightarrow> snapshot_input" where
  "first_snapshot tg executionStatus description runStatus =
     \<lparr>si_runId = tg_id tg, si_runStatus = runStatus, si_attemptNumber = None, si_executionStatus = executionStatus,
      si_description = description, si_metadata = None, si_previousSnapshotId = None, si_batchId = None,
      si_environmentId = env_id (tg_environment tg), si_environmentType = env_type (tg_environment tg),
      si_projectId = env_projectId (tg_environment tg), si_organizationId = env_organizationId (tg_environment tg),
      si_checkpointId = None, si_workerId = tg_workerId tg, si_runnerId = tg_runnerId tg,
      si_completedWaitpoints = [], si_error = None\<rparr>"

section \<open>The parent\<close>

text \<open>The parent that waits for the run, where one does.\<close>

definition waiting_parent :: "trigger_params \<Rightarrow> string option" where
  "waiting_parent tg = (if tg_resumeParentOnCompletion tg then truthy (tg_parentTaskRunId tg) else None)"

definition parent_block :: "trigger_params \<Rightarrow> string \<Rightarrow> string option \<Rightarrow> block_args" where
  "parent_block tg projectId spanId =
     \<lparr>ba_projectId = projectId, ba_organizationId = env_organizationId (tg_environment tg), ba_timeout = None,
      ba_spanIdToComplete = spanId, ba_batch = tg_batch tg, ba_workerId = tg_workerId tg, ba_runnerId = tg_runnerId tg\<rparr>"

text \<open>A trigger that is answered with an existing run: the parent waits for that one.\<close>

definition trigger_debounced :: "engine_options \<Rightarrow> trigger_params \<Rightarrow> run \<Rightarrow> waitpoint option \<Rightarrow> run engine" where
  "trigger_debounced cfg tg t waitpoint =
     (case waiting_parent tg of
        None \<Rightarrow> ret t
      | Some parent \<Rightarrow>
          andThen (case waitpoint of
              Some x \<Rightarrow> ret x
            | None \<Rightarrow> getOrCreateRunWaitpoint (tr_id t) (env_projectId (tg_environment tg)) (env_id (tg_environment tg))) (\<lambda>x.
          andThen (blockRunWithWaitpoint cfg parent [wp_id x]
              (parent_block tg (env_projectId (tg_environment tg)) (tg_spanIdToComplete tg))) (\<lambda>_.
            ret t)))"

text \<open>Items of a batch are added without a lock: the parent is blocked by the batch already.\<close>

definition block_parent :: "engine_options \<Rightarrow> trigger_params \<Rightarrow> waitpoint option \<Rightarrow> unit engine" where
  "block_parent cfg tg associated =
     (case (waiting_parent tg, associated) of
        (Some parent, Some x) \<Rightarrow>
          if tg_batch tg \<noteq> None
          then blockRunWithWaitpointLockless parent [wp_id x] (parent_block tg (wp_projectId x) None)
          else andThen (blockRunWithWaitpoint cfg parent [wp_id x] (parent_block tg (wp_projectId x) None)) (\<lambda>_. ret ())
      | _ \<Rightarrow> ret ())"

section \<open>Creating the row\<close>

definition duplicate_error :: "trigger_params \<Rightarrow> string list \<Rightarrow> engine_error" where
  "duplicate_error tg target =
     (if ''oneTimeUseToken'' \<in> set target
      then RunOneTimeUseTokenError ''One-time use token has already been used''
      else RunDuplicateIdempotencyKeyError
        (''Run with idempotency key '' @ or_default (rd_idempotencyKey (tg_data tg)) ''undefined'' @ '' already exists''))"

definition explaining_duplicates :: "trigger_params \<Rightarrow> 'a engine \<Rightarrow> 'a engine" where
  "explaining_duplicates tg m w =
     (case m w of (Inl (UniqueConstraint target), w') \<Rightarrow> (Inl (duplicate_error tg target), w') | r \<Rightarrow> r)"

text \<open>The waitpoint a new run will complete; only a parent that waits makes one.\<close>

definition prepare_waitpoint :: "trigger_params \<Rightarrow> waitpoint option engine" where
  "prepare_waitpoint tg =
     (case waiting_parent tg of
        None \<Rightarrow> ret None
      | Some _ \<Rightarrow>
          andThen (buildRunAssociatedWaitpoint (env_projectId (tg_environment tg)) (env_id (tg_environment tg)))
            (\<lambda>x. ret (Some x)))"

definition create_triggered ::
    "engine_options \<Rightarrow> trigger_params \<Rightarrow> (run \<times> string \<times> waitpoint option) engine" where
  "create_triggered cfg tg =
     andThen (fresh_id ''snapshot_'') (\<lambda>initialSnapshotId.
     andThen the_time (\<lambda>now.
     andThen (prepare_waitpoint tg) (\<lambda>waitpoint.
     andThen (explaining_duplicates tg
         (createRun (triggered_row cfg tg now) initialSnapshotId
           (first_snapshot tg (initial_execution_status tg) (initial_description tg) (initial_status tg)) waitpoint)) (\<lambda>associated.
       ret (triggered_row cfg tg now, initialSnapshotId, associated)))))"

text \<open>\<open>#registerDebouncedRun\<close>; a claim that was lost is only logged.\<close>

definition register_debounced :: "trigger_params \<Rightarrow> run \<Rightarrow> string option \<Rightarrow> unit engine" where
  "register_debounced tg t claimId =
     (case (tg_debounce tg, tr_delayUntil t) of
        (Some d, Some delayUntil) \<Rightarrow>
          andThen (registerDebouncedRun
              (getDebounceRedisKey (env_id (tg_environment tg)) (tg_taskIdentifier tg) (db_key d))
              (tr_id t) delayUntil claimId) (\<lambda>_. ret ())
      | _ \<Rightarrow> ret ())"

section \<open>Trigger\<close>

text \<open>Where the new run goes: parked until its deployment, delayed, or into its queue.\<close>

definition place_run ::
    "engine_options \<Rightarrow> pending_settings \<Rightarrow> trigger_params \<Rightarrow> run \<Rightarrow> string \<Rightarrow> string option \<Rightarrow> unit engine" where
  "place_run cfg pv tg t initialSnapshotId claimId =
     (case truthy (tg_parkedOnExternalDeploymentId tg) of
        Some x \<Rightarrow>
          andDo (scheduleExternalDeploymentParkDeadline pv (tr_id t) x (tr_ttl t) (tr_delayUntil t))
          (andDo (emit (executionSnapshotCreated (tr_id t) initialSnapshotId []))
            (register_debounced tg t claimId))
      | None \<Rightarrow>
          (case tr_delayUntil t of
             Some delayUntil \<Rightarrow>
               andDo (scheduleDelayedRunEnqueuing (tr_id t) delayUntil) (register_debounced tg t claimId)
           | None \<Rightarrow>
               andDo (case truthy (tr_ttl t) of
                   None \<Rightarrow> ret ()
                 | Some ttl \<Rightarrow> whenever (env_type (tg_environment tg) = DEVELOPMENT) (scheduleExpireRun (tr_id t) ttl))
               (andDo (emit (executionSnapshotCreated (tr_id t) initialSnapshotId []))
                 (publishRun cfg t (tg_environment tg) True True (tg_enableFastPath tg)))))"

definition trigger_new ::
    "engine_options \<Rightarrow> pending_settings \<Rightarrow> trigger_params \<Rightarrow> string option \<Rightarrow> run engine" where
  "trigger_new cfg pv tg claimId =
     andThen (create_triggered cfg tg) (\<lambda>(t, initialSnapshotId, associated).
     andDo (block_parent cfg tg associated)
     (andDo (place_run cfg pv tg t initialSnapshotId claimId)
     (andDo (emit (runCreated (tr_id t)))
       (ret t))))"

definition trigger ::
    "engine_options \<Rightarrow> pending_settings \<Rightarrow> trigger_params \<Rightarrow> debounce_result option \<Rightarrow> run engine" where
  "trigger cfg pv tg debounced =
     (case debounced of
        Some (Existing t waitpoint) \<Rightarrow> trigger_debounced cfg tg t waitpoint
      | Some (New claimId) \<Rightarrow> trigger_new cfg pv tg (truthy claimId)
      | Some MaxDurationExceeded \<Rightarrow> trigger_new cfg pv tg None
      | None \<Rightarrow> trigger_new cfg pv tg None)"

text \<open>What \<open>handleDebounce\<close> is called with: a trailing trigger carries the data it writes.\<close>

definition debounce_request :: "trigger_params \<Rightarrow> debounce_options \<Rightarrow> debounce_call" where
  "debounce_request tg d =
     \<lparr>dc_environmentId = env_id (tg_environment tg), dc_taskIdentifier = tg_taskIdentifier tg,
      dc_debounce = (if db_mode d = Some trailing
        then d\<lparr>db_updateData := Some
          \<lparr>dd_payload = rd_payload (tg_data tg), dd_payloadType = rd_payloadType (tg_data tg),
           dd_metadata = rd_metadata (tg_data tg), dd_metadataType = Some (rd_metadataType (tg_data tg)),
           dd_tags = Some (rd_runTags (tg_data tg)), dd_maxAttempts = tg_maxAttempts tg,
           dd_maxDurationInSeconds = rd_maxDurationInSeconds (tg_data tg), dd_machine = tg_machine tg\<rparr>\<rparr>
        else d)\<rparr>"

section \<open>Runs that never run\<close>

text \<open>\<open>createCancelledRun\<close>: calling it twice is calling it once.\<close>

definition cancelled_row :: "trigger_params \<Rightarrow> int \<Rightarrow> int \<Rightarrow> string \<Rightarrow> run" where
  "cancelled_row tg now cancelledAt reason =
     (new_row tg now CANCELED)\<lparr>tr_completedAt := Some cancelledAt, tr_error := Some (STRING_ERROR reason),
        tr_attemptNumber := Some 0, tr_data := (tg_data tg)\<lparr>rd_maxDurationInSeconds := None\<rparr>\<rparr>"

definition createCancelledRun :: "trigger_params \<Rightarrow> int \<Rightarrow> string \<Rightarrow> bool \<Rightarrow> run engine" where
  "createCancelledRun tg cancelledAt reason emitEvent =
     andThen the_time (\<lambda>now. \<lambda>w.
       (case store_createCancelledRun (cancelled_row tg now cancelledAt reason)
           ((first_snapshot tg FINISHED ''Run cancelled before materialisation'' CANCELED)
              \<lparr>si_workerId := None, si_runnerId := None\<rparr>) w of
          (Inl (UniqueConstraint target), w') \<Rightarrow>
            (case run_of (tg_id tg) w' of
               None \<Rightarrow> (Inl (UniqueConstraint target), w')
             | Some existing \<Rightarrow>
                 if tr_status existing = CANCELED then (Inr existing, w')
                 else (Inl (Error (''createCancelledRun conflict: existing run run_'' @ tg_id tg @ '' has status ''
                   @ run_status_name (tr_status existing))), w'))
        | (Inl e, w') \<Rightarrow> (Inl e, w')
        | (Inr t, w') \<Rightarrow> andDo (whenever emitEvent (emit (runCancelled (tr_id t)))) (ret t) w'))"

text \<open>\<open>createFailedTaskRun\<close>: a run without a snapshot, for an item of a batch that could not be triggered.\<close>

definition failed_row :: "trigger_params \<Rightarrow> int \<Rightarrow> task_run_error \<Rightarrow> run" where
  "failed_row tg now error =
     (new_row tg now SYSTEM_FAILURE)\<lparr>tr_completedAt := Some now, tr_error := Some error,
        tr_workerQueue := ''main'', tr_createdAt := now, tr_machinePreset := None, tr_bulkActionGroupIds := [],
        tr_concurrencyKey := None, tr_lockedToVersionId := None, tr_externalDeploymentId := None,
        tr_data := (tg_data tg)\<lparr>rd_idempotencyKey := None, rd_oneTimeUseToken := None, rd_metadata := None,
          rd_metadataType := ''application/json'', rd_runTags := [], rd_maxDurationInSeconds := None\<rparr>\<rparr>"

definition createFailedTaskRun :: "engine_options \<Rightarrow> trigger_params \<Rightarrow> task_run_error \<Rightarrow> bool \<Rightarrow> run engine" where
  "createFailedTaskRun cfg tg error emitEvent =
     andThen (prepare_waitpoint tg) (\<lambda>waitpoint.
     andThen the_time (\<lambda>now.
     andThen (createFailedRun (failed_row tg now error) waitpoint) (\<lambda>associated.
     andDo (case (waiting_parent tg, associated) of
         (Some parent, Some x) \<Rightarrow>
           blockRunAndCompleteWaitpoint cfg parent (wp_id x)
             \<lparr>wo_value = stringify_error error, wo_type = None, wo_isError = True\<rparr>
             (parent_block tg (env_projectId (tg_environment tg)) None)
       | _ \<Rightarrow> ret ())
     (andDo (whenever emitEvent (emit (runFailed (tg_id tg) SYSTEM_FAILURE error)))
       (ret (failed_row tg now error))))))"

end
