(* ===== verification/EngineSteps.thy ===== *)
theory EngineSteps
  imports DequeueSystem Checkpoints Expiry Batches StalledRuns Wakeups Trigger
begin

text \<open>
  The operations of the engine as the steps of one machine, and what every one of them keeps.

  \<open>row_invariant\<close> is the contract of an invariant of the tables of runs and snapshots: it may
  look at nothing else, a new snapshot keeps it, and so does a write of rows that keeps the
  bounds on a row; \<open>run_invariant\<close> adds that a new row within the bounds keeps it. Every operation
  is shown to keep such an invariant once, in the locales. The interpretations are the bounds
  themselves, the ids of the rows, and the history of snapshots, which only grows.
\<close>

section \<open>More quiet handlers\<close>

lemma quiet_if [quiet_intros]: "quiet m \<Longrightarrow> quiet n \<Longrightarrow> quiet (if b then m else n)"
  by simp

lemma quiet_option [quiet_intros]:
  "quiet m \<Longrightarrow> (\<And>y. quiet (f y)) \<Longrightarrow> quiet (case x of None \<Rightarrow> m | Some y \<Rightarrow> f y)"
  by (cases x) simp_all

lemma quiet_getLatest [quiet_intros]: "quiet (getLatestExecutionSnapshot e i)"
  by (simp add: quiet_def getLatestExecutionSnapshot_def split: option.split)

lemma quiet_scheduling [quiet_intros]:
  "quiet (schedule_timeouts t ids)" "quiet (schedule_continue i)" "quiet (sendNotificationToWorker i s)"
  "quiet (scheduleCompleteBatch b)" "quiet (ack_message cfg orgId i remove)"
  unfolding schedule_timeouts_def schedule_continue_def sendNotificationToWorker_def scheduleCompleteBatch_def
    ack_message_def
  by (intro quiet_intros)+

lemma quiet_continue_blocked [quiet_intros]: "quiet (continue_blocked x out e)"
  unfolding continue_blocked_def by (intro quiet_intros)

lemma quiet_completeWaitpoint [quiet_intros]: "quiet (completeWaitpoint i out)"
  unfolding completeWaitpoint_def by (intro quiet_intros)

lemma quiet_finishing [quiet_intros]:
  "quiet (complete_associated i out)" "quiet (finalizeRun t)" "quiet (cancel_children i t reason)"
  "quiet (clearBlockingWaitpoints i)" "quiet (remove_blockers i bs)"
  unfolding complete_associated_def finalizeRun_def cancel_children_def clearBlockingWaitpoints_def
    remove_blockers_def
  by (intro quiet_intros)+

lemma quiet_waitpoints [quiet_intros]: "quiet (getOrCreateRunWaitpoint i p e)"
  unfolding getOrCreateRunWaitpoint_def buildRunAssociatedWaitpoint_def case_prod_unfold by (intro quiet_intros)

lemma quiet_lockless [quiet_intros]: "quiet (blockRunWithWaitpointLockless r ids a)"
  unfolding blockRunWithWaitpointLockless_def by (intro quiet_intros)

lemma quiet_publishRun [quiet_intros]: "quiet (publishRun cfg t env a b c)"
  unfolding publishRun_def by (intro quiet_intros)

lemma quiet_heartbeat [quiet_intros]:
  "quiet (enqueueHeartbeatIfNeeded cfg s)" "quiet (heartbeatRun cfg i snapshotId)"
  "quiet (restartHeartbeatForRun i d n)"
  unfolding enqueueHeartbeatIfNeeded_def heartbeatRun_def restartHeartbeatForRun_def case_prod_unfold
  by (intro quiet_intros)+

lemma quiet_batches [quiet_intros]:
  "quiet (complete_batch_waitpoint b out)" "quiet (tryCompleteBatch b)" "quiet (expireBatch b)"
  unfolding complete_batch_waitpoint_def tryCompleteBatch_def expireBatch_def
  by (intro quiet_intros)+

lemma quiet_expiry [quiet_intros]: "quiet (scheduleExpireRun i ttl)" "quiet (announce_expired now t)"
  unfolding scheduleExpireRun_def announce_expired_def by (intro quiet_intros)+

lemma quiet_keys [quiet_intros]: "quiet (setKey k v t)" "quiet (delKey k)"
  by (simp_all add: quiet_def setKey_def delKey_def modify_def)

lemma quiet_debounce_keys [quiet_intros]:
  "quiet (setKeyNX k v t)" "quiet (pexpireKey k t)"
  "quiet (conditionallyDeletePendingKey k)" "quiet (registerIfClaimOwned k c i t)" "quiet (claimDebounceKey k)"
  "quiet (registerDebouncedRun k i d cl)" "quiet (handleLockContentionFallback i er)"
  "quiet (tryFastPathSkip ds db i u)"
  unfolding setKeyNX_def pexpireKey_def conditionallyDeletePendingKey_def registerIfClaimOwned_def
    claimDebounceKey_def registerDebouncedRun_def handleLockContentionFallback_def tryFastPathSkip_def Let_def
  by (intro quiet_intros)+

lemma quiet_handleExistingRun [quiet_intros]: "quiet (handleExistingRun ds d i)" "quiet (poll_key k n)"
  unfolding handleExistingRun_def poll_key_def Let_def by (intro quiet_intros)+

lemma quiet_pending [quiet_intros]:
  "quiet (scheduleResolvePendingVersionRuns b no t)" "quiet (maybeScheduleLagRetry pv b n)"
  "quiet (maybeScheduleExternalDeploymentLagRetry pv b n xo)"
  "quiet (scheduleExternalDeploymentParkDeadline pv i x ttl d)" "quiet (scheduleDelayedRunEnqueuing i due)"
  unfolding scheduleResolvePendingVersionRuns_def maybeScheduleLagRetry_def scheduleDelayedRunEnqueuing_def
    maybeScheduleExternalDeploymentLagRetry_def scheduleExternalDeploymentParkDeadline_def
  by (intro quiet_intros)+

lemma quiet_registering [quiet_intros]: "quiet (prepare_waitpoint tg)" "quiet (register_debounced tg t c)"
  unfolding prepare_waitpoint_def buildRunAssociatedWaitpoint_def register_debounced_def prod.case
  by (intro quiet_intros)+

lemma quiet_place_run [quiet_intros]: "quiet (place_run cfg pv tg t k c)"
  unfolding place_run_def by (intro quiet_intros)

lemma quiet_checkpoint [quiet_intros]:
  "quiet (discard_checkpoint i reason)" "quiet (create_checkpoint_row env c)"
  unfolding discard_checkpoint_def create_checkpoint_row_def by (intro quiet_intros)+

section \<open>The bounds of a row\<close>

definition row_ok :: "run \<Rightarrow> bool" where
  "row_ok t = (or_default (tr_attemptNumber t) 0 \<le> MAX_TASK_RUN_ATTEMPTS \<and> tr_usageDurationMs t \<le> MAX_INT4)"

lemma calculated_usage_bound: "calculateUpdatedUsage a b c d e f g = (u, v) \<Longrightarrow> u \<le> MAX_INT4"
  using usage_bounded [of a b c d e f g] by simp

lemma updated_usage_bound: "updated_usage cfg t d e = (u, c) \<Longrightarrow> u \<le> MAX_INT4"
  unfolding updated_usage_def by (rule calculated_usage_bound)

section \<open>What every operation keeps\<close>

text \<open>A write of rows that keeps the bounds of each and its id.\<close>

definition keeps_rows :: "(run \<Rightarrow> run) \<Rightarrow> bool" where
  "keeps_rows f = (\<forall>t. tr_id (f t) = tr_id t \<and> (row_ok t \<longrightarrow> row_ok (f t)))"

lemma andThen_assoc: "andThen (andThen m f) g = andThen m (\<lambda>x. andThen (f x) g)"
  by (rule ext) (simp add: andThen_def split: prod.split sum.split)

lemma preserves_sum: "(\<And>y. x = Inl y \<Longrightarrow> preserves I (f y)) \<Longrightarrow> (\<And>y. x = Inr y \<Longrightarrow> preserves I (g y)) \<Longrightarrow>
    preserves I (case x of Inl y \<Rightarrow> f y | Inr y \<Rightarrow> g y)"
  by (cases x) simp_all

lemma preserves_outcome:
  "(\<And>r. preserves I (f r)) \<Longrightarrow> (\<And>e b. preserves I (g e b)) \<Longrightarrow> (\<And>m s k b u. preserves I (h m s k b u)) \<Longrightarrow>
   preserves I (case x of cancel_run r \<Rightarrow> f r | fail_run e b \<Rightarrow> g e b | retry m s k b u \<Rightarrow> h m s k b u)"
  by (cases x) simp_all

lemma preserves_status:
  assumes "preserves I a" "preserves I b" "preserves I c" "preserves I d" "preserves I e"
    "preserves I f" "preserves I g" "preserves I h" "preserves I k" "preserves I l"
  shows "preserves I (case x of RUN_CREATED \<Rightarrow> a | DELAYED \<Rightarrow> b | QUEUED \<Rightarrow> c | QUEUED_EXECUTING \<Rightarrow> d
    | PENDING_EXECUTING \<Rightarrow> e | EXECUTING \<Rightarrow> f | EXECUTING_WITH_WAITPOINTS \<Rightarrow> g | SUSPENDED \<Rightarrow> h
    | PENDING_CANCEL \<Rightarrow> k | FINISHED \<Rightarrow> l)"
  using assms by (cases x) simp_all

lemma preserves_continuation:
  "(\<And>ws. preserves I (f ws)) \<Longrightarrow> (\<And>why. preserves I (g why)) \<Longrightarrow> (\<And>ws. preserves I (h ws)) \<Longrightarrow>
   preserves I (case x of blocked ws \<Rightarrow> f ws | skipped why \<Rightarrow> g why | unblocked ws \<Rightarrow> h ws)"
  by (cases x) simp_all

locale row_invariant =
  fixes I :: "world \<Rightarrow> bool"
  assumes core_inv: "core w' = core w \<Longrightarrow> I w \<Longrightarrow> I w'"
    and snapshot_inv: "I w \<Longrightarrow> I (w\<lparr>en_snapshots := s # en_snapshots w\<rparr>)"
    and rows_inv: "keeps_rows f \<Longrightarrow> I w \<Longrightarrow> I (w\<lparr>en_runs := map (\<lambda>t. if p t then f t else t) (en_runs w)\<rparr>)"
begin

lemma quiet_keeps: "quiet m \<Longrightarrow> preserves I m"
  unfolding quiet_def preserves_def by (blast intro: core_inv)

lemma keeps_fresh_id: "preserves I (fresh_id p)"
  by (rule quiet_keeps) (intro quiet_intros)

lemma keeps_updateTaskRun: "keeps_rows f \<Longrightarrow> preserves I (updateTaskRun i f)"
  unfolding preserves_def updateTaskRun_def by (auto intro: rows_inv split: option.split)

lemma keeps_store_snapshot: "preserves I (store_createExecutionSnapshot x)"
proof -
  have "I (w\<lparr>en_fresh := n, en_snapshots := s # en_snapshots w\<rparr>)" if "I w" for w n s
    by (rule core_inv [OF _ snapshot_inv [OF that, of s]]) (simp add: core_def)
  then show ?thesis by (simp add: preserves_def store_create_new)
qed

lemma keeps_transaction: "preserves I m \<Longrightarrow> preserves I (runInTransaction m)"
proof -
  assume m: "preserves I m"
  have "I (snd (runInTransaction m w))" if "I w" for w
    using preservesD [OF m that] that by (auto simp: runInTransaction_def split: prod.split sum.split)
  then show ?thesis by (simp add: preserves_def)
qed

lemma keeps_prod: "(\<And>a b. p = (a, b) \<Longrightarrow> preserves I (g a b)) \<Longrightarrow> preserves I (case p of (a, b) \<Rightarrow> g a b)"
  by (cases p) simp

lemmas keeps = keeps_updateTaskRun keeps_store_snapshot keeps_prod preserves_if preserves_option
  preserves_andThen preserves_andDo preserves_whenever

subsection \<open>The run store\<close>

lemma keeps_store:
  "preserves I (requeueRun i)" "preserves I (recordBulkActionMembership i b)" "preserves I (suspendForCheckpoint i)"
  "preserves I (resumeFromCheckpoint i)" "preserves I (store_enqueueDelayedRun i t)"
  "preserves I (store_rescheduleRun i t x)" "preserves I (store_expireRun i e t x)"
  unfolding requeueRun_def recordBulkActionMembership_def suspendForCheckpoint_def resumeFromCheckpoint_def
    store_enqueueDelayedRun_def store_rescheduleRun_def store_expireRun_def
  by (intro keeps quiet_keeps quiet_intros; simp add: keeps_rows_def row_ok_def)+

lemma keeps_usage_writes:
  assumes "u \<le> MAX_INT4"
  shows "preserves I (recordRetryOutcome i m u c)" "preserves I (failRunPermanently i st t e u c)"
    "preserves I (completeAttemptSuccess i t out ty u c x)"
  unfolding recordRetryOutcome_def failRunPermanently_def completeAttemptSuccess_def
  by (intro keeps quiet_keeps quiet_intros; simp add: keeps_rows_def row_ok_def assms)+

lemma keeps_store_cancelRun:
  "preserves I (store_cancelRun i t e b None)"
  "preserves I (store_cancelRun i t e b (Some (updated_usage cfg r d env)))"
  unfolding store_cancelRun_def
  by (intro keeps; simp add: keeps_rows_def row_ok_def updated_usage_def usage_bounded)+

lemma keeps_startAttempt:
  "n \<le> MAX_TASK_RUN_ATTEMPTS \<Longrightarrow> preserves I (startAttempt i n t warm)"
  unfolding startAttempt_def by (intro keeps) (simp add: keeps_rows_def row_ok_def or_default_def)

subsection \<open>Snapshots and the queue\<close>

lemma keeps_createSnapshot: "preserves I (createExecutionSnapshot cfg x)"
  unfolding createExecutionSnapshot_def by (intro keeps quiet_keeps quiet_intros)

lemma keeps_enqueueRun: "preserves I (enqueueRun cfg t env a)"
  unfolding enqueueRun_def by (intro keeps keeps_createSnapshot quiet_keeps quiet_intros)

lemma keeps_usage_case:
  "preserves I (case updated_usage cfg t d e of (u, c) \<Rightarrow> failRunPermanently i st n er u c)"
  "preserves I (case updated_usage cfg t d e of (u, c) \<Rightarrow> completeAttemptSuccess i n out ty u c x)"
  "preserves I (case calculateUpdatedUsage k ms v w d pr e of (u, c) \<Rightarrow> recordRetryOutcome i m u c)"
  by (intro keeps_prod keeps_usage_writes; erule updated_usage_bound calculated_usage_bound)+

subsection \<open>Attempts\<close>

lemmas keeps_all = keeps_usage_case keeps keeps_createSnapshot keeps_enqueueRun keeps_store quiet_keeps quiet_intros

lemma keeps_current_snapshot: "preserves I (current_snapshot e i snapshotId)"
  unfolding current_snapshot_def by (intro keeps_all)

lemma keeps_attemptSucceeded: "preserves I (attemptSucceeded cfg e i snapshotId c wk rn)"
  unfolding attemptSucceeded_def by (intro keeps_current_snapshot keeps_all)

lemma keeps_finish_cancelled: "preserves I (finish_cancelled cfg i t s er reason a)"
  unfolding finish_cancelled_def by (intro keeps_all)

lemma keeps_cancelRun: "preserves I (cancelRun cfg i a)"
proof (cases "ca_attemptDurationMs a")
  case None
  then show ?thesis
    unfolding cancelRun_def Let_def
    by (simp only: option.case andThen_ret)
      (intro keeps_finish_cancelled keeps_store_cancelRun keeps_all)
next
  case (Some d)
  then show ?thesis
    unfolding cancelRun_def Let_def
    by (simp only: option.case andThen_assoc andThen_ret)
      (intro keeps_finish_cancelled keeps_store_cancelRun keeps_all)
qed

lemma keeps_permanentlyFailRun: "preserves I (permanentlyFailRun cfg i s t er wk rn d)"
  unfolding permanentlyFailRun_def by (intro keeps_all)

lemma keeps_nack:
  assumes "\<And>j er. preserves I (fail j er)"
  shows "preserves I (nack_and_requeue_or fail cfg i a)"
  unfolding nack_and_requeue_or_def by (intro assms keeps_all)

lemma keeps_retry_attempt:
  assumes "\<And>j er. preserves I (fail j er)"
  shows "preserves I (retry_attempt fail cfg i s c fr wk rn mth st mc oom us)"
  unfolding retry_attempt_def by (intro keeps_nack assms keeps_all)

lemma keeps_attempt_failed_or:
  assumes "\<And>j er. preserves I (fail j er)"
  shows "preserves I (attempt_failed_or fail cfg e i snapshotId c fr wk rn)"
  unfolding attempt_failed_or_def
  by (intro keeps_current_snapshot preserves_sum preserves_outcome keeps_cancelRun keeps_permanentlyFailRun
      keeps_retry_attempt assms keeps_all)

lemma keeps_system_failure_by:
  assumes "\<And>j k c. preserves I (failed j k c)"
  shows "preserves I (system_failure_by failed i er)"
  unfolding system_failure_by_def by (intro assms keeps_all)

lemma keeps_attemptFailed_fuel: "preserves I (attemptFailed_fuel n cfg e i snapshotId c fr wk rn)"
proof (induction n arbitrary: e i snapshotId c fr wk rn)
  case 0
  show ?case by (simp add: preserves_throw)
next
  case (Suc n)
  then show ?case by (simp add: keeps_attempt_failed_or keeps_system_failure_by)
qed

lemma keeps_attemptFailed: "preserves I (attemptFailed cfg e i snapshotId c fr wk rn)"
  unfolding attemptFailed_def by (rule keeps_attemptFailed_fuel)

lemma keeps_tryNackAndRequeue: "preserves I (tryNackAndRequeue cfg i a)"
  unfolding tryNackAndRequeue_def systemFailure_def
  by (intro keeps_nack keeps_system_failure_by keeps_attemptFailed)

lemma keeps_systemFailure: "preserves I (systemFailure cfg i er)"
  unfolding systemFailure_def by (intro keeps_system_failure_by keeps_attemptFailed)

lemma keeps_completeRunAttempt: "preserves I (completeRunAttempt cfg e i snapshotId c wk rn)"
  unfolding completeRunAttempt_def
  by (cases c) (simp_all add: keeps_attemptSucceeded keeps_attemptFailed)

lemma keeps_begin_attempt:
  assumes "n \<le> MAX_TASK_RUN_ATTEMPTS"
  shows "preserves I (begin_attempt cfg row n warm ls wk rn)"
  unfolding begin_attempt_def by (intro keeps_startAttempt assms keeps_all)

lemma keeps_transaction_or_500: "preserves I m \<Longrightarrow> preserves I (transaction_or_500 m)"
proof -
  assume "preserves I m"
  then have "I (snd (runInTransaction m w))" if "I w" for w
    using preservesD [OF keeps_transaction that] by blast
  then show ?thesis
    unfolding preserves_def transaction_or_500_def by (auto split: prod.split sum.split) (metis snd_conv)+
qed

lemma keeps_startRunAttempt: "preserves I (startRunAttempt cfg e i snapshotId warm wk rn)"
  unfolding startRunAttempt_def Let_def
  by (intro keeps_attemptFailed keeps_transaction_or_500 keeps_begin_attempt keeps_all) simp

subsection \<open>The other systems\<close>

lemma keeps_block: "preserves I (blockRunWithWaitpoint cfg i ids a)"
  unfolding blockRunWithWaitpoint_def Let_def by (intro keeps_all)

lemma keeps_continue: "preserves I (continueRunIfUnblocked cfg i)"
proof -
  have by_status: "preserves I (continue_by_status cfg t env s bs)" for t env s bs
    unfolding continue_by_status_def by (intro preserves_status keeps_all)
  show ?thesis unfolding continueRunIfUnblocked_def by (intro by_status keeps_all)
qed

lemma keeps_checkpoint: "preserves I (createCheckpoint cfg i snapshotId c wk rn)"
  unfolding createCheckpoint_def suspended_snapshot_def Let_def by (intro keeps_all)

lemma keeps_continueExecution: "preserves I (continueRunExecution cfg e i snapshotId wk rn)"
  unfolding continueRunExecution_def Let_def by (intro keeps_all)

lemma keeps_expireRun: "preserves I (expireRun cfg i)"
  unfolding expireRun_def by (intro keeps_all)

lemma keeps_expireRunsBatch: "preserves I (expireRunsBatch ids)"
proof -
  have batch: "preserves I (store_expireRunsBatch js er t)" for js er t
    unfolding store_expireRunsBatch_def
    by (intro preserves_modify rows_inv) (simp add: keeps_rows_def row_ok_def)
  show ?thesis unfolding expireRunsBatch_def Let_def by (intro batch keeps_all)
qed

lemma keeps_delayed: "preserves I (rescheduleDelayedRun i t)" "preserves I (enqueueDelayedRun cfg i)"
  unfolding rescheduleDelayedRun_def enqueueDelayedRun_def by (intro keeps_all)+

lemma keeps_stalled: "preserves I (handleStalledSnapshot cfg i snapshotId n)"
proof -
  have suspended: "preserves I (stalled_suspended cfg i n)"
    unfolding stalled_suspended_def Let_def by (intro keeps_continue preserves_continuation keeps_all)
  show ?thesis
    unfolding handleStalledSnapshot_def
    by (intro preserves_status suspended keeps_tryNackAndRequeue keeps_attemptFailed keeps_cancelRun keeps_all)
qed

lemma keeps_catching: "preserves I m \<Longrightarrow> preserves I h \<Longrightarrow> preserves I (catching m h)"
  unfolding preserves_def catching_def by (auto split: prod.split sum.split)

lemma keeps_pendingVersion: "preserves I (pendingVersion cfg orgId i reason code)"
  unfolding pendingVersion_def parkPendingVersion_def
  by (intro keeps_all) (simp add: keeps_rows_def row_ok_def)

lemma keeps_lock: "preserves I (lock_to_worker cfg wk rn ls row v task queue)"
  unfolding lock_to_worker_def lockRunToWorker_def Let_def
  by (intro keeps_all) (simp add: keeps_rows_def row_ok_def)

lemma keeps_dequeue: "preserves I (dequeueFromWorkerQueue cfg wq bw wk rn)"
proof -
  have "preserves I (dequeue_for_worker cfg wk rn orgId i ls result)" for orgId i ls result
    unfolding dequeue_for_worker_def
    by (cases result) (simp_all only: worker_result.case, (intro keeps_lock keeps_pendingVersion keeps_all)+)
  note cases = this
  show ?thesis
    unfolding dequeueFromWorkerQueue_def dequeue_locked_def dequeue_failed_def Let_def
    by (intro keeps_catching cases keeps_systemFailure keeps_tryNackAndRequeue keeps_all)
qed

lemma keeps_repair: "preserves I (handleRepairSnapshot cfg i snapshotId)"
  unfolding handleRepairSnapshot_def by (intro keeps_all)

subsection \<open>Versions and debouncing\<close>

lemma keeps_promotePending: "preserves I (promotePendingVersionRuns i st pin)"
proof -
  have "keeps_rows (\<lambda>t. t\<lparr>tr_status := st, tr_lockedToVersionId := f t\<rparr>)" for f
    by (simp add: keeps_rows_def row_ok_def)
  then show ?thesis
    unfolding preserves_def promotePendingVersionRuns_def Let_def by (auto intro: rows_inv)
qed

lemma keeps_promoteParkedRun: "preserves I (promoteParkedRun cfg env t pin)"
  unfolding promoteParkedRun_def promote_run_def Let_def
  by (intro keeps_transaction keeps_promotePending keeps_all)

lemma keeps_promote_all: "preserves I (promote_all cfg env x pinned ts n)"
  by (induction ts arbitrary: n)
    (auto intro!: keeps_promoteParkedRun preserves_andThen simp: preserves_ret)

lemma keeps_version_runs: "preserves I (enqueueRunsForBackgroundWorker cfg pv b n)"
  unfolding enqueueRunsForBackgroundWorker_def Let_def by (intro keeps_promote_all keeps_all)

lemma keeps_expireParked: "preserves I (expireParkedExternalDeploymentRun cfg pv i x)"
proof -
  have expired: "preserves I (expireParkedRun i er now reason snap)" for i er now reason snap
    unfolding expireParkedRun_def by (intro keeps_all) (simp add: keeps_rows_def row_ok_def)
  show ?thesis
    unfolding expireParkedExternalDeploymentRun_def release_parked_def expire_parked_def
    by (intro keeps_promoteParkedRun expired keeps_all)
qed

lemma keeps_handleExistingRunLocked: "preserves I (handleExistingRunLocked ds d k i u)"
proof -
  have rewrite: "preserves I (updateRunForTrailingMode i x)" for x
    unfolding updateRunForTrailingMode_def rewriteDebouncedRun_def
    by (intro keeps) (simp add: keeps_rows_def row_ok_def)
  have push: "preserves I (push_later k i t u)" for t u
    unfolding push_later_def by (intro keeps_delayed keeps_all)
  have mode: "preserves I (case m of leading \<Rightarrow> a | trailing \<Rightarrow> b)"
    if "preserves I a" "preserves I b" for m and a b :: "locked_outcome engine"
    using that by (cases m) simp_all
  show ?thesis
    unfolding handleExistingRunLocked_def prod.case by (intro push rewrite mode keeps_all)
qed

lemma keeps_debounce: "preserves I (debounce_step ds c ph)"
  by (cases ph) (simp_all only: debounce_step.simps, (intro keeps_handleExistingRunLocked keeps_all)+)

end

section \<open>The machine\<close>

text \<open>The operations on waitpoints are the steps of \<open>wp_step\<close>; \<open>Tick\<close> is the passing of time.\<close>

datatype engine_event =
    StartAttempt "string option" string string bool "string option" "string option"
  | CompleteAttempt "string option" string string completion "string option" "string option"
  | Cancel string cancel_args
  | SystemFailure string task_run_error
  | WaitpointOp wp_event
  | Checkpoint string string checkpoint_input "string option" "string option"
  | ContinueExecution "string option" string string "string option" "string option"
  | Expire string
  | ExpireBatchOfRuns "string list"
  | RescheduleDelayed string int
  | EnqueueDelayed string
  | TryCompleteBatch string
  | ExpireBatch string
  | StalledSnapshot string string "nat option"
  | RepairSnapshot string string
  | Heartbeat string string
  | Dequeue string "string option" "string option" "string option"
  | TriggerRun pending_settings trigger_params "debounce_result option"
  | CreateCancelled trigger_params int string bool
  | CreateFailed trigger_params task_run_error bool
  | QueueVersionRuns pending_settings string nat
  | ExpireParked pending_settings string string
  | DebounceStep debounce_settings debounce_call phase
  | Tick nat

fun engine_step :: "engine_options \<Rightarrow> world \<Rightarrow> engine_event \<Rightarrow> world" where
  "engine_step cfg w (StartAttempt e i s warm wk rn) = state_after (startRunAttempt cfg e i s warm wk rn) w"
| "engine_step cfg w (CompleteAttempt e i s c wk rn) = state_after (completeRunAttempt cfg e i s c wk rn) w"
| "engine_step cfg w (Cancel i a) = state_after (cancelRun cfg i a) w"
| "engine_step cfg w (SystemFailure i er) = state_after (systemFailure cfg i er) w"
| "engine_step cfg w (WaitpointOp ev) = wp_step cfg w ev"
| "engine_step cfg w (Checkpoint i s c wk rn) = state_after (createCheckpoint cfg i s c wk rn) w"
| "engine_step cfg w (ContinueExecution e i s wk rn) = state_after (continueRunExecution cfg e i s wk rn) w"
| "engine_step cfg w (Expire i) = state_after (expireRun cfg i) w"
| "engine_step cfg w (ExpireBatchOfRuns ids) = state_after (expireRunsBatch ids) w"
| "engine_step cfg w (RescheduleDelayed i t) = state_after (rescheduleDelayedRun i t) w"
| "engine_step cfg w (EnqueueDelayed i) = state_after (enqueueDelayedRun cfg i) w"
| "engine_step cfg w (TryCompleteBatch b) = state_after (tryCompleteBatch b) w"
| "engine_step cfg w (ExpireBatch b) = state_after (expireBatch b) w"
| "engine_step cfg w (StalledSnapshot i s n) = state_after (handleStalledSnapshot cfg i s n) w"
| "engine_step cfg w (RepairSnapshot i s) = state_after (handleRepairSnapshot cfg i s) w"
| "engine_step cfg w (Heartbeat i s) = state_after (heartbeatRun cfg i s) w"
| "engine_step cfg w (Dequeue wq bw wk rn) = state_after (dequeueFromWorkerQueue cfg wq bw wk rn) w"
| "engine_step cfg w (TriggerRun pv tg db) = state_after (trigger cfg pv tg db) w"
| "engine_step cfg w (CreateCancelled tg t reason ev) = state_after (createCancelledRun tg t reason ev) w"
| "engine_step cfg w (CreateFailed tg er ev) = state_after (createFailedTaskRun cfg tg er ev) w"
| "engine_step cfg w (QueueVersionRuns pv b n) = state_after (enqueueRunsForBackgroundWorker cfg pv b n) w"
| "engine_step cfg w (ExpireParked pv i x) = state_after (expireParkedExternalDeploymentRun cfg pv i x) w"
| "engine_step cfg w (DebounceStep ds c ph) = state_after (debounce_step ds c ph) w"
| "engine_step cfg w (Tick n) = w\<lparr>en_now := en_now w + int n\<rparr>"

lemma quiet_creating [quiet_intros]:
  "quiet (createDateTimeWaitpoint p e t k x)" "quiet (createManualWaitpoint p e k x u)"
  unfolding createDateTimeWaitpoint_def createManualWaitpoint_def cached_waitpoint_def createWaitpointRow_def
    upsertWaitpoint_def
  by (intro quiet_intros)+

text \<open>A new row has an id no row has.\<close>

lemma insertRun_cases:
  obtains (conflict) target where "insertRun t w = (Inl (UniqueConstraint target), w)"
  | (fresh) "run_of (tr_id t) w = None" "insertRun t w = (Inr (), w\<lparr>en_runs := t # en_runs w\<rparr>)"
proof (cases "unique_conflict t (en_runs w)")
  case None
  then have "run_of (tr_id t) w = None"
    by (auto simp: unique_conflict_def run_of_def find_None_iff list_ex_iff split: if_splits)
  with None show ?thesis by (intro fresh) (simp_all add: insertRun_def)
next
  case (Some target)
  then show ?thesis by (intro conflict [of target]) (simp add: insertRun_def)
qed

locale run_invariant = row_invariant +
  assumes insert_inv: "row_ok t \<Longrightarrow> run_of (tr_id t) w = None \<Longrightarrow> I w \<Longrightarrow> I (w\<lparr>en_runs := t # en_runs w\<rparr>)"
begin

lemma keeps_insertRun: "row_ok t \<Longrightarrow> preserves I (insertRun t)"
  unfolding preserves_def by (metis insertRun_cases insert_inv snd_conv)

lemma keeps_insertSnapshot: "preserves I (insertSnapshot s)"
  unfolding preserves_def insertSnapshot_def by (simp add: snapshot_inv)

lemma new_row_ok: "row_ok (new_row tg now st)"
  by (simp add: row_ok_def new_row_def or_default_def MAX_TASK_RUN_ATTEMPTS_def MAX_INT4_def)

lemma keeps_trigger: "preserves I (trigger cfg pv tg db)"
proof -
  have row: "row_ok (triggered_row cfg tg now)" for now
    using new_row_ok [of tg now] by (simp add: triggered_row_def row_ok_def)
  have create: "preserves I (createRun (triggered_row cfg tg now) k x wp)" for now k x wp
    unfolding createRun_def by (intro keeps_insertRun keeps_insertSnapshot row keeps_all)
  have explain: "preserves I (explaining_duplicates tg m)" if "preserves I m" for m :: "waitpoint option engine"
    using that unfolding preserves_def explaining_duplicates_def
    by (auto split: prod.split sum.split engine_error.split)
  have triggered: "preserves I (create_triggered cfg tg)"
    unfolding create_triggered_def by (intro explain create keeps_all)
  have parent: "preserves I (block_parent cfg tg wp)" for wp
    unfolding block_parent_def prod.case by (intro keeps_block keeps_all)
  have "preserves I (trigger_new cfg pv tg c)" for c
    unfolding trigger_new_def by (intro triggered parent keeps_all)
  moreover have "preserves I (trigger_debounced cfg tg t wp)" for t wp
    unfolding trigger_debounced_def by (intro keeps_block keeps_all)
  ultimately show ?thesis
    unfolding trigger_def by (auto split: option.split debounce_result.split)
qed

lemma keeps_createCancelled: "preserves I (createCancelledRun tg t reason ev)"
proof -
  have "row_ok (cancelled_row tg now t reason)" for now
    using new_row_ok [of tg now]
    by (simp add: cancelled_row_def row_ok_def or_default_def MAX_TASK_RUN_ATTEMPTS_def)
  then have create: "preserves I (store_createCancelledRun (cancelled_row tg now t reason) x)" for now x
    unfolding store_createCancelledRun_def by (intro keeps_insertRun keeps_all)
  have event: "preserves I (andDo (whenever ev (emit (runCancelled (tr_id t)))) (ret t))" for t
    by (intro keeps_all)
  have "I (snd (createCancelledRun tg t reason ev w))" if "I w" for w
  proof (cases "store_createCancelledRun (cancelled_row tg (en_now w) t reason)
      ((first_snapshot tg FINISHED ''Run cancelled before materialisation'' CANCELED)
         \<lparr>si_workerId := None, si_runnerId := None\<rparr>) w")
    case (Pair r w')
    with preservesD [OF create that] have "I w'" by (metis snd_conv)
    with Pair show ?thesis
      by (auto simp: createCancelledRun_def andThen_def the_time_def reading_def
          split: sum.split engine_error.split option.split intro: preservesD [OF event])
  qed
  then show ?thesis by (simp add: preserves_def)
qed

lemma keeps_createFailed: "preserves I (createFailedTaskRun cfg tg er ev)"
proof -
  have "row_ok (failed_row tg now er)" for now
    using new_row_ok [of tg now] by (simp add: failed_row_def row_ok_def)
  then have create: "preserves I (createFailedRun (failed_row tg now er) wp)" for now wp
    unfolding createFailedRun_def by (intro keeps_insertRun keeps_all)
  have block: "preserves I (blockRunAndCompleteWaitpoint cfg r i out a)" for r i out a
    unfolding blockRunAndCompleteWaitpoint_def by (intro keeps_block keeps_all)
  show ?thesis
    unfolding createFailedTaskRun_def prod.case by (intro create block keeps_all)
qed

lemma wp_step_keeps: "I w \<Longrightarrow> I (wp_step cfg w ev)"
proof -
  assume I: "I w"
  have after: "preserves I m \<Longrightarrow> I (state_after m v)" if "I v" for m :: "'b engine" and v
    using that by (simp add: state_after_def preservesD)
  show ?thesis
  proof (cases ev)
    case (WpContinueJob r)
    have "I (snd (continueRunIfUnblocked cfg r w))"
      using I keeps_continue by (rule preservesD [rotated])
    then have "I (case continueRunIfUnblocked cfg r w of (Inl _, v) \<Rightarrow> v
        | (Inr _, v) \<Rightarrow> state_after (ackJob (continue_job r)) v)"
      using quiet_core [OF quiet_effects(8), of "continue_job r"]
      by (auto simp: state_after_def split: prod.split sum.split intro: core_inv)
    with WpContinueJob show ?thesis by simp
  qed (use I in \<open>auto intro!: after keeps_block quiet_keeps quiet_intros\<close>)
qed

lemma step_keeps: "I w \<Longrightarrow> I (engine_step cfg w ev)"
proof -
  assume I: "I w"
  have after: "preserves I m \<Longrightarrow> I (state_after m w)" for m :: "'b engine"
    using I by (simp add: state_after_def preservesD)
  show ?thesis
    by (cases ev)
      (use I in \<open>auto intro!: after wp_step_keeps keeps_startRunAttempt keeps_completeRunAttempt keeps_cancelRun
        keeps_systemFailure keeps_checkpoint keeps_continueExecution keeps_expireRun keeps_expireRunsBatch
        keeps_delayed keeps_stalled keeps_repair keeps_dequeue keeps_trigger keeps_createCancelled keeps_createFailed
        keeps_version_runs keeps_expireParked keeps_debounce core_inv [of "w\<lparr>en_now := n\<rparr>" w for n] quiet_keeps quiet_intros\<close>)
qed

end

section \<open>The bounds hold\<close>

definition rows_ok :: "world \<Rightarrow> bool" where
  "rows_ok w = list_all row_ok (en_runs w)"

interpretation bounds: run_invariant rows_ok
  by unfold_locales (auto simp: rows_ok_def core_def keeps_rows_def list_all_iff)

interpretation ids: row_invariant "\<lambda>w. map tr_id (en_runs w) = js" for js
  by unfold_locales (auto simp: core_def keeps_rows_def)

interpretation unique_ids: run_invariant "\<lambda>w. distinct (map tr_id (en_runs w))"
  by unfold_locales (auto simp: core_def keeps_rows_def comp_def if_distrib run_of_def find_None_iff cong: if_cong)

interpretation bounded_machine: step_machine "engine_step cfg" rows_ok
  by unfold_locales (rule bounds.step_keeps)

interpretation unique_machine: step_machine "engine_step cfg" "\<lambda>w. distinct (map tr_id (en_runs w))"
  by unfold_locales (rule unique_ids.step_keeps)

section \<open>The history grows\<close>

definition extends :: "world \<Rightarrow> world \<Rightarrow> bool" where
  "extends w w' =
     (drop (length (en_snapshots w') - length (en_snapshots w)) (en_snapshots w') = en_snapshots w)"

lemma extends_iff: "extends w w' \<longleftrightarrow> (\<exists>new. en_snapshots w' = new @ en_snapshots w)"
  by (auto simp: extends_def) (metis append_take_drop_id)

interpretation history: run_invariant "extends w" for w
  by unfold_locales (auto simp: extends_iff core_def)

interpretation growing_machine: monotone_machine "engine_step cfg" extends
  by unfold_locales (auto simp: extends_iff intro: history.step_keeps [of w w for w, unfolded extends_iff])

section \<open>Properties\<close>

text \<open>
  C11. The rows of runs stay in bounds: after any sequence of operations no run is beyond its 250
  attempts, no recorded usage is above the largest value of the 32-bit column it is stored in, and no
  two rows have the same id. (From below the usage is not bounded: nothing turns away a negative
  duration that a worker reports.)
\<close>

theorem attempts_and_usage_bounded:
  assumes "rows_ok w" "distinct (map tr_id (en_runs w))"
  shows "list_all (\<lambda>t. or_default (tr_attemptNumber t) 0 \<le> 250 \<and> tr_usageDurationMs t \<le> 2147483647)
      (en_runs (foldl (engine_step cfg) w events))
    \<and> distinct (map tr_id (en_runs (foldl (engine_step cfg) w events)))"
  using bounded_machine.run_inv [OF assms(1), of cfg events] unique_machine.run_inv [OF assms(2), of cfg events]
  by (auto simp: rows_ok_def row_ok_def list_all_iff MAX_TASK_RUN_ATTEMPTS_def MAX_INT4_def)

definition example_row :: run where
  "example_row = \<lparr>tr_id = ''run1'', tr_status = TaskRunStatus.EXECUTING, tr_statusReason = None,
     tr_taskIdentifier = ''task1'', tr_attemptNumber = Some 249,
     tr_lockedAt = Some 1, tr_lockedById = Some ''task1'', tr_lockedToVersionId = Some ''worker1'',
     tr_lockedQueueId = None, tr_ttl = None, tr_batchId = None,
     tr_runtimeEnvironmentId = ''e1'', tr_projectId = ''p1'', tr_organizationId = Some ''o1'',
     tr_parentTaskRunId = None, tr_queue = ''q1'', tr_concurrencyKey = None, tr_workerQueue = ''main'',
     tr_queueTimestamp = None, tr_createdAt = 0, tr_queuedAt = None, tr_priorityMs = 0, tr_delayUntil = None,
     tr_maxAttempts = Some 3, tr_lockedRetryConfig = rr_lockedRetryConfig example_run, tr_machinePreset = None,
     tr_usageDurationMs = 0, tr_costInCents = None, tr_output = None, tr_outputType = ''application/json'',
     tr_error = None, tr_startedAt = None, tr_executedAt = None, tr_completedAt = None, tr_expiredAt = None,
     tr_isWarmStart = False, tr_bulkActionGroupIds = [], tr_externalDeploymentId = None,
     tr_data = \<lparr>rd_idempotencyKey = None, rd_oneTimeUseToken = None, rd_payload = ''{}'', rd_payloadType = ''application/json'',
       rd_metadata = None, rd_metadataType = ''application/json'', rd_runTags = [], rd_maxDurationInSeconds = None\<rparr>\<rparr>"

definition running_world :: world where
  "running_world = blocked_world\<lparr>en_runs := [example_row]\<rparr>"

theorem attempts_and_usage_bounded_witness:
  "list_all (\<lambda>t. or_default (tr_attemptNumber t) 0 \<le> 250 \<and> tr_usageDurationMs t \<le> 2147483647)
    (en_runs (foldl (engine_step example_engine) running_world
      [StartAttempt None ''run1'' ''s1'' False None None, StartAttempt None ''run1'' ''id0'' False None None]))"
proof -
  have "rows_ok running_world" "distinct (map tr_id (en_runs running_world))"
    by (simp_all add: rows_ok_def row_ok_def running_world_def example_row_def or_default_def
        MAX_TASK_RUN_ATTEMPTS_def MAX_INT4_def)
  from attempts_and_usage_bounded [OF this] show ?thesis by blast
qed

text \<open>
  C9. The history of a run is never rewritten: whatever operations are called, the snapshots there
  were are still there, unchanged and in their order, and new ones come before them.
\<close>

theorem history_only_grows:
  "\<exists>new. en_snapshots (foldl (engine_step cfg) w events) = new @ en_snapshots w"
  using growing_machine.run_le [of w cfg events] unfolding extends_iff .

end
