(* ===== verification/Lifecycle.thy ===== *)
theory Lifecycle
  imports EngineSteps
begin

text \<open>
  What the operations of the engine do to the rows of one run, behind their guards.

  \<open>run_guard\<close> is the contract. Its parameters say which statuses a run may get a
  snapshot with, which writes of its row are permitted and whether it may get a row; the lemmas of the locale show for each
  operation that it needs no more than its guards establish.
\<close>

section \<open>The contract\<close>

lemma latest_read: "latest i w = Some s \<Longrightarrow> \<exists>cs. getLatestExecutionSnapshot None i w = (Inr (s, cs), w)"
  using fst_enhance [of w s] by (cases "enhanceExecutionSnapshot w s") (simp add: getLatest_simps latest_def)

locale run_guard =
  fixes I :: "world \<Rightarrow> bool"
    and may :: "string \<Rightarrow> TaskRunExecutionStatus \<Rightarrow> bool"
    and may_write :: "string \<Rightarrow> (run \<Rightarrow> run) \<Rightarrow> bool"
    and may_insert :: "string \<Rightarrow> bool"
  assumes core_guard: "core w' = core w \<Longrightarrow> I w \<Longrightarrow> I w'"
    and snapshot_guard: "(sn_isValid s \<Longrightarrow> may (sn_runId s) (sn_executionStatus s)) \<Longrightarrow> I w \<Longrightarrow> I (w\<lparr>en_snapshots := s # en_snapshots w\<rparr>)"
    and row_guard: "may_write i f \<Longrightarrow> (\<And>t. tr_id (f t) = tr_id t) \<Longrightarrow> I w \<Longrightarrow>
      I (w\<lparr>en_runs := map (\<lambda>t. if tr_id t = i then f t else t) (en_runs w)\<rparr>)"
    and insert_guard: "may_insert (tr_id t) \<Longrightarrow> run_of (tr_id t) w = None \<Longrightarrow> I w \<Longrightarrow> I (w\<lparr>en_runs := t # en_runs w\<rparr>)"
begin

lemma quiet_guard: "quiet m \<Longrightarrow> preserves I m"
  unfolding quiet_def preserves_def by (blast intro: core_guard)

lemma row_then:
  assumes "may_write i f" "\<And>t. tr_id (f t) = tr_id t" "\<And>t. tr_id t = i \<Longrightarrow> preserves I (g t)"
  shows "preserves I (andThen (updateTaskRun i f) g)"
proof -
  have "I (snd (andThen (updateTaskRun i f) g w))" if I: "I w" for w
  proof (cases "run_of i w")
    case None
    with I show ?thesis by (simp add: andThen_def updateTaskRun_def)
  next
    case (Some t)
    let ?w = "w\<lparr>en_runs := map (\<lambda>t. if tr_id t = i then f t else t) (en_runs w)\<rparr>"
    have "I ?w" by (rule row_guard [OF assms(1,2) I])
    moreover have "tr_id (f t) = i" using run_of_id [OF Some] assms(2) by simp
    ultimately have "I (snd (g (f t) ?w))" by (intro preservesD [OF assms(3)])
    with Some show ?thesis by (simp add: andThen_def updateTaskRun_def)
  qed
  then show ?thesis by (simp add: preserves_def)
qed

lemma row_tail: "may_write i f \<Longrightarrow> (\<And>t. tr_id (f t) = tr_id t) \<Longrightarrow> preserves I (updateTaskRun i f)"
  unfolding preserves_def updateTaskRun_def by (auto intro!: row_guard split: option.split)

lemma store_snapshot_valid:
  assumes "truthy (si_error x) = None \<Longrightarrow> may (si_runId x) (si_executionStatus x)"
  shows "preserves I (store_createExecutionSnapshot x)"
proof -
  have "I (w\<lparr>en_fresh := n, en_snapshots := the_new_snapshot w x # en_snapshots w\<rparr>)" if "I w" for w n
    by (rule core_guard [OF _ snapshot_guard [OF _ that, of "the_new_snapshot w x"]])
      (simp_all add: core_def assms the_new_snapshot_def)
  then show ?thesis by (simp add: preserves_def store_create_new)
qed

lemma snapshot_valid:
  "(truthy (si_error x) = None \<Longrightarrow> may (si_runId x) (si_executionStatus x)) \<Longrightarrow> preserves I (createExecutionSnapshot cfg x)"
  unfolding createExecutionSnapshot_def
  by (intro preserves_andThen store_snapshot_valid preserves_andDo quiet_guard quiet_intros)

lemma store_snapshot_tail:
  "may (si_runId x) (si_executionStatus x) \<Longrightarrow> preserves I (store_createExecutionSnapshot x)"
  by (rule store_snapshot_valid)

lemma snapshot_tail: "may (si_runId x) (si_executionStatus x) \<Longrightarrow> preserves I (createExecutionSnapshot cfg x)"
  by (rule snapshot_valid)

lemma enqueue_tail: "may (tr_id t) (or_default (ea_status a) QUEUED) \<Longrightarrow> preserves I (enqueueRun cfg t env a)"
  unfolding enqueueRun_def
  by (intro preserves_andThen snapshot_tail preserves_andDo quiet_guard quiet_intros) (simp add: queued_input_def)

lemma found_then:
  assumes "\<And>t. tr_id t = i \<Longrightarrow> preserves I (g (Some t))" "preserves I (g None)"
  shows "preserves I (andThen (findRun i) g)"
proof -
  have "I (snd (g (run_of i w) w))" if "I w" for w
  proof (cases "run_of i w")
    case None
    with that assms(2) show ?thesis by (simp add: preservesD)
  next
    case (Some t)
    with that assms(1) [OF run_of_id [OF Some]] show ?thesis by (simp add: preservesD)
  qed
  then show ?thesis by (simp add: preserves_def andThen_def)
qed

text \<open>An operation that starts by reading the latest snapshot.\<close>

lemma latest_at:
  assumes "I w" "\<And>s cs. latest i w = Some s \<Longrightarrow> sn_runId s = i \<Longrightarrow> I (snd (g (s, cs) w))"
  shows "I (snd (andThen (getLatestExecutionSnapshot None i) g w))"
proof (cases "latest i w")
  case None
  with assms(1) show ?thesis by (simp add: andThen_def getLatest_simps latest_def)
next
  case (Some s)
  obtain cs where cs: "enhanceExecutionSnapshot w s = (s, cs)"
    using fst_enhance [of w s] by (metis prod.collapse)
  have "sn_runId s = i" using Some by (auto simp: latest_def latest_in_def find_Some_iff)
  with assms(2) [OF Some, of cs] Some cs show ?thesis
    by (simp add: andThen_def getLatest_simps latest_def)
qed

lemma latest_first:
  assumes "I w" "\<And>s cs. latest i w = Some s \<Longrightarrow> sn_runId s = i \<Longrightarrow> preserves I (g (s, cs))"
  shows "I (snd (andThen (getLatestExecutionSnapshot None i) g w))"
  by (rule latest_at [OF assms(1)], rule preservesD [OF assms(2) assms(1)])

lemma latest_then:
  assumes "\<And>s cs. sn_runId s = i \<Longrightarrow> preserves I (g (s, cs))"
  shows "preserves I (andThen (getLatestExecutionSnapshot None i) g)"
  using latest_first [of _ i g] assms by (simp add: preserves_def)

lemma pair_then:
  "(\<And>a b. preserves I (andThen (m a b) g)) \<Longrightarrow> preserves I (andThen (case p of (a, b) \<Rightarrow> m a b) g)"
  by (cases p) simp

lemma pair_tail: "(\<And>a b. preserves I (m a b)) \<Longrightarrow> preserves I (case p of (a, b) \<Rightarrow> m a b)"
  by (cases p) simp

lemma require_do: "(b \<Longrightarrow> preserves I m) \<Longrightarrow> preserves I (andDo (require b e) m)"
  by (cases b) (simp_all add: require_def andDo_def preserves_throw)

lemma current_first:
  assumes "I w"
    and "\<And>s. latest i w = Some s \<Longrightarrow> sn_runId s = i \<Longrightarrow> sn_executionStatus s \<noteq> FINISHED \<Longrightarrow> preserves I (g s)"
  shows "I (snd (andThen (current_snapshot None i snapshotId) g w))"
  unfolding current_snapshot_def andThen_assoc
  by (rule latest_first [OF assms(1)])
    (auto simp: andDo_def andThen_assoc require_def preserves_throw intro: assms(2))

lemma required_then:
  "preserves I (g t) \<Longrightarrow> preserves I (andThen (required (Some t) e) g)"
  "preserves I (andThen (required None e) g)"
  by (simp_all add: required_def preserves_throw)

lemmas guards = require_do row_then pair_then found_then row_tail store_snapshot_tail snapshot_tail enqueue_tail
  pair_tail preserves_if preserves_option preserves_andThen preserves_andDo preserves_whenever quiet_guard
  quiet_intros

subsection \<open>Attempts\<close>

lemmas inputs = run_snapshot_def follow_up_def nested_snapshot_def no_args_def or_default_def

lemma succeeded_guard:
  assumes "I w" "\<And>s. latest i w = Some s \<Longrightarrow> sn_executionStatus s \<noteq> FINISHED \<Longrightarrow> may i FINISHED \<and> (\<forall>f. may_write i f)"
  shows "I (snd (attemptSucceeded cfg None i snapshotId c wk rn w))"
  unfolding attemptSucceeded_def completeAttemptSuccess_def
  by (rule current_first [OF assms(1)], intro guards) (use assms(2) in \<open>simp_all add: inputs\<close>)

lemma failRun_guard:
  assumes "may i FINISHED" "\<And>f. may_write i f"
  shows "preserves I (permanentlyFailRun cfg i s t er wk rn d)"
  unfolding permanentlyFailRun_def failRunPermanently_def
  by (intro guards) (simp_all add: inputs assms)

lemma finish_guard: "may (tr_id t) FINISHED \<Longrightarrow> preserves I (finish_cancelled cfg i t s er reason a)"
  unfolding finish_cancelled_def by (intro guards) (simp add: inputs)

lemma cancel_guard:
  assumes "I w"
    and "\<And>s f. latest i w = Some s \<Longrightarrow> sn_executionStatus s \<noteq> FINISHED \<Longrightarrow> may_write i f"
    and "\<And>s. latest i w = Some s \<Longrightarrow> sn_executionStatus s \<noteq> FINISHED \<Longrightarrow> ca_finalizeRun a \<or>
      sn_executionStatus s \<noteq> PENDING_CANCEL \<and> \<not> isExecuting (sn_executionStatus s)
        \<and> \<not> isPendingExecuting (sn_executionStatus s) \<Longrightarrow> may i FINISHED"
    and "\<And>s. latest i w = Some s \<Longrightarrow> isExecuting (sn_executionStatus s) \<or> isPendingExecuting (sn_executionStatus s) \<Longrightarrow>
      \<not> ca_finalizeRun a \<Longrightarrow> may i PENDING_CANCEL"
    and "\<And>b. may_write i (\<lambda>t. t\<lparr>tr_bulkActionGroupIds := tr_bulkActionGroupIds t @ [b]\<rparr>)"
  shows "I (snd (cancelRun cfg i a w))"
  unfolding cancelRun_def Let_def store_cancelRun_def recordBulkActionMembership_def
  by (rule latest_first [OF assms(1)], simp only: split, intro finish_guard guards)
    (use assms(2-5) in \<open>auto simp: inputs\<close>)

text \<open>What the failure of an attempt may do to a run.\<close>

lemma cancel_tail:
  assumes "may i FINISHED" "\<And>f. may_write i f" "ca_finalizeRun a"
  shows "preserves I (cancelRun cfg i a)"
proof -
  have "I (snd (cancelRun cfg i a w))" if "I w" for w
    by (rule cancel_guard [OF that]) (simp_all add: assms)
  then show ?thesis by (simp add: preserves_def)
qed

lemma nack_guard:
  assumes "may i QUEUED" "\<And>f. may_write i f" "\<And>er. preserves I (fail i er)"
  shows "preserves I (nack_and_requeue_or fail cfg i a)"
  unfolding nack_and_requeue_or_def requeueRun_def
  by (intro assms(3) guards) (simp_all add: assms)

lemma retry_guard:
  assumes "may i QUEUED" "may i EXECUTING" "\<And>f. may_write i f" "\<And>er. preserves I (fail i er)"
  shows "preserves I (retry_attempt fail cfg i s c fr wk rn mth st mc oom us)"
  unfolding retry_attempt_def recordRetryOutcome_def
  by (intro nack_guard assms(3,4) guards) (simp_all add: inputs assms)

lemma failed_guard:
  assumes "I w" "\<And>er. preserves I (fail i er)"
    and "\<And>s. latest i w = Some s \<Longrightarrow> sn_executionStatus s \<noteq> FINISHED \<Longrightarrow>
      may i FINISHED \<and> may i QUEUED \<and> may i EXECUTING \<and> (\<forall>f. may_write i f)"
  shows "I (snd (attempt_failed_or fail cfg None i snapshotId c fr wk rn w))"
  unfolding attempt_failed_or_def
  by (rule current_first [OF assms(1)],
      intro preserves_sum preserves_outcome cancel_tail failRun_guard retry_guard assms(2) guards)
    (use assms(3) in simp_all)

lemma failed_tail:
  assumes "may i FINISHED" "may i QUEUED" "may i EXECUTING" "\<And>f. may_write i f"
  shows "preserves I (attemptFailed_fuel n cfg None i snapshotId c fr wk rn)"
proof (induction n arbitrary: snapshotId c fr wk rn)
  case 0
  show ?case by (simp add: preserves_throw)
next
  case (Suc n)
  have "preserves I (system_failure_by (\<lambda>i snapshotId c. attemptFailed_fuel n cfg None i snapshotId c False None None) i er)" for er
    unfolding system_failure_by_def by (intro Suc guards)
  then have "I (snd (attemptFailed_fuel (Suc n) cfg None i snapshotId c fr wk rn w))" if "I w" for w
    using failed_guard [OF that] assms by simp
  then show ?case by (simp add: preserves_def)
qed

lemma attemptFailed_guard:
  assumes "I w" "\<And>s. latest i w = Some s \<Longrightarrow> sn_executionStatus s \<noteq> FINISHED \<Longrightarrow>
      may i FINISHED \<and> may i QUEUED \<and> may i EXECUTING \<and> (\<forall>f. may_write i f)"
  shows "I (snd (attemptFailed cfg None i snapshotId c fr wk rn w))"
proof (cases "\<exists>s. latest i w = Some s \<and> sn_executionStatus s \<noteq> FINISHED")
  case True
  with assms have "preserves I (attemptFailed_fuel 2 cfg None i snapshotId c fr wk rn)"
    by (intro failed_tail) auto
  with assms(1) show ?thesis by (simp add: attemptFailed_def preservesD)
next
  case False
  have "I (snd (andThen (current_snapshot None i snapshotId) g w))" for g :: "snapshot \<Rightarrow> attempt_result engine"
    by (rule current_first [OF assms(1)]) (use False in blast)
  then show ?thesis by (simp add: attemptFailed_def numeral_2_eq_2 attempt_failed_or_def)
qed

lemma systemFailure_tail:
  assumes "may i FINISHED" "may i QUEUED" "may i EXECUTING" "\<And>f. may_write i f"
  shows "preserves I (systemFailure cfg i er)"
  unfolding systemFailure_def system_failure_by_def attemptFailed_def
  by (intro failed_tail guards) (simp_all add: assms)

lemma systemFailure_guard:
  assumes "I w" "\<And>s. latest i w = Some s \<Longrightarrow> sn_executionStatus s \<noteq> FINISHED \<Longrightarrow>
      may i FINISHED \<and> may i QUEUED \<and> may i EXECUTING \<and> (\<forall>f. may_write i f)"
  shows "I (snd (systemFailure cfg i er w))"
  unfolding systemFailure_def system_failure_by_def attemptFailed_def
  by (rule latest_first [OF assms(1)], simp only: split, intro failed_tail guards) (use assms(2) in simp_all)

lemma start_guard:
  assumes "I w" "\<And>s. latest i w = Some s \<Longrightarrow> \<not> isFinishedOrPendingFinished (sn_executionStatus s) \<Longrightarrow>
      may i FINISHED \<and> may i QUEUED \<and> may i EXECUTING \<and> (\<forall>f. may_write i f)"
  shows "I (snd (startRunAttempt cfg None i snapshotId warm wk rn w))"
proof -
  have transaction: "preserves I (transaction_or_500 (begin_attempt cfg row n warm ls wk rn))"
    if "may (tr_id row) EXECUTING" "\<And>f. may_write (tr_id row) f" for row n ls
  proof -
    have b: "preserves I (begin_attempt cfg row n warm ls wk rn)"
      unfolding begin_attempt_def startAttempt_def by (intro guards) (simp_all add: inputs that)
    have "I (snd (transaction_or_500 (begin_attempt cfg row n warm ls wk rn) w))" if "I w" for w
      using preservesD [OF b that] that
      by (auto simp: transaction_or_500_def runInTransaction_def split: prod.split sum.split)
    then show ?thesis by (simp add: preserves_def)
  qed
  show ?thesis
    unfolding startRunAttempt_def attemptFailed_def Let_def
    by (rule latest_first [OF assms(1)], intro transaction failed_tail required_then guards)
      (use assms(2) in simp_all)
qed

subsection \<open>The other systems\<close>

lemma then_quiet: "I (snd (m w)) \<Longrightarrow> (\<And>x. quiet (g x)) \<Longrightarrow> I (snd (andThen m g w))"
  by (auto simp: andThen_def split: prod.split sum.split intro: preservesD [OF quiet_guard])

lemma block_guard:
  assumes "I w" "\<And>s. latest i w = Some s \<Longrightarrow> blocked_status (sn_executionStatus s) \<noteq> sn_executionStatus s \<Longrightarrow>
      may i (blocked_status (sn_executionStatus s))"
  shows "I (snd (blockRunWithWaitpoint cfg i ids a w))"
  unfolding blockRunWithWaitpoint_def Let_def
  by (rule latest_first [OF assms(1)], simp only: split, intro guards) (use assms(2) in \<open>simp_all add: inputs\<close>)

lemma continue_guard:
  assumes "I w"
    and "\<And>s. latest i w = Some s \<Longrightarrow> sn_executionStatus s = EXECUTING_WITH_WAITPOINTS \<Longrightarrow> may i EXECUTING"
    and "\<And>s. latest i w = Some s \<Longrightarrow> sn_executionStatus s = SUSPENDED \<Longrightarrow> may i QUEUED"
  shows "I (snd (continueRunIfUnblocked cfg i w))"
proof -
  have by_status: "preserves I (continue_by_status cfg t env s bs)"
    if "latest i w = Some s" "tr_id t = i" for t env s bs
  proof (cases "sn_executionStatus s")
    case EXECUTING_WITH_WAITPOINTS
    with that assms(2) show ?thesis
      by (simp only: continue_by_status_def TaskRunExecutionStatus.case) (intro guards; simp add: inputs)
  next
    case SUSPENDED
    with that assms(3) show ?thesis
      by (simp only: continue_by_status_def TaskRunExecutionStatus.case) (intro guards; simp add: inputs)
  qed (simp_all add: continue_by_status_def preserves_ret)
  have "I (snd (andThen (required found e) (\<lambda>t. andThen (required (renv t) (e' t)) (\<lambda>env.
      andThen (getLatestExecutionSnapshot None i) (\<lambda>(s, _). continue_by_status cfg t env s bs))) w))"
    if "found = run_of i w" for found e renv e' bs
    using assms(1) that run_of_id [of i w]
    by (auto simp: required_def throw_def split: option.split intro!: latest_first by_status)
  moreover have "preserves I (throw er)" "preserves I (ret x)" for er :: engine_error and x :: continuation
    by (simp_all add: preserves_throw preserves_ret)
  ultimately show ?thesis
    using assms(1) preservesD [of I]
    by (simp add: continueRunIfUnblocked_def required_def throw_def ret_def andThen_Inr [OF findRun_run] split: option.split)
qed

lemma checkpoint_guard:
  assumes "I w" "\<And>f. (\<exists>s. latest i w = Some s \<and> isCheckpointable (sn_executionStatus s)) \<Longrightarrow> may_write i f"
    and "\<And>s. latest i w = Some s \<Longrightarrow> sn_executionStatus s = QUEUED_EXECUTING \<Longrightarrow> may i QUEUED"
    and "\<And>s. latest i w = Some s \<Longrightarrow> isCheckpointable (sn_executionStatus s) \<Longrightarrow>
      sn_executionStatus s \<noteq> QUEUED_EXECUTING \<Longrightarrow> may i SUSPENDED"
  shows "I (snd (createCheckpoint cfg i snapshotId c wk rn w))"
  unfolding createCheckpoint_def suspended_snapshot_def suspendForCheckpoint_def Let_def
  by (rule latest_first [OF assms(1)], simp only: fst_conv snd_conv, intro guards)
    (use assms(2-4) in \<open>simp_all add: inputs\<close>)

lemma continueExecution_guard:
  assumes "I w" "\<And>s. latest i w = Some s \<Longrightarrow> sn_executionStatus s = PENDING_EXECUTING \<Longrightarrow>
      may i EXECUTING \<and> (\<forall>f. may_write i f)"
  shows "I (snd (continueRunExecution cfg None i snapshotId wk rn w))"
  unfolding continueRunExecution_def resumeFromCheckpoint_def Let_def
  by (rule latest_first [OF assms(1)], simp only: fst_conv snd_conv, intro guards)
    (use assms(2) in \<open>simp_all add: inputs isPendingExecuting_def\<close>)

lemma expire_guard:
  assumes "I w" "\<And>s t. latest i w = Some s \<Longrightarrow> \<not> isExecuting (sn_executionStatus s) \<Longrightarrow> run_of i w = Some t \<Longrightarrow>
      can_expire t \<Longrightarrow> may i FINISHED \<and> (\<forall>f. may_write i f)"
  shows "I (snd (expireRun cfg i w))"
proof -
  have expire: "preserves I (store_expireRun i er now (nested_snapshot i FINISHED d EXPIRED None s None None))"
    if "may i FINISHED" "\<And>f. may_write i f" for er now d s
    unfolding store_expireRun_def by (intro guards that) (simp_all add: inputs that)
  show ?thesis
    unfolding expireRun_def
  proof (rule latest_at [OF assms(1)], goal_cases)
    case (1 s cs)
    show ?case
    proof (cases "run_of i w")
      case None
      with assms(1) show ?thesis by (simp add: andThen_Inr [OF findRun_run] ret_def)
    next
      case (Some t)
      show ?thesis
      proof (cases "isExecuting (sn_executionStatus s) \<or> \<not> can_expire t")
        case True
        with Some assms(1) show ?thesis
          by (auto simp: andThen_Inr [OF findRun_run] ret_def can_expire_def)
      next
        case False
        with assms(2) [OF 1(1) _ Some] have may: "may i FINISHED" "\<And>f. may_write i f" by auto
        have "I (snd (andThen the_time (\<lambda>now. andThen (store_expireRun i (expired_error t) now
            (nested_snapshot i FINISHED ''Run was expired because the TTL was reached'' EXPIRED None s None None))
            (\<lambda>u. andDo (ack_message cfg (sn_organizationId s) i True)
              (andDo (complete_associated i (Some (error_output (expired_error t)))) (emit (runExpired i))))) w))"
          by (rule preservesD [of I _ w], intro expire may guards) (rule assms(1))
        with False Some show ?thesis
          by (simp add: andThen_Inr [OF findRun_run] can_expire_def)
      qed
    qed
  qed
qed

lemma reschedule_guard:
  assumes "I w" "\<And>s. latest i w = Some s \<Longrightarrow> sn_executionStatus s \<in> {DELAYED, RUN_CREATED} \<Longrightarrow>
      may i DELAYED \<and> may i RUN_CREATED \<and> (\<forall>f. may_write i f)"
  shows "I (snd (rescheduleDelayedRun i d w))"
proof -
  have reschedule: "preserves I (store_rescheduleRun i d (rescheduled_snapshot i s))"
    if "may i DELAYED" "may i RUN_CREATED" "\<And>f. may_write i f" for s
    unfolding store_rescheduleRun_def by (intro guards that) (simp_all add: rescheduled_snapshot_def inputs that)
  show ?thesis
    unfolding rescheduleDelayedRun_def
    by (rule latest_first [OF assms(1)], simp only: split,
        intro require_do preserves_andThen [OF reschedule] guards) (use assms(2) in auto)
qed

lemma enqueueDelayed_guard:
  assumes "I w" "\<And>s. latest i w = Some s \<Longrightarrow> sn_executionStatus s \<in> {DELAYED, RUN_CREATED} \<Longrightarrow>
      may i QUEUED \<and> (\<forall>f. may_write i f)"
  shows "I (snd (enqueueDelayedRun cfg i w))"
  unfolding enqueueDelayedRun_def store_enqueueDelayedRun_def
  by (rule latest_first [OF assms(1)], simp only: split, intro required_then guards)
    (use assms(2) in \<open>auto simp: inputs\<close>)

lemma stalled_guard:
  assumes "I w"
    and "\<And>s. latest i w = Some s \<Longrightarrow> isExecuting (sn_executionStatus s) \<or> sn_executionStatus s = PENDING_EXECUTING \<Longrightarrow>
      may i FINISHED \<and> may i QUEUED \<and> may i EXECUTING \<and> (\<forall>f. may_write i f)"
    and "\<And>s. latest i w = Some s \<Longrightarrow> sn_executionStatus s = SUSPENDED \<Longrightarrow> may i QUEUED"
    and "\<And>s. latest i w = Some s \<Longrightarrow> sn_executionStatus s = PENDING_CANCEL \<Longrightarrow> may i FINISHED \<and> (\<forall>f. may_write i f)"
  shows "I (snd (handleStalledSnapshot cfg i snapshotId n w))"
  unfolding handleStalledSnapshot_def
proof (rule latest_at [OF assms(1)], goal_cases)
  case (1 s cs)
  have quiet_case: "I (snd (m w))" if "quiet m" for m :: "unit engine"
    by (rule preservesD [OF quiet_guard [OF that] assms(1)])
  have failed: "I (snd (andThen the_time (\<lambda>now. andDo (attemptFailed cfg None i (sn_id s) (c now) True None None) (ret ())) w))"
    if "isExecuting (sn_executionStatus s)" for c
    by (rule preservesD [of I _ w], unfold attemptFailed_def, intro failed_tail guards)
      (use assms(1) assms(2) [OF 1(1)] that in auto)
  show ?case
  proof (cases "sn_id s = snapshotId")
    case False
    then show ?thesis using assms(1) by (simp add: ret_def)
  next
    case True
    show ?thesis
    proof (cases "sn_executionStatus s")
      case PENDING_EXECUTING
      have "I (snd (andThen (findRun i) (\<lambda>found. andThen (required found er)
          (\<lambda>_. andDo (tryNackAndRequeue cfg i (stalled_nack s cs)) (ret ()))) w))" for er
        by (rule preservesD [of I _ w], unfold tryNackAndRequeue_def, intro required_then nack_guard systemFailure_tail guards)
          (use assms(1) assms(2) [OF 1(1)] PENDING_EXECUTING in auto)
      with True PENDING_EXECUTING show ?thesis by simp
    next
      case SUSPENDED
      have "I (snd (continueRunIfUnblocked cfg i w))"
        by (rule continue_guard [OF assms(1)]) (use 1(1) SUSPENDED assms(3) in auto)
      then have "I (snd (stalled_suspended cfg i n w))"
        unfolding stalled_suspended_def Let_def
        by (rule then_quiet) (auto split: continuation.split intro!: quiet_intros)
      with True SUSPENDED show ?thesis by simp
    next
      case PENDING_CANCEL
      have "I (snd (andDo (cancelRun cfg i finalize_cancel) (ret ()) w))"
        by (rule preservesD [of I _ w], intro cancel_tail guards)
          (use assms(1) assms(4) [OF 1(1)] PENDING_CANCEL in \<open>auto simp: finalize_cancel_def\<close>)
      with True PENDING_CANCEL 1(2) show ?thesis by simp
    next
      case EXECUTING
      with True failed show ?thesis by (simp add: isExecuting_def)
    next
      case EXECUTING_WITH_WAITPOINTS
      with True failed show ?thesis by (simp add: isExecuting_def)
    qed (use True assms(1) in \<open>simp_all add: throw_def\<close>)
  qed
qed

subsection \<open>Dequeueing\<close>

lemma catching_guard:
  "I (snd (m w)) \<Longrightarrow> (\<And>e w'. m w = (Inl e, w') \<Longrightarrow> I (snd (h w'))) \<Longrightarrow> I (snd (catching m h w))"
  by (cases "m w") (auto simp: catching_def split: sum.split)

lemma pendingVersion_guard:
  "may i RUN_CREATED \<Longrightarrow> (\<And>f. may_write i f) \<Longrightarrow> preserves I (pendingVersion cfg orgId i reason code)"
  unfolding pendingVersion_def parkPendingVersion_def by (intro guards) simp_all

lemma lock_guard:
  "may (tr_id row) PENDING_EXECUTING \<Longrightarrow> (\<And>f. may_write (tr_id row) f) \<Longrightarrow>
   preserves I (lock_to_worker cfg wk rn ls row v task queue)"
  unfolding lock_to_worker_def lockRunToWorker_def Let_def
  by (intro guards) (simp_all add: locked_snapshot_def Let_def inputs)

lemma for_worker_guard:
  assumes "may i RUN_CREATED" "may i PENDING_EXECUTING" "\<And>f. may_write i f" "\<And>t. found = Some t \<Longrightarrow> tr_id t = i"
  shows "preserves I (dequeue_for_worker cfg wk rn orgId i ls (getRunWithBackgroundWorkerTasks cfg found bw))"
proof (cases "getRunWithBackgroundWorkerTasks cfg found bw")
  case (SUCCESS t env v task queue)
  then have "tr_id t = i"
    using assms(4)
    by (auto simp: getRunWithBackgroundWorkerTasks_def worker_task_of_def unknown_task_def
        split: option.splits if_splits)
  with SUCCESS assms(1-3) show ?thesis
    by (simp only: dequeue_for_worker_def worker_result.case) (intro pendingVersion_guard lock_guard guards; simp)
qed (simp only: dequeue_for_worker_def worker_result.case, intro pendingVersion_guard assms(1,3) guards)+

lemma dequeue_failed_guard:
  "may i FINISHED \<Longrightarrow> may i QUEUED \<Longrightarrow> may i EXECUTING \<Longrightarrow> (\<And>f. may_write i f) \<Longrightarrow>
   preserves I (dequeue_failed cfg orgId i)"
  unfolding dequeue_failed_def tryNackAndRequeue_def Let_def
  by (intro nack_guard systemFailure_tail guards)

text \<open>A run that has ended, or is about to execute, keeps what it has, and nothing is thrown.\<close>

lemma dequeue_ended:
  assumes "I w" "latest i w = Some s" "sn_executionStatus s \<in> {FINISHED, PENDING_EXECUTING}"
  shows "\<exists>w'. dequeue_locked cfg bw wk rn orgId i w = (Inr None, w') \<and> I w'"
proof -
  obtain cs where cs: "enhanceExecutionSnapshot w s = (s, cs)"
    using fst_enhance [of w s] by (metis prod.collapse)
  have latest: "andThen (getLatestExecutionSnapshot None i) g w = g (s, cs) w" for g :: "enhanced_snapshot \<Rightarrow> 'b engine"
    using assms(2) cs by (simp add: andThen_def getLatest_simps latest_def)
  show ?thesis
  proof (cases "sn_executionStatus s = PENDING_EXECUTING")
    case True
    have "\<exists>w'. andDo (ack_message cfg orgId i False) (ret (None :: dequeued option)) w = (Inr None, w')"
      by (simp add: andDo_def andThen_def ack_message_def on_queue_def ret_def split: prod.split)
    moreover have "I (snd (andDo (ack_message cfg orgId i False) (ret (None :: dequeued option)) w))"
      by (rule preservesD [OF quiet_guard assms(1)]) (intro quiet_intros)
    ultimately show ?thesis
      using True by (auto simp: dequeue_locked_def latest Let_def isDequeueableExecutionStatus_def)
  next
    case False
    let ?x = "failed_dequeue (s, cs) wk rn"
    have error: "truthy (si_error ?x) \<noteq> None" by (simp add: failed_dequeue_def Let_def truthy_def)
    obtain f e where c: "createExecutionSnapshot cfg ?x w = (Inr (the_new_snapshot w ?x),
        w\<lparr>en_fresh := en_fresh w + 1, en_snapshots := the_new_snapshot w ?x # en_snapshots w, en_jobs := f, en_events := e\<rparr>)"
      (is "_ = (_, ?w)")
      using createExecutionSnapshot_effect [of cfg ?x w] by blast
    have "preserves I (createExecutionSnapshot cfg ?x)" by (rule snapshot_valid) (use error in simp)
    from preservesD [OF this assms(1)] have "I ?w" by (simp add: c)
    moreover have "latest i ?w = Some s" using error assms(2) unfolding latest_after_create by auto
    then obtain cs' where "getLatestExecutionSnapshot None i ?w = (Inr (s, cs'), ?w)" using latest_read by blast
    then obtain y where "systemFailure cfg i (invalid_state s) ?w = (Inr y, ?w)"
      using False assms(3) by (simp add: systemFailure_def system_failure_by_def andThen_Inr ret_def)
    ultimately show ?thesis
      using False assms(3) c
      by (auto simp: dequeue_locked_def latest Let_def isDequeueableExecutionStatus_def andDo_def andThen_Inr ret_def)
  qed
qed

lemma dequeue_guard:
  assumes "I w"
    and "\<And>i. latest i w = None \<Longrightarrow> may i FINISHED \<and> may i QUEUED \<and> may i EXECUTING \<and> (\<forall>f. may_write i f)"
    and "\<And>i s. latest i w = Some s \<Longrightarrow> sn_executionStatus s \<noteq> FINISHED \<Longrightarrow> sn_executionStatus s \<noteq> PENDING_EXECUTING \<Longrightarrow>
      may i FINISHED \<and> may i QUEUED \<and> may i EXECUTING \<and> (\<forall>f. may_write i f)"
    and "\<And>i s. latest i w = Some s \<Longrightarrow> sn_executionStatus s = QUEUED \<Longrightarrow> may i PENDING_EXECUTING \<and> may i RUN_CREATED"
  shows "I (snd (dequeueFromWorkerQueue cfg wq bw wk rn w))"
proof -
  have main: "I (snd (catching (dequeue_locked cfg bw wk rn orgId i) (dequeue_failed cfg orgId i) v))"
    if v: "I v" "\<And>j. latest j v = latest j w" for orgId i v
  proof (cases "latest i v")
    case None
    then have "dequeue_locked cfg bw wk rn orgId i v = (Inl (no_snapshot None i), v)"
      by (simp add: dequeue_locked_def andThen_def getLatest_simps latest_def)
    with v(1) assms(2) [of i] None v(2) [of i] show ?thesis
      by (auto simp: catching_def intro!: preservesD [OF dequeue_failed_guard])
  next
    case (Some s)
    show ?thesis
    proof (cases "sn_executionStatus s \<in> {FINISHED, PENDING_EXECUTING}")
      case True
      then obtain w' where "dequeue_locked cfg bw wk rn orgId i v = (Inr None, w')" "I w'"
        using dequeue_ended [OF v(1) Some] by blast
      then show ?thesis by (simp add: catching_def)
    next
      case False
      then have may: "may i FINISHED" "may i QUEUED" "may i EXECUTING" "\<And>f. may_write i f"
        using assms(3) [of i s] Some v(2) [of i] by auto
      have queued: "may i PENDING_EXECUTING" "may i RUN_CREATED" if "sn_executionStatus s = QUEUED"
        using that assms(4) [of i s] Some v(2) [of i] by auto
      have worker: "preserves I (andThen (findRun i) (\<lambda>found. dequeue_for_worker cfg wk rn orgId i ls
          (getRunWithBackgroundWorkerTasks cfg found bw)))" if "sn_executionStatus s = QUEUED" for ls
        by (intro found_then for_worker_guard queued that may) simp_all
      have "I (snd (dequeue_locked cfg bw wk rn orgId i v))"
        unfolding dequeue_locked_def Let_def
      proof (rule latest_first [OF v(1)], goal_cases)
        case (1 s' cs)
        with Some have s': "s' = s" by simp
        show ?case
          unfolding s' fst_conv snd_conv
          by (intro worker snapshot_valid systemFailure_tail guards)
            (use may False in \<open>simp_all add: inputs failed_dequeue_def Let_def truthy_def isDequeueableExecutionStatus_def 1\<close>)
      qed
      moreover have "preserves I (dequeue_failed cfg orgId i)"
        by (rule dequeue_failed_guard) (rule may)+
      ultimately show ?thesis
        by (intro catching_guard) (auto dest: preservesD)
    qed
  qed
  have read: "\<exists>x r. on_queue (dequeueMessageFromWorkerQueue wq) w = (Inr x, w\<lparr>en_redis := r\<rparr>)"
    by (cases "dequeueMessageFromWorkerQueue wq (en_redis w)") (auto simp: on_queue_def)
  then obtain x r where r: "on_queue (dequeueMessageFromWorkerQueue wq) w = (Inr x, w\<lparr>en_redis := r\<rparr>)" by blast
  have "I (w\<lparr>en_redis := r\<rparr>)" by (rule core_guard [OF _ assms(1)]) simp
  moreover have "latest j (w\<lparr>en_redis := r\<rparr>) = latest j w" for j by (simp add: latest_def latest_in_def)
  ultimately show ?thesis
    using r by (simp add: dequeueFromWorkerQueue_def andThen_Inr ret_def main split: option.split)
qed

end

end
