(* ===== verification/NewRuns.thy ===== *)
theory NewRuns
  imports Lifecycle
begin

text \<open>
  The contract of Lifecycle for the operations that create runs, release runs that waited for a
  version, expire parked runs, and push debounced runs back.
\<close>

section \<open>Effects\<close>

lemma createRun_cases:
  obtains (conflict) target where "createRun t k x wp w = (Inl (UniqueConstraint target), w)"
  | (fresh) wps r where "run_of (tr_id t) w = None"
      "createRun t k x wp w = (Inr r, w\<lparr>en_runs := t # en_runs w,
         en_snapshots := snapshot_row k (en_now w) x # en_snapshots w, en_waitpoints := wps\<rparr>)"
proof (cases rule: insertRun_cases [of t w])
  case (conflict target)
  then show ?thesis by (intro that(1)) (simp add: createRun_def andDo_def andThen_Inl)
next
  case fresh
  let ?w = "w\<lparr>en_runs := t # en_runs w, en_snapshots := snapshot_row k (en_now w) x # en_snapshots w\<rparr>"
  have "\<exists>wps r. createRun t k x wp w = (Inr r, ?w\<lparr>en_waitpoints := wps\<rparr>)"
  proof (cases wp)
    case None
    with fresh(2) have "createRun t k x wp w = (Inr None, ?w\<lparr>en_waitpoints := en_waitpoints w\<rparr>)"
      by (simp add: createRun_def andDo_def andThen_def effects)
    then show ?thesis by blast
  next
    case (Some y)
    with fresh(2) show ?thesis by (auto simp: createRun_def andDo_def andThen_def effects)
  qed
  with fresh(1) show ?thesis by (elim exE) (rule that(2), simp_all)
qed

lemma after_quiet:
  assumes "quiet m" "\<And>w'. core w' = core w \<Longrightarrow> P w'" "\<And>x w'. core w' = core w \<Longrightarrow> P (snd (g x w'))"
  shows "P (snd (andThen m g w))"
  using quiet_core [OF assms(1), of w] assms(2,3)
  by (cases "m w") (auto simp: andThen_def split: sum.split)

context run_guard
begin

section \<open>Triggers\<close>

lemma created_guard:
  assumes "I w" "run_of (tr_id t) w = None \<Longrightarrow> may_insert (tr_id t)"
    and "run_of (tr_id t) w = None \<Longrightarrow> may (tr_id t) (si_executionStatus x)" "si_runId x = tr_id t"
  shows "I (snd (createRun t k x wp w)) \<and> (\<forall>j. j \<noteq> tr_id t \<longrightarrow> latest j (snd (createRun t k x wp w)) = latest j w)"
proof (cases rule: createRun_cases [of t k x wp w])
  case (conflict target)
  with assms(1) show ?thesis by simp
next
  case (fresh wps r)
  let ?s = "snapshot_row k (en_now w) x"
  have "I (w\<lparr>en_runs := t # en_runs w\<rparr>)" by (rule insert_guard) (use assms fresh in simp_all)
  from snapshot_guard [OF _ this, of ?s] have "I (w\<lparr>en_runs := t # en_runs w, en_snapshots := ?s # en_snapshots w\<rparr>)"
    using assms fresh by simp
  then have "I (w\<lparr>en_runs := t # en_runs w, en_snapshots := ?s # en_snapshots w, en_waitpoints := wps\<rparr>)"
    by (rule core_guard [rotated]) (simp add: core_def)
  with fresh(2) assms(4) show ?thesis by (auto simp: latest_def latest_in_def)
qed

text \<open>A new run leaves the other runs' snapshots alone.\<close>

lemma triggered_guard:
  assumes "I w" "run_of (tg_id tg) w = None \<Longrightarrow> may_insert (tg_id tg)"
    and "run_of (tg_id tg) w = None \<Longrightarrow> may (tg_id tg) (initial_execution_status tg)"
  shows "I (snd (create_triggered cfg tg w))
    \<and> (\<forall>j. j \<noteq> tg_id tg \<longrightarrow> latest j (snd (create_triggered cfg tg w)) = latest j w)"
proof -
  define P where "P w' = (I w' \<and> (\<forall>j. j \<noteq> tg_id tg \<longrightarrow> latest j w' = latest j w))" for w'
  have P: "P w'" if "core w' = core w" for w'
    using that assms(1) core_guard core_eqD(2) [OF that] unfolding P_def by blast
  have row: "tr_id (triggered_row cfg tg now) = tg_id tg" for now
    by (simp add: triggered_row_def new_row_def)
  have explain: "snd (explaining_duplicates tg m v) = snd (m v)" for m :: "waitpoint option engine" and v
    by (auto simp: explaining_duplicates_def split: prod.split sum.split engine_error.split)
  have then_ret: "snd (andThen m (\<lambda>x. ret (f x)) v) = snd (m v)" for m :: "waitpoint option engine" and f :: "waitpoint option \<Rightarrow> 'b" and v
    by (auto simp: andThen_def ret_def split: prod.split sum.split)
  have created: "P (snd (createRun (triggered_row cfg tg now) k
      (first_snapshot tg (initial_execution_status tg) d st) wp v))" if v: "core v = core w" for now k d st wp v
    using created_guard [of v "triggered_row cfg tg now"
        "first_snapshot tg (initial_execution_status tg) d st" k wp] P [OF v] assms(2,3) core_eqD [OF v]
    by (simp add: P_def row first_snapshot_def)
  have tail: "P (snd (andThen (explaining_duplicates tg (createRun (triggered_row cfg tg now) k
      (first_snapshot tg (initial_execution_status tg) d st) wp)) (\<lambda>x. ret (f x)) v))"
    if "core v = core w" for now k d st wp v and f :: "waitpoint option \<Rightarrow> run \<times> string \<times> waitpoint option"
    unfolding then_ret explain by (rule created [OF that])
  have "P (snd (create_triggered cfg tg w))"
    unfolding create_triggered_def by (intro after_quiet [where P = P] quiet_intros P tail) simp_all
  then show ?thesis by (simp add: P_def)
qed

lemma continue_with:
  "I (snd (m w)) \<Longrightarrow> (\<And>x w'. m w = (Inr x, w') \<Longrightarrow> I (snd (g x w'))) \<Longrightarrow> I (snd (andThen m g w))"
  by (cases "m w") (auto simp: andThen_def split: sum.split)

lemma quiet_with:
  assumes "quiet m" "I w" "\<And>x w'. core w' = core w \<Longrightarrow> I (snd (g x w'))"
  shows "I (snd (andThen m g w))"
  by (rule after_quiet [OF assms(1)]) (use assms core_guard in blast)+

lemma parent_guard:
  assumes "I w" "\<And>p s. waiting_parent tg = Some p \<Longrightarrow> latest p w = Some s \<Longrightarrow>
      blocked_status (sn_executionStatus s) \<noteq> sn_executionStatus s \<Longrightarrow> may p (blocked_status (sn_executionStatus s))"
  shows "I (snd (block_parent cfg tg a w))"
proof -
  have unit: "I (snd (ret () w))" using assms(1) by (simp add: ret_def)
  have lockless: "I (snd (blockRunWithWaitpointLockless p ids b w))" for p ids b
    by (rule preservesD [OF quiet_guard assms(1)]) (rule quiet_lockless)
  have locked: "I (snd (andThen (blockRunWithWaitpoint cfg p ids b) (\<lambda>_. ret ()) w))"
    if "waiting_parent tg = Some p" for p ids b
    by (rule then_quiet, rule block_guard [OF assms(1)]) (use assms(2) [OF that] in \<open>auto intro: quiet_effects\<close>)
  show ?thesis
    unfolding block_parent_def prod.case using unit lockless locked by (auto split: option.split)
qed

lemma trigger_guard:
  assumes "I w" "run_of (tg_id tg) w = None \<Longrightarrow> may_insert (tg_id tg)"
    and "run_of (tg_id tg) w = None \<Longrightarrow> may (tg_id tg) (initial_execution_status tg)"
    and "waiting_parent tg \<noteq> Some (tg_id tg)"
    and "\<And>p s. waiting_parent tg = Some p \<Longrightarrow> latest p w = Some s \<Longrightarrow>
      blocked_status (sn_executionStatus s) \<noteq> sn_executionStatus s \<Longrightarrow> may p (blocked_status (sn_executionStatus s))"
  shows "I (snd (trigger cfg pv tg db w))"
proof -
  have new: "I (snd (trigger_new cfg pv tg c w))" for c
    unfolding trigger_new_def
  proof (rule continue_with)
    note g = triggered_guard [of w tg cfg, OF assms(1,2,3)]
    then show "I (snd (create_triggered cfg tg w))" by simp
    fix x w'
    assume x: "create_triggered cfg tg w = (Inr x, w')"
    obtain t k a where t: "x = (t, k, a)" by (cases x) auto
    have "I (snd (block_parent cfg tg a w'))"
      by (rule parent_guard) (use g x assms(4,5) in auto)
    then have "I (snd (andDo (block_parent cfg tg a)
        (andDo (place_run cfg pv tg t k c) (andDo (emit (runCreated (tr_id t))) (ret t))) w'))"
      unfolding andDo_def by (rule then_quiet) (intro quiet_intros)
    then show "I (snd ((case x of (t, initialSnapshotId, associated) \<Rightarrow>
        andDo (block_parent cfg tg associated) (andDo (place_run cfg pv tg t initialSnapshotId c)
          (andDo (emit (runCreated (tr_id t))) (ret t)))) w'))"
      by (simp add: t)
  qed
  have "I (snd (trigger_debounced cfg tg t wp w))" for t wp
  proof (cases "waiting_parent tg")
    case None
    with assms(1) show ?thesis by (simp add: trigger_debounced_def ret_def)
  next
    case (Some p)
    have found: "quiet (case wp of None \<Rightarrow> getOrCreateRunWaitpoint (tr_id t) pr e | Some x \<Rightarrow> ret x)" for pr e
      by (intro quiet_intros)
    have blocked: "I (snd (andThen (blockRunWithWaitpoint cfg p ids b) (\<lambda>_. ret t) v))" if "core v = core w" for ids b v
      by (rule then_quiet, rule block_guard)
        (use assms(1) core_guard [OF that] assms(5) [OF Some] core_eqD(2) [OF that] in \<open>auto intro: quiet_effects\<close>)
    show ?thesis
      unfolding trigger_debounced_def Some option.case by (rule quiet_with [OF found assms(1)], rule blocked)
  qed
  with new show ?thesis
    by (simp add: trigger_def split: option.split debounce_result.split)
qed

lemma createCancelled_guard:
  assumes "I w" "run_of (tg_id tg) w = None \<Longrightarrow> may_insert (tg_id tg) \<and> may (tg_id tg) FINISHED"
  shows "I (snd (createCancelledRun tg now reason ev w))"
proof -
  let ?x = "(first_snapshot tg FINISHED ''Run cancelled before materialisation'' CANCELED)
      \<lparr>si_workerId := None, si_runnerId := None\<rparr>"
  let ?t = "cancelled_row tg (en_now w) now reason"
  have id: "tr_id ?t = tg_id tg" by (simp add: cancelled_row_def new_row_def)
  show ?thesis
  proof (cases rule: insertRun_cases [of ?t w])
    case (conflict target)
    with assms(1) show ?thesis
      by (simp add: createCancelledRun_def store_createCancelledRun_def andDo_def andThen_def the_time_def reading_def
          split: option.split)
  next
    case fresh
    have "I (w\<lparr>en_runs := ?t # en_runs w\<rparr>)" by (rule insert_guard) (use assms fresh id in simp_all)
    moreover have "preserves I (store_createExecutionSnapshot ?x)"
      by (rule store_snapshot_tail) (use assms(2) fresh id in \<open>simp add: first_snapshot_def\<close>)
    ultimately have "I (snd (store_createExecutionSnapshot ?x (w\<lparr>en_runs := ?t # en_runs w\<rparr>)))" by (metis preservesD)
    moreover have "preserves I (andDo (whenever ev (emit (runCancelled i))) (ret u))" for i and u :: run
      by (rule quiet_guard) (intro quiet_intros)
    ultimately show ?thesis
      using fresh(2) unfolding store_createExecutionSnapshot_eq
      by (simp add: createCancelledRun_def store_createCancelledRun_def andDo_def andThen_def the_time_def reading_def
          store_createExecutionSnapshot_eq ret_def preserves_def)
  qed
qed

lemma createFailed_guard:
  assumes "I w" "run_of (tg_id tg) w = None \<Longrightarrow> may_insert (tg_id tg)"
    and "\<And>p s. waiting_parent tg = Some p \<Longrightarrow> latest p w = Some s \<Longrightarrow>
      blocked_status (sn_executionStatus s) \<noteq> sn_executionStatus s \<Longrightarrow> may p (blocked_status (sn_executionStatus s))"
  shows "I (snd (createFailedTaskRun cfg tg er ev w))"
proof -
  have row: "tr_id (failed_row tg now er) = tg_id tg" for now by (simp add: failed_row_def new_row_def)
  have block: "I (snd (blockRunAndCompleteWaitpoint cfg p k out b v))"
    if "waiting_parent tg = Some p" "I v" "\<And>j. latest j v = latest j w" for p k out b v
    unfolding blockRunAndCompleteWaitpoint_def andDo_def
    by (rule then_quiet, rule block_guard [OF that(2)])
      (use assms(3) [OF that(1)] that(3) in \<open>auto intro!: quiet_intros\<close>)
  have created: "I (snd (andThen (createFailedRun (failed_row tg now er) wp) (\<lambda>associated.
      andDo (case (waiting_parent tg, associated) of
          (Some parent, Some x) \<Rightarrow> blockRunAndCompleteWaitpoint cfg parent (wp_id x) out b
        | _ \<Rightarrow> ret ())
      (andDo (whenever ev (emit e)) (ret u))) v))" if v: "core v = core w" for now wp out b e u v
  proof (cases rule: insertRun_cases [of "failed_row tg now er" v])
    case (conflict target)
    with core_guard [OF v assms(1)] show ?thesis
      by (simp add: createFailedRun_def andDo_def andThen_def)
  next
    case fresh
    let ?v = "v\<lparr>en_runs := failed_row tg now er # en_runs v\<rparr>"
    have I: "I ?v"
      by (rule insert_guard) (use assms(1,2) core_guard [OF v] fresh row core_eqD(1) [OF v] in simp_all)
    have inserted: "\<exists>a v'. createFailedRun (failed_row tg now er) wp v = (Inr a, v') \<and> core v' = core ?v"
      using fresh(2) by (cases wp) (simp_all add: createFailedRun_def andDo_def andThen_def effects core_def)
    then obtain a v' where a: "createFailedRun (failed_row tg now er) wp v = (Inr a, v')" "core v' = core ?v" by blast
    have v': "I v'" "\<And>j. latest j v' = latest j w"
      using core_guard [OF a(2) I] core_eqD(2) [OF a(2)] core_eqD(2) [OF v]
      by (simp_all add: latest_def latest_in_def)
    have "I (snd ((case (waiting_parent tg, a) of
        (Some parent, Some x) \<Rightarrow> blockRunAndCompleteWaitpoint cfg parent (wp_id x) out b | _ \<Rightarrow> ret ()) v'))"
      using v' by (auto simp: ret_def block split: option.split)
    then have "I (snd (andDo (case (waiting_parent tg, a) of
        (Some parent, Some x) \<Rightarrow> blockRunAndCompleteWaitpoint cfg parent (wp_id x) out b | _ \<Rightarrow> ret ())
        (andDo (whenever ev (emit e)) (ret u)) v'))"
      unfolding andDo_def by (rule then_quiet) (intro quiet_intros)
    with a(1) show ?thesis by (simp add: andThen_def)
  qed
  show ?thesis
    unfolding createFailedTaskRun_def
    by (rule quiet_with [OF _ assms(1)], rule quiet_intros, rule quiet_with, rule quiet_intros,
        rule core_guard [OF _ assms(1)], assumption, rule created, simp)
qed

section \<open>Runs that wait for a version\<close>

lemma promotePending_guard:
  assumes "\<And>f. may_write i f"
  shows "preserves I (promotePendingVersionRuns i st pin)"
proof -
  let ?f = "\<lambda>t. if tr_status t = PENDING_VERSION then t\<lparr>tr_status := st,
      tr_lockedToVersionId := (case pin of None \<Rightarrow> tr_lockedToVersionId t | Some v \<Rightarrow> Some v)\<rparr> else t"
  have "I (w\<lparr>en_runs := map (\<lambda>t. if tr_id t = i then ?f t else t) (en_runs w)\<rparr>)" if "I w" for w
    by (rule row_guard [OF assms _ that]) simp
  then show ?thesis
    unfolding preserves_def promotePendingVersionRuns_def Let_def
    by (simp add: if_if_eq_conj)
qed

lemma transaction_guard: "preserves I m \<Longrightarrow> preserves I (runInTransaction m)"
  unfolding preserves_def runInTransaction_def by (auto split: prod.split sum.split)

lemma promoteParked_guard:
  assumes "may (tr_id t) QUEUED" "may (tr_id t) DELAYED" "\<And>f. may_write (tr_id t) f"
  shows "preserves I (promoteParkedRun cfg env t pin)"
  unfolding promoteParkedRun_def promote_run_def Let_def
  by (intro transaction_guard promotePending_guard required_then guards)
    (simp_all add: assms delayed_input_def no_args_def or_default_def)

lemma promote_all_guard:
  assumes "\<And>t. t \<in> set ts \<Longrightarrow> may (tr_id t) QUEUED \<and> may (tr_id t) DELAYED \<and> (\<forall>f. may_write (tr_id t) f)"
  shows "preserves I (promote_all cfg env x pinned ts n)"
  using assms by (induction ts arbitrary: n) (auto intro!: promoteParked_guard preserves_andThen simp: preserves_ret)

lemma version_runs_guard:
  assumes "I w" "\<And>t. t \<in> set (en_runs w) \<Longrightarrow> tr_status t = PENDING_VERSION \<Longrightarrow>
      may (tr_id t) QUEUED \<and> may (tr_id t) DELAYED \<and> (\<forall>f. may_write (tr_id t) f)"
  shows "I (snd (enqueueRunsForBackgroundWorker cfg pv b n w))"
proof -
  have quiet: "I (snd (m w))" if "quiet m" for m :: "unit engine"
    by (rule preservesD [OF quiet_guard [OF that] assms(1)])
  have all: "I (snd (andThen (promote_all cfg env x pinned (waiting_runs ids w) 0) g w))"
    if "\<And>c. quiet (g c)" for env x pinned ids and g :: "nat \<Rightarrow> unit engine"
    by (rule then_quiet [OF _ that], rule preservesD [OF promote_all_guard assms(1)])
      (use assms(2) in \<open>auto simp: waiting_runs_def\<close>)
  show ?thesis
    unfolding enqueueRunsForBackgroundWorker_def Let_def
    using assms(1) by (auto simp: ret_def split: option.split intro!: quiet quiet_intros all)
qed

lemma expireParked_guard:
  assumes "I w" "\<And>t. run_of i w = Some t \<Longrightarrow> tr_status t = PENDING_VERSION \<Longrightarrow>
      may i FINISHED \<and> may i QUEUED \<and> may i DELAYED \<and> (\<forall>f. may_write i f)"
  shows "I (snd (expireParkedExternalDeploymentRun cfg pv i x w))"
proof (cases "run_of i w")
  case None
  with assms(1) show ?thesis
    by (simp add: expireParkedExternalDeploymentRun_def andThen_Inr [OF findRun_run] ret_def)
next
  case (Some t)
  show ?thesis
  proof (cases "tr_status t = PENDING_VERSION")
    case False
    with Some assms(1) show ?thesis
      by (simp add: expireParkedExternalDeploymentRun_def andThen_Inr [OF findRun_run] ret_def split: option.split)
  next
    case True
    with assms(2) [OF Some] run_of_id [OF Some]
    have may: "may (tr_id t) FINISHED" "may (tr_id t) QUEUED" "may (tr_id t) DELAYED" "\<And>f. may_write (tr_id t) f"
      by simp_all
    have release: "preserves I (release_parked cfg pv t env x)" for env
      unfolding release_parked_def by (intro promoteParked_guard may guards)
    have expire: "preserves I (expire_parked t env orgId x)" for env orgId
      unfolding expire_parked_def expireParkedRun_def
      by (intro may guards) (simp_all add: may parked_snapshot_def delayed_input_def)
    have "preserves I (case truthy (tr_organizationId t) of None \<Rightarrow> ret () | Some orgId \<Rightarrow>
        if tr_status t \<noteq> PENDING_VERSION then ret ()
        else if readExternalDeploymentIdAnnotation t \<noteq> Some x then ret ()
        else (case eo_resolveEnv cfg (tr_runtimeEnvironmentId t) of None \<Rightarrow> ret () | Some env \<Rightarrow>
          andThen (release_parked cfg pv t env x) (\<lambda>finished. if finished then ret ()
            else andThen the_time (\<lambda>now. if still_delayed now t
              then scheduleExternalDeploymentParkDeadline pv i x (tr_ttl t) (tr_delayUntil t)
              else expire_parked t env orgId x))))"
      by (intro release expire preserves_option preserves_if preserves_andThen quiet_guard quiet_intros)
    from preservesD [OF this assms(1)] Some show ?thesis
      by (simp add: expireParkedExternalDeploymentRun_def andThen_Inr [OF findRun_run])
  qed
qed

section \<open>Debouncing\<close>

lemma debounce_guard:
  assumes "I w"
    and "\<And>i u s. ph = Inside i u \<Longrightarrow> latest i w = Some s \<Longrightarrow> sn_executionStatus s \<in> {DELAYED, RUN_CREATED} \<Longrightarrow>
      may i DELAYED \<and> may i RUN_CREATED \<and> (\<forall>f. may_write i f)"
  shows "I (snd (debounce_step ds c ph w))"
proof (cases "\<exists>i u. ph = Inside i u")
  case False
  then have "quiet (debounce_step ds c ph)"
    by (cases ph) (auto simp only: debounce_step.simps intro!: quiet_intros)
  then show ?thesis by (rule preservesD [OF quiet_guard assms(1)])
next
  case True
  then obtain i u where ph: "ph = Inside i u" by blast
  have "I (snd (handleExistingRunLocked ds d k i u w))" for d k
  proof (cases "latest i w")
    case None
    with assms(1) show ?thesis by (simp add: handleExistingRunLocked_def andThen_Inr [OF findRun_run] ret_def)
  next
    case (Some s)
    show ?thesis
    proof (cases "sn_executionStatus s \<in> {DELAYED, RUN_CREATED}")
      case False
      with Some assms(1) show ?thesis
        by (auto simp: handleExistingRunLocked_def andThen_Inr [OF findRun_run] ret_def split: option.split)
    next
      case True
      then have may: "may i DELAYED" "may i RUN_CREATED" "\<And>f. may_write i f" using assms(2) [OF ph Some] by auto
      have reschedule: "preserves I (rescheduleDelayedRun i v)" for v
        unfolding preserves_def by (auto intro: reschedule_guard simp: may)
      have push: "preserves I (push_later k i t v)" for t v
        unfolding push_later_def by (intro reschedule guards)
      have rewrite: "preserves I (updateRunForTrailingMode i y)" for y
        unfolding updateRunForTrailingMode_def rewriteDebouncedRun_def by (intro may guards) simp
      have mode: "preserves I (case m of leading \<Rightarrow> a | trailing \<Rightarrow> b)"
        if "preserves I a" "preserves I b" for m and a b :: "locked_outcome engine"
        using that by (cases m) simp_all
      have "preserves I (handleExistingRunLocked ds d k i u)"
        unfolding handleExistingRunLocked_def prod.case by (intro push rewrite mode guards)
      from preservesD [OF this assms(1)] show ?thesis .
    qed
  qed
  then show ?thesis
    unfolding ph debounce_step.simps by (rule then_quiet) (rule quiet_effects)
qed

end

end
