(* ===== verification/StatusMachine.thy ===== *)
theory StatusMachine
  imports NewRuns
begin

text \<open>
  The execution status of a run as a state machine: which statuses an operation may put a run
  in, from which status, and that a run that has finished stays as it is. Both interpret the
  contract of Lifecycle.
\<close>

section \<open>The statuses an operation may lead to\<close>

definition status :: "string \<Rightarrow> world \<Rightarrow> TaskRunExecutionStatus option" where
  "status r w = map_option sn_executionStatus (latest r w)"

definition after_failure :: "TaskRunExecutionStatus \<Rightarrow> TaskRunExecutionStatus list" where
  "after_failure a = (if a = FINISHED then [] else [FINISHED, QUEUED, EXECUTING])"

fun allowed_for :: "engine_event \<Rightarrow> TaskRunExecutionStatus \<Rightarrow> TaskRunExecutionStatus list" where
  "allowed_for (StartAttempt e i s warm wk rn) a = (if isFinishedOrPendingFinished a then [] else after_failure a)"
| "allowed_for (CompleteAttempt e i s (Succeeded c) wk rn) a = (if a = FINISHED then [] else [FINISHED])"
| "allowed_for (CompleteAttempt e i s (Failed c) wk rn) a = after_failure a"
| "allowed_for (Cancel i args) a =
     (if a = FINISHED then []
      else if ca_finalizeRun args then [FINISHED]
      else if isExecuting a \<or> isPendingExecuting a then [PENDING_CANCEL]
      else if a = PENDING_CANCEL then [] else [FINISHED])"
| "allowed_for (SystemFailure i er) a = after_failure a"
| "allowed_for (WaitpointOp (WpBlock i ids args)) a = [blocked_status a]"
| "allowed_for (WaitpointOp (WpContinueJob i)) a =
     (if a = EXECUTING_WITH_WAITPOINTS then [EXECUTING] else if a = SUSPENDED then [QUEUED] else [])"
| "allowed_for (Checkpoint i s c wk rn) a =
     (if a = QUEUED_EXECUTING then [QUEUED] else if isCheckpointable a then [SUSPENDED] else [])"
| "allowed_for (ContinueExecution e i s wk rn) a = (if a = PENDING_EXECUTING then [EXECUTING] else [])"
| "allowed_for (Expire i) a = (if isExecuting a then [] else [FINISHED])"
| "allowed_for (RescheduleDelayed i d) a = (if a = DELAYED \<or> a = RUN_CREATED then [DELAYED, RUN_CREATED] else [])"
| "allowed_for (EnqueueDelayed i) a = (if a = DELAYED \<or> a = RUN_CREATED then [QUEUED] else [])"
| "allowed_for (StalledSnapshot i s n) a =
     (if isExecuting a \<or> isPendingExecuting a then after_failure a
      else if a = SUSPENDED then [QUEUED] else if a = PENDING_CANCEL then [FINISHED] else [])"
| "allowed_for (Dequeue wq bw wk rn) a =
     (if a = PENDING_EXECUTING then []
      else after_failure a @ (if a = QUEUED then [PENDING_EXECUTING, RUN_CREATED] else []))"
| "allowed_for (TriggerRun pv tg db) a = [blocked_status a]"
| "allowed_for (CreateFailed tg er b) a = [blocked_status a]"
| "allowed_for (QueueVersionRuns pv b n) a = [QUEUED, DELAYED]"
| "allowed_for (ExpireParked pv i x) a = [FINISHED, QUEUED, DELAYED]"
| "allowed_for (DebounceStep ds c (Inside i u)) a = (if a = DELAYED \<or> a = RUN_CREATED then [DELAYED, RUN_CREATED] else [])"
| "allowed_for _ a = []"

text \<open>
  A run gets its first snapshot when it is created; one without a snapshot also gets one where
  it is dequeued or waits for a version.
\<close>

fun first_statuses :: "engine_event \<Rightarrow> TaskRunExecutionStatus list" where
  "first_statuses (Dequeue wq bw wk rn) = [FINISHED, QUEUED, EXECUTING]"
| "first_statuses (TriggerRun pv tg db) = [initial_execution_status tg]"
| "first_statuses (CreateCancelled tg now reason b) = [FINISHED]"
| "first_statuses (QueueVersionRuns pv b n) = [QUEUED, DELAYED]"
| "first_statuses (ExpireParked pv i x) = [FINISHED, QUEUED, DELAYED]"
| "first_statuses _ = []"

text \<open>The run an operation is about, where it may change the status of one.\<close>

fun event_run :: "engine_event \<Rightarrow> string option" where
  "event_run (StartAttempt e i s warm wk rn) = Some i"
| "event_run (CompleteAttempt e i s c wk rn) = Some i"
| "event_run (Cancel i args) = Some i"
| "event_run (SystemFailure i er) = Some i"
| "event_run (WaitpointOp (WpBlock i ids args)) = Some i"
| "event_run (WaitpointOp (WpContinueJob i)) = Some i"
| "event_run (Checkpoint i s c wk rn) = Some i"
| "event_run (ContinueExecution e i s wk rn) = Some i"
| "event_run (Expire i) = Some i"
| "event_run (RescheduleDelayed i d) = Some i"
| "event_run (EnqueueDelayed i) = Some i"
| "event_run (StalledSnapshot i s n) = Some i"
| "event_run (ExpireParked pv i x) = Some i"
| "event_run (DebounceStep ds c (Inside i u)) = Some i"
| "event_run (CreateCancelled tg now reason b) = Some (tg_id tg)"
| "event_run _ = None"

text \<open>
  Which run is dequeued is up to the queue, and which wait for a version to the database; a
  trigger concerns the new run and the parent that waits for it.
\<close>

fun concerns :: "string \<Rightarrow> engine_event \<Rightarrow> bool" where
  "concerns r (Dequeue wq bw wk rn) = True"
| "concerns r (QueueVersionRuns pv b n) = True"
| "concerns r (TriggerRun pv tg db) = (tg_id tg = r \<or> waiting_parent tg = Some r)"
| "concerns r (CreateFailed tg er b) = (waiting_parent tg = Some r)"
| "concerns r ev = (event_run ev = Some r)"

text \<open>
  Calls of a runner name an environment; they find the run's latest snapshot where the run
  belongs to it. A new run has an id of its own: what has a snapshot has a row, and no run is
  its own parent.
\<close>

fun in_scope :: "world \<Rightarrow> engine_event \<Rightarrow> bool" where
  "in_scope w (StartAttempt e i s warm wk rn) = (latest_in e i w = latest i w)"
| "in_scope w (CompleteAttempt e i s c wk rn) = (latest_in e i w = latest i w)"
| "in_scope w (ContinueExecution e i s wk rn) = (latest_in e i w = latest i w)"
| "in_scope w (TriggerRun pv tg db) =
     ((run_of (tg_id tg) w = None \<longrightarrow> latest (tg_id tg) w = None) \<and> waiting_parent tg \<noteq> Some (tg_id tg))"
| "in_scope w (CreateCancelled tg now reason b) = (run_of (tg_id tg) w = None \<longrightarrow> latest (tg_id tg) w = None)"
| "in_scope w (CreateFailed tg er b) = (run_of (tg_id tg) w = None \<longrightarrow> latest (tg_id tg) w = None)"
| "in_scope w _ = True"

lemma scoped_read:
  assumes "latest_in e i w = latest i w"
  shows "snd (andThen (getLatestExecutionSnapshot e i) g w) = snd (andThen (getLatestExecutionSnapshot None i) g w)"
  using assms by (cases "latest i w") (simp_all add: andThen_def getLatestExecutionSnapshot_def latest_def)

lemma scoped_current:
  assumes "latest_in e i w = latest i w"
  shows "snd (andThen (current_snapshot e i k) g w) = snd (andThen (current_snapshot None i k) g w)"
  unfolding current_snapshot_def andThen_assoc by (rule scoped_read [OF assms])

lemma scoped_operations:
  assumes "latest_in e i w = latest i w"
  shows "snd (startRunAttempt cfg e i s warm wk rn w) = snd (startRunAttempt cfg None i s warm wk rn w)"
    "snd (completeRunAttempt cfg e i s c wk rn w) = snd (completeRunAttempt cfg None i s c wk rn w)"
    "snd (continueRunExecution cfg e i s wk rn w) = snd (continueRunExecution cfg None i s wk rn w)"
  subgoal unfolding startRunAttempt_def by (rule scoped_read [OF assms])
  subgoal
    by (cases c)
      (simp_all add: completeRunAttempt_def attemptSucceeded_def attemptFailed_def numeral_2_eq_2
        attempt_failed_or_def scoped_current [OF assms])
  subgoal unfolding continueRunExecution_def by (rule scoped_read [OF assms])
  done

section \<open>The two interpretations\<close>

lemma latest_newer:
  "latest r (w\<lparr>en_snapshots := s # en_snapshots w\<rparr>)
    = (if sn_runId s = r \<and> sn_isValid s then Some s else latest r w)"
  by (simp add: latest_def latest_in_def truthy_def)

lemma latest_rows [simp]: "latest r (w\<lparr>en_runs := ts\<rparr>) = latest r w"
  by (simp add: latest_def latest_in_def)

interpretation statuses: run_guard "\<lambda>w. status r w \<in> T" "\<lambda>i s. i = r \<longrightarrow> Some s \<in> T" "\<lambda>_ _. True"
    "\<lambda>_. True" for r T
  by unfold_locales (simp add: status_def latest_core, auto simp: status_def latest_newer)

text \<open>What of a run is final; the bulk actions it is a member of are not.\<close>

definition frozen :: "run \<Rightarrow> run" where
  "frozen t = t\<lparr>tr_bulkActionGroupIds := []\<rparr>"

definition final_view :: "string \<Rightarrow> world \<Rightarrow> run option \<times> snapshot option" where
  "final_view r w = (map_option frozen (run_of r w), latest r w)"

lemma run_of_map:
  "(\<And>t. tr_id (f t) = tr_id t) \<Longrightarrow>
   run_of r (w\<lparr>en_runs := map (\<lambda>t. if tr_id t = i then f t else t) (en_runs w)\<rparr>)
     = (if i = r then map_option f (run_of r w) else run_of r w)"
  by (simp add: run_of_def find_map_update)

lemma run_of_insert: "run_of r (w\<lparr>en_runs := t # en_runs w\<rparr>) = (if tr_id t = r then Some t else run_of r w)"
  by (simp add: run_of_def)

lemma run_of_snapshots [simp]: "run_of r (w\<lparr>en_snapshots := ss\<rparr>) = run_of r w"
  by (simp add: run_of_def)

interpretation frozen_run: run_guard "\<lambda>w. final_view r w = v" "\<lambda>i s. i \<noteq> r"
    "\<lambda>i f. i \<noteq> r \<or> (\<forall>t. frozen (f t) = frozen t)" "\<lambda>i. i \<noteq> r" for r v
  by unfold_locales
    (simp add: final_view_def latest_core run_of_core,
      auto simp: final_view_def latest_newer run_of_map run_of_insert option.map_comp comp_def)

lemma expired_batch_snapshots: "en_snapshots (state_after (expireRunsBatch ids) w) = en_snapshots w"
proof -
  let ?I = "\<lambda>v. en_snapshots v = en_snapshots w"
  have quiet: "preserves ?I m" if "quiet m" for m :: "'b engine"
    using that by (auto simp: quiet_def preserves_def core_def)
  have "preserves ?I (expireRunsBatch ids)"
    unfolding expireRunsBatch_def store_expireRunsBatch_def Let_def
    by (intro preserves_if preserves_andThen preserves_andDo preserves_modify quiet quiet_intros) simp
  then show ?thesis by (simp add: preserves_def state_after_def)
qed

section \<open>The abstract machine\<close>

text \<open>The statuses a run of status \<open>x\<close> may have after an event: the same one or one it is allowed.\<close>

definition status_next :: "string \<Rightarrow> TaskRunExecutionStatus option \<Rightarrow> engine_event \<Rightarrow> TaskRunExecutionStatus option list" where
  "status_next r x ev =
     x # (if concerns r ev
          then map Some (case x of None \<Rightarrow> first_statuses ev | Some a \<Rightarrow> allowed_for ev a) else [])"

inductive status_path ::
    "string \<Rightarrow> TaskRunExecutionStatus option \<Rightarrow> engine_event list \<Rightarrow> TaskRunExecutionStatus option \<Rightarrow> bool" for r where
  stay: "status_path r x [] x"
| go: "y \<in> set (status_next r x ev) \<Longrightarrow> status_path r y evs z \<Longrightarrow> status_path r x (ev # evs) z"

inductive_simps status_path_simps: "status_path r x [] z" "status_path r x (ev # evs) z"

text \<open>Every call of a sequence is in scope when its turn comes.\<close>

fun scoped :: "engine_options \<Rightarrow> world \<Rightarrow> engine_event list \<Rightarrow> bool" where
  "scoped cfg w [] = True"
| "scoped cfg w (ev # evs) = (in_scope w ev \<and> scoped cfg (engine_step cfg w ev) evs)"

lemma quiet_repair [quiet_intros]: "quiet (handleRepairSnapshot cfg i s)"
  unfolding handleRepairSnapshot_def case_prod_unfold by (intro quiet_intros)

lemma latest_status: "latest r w = Some s \<Longrightarrow> status r w = Some (sn_executionStatus s)"
  by (simp add: status_def)

lemma after_continue:
  "core (wp_step cfg w (WpContinueJob i)) = core (snd (continueRunIfUnblocked cfg i w))"
  using quiet_core [OF quiet_effects(8), of "continue_job i"]
  by (auto simp: state_after_def split: prod.split sum.split)

lemma status_step:
  assumes "in_scope w ev"
  shows "status r (engine_step cfg w ev) \<in> set (status_next r (status r w) ev)" (is "_ \<in> ?T")
proof -
  have start: "status r w \<in> ?T" by (simp add: status_next_def)
  have may: "i = r \<longrightarrow> Some b \<in> ?T"
    if "event_run ev = Some i" "latest i w = Some s" "b \<in> set (allowed_for ev (sn_executionStatus s))" for i s b
    using that latest_status [of i w s] by (cases ev) (auto simp: status_next_def)
  have quiet: "status r (state_after m w) \<in> set (status_next r (status r w) e)" if "quiet m" for m :: "'b engine" and e
    using preservesD [OF statuses.quiet_guard [OF that, of r "{status r w}"], of w]
    by (simp add: state_after_def status_next_def)
  show ?thesis
  proof (cases ev)
    case (StartAttempt e i s warm wk rn)
    have "status r (snd (startRunAttempt cfg None i s warm wk rn w)) \<in> ?T"
      by (rule statuses.start_guard [OF start])
        (use may StartAttempt in \<open>auto simp: after_failure_def isFinishedOrPendingFinished_def\<close>)
    with StartAttempt assms show ?thesis by (simp add: state_after_def scoped_operations)
  next
    case (CompleteAttempt e i s c wk rn)
    have "status r (snd (completeRunAttempt cfg None i s c wk rn w)) \<in> ?T"
    proof (cases c)
      case (Succeeded x)
      show ?thesis
        unfolding Succeeded completeRunAttempt_def completion.case
        by (rule statuses.succeeded_guard [OF start]) (use may CompleteAttempt Succeeded in auto)
    next
      case (Failed x)
      show ?thesis
        unfolding Failed completeRunAttempt_def completion.case
        by (rule statuses.attemptFailed_guard [OF start])
          (use may CompleteAttempt Failed in \<open>auto simp: after_failure_def\<close>)
    qed
    with CompleteAttempt assms show ?thesis by (simp add: state_after_def scoped_operations)
  next
    case (Cancel i a)
    have "status r (snd (cancelRun cfg i a w)) \<in> ?T"
      by (rule statuses.cancel_guard [OF start])
        (use may Cancel in \<open>auto simp: isExecuting_def isPendingExecuting_def\<close>)
    with Cancel show ?thesis by (simp add: state_after_def)
  next
    case (SystemFailure i er)
    have "status r (snd (systemFailure cfg i er w)) \<in> ?T"
      by (rule statuses.systemFailure_guard [OF start]) (use may SystemFailure in \<open>auto simp: after_failure_def\<close>)
    with SystemFailure show ?thesis by (simp add: state_after_def)
  next
    case (WaitpointOp we)
    have "status r (wp_step cfg w we) \<in> ?T"
    proof (cases we)
      case (WpBlock i ids a)
      have "status r (snd (blockRunWithWaitpoint cfg i ids a w)) \<in> ?T"
        by (rule statuses.block_guard [OF start]) (use may WaitpointOp WpBlock in auto)
      with WpBlock show ?thesis by (simp add: state_after_def)
    next
      case (WpContinueJob i)
      have "status r (snd (continueRunIfUnblocked cfg i w)) \<in> ?T"
        by (rule statuses.continue_guard [OF start]) (use may WaitpointOp WpContinueJob in auto)
      with WpContinueJob show ?thesis
        using after_continue [of cfg w i] by (simp add: status_def latest_core)
    qed (auto intro!: quiet quiet_intros simp: start)
    with WaitpointOp show ?thesis by simp
  next
    case (Checkpoint i s c wk rn)
    have "status r (snd (createCheckpoint cfg i s c wk rn w)) \<in> ?T"
      by (rule statuses.checkpoint_guard [OF start]) (use may Checkpoint in auto)
    with Checkpoint show ?thesis by (simp add: state_after_def)
  next
    case (ContinueExecution e i s wk rn)
    have "status r (snd (continueRunExecution cfg None i s wk rn w)) \<in> ?T"
      by (rule statuses.continueExecution_guard [OF start]) (use may ContinueExecution in auto)
    with ContinueExecution assms show ?thesis by (simp add: state_after_def scoped_operations)
  next
    case (Expire i)
    have "status r (snd (expireRun cfg i w)) \<in> ?T"
      by (rule statuses.expire_guard [OF start]) (use may Expire in auto)
    with Expire show ?thesis by (simp add: state_after_def)
  next
    case (ExpireBatchOfRuns ids)
    then show ?thesis using start expired_batch_snapshots [of ids w] by (simp add: status_def latest_core core_def)
  next
    case (RescheduleDelayed i d)
    have "status r (snd (rescheduleDelayedRun i d w)) \<in> ?T"
      by (rule statuses.reschedule_guard [OF start]) (use may RescheduleDelayed in auto)
    with RescheduleDelayed show ?thesis by (simp add: state_after_def)
  next
    case (EnqueueDelayed i)
    have "status r (snd (enqueueDelayedRun cfg i w)) \<in> ?T"
      by (rule statuses.enqueueDelayed_guard [OF start]) (use may EnqueueDelayed in auto)
    with EnqueueDelayed show ?thesis by (simp add: state_after_def)
  next
    case (StalledSnapshot i s n)
    have "status r (snd (handleStalledSnapshot cfg i s n w)) \<in> ?T"
      by (rule statuses.stalled_guard [OF start])
        (use may StalledSnapshot in \<open>auto simp: after_failure_def isExecuting_def isPendingExecuting_def\<close>)
    with StalledSnapshot show ?thesis by (simp add: state_after_def)
  next
    case (Dequeue wq bw wk rn)
    have first: "i = r \<longrightarrow> Some b \<in> ?T" if "latest i w = None" "b \<in> {FINISHED, QUEUED, EXECUTING}" for i b
      using that Dequeue by (auto simp: status_next_def status_def)
    have later: "i = r \<longrightarrow> Some b \<in> ?T" if "latest i w = Some s" "b \<in> set (allowed_for ev (sn_executionStatus s))" for i s b
      using that latest_status [of i w s] Dequeue by (auto simp: status_next_def)
    have "status r (snd (dequeueFromWorkerQueue cfg wq bw wk rn w)) \<in> ?T"
      by (rule statuses.dequeue_guard [OF start]) (use first later Dequeue in \<open>auto simp: after_failure_def\<close>)
    with Dequeue show ?thesis by (simp add: state_after_def)
  next
    case (TriggerRun pv tg db)
    have scope: "waiting_parent tg \<noteq> Some (tg_id tg)" "run_of (tg_id tg) w = None \<Longrightarrow> status (tg_id tg) w = None"
      using assms TriggerRun by (auto simp: status_def)
    have "status r (snd (trigger cfg pv tg db w)) \<in> ?T"
      by (rule statuses.trigger_guard [OF start])
        (use scope TriggerRun in \<open>auto simp: status_next_def dest: latest_status\<close>)
    with TriggerRun show ?thesis by (simp add: state_after_def)
  next
    case (CreateCancelled tg now reason b)
    have "run_of (tg_id tg) w = None \<Longrightarrow> status (tg_id tg) w = None"
      using assms CreateCancelled by (simp add: status_def)
    then have "status r (snd (createCancelledRun tg now reason b w)) \<in> ?T"
      by (intro statuses.createCancelled_guard [OF start]) (use CreateCancelled in \<open>auto simp: status_next_def\<close>)
    with CreateCancelled show ?thesis by (simp add: state_after_def)
  next
    case (CreateFailed tg er b)
    have "status r (snd (createFailedTaskRun cfg tg er b w)) \<in> ?T"
      by (rule statuses.createFailed_guard [OF start])
        (use CreateFailed in \<open>auto simp: status_next_def dest: latest_status\<close>)
    with CreateFailed show ?thesis by (simp add: state_after_def)
  next
    case (QueueVersionRuns pv b n)
    have "Some a \<in> ?T" if "a \<in> {QUEUED, DELAYED}" for a
      using that QueueVersionRuns by (auto simp: status_next_def split: option.split)
    then have "status r (snd (enqueueRunsForBackgroundWorker cfg pv b n w)) \<in> ?T"
      by (intro statuses.version_runs_guard [OF start]) auto
    with QueueVersionRuns show ?thesis by (simp add: state_after_def)
  next
    case (ExpireParked pv i x)
    have "i = r \<longrightarrow> Some a \<in> ?T" if "a \<in> {FINISHED, QUEUED, DELAYED}" for a
      using that ExpireParked by (auto simp: status_next_def split: option.split)
    then have "status r (snd (expireParkedExternalDeploymentRun cfg pv i x w)) \<in> ?T"
      by (intro statuses.expireParked_guard [OF start]) auto
    with ExpireParked show ?thesis by (simp add: state_after_def)
  next
    case (DebounceStep ds c ph)
    have "status r (snd (debounce_step ds c ph w)) \<in> ?T"
      by (rule statuses.debounce_guard [OF start]) (use may DebounceStep in auto)
    with DebounceStep show ?thesis by (simp add: state_after_def)
  next
    case (Tick n)
    with start show ?thesis by (simp add: status_def latest_core core_def)
  qed (auto intro!: quiet quiet_intros)
qed

section \<open>What is final\<close>

lemma find_map_if: "(\<And>t. q t \<Longrightarrow> f t = t) \<Longrightarrow> (\<And>t. tr_id (f t) = tr_id t) \<Longrightarrow>
    List.find (\<lambda>t. tr_id t = i) ts = Some u \<Longrightarrow> q u \<Longrightarrow> List.find (\<lambda>t. tr_id t = i) (map f ts) = Some u"
  by (induction ts) auto

lemma expired_batch_keeps_ended:
  assumes "distinct (map tr_id (en_runs w))" "run_of r w = Some t" "tr_status t \<noteq> PENDING"
  shows "run_of r (state_after (expireRunsBatch ids) w) = Some t"
proof -
  let ?expired = "filter can_expire (filter (\<lambda>t. tr_id t \<in> set ids) (en_runs w))"
  have other: "r \<notin> set (map tr_id ?expired)"
  proof
    assume "r \<in> set (map tr_id ?expired)"
    then obtain u where u: "u \<in> set (en_runs w)" "tr_id u = r" "can_expire u" by auto
    have "t \<in> set (en_runs w)" "tr_id t = r" using assms(2) by (auto simp: run_of_def find_Some_iff)
    with u assms(1) have "u = t" by (metis distinct_map inj_onD)
    with u(3) assms(3) show False by (simp add: can_expire_def)
  qed
  have map: "run_of r (v\<lparr>en_runs := map (\<lambda>t. if tr_id t \<in> set js then f t else t) (en_runs v)\<rparr>) = Some t"
    if "run_of r v = Some t" "r \<notin> set js" "\<And>t. tr_id (f t) = tr_id t" for v js f
    using that(1) unfolding run_of_def
    by simp (rule find_map_if [where q = "\<lambda>t. tr_id t = r"], use that in \<open>auto simp: find_Some_iff\<close>)
  have quiet: "preserves (\<lambda>v. run_of r v = Some t) m" if "quiet m" for m :: "'b engine"
    using that by (simp add: quiet_def preserves_def run_of_core)
  have rest: "preserves (\<lambda>v. run_of r v = Some t)
      (andThen the_time (\<lambda>now. andDo (store_expireRunsBatch (map tr_id ?expired) batch_error now)
        (andDo (forEach ?expired (announce_expired now)) (ret x))))" for x :: "string list \<times> (string \<times> string) list"
    unfolding store_expireRunsBatch_def
    by (intro preserves_andThen preserves_andDo preserves_modify quiet quiet_intros) (rule map [OF _ other], simp_all)
  show ?thesis
    using preservesD [OF rest, of w] assms(2)
    by (simp add: expireRunsBatch_def state_after_def Let_def ret_def)
qed

text \<open>
  A run is settled when its latest snapshot is \<open>FINISHED\<close> and its row does not wait in a queue or
  for a version.
  (Ids of runs are unique, which every operation keeps.)
\<close>

definition settled :: "string \<Rightarrow> world \<Rightarrow> bool" where
  "settled r w = (status r w = Some FINISHED
     \<and> (case run_of r w of None \<Rightarrow> True | Some t \<Rightarrow> tr_status t \<notin> {PENDING, PENDING_VERSION})
     \<and> distinct (map tr_id (en_runs w)))"

fun blocks_run :: "string \<Rightarrow> engine_event \<Rightarrow> bool" where
  "blocks_run r (WaitpointOp (WpBlock i ids args)) = (i = r)"
| "blocks_run r (TriggerRun pv tg db) = (waiting_parent tg = Some r)"
| "blocks_run r (CreateFailed tg er b) = (waiting_parent tg = Some r)"
| "blocks_run r _ = False"

lemma settled_iff:
  "settled r w \<longleftrightarrow> (map_option sn_executionStatus (snd (final_view r w)) = Some FINISHED
     \<and> map_option tr_status (fst (final_view r w)) \<notin> {Some PENDING, Some PENDING_VERSION}
     \<and> distinct (map tr_id (en_runs w)))"
  by (cases "run_of r w") (simp_all add: settled_def status_def final_view_def frozen_def)

lemma settled_view:
  assumes "settled r w" "final_view r w' = final_view r w" "distinct (map tr_id (en_runs w'))"
  shows "settled r w'"
  using assms by (simp add: settled_iff)

lemma find_unique: "distinct (map tr_id ts) \<Longrightarrow> t \<in> set ts \<Longrightarrow> List.find (\<lambda>u. tr_id u = tr_id t) ts = Some t"
  by (induction ts) force+

lemma run_of_unique: "distinct (map tr_id (en_runs w)) \<Longrightarrow> t \<in> set (en_runs w) \<Longrightarrow> run_of (tr_id t) w = Some t"
  by (simp add: run_of_def find_unique)

lemma frozen_step:
  assumes "settled r w" "in_scope w ev" "\<not> blocks_run r ev"
  shows "final_view r (engine_step cfg w ev) = final_view r w" (is "_ = ?v")
proof -
  have finished: "sn_executionStatus s = FINISHED" if "latest r w = Some s" for s
    using that assms(1) by (simp add: settled_def status_def)
  have quiet: "final_view r (state_after m w) = ?v" if "quiet m" for m :: "'b engine"
    using preservesD [OF frozen_run.quiet_guard [OF that, of r ?v]] by (simp add: state_after_def)
  have bulk: "frozen (t\<lparr>tr_bulkActionGroupIds := bs\<rparr>) = frozen t" for t bs by (simp add: frozen_def)
  show ?thesis
  proof (cases ev)
    case (StartAttempt e i s warm wk rn)
    have "final_view r (snd (startRunAttempt cfg None i s warm wk rn w)) = ?v"
      by (rule frozen_run.start_guard [OF refl]) (use bulk in \<open>auto dest: finished simp: isFinishedOrPendingFinished_def\<close>)
    with StartAttempt assms(2) show ?thesis by (simp add: state_after_def scoped_operations)
  next
    case (CompleteAttempt e i s c wk rn)
    have "final_view r (snd (completeRunAttempt cfg None i s c wk rn w)) = ?v"
      by (cases c; simp only: completeRunAttempt_def completion.case;
          rule frozen_run.succeeded_guard [OF refl] frozen_run.attemptFailed_guard [OF refl]) (auto dest: finished)
    with CompleteAttempt assms(2) show ?thesis by (simp add: state_after_def scoped_operations)
  next
    case (Cancel i a)
    have "final_view r (snd (cancelRun cfg i a w)) = ?v"
      by (rule frozen_run.cancel_guard [OF refl])
        (use bulk in \<open>auto dest: finished simp: isExecuting_def isPendingExecuting_def\<close>)
    with Cancel show ?thesis by (simp add: state_after_def)
  next
    case (SystemFailure i er)
    have "final_view r (snd (systemFailure cfg i er w)) = ?v"
      by (rule frozen_run.systemFailure_guard [OF refl]) (auto dest: finished)
    with SystemFailure show ?thesis by (simp add: state_after_def)
  next
    case (WaitpointOp we)
    have "final_view r (wp_step cfg w we) = ?v"
    proof (cases we)
      case (WpBlock i ids a)
      have "final_view r (snd (blockRunWithWaitpoint cfg i ids a w)) = ?v"
        by (rule frozen_run.block_guard [OF refl]) (use assms(3) WaitpointOp WpBlock in auto)
      with WpBlock show ?thesis by (simp add: state_after_def)
    next
      case (WpContinueJob i)
      have "final_view r (snd (continueRunIfUnblocked cfg i w)) = ?v"
        by (rule frozen_run.continue_guard [OF refl]) (auto dest: finished)
      with WpContinueJob show ?thesis
        using after_continue [of cfg w i] by (simp add: final_view_def latest_core run_of_core)
    qed (auto intro!: quiet quiet_intros)
    with WaitpointOp show ?thesis by simp
  next
    case (Checkpoint i s c wk rn)
    have "final_view r (snd (createCheckpoint cfg i s c wk rn w)) = ?v"
      by (rule frozen_run.checkpoint_guard [OF refl]) (use bulk in \<open>auto dest: finished simp: isCheckpointable_def\<close>)
    with Checkpoint show ?thesis by (simp add: state_after_def)
  next
    case (ContinueExecution e i s wk rn)
    have "final_view r (snd (continueRunExecution cfg None i s wk rn w)) = ?v"
      by (rule frozen_run.continueExecution_guard [OF refl]) (auto dest: finished)
    with ContinueExecution assms(2) show ?thesis by (simp add: state_after_def scoped_operations)
  next
    case (Expire i)
    have "final_view r (snd (expireRun cfg i w)) = ?v"
      by (rule frozen_run.expire_guard [OF refl])
        (use assms(1) in \<open>auto simp: settled_def can_expire_def\<close>)
    with Expire show ?thesis by (simp add: state_after_def)
  next
    case (ExpireBatchOfRuns ids)
    have "run_of r (state_after (expireRunsBatch ids) w) = run_of r w"
    proof (cases "run_of r w")
      case None
      then have "r \<notin> set (map tr_id (en_runs w))" by (auto simp: run_of_def find_None_iff)
      moreover have "map tr_id (en_runs (state_after (expireRunsBatch ids) w)) = map tr_id (en_runs w)"
        unfolding state_after_def by (rule preservesD [OF ids.keeps_expireRunsBatch refl])
      ultimately have "run_of r (state_after (expireRunsBatch ids) w) = None"
        unfolding run_of_def find_None_iff by (metis image_eqI set_map)
      with None show ?thesis by simp
    next
      case (Some t)
      with assms(1) have "run_of r (state_after (expireRunsBatch ids) w) = Some t"
        by (intro expired_batch_keeps_ended) (simp_all add: settled_def)
      with Some show ?thesis by simp
    qed
    with ExpireBatchOfRuns show ?thesis
      using expired_batch_snapshots [of ids w] by (simp add: final_view_def latest_core core_def)
  next
    case (RescheduleDelayed i d)
    have "final_view r (snd (rescheduleDelayedRun i d w)) = ?v"
      by (rule frozen_run.reschedule_guard [OF refl]) (auto dest: finished)
    with RescheduleDelayed show ?thesis by (simp add: state_after_def)
  next
    case (EnqueueDelayed i)
    have "final_view r (snd (enqueueDelayedRun cfg i w)) = ?v"
      by (rule frozen_run.enqueueDelayed_guard [OF refl]) (auto dest: finished)
    with EnqueueDelayed show ?thesis by (simp add: state_after_def)
  next
    case (StalledSnapshot i s n)
    have "final_view r (snd (handleStalledSnapshot cfg i s n w)) = ?v"
      by (rule frozen_run.stalled_guard [OF refl]) (use bulk in \<open>auto dest: finished simp: isExecuting_def\<close>)
    with StalledSnapshot show ?thesis by (simp add: state_after_def)
  next
    case (Dequeue wq bw wk rn)
    have "latest r w \<noteq> None" using assms(1) by (auto simp: settled_def status_def)
    then have "final_view r (snd (dequeueFromWorkerQueue cfg wq bw wk rn w)) = ?v"
      by (intro frozen_run.dequeue_guard [OF refl]) (auto dest: finished)
    with Dequeue show ?thesis by (simp add: state_after_def)
  next
    case (TriggerRun pv tg db)
    have new: "run_of (tg_id tg) w = None \<Longrightarrow> tg_id tg \<noteq> r" "waiting_parent tg \<noteq> Some (tg_id tg)" "waiting_parent tg \<noteq> Some r"
      using assms TriggerRun by (auto simp: settled_def status_def)
    have "final_view r (snd (trigger cfg pv tg db w)) = ?v"
      by (rule frozen_run.trigger_guard [OF refl]) (use new in auto)
    with TriggerRun show ?thesis by (simp add: state_after_def)
  next
    case (CreateCancelled tg now reason b)
    then have "run_of (tg_id tg) w = None \<Longrightarrow> tg_id tg \<noteq> r" using assms by (auto simp: settled_def status_def)
    then have "final_view r (snd (createCancelledRun tg now reason b w)) = ?v"
      by (intro frozen_run.createCancelled_guard [OF refl]) simp
    with CreateCancelled show ?thesis by (simp add: state_after_def)
  next
    case (CreateFailed tg er b)
    have new: "run_of (tg_id tg) w = None \<Longrightarrow> tg_id tg \<noteq> r" "waiting_parent tg \<noteq> Some r"
      using assms CreateFailed by (auto simp: settled_def status_def)
    have "final_view r (snd (createFailedTaskRun cfg tg er b w)) = ?v"
      by (rule frozen_run.createFailed_guard [OF refl]) (use new in auto)
    with CreateFailed show ?thesis by (simp add: state_after_def)
  next
    case (QueueVersionRuns pv b n)
    have "tr_id t \<noteq> r" if "t \<in> set (en_runs w)" "tr_status t = PENDING_VERSION" for t
      using assms(1) that run_of_unique [of w t] by (auto simp: settled_def)
    then have "final_view r (snd (enqueueRunsForBackgroundWorker cfg pv b n w)) = ?v"
      by (intro frozen_run.version_runs_guard [OF refl]) blast
    with QueueVersionRuns show ?thesis by (simp add: state_after_def)
  next
    case (ExpireParked pv i x)
    have "final_view r (snd (expireParkedExternalDeploymentRun cfg pv i x w)) = ?v"
      by (rule frozen_run.expireParked_guard [OF refl]) (use assms(1) in \<open>auto simp: settled_def\<close>)
    with ExpireParked show ?thesis by (simp add: state_after_def)
  next
    case (DebounceStep ds c ph)
    have "final_view r (snd (debounce_step ds c ph w)) = ?v"
      by (rule frozen_run.debounce_guard [OF refl]) (auto dest: finished)
    with DebounceStep show ?thesis by (simp add: state_after_def)
  next
    case (Tick n)
    then show ?thesis by (simp add: final_view_def latest_core run_of_core core_def)
  qed (auto intro!: quiet quiet_intros)
qed

section \<open>Properties\<close>

text \<open>
  C1. The engine refines the status machine of a run: whatever operations are called, on this run
  and on others, every status the run goes through is the one it had or one the status machine
  allows for that operation from there.
\<close>

theorem lifecycle_refined:
  assumes "scoped cfg w events"
  shows "status_path r (status r w) events (status r (foldl (engine_step cfg) w events))"
  using assms
proof (induction events arbitrary: w)
  case Nil
  show ?case by (simp add: status_path.stay)
next
  case (Cons ev events)
  then have "status r (engine_step cfg w ev) \<in> set (status_next r (status r w) ev)"
    by (intro status_step) simp
  with Cons show ?case by (auto intro: status_path.go)
qed

definition finished_world :: world where
  "finished_world = blocked_world\<lparr>en_runs := [example_row\<lparr>tr_status := COMPLETED_SUCCESSFULLY\<rparr>],
     en_snapshots := [snapshot_row ''s1'' 5 (example_input\<lparr>si_executionStatus := FINISHED\<rparr>)]\<rparr>"

lemma finished_status: "status ''run1'' finished_world = Some FINISHED"
  by (simp add: status_def latest_def latest_in_def truthy_def finished_world_def blocked_world_def empty_world_def
      snapshot_row_def example_input_def)

theorem lifecycle_refined_witness:
  "status_path ''run1'' (Some FINISHED) [StartAttempt None ''run1'' ''s1'' False None None, Expire ''run1'']
     (status ''run1'' (foldl (engine_step example_engine) finished_world
        [StartAttempt None ''run1'' ''s1'' False None None, Expire ''run1'']))"
  using lifecycle_refined [of example_engine finished_world
      "[StartAttempt None ''run1'' ''s1'' False None None, Expire ''run1'']" "''run1''"] finished_status
  by (simp add: latest_def)

text \<open>
  C2. A run that has finished stays as it is: whatever is called afterwards, on this run and on
  others, its latest snapshot is the one it finished with and its row keeps its status, output,
  error, attempts and usage (only the bulk actions it is recorded for may change), as long as
  it is not blocked by a waitpoint.
\<close>

theorem finished_stays_finished:
  assumes "settled r w" "scoped cfg w events" "list_all (\<lambda>ev. \<not> blocks_run r ev) events"
  shows "final_view r (foldl (engine_step cfg) w events) = final_view r w"
  using assms
proof (induction events arbitrary: w)
  case (Cons ev events)
  then have step: "final_view r (engine_step cfg w ev) = final_view r w"
    by (intro frozen_step) simp_all
  moreover have "distinct (map tr_id (en_runs (engine_step cfg w ev)))"
    by (rule unique_ids.step_keeps) (use Cons.prems(1) in \<open>simp add: settled_def\<close>)
  ultimately have "settled r (engine_step cfg w ev)" by (rule settled_view [OF Cons.prems(1)])
  with Cons step show ?case by simp
qed simp

theorem finished_stays_finished_witness:
  "latest ''run1'' (foldl (engine_step example_engine) finished_world
      [StartAttempt None ''run1'' ''s1'' False None None, Expire ''run1''])
   = Some (snapshot_row ''s1'' 5 (example_input\<lparr>si_executionStatus := FINISHED\<rparr>))"
proof -
  have s: "settled ''run1'' finished_world"
    using finished_status
    by (simp add: settled_def run_of_def finished_world_def blocked_world_def empty_world_def example_row_def)
  have "scoped example_engine finished_world [StartAttempt None ''run1'' ''s1'' False None None, Expire ''run1'']"
    by (simp add: latest_def)
  from finished_stays_finished [OF s this] show ?thesis
    by (simp add: final_view_def) (simp add: latest_def latest_in_def truthy_def finished_world_def blocked_world_def
        empty_world_def snapshot_row_def example_input_def)
qed

text \<open>
  Blocking is the exception: \<open>blockRunWithWaitpoint\<close> does not look whether the run has
  finished, and makes a finished run a suspended one, which a completed waitpoint will then put
  back into its queue.
\<close>

theorem block_reopens_finished:
  assumes "status r w = Some FINISHED"
  shows "status r (state_after (blockRunWithWaitpoint cfg r ids args) w) = Some SUSPENDED"
proof -
  obtain s where s: "latest_in None r w = Some s" "sn_executionStatus s = FINISHED"
    using assms by (auto simp: status_def latest_def)
  show ?thesis
    using block_effect [OF s(1), of cfg ids args] s(2) by (auto simp: status_def state_after_def blocked_status_def)
qed

theorem block_reopens_finished_witness:
  "status ''run1'' (state_after (blockRunWithWaitpoint example_engine ''run1'' [''w1''] plain_block) finished_world)
     = Some SUSPENDED"
  by (rule block_reopens_finished [OF finished_status])

end
