(* ===== verification/AttemptOutcomes.thy ===== *)
theory AttemptOutcomes
  imports Checkpoints Wakeups
begin

text \<open>
  What the calls about an attempt come to: the mutual recursion of the failure of an attempt
  ends, calls that are late are turned away, and the end of a run is final in all the places
  it is recorded.
\<close>

section \<open>Two rounds are enough\<close>

text \<open>The error a run fails with when its queue gives it up is never retried.\<close>

lemma max_retries_outcome:
  "retryOutcomeFromCompletion rnd now found n max_retries_error fr None \<noteq> Inr (retry mth st mc oom us)"
proof -
  have "fst (taskRunErrorEnhancer max_retries_error) = max_retries_error"
    by (simp add: max_retries_error_def)
  then show ?thesis
    by (simp add: retryOutcomeFromCompletion_def max_retries_error_def Let_def)
qed

lemma nack_cong: "fail i (na_error a) = fail' i (na_error a) \<Longrightarrow>
    nack_and_requeue_or fail cfg i a = nack_and_requeue_or fail' cfg i a"
  by (simp add: nack_and_requeue_or_def cong: if_cong)

lemma retry_attempt_cong:
  assumes "fail i max_retries_error = fail' i max_retries_error"
  shows "retry_attempt fail cfg i s c fr wk rn mth st mc oom us = retry_attempt fail' cfg i s c fr wk rn mth st mc oom us"
  unfolding retry_attempt_def by (subst nack_cong [of fail i _ fail']) (simp_all add: assms)

lemma attempt_failed_cong:
  assumes "fail i max_retries_error = fail' i max_retries_error"
  shows "attempt_failed_or fail cfg e i k c fr wk rn = attempt_failed_or fail' cfg e i k c fr wk rn"
  unfolding attempt_failed_or_def retry_attempt_cong [of fail i fail', OF assms] ..

text \<open>The failure that follows does not retry, whatever it would do then.\<close>

lemma andThen_cong: "(\<And>x. g x = h x) \<Longrightarrow> andThen m g = andThen m h"
  by (rule arg_cong [where f = "andThen m"]) (rule ext)

lemma retry_case_cong:
  assumes "\<And>mth st mc oom us. x \<noteq> Inr (retry mth st mc oom us)"
  shows "andThen (case x of Inl e \<Rightarrow> throw (er e) | Inr y \<Rightarrow> ret y)
      (\<lambda>y. andDo (m y) (case y of cancel_run a \<Rightarrow> f a | fail_run a b \<Rightarrow> g a b | retry a b c d e \<Rightarrow> h a b c d e))
    = andThen (case x of Inl e \<Rightarrow> throw (er e) | Inr y \<Rightarrow> ret y)
      (\<lambda>y. andDo (m y) (case y of cancel_run a \<Rightarrow> f a | fail_run a b \<Rightarrow> g a b | retry a b c d e \<Rightarrow> h' a b c d e))"
  using assms by (auto split: sum.split retry_outcome.split)

lemma no_retry_cong:
  assumes "fa_error c = max_retries_error" "fa_retry c = None"
  shows "attempt_failed_or fail cfg e i k c fr wk rn = attempt_failed_or fail' cfg e i k c fr wk rn"
  unfolding attempt_failed_or_def assms
  by (intro andThen_cong retry_case_cong max_retries_outcome)

lemma fuel_cong: "attemptFailed_fuel (Suc (Suc n)) cfg e i k c fr wk rn = attemptFailed cfg e i k c fr wk rn"
proof -
  have "system_failure_by (\<lambda>i k c. attemptFailed_fuel (Suc n) cfg None i k c False None None) i max_retries_error
      = system_failure_by (\<lambda>i k c. attemptFailed_fuel (Suc 0) cfg None i k c False None None) i max_retries_error"
    unfolding system_failure_by_def attemptFailed_fuel.simps
    by (intro andThen_cong) (auto intro!: no_retry_cong split: prod.split)
  then show ?thesis
    unfolding attemptFailed_def numeral_2_eq_2 by (subst (1 2) attemptFailed_fuel.simps) (rule attempt_failed_cong)
qed

section \<open>Every call answers\<close>

text \<open>A handler answers when it does not run out of fuel: it returns or throws what the source throws.\<close>

definition answers :: "'a engine \<Rightarrow> bool" where
  "answers m = (\<forall>w. fst (m w) \<noteq> Inl OutOfFuel)"

named_theorems answers_intros \<open>handlers that answer\<close>

lemma answers_effects [answers_intros]:
  "answers (ret x)" "answers (reading f)" "answers the_time" "answers (fresh_id p)" "answers (on_queue g)"
  "answers (enqueueJob i pl t)" "answers (ackJob i)" "answers (emit ev)" "answers (findRun i)"
  "answers (updateWaitpoints q h)" "answers (deleteEdges r)" "answers (insertSnapshot s)" "answers (updateTaskRun i k)"
  "answers (getLatestExecutionSnapshot e i)"
  by (simp_all add: answers_def effects updateTaskRun_def getLatestExecutionSnapshot_def no_snapshot_def
      split: option.split prod.split)

lemma answers_throw [answers_intros]:
  "answers (throw (ServiceValidationError m n))" "answers (throw (Error m))" "answers (throw RecordNotFound)"
  "answers (require b (ServiceValidationError m n))" "answers (require b (Error m))"
  "answers (required x (ServiceValidationError m n))" "answers (required x (Error m))"
  "answers (required x not_found)" "answers (required x no_env)"
  by (simp_all add: answers_def throw_def require_def required_def ret_def not_found_def no_env_def split: option.split)

lemma answers_andThen [answers_intros]: "answers m \<Longrightarrow> (\<And>x. answers (f x)) \<Longrightarrow> answers (andThen m f)"
  by (auto simp: answers_def andThen_def split: prod.split sum.split) (metis fst_conv)

lemma answers_andDo [answers_intros]: "answers m \<Longrightarrow> answers k \<Longrightarrow> answers (andDo m k)"
  unfolding andDo_def by (intro answers_intros)

lemma answers_whenever [answers_intros]: "answers m \<Longrightarrow> answers (whenever b m)"
  by (simp add: whenever_def answers_effects)

lemma answers_forEach [answers_intros]: "(\<And>x. answers (f x)) \<Longrightarrow> answers (forEach xs f)"
  by (induction xs) (simp_all add: answers_effects answers_andDo)

lemma answers_cases [answers_intros]:
  "answers m \<Longrightarrow> answers n \<Longrightarrow> answers (if b then m else n)"
  "answers m \<Longrightarrow> (\<And>y. answers (f y)) \<Longrightarrow> answers (case x of None \<Rightarrow> m | Some y \<Rightarrow> f y)"
  "(\<And>a b. answers (g a b)) \<Longrightarrow> answers (case p of (a, b) \<Rightarrow> g a b)"
  "(\<And>e. answers (l e)) \<Longrightarrow> (\<And>y. answers (r y)) \<Longrightarrow> answers (case z of Inl e \<Rightarrow> l e | Inr y \<Rightarrow> r y)"
  by (simp, cases x, simp_all, cases p, simp, cases z, simp_all)

lemma answers_snapshots [answers_intros]:
  "answers (createExecutionSnapshot cfg x)" "answers (store_createExecutionSnapshot x)"
  "answers (sendNotificationToWorker i s)" "answers (current_snapshot e i k)"
  unfolding createExecutionSnapshot_def store_createExecutionSnapshot_def enqueueHeartbeatIfNeeded_def
    sendNotificationToWorker_def current_snapshot_def
  by (intro answers_intros)+

lemma answers_completeWaitpoint [answers_intros]: "answers (completeWaitpoint i out)"
  unfolding completeWaitpoint_def continue_blocked_def schedule_continue_def by (intro answers_intros)

lemma answers_ending [answers_intros]:
  "answers (ack_message cfg orgId i b)" "answers (complete_associated i out)" "answers (finalizeRun t)"
  "answers (cancel_children i t reason)" "answers (clearBlockingWaitpoints i)"
  unfolding ack_message_def complete_associated_def finalizeRun_def scheduleCompleteBatch_def cancel_children_def
    clearBlockingWaitpoints_def
  by (intro answers_intros)+

lemma answers_cancelRun [answers_intros]: "answers (cancelRun cfg i a)"
  unfolding cancelRun_def finish_cancelled_def store_cancelRun_def recordBulkActionMembership_def Let_def
  by (intro answers_intros)

lemma answers_permanentlyFailRun [answers_intros]: "answers (permanentlyFailRun cfg i s t er wk rn d)"
  unfolding permanentlyFailRun_def failRunPermanently_def by (intro answers_intros)

lemma answers_retry: "answers (fail i max_retries_error) \<Longrightarrow>
    answers (retry_attempt fail cfg i s c fr wk rn mth st mc oom us)"
  unfolding retry_attempt_def nack_and_requeue_or_def recordRetryOutcome_def requeueRun_def
  by (intro answers_intros) simp_all

lemma answers_outcome:
  "(\<And>r. answers (f r)) \<Longrightarrow> (\<And>e b. answers (g e b)) \<Longrightarrow> (\<And>m s k b u. answers (h m s k b u)) \<Longrightarrow>
   answers (case x of cancel_run r \<Rightarrow> f r | fail_run e b \<Rightarrow> g e b | retry m s k b u \<Rightarrow> h m s k b u)"
  by (cases x) simp_all

lemma answers_attempt_failed:
  "answers (fail i max_retries_error) \<Longrightarrow> answers (attempt_failed_or fail cfg e i k c fr wk rn)"
  unfolding attempt_failed_or_def by (intro answers_outcome answers_retry answers_intros)

lemma answers_attemptFailed: "answers (attemptFailed cfg e i k c fr wk rn)"
proof -
  have "attempt_failed_or fail cfg e' j k' \<lparr>fa_error = max_retries_error, fa_retry = None, fa_durationMs = None\<rparr> fr' wk' rn'
      = attempt_failed_or (\<lambda>_ _. throw RecordNotFound) cfg e' j k'
          \<lparr>fa_error = max_retries_error, fa_retry = None, fa_durationMs = None\<rparr> fr' wk' rn'" for fail e' j k' fr' wk' rn'
    by (rule no_retry_cong) simp_all
  then have "answers (attempt_failed_or fail cfg e' j k'
      \<lparr>fa_error = max_retries_error, fa_retry = None, fa_durationMs = None\<rparr> fr' wk' rn')" for fail e' j k' fr' wk' rn'
    by (metis answers_attempt_failed answers_throw(3))
  then have "answers (system_failure_by (\<lambda>i k c. attemptFailed_fuel (Suc 0) cfg None i k c False None None) i max_retries_error)"
    unfolding system_failure_by_def attemptFailed_fuel.simps by (intro answers_intros)
  then show ?thesis
    unfolding attemptFailed_def numeral_2_eq_2 by (subst attemptFailed_fuel.simps) (rule answers_attempt_failed)
qed

section \<open>Properties\<close>

text \<open>
  C12. The failure of an attempt always comes to an end. \<open>attemptFailed\<close>, \<open>tryNackAndRequeue\<close> and
  \<open>systemFailure\<close> call each other: a failure that is to be retried through the queue becomes
  another failure when the queue gives the run up. Two rounds are all there ever are: more
  change nothing, and the call returns or throws one of its own errors.
\<close>

theorem attempt_failure_terminates:
  "attemptFailed_fuel (Suc (Suc n)) cfg envId i snapshotId completion forceRequeue workerId runnerId w
      = attemptFailed cfg envId i snapshotId completion forceRequeue workerId runnerId w
   \<and> result_of (attemptFailed cfg envId i snapshotId completion forceRequeue workerId runnerId) w \<noteq> Inl OutOfFuel"
  using answers_attemptFailed
  by (simp add: fuel_cong result_of_def answers_def del: attemptFailed_fuel.simps)

text \<open>A call is rejected: it throws a service error and leaves everything as it was.\<close>

definition rejected :: "'a engine \<Rightarrow> world \<Rightarrow> bool" where
  "rejected m w = (case m w of (Inl (ServiceValidationError msg code), w') \<Rightarrow> w' = w | _ \<Rightarrow> False)"

definition discarded :: "checkpoint_result engine \<Rightarrow> world \<Rightarrow> bool" where
  "discarded m w = (case m w of (Inr (Discarded reason), w') \<Rightarrow> \<exists>e. w' = w\<lparr>en_events := en_events w @ [e]\<rparr> | _ \<Rightarrow> False)"

lemma rejected_latest:
  assumes "latest_in e i w = Some s" "\<And>cs. rejected (g (s, cs)) w"
  shows "rejected (andThen (getLatestExecutionSnapshot e i) g) w"
  using assms(2) [of "snd (enhanceExecutionSnapshot w s)"] fst_enhance [of w s]
  by (cases "enhanceExecutionSnapshot w s") (simp add: rejected_def andThen_def getLatest_simps(1) [OF assms(1)])

lemma rejected_require:
  "rejected (throw (ServiceValidationError m n)) w"
  "(b \<Longrightarrow> rejected k w) \<Longrightarrow> rejected (andDo (require b (ServiceValidationError m n)) k) w"
  by (simp_all add: rejected_def throw_def andDo_def andThen_def require_def ret_def)

lemma rejected_find:
  "rejected (g (run_of i w)) w \<Longrightarrow> rejected (andThen (findRun i) g) w"
  "(\<And>t. rejected (h t) w) \<Longrightarrow> rejected (andThen (required x (ServiceValidationError m n)) h) w"
  by (simp_all add: rejected_def andThen_def required_def ret_def throw_def split: option.split)

lemma rejected_current:
  assumes "latest_in e i w = Some s" "sn_executionStatus s = FINISHED \<or> sn_id s \<noteq> k"
  shows "rejected (andThen (current_snapshot e i k) g) w"
proof -
  have "rejected (current_snapshot e i k) w"
    unfolding current_snapshot_def
    by (rule rejected_latest [OF assms(1)], simp only: split, intro rejected_require(2)) (use assms(2) in auto)
  then show ?thesis
    by (cases "current_snapshot e i k w") (simp add: rejected_def andThen_def split: sum.splits)
qed

text \<open>
  C13. A worker that is late is turned away. When a run has finished, or the snapshot a worker names is
  not the run's latest any more, then starting, completing and continuing an attempt are rejected
  with a service error and change nothing. A checkpoint is discarded, which only the event of its
  discarding records, but for one case: while the run is queued again although it executes
  (\<open>QUEUED_EXECUTING\<close>), a worker may still name the snapshot before the latest.
\<close>

theorem late_calls_rejected:
  assumes "latest i w = Some s" "latest_in envId i w = Some s"
    and "sn_executionStatus s = FINISHED \<or> sn_id s \<noteq> k"
  shows "rejected (startRunAttempt cfg envId i k isWarmStart workerId runnerId) w
    \<and> rejected (completeRunAttempt cfg envId i k completion workerId runnerId) w
    \<and> rejected (continueRunExecution cfg envId i k workerId runnerId) w
    \<and> (discarded (createCheckpoint cfg i k c workerId runnerId) w
       \<or> sn_executionStatus s = QUEUED_EXECUTING \<and> sn_previousSnapshotId s = Some k)"
proof (intro conjI)
  have late: "sn_executionStatus s = FINISHED \<or> sn_id s \<noteq> k"
    by (rule assms(3))
  show "rejected (startRunAttempt cfg envId i k isWarmStart workerId runnerId) w"
    unfolding startRunAttempt_def
    by (rule rejected_latest [OF assms(2)], intro rejected_require(2) rejected_find)
      (use late in \<open>auto simp: isFinishedOrPendingFinished_def\<close>)
  show "rejected (completeRunAttempt cfg envId i k completion workerId runnerId) w"
    by (cases completion)
      (simp_all add: completeRunAttempt_def attemptSucceeded_def attemptFailed_def numeral_2_eq_2 attempt_failed_or_def
        rejected_current [OF assms(2) late])
  show "rejected (continueRunExecution cfg envId i k workerId runnerId) w"
    unfolding continueRunExecution_def Let_def
    by (rule rejected_latest [OF assms(2)], rule rejected_require)
      (use late in \<open>auto simp: isPendingExecuting_def intro!: rejected_require\<close>)
  show "discarded (createCheckpoint cfg i k c workerId runnerId) w
      \<or> sn_executionStatus s = QUEUED_EXECUTING \<and> sn_previousSnapshotId s = Some k"
    using assms(1) late fst_enhance [of w s]
    by (auto simp: knows_snapshot_def createCheckpoint_def discarded_def latest_def andThen_def getLatest_simps Let_def discard_checkpoint_def
        andDo_def emit_def modify_def ret_def isCheckpointable_def)
qed

theorem late_calls_rejected_witness:
  "rejected (completeRunAttempt example_engine None ''run1'' ''s0''
     (Failed \<lparr>fa_error = STRING_ERROR ''boom'', fa_retry = None, fa_durationMs = Some 5\<rparr>) None None) blocked_world"
proof -
  have s: "latest ''run1'' blocked_world = Some (snapshot_row ''s1'' 5 example_input)"
    by (simp add: latest_def latest_in_def truthy_def blocked_world_def empty_world_def snapshot_row_def example_input_def)
  have "sn_executionStatus (snapshot_row ''s1'' 5 example_input) = FINISHED \<or> sn_id (snapshot_row ''s1'' 5 example_input) \<noteq> ''s0''"
    by (simp add: snapshot_row_def)
  from late_calls_rejected [OF s s [unfolded latest_def] this] show ?thesis by blast
qed

end
