(* ===== verification/Endings.thy ===== *)
theory Endings
  imports StatusMachine AttemptOutcomes
begin

text \<open>
  The end of a run and those who wait for it: whichever operation finishes a run completes the
  waitpoint the run is associated with and schedules the continuation of every run blocked by it.
\<close>

section \<open>Woken\<close>

text \<open>A waitpoint is completed, and every run it blocks has the job that continues it, due within 50 milliseconds.\<close>

definition waiters_woken :: "waitpoint option \<Rightarrow> world \<Rightarrow> bool" where
  "waiters_woken found w =
     (case found of
        None \<Rightarrow> True
      | Some x \<Rightarrow> wp_status x = WP_COMPLETED \<and>
          list_all (\<lambda>e. will_continue (eg_taskRunId e) w)
            (filter (\<lambda>e. eg_waitpointId e = wp_id x) (en_edges w)))"

definition woken :: "string \<Rightarrow> world \<Rightarrow> bool" where
  "woken i w = waiters_woken (associatedWaitpoint i w) w"

lemma ensures_andThen:
  "ensures P m R \<Longrightarrow> (\<And>x. ensures (R x) (g x) Q) \<Longrightarrow> ensures P (andThen m g) Q"
  unfolding ensures_def andThen_def by (fastforce split: prod.splits sum.splits)

lemma ensures_skip: "(\<And>x. ensures (\<lambda>_. True) (g x) Q) \<Longrightarrow> ensures P (andThen m g) Q"
  by (rule ensures_andThen [where R = "\<lambda>_ _. True"]) (simp_all add: ensures_def)

lemma ensures_skipDo: "ensures (\<lambda>_. True) k Q \<Longrightarrow> ensures P (andDo m k) Q"
  unfolding andDo_def by (rule ensures_skip)

lemma ensures_keep: "ensures P m (\<lambda>_. I) \<Longrightarrow> preserves I k \<Longrightarrow> ensures P (andDo m k) (\<lambda>_. I)"
  unfolding andDo_def by (rule ensures_andThen) (auto simp: ensures_def preserves_def)

lemma find_completed:
  "(\<And>x. p (complete_row now out x) = p x) \<Longrightarrow>
   List.find p (completed_rows now k out xs)
    = map_option (\<lambda>x. if wp_id x = k \<and> wp_status x = WP_PENDING then complete_row now out x else x) (List.find p xs)"
  by (induction xs) (auto simp: completed_rows_def)

lemma batches_completeWaitpoint: "en_batches (snd (completeWaitpoint i out w)) = en_batches w"
proof -
  have "preserves (\<lambda>v. en_batches v = en_batches w) (completeWaitpoint i out)"
    unfolding completeWaitpoint_def continue_blocked_def schedule_continue_def
    by (intro pres) (simp_all add: preserves_def effects)
  then show ?thesis by (simp add: preserves_def)
qed

text \<open>Completing the waitpoint a lookup finds, where it finds one.\<close>

definition complete_found :: "(world \<Rightarrow> waitpoint option) \<Rightarrow> waitpoint_output option \<Rightarrow> unit engine" where
  "complete_found f out =
     andThen (reading f) (\<lambda>found.
       case found of None \<Rightarrow> ret () | Some x \<Rightarrow> andDo (completeWaitpoint (wp_id x) out) (ret ()))"

lemma complete_found_effect:
  assumes "f = (\<lambda>w. List.find p (en_waitpoints w))" "\<And>now x. p (complete_row now out x) = p x"
  shows "\<exists>w'. complete_found f out w = (Inr (), w') \<and> en_batches w' = en_batches w \<and> waiters_woken (f w') w'"
proof (cases "f w")
  case None
  then show ?thesis by (simp add: complete_found_def ret_def waiters_woken_def)
next
  case (Some x)
  then have x: "x \<in> set (en_waitpoints w)" by (auto simp: assms(1) find_Some_iff)
  obtain v y where v: "completeWaitpoint (wp_id x) out w = (Inr y, v)" "en_edges v = en_edges w"
    "en_waitpoints v = completed_rows (en_now w) (wp_id x) out (en_waitpoints w)"
    "\<forall>e \<in> set (en_edges w). eg_waitpointId e = wp_id x \<longrightarrow> will_continue (eg_taskRunId e) v"
    using completeWaitpoint_effect [of "wp_id x" out w] completeWaitpoint_wakes [of "wp_id x" out w] x
    by (cases "completeWaitpoint (wp_id x) out w") (auto split: if_splits)
  obtain z where "f v = Some z" "wp_id z = wp_id x" "wp_status z = WP_COMPLETED"
    using Some v(3) by (cases "wp_status x") (auto simp: assms find_completed)
  moreover have "complete_found f out w = (Inr (), v)"
    using Some v(1) by (simp add: complete_found_def) (simp add: andDo_def andThen_def ret_def)
  moreover have "en_batches v = en_batches w"
    using batches_completeWaitpoint [of "wp_id x" out w] v(1) by simp
  ultimately show ?thesis using v(2,4) by (auto simp: waiters_woken_def list_all_iff)
qed

lemma complete_associated_wakes: "ensures (\<lambda>_. True) (complete_associated i out) (\<lambda>_. woken i)"
proof -
  have "\<exists>w'. complete_associated i out w = (Inr (), w') \<and> woken i w'" for w
    using complete_found_effect [of "associatedWaitpoint i" "\<lambda>x. wp_completedByTaskRunId x = Some i" out w]
    by (auto simp: complete_associated_def complete_found_def woken_def associatedWaitpoint_def complete_row_def fun_eq_iff)
  then show ?thesis unfolding ensures_def by (metis Inr_inject Pair_inject)
qed

lemma woken_frame:
  assumes "woken i w" "en_waitpoints w' = en_waitpoints w" "en_edges w' = en_edges w"
    "\<And>r. will_continue r w \<Longrightarrow> will_continue r w'"
  shows "woken i w'"
  using assms by (auto simp: woken_def waiters_woken_def associatedWaitpoint_def list_all_iff split: option.splits)

lemma woken_after [pres]:
  "preserves (woken i) (emit ev)" "preserves (woken i) the_time" "preserves (woken i) (ackJob (heartbeat_job r))"
  "(\<And>r. k \<noteq> continue_job r) \<Longrightarrow> preserves (woken i) (enqueueJob k pl t)"
  unfolding preserves_def by (auto simp: effects intro: woken_frame)

lemma unrelated_jobs [simp]: "batch_job b \<noteq> continue_job r" "''cancelRun:'' @ c \<noteq> continue_job r"
  by (simp_all add: batch_job_def continue_job_def)

lemma woken_finish [pres]: "preserves (woken i) (finalizeRun t)" "preserves (woken i) (cancel_children j t reason)"
  unfolding finalizeRun_def scheduleCompleteBatch_def cancel_children_def by (intro pres; simp add: continue_job_def batch_job_def)+

section \<open>The ends of a run\<close>

text \<open>Where a run that had not finished has finished, those who wait for it are woken.\<close>

definition unfinished :: "string \<Rightarrow> world \<Rightarrow> bool" where
  "unfinished i w = (status i w \<in> - {Some FINISHED})"

definition ended_well :: "string \<Rightarrow> world \<Rightarrow> bool" where
  "ended_well i w = (status i w = Some FINISHED \<longrightarrow> woken i w)"

lemma ensures_carry:
  "preserves I m \<Longrightarrow> (\<And>x. ensures I (g x) Q) \<Longrightarrow> ensures I (andThen m g) Q"
  by (rule ensures_andThen [where R = "\<lambda>_. I"]) (auto simp: ensures_def preserves_def)

lemma ensures_carryDo: "preserves I m \<Longrightarrow> ensures I k Q \<Longrightarrow> ensures I (andDo m k) Q"
  unfolding andDo_def by (rule ensures_carry)

lemma ensures_end: "preserves (unfinished i) m \<Longrightarrow> ensures (unfinished i) m (\<lambda>_. ended_well i)"
  by (fastforce simp: ensures_def preserves_def ended_well_def unfinished_def)

lemma ensures_cases:
  "(b \<Longrightarrow> ensures P m Q) \<Longrightarrow> (\<not> b \<Longrightarrow> ensures P n Q) \<Longrightarrow> ensures P (if b then m else n) Q"
  "ensures P m Q \<Longrightarrow> (\<And>y. ensures P (f y) Q) \<Longrightarrow> ensures P (case x of None \<Rightarrow> m | Some y \<Rightarrow> f y) Q"
  "(\<And>a b. ensures P (g a b) Q) \<Longrightarrow> ensures P (case p of (a, b) \<Rightarrow> g a b) Q"
  by (simp, cases x, simp_all, cases p, simp)

text \<open>From where the waitpoint is completed to the end.\<close>

lemma ensures_wake:
  assumes "preserves (woken i) k"
  shows "ensures P (andDo (complete_associated i out) k) (\<lambda>_. ended_well i)"
proof -
  have "ensures P (andDo (complete_associated i out) k) (\<lambda>_. woken i)"
    using complete_associated_wakes [of i out] by (intro ensures_keep assms) (simp add: ensures_def)
  then show ?thesis by (simp add: ensures_def ended_well_def)
qed

lemmas skipping = ensures_wake ensures_skip ensures_skipDo ensures_cases pres

lemma success_ends_well: "ensures P (attemptSucceeded cfg e i k c wk rn) (\<lambda>_. ended_well i)"
  unfolding attemptSucceeded_def by (intro skipping)

lemma failRun_ends_well: "ensures P (permanentlyFailRun cfg i s t er wk rn d) (\<lambda>_. ended_well i)"
  unfolding permanentlyFailRun_def by (intro skipping)

lemma finish_ends_well: "ensures P (finish_cancelled cfg i t s er reason a) (\<lambda>_. ended_well i)"
  unfolding finish_cancelled_def by (intro skipping)

interpretation unfinished_run: run_guard "unfinished i" "\<lambda>j s. j = i \<longrightarrow> s \<noteq> FINISHED" "\<lambda>_ _. True"
    "\<lambda>_. True" for i
  by unfold_locales (simp add: unfinished_def status_def latest_core, auto simp: unfinished_def status_def latest_newer)

lemmas carrying = ensures_cases ensures_carry ensures_carryDo ensures_end unfinished_run.guards

lemma cancel_ends_well: "ensures (unfinished i) (cancelRun cfg i a) (\<lambda>_. ended_well i)"
  unfolding cancelRun_def Let_def store_cancelRun_def recordBulkActionMembership_def
  by (intro finish_ends_well carrying) (simp_all add: run_snapshot_def follow_up_def)

lemma nack_ends_well:
  assumes "\<And>er. ensures (unfinished i) (fail i er) (\<lambda>_. ended_well i)"
  shows "ensures (unfinished i) (nack_and_requeue_or fail cfg i a) (\<lambda>_. ended_well i)"
  unfolding nack_and_requeue_or_def requeueRun_def
  by (intro ensures_cases ensures_andThen [OF assms] carrying) (auto simp: ensures_def ret_def split: prod.split)

lemma ensures_outcome:
  "(\<And>r. ensures P (f r) Q) \<Longrightarrow> (\<And>e b. ensures P (g e b) Q) \<Longrightarrow> (\<And>m s k b u. ensures P (h m s k b u) Q) \<Longrightarrow>
   ensures P (case x of cancel_run r \<Rightarrow> f r | fail_run e b \<Rightarrow> g e b | retry m s k b u \<Rightarrow> h m s k b u) Q"
  by (cases x) simp_all

lemma ensures_then_ret: "ensures P m (\<lambda>_. I) \<Longrightarrow> ensures P (andThen m (\<lambda>(a, b). ret (f a b))) (\<lambda>_. I)"
  by (rule ensures_andThen) (auto simp: ensures_def ret_def)

lemma retry_ends_well:
  assumes "\<And>er. ensures (unfinished i) (fail i er) (\<lambda>_. ended_well i)"
  shows "ensures (unfinished i) (retry_attempt fail cfg i s c fr wk rn mth st mc oom us) (\<lambda>_. ended_well i)"
  unfolding retry_attempt_def recordRetryOutcome_def
  by (intro ensures_then_ret nack_ends_well assms carrying) (simp_all add: run_snapshot_def follow_up_def)

lemma quiet_current [quiet_intros]: "quiet (current_snapshot e i k)"
  unfolding current_snapshot_def case_prod_unfold by (intro quiet_intros)

lemma failed_ends_well:
  assumes "\<And>er. ensures (unfinished i) (fail i er) (\<lambda>_. ended_well i)"
  shows "ensures (unfinished i) (attempt_failed_or fail cfg e i k c fr wk rn) (\<lambda>_. ended_well i)"
proof -
  have "preserves (unfinished i) (case x of Inl msg \<Rightarrow> throw (ServiceValidationError msg 404) | Inr y \<Rightarrow> ret y)"
    for x :: "string + retry_outcome"
    by (cases x) (simp_all add: preserves_ret preserves_throw)
  note outcome = ensures_carry [OF this]
  show ?thesis
    unfolding attempt_failed_or_def
    by (intro outcome ensures_outcome ensures_then_ret cancel_ends_well failRun_ends_well retry_ends_well assms quiet_current carrying)
qed

lemma system_failure_ends_well:
  assumes "\<And>k c. ensures (unfinished i) (failed i k c) (\<lambda>_. ended_well i)"
  shows "ensures (unfinished i) (system_failure_by failed i er) (\<lambda>_. ended_well i)"
  unfolding system_failure_by_def by (intro assms carrying)

lemma attempt_failure_ends_well: "ensures (unfinished i) (attemptFailed_fuel n cfg e i k c fr wk rn) (\<lambda>_. ended_well i)"
proof (induction n arbitrary: e k c fr wk rn)
  case 0
  show ?case by (simp add: ensures_def throw_def)
next
  case (Suc n)
  then show ?case by (simp add: failed_ends_well system_failure_ends_well)
qed

lemma expire_ends_well: "ensures (unfinished i) (expireRun cfg i) (\<lambda>_. ended_well i)"
proof -
  have "ensures (unfinished i) (andThen the_time (\<lambda>now. andThen (m now) (\<lambda>t.
      andDo n (andDo (complete_associated i out) (emit ev))))) (\<lambda>_. ended_well i)"
    for m :: "int \<Rightarrow> run engine" and n :: "bool engine" and out ev
    by (intro skipping)
  note tail = this
  show ?thesis
    unfolding expireRun_def by (intro tail carrying)
qed

section \<open>Properties\<close>

text \<open>The handler returns, and if the run has finished then those who wait for it are woken; or it throws.\<close>

definition ends_well :: "string \<Rightarrow> 'a engine \<Rightarrow> world \<Rightarrow> bool" where
  "ends_well i m w = (case m w of (Inl e, w') \<Rightarrow> True | (Inr x, w') \<Rightarrow> ended_well i w')"

lemma ends_wellI: "ensures (unfinished i) m (\<lambda>_. ended_well i) \<Longrightarrow> unfinished i w \<Longrightarrow> ends_well i m w"
  by (auto simp: ends_well_def ensures_def split: prod.split sum.split)

text \<open>
  The two expiries that leave the waitpoint to a job: \<open>waitpoint_due\<close> says that the job which completes the
  waitpoint of a run, with the error, is there and due.
\<close>

definition waitpoint_due :: "(string \<Rightarrow> string) \<Rightarrow> task_run_error \<Rightarrow> string \<Rightarrow> world \<Rightarrow> bool" where
  "waitpoint_due name er i w =
     (case associatedWaitpoint i w of
        None \<Rightarrow> True
      | Some x \<Rightarrow> en_jobs w (name (wp_id x)) =
          Some \<lparr>jb_payload = finishWaitpoint (wp_id x) (Some (stringify_error er)), jb_availableAt = en_now w\<rparr>)"

definition announcement :: "int \<Rightarrow> string \<Rightarrow> job" where
  "announcement now k = \<lparr>jb_payload = finishWaitpoint k (Some (stringify_error batch_error)), jb_availableAt = now\<rparr>"

lemma announce_effect:
  "\<exists>w'. announce_expired now t w = (Inr (), w') \<and> en_waitpoints w' = en_waitpoints w \<and> en_now w' = en_now w \<and>
    (\<forall>k. en_jobs w' (ttl_finish_job k) = (case associatedWaitpoint (tr_id t) w of
       Some x \<Rightarrow> if wp_id x = k then Some (announcement now k) else en_jobs w (ttl_finish_job k)
     | None \<Rightarrow> en_jobs w (ttl_finish_job k)))"
  by (cases "associatedWaitpoint (tr_id t) w"; cases "truthy (tr_organizationId t)")
    (simp_all add: announce_expired_def andThen_def andDo_def reading_def ret_def effects announcement_def ttl_finish_job_def)

lemma announce_all:
  "\<exists>w'. forEach ts (announce_expired now) w = (Inr (), w') \<and> en_waitpoints w' = en_waitpoints w \<and> en_now w' = en_now w \<and>
    (\<forall>k. en_jobs w' (ttl_finish_job k) =
       (if \<exists>t \<in> set ts. map_option wp_id (associatedWaitpoint (tr_id t) w) = Some k then Some (announcement now k)
        else en_jobs w (ttl_finish_job k)))"
proof (induction ts arbitrary: w)
  case Nil
  show ?case by (simp add: ret_def)
next
  case (Cons t ts)
  obtain w1 where w1: "announce_expired now t w = (Inr (), w1)" "en_waitpoints w1 = en_waitpoints w" "en_now w1 = en_now w"
    "\<forall>k. en_jobs w1 (ttl_finish_job k) = (case associatedWaitpoint (tr_id t) w of
       Some x \<Rightarrow> if wp_id x = k then Some (announcement now k) else en_jobs w (ttl_finish_job k)
     | None \<Rightarrow> en_jobs w (ttl_finish_job k))"
    using announce_effect by blast
  have "associatedWaitpoint j w1 = associatedWaitpoint j w" for j using w1(2) by (simp add: associatedWaitpoint_def)
  with Cons.IH [of w1] obtain w2 where w2: "forEach ts (announce_expired now) w1 = (Inr (), w2)"
    "en_waitpoints w2 = en_waitpoints w" "en_now w2 = en_now w"
    "\<forall>k. en_jobs w2 (ttl_finish_job k) =
       (if \<exists>t \<in> set ts. map_option wp_id (associatedWaitpoint (tr_id t) w) = Some k then Some (announcement now k)
        else en_jobs w1 (ttl_finish_job k))"
    using w1(2,3) by auto
  have "en_jobs w2 (ttl_finish_job k) =
      (if \<exists>u \<in> set (t # ts). map_option wp_id (associatedWaitpoint (tr_id u) w) = Some k then Some (announcement now k)
       else en_jobs w (ttl_finish_job k))" for k
    using w1(4) w2(4) by (auto split: option.splits)
  with w1(1) w2 show ?case by (intro exI [of _ w2]) (simp add: andDo_def andThen_def)
qed

lemma batch_expiry_announced:
  assumes "run_of i w = Some t" "i \<in> set ids" "can_expire t"
  shows "waitpoint_due ttl_finish_job batch_error i (state_after (expireRunsBatch ids) w)"
proof -
  let ?ts = "filter can_expire (filter (\<lambda>t. tr_id t \<in> set ids) (en_runs w))"
  have t: "t \<in> set ?ts" "tr_id t = i" using assms by (auto simp: run_of_def find_Some_iff)
  then have ids: "ids \<noteq> []" "?ts \<noteq> []" using assms(2) by (auto simp: filter_empty_conv)
  define v where "v = snd (store_expireRunsBatch (map tr_id ?ts) batch_error (en_now w) w)"
  have v: "store_expireRunsBatch (map tr_id ?ts) batch_error (en_now w) w = (Inr (), v)" "en_waitpoints v = en_waitpoints w"
    "en_now v = en_now w" by (simp_all add: v_def store_expireRunsBatch_def effects)
  obtain w' where w': "forEach ?ts (announce_expired (en_now w)) v = (Inr (), w')" "en_waitpoints w' = en_waitpoints v"
    "en_now w' = en_now v" "\<forall>k. en_jobs w' (ttl_finish_job k) =
       (if \<exists>t \<in> set ?ts. map_option wp_id (associatedWaitpoint (tr_id t) v) = Some k then Some (announcement (en_now w) k)
        else en_jobs v (ttl_finish_job k))"
    using announce_all by blast
  have "state_after (expireRunsBatch ids) w = w'"
    using ids v(1) w'(1) by (simp add: state_after_def expireRunsBatch_def andThen_def andDo_def reading_def the_time_def ret_def Let_def)
  moreover have "associatedWaitpoint i w' = associatedWaitpoint i v" using w'(2) by (simp add: associatedWaitpoint_def)
  moreover have "en_jobs w' (ttl_finish_job (wp_id x)) = Some (announcement (en_now w) (wp_id x))"
    if "associatedWaitpoint i v = Some x" for x
    using w'(4) t that by force
  ultimately show ?thesis
    using v(3) w'(3) by (auto simp: waitpoint_due_def announcement_def split: option.split)
qed

text \<open>The expiry of a parked run.\<close>

definition parked_well :: "string \<Rightarrow> string \<Rightarrow> world \<Rightarrow> bool" where
  "parked_well x i w = (status i w = Some FINISHED \<longrightarrow> waitpoint_due park_finish_job (parked_error x) i w)"

lemma parked_end: "preserves (unfinished i) m \<Longrightarrow> ensures (unfinished i) m (\<lambda>_. parked_well x i)"
  by (fastforce simp: ensures_def preserves_def parked_well_def unfinished_def)

lemma expire_parked_well:
  assumes "tr_id t = i"
  shows "ensures (unfinished i) (expire_parked t env orgId x) (\<lambda>_. parked_well x i)"
proof -
  have "parked_well x i w'" if u: "unfinished i w" and e: "expire_parked t env orgId x w = (Inr y, w')" for w w' y
  proof -
    obtain c v where c: "expireParkedRun i (parked_error x) (en_now w) EXPIRED_ON_EXTERNAL_DEPLOYMENT_STATUS_REASON
        (parked_snapshot t env orgId x) w = (Inr c, v)"
      using e by (auto simp: expire_parked_def assms andThen_def reading_def the_time_def split: prod.splits sum.splits)
    have rest: "c = 0 \<and> v = w \<or> c \<noteq> 0 \<and> en_waitpoints v = en_waitpoints w \<and> en_now v = en_now w"
      using c by (auto simp: expireParkedRun_def andThen_def findRun_def reading_def updateTaskRun_def ret_def
          store_createExecutionSnapshot_eq split: option.splits if_splits)
    have w': "w' = (if c = 0 then v else (case associatedWaitpoint i w of None \<Rightarrow> v
        | Some y \<Rightarrow> v\<lparr>en_jobs := (en_jobs v)(park_finish_job (wp_id y) := Some \<lparr>jb_payload =
            finishWaitpoint (wp_id y) (Some (stringify_error (parked_error x))), jb_availableAt = en_now w\<rparr>)\<rparr>)
          \<lparr>en_events := en_events v @ [runExpired i]\<rparr>)"
      using e c by (auto simp: expire_parked_def assms andThen_def andDo_def reading_def the_time_def ret_def effects
          split: option.splits)
    from rest show ?thesis
    proof (elim disjE conjE)
      assume "c = 0" "v = w"
      with w' u show ?thesis by (simp add: parked_well_def unfinished_def)
    next
      assume "c \<noteq> 0" "en_waitpoints v = en_waitpoints w" "en_now v = en_now w"
      then show ?thesis using w'
        by (auto simp: parked_well_def waitpoint_due_def associatedWaitpoint_def split: option.split)
    qed
  qed
  then show ?thesis by (auto simp: ensures_def)
qed

lemma parked_ends_well: "ensures (unfinished i) (expireParkedExternalDeploymentRun cfg pv i x) (\<lambda>_. parked_well x i)"
proof -
  have "parked_well x i w'" if u: "unfinished i w" and e: "expireParkedExternalDeploymentRun cfg pv i x w = (Inr y, w')" for w w' y
  proof (cases "run_of i w")
    case None
    with u e show ?thesis
      by (simp add: expireParkedExternalDeploymentRun_def andThen_Inr [OF findRun_run] ret_def parked_well_def unfinished_def)
  next
    case (Some t)
    have id: "tr_id t = i" by (rule run_of_id [OF Some])
    have quiet_release: "preserves (unfinished i) (release_parked cfg pv t env x)" for env
      unfolding release_parked_def by (intro pres unfinished_run.promoteParked_guard unfinished_run.guards) (simp_all add: id)
    have deadline: "ensures (unfinished i) (scheduleExternalDeploymentParkDeadline pv i x a b) (\<lambda>_. parked_well x i)" for a b
      unfolding scheduleExternalDeploymentParkDeadline_def
      by (intro parked_end unfinished_run.quiet_guard quiet_intros)
    have body: "ensures (unfinished i) (andThen (release_parked cfg pv t env x) (\<lambda>finished.
        if finished then ret ()
        else andThen the_time (\<lambda>now. if still_delayed now t
          then scheduleExternalDeploymentParkDeadline pv i x (tr_ttl t) (tr_delayUntil t) else expire_parked t env orgId x)))
        (\<lambda>_. parked_well x i)" for env orgId
      by (intro ensures_carry quiet_release ensures_cases deadline expire_parked_well id parked_end unfinished_run.guards)
    from Some u e show ?thesis
      using body by (auto simp: expireParkedExternalDeploymentRun_def andThen_Inr [OF findRun_run] ret_def parked_well_def
          unfinished_def ensures_def split: option.splits if_splits)
  qed
  then show ?thesis by (auto simp: ensures_def)
qed

text \<open>
  C3. Nobody waits for a run that has finished. When a call that finishes a run - its success, a failure
  that is not retried, a failure the system decides on, cancelling it, its expiry - returns, it has
  completed the waitpoint of the run, and every run blocked by it has the job that continues this run,
  due within 50 milliseconds. The expiry of several runs at once, by the queue, and the expiry of a run that
  is parked on a deployment leave the waitpoint to a job: where they expire the run, the job that
  completes its waitpoint with the error is there and due.
\<close>

theorem finish_wakes_waiters:
  assumes "status i w \<noteq> Some FINISHED"
  shows "ends_well i (completeRunAttempt cfg envId i k completion workerId runnerId) w
    \<and> ends_well i (systemFailure cfg i er) w \<and> ends_well i (cancelRun cfg i a) w \<and> ends_well i (expireRun cfg i) w
    \<and> (case run_of i w of None \<Rightarrow> True | Some t \<Rightarrow>
        i \<in> set ids \<and> can_expire t \<longrightarrow> waitpoint_due ttl_finish_job batch_error i (state_after (expireRunsBatch ids) w))
    \<and> (case expireParkedExternalDeploymentRun cfg pv i x w of
        (Inl e, w') \<Rightarrow> True
      | (Inr y, w') \<Rightarrow> status i w' = Some FINISHED \<longrightarrow> waitpoint_due park_finish_job (parked_error x) i w')"
proof -
  have w: "unfinished i w" using assms by (simp add: unfinished_def)
  have "ensures (unfinished i) (completeRunAttempt cfg envId i k completion workerId runnerId) (\<lambda>_. ended_well i)"
    by (cases completion) (simp_all add: completeRunAttempt_def success_ends_well attemptFailed_def attempt_failure_ends_well)
  moreover have "ensures (unfinished i) (systemFailure cfg i er) (\<lambda>_. ended_well i)"
    unfolding systemFailure_def attemptFailed_def by (intro system_failure_ends_well attempt_failure_ends_well)
  moreover have "case expireParkedExternalDeploymentRun cfg pv i x w of
        (Inl e, w') \<Rightarrow> True
      | (Inr y, w') \<Rightarrow> status i w' = Some FINISHED \<longrightarrow> waitpoint_due park_finish_job (parked_error x) i w'"
    using parked_ends_well [of i cfg pv x] w by (auto simp: ensures_def parked_well_def split: prod.split sum.split)
  moreover have "case run_of i w of None \<Rightarrow> True | Some t \<Rightarrow>
        i \<in> set ids \<and> can_expire t \<longrightarrow> waitpoint_due ttl_finish_job batch_error i (state_after (expireRunsBatch ids) w)"
    by (auto intro: batch_expiry_announced split: option.split)
  ultimately show ?thesis
    using w by (simp add: ends_wellI cancel_ends_well expire_ends_well)
qed

theorem finish_wakes_waiters_witness:
  "ends_well ''run1'' (cancelRun example_engine ''run1'' finalize_cancel) running_world"
proof -
  have "status ''run1'' running_world \<noteq> Some FINISHED"
    by (simp add: status_def latest_def latest_in_def truthy_def running_world_def blocked_world_def empty_world_def
        snapshot_row_def example_input_def)
  then show ?thesis using finish_wakes_waiters [of "''run1''" running_world] by blast
qed

end
