(* ===== verification/BatchOutcomes.thy ===== *)
theory BatchOutcomes
  imports Endings
begin

text \<open>
  Batches of runs: when one is completed, that its end is final and that whoever waits for it
  is woken.
\<close>

lemma batch_waitpoint_effect:
  "\<exists>w'. complete_batch_waitpoint b out w = (Inr (), w') \<and> en_batches w' = en_batches w
     \<and> waiters_woken (batch_waitpoint b w') w'"
  using complete_found_effect [of "batch_waitpoint b" "\<lambda>x. wp_completedByBatchId x = Some b" "Some out" w]
  by (simp add: complete_batch_waitpoint_def complete_found_def batch_waitpoint_def complete_row_def fun_eq_iff)

lemma find_map_batch:
  "(\<And>x. bt_id (f x) = bt_id x) \<Longrightarrow>
   List.find (\<lambda>x. bt_id x = b) (map f bs) = map_option f (List.find (\<lambda>x. bt_id x = b) bs)"
  by (induction bs) auto

section \<open>The end of a batch is final\<close>

definition batch_ended :: "batch \<Rightarrow> bool" where
  "batch_ended x = (bt_status x \<in> {BATCH_COMPLETED, BATCH_ABORTED})"

text \<open>The same batches, of which those that had ended are as they were.\<close>

definition batches_le :: "world \<Rightarrow> world \<Rightarrow> bool" where
  "batches_le w w' =
     list_all2 (\<lambda>x y. bt_id y = bt_id x \<and> (batch_ended x \<longrightarrow> y = x)) (en_batches w) (en_batches w')"

datatype batch_event = CompleteBatchJob string | ExpireBatchJob string

fun batch_step :: "world \<Rightarrow> batch_event \<Rightarrow> world" where
  "batch_step w (CompleteBatchJob b) = state_after (tryCompleteBatch b) w"
| "batch_step w (ExpireBatchJob b) = state_after (expireBatch b) w"

lemma batches_le_refl: "batches_le w w"
  by (simp add: batches_le_def list_all2_refl)

lemma batches_le_trans: "batches_le w v \<Longrightarrow> batches_le v u \<Longrightarrow> batches_le w u"
  unfolding batches_le_def by (rule list_all2_trans) auto

lemma batches_le_update:
  "(\<And>x. bt_id (f x) = bt_id x) \<Longrightarrow> (\<And>x. p x \<Longrightarrow> \<not> batch_ended x) \<Longrightarrow>
   batches_le w (w\<lparr>en_batches := map (\<lambda>x. if p x then f x else x) (en_batches w)\<rparr>)"
  by (auto simp: batches_le_def list_all2_conv_all_nth)

lemma batches_le_waitpoint:
  "batches_le w v \<Longrightarrow> batches_le w (snd (complete_batch_waitpoint b out v))"
  using batch_waitpoint_effect [of b out v] by (auto simp: batches_le_def)

lemma batch_step_le: "batches_le w (batch_step w ev)"
proof (cases ev)
  case (CompleteBatchJob b)
  let ?w = "w\<lparr>en_batches := map (\<lambda>y. if bt_id y = b \<and> bt_status y \<notin> {BATCH_ABORTED, BATCH_COMPLETED}
      then y\<lparr>bt_status := BATCH_COMPLETED\<rparr> else y) (en_batches w)\<rparr>"
  have "batches_le w ?w" by (rule batches_le_update) (auto simp: batch_ended_def)
  with CompleteBatchJob show ?thesis
    using batches_le_refl [of w]
    by (auto simp: tryCompleteBatch_def state_after_def andThen_def reading_def ret_def updateBatches_def
        batches_le_waitpoint split: option.split)
next
  case (ExpireBatchJob b)
  let ?w = "w\<lparr>en_batches := map (\<lambda>y. if still_open b y then abort_row (en_now w) y else y) (en_batches w)\<rparr>"
  have "batches_le w ?w"
    by (rule batches_le_update) (auto simp: batch_ended_def still_open_def abort_row_def)
  with ExpireBatchJob show ?thesis
    using batches_le_refl [of w]
    by (auto simp: expireBatch_def state_after_def andThen_def reading_def ret_def the_time_def updateBatches_def
        batches_le_waitpoint split: option.split)
qed

interpretation batch_machine: monotone_machine batch_step batches_le
  by unfold_locales (blast intro: batches_le_refl batches_le_trans batch_step_le)+

section \<open>Properties\<close>

text \<open>
  C31. A batch ends once: however often its completion is tried and its timeout fires, in whatever
  order, a batch that was completed stays completed and one that was aborted stays aborted, with
  everything its row records; no batch appears or disappears.
\<close>

theorem batch_ends_once: "batches_le w (foldl batch_step w events)"
  by (rule batch_machine.run_le)

text \<open>
  C30. A batch is completed exactly when it is due: an attempt to complete one that has not ended
  completes it if all its items were processed and all its runs have ended, and then completes
  its waitpoint and schedules the continuation of the runs that wait for it; otherwise it
  changes nothing.
\<close>

theorem batch_completed_when_due:
  assumes "batch_of b w = Some x" "\<not> batch_ended x"
  shows "let w' = state_after (tryCompleteBatch b) w;
             due = (bt_runCount x \<le> processed_count x \<and> list_all (\<lambda>t. isFinalRunStatus (tr_status t)) (batch_runs x w))
         in if due then map_option bt_status (batch_of b w') = Some BATCH_COMPLETED \<and> waiters_woken (batch_waitpoint b w') w'
            else w' = w"
proof (cases "bt_runCount x \<le> processed_count x \<and> list_all (\<lambda>t. isFinalRunStatus (tr_status t)) (batch_runs x w)")
  case False
  with assms show ?thesis
    by (auto simp: tryCompleteBatch_def state_after_def ret_def Let_def)
next
  case True
  let ?p = "\<lambda>y. bt_id y = b \<and> bt_status y \<notin> {BATCH_ABORTED, BATCH_COMPLETED}"
  let ?w = "w\<lparr>en_batches := map (\<lambda>y. if ?p y then y\<lparr>bt_status := BATCH_COMPLETED\<rparr> else y) (en_batches w)\<rparr>"
  let ?out = "\<lparr>wo_value = ''Batch waitpoint completed'', wo_type = None, wo_isError = False\<rparr>"
  have x: "x \<in> set (en_batches w)" "bt_id x = b" using assms(1) by (auto simp: batch_of_def find_Some_iff)
  have "?p x" using x(2) assms(2) by (auto simp: batch_ended_def)
  with x(1) have some: "filter ?p (en_batches w) \<noteq> []" by (auto simp: filter_empty_conv)
  obtain w' where w': "complete_batch_waitpoint b ?out ?w = (Inr (), w')" "en_batches w' = en_batches ?w"
    "waiters_woken (batch_waitpoint b w') w'"
    using batch_waitpoint_effect by blast
  have "state_after (tryCompleteBatch b) w = w'"
    using assms True some w'(1)
    by (simp add: tryCompleteBatch_def state_after_def batch_ended_def)
      (simp add: andThen_def updateBatches_def)
  moreover have "map_option bt_status (batch_of b w') = Some BATCH_COMPLETED"
    using assms(1) w'(2) \<open>?p x\<close> by (simp add: batch_of_def find_map_batch)
  ultimately show ?thesis using True w'(3) by (simp add: Let_def)
qed

definition example_batch :: batch where
  "example_batch = \<lparr>bt_id = ''b1'', bt_friendlyId = ''batch_1'', bt_status = BATCH_PROCESSING, bt_sealed = True,
     bt_batchVersion = ''runengine:v2'', bt_runtimeEnvironmentId = ''e1'', bt_runCount = 1, bt_expectedCount = 1,
     bt_processingJobsCount = 0, bt_successfulRunCount = Some 1, bt_failedRunCount = None, bt_completedAt = None,
     bt_processingCompletedAt = None, bt_processingStartedAt = None, bt_sealedAt = None, bt_runIds = []\<rparr>"

definition batch_world :: world where
  "batch_world = empty_world\<lparr>en_batches := [example_batch],
     en_runs := [example_row\<lparr>tr_batchId := Some ''b1'', tr_status := CANCELED\<rparr>],
     en_waitpoints := [example_waitpoint\<lparr>wp_completedByBatchId := Some ''b1''\<rparr>]\<rparr>"

theorem batch_completed_when_due_witness:
  "map_option bt_status (batch_of ''b1'' (state_after (tryCompleteBatch ''b1'') batch_world)) = Some BATCH_COMPLETED"
proof -
  have "batch_of ''b1'' batch_world = Some example_batch" "\<not> batch_ended example_batch"
    by (simp_all add: batch_of_def batch_world_def example_batch_def batch_ended_def)
  from batch_completed_when_due [OF this] show ?thesis
    by (simp add: Let_def batch_world_def empty_world_def example_batch_def processed_count_def or_default_def
        batch_runs_def example_row_def isFinalRunStatus_def finalStatuses_def split: if_splits)
qed

end
