(* ===== verification/FastPath.thy ===== *)
theory FastPath
  imports RunQueue
begin

text \<open>
  The fast path of the run queue (\<open>run-queue/index.ts\<close>): a message whose queue is idle goes to its
  worker queue at once, instead of being enqueued, found by the next round over the master queue
  and handed over. Here the two ways are shown to leave the same store.
\<close>

lemma zrem_zadd: "i \<notin> zmembers z \<Longrightarrow> zrem i (zadd s i z) = z"
proof -
  assume i: "i \<notin> zmembers z"
  then have "zrem i z = z" by (auto simp: zrem_def zmembers_def filter_id_conv)
  moreover have "filter (\<lambda>e. fst e \<noteq> i) (insort_key zscore_key (i, s) y) = filter (\<lambda>e. fst e \<noteq> i) y" for y
    by (induction y) auto
  ultimately show ?thesis by (simp add: zadd_def zrem_def)
qed

lemma SREM_absent: "i \<notin> set (r_sets r k) \<Longrightarrow> SREM k i r = r"
proof -
  assume i: "i \<notin> set (r_sets r k)"
  have "srem i (r_sets r k) = r_sets r k"
    unfolding srem_def using i by (intro filter_True) auto
  then show ?thesis by (simp add: SREM_def)
qed

text \<open>Nothing knows of the run: it is in no set and no queue, and its queue is idle.\<close>

definition unknown_run :: "queue_options \<Rightarrow> message \<Rightarrow> message redis \<Rightarrow> bool" where
  "unknown_run cfg m r =
     (let q = m_queue m; i = m_runId m
      in r_zsets r q = [] \<and> q \<notin> zmembers (r_zsets r (masterQueueKey cfg (m_environmentId m)))
       \<and> i \<notin> zmembers (r_zsets r (envQueueKeyFromQueue q))
       \<and> ttl_member q i (m_orgId m) \<notin> zmembers (r_zsets r (ttl_key cfg q))
       \<and> list_all (\<lambda>k. i \<notin> set (r_sets r k))
           [queueCurrentConcurrencyKeyFromQueue q, envCurrentConcurrencyKeyFromQueue q,
            queueCurrentDequeuedKeyFromQueue q, envCurrentDequeuedKeyFromQueue q])"

text \<open>The entry in the TTL set that \<open>enqueueMessage\<close> passes on for a message.\<close>

definition ttl_entry :: "queue_options \<Rightarrow> message \<Rightarrow> ttl_info" where
  "ttl_entry cfg m =
     (case m_ttlExpiresAt m of
        None \<Rightarrow> None
      | Some t \<Rightarrow>
          if t \<noteq> 0 \<and> qo_ttlSystem cfg
          then Some (ttlQueueKeyForShard (getTtlShardForQueue cfg (m_queue m)), t, ttl_member (m_queue m) (m_runId m) (m_orgId m))
          else None)"

lemma add_ttl_frame:
  "r_sets (add_ttl ttl r) = r_sets r" "r_messages (add_ttl ttl r) = r_messages r" "r_limits (add_ttl ttl r) = r_limits r"
  "r_lists (add_ttl ttl r) = r_lists r" "r_counters (add_ttl ttl r) = r_counters r"
  "r_zsets (add_ttl (ttl_entry cfg m) r) k =
    (if m_ttlExpiresAt m \<noteq> None \<and> m_ttlExpiresAt m \<noteq> Some 0 \<and> qo_ttlSystem cfg \<and> k = ttl_key cfg (m_queue m)
     then zadd (the (m_ttlExpiresAt m)) (ttl_member (m_queue m) (m_runId m) (m_orgId m)) (r_zsets r k) else r_zsets r k)"
  by (auto simp: add_ttl_def ttl_entry_def ttl_key_def split: option.split)

lemma enqueue_slow_unknown:
  assumes "unknown_run cfg m r" "m_queue m \<noteq> envQueueKeyFromQueue (m_queue m)" "m_queue m \<noteq> ttl_key cfg (m_queue m)"
  shows "enqueue_slow cfg (ttl_entry cfg m) m r =
    ZADD (masterQueueKey cfg (m_environmentId m)) (m_timestamp m) (m_queue m)
      (add_ttl (ttl_entry cfg m) (ZADD (envQueueKeyFromQueue (m_queue m)) (m_timestamp m) (m_runId m)
        (ZADD (m_queue m) (m_timestamp m) (m_runId m) (SETM (messageKey (m_orgId m) (m_runId m)) m r))))"
proof -
  have "r_zsets (add_ttl (ttl_entry cfg m) x) (m_queue m) = r_zsets x (m_queue m)" for x :: "message redis"
    using add_ttl_frame(6) [of cfg m x "m_queue m"] assms(3) by simp
  with assms(1,2) show ?thesis
    by (simp add: enqueue_slow_def Let_def rebalance_master_def release_sets_def SREM_absent unknown_run_def
        zadd_def zrem_def add_ttl_frame(1))
qed

lemma key_facts:
  assumes "good_env env"
  shows "queueKey env name ck \<noteq> envQueueKeyFromQueue (queueKey env name ck)"
    "queueKey env name ck \<noteq> masterQueueKeyForShard n" "queueKey env name ck \<noteq> ttl_key cfg q"
    "envQueueKeyFromQueue (queueKey env name ck) \<noteq> masterQueueKeyForShard n"
    "envQueueKeyFromQueue (queueKey env name ck) \<noteq> ttl_key cfg q" "masterQueueKeyForShard n \<noteq> ttl_key cfg q"
    "messageKeyPrefixFromQueue (queueKey env name ck) @ i = messageKey (env_organizationId env) i"
proof -
  have own: "own_zset (queueKey env name ck)" by (rule own_zset_queueKey [OF assms])
  then show "queueKey env name ck \<noteq> envQueueKeyFromQueue (queueKey env name ck)"
    "queueKey env name ck \<noteq> masterQueueKeyForShard n"
    by (simp_all add: own_zset_def)
  obtain rest where "queueKey env name ck = env_prefix env @ '':queue:'' @ name @ rest" using queueKey_prefix by blast
  with own show "queueKey env name ck \<noteq> ttl_key cfg q" by (auto simp: own_zset_def ttl_key_def)
  show "envQueueKeyFromQueue (queueKey env name ck) \<noteq> masterQueueKeyForShard n"
    "envQueueKeyFromQueue (queueKey env name ck) \<noteq> ttl_key cfg q" "masterQueueKeyForShard n \<noteq> ttl_key cfg q"
    by (simp_all add: envQueueKeyFromQueue_def masterQueueKeyForShard_def section_defs ttl_key_def ttlQueueKeyForShard_def)
  have "orgIdFromQueue (queueKey env name ck) = env_organizationId env"
    using envDescriptorFromQueue_queueKey [OF assms, of name ck]
    by (simp add: envDescriptorFromQueue_def orgIdFromQueue_def Let_def descriptorOfEnvironment_def)
  then show "messageKeyPrefixFromQueue (queueKey env name ck) @ i = messageKey (env_organizationId env) i"
    by (simp add: messageKeyPrefixFromQueue_def messageKey_def)
qed

section \<open>Properties\<close>

text \<open>
  C20. The fast path is equivalent to the slow one, for a message without concurrency key that nothing knows
  of yet: its queue is empty and not in the master queue, and its run is in none of the queues and
  sets of its queue and environment. If there is room for it (the limits are whole numbers), it is due,
  its time to live has not run out, and its worker queue is not overridden, then the store the fast path
  leaves is the one that enqueueing the message, dequeueing it and handing it to its worker queue leaves.
\<close>

theorem fast_path_equivalent:
  assumes "good_env env" "m_queue m = queueKey env name None" "m_orgId m = env_organizationId env"
    and "\<not> has_ck m" "case m_ttlExpiresAt m of None \<Rightarrow> True | Some t \<Rightarrow> now < t" "getOverride (qo_overrides cfg) m = None"
    and "fast_path_available cfg now m r" "m_timestamp m \<le> now" "queue_limit cfg (m_queue m) r \<in> \<int>"
    and "unknown_run cfg m r"
  shows "let n = masterQueueShardForEnvironment (qo_sha256 cfg) (m_environmentId m) (qo_shardCount cfg);
             (fast, r1) = callEnqueueMessage cfg now (ttl_entry cfg m) True m r;
             (slow, r2) = callEnqueueMessage cfg now (ttl_entry cfg m) False m r;
             (messages, r3) = callDequeueMessagesFromQueue cfg now (m_queue m) n 1 r2
         in fast \<and> \<not> slow \<and> enqueueMessagesToWorkerQueues cfg messages r3 = r1"
proof -
  define q i t where "q = m_queue m" and "i = m_runId m" and "t = m_timestamp m"
  define n where "n = masterQueueShardForEnvironment (qo_sha256 cfg) (m_environmentId m) (qo_shardCount cfg)"
  define M E T where "M = masterQueueKeyForShard n" and "E = envQueueKeyFromQueue q" and "T = ttl_key cfg q"
  define k e where "k = messageKey (m_orgId m) i" and "e = ttl_member q i (m_orgId m)"
  let ?r2 = "ZADD M t q (add_ttl (ttl_entry cfg m) (ZADD E t i (ZADD q t i (SETM k m r))))"
  have M: "masterQueueKey cfg (m_environmentId m) = M"
    by (simp add: masterQueueKey_def M_def n_def)
  have ne: "q \<noteq> E" "q \<noteq> M" "E \<noteq> M" "q \<noteq> T" "E \<noteq> T" "M \<noteq> T" "messageKeyPrefixFromQueue q @ i = k"
    using key_facts [OF assms(1)] assms(2,3) by (simp_all add: q_def E_def M_def T_def k_def)
  note un = assms(10) [unfolded unknown_run_def Let_def M, folded q_def i_def, folded E_def T_def e_def]
  have slow: "callEnqueueMessage cfg now (ttl_entry cfg m) False m r = (False, ?r2)"
    using enqueue_slow_unknown [OF assms(10)] ne(1,4) assms(4) M
    by (simp add: callEnqueueMessage_def q_def i_def t_def k_def E_def T_def)
  have z: "r_zsets ?r2 q = [(i, t)]" using ne un by (simp add: zadd_def zrem_def add_ttl_frame q_def [symmetric] T_def [symmetric])
  have "\<lfloor>queue_limit cfg q r\<rfloor> > int (queue_current q r)"
    using assms(7,9) by (auto simp: fast_path_available_def q_def elim!: Ints_cases)
  moreover have "env_limit_with_burst cfg q r > int (env_current q r)"
    using assms(7) by (simp add: fast_path_available_def q_def)
  moreover have "queue_limit cfg q ?r2 = queue_limit cfg q r" "queue_current q ?r2 = queue_current q r"
    "env_limit_with_burst cfg q ?r2 = env_limit_with_burst cfg q r" "env_current q ?r2 = env_current q r"
    by (simp_all add: queue_limit_def queue_current_def env_limit_with_burst_def env_current_def env_limit_def limit_or_def
        add_ttl_frame)
  ultimately have cap: "env_limit_with_burst cfg q ?r2 - int (env_current q ?r2) > 0"
    "\<lfloor>queue_limit cfg q ?r2\<rfloor> - int (queue_current q ?r2) > 0"
    by simp_all
  let ?claimed = "SADD (envCurrentConcurrencyKeyFromQueue q) i (SADD (queueCurrentConcurrencyKeyFromQueue q) i (ZREM E i (ZREM q i ?r2)))"
  let ?taken = "if m_ttlExpiresAt m \<noteq> None \<and> T \<noteq> [] then ZREM T e ?claimed else ?claimed"
  have one: "dequeue_one q now T (i, t) ?r2 = (Some (i, t, m), ?taken)"
    using ne(7) assms(5) by (cases "m_ttlExpiresAt m") (simp_all add: dequeue_one_def Let_def E_def e_def add_ttl_frame(2))
  have "r_zsets ?taken q = []" using ne z by (simp add: zrem_def)
  then have "callDequeueMessagesFromQueue cfg now q n 1 ?r2 = ([(i, t, m)], ZREM M q ?taken)"
    using cap z assms(8) one
    by (simp add: callDequeueMessagesFromQueue_def Let_def zrangebyscore_def t_def [symmetric] T_def [symmetric] min_def
        rebalance_master_def M_def [symmetric] del: redis_cmds)
  moreover have zsets: "r_zsets (ZREM M q ?taken) = r_zsets r"
  proof
    fix j
    have "zrem e (r_zsets r T) = r_zsets r T" using un by (auto simp: zrem_def zmembers_def filter_id_conv)
    moreover have "T = [] \<longleftrightarrow> \<not> qo_ttlSystem cfg" by (simp add: T_def ttl_key_def ttlQueueKeyForShard_def)
    ultimately show "r_zsets (ZREM M q ?taken) j = r_zsets r j"
      using ne un by (auto simp: add_ttl_frame zrem_zadd q_def [symmetric] i_def [symmetric] T_def [symmetric] e_def [symmetric])
  qed
  have "enqueueMessagesToWorkerQueues cfg [(i, t, m)] (ZREM M q ?taken) = enqueue_fast m r"
    using assms(6) zsets
    by (intro redis.equality)
      (simp_all add: enqueue_fast_def getWorkerQueueFromMessage_def k_def q_def [symmetric] i_def [symmetric] add_ttl_frame)
  moreover have "callEnqueueMessage cfg now (ttl_entry cfg m) True m r = (True, enqueue_fast m r)"
    using assms(7,8) by (simp add: callEnqueueMessage_def)
  ultimately show ?thesis using slow by (simp add: Let_def n_def [symmetric] q_def)
qed

text \<open>A message that expires at 30, in a store with a TTL system.\<close>

definition expiring_message :: message where
  "expiring_message = example_message\<lparr>m_ttlExpiresAt := Some 30\<rparr>"

definition ttl_cfg :: queue_options where
  "ttl_cfg = example_cfg\<lparr>qo_ttlSystem := True\<rparr>"

theorem fast_path_equivalent_witness:
  "let n = masterQueueShardForEnvironment (qo_sha256 ttl_cfg) (m_environmentId expiring_message) (qo_shardCount ttl_cfg);
       (fast, r1) = callEnqueueMessage ttl_cfg 20 (ttl_entry ttl_cfg expiring_message) True expiring_message empty_redis;
       (slow, r2) = callEnqueueMessage ttl_cfg 20 (ttl_entry ttl_cfg expiring_message) False expiring_message empty_redis;
       (messages, r3) = callDequeueMessagesFromQueue ttl_cfg 20 (m_queue expiring_message) n 1 r2
   in fast \<and> \<not> slow \<and> enqueueMessagesToWorkerQueues ttl_cfg messages r3 = r1"
proof -
  have fast: "fast_path_available ttl_cfg 20 expiring_message empty_redis"
    by (simp add: fast_path_available_def empty_redis_def zrangebyscore_def env_current_def
        queue_current_def env_limit_with_burst_def env_limit_def queue_limit_def limit_or_def
        example_cfg_def ttl_cfg_def or_default_def)
  have "queue_limit ttl_cfg (m_queue expiring_message) empty_redis = of_int 2"
    by (simp add: queue_limit_def limit_or_def env_limit_def empty_redis_def example_cfg_def ttl_cfg_def)
  then have int: "queue_limit ttl_cfg (m_queue expiring_message) empty_redis \<in> \<int>"
    using Ints_of_int by metis
  have env: "good_env example_env" by (simp add: good_env_def example_env_def colon_def)
  have m: "m_queue expiring_message = queueKey example_env ''q'' None"
    "m_orgId expiring_message = env_organizationId example_env" "\<not> has_ck expiring_message"
    "case m_ttlExpiresAt expiring_message of None \<Rightarrow> True | Some t \<Rightarrow> 20 < t"
    "getOverride (qo_overrides ttl_cfg) expiring_message = None"
    "m_timestamp expiring_message \<le> 20" "unknown_run ttl_cfg expiring_message empty_redis"
    by (simp_all add: expiring_message_def example_message_def example_env_def has_ck_def getOverride_def example_cfg_def ttl_cfg_def
        unknown_run_def empty_redis_def Let_def)
  show ?thesis by (rule fast_path_equivalent [OF env m(1-5) fast m(6) int m(7)])
qed

end
