(* ===== verification/DequeueOutcomes.thy ===== *)
theory DequeueOutcomes
  imports Endings
begin

text \<open>
  What a worker gets that takes a run from its queue: a run that was queued, that is now locked
  to the worker's version and about to execute, with everything it waited for.
\<close>

section \<open>Locking\<close>

text \<open>
  The two snapshots of a run that was handed to a worker: the one it was queued with, read with the
  waitpoints that were completed, and the one made for the worker.
\<close>

definition snapshots_follow :: "dequeued \<Rightarrow> completed_waitpoint list \<Rightarrow> snapshot \<Rightarrow> snapshot \<Rightarrow> bool" where
  "snapshots_follow d completed s s' =
     (sn_executionStatus s = QUEUED \<and> sn_executionStatus s' = PENDING_EXECUTING
      \<and> sn_id s' = dq_snapshotId d \<and> sn_previousSnapshotId s' = Some (sn_id s)
      \<and> dq_completedWaitpoints d = completed \<and> sn_completedWaitpointIds s' = remdups (map cw_id completed))"

text \<open>The row is locked to the task of the version that was found for the run.\<close>

definition locked_for :: "string option \<Rightarrow> dequeued \<Rightarrow> int \<Rightarrow> worker_result \<Rightarrow> run \<Rightarrow> bool" where
  "locked_for bw d now found t =
     (case found of
        SUCCESS row env ver task q \<Rightarrow>
          tr_status t = DEQUEUED \<and> tr_lockedAt t = Some now \<and> tr_lockedById t = Some (wt_id task)
          \<and> tr_lockedToVersionId t = Some (wv_workerId ver) \<and> tr_lockedQueueId t = Some (tq_id q)
          \<and> dq_backgroundWorkerId d = wv_workerId ver \<and> dq_attemptNumber d = or_default (tr_attemptNumber row) 0 + 1
          \<and> (env_type env = DEVELOPMENT \<or> deployed ver)
          \<and> (truthy bw = None \<or> truthy bw = Some (wv_workerId ver))
      | _ \<Rightarrow> False)"

definition handed_over :: "engine_options \<Rightarrow> string option \<Rightarrow> dequeued \<Rightarrow> world \<Rightarrow> world \<Rightarrow> bool" where
  "handed_over cfg bw d w w' =
     ((case (latest (dq_runId d) w, latest (dq_runId d) w') of
         (Some s, Some s') \<Rightarrow> snapshots_follow d (snd (enhanceExecutionSnapshot w s)) s s'
       | _ \<Rightarrow> False)
      \<and> (case run_of (dq_runId d) w' of
           None \<Rightarrow> False
         | Some t \<Rightarrow> locked_for bw d (en_now w) (getRunWithBackgroundWorkerTasks cfg (run_of (dq_runId d) w) bw) t))"

lemma lockRunToWorker_effect:
  assumes "run_of i v = Some row" "lockRunToWorker i t0 task b q rc st mp ma x v = (Inr (t, s), v')"
    and "truthy (si_error x) = None" "si_runId x = i"
  shows "run_of i v' = Some t \<and> latest i v' = Some s \<and> tr_id t = tr_id row \<and> tr_status t = DEQUEUED \<and>
    tr_lockedAt t = Some t0 \<and> tr_lockedById t = Some (wt_id task) \<and> tr_lockedToVersionId t = Some b \<and>
    tr_lockedQueueId t = Some q \<and> tr_attemptNumber t = tr_attemptNumber row \<and>
    sn_executionStatus s = si_executionStatus x \<and> sn_previousSnapshotId s = si_previousSnapshotId x \<and>
    sn_completedWaitpointIds s = remdups (map fst (si_completedWaitpoints x))"
  using assms
  by (auto simp: lockRunToWorker_def andThen_def updateTaskRun_def store_create_new ret_def run_of_def find_map_update
      the_new_snapshot_def snapshot_row_def)

lemma lock_returns:
  assumes "run_of i v = Some row"
  shows "\<exists>d w'. lock_to_worker cfg wk rn ls row ver task q v = (Inr (Some d), w')"
proof -
  have "tr_id row = i" by (rule run_of_id [OF assms])
  with assms have "\<exists>t s v'. lockRunToWorker (tr_id row) t0 task b q rc st mp ma x v = (Inr (t, s), v')"
    for t0 b q rc st mp ma x
    by (simp add: lockRunToWorker_def andThen_def updateTaskRun_def store_create_new ret_def)
  moreover have "\<exists>f. enqueueHeartbeatIfNeeded cfg s' u = (Inr (), u\<lparr>en_jobs := f\<rparr>)" for s' u
    using enqueueHeartbeat_effect by blast
  ultimately show ?thesis
    by (auto simp: lock_to_worker_def Let_def andThen_def andDo_def effects split: prod.split sum.split)
      (metis (no_types) Inr_inject prod.inject Inl_Inr_False)+
qed

lemma worker_found:
  assumes "getRunWithBackgroundWorkerTasks cfg found bw = SUCCESS t env ver task q"
  shows "found = Some t" and "truthy bw = None \<or> truthy bw = Some (wv_workerId ver)"
  using assms
  by (auto simp: getRunWithBackgroundWorkerTasks_def worker_task_of_def unknown_task_def split: option.splits if_splits)

lemma lock_effect:
  assumes "run_of i v = Some row" "latest i v = Some s" "sn_executionStatus s = QUEUED"
    and "getRunWithBackgroundWorkerTasks cfg (Some row) bw = SUCCESS row env ver task q"
    and "env_type env = DEVELOPMENT \<or> deployed ver"
    and "lock_to_worker cfg wk rn (enhanceExecutionSnapshot v s) row ver task q v = (Inr x, w')"
  shows "case x of None \<Rightarrow> True | Some d \<Rightarrow> handed_over cfg bw d v w'"
proof -
  have id: "tr_id row = i" by (rule run_of_id [OF assms(1)])
  obtain cs where cs: "enhanceExecutionSnapshot v s = (s, cs)" using fst_enhance [of v s] by (metis prod.collapse)
  let ?x = "locked_snapshot row (s, cs) wk rn"
  have new: "truthy (si_error ?x) = None" "si_runId ?x = i" "si_executionStatus ?x = PENDING_EXECUTING"
    "si_previousSnapshotId ?x = Some (sn_id s)" "map fst (si_completedWaitpoints ?x) = map cw_id cs"
    by (simp_all add: locked_snapshot_def Let_def follow_up_def truthy_def id pass_on_def)
  let ?lock = "lockRunToWorker i (en_now v) task (wv_workerId ver) (tq_id q)
     (if tr_lockedRetryConfig row = no_config then wt_retryConfig task else no_config)
     (or_default (tr_startedAt row) (en_now v))
     (map_option (preset_key \<circ> mp_name)
       (getMachinePreset (eo_defaultMachine cfg) (eo_machines cfg) (wt_machineConfig task) (tr_machinePreset row)))
     (max_attempts_of row task) ?x"
  obtain t s' v' where lock: "?lock v = (Inr (t, s'), v')"
    using assms(1)
    by (simp add: lockRunToWorker_def andThen_def updateTaskRun_def store_create_new ret_def)
  note eff = lockRunToWorker_effect [OF assms(1) lock new(1,2)]
  obtain f where hb: "\<And>u. \<exists>f. enqueueHeartbeatIfNeeded cfg s' u = (Inr (), u\<lparr>en_jobs := f\<rparr>)"
    using enqueueHeartbeat_effect by blast
  obtain d g e where d: "x = Some d" "w' = v'\<lparr>en_events := e, en_jobs := g\<rparr>" "dq_runId d = tr_id t" "dq_snapshotId d = sn_id s'"
      "dq_attemptNumber d = or_default (tr_attemptNumber t) 0 + 1" "dq_completedWaitpoints d = cs"
      "dq_backgroundWorkerId d = wv_workerId ver"
    using assms(6) lock hb [of "v'\<lparr>en_events := en_events v' @ [runLocked i] @ [executionSnapshotCreated i (sn_id s') (map cw_id cs)]\<rparr>"]
    by (auto simp: lock_to_worker_def Let_def id cs andThen_def andDo_def the_time_def reading_def emit_def modify_def ret_def)
  moreover have "run_of i w' = run_of i v'" "latest i w' = latest i v'"
    by (simp_all add: d(2) run_of_def latest_def latest_in_def)
  ultimately show ?thesis
    using eff new assms id cs worker_found(2) [OF assms(4)]
    by (simp add: handed_over_def snapshots_follow_def locked_for_def)
qed

section \<open>Every other answer is none\<close>

definition hands_over :: "engine_options \<Rightarrow> string option \<Rightarrow> world \<Rightarrow> dequeued option \<Rightarrow> world \<Rightarrow> bool" where
  "hands_over cfg bw w x w' = (case x of None \<Rightarrow> True | Some d \<Rightarrow> handed_over cfg bw d w w')"

lemma none_handed_over: "ensures P (ret None) (hands_over cfg bw w)" "ensures P (andDo m (ret None)) (hands_over cfg bw w)"
  by (auto simp: ensures_def ret_def andDo_def andThen_def hands_over_def split: prod.splits sum.splits)

lemma hands_over_redis: "hands_over cfg bw (w\<lparr>en_redis := r\<rparr>) = hands_over cfg bw w"
  by (rule ext)+ (simp add: hands_over_def handed_over_def latest_def latest_in_def run_of_def
      enhanceExecutionSnapshot_def waitpoints_of_def split: option.split)

lemma for_worker_hands_over:
  assumes "run_of i v = found" "latest i v = Some s" "sn_executionStatus s = QUEUED"
  shows "ensures (\<lambda>u. u = v) (dequeue_for_worker cfg wk rn orgId i (enhanceExecutionSnapshot v s)
      (getRunWithBackgroundWorkerTasks cfg found bw)) (hands_over cfg bw v)"
proof (cases "getRunWithBackgroundWorkerTasks cfg found bw")
  case (SUCCESS t env ver task q)
  have t: "found = Some t" by (rule worker_found(1) [OF SUCCESS])
  have "ensures (\<lambda>u. u = v) (lock_to_worker cfg wk rn (enhanceExecutionSnapshot v s) t ver task q) (hands_over cfg bw v)"
    if "env_type env = DEVELOPMENT \<or> deployed ver"
    using lock_effect [OF _ assms(2,3) _ that] assms(1) SUCCESS t by (auto simp: ensures_def hands_over_def)
  with SUCCESS show ?thesis
    by (simp only: dequeue_for_worker_def worker_result.case) (intro ensures_cases none_handed_over, auto)
qed (simp_all only: dequeue_for_worker_def worker_result.case,
    (intro none_handed_over ensures_skip)+)

lemma locked_hands_over:
  "ensures (\<lambda>u. u = v) (dequeue_locked cfg bw wk rn orgId i) (hands_over cfg bw v)"
proof (cases "latest i v")
  case None
  then show ?thesis by (simp add: ensures_def dequeue_locked_def andThen_def getLatest_simps latest_def)
next
  case (Some s)
  then have read: "getLatestExecutionSnapshot None i v = (Inr (enhanceExecutionSnapshot v s), v)"
    by (simp add: getLatest_simps latest_def)
  have rule: "ensures (\<lambda>u. u = v) (g (enhanceExecutionSnapshot v s)) Q
      \<Longrightarrow> ensures (\<lambda>u. u = v) (andThen (getLatestExecutionSnapshot None i) g) Q"
    for g :: "enhanced_snapshot \<Rightarrow> 'b engine" and Q
    using read by (simp add: ensures_def andThen_Inr)
  have found: "ensures (\<lambda>u. u = v) (andThen (findRun i) (\<lambda>found. dequeue_for_worker cfg wk rn orgId i (enhanceExecutionSnapshot v s)
      (getRunWithBackgroundWorkerTasks cfg found bw))) (hands_over cfg bw v)" if "sn_executionStatus s = QUEUED"
    using for_worker_hands_over [OF refl Some that, of cfg wk rn orgId bw]
    by (simp add: ensures_def andThen_Inr [OF findRun_run])
  show ?thesis
    unfolding dequeue_locked_def Let_def
    by (rule rule, simp only: fst_enhance, intro ensures_cases none_handed_over found ensures_skip ensures_skipDo)
      (auto simp: isDequeueableExecutionStatus_def)
qed

lemma failed_hands_over: "ensures P (dequeue_failed cfg orgId i) (hands_over cfg bw w)"
  unfolding dequeue_failed_def Let_def case_prod_unfold by (intro ensures_skip ensures_cases none_handed_over)

section \<open>Properties\<close>

text \<open>
  C14. What a worker is handed is what the run waited for: when a worker gets a run from its queue
  then the run was queued; its new latest snapshot is pending execution, is the one the worker was
  given and follows the queued one; the completed waitpoints in the worker's message and
  in that snapshot are those read with the queued snapshot; and its row is locked now to the task and
  queue of the version that was resolved for it, which is the worker's own when the worker named one
  and has an image when it is deployed, for the attempt after the last one of the row. So a run in any
  other state is handed to no worker.
\<close>

theorem dequeue_hands_over:
  "case dequeueFromWorkerQueue cfg wq bw wk rn w of
     (Inr (Some d), w') \<Rightarrow> handed_over cfg bw d w w'
   | (Inr None, w') \<Rightarrow> True
   | (Inl e, w') \<Rightarrow> True"
proof -
  obtain x r where r: "on_queue (dequeueMessageFromWorkerQueue wq) w = (Inr x, w\<lparr>en_redis := r\<rparr>)"
    by (cases "dequeueMessageFromWorkerQueue wq (en_redis w)") (auto simp: on_queue_def)
  have "hands_over cfg bw w y w'"
    if "catching (dequeue_locked cfg bw wk rn orgId i) (dequeue_failed cfg orgId i) (w\<lparr>en_redis := r\<rparr>) = (Inr y, w')"
    for orgId i y w'
    using that locked_hands_over [of "w\<lparr>en_redis := r\<rparr>" cfg bw wk rn orgId i]
      failed_hands_over [of "\<lambda>_. True" cfg orgId i bw w]
    by (auto simp: catching_def ensures_def hands_over_redis split: prod.splits sum.splits)
  then show ?thesis
    using r by (cases x) (auto simp: dequeueFromWorkerQueue_def andThen_Inr ret_def hands_over_def
        split: prod.split sum.split option.split)
qed

definition example_worker :: worker_version where
  "example_worker = \<lparr>wv_workerId = ''worker1'',
     wv_tasks = [\<lparr>wt_id = ''t1'', wt_slug = ''task1'', wt_machineConfig = None, wt_retryConfig = no_config\<rparr>],
     wv_queues = [\<lparr>tq_id = ''q'', tq_name = ''q1''\<rparr>],
     wv_deployment = Some \<lparr>wd_id = ''d1'', wd_imageReference = Some ''image''\<rparr>\<rparr>"

definition worker_engine :: engine_options where
  "worker_engine = example_engine\<lparr>eo_resolveWorkerVersion := (\<lambda>_. Some example_worker)\<rparr>"

definition queued_world :: world where
  "queued_world = empty_world\<lparr>en_runs := [example_row\<lparr>tr_status := PENDING, tr_attemptNumber := None\<rparr>],
     en_snapshots := [snapshot_row ''s1'' 5 (example_input\<lparr>si_executionStatus := QUEUED\<rparr>)],
     en_redis := RPUSH (workerQueueKey ''main'') (messageKey ''o1'' ''r1'')
       (SETM (messageKey ''o1'' ''r1'') (example_message\<lparr>m_runId := ''run1''\<rparr>) empty_redis)\<rparr>"

theorem dequeue_hands_over_witness:
  "\<exists>d w'. dequeueFromWorkerQueue worker_engine ''main'' None None None queued_world = (Inr (Some d), w')
     \<and> handed_over worker_engine None d queued_world w'"
proof -
  have q: "m_queue example_message = ''{org:o1}:proj:p1:env:e1:queue:q''"
    by (simp add: example_message_def queueKey_def example_env_def section_defs)
  have "lua_env_match (m_queue example_message) = Some ''{org:o1}:proj:p1:env:e1''"
    by (simp add: q js_startsWith_def)
  then have m: "\<exists>r. dequeueMessageFromWorkerQueue ''main'' (en_redis queued_world)
      = (Some (example_message\<lparr>m_runId := ''run1''\<rparr>), r)"
    by (simp add: dequeueMessageFromWorkerQueue_def queued_world_def dequeueMessageFromKey_def Let_def empty_redis_def)
  then obtain r where r: "on_queue (dequeueMessageFromWorkerQueue ''main'') queued_world
      = (Inr (Some (example_message\<lparr>m_runId := ''run1''\<rparr>)), queued_world\<lparr>en_redis := r\<rparr>)"
    by (auto simp: on_queue_def)
  let ?u = "queued_world\<lparr>en_redis := r\<rparr>"
  let ?row = "example_row\<lparr>tr_status := PENDING, tr_attemptNumber := None\<rparr>"
  have row: "run_of ''run1'' ?u = Some ?row"
    by (simp add: run_of_def queued_world_def example_row_def)
  have "latest ''run1'' ?u = Some (snapshot_row ''s1'' 5 (example_input\<lparr>si_executionStatus := QUEUED\<rparr>))"
    by (simp add: latest_def latest_in_def truthy_def queued_world_def snapshot_row_def example_input_def)
  then obtain cs where cs: "getLatestExecutionSnapshot None ''run1'' ?u
      = (Inr (snapshot_row ''s1'' 5 (example_input\<lparr>si_executionStatus := QUEUED\<rparr>), cs), ?u)"
    using latest_read by blast
  have worker: "\<exists>env task queue. getRunWithBackgroundWorkerTasks worker_engine (Some ?row) None
      = SUCCESS ?row env example_worker task queue"
    by (simp add: getRunWithBackgroundWorkerTasks_def worker_engine_def example_engine_def worker_task_of_def
        example_worker_def example_row_def truthy_def queue_matches_def)
  have "\<exists>d w'. dequeue_locked worker_engine None None None ''o1'' ''run1'' ?u = (Inr (Some d), w')"
    using worker lock_returns [OF row] cs row
    by (auto simp: dequeue_locked_def andThen_Inr Let_def dequeue_for_worker_def deployed_def example_worker_def
        isDequeueableExecutionStatus_def snapshot_row_def truthy_def)
  then have "\<exists>d w'. dequeueFromWorkerQueue worker_engine ''main'' None None None queued_world = (Inr (Some d), w')"
    using r by (auto simp: dequeueFromWorkerQueue_def andThen_Inr catching_def example_message_def)
  then show ?thesis
    using dequeue_hands_over [where cfg = worker_engine and wq = "''main''" and bw = None and wk = None and rn = None and w = queued_world]
    by auto
qed

end
