(* ===== verification/Leftovers.thy ===== *)
theory Leftovers
  imports Endings Expiry
begin

text \<open>
  What some operations leave undone: the expiry of a run does not complete its batch, and the repair
  of a run with a concurrency key does not take it out of the set it is counted in.
\<close>

section \<open>What an expiry leaves of a batch\<close>

text \<open>The rows of batches, the job that completes a batch, its waitpoint, and the id of the run's own waitpoint.\<close>

definition bystander :: "string \<Rightarrow> string \<Rightarrow> batch list \<times> job option \<times> waitpoint option \<times> string option \<Rightarrow> world \<Rightarrow> bool" where
  "bystander i b v w =
     ((en_batches w, en_jobs w (batch_job b), batch_waitpoint b w, map_option wp_id (associatedWaitpoint i w)) = v)"

lemma other_jobs [simp]:
  "continue_job r \<noteq> batch_job b" "heartbeat_job r \<noteq> batch_job b" "ttl_finish_job r \<noteq> batch_job b"
  "batch_job b \<noteq> continue_job r" "batch_job b \<noteq> heartbeat_job r" "batch_job b \<noteq> ttl_finish_job r"
  "delayed_job r \<noteq> batch_job b" "park_job r \<noteq> batch_job b" "park_finish_job r \<noteq> batch_job b"
  by (simp_all add: continue_job_def heartbeat_job_def ttl_finish_job_def batch_job_def delayed_job_def park_job_def
      park_finish_job_def)

lemma bystander_effects:
  "preserves (bystander i b v) the_time" "preserves (bystander i b v) (findRun r)"
  "preserves (bystander i b v) (emit ev)" "preserves (bystander i b v) (fresh_id p)"
  "preserves (bystander i b v) (on_queue g)"
  "preserves (bystander i b v) (updateTaskRun r h)" "preserves (bystander i b v) (insertSnapshot s)"
  "preserves (bystander i b v) (getLatestExecutionSnapshot e r)"
  "preserves (bystander i b v) (store_expireRunsBatch ids er t)"
  "k \<noteq> batch_job b \<Longrightarrow> preserves (bystander i b v) (enqueueJob k pl t)"
  by (simp_all add: preserves_def bystander_def effects updateTaskRun_def getLatestExecutionSnapshot_def
      store_expireRunsBatch_def batch_waitpoint_def associatedWaitpoint_def split: option.split prod.split)

lemmas bystander_keeps = bystander_effects pres

text \<open>Completing the run's own waitpoint leaves that of the batch alone, if they are not the same.\<close>

definition own_waitpoint :: "'a \<times> 'b \<times> waitpoint option \<times> string option \<Rightarrow> bool" where
  "own_waitpoint v = (case snd (snd v) of (Some x, Some k) \<Rightarrow> wp_id x \<noteq> k | _ \<Rightarrow> True)"

lemma jobs_completeWaitpoint: "en_jobs (snd (completeWaitpoint k out w)) (batch_job b) = en_jobs w (batch_job b)"
proof -
  have "preserves (\<lambda>v. en_jobs v (batch_job b) = en_jobs w (batch_job b)) (completeWaitpoint k out)"
    unfolding completeWaitpoint_def continue_blocked_def schedule_continue_def
    by (intro pres) (simp_all add: preserves_def effects)
  then show ?thesis by (simp add: preserves_def)
qed

lemma bystander_associated:
  assumes "own_waitpoint v"
  shows "preserves (bystander i b v) (complete_associated i out)"
proof -
  have "bystander i b v (snd (complete_associated i out w))" if v: "bystander i b v w" for w
  proof (cases "associatedWaitpoint i w")
    case None
    with v show ?thesis by (simp add: complete_associated_def ret_def)
  next
    case (Some y)
    let ?w = "snd (completeWaitpoint (wp_id y) out w)"
    have rows: "en_waitpoints ?w = completed_rows (en_now w) (wp_id y) out (en_waitpoints w)"
      using completeWaitpoint_effect [of "wp_id y" out w] by auto
    have own: "wp_id x \<noteq> wp_id y" if "batch_waitpoint b w = Some x" for x
    proof -
      have "v = (en_batches w, en_jobs w (batch_job b), Some x, Some (wp_id y))"
        using v Some that by (simp add: bystander_def)
      with assms show ?thesis by (simp add: own_waitpoint_def)
    qed
    have "batch_waitpoint b ?w = batch_waitpoint b w"
      using own by (cases "batch_waitpoint b w")
        (simp_all add: batch_waitpoint_def rows find_completed complete_row_def)
    moreover have "map_option wp_id (associatedWaitpoint i ?w) = map_option wp_id (associatedWaitpoint i w)"
      using Some by (simp add: associatedWaitpoint_def rows find_completed complete_row_def)
    ultimately have "bystander i b v ?w"
      using v by (simp add: bystander_def batches_completeWaitpoint jobs_completeWaitpoint)
    moreover have "snd (complete_associated i out w) = ?w"
      using Some by (cases "completeWaitpoint (wp_id y) out w"; cases "fst (completeWaitpoint (wp_id y) out w)")
        (simp_all add: complete_associated_def andDo_def andThen_def ret_def reading_def)
    ultimately show ?thesis by simp
  qed
  then show ?thesis by (simp add: preserves_def)
qed

lemma bystander_expireRun: "own_waitpoint v \<Longrightarrow> preserves (bystander i b v) (expireRun cfg i)"
  unfolding expireRun_def store_expireRun_def store_createExecutionSnapshot_def ack_message_def case_prod_unfold
  by (intro bystander_associated bystander_keeps)

lemma bystander_expireRunsBatch: "preserves (bystander i b v) (expireRunsBatch ids)"
  unfolding expireRunsBatch_def announce_expired_def Let_def
  by (intro bystander_keeps) simp

lemma bystander_transaction: "preserves (bystander i b v) m \<Longrightarrow> preserves (bystander i b v) (runInTransaction m)"
  unfolding preserves_def runInTransaction_def by (auto split: prod.split sum.split)

lemma bystander_promote: "preserves (bystander i b v) (promoteParkedRun cfg env t pin)"
proof -
  have "preserves (bystander i b v) (promotePendingVersionRuns r st pin)" for r st
    by (simp add: preserves_def promotePendingVersionRuns_def bystander_def batch_waitpoint_def associatedWaitpoint_def Let_def)
  then show ?thesis
    unfolding promoteParkedRun_def promote_run_def enqueueRun_def createExecutionSnapshot_def store_createExecutionSnapshot_def
      enqueueHeartbeatIfNeeded_def publishRun_def Let_def
    by (intro bystander_transaction bystander_keeps) simp_all
qed

lemma bystander_expireParked: "preserves (bystander i b v) (expireParkedExternalDeploymentRun cfg pv r x)"
  unfolding expireParkedExternalDeploymentRun_def release_parked_def expire_parked_def expireParkedRun_def
    scheduleExternalDeploymentParkDeadline_def store_createExecutionSnapshot_def Let_def
  by (intro bystander_promote bystander_keeps) simp_all

section \<open>What the other ends of a run do for its batch\<close>

text \<open>The job that looks whether the batch is complete, due within 200 milliseconds.\<close>

definition batch_due :: "string \<Rightarrow> world \<Rightarrow> bool" where
  "batch_due b w =
     (case en_jobs w (batch_job b) of
        None \<Rightarrow> False
      | Some j \<Rightarrow> jb_payload j = tryCompleteBatchJob b \<and> jb_availableAt j \<le> en_now w + 200)"

definition batch_told :: "string option \<Rightarrow> world \<Rightarrow> bool" where
  "batch_told bt w = (case bt of None \<Rightarrow> True | Some b \<Rightarrow> batch_due b w)"

definition open_in :: "string option \<Rightarrow> string \<Rightarrow> world \<Rightarrow> bool" where
  "open_in bt i w = (unfinished i w \<and> (case run_of i w of None \<Rightarrow> True | Some t \<Rightarrow> truthy (tr_batchId t) = bt))"

definition ended_in :: "string option \<Rightarrow> string \<Rightarrow> world \<Rightarrow> bool" where
  "ended_in bt i w = (status i w = Some FINISHED \<longrightarrow> batch_told bt w)"

interpretation open_run: run_guard "open_in bt i" "\<lambda>j s. j = i \<longrightarrow> s \<noteq> FINISHED"
    "\<lambda>j f. \<forall>t. truthy (tr_batchId (f t)) = truthy (tr_batchId t)" "\<lambda>j. j \<noteq> i" for bt i
proof
  fix w w' :: world
  assume c: "core w' = core w" and o: "open_in bt i w"
  have "unfinished i w'" by (rule unfinished_run.core_guard [OF c]) (use o in \<open>simp add: open_in_def\<close>)
  with o core_eqD(1) [OF c] show "open_in bt i w'" by (simp add: open_in_def)
next
  fix s :: snapshot and w :: world
  assume s: "sn_isValid s \<Longrightarrow> sn_runId s = i \<longrightarrow> sn_executionStatus s \<noteq> FINISHED" and o: "open_in bt i w"
  have "unfinished i (w\<lparr>en_snapshots := s # en_snapshots w\<rparr>)"
    by (rule unfinished_run.snapshot_guard [OF s]) (use o in \<open>simp_all add: open_in_def\<close>)
  with o show "open_in bt i (w\<lparr>en_snapshots := s # en_snapshots w\<rparr>)" by (simp add: open_in_def)
next
  fix j and w :: world and f :: "run \<Rightarrow> run"
  assume f: "\<forall>t. truthy (tr_batchId (f t)) = truthy (tr_batchId t)" "\<And>t. tr_id (f t) = tr_id t" and o: "open_in bt i w"
  let ?w = "w\<lparr>en_runs := map (\<lambda>t. if tr_id t = j then f t else t) (en_runs w)\<rparr>"
  have "unfinished i ?w" by (rule unfinished_run.row_guard [OF TrueI f(2)]) (use o in \<open>simp add: open_in_def\<close>)
  with o f show "open_in bt i ?w" by (auto simp: open_in_def run_of_map split: option.splits)
next
  fix t :: run and w :: world
  assume t: "tr_id t \<noteq> i" "run_of (tr_id t) w = None" and o: "open_in bt i w"
  have "unfinished i (w\<lparr>en_runs := t # en_runs w\<rparr>)"
    by (rule unfinished_run.insert_guard [OF TrueI t(2)]) (use o in \<open>simp add: open_in_def\<close>)
  with o t show "open_in bt i (w\<lparr>en_runs := t # en_runs w\<rparr>)" by (simp add: open_in_def run_of_insert)
qed

text \<open>The row a write returns belongs to the batch.\<close>

lemma row_carry:
  assumes "\<And>t. truthy (tr_batchId (f t)) = truthy (tr_batchId t)" "\<And>t. tr_id (f t) = tr_id t"
    and "\<And>t. truthy (tr_batchId t) = bt \<Longrightarrow> ensures (open_in bt i) (g t) Q"
  shows "ensures (open_in bt i) (andThen (updateTaskRun i f) g) Q"
proof (rule ensures_andThen [where R = "\<lambda>t w. open_in bt i w \<and> truthy (tr_batchId t) = bt"])
  show "ensures (open_in bt i) (updateTaskRun i f) (\<lambda>t w. open_in bt i w \<and> truthy (tr_batchId t) = bt)"
    unfolding ensures_def
  proof (intro allI impI)
    fix w x w' assume w: "open_in bt i w" and u: "updateTaskRun i f w = (Inr x, w')"
    have "preserves (open_in bt i) (updateTaskRun i f)" by (rule open_run.row_tail) (simp_all add: assms(1,2))
    from preservesD [OF this w] u have "open_in bt i w'" by simp
    moreover have "truthy (tr_batchId x) = bt"
      using w u assms(1) by (auto simp: updateTaskRun_def open_in_def split: option.splits)
    ultimately show "open_in bt i w' \<and> truthy (tr_batchId x) = bt" by simp
  qed
  show "ensures (\<lambda>w. open_in bt i w \<and> truthy (tr_batchId x) = bt) (g x) Q" for x
    using assms(3) [of x] by (auto simp: ensures_def)
qed

lemma told_frame:
  assumes "batch_told bt w" "\<And>b. en_jobs w' (batch_job b) = en_jobs w (batch_job b)" "en_now w' = en_now w"
  shows "batch_told bt w'"
  using assms by (auto simp: batch_told_def batch_due_def split: option.splits)

lemma told_after [pres]:
  "preserves (batch_told bt) (emit ev)" "preserves (batch_told bt) the_time"
  "preserves (batch_told bt) (ackJob (heartbeat_job r))"
  unfolding preserves_def by (auto simp: effects intro: told_frame)

lemma told_enqueue [pres]: "(\<And>b. k \<noteq> batch_job b) \<Longrightarrow> preserves (batch_told bt) (enqueueJob k pl t)"
proof -
  assume k: "\<And>b. k \<noteq> batch_job b"
  have "batch_told bt w \<Longrightarrow> batch_told bt (snd (enqueueJob k pl t w))" for w
    by (erule told_frame) (use k in \<open>simp_all add: effects k [symmetric]\<close>)
  then show ?thesis by (simp add: preserves_def)
qed

lemma told_children [pres]: "preserves (batch_told bt) (cancel_children j t reason)"
  unfolding cancel_children_def by (intro pres; simp add: batch_job_def)

lemma finalize_tells:
  assumes "truthy (tr_batchId t) = bt"
  shows "ensures P (finalizeRun t) (\<lambda>_. batch_told bt)"
  using assms by (auto simp: ensures_def finalizeRun_def scheduleCompleteBatch_def andDo_def andThen_def effects ret_def
      batch_told_def batch_due_def split: option.splits)

lemma ensures_tell:
  assumes "truthy (tr_batchId t) = bt" "preserves (batch_told bt) k"
  shows "ensures P (andDo (finalizeRun t) k) (\<lambda>_. ended_in bt i)"
proof -
  have "ensures P (andDo (finalizeRun t) k) (\<lambda>_. batch_told bt)"
    by (intro ensures_keep finalize_tells assms)
  then show ?thesis by (simp add: ensures_def ended_in_def)
qed

lemma open_end: "preserves (open_in bt i) m \<Longrightarrow> ensures (open_in bt i) m (\<lambda>_. ended_in bt i)"
  by (fastforce simp: ensures_def preserves_def ended_in_def open_in_def unfinished_def)

lemmas telling = ensures_tell ensures_skip ensures_skipDo ensures_cases pres
lemmas open_rules = row_carry ensures_cases ensures_carry ensures_carryDo open_end open_run.guards

lemma success_row:
  assumes "\<And>t. truthy (tr_batchId t) = bt \<Longrightarrow> ensures (\<lambda>_. True) (g t) Q"
  shows "ensures (open_in bt i) (andThen (case p of (u, c) \<Rightarrow> completeAttemptSuccess i n out ty u c x) g) Q"
  unfolding completeAttemptSuccess_def case_prod_unfold andThen_assoc andThen_ret
  by (rule row_carry) (simp_all add: ensures_skip assms)

lemma failed_row:
  assumes "\<And>t. truthy (tr_batchId t) = bt \<Longrightarrow> ensures (\<lambda>_. True) (g t) Q"
  shows "ensures (open_in bt i) (andThen (case p of (u, c) \<Rightarrow> failRunPermanently i st n e u c) g) Q"
  unfolding failRunPermanently_def case_prod_unfold
  by (rule row_carry) (use assms in \<open>simp_all add: ensures_def\<close>)

lemmas open_carry = ensures_carry [where I = "open_in bt i" for bt i]

lemma success_tells: "ensures (open_in bt i) (attemptSucceeded cfg e i k c wk rn) (\<lambda>_. ended_in bt i)"
  unfolding attemptSucceeded_def
  by (intro success_row open_carry quiet_current open_run.guards) (intro telling; assumption)

lemma failRun_tells: "ensures (open_in bt i) (permanentlyFailRun cfg i s t er wk rn d) (\<lambda>_. ended_in bt i)"
  unfolding permanentlyFailRun_def
  by (intro failed_row open_carry open_run.guards) (intro telling; assumption)

lemma finish_tells:
  assumes "truthy (tr_batchId t) = bt"
  shows "ensures P (finish_cancelled cfg i t s er reason a) (\<lambda>_. ended_in bt i)"
  unfolding finish_cancelled_def by (intro telling assms)

lemma cancel_tells: "ensures (open_in bt i) (cancelRun cfg i a) (\<lambda>_. ended_in bt i)"
  unfolding cancelRun_def Let_def store_cancelRun_def recordBulkActionMembership_def
  by (intro finish_tells open_rules) (simp_all add: run_snapshot_def follow_up_def)

lemma nack_tells:
  assumes "\<And>er. ensures (open_in bt i) (fail i er) (\<lambda>_. ended_in bt i)"
  shows "ensures (open_in bt i) (nack_and_requeue_or fail cfg i a) (\<lambda>_. ended_in bt i)"
  unfolding nack_and_requeue_or_def requeueRun_def
  by (intro ensures_cases ensures_andThen [OF assms] open_rules) (auto simp: ensures_def ret_def split: prod.split)

lemma retry_tells:
  assumes "\<And>er. ensures (open_in bt i) (fail i er) (\<lambda>_. ended_in bt i)"
  shows "ensures (open_in bt i) (retry_attempt fail cfg i s c fr wk rn mth st mc oom us) (\<lambda>_. ended_in bt i)"
  unfolding retry_attempt_def recordRetryOutcome_def
  by (intro ensures_then_ret nack_tells assms open_rules) (simp_all add: run_snapshot_def follow_up_def)

lemma failed_tells:
  assumes "\<And>er. ensures (open_in bt i) (fail i er) (\<lambda>_. ended_in bt i)"
  shows "ensures (open_in bt i) (attempt_failed_or fail cfg e i k c fr wk rn) (\<lambda>_. ended_in bt i)"
proof -
  have "preserves (open_in bt i) (case x of Inl msg \<Rightarrow> throw (ServiceValidationError msg 404) | Inr y \<Rightarrow> ret y)"
    for x :: "string + retry_outcome"
    by (cases x) (simp_all add: preserves_ret preserves_throw)
  note outcome = ensures_carry [OF this]
  show ?thesis
    unfolding attempt_failed_or_def
    by (intro outcome ensures_outcome ensures_then_ret cancel_tells failRun_tells retry_tells assms quiet_current open_rules)
qed

lemma system_failure_tells:
  assumes "\<And>k c. ensures (open_in bt i) (failed i k c) (\<lambda>_. ended_in bt i)"
  shows "ensures (open_in bt i) (system_failure_by failed i er) (\<lambda>_. ended_in bt i)"
  unfolding system_failure_by_def by (intro assms open_rules)

lemma attempt_failure_tells: "ensures (open_in bt i) (attemptFailed_fuel n cfg e i k c fr wk rn) (\<lambda>_. ended_in bt i)"
proof (induction n arbitrary: e k c fr wk rn)
  case 0
  show ?case by (simp add: ensures_def throw_def)
next
  case (Suc n)
  then show ?case by (simp add: failed_tells system_failure_tells)
qed

section \<open>Properties\<close>

text \<open>What the batch looks like to those who wait for it is the same.\<close>

definition same_batch :: "string \<Rightarrow> world \<Rightarrow> world \<Rightarrow> bool" where
  "same_batch b w w' =
     (batch_of b w' = batch_of b w \<and> en_jobs w' (batch_job b) = en_jobs w (batch_job b) \<and> batch_waitpoint b w' = batch_waitpoint b w)"

text \<open>Where the handler returns and the run has finished, the batch of the run has its job.\<close>

definition tells_batch :: "string \<Rightarrow> 'a engine \<Rightarrow> world \<Rightarrow> bool" where
  "tells_batch i m w =
     (case m w of
        (Inl e, w') \<Rightarrow> True
      | (Inr x, w') \<Rightarrow> status i w' = Some FINISHED \<longrightarrow>
          (case run_of i w of None \<Rightarrow> True | Some t \<Rightarrow> batch_told (truthy (tr_batchId t)) w'))"

lemma tells_batchI:
  assumes "\<And>bt. ensures (open_in bt i) m (\<lambda>_. ended_in bt i)" "unfinished i w"
  shows "tells_batch i m w"
proof (cases "run_of i w")
  case None
  then show ?thesis by (auto simp: tells_batch_def split: prod.split sum.split)
next
  case (Some t)
  with assms(2) have "open_in (truthy (tr_batchId t)) i w" by (simp add: open_in_def)
  with assms(1) [of "truthy (tr_batchId t)"] Some show ?thesis
    by (auto simp: tells_batch_def ensures_def ended_in_def split: prod.split sum.split)
qed

text \<open>
  C33. The expiry of a run does not complete its batch. Where the end of a run by success, failure, a
  failure the system decides on or cancelling returns, the job that looks whether the batch of the
  run is complete is there, due within 200 milliseconds. But the expiry of one run, that of several and
  that of a run parked on a deployment leave every batch as it is: neither its row, nor that job,
  nor the waitpoint by which a parent waits for it changes (where the waitpoint of the run
  itself is another one). So a batch whose last run expires is not completed by that.
\<close>

theorem expiry_strands_batch:
  assumes "status i w \<noteq> Some FINISHED"
    and "case (batch_waitpoint b w, associatedWaitpoint i w) of (Some x, Some y) \<Rightarrow> wp_id x \<noteq> wp_id y | _ \<Rightarrow> True"
  shows "same_batch b w (state_after (expireRun cfg i) w)
    \<and> same_batch b w (state_after (expireRunsBatch ids) w)
    \<and> same_batch b w (state_after (expireParkedExternalDeploymentRun cfg pv i x) w)
    \<and> tells_batch i (completeRunAttempt cfg envId i k completion workerId runnerId) w
    \<and> tells_batch i (systemFailure cfg i er) w \<and> tells_batch i (cancelRun cfg i a) w"
proof -
  let ?v = "(en_batches w, en_jobs w (batch_job b), batch_waitpoint b w, map_option wp_id (associatedWaitpoint i w))"
  have own: "own_waitpoint ?v" using assms(2) by (auto simp: own_waitpoint_def split: option.splits)
  have v: "bystander i b ?v w" by (simp add: bystander_def)
  have same: "same_batch b w w'" if "bystander i b ?v w'" for w'
    using that by (simp add: same_batch_def bystander_def batch_of_def)
  have w: "unfinished i w" using assms(1) by (simp add: unfinished_def)
  have "tells_batch i (completeRunAttempt cfg envId i k completion workerId runnerId) w"
    by (rule tells_batchI [OF _ w], cases completion)
      (simp_all add: completeRunAttempt_def success_tells attemptFailed_def attempt_failure_tells)
  moreover have "tells_batch i (systemFailure cfg i er) w"
    unfolding systemFailure_def attemptFailed_def by (intro tells_batchI [OF _ w] system_failure_tells attempt_failure_tells)
  moreover have "tells_batch i (cancelRun cfg i a) w" by (intro tells_batchI [OF _ w] cancel_tells)
  ultimately show ?thesis
    using v by (simp add: same state_after_def preservesD bystander_expireRun [OF own] bystander_expireRunsBatch bystander_expireParked)
qed

theorem expiry_strands_batch_witness:
  "same_batch ''b1'' running_world (state_after (expireRun example_engine ''run1'') running_world)
    \<and> tells_batch ''run1'' (cancelRun example_engine ''run1'' finalize_cancel) running_world"
proof -
  have "status ''run1'' running_world \<noteq> Some FINISHED"
    by (simp add: status_def latest_def latest_in_def truthy_def running_world_def blocked_world_def empty_world_def
        snapshot_row_def example_input_def)
  moreover have "batch_waitpoint ''b1'' running_world = None"
    by (simp add: batch_waitpoint_def running_world_def blocked_world_def empty_world_def example_waitpoint_def)
  ultimately show ?thesis using expiry_strands_batch [of "''run1''" running_world "''b1''"] by simp
qed

section \<open>The set a run with a concurrency key is counted in\<close>

lemma ck_key_distinct:
  assumes "ck \<noteq> []"
  shows "queueCurrentConcurrencyKey env queue (Some ck) \<notin> {queueCurrentConcurrencyKey env queue None,
    queueCurrentDequeuedKey env queue None, envCurrentConcurrencyKey (descriptorOfEnvironment env),
    envCurrentDequeuedKey (descriptorOfEnvironment env)}"
proof -
  let ?base = "queueKey env queue None"
  have key: "queueKey env queue (Some ck) = ?base @ '':ck:'' @ ck"
    using assms by (simp add: queueKey_def section_defs)
  obtain rest where base: "?base = env_prefix env @ '':queue:'' @ rest"
    using queueKey_prefix by blast
  have ends: "x @ '':currentConcurrency'' \<noteq> y @ '':currentDequeued''" for x y :: string
    using arg_cong [of "x @ '':currentConcurrency''" "y @ '':currentDequeued''" last] by auto
  show ?thesis
    using ends [of "?base @ '':ck:'' @ ck" ?base] ends [of "env_prefix env @ '':queue:'' @ rest @ '':ck:'' @ ck" "env_prefix env"]
    by (auto simp: key queueCurrentDequeuedKey_def queueCurrentConcurrencyKey_def envCurrentConcurrencyKey_def
        envCurrentDequeuedKey_def env_key_prefix base)
qed

text \<open>
  The repair of a run with a concurrency key misses its set: for a run that has finished but is
  still counted in the concurrency set of its queue and key, the repair clears the set of the
  queue without the key, and the run stays counted where it was.
\<close>

theorem repair_misses_concurrency_key:
  assumes "latest i w = Some s" "sn_executionStatus s = FINISHED" "run_of i w = Some t" "ck \<noteq> []"
    and "i \<in> set (r_sets (en_redis w) (queueCurrentConcurrencyKey (snapshot_env s) (tr_queue t) (Some ck)))"
  shows "i \<in> set (r_sets (en_redis (state_after (handleRepairSnapshot cfg i snapshotId) w))
    (queueCurrentConcurrencyKey (snapshot_env s) (tr_queue t) (Some ck)))"
proof -
  obtain cs where cs: "getLatestExecutionSnapshot None i w = (Inr (s, cs), w)" using latest_read [OF assms(1)] by blast
  have "r_sets (init_running_counter q r) = r_sets r" for q :: string and r :: "message redis"
    by (simp add: init_running_counter_def Let_def split: option.split)
  then have "r_sets (clearMessageFromConcurrencySets (snapshot_env s) (tr_queue t) i r)
      (queueCurrentConcurrencyKey (snapshot_env s) (tr_queue t) (Some ck))
    = r_sets r (queueCurrentConcurrencyKey (snapshot_env s) (tr_queue t) (Some ck))" for r :: "message redis"
    using ck_key_distinct [OF assms(4), of "snapshot_env s" "tr_queue t"]
    by (simp add: clearMessageFromConcurrencySets_def clear_sets_def Let_def)
  with assms show ?thesis
    using cs by (simp add: handleRepairSnapshot_def state_after_def andThen_Inr on_queue_def ret_def)
qed

definition leaking_world :: world where
  "leaking_world = finished_world\<lparr>en_redis := SADD
     (queueCurrentConcurrencyKey (snapshot_env (snapshot_row ''s1'' 5 (example_input\<lparr>si_executionStatus := FINISHED\<rparr>)))
        ''q1'' (Some ''tenant1'')) ''run1'' empty_redis\<rparr>"

theorem repair_misses_concurrency_key_witness:
  "''run1'' \<in> set (r_sets (en_redis (state_after (handleRepairSnapshot example_engine ''run1'' ''s1'') leaking_world))
    (queueCurrentConcurrencyKey (snapshot_env (snapshot_row ''s1'' 5 (example_input\<lparr>si_executionStatus := FINISHED\<rparr>)))
        ''q1'' (Some ''tenant1'')))"
proof -
  have "latest ''run1'' leaking_world = Some (snapshot_row ''s1'' 5 (example_input\<lparr>si_executionStatus := FINISHED\<rparr>))"
    "sn_executionStatus (snapshot_row ''s1'' 5 (example_input\<lparr>si_executionStatus := FINISHED\<rparr>)) = FINISHED"
    "run_of ''run1'' leaking_world = Some (example_row\<lparr>tr_status := COMPLETED_SUCCESSFULLY\<rparr>)"
    by (simp_all add: leaking_world_def finished_world_def blocked_world_def empty_world_def latest_def latest_in_def
        truthy_def snapshot_row_def example_input_def run_of_def example_row_def)
  from repair_misses_concurrency_key [OF this, of "''tenant1''"] show ?thesis
    by (simp add: leaking_world_def example_row_def)
qed

end
