(* ===== verification/DebounceRaces.thy ===== *)
theory DebounceRaces
  imports EngineSteps
begin

text \<open>
  Several servers that handle triggers with the same debounce key at the same time
  (\<open>engine/systems/debounceSystem.ts\<close>): their steps in any order, the clock between them, and
  what the claims of the key still guarantee.
\<close>

section \<open>The key and its claims\<close>

text \<open>
  What a server relies on when it registers the run it created under a claim: the registration
  succeeds exactly where the key still holds that claim, and then the key holds the run.
\<close>

locale claim_registry =
  fixes holder :: "'w \<Rightarrow> 'v option"
    and register :: "'v \<Rightarrow> 'v \<Rightarrow> 'w \<Rightarrow> bool \<times> 'w"
  assumes register_iff: "fst (register c v w) \<longleftrightarrow> holder w = Some c"
    and register_holder: "holder (snd (register c v w)) = (if holder w = Some c then Some v else holder w)"
begin

lemma one_of_two:
  assumes "fst (register c v w)" "c \<noteq> d" "v \<noteq> d"
  shows "\<not> fst (register d u (snd (register c v w)))" "\<not> fst (register d u w)"
  using assms by (simp_all add: register_iff register_holder)

end

lemma live_key_update:
  "live_key k (w\<lparr>en_debounce := (en_debounce w)(k' := x)\<rparr>) =
     (if k' = k then (case x of None \<Rightarrow> None | Some (v, t) \<Rightarrow> if en_now w < t then Some v else None) else live_key k w)"
  by (auto simp: live_key_def split: option.split)

lemma live_key_fresh [simp]: "live_key k (w\<lparr>en_fresh := n\<rparr>) = live_key k w"
  by (simp add: live_key_def split: option.split)

lemma live_key_set: "live_key k (w\<lparr>en_debounce := (en_debounce w)(k := Some (v, en_now w + ttl))\<rparr>) = (if 0 < ttl then Some v else None)"
  by (simp add: live_key_def)

lemma key_ttl_pos: "0 < key_ttl now t"
  by (simp add: key_ttl_def)

lemma claim_value_inject [simp]: "claim_value c = claim_value d \<longleftrightarrow> c = d"
  by (simp add: claim_value_def)

lemma is_pending_claim [simp]: "is_pending (claim_value c)"
  unfolding is_pending_def claim_value_def by (rule js_startsWith_append)

lemma claimDebounceKey_eq:
  "claimDebounceKey k w =
     (case live_key k w of
        None \<Rightarrow> (Inr (Some (nat_to_string (en_fresh w))),
          (w\<lparr>en_debounce := (en_debounce w)(k := Some (claim_value (nat_to_string (en_fresh w)), en_now w + CLAIM_TTL_MS))\<rparr>)
            \<lparr>en_fresh := en_fresh w + 1\<rparr>)
      | Some v \<Rightarrow> (Inr None, w\<lparr>en_fresh := en_fresh w + 1\<rparr>))"
  by (simp add: claimDebounceKey_def setKeyNX_def setKey_def andThen_def andDo_def effects split: option.split)

lemma registerDebouncedRun_claim:
  assumes "c \<noteq> []"
  shows "registerDebouncedRun k r t (Some c) w =
    (if live_key k w = Some (claim_value c)
     then (Inr True, w\<lparr>en_debounce := (en_debounce w)(k := Some (r, en_now w + key_ttl (en_now w) t))\<rparr>)
     else (Inr False, w))"
  using assms by (cases c) (simp_all add: registerDebouncedRun_def registerIfClaimOwned_def setKey_def truthy_def
      andThen_def andDo_def effects)

lemma registerDebouncedRun_plain:
  "registerDebouncedRun k r t None w =
     (Inr True, w\<lparr>en_debounce := (en_debounce w)(k := Some (r, en_now w + key_ttl (en_now w) t))\<rparr>)"
  by (simp add: registerDebouncedRun_def setKey_def truthy_def andThen_def andDo_def effects)

interpretation debounce_key: claim_registry "live_key k"
    "\<lambda>c v w. case registerIfClaimOwned k c v (key_ttl (en_now w) t) w of (r, w') \<Rightarrow> (r = Inr True, w')"
  for k t
  by unfold_locales
    (simp_all add: registerIfClaimOwned_def setKey_def andThen_def andDo_def effects live_key_set key_ttl_pos)


section \<open>Frames\<close>

text \<open>Handlers that leave the keys and the clock alone and only take new ids.\<close>

definition keyless :: "'a engine \<Rightarrow> bool" where
  "keyless m = (\<forall>w. en_debounce (snd (m w)) = en_debounce w \<and> en_now (snd (m w)) = en_now w
     \<and> en_fresh w \<le> en_fresh (snd (m w)))"

named_theorems keyless_intros \<open>handlers that leave the debounce keys alone\<close>

lemma keyless_effects [keyless_intros]:
  "keyless (ret x)" "keyless (throw e)" "keyless (reading f)" "keyless the_time" "keyless (fresh_id p)"
  "keyless (rescheduleJob i t)" "keyless (emit ev)" "keyless (findRun i)" "keyless (updateTaskRun i g)"
  "keyless (require b e)" "keyless (store_createExecutionSnapshot snap)"
  by (simp_all add: keyless_def effects require_def updateTaskRun_def store_createExecutionSnapshot_eq split: option.split)

lemma keyless_getLatest [keyless_intros]: "keyless (getLatestExecutionSnapshot e i)"
  by (simp add: keyless_def getLatestExecutionSnapshot_def split: option.split)

lemma keyless_andThen [keyless_intros]: "keyless m \<Longrightarrow> (\<And>x. keyless (f x)) \<Longrightarrow> keyless (andThen m f)"
  unfolding keyless_def andThen_def
  by (auto split: prod.splits sum.splits) (metis snd_conv order_trans)+

lemma keyless_andDo [keyless_intros]: "keyless m \<Longrightarrow> keyless k \<Longrightarrow> keyless (andDo m k)"
  by (simp add: andDo_def keyless_andThen)

lemma keyless_reschedule [keyless_intros]: "keyless (rescheduleDelayedRun i t)" "keyless (updateRunForTrailingMode i u)"
  unfolding rescheduleDelayedRun_def store_rescheduleRun_def case_prod_unfold
    updateRunForTrailingMode_def rewriteDebouncedRun_def
  by (intro keyless_intros)+

text \<open>A claim is spent when its id was given out and the key does not hold it: no server can use it any more.\<close>

definition spent :: "string \<Rightarrow> string \<Rightarrow> world \<Rightarrow> bool" where
  "spent k d w = ((\<exists>j<en_fresh w. d = nat_to_string j) \<and> live_key k w \<noteq> Some (claim_value d))"

definition fresh_above :: "nat \<Rightarrow> world \<Rightarrow> bool" where
  "fresh_above n w = (n \<le> en_fresh w)"

lemma spent_delKey: "preserves (spent k d) (delKey k')"
  by (simp add: preserves_def delKey_def modify_def spent_def live_key_update)

lemma spent_setKey: "\<not> is_pending v \<Longrightarrow> preserves (spent k d) (setKey k' v t)"
  by (auto simp: preserves_def setKey_def modify_def spent_def live_key_update)

lemma spent_pexpire: "preserves (spent k d) (pexpireKey k' t)"
  by (auto simp: preserves_def pexpireKey_def setKey_def effects spent_def live_key_update andThen_def split: option.splits)

lemma spent_claim: "preserves (spent k d) (claimDebounceKey k')"
  by (auto simp: preserves_def claimDebounceKey_eq spent_def live_key_update CLAIM_TTL_MS_def nat_to_string_inject
      less_Suc_eq split: option.split)

lemma fresh_keys:
  "preserves (fresh_above n) (delKey k)" "preserves (fresh_above n) (setKey k v t)"
  "preserves (fresh_above n) (pexpireKey k t)" "preserves (fresh_above n) (claimDebounceKey k)"
  by (auto simp: preserves_def claimDebounceKey_def setKeyNX_def setKey_def delKey_def pexpireKey_def andThen_def
      andDo_def effects fresh_above_def split: option.split)

text \<open>What an invariant of the keys has to bear; every step of a trigger then keeps it.\<close>

locale key_invariant =
  fixes I :: "world \<Rightarrow> bool"
  assumes rest_keeps: "I w \<Longrightarrow> en_debounce w' = en_debounce w \<Longrightarrow> en_now w' = en_now w \<Longrightarrow> en_fresh w \<le> en_fresh w' \<Longrightarrow> I w'"
    and del_keeps: "preserves I (delKey k)"
    and pexpire_keeps: "preserves I (pexpireKey k t)"
    and claim_keeps: "preserves I (claimDebounceKey k)"
begin

lemma keyless_keeps: "keyless m \<Longrightarrow> preserves I m"
  unfolding keyless_def preserves_def using rest_keeps by blast

lemmas key_rules = preserves_if preserves_option preserves_andThen preserves_andDo del_keeps pexpire_keeps claim_keeps

lemma locked_keeps: "preserves I (handleExistingRunLocked ds d k i u)"
proof -
  have "preserves I (case db_mode d of None \<Rightarrow> ret (Answer (Existing t x))
      | Some m \<Rightarrow> (case m of leading \<Rightarrow> ret (Answer (Existing t x))
        | trailing \<Rightarrow> (case db_updateData d of None \<Rightarrow> ret (Answer (Existing t x))
          | Some y \<Rightarrow> andThen (updateRunForTrailingMode i y) (\<lambda>updated. ret (Answer (Existing updated x))))))" for t x
    by (auto intro!: keyless_keeps keyless_intros split: option.split debounce_mode.split)
  then show ?thesis
    unfolding handleExistingRunLocked_def push_later_def
    by (auto intro!: key_rules keyless_keeps [OF keyless_effects(1)] keyless_keeps [OF keyless_effects(3)]
        keyless_keeps [OF keyless_effects(4)] keyless_keeps [OF keyless_effects(8)] keyless_keeps [OF keyless_reschedule(1)]
        split: option.split prod.split)
qed

lemma step_keeps: "preserves I (debounce_step ds c p)"
proof (cases p)
  case (Meeting i)
  have "keyless (handleExistingRun ds d i)" for d
    unfolding handleExistingRun_def tryFastPathSkip_def Let_def
    by (auto intro!: keyless_intros split: option.split)
  with Meeting show ?thesis by (simp add: keyless_keeps)
next
  case (Waiting n)
  then show ?thesis by (auto simp: poll_key_def intro!: keyless_keeps keyless_intros)
next
  case ReadingBack
  then show ?thesis by (auto intro!: keyless_keeps keyless_intros)
next
  case GivingUp
  have "preserves I (conditionallyDeletePendingKey (call_key c))"
    unfolding conditionallyDeletePendingKey_def
    by (intro key_rules keyless_keeps [OF keyless_effects(1)] keyless_keeps [OF keyless_effects(3)])
  with GivingUp show ?thesis by (auto intro!: key_rules keyless_keeps [OF keyless_effects(1)])
qed (auto intro!: key_rules locked_keeps keyless_keeps [OF keyless_effects(1)])

end

interpretation spent: key_invariant "spent k d" for k d
proof
  fix w w' :: world
  assume "spent k d w" "en_debounce w' = en_debounce w" "en_now w' = en_now w" "en_fresh w \<le> en_fresh w'"
  then show "spent k d w'" unfolding spent_def live_key_def by (metis order_less_le_trans)
qed (rule spent_delKey spent_pexpire spent_claim)+

interpretation fresh: key_invariant "fresh_above n" for n
  by unfold_locales (auto intro: fresh_keys simp: fresh_above_def)

section \<open>The servers\<close>

text \<open>
  A state is the world and where each server is in its trigger; a server that is \<open>None\<close> handles no
  trigger. A trigger in \<open>Locking\<close> gets the lock or gives up on it; one that is answered \<open>New\<close>
  creates its run and registers it, and ends; with \<open>MaxDurationExceeded\<close> it registers without a
  claim. Between the steps the clock goes on and everything else may happen that leaves the keys
  alone. Locks are left out, which only adds interleavings. Runs' ids are no claims.
\<close>

type_synonym race = "world \<times> (nat \<Rightarrow> phase option)"

inductive race_step :: "debounce_settings \<Rightarrow> (nat \<Rightarrow> debounce_call) \<Rightarrow> race \<Rightarrow> race \<Rightarrow> bool" for ds calls where
  begins: "ph n = None \<Longrightarrow> race_step ds calls (w, ph) (w, ph(n := Some Claiming))"
| advances: "ph n = Some p \<Longrightarrow> debounce_step ds (calls n) p w = (Inr q, w') \<Longrightarrow>
    race_step ds calls (w, ph) (w', ph(n := Some q))"
| fails: "ph n = Some p \<Longrightarrow> debounce_step ds (calls n) p w = (Inl e, w') \<Longrightarrow>
    race_step ds calls (w, ph) (w', ph(n := None))"
| locks: "ph n = Some (Locking i u) \<Longrightarrow> race_step ds calls (w, ph) (w, ph(n := Some (Inside i u)))"
| gives_up: "ph n = Some (Locking i u) \<Longrightarrow> handleLockContentionFallback i e w = (Inr r, w') \<Longrightarrow>
    race_step ds calls (w, ph) (w', ph(n := Some (Decided r)))"
| registers: "ph n = Some (Decided (New claim)) \<Longrightarrow> \<not> is_pending runId \<Longrightarrow>
    registerDebouncedRun (call_key (calls n)) runId t claim w = (Inr b, w') \<Longrightarrow>
    race_step ds calls (w, ph) (w', ph(n := None))"
| registers_unclaimed: "ph n = Some (Decided MaxDurationExceeded) \<Longrightarrow> \<not> is_pending runId \<Longrightarrow>
    registerDebouncedRun (call_key (calls n)) runId t None w = (Inr b, w') \<Longrightarrow>
    race_step ds calls (w, ph) (w', ph(n := None))"
| answers: "ph n = Some (Decided r) \<Longrightarrow> race_step ds calls (w, ph) (w, ph(n := None))"
| time_passes: "0 \<le> t \<Longrightarrow> race_step ds calls (w, ph) (w\<lparr>en_now := en_now w + t\<rparr>, ph)"
| others_work: "en_debounce w' = en_debounce w \<Longrightarrow> en_now w' = en_now w \<Longrightarrow> en_fresh w \<le> en_fresh w' \<Longrightarrow>
    race_step ds calls (w, ph) (w', ph)"

definition claims :: "race \<Rightarrow> nat \<Rightarrow> string \<Rightarrow> bool" where
  "claims s n c = (snd s n = Some (Decided (New (Some c))))"

text \<open>What holds of the claims in every interleaving.\<close>

definition claims_ok :: "race \<Rightarrow> bool" where
  "claims_ok s = ((\<forall>n x. snd s n = Some (Decided (New x)) \<longrightarrow> (\<exists>j<en_fresh (fst s). x = Some (nat_to_string j)))
     \<and> (\<forall>m n c. claims s m c \<longrightarrow> claims s n c \<longrightarrow> m = n))"

lemma no_new_claim:
  assumes "debounce_step ds c p w = (Inr q, w')" "p \<noteq> Claiming" "p \<noteq> q"
  shows "q \<noteq> Decided (New x)"
proof (cases p)
  case (Meeting i)
  with assms(1) show ?thesis
    by (auto simp: handleExistingRun_def tryFastPathSkip_def andThen_def effects Let_def
        split: option.splits if_splits prod.splits sum.splits)
next
  case (Inside i u)
  have "o' \<noteq> Answer (New x)" if "handleExistingRunLocked ds (dc_debounce c) (call_key c) i u w = (Inr o', v)" for o' v
    using that by (auto simp: handleExistingRunLocked_def andThen_def andDo_def effects
        split: option.splits if_splits prod.splits sum.splits debounce_mode.splits)
  with Inside assms(1) show ?thesis
    by (auto simp: andThen_def effects split: prod.splits sum.splits locked_outcome.splits)
next
  case (Waiting n)
  with assms(1) show ?thesis by (auto simp: poll_key_def effects andThen_def split: option.splits if_splits)
next
  case GivingUp
  with assms(1) show ?thesis
    by (auto simp: effects andThen_def split: option.splits prod.splits sum.splits)
qed (use assms in \<open>auto simp: effects andThen_def andDo_def delKey_def split: option.splits if_splits\<close>)

lemma new_claim:
  assumes "debounce_step ds c Claiming w = (Inr q, w')"
  shows "q = ReadingBack \<and> en_fresh w' = en_fresh w + 1
    \<or> q = Decided (New (Some (nat_to_string (en_fresh w)))) \<and> en_fresh w' = en_fresh w + 1"
  using assms by (auto simp: claimDebounceKey_eq andThen_def effects split: option.splits)

lemma claims_ok_frame: "claims_ok (w, ph) \<Longrightarrow> en_fresh w \<le> en_fresh w' \<Longrightarrow> claims_ok (w', ph)"
  unfolding claims_ok_def claims_def by (auto dest: order_less_le_trans) (metis order_less_le_trans)

lemma claims_ok_update:
  assumes "claims_ok (w, ph)" "en_fresh w \<le> en_fresh w'" "\<And>x. q \<noteq> Some (Decided (New x))"
  shows "claims_ok (w', ph(n := q))"
  using claims_ok_frame [OF assms(1,2)] assms(3) by (auto simp: claims_ok_def claims_def)

lemma claims_ok_claim:
  assumes "claims_ok (w, ph)" "en_fresh w' = en_fresh w + 1"
  shows "claims_ok (w', ph(n := Some (Decided (New (Some (nat_to_string (en_fresh w)))))))"
proof -
  have "\<not> claims (w, ph) m (nat_to_string (en_fresh w))" for m
    using assms(1) unfolding claims_ok_def claims_def fst_conv snd_conv
    by (metis nat_to_string_inject option.inject less_irrefl_nat)
  with claims_ok_frame [OF assms(1), of w'] assms(2) show ?thesis
    by (auto simp: claims_ok_def claims_def)
qed

lemma fresh_mono: "debounce_step ds c p w = (r, w') \<Longrightarrow> en_fresh w \<le> en_fresh w'"
  using preservesD [OF fresh.step_keeps [of "en_fresh w" ds c p], of w] by (simp add: fresh_above_def)

lemma keyless_fallback: "keyless (handleLockContentionFallback i e)"
  unfolding handleLockContentionFallback_def by (intro keyless_intros allI) (auto intro!: keyless_intros split: option.split)

lemma fallback_keys:
  assumes "handleLockContentionFallback i e w = (Inr r, w')"
  shows "\<And>x. r \<noteq> New x" "en_debounce w' = en_debounce w" "en_now w' = en_now w" "en_fresh w \<le> en_fresh w'"
  using assms keyless_fallback [of i e, unfolded keyless_def, rule_format, of w]
  by (auto simp: handleLockContentionFallback_def andThen_def effects split: option.splits if_splits)

lemma register_keys:
  assumes "registerDebouncedRun k r t claim w = (Inr b, w')" "\<not> is_pending r"
  shows "en_fresh w' = en_fresh w" "spent k' d w \<Longrightarrow> spent k' d w'"
proof -
  have "w' = w \<or> w' = w\<lparr>en_debounce := (en_debounce w)(k := Some (r, en_now w + key_ttl (en_now w) t))\<rparr>"
    using assms(1) by (auto simp: registerDebouncedRun_def registerIfClaimOwned_def setKey_def andThen_def andDo_def
        effects Let_def split: option.splits if_splits)
  then show "en_fresh w' = en_fresh w" "spent k' d w \<Longrightarrow> spent k' d w'"
    using assms(2) is_pending_claim by (auto simp: spent_def live_key_update split: if_splits)
qed

lemma claims_step: "race_step ds calls s s' \<Longrightarrow> claims_ok s \<Longrightarrow> claims_ok s'"
proof (induction rule: race_step.induct)
  case (advances ph n p w q w')
  show ?case
  proof (cases "p = q")
    case True
    with advances fresh_mono [OF advances(2)] claims_ok_frame show ?thesis by (simp add: fun_upd_idem)
  next
    case False
    show ?thesis
    proof (cases "p = Claiming")
      case True
      consider "q = ReadingBack" | "q = Decided (New (Some (nat_to_string (en_fresh w))))" "en_fresh w' = en_fresh w + 1"
        using new_claim advances(2) True by blast
      then show ?thesis
      proof cases
        case 1
        show ?thesis by (rule claims_ok_update [OF advances(3) fresh_mono [OF advances(2)]]) (simp add: 1)
      next
        case 2
        show ?thesis unfolding 2(1) by (rule claims_ok_claim [OF advances(3) 2(2)])
      qed
    next
      case no: False
      show ?thesis
        by (rule claims_ok_update [OF advances(3) fresh_mono [OF advances(2)]])
          (use no_new_claim [OF advances(2) no False] in auto)
    qed
  qed
next
  case (gives_up ph n i u e w r w')
  with fallback_keys [OF gives_up(2)] show ?case by (intro claims_ok_update) auto
next
  case (registers ph n claim runId w t b w')
  with register_keys(1) show ?case by (intro claims_ok_update) auto
next
  case (registers_unclaimed ph n runId w t b w')
  with register_keys(1) show ?case by (intro claims_ok_update) auto
next
  case (fails ph n p w e w')
  with fresh_mono [OF fails(2)] show ?case by (intro claims_ok_update) auto
next
  case (time_passes t w ph)
  then show ?case by (rule_tac claims_ok_frame) auto
next
  case (others_work w' w ph)
  then show ?case by (auto intro: claims_ok_frame)
qed (auto intro: claims_ok_update)

lemma spent_step: "race_step ds calls s s' \<Longrightarrow> spent k d (fst s) \<Longrightarrow> spent k d (fst s')"
proof (induction rule: race_step.induct)
  case (advances ph n p w q w')
  then show ?case using preservesD [OF spent.step_keeps, of k d w ds "calls n" p] by simp
next
  case (fails ph n p w e w')
  then show ?case using preservesD [OF spent.step_keeps, of k d w ds "calls n" p] by simp
next
  case (gives_up ph n i u e w r w')
  with fallback_keys [OF gives_up(2)] show ?case by (auto intro: spent.rest_keeps)
next
  case (time_passes t w ph)
  then show ?case by (auto simp: spent_def live_key_def split: option.splits if_splits)
next
  case (others_work w' w ph)
  then show ?case by (auto intro: spent.rest_keeps)
qed (auto dest: register_keys)

lemma claims_reachable: "(race_step ds calls)\<^sup>*\<^sup>* (w0, \<lambda>_. None) s \<Longrightarrow> claims_ok s"
proof (induction rule: rtranclp_induct)
  case base
  show ?case by (simp add: claims_ok_def claims_def)
next
  case (step s s')
  then show ?case by (blast intro: claims_step)
qed

lemma spent_reachable: "(race_step ds calls)\<^sup>*\<^sup>* s s' \<Longrightarrow> spent k d (fst s) \<Longrightarrow> spent k d (fst s')"
  by (induction rule: rtranclp_induct) (blast intro: spent_step)+

section \<open>One claim registers\<close>

text \<open>
  C21. Of two servers that hold claims of the same debounce key at the same time (the older claim
  ran out before its run was registered), only one puts its run under the key: once one of them has
  registered, the registration of the other fails, however the servers and the clock went on in
  between.
\<close>

theorem one_claim_registers:
  assumes "(race_step ds calls)\<^sup>*\<^sup>* (w0, \<lambda>_. None) (w, ph)"
    and "claims (w, ph) m c" "claims (w, ph) n d" "m \<noteq> n" "call_key (calls m) = k" "call_key (calls n) = k"
    and "registerDebouncedRun k runId t (Some c) w = (Inr True, w1)" "\<not> is_pending runId"
    and "(race_step ds calls)\<^sup>*\<^sup>* (w1, ph(m := None)) (w2, ph2)"
  shows "registerDebouncedRun k runId' t' (Some d) w2 = (Inr False, w2)"
proof -
  have ok: "claims_ok (w, ph)" by (rule claims_reachable [OF assms(1)])
  then obtain j where d: "d = nat_to_string j" "j < en_fresh w"
    using assms(3) by (auto simp: claims_ok_def claims_def)
  obtain i where "c = nat_to_string i" using ok assms(2) by (auto simp: claims_ok_def claims_def)
  then have c: "c \<noteq> []" by simp
  have "live_key k w1 = Some runId" "en_fresh w1 = en_fresh w"
    using assms(7) registerDebouncedRun_claim [OF c, of k runId t w] key_ttl_pos
    by (auto simp: live_key_update split: if_splits)
  with d assms(8) have "spent k d w1" by (auto simp: spent_def)
  with spent_reachable [OF assms(9), of k d] have "spent k d w2" by simp
  with d show ?thesis by (simp add: registerDebouncedRun_claim spent_def)
qed

text \<open>A trigger that finds the key free takes it in one step.\<close>

lemma claims_free_key:
  assumes "ph n = Some Claiming" "live_key (call_key (calls n)) w = None"
  shows "race_step ds calls (w, ph)
    (snd (claimDebounceKey (call_key (calls n)) w), ph(n := Some (Decided (New (Some (nat_to_string (en_fresh w)))))))"
  using assms by (intro advances) (auto simp: claimDebounceKey_eq andThen_def effects)

definition example_call :: debounce_call where
  "example_call = \<lparr>dc_environmentId = ''e1'', dc_taskIdentifier = ''t'',
     dc_debounce = \<lparr>db_key = ''k'', db_delay = ''5m'', db_mode = None, db_maxDelay = None, db_updateData = None\<rparr>\<rparr>"

definition example_settings :: debounce_settings where
  "example_settings = \<lparr>ds_maxDebounceDurationMs = None, ds_quantizeNewDelayUntilMs = None, ds_fastPathSkipEnabled = None\<rparr>"

text \<open>The first server claims the key, sleeps over its claim, and the second claims it again.\<close>

definition late_world :: world where
  "late_world = snd (claimDebounceKey ''e1:t:k''
     ((snd (claimDebounceKey ''e1:t:k'' empty_world))\<lparr>en_now := 31000\<rparr>))"

lemma example_key: "call_key example_call = ''e1:t:k''"
  by (simp add: call_key_def example_call_def getDebounceRedisKey_def)

lemma late_world_reached:
  "(race_step example_settings (\<lambda>_. example_call))\<^sup>*\<^sup>* (empty_world, \<lambda>_. None)
     (late_world, (\<lambda>_. None)(0 := Some (Decided (New (Some ''0''))), 1 := Some (Decided (New (Some ''1'')))))"
proof -
  let ?step = "race_step example_settings (\<lambda>_. example_call)"
  let ?w = "snd (claimDebounceKey ''e1:t:k'' empty_world)" and ?p = "(\<lambda>_. None)(0 := Some (Decided (New (Some ''0''))))"
  have free: "live_key ''e1:t:k'' empty_world = None" "live_key ''e1:t:k'' (?w\<lparr>en_now := 31000\<rparr>) = None"
    by (simp_all add: live_key_def claimDebounceKey_eq empty_world_def CLAIM_TTL_MS_def)
  have ids: "nat_to_string 0 = ''0''" "nat_to_string (Suc 0) = ''1''"
    by code_simp+
  have fresh: "en_fresh empty_world = 0" "en_fresh ?w = 1" "en_now ?w = 1000"
    by (simp_all add: live_key_def claimDebounceKey_eq empty_world_def)
  note [trans] = rtranclp.rtrancl_into_rtrancl
  have "?step\<^sup>*\<^sup>* (empty_world, \<lambda>_. None) (empty_world, (\<lambda>_. None)(0 := Some Claiming))"
    by (rule r_into_rtranclp, rule begins) simp
  also have "?step (empty_world, (\<lambda>_. None)(0 := Some Claiming)) (?w, ?p)"
    using claims_free_key [of "(\<lambda>_. None)(0 := Some Claiming)" 0 "\<lambda>_. example_call" empty_world example_settings] free(1)
    by (simp add: example_key fresh ids)
  also have "?step (?w, ?p) (?w\<lparr>en_now := 31000\<rparr>, ?p)"
    using time_passes [of 30000 example_settings "\<lambda>_. example_call" ?w ?p] by (simp add: fresh)
  also have "?step (?w\<lparr>en_now := 31000\<rparr>, ?p) (?w\<lparr>en_now := 31000\<rparr>, ?p(1 := Some Claiming))" by (rule begins) simp
  also have "?step (?w\<lparr>en_now := 31000\<rparr>, ?p(1 := Some Claiming)) (late_world, ?p(1 := Some (Decided (New (Some ''1'')))))"
    using claims_free_key [of "?p(1 := Some Claiming)" 1 "\<lambda>_. example_call" "?w\<lparr>en_now := 31000\<rparr>" example_settings] free(2)
    by (simp add: example_key fresh ids late_world_def)
  finally show ?thesis by simp
qed

lemma late_claim: "live_key ''e1:t:k'' late_world = Some (claim_value ''1'')"
  by code_simp

theorem one_claim_registers_witness:
  "registerDebouncedRun ''e1:t:k'' ''run2'' 301000 (Some ''0'')
     (snd (registerDebouncedRun ''e1:t:k'' ''run1'' 301000 (Some ''1'') late_world))
   = (Inr False, snd (registerDebouncedRun ''e1:t:k'' ''run1'' 301000 (Some ''1'') late_world))"
proof (rule one_claim_registers [where m = 1 and n = 0, OF late_world_reached])
  show "registerDebouncedRun ''e1:t:k'' ''run1'' 301000 (Some ''1'') late_world
      = (Inr True, snd (registerDebouncedRun ''e1:t:k'' ''run1'' 301000 (Some ''1'') late_world))"
    using registerDebouncedRun_claim [of "''1''" "''e1:t:k''" "''run1''" 301000 late_world] late_claim by simp
qed (simp_all add: claims_def example_key is_pending_def js_startsWith_def, rule rtranclp.rtrancl_refl)

text \<open>
  A trigger that waited for the lock of a run that has left its delay deletes the debounce key
  without looking what it holds by then, also the run that another server registered under it in
  the meantime, and claims it: it creates a second run while the first one is still waiting.
\<close>

theorem stale_trigger_evicts_run:
  assumes "ph n = Some (Locking i u)" "call_key (calls n) = k"
    and "latest i w = Some s" "sn_executionStatus s \<noteq> DELAYED" "sn_executionStatus s \<noteq> RUN_CREATED"
    and "live_key k w = Some r" "run_of r w = Some t" "tr_status t = TaskRunStatus.DELAYED"
  shows "\<exists>w' c. (race_step ds calls)\<^sup>*\<^sup>* (w, ph) (w', ph(n := Some (Decided (New (Some c)))))
    \<and> live_key k w' = Some (claim_value c) \<and> run_of r w' = Some t"
proof -
  let ?step = "race_step ds calls" and ?d = "w\<lparr>en_debounce := (en_debounce w)(k := None)\<rparr>"
  let ?c = "nat_to_string (en_fresh w)" and ?w = "snd (claimDebounceKey k (w\<lparr>en_debounce := (en_debounce w)(k := None)\<rparr>))"
  have free: "live_key k ?d = None" by (simp add: live_key_def)
  note [trans] = rtranclp.rtrancl_into_rtrancl
  have "?step\<^sup>*\<^sup>* (w, ph) (w, ph(n := Some (Inside i u)))" by (rule r_into_rtranclp, rule locks) (rule assms)
  also have "?step (w, ph(n := Some (Inside i u))) (w, ph(n := Some Dropping))"
    using advances [of "ph(n := Some (Inside i u))" n "Inside i u" ds calls w Dropping w] assms(3,4,5)
    by (auto simp: handleExistingRunLocked_def andThen_def effects split: option.split)
  also have "?step (w, ph(n := Some Dropping)) (?d, ph(n := Some Claiming))"
    using advances [of "ph(n := Some Dropping)" n Dropping ds calls w Claiming ?d] assms(2)
    by (simp add: delKey_def andDo_def andThen_def effects)
  also have "?step (?d, ph(n := Some Claiming)) (?w, ph(n := Some (Decided (New (Some ?c)))))"
    using claims_free_key [of "ph(n := Some Claiming)" n calls ?d ds] free assms(2) by simp
  finally have "?step\<^sup>*\<^sup>* (w, ph) (?w, ph(n := Some (Decided (New (Some ?c)))))" .
  moreover have "live_key k ?w = Some (claim_value ?c)" "run_of r ?w = Some t"
    using free assms(7) by (simp_all add: claimDebounceKey_eq live_key_update live_key_def CLAIM_TTL_MS_def run_of_def)
  ultimately show ?thesis by blast
qed

text \<open>The run that was debounced executes; run 2 was registered since, and server 0 still waits for the lock.\<close>

definition evicting_world :: world where
  "evicting_world = running_world\<lparr>en_runs := [example_row, example_row\<lparr>tr_id := ''run2'', tr_status := TaskRunStatus.DELAYED\<rparr>],
     en_debounce := (\<lambda>_. None)(''e1:t:k'' := Some (''run2'', 301000))\<rparr>"

theorem stale_trigger_evicts_run_witness:
  "\<exists>w' c. (race_step example_settings (\<lambda>_. example_call))\<^sup>*\<^sup>* (evicting_world, (\<lambda>_. None)(0 := Some (Locking ''run1'' (Some 301000))))
      (w', (\<lambda>_. None)(0 := Some (Locking ''run1'' (Some 301000)), 0 := Some (Decided (New (Some c)))))
    \<and> live_key ''e1:t:k'' w' = Some (claim_value c) \<and> run_of ''run2'' w' = Some (example_row\<lparr>tr_id := ''run2'', tr_status := TaskRunStatus.DELAYED\<rparr>)"
proof (rule stale_trigger_evicts_run)
  show "latest ''run1'' evicting_world = Some (the (latest ''run1'' evicting_world))" by code_simp
  show "sn_executionStatus (the (latest ''run1'' evicting_world)) \<noteq> DELAYED"
    "sn_executionStatus (the (latest ''run1'' evicting_world)) \<noteq> RUN_CREATED" by code_simp+
  show "live_key ''e1:t:k'' evicting_world = Some ''run2''"
    "run_of ''run2'' evicting_world = Some (example_row\<lparr>tr_id := ''run2'', tr_status := TaskRunStatus.DELAYED\<rparr>)" by code_simp+
qed (simp_all add: example_key)

end
