(* ===== verification/DebounceOutcomes.thy ===== *)
theory DebounceOutcomes
  imports NewRuns
begin

text \<open>
  What a trigger with a debounce key does to the run that has the key: under the lock of the run,
  and on the fast path that does without it.
\<close>

lemma locked_read: "andThen (reading f) g w = g (f w) w"
  by simp

lemma findRun_then [simp]: "andThen (findRun i) g w = g (run_of i w) w"
  by (simp add: andThen_def)

text \<open>The delay a run has after a push: the later one.\<close>

definition later_delay :: "int option \<Rightarrow> int \<Rightarrow> int" where
  "later_delay d u = (case d of None \<Rightarrow> u | Some d \<Rightarrow> max d u)"

lemma reschedule_effect:
  assumes "latest i w = Some s" "sn_executionStatus s = DELAYED \<or> sn_executionStatus s = RUN_CREATED" "run_of i w = Some t"
  shows "\<exists>w'. rescheduleDelayedRun i u w = (Inr (t\<lparr>tr_delayUntil := Some u\<rparr>), w')
    \<and> run_of i w' = Some (t\<lparr>tr_delayUntil := Some u\<rparr>) \<and> (\<forall>j. j \<noteq> i \<longrightarrow> run_of j w' = run_of j w)
    \<and> en_jobs w' = (en_jobs w)(delayed_job i := map_option (\<lambda>j. j\<lparr>jb_availableAt := u\<rparr>) (en_jobs w (delayed_job i)))
    \<and> en_waitpoints w' = en_waitpoints w"
proof -
  obtain cs where cs: "getLatestExecutionSnapshot None i w = (Inr (s, cs), w)" using latest_read [OF assms(1)] by blast
  let ?f = "\<lambda>t. t\<lparr>tr_delayUntil := Some u\<rparr>"
  let ?w = "w\<lparr>en_runs := map (\<lambda>t. if tr_id t = i then ?f t else t) (en_runs w)\<rparr>"
  have "run_of j ?w = (if i = j then map_option ?f (run_of j w) else run_of j w)" for j
    by (simp add: run_of_def find_map_update)
  moreover have "tr_id t = i" by (rule run_of_id [OF assms(3)])
  ultimately show ?thesis
    using assms(2,3) cs
    by (simp add: rescheduleDelayedRun_def store_rescheduleRun_def updateTaskRun_def andThen_def andDo_def require_def
        store_createExecutionSnapshot_eq effects run_of_def)
qed

lemma trailing_effect:
  assumes "run_of i w = Some t"
  shows "\<exists>t' w'. updateRunForTrailingMode i y w = (Inr t', w') \<and> run_of i w' = Some t'
    \<and> (\<forall>j. j \<noteq> i \<longrightarrow> run_of j w' = run_of j w) \<and> tr_delayUntil t' = tr_delayUntil t \<and> tr_status t' = tr_status t
    \<and> tr_createdAt t' = tr_createdAt t \<and> en_jobs w' = en_jobs w"
  using assms by (auto simp: updateRunForTrailingMode_def rewriteDebouncedRun_def updateTaskRun_def run_of_def find_map_update)

lemma pexpire_frame: "pexpireKey k ttl w = (Inr (), w\<lparr>en_debounce := en_debounce (snd (pexpireKey k ttl w))\<rparr>)"
  by (simp add: pexpireKey_def setKey_def effects split: option.split)

lemma push_effect:
  assumes "latest i w = Some s" "sn_executionStatus s = DELAYED \<or> sn_executionStatus s = RUN_CREATED" "run_of i w = Some t"
  shows "\<exists>w' t'. push_later k i t u w = (Inr (), w') \<and> run_of i w' = Some t'
    \<and> tr_delayUntil t' = Some (later_delay (tr_delayUntil t) u) \<and> tr_status t' = tr_status t \<and> tr_createdAt t' = tr_createdAt t
    \<and> (\<forall>j. j \<noteq> i \<longrightarrow> run_of j w' = run_of j w)
    \<and> (en_jobs w (delayed_job i) \<noteq> None \<longrightarrow> map_option jb_availableAt (en_jobs w (delayed_job i)) = tr_delayUntil t \<longrightarrow>
        map_option jb_availableAt (en_jobs w' (delayed_job i)) = tr_delayUntil t')"
proof (cases "case tr_delayUntil t of None \<Rightarrow> True | Some d \<Rightarrow> u > d")
  case False
  with assms(3) show ?thesis
    by (auto simp: push_later_def ret_def later_delay_def split: option.splits)
next
  case True
  obtain v where v: "rescheduleDelayedRun i u w = (Inr (t\<lparr>tr_delayUntil := Some u\<rparr>), v)"
    "run_of i v = Some (t\<lparr>tr_delayUntil := Some u\<rparr>)" "\<forall>j. j \<noteq> i \<longrightarrow> run_of j v = run_of j w"
    "en_jobs v = (en_jobs w)(delayed_job i := map_option (\<lambda>j. j\<lparr>jb_availableAt := u\<rparr>) (en_jobs w (delayed_job i)))"
    using reschedule_effect [OF assms] by blast
  obtain v' where v': "pexpireKey k (key_ttl (en_now v) u) v = (Inr (), v')" "en_runs v' = en_runs v" "en_jobs v' = en_jobs v"
    using pexpire_frame [of k "key_ttl (en_now v) u" v] by (metis (no_types, lifting) world.select_convs(1,7) world.surjective world.update_convs(9))
  have "push_later k i t u w = (Inr (), v')"
    using True v(1) v'(1) by (simp add: push_later_def andDo_def andThen_def the_time_def reading_def)
  moreover have "later_delay (tr_delayUntil t) u = u" using True by (auto simp: later_delay_def split: option.splits)
  ultimately show ?thesis
    using v v' by (intro exI [of _ v'] exI [of _ "t\<lparr>tr_delayUntil := Some u\<rparr>"]) (auto simp: run_of_def)
qed

lemma locked_effect:
  assumes "latest i w = Some s" "sn_executionStatus s = DELAYED \<or> sn_executionStatus s = RUN_CREATED" "run_of i w = Some t"
    and "\<not> exceeds_window ds d t u"
  shows "\<exists>x w' t'. handleExistingRunLocked ds d k i (Some u) w = (Inr (Answer (Existing x (associatedWaitpoint i w))), w')
    \<and> run_of i w' = Some t' \<and> tr_delayUntil t' = Some (later_delay (tr_delayUntil t) u) \<and> tr_status t' = tr_status t
    \<and> tr_createdAt t' = tr_createdAt t \<and> (\<forall>j. j \<noteq> i \<longrightarrow> run_of j w' = run_of j w)
    \<and> (en_jobs w (delayed_job i) \<noteq> None \<longrightarrow> map_option jb_availableAt (en_jobs w (delayed_job i)) = tr_delayUntil t \<longrightarrow>
        map_option jb_availableAt (en_jobs w' (delayed_job i)) = tr_delayUntil t')"
proof -
  obtain v t1 where push: "push_later k i t u w = (Inr (), v)" "run_of i v = Some t1"
    "tr_delayUntil t1 = Some (later_delay (tr_delayUntil t) u)" "tr_status t1 = tr_status t" "tr_createdAt t1 = tr_createdAt t"
    "\<forall>j. j \<noteq> i \<longrightarrow> run_of j v = run_of j w"
    "en_jobs w (delayed_job i) \<noteq> None \<longrightarrow> map_option jb_availableAt (en_jobs w (delayed_job i)) = tr_delayUntil t \<longrightarrow>
        map_option jb_availableAt (en_jobs v (delayed_job i)) = tr_delayUntil t1"
    using push_effect [OF assms(1-3)] by blast
  have head: "handleExistingRunLocked ds d k i (Some u) w =
      (case (db_mode d, db_updateData d) of
         (Some trailing, Some x) \<Rightarrow>
           andThen (updateRunForTrailingMode i x) (\<lambda>updated. ret (Answer (Existing updated (associatedWaitpoint i w)))) v
       | _ \<Rightarrow> (Inr (Answer (Existing t (associatedWaitpoint i w))), v))"
    using assms push(1)
    by (auto simp: handleExistingRunLocked_def andDo_def andThen_Inr ret_def split: option.split debounce_mode.split)
  show ?thesis
  proof (cases "carries_update d")
    case False
    with head have "handleExistingRunLocked ds d k i (Some u) w = (Inr (Answer (Existing t (associatedWaitpoint i w))), v)"
      by (auto simp: carries_update_def split: option.split debounce_mode.split)
    with push show ?thesis by blast
  next
    case True
    then obtain y where y: "db_mode d = Some trailing" "db_updateData d = Some y" by (auto simp: carries_update_def)
    obtain t' v' where t': "updateRunForTrailingMode i y v = (Inr t', v')" "run_of i v' = Some t'"
      "\<forall>j. j \<noteq> i \<longrightarrow> run_of j v' = run_of j v" "tr_delayUntil t' = tr_delayUntil t1" "tr_status t' = tr_status t1"
      "tr_createdAt t' = tr_createdAt t1" "en_jobs v' = en_jobs v"
      using trailing_effect [OF push(2)] by blast
    with head y have "handleExistingRunLocked ds d k i (Some u) w = (Inr (Answer (Existing t' (associatedWaitpoint i w))), v')"
      by (simp add: andThen_Inr ret_def)
    with push t' show ?thesis by (intro exI [of _ t'] exI [of _ v']) auto
  qed
qed

section \<open>Properties\<close>

text \<open>
  A trigger that meets a run that is still delayed, under its lock: where the time it asks for
  is beyond the run's window the key is freed and a new run is made, with nothing else changed;
  otherwise the trigger is answered with the run, whose delay becomes the later of the two and
  whose job is due when its delay ends, and other runs are left alone.
\<close>

theorem debounce_pushes_later:
  assumes "latest i w = Some s" "sn_executionStatus s = DELAYED \<or> sn_executionStatus s = RUN_CREATED"
    and "run_of i w = Some t" "en_jobs w (delayed_job i) = Some job" "tr_delayUntil t = Some (jb_availableAt job)"
  shows "if exceeds_window ds d t u
    then handleExistingRunLocked ds d k i (Some u) w
      = (Inr (Answer MaxDurationExceeded), w\<lparr>en_debounce := (en_debounce w)(k := None)\<rparr>)
    else \<exists>x w' t' job'. handleExistingRunLocked ds d k i (Some u) w
        = (Inr (Answer (Existing x (associatedWaitpoint i w))), w')
      \<and> run_of i w' = Some t' \<and> tr_status t' = tr_status t \<and> tr_delayUntil t' = Some (max (jb_availableAt job) u)
      \<and> en_jobs w' (delayed_job i) = Some job' \<and> jb_availableAt job' = max (jb_availableAt job) u
      \<and> (\<forall>j. j \<noteq> i \<longrightarrow> run_of j w' = run_of j w)"
proof (cases "exceeds_window ds d t u")
  case True
  with assms show ?thesis
    by (auto simp: handleExistingRunLocked_def andDo_def andThen_def delKey_def effects)
next
  case False
  from locked_effect [OF assms(1-3) False, of k] assms(4,5) False show ?thesis
    by (auto simp: later_delay_def)
qed

text \<open>
  The fast path answers a trigger exactly as the lock would: where it is taken for a run that
  is still delayed, the section under the lock gives the same answer and changes nothing.
\<close>

theorem fast_path_skip_agrees:
  assumes "tryFastPathSkip ds d i u w = (Inr (Some answer), w')"
    and "latest i w = Some s" "sn_executionStatus s = DELAYED \<or> sn_executionStatus s = RUN_CREATED"
  shows "w' = w \<and> handleExistingRunLocked ds d k i (Some u) w = (Inr (Answer answer), w)"
proof -
  have no: "\<not> carries_update d" using assms(1) by (auto simp: tryFastPathSkip_def ret_def)
  obtain t where t: "run_of i w = Some t" using assms(1) no by (cases "run_of i w") (simp_all add: tryFastPathSkip_def ret_def)
  obtain v where v: "tr_delayUntil t = Some v"
    using assms(1) no t by (cases "tr_delayUntil t") (simp_all add: tryFastPathSkip_def ret_def)
  have skip: "u \<le> v" "\<not> exceeds_window ds d t u" "answer = Existing t (associatedWaitpoint i w)" "w' = w"
    using assms(1) no t v by (auto simp: tryFastPathSkip_def ret_def or_default_def split: if_splits)
  have "push_later k i t u w = (Inr (), w)" using skip(1) v by (simp add: push_later_def ret_def)
  moreover have "(case (db_mode d, db_updateData d) of (Some trailing, Some x) \<Rightarrow> f x | _ \<Rightarrow> g) = g" for f and g :: "locked_outcome engine"
    using no by (auto simp: carries_update_def split: option.split debounce_mode.split)
  ultimately show ?thesis
    using t skip assms(2,3) by (simp add: handleExistingRunLocked_def andDo_def andThen_Inr ret_def)
qed

text \<open>The steps of triggers whose window is at most \<open>M\<close>, in any order; the others are not taken.\<close>

definition windowed_step :: "debounce_settings \<Rightarrow> int \<Rightarrow> world \<Rightarrow> debounce_call \<times> phase \<Rightarrow> world" where
  "windowed_step ds M w cp =
     (case resolveMaxDurationMs ds (dc_debounce (fst cp)) of
        None \<Rightarrow> w
      | Some m \<Rightarrow> if m \<le> M then state_after (debounce_step ds (fst cp) (snd cp)) w else w)"

definition within_window :: "int \<Rightarrow> string \<Rightarrow> world \<Rightarrow> bool" where
  "within_window M i w =
     (case run_of i w of None \<Rightarrow> True
      | Some t \<Rightarrow> (case tr_delayUntil t of None \<Rightarrow> True | Some d \<Rightarrow> d \<le> tr_createdAt t + M))"

lemma quiet_within: "quiet m \<Longrightarrow> within_window M i w \<Longrightarrow> within_window M i (snd (m w))"
  using core_eqD(1) [OF quiet_core [of m w]] by (simp add: within_window_def)

lemma locked_within:
  assumes "within_window M i w" "resolveMaxDurationMs ds d = Some m" "m \<le> M"
  shows "within_window M i (snd (handleExistingRunLocked ds d k j u w))"
proof (cases "latest j w = None \<or> run_of j w = None \<or> u = None
    \<or> sn_executionStatus (the (latest j w)) \<noteq> DELAYED \<and> sn_executionStatus (the (latest j w)) \<noteq> RUN_CREATED")
  case True
  then have "snd (handleExistingRunLocked ds d k j u w) = w"
    by (auto simp: handleExistingRunLocked_def ret_def split: option.split)
  with assms(1) show ?thesis by simp
next
  case False
  then obtain s t v where st: "latest j w = Some s" "run_of j w = Some t" "u = Some v"
    "sn_executionStatus s = DELAYED \<or> sn_executionStatus s = RUN_CREATED" by auto
  show ?thesis
  proof (cases "exceeds_window ds d t v")
    case True
    with st assms(1) show ?thesis
      by (auto simp: handleExistingRunLocked_def andDo_def andThen_def delKey_def effects within_window_def run_of_def)
  next
    case no: False
    obtain x w' t' where e: "handleExistingRunLocked ds d k j u w = (Inr (Answer (Existing x (associatedWaitpoint j w))), w')"
      "run_of j w' = Some t'" "tr_delayUntil t' = Some (later_delay (tr_delayUntil t) v)" "tr_createdAt t' = tr_createdAt t"
      "\<And>l. l \<noteq> j \<Longrightarrow> run_of l w' = run_of l w"
      using locked_effect [OF st(1,4,2) no, of k] st(3) by blast
    have "v \<le> tr_createdAt t + M" using no assms(2,3) by (auto simp: exceeds_window_def)
    with e st(2) assms(1) show ?thesis
      by (cases "i = j") (auto simp: within_window_def later_delay_def split: option.splits)
  qed
qed

interpretation debounce_window: step_machine "windowed_step ds M" "within_window M i" for ds M i
proof
  fix w and cp :: "debounce_call \<times> phase"
  assume I: "within_window M i w"
  obtain c p where cp: "cp = (c, p)" by fastforce
  show "within_window M i (windowed_step ds M w cp)"
  proof (cases "\<exists>j u. p = Inside j u")
    case False
    then have "quiet (debounce_step ds c p)"
      by (cases p) (auto simp only: debounce_step.simps intro!: quiet_intros)
    then have "within_window M i (snd (debounce_step ds c p w))" using I by (rule quiet_within)
    with I cp show ?thesis by (auto simp: windowed_step_def state_after_def split: option.split)
  next
    case True
    then obtain j u where p: "p = Inside j u" by blast
    have "snd (debounce_step ds c p w) = snd (handleExistingRunLocked ds (dc_debounce c) (call_key c) j u w)"
      by (auto simp: p andThen_def ret_def split: prod.split sum.split)
    with I cp locked_within [OF I, of ds "dc_debounce c"] show ?thesis
      by (auto simp: windowed_step_def state_after_def split: option.split)
  qed
qed

text \<open>
  However many triggers with a bounded window push a debounced run, and in whatever order the
  steps of their servers come, the delay of the run never goes beyond that window after its
  creation.
\<close>

theorem debounce_window_kept:
  assumes "within_window M i w"
  shows "within_window M i (foldl (windowed_step ds M) w steps)"
  using assms by (rule debounce_window.run_inv)

section \<open>Witnesses\<close>

definition delayed_world :: world where
  "delayed_world = empty_world\<lparr>
     en_runs := [example_row\<lparr>tr_status := TaskRunStatus.DELAYED, tr_createdAt := 0, tr_delayUntil := Some 301000\<rparr>],
     en_snapshots := [snapshot_row ''s1'' 0 (example_input\<lparr>si_runId := ''run1'', si_executionStatus := DELAYED\<rparr>)],
     en_jobs := (\<lambda>_. None)(delayed_job ''run1'' := Some \<lparr>jb_payload = enqueueDelayedRunJob ''run1'', jb_availableAt = 301000\<rparr>)\<rparr>"

definition plain_debounce :: debounce_options where
  "plain_debounce = \<lparr>db_key = ''k'', db_delay = ''5m'', db_mode = None, db_maxDelay = None, db_updateData = None\<rparr>"

definition hour_settings :: debounce_settings where
  "hour_settings = \<lparr>ds_maxDebounceDurationMs = Some 3600000, ds_quantizeNewDelayUntilMs = None, ds_fastPathSkipEnabled = None\<rparr>"

lemma delayed_facts:
  "latest ''run1'' delayed_world = Some (snapshot_row ''s1'' 0 (example_input\<lparr>si_runId := ''run1'', si_executionStatus := DELAYED\<rparr>))"
  "run_of ''run1'' delayed_world = Some (example_row\<lparr>tr_status := TaskRunStatus.DELAYED, tr_createdAt := 0, tr_delayUntil := Some 301000\<rparr>)"
  "en_jobs delayed_world (delayed_job ''run1'') = Some \<lparr>jb_payload = enqueueDelayedRunJob ''run1'', jb_availableAt = 301000\<rparr>"
  by (simp_all add: delayed_world_def latest_def latest_in_def truthy_def run_of_def example_row_def example_input_def empty_world_def)

lemma hour_window: "resolveMaxDurationMs hour_settings plain_debounce = Some 3600000"
  by (simp add: resolveMaxDurationMs_def plain_debounce_def hour_settings_def)

theorem debounce_pushes_later_witness:
  "\<exists>x w' t' job'. handleExistingRunLocked hour_settings plain_debounce ''e1:t:k'' ''run1'' (Some 600000) delayed_world
        = (Inr (Answer (Existing x (associatedWaitpoint ''run1'' delayed_world))), w')
      \<and> run_of ''run1'' w' = Some t' \<and> tr_status t' = TaskRunStatus.DELAYED \<and> tr_delayUntil t' = Some 600000
      \<and> en_jobs w' (delayed_job ''run1'') = Some job' \<and> jb_availableAt job' = 600000
      \<and> (\<forall>j. j \<noteq> ''run1'' \<longrightarrow> run_of j w' = run_of j delayed_world)"
  using debounce_pushes_later [OF delayed_facts(1) _ delayed_facts(2,3), of hour_settings plain_debounce 600000 "''e1:t:k''"]
  by (simp add: exceeds_window_def hour_window)

theorem fast_path_skip_agrees_witness:
  "handleExistingRunLocked hour_settings plain_debounce ''e1:t:k'' ''run1'' (Some 300000) delayed_world
     = (Inr (Answer (Existing (example_row\<lparr>tr_status := TaskRunStatus.DELAYED, tr_createdAt := 0, tr_delayUntil := Some 301000\<rparr>) None)),
        delayed_world)"
proof -
  have "tryFastPathSkip hour_settings plain_debounce ''run1'' 300000 delayed_world
      = (Inr (Some (Existing (example_row\<lparr>tr_status := TaskRunStatus.DELAYED, tr_createdAt := 0, tr_delayUntil := Some 301000\<rparr>) None)),
         delayed_world)"
    by (simp add: tryFastPathSkip_def carries_update_def plain_debounce_def delayed_facts(2) debounceable_def
        DEBOUNCEABLE_RUN_STATUSES_def or_default_def exceeds_window_def hour_window [unfolded plain_debounce_def] ret_def)
      (simp add: associatedWaitpoint_def delayed_world_def empty_world_def)
  from fast_path_skip_agrees [OF this delayed_facts(1)] show ?thesis by simp
qed

theorem debounce_window_kept_witness:
  "within_window 3600000 ''run1'' (foldl (windowed_step hour_settings 3600000) delayed_world
     [(\<lparr>dc_environmentId = ''e1'', dc_taskIdentifier = ''t'', dc_debounce = plain_debounce\<rparr>, Inside ''run1'' (Some 600000)),
      (\<lparr>dc_environmentId = ''e1'', dc_taskIdentifier = ''t'', dc_debounce = plain_debounce\<rparr>, Inside ''run1'' (Some 4000000))])"
  by (rule debounce_window_kept) (simp add: within_window_def delayed_facts)

end
