(* ===== verification/TriggerOutcomes.thy ===== *)
theory TriggerOutcomes
  imports NewRuns DebounceRaces
begin

text \<open>
  What triggering, releasing and expiring leaves behind: where a new run is placed, which runs a
  new version releases, and what becomes of a run that waits for its deployment.
\<close>

section \<open>Runs an operation does not touch\<close>

definition untouched :: "string \<Rightarrow> run option \<Rightarrow> snapshot option \<Rightarrow> world \<Rightarrow> bool" where
  "untouched r t s w = (run_of r w = t \<and> latest r w = s)"

interpretation untouched: run_guard "untouched r t s" "\<lambda>i st. i \<noteq> r" "\<lambda>i f. i \<noteq> r" "\<lambda>i. i \<noteq> r" for r t s
proof
  fix w w' :: world
  assume "core w' = core w" "untouched r t s w"
  then show "untouched r t s w'" using core_eqD [of w' w] by (simp add: untouched_def)
next
  fix s' :: snapshot and w :: world
  assume "sn_isValid s' \<Longrightarrow> sn_runId s' \<noteq> r" "untouched r t s w"
  then show "untouched r t s (w\<lparr>en_snapshots := s' # en_snapshots w\<rparr>)"
    by (auto simp: untouched_def run_of_def latest_def latest_in_def truthy_def)
next
  fix i and f :: "run \<Rightarrow> run" and w :: world
  assume "i \<noteq> r" "\<And>t. tr_id (f t) = tr_id t" "untouched r t s w"
  then show "untouched r t s (w\<lparr>en_runs := map (\<lambda>t. if tr_id t = i then f t else t) (en_runs w)\<rparr>)"
    by (simp add: untouched_def run_of_def latest_def latest_in_def find_map_update)
next
  fix t' :: run and w :: world
  assume "tr_id t' \<noteq> r" "untouched r t s w"
  then show "untouched r t s (w\<lparr>en_runs := t' # en_runs w\<rparr>)"
    by (simp add: untouched_def run_of_def latest_def latest_in_def)
qed

section \<open>Placing a new run\<close>

text \<open>A message that waits for a worker: it is stored, and in its queue or handed to a worker queue.\<close>

definition waits_for_worker :: "message \<Rightarrow> message redis \<Rightarrow> bool" where
  "waits_for_worker m r =
     (readMessage (m_orgId m) (m_runId m) r = Some m
      \<and> (queued m r \<or> messageKey (m_orgId m) (m_runId m) \<in> set (r_lists r (workerQueueKey (m_workerQueue m)))))"

lemma after_enqueue_frame:
  "r_messages (master_after_enqueue master q r) = r_messages r"
  "k \<noteq> master \<Longrightarrow> r_zsets (master_after_enqueue master q r) k = r_zsets r k"
  "r_messages (add_ttl ttl r) = r_messages r"
  "(\<And>n s x. ttl = Some (n, s, x) \<Longrightarrow> k \<noteq> n) \<Longrightarrow> r_zsets (add_ttl ttl r) k = r_zsets r k"
  by (auto simp: master_after_enqueue_def add_ttl_def split: option.split)

lemma enqueueMessage_waits:
  assumes "good_env env"
  shows "waits_for_worker (input\<lparr>m_queue := queueKey env (m_queue input) (m_concurrencyKey input), m_workerQueue := wq, m_attempt := 0\<rparr>)
    (snd (enqueueMessage cfg now env wq skip fast input r))"
proof -
  define m where "m = input\<lparr>m_queue := queueKey env (m_queue input) (m_concurrencyKey input), m_workerQueue := wq, m_attempt := 0\<rparr>"
  have own: "own_zset (m_queue m)" using own_zset_queueKey [OF assms] by (simp add: m_def)
  then have ne: "m_queue m \<noteq> masterQueueKey cfg e" "m_queue m \<noteq> ckIndexKeyFromQueue (m_queue m)"
    "m_queue m \<noteq> envQueueKeyFromQueue (m_queue m)" "m_queue m \<noteq> ttlQueueKeyForShard n" for e n
    by (auto simp: own_zset_def masterQueueKey_def)
  have "waits_for_worker m (enqueue_fast m r)"
    by (simp add: waits_for_worker_def readMessage_def enqueue_fast_def)
  moreover have "waits_for_worker m (enqueue_slow cfg ttl m r) \<and> waits_for_worker m (enqueue_slow_ck cfg ttl m r)"
    if ttl: "\<And>n s x. ttl = Some (n, s, x) \<Longrightarrow> m_queue m \<noteq> n" for ttl
  proof -
    have "r_zsets (add_ttl ttl r') (m_queue m) = r_zsets r' (m_queue m)" for r' :: "message redis"
      by (rule after_enqueue_frame(4)) (rule ttl)
    with ne show ?thesis
      by (simp add: waits_for_worker_def readMessage_def enqueue_slow_def enqueue_slow_ck_def Let_def queued_def
          requeue_zset after_enqueue_frame(1,2,3))
  qed
  ultimately have call: "waits_for_worker m (snd (callEnqueueMessage cfg now ttl fast m r))"
    if "\<And>n s x. ttl = Some (n, s, x) \<Longrightarrow> m_queue m \<noteq> n" for ttl
    using that by (simp add: callEnqueueMessage_def Let_def)
  have "waits_for_worker m (snd (callEnqueueMessage cfg now
      (case m_ttlExpiresAt input of None \<Rightarrow> None
       | Some t \<Rightarrow> if t \<noteq> 0 \<and> qo_ttlSystem cfg
           then Some (ttlQueueKeyForShard (getTtlShardForQueue cfg (queueKey env (m_queue input) (m_concurrencyKey input))), t,
             ttl_member (queueKey env (m_queue input) (m_concurrencyKey input)) (m_runId input) (m_orgId input)) else None) fast m r))"
    by (rule call) (use ne(4) in \<open>auto split: option.splits if_splits\<close>)
  then show ?thesis by (simp add: enqueueMessage_def Let_def case_prod_beta m_def)
qed

section \<open>Triggering\<close>

lemma fresh_id_eq: "fresh_id p w = (Inr (p @ nat_to_string (en_fresh w)), w\<lparr>en_fresh := en_fresh w + 1\<rparr>)"
  by (simp add: fresh_id_def)

text \<open>The row, its snapshot and the answer of creating a run.\<close>

lemma create_triggered_effect:
  assumes "create_triggered cfg tg w = (Inr (t, k, associated), w')"
  shows "t = triggered_row cfg tg (en_now w)" "run_of (tg_id tg) w = None" "run_of (tg_id tg) w' = Some t"
    "\<exists>s. latest (tg_id tg) w' = Some s \<and> sn_executionStatus s = initial_execution_status tg"
    "en_now w' = en_now w"
proof -
  obtain wp v where wp: "prepare_waitpoint tg (w\<lparr>en_fresh := en_fresh w + 1\<rparr>) = (Inr wp, v)"
    "en_runs v = en_runs w" "en_snapshots v = en_snapshots w" "en_now v = en_now w"
    by (cases "waiting_parent tg")
      (auto simp: prepare_waitpoint_def buildRunAssociatedWaitpoint_def andThen_def fresh_id_def ret_def)
  let ?t = "triggered_row cfg tg (en_now w)"
  let ?x = "first_snapshot tg (initial_execution_status tg) (initial_description tg) (initial_status tg)"
  let ?k = "''snapshot_'' @ nat_to_string (en_fresh w)"
  have run: "create_triggered cfg tg w =
      andThen (explaining_duplicates tg (createRun ?t ?k ?x wp)) (\<lambda>a. ret (?t, ?k, a)) v"
    using wp(1) by (simp add: create_triggered_def andThen_Inr [OF fresh_id_eq] the_time_def andThen_Inr)
  have id: "tr_id ?t = tg_id tg" by (simp add: triggered_row_def new_row_def)
  obtain wps where none: "run_of (tg_id tg) v = None" and t: "t = ?t" and w': "w' = v\<lparr>en_runs := ?t # en_runs v,
      en_snapshots := snapshot_row ?k (en_now v) ?x # en_snapshots v, en_waitpoints := wps\<rparr>"
  proof (cases rule: createRun_cases [of ?t ?k ?x wp v])
    case (conflict target)
    with assms run show ?thesis by (simp add: andThen_def explaining_duplicates_def)
  next
    case (fresh wps r)
    then have "explaining_duplicates tg (createRun ?t ?k ?x wp) v = createRun ?t ?k ?x wp v"
      by (simp add: explaining_duplicates_def)
    with fresh(2) run have "create_triggered cfg tg w = (Inr (?t, ?k, r), v\<lparr>en_runs := ?t # en_runs v,
        en_snapshots := snapshot_row ?k (en_now v) ?x # en_snapshots v, en_waitpoints := wps\<rparr>)"
      by (simp add: andThen_def ret_def)
    with assms fresh(1) id show ?thesis by (intro that [of wps]) auto
  qed
  show "t = triggered_row cfg tg (en_now w)" by (rule t)
  show "run_of (tg_id tg) w = None" using none wp(2) by (simp add: run_of_def)
  show "run_of (tg_id tg) w' = Some t" using w' t id by (simp add: run_of_def)
  show "\<exists>s. latest (tg_id tg) w' = Some s \<and> sn_executionStatus s = initial_execution_status tg"
    using w' by (simp add: latest_def latest_in_def truthy_def first_snapshot_def)
  show "en_now w' = en_now w" using w' wp(4) by simp
qed

lemma keyless_more [keyless_intros]:
  "keyless (enqueueJob i p t)" "keyless (countPendingWaitpoints ids)"
  by (simp_all add: keyless_def effects)

lemma keyless_whenever [keyless_intros]: "keyless m \<Longrightarrow> keyless (whenever b m)"
  by (simp add: whenever_def keyless_effects)

lemma keyless_if [keyless_intros]: "keyless m \<Longrightarrow> keyless n \<Longrightarrow> keyless (if b then m else n)"
  by simp

lemma keyless_option [keyless_intros]:
  "keyless m \<Longrightarrow> (\<And>y. keyless (f y)) \<Longrightarrow> keyless (case x of None \<Rightarrow> m | Some y \<Rightarrow> f y)"
  by (cases x) simp_all

lemma keyless_forEach [keyless_intros]: "(\<And>x. keyless (f x)) \<Longrightarrow> keyless (forEach xs f)"
  by (induction xs) (simp_all add: keyless_effects keyless_andDo)

lemma keyless_edges [keyless_intros]: "keyless (blockRunWithWaitpointEdges r ids p sp b)"
proof -
  have "keyless (modify (\<lambda>w. let idx = g in if P idx w then w else w\<lparr>en_edges := h idx w\<rparr>))" for g P h
    by (simp add: keyless_def modify_def Let_def)
  then show ?thesis
    unfolding blockRunWithWaitpointEdges_def add_edge_def by (intro keyless_intros)
qed

lemma keyless_block: "keyless (blockRunWithWaitpoint cfg r ids a)"
  unfolding blockRunWithWaitpoint_def createExecutionSnapshot_def enqueueHeartbeatIfNeeded_def schedule_timeouts_def
    schedule_continue_def sendNotificationToWorker_def case_prod_unfold Let_def
  by (intro keyless_intros)

lemma keyless_parent: "keyless (block_parent cfg tg a)"
  unfolding block_parent_def blockRunWithWaitpointLockless_def schedule_timeouts_def prod.case
  by (intro keyless_intros keyless_block)

lemma register_debounced_effect: "\<exists>d. register_debounced tg t c w = (Inr (), w\<lparr>en_debounce := d\<rparr>)"
proof -
  have "\<exists>b d. registerDebouncedRun k r u c w = (Inr b, w\<lparr>en_debounce := d\<rparr>)" for k r u
    by (auto simp: registerDebouncedRun_def registerIfClaimOwned_def setKey_def andThen_def andDo_def effects Let_def
        split: option.split) (rule exI [of _ "en_debounce w"], simp)
  then obtain b d where "registerDebouncedRun k r u c w = (Inr (b k r u), w\<lparr>en_debounce := d k r u\<rparr>)" for k r u
    by metis
  then show ?thesis
    by (cases "tg_debounce tg"; cases "tr_delayUntil t")
      (auto simp: register_debounced_def andThen_def ret_def intro: exI [of _ "en_debounce w"])
qed

text \<open>A run that is published has a message that waits for a worker.\<close>

lemma publishRun_waits:
  assumes "good_env env"
  shows "\<exists>r m. publishRun cfg t env a b c w = (Inr (), w\<lparr>en_redis := r\<rparr>) \<and> m_runId m = tr_id t
    \<and> m_orgId m = env_organizationId env \<and> m_queue m = queueKey env (tr_queue t) (tr_concurrencyKey t) \<and> waits_for_worker m r"
proof -
  let ?input = "run_message (en_now w) t env a b"
  let ?wq = "if env_type env = DEVELOPMENT then env_id env else tr_workerQueue t"
  let ?r = "snd (enqueueMessage (eo_queue cfg) (en_now w) env ?wq False c ?input (en_redis w))"
  let ?m = "?input\<lparr>m_queue := queueKey env (m_queue ?input) (m_concurrencyKey ?input), m_workerQueue := ?wq, m_attempt := 0\<rparr>"
  have "publishRun cfg t env a b c w = (Inr (), w\<lparr>en_redis := ?r\<rparr>)"
    by (simp add: publishRun_def andThen_def on_queue_def effects split: prod.split)
  moreover have "waits_for_worker ?m ?r" by (rule enqueueMessage_waits [OF assms])
  moreover have "m_runId ?m = tr_id t" "m_orgId ?m = env_organizationId env"
    "m_queue ?m = queueKey env (tr_queue t) (tr_concurrencyKey t)"
    by (simp_all add: run_message_def Let_def)
  ultimately show ?thesis by blast
qed

text \<open>The jobs and the message of a placed run.\<close>

lemma place_run_effect:
  assumes "good_env (tg_environment tg)" "t = triggered_row cfg tg now"
  shows "\<exists>w'. place_run cfg pv tg t k c w = (Inr (), w') \<and> core w' = core w
    \<and> (case truthy (tg_parkedOnExternalDeploymentId tg) of
         Some x \<Rightarrow> en_jobs w' (park_job (tg_id tg)) = Some \<lparr>jb_payload = expireParkedExternalDeploymentRunJob (tg_id tg) x,
           jb_availableAt = park_deadline pv (en_now w) (resolveMaxTtl cfg (tg_ttl tg)) (tg_delayUntil tg)\<rparr>
       | None \<Rightarrow>
           (case tg_delayUntil tg of
              Some d \<Rightarrow> en_jobs w' (delayed_job (tg_id tg)) = Some \<lparr>jb_payload = enqueueDelayedRunJob (tg_id tg), jb_availableAt = d\<rparr>
            | None \<Rightarrow> \<exists>m. m_runId m = tg_id tg \<and> m_orgId m = env_organizationId (tg_environment tg)
                \<and> m_queue m = queueKey (tg_environment tg) (tg_queue tg) (tg_concurrencyKey tg) \<and> waits_for_worker m (en_redis w')))"
proof -
  have row: "tr_id t = tg_id tg" "tr_delayUntil t = tg_delayUntil tg" "tr_ttl t = resolveMaxTtl cfg (tg_ttl tg)"
    "tr_queue t = tg_queue tg" "tr_concurrencyKey t = tg_concurrencyKey tg"
    by (simp_all add: assms(2) triggered_row_def new_row_def)
  have quiet: "core (snd (place_run cfg pv tg t k c w)) = core w" by (rule quiet_core) (rule quiet_place_run)
  show ?thesis
  proof (cases "truthy (tg_parkedOnExternalDeploymentId tg)")
    case (Some x)
    obtain d where "register_debounced tg t c = (\<lambda>w. (Inr (), w\<lparr>en_debounce := d w\<rparr>))"
      using register_debounced_effect by metis
    with Some quiet row show ?thesis
      by (simp add: place_run_def andDo_def andThen_def scheduleExternalDeploymentParkDeadline_def effects)
  next
    case None
    show ?thesis
    proof (cases "tg_delayUntil tg")
      case (Some u)
      obtain d where "register_debounced tg t c = (\<lambda>w. (Inr (), w\<lparr>en_debounce := d w\<rparr>))"
        using register_debounced_effect by metis
      with None Some quiet row show ?thesis
        by (simp add: place_run_def andDo_def andThen_def scheduleDelayedRunEnqueuing_def effects)
    next
      case now: None
      have "\<exists>v. (case truthy (resolveMaxTtl cfg (tg_ttl tg)) of None \<Rightarrow> ret ()
          | Some ttl \<Rightarrow> whenever (env_type (tg_environment tg) = DEVELOPMENT) (scheduleExpireRun (tr_id t) ttl)) w = (Inr (), v)"
        by (auto simp: scheduleExpireRun_def andThen_def effects whenever_def split: option.split)
      then obtain v where v: "place_run cfg pv tg t k c w = publishRun cfg t (tg_environment tg) True True (tg_enableFastPath tg) v"
        using None now row
        by (auto simp: place_run_def andDo_def andThen_Inr emit_def modify_def)
      from publishRun_waits [OF assms(1), of cfg t True True "tg_enableFastPath tg" v] show ?thesis
        using None now quiet v row by (intro exI [of _ "snd (place_run cfg pv tg t k c w)"]) auto
    qed
  qed
qed

text \<open>
  C8. A trigger that returns has created exactly the run it was asked for, under an id that had no
  run, with its first snapshot, and has put it where it will be taken up again: a run parked on a
  deployment has the job that ends its wait, a delayed run the job that enqueues it when its delay
  is over, and any other run a message of its own that waits in its queue or for a worker.
\<close>

theorem trigger_places_run:
  assumes "trigger_new cfg pv tg claim w = (Inr t, w')" "good_env (tg_environment tg)" "waiting_parent tg \<noteq> Some (tg_id tg)"
  shows "t = triggered_row cfg tg (en_now w) \<and> run_of (tg_id tg) w = None \<and> run_of (tg_id tg) w' = Some t
    \<and> map_option sn_executionStatus (latest (tg_id tg) w') = Some (initial_execution_status tg)
    \<and> (case truthy (tg_parkedOnExternalDeploymentId tg) of
         Some x \<Rightarrow> en_jobs w' (park_job (tg_id tg)) = Some \<lparr>jb_payload = expireParkedExternalDeploymentRunJob (tg_id tg) x,
           jb_availableAt = park_deadline pv (en_now w) (resolveMaxTtl cfg (tg_ttl tg)) (tg_delayUntil tg)\<rparr>
       | None \<Rightarrow>
           (case tg_delayUntil tg of
              Some d \<Rightarrow> en_jobs w' (delayed_job (tg_id tg)) = Some \<lparr>jb_payload = enqueueDelayedRunJob (tg_id tg), jb_availableAt = d\<rparr>
            | None \<Rightarrow> \<exists>m. m_runId m = tg_id tg \<and> m_orgId m = env_organizationId (tg_environment tg)
                \<and> m_queue m = queueKey (tg_environment tg) (tg_queue tg) (tg_concurrencyKey tg) \<and> waits_for_worker m (en_redis w')))"
proof -
  obtain t0 k a w1 where c: "create_triggered cfg tg w = (Inr (t0, k, a), w1)"
    using assms(1) by (cases "create_triggered cfg tg w") (auto simp: trigger_new_def andThen_def split: sum.splits)
  note created = create_triggered_effect [OF c]
  obtain w2 where b: "block_parent cfg tg a w1 = (Inr (), w2)"
    using assms(1) c by (cases "block_parent cfg tg a w1") (auto simp: trigger_new_def andThen_def andDo_def split: sum.splits)
  obtain w3 where p: "place_run cfg pv tg t0 k claim w2 = (Inr (), w3)" "core w3 = core w2"
    "case truthy (tg_parkedOnExternalDeploymentId tg) of
         Some x \<Rightarrow> en_jobs w3 (park_job (tg_id tg)) = Some \<lparr>jb_payload = expireParkedExternalDeploymentRunJob (tg_id tg) x,
           jb_availableAt = park_deadline pv (en_now w2) (resolveMaxTtl cfg (tg_ttl tg)) (tg_delayUntil tg)\<rparr>
       | None \<Rightarrow>
           (case tg_delayUntil tg of
              Some d \<Rightarrow> en_jobs w3 (delayed_job (tg_id tg)) = Some \<lparr>jb_payload = enqueueDelayedRunJob (tg_id tg), jb_availableAt = d\<rparr>
            | None \<Rightarrow> \<exists>m. m_runId m = tg_id tg \<and> m_orgId m = env_organizationId (tg_environment tg)
                \<and> m_queue m = queueKey (tg_environment tg) (tg_queue tg) (tg_concurrencyKey tg) \<and> waits_for_worker m (en_redis w3))"
    using place_run_effect [OF assms(2) created(1), of pv k claim w2] by blast
  have now: "en_now w2 = en_now w"
    using keyless_parent [of cfg tg a] b created(5) by (metis keyless_def snd_conv)
  have "untouched (tg_id tg) (Some t0) (latest (tg_id tg) w1) (snd (block_parent cfg tg a w1))"
    by (rule untouched.parent_guard) (use created(3) assms(3) in \<open>auto simp: untouched_def\<close>)
  with b p(2) core_eqD [of w3 w2] have rows: "run_of (tg_id tg) w3 = Some t0" "latest (tg_id tg) w3 = latest (tg_id tg) w1"
    by (simp_all add: untouched_def)
  have "t = t0" "w' = w3\<lparr>en_events := en_events w3 @ [runCreated (tr_id t0)]\<rparr>"
    using assms(1) c b p(1) by (auto simp: trigger_new_def andThen_def andDo_def effects)
  moreover have "run_of i (w3\<lparr>en_events := ev\<rparr>) = run_of i w3" "latest i (w3\<lparr>en_events := ev\<rparr>) = latest i w3" for i ev
    by (simp_all add: run_of_def latest_def latest_in_def)
  ultimately show ?thesis
    using created rows p(3) now by (auto split: option.splits)
qed

text \<open>
  A trigger with the idempotency key of a run of the same task and environment is rejected with
  the error the caller retries on, and nothing is left of it: no row, snapshot, waitpoint, job or
  message.
\<close>

theorem duplicate_trigger_rejected:
  assumes "u \<in> set (en_runs w)" "rd_idempotencyKey (tr_data u) = Some key" "rd_idempotencyKey (tg_data tg) = Some key"
    and "tr_taskIdentifier u = tg_taskIdentifier tg" "tr_runtimeEnvironmentId u = env_id (tg_environment tg)"
    and "run_of (tg_id tg) w = None" "rd_oneTimeUseToken (tg_data tg) = None"
  shows "\<exists>w'. trigger_new cfg pv tg claim w
      = (Inl (RunDuplicateIdempotencyKeyError (''Run with idempotency key '' @ key @ '' already exists'')), w')
    \<and> core w' = core w \<and> en_waitpoints w' = en_waitpoints w \<and> en_edges w' = en_edges w \<and> en_jobs w' = en_jobs w
    \<and> en_redis w' = en_redis w \<and> en_events w' = en_events w"
proof -
  obtain wp n where wp: "prepare_waitpoint tg (w\<lparr>en_fresh := en_fresh w + 1\<rparr>) = (Inr wp, w\<lparr>en_fresh := n\<rparr>)"
    by (cases "waiting_parent tg")
      (auto simp: prepare_waitpoint_def buildRunAssociatedWaitpoint_def andThen_def fresh_id_def ret_def)
  let ?t = "triggered_row cfg tg (en_now w)"
  have row: "tr_id ?t = tg_id tg" "tr_data ?t = tg_data tg" "tr_taskIdentifier ?t = tg_taskIdentifier tg"
    "tr_runtimeEnvironmentId ?t = env_id (tg_environment tg)"
    by (simp_all add: triggered_row_def new_row_def)
  have "unique_conflict ?t (en_runs w) = Some [''runtimeEnvironmentId'', ''taskIdentifier'', ''idempotencyKey'']"
    using assms by (auto simp: unique_conflict_def row list_ex_iff run_of_def find_None_iff)
  then have "createRun ?t k x wp (w\<lparr>en_fresh := n\<rparr>)
      = (Inl (UniqueConstraint [''runtimeEnvironmentId'', ''taskIdentifier'', ''idempotencyKey'']), w\<lparr>en_fresh := n\<rparr>)" for k x
    by (simp add: createRun_def andDo_def andThen_def insertRun_def)
  then have "create_triggered cfg tg w
      = (Inl (RunDuplicateIdempotencyKeyError (''Run with idempotency key '' @ key @ '' already exists'')), w\<lparr>en_fresh := n\<rparr>)"
    using wp assms(3)
    by (simp add: create_triggered_def andThen_def fresh_id_def the_time_def reading_def explaining_duplicates_def
        duplicate_error_def or_default_def)
  then show ?thesis by (simp add: trigger_new_def andThen_def)
qed

text \<open>
  Creating a cancelled run twice, as a drainer does that pops a buffered run a second time, is
  the same as creating it once: the second call answers with the run of the first and changes
  nothing, not even an event.
\<close>

theorem cancelled_once:
  assumes "createCancelledRun tg at1 reason1 ev1 w = (Inr t, w1)"
  shows "createCancelledRun tg at2 reason2 ev2 w1 = (Inr t, w1)"
proof -
  let ?x = "(first_snapshot tg FINISHED ''Run cancelled before materialisation'' CANCELED)\<lparr>si_workerId := None, si_runnerId := None\<rparr>"
  have id: "tr_id (cancelled_row tg n a r) = tg_id tg" for n a r by (simp add: cancelled_row_def new_row_def)
  have known: "createCancelledRun tg at2 reason2 ev2 v = (Inr u, v)" if "run_of (tg_id tg) v = Some u" "tr_status u = CANCELED" for u v
  proof -
    have "unique_conflict (cancelled_row tg (en_now v) at2 reason2) (en_runs v) = Some [''id'']"
      using that(1) by (auto simp: unique_conflict_def id list_ex_iff run_of_def find_Some_iff)
    with that show ?thesis
      by (simp add: createCancelledRun_def store_createCancelledRun_def andDo_def andThen_def the_time_def reading_def insertRun_def)
  qed
  show ?thesis
  proof (cases rule: insertRun_cases [of "cancelled_row tg (en_now w) at1 reason1" w])
    case (conflict target)
    with assms have "run_of (tg_id tg) w1 = Some t" "tr_status t = CANCELED"
      by (auto simp: createCancelledRun_def store_createCancelledRun_def andDo_def andThen_def the_time_def reading_def
          split: option.splits if_splits)
    then show ?thesis by (rule known)
  next
    case fresh
    have "run_of (tg_id tg) w1 = Some t" "tr_status t = CANCELED"
      using assms fresh(2)
      by (auto simp: createCancelledRun_def store_createCancelledRun_def andDo_def andThen_def the_time_def reading_def
          store_createExecutionSnapshot_eq ret_def whenever_def emit_def modify_def run_of_def id cancelled_row_def new_row_def
          split: if_splits)
    then show ?thesis by (rule known)
  qed
qed

section \<open>Versions and deployments\<close>

lemma promote_all_skips:
  assumes "\<And>u. u \<in> set ts \<Longrightarrow> tr_id u = r \<Longrightarrow> skips_run x u"
  shows "preserves (untouched r t s) (promote_all cfg env x pinned ts n)"
  using assms
proof (induction ts arbitrary: n)
  case (Cons u ts)
  show ?case
  proof (cases "skips_run x u")
    case True
    with Cons show ?thesis by simp
  next
    case False
    with Cons.prems have "tr_id u \<noteq> r" by auto
    then have "preserves (untouched r t s) (promoteParkedRun cfg env u pin)" for pin
      by (intro untouched.promoteParked_guard)
    with False Cons show ?thesis by (auto intro!: preserves_andThen)
  qed
qed (simp add: preserves_ret)

text \<open>
  A version that is deployed releases no run that was parked on another deployment: whatever the
  lookup of candidates returns, such a run keeps its row, with its status, and its latest snapshot.
\<close>

theorem other_deployments_runs_stay_parked:
  assumes "distinct (map tr_id (en_runs w))" "run_of r w = Some t"
    and "tr_statusReason t = Some PARKED_ON_EXTERNAL_DEPLOYMENT_STATUS_REASON" "readExternalDeploymentIdAnnotation t = Some x"
    and "pv_backgroundWorker pv workerId = Some b" "bw_externalDeploymentId b \<noteq> Some x"
  shows "run_of r (state_after (enqueueRunsForBackgroundWorker cfg pv workerId attempt) w) = Some t
    \<and> latest r (state_after (enqueueRunsForBackgroundWorker cfg pv workerId attempt) w) = latest r w"
proof -
  let ?I = "untouched r (Some t) (latest r w)"
  have I: "?I w" using assms(2) by (simp add: untouched_def)
  have "u = t" if "u \<in> set (en_runs w)" "tr_id u = r" for u
    using assms(1,2) that by (auto simp: run_of_def find_Some_iff distinct_map dest!: inj_onD)
  moreover have "skips_run (bw_externalDeploymentId b) t"
    using assms(3,4,6) by (simp add: skips_run_def insists_on_def)
  ultimately have all: "preserves ?I (promote_all cfg env (bw_externalDeploymentId b) pinned (waiting_runs ids w) n)" for env pinned ids n
    by (intro promote_all_skips) (auto simp: waiting_runs_def)
  have quiet: "?I (snd (m w))" if "quiet m" for m :: "unit engine"
    by (rule preservesD [OF untouched.quiet_guard [OF that] I])
  have promoted: "?I (snd (andThen (promote_all cfg env (bw_externalDeploymentId b) pinned (waiting_runs ids w) 0) g w))"
    if "\<And>c. quiet (g c)" for env pinned ids and g :: "nat \<Rightarrow> unit engine"
    by (rule untouched.then_quiet [OF _ that], rule preservesD [OF all I])
  have "?I (snd (enqueueRunsForBackgroundWorker cfg pv workerId attempt w))"
    unfolding enqueueRunsForBackgroundWorker_def Let_def
    using I by (auto simp: assms(5) ret_def intro!: quiet quiet_intros promoted)
  then show ?thesis by (simp add: untouched_def state_after_def)
qed

text \<open>A run that is enqueued is in its queue, with the snapshot that says so.\<close>

lemma enqueueRun_waits:
  assumes "good_env env"
  shows "\<exists>s w' m. enqueueRun cfg t env (no_args\<lparr>ea_includeTtl := True\<rparr>) w = (Inr s, w') \<and> en_runs w' = en_runs w
    \<and> map_option sn_executionStatus (latest (tr_id t) w') = Some QUEUED
    \<and> m_runId m = tr_id t \<and> m_orgId m = env_organizationId env \<and> m_queue m = queueKey env (tr_queue t) (tr_concurrencyKey t)
    \<and> waits_for_worker m (en_redis w')"
proof -
  let ?a = "no_args\<lparr>ea_includeTtl := True\<rparr>"
  let ?x = "queued_input t env ?a"
  obtain f e where c: "createExecutionSnapshot cfg ?x w =
      (Inr (the_new_snapshot w ?x), w\<lparr>en_fresh := en_fresh w + 1,
         en_snapshots := the_new_snapshot w ?x # en_snapshots w, en_jobs := f, en_events := e\<rparr>)"
    using createExecutionSnapshot_effect by blast
  define v where "v = w\<lparr>en_fresh := en_fresh w + 1, en_snapshots := the_new_snapshot w ?x # en_snapshots w, en_jobs := f, en_events := e\<rparr>"
  obtain r m where r: "publishRun cfg t env (ea_includeTtl ?a) (ea_anchorEligibilityAtQueuePosition ?a) (ea_enableFastPath ?a) v
      = (Inr (), v\<lparr>en_redis := r\<rparr>)" "m_runId m = tr_id t" "m_orgId m = env_organizationId env"
    "m_queue m = queueKey env (tr_queue t) (tr_concurrencyKey t)" "waits_for_worker m r"
    using publishRun_waits [OF assms] by metis
  have "enqueueRun cfg t env ?a w = (Inr (the_new_snapshot w ?x), v\<lparr>en_redis := r\<rparr>)"
    using c r(1) by (simp add: enqueueRun_def andThen_def andDo_def ret_def v_def)
  moreover have "latest (tr_id t) (v\<lparr>en_redis := r\<rparr>) = Some (the_new_snapshot w ?x)"
    by (simp add: v_def latest_def latest_in_def truthy_def the_new_snapshot_def queued_input_def no_args_def)
  moreover have "sn_executionStatus (the_new_snapshot w ?x) = QUEUED"
    by (simp add: the_new_snapshot_def queued_input_def no_args_def or_default_def)
  ultimately show ?thesis using r by (auto simp: v_def)
qed

lemma run_of_in_set: "run_of i w = Some t \<Longrightarrow> t \<in> set (en_runs w)"
  by (auto simp: run_of_def find_Some_iff)

lemma emit_eq: "emit ev w = (Inr (), w\<lparr>en_events := en_events w @ [ev]\<rparr>)"
  by (simp add: emit_def modify_def)

lemma promote_row:
  assumes "run_of i w = Some t" "tr_status t = PENDING_VERSION"
  shows "\<exists>n w'. promotePendingVersionRuns i st (Some p) w = (Inr (Suc n), w')
    \<and> run_of i w' = Some (t\<lparr>tr_status := st, tr_lockedToVersionId := Some p\<rparr>)"
proof -
  have "filter (\<lambda>u. tr_id u = i \<and> tr_status u = PENDING_VERSION) (en_runs w) \<noteq> []"
    using run_of_in_set [OF assms(1)] run_of_id [OF assms(1)] assms(2) by (auto simp: filter_empty_conv)
  moreover have "run_of i (w\<lparr>en_runs := map (\<lambda>u. if tr_id u = i \<and> tr_status u = PENDING_VERSION then f u else u) (en_runs w)\<rparr>)
      = Some (f t)" if "\<And>u. tr_id (f u) = tr_id u" for f
    using find_map_update [of "\<lambda>u. if tr_status u = PENDING_VERSION then f u else u" i i "en_runs w"] assms that
    by (simp add: run_of_def if_if_eq_conj)
  ultimately show ?thesis
    by (simp add: promotePendingVersionRuns_def Let_def) (metis length_0_conv not0_implies_Suc)
qed

text \<open>
  When the wait of a parked run ends and its deployment has landed after all, the run is released:
  it is pending, locked to the version of that deployment with the highest number, has a queued
  snapshot and a message that waits for a worker.
\<close>

theorem parked_run_released:
  assumes "run_of i w = Some t" "tr_status t = PENDING_VERSION" "readExternalDeploymentIdAnnotation t = Some x"
    and "truthy (tr_organizationId t) = Some orgId" "eo_resolveEnv cfg (tr_runtimeEnvironmentId t) = Some env" "good_env env"
    and "findDeployedWorkerForExternalId pv (tr_runtimeEnvironmentId t) x = Some worker" "\<not> still_delayed (en_now w) t"
  shows "\<exists>w' m. expireParkedExternalDeploymentRun cfg pv i x w = (Inr (), w')
    \<and> run_of i w' = Some (t\<lparr>tr_status := PENDING, tr_lockedToVersionId := Some (xw_id worker)\<rparr>)
    \<and> map_option sn_executionStatus (latest i w') = Some QUEUED
    \<and> m_runId m = i \<and> m_queue m = queueKey env (tr_queue t) (tr_concurrencyKey t) \<and> waits_for_worker m (en_redis w')"
proof -
  have id: "tr_id t = i" by (rule run_of_id [OF assms(1)])
  let ?u = "t\<lparr>tr_status := PENDING, tr_lockedToVersionId := Some (xw_id worker)\<rparr>"
  obtain n v where v: "promotePendingVersionRuns i PENDING (Some (xw_id worker)) w = (Inr (Suc n), v)" "run_of i v = Some ?u"
    using promote_row [OF assms(1,2)] by blast
  obtain s v' m where v': "enqueueRun cfg ?u env (no_args\<lparr>ea_includeTtl := True\<rparr>) v = (Inr s, v')" "en_runs v' = en_runs v"
    "map_option sn_executionStatus (latest (tr_id ?u) v') = Some QUEUED" "m_runId m = tr_id ?u"
    "m_queue m = queueKey env (tr_queue ?u) (tr_concurrencyKey ?u)" "waits_for_worker m (en_redis v')"
    using enqueueRun_waits [OF assms(6), of cfg ?u v] by blast
  have "promote_run cfg env t False (Some (xw_id worker)) w = (Inr True, v')"
    using v v'(1) by (simp add: promote_run_def runInTransaction_def andThen_Inr andDo_def id required_def ret_def)
  then have "promoteParkedRun cfg env t (Some (xw_id worker)) w
      = (Inr True, v'\<lparr>en_events := en_events v' @ [runStatusChanged i PENDING]\<rparr>)"
    using assms(8) id
    by (simp add: promoteParkedRun_def the_time_def Let_def andThen_Inr andDo_def whenever_def ret_def
        andThen_Inr [OF emit_eq] split: option.split)
  then have "release_parked cfg pv t env x w = (Inr True, v'\<lparr>en_events := en_events v' @ [runStatusChanged i PENDING]\<rparr>)"
    using assms(7) by (simp add: release_parked_def andThen_Inr ret_def)
  then have "expireParkedExternalDeploymentRun cfg pv i x w
      = (Inr (), v'\<lparr>en_events := en_events v' @ [runStatusChanged i PENDING]\<rparr>)"
    using assms by (simp add: expireParkedExternalDeploymentRun_def andThen_Inr [OF findRun_run] andThen_Inr ret_def)
  moreover have "run_of i (v'\<lparr>en_events := e\<rparr>) = Some ?u" "latest i (v'\<lparr>en_events := e\<rparr>) = latest i v'" for e
    using v(2) v'(2) by (simp_all add: run_of_def latest_def latest_in_def)
  ultimately show ?thesis using v' id by auto
qed

text \<open>
  When the wait of a parked run ends and no deployment holds its id, a run that is due is expired:
  its row says why, its last snapshot is FINISHED, the waitpoint of a parent that waits for it is
  completed by a job with the error, and the queue is left alone; a run that is not yet due keeps its
  row and gets a later deadline.
\<close>

theorem parked_run_expires:
  assumes "run_of i w = Some t" "tr_status t = PENDING_VERSION" "readExternalDeploymentIdAnnotation t = Some x"
    and "truthy (tr_organizationId t) = Some orgId" "eo_resolveEnv cfg (tr_runtimeEnvironmentId t) = Some env"
    and "findDeployedWorkerForExternalId pv (tr_runtimeEnvironmentId t) x = None"
  shows "\<exists>w'. expireParkedExternalDeploymentRun cfg pv i x w = (Inr (), w') \<and> en_redis w' = en_redis w
    \<and> (if still_delayed (en_now w) t
       then run_of i w' = Some t \<and> en_jobs w' (park_job i) = Some \<lparr>jb_payload = expireParkedExternalDeploymentRunJob i x,
         jb_availableAt = park_deadline pv (en_now w) (tr_ttl t) (tr_delayUntil t)\<rparr>
       else run_of i w' = Some (t\<lparr>tr_status := EXPIRED, tr_statusReason := Some EXPIRED_ON_EXTERNAL_DEPLOYMENT_STATUS_REASON,
           tr_completedAt := Some (en_now w), tr_expiredAt := Some (en_now w), tr_error := Some (parked_error x)\<rparr>)
         \<and> map_option sn_executionStatus (latest i w') = Some FINISHED
         \<and> (case associatedWaitpoint i w of None \<Rightarrow> True | Some y \<Rightarrow>
             en_jobs w' (park_finish_job (wp_id y)) = Some \<lparr>jb_payload =
               finishWaitpoint (wp_id y) (Some (stringify_error (parked_error x))), jb_availableAt = en_now w\<rparr>))"
proof -
  have id: "tr_id t = i" by (rule run_of_id [OF assms(1)])
  have start: "expireParkedExternalDeploymentRun cfg pv i x w =
      (if still_delayed (en_now w) t then scheduleExternalDeploymentParkDeadline pv i x (tr_ttl t) (tr_delayUntil t) w
       else expire_parked t env orgId x w)"
    using assms by (simp add: expireParkedExternalDeploymentRun_def andThen_Inr [OF findRun_run] release_parked_def the_time_def)
  show ?thesis
  proof (cases "still_delayed (en_now w) t")
    case True
    with start assms(1) show ?thesis
      by (simp add: scheduleExternalDeploymentParkDeadline_def the_time_def enqueueJob_def modify_def run_of_def)
  next
    case False
    let ?f = "\<lambda>t. t\<lparr>tr_status := EXPIRED, tr_statusReason := Some EXPIRED_ON_EXTERNAL_DEPLOYMENT_STATUS_REASON,
        tr_completedAt := Some (en_now w), tr_expiredAt := Some (en_now w), tr_error := Some (parked_error x)\<rparr>"
    let ?x = "parked_snapshot t env orgId x"
    let ?w = "w\<lparr>en_runs := map (\<lambda>t. if tr_id t = i then ?f t else t) (en_runs w), en_fresh := en_fresh w + 1,
        en_snapshots := snapshot_row (''snapshot_'' @ nat_to_string (en_fresh w)) (en_now w) ?x # en_snapshots w\<rparr>"
    have rows: "expireParkedRun i (parked_error x) (en_now w) EXPIRED_ON_EXTERNAL_DEPLOYMENT_STATUS_REASON ?x w = (Inr 1, ?w)"
      using assms(1,2) by (simp add: expireParkedRun_def andThen_Inr [OF findRun_run] updateTaskRun_def andThen_def
          store_createExecutionSnapshot_eq ret_def)
    have run: "run_of i (?w\<lparr>en_jobs := j, en_events := e\<rparr>) = Some (?f t)" for j e
      using assms(1) by (simp add: run_of_def find_map_update)
    have snap: "map_option sn_executionStatus (latest i (?w\<lparr>en_jobs := j, en_events := e\<rparr>)) = Some FINISHED" for j e
      by (simp add: latest_def latest_in_def truthy_def parked_snapshot_def delayed_input_def id)
    define jobs where "jobs = (case associatedWaitpoint i w of None \<Rightarrow> en_jobs w
      | Some y \<Rightarrow> (en_jobs w)(park_finish_job (wp_id y) := Some \<lparr>jb_payload =
          finishWaitpoint (wp_id y) (Some (stringify_error (parked_error x))), jb_availableAt = en_now w\<rparr>))"
    have "expire_parked t env orgId x w = (Inr (), ?w\<lparr>en_jobs := jobs, en_events := en_events w @ [runExpired i]\<rparr>)"
      using rows by (simp add: expire_parked_def the_time_def id andDo_def andThen_def reading_def ret_def enqueueJob_def emit_def
          modify_def jobs_def split: option.split)
    with start False run snap show ?thesis by (auto simp: jobs_def split: option.split)
  qed
qed

section \<open>Witnesses\<close>

definition example_trigger :: trigger_params where
  "example_trigger = \<lparr>tg_id = ''run9'', tg_environment = example_env, tg_taskIdentifier = ''t'',
     tg_data = (tr_data example_row)\<lparr>rd_idempotencyKey := Some ''key''\<rparr>, tg_lockedToVersionId = None,
     tg_lockedQueueId = None, tg_queue = ''task/t'', tg_concurrencyKey = None, tg_workerQueue = None,
     tg_enableFastPath = False, tg_delayUntil = None, tg_queuedAt = None, tg_queueTimestamp = None, tg_priorityMs = None,
     tg_maxAttempts = None, tg_machine = None, tg_ttl = None, tg_parentTaskRunId = None,
     tg_resumeParentOnCompletion = False, tg_batch = None, tg_workerId = None, tg_runnerId = None, tg_createdAt = None,
     tg_bulkActionId = None, tg_externalDeploymentId = None, tg_parkedOnExternalDeploymentId = None,
     tg_debounce = None, tg_spanIdToComplete = None\<rparr>"

definition example_pending :: pending_settings where
  "example_pending = \<lparr>pv_batchSize = None, pv_lagRetryDelayMs = None, pv_lagMaxRetries = None, pv_parkDeadlineMs = None,
     pv_lookup = (\<lambda>_. [''run1'']),
     pv_backgroundWorker = (\<lambda>_. Some \<lparr>bw_id = ''b1'', bw_version = ''20250101.1'', bw_environment = example_env,
       bw_tasks = [''t''], bw_queues = [''task/t''], bw_externalDeploymentId = Some ''other''\<rparr>),
     pv_deployments = (\<lambda>_ x. if x = ''commit''
       then [(''20250101.2'', Some \<lparr>xw_id = ''b2'', xw_version = ''20250101.2''\<rparr>)] else [])\<rparr>"

lemma good_example_env: "good_env example_env"
  by (simp add: good_env_def example_env_def colon_def)

lemma example_trigger_returns:
  "\<exists>t w'. trigger_new example_engine example_pending example_trigger None empty_world = (Inr t, w')"
proof -
  let ?t = "triggered_row example_engine example_trigger (en_now empty_world)"
  have alone: "waiting_parent example_trigger = None" by (simp add: waiting_parent_def example_trigger_def)
  have env: "good_env (tg_environment example_trigger)" by (simp add: example_trigger_def good_example_env)
  have "en_runs empty_world = []" by (simp add: empty_world_def)
  then obtain k w1 where c: "create_triggered example_engine example_trigger empty_world = (Inr (?t, k, None), w1)"
    by (simp add: create_triggered_def prepare_waitpoint_def alone andThen_def andDo_def fresh_id_def the_time_def reading_def
        explaining_duplicates_def createRun_def insertRun_def insertSnapshot_def unique_conflict_def ret_def)
  obtain w2 where "place_run example_engine example_pending example_trigger ?t k None w1 = (Inr (), w2)"
    using place_run_effect [OF env refl] by blast
  with c show ?thesis
    by (simp add: trigger_new_def andThen_def andDo_def block_parent_def alone ret_def emit_def modify_def)
qed

theorem trigger_places_run_witness:
  "\<exists>t w' m. trigger_new example_engine example_pending example_trigger None empty_world = (Inr t, w')
    \<and> run_of ''run9'' w' = Some t \<and> m_runId m = ''run9'' \<and> waits_for_worker m (en_redis w')"
proof -
  obtain t w' where t: "trigger_new example_engine example_pending example_trigger None empty_world = (Inr t, w')"
    using example_trigger_returns by blast
  from trigger_places_run [OF t] have "run_of ''run9'' w' = Some t \<and> (\<exists>m. m_runId m = ''run9'' \<and> waits_for_worker m (en_redis w'))"
    by (auto simp: example_trigger_def good_example_env waiting_parent_def truthy_def)
  with t show ?thesis by blast
qed

theorem duplicate_trigger_rejected_witness:
  "\<exists>w'. trigger_new example_engine example_pending example_trigger None
      (empty_world\<lparr>en_runs := [example_row\<lparr>tr_taskIdentifier := ''t'', tr_runtimeEnvironmentId := ''e1'',
         tr_data := tg_data example_trigger\<rparr>]\<rparr>)
    = (Inl (RunDuplicateIdempotencyKeyError ''Run with idempotency key key already exists''), w')"
proof -
  let ?u = "example_row\<lparr>tr_taskIdentifier := ''t'', tr_runtimeEnvironmentId := ''e1'', tr_data := tg_data example_trigger\<rparr>"
  have "?u \<in> set (en_runs (empty_world\<lparr>en_runs := [?u]\<rparr>))" by simp
  from duplicate_trigger_rejected [OF this, of "''key''" example_trigger example_engine example_pending None] show ?thesis
    by (auto simp: example_trigger_def example_env_def run_of_def example_row_def)
qed

theorem cancelled_once_witness:
  "createCancelledRun example_trigger 7 ''again'' True (snd (createCancelledRun example_trigger 5 ''first'' True empty_world))
   = createCancelledRun example_trigger 8 ''and again'' False (snd (createCancelledRun example_trigger 5 ''first'' True empty_world))"
proof -
  have "case fst (createCancelledRun example_trigger 5 ''first'' True empty_world) of Inl e \<Rightarrow> False | Inr t \<Rightarrow> True"
    by code_simp
  then obtain t w' where "createCancelledRun example_trigger 5 ''first'' True empty_world = (Inr t, w')"
    by (cases "createCancelledRun example_trigger 5 ''first'' True empty_world") (auto split: sum.splits)
  from cancelled_once [OF this] this show ?thesis by simp
qed

definition parked_row :: run where
  "parked_row = example_row\<lparr>tr_status := PENDING_VERSION, tr_statusReason := Some PARKED_ON_EXTERNAL_DEPLOYMENT_STATUS_REASON,
     tr_externalDeploymentId := Some ''commit'', tr_organizationId := Some ''o1'', tr_delayUntil := None\<rparr>"

lemma parked_facts:
  "run_of ''run1'' (empty_world\<lparr>en_runs := [parked_row]\<rparr>) = Some parked_row" "tr_status parked_row = PENDING_VERSION"
  "readExternalDeploymentIdAnnotation parked_row = Some ''commit''" "truthy (tr_organizationId parked_row) = Some ''o1''"
  "tr_statusReason parked_row = Some PARKED_ON_EXTERNAL_DEPLOYMENT_STATUS_REASON" "\<not> still_delayed now parked_row"
  "eo_resolveEnv example_engine e = Some example_env"
  by (simp_all add: parked_row_def run_of_def example_row_def readExternalDeploymentIdAnnotation_def truthy_def
      still_delayed_def example_engine_def)

theorem other_deployments_runs_stay_parked_witness:
  "run_of ''run1'' (state_after (enqueueRunsForBackgroundWorker example_engine example_pending ''b1'' 0)
     (empty_world\<lparr>en_runs := [parked_row]\<rparr>)) = Some parked_row"
  using other_deployments_runs_stay_parked [OF _ parked_facts(1,5,3), of example_pending "''b1''"]
  by (simp add: example_pending_def)

theorem parked_run_released_witness:
  "\<exists>w' m. expireParkedExternalDeploymentRun example_engine example_pending ''run1'' ''commit'' (empty_world\<lparr>en_runs := [parked_row]\<rparr>)
      = (Inr (), w') \<and> run_of ''run1'' w' = Some (parked_row\<lparr>tr_status := PENDING, tr_lockedToVersionId := Some ''b2''\<rparr>)
    \<and> m_runId m = ''run1'' \<and> waits_for_worker m (en_redis w')"
proof -
  have "findDeployedWorkerForExternalId example_pending e ''commit'' = Some \<lparr>xw_id = ''b2'', xw_version = ''20250101.2''\<rparr>" for e
    by (simp add: findDeployedWorkerForExternalId_def example_pending_def higher_version_def)
  from parked_run_released [OF parked_facts(1-4,7) good_example_env this parked_facts(6)] show ?thesis by auto
qed

theorem parked_run_expires_witness:
  "\<exists>w'. expireParkedExternalDeploymentRun example_engine (example_pending\<lparr>pv_deployments := \<lambda>_ _. []\<rparr>) ''run1'' ''commit''
      (empty_world\<lparr>en_runs := [parked_row]\<rparr>) = (Inr (), w')
    \<and> map_option sn_executionStatus (latest ''run1'' w') = Some FINISHED"
proof -
  have "findDeployedWorkerForExternalId (example_pending\<lparr>pv_deployments := \<lambda>_ _. []\<rparr>) e ''commit'' = None" for e
    by (simp add: findDeployedWorkerForExternalId_def)
  from parked_run_expires [OF parked_facts(1-4,7) this] parked_facts(6) show ?thesis by auto
qed

end
