(* ===== verification/FairKeys.thy ===== *)
theory FairKeys
  imports KeyProducer RetryDelay
begin

text \<open>
  What the fair queue (\<open>packages/redis-worker/src/fair-queue\<close>) is configured with: the producer of
  its Redis keys (\<open>keyProducer.ts\<close>), an interface of which \<open>fair_keys\<close> states what the queue
  relies on, the members of its in-flight sets (\<open>visibility.ts\<close>), and the strategies of retrying
  (\<open>retry.ts\<close>). A separator is one character.
\<close>

section \<open>The key producer\<close>

record key_producer =
  kp_masterQueueKey :: "nat \<Rightarrow> string"
  kp_queueKey :: "string \<Rightarrow> string"
  kp_queueItemsKey :: "string \<Rightarrow> string"
  kp_concurrencyKey :: "string \<Rightarrow> string \<Rightarrow> string"
  kp_inflightKey :: "nat \<Rightarrow> string"
  kp_inflightDataKey :: "nat \<Rightarrow> string"
  kp_workerQueueKey :: "string \<Rightarrow> string"
  kp_deadLetterQueueKey :: "string \<Rightarrow> string"
  kp_deadLetterQueueDataKey :: "string \<Rightarrow> string"
  kp_dispatchKey :: "nat \<Rightarrow> string"
  kp_tenantQueueIndexKey :: "string \<Rightarrow> string"
  kp_extractTenantId :: "string \<Rightarrow> string"
  kp_extractGroupId :: "string \<Rightarrow> string \<Rightarrow> string"

definition buildKey :: "string \<Rightarrow> char \<Rightarrow> string list \<Rightarrow> string" where
  "buildKey prefix separator ps = js_join [separator] (prefix # ps)"

definition default_extractTenantId :: "char \<Rightarrow> string \<Rightarrow> string" where
  "default_extractTenantId separator queueId =
     (let ps = js_split separator queueId in
      if length ps \<ge> 2 \<and> ps ! 0 = ''tenant'' \<and> ps ! 1 \<noteq> [] then ps ! 1 else ps ! 0)"

fun after_group :: "string \<Rightarrow> string list \<Rightarrow> string" where
  "after_group groupName (p # q # ps) =
     (if p = groupName \<and> q \<noteq> [] then q else after_group groupName (q # ps))"
| "after_group groupName ps = []"

definition default_extractGroupId :: "char \<Rightarrow> string \<Rightarrow> string \<Rightarrow> string" where
  "default_extractGroupId separator groupName queueId = after_group groupName (js_split separator queueId)"

definition DefaultFairQueueKeyProducer :: "string \<Rightarrow> char \<Rightarrow> key_producer" where
  "DefaultFairQueueKeyProducer prefix sep =
     \<lparr>kp_masterQueueKey = (\<lambda>shardId. buildKey prefix sep [''master'', nat_to_string shardId]),
      kp_queueKey = (\<lambda>queueId. buildKey prefix sep [''queue'', queueId]),
      kp_queueItemsKey = (\<lambda>queueId. buildKey prefix sep [''queue'', queueId, ''items'']),
      kp_concurrencyKey = (\<lambda>groupName groupId. buildKey prefix sep [''concurrency'', groupName, groupId]),
      kp_inflightKey = (\<lambda>shardId. buildKey prefix sep [''inflight'', nat_to_string shardId]),
      kp_inflightDataKey = (\<lambda>shardId. buildKey prefix sep [''inflight'', nat_to_string shardId, ''data'']),
      kp_workerQueueKey = (\<lambda>consumerId. buildKey prefix sep [''worker'', consumerId]),
      kp_deadLetterQueueKey = (\<lambda>tenantId. buildKey prefix sep [''dlq'', tenantId]),
      kp_deadLetterQueueDataKey = (\<lambda>tenantId. buildKey prefix sep [''dlq'', tenantId, ''data'']),
      kp_dispatchKey = (\<lambda>shardId. buildKey prefix sep [''dispatch'', nat_to_string shardId]),
      kp_tenantQueueIndexKey = (\<lambda>tenantId. buildKey prefix sep [''tenantq'', tenantId]),
      kp_extractTenantId = default_extractTenantId sep,
      kp_extractGroupId = default_extractGroupId sep\<rparr>"

definition CallbackFairQueueKeyProducer ::
    "string \<Rightarrow> char \<Rightarrow> (string \<Rightarrow> string) \<Rightarrow> (string \<Rightarrow> string \<Rightarrow> string) \<Rightarrow> key_producer" where
  "CallbackFairQueueKeyProducer prefix sep tenantExtractor groupExtractor =
     (DefaultFairQueueKeyProducer prefix sep)
       \<lparr>kp_extractTenantId := tenantExtractor, kp_extractGroupId := groupExtractor\<rparr>"

text \<open>
  What the queue relies on: keys of one type of Redis value name one thing each. Sorted sets are
  under the first five kinds of key, hashes of messages under the next two.
\<close>

locale fair_keys =
  fixes K :: key_producer
  assumes queueKey_inject: "kp_queueKey K q = kp_queueKey K q' \<longleftrightarrow> q = q'"
    and tenantKey_inject: "kp_tenantQueueIndexKey K t = kp_tenantQueueIndexKey K t' \<longleftrightarrow> t = t'"
    and dispatchKey_inject: "kp_dispatchKey K n = kp_dispatchKey K n' \<longleftrightarrow> n = n'"
    and inflightKey_inject: "kp_inflightKey K n = kp_inflightKey K n' \<longleftrightarrow> n = n'"
    and queue_not_tenant: "kp_queueKey K q \<noteq> kp_tenantQueueIndexKey K t"
    and queue_not_dispatch: "kp_queueKey K q \<noteq> kp_dispatchKey K n"
    and queue_not_inflight: "kp_queueKey K q \<noteq> kp_inflightKey K n"
    and queue_not_master: "kp_queueKey K q \<noteq> kp_masterQueueKey K n"
    and queue_not_dead: "kp_queueKey K q \<noteq> kp_deadLetterQueueKey K t"
    and tenant_not_dispatch: "kp_tenantQueueIndexKey K t \<noteq> kp_dispatchKey K n"
    and tenant_not_inflight: "kp_tenantQueueIndexKey K t \<noteq> kp_inflightKey K n"
    and tenant_not_master: "kp_tenantQueueIndexKey K t \<noteq> kp_masterQueueKey K n"
    and tenant_not_dead: "kp_tenantQueueIndexKey K t \<noteq> kp_deadLetterQueueKey K t'"
    and dispatch_not_inflight: "kp_dispatchKey K n \<noteq> kp_inflightKey K n'"
    and dispatch_not_master: "kp_dispatchKey K n \<noteq> kp_masterQueueKey K n'"
    and dispatch_not_dead: "kp_dispatchKey K n \<noteq> kp_deadLetterQueueKey K t"
    and inflight_not_master: "kp_inflightKey K n \<noteq> kp_masterQueueKey K n'"
    and inflight_not_dead: "kp_inflightKey K n \<noteq> kp_deadLetterQueueKey K t"
    and itemsKey_inject: "kp_queueItemsKey K q = kp_queueItemsKey K q' \<longleftrightarrow> q = q'"
    and dataKey_inject: "kp_inflightDataKey K n = kp_inflightDataKey K n' \<longleftrightarrow> n = n'"
    and items_not_data: "kp_queueItemsKey K q \<noteq> kp_inflightDataKey K n"
begin

lemmas distinct_keys = queueKey_inject tenantKey_inject dispatchKey_inject inflightKey_inject
  queue_not_tenant queue_not_dispatch queue_not_inflight queue_not_master queue_not_dead
  tenant_not_dispatch tenant_not_inflight tenant_not_master tenant_not_dead
  dispatch_not_inflight dispatch_not_master dispatch_not_dead inflight_not_master inflight_not_dead
  itemsKey_inject dataKey_inject items_not_data
  queue_not_tenant [symmetric] queue_not_dispatch [symmetric] queue_not_inflight [symmetric]
  queue_not_master [symmetric] queue_not_dead [symmetric]
  tenant_not_dispatch [symmetric] tenant_not_inflight [symmetric] tenant_not_master [symmetric]
  tenant_not_dead [symmetric] dispatch_not_inflight [symmetric] dispatch_not_master [symmetric]
  dispatch_not_dead [symmetric] inflight_not_master [symmetric] inflight_not_dead [symmetric]
  items_not_data [symmetric]

end

lemma callback_keys: "fair_keys (CallbackFairQueueKeyProducer prefix sep tenantOf groupOf)"
  by unfold_locales
    (simp_all add: CallbackFairQueueKeyProducer_def DefaultFairQueueKeyProducer_def buildKey_def nat_to_string_inject)

interpretation callback_keys: fair_keys "CallbackFairQueueKeyProducer prefix sep tenantOf groupOf"
  for prefix sep tenantOf groupOf
  by (rule callback_keys)

interpretation default_keys: fair_keys "DefaultFairQueueKeyProducer prefix sep" for prefix sep
  by unfold_locales (simp_all add: DefaultFairQueueKeyProducer_def buildKey_def nat_to_string_inject)

section \<open>Members of an in-flight set\<close>

definition makeMember :: "string \<Rightarrow> string \<Rightarrow> string" where
  "makeMember messageId queueId = messageId @ '':'' @ queueId"

definition parseMember :: "string \<Rightarrow> string \<times> string" where
  "parseMember member =
     (case js_indexOf member '':'' of
        None \<Rightarrow> (member, [])
      | Some colonIndex \<Rightarrow> (js_slice 0 colonIndex member, js_slice (colonIndex + 1) (length member) member))"

lemma indexOf_colon: "colon \<notin> set m \<Longrightarrow> js_indexOf (m @ '':'' @ q) '':'' = Some (length m)"
  by (induction m) (auto simp: js_startsWith_def colon_def)

lemma parse_makeMember [simp]: "colon \<notin> set m \<Longrightarrow> parseMember (makeMember m q) = (m, q)"
  unfolding parseMember_def makeMember_def by (subst indexOf_colon) (simp_all add: js_slice_def)

section \<open>Retry strategies\<close>

text \<open>
  A strategy answers the attempt that failed with the delay until the next, or not at all, which
  sends the message to the dead letters. The random number of the exponential backoff and the
  function of \<open>CustomRetry\<close> are arguments.
\<close>

datatype retry_strategy =
    ExponentialBackoffRetry retry_options
  | FixedDelayRetry int int
  | LinearBackoffRetry int int "int option"
  | NoRetry
  | ImmediateRetry int
  | CustomRetry int "int \<Rightarrow> int option"

definition exponential_options :: "retry_options \<Rightarrow> retry_options" where
  "exponential_options x =
     \<lparr>ro_maxAttempts = Some (or_default (ro_maxAttempts x) 12), ro_factor = Some (or_default (ro_factor x) 2),
      ro_minTimeoutInMs = Some (or_default (ro_minTimeoutInMs x) 1000),
      ro_maxTimeoutInMs = Some (or_default (ro_maxTimeoutInMs x) 3600000),
      ro_randomize = Some (or_default (ro_randomize x) True), ro_oomMachine = None\<rparr>"

fun strategy_maxAttempts :: "retry_strategy \<Rightarrow> int" where
  "strategy_maxAttempts (ExponentialBackoffRetry x) = or_default (ro_maxAttempts x) 12"
| "strategy_maxAttempts (FixedDelayRetry n delayMs) = n"
| "strategy_maxAttempts (LinearBackoffRetry n baseDelayMs maxDelayMs) = n"
| "strategy_maxAttempts NoRetry = 1"
| "strategy_maxAttempts (ImmediateRetry n) = n"
| "strategy_maxAttempts (CustomRetry n f) = n"

definition getNextDelay :: "rat \<Rightarrow> retry_strategy \<Rightarrow> int \<Rightarrow> int option" where
  "getNextDelay rnd strategy attempt =
     (if attempt \<ge> strategy_maxAttempts strategy then None
      else
        (case strategy of
           ExponentialBackoffRetry x \<Rightarrow> calculateNextRetryDelay rnd (exponential_options x) attempt
         | FixedDelayRetry n delayMs \<Rightarrow> Some delayMs
         | LinearBackoffRetry n baseDelayMs maxDelayMs \<Rightarrow>
             Some (min (baseDelayMs * attempt) (or_default maxDelayMs (baseDelayMs * n)))
         | NoRetry \<Rightarrow> None
         | ImmediateRetry n \<Rightarrow> Some 0
         | CustomRetry n f \<Rightarrow> f attempt))"

text \<open>Only a custom function gives a message up before its attempts are used.\<close>

lemma getNextDelay_None:
  assumes "\<And>n f. strategy \<noteq> CustomRetry n f" "0 < attempt"
  shows "getNextDelay rnd strategy attempt = None \<longleftrightarrow> attempt \<ge> strategy_maxAttempts strategy"
  using assms
  by (cases strategy)
    (auto simp: getNextDelay_def calculateNextRetryDelay_None exponential_options_def or_default_def)

end
