(* ===== verification/FairStore.thy ===== *)
theory FairStore
  imports Redis FairKeys
begin

text \<open>
  The store of the fair queue (\<open>packages/redis-worker/src/fair-queue\<close>): messages wait in sorted sets
  with a hash of their data beside each, are in flight in one sorted set per shard, and are found
  through two levels of indexes, tenants by their oldest message and a tenant's queues by theirs.
  Each Lua script of \<open>index.ts\<close>, \<open>visibility.ts\<close>, \<open>concurrency.ts\<close>, \<open>schedulers/drr.ts\<close> and
  \<open>masterQueue.ts\<close> is one function of the store. Sorted sets, sets and lists are those of theory
  Redis; scores are whole milliseconds, the deficits of tenants rational numbers.
\<close>

section \<open>Data\<close>

record descriptor =
  qd_id :: string
  qd_tenantId :: string
  qd_metadata :: "(string \<times> string) list"

record 'p stored_message =
  sm_id :: string
  sm_queueId :: string
  sm_tenantId :: string
  sm_payload :: 'p
  sm_timestamp :: int
  sm_attempt :: int
  sm_workerQueue :: "string option"
  sm_metadata :: "(string \<times> string) list option"

text \<open>The text of a message, which \<open>JSON.parse\<close> reads or throws at.\<close>

datatype 'p stored_json = Json "'p stored_message" | Corrupt

record 'p dead_letter =
  dl_id :: string
  dl_queueId :: string
  dl_tenantId :: string
  dl_payload :: 'p
  dl_deadLetteredAt :: int
  dl_attempts :: int
  dl_lastError :: "string option"
  dl_originalTimestamp :: int

text \<open>\<open>fs_cache\<close> is the memory of the server that is running, the rest is Redis.\<close>

record 'p fair_store =
  fs_zsets :: "string \<Rightarrow> zset"
  fs_data :: "string \<Rightarrow> string \<Rightarrow> 'p stored_json option"
  fs_dead :: "string \<Rightarrow> string \<Rightarrow> 'p dead_letter option"
  fs_numbers :: "string \<Rightarrow> string \<Rightarrow> rat option"
  fs_sets :: "string \<Rightarrow> string list"
  fs_lists :: "string \<Rightarrow> string list"
  fs_values :: "string \<Rightarrow> nat option"
  fs_cache :: "string \<Rightarrow> descriptor option"
  fs_now :: int

definition empty_store :: "'p fair_store" where
  "empty_store = \<lparr>fs_zsets = (\<lambda>_. []), fs_data = (\<lambda>_ _. None), fs_dead = (\<lambda>_ _. None), fs_numbers = (\<lambda>_ _. None),
     fs_sets = (\<lambda>_. []), fs_lists = (\<lambda>_. []), fs_values = (\<lambda>_. None), fs_cache = (\<lambda>_. None), fs_now = 0\<rparr>"

section \<open>Commands\<close>

definition zAdd :: "string \<Rightarrow> int \<Rightarrow> string \<Rightarrow> 'p fair_store \<Rightarrow> 'p fair_store" where
  "zAdd k s m st = st\<lparr>fs_zsets := (fs_zsets st)(k := zadd s m (fs_zsets st k))\<rparr>"

definition zRem :: "string \<Rightarrow> string \<Rightarrow> 'p fair_store \<Rightarrow> 'p fair_store" where
  "zRem k m st = st\<lparr>fs_zsets := (fs_zsets st)(k := zrem m (fs_zsets st k))\<rparr>"

definition hSet :: "string \<Rightarrow> string \<Rightarrow> 'p stored_json \<Rightarrow> 'p fair_store \<Rightarrow> 'p fair_store" where
  "hSet k f v st = st\<lparr>fs_data := (fs_data st)(k := (fs_data st k)(f := Some v))\<rparr>"

definition hDel :: "string \<Rightarrow> string \<Rightarrow> 'p fair_store \<Rightarrow> 'p fair_store" where
  "hDel k f st = st\<lparr>fs_data := (fs_data st)(k := (fs_data st k)(f := None))\<rparr>"

definition sAdd :: "string \<Rightarrow> string \<Rightarrow> 'p fair_store \<Rightarrow> 'p fair_store" where
  "sAdd k m st = st\<lparr>fs_sets := (fs_sets st)(k := sadd m (fs_sets st k))\<rparr>"

definition sRem :: "string \<Rightarrow> string \<Rightarrow> 'p fair_store \<Rightarrow> 'p fair_store" where
  "sRem k m st = st\<lparr>fs_sets := (fs_sets st)(k := srem m (fs_sets st k))\<rparr>"

definition rPush :: "string \<Rightarrow> string \<Rightarrow> 'p fair_store \<Rightarrow> 'p fair_store" where
  "rPush k v st = st\<lparr>fs_lists := (fs_lists st)(k := fs_lists st k @ [v])\<rparr>"

definition hNumber :: "string \<Rightarrow> string \<Rightarrow> rat \<Rightarrow> 'p fair_store \<Rightarrow> 'p fair_store" where
  "hNumber k f x st = st\<lparr>fs_numbers := (fs_numbers st)(k := (fs_numbers st k)(f := Some x))\<rparr>"

text \<open>\<open>HINCRBYFLOAT\<close>, whose answer is the new value; an absent field counts as 0.\<close>

definition hIncrByFloat :: "string \<Rightarrow> string \<Rightarrow> rat \<Rightarrow> 'p fair_store \<Rightarrow> rat \<times> 'p fair_store" where
  "hIncrByFloat k f x st =
     (let v = or_default (fs_numbers st k f) 0 + x in (v, hNumber k f v st))"

text \<open>\<open>ZRANGE key 0 (n - 1)\<close>; an end of \<open>-1\<close> is the last member.\<close>

definition zrange_first :: "nat \<Rightarrow> zset \<Rightarrow> string list" where
  "zrange_first n z = map fst (if n = 0 then z else take n z)"

named_theorems store_cmds \<open>the parts of the store a command changes and those it leaves alone\<close>

lemma fair_cmds [simp, store_cmds]:
  "fs_zsets (zAdd k s m st) = (fs_zsets st)(k := zadd s m (fs_zsets st k))"
  "fs_zsets (zRem k m st) = (fs_zsets st)(k := zrem m (fs_zsets st k))"
  "fs_zsets (hSet k f v st) = fs_zsets st" "fs_zsets (hDel k f st) = fs_zsets st"
  "fs_zsets (sAdd k m st) = fs_zsets st" "fs_zsets (sRem k m st) = fs_zsets st"
  "fs_zsets (rPush k m st) = fs_zsets st" "fs_zsets (hNumber k f x st) = fs_zsets st"
  "fs_data (zAdd k s m st) = fs_data st" "fs_data (zRem k m st) = fs_data st"
  "fs_data (hSet k f v st) = (fs_data st)(k := (fs_data st k)(f := Some v))"
  "fs_data (hDel k f st) = (fs_data st)(k := (fs_data st k)(f := None))"
  "fs_data (sAdd k m st) = fs_data st" "fs_data (sRem k m st) = fs_data st"
  "fs_data (rPush k m st) = fs_data st" "fs_data (hNumber k f x st) = fs_data st"
  "fs_sets (zAdd k s m st) = fs_sets st" "fs_sets (zRem k m st) = fs_sets st"
  "fs_sets (hSet k f v st) = fs_sets st" "fs_sets (hDel k f st) = fs_sets st"
  "fs_sets (sAdd k m st) = (fs_sets st)(k := sadd m (fs_sets st k))"
  "fs_sets (sRem k m st) = (fs_sets st)(k := srem m (fs_sets st k))"
  "fs_sets (rPush k m st) = fs_sets st" "fs_sets (hNumber k f x st) = fs_sets st"
  "fs_lists (zAdd k s m st) = fs_lists st" "fs_lists (zRem k m st) = fs_lists st"
  "fs_lists (hSet k f v st) = fs_lists st" "fs_lists (hDel k f st) = fs_lists st"
  "fs_lists (sAdd k m st) = fs_lists st" "fs_lists (sRem k m st) = fs_lists st"
  "fs_lists (rPush k m st) = (fs_lists st)(k := fs_lists st k @ [m])" "fs_lists (hNumber k f x st) = fs_lists st"
  "fs_numbers (zAdd k s m st) = fs_numbers st" "fs_numbers (zRem k m st) = fs_numbers st"
  "fs_numbers (hSet k f v st) = fs_numbers st" "fs_numbers (hDel k f st) = fs_numbers st"
  "fs_numbers (sAdd k m st) = fs_numbers st" "fs_numbers (sRem k m st) = fs_numbers st"
  "fs_numbers (rPush k m st) = fs_numbers st"
  "fs_numbers (hNumber k f x st) = (fs_numbers st)(k := (fs_numbers st k)(f := Some x))"
  by (simp_all add: zAdd_def zRem_def hSet_def hDel_def sAdd_def sRem_def rPush_def hNumber_def)

lemma fair_cmds_memory [simp, store_cmds]:
  "fs_values (zAdd k s m st) = fs_values st" "fs_values (zRem k m st) = fs_values st"
  "fs_values (hSet k f v st) = fs_values st" "fs_values (hDel k f st) = fs_values st"
  "fs_values (sAdd k m st) = fs_values st" "fs_values (sRem k m st) = fs_values st"
  "fs_values (rPush k m st) = fs_values st" "fs_values (hNumber k f x st) = fs_values st"
  "fs_dead (zAdd k s m st) = fs_dead st" "fs_dead (zRem k m st) = fs_dead st"
  "fs_dead (hSet k f v st) = fs_dead st" "fs_dead (hDel k f st) = fs_dead st"
  "fs_dead (sAdd k m st) = fs_dead st" "fs_dead (sRem k m st) = fs_dead st"
  "fs_dead (rPush k m st) = fs_dead st" "fs_dead (hNumber k f x st) = fs_dead st"
  "fs_cache (zAdd k s m st) = fs_cache st" "fs_cache (zRem k m st) = fs_cache st"
  "fs_cache (hSet k f v st) = fs_cache st" "fs_cache (hDel k f st) = fs_cache st"
  "fs_cache (sAdd k m st) = fs_cache st" "fs_cache (sRem k m st) = fs_cache st"
  "fs_cache (rPush k m st) = fs_cache st" "fs_cache (hNumber k f x st) = fs_cache st"
  "fs_now (zAdd k s m st) = fs_now st" "fs_now (zRem k m st) = fs_now st"
  "fs_now (hSet k f v st) = fs_now st" "fs_now (hDel k f st) = fs_now st"
  "fs_now (sAdd k m st) = fs_now st" "fs_now (sRem k m st) = fs_now st"
  "fs_now (rPush k m st) = fs_now st" "fs_now (hNumber k f x st) = fs_now st"
  by (simp_all add: zAdd_def zRem_def hSet_def hDel_def sAdd_def sRem_def rPush_def hNumber_def)

section \<open>The indexes\<close>

text \<open>
  The end of the scripts that add to a queue: the tenant's index gets the queue's oldest message,
  the dispatch index the tenant's oldest.
\<close>

definition update_oldest :: "string \<Rightarrow> string \<Rightarrow> string \<Rightarrow> string \<Rightarrow> string \<Rightarrow> 'p fair_store \<Rightarrow> 'p fair_store" where
  "update_oldest queue tenantIndex dispatch queueId tenantId st =
     (let st1 = (case zfirst (fs_zsets st queue) of
                   None \<Rightarrow> st | Some (_, oldest) \<Rightarrow> zAdd tenantIndex oldest queueId st) in
      case zfirst (fs_zsets st1 tenantIndex) of
        None \<Rightarrow> st1 | Some (_, tenantOldest) \<Rightarrow> zAdd dispatch tenantOldest tenantId st1)"

definition put_message :: "string \<Rightarrow> string \<Rightarrow> string \<times> int \<times> 'p stored_json \<Rightarrow> 'p fair_store \<Rightarrow> 'p fair_store" where
  "put_message queue items x st =
     (case x of (messageId, timestamp, payload) \<Rightarrow>
        hSet items messageId payload (zAdd queue timestamp messageId st))"

definition enqueueMessageAtomicV2 ::
    "string \<Rightarrow> string \<Rightarrow> string \<Rightarrow> string \<Rightarrow> string \<Rightarrow> string \<Rightarrow> int \<Rightarrow> 'p stored_json \<Rightarrow> string \<Rightarrow> 'p fair_store \<Rightarrow> 'p fair_store" where
  "enqueueMessageAtomicV2 queue items tenantIndex dispatch queueId messageId timestamp payload tenantId st =
     update_oldest queue tenantIndex dispatch queueId tenantId
       (put_message queue items (messageId, timestamp, payload) st)"

definition enqueueBatchAtomicV2 ::
    "string \<Rightarrow> string \<Rightarrow> string \<Rightarrow> string \<Rightarrow> string \<Rightarrow> string \<Rightarrow> (string \<times> int \<times> 'p stored_json) list \<Rightarrow> 'p fair_store \<Rightarrow> 'p fair_store" where
  "enqueueBatchAtomicV2 queue items tenantIndex dispatch queueId tenantId messages st =
     update_oldest queue tenantIndex dispatch queueId tenantId
       (fold (put_message queue items) messages st)"

text \<open>After a dequeue: an empty queue leaves the indexes, any other gets its new oldest message.\<close>

definition updateDispatchIndexes ::
    "string \<Rightarrow> string \<Rightarrow> string \<Rightarrow> string \<Rightarrow> string \<Rightarrow> 'p fair_store \<Rightarrow> bool \<times> 'p fair_store" where
  "updateDispatchIndexes queue tenantIndex dispatch queueId tenantId st =
     (if fs_zsets st queue = [] then
        (let st1 = zRem tenantIndex queueId st in
         (True, case zfirst (fs_zsets st1 tenantIndex) of
                  None \<Rightarrow> zRem dispatch tenantId st1
                | Some (_, tenantOldest) \<Rightarrow> zAdd dispatch tenantOldest tenantId st1))
      else (False, update_oldest queue tenantIndex dispatch queueId tenantId st))"

text \<open>A queue leaves the old master queue in any case; the answer is whether it is empty.\<close>

definition updateMasterQueueIfEmpty :: "string \<Rightarrow> string \<Rightarrow> string \<Rightarrow> 'p fair_store \<Rightarrow> bool \<times> 'p fair_store" where
  "updateMasterQueueIfEmpty master queue queueId st =
     (fs_zsets st queue = [], zRem master queueId st)"

section \<open>Claiming and releasing\<close>

definition take_in_flight ::
    "string \<Rightarrow> string \<Rightarrow> string \<Rightarrow> string \<Rightarrow> string \<Rightarrow> int \<Rightarrow> string \<Rightarrow> 'p stored_json \<Rightarrow> 'p fair_store \<Rightarrow> 'p fair_store" where
  "take_in_flight queue items inflight inflightData queueId deadline messageId payload st =
     hSet inflightData messageId payload
       (zAdd inflight deadline (makeMember messageId queueId)
         (hDel items messageId (zRem queue messageId st)))"

definition claimMessage ::
    "string \<Rightarrow> string \<Rightarrow> string \<Rightarrow> string \<Rightarrow> string \<Rightarrow> int \<Rightarrow> 'p fair_store \<Rightarrow> (string \<times> 'p stored_json) option \<times> 'p fair_store" where
  "claimMessage queue items inflight inflightData queueId deadline st =
     (case zfirst (fs_zsets st queue) of
        None \<Rightarrow> (None, st)
      | Some (messageId, _) \<Rightarrow>
          (case fs_data st items messageId of
             None \<Rightarrow> (None, zRem queue messageId st)
           | Some payload \<Rightarrow>
               (Some (messageId, payload),
                take_in_flight queue items inflight inflightData queueId deadline messageId payload st)))"

fun claim_each ::
    "string \<Rightarrow> string \<Rightarrow> string \<Rightarrow> string \<Rightarrow> string \<Rightarrow> int \<Rightarrow> string list \<Rightarrow> 'p fair_store \<Rightarrow> (string \<times> 'p stored_json) list \<times> 'p fair_store" where
  "claim_each queue items inflight inflightData queueId deadline [] st = ([], st)"
| "claim_each queue items inflight inflightData queueId deadline (messageId # ids) st =
     (case fs_data st items messageId of
        None \<Rightarrow> claim_each queue items inflight inflightData queueId deadline ids (zRem queue messageId st)
      | Some payload \<Rightarrow>
          (case claim_each queue items inflight inflightData queueId deadline ids
             (take_in_flight queue items inflight inflightData queueId deadline messageId payload st) of
             (xs, st') \<Rightarrow> ((messageId, payload) # xs, st')))"

definition claimMessageBatch ::
    "string \<Rightarrow> string \<Rightarrow> string \<Rightarrow> string \<Rightarrow> string \<Rightarrow> int \<Rightarrow> nat \<Rightarrow> 'p fair_store \<Rightarrow> (string \<times> 'p stored_json) list \<times> 'p fair_store" where
  "claimMessageBatch queue items inflight inflightData queueId deadline maxCount st =
     claim_each queue items inflight inflightData queueId deadline
       (zrange_first maxCount (fs_zsets st queue)) st"

text \<open>A message without its data in flight is not put back; its member is dropped.\<close>

definition put_back ::
    "string \<Rightarrow> string \<Rightarrow> string \<Rightarrow> string \<Rightarrow> int \<Rightarrow> 'p stored_json option \<Rightarrow> string \<times> string \<Rightarrow> 'p fair_store \<Rightarrow> bool \<times> 'p fair_store" where
  "put_back inflight inflightData queue items score updatedData x st =
     (case x of (member, messageId) \<Rightarrow>
        (case fs_data st inflightData messageId of
           None \<Rightarrow> (False, zRem inflight member st)
         | Some payload \<Rightarrow>
             (True, hDel inflightData messageId (zRem inflight member
                (put_message queue items (messageId, score, or_default updatedData payload) st)))))"

definition releaseMessage ::
    "string \<Rightarrow> string \<Rightarrow> string \<Rightarrow> string \<Rightarrow> string \<Rightarrow> string \<Rightarrow> string \<Rightarrow> string \<Rightarrow> int \<Rightarrow> string \<Rightarrow> 'p stored_json option \<Rightarrow> string \<Rightarrow>
     'p fair_store \<Rightarrow> 'p fair_store" where
  "releaseMessage inflight inflightData queue items tenantIndex dispatch
       member messageId score queueId updatedData tenantId st =
     (case put_back inflight inflightData queue items score updatedData (member, messageId) st of
        (False, st') \<Rightarrow> st'
      | (True, st') \<Rightarrow> update_oldest queue tenantIndex dispatch queueId tenantId st')"

fun put_back_all ::
    "string \<Rightarrow> string \<Rightarrow> string \<Rightarrow> string \<Rightarrow> int \<Rightarrow> (string \<times> string) list \<Rightarrow> 'p fair_store \<Rightarrow> nat \<times> 'p fair_store" where
  "put_back_all inflight inflightData queue items score [] st = (0, st)"
| "put_back_all inflight inflightData queue items score (x # xs) st =
     (case put_back inflight inflightData queue items score None x st of (released, st') \<Rightarrow>
        (case put_back_all inflight inflightData queue items score xs st' of (n, st'') \<Rightarrow>
           (if released then n + 1 else n, st'')))"

definition releaseMessageBatch ::
    "string \<Rightarrow> string \<Rightarrow> string \<Rightarrow> string \<Rightarrow> string \<Rightarrow> string \<Rightarrow> int \<Rightarrow> string \<Rightarrow> string \<Rightarrow> (string \<times> string) list \<Rightarrow>
     'p fair_store \<Rightarrow> 'p fair_store" where
  "releaseMessageBatch inflight inflightData queue items tenantIndex dispatch
       score queueId tenantId messages st =
     (case put_back_all inflight inflightData queue items score messages st of (n, st') \<Rightarrow>
        if n > 0 then update_oldest queue tenantIndex dispatch queueId tenantId st' else st')"

definition heartbeatMessage :: "string \<Rightarrow> string \<Rightarrow> int \<Rightarrow> 'p fair_store \<Rightarrow> bool \<times> 'p fair_store" where
  "heartbeatMessage inflight member newDeadline st =
     (if member \<in> zmembers (fs_zsets st inflight) then (True, zAdd inflight newDeadline member st) else (False, st))"

text \<open>The pipeline of \<open>#removeFromInflight\<close>.\<close>

definition removeFromInflight :: "string \<Rightarrow> string \<Rightarrow> string \<Rightarrow> string \<Rightarrow> 'p fair_store \<Rightarrow> 'p fair_store" where
  "removeFromInflight inflight inflightData messageId queueId st =
     hDel inflightData messageId (zRem inflight (makeMember messageId queueId) st)"

section \<open>Concurrency\<close>

text \<open>A message that is a member of a group's set already passes its check.\<close>

definition reserveConcurrency :: "(string \<times> nat) list \<Rightarrow> string \<Rightarrow> 'p fair_store \<Rightarrow> bool \<times> 'p fair_store" where
  "reserveConcurrency groups messageId st =
     (if list_all (\<lambda>(key, limit). messageId \<in> set (fs_sets st key) \<or> length (fs_sets st key) < limit) groups
      then (True, fold (\<lambda>(key, limit). sAdd key messageId) groups st)
      else (False, st))"

definition releaseConcurrency :: "string list \<Rightarrow> string \<Rightarrow> 'p fair_store \<Rightarrow> 'p fair_store" where
  "releaseConcurrency ks messageId st = fold (\<lambda>key. sRem key messageId) ks st"

fun removeOrphanedConcurrencySlots ::
    "string \<Rightarrow> string list \<Rightarrow> string list \<Rightarrow> 'p fair_store \<Rightarrow> string list \<times> 'p fair_store" where
  "removeOrphanedConcurrencySlots key inflightDatas [] st = ([], st)"
| "removeOrphanedConcurrencySlots key inflightDatas (messageId # ids) st =
     (if list_ex (\<lambda>d. fs_data st d messageId \<noteq> None) inflightDatas
      then removeOrphanedConcurrencySlots key inflightDatas ids st
      else
        (case removeOrphanedConcurrencySlots key inflightDatas ids (sRem key messageId st) of (removed, st') \<Rightarrow>
           (if messageId \<in> set (fs_sets st key) then messageId # removed else removed, st')))"

section \<open>Deficits\<close>

definition add_quantum :: "string \<Rightarrow> rat \<Rightarrow> rat \<Rightarrow> string \<Rightarrow> 'p fair_store \<Rightarrow> rat \<times> 'p fair_store" where
  "add_quantum deficits quantum maxDeficit tenantId st =
     (case hIncrByFloat deficits tenantId quantum st of (newDeficit, st') \<Rightarrow>
        if newDeficit > maxDeficit then (maxDeficit, hNumber deficits tenantId maxDeficit st')
        else (newDeficit, st'))"

fun drrAddQuantum :: "string \<Rightarrow> rat \<Rightarrow> rat \<Rightarrow> string list \<Rightarrow> 'p fair_store \<Rightarrow> rat list \<times> 'p fair_store" where
  "drrAddQuantum deficits quantum maxDeficit [] st = ([], st)"
| "drrAddQuantum deficits quantum maxDeficit (tenantId # ts) st =
     (case add_quantum deficits quantum maxDeficit tenantId st of (newDeficit, st') \<Rightarrow>
        (case drrAddQuantum deficits quantum maxDeficit ts st' of (xs, st'') \<Rightarrow> (newDeficit # xs, st'')))"

definition drrDecrementDeficitBatch :: "string \<Rightarrow> string \<Rightarrow> rat \<Rightarrow> 'p fair_store \<Rightarrow> rat \<times> 'p fair_store" where
  "drrDecrementDeficitBatch deficits tenantId count st =
     (case hIncrByFloat deficits tenantId (- count) st of (newDeficit, st') \<Rightarrow>
        if newDeficit < 0 then (0, hNumber deficits tenantId 0 st') else (newDeficit, st'))"

definition drrDecrementDeficit :: "string \<Rightarrow> string \<Rightarrow> 'p fair_store \<Rightarrow> rat \<times> 'p fair_store" where
  "drrDecrementDeficit deficits tenantId st =
     (case hIncrByFloat deficits tenantId (- 1) st of (newDeficit, st') \<Rightarrow>
        if newDeficit < 0 then (0, hNumber deficits tenantId 0 st') else (newDeficit, st'))"

end
