(* ===== verification/FairScheduling.thy ===== *)
theory FairScheduling
  imports FairStore
begin

text \<open>
  Which messages may run and whose turn it is: the concurrency groups (\<open>concurrency.ts\<close>), the two
  levels of the dispatch index (\<open>tenantDispatch.ts\<close>) and the deficit round robin
  (\<open>schedulers/drr.ts\<close>, \<open>scheduler.ts\<close>) of the fair queue.
\<close>

section \<open>Options\<close>

text \<open>
  \<open>getLimit\<close> is given by the queue's user and may read Redis; its argument here is the plain
  values of the store. The limits and sizes are whole numbers.
\<close>

record concurrency_group =
  cg_name :: string
  cg_extractGroupId :: "descriptor \<Rightarrow> string"
  cg_getLimit :: "(string \<Rightarrow> nat option) \<Rightarrow> string \<Rightarrow> nat"
  cg_defaultLimit :: nat

text \<open>
  \<open>fo_groups\<close> is empty where the queue has no concurrency manager. \<open>fo_validate\<close> is the check of a
  payload by its schema, where it is enabled, with the message of the error.
\<close>

record 'p fair_options =
  fo_keys :: key_producer
  fo_sha256 :: "string \<Rightarrow> nat list"
  fo_shardCount :: nat
  fo_groups :: "concurrency_group list"
  fo_validate :: "'p \<Rightarrow> string option"
  fo_workerQueueResolver :: "'p stored_message \<Rightarrow> string"
  fo_retryStrategy :: "retry_strategy option"
  fo_deadLetterQueueEnabled :: bool
  fo_visibilityTimeoutMs :: int
  fo_heartbeatIntervalMs :: int
  fo_batchClaimSize :: nat
  fo_workerQueueMaxDepth :: nat
  fo_workerQueueDepthCheckId :: "string option"
  fo_quantum :: rat
  fo_maxDeficit :: rat
  fo_masterQueueLimit :: nat

type_synonym ('p, 'a) fair = "('p fair_store, string, 'a) handler"

text \<open>A script: its answer and the store it leaves.\<close>

definition script :: "('p fair_store \<Rightarrow> 'a \<times> 'p fair_store) \<Rightarrow> ('p, 'a) fair" where
  "script f st = (Inr (fst (f st)), snd (f st))"

definition getShardForQueue :: "'p fair_options \<Rightarrow> string \<Rightarrow> nat" where
  "getShardForQueue F queueId = nat (jumpHash (fo_sha256 F) queueId (max 1 (fo_shardCount F)))"

definition getShardForTenant :: "'p fair_options \<Rightarrow> string \<Rightarrow> nat" where
  "getShardForTenant F tenantId = nat (jumpHash (fo_sha256 F) tenantId (max 1 (fo_shardCount F)))"

text \<open>\<open>#getShardForQueue\<close> of the visibility manager, which does not raise the count to 1.\<close>

definition visibility_shard :: "'p fair_options \<Rightarrow> string \<Rightarrow> nat" where
  "visibility_shard F queueId = nat (jumpHash (fo_sha256 F) queueId (fo_shardCount F))"

lemma visibility_shard [simp]: "1 \<le> fo_shardCount F \<Longrightarrow> visibility_shard F q = getShardForQueue F q"
  by (simp add: visibility_shard_def getShardForQueue_def max_absorb2)

section \<open>Concurrency\<close>

definition group_key :: "'p fair_options \<Rightarrow> descriptor \<Rightarrow> concurrency_group \<Rightarrow> string" where
  "group_key F d g = kp_concurrencyKey (fo_keys F) (cg_name g) (cg_extractGroupId g d)"

text \<open>\<open>limit || group.defaultLimit\<close>: a limit of 0 counts as none.\<close>

definition group_limit :: "'p fair_store \<Rightarrow> concurrency_group \<Rightarrow> string \<Rightarrow> nat" where
  "group_limit st g groupId =
     (if cg_getLimit g (fs_values st) groupId = 0 then cg_defaultLimit g else cg_getLimit g (fs_values st) groupId)"

definition reserve :: "'p fair_options \<Rightarrow> descriptor \<Rightarrow> string \<Rightarrow> ('p, bool) fair" where
  "reserve F d messageId st =
     script (reserveConcurrency (map (\<lambda>g. (group_key F d g, group_limit st g (cg_extractGroupId g d))) (fo_groups F)) messageId) st"

definition release_slots :: "'p fair_options \<Rightarrow> descriptor \<Rightarrow> string \<Rightarrow> ('p, unit) fair" where
  "release_slots F d messageId = modify (releaseConcurrency (map (group_key F d) (fo_groups F)) messageId)"

definition getCurrentConcurrency :: "'p fair_options \<Rightarrow> string \<Rightarrow> string \<Rightarrow> 'p fair_store \<Rightarrow> nat" where
  "getCurrentConcurrency F groupName groupId st = length (fs_sets st (kp_concurrencyKey (fo_keys F) groupName groupId))"

text \<open>The groups by name: a later group takes the place of an earlier one of the same name.\<close>

definition getConcurrencyLimit :: "'p fair_options \<Rightarrow> string \<Rightarrow> string \<Rightarrow> ('p, nat) fair" where
  "getConcurrencyLimit F groupName groupId =
     (case find (\<lambda>g. cg_name g = groupName) (rev (fo_groups F)) of
        None \<Rightarrow> throw (''Unknown concurrency group: '' @ groupName)
      | Some g \<Rightarrow> reading (\<lambda>st. group_limit st g groupId))"

definition isAtCapacity :: "'p fair_options \<Rightarrow> string \<Rightarrow> string \<Rightarrow> ('p, bool) fair" where
  "isAtCapacity F groupName groupId =
     andThen (reading (getCurrentConcurrency F groupName groupId)) (\<lambda>current.
     andThen (getConcurrencyLimit F groupName groupId) (\<lambda>limit.
       ret (current \<ge> limit)))"

text \<open>The answer of \<open>canProcess\<close>: the first group at its capacity, with its state.\<close>

fun canProcess_groups :: "'p fair_options \<Rightarrow> descriptor \<Rightarrow> concurrency_group list \<Rightarrow> ('p, (string \<times> string \<times> nat \<times> nat) option) fair" where
  "canProcess_groups F d [] = ret None"
| "canProcess_groups F d (g # gs) =
     andThen (isAtCapacity F (cg_name g) (cg_extractGroupId g d)) (\<lambda>full.
       if full then
         andThen (reading (getCurrentConcurrency F (cg_name g) (cg_extractGroupId g d))) (\<lambda>current.
         andThen (getConcurrencyLimit F (cg_name g) (cg_extractGroupId g d)) (\<lambda>limit.
           ret (Some (cg_name g, cg_extractGroupId g d, current, limit))))
       else canProcess_groups F d gs)"

definition canProcess :: "'p fair_options \<Rightarrow> descriptor \<Rightarrow> ('p, (string \<times> string \<times> nat \<times> nat) option) fair" where
  "canProcess F d = canProcess_groups F d (fo_groups F)"

text \<open>The smallest rest of a limit over the groups; subtraction of naturals ends at 0.\<close>

definition getAvailableCapacity :: "'p fair_options \<Rightarrow> descriptor \<Rightarrow> 'p fair_store \<Rightarrow> nat" where
  "getAvailableCapacity F d st =
     (case map (\<lambda>g. group_limit st g (cg_extractGroupId g d) - length (fs_sets st (group_key F d g))) (fo_groups F) of
        [] \<Rightarrow> 0 | c # cs \<Rightarrow> foldl min c cs)"

text \<open>
  The sweep of orphaned slots. \<open>found\<close> is what \<open>SCAN\<close> answers for a group's pattern, which is
  for Redis to say; a page of members is checked in chunks.
\<close>

definition SWEEP_MEMBER_CHUNK_SIZE :: nat where "SWEEP_MEMBER_CHUNK_SIZE = 500"

function chunks :: "nat \<Rightarrow> 'a list \<Rightarrow> 'a list list" where
  "chunks n xs = (if xs = [] \<or> n = 0 then [] else take n xs # chunks n (drop n xs))"
  by auto
termination by (relation "measure (\<lambda>(n, xs). length xs)") auto

declare chunks.simps [simp del]

fun sweep_chunks :: "string \<Rightarrow> string list \<Rightarrow> string list list \<Rightarrow> 'p fair_store \<Rightarrow> string list \<times> 'p fair_store" where
  "sweep_chunks key inflightDatas [] st = ([], st)"
| "sweep_chunks key inflightDatas (c # cs) st =
     (case removeOrphanedConcurrencySlots key inflightDatas c st of (removed, st') \<Rightarrow>
        (case sweep_chunks key inflightDatas cs st' of (others, st'') \<Rightarrow> (removed @ others, st'')))"

fun sweep_keys :: "string list \<Rightarrow> string list \<Rightarrow> 'p fair_store \<Rightarrow> (nat \<times> string list) \<times> 'p fair_store" where
  "sweep_keys inflightDatas [] st = ((0, []), st)"
| "sweep_keys inflightDatas (key # ks) st =
     (case sweep_chunks key inflightDatas (chunks SWEEP_MEMBER_CHUNK_SIZE (fs_sets st key)) st of (removed, st') \<Rightarrow>
        (case sweep_keys inflightDatas ks st' of ((n, others), st'') \<Rightarrow>
           ((if fs_sets st key = [] then n else n + 1, removed @ others), st'')))"

definition sweepOrphanedSlots :: "string list \<Rightarrow> string list \<Rightarrow> ('p, nat \<times> string list) fair" where
  "sweepOrphanedSlots found inflightDatas =
     (if inflightDatas = [] then ret (0, []) else script (sweep_keys inflightDatas found))"

section \<open>The dispatch index\<close>

text \<open>Members with their scores, up to a score and a number; empty names are passed over.\<close>

definition due_members :: "nat \<Rightarrow> int \<Rightarrow> zset \<Rightarrow> string list" where
  "due_members limit maxScore z = filter (\<lambda>m. m \<noteq> []) (map fst (zrangebyscore maxScore limit z))"

definition getTenantsFromDispatch :: "'p fair_options \<Rightarrow> nat \<Rightarrow> 'p fair_store \<Rightarrow> string list" where
  "getTenantsFromDispatch F shardId st =
     due_members (fo_masterQueueLimit F) (fs_now st) (fs_zsets st (kp_dispatchKey (fo_keys F) shardId))"

definition getQueuesForTenant :: "'p fair_options \<Rightarrow> string \<Rightarrow> nat \<Rightarrow> 'p fair_store \<Rightarrow> string list" where
  "getQueuesForTenant F tenantId limit st =
     due_members limit (fs_now st) (fs_zsets st (kp_tenantQueueIndexKey (fo_keys F) tenantId))"

section \<open>Deficit round robin\<close>

text \<open>The deficits are under the part of a key before its first colon.\<close>

definition drr_key :: "'p fair_options \<Rightarrow> string" where
  "drr_key F = hd (js_split colon (kp_masterQueueKey (fo_keys F) 0)) @ '':drr:deficit''"

definition getDeficit :: "'p fair_options \<Rightarrow> string \<Rightarrow> 'p fair_store \<Rightarrow> rat" where
  "getDeficit F tenantId st = or_default (fs_numbers st (drr_key F) tenantId) 0"

definition addQuantumToTenants :: "'p fair_options \<Rightarrow> string list \<Rightarrow> ('p, rat list) fair" where
  "addQuantumToTenants F tenantIds =
     (if tenantIds = [] then ret []
      else script (drrAddQuantum (drr_key F) (fo_quantum F) (fo_maxDeficit F) tenantIds))"

definition recordProcessed :: "'p fair_options \<Rightarrow> string \<Rightarrow> ('p, unit) fair" where
  "recordProcessed F tenantId = modify (\<lambda>st. snd (drrDecrementDeficit (drr_key F) tenantId st))"

definition recordProcessedBatch :: "'p fair_options \<Rightarrow> string \<Rightarrow> nat \<Rightarrow> ('p, unit) fair" where
  "recordProcessedBatch F tenantId count =
     modify (\<lambda>st. snd (drrDecrementDeficitBatch (drr_key F) tenantId (of_nat count) st))"

definition resetDeficit :: "'p fair_options \<Rightarrow> string \<Rightarrow> ('p, unit) fair" where
  "resetDeficit F tenantId =
     modify (\<lambda>st. st\<lparr>fs_numbers := (fs_numbers st)(drr_key F := (fs_numbers st (drr_key F))(tenantId := None))\<rparr>)"

text \<open>The tenants with a deficit of at least 1, the highest first; the sort is stable.\<close>

definition drr_candidates :: "string list \<Rightarrow> rat list \<Rightarrow> (string \<times> rat) list" where
  "drr_candidates tenantIds deficits =
     sort_key (\<lambda>(_, deficit). - deficit) (filter (\<lambda>(_, deficit). deficit \<ge> 1) (zip tenantIds deficits))"

fun first_with_queues :: "'p fair_options \<Rightarrow> (string \<times> rat) list \<Rightarrow> ('p, (string \<times> string list) list) fair" where
  "first_with_queues F [] = ret []"
| "first_with_queues F ((tenantId, deficit) # cs) =
     andThen (if fo_groups F = [] then ret False else isAtCapacity F ''tenant'' tenantId) (\<lambda>full.
       if full then first_with_queues F cs
       else
         andThen (reading (getQueuesForTenant F tenantId (nat \<lceil>deficit\<rceil>))) (\<lambda>queues.
           if queues = [] then first_with_queues F cs else ret [(tenantId, queues)]))"

definition selectQueuesFromDispatch :: "'p fair_options \<Rightarrow> nat \<Rightarrow> ('p, (string \<times> string list) list) fair" where
  "selectQueuesFromDispatch F shardId =
     andThen (reading (getTenantsFromDispatch F shardId)) (\<lambda>tenantIds.
       if tenantIds = [] then ret []
       else
         andThen (addQuantumToTenants F tenantIds) (\<lambda>deficits.
           first_with_queues F (drr_candidates tenantIds deficits)))"

text \<open>\<open>groupQueuesByTenant\<close>: a map in the order its tenants were first seen.\<close>

fun group_queue :: "string \<Rightarrow> string \<Rightarrow> (string \<times> string list) list \<Rightarrow> (string \<times> string list) list" where
  "group_queue tenantId queueId [] = [(tenantId, [queueId])]"
| "group_queue tenantId queueId ((t, qs) # g) =
     (if t = tenantId then (t, qs @ [queueId]) # g else (t, qs) # group_queue tenantId queueId g)"

definition groupQueuesByTenant :: "'p fair_options \<Rightarrow> string list \<Rightarrow> (string \<times> string list) list" where
  "groupQueuesByTenant F queueIds =
     foldl (\<lambda>g q. group_queue (kp_extractTenantId (fo_keys F) q) q g) [] queueIds"

text \<open>\<open>selectQueues\<close>, over a master queue: every tenant that may run, by its deficit.\<close>

fun with_capacity :: "'p fair_options \<Rightarrow> (string \<times> string list) list \<Rightarrow> ('p, (string \<times> string list) list) fair" where
  "with_capacity F [] = ret []"
| "with_capacity F ((t, qs) # g) =
     andThen (if fo_groups F = [] then ret False else isAtCapacity F ''tenant'' t) (\<lambda>full.
     andThen (with_capacity F g) (\<lambda>rest. ret (if full then rest else (t, qs) # rest)))"

definition selectQueues :: "'p fair_options \<Rightarrow> nat \<Rightarrow> ('p, (string \<times> string list) list) fair" where
  "selectQueues F shardId =
     andThen (reading (\<lambda>st. due_members (fo_masterQueueLimit F) (fs_now st)
         (fs_zsets st (kp_masterQueueKey (fo_keys F) shardId)))) (\<lambda>queues.
       if queues = [] then ret []
       else
         (let grouped = groupQueuesByTenant F queues in
          andThen (addQuantumToTenants F (map fst grouped)) (\<lambda>deficits.
          andThen (with_capacity F grouped) (\<lambda>free.
            ret (map (\<lambda>(t, d). (t, or_default (map_of grouped t) []))
              (sort_key (\<lambda>(_, d). - d) (filter (\<lambda>(t, d). t \<in> fst ` set free \<and> d \<ge> 1) (zip (map fst grouped) deficits))))))))"

end
