(* ===== verification/FairQueue.thy ===== *)
theory FairQueue
  imports FairScheduling
begin

text \<open>
  The fair queue (\<open>packages/redis-worker/src/fair-queue/index.ts\<close>) and its visibility manager
  (\<open>visibility.ts\<close>): enqueueing, claiming for the worker queues, the life of a message in flight,
  retries and dead letters, the recovery of messages and slots that were left behind.

  An operation is a sequence of commands and scripts here run without another server between
  them; theory FairInvariants lets the commands of several servers interleave. No command fails.
  The id of a new message, where the caller gives none, is an argument, as is the random number
  of a backoff. The cooloff of queues is left out: no code ever puts a queue into it.
\<close>

definition get_now :: "('p, int) fair" where
  "get_now = reading fs_now"

section \<open>Enqueueing\<close>

record 'p enqueue_options =
  eq_queueId :: string
  eq_tenantId :: string
  eq_payload :: 'p
  eq_messageId :: "string option"
  eq_timestamp :: "int option"
  eq_metadata :: "(string \<times> string) list option"

definition stored :: "'p fair_options \<Rightarrow> 'p enqueue_options \<Rightarrow> string \<Rightarrow> int \<Rightarrow> 'p stored_message" where
  "stored F x messageId timestamp =
     (let m = \<lparr>sm_id = messageId, sm_queueId = eq_queueId x, sm_tenantId = eq_tenantId x, sm_payload = eq_payload x,
        sm_timestamp = timestamp, sm_attempt = 1, sm_workerQueue = None, sm_metadata = eq_metadata x\<rparr>
      in m\<lparr>sm_workerQueue := Some (fo_workerQueueResolver F m)\<rparr>)"

definition cache_descriptor :: "descriptor \<Rightarrow> ('p, unit) fair" where
  "cache_descriptor d = modify (\<lambda>st. st\<lparr>fs_cache := (fs_cache st)(qd_id d := Some d)\<rparr>)"

definition forget_queue :: "string \<Rightarrow> ('p, unit) fair" where
  "forget_queue queueId = modify (\<lambda>st. st\<lparr>fs_cache := (fs_cache st)(queueId := None)\<rparr>)"

definition validate_payload :: "'p fair_options \<Rightarrow> string \<Rightarrow> 'p \<Rightarrow> ('p, unit) fair" where
  "validate_payload F prefix payload =
     (case fo_validate F payload of None \<Rightarrow> ret () | Some e \<Rightarrow> throw (prefix @ e))"

definition enqueue :: "'p fair_options \<Rightarrow> string \<Rightarrow> 'p enqueue_options \<Rightarrow> ('p, string) fair" where
  "enqueue F nanoid x =
     andThen get_now (\<lambda>now.
     andDo (validate_payload F ''Payload validation failed: '' (eq_payload x))
     (andDo (cache_descriptor \<lparr>qd_id = eq_queueId x, qd_tenantId = eq_tenantId x, qd_metadata = or_default (eq_metadata x) []\<rparr>)
       (let messageId = or_default (eq_messageId x) nanoid;
            timestamp = or_default (eq_timestamp x) now;
            K = fo_keys F in
        andDo (modify (enqueueMessageAtomicV2 (kp_queueKey K (eq_queueId x)) (kp_queueItemsKey K (eq_queueId x))
            (kp_tenantQueueIndexKey K (eq_tenantId x)) (kp_dispatchKey K (getShardForTenant F (eq_tenantId x)))
            (eq_queueId x) messageId timestamp (Json (stored F x messageId timestamp)) (eq_tenantId x)))
          (ret messageId))))"

text \<open>The messages of a batch, each with the id it would get.\<close>

fun batch_entries ::
    "'p fair_options \<Rightarrow> 'p enqueue_options \<Rightarrow> int \<Rightarrow> (string \<times> 'p \<times> string option \<times> int option) list \<Rightarrow>
     ('p, (string \<times> int \<times> 'p stored_json) list) fair" where
  "batch_entries F x now [] = ret []"
| "batch_entries F x now ((nanoid, payload, i, ts) # ms) =
     (let messageId = or_default i nanoid; timestamp = or_default ts now in
      andDo (validate_payload F (''Payload validation failed for message '' @ messageId @ '': '') payload)
        (andThen (batch_entries F x now ms) (\<lambda>entries.
          ret ((messageId, timestamp, Json (stored F (x\<lparr>eq_payload := payload\<rparr>) messageId timestamp)) # entries))))"

definition enqueueBatch ::
    "'p fair_options \<Rightarrow> 'p enqueue_options \<Rightarrow> (string \<times> 'p \<times> string option \<times> int option) list \<Rightarrow> ('p, string list) fair" where
  "enqueueBatch F x ms =
     andThen get_now (\<lambda>now.
     andDo (cache_descriptor \<lparr>qd_id = eq_queueId x, qd_tenantId = eq_tenantId x, qd_metadata = or_default (eq_metadata x) []\<rparr>)
     (andThen (batch_entries F x now ms) (\<lambda>entries.
       (let K = fo_keys F in
        andDo (modify (enqueueBatchAtomicV2 (kp_queueKey K (eq_queueId x)) (kp_queueItemsKey K (eq_queueId x))
            (kp_tenantQueueIndexKey K (eq_tenantId x)) (kp_dispatchKey K (getShardForTenant F (eq_tenantId x)))
            (eq_queueId x) (eq_tenantId x) entries))
          (ret (map fst entries))))))"

section \<open>The visibility manager\<close>

record 'p in_flight =
  if_messageId :: string
  if_queueId :: string
  if_payload :: "'p stored_message"
  if_deadline :: int
  if_consumerId :: string

definition remove_in_flight :: "'p fair_options \<Rightarrow> string \<Rightarrow> string \<Rightarrow> ('p, unit) fair" where
  "remove_in_flight F messageId queueId =
     modify (removeFromInflight (kp_inflightKey (fo_keys F) (visibility_shard F queueId))
       (kp_inflightDataKey (fo_keys F) (visibility_shard F queueId)) messageId queueId)"

definition in_flight :: "string \<Rightarrow> string \<Rightarrow> int \<Rightarrow> string \<Rightarrow> 'p stored_message \<Rightarrow> 'p in_flight" where
  "in_flight messageId queueId deadline consumerId m =
     \<lparr>if_messageId = messageId, if_queueId = queueId, if_payload = m, if_deadline = deadline, if_consumerId = consumerId\<rparr>"

definition claim :: "'p fair_options \<Rightarrow> string \<Rightarrow> string \<Rightarrow> int option \<Rightarrow> ('p, 'p in_flight option) fair" where
  "claim F queueId consumerId timeoutMs =
     andThen get_now (\<lambda>now.
     (let deadline = now + or_default timeoutMs (fo_visibilityTimeoutMs F); K = fo_keys F in
      andThen (script (claimMessage (kp_queueKey K queueId) (kp_queueItemsKey K queueId)
          (kp_inflightKey K (visibility_shard F queueId)) (kp_inflightDataKey K (visibility_shard F queueId)) queueId deadline)) (\<lambda>result.
        case result of
          None \<Rightarrow> ret None
        | Some (messageId, Json m) \<Rightarrow> ret (Some (in_flight messageId queueId deadline consumerId m))
        | Some (messageId, Corrupt) \<Rightarrow> andDo (remove_in_flight F messageId queueId) (ret None))))"

fun parse_claimed :: "'p fair_options \<Rightarrow> string \<Rightarrow> int \<Rightarrow> string \<Rightarrow> (string \<times> 'p stored_json) list \<Rightarrow> ('p, 'p in_flight list) fair" where
  "parse_claimed F queueId deadline consumerId [] = ret []"
| "parse_claimed F queueId deadline consumerId ((messageId, payload) # xs) =
     (if messageId = [] then parse_claimed F queueId deadline consumerId xs
      else
        (case payload of
           Json m \<Rightarrow>
             andThen (parse_claimed F queueId deadline consumerId xs) (\<lambda>ms.
               ret (in_flight messageId queueId deadline consumerId m # ms))
         | Corrupt \<Rightarrow>
             andDo (remove_in_flight F messageId queueId) (parse_claimed F queueId deadline consumerId xs)))"

definition claimBatch :: "'p fair_options \<Rightarrow> string \<Rightarrow> string \<Rightarrow> nat \<Rightarrow> int option \<Rightarrow> ('p, 'p in_flight list) fair" where
  "claimBatch F queueId consumerId maxCount timeoutMs =
     andThen get_now (\<lambda>now.
     (let deadline = now + or_default timeoutMs (fo_visibilityTimeoutMs F); K = fo_keys F in
      andThen (script (claimMessageBatch (kp_queueKey K queueId) (kp_queueItemsKey K queueId)
          (kp_inflightKey K (visibility_shard F queueId)) (kp_inflightDataKey K (visibility_shard F queueId))
          queueId deadline maxCount)) (\<lambda>result.
        parse_claimed F queueId deadline consumerId result)))"

definition heartbeat :: "'p fair_options \<Rightarrow> string \<Rightarrow> string \<Rightarrow> int \<Rightarrow> ('p, bool) fair" where
  "heartbeat F messageId queueId extendMs =
     andThen get_now (\<lambda>now.
       script (heartbeatMessage (kp_inflightKey (fo_keys F) (visibility_shard F queueId)) (makeMember messageId queueId) (now + extendMs)))"

text \<open>The keys of a release are the caller's: the queue's own and those of the tenant named.\<close>

definition release_script ::
    "'p fair_options \<Rightarrow> nat \<Rightarrow> string \<Rightarrow> string \<Rightarrow> string \<Rightarrow> string \<Rightarrow> int \<Rightarrow> 'p stored_json option \<Rightarrow> 'p fair_store \<Rightarrow> 'p fair_store" where
  "release_script F shardId member messageId queueId tenantId score updatedData =
     (let K = fo_keys F in
      releaseMessage (kp_inflightKey K shardId) (kp_inflightDataKey K shardId) (kp_queueKey K queueId) (kp_queueItemsKey K queueId)
        (kp_tenantQueueIndexKey K tenantId) (kp_dispatchKey K (getShardForTenant F tenantId))
        member messageId score queueId updatedData tenantId)"

definition release :: "'p fair_options \<Rightarrow> string \<Rightarrow> string \<Rightarrow> string \<Rightarrow> int option \<Rightarrow> 'p stored_json option \<Rightarrow> ('p, unit) fair" where
  "release F messageId queueId tenantId score updatedData =
     andThen get_now (\<lambda>now.
       modify (release_script F (visibility_shard F queueId) (makeMember messageId queueId) messageId queueId tenantId
         (or_default score now) updatedData))"

definition releaseBatch :: "'p fair_options \<Rightarrow> string list \<Rightarrow> string \<Rightarrow> string \<Rightarrow> int option \<Rightarrow> ('p, unit) fair" where
  "releaseBatch F messageIds queueId tenantId score =
     (if messageIds = [] then ret ()
      else
        andThen get_now (\<lambda>now.
          (let K = fo_keys F; shardId = visibility_shard F queueId in
           modify (releaseMessageBatch (kp_inflightKey K shardId) (kp_inflightDataKey K shardId)
             (kp_queueKey K queueId) (kp_queueItemsKey K queueId) (kp_tenantQueueIndexKey K tenantId)
             (kp_dispatchKey K (getShardForTenant F tenantId)) (or_default score now) queueId tenantId
             (map (\<lambda>m. (makeMember m queueId, m)) messageIds)))))"

section \<open>The life of a message in flight\<close>

definition inflight_data :: "'p fair_options \<Rightarrow> string \<Rightarrow> string \<Rightarrow> 'p fair_store \<Rightarrow> 'p stored_json option" where
  "inflight_data F messageId queueId st =
     fs_data st (kp_inflightDataKey (fo_keys F) (getShardForQueue F queueId)) messageId"

fun parsed :: "'p stored_json option \<Rightarrow> 'p stored_message option" where
  "parsed (Some (Json m)) = Some m"
| "parsed _ = None"

definition getMessageData :: "'p fair_options \<Rightarrow> string \<Rightarrow> string \<Rightarrow> ('p, 'p stored_message option) fair" where
  "getMessageData F messageId queueId = reading (\<lambda>st. parsed (inflight_data F messageId queueId st))"

definition heartbeat_message :: "'p fair_options \<Rightarrow> string \<Rightarrow> string \<Rightarrow> ('p, bool) fair" where
  "heartbeat_message F messageId queueId = heartbeat F messageId queueId (fo_heartbeatIntervalMs F)"

text \<open>The descriptor of a queue: cached by this server, or from the message, or from the queue's id.\<close>

definition descriptor_of :: "'p fair_options \<Rightarrow> string \<Rightarrow> 'p stored_message option \<Rightarrow> 'p fair_store \<Rightarrow> descriptor" where
  "descriptor_of F queueId m st =
     (case fs_cache st queueId of
        Some d \<Rightarrow> d
      | None \<Rightarrow> \<lparr>qd_id = queueId,
          qd_tenantId = (case m of Some x \<Rightarrow> sm_tenantId x | None \<Rightarrow> kp_extractTenantId (fo_keys F) queueId),
          qd_metadata = (case m of Some x \<Rightarrow> or_default (sm_metadata x) [] | None \<Rightarrow> [])\<rparr>)"

text \<open>Both indexes after a dequeue; the answer is whether the queue is empty.\<close>

definition updateAllIndexesAfterDequeue :: "'p fair_options \<Rightarrow> string \<Rightarrow> string \<Rightarrow> ('p, bool) fair" where
  "updateAllIndexesAfterDequeue F queueId tenantId =
     (let K = fo_keys F in
      andThen (script (updateMasterQueueIfEmpty (kp_masterQueueKey K (getShardForQueue F queueId)) (kp_queueKey K queueId) queueId)) (\<lambda>a.
      andThen (script (updateDispatchIndexes (kp_queueKey K queueId) (kp_tenantQueueIndexKey K tenantId)
          (kp_dispatchKey K (getShardForTenant F tenantId)) queueId tenantId)) (\<lambda>b.
        ret (a \<or> b))))"

definition complete :: "'p fair_options \<Rightarrow> string \<Rightarrow> string \<Rightarrow> ('p, unit) fair" where
  "complete F messageId queueId = remove_in_flight F messageId queueId"

definition completeMessage :: "'p fair_options \<Rightarrow> string \<Rightarrow> string \<Rightarrow> ('p, unit) fair" where
  "completeMessage F messageId queueId =
     andThen (getMessageData F messageId queueId) (\<lambda>storedMessage.
     andThen (reading (descriptor_of F queueId storedMessage)) (\<lambda>d.
     andDo (release_slots F d messageId)
     (andDo (complete F messageId queueId)
     (andThen (updateAllIndexesAfterDequeue F queueId (qd_tenantId d)) (\<lambda>queueEmpty.
       whenever queueEmpty (forget_queue queueId))))))"

definition release_message :: "'p fair_options \<Rightarrow> string \<Rightarrow> string \<Rightarrow> ('p, unit) fair" where
  "release_message F messageId queueId =
     andThen (getMessageData F messageId queueId) (\<lambda>storedMessage.
     andThen (reading (descriptor_of F queueId storedMessage)) (\<lambda>d.
     andDo (release_slots F d messageId)
     (andThen get_now (\<lambda>now.
       release F messageId queueId (qd_tenantId d) (Some now) None))))"

section \<open>Failures\<close>

definition dead :: "'p stored_message \<Rightarrow> string option \<Rightarrow> int \<Rightarrow> 'p dead_letter" where
  "dead m errorMessage now =
     \<lparr>dl_id = sm_id m, dl_queueId = sm_queueId m, dl_tenantId = sm_tenantId m, dl_payload = sm_payload m,
      dl_deadLetteredAt = now, dl_attempts = sm_attempt m, dl_lastError = errorMessage, dl_originalTimestamp = sm_timestamp m\<rparr>"

definition put_dead :: "'p fair_options \<Rightarrow> 'p dead_letter \<Rightarrow> 'p fair_store \<Rightarrow> 'p fair_store" where
  "put_dead F x st =
     (let K = fo_keys F; data = kp_deadLetterQueueDataKey K (dl_tenantId x) in
      (zAdd (kp_deadLetterQueueKey K (dl_tenantId x)) (dl_deadLetteredAt x) (dl_id x) st)
        \<lparr>fs_dead := (fs_dead st)(data := (fs_dead st data)(dl_id x := Some x))\<rparr>)"

definition moveToDeadLetterQueue :: "'p fair_options \<Rightarrow> 'p stored_message \<Rightarrow> string option \<Rightarrow> ('p, unit) fair" where
  "moveToDeadLetterQueue F m errorMessage =
     (if \<not> fo_deadLetterQueueEnabled F then complete F (sm_id m) (sm_queueId m)
      else
        andThen get_now (\<lambda>now.
        andDo (complete F (sm_id m) (sm_queueId m))
          (modify (put_dead F (dead m errorMessage now)))))"

definition next_delay :: "rat \<Rightarrow> 'p fair_options \<Rightarrow> int \<Rightarrow> int option" where
  "next_delay rnd F attempt =
     (case fo_retryStrategy F of None \<Rightarrow> None | Some strategy \<Rightarrow> getNextDelay rnd strategy attempt)"

definition handleMessageFailure ::
    "rat \<Rightarrow> 'p fair_options \<Rightarrow> 'p stored_message \<Rightarrow> string \<Rightarrow> descriptor \<Rightarrow> string option \<Rightarrow> ('p, unit) fair" where
  "handleMessageFailure rnd F m queueId d errorMessage =
     (case next_delay rnd F (sm_attempt m) of
        Some nextDelay \<Rightarrow>
          andDo (release_slots F d (sm_id m))
          (andThen get_now (\<lambda>now.
            release F (sm_id m) queueId (qd_tenantId d) (Some (now + nextDelay))
              (Some (Json (m\<lparr>sm_attempt := sm_attempt m + 1\<rparr>)))))
      | None \<Rightarrow>
          andDo (release_slots F d (sm_id m)) (moveToDeadLetterQueue F m errorMessage))"

definition releaseOrphanedConcurrency :: "'p fair_options \<Rightarrow> string \<Rightarrow> string \<Rightarrow> ('p, unit) fair" where
  "releaseOrphanedConcurrency F messageId queueId =
     andThen (reading (descriptor_of F queueId None)) (\<lambda>d. release_slots F d messageId)"

definition failMessage :: "rat \<Rightarrow> 'p fair_options \<Rightarrow> string \<Rightarrow> string \<Rightarrow> string option \<Rightarrow> ('p, unit) fair" where
  "failMessage rnd F messageId queueId errorMessage =
     andThen (reading (inflight_data F messageId queueId)) (\<lambda>found.
       case parsed found of
         None \<Rightarrow> releaseOrphanedConcurrency F messageId queueId
       | Some m \<Rightarrow>
           andThen (reading (descriptor_of F queueId (Some m))) (\<lambda>d.
             handleMessageFailure rnd F m queueId d errorMessage))"

subsection \<open>Dead letters\<close>

definition dead_letter_of :: "'p fair_options \<Rightarrow> string \<Rightarrow> 'p fair_store \<Rightarrow> string \<times> int \<Rightarrow> 'p dead_letter option" where
  "dead_letter_of F tenantId st e =
     (case fs_dead st (kp_deadLetterQueueDataKey (fo_keys F) tenantId) (fst e) of
        None \<Rightarrow> None | Some x \<Rightarrow> Some (x\<lparr>dl_deadLetteredAt := snd e\<rparr>))"

definition getDeadLetterMessages :: "'p fair_options \<Rightarrow> string \<Rightarrow> nat \<Rightarrow> ('p, 'p dead_letter list) fair" where
  "getDeadLetterMessages F tenantId limit =
     (if \<not> fo_deadLetterQueueEnabled F then ret []
      else reading (\<lambda>st.
        (let z = fs_zsets st (kp_deadLetterQueueKey (fo_keys F) tenantId) in
         List.map_filter (dead_letter_of F tenantId st)
           (filter (\<lambda>e. fst e \<noteq> []) (if limit = 0 then z else take limit z)))))"

definition drop_dead :: "'p fair_options \<Rightarrow> string \<Rightarrow> string \<Rightarrow> 'p fair_store \<Rightarrow> 'p fair_store" where
  "drop_dead F tenantId messageId st =
     (let data = kp_deadLetterQueueDataKey (fo_keys F) tenantId in
      (zRem (kp_deadLetterQueueKey (fo_keys F) tenantId) messageId st)
        \<lparr>fs_dead := (fs_dead st)(data := (fs_dead st data)(messageId := None))\<rparr>)"

text \<open>A message is enqueued again as new: without its metadata, and with its first attempt.\<close>

definition redriveMessage :: "'p fair_options \<Rightarrow> string \<Rightarrow> string \<Rightarrow> ('p, bool) fair" where
  "redriveMessage F tenantId messageId =
     (if \<not> fo_deadLetterQueueEnabled F then ret False
      else
        andThen (reading (\<lambda>st. fs_dead st (kp_deadLetterQueueDataKey (fo_keys F) tenantId) messageId)) (\<lambda>found.
          case found of
            None \<Rightarrow> ret False
          | Some x \<Rightarrow>
              andThen get_now (\<lambda>now.
              andThen (enqueue F [] \<lparr>eq_queueId = dl_queueId x, eq_tenantId = dl_tenantId x, eq_payload = dl_payload x,
                  eq_messageId = Some (dl_id x), eq_timestamp = Some now, eq_metadata = None\<rparr>) (\<lambda>_.
              andDo (modify (drop_dead F tenantId messageId)) (ret True)))))"

fun redrive_each :: "'p fair_options \<Rightarrow> string \<Rightarrow> 'p dead_letter list \<Rightarrow> nat \<Rightarrow> ('p, nat) fair" where
  "redrive_each F tenantId [] n = ret n"
| "redrive_each F tenantId (x # xs) n =
     andThen (redriveMessage F tenantId (dl_id x)) (\<lambda>success.
       redrive_each F tenantId xs (if success then n + 1 else n))"

definition redriveAll :: "'p fair_options \<Rightarrow> string \<Rightarrow> ('p, nat) fair" where
  "redriveAll F tenantId =
     andThen (getDeadLetterMessages F tenantId 1000) (\<lambda>messages. redrive_each F tenantId messages 0)"

definition purgeDeadLetterQueue :: "'p fair_options \<Rightarrow> string \<Rightarrow> ('p, nat) fair" where
  "purgeDeadLetterQueue F tenantId =
     (if \<not> fo_deadLetterQueueEnabled F then ret 0
      else script (\<lambda>st.
        (let k = kp_deadLetterQueueKey (fo_keys F) tenantId; data = kp_deadLetterQueueDataKey (fo_keys F) tenantId in
         (length (fs_zsets st k),
          st\<lparr>fs_zsets := (fs_zsets st)(k := []), fs_dead := (fs_dead st)(data := (\<lambda>_. None))\<rparr>))))"

end
