(* ===== verification/FairConsumers.thy ===== *)
theory FairConsumers
  imports FairQueue
begin

text \<open>
  The loops of the fair queue (\<open>packages/redis-worker/src/fair-queue/index.ts\<close>): one iteration of
  the consumer of a shard, which moves messages of the tenants whose turn it is to the worker queues,
  of the recovery of messages whose visibility has run out, and of the reconciliation of slots.
\<close>

section \<open>Claiming for the worker queues\<close>

definition worker_length :: "'p fair_options \<Rightarrow> string \<Rightarrow> 'p fair_store \<Rightarrow> nat" where
  "worker_length F workerQueueId st = length (fs_lists st (kp_workerQueueKey (fo_keys F) workerQueueId))"

definition push_worker :: "'p fair_options \<Rightarrow> string \<Rightarrow> string \<Rightarrow> ('p, unit) fair" where
  "push_worker F workerQueueId key = modify (rPush (kp_workerQueueKey (fo_keys F) workerQueueId) key)"

text \<open>How many messages may be claimed; none where the groups or the worker queue are full.\<close>

definition claim_count :: "'p fair_options \<Rightarrow> descriptor \<Rightarrow> 'p fair_store \<Rightarrow> nat option" where
  "claim_count F d st =
     (let byGroups = (if fo_groups F = [] then Some (fo_batchClaimSize F)
                      else if getAvailableCapacity F d st = 0 then None
                      else Some (min (fo_batchClaimSize F) (getAvailableCapacity F d st))) in
      case byGroups of
        None \<Rightarrow> None
      | Some n \<Rightarrow>
          (case fo_workerQueueDepthCheckId F of
             None \<Rightarrow> Some n
           | Some w \<Rightarrow>
               if fo_workerQueueMaxDepth F = 0 \<or> w = [] then Some n
               else if worker_length F w st \<ge> fo_workerQueueMaxDepth F then None
               else Some (min n (fo_workerQueueMaxDepth F - worker_length F w st))))"

text \<open>
  The claimed messages one by one: where a slot cannot be had, that message and all after it go
  back to their queue. The answer is how many were pushed.
\<close>

fun push_claimed :: "'p fair_options \<Rightarrow> string \<Rightarrow> string \<Rightarrow> descriptor \<Rightarrow> 'p in_flight list \<Rightarrow> nat \<Rightarrow> ('p, nat) fair" where
  "push_claimed F queueId tenantId d [] n = ret n"
| "push_claimed F queueId tenantId d (m # ms) n =
     andThen (if fo_groups F = [] then ret True else reserve F d (if_messageId m)) (\<lambda>reserved.
       if \<not> reserved then
         andDo (releaseBatch F (map if_messageId (m # ms)) queueId tenantId None) (ret n)
       else
         andDo (push_worker F (fo_workerQueueResolver F (if_payload m)) (if_messageId m @ '':'' @ queueId))
           (push_claimed F queueId tenantId d ms (n + 1)))"

definition claimAndPushToWorkerQueue :: "'p fair_options \<Rightarrow> string \<Rightarrow> string \<Rightarrow> string \<Rightarrow> ('p, nat) fair" where
  "claimAndPushToWorkerQueue F loopId queueId tenantId =
     andThen (reading (\<lambda>st. (case fs_cache st queueId of
         Some d \<Rightarrow> d | None \<Rightarrow> \<lparr>qd_id = queueId, qd_tenantId = tenantId, qd_metadata = []\<rparr>))) (\<lambda>d.
     andThen (reading (claim_count F d)) (\<lambda>count.
       case count of
         None \<Rightarrow> ret 0
       | Some maxClaimCount \<Rightarrow>
           andThen (claimBatch F queueId loopId maxClaimCount (Some (fo_visibilityTimeoutMs F))) (\<lambda>claimed.
             if claimed = [] then
               andThen (updateAllIndexesAfterDequeue F queueId tenantId) (\<lambda>_.
               andDo (forget_queue queueId) (ret 0))
             else push_claimed F queueId tenantId d claimed 0)))"

text \<open>The queues of one tenant; a tenant that is full ends them.\<close>

fun process_queues :: "'p fair_options \<Rightarrow> string \<Rightarrow> string \<Rightarrow> string list \<Rightarrow> nat \<Rightarrow> ('p, nat) fair" where
  "process_queues F loopId tenantId [] n = ret n"
| "process_queues F loopId tenantId (queueId # qs) n =
     andThen (if fo_groups F = [] then ret False else isAtCapacity F ''tenant'' tenantId) (\<lambda>full.
       if full then ret n
       else
         andThen (claimAndPushToWorkerQueue F loopId queueId tenantId) (\<lambda>processed.
         andDo (whenever (processed > 0) (recordProcessedBatch F tenantId processed))
           (process_queues F loopId tenantId qs (n + processed))))"

fun process_tenants :: "'p fair_options \<Rightarrow> string \<Rightarrow> (string \<times> string list) list \<Rightarrow> nat \<Rightarrow> ('p, nat) fair" where
  "process_tenants F loopId [] n = ret n"
| "process_tenants F loopId ((tenantId, qs) # ts) n =
     andThen (process_queues F loopId tenantId qs n) (\<lambda>n'. process_tenants F loopId ts n')"

definition processSelectedQueues :: "'p fair_options \<Rightarrow> string \<Rightarrow> (string \<times> string list) list \<Rightarrow> ('p, bool) fair" where
  "processSelectedQueues F loopId tenantQueues =
     andThen (process_tenants F loopId tenantQueues 0) (\<lambda>n. ret (n > 0))"

definition processDispatchShard :: "'p fair_options \<Rightarrow> string \<Rightarrow> nat \<Rightarrow> ('p, bool) fair" where
  "processDispatchShard F loopId shardId =
     andThen (selectQueuesFromDispatch F shardId) (\<lambda>tenantQueues.
       if tenantQueues = [] then ret False else processSelectedQueues F loopId tenantQueues)"

definition drainLegacyMasterQueueShard :: "'p fair_options \<Rightarrow> string \<Rightarrow> nat \<Rightarrow> ('p, bool) fair" where
  "drainLegacyMasterQueueShard F loopId shardId =
     andThen (reading (\<lambda>st. due_members 100 (fs_now st) (fs_zsets st (kp_masterQueueKey (fo_keys F) shardId)))) (\<lambda>queues.
     andThen (with_capacity F (groupQueuesByTenant F queues)) (\<lambda>tenantQueues.
       if tenantQueues = [] then ret False else processSelectedQueues F loopId tenantQueues))"

definition processShardIteration :: "'p fair_options \<Rightarrow> string \<Rightarrow> nat \<Rightarrow> ('p, bool) fair" where
  "processShardIteration F loopId shardId =
     andThen (processDispatchShard F loopId shardId) (\<lambda>hadWork.
     andThen (reading (\<lambda>st. length (fs_zsets st (kp_masterQueueKey (fo_keys F) shardId)))) (\<lambda>legacyCount.
       if legacyCount > 0
       then andThen (drainLegacyMasterQueueShard F loopId shardId) (\<lambda>drainHadWork. ret (hadWork \<or> drainHadWork))
       else ret hadWork))"

section \<open>Recovering messages\<close>

record reclaimed =
  rc_messageId :: string
  rc_queueId :: string
  rc_tenantId :: string
  rc_metadata :: "(string \<times> string) list"

record 'p reclaim_candidate =
  rd_member :: string
  rd_stored :: "'p stored_message option"
  rd_info :: reclaimed

definition reclaim_candidate :: "'p fair_options \<Rightarrow> nat \<Rightarrow> 'p fair_store \<Rightarrow> string \<Rightarrow> 'p reclaim_candidate" where
  "reclaim_candidate F shardId st member =
     (case parseMember member of (messageId, queueId) \<Rightarrow>
        (let m = parsed (fs_data st (kp_inflightDataKey (fo_keys F) shardId) messageId) in
         \<lparr>rd_member = member, rd_stored = m,
          rd_info = \<lparr>rc_messageId = messageId, rc_queueId = queueId,
            rc_tenantId = (case m of Some x \<Rightarrow> sm_tenantId x | None \<Rightarrow> kp_extractTenantId (fo_keys F) queueId),
            rc_metadata = (case m of Some x \<Rightarrow> or_default (sm_metadata x) [] | None \<Rightarrow> [])\<rparr>\<rparr>))"

definition reclaim_candidates :: "'p fair_options \<Rightarrow> nat \<Rightarrow> 'p fair_store \<Rightarrow> 'p reclaim_candidate list" where
  "reclaim_candidates F shardId st =
     map (reclaim_candidate F shardId st) (due_members 100 (fs_now st) (fs_zsets st (kp_inflightKey (fo_keys F) shardId)))"

definition release_reclaimed :: "'p fair_options \<Rightarrow> reclaimed list \<Rightarrow> ('p, unit) fair" where
  "release_reclaimed F ms =
     forEach ms (\<lambda>m. release_slots F \<lparr>qd_id = rc_queueId m, qd_tenantId = rc_tenantId m, qd_metadata = rc_metadata m\<rparr>
       (rc_messageId m))"

text \<open>A message goes back with its own time, to the tenant its queue's id names.\<close>

definition requeue :: "'p fair_options \<Rightarrow> nat \<Rightarrow> int \<Rightarrow> 'p reclaim_candidate \<Rightarrow> ('p, unit) fair" where
  "requeue F shardId now c =
     modify (release_script F shardId (rd_member c) (rc_messageId (rd_info c)) (rc_queueId (rd_info c))
       (kp_extractTenantId (fo_keys F) (rc_queueId (rd_info c)))
       (case rd_stored c of Some m \<Rightarrow> sm_timestamp m | None \<Rightarrow> now) None)"

definition reclaimTimedOut :: "'p fair_options \<Rightarrow> nat \<Rightarrow> ('p, reclaimed list) fair" where
  "reclaimTimedOut F shardId =
     andThen get_now (\<lambda>now.
     andThen (reading (reclaim_candidates F shardId)) (\<lambda>candidates.
     andDo (release_reclaimed F (map rd_info candidates))
     (andDo (forEach candidates (requeue F shardId now))
       (ret (map rd_info candidates)))))"

fun reclaim_shards :: "'p fair_options \<Rightarrow> nat list \<Rightarrow> nat \<Rightarrow> ('p, nat) fair" where
  "reclaim_shards F [] n = ret n"
| "reclaim_shards F (shardId # ss) n =
     andThen (reclaimTimedOut F shardId) (\<lambda>reclaimed. reclaim_shards F ss (n + length reclaimed))"

definition reclaimTimedOutMessages :: "'p fair_options \<Rightarrow> ('p, nat) fair" where
  "reclaimTimedOutMessages F = reclaim_shards F [0..<fo_shardCount F] 0"

section \<open>Reconciling slots\<close>

definition reconcileConcurrency :: "'p fair_options \<Rightarrow> string list \<Rightarrow> ('p, nat \<times> string list) fair" where
  "reconcileConcurrency F found =
     (if fo_groups F = [] then ret (0, [])
      else sweepOrphanedSlots found (map (kp_inflightDataKey (fo_keys F)) [0..<fo_shardCount F]))"

end
