(* ===== verification/FairInvariants.thy ===== *)
theory FairInvariants
  imports FairConsumers
begin

text \<open>
  The servers of a fair queue share one Redis, which runs their commands and scripts one at a time.
  \<open>fair_step\<close> runs one, with the keys the operations of theories FairQueue and FairConsumers give
  it, so a sequence of commands is an interleaving of any number of servers in the middle of their
  operations. Shown over all such sequences: a message that waits is found through the indexes
  as soon as it is due, the slots of a group stay within its limit, the deficits of tenants within
  theirs, and no message is lost before it is completed.
\<close>

section \<open>The commands\<close>

text \<open>A queue belongs to the tenant its id names, in whose indexes its commands keep it.\<close>

abbreviation tenant_of :: "'p fair_options \<Rightarrow> string \<Rightarrow> string" where
  "tenant_of F q \<equiv> kp_extractTenantId (fo_keys F) q"

datatype 'p fair_command =
    Enqueue string string int "'p stored_json"
  | EnqueueBatch string "(string \<times> int \<times> 'p stored_json) list"
  | Claim string int
  | ClaimBatch string int nat
  | Release string string int "'p stored_json option"
  | ReleaseBatch string int "string list"
  | Heartbeat string string int
  | Remove string string
  | UpdateMaster string
  | UpdateDispatch string
  | Reserve descriptor string
  | Free descriptor string
  | Sweep string "string list"
  | AddQuantum "string list"
  | Processed string nat
  | PushWorker string string
  | PopWorker string
  | Bury "'p dead_letter"
  | Unbury string string
  | Store string nat
  | Remember "string \<Rightarrow> descriptor option"
  | Tick int

fun fair_step :: "'p fair_options \<Rightarrow> 'p fair_store \<Rightarrow> 'p fair_command \<Rightarrow> 'p fair_store" where
  "fair_step F st (Enqueue q m s p) =
     enqueueMessageAtomicV2 (kp_queueKey (fo_keys F) q) (kp_queueItemsKey (fo_keys F) q)
       (kp_tenantQueueIndexKey (fo_keys F) (tenant_of F q)) (kp_dispatchKey (fo_keys F) (getShardForTenant F (tenant_of F q)))
       q m s p (tenant_of F q) st"
| "fair_step F st (EnqueueBatch q ms) =
     enqueueBatchAtomicV2 (kp_queueKey (fo_keys F) q) (kp_queueItemsKey (fo_keys F) q)
       (kp_tenantQueueIndexKey (fo_keys F) (tenant_of F q)) (kp_dispatchKey (fo_keys F) (getShardForTenant F (tenant_of F q)))
       q (tenant_of F q) ms st"
| "fair_step F st (Claim q deadline) =
     snd (claimMessage (kp_queueKey (fo_keys F) q) (kp_queueItemsKey (fo_keys F) q)
       (kp_inflightKey (fo_keys F) (getShardForQueue F q)) (kp_inflightDataKey (fo_keys F) (getShardForQueue F q)) q deadline st)"
| "fair_step F st (ClaimBatch q deadline n) =
     snd (claimMessageBatch (kp_queueKey (fo_keys F) q) (kp_queueItemsKey (fo_keys F) q)
       (kp_inflightKey (fo_keys F) (getShardForQueue F q)) (kp_inflightDataKey (fo_keys F) (getShardForQueue F q)) q deadline n st)"
| "fair_step F st (Release m q s upd) =
     release_script F (getShardForQueue F q) (makeMember m q) m q (tenant_of F q) s upd st"
| "fair_step F st (ReleaseBatch q s ms) =
     releaseMessageBatch (kp_inflightKey (fo_keys F) (getShardForQueue F q)) (kp_inflightDataKey (fo_keys F) (getShardForQueue F q))
       (kp_queueKey (fo_keys F) q) (kp_queueItemsKey (fo_keys F) q) (kp_tenantQueueIndexKey (fo_keys F) (tenant_of F q))
       (kp_dispatchKey (fo_keys F) (getShardForTenant F (tenant_of F q))) s q (tenant_of F q) (map (\<lambda>m. (makeMember m q, m)) ms) st"
| "fair_step F st (Heartbeat m q deadline) =
     snd (heartbeatMessage (kp_inflightKey (fo_keys F) (getShardForQueue F q)) (makeMember m q) deadline st)"
| "fair_step F st (Remove m q) =
     removeFromInflight (kp_inflightKey (fo_keys F) (getShardForQueue F q)) (kp_inflightDataKey (fo_keys F) (getShardForQueue F q)) m q st"
| "fair_step F st (UpdateMaster q) =
     snd (updateMasterQueueIfEmpty (kp_masterQueueKey (fo_keys F) (getShardForQueue F q)) (kp_queueKey (fo_keys F) q) q st)"
| "fair_step F st (UpdateDispatch q) =
     snd (updateDispatchIndexes (kp_queueKey (fo_keys F) q) (kp_tenantQueueIndexKey (fo_keys F) (tenant_of F q))
       (kp_dispatchKey (fo_keys F) (getShardForTenant F (tenant_of F q))) q (tenant_of F q) st)"
| "fair_step F st (Reserve d m) = snd (reserve F d m st)"
| "fair_step F st (Free d m) = snd (release_slots F d m st)"
| "fair_step F st (Sweep key ms) =
     snd (removeOrphanedConcurrencySlots key (map (kp_inflightDataKey (fo_keys F)) [0..<fo_shardCount F]) ms st)"
| "fair_step F st (AddQuantum ts) = snd (addQuantumToTenants F ts st)"
| "fair_step F st (Processed t n) = snd (recordProcessedBatch F t n st)"
| "fair_step F st (PushWorker w v) = snd (push_worker F w v st)"
| "fair_step F st (PopWorker w) = st\<lparr>fs_lists := (fs_lists st)(w := tl (fs_lists st w))\<rparr>"
| "fair_step F st (Bury x) = put_dead F x st"
| "fair_step F st (Unbury t m) = drop_dead F t m st"
| "fair_step F st (Store k n) = st\<lparr>fs_values := (fs_values st)(k := Some n)\<rparr>"
| "fair_step F st (Remember c) = st\<lparr>fs_cache := c\<rparr>"
| "fair_step F st (Tick now) = st\<lparr>fs_now := now\<rparr>"

lemmas fair_handlers = reserve_def release_slots_def addQuantumToTenants_def recordProcessedBatch_def push_worker_def
  script_def modify_def ret_def

section \<open>Sorted sets\<close>

lemma zfirst_None [simp]: "zfirst z = None \<longleftrightarrow> z = []"
  by (cases z) auto

lemma zfirst_least:
  assumes "zset_ok z" "zfirst z = Some (m, s)"
  shows "(m, s) \<in> set z \<and> (\<forall>(m', s') \<in> set z. s \<le> s')"
proof (cases z)
  case Nil
  with assms(2) show ?thesis by simp
next
  case (Cons e es)
  with assms have "e = (m, s)" "\<And>e'. e' \<in> set z \<Longrightarrow> zscore_key e \<le> zscore_key e'"
    by (auto simp: zset_ok_def)
  then show ?thesis using Cons by (force simp: zscore_key_def less_eq_prod_def)
qed

lemma zset_ok_unique: "zset_ok z \<Longrightarrow> (m, s) \<in> set z \<Longrightarrow> (m, s') \<in> set z \<Longrightarrow> s = s'"
  by (auto simp: zset_ok_def dest: eq_key_imp_eq_value)

section \<open>What waits is found\<close>

text \<open>
  Every message has its queue in the index of its tenant, and every tenant of an index is in the
  dispatch index, each with a score no later than what is below it.
\<close>

definition queues_indexed :: "'p fair_options \<Rightarrow> (string \<Rightarrow> zset) \<Rightarrow> bool" where
  "queues_indexed F zs =
     (\<forall>q m s. (m, s) \<in> set (zs (kp_queueKey (fo_keys F) q)) \<longrightarrow>
       (\<exists>s'. (q, s') \<in> set (zs (kp_tenantQueueIndexKey (fo_keys F) (tenant_of F q))) \<and> s' \<le> s))"

definition tenants_dispatched :: "'p fair_options \<Rightarrow> (string \<Rightarrow> zset) \<Rightarrow> bool" where
  "tenants_dispatched F zs =
     (\<forall>t q s. (q, s) \<in> set (zs (kp_tenantQueueIndexKey (fo_keys F) t)) \<longrightarrow>
       (\<exists>s'. (t, s') \<in> set (zs (kp_dispatchKey (fo_keys F) (getShardForTenant F t))) \<and> s' \<le> s))"

definition indexes_ok :: "'p fair_options \<Rightarrow> (string \<Rightarrow> zset) \<Rightarrow> bool" where
  "indexes_ok F zs = (queues_indexed F zs \<and> tenants_dispatched F zs \<and> (\<forall>k. zset_ok (zs k)))"

text \<open>The keys whose sorted sets the invariant speaks of.\<close>

definition index_key :: "'p fair_options \<Rightarrow> string \<Rightarrow> bool" where
  "index_key F k = ((\<exists>q. k = kp_queueKey (fo_keys F) q) \<or> (\<exists>t. k = kp_tenantQueueIndexKey (fo_keys F) t)
     \<or> (\<exists>n. k = kp_dispatchKey (fo_keys F) n))"

lemma indexes_ok_other:
  assumes "indexes_ok F zs" "zset_ok z" "\<not> index_key F k"
  shows "indexes_ok F (zs(k := z))"
  using assms unfolding indexes_ok_def queues_indexed_def tenants_dispatched_def index_key_def
  by (metis fun_upd_other fun_upd_same)

lemma indexes_ok_less:
  assumes "indexes_ok F zs" "zset_ok z" "k = kp_queueKey (fo_keys F) q" "set z \<subseteq> set (zs k)" "fair_keys (fo_keys F)"
  shows "indexes_ok F (zs(k := z))"
  using assms unfolding indexes_ok_def queues_indexed_def tenants_dispatched_def
  by (simp add: fair_keys.distinct_keys subset_eq) (metis fair_keys.queueKey_inject)

text \<open>All but the messages of one queue.\<close>

definition indexed_but :: "'p fair_options \<Rightarrow> string \<Rightarrow> (string \<Rightarrow> zset) \<Rightarrow> bool" where
  "indexed_but F q zs =
     ((\<forall>q' m s. q' \<noteq> q \<longrightarrow> (m, s) \<in> set (zs (kp_queueKey (fo_keys F) q')) \<longrightarrow>
        (\<exists>s'. (q', s') \<in> set (zs (kp_tenantQueueIndexKey (fo_keys F) (tenant_of F q'))) \<and> s' \<le> s))
      \<and> tenants_dispatched F zs \<and> (\<forall>k. zset_ok (zs k)))"

lemma indexes_ok_but: "indexes_ok F zs \<Longrightarrow> indexed_but F q zs"
  by (auto simp: indexes_ok_def queues_indexed_def indexed_but_def)

lemma indexed_but_queue:
  assumes "indexed_but F q zs" "zset_ok z" "fair_keys (fo_keys F)"
  shows "indexed_but F q (zs(kp_queueKey (fo_keys F) q := z))"
  using assms unfolding indexed_but_def tenants_dispatched_def
  by (simp add: fair_keys.distinct_keys)

lemma indexed_but_other:
  assumes "indexed_but F q zs" "zset_ok z" "\<not> index_key F k"
  shows "indexed_but F q (zs(k := z))"
  using assms unfolding indexed_but_def tenants_dispatched_def index_key_def
  by (metis fun_upd_other fun_upd_same)

text \<open>The dispatch index after the tenant's index changed: the tenant's oldest is written to it.\<close>

lemma dispatch_tenant:
  assumes "indexed_but F q zs" "fair_keys (fo_keys F)" "zset_ok z"
    and "zfirst z = Some (q1, s1)" "zs' = zs(kp_tenantQueueIndexKey (fo_keys F) t := z)"
  shows "tenants_dispatched F (zs'(kp_dispatchKey (fo_keys F) (getShardForTenant F t) :=
           zadd s1 t (zs (kp_dispatchKey (fo_keys F) (getShardForTenant F t)))))"
proof -
  note K = fair_keys.distinct_keys [OF assms(2)]
  have least: "(q', s') \<in> set z \<Longrightarrow> s1 \<le> s'" for q' s'
    using zfirst_least [OF assms(3,4)] by auto
  have old: "(q', s') \<in> set (zs (kp_tenantQueueIndexKey (fo_keys F) t')) \<Longrightarrow>
      \<exists>s''. (t', s'') \<in> set (zs (kp_dispatchKey (fo_keys F) (getShardForTenant F t'))) \<and> s'' \<le> s'" for t' q' s'
    using assms(1) unfolding indexed_but_def tenants_dispatched_def by blast
  show ?thesis
    unfolding tenants_dispatched_def
  proof (intro allI impI)
    fix t' q' s'
    assume "(q', s') \<in> set ((zs'(kp_dispatchKey (fo_keys F) (getShardForTenant F t) :=
       zadd s1 t (zs (kp_dispatchKey (fo_keys F) (getShardForTenant F t))))) (kp_tenantQueueIndexKey (fo_keys F) t'))"
    then have "(q', s') \<in> set (if t' = t then z else zs (kp_tenantQueueIndexKey (fo_keys F) t'))"
      using assms(5) by (auto simp: K split: if_splits)
    then show "\<exists>s''. (t', s'') \<in> set ((zs'(kp_dispatchKey (fo_keys F) (getShardForTenant F t) :=
       zadd s1 t (zs (kp_dispatchKey (fo_keys F) (getShardForTenant F t))))) (kp_dispatchKey (fo_keys F) (getShardForTenant F t'))) \<and> s'' \<le> s'"
      using least old [of q' s' t'] assms(5)
      by (cases "t' = t") (auto simp: K set_zadd)
  qed
qed

lemma update_oldest_ok:
  fixes st :: "'p fair_store"
  assumes "indexed_but F q (fs_zsets st)" "fair_keys (fo_keys F)"
  shows "indexes_ok F (fs_zsets (update_oldest (kp_queueKey (fo_keys F) q) (kp_tenantQueueIndexKey (fo_keys F) (tenant_of F q))
     (kp_dispatchKey (fo_keys F) (getShardForTenant F (tenant_of F q))) q (tenant_of F q) st))"
proof -
  note K = fair_keys.distinct_keys [OF assms(2)]
  let ?Q = "kp_queueKey (fo_keys F) q" and ?T = "kp_tenantQueueIndexKey (fo_keys F) (tenant_of F q)"
  let ?D = "kp_dispatchKey (fo_keys F) (getShardForTenant F (tenant_of F q))"
  let ?zs = "fs_zsets st"
  have ok: "zset_ok (?zs k)" for k using assms(1) by (simp add: indexed_but_def)
  define z where "z = (case zfirst (?zs ?Q) of None \<Rightarrow> ?zs ?T | Some (_, s) \<Rightarrow> zadd s q (?zs ?T))"
  have z: "zset_ok z" using ok by (auto simp: z_def zset_ok_zadd split: option.split)
  have eq: "fs_zsets (update_oldest ?Q ?T ?D q (tenant_of F q) st) =
      (case zfirst z of None \<Rightarrow> ?zs(?T := z) | Some (_, s) \<Rightarrow> ?zs(?T := z, ?D := zadd s (tenant_of F q) (?zs ?D)))"
    by (auto simp: update_oldest_def Let_def z_def K split: option.splits)
  have indexed: "queues_indexed F (?zs(?T := z, ?D := d))" for d
    unfolding queues_indexed_def
  proof (intro allI impI)
    fix q' m s
    assume "(m, s) \<in> set ((?zs(?T := z, ?D := d)) (kp_queueKey (fo_keys F) q'))"
    then have m: "(m, s) \<in> set (?zs (kp_queueKey (fo_keys F) q'))" by (simp add: K)
    show "\<exists>s'. (q', s') \<in> set ((?zs(?T := z, ?D := d)) (kp_tenantQueueIndexKey (fo_keys F) (tenant_of F q'))) \<and> s' \<le> s"
    proof (cases "q' = q")
      case True
      with m obtain m0 s0 where first: "zfirst (?zs ?Q) = Some (m0, s0)" by (cases "zfirst (?zs ?Q)") auto
      then have "s0 \<le> s" using zfirst_least [OF ok first] m True by auto
      with first True show ?thesis by (auto simp: z_def set_zadd K)
    next
      case False
      with m assms(1) obtain s' where "(q', s') \<in> set (?zs (kp_tenantQueueIndexKey (fo_keys F) (tenant_of F q')))" "s' \<le> s"
        unfolding indexed_but_def by blast
      with False show ?thesis
        by (cases "tenant_of F q' = tenant_of F q") (auto simp: z_def set_zadd K split: option.splits)
    qed
  qed
  show ?thesis
  proof (cases "zfirst z")
    case None
    then have "z = []" by simp
    moreover have "?zs(?T := z, ?D := ?zs ?D) = ?zs(?T := z)" by (rule ext) (simp add: K)
    ultimately have "queues_indexed F (?zs(?T := z))" "tenants_dispatched F (?zs(?T := z))"
      using indexed [of "?zs ?D"] assms(1) by (simp, auto simp: indexed_but_def tenants_dispatched_def K)
    with None ok z show ?thesis unfolding indexes_ok_def eq by simp
  next
    case (Some e)
    then obtain q1 s1 where e: "zfirst z = Some (q1, s1)" by (cases e) auto
    with indexed dispatch_tenant [OF assms z e refl] ok z show ?thesis
      unfolding indexes_ok_def eq by (simp add: zset_ok_zadd)
  qed
qed

text \<open>A tenant's index that lost a queue without messages.\<close>

lemma updateDispatchIndexes_ok:
  fixes st :: "'p fair_store"
  assumes "indexes_ok F (fs_zsets st)" "fair_keys (fo_keys F)"
  shows "indexes_ok F (fs_zsets (snd (updateDispatchIndexes (kp_queueKey (fo_keys F) q)
     (kp_tenantQueueIndexKey (fo_keys F) (tenant_of F q)) (kp_dispatchKey (fo_keys F) (getShardForTenant F (tenant_of F q)))
     q (tenant_of F q) st)))"
proof (cases "fs_zsets st (kp_queueKey (fo_keys F) q)")
  case (Cons e es)
  with update_oldest_ok [OF indexes_ok_but [OF assms(1)] assms(2)] show ?thesis
    by (simp add: updateDispatchIndexes_def)
next
  case Nil
  note K = fair_keys.distinct_keys [OF assms(2)]
  let ?T = "kp_tenantQueueIndexKey (fo_keys F) (tenant_of F q)" and ?zs = "fs_zsets st"
  let ?D = "kp_dispatchKey (fo_keys F) (getShardForTenant F (tenant_of F q))"
  let ?z = "zrem q (?zs ?T)"
  have ok: "zset_ok (?zs k)" for k using assms(1) by (simp add: indexes_ok_def)
  have indexed: "queues_indexed F (?zs(?T := ?z, ?D := d))" for d
    unfolding queues_indexed_def
  proof (intro allI impI)
    fix q' m s
    assume "(m, s) \<in> set ((?zs(?T := ?z, ?D := d)) (kp_queueKey (fo_keys F) q'))"
    then have m: "(m, s) \<in> set (?zs (kp_queueKey (fo_keys F) q'))" by (simp add: K)
    with Nil have "q' \<noteq> q" by auto
    moreover from m assms(1) obtain s' where "(q', s') \<in> set (?zs (kp_tenantQueueIndexKey (fo_keys F) (tenant_of F q')))" "s' \<le> s"
      unfolding indexes_ok_def queues_indexed_def by blast
    ultimately show "\<exists>s'. (q', s') \<in> set ((?zs(?T := ?z, ?D := d)) (kp_tenantQueueIndexKey (fo_keys F) (tenant_of F q'))) \<and> s' \<le> s"
      by (cases "tenant_of F q' = tenant_of F q") (auto simp: set_zrem K)
  qed
  show ?thesis
  proof (cases "zfirst ?z")
    case None
    then have none: "?z = []" by simp
    have "tenants_dispatched F (?zs(?T := ?z, ?D := zrem (tenant_of F q) (?zs ?D)))"
      unfolding tenants_dispatched_def
    proof (intro allI impI)
      fix t q' s
      assume "(q', s) \<in> set ((?zs(?T := ?z, ?D := zrem (tenant_of F q) (?zs ?D))) (kp_tenantQueueIndexKey (fo_keys F) t))"
      with none have t: "t \<noteq> tenant_of F q" "(q', s) \<in> set (?zs (kp_tenantQueueIndexKey (fo_keys F) t))"
        by (auto simp: K split: if_splits)
      with assms(1) obtain s' where "(t, s') \<in> set (?zs (kp_dispatchKey (fo_keys F) (getShardForTenant F t)))" "s' \<le> s"
        unfolding indexes_ok_def tenants_dispatched_def by blast
      with t(1) show "\<exists>s'. (t, s') \<in> set ((?zs(?T := ?z, ?D := zrem (tenant_of F q) (?zs ?D)))
          (kp_dispatchKey (fo_keys F) (getShardForTenant F t))) \<and> s' \<le> s"
        by (auto simp: set_zrem K)
    qed
    with None Nil indexed ok show ?thesis
      by (simp add: updateDispatchIndexes_def Let_def indexes_ok_def K zset_ok_zrem)
  next
    case (Some e)
    then obtain q1 s1 where e: "zfirst ?z = Some (q1, s1)" by (cases e) auto
    with Nil indexed ok dispatch_tenant [OF indexes_ok_but [OF assms(1)] assms(2) zset_ok_zrem [OF ok] e refl] show ?thesis
      by (simp add: updateDispatchIndexes_def Let_def indexes_ok_def K zset_ok_zrem zset_ok_zadd)
  qed
qed

section \<open>Each command keeps the indexes\<close>

lemma put_message_but:
  assumes "indexed_but F q (fs_zsets st)" "fair_keys (fo_keys F)"
  shows "indexed_but F q (fs_zsets (put_message (kp_queueKey (fo_keys F) q) items x st))"
  using indexed_but_queue [OF assms(1) _ assms(2)] assms(1)
  by (cases x) (simp add: put_message_def indexed_but_def zset_ok_zadd)

lemma put_messages_but:
  "indexed_but F q (fs_zsets st) \<Longrightarrow> fair_keys (fo_keys F) \<Longrightarrow>
   indexed_but F q (fs_zsets (fold (put_message (kp_queueKey (fo_keys F) q) items) xs st))"
  by (induction xs arbitrary: st) (auto intro: put_message_but)

lemma indexes_ok_zset: "indexes_ok F zs \<Longrightarrow> zset_ok (zs k)"
  by (simp add: indexes_ok_def)

lemma other_keys:
  assumes "fair_keys (fo_keys F)"
  shows "\<not> index_key F (kp_inflightKey (fo_keys F) n)" "\<not> index_key F (kp_masterQueueKey (fo_keys F) n)"
    "\<not> index_key F (kp_deadLetterQueueKey (fo_keys F) t)"
  using fair_keys.distinct_keys [OF assms] by (auto simp: index_key_def)

lemma dequeue_ok:
  assumes "indexes_ok F zs" "fair_keys (fo_keys F)"
  shows "indexes_ok F (zs(kp_queueKey (fo_keys F) q := zrem m (zs (kp_queueKey (fo_keys F) q))))"
  by (rule indexes_ok_less [OF assms(1) _ refl _ assms(2)])
    (use assms(1) in \<open>auto simp: indexes_ok_def zset_ok_zrem set_zrem\<close>)

lemma take_in_flight_ok:
  assumes "indexes_ok F (fs_zsets st)" "fair_keys (fo_keys F)"
  shows "indexes_ok F (fs_zsets (take_in_flight (kp_queueKey (fo_keys F) q) items
     (kp_inflightKey (fo_keys F) n) inflightData q' deadline m p st))"
  using indexes_ok_other [OF dequeue_ok [OF assms, of q m] _ other_keys(1) [OF assms(2), of n]] assms(1)
  by (simp add: take_in_flight_def indexes_ok_zset zset_ok_zadd fair_keys.distinct_keys [OF assms(2)])

text \<open>One message of a batch claim, and one of a batch release, as functions of the store alone.\<close>

definition claim_one ::
    "string \<Rightarrow> string \<Rightarrow> string \<Rightarrow> string \<Rightarrow> string \<Rightarrow> int \<Rightarrow> string \<Rightarrow> 'p fair_store \<Rightarrow> 'p fair_store" where
  "claim_one queue items inflight inflightData q deadline m st =
     (case fs_data st items m of
        None \<Rightarrow> zRem queue m st
      | Some p \<Rightarrow> take_in_flight queue items inflight inflightData q deadline m p st)"

lemma snd_claim_each:
  "snd (claim_each queue items inflight inflightData q deadline ids st)
     = fold (claim_one queue items inflight inflightData q deadline) ids st"
  by (induction ids arbitrary: st) (auto simp: claim_one_def split: option.split prod.split dest: arg_cong [of _ _ snd])

lemma snd_claimMessage:
  "snd (claimMessage queue items inflight inflightData q deadline st)
     = (case zfirst (fs_zsets st queue) of None \<Rightarrow> st
        | Some (m, _) \<Rightarrow> claim_one queue items inflight inflightData q deadline m st)"
  by (auto simp: claimMessage_def claim_one_def split: option.split)

lemma snd_put_back_all:
  "snd (put_back_all inflight inflightData queue items s xs st)
     = fold (\<lambda>x st. snd (put_back inflight inflightData queue items s None x st)) xs st"
  by (induction xs arbitrary: st) (auto split: prod.split dest: arg_cong [of _ _ snd])

lemma fold_keeps: "(\<And>x st. x \<in> set xs \<Longrightarrow> P st \<Longrightarrow> P (f x st)) \<Longrightarrow> P st \<Longrightarrow> P (fold f xs st)"
  by (induction xs arbitrary: st) auto

lemma claim_one_ok:
  assumes "indexes_ok F (fs_zsets st)" "fair_keys (fo_keys F)"
  shows "indexes_ok F (fs_zsets (claim_one (kp_queueKey (fo_keys F) q) items (kp_inflightKey (fo_keys F) n)
     inflightData q' deadline m st))"
  using dequeue_ok [OF assms, of q m] take_in_flight_ok [OF assms]
  by (simp add: claim_one_def split: option.split)

lemma claims_ok:
  assumes "indexes_ok F (fs_zsets st)" "fair_keys (fo_keys F)"
  shows "indexes_ok F (fs_zsets (fold (claim_one (kp_queueKey (fo_keys F) q) items (kp_inflightKey (fo_keys F) n)
     inflightData q' deadline) ids st))"
  by (rule fold_keeps [where P = "\<lambda>st. indexes_ok F (fs_zsets st)"]) (simp_all add: claim_one_ok assms)

text \<open>Putting a message back leaves only the queue's own index to be brought up to date.\<close>

lemma put_back_but:
  fixes st :: "'p fair_store"
  assumes "indexed_but F q (fs_zsets st)" "fair_keys (fo_keys F)"
  shows "indexed_but F q (fs_zsets (snd (put_back (kp_inflightKey (fo_keys F) n) inflightData
     (kp_queueKey (fo_keys F) q) items s upd x st)))"
proof (cases x)
  case (Pair member m)
  have rem: "indexed_but F q (fs_zsets (zRem (kp_inflightKey (fo_keys F) n) member st'))"
    if "indexed_but F q (fs_zsets st')" for st' :: "'p fair_store"
    using indexed_but_other [OF that _ other_keys(1) [OF assms(2), of n]] that
    by (simp add: indexed_but_def zset_ok_zrem)
  show ?thesis
    using rem [OF assms(1)] rem [OF put_message_but [OF assms]]
    by (simp add: Pair put_back_def split: option.split)
qed

lemma release_ok:
  assumes "indexes_ok F (fs_zsets st)" "fair_keys (fo_keys F)"
  shows "indexes_ok F (fs_zsets (release_script F n member m q (tenant_of F q) s upd st))"
proof (cases "put_back (kp_inflightKey (fo_keys F) n) (kp_inflightDataKey (fo_keys F) n) (kp_queueKey (fo_keys F) q)
    (kp_queueItemsKey (fo_keys F) q) s upd (member, m) st")
  case (Pair released st')
  show ?thesis
  proof (cases released)
    case True
    with Pair put_back_but [OF indexes_ok_but [OF assms(1)] assms(2)] show ?thesis
      unfolding release_script_def releaseMessage_def Let_def
      by (auto intro!: update_oldest_ok [OF _ assms(2)]) (metis snd_conv)
  next
    case False
    with Pair have "st' = zRem (kp_inflightKey (fo_keys F) n) member st"
      by (auto simp: put_back_def split: option.splits)
    with Pair False indexes_ok_other [OF assms(1) zset_ok_zrem [OF indexes_ok_zset [OF assms(1)]] other_keys(1) [OF assms(2), of n]]
    show ?thesis unfolding release_script_def releaseMessage_def Let_def by simp
  qed
qed

lemma not_put_back:
  assumes "indexes_ok F (fs_zsets st)" "fair_keys (fo_keys F)"
    and "put_back (kp_inflightKey (fo_keys F) n) inflightData (kp_queueKey (fo_keys F) q) items s upd x st = (False, st')"
  shows "indexes_ok F (fs_zsets st')"
  using assms(3) indexes_ok_other [OF assms(1) zset_ok_zrem [OF indexes_ok_zset [OF assms(1)]] other_keys(1) [OF assms(2), of n]]
  by (auto simp: put_back_def split: prod.splits option.splits)

lemma put_back_all_ok:
  fixes st :: "'p fair_store"
  assumes "fair_keys (fo_keys F)"
  shows "put_back_all (kp_inflightKey (fo_keys F) n) inflightData (kp_queueKey (fo_keys F) q) items s xs st = (k, st')
    \<Longrightarrow> (indexed_but F q (fs_zsets st) \<longrightarrow> indexed_but F q (fs_zsets st'))
      \<and> (k = 0 \<longrightarrow> indexes_ok F (fs_zsets st) \<longrightarrow> indexes_ok F (fs_zsets st'))"
proof (induction xs arbitrary: st k st')
  case (Cons x xs)
  let ?put = "put_back (kp_inflightKey (fo_keys F) n) inflightData (kp_queueKey (fo_keys F) q) items s None x st"
  obtain b st1 where b: "?put = (b, st1)" by (cases ?put)
  obtain k1 st2 where k1: "put_back_all (kp_inflightKey (fo_keys F) n) inflightData (kp_queueKey (fo_keys F) q) items s xs st1 = (k1, st2)"
    by (cases "put_back_all (kp_inflightKey (fo_keys F) n) inflightData (kp_queueKey (fo_keys F) q) items s xs st1")
  from Cons.prems b k1 have eq: "st' = st2" "k = (if b then k1 + 1 else k1)" by auto
  have but: "indexed_but F q (fs_zsets st) \<Longrightarrow> indexed_but F q (fs_zsets st1)"
    using put_back_but [OF _ assms, of q st n inflightData items s None x] b by simp
  from Cons.IH [OF k1] but eq not_put_back [OF _ assms, of st n inflightData q items s None x st1] b show ?case
    by (cases b) auto
qed simp

lemma releaseBatch_ok:
  assumes "indexes_ok F (fs_zsets st)" "fair_keys (fo_keys F)"
  shows "indexes_ok F (fs_zsets (releaseMessageBatch (kp_inflightKey (fo_keys F) n) inflightData
     (kp_queueKey (fo_keys F) q) items (kp_tenantQueueIndexKey (fo_keys F) (tenant_of F q))
     (kp_dispatchKey (fo_keys F) (getShardForTenant F (tenant_of F q))) s q (tenant_of F q) xs st))"
proof (cases "put_back_all (kp_inflightKey (fo_keys F) n) inflightData (kp_queueKey (fo_keys F) q) items s xs st")
  case (Pair k st')
  from put_back_all_ok [OF assms(2) Pair] indexes_ok_but [OF assms(1)] assms(1) show ?thesis
    by (cases k) (simp_all add: releaseMessageBatch_def Pair update_oldest_ok [OF _ assms(2)])
qed

lemma sweep_zsets [simp]:
  "fs_zsets (snd (removeOrphanedConcurrencySlots key ds ms st)) = fs_zsets st"
  "fs_data (snd (removeOrphanedConcurrencySlots key ds ms st)) = fs_data st"
  by (induction ms arbitrary: st) (auto simp: case_prod_beta)

lemma quantum_zsets [simp]:
  "fs_zsets (snd (drrAddQuantum k x y ts st)) = fs_zsets st" "fs_data (snd (drrAddQuantum k x y ts st)) = fs_data st"
  "fs_sets (snd (drrAddQuantum k x y ts st)) = fs_sets st"
  by (induction ts arbitrary: st) (auto simp: add_quantum_def hIncrByFloat_def Let_def case_prod_beta)

lemma decrement_zsets [simp]:
  "fs_zsets (snd (drrDecrementDeficitBatch k t n st)) = fs_zsets st"
  "fs_data (snd (drrDecrementDeficitBatch k t n st)) = fs_data st"
  "fs_sets (snd (drrDecrementDeficitBatch k t n st)) = fs_sets st"
  by (auto simp: drrDecrementDeficitBatch_def hIncrByFloat_def Let_def)

lemma slot_zsets [simp]:
  "fs_zsets (releaseConcurrency ks m st) = fs_zsets st" "fs_data (releaseConcurrency ks m st) = fs_data st"
  "fs_zsets (snd (reserveConcurrency gs m st)) = fs_zsets st" "fs_data (snd (reserveConcurrency gs m st)) = fs_data st"
proof -
  show "fs_zsets (releaseConcurrency ks m st) = fs_zsets st" "fs_data (releaseConcurrency ks m st) = fs_data st"
    by (induction ks arbitrary: st) (auto simp: releaseConcurrency_def)
  have "fs_zsets (fold (\<lambda>(key, limit). sAdd key m) gs st) = fs_zsets st \<and> fs_data (fold (\<lambda>(key, limit). sAdd key m) gs st) = fs_data st"
    by (induction gs arbitrary: st) auto
  then show "fs_zsets (snd (reserveConcurrency gs m st)) = fs_zsets st" "fs_data (snd (reserveConcurrency gs m st)) = fs_data st"
    by (auto simp: reserveConcurrency_def)
qed

lemma fair_step_indexes:
  assumes "indexes_ok F (fs_zsets st)" "fair_keys (fo_keys F)"
  shows "indexes_ok F (fs_zsets (fair_step F st cmd))"
proof -
  have other: "\<not> index_key F k \<Longrightarrow> zset_ok z \<Longrightarrow> indexes_ok F ((fs_zsets st)(k := z))" for k z
    using indexes_ok_other [OF assms(1)] by blast
  note ok = indexes_ok_zset [OF assms(1)] zset_ok_zrem zset_ok_zadd other_keys [OF assms(2)]
  note but = indexes_ok_but [OF assms(1)]
  show ?thesis
    by (cases cmd)
      (simp_all add: fair_handlers assms ok other release_ok releaseBatch_ok updateDispatchIndexes_ok
        enqueueMessageAtomicV2_def enqueueBatchAtomicV2_def update_oldest_ok put_message_but [OF but] put_messages_but [OF but]
        snd_claimMessage claimMessageBatch_def snd_claim_each claim_one_ok claims_ok
        heartbeatMessage_def removeFromInflight_def updateMasterQueueIfEmpty_def put_dead_def drop_dead_def Let_def
        split: option.split prod.split)
qed

interpretation indexes: step_machine "fair_step F" "\<lambda>st. fair_keys (fo_keys F) \<and> indexes_ok F (fs_zsets st)"
  for F :: "'p fair_options"
  by unfold_locales (simp add: fair_step_indexes)

section \<open>The slots of a group\<close>

text \<open>\<open>L\<close> bounds what the limits of the groups may be, by the key of a group's set.\<close>

definition limits_below :: "'p fair_options \<Rightarrow> (string \<Rightarrow> nat) \<Rightarrow> bool" where
  "limits_below F L = (\<forall>g \<in> set (fo_groups F). \<forall>st groupId.
     group_limit (st :: 'p fair_store) g groupId \<le> L (kp_concurrencyKey (fo_keys F) (cg_name g) groupId))"

definition slots_ok :: "(string \<Rightarrow> nat) \<Rightarrow> 'p fair_store \<Rightarrow> bool" where
  "slots_ok L st = (\<forall>k. distinct (fs_sets st k) \<and> length (fs_sets st k) \<le> L k)"

lemma sadd_idem [simp]: "sadd m (sadd m xs) = sadd m xs"
  by (simp add: sadd_def)

lemma distinct_sadd [simp]: "distinct (sadd m xs) \<longleftrightarrow> distinct xs"
  by (simp add: sadd_def)

lemma distinct_srem [simp]: "distinct xs \<Longrightarrow> distinct (srem m xs)"
  by (simp add: srem_def)

lemma reserved_sets:
  "fs_sets (fold (\<lambda>(key, limit). sAdd key m) gs st) k = (if k \<in> fst ` set gs then sadd m (fs_sets st k) else fs_sets st k)"
  by (induction gs arbitrary: st) auto

lemma freed_sets:
  "fs_sets (releaseConcurrency ks m st) k = (if k \<in> set ks then srem m (fs_sets st k) else fs_sets st k)"
  by (induction ks arbitrary: st) (auto simp: releaseConcurrency_def srem_def)

lemma swept_sets:
  "fs_sets (snd (removeOrphanedConcurrencySlots key ds ms st)) k
     = (if k = key then filter (\<lambda>m. m \<in> set ms \<longrightarrow> list_ex (\<lambda>d. fs_data st d m \<noteq> None) ds) (fs_sets st k) else fs_sets st k)"
  by (induction ms arbitrary: st) (auto simp: case_prod_beta srem_def intro!: filter_cong)

lemma reserve_slots:
  assumes "limits_below F L" "slots_ok L st"
  shows "slots_ok L (snd (reserve F d m st))"
proof -
  let ?gs = "map (\<lambda>g. (group_key F d g, group_limit st g (cg_extractGroupId g d))) (fo_groups F)"
  have "length (sadd m (fs_sets st k)) \<le> L k"
    if "list_all (\<lambda>(key, limit). m \<in> set (fs_sets st key) \<or> length (fs_sets st key) < limit) ?gs" "k \<in> fst ` set ?gs" for k
  proof -
    from that(2) obtain g where g: "g \<in> set (fo_groups F)" "k = group_key F d g" by auto
    with that(1) have "m \<in> set (fs_sets st k) \<or> length (fs_sets st k) < group_limit st g (cg_extractGroupId g d)"
      by (auto simp: list_all_iff)
    moreover have "group_limit st g (cg_extractGroupId g d) \<le> L k"
      using assms(1) g by (simp add: limits_below_def group_key_def)
    ultimately show ?thesis using assms(2) by (auto simp: slots_ok_def sadd_def)
  qed
  with assms(2) show ?thesis
    by (auto simp: reserve_def script_def reserveConcurrency_def slots_ok_def reserved_sets)
qed

text \<open>Every other command leaves the sets of slots alone or takes members out of them.\<close>

lemma put_sets [simp]:
  "fs_sets (put_message queue items x st) = fs_sets st"
  "fs_sets (update_oldest queue tenants dispatch q t st) = fs_sets st"
  "fs_sets (fold (put_message queue items) xs st) = fs_sets st"
proof -
  show *: "fs_sets (put_message queue items x st) = fs_sets st" for x and st :: "'a fair_store"
    by (cases x) (simp add: put_message_def)
  show "fs_sets (update_oldest queue tenants dispatch q t st) = fs_sets st"
    by (auto simp: update_oldest_def Let_def split: option.split)
  show "fs_sets (fold (put_message queue items) xs st) = fs_sets st"
    by (induction xs arbitrary: st) (auto simp: *)
qed

lemma claim_sets [simp]:
  "fs_sets (claim_one queue items inflight inflightData q deadline m st) = fs_sets st"
  "fs_sets (fold (claim_one queue items inflight inflightData q deadline) ms st) = fs_sets st"
proof -
  show *: "fs_sets (claim_one queue items inflight inflightData q deadline m st) = fs_sets st" for m and st :: "'a fair_store"
    by (simp add: claim_one_def take_in_flight_def split: option.split)
  show "fs_sets (fold (claim_one queue items inflight inflightData q deadline) ms st) = fs_sets st"
    by (induction ms arbitrary: st) (auto simp: *)
qed

lemma put_back_sets [simp]:
  "fs_sets (snd (put_back inflight inflightData queue items s upd x st)) = fs_sets st"
  "fs_sets (snd (put_back_all inflight inflightData queue items s xs st)) = fs_sets st"
proof -
  show *: "fs_sets (snd (put_back inflight inflightData queue items s upd x st)) = fs_sets st" for upd x and st :: "'a fair_store"
    by (auto simp: put_back_def split: prod.split option.split)
  show "fs_sets (snd (put_back_all inflight inflightData queue items s xs st)) = fs_sets st"
    by (induction xs arbitrary: st) (auto simp: * case_prod_beta)
qed

lemma fair_step_slots:
  assumes "limits_below F L" "slots_ok L st"
  shows "slots_ok L (fair_step F st cmd)"
proof (cases "\<exists>d m. cmd = Reserve d m \<or> cmd = Free d m \<or> (\<exists>k ms. cmd = Sweep k ms)")
  case True
  have "length (filter P xs) \<le> n" if "length xs \<le> n" for n and xs :: "string list" and P
    by (rule order_trans [OF length_filter_le that])
  then have "length (filter P xs) \<le> n" "length (srem m xs) \<le> n" if "length xs \<le> n" for m n and xs :: "string list" and P
    using that by (simp_all add: srem_def)
  with True assms reserve_slots [OF assms] show ?thesis
    by (auto simp: release_slots_def modify_def slots_ok_def freed_sets swept_sets)
next
  case False
  then have "fs_sets (fair_step F st cmd) = fs_sets st"
    by (cases cmd)
      (auto simp: fair_handlers enqueueMessageAtomicV2_def enqueueBatchAtomicV2_def snd_claimMessage claimMessageBatch_def
        snd_claim_each release_script_def releaseMessage_def releaseMessageBatch_def heartbeatMessage_def removeFromInflight_def
        updateMasterQueueIfEmpty_def updateDispatchIndexes_def put_dead_def drop_dead_def Let_def case_prod_beta
        split: option.split bool.split)
  with assms(2) show ?thesis by (simp add: slots_ok_def)
qed

interpretation slots: step_machine "fair_step F" "\<lambda>st. limits_below F L \<and> slots_ok L st"
  for F :: "'p fair_options" and L
  by unfold_locales (simp add: fair_step_slots)

section \<open>No message is lost\<close>

text \<open>A message waits in its queue with its data, or its data is in flight on the queue's shard.\<close>

definition held :: "'p fair_options \<Rightarrow> string \<Rightarrow> string \<Rightarrow> 'p fair_store \<Rightarrow> bool" where
  "held F q m st =
     (m \<in> zmembers (fs_zsets st (kp_queueKey (fo_keys F) q)) \<and> fs_data st (kp_queueItemsKey (fo_keys F) q) m \<noteq> None
      \<or> fs_data st (kp_inflightDataKey (fo_keys F) (getShardForQueue F q)) m \<noteq> None)"

definition only_in :: "'p fair_options \<Rightarrow> string \<Rightarrow> string \<Rightarrow> 'p fair_store \<Rightarrow> bool" where
  "only_in F q m st = (\<forall>q'. q' \<noteq> q \<longrightarrow> m \<notin> zmembers (fs_zsets st (kp_queueKey (fo_keys F) q')))"

text \<open>The commands that complete the message, or name it with another queue, are left out.\<close>

fun spares :: "string \<Rightarrow> string \<Rightarrow> 'p fair_command \<Rightarrow> bool" where
  "spares q m (Enqueue q' m' s p) = (m' = m \<longrightarrow> q' = q)"
| "spares q m (EnqueueBatch q' ms) = (m \<in> fst ` set ms \<longrightarrow> q' = q)"
| "spares q m (Release m' q' s upd) = (m' = m \<longrightarrow> q' = q)"
| "spares q m (ReleaseBatch q' s ms) = (m \<in> set ms \<longrightarrow> q' = q)"
| "spares q m (Remove m' q') = (m' \<noteq> m)"
| "spares q m _ = True"

text \<open>What a command that is not about the message leaves of it.\<close>

definition apart :: "'p fair_options \<Rightarrow> string \<Rightarrow> 'p fair_store \<Rightarrow> 'p fair_store \<Rightarrow> bool" where
  "apart F m st st' =
     ((\<forall>q. m \<in> zmembers (fs_zsets st' (kp_queueKey (fo_keys F) q)) \<longleftrightarrow> m \<in> zmembers (fs_zsets st (kp_queueKey (fo_keys F) q)))
      \<and> (\<forall>k. fs_data st' k m = fs_data st k m))"

definition kept :: "'p fair_options \<Rightarrow> string \<Rightarrow> string \<Rightarrow> 'p fair_store \<Rightarrow> bool" where
  "kept F q m st = (held F q m st \<and> only_in F q m st)"

lemma apart_kept: "apart F m st st' \<Longrightarrow> kept F q m st \<Longrightarrow> kept F q m st'"
  by (simp add: apart_def kept_def held_def only_in_def)

lemma apart_refl: "apart F m st st"
  by (simp add: apart_def)

lemma apart_trans: "apart F m st st' \<Longrightarrow> apart F m st' st'' \<Longrightarrow> apart F m st st''"
  by (simp add: apart_def)

lemma update_oldest_apart:
  "fair_keys (fo_keys F) \<Longrightarrow> apart F m st (update_oldest queue (kp_tenantQueueIndexKey (fo_keys F) t) (kp_dispatchKey (fo_keys F) n) q t' st)"
  by (auto simp: apart_def update_oldest_def Let_def fair_keys.distinct_keys split: option.split)

lemma put_message_kept:
  assumes "fair_keys (fo_keys F)" "kept F q m st" "m' = m \<longrightarrow> q' = q"
  shows "kept F q m (put_message (kp_queueKey (fo_keys F) q') (kp_queueItemsKey (fo_keys F) q') (m', s, p) st)"
  using assms(2,3)
  by (auto simp: kept_def held_def only_in_def put_message_def fair_keys.distinct_keys [OF assms(1)])

lemma put_messages_kept:
  assumes "fair_keys (fo_keys F)" "kept F q m st" "m \<in> fst ` set xs \<longrightarrow> q' = q"
  shows "kept F q m (fold (put_message (kp_queueKey (fo_keys F) q') (kp_queueItemsKey (fo_keys F) q')) xs st)"
proof (rule fold_keeps [where P = "kept F q m"])
  fix x st' assume "x \<in> set xs" "kept F q m st'"
  with assms(3) show "kept F q m (put_message (kp_queueKey (fo_keys F) q') (kp_queueItemsKey (fo_keys F) q') x st')"
    by (cases x) (force intro!: put_message_kept [OF assms(1)])
qed (rule assms(2))

lemma claim_one_kept:
  assumes "fair_keys (fo_keys F)" "kept F q m st" "m' = m \<longrightarrow> q' = q"
  shows "kept F q m (claim_one (kp_queueKey (fo_keys F) q') (kp_queueItemsKey (fo_keys F) q') (kp_inflightKey (fo_keys F) n)
    (kp_inflightDataKey (fo_keys F) (getShardForQueue F q')) q' deadline m' st)"
  using assms(2,3)
  by (cases "m' = m")
    (auto simp: kept_def held_def only_in_def claim_one_def take_in_flight_def fair_keys.distinct_keys [OF assms(1)] split: option.split)

lemma claims_kept:
  assumes "fair_keys (fo_keys F)" "kept F q m st" "m \<in> set ms \<longrightarrow> q' = q"
  shows "kept F q m (fold (claim_one (kp_queueKey (fo_keys F) q') (kp_queueItemsKey (fo_keys F) q') (kp_inflightKey (fo_keys F) n)
    (kp_inflightDataKey (fo_keys F) (getShardForQueue F q')) q' deadline) ms st)"
proof (rule fold_keeps [where P = "kept F q m"])
  fix x st' assume "x \<in> set ms" "kept F q m st'"
  with assms(3) show "kept F q m (claim_one (kp_queueKey (fo_keys F) q') (kp_queueItemsKey (fo_keys F) q') (kp_inflightKey (fo_keys F) n)
      (kp_inflightDataKey (fo_keys F) (getShardForQueue F q')) q' deadline x st')"
    by (auto intro!: claim_one_kept [OF assms(1)])
qed (rule assms(2))

lemma put_back_kept:
  assumes "fair_keys (fo_keys F)" "kept F q m st" "snd x = m \<longrightarrow> q' = q"
  shows "kept F q m (snd (put_back (kp_inflightKey (fo_keys F) n) (kp_inflightDataKey (fo_keys F) (getShardForQueue F q'))
    (kp_queueKey (fo_keys F) q') (kp_queueItemsKey (fo_keys F) q') s upd x st))"
proof (cases x)
  case (Pair member m')
  note K = fair_keys.distinct_keys [OF assms(1)]
  show ?thesis
  proof (cases "m' = m")
    case False
    then have "apart F m st (snd (put_back (kp_inflightKey (fo_keys F) n) (kp_inflightDataKey (fo_keys F) (getShardForQueue F q'))
        (kp_queueKey (fo_keys F) q') (kp_queueItemsKey (fo_keys F) q') s upd x st))"
      by (auto simp: apart_def Pair put_back_def put_message_def K split: option.split)
    then show ?thesis by (rule apart_kept) (rule assms(2))
  next
    case True
    with assms(3) Pair have "q' = q" by simp
    with True assms(2) show ?thesis
      by (cases "fs_data st (kp_inflightDataKey (fo_keys F) (getShardForQueue F q)) m")
        (simp_all add: Pair put_back_def put_message_def kept_def held_def only_in_def K)
  qed
qed

lemma put_back_all_kept:
  assumes "fair_keys (fo_keys F)" "kept F q m st" "m \<in> snd ` set xs \<longrightarrow> q' = q"
  shows "kept F q m (snd (put_back_all (kp_inflightKey (fo_keys F) n) (kp_inflightDataKey (fo_keys F) (getShardForQueue F q'))
    (kp_queueKey (fo_keys F) q') (kp_queueItemsKey (fo_keys F) q') s xs st))"
  unfolding snd_put_back_all
proof (rule fold_keeps [where P = "kept F q m"])
  fix x st' assume "x \<in> set xs" "kept F q m st'"
  with assms(3) show "kept F q m (snd (put_back (kp_inflightKey (fo_keys F) n) (kp_inflightDataKey (fo_keys F) (getShardForQueue F q'))
      (kp_queueKey (fo_keys F) q') (kp_queueItemsKey (fo_keys F) q') s None x st'))"
    by (intro put_back_kept [OF assms(1)]) auto
qed (rule assms(2))

lemma zrange_first_members: "set (zrange_first n z) \<subseteq> zmembers z"
  by (auto simp: zrange_first_def zmembers_def dest: in_set_takeD)

lemma zfirst_member: "zfirst z = Some (m, s) \<Longrightarrow> m \<in> zmembers z"
  by (cases z) auto

lemma claimed_in: "kept F q m st \<Longrightarrow> m \<in> zmembers (fs_zsets st (kp_queueKey (fo_keys F) q')) \<Longrightarrow> q' = q"
  by (auto simp: kept_def only_in_def)

lemma fair_step_kept:
  assumes "fair_keys (fo_keys F)" "kept F q m st" "spares q m cmd"
  shows "kept F q m (fair_step F st cmd)"
proof -
  note K = fair_keys.distinct_keys [OF assms(1)]
  note oldest = apart_kept [OF update_oldest_apart [OF assms(1)]]
  have quiet: "apart F m st (fair_step F st cmd)"
    if "case cmd of Enqueue _ _ _ _ \<Rightarrow> False | EnqueueBatch _ _ \<Rightarrow> False | Claim _ _ \<Rightarrow> False | ClaimBatch _ _ _ \<Rightarrow> False
      | Release _ _ _ _ \<Rightarrow> False | ReleaseBatch _ _ _ \<Rightarrow> False | UpdateDispatch _ \<Rightarrow> False | _ \<Rightarrow> True"
    using that assms(3)
    by (cases cmd)
      (auto simp: apart_def fair_handlers heartbeatMessage_def removeFromInflight_def updateMasterQueueIfEmpty_def
        put_dead_def drop_dead_def Let_def K)
  show ?thesis
  proof (cases cmd)
    case (Enqueue q' m' s p)
    with assms(3) show ?thesis
      by (auto simp: enqueueMessageAtomicV2_def intro!: oldest put_message_kept [OF assms(1,2)])
  next
    case (EnqueueBatch q' ms)
    with assms(3) show ?thesis
      by (auto simp: enqueueBatchAtomicV2_def intro!: oldest put_messages_kept [OF assms(1,2)])
  next
    case (Claim q' deadline)
    with claimed_in [OF assms(2)] show ?thesis
      by (auto simp: snd_claimMessage assms(2) dest: zfirst_member split: option.split intro!: claim_one_kept [OF assms(1,2)])
  next
    case (ClaimBatch q' deadline n)
    with claimed_in [OF assms(2)] zrange_first_members show ?thesis
      by (auto simp: claimMessageBatch_def snd_claim_each intro!: claims_kept [OF assms(1,2)])
  next
    case (Release m' q' s upd)
    with assms(3) put_back_kept [OF assms(1,2), of "(makeMember m' q', m')" q' "getShardForQueue F q'" s upd] show ?thesis
      by (auto simp: release_script_def releaseMessage_def Let_def split: prod.split bool.split intro!: oldest)
  next
    case (ReleaseBatch q' s ms)
    with assms(3) put_back_all_kept [OF assms(1,2), of "map (\<lambda>m. (makeMember m q', m)) ms" q' "getShardForQueue F q'" s] show ?thesis
      by (auto simp: releaseMessageBatch_def image_image case_prod_beta intro!: oldest)
  next
    case (UpdateDispatch q')
    have "apart F m st (fair_step F st cmd)"
      using update_oldest_apart [OF assms(1)]
      by (auto simp: UpdateDispatch updateDispatchIndexes_def Let_def, auto simp: apart_def K split: option.split)
    then show ?thesis by (rule apart_kept) (rule assms(2))
  qed (use apart_kept [OF quiet assms(2)] in simp_all)
qed

interpretation keeping: guarded_machine "fair_step F" "spares q m" "\<lambda>st. fair_keys (fo_keys F) \<and> kept F q m st"
  for F :: "'p fair_options" and q m
  by unfold_locales (simp add: fair_step_kept)

section \<open>Deficits\<close>

definition deficits_ok :: "'p fair_options \<Rightarrow> 'p fair_store \<Rightarrow> bool" where
  "deficits_ok F st = (\<forall>t. 0 \<le> getDeficit F t st \<and> getDeficit F t st \<le> fo_maxDeficit F)"

lemma or_default_Some [simp]: "or_default (Some x) d = x"
  by (simp add: or_default_def)

text \<open>A deficit after one quantum: capped.\<close>

definition topped_up :: "'p fair_options \<Rightarrow> rat \<Rightarrow> rat" where
  "topped_up F x = (if x + fo_quantum F > fo_maxDeficit F then fo_maxDeficit F else x + fo_quantum F)"

lemma add_quantum_eq:
  "fst (add_quantum (drr_key F) (fo_quantum F) (fo_maxDeficit F) t st) = topped_up F (getDeficit F t st)"
  "getDeficit F t' (snd (add_quantum (drr_key F) (fo_quantum F) (fo_maxDeficit F) t st))
     = (if t' = t then topped_up F (getDeficit F t st) else getDeficit F t' st)"
  by (auto simp: add_quantum_def hIncrByFloat_def Let_def topped_up_def getDeficit_def)

text \<open>A round over different tenants: each gets its quantum, and the answers are the new deficits.\<close>

lemma drrAddQuantum_eq:
  "distinct ts \<Longrightarrow>
   fst (drrAddQuantum (drr_key F) (fo_quantum F) (fo_maxDeficit F) ts st) = map (\<lambda>t. topped_up F (getDeficit F t st)) ts
   \<and> getDeficit F t' (snd (drrAddQuantum (drr_key F) (fo_quantum F) (fo_maxDeficit F) ts st))
     = (if t' \<in> set ts then topped_up F (getDeficit F t' st) else getDeficit F t' st)"
proof (induction ts arbitrary: st)
  case (Cons t ts)
  let ?st = "snd (add_quantum (drr_key F) (fo_quantum F) (fo_maxDeficit F) t st)"
  have "map (\<lambda>u. topped_up F (getDeficit F u ?st)) ts = map (\<lambda>u. topped_up F (getDeficit F u st)) ts"
    using Cons.prems by (auto simp: add_quantum_eq)
  with Cons.IH [of ?st] Cons.prems show ?case
    by (auto simp: case_prod_beta add_quantum_eq)
qed simp

lemma decrement_eq:
  "getDeficit F t' (snd (drrDecrementDeficitBatch (drr_key F) t n st))
     = (if t' = t then max 0 (getDeficit F t st - n) else getDeficit F t' st)"
  by (auto simp: drrDecrementDeficitBatch_def hIncrByFloat_def Let_def getDeficit_def)

lemma quantum_deficits_ok:
  assumes "0 \<le> fo_quantum F" "0 \<le> fo_maxDeficit F" "deficits_ok F st"
  shows "deficits_ok F (snd (drrAddQuantum (drr_key F) (fo_quantum F) (fo_maxDeficit F) ts st))"
  using assms(3)
proof (induction ts arbitrary: st)
  case (Cons t ts)
  then have "deficits_ok F (snd (add_quantum (drr_key F) (fo_quantum F) (fo_maxDeficit F) t st))"
    using assms(1,2) by (auto simp: deficits_ok_def add_quantum_eq topped_up_def)
  with Cons.IH show ?case by (simp add: case_prod_beta)
qed simp

lemma put_numbers [simp]:
  "fs_numbers (put_message queue items x st) = fs_numbers st"
  "fs_numbers (update_oldest queue tenants dispatch q t st) = fs_numbers st"
  by (cases x, simp add: put_message_def) (auto simp: update_oldest_def Let_def split: option.split)

lemma fold_numbers:
  fixes st :: "'p fair_store"
  assumes "\<And>x (st :: 'p fair_store). fs_numbers (f x st) = fs_numbers st"
  shows "fs_numbers (fold f xs st) = fs_numbers st"
  using assms by (induction xs arbitrary: st) auto

lemma script_numbers [simp]:
  "fs_numbers (fold (put_message queue items) xs st) = fs_numbers st"
  "fs_numbers (claim_one queue items inflight inflightData q deadline m st) = fs_numbers st"
  "fs_numbers (fold (claim_one queue items inflight inflightData q deadline) ms st) = fs_numbers st"
  "fs_numbers (snd (put_back inflight inflightData queue items s upd x st)) = fs_numbers st"
  "fs_numbers (snd (put_back_all inflight inflightData queue items s ys st)) = fs_numbers st"
  "fs_numbers (releaseConcurrency ks m st) = fs_numbers st"
  "fs_numbers (snd (reserveConcurrency gs m st)) = fs_numbers st"
  "fs_numbers (snd (removeOrphanedConcurrencySlots key ds ms st)) = fs_numbers st"
proof -
  show claim: "fs_numbers (claim_one queue items inflight inflightData q deadline m st) = fs_numbers st" for m and st :: "'a fair_store"
    by (simp add: claim_one_def take_in_flight_def split: option.split)
  show put: "fs_numbers (snd (put_back inflight inflightData queue items s upd x st)) = fs_numbers st" for upd x and st :: "'a fair_store"
    by (auto simp: put_back_def split: prod.split option.split)
  show "fs_numbers (fold (put_message queue items) xs st) = fs_numbers st"
    "fs_numbers (fold (claim_one queue items inflight inflightData q deadline) ms st) = fs_numbers st"
    "fs_numbers (snd (put_back_all inflight inflightData queue items s ys st)) = fs_numbers st"
    by (simp_all add: snd_put_back_all fold_numbers claim put)
  show "fs_numbers (releaseConcurrency ks m st) = fs_numbers st"
    "fs_numbers (snd (reserveConcurrency gs m st)) = fs_numbers st"
    by (auto simp: releaseConcurrency_def reserveConcurrency_def case_prod_beta intro!: fold_numbers)
  show "fs_numbers (snd (removeOrphanedConcurrencySlots key ds ms st)) = fs_numbers st"
    by (induction ms arbitrary: st) (auto simp: case_prod_beta)
qed

lemma fair_step_deficits:
  assumes "0 \<le> fo_quantum F" "0 \<le> fo_maxDeficit F" "deficits_ok F st"
  shows "deficits_ok F (fair_step F st cmd)"
proof -
  have other: "fs_numbers st' = fs_numbers st \<Longrightarrow> deficits_ok F st'" for st'
    using assms(3) by (simp add: deficits_ok_def getDeficit_def)
  show ?thesis
  proof (cases cmd)
    case (AddQuantum ts)
    with quantum_deficits_ok [OF assms] show ?thesis by (simp add: fair_handlers assms)
  next
    case (Processed t n)
    have "getDeficit F t st - rat_of_nat n \<le> fo_maxDeficit F"
      using assms(3) order_trans [of "getDeficit F t st - rat_of_nat n" "getDeficit F t st" "fo_maxDeficit F"]
      by (simp add: deficits_ok_def)
    with assms(2,3) have "deficits_ok F (snd (drrDecrementDeficitBatch (drr_key F) t (rat_of_nat n) st))"
      by (simp add: deficits_ok_def decrement_eq)
    with Processed show ?thesis by (simp add: fair_handlers)
  qed (auto simp: fair_handlers enqueueMessageAtomicV2_def enqueueBatchAtomicV2_def snd_claimMessage claimMessageBatch_def
        snd_claim_each release_script_def releaseMessage_def releaseMessageBatch_def heartbeatMessage_def removeFromInflight_def
        updateMasterQueueIfEmpty_def updateDispatchIndexes_def put_dead_def drop_dead_def Let_def case_prod_beta assms(3)
        split: option.split bool.split intro!: other)
qed

interpretation deficits: step_machine "fair_step F"
  "\<lambda>st. 0 \<le> fo_quantum F \<and> 0 \<le> fo_maxDeficit F \<and> deficits_ok F st" for F :: "'p fair_options"
  by unfold_locales (simp add: fair_step_deficits)

end
