(* ===== verification/FairOutcomes.thy ===== *)
theory FairOutcomes
  imports FairInvariants
begin

text \<open>
  What the fair queue promises: over every interleaving of its servers' commands (theory
  FairInvariants), and of its operations: whose turn it is, what becomes of a message that fails, and
  what the reconciliation of slots leaves.
\<close>

section \<open>An example\<close>

text \<open>One shard, one group of two slots for each tenant; the tenant of a queue is its id.\<close>

definition example_fair :: "nat fair_options" where
  "example_fair =
     \<lparr>fo_keys = CallbackFairQueueKeyProducer ''fq'' colon id (\<lambda>_. id), fo_sha256 = (\<lambda>_. []), fo_shardCount = 1,
      fo_groups = [\<lparr>cg_name = ''tenant'', cg_extractGroupId = qd_tenantId, cg_getLimit = (\<lambda>_ _. 2), cg_defaultLimit = 1\<rparr>],
      fo_validate = (\<lambda>_. None), fo_workerQueueResolver = (\<lambda>_. ''w''), fo_retryStrategy = Some (FixedDelayRetry 3 100),
      fo_deadLetterQueueEnabled = True, fo_visibilityTimeoutMs = 1000, fo_heartbeatIntervalMs = 100, fo_batchClaimSize = 10,
      fo_workerQueueMaxDepth = 5, fo_workerQueueDepthCheckId = Some ''w'', fo_quantum = 5, fo_maxDeficit = 50,
      fo_masterQueueLimit = 100\<rparr>"

definition example_stored :: "nat stored_message" where
  "example_stored = \<lparr>sm_id = ''m1'', sm_queueId = ''acme'', sm_tenantId = ''acme'', sm_payload = 7, sm_timestamp = 5, sm_attempt = 1,
     sm_workerQueue = Some ''w'', sm_metadata = None\<rparr>"

lemma one_shard: "fo_shardCount F = 1 \<Longrightarrow> getShardForQueue F q = 0" "fo_shardCount F = 1 \<Longrightarrow> getShardForTenant F q = 0"
  using jump_loop_range [of "- 1" 1 "bytesToBigInt (fo_sha256 F q)" 0]
  by (simp_all add: getShardForQueue_def getShardForTenant_def jumpHash_def jumpConsistentHash_def)

lemma example_keys: "fair_keys (fo_keys example_fair)"
  by (simp add: example_fair_def callback_keys)

lemma example_options [simp]:
  "fo_shardCount example_fair = 1" "tenant_of example_fair q = q" "fo_masterQueueLimit example_fair = 100"
  "fo_quantum example_fair = 5" "fo_maxDeficit example_fair = 50"
  by (simp_all add: example_fair_def CallbackFairQueueKeyProducer_def DefaultFairQueueKeyProducer_def)

lemma example_shards [simp]: "getShardForQueue example_fair q = 0" "getShardForTenant example_fair q = 0"
  by (rule one_shard, simp)+

lemmas example_distinct = fair_keys.distinct_keys [OF example_keys]

definition example_enqueued :: "nat fair_store" where
  "example_enqueued = fair_step example_fair empty_store (Enqueue ''acme'' ''m1'' 5 (Json example_stored))"

lemma example_enqueued:
  "fs_zsets example_enqueued (kp_queueKey (fo_keys example_fair) q) = (if q = ''acme'' then [(''m1'', 5)] else [])"
  "fs_zsets example_enqueued (kp_tenantQueueIndexKey (fo_keys example_fair) t) = (if t = ''acme'' then [(''acme'', 5)] else [])"
  "fs_zsets example_enqueued (kp_dispatchKey (fo_keys example_fair) n) = (if n = 0 then [(''acme'', 5)] else [])"
  "fs_zsets example_enqueued (kp_inflightKey (fo_keys example_fair) n) = []"
  "fs_data example_enqueued (kp_queueItemsKey (fo_keys example_fair) ''acme'') ''m1'' = Some (Json example_stored)"
  "fs_data example_enqueued (kp_inflightDataKey (fo_keys example_fair) n) ''m1'' = None"
  "fs_now example_enqueued = 0" "fs_numbers example_enqueued = (\<lambda>_ _. None)" "fs_sets example_enqueued = (\<lambda>_. [])"
  by (auto simp: example_enqueued_def enqueueMessageAtomicV2_def put_message_def update_oldest_def Let_def empty_store_def
      example_distinct zadd_def zrem_def)

section \<open>Over all interleavings\<close>

lemma empty_store_ok: "indexes_ok F (fs_zsets empty_store)" "slots_ok L empty_store" "0 \<le> fo_maxDeficit F \<Longrightarrow> deficits_ok F empty_store"
  by (simp_all add: indexes_ok_def queues_indexed_def tenants_dispatched_def empty_store_def slots_ok_def deficits_ok_def
      getDeficit_def or_default_def)

lemma due_member:
  assumes "(m, s) \<in> set z" "s \<le> now" "m \<noteq> []" "length z \<le> limit"
  shows "m \<in> set (due_members limit now z)"
proof -
  have "take limit (filter (\<lambda>e. snd e \<le> now) z) = filter (\<lambda>e. snd e \<le> now) z"
    by (rule take_all) (rule order_trans [OF length_filter_le assms(4)])
  with assms(1-3) show ?thesis by (force simp: due_members_def zrangebyscore_def)
qed

text \<open>
  C5. A message that waits and is due is found: its tenant is among those the scheduler reads from
  the dispatch index, and its queue among the queues it reads for the tenant, as long as the indexes
  are within the numbers it reads, whatever commands the servers ran, in whatever order.
\<close>

theorem due_message_found:
  assumes "fair_keys (fo_keys F)" "st = foldl (fair_step F) empty_store cmds"
    and "(m, s) \<in> set (fs_zsets st (kp_queueKey (fo_keys F) q))" "s \<le> fs_now st" "q \<noteq> []" "tenant_of F q \<noteq> []"
    and "length (fs_zsets st (kp_dispatchKey (fo_keys F) (getShardForTenant F (tenant_of F q)))) \<le> fo_masterQueueLimit F"
    and "length (fs_zsets st (kp_tenantQueueIndexKey (fo_keys F) (tenant_of F q))) \<le> n"
  shows "tenant_of F q \<in> set (getTenantsFromDispatch F (getShardForTenant F (tenant_of F q)) st)
    \<and> q \<in> set (getQueuesForTenant F (tenant_of F q) n st)"
proof -
  have ok: "indexes_ok F (fs_zsets st)"
    using indexes.run_inv [of F empty_store cmds] assms(1,2) by (simp add: empty_store_ok)
  with assms(3) obtain s1 where s1: "(q, s1) \<in> set (fs_zsets st (kp_tenantQueueIndexKey (fo_keys F) (tenant_of F q)))" "s1 \<le> s"
    unfolding indexes_ok_def queues_indexed_def by blast
  with ok obtain s0 where "(tenant_of F q, s0) \<in> set (fs_zsets st (kp_dispatchKey (fo_keys F) (getShardForTenant F (tenant_of F q))))" "s0 \<le> s1"
    unfolding indexes_ok_def tenants_dispatched_def by blast
  with s1 assms(4-8) show ?thesis
    by (auto simp: getTenantsFromDispatch_def getQueuesForTenant_def intro!: due_member)
qed

theorem due_message_found_witness:
  "''acme'' \<in> set (getTenantsFromDispatch example_fair 0 (example_enqueued\<lparr>fs_now := 9\<rparr>))
   \<and> ''acme'' \<in> set (getQueuesForTenant example_fair ''acme'' 1 (example_enqueued\<lparr>fs_now := 9\<rparr>))"
proof -
  have st: "example_enqueued\<lparr>fs_now := 9\<rparr>
      = foldl (fair_step example_fair) empty_store [Enqueue ''acme'' ''m1'' 5 (Json example_stored), Tick 9]"
    by (simp add: example_enqueued_def)
  show ?thesis
    using due_message_found [OF example_keys st, of "''m1''" 5 "''acme''" 1] by (simp add: example_enqueued)
qed

text \<open>
  C19. However the servers' commands come, no group ever holds more slots than the largest limit it
  is given, and no slot is held twice.
\<close>

theorem slots_within_limits:
  assumes "limits_below F L"
  shows "getCurrentConcurrency F groupName groupId (foldl (fair_step F) empty_store cmds)
      \<le> L (kp_concurrencyKey (fo_keys F) groupName groupId)
    \<and> distinct (fs_sets (foldl (fair_step F) empty_store cmds) (kp_concurrencyKey (fo_keys F) groupName groupId))"
proof -
  have "slots_ok L (foldl (fair_step F) empty_store cmds)"
    using slots.run_inv [of F L empty_store cmds] assms by (simp add: empty_store_ok)
  then show ?thesis by (simp add: getCurrentConcurrency_def slots_ok_def)
qed

theorem slots_within_limits_witness:
  "getCurrentConcurrency example_fair ''tenant'' ''acme'' (foldl (fair_step example_fair) empty_store
     (map (Reserve \<lparr>qd_id = ''acme'', qd_tenantId = ''acme'', qd_metadata = []\<rparr>) [''m1'', ''m2'', ''m3''])) \<le> 2"
proof -
  have "limits_below example_fair (\<lambda>_. 2)"
    by (simp add: limits_below_def group_limit_def) (simp add: example_fair_def)
  from slots_within_limits [OF this] show ?thesis by blast
qed

text \<open>
  C4. No message is lost: one that is in its queue or in flight is in one of these places after any
  commands of any servers, as long as none of them completes it or names it with another queue.
\<close>

theorem no_message_lost:
  assumes "fair_keys (fo_keys F)" "held F q m st" "only_in F q m st" "list_all (spares q m) cmds"
  shows "held F q m (foldl (fair_step F) st cmds)"
  using keeping.run_inv [OF assms(4), of F st] assms(1-3) by (simp add: kept_def)

theorem no_message_lost_witness:
  "held example_fair ''acme'' ''m1''
     (foldl (fair_step example_fair) example_enqueued [ClaimBatch ''acme'' 100 10, Heartbeat ''m1'' ''acme'' 200, Release ''m1'' ''acme'' 7 None])"
  by (rule no_message_lost [OF example_keys])
    (simp_all add: held_def only_in_def example_enqueued zmembers_def)

text \<open>
  The deficit of a tenant stays between 0 and the maximum.
\<close>

theorem deficits_bounded:
  assumes "0 \<le> fo_quantum F" "0 \<le> fo_maxDeficit F"
  shows "0 \<le> getDeficit F t (foldl (fair_step F) empty_store cmds)
    \<and> getDeficit F t (foldl (fair_step F) empty_store cmds) \<le> fo_maxDeficit F"
proof -
  have "deficits_ok F (foldl (fair_step F) empty_store cmds)"
    using deficits.run_inv [of F empty_store cmds] assms by (simp add: empty_store_ok)
  then show ?thesis by (simp add: deficits_ok_def)
qed

section \<open>Whose turn it is\<close>

text \<open>A tenant that may be served: one that is not full, with a deficit and queues that are due.\<close>

definition not_full :: "'p fair_options \<Rightarrow> 'p fair_store \<Rightarrow> string \<Rightarrow> bool" where
  "not_full F st t = (fo_groups F = [] \<or> fst (isAtCapacity F ''tenant'' t st) = Inr False)"

definition eligible :: "'p fair_options \<Rightarrow> 'p fair_store \<Rightarrow> string \<times> rat \<Rightarrow> bool" where
  "eligible F st x =
     (not_full F st (fst x) \<and> 1 \<le> snd x \<and> getQueuesForTenant F (fst x) (nat \<lceil>snd x\<rceil>) st \<noteq> [])"

lemma isAtCapacity_store: "snd (isAtCapacity F g t st) = st"
  by (auto simp: isAtCapacity_def andThen_def reading_def getConcurrencyLimit_def throw_def ret_def split: option.split)

lemma first_with_queues_eq:
  assumes "first_with_queues F cs st = (Inr r, st')" "\<forall>x \<in> set cs. 1 \<le> snd x"
  shows "st' = st \<and> r = (case find (eligible F st) cs of None \<Rightarrow> []
     | Some (t, d) \<Rightarrow> [(t, getQueuesForTenant F t (nat \<lceil>d\<rceil>) st)])"
  using assms
proof (induction cs)
  case Nil
  then show ?case by (simp add: ret_def)
next
  case (Cons x cs)
  obtain t d where x: "x = (t, d)" by (cases x)
  obtain b where cap: "(if fo_groups F = [] then ret False else isAtCapacity F ''tenant'' t) st = (Inr b, st)"
    using Cons.prems(1) isAtCapacity_store [of F "''tenant''" t st]
    by (cases "(if fo_groups F = [] then ret False else isAtCapacity F ''tenant'' t) st")
      (auto simp: x andThen_def ret_def split: sum.splits if_splits)
  then have full: "not_full F st t \<longleftrightarrow> \<not> b"
    by (auto simp: not_full_def ret_def split: if_splits)
  show ?case
  proof (cases "b \<or> getQueuesForTenant F t (nat \<lceil>d\<rceil>) st = []")
    case True
    with Cons.prems(1) cap have "first_with_queues F cs st = (Inr r, st')"
      by (auto simp: x andThen_def reading_def split: if_splits)
    with Cons True full show ?thesis by (auto simp: x eligible_def)
  next
    case False
    with Cons.prems cap full show ?thesis by (auto simp: x andThen_def reading_def ret_def eligible_def)
  qed
qed

lemma find_sorted:
  assumes "sorted_wrt R xs" "find P xs = Some x" "y \<in> set xs" "P y" "\<And>z. R z z"
  shows "R x y"
  using assms by (induction xs) (auto split: if_splits)

text \<open>What the scheduler reads does not depend on the deficits.\<close>

lemma quantum_values [simp]:
  "fs_values (snd (drrAddQuantum k x y ts st)) = fs_values st" "fs_now (snd (drrAddQuantum k x y ts st)) = fs_now st"
  by (induction ts arbitrary: st) (auto simp: add_quantum_def hIncrByFloat_def Let_def case_prod_beta)

lemma eligible_quantum [simp]:
  "eligible F (snd (drrAddQuantum k x y ts st)) = eligible F st"
  by (rule ext)
    (auto simp: eligible_def not_full_def getQueuesForTenant_def isAtCapacity_def getCurrentConcurrency_def andThen_def
      reading_def getConcurrencyLimit_def throw_def ret_def group_limit_def split: option.split)

text \<open>The candidates with their deficits after this round's quantum, in the order they are tried.\<close>

definition round_candidates :: "'p fair_options \<Rightarrow> 'p fair_store \<Rightarrow> string list \<Rightarrow> (string \<times> rat) list" where
  "round_candidates F st ts = drr_candidates ts (map (\<lambda>t. topped_up F (getDeficit F t st)) ts)"

lemma set_round_candidates:
  "set (round_candidates F st ts) = {(t, topped_up F (getDeficit F t st)) | t. t \<in> set ts \<and> 1 \<le> topped_up F (getDeficit F t st)}"
  by (auto simp: round_candidates_def drr_candidates_def zip_map2 zip_same_conv_map)

lemma round_candidates_sorted: "sorted_wrt (\<lambda>x y. snd y \<le> snd x) (round_candidates F st ts)"
proof -
  have "sorted (map (\<lambda>(_, d). - d) (round_candidates F st ts))"
    by (simp add: round_candidates_def drr_candidates_def)
  then show ?thesis by (simp add: sorted_wrt_map case_prod_beta)
qed

lemma select_eq:
  assumes "selectQueuesFromDispatch F n st = (Inr r, st')" "distinct (getTenantsFromDispatch F n st)"
  shows "r = (case find (eligible F st) (round_candidates F st (getTenantsFromDispatch F n st)) of None \<Rightarrow> []
      | Some (t, d) \<Rightarrow> [(t, getQueuesForTenant F t (nat \<lceil>d\<rceil>) st)])
    \<and> (\<forall>t. getDeficit F t st' = (if t \<in> set (getTenantsFromDispatch F n st) then topped_up F (getDeficit F t st) else getDeficit F t st))"
proof (cases "getTenantsFromDispatch F n st = []")
  case True
  with assms(1) show ?thesis
    by (simp add: selectQueuesFromDispatch_def ret_def round_candidates_def drr_candidates_def)
next
  case False
  let ?ts = "getTenantsFromDispatch F n st"
  let ?q = "drrAddQuantum (drr_key F) (fo_quantum F) (fo_maxDeficit F) ?ts st"
  have q: "fst ?q = map (\<lambda>t. topped_up F (getDeficit F t st)) ?ts"
    "\<And>t. getDeficit F t (snd ?q) = (if t \<in> set ?ts then topped_up F (getDeficit F t st) else getDeficit F t st)"
    using drrAddQuantum_eq [OF assms(2)] by blast+
  from assms(1) False have "first_with_queues F (round_candidates F st ?ts) (snd ?q) = (Inr r, st')"
    by (simp add: selectQueuesFromDispatch_def addQuantumToTenants_def andThen_def script_def reading_def round_candidates_def q(1))
  from first_with_queues_eq [OF this] q(2) show ?thesis
    by (auto simp: set_round_candidates getQueuesForTenant_def split: option.split)
qed

text \<open>
  A round serves the tenant whose turn it is: the tenant picked is not full, is given its queues
  that are due, oldest first and no more than its deficit, and no other tenant that could be served
  has a higher deficit; nobody is picked only if nobody can be served. Every tenant of the
  dispatch index got its quantum, up to the maximum.
\<close>

theorem highest_deficit_first:
  assumes "selectQueuesFromDispatch F n st = (Inr r, st')" "distinct (getTenantsFromDispatch F n st)"
  defines "deficit \<equiv> \<lambda>t. topped_up F (getDeficit F t st)"
  shows "(case r of
      [] \<Rightarrow> \<forall>t \<in> set (getTenantsFromDispatch F n st). \<not> eligible F st (t, deficit t)
    | (t, qs) # rest \<Rightarrow> rest = [] \<and> t \<in> set (getTenantsFromDispatch F n st) \<and> eligible F st (t, deficit t)
        \<and> qs = getQueuesForTenant F t (nat \<lceil>deficit t\<rceil>) st
        \<and> (\<forall>u \<in> set (getTenantsFromDispatch F n st). eligible F st (u, deficit u) \<longrightarrow> deficit u \<le> deficit t))
    \<and> (\<forall>t. getDeficit F t st' = (if t \<in> set (getTenantsFromDispatch F n st) then deficit t else getDeficit F t st))"
proof -
  let ?ts = "getTenantsFromDispatch F n st"
  let ?cs = "round_candidates F st ?ts"
  note select = select_eq [OF assms(1,2)]
  have in_cs: "eligible F st (u, deficit u) \<Longrightarrow> u \<in> set ?ts \<Longrightarrow> (u, deficit u) \<in> set ?cs" for u
    by (auto simp: set_round_candidates deficit_def eligible_def)
  show ?thesis
  proof (cases "find (eligible F st) ?cs")
    case None
    with select in_cs show ?thesis by (auto simp: find_None_iff deficit_def)
  next
    case (Some x)
    then have x: "x \<in> set ?cs" "eligible F st x" by (auto simp: find_Some_iff)
    then obtain t where t: "x = (t, deficit t)" "t \<in> set ?ts" by (auto simp: set_round_candidates deficit_def)
    have "deficit u \<le> deficit t" if "u \<in> set ?ts" "eligible F st (u, deficit u)" for u
      using find_sorted [OF round_candidates_sorted Some in_cs [OF that(2,1)] that(2)] t by simp
    with select Some t x show ?thesis by (auto simp: deficit_def)
  qed
qed

lemma example_capacity:
  "isAtCapacity example_fair ''tenant'' t st = (Inr (2 \<le> length (fs_sets st (kp_concurrencyKey (fo_keys example_fair) ''tenant'' t))), st)"
  "fo_groups example_fair \<noteq> []"
  by (simp_all add: isAtCapacity_def andThen_def reading_def getCurrentConcurrency_def getConcurrencyLimit_def ret_def group_limit_def)
    (simp_all add: example_fair_def ret_def group_limit_def reading_def)

lemma example_selected:
  "fst (selectQueuesFromDispatch example_fair 0 (example_enqueued\<lparr>fs_now := 9\<rparr>)) = Inr [(''acme'', [''acme''])]"
  by (simp add: selectQueuesFromDispatch_def andThen_def reading_def getTenantsFromDispatch_def due_members_def zrangebyscore_def
      example_enqueued addQuantumToTenants_def script_def add_quantum_def hIncrByFloat_def Let_def case_prod_beta drr_candidates_def
      example_capacity ret_def getQueuesForTenant_def hNumber_def or_default_def)

theorem highest_deficit_first_witness:
  "eligible example_fair (example_enqueued\<lparr>fs_now := 9\<rparr>) (''acme'', topped_up example_fair 0)"
proof -
  let ?st = "example_enqueued\<lparr>fs_now := 9\<rparr>"
  have tenants: "getTenantsFromDispatch example_fair 0 ?st = [''acme'']"
    by (simp add: getTenantsFromDispatch_def due_members_def zrangebyscore_def example_enqueued)
  have "selectQueuesFromDispatch example_fair 0 ?st
      = (Inr [(''acme'', [''acme''])], snd (selectQueuesFromDispatch example_fair 0 ?st))"
    using example_selected by (simp add: prod_eq_iff)
  from highest_deficit_first [OF this] show ?thesis by (simp add: tenants getDeficit_def example_enqueued or_default_def)
qed

text \<open>Where the deficits are all at the maximum, the sort leaves the order of the dispatch index.\<close>

lemma round_candidates_at_cap:
  assumes "\<forall>u \<in> set ts. topped_up F (getDeficit F u st) = M"
  shows "round_candidates F st ts = (if 1 \<le> M then map (\<lambda>u. (u, M)) ts else [])"
proof -
  have "zip ts (map (\<lambda>t. topped_up F (getDeficit F t st)) ts) = map (\<lambda>u. (u, M)) ts"
    using assms by (simp add: zip_map2 zip_same_conv_map)
  moreover have "sort_key (\<lambda>(_, d). - d) (map (\<lambda>u. (u, M)) ts) = map (\<lambda>u. (u, M)) ts"
    by (rule sort_key_id_if_sorted) (simp add: sorted_wrt_map comp_def)
  ultimately show ?thesis
    unfolding round_candidates_def drr_candidates_def by (simp add: filter_map comp_def)
qed

lemma find_map: "find P (map f xs) = map_option f (find (P \<circ> f) xs)"
  by (induction xs) auto

text \<open>
  Once every tenant of the dispatch index has the maximal deficit, a round serves the first of
  them that can be served in the order of their oldest messages, and as long as it processes no more
  messages than a quantum, the next round finds the same: the rounds go by age alone, and a tenant
  is not served while an older one has anything to do.
\<close>

theorem rounds_at_cap_go_by_age:
  assumes "selectQueuesFromDispatch F n st = (Inr [(t, qs)], st')" "distinct (getTenantsFromDispatch F n st)"
    and "\<forall>u \<in> set (getTenantsFromDispatch F n st). topped_up F (getDeficit F u st) = fo_maxDeficit F"
    and "rat_of_nat k \<le> fo_quantum F"
  shows "find (\<lambda>u. eligible F st (u, fo_maxDeficit F)) (getTenantsFromDispatch F n st) = Some t
    \<and> (\<forall>u \<in> set (getTenantsFromDispatch F n st).
        topped_up F (getDeficit F u (snd (recordProcessedBatch F t k st'))) = fo_maxDeficit F)"
proof -
  let ?M = "fo_maxDeficit F" and ?ts = "getTenantsFromDispatch F n st"
  note select = select_eq [OF assms(1,2)]
  note cs = round_candidates_at_cap [OF assms(3)]
  have "1 \<le> ?M" using select cs by (cases "1 \<le> ?M") auto
  with select cs have "find (\<lambda>u. eligible F st (u, ?M)) ?ts = Some t"
    by (auto simp: find_map comp_def split: option.splits)
  moreover have "topped_up F (getDeficit F u (snd (recordProcessedBatch F t k st'))) = ?M" if "u \<in> set ?ts" for u
  proof -
    have "getDeficit F u st' = ?M" using select that assms(3) by simp
    moreover have "0 \<le> fo_quantum F" using assms(4) of_nat_0_le_iff [of k] by (rule order_trans [rotated])
    ultimately show ?thesis
      using \<open>1 \<le> ?M\<close> assms(4)
      by (auto simp: recordProcessedBatch_def modify_def decrement_eq topped_up_def max_def)
  qed
  ultimately show ?thesis by blast
qed

section \<open>Slots after a reconciliation\<close>

lemma concat_chunks: "0 < n \<Longrightarrow> concat (chunks n xs) = xs"
  by (induction n xs rule: chunks.induct) (subst chunks.simps, auto)

definition in_flight_somewhere :: "string list \<Rightarrow> 'p fair_store \<Rightarrow> string \<Rightarrow> bool" where
  "in_flight_somewhere ds st m = list_ex (\<lambda>d. fs_data st d m \<noteq> None) ds"

lemma sweep_chunks_eq:
  "fs_data (snd (sweep_chunks key ds cs st)) = fs_data st
   \<and> fs_zsets (snd (sweep_chunks key ds cs st)) = fs_zsets st
   \<and> fs_sets (snd (sweep_chunks key ds cs st)) k
     = (if k = key then filter (\<lambda>m. m \<in> set (concat cs) \<longrightarrow> in_flight_somewhere ds st m) (fs_sets st k) else fs_sets st k)"
proof (induction cs arbitrary: st)
  case (Cons c cs)
  have "in_flight_somewhere ds (snd (removeOrphanedConcurrencySlots key ds c st)) = in_flight_somewhere ds st"
    by (rule ext) (simp add: in_flight_somewhere_def)
  with Cons show ?case
    by (auto simp: case_prod_beta swept_sets in_flight_somewhere_def intro!: filter_cong)
qed simp

lemma sweep_page_eq:
  fixes st st' :: "'p fair_store"
  assumes st': "st' = snd (sweep_chunks key ds (chunks SWEEP_MEMBER_CHUNK_SIZE (fs_sets st key)) st)"
  shows "fs_data st' = fs_data st" "fs_zsets st' = fs_zsets st" "in_flight_somewhere ds st' = in_flight_somewhere ds st"
    "fs_sets st' k = (if k = key then filter (in_flight_somewhere ds st) (fs_sets st k) else fs_sets st k)"
proof -
  have "set (concat (chunks SWEEP_MEMBER_CHUNK_SIZE (fs_sets st key))) = set (fs_sets st key)"
    by (simp only: concat_chunks SWEEP_MEMBER_CHUNK_SIZE_def)
  then show "fs_sets st' k = (if k = key then filter (in_flight_somewhere ds st) (fs_sets st k) else fs_sets st k)"
    unfolding st' by (simp only: sweep_chunks_eq) (auto intro!: filter_cong)
  show "fs_data st' = fs_data st" "fs_zsets st' = fs_zsets st" by (simp_all add: st' sweep_chunks_eq)
  then show "in_flight_somewhere ds st' = in_flight_somewhere ds st"
    by (intro ext) (simp add: in_flight_somewhere_def)
qed

lemma sweep_keys_eq:
  "fs_data (snd (sweep_keys ds ks st)) = fs_data st \<and> fs_zsets (snd (sweep_keys ds ks st)) = fs_zsets st
   \<and> fs_sets (snd (sweep_keys ds ks st)) k
     = (if k \<in> set ks then filter (in_flight_somewhere ds st) (fs_sets st k) else fs_sets st k)"
  by (induction ks arbitrary: st) (simp_all add: case_prod_beta sweep_page_eq [OF refl])

text \<open>
  Reconciling frees exactly the slots of messages that are not in flight: in the sets it finds it
  keeps the messages whose data is in flight on some shard, it touches no other set, and no message.
\<close>

theorem reconcile_frees_orphans:
  assumes "fo_groups F \<noteq> []" "1 \<le> fo_shardCount F"
  shows "fs_sets (snd (reconcileConcurrency F found st)) k
      = (if k \<in> set found
         then filter (\<lambda>m. \<exists>n < fo_shardCount F. fs_data st (kp_inflightDataKey (fo_keys F) n) m \<noteq> None) (fs_sets st k)
         else fs_sets st k)
    \<and> fs_data (snd (reconcileConcurrency F found st)) = fs_data st
    \<and> fs_zsets (snd (reconcileConcurrency F found st)) = fs_zsets st"
proof -
  let ?ds = "map (kp_inflightDataKey (fo_keys F)) [0..<fo_shardCount F]"
  have "in_flight_somewhere ?ds st = (\<lambda>m. \<exists>n < fo_shardCount F. fs_data st (kp_inflightDataKey (fo_keys F) n) m \<noteq> None)"
    by (rule ext) (auto simp: in_flight_somewhere_def list_ex_iff)
  with assms sweep_keys_eq [of ?ds found st k] show ?thesis
    by (simp add: reconcileConcurrency_def sweepOrphanedSlots_def script_def)
qed

end
