(* ===== verification/FairLifecycle.thy ===== *)
theory FairLifecycle
  imports FairOutcomes
begin

text \<open>
  The life of a message of the fair queue, operation by operation: how many messages a claim may
  push to a worker queue, and what completing, failing and recovering a message in flight leave.
\<close>

section \<open>Claims stay within the worker queue\<close>

lemma reserve_lists [simp]:
  "fs_lists (snd (reserveConcurrency gs m st)) = fs_lists st"
proof -
  have "fs_lists (fold (\<lambda>(key, limit). sAdd key m) gs st) = fs_lists st" for st :: "'a fair_store"
    by (induction gs arbitrary: st) auto
  then show ?thesis by (simp add: reserveConcurrency_def)
qed

lemma put_lists [simp]:
  "fs_lists (put_message queue items x st) = fs_lists st"
  "fs_lists (update_oldest queue tenants dispatch q t st) = fs_lists st"
  by (cases x, simp add: put_message_def) (auto simp: update_oldest_def Let_def split: option.split)

lemma put_back_lists [simp]:
  "fs_lists (snd (put_back inflight inflightData queue items s upd x st)) = fs_lists st"
  "fs_lists (snd (put_back_all inflight inflightData queue items s xs st)) = fs_lists st"
proof -
  show *: "fs_lists (snd (put_back inflight inflightData queue items s upd x st)) = fs_lists st" for upd x and st :: "'a fair_store"
    by (auto simp: put_back_def split: prod.split option.split)
  show "fs_lists (snd (put_back_all inflight inflightData queue items s xs st)) = fs_lists st"
    by (induction xs arbitrary: st) (auto simp: * case_prod_beta)
qed

lemma releaseBatch_lists: "fs_lists (snd (releaseBatch F ms q t s st)) = fs_lists st"
  by (auto simp: releaseBatch_def andThen_def get_now_def reading_def modify_def ret_def releaseMessageBatch_def Let_def case_prod_beta)

lemma push_claimed_lists:
  assumes "\<forall>m. fo_workerQueueResolver F m = w"
  shows "length (fs_lists (snd (push_claimed F q t d ms n st)) (kp_workerQueueKey (fo_keys F) w))
    \<le> length (fs_lists st (kp_workerQueueKey (fo_keys F) w)) + length ms"
proof (induction ms arbitrary: n st)
  case (Cons m ms)
  obtain b st1 where r: "(if fo_groups F = [] then ret True else reserve F d (if_messageId m)) st = (Inr b, st1)"
    "fs_lists st1 = fs_lists st"
    by (cases "fo_groups F = []") (auto simp: ret_def reserve_def script_def)
  show ?case
  proof (cases b)
    case False
    obtain r2 st2 where "releaseBatch F (if_messageId m # map if_messageId ms) q t None st1 = (r2, st2)" "fs_lists st2 = fs_lists st1"
      using releaseBatch_lists [of F "if_messageId m # map if_messageId ms" q t None st1] by (metis prod.collapse)
    with False r show ?thesis
      by (cases r2) (simp_all add: andThen_def andDo_def ret_def)
  next
    case True
    let ?st = "snd (push_worker F w (if_messageId m @ '':'' @ q) st1)"
    have "length (fs_lists ?st (kp_workerQueueKey (fo_keys F) w)) = length (fs_lists st (kp_workerQueueKey (fo_keys F) w)) + 1"
      by (simp add: push_worker_def modify_def r(2))
    with Cons.IH [of "n + 1" ?st] True r assms show ?thesis
      by (simp add: andThen_def andDo_def push_worker_def modify_def)
  qed
qed (simp add: ret_def)

lemma length_claim_each:
  "length (fst (claim_each queue items inflight inflightData q deadline ids st)) \<le> length ids"
proof (induction ids arbitrary: st)
  case (Cons m ids)
  then show ?case by (auto simp: case_prod_beta le_SucI split: option.split)
qed simp

lemma claim_each_lists [simp]:
  "fs_lists (snd (claim_each queue items inflight inflightData q deadline ids st)) = fs_lists st"
proof -
  have "fs_lists (claim_one queue items inflight inflightData q deadline m st) = fs_lists st" for m and st :: "'a fair_store"
    by (simp add: claim_one_def take_in_flight_def split: option.split)
  then show ?thesis unfolding snd_claim_each by (induction ids arbitrary: st) auto
qed

lemma parse_claimed_length:
  "parse_claimed F q deadline c xs st = (r, st') \<Longrightarrow>
   (\<forall>ms. r = Inr ms \<longrightarrow> length ms \<le> length xs) \<and> fs_lists st' = fs_lists st"
proof (induction xs arbitrary: st r st')
  case (Cons x xs)
  obtain m p where x: "x = (m, p)" by (cases x)
  show ?case
  proof (cases "m = []")
    case True
    with Cons.prems have "parse_claimed F q deadline c xs st = (r, st')" by (simp add: x)
    with Cons.IH show ?thesis by fastforce
  next
    case False
    show ?thesis
    proof (cases p)
      case (Json y)
      obtain r1 st1 where r1: "parse_claimed F q deadline c xs st = (r1, st1)" by (cases "parse_claimed F q deadline c xs st")
      with Cons.prems False Json Cons.IH [OF r1] show ?thesis
        by (auto simp: x andThen_def ret_def split: sum.splits)
    next
      case Corrupt
      let ?st = "snd (remove_in_flight F m q st)"
      have "fs_lists ?st = fs_lists st" by (simp add: remove_in_flight_def modify_def removeFromInflight_def)
      moreover from Cons.prems False Corrupt have "parse_claimed F q deadline c xs ?st = (r, st')"
        by (simp add: x andDo_def andThen_def remove_in_flight_def modify_def)
      ultimately show ?thesis using Cons.IH by fastforce
    qed
  qed
qed (simp add: ret_def)

lemma claimBatch_length:
  assumes "claimBatch F q c n timeoutMs st = (r, st')" "0 < n"
  shows "(\<forall>ms. r = Inr ms \<longrightarrow> length ms \<le> n) \<and> fs_lists st' = fs_lists st"
proof -
  let ?claim = "claimMessageBatch (kp_queueKey (fo_keys F) q) (kp_queueItemsKey (fo_keys F) q)
      (kp_inflightKey (fo_keys F) (visibility_shard F q)) (kp_inflightDataKey (fo_keys F) (visibility_shard F q)) q
      (fs_now st + or_default timeoutMs (fo_visibilityTimeoutMs F)) n st"
  have "length (fst ?claim) \<le> n"
    using assms(2) length_claim_each [of _ _ _ _ q _ "zrange_first n (fs_zsets st (kp_queueKey (fo_keys F) q))" st]
    by (simp add: claimMessageBatch_def zrange_first_def)
  moreover from assms(1) have "parse_claimed F q (fs_now st + or_default timeoutMs (fo_visibilityTimeoutMs F)) c (fst ?claim) (snd ?claim) = (r, st')"
    by (simp add: claimBatch_def andThen_def get_now_def reading_def Let_def script_def)
  from parse_claimed_length [OF this] have "(\<forall>ms. r = Inr ms \<longrightarrow> length ms \<le> length (fst ?claim)) \<and> fs_lists st' = fs_lists st"
    by (simp add: claimMessageBatch_def)
  ultimately show ?thesis by auto
qed

text \<open>
  A claim keeps to the depth of the worker queue: where the depth is capped, it is at most its
  cap afterwards, or what it was before where it was already above.
\<close>

theorem worker_queue_capped:
  assumes "fo_workerQueueDepthCheckId F = Some w" "w \<noteq> []" "0 < fo_workerQueueMaxDepth F" "0 < fo_batchClaimSize F"
    and "\<forall>m. fo_workerQueueResolver F m = w"
  shows "worker_length F w (snd (claimAndPushToWorkerQueue F loopId q t st))
    \<le> max (fo_workerQueueMaxDepth F) (worker_length F w st)"
proof -
  let ?d = "case fs_cache st q of Some d \<Rightarrow> d | None \<Rightarrow> \<lparr>qd_id = q, qd_tenantId = t, qd_metadata = []\<rparr>"
  show ?thesis
  proof (cases "claim_count F ?d st")
    case None
    then show ?thesis by (simp add: claimAndPushToWorkerQueue_def andThen_def reading_def ret_def)
  next
    case (Some n)
    have cap: "0 < n" "worker_length F w st < fo_workerQueueMaxDepth F" "n \<le> fo_workerQueueMaxDepth F - worker_length F w st"
      using Some assms(1-4) by (auto simp: claim_count_def Let_def split: if_splits)
    obtain r st1 where c: "claimBatch F q loopId n (Some (fo_visibilityTimeoutMs F)) st = (r, st1)"
      by (cases "claimBatch F q loopId n (Some (fo_visibilityTimeoutMs F)) st")
    note claimed = claimBatch_length [OF c cap(1)]
    show ?thesis
    proof (cases r)
      case (Inl e)
      with Some c claimed show ?thesis
        by (simp add: claimAndPushToWorkerQueue_def andThen_def reading_def worker_length_def)
    next
      case (Inr ms)
      show ?thesis
      proof (cases "ms = []")
        case True
        with Some c claimed Inr show ?thesis
          by (auto simp: claimAndPushToWorkerQueue_def andThen_def andDo_def reading_def worker_length_def updateAllIndexesAfterDequeue_def
            script_def forget_queue_def modify_def ret_def Let_def updateMasterQueueIfEmpty_def updateDispatchIndexes_def split: option.split)
      next
        case False
        have "length ms \<le> n" using claimed Inr by blast
        with False Some c claimed Inr push_claimed_lists [OF assms(5), of q t ?d ms 0 st1] cap show ?thesis
          by (simp add: claimAndPushToWorkerQueue_def andThen_def reading_def worker_length_def)
      qed
    qed
  qed
qed

section \<open>Failures and recovery\<close>

lemma oldest_data [simp]:
  "fs_data (update_oldest queue tenants dispatch q t st) = fs_data st"
  "fs_dead (update_oldest queue tenants dispatch q t st) = fs_dead st"
  by (auto simp: update_oldest_def Let_def split: option.split)

lemma oldest_other_zsets:
  "k \<noteq> tenants \<Longrightarrow> k \<noteq> dispatch \<Longrightarrow> fs_zsets (update_oldest queue tenants dispatch q t st) k = fs_zsets st k"
  by (auto simp: update_oldest_def Let_def split: option.split)

text \<open>A message back in its queue, due at \<open>s\<close>, and in flight no longer.\<close>

definition waits_again :: "'p fair_options \<Rightarrow> nat \<Rightarrow> string \<Rightarrow> string \<Rightarrow> int \<Rightarrow> 'p stored_json \<Rightarrow> 'p fair_store \<Rightarrow> bool" where
  "waits_again F n q m s p st =
     ((m, s) \<in> set (fs_zsets st (kp_queueKey (fo_keys F) q)) \<and> fs_data st (kp_queueItemsKey (fo_keys F) q) m = Some p
      \<and> fs_data st (kp_inflightDataKey (fo_keys F) n) m = None
      \<and> makeMember m q \<notin> zmembers (fs_zsets st (kp_inflightKey (fo_keys F) n)))"

lemma release_waits:
  assumes "fair_keys (fo_keys F)" "fs_data st (kp_inflightDataKey (fo_keys F) n) m = Some p"
  shows "waits_again F n q m s (or_default upd p) (release_script F n (makeMember m q) m q t s upd st)"
  using assms(2)
  by (auto simp: waits_again_def release_script_def releaseMessage_def put_back_def put_message_def Let_def
      oldest_other_zsets fair_keys.distinct_keys [OF assms(1)] set_zadd set_zrem)

lemma release_sets [simp]: "fs_sets (release_script F n member m q t s upd st) = fs_sets st"
  by (auto simp: release_script_def releaseMessage_def Let_def split: prod.split bool.split dest: arg_cong [of _ _ "\<lambda>x. fs_sets (snd x)"])

lemma release_other:
  assumes "fair_keys (fo_keys F)" "m' \<noteq> m"
  shows "waits_again F n q m s p st \<Longrightarrow> waits_again F n q m s p (release_script F n member m' q' t s' upd st)"
    and "fs_data (release_script F n member m' q' t s' upd st) (kp_inflightDataKey (fo_keys F) n) m
      = fs_data st (kp_inflightDataKey (fo_keys F) n) m"
  using assms(2)
  by (auto simp: waits_again_def release_script_def releaseMessage_def put_back_def put_message_def Let_def
      oldest_other_zsets fair_keys.distinct_keys [OF assms(1)] set_zadd set_zrem split: option.split)

text \<open>Putting it back a second time changes nothing of it.\<close>

lemma release_again:
  assumes "fair_keys (fo_keys F)" "waits_again F n q m s p st"
  shows "waits_again F n q m s p (release_script F n (makeMember m q) m q t s' upd st)"
  using assms(2)
  by (auto simp: waits_again_def release_script_def releaseMessage_def put_back_def Let_def
      fair_keys.distinct_keys [OF assms(1)] set_zrem)

definition slots_freed :: "'p fair_options \<Rightarrow> descriptor \<Rightarrow> string \<Rightarrow> 'p fair_store \<Rightarrow> bool" where
  "slots_freed F d m st = (\<forall>g \<in> set (fo_groups F). m \<notin> set (fs_sets st (group_key F d g)))"

lemma freed_slots: "fs_sets st' = fs_sets (releaseConcurrency (map (group_key F d) (fo_groups F)) m st) \<Longrightarrow> slots_freed F d m st'"
  by (auto simp: slots_freed_def freed_sets srem_def)

lemma freed_rest [simp]:
  "fs_data (releaseConcurrency ks m st) = fs_data st" "fs_zsets (releaseConcurrency ks m st) = fs_zsets st"
  "fs_dead (releaseConcurrency ks m st) = fs_dead st" "fs_now (releaseConcurrency ks m st) = fs_now st"
  "fs_values (releaseConcurrency ks m st) = fs_values st" "fs_cache (releaseConcurrency ks m st) = fs_cache st"
  by (induction ks arbitrary: st) (auto simp: releaseConcurrency_def)

lemma failMessage_retries:
  assumes "fair_keys (fo_keys F)" "1 \<le> fo_shardCount F" "inflight_data F m q st = Some (Json x)" "sm_id x = m"
    and "next_delay rnd F (sm_attempt x) = Some delay"
  shows "\<exists>st'. failMessage rnd F m q e st = (Inr (), st')
    \<and> waits_again F (getShardForQueue F q) q m (fs_now st + delay) (Json (x\<lparr>sm_attempt := sm_attempt x + 1\<rparr>)) st'
    \<and> slots_freed F (descriptor_of F q (Some x) st) m st'"
proof -
  let ?d = "descriptor_of F q (Some x) st" and ?x = "x\<lparr>sm_attempt := sm_attempt x + 1\<rparr>"
  let ?st = "releaseConcurrency (map (group_key F ?d) (fo_groups F)) m st"
  let ?st' = "release_script F (getShardForQueue F q) (makeMember m q) m q (qd_tenantId ?d) (fs_now st + delay) (Some (Json ?x)) ?st"
  have "failMessage rnd F m q e st = (Inr (), ?st')"
    using assms(2-5)
    by (simp add: failMessage_def handleMessageFailure_def andThen_def andDo_def reading_def release_slots_def modify_def
        get_now_def release_def)
  moreover have "waits_again F (getShardForQueue F q) q m (fs_now st + delay) (Json ?x) ?st'"
    using release_waits [OF assms(1), of ?st "getShardForQueue F q" m "Json x" q _ "Some (Json ?x)"] assms(3)
    by (simp add: inflight_data_def)
  moreover have "slots_freed F ?d m ?st'" by (rule freed_slots) simp
  ultimately show ?thesis by blast
qed

text \<open>A message among the dead letters of its tenant: in their set since \<open>now\<close>, and with its error in their data.\<close>

definition dead_lettered :: "'p fair_options \<Rightarrow> 'p stored_message \<Rightarrow> int \<Rightarrow> string option \<Rightarrow> 'p fair_store \<Rightarrow> bool" where
  "dead_lettered F x now e st =
     (zscore (sm_id x) (fs_zsets st (kp_deadLetterQueueKey (fo_keys F) (sm_tenantId x))) = Some now
      \<and> fs_dead st (kp_deadLetterQueueDataKey (fo_keys F) (sm_tenantId x)) (sm_id x) = Some (dead x e now))"

lemma failMessage_buries:
  assumes "fair_keys (fo_keys F)" "1 \<le> fo_shardCount F" "inflight_data F m q st = Some (Json x)" "sm_id x = m" "sm_queueId x = q"
    and "next_delay rnd F (sm_attempt x) = None"
  shows "\<exists>st'. failMessage rnd F m q e st = (Inr (), st')
    \<and> inflight_data F m q st' = None \<and> makeMember m q \<notin> zmembers (fs_zsets st' (kp_inflightKey (fo_keys F) (getShardForQueue F q)))
    \<and> fs_zsets st' (kp_queueKey (fo_keys F) q) = fs_zsets st (kp_queueKey (fo_keys F) q)
    \<and> slots_freed F (descriptor_of F q (Some x) st) m st'
    \<and> (fo_deadLetterQueueEnabled F \<longrightarrow> dead_lettered F x (fs_now st) e st')"
proof -
  let ?d = "descriptor_of F q (Some x) st"
  let ?st = "releaseConcurrency (map (group_key F ?d) (fo_groups F)) m st"
  let ?gone = "removeFromInflight (kp_inflightKey (fo_keys F) (getShardForQueue F q)) (kp_inflightDataKey (fo_keys F) (getShardForQueue F q)) m q ?st"
  let ?st' = "if fo_deadLetterQueueEnabled F then put_dead F (dead x e (fs_now st)) ?gone else ?gone"
  have "failMessage rnd F m q e st = (Inr (), ?st')"
    using assms(2-6)
    by (simp add: failMessage_def handleMessageFailure_def andThen_def andDo_def reading_def release_slots_def modify_def
        get_now_def moveToDeadLetterQueue_def complete_def remove_in_flight_def)
  moreover have "slots_freed F ?d m ?st'"
    by (rule freed_slots) (simp add: put_dead_def removeFromInflight_def Let_def)
  moreover have "inflight_data F m q ?st' = None"
    by (simp add: inflight_data_def put_dead_def removeFromInflight_def Let_def)
  moreover have "makeMember m q \<notin> zmembers (fs_zsets ?st' (kp_inflightKey (fo_keys F) (getShardForQueue F q)))"
    "fs_zsets ?st' (kp_queueKey (fo_keys F) q) = fs_zsets st (kp_queueKey (fo_keys F) q)"
    by (auto simp: put_dead_def removeFromInflight_def Let_def fair_keys.distinct_keys [OF assms(1)] set_zrem)
  moreover have "dead_lettered F x (fs_now st) e ?st'" if "fo_deadLetterQueueEnabled F"
    using that by (simp add: dead_lettered_def put_dead_def dead_def Let_def)
  ultimately show ?thesis by blast
qed

text \<open>
  C29. A message that failed is in flight no longer, neither in the set of its shard nor with data, and holds no
  slot. It waits in its queue again, one attempt later and due after the delay of the retry
  strategy, or, where the strategy gives up, it is put into no queue and, where dead letters are kept, is in the
  set of the dead letters of its tenant, since now, with the error in their data.
\<close>

theorem failed_message_retried_or_buried:
  assumes "fair_keys (fo_keys F)" "1 \<le> fo_shardCount F" "inflight_data F m q st = Some (Json x)" "sm_id x = m" "sm_queueId x = q"
    and "failMessage rnd F m q e st = (r, st')"
  shows "r = Inr ()
    \<and> inflight_data F m q st' = None \<and> slots_freed F (descriptor_of F q (Some x) st) m st'
    \<and> makeMember m q \<notin> zmembers (fs_zsets st' (kp_inflightKey (fo_keys F) (getShardForQueue F q)))
    \<and> (case next_delay rnd F (sm_attempt x) of
         Some delay \<Rightarrow> waits_again F (getShardForQueue F q) q m (fs_now st + delay) (Json (x\<lparr>sm_attempt := sm_attempt x + 1\<rparr>)) st'
       | None \<Rightarrow> fs_zsets st' (kp_queueKey (fo_keys F) q) = fs_zsets st (kp_queueKey (fo_keys F) q)
           \<and> (fo_deadLetterQueueEnabled F \<longrightarrow> dead_lettered F x (fs_now st) e st'))"
proof (cases "next_delay rnd F (sm_attempt x)")
  case (Some delay)
  from failMessage_retries [OF assms(1-4) Some, of e] Some assms(6) show ?thesis
    by (auto simp: waits_again_def inflight_data_def)
next
  case None
  from failMessage_buries [OF assms(1-5) None, of e] None assms(6) show ?thesis by auto
qed

definition example_in_flight :: "nat fair_store" where
  "example_in_flight = fair_step example_fair example_enqueued (Claim ''acme'' 100)"

lemma example_in_flight:
  "fs_data example_in_flight (kp_inflightDataKey (fo_keys example_fair) 0) ''m1'' = Some (Json example_stored)"
  "fs_zsets example_in_flight (kp_inflightKey (fo_keys example_fair) 0) = [(makeMember ''m1'' ''acme'', 100)]"
  "fs_now example_in_flight = 0"
  by (simp_all add: example_in_flight_def claimMessage_def take_in_flight_def example_enqueued example_distinct zadd_def zrem_def)

lemma example_delay: "next_delay rnd example_fair 1 = Some 100"
  by (simp add: next_delay_def example_fair_def getNextDelay_def)

lemma example_stored [simp]:
  "sm_id example_stored = ''m1''" "sm_queueId example_stored = ''acme''" "sm_attempt example_stored = 1" "sm_timestamp example_stored = 5"
  by (simp_all add: example_stored_def)

theorem failed_message_retried_or_buried_witness:
  "waits_again example_fair 0 ''acme'' ''m1'' 100 (Json (example_stored\<lparr>sm_attempt := 2\<rparr>))
     (snd (failMessage 0 example_fair ''m1'' ''acme'' None example_in_flight))"
proof -
  have "inflight_data example_fair ''m1'' ''acme'' example_in_flight = Some (Json example_stored)"
    by (simp add: inflight_data_def example_in_flight)
  from failed_message_retried_or_buried [OF example_keys _ this _ _ prod.collapse [symmetric], of 0 None]
  show ?thesis by (simp add: example_delay example_in_flight)
qed

text \<open>The recovery of one shard, candidate by candidate.\<close>

lemma requeue_eq:
  "requeue F n now c st = (Inr (), release_script F n (rd_member c) (rc_messageId (rd_info c)) (rc_queueId (rd_info c))
     (tenant_of F (rc_queueId (rd_info c))) (case rd_stored c of Some x \<Rightarrow> sm_timestamp x | None \<Rightarrow> now) None st)"
  by (simp add: requeue_def modify_def)

definition requeue_all :: "'p fair_options \<Rightarrow> nat \<Rightarrow> int \<Rightarrow> 'p reclaim_candidate list \<Rightarrow> 'p fair_store \<Rightarrow> 'p fair_store" where
  "requeue_all F n now cs st = fold (\<lambda>c st. snd (requeue F n now c st)) cs st"

lemma forEach_requeue: "forEach cs (requeue F n now) st = (Inr (), requeue_all F n now cs st)"
  by (induction cs arbitrary: st) (auto simp: requeue_all_def andDo_def andThen_def ret_def requeue_eq)

lemma release_reclaimed_eq:
  "\<exists>st'. release_reclaimed F ms st = (Inr (), st') \<and> fs_data st' = fs_data st \<and> fs_zsets st' = fs_zsets st \<and> fs_now st' = fs_now st
     \<and> (\<forall>k. set (fs_sets st' k) \<subseteq> set (fs_sets st k))
     \<and> (\<forall>x \<in> set ms. slots_freed F \<lparr>qd_id = rc_queueId x, qd_tenantId = rc_tenantId x, qd_metadata = rc_metadata x\<rparr> (rc_messageId x) st')"
proof (induction ms arbitrary: st)
  case Nil
  then show ?case by (simp add: release_reclaimed_def ret_def)
next
  case (Cons x ms)
  let ?d = "\<lparr>qd_id = rc_queueId x, qd_tenantId = rc_tenantId x, qd_metadata = rc_metadata x\<rparr>"
  let ?st = "releaseConcurrency (map (group_key F ?d) (fo_groups F)) (rc_messageId x) st"
  obtain st' where st': "release_reclaimed F ms ?st = (Inr (), st')" "fs_data st' = fs_data ?st" "fs_zsets st' = fs_zsets ?st"
    "fs_now st' = fs_now ?st" "\<forall>k. set (fs_sets st' k) \<subseteq> set (fs_sets ?st k)"
    "\<forall>x \<in> set ms. slots_freed F \<lparr>qd_id = rc_queueId x, qd_tenantId = rc_tenantId x, qd_metadata = rc_metadata x\<rparr> (rc_messageId x) st'"
    using Cons.IH [of ?st] by blast
  have "slots_freed F ?d (rc_messageId x) ?st" by (rule freed_slots) simp
  with st'(5) have "slots_freed F ?d (rc_messageId x) st'" unfolding slots_freed_def by blast
  moreover have "set (fs_sets ?st k) \<subseteq> set (fs_sets st k)" for k by (auto simp: freed_sets srem_def)
  moreover from st'(1) have "release_reclaimed F (x # ms) st = (Inr (), st')"
    by (simp add: release_reclaimed_def andDo_def andThen_def release_slots_def modify_def)
  ultimately show ?case using st' by auto
qed

text \<open>A message that is due is put back when its candidate comes, and stays.\<close>

lemma requeue_waits:
  fixes st :: "'p fair_store"
  assumes "fair_keys (fo_keys F)"
    and "\<And>c. c \<in> set cs \<Longrightarrow> rc_messageId (rd_info c) = m \<Longrightarrow>
      rd_member c = makeMember m q \<and> rc_queueId (rd_info c) = q \<and> rd_stored c = Some x"
  shows "waits_again F n q m (sm_timestamp x) p st \<Longrightarrow> waits_again F n q m (sm_timestamp x) p (requeue_all F n now cs st)"
    and "fs_data st (kp_inflightDataKey (fo_keys F) n) m = Some p \<Longrightarrow> \<exists>c \<in> set cs. rc_messageId (rd_info c) = m \<Longrightarrow>
      waits_again F n q m (sm_timestamp x) p (requeue_all F n now cs st)"
proof -
  have step: "waits_again F n q m (sm_timestamp x) p (snd (requeue F n now c st))"
    if "c \<in> set cs" "waits_again F n q m (sm_timestamp x) p st" for c and st :: "'p fair_store"
    using assms(2) [OF that(1)] that(2)
    by (cases "rc_messageId (rd_info c) = m") (auto simp: requeue_eq intro: release_again release_other(1) assms(1))
  show keep: "waits_again F n q m (sm_timestamp x) p st \<Longrightarrow> waits_again F n q m (sm_timestamp x) p (requeue_all F n now cs st)"
    for st :: "'p fair_store"
    unfolding requeue_all_def by (rule fold_keeps [where P = "waits_again F n q m (sm_timestamp x) p"]) (simp_all add: step)
  assume "fs_data st (kp_inflightDataKey (fo_keys F) n) m = Some p" "\<exists>c \<in> set cs. rc_messageId (rd_info c) = m"
  then show "waits_again F n q m (sm_timestamp x) p (requeue_all F n now cs st)"
    using assms(2)
  proof (induction cs arbitrary: st)
    case (Cons c cs)
    show ?case
    proof (cases "rc_messageId (rd_info c) = m")
      case True
      with Cons.prems(1,3) release_waits [OF assms(1) Cons.prems(1), of q "sm_timestamp x" None]
      have "waits_again F n q m (sm_timestamp x) p (snd (requeue F n now c st))"
        by (simp add: requeue_eq or_default_def)
      then have "waits_again F n q m (sm_timestamp x) p (fold (\<lambda>c st. snd (requeue F n now c st)) cs (snd (requeue F n now c st)))"
      proof (rule fold_keeps [where P = "waits_again F n q m (sm_timestamp x) p", rotated])
        fix c' and st :: "'p fair_store"
        assume "c' \<in> set cs" "waits_again F n q m (sm_timestamp x) p st"
        with Cons.prems(3) [of c'] show "waits_again F n q m (sm_timestamp x) p (snd (requeue F n now c' st))"
          by (cases "rc_messageId (rd_info c') = m") (auto simp: requeue_eq intro: release_again release_other(1) assms(1))
      qed
      then show ?thesis by (simp add: requeue_all_def)
    next
      case False
      with Cons.prems have "waits_again F n q m (sm_timestamp x) p (requeue_all F n now cs (snd (requeue F n now c st)))"
        by (intro Cons.IH) (auto simp: requeue_eq release_other(2) [OF assms(1)])
      then show ?thesis by (simp add: requeue_all_def)
    qed
  qed simp
qed

lemma due_subset: "set (due_members limit now z) \<subseteq> zmembers z"
  by (auto simp: due_members_def zrangebyscore_def zmembers_def dest!: in_set_takeD intro: rev_image_eqI)

lemma requeue_all_sets [simp]: "fs_sets (requeue_all F n now cs st) = fs_sets st"
  unfolding requeue_all_def by (induction cs arbitrary: st) (auto simp: requeue_eq)

text \<open>
  A message whose visibility ran out is recovered: it waits in its queue again with its data, its
  attempt and the time it was enqueued at, is in flight no longer, and holds no slot.
\<close>

theorem timed_out_message_recovered:
  assumes "fair_keys (fo_keys F)" "(makeMember m q, deadline) \<in> set (fs_zsets st (kp_inflightKey (fo_keys F) n))" "deadline \<le> fs_now st"
    and "length (fs_zsets st (kp_inflightKey (fo_keys F) n)) \<le> 100" "colon \<notin> set m"
    and "\<forall>member \<in> zmembers (fs_zsets st (kp_inflightKey (fo_keys F) n)). fst (parseMember member) = m \<longrightarrow> member = makeMember m q"
    and "fs_data st (kp_inflightDataKey (fo_keys F) n) m = Some (Json x)"
  defines "st' \<equiv> snd (reclaimTimedOut F n st)"
  shows "waits_again F n q m (sm_timestamp x) (Json x) st'
    \<and> slots_freed F \<lparr>qd_id = q, qd_tenantId = sm_tenantId x, qd_metadata = or_default (sm_metadata x) []\<rparr> m st'"
proof -
  let ?cs = "reclaim_candidates F n st" and ?c = "reclaim_candidate F n st (makeMember m q)"
  have "makeMember m q \<in> set (due_members 100 (fs_now st) (fs_zsets st (kp_inflightKey (fo_keys F) n)))"
    by (rule due_member [OF assms(2,3) _ assms(4)]) (simp add: makeMember_def)
  then have c: "?c \<in> set ?cs" by (simp add: reclaim_candidates_def)
  have info: "rd_info ?c = \<lparr>rc_messageId = m, rc_queueId = q, rc_tenantId = sm_tenantId x, rc_metadata = or_default (sm_metadata x) []\<rparr>"
    "rd_stored ?c = Some x" "rd_member ?c = makeMember m q"
    using assms(5,7) by (simp_all add: reclaim_candidate_def Let_def)
  have only: "rd_member c = makeMember m q \<and> rc_queueId (rd_info c) = q \<and> rd_stored c = Some x"
    if "c \<in> set ?cs" "rc_messageId (rd_info c) = m" for c
  proof -
    from that(1) obtain member where member: "c = reclaim_candidate F n st member" "member \<in> zmembers (fs_zsets st (kp_inflightKey (fo_keys F) n))"
      using due_subset [of 100 "fs_now st"] by (auto simp only: reclaim_candidates_def set_map)
    with that(2) have "fst (parseMember member) = m" by (simp add: reclaim_candidate_def case_prod_beta Let_def)
    with member assms(6) info show ?thesis by auto
  qed
  obtain st1 where st1: "release_reclaimed F (map rd_info ?cs) st = (Inr (), st1)" "fs_data st1 = fs_data st" "fs_zsets st1 = fs_zsets st"
    "\<forall>y \<in> set (map rd_info ?cs). slots_freed F \<lparr>qd_id = rc_queueId y, qd_tenantId = rc_tenantId y, qd_metadata = rc_metadata y\<rparr> (rc_messageId y) st1"
    using release_reclaimed_eq [of F "map rd_info ?cs" st] by blast
  have st': "st' = requeue_all F n (fs_now st) ?cs st1"
    using st1(1) by (simp add: st'_def reclaimTimedOut_def andThen_def andDo_def get_now_def reading_def ret_def forEach_requeue)
  have "waits_again F n q m (sm_timestamp x) (Json x) st'"
    unfolding st' using requeue_waits(2) [OF assms(1) only, where cs = ?cs and p = "Json x" and st = st1] st1(2) assms(7) c info(1)
    by force
  moreover have "fs_sets st' = fs_sets st1" by (simp add: st')
  moreover from st1(4) c info(1) have "slots_freed F \<lparr>qd_id = q, qd_tenantId = sm_tenantId x, qd_metadata = or_default (sm_metadata x) []\<rparr> m st1"
    by force
  ultimately show ?thesis by (simp add: slots_freed_def)
qed

theorem timed_out_message_recovered_witness:
  "waits_again example_fair 0 ''acme'' ''m1'' 5 (Json example_stored)
     (snd (reclaimTimedOut example_fair 0 (example_in_flight\<lparr>fs_now := 200\<rparr>)))"
proof -
  let ?st = "example_in_flight\<lparr>fs_now := 200\<rparr>"
  have z: "fs_zsets ?st (kp_inflightKey (fo_keys example_fair) 0) = [(makeMember ''m1'' ''acme'', 100)]"
    by (simp add: example_in_flight)
  have "colon \<notin> set ''m1''" by (simp add: colon_def)
  from timed_out_message_recovered [OF example_keys _ _ _ this, of "''acme''" 100 ?st 0 example_stored, unfolded z]
  show ?thesis by (simp add: zmembers_def example_in_flight)
qed

text \<open>A message that is completed leaves the in-flight set and its slots.\<close>

lemma dispatch_update_rest [simp]:
  "fs_data (snd (updateDispatchIndexes queue tenants dispatch q t st)) = fs_data st"
  "fs_sets (snd (updateDispatchIndexes queue tenants dispatch q t st)) = fs_sets st"
  "k \<noteq> tenants \<Longrightarrow> k \<noteq> dispatch \<Longrightarrow> fs_zsets (snd (updateDispatchIndexes queue tenants dispatch q t st)) k = fs_zsets st k"
  by (auto simp: updateDispatchIndexes_def oldest_other_zsets Let_def split: option.split)

lemma completeMessage_ends:
  assumes "fair_keys (fo_keys F)" "1 \<le> fo_shardCount F" "inflight_data F m q st = Some (Json x)"
  shows "\<exists>st'. completeMessage F m q st = (Inr (), st') \<and> inflight_data F m q st' = None
    \<and> makeMember m q \<notin> zmembers (fs_zsets st' (kp_inflightKey (fo_keys F) (getShardForQueue F q)))
    \<and> slots_freed F (descriptor_of F q (Some x) st) m st'"
proof -
  let ?d = "descriptor_of F q (Some x) st"
  let ?freed = "releaseConcurrency (map (group_key F ?d) (fo_groups F)) m st"
  let ?gone = "snd (remove_in_flight F m q ?freed)"
  let ?t = "qd_tenantId ?d"
  let ?master = "snd (updateMasterQueueIfEmpty (kp_masterQueueKey (fo_keys F) (getShardForQueue F q)) (kp_queueKey (fo_keys F) q) q ?gone)"
  let ?st = "snd (updateDispatchIndexes (kp_queueKey (fo_keys F) q) (kp_tenantQueueIndexKey (fo_keys F) ?t)
      (kp_dispatchKey (fo_keys F) (getShardForTenant F ?t)) q ?t ?master)"
  have indexes: "updateAllIndexesAfterDequeue F q ?t ?gone = (Inr b, ?st) \<or> updateAllIndexesAfterDequeue F q ?t ?gone = (Inr (\<not> b), ?st)" for b
    by (auto simp: updateAllIndexesAfterDequeue_def andThen_def script_def ret_def Let_def)
  obtain c where c: "completeMessage F m q st = (Inr (), ?st\<lparr>fs_cache := c\<rparr>)"
  proof -
    have complete: "complete F m q ?freed = (Inr (), ?gone)"
      by (simp add: complete_def remove_in_flight_def modify_def)
    have read: "getMessageData F m q st = (Inr (Some x), st)"
      using assms(3) by (simp add: getMessageData_def reading_def)
    have "completeMessage F m q st = (Inr (), ?st) \<or> completeMessage F m q st = (Inr (), ?st\<lparr>fs_cache := (fs_cache ?st)(q := None)\<rparr>)"
      using indexes [of True] read complete
      by (auto simp: completeMessage_def andThen_def andDo_def reading_def release_slots_def modify_def whenever_def ret_def forget_queue_def)
    moreover have "?st = ?st\<lparr>fs_cache := fs_cache ?st\<rparr>" by simp
    ultimately show ?thesis using that by metis
  qed
  have "inflight_data F m q ?gone = None"
    "makeMember m q \<notin> zmembers (fs_zsets ?gone (kp_inflightKey (fo_keys F) (getShardForQueue F q)))"
    using assms(2) by (simp_all add: remove_in_flight_def modify_def removeFromInflight_def inflight_data_def)
  then have "inflight_data F m q ?st = None"
    "makeMember m q \<notin> zmembers (fs_zsets ?st (kp_inflightKey (fo_keys F) (getShardForQueue F q)))"
    by (simp_all add: inflight_data_def updateMasterQueueIfEmpty_def fair_keys.distinct_keys [OF assms(1)])
  moreover have "slots_freed F ?d m ?st"
    by (rule freed_slots) (simp add: updateMasterQueueIfEmpty_def remove_in_flight_def modify_def removeFromInflight_def)
  ultimately show ?thesis unfolding c by (auto simp: inflight_data_def slots_freed_def)
qed

end
