(* ===== verification/BatchQueue.thy ===== *)
theory BatchQueue
  imports FairConsumers
begin

text \<open>
  The queue of batch items (\<open>run-engine/src/batch-queue\<close>): it streams the items of a batch into the
  fair queue (\<open>index.ts\<close>), turns each item it is handed into a run by a callback, and counts what
  became of the items (\<open>completionTracker.ts\<close>) until the batch is done.

  The callbacks belong to the web application: what they answer is an argument. The part of
  \<open>#handleMessage\<close> before the callback and the part after it are functions of their own, as other
  consumers run while the callback does. The JSON of payloads and options is opaque.
\<close>

section \<open>Data\<close>

datatype item_payload = Undefined | Null | Text string | Other string

record batch_item =
  bi_task :: string
  bi_payload :: item_payload
  bi_payloadType :: "string option"
  bi_options :: "string option"

record batch_meta =
  bm_batchId :: string
  bm_friendlyId :: string
  bm_environmentId :: string
  bm_environmentType :: RuntimeEnvironmentType
  bm_organizationId :: string
  bm_projectId :: string
  bm_runCount :: nat
  bm_createdAt :: int
  bm_parentRunId :: "string option"
  bm_resumeParentOnCompletion :: "bool option"
  bm_triggerVersion :: "string option"
  bm_traceContext :: "string option"
  bm_spanParentAsLink :: "bool option"
  bm_realtimeStreamsVersion :: "string option"
  bm_idempotencyKey :: "string option"
  bm_processingConcurrency :: "nat option"
  bm_planType :: "string option"
  bm_triggerSource :: "string option"

record batch_item_failure =
  bf_index :: nat
  bf_taskIdentifier :: string
  bf_payload :: string
  bf_options :: "string option"
  bf_error :: string
  bf_errorCode :: "string option"
  bf_timestamp :: int

record complete_batch_result =
  cr_batchId :: string
  cr_runIds :: "string list"
  cr_successfulRunCount :: nat
  cr_failedRunCount :: nat
  cr_failures :: "batch_item_failure list"

record batch_item_payload =
  bp_batchId :: string
  bp_friendlyId :: string
  bp_itemIndex :: nat
  bp_item :: batch_item

text \<open>
  A key of the tracker is made of a batch's id and a suffix, so each suffix is a map from ids.
  \<open>bs_completed\<close> records the calls of the completion callback that succeeded.
\<close>

record batch_state =
  bs_fair :: "batch_item_payload fair_store"
  bs_meta :: "string \<Rightarrow> batch_meta option"
  bs_runs :: "string \<Rightarrow> zset"
  bs_failures :: "string \<Rightarrow> batch_item_failure list"
  bs_processed :: "string \<Rightarrow> nat option"
  bs_processedItems :: "string \<Rightarrow> string list"
  bs_enqueuedItems :: "string \<Rightarrow> string list"
  bs_completed :: "complete_batch_result list"

type_synonym 'a batching = "(batch_state, string, 'a) handler"

definition in_fair :: "(batch_item_payload, 'a) fair \<Rightarrow> 'a batching" where
  "in_fair m w = (case m (bs_fair w) of (r, f) \<Rightarrow> (r, w\<lparr>bs_fair := f\<rparr>))"

section \<open>Options\<close>

definition batch_extractTenantId :: "string \<Rightarrow> string" where
  "batch_extractTenantId queueId =
     (let ps = js_split colon queueId in
      if length ps \<ge> 2 \<and> ps ! 0 = ''env'' \<and> ps ! 1 \<noteq> [] then ps ! 1 else queueId)"

definition batch_extractGroupId :: "string \<Rightarrow> string \<Rightarrow> string" where
  "batch_extractGroupId groupName queueId =
     (let ps = js_split colon queueId in
      if groupName = ''tenant'' \<and> length ps \<ge> 2 \<and> ps ! 0 = ''env'' \<and> ps ! 1 \<noteq> [] then ps ! 1 else [])"

definition batch_keys :: key_producer where
  "batch_keys = CallbackFairQueueKeyProducer ''batch'' colon batch_extractTenantId batch_extractGroupId"

definition BATCH_WORKER_QUEUE_ID :: string where "BATCH_WORKER_QUEUE_ID = ''batch-worker-queue''"

record batch_options =
  bo_sha256 :: "string \<Rightarrow> nat list"
  bo_shardCount :: "nat option"
  bo_defaultConcurrency :: "nat option"
  bo_workerQueueMaxDepth :: "nat option"
  bo_retry :: "retry_options option"
  bo_quantum :: rat
  bo_maxDeficit :: rat
  bo_masterQueueLimit :: "nat option"

definition env_concurrency_key :: "string \<Rightarrow> string" where
  "env_concurrency_key envId = ''batch:env_concurrency:'' @ envId"

definition getEnvConcurrency :: "batch_options \<Rightarrow> (string \<Rightarrow> nat option) \<Rightarrow> string \<Rightarrow> nat" where
  "getEnvConcurrency B values envId =
     (case values (env_concurrency_key envId) of
        Some limit \<Rightarrow> if limit > 0 then limit else or_default (bo_defaultConcurrency B) 10
      | None \<Rightarrow> or_default (bo_defaultConcurrency B) 10)"

text \<open>\<open>retry.maxAttempts\<close> is a number there; the fields a caller leaves out get the batch queue's defaults.\<close>

definition batch_retry :: "retry_options \<Rightarrow> retry_strategy" where
  "batch_retry x = ExponentialBackoffRetry
     \<lparr>ro_maxAttempts = Some (or_default (ro_maxAttempts x) 1), ro_factor = Some (or_default (ro_factor x) 2),
      ro_minTimeoutInMs = Some (or_default (ro_minTimeoutInMs x) 1000),
      ro_maxTimeoutInMs = Some (or_default (ro_maxTimeoutInMs x) 30000),
      ro_randomize = Some (or_default (ro_randomize x) True), ro_oomMachine = None\<rparr>"

definition batch_maxAttempts :: "batch_options \<Rightarrow> int" where
  "batch_maxAttempts B = (case bo_retry B of None \<Rightarrow> 1 | Some x \<Rightarrow> or_default (ro_maxAttempts x) 1)"

definition batch_fair_options :: "batch_options \<Rightarrow> batch_item_payload fair_options" where
  "batch_fair_options B =
     \<lparr>fo_keys = batch_keys, fo_sha256 = bo_sha256 B, fo_shardCount = or_default (bo_shardCount B) 1,
      fo_groups = [\<lparr>cg_name = ''tenant'', cg_extractGroupId = qd_tenantId, cg_getLimit = getEnvConcurrency B,
        cg_defaultLimit = or_default (bo_defaultConcurrency B) 10\<rparr>],
      fo_validate = (\<lambda>_. None), fo_workerQueueResolver = (\<lambda>_. BATCH_WORKER_QUEUE_ID),
      fo_retryStrategy = map_option batch_retry (bo_retry B), fo_deadLetterQueueEnabled = (bo_retry B = None),
      fo_visibilityTimeoutMs = 60000, fo_heartbeatIntervalMs = 20000, fo_batchClaimSize = 10,
      fo_workerQueueMaxDepth = or_default (bo_workerQueueMaxDepth B) 0,
      fo_workerQueueDepthCheckId = Some BATCH_WORKER_QUEUE_ID,
      fo_quantum = bo_quantum B, fo_maxDeficit = bo_maxDeficit B, fo_masterQueueLimit = or_default (bo_masterQueueLimit B) 1000\<rparr>"

section \<open>The completion tracker\<close>

definition processed_value :: "string \<Rightarrow> batch_state \<Rightarrow> nat" where
  "processed_value b w = or_default (bs_processed w b) 0"

text \<open>The scripts: an item that was processed before changes nothing; the answer is the count.\<close>

definition count_item :: "string \<Rightarrow> string \<Rightarrow> batch_state \<Rightarrow> batch_state" where
  "count_item b itemKey w =
     w\<lparr>bs_processedItems := (bs_processedItems w)(b := sadd itemKey (bs_processedItems w b)),
       bs_processed := (bs_processed w)(b := Some (processed_value b w + 1))\<rparr>"

definition recordSuccessIdempotent :: "string \<Rightarrow> string \<Rightarrow> string \<Rightarrow> int \<Rightarrow> batch_state \<Rightarrow> nat \<times> batch_state" where
  "recordSuccessIdempotent b itemKey runId itemScore w =
     (let w' = (if itemKey \<in> set (bs_processedItems w b) then w
                else (count_item b itemKey w)\<lparr>bs_runs := (bs_runs w)(b := zadd itemScore runId (bs_runs w b))\<rparr>)
      in (processed_value b w', w'))"

definition recordFailureIdempotent :: "string \<Rightarrow> string \<Rightarrow> batch_item_failure \<Rightarrow> batch_state \<Rightarrow> nat \<times> batch_state" where
  "recordFailureIdempotent b itemKey failure w =
     (let w' = (if itemKey \<in> set (bs_processedItems w b) then w
                else (count_item b itemKey w)\<lparr>bs_failures := (bs_failures w)(b := bs_failures w b @ [failure])\<rparr>)
      in (processed_value b w', w'))"

definition recordSuccess :: "string \<Rightarrow> string \<Rightarrow> nat option \<Rightarrow> nat batching" where
  "recordSuccess b runId itemIndex w =
     (let (n, w') = recordSuccessIdempotent b (case itemIndex of Some i \<Rightarrow> nat_to_string i | None \<Rightarrow> runId) runId
        (case itemIndex of Some i \<Rightarrow> int i | None \<Rightarrow> 0) w in (Inr n, w'))"

definition recordFailure :: "string \<Rightarrow> batch_item_failure \<Rightarrow> nat batching" where
  "recordFailure b failure w =
     (let (n, w') = recordFailureIdempotent b (nat_to_string (bf_index failure))
        (failure\<lparr>bf_timestamp := fs_now (bs_fair w)\<rparr>) w in (Inr n, w'))"

definition storeMeta :: "string \<Rightarrow> batch_meta \<Rightarrow> unit batching" where
  "storeMeta b meta = modify (\<lambda>w. w\<lparr>bs_meta := (bs_meta w)(b := Some meta)\<rparr>)"

definition getMeta :: "string \<Rightarrow> batch_meta option batching" where
  "getMeta b = reading (\<lambda>w. bs_meta w b)"

definition getSuccessfulRuns :: "string \<Rightarrow> batch_state \<Rightarrow> string list" where
  "getSuccessfulRuns b w = map fst (bs_runs w b)"

definition getProcessedCount :: "string \<Rightarrow> batch_state \<Rightarrow> nat" where
  "getProcessedCount b w = processed_value b w"

definition isComplete :: "string \<Rightarrow> batch_state \<Rightarrow> bool" where
  "isComplete b w = (case bs_meta w b of None \<Rightarrow> False | Some meta \<Rightarrow> getProcessedCount b w \<ge> bm_runCount meta)"

definition isItemEnqueued :: "string \<Rightarrow> nat \<Rightarrow> batch_state \<Rightarrow> bool" where
  "isItemEnqueued b itemIndex w = (nat_to_string itemIndex \<in> set (bs_enqueuedItems w b))"

definition markItemEnqueued :: "string \<Rightarrow> nat \<Rightarrow> bool batching" where
  "markItemEnqueued b itemIndex w =
     (Inr (\<not> isItemEnqueued b itemIndex w),
      w\<lparr>bs_enqueuedItems := (bs_enqueuedItems w)(b := sadd (nat_to_string itemIndex) (bs_enqueuedItems w b))\<rparr>)"

definition getEnqueuedCount :: "string \<Rightarrow> batch_state \<Rightarrow> nat" where
  "getEnqueuedCount b w = length (bs_enqueuedItems w b)"

definition getCompletionResult :: "string \<Rightarrow> batch_state \<Rightarrow> complete_batch_result" where
  "getCompletionResult b w =
     \<lparr>cr_batchId = b, cr_runIds = getSuccessfulRuns b w, cr_successfulRunCount = length (getSuccessfulRuns b w),
      cr_failedRunCount = length (bs_failures w b), cr_failures = bs_failures w b\<rparr>"

definition cleanup :: "string \<Rightarrow> unit batching" where
  "cleanup b = modify (\<lambda>w. w\<lparr>bs_meta := (bs_meta w)(b := None), bs_runs := (bs_runs w)(b := []),
     bs_failures := (bs_failures w)(b := []), bs_processed := (bs_processed w)(b := None),
     bs_processedItems := (bs_processedItems w)(b := []), bs_enqueuedItems := (bs_enqueuedItems w)(b := [])\<rparr>)"

section \<open>Streaming a batch\<close>

definition makeQueueId :: "string \<Rightarrow> string \<Rightarrow> string" where
  "makeQueueId envId batchId = ''env:'' @ envId @ '':batch:'' @ batchId"

text \<open>\<open>storeEnvConcurrency\<close>; the day after which the limit expires is not modelled.\<close>

definition storeEnvConcurrency :: "string \<Rightarrow> nat \<Rightarrow> unit batching" where
  "storeEnvConcurrency envId concurrency =
     in_fair (modify (\<lambda>st. st\<lparr>fs_values := (fs_values st)(env_concurrency_key envId := Some concurrency)\<rparr>))"

text \<open>The options have every field of the metadata but \<open>createdAt\<close>; the plan type is not taken over.\<close>

definition initializeBatch :: "batch_meta \<Rightarrow> unit batching" where
  "initializeBatch options =
     andThen (reading (\<lambda>w. fs_now (bs_fair w))) (\<lambda>now.
     andDo (storeMeta (bm_batchId options) (options\<lparr>bm_createdAt := now, bm_planType := None\<rparr>))
       (case bm_processingConcurrency options of
          None \<Rightarrow> ret ()
        | Some concurrency \<Rightarrow> storeEnvConcurrency (bm_environmentId options) concurrency))"

definition item_options :: "batch_meta \<Rightarrow> string \<Rightarrow> string \<Rightarrow> nat \<Rightarrow> batch_item \<Rightarrow> batch_item_payload enqueue_options" where
  "item_options meta batchId envId itemIndex item =
     \<lparr>eq_queueId = makeQueueId envId batchId, eq_tenantId = envId,
      eq_payload = \<lparr>bp_batchId = batchId, bp_friendlyId = bm_friendlyId meta, bp_itemIndex = itemIndex, bp_item = item\<rparr>,
      eq_messageId = None, eq_timestamp = Some (bm_createdAt meta + int itemIndex),
      eq_metadata = Some [(''batchId'', batchId), (''friendlyId'', bm_friendlyId meta), (''envId'', envId)]\<rparr>"

definition enqueueBatchItem :: "batch_options \<Rightarrow> string \<Rightarrow> string \<Rightarrow> string \<Rightarrow> nat \<Rightarrow> batch_item \<Rightarrow> bool batching" where
  "enqueueBatchItem B nanoid batchId envId itemIndex item =
     andThen (getMeta batchId) (\<lambda>found.
       case found of
         None \<Rightarrow> throw (''Batch '' @ batchId @ '' not found or not initialized'')
       | Some meta \<Rightarrow>
           andThen (markItemEnqueued batchId itemIndex) (\<lambda>isNewItem.
             if \<not> isNewItem then ret False
             else andThen (in_fair (enqueue (batch_fair_options B) nanoid (item_options meta batchId envId itemIndex item)))
               (\<lambda>_. ret True)))"

section \<open>Handling an item\<close>

datatype item_result =
    Created string
  | Rejected string "string option" bool
  | Threw string

text \<open>The call of the callback that a message comes to, where there is one.\<close>

record item_call =
  ic_payload :: batch_item_payload
  ic_meta :: batch_meta
  ic_attempt :: int
  ic_isFinalAttempt :: bool

definition begin_item :: "batch_options \<Rightarrow> string \<Rightarrow> string \<Rightarrow> item_call option batching" where
  "begin_item B messageId queueId =
     andThen (in_fair (getMessageData (batch_fair_options B) messageId queueId)) (\<lambda>storedMessage.
       case storedMessage of
         None \<Rightarrow> andDo (in_fair (completeMessage (batch_fair_options B) messageId queueId)) (ret None)
       | Some m \<Rightarrow>
           andThen (getMeta (bp_batchId (sm_payload m))) (\<lambda>found.
             case found of
               None \<Rightarrow> andDo (in_fair (completeMessage (batch_fair_options B) messageId queueId)) (ret None)
             | Some meta \<Rightarrow> ret (Some \<lparr>ic_payload = sm_payload m, ic_meta = meta, ic_attempt = sm_attempt m,
                 ic_isFinalAttempt = (sm_attempt m \<ge> batch_maxAttempts B)\<rparr>)))"

definition payload_string :: "item_payload \<Rightarrow> string" where
  "payload_string p = (case p of Undefined \<Rightarrow> ''{}'' | Null \<Rightarrow> ''{}'' | Text s \<Rightarrow> s | Other json \<Rightarrow> json)"

definition item_failure :: "batch_item_payload \<Rightarrow> string \<Rightarrow> string option \<Rightarrow> batch_item_failure" where
  "item_failure p e code =
     \<lparr>bf_index = bp_itemIndex p, bf_taskIdentifier = bi_task (bp_item p), bf_payload = payload_string (bi_payload (bp_item p)),
      bf_options = bi_options (bp_item p), bf_error = e, bf_errorCode = code, bf_timestamp = 0\<rparr>"

text \<open>
  The callback of the web application may throw, with a message; only after it returned is what
  the tracker holds removed.
\<close>

definition finalizeBatch :: "(complete_batch_result \<Rightarrow> string option) \<Rightarrow> string \<Rightarrow> unit batching" where
  "finalizeBatch completionCallback b =
     andThen (reading (getCompletionResult b)) (\<lambda>result.
       case completionCallback result of
         Some e \<Rightarrow> throw e
       | None \<Rightarrow> andDo (modify (\<lambda>w. w\<lparr>bs_completed := bs_completed w @ [result]\<rparr>)) (cleanup b))"

definition retry_item :: "rat \<Rightarrow> batch_options \<Rightarrow> string \<Rightarrow> string \<Rightarrow> string \<Rightarrow> nat option batching" where
  "retry_item rnd B messageId queueId e =
     andDo (in_fair (failMessage rnd (batch_fair_options B) messageId queueId (Some e))) (ret None)"

text \<open>What is recorded for the item: the count afterwards, or nothing where it will be retried.\<close>

definition record_result :: "rat \<Rightarrow> batch_options \<Rightarrow> item_call \<Rightarrow> string \<Rightarrow> string \<Rightarrow> item_result \<Rightarrow> nat option batching" where
  "record_result rnd B c messageId queueId result =
     (let p = ic_payload c in
      case result of
        Created runId \<Rightarrow> andThen (recordSuccess (bp_batchId p) runId (Some (bp_itemIndex p))) (\<lambda>n. ret (Some n))
      | Rejected e code skipRetries \<Rightarrow>
          if \<not> ic_isFinalAttempt c \<and> \<not> skipRetries then retry_item rnd B messageId queueId e
          else andThen (recordFailure (bp_batchId p) (item_failure p e code)) (\<lambda>n. ret (Some n))
      | Threw e \<Rightarrow>
          if \<not> ic_isFinalAttempt c then retry_item rnd B messageId queueId e
          else andThen (recordFailure (bp_batchId p) (item_failure p e (Some ''UNEXPECTED_ERROR''))) (\<lambda>n. ret (Some n)))"

definition finish_item ::
    "rat \<Rightarrow> batch_options \<Rightarrow> (complete_batch_result \<Rightarrow> string option) \<Rightarrow> item_call \<Rightarrow> string \<Rightarrow> string \<Rightarrow> item_result \<Rightarrow> unit batching" where
  "finish_item rnd B completionCallback c messageId queueId result =
     andThen (record_result rnd B c messageId queueId result) (\<lambda>count.
       case count of
         None \<Rightarrow> ret ()
       | Some processedCount \<Rightarrow>
           andDo (in_fair (completeMessage (batch_fair_options B) messageId queueId))
             (whenever (processedCount = bm_runCount (ic_meta c)) (finalizeBatch completionCallback (bp_batchId (ic_payload c)))))"

definition handleMessage ::
    "rat \<Rightarrow> batch_options \<Rightarrow> (item_call \<Rightarrow> item_result) \<Rightarrow> (complete_batch_result \<Rightarrow> string option) \<Rightarrow> string \<Rightarrow> string \<Rightarrow> unit batching" where
  "handleMessage rnd B processItemCallback completionCallback messageId queueId =
     andThen (begin_item B messageId queueId) (\<lambda>call.
       case call of
         None \<Rightarrow> ret ()
       | Some c \<Rightarrow> finish_item rnd B completionCallback c messageId queueId (processItemCallback c))"

text \<open>One turn of a consumer: a key of the worker queue names the message; one without a colon is dropped.\<close>

definition pop_worker :: "string \<Rightarrow> (batch_item_payload, string option) fair" where
  "pop_worker k = script (\<lambda>st. case fs_lists st k of
     [] \<Rightarrow> (None, st) | v # vs \<Rightarrow> (Some v, st\<lparr>fs_lists := (fs_lists st)(k := vs)\<rparr>))"

definition consume ::
    "rat \<Rightarrow> batch_options \<Rightarrow> (item_call \<Rightarrow> item_result) \<Rightarrow> (complete_batch_result \<Rightarrow> string option) \<Rightarrow> bool batching" where
  "consume rnd B processItemCallback completionCallback =
     andThen (in_fair (pop_worker (kp_workerQueueKey batch_keys BATCH_WORKER_QUEUE_ID))) (\<lambda>key.
       case key of
         None \<Rightarrow> ret False
       | Some k \<Rightarrow>
           if js_indexOf k '':'' = None then ret False
           else andDo (handleMessage rnd B processItemCallback completionCallback (fst (parseMember k)) (snd (parseMember k)))
             (ret True))"

end
