(* ===== verification/BatchQueueOutcomes.thy ===== *)
theory BatchQueueOutcomes
  imports BatchQueue FairLifecycle
begin

text \<open>
  What the queue of batch items promises: however consumers interleave, the tracker counts an item
  once; an item that was handled waits for its next attempt or is counted, and the last one
  completes the batch.
\<close>

section \<open>The tracker\<close>

text \<open>The operations of the tracker, of any number of consumers and batches.\<close>

datatype tracker_event =
    Succeeded string string "nat option"
  | Failed string batch_item_failure
  | Marked string nat
  | Described string batch_meta
  | Cleaned string

fun tracker_step :: "batch_state \<Rightarrow> tracker_event \<Rightarrow> batch_state" where
  "tracker_step w (Succeeded b r i) = snd (recordSuccess b r i w)"
| "tracker_step w (Failed b f) = snd (recordFailure b f w)"
| "tracker_step w (Marked b i) = snd (markItemEnqueued b i w)"
| "tracker_step w (Described b meta) = snd (storeMeta b meta w)"
| "tracker_step w (Cleaned b) = snd (cleanup b w)"

definition counts_ok :: "batch_state \<Rightarrow> bool" where
  "counts_ok w = (\<forall>b. distinct (bs_processedItems w b) \<and> processed_value b w = length (bs_processedItems w b)
     \<and> zset_ok (bs_runs w b) \<and> length (bs_runs w b) + length (bs_failures w b) \<le> length (bs_processedItems w b))"

lemma or_default_None [simp]: "or_default None x = x"
  by (simp add: or_default_def)

lemma length_zadd: "zset_ok z \<Longrightarrow> length (zadd s m z) \<le> length z + 1"
  by (simp add: zadd_def zrem_def)

lemma zadd_ok: "zset_ok z \<Longrightarrow> zset_ok (zadd s m z)"
  by (rule zset_ok_zadd)

lemma count_item_eq:
  "bs_processedItems (count_item b k w) = (bs_processedItems w)(b := sadd k (bs_processedItems w b))"
  "processed_value b' (count_item b k w) = (if b' = b then processed_value b w + 1 else processed_value b' w)"
  "bs_runs (count_item b k w) = bs_runs w" "bs_failures (count_item b k w) = bs_failures w"
  by (auto simp: count_item_def processed_value_def)

lemmas tracker_defs = recordSuccess_def recordFailure_def recordSuccessIdempotent_def recordFailureIdempotent_def
  markItemEnqueued_def storeMeta_def cleanup_def modify_def Let_def

lemma processed_value_update [simp]:
  "processed_value b (w\<lparr>bs_runs := x\<rparr>) = processed_value b w" "processed_value b (w\<lparr>bs_failures := y\<rparr>) = processed_value b w"
  "processed_value b (w\<lparr>bs_meta := z\<rparr>) = processed_value b w" "processed_value b (w\<lparr>bs_enqueuedItems := u\<rparr>) = processed_value b w"
  by (simp_all add: processed_value_def)

lemma tracker_step_counts: "counts_ok w \<Longrightarrow> counts_ok (tracker_step w ev)"
proof (cases ev)
  case (Succeeded b r i)
  assume ok: "counts_ok w"
  have "length (zadd s r (bs_runs w b)) + length (bs_failures w b) \<le> length (bs_processedItems w b) + 1" for s
    using ok length_zadd [of "bs_runs w b" s r] by (auto simp: counts_ok_def intro: order_trans add_mono)
  with ok Succeeded show ?thesis
    by (auto simp: counts_ok_def tracker_defs count_item_eq sadd_def zadd_ok)
next
  case (Failed b f)
  assume "counts_ok w"
  with Failed show ?thesis by (auto simp: counts_ok_def tracker_defs count_item_eq sadd_def)
next
  case (Cleaned b)
  assume "counts_ok w"
  with Cleaned show ?thesis by (auto simp: counts_ok_def tracker_defs processed_value_def zset_ok_def)
qed (auto simp: counts_ok_def tracker_defs)

interpretation tracker: step_machine tracker_step counts_ok
  by unfold_locales (rule tracker_step_counts)

text \<open>The items of a batch that the events record.\<close>

fun item_of :: "string \<Rightarrow> tracker_event \<Rightarrow> string list" where
  "item_of b (Succeeded b' r i) = (if b' = b then [case i of Some n \<Rightarrow> nat_to_string n | None \<Rightarrow> r] else [])"
| "item_of b (Failed b' f) = (if b' = b then [nat_to_string (bf_index f)] else [])"
| "item_of b _ = []"

lemma tracker_step_items:
  "ev \<noteq> Cleaned b \<Longrightarrow> set (bs_processedItems (tracker_step w ev) b) = set (bs_processedItems w b) \<union> set (item_of b ev)"
  by (cases ev) (auto simp: tracker_defs count_item_eq)

lemma tracker_items:
  "Cleaned b \<notin> set events \<Longrightarrow>
   set (bs_processedItems (foldl tracker_step w events) b) = set (bs_processedItems w b) \<union> set (concat (map (item_of b) events))"
proof (induction events arbitrary: w)
  case (Cons ev events)
  then show ?case using tracker_step_items [of ev b w] by auto
qed simp

definition empty_batches :: batch_state where
  "empty_batches = \<lparr>bs_fair = empty_store, bs_meta = (\<lambda>_. None), bs_runs = (\<lambda>_. []), bs_failures = (\<lambda>_. []),
     bs_processed = (\<lambda>_. None), bs_processedItems = (\<lambda>_. []), bs_enqueuedItems = (\<lambda>_. []), bs_completed = []\<rparr>"

lemma empty_counts: "counts_ok empty_batches"
  by (simp add: counts_ok_def empty_batches_def processed_value_def zset_ok_def)

text \<open>
  C28. The tracker counts an item once: whatever consumers record, however often and in whatever order,
  the count of a batch is the number of different items recorded since it was cleaned up, and what
  is reported at its completion never adds up to more.
\<close>

theorem items_counted_once:
  assumes "Cleaned b \<notin> set events"
  shows "getProcessedCount b (foldl tracker_step empty_batches events) = card (set (concat (map (item_of b) events)))
    \<and> cr_successfulRunCount (getCompletionResult b (foldl tracker_step empty_batches events))
      + cr_failedRunCount (getCompletionResult b (foldl tracker_step empty_batches events))
      \<le> card (set (concat (map (item_of b) events)))"
proof -
  let ?w = "foldl tracker_step empty_batches events"
  have ok: "counts_ok ?w" by (rule tracker.run_inv [OF empty_counts])
  have "set (bs_processedItems ?w b) = set (concat (map (item_of b) events))"
    using tracker_items [OF assms, of empty_batches] by (simp add: empty_batches_def)
  then have "length (bs_processedItems ?w b) = card (set (concat (map (item_of b) events)))"
    using ok distinct_card [of "bs_processedItems ?w b"] by (simp add: counts_ok_def)
  moreover have "length (bs_runs ?w b) + length (bs_failures ?w b) \<le> length (bs_processedItems ?w b)"
    using ok by (simp add: counts_ok_def)
  ultimately show ?thesis
    using ok by (simp add: counts_ok_def getProcessedCount_def getCompletionResult_def getSuccessfulRuns_def)
qed

theorem items_counted_once_witness:
  "getProcessedCount ''b1'' (foldl tracker_step empty_batches [Succeeded ''b1'' ''r1'' (Some 0), Succeeded ''b1'' ''r1'' (Some 0)]) = 1"
  using items_counted_once [of "''b1''" "[Succeeded ''b1'' ''r1'' (Some 0), Succeeded ''b1'' ''r1'' (Some 0)]"] by simp

text \<open>What items that became runs leave: the runs are a set, the items are counted each.\<close>

definition created :: "string \<Rightarrow> nat \<times> string \<Rightarrow> tracker_event" where
  "created b x = Succeeded b (snd x) (Some (fst x))"

lemma recorded_runs:
  assumes "distinct (map fst items)" "\<forall>x \<in> set items. nat_to_string (fst x) \<notin> set (bs_processedItems w b)"
  shows "zmembers (bs_runs (foldl tracker_step w (map (created b) items)) b) = zmembers (bs_runs w b) \<union> snd ` set items
    \<and> bs_failures (foldl tracker_step w (map (created b) items)) b = bs_failures w b"
  using assms
proof (induction items arbitrary: w)
  case (Cons x items)
  let ?w = "tracker_step w (created b x)"
  have new: "nat_to_string (fst x) \<notin> set (bs_processedItems w b)" using Cons.prems(2) by simp
  then have "zmembers (bs_runs ?w b) = insert (snd x) (zmembers (bs_runs w b))" "bs_failures ?w b = bs_failures w b"
    "set (bs_processedItems ?w b) = insert (nat_to_string (fst x)) (set (bs_processedItems w b))"
    by (simp_all add: created_def tracker_defs count_item_eq)
  moreover have "nat_to_string (fst y) \<notin> set (bs_processedItems ?w b)" if "y \<in> set items" for y
  proof -
    from that Cons.prems(1) have "fst y \<noteq> fst x" by (metis distinct.simps(2) image_eqI list.simps(9) set_map)
    with that Cons.prems(2) calculation show ?thesis by (simp add: nat_to_string_inject)
  qed
  ultimately show ?case using Cons.IH [of ?w] Cons.prems(1) by simp
qed simp

lemma created_count:
  assumes "distinct (map fst items)"
  shows "getProcessedCount b (foldl tracker_step empty_batches (map (created b) items)) = length items"
proof -
  let ?w = "foldl tracker_step empty_batches (map (created b) items)"
  have ok: "counts_ok ?w" by (rule tracker.run_inv [OF empty_counts])
  have "set (bs_processedItems ?w b) = (nat_to_string \<circ> fst) ` set items"
    using tracker_items [of b "map (created b) items" empty_batches] by (auto simp: created_def empty_batches_def)
  then have "length (bs_processedItems ?w b) = card ((nat_to_string \<circ> fst) ` set items)"
    using ok distinct_card [of "bs_processedItems ?w b"] by (simp add: counts_ok_def)
  also have "\<dots> = card (set (map fst items))"
    unfolding set_map image_comp [symmetric] by (rule card_image) (simp add: inj_on_def nat_to_string_inject)
  also have "\<dots> = length items" using distinct_card [OF assms] by simp
  finally show ?thesis using ok by (simp add: counts_ok_def getProcessedCount_def)
qed

section \<open>Handling an item\<close>

lemma batch_keys_ok: "fair_keys (fo_keys (batch_fair_options B))"
  by (simp add: batch_fair_options_def batch_keys_def callback_keys)

text \<open>An attempt that is not the last is always followed by another.\<close>

lemma retry_scheduled:
  assumes "0 < attempt" "attempt < batch_maxAttempts B"
  shows "\<exists>delay. next_delay rnd (batch_fair_options B) attempt = Some delay"
proof (cases "bo_retry B")
  case None
  with assms show ?thesis by (simp add: batch_maxAttempts_def)
next
  case (Some x)
  with assms have "attempt < strategy_maxAttempts (batch_retry x)"
    by (simp add: batch_maxAttempts_def batch_retry_def or_default_def)
  then have "getNextDelay rnd (batch_retry x) attempt \<noteq> None"
    using getNextDelay_None [of "batch_retry x" attempt rnd] assms(1) by (auto simp: batch_retry_def)
  with Some show ?thesis by (auto simp: next_delay_def batch_fair_options_def)
qed

text \<open>Whether the answer of the callback leaves the item to another attempt.\<close>

definition left_to_retry :: "batch_options \<Rightarrow> int \<Rightarrow> item_result \<Rightarrow> bool" where
  "left_to_retry B attempt result =
     (attempt < batch_maxAttempts B \<and>
      (case result of Created r \<Rightarrow> False | Rejected e code skipRetries \<Rightarrow> \<not> skipRetries | Threw e \<Rightarrow> True))"

text \<open>The tracker after the item is recorded.\<close>

definition recorded :: "batch_item_payload \<Rightarrow> item_result \<Rightarrow> batch_state \<Rightarrow> batch_state" where
  "recorded p result w = tracker_step w
     (case result of
        Created r \<Rightarrow> Succeeded (bp_batchId p) r (Some (bp_itemIndex p))
      | Rejected e code skipRetries \<Rightarrow> Failed (bp_batchId p) (item_failure p e code)
      | Threw e \<Rightarrow> Failed (bp_batchId p) (item_failure p e (Some ''UNEXPECTED_ERROR'')))"

lemma recorded_item: "nat_to_string (bp_itemIndex p) \<in> set (bs_processedItems (recorded p result w) (bp_batchId p))"
  by (cases result) (auto simp: recorded_def tracker_defs count_item_eq item_failure_def)

lemma recorded_fair [simp]: "bs_fair (recorded p result w) = bs_fair w" "bs_meta (recorded p result w) = bs_meta w"
  "bs_completed (recorded p result w) = bs_completed w"
  by (cases result; simp add: recorded_def tracker_defs count_item_def)+

lemma record_result_counts:
  assumes "\<not> left_to_retry B (ic_attempt c) result" "ic_isFinalAttempt c \<longleftrightarrow> ic_attempt c \<ge> batch_maxAttempts B"
  shows "record_result rnd B c m q result w
    = (Inr (Some (getProcessedCount (bp_batchId (ic_payload c)) (recorded (ic_payload c) result w))), recorded (ic_payload c) result w)"
  using assms
  by (cases result)
    (auto simp: record_result_def left_to_retry_def recorded_def andThen_def ret_def getProcessedCount_def recordSuccess_def
      recordFailure_def recordSuccessIdempotent_def recordFailureIdempotent_def item_failure_def Let_def)

lemma record_result_retries:
  assumes "left_to_retry B (ic_attempt c) result" "ic_isFinalAttempt c \<longleftrightarrow> ic_attempt c \<ge> batch_maxAttempts B"
  shows "\<exists>e. record_result rnd B c m q result = retry_item rnd B m q e"
  using assms by (cases result) (auto simp: record_result_def left_to_retry_def)

text \<open>
  The call that a message comes to, and what is left of it: the message waits for its next attempt
  and the tracker is as it was, or it is recorded and its message ended; then the last item of
  the batch completes it.
\<close>

definition call_of :: "batch_options \<Rightarrow> batch_item_payload stored_message \<Rightarrow> batch_meta \<Rightarrow> item_call" where
  "call_of B x meta = \<lparr>ic_payload = sm_payload x, ic_meta = meta, ic_attempt = sm_attempt x,
     ic_isFinalAttempt = (sm_attempt x \<ge> batch_maxAttempts B)\<rparr>"

lemma begin_item_eq:
  assumes "inflight_data (batch_fair_options B) m q (bs_fair w) = Some (Json x)" "bs_meta w (bp_batchId (sm_payload x)) = Some meta"
  shows "begin_item B m q w = (Inr (Some (call_of B x meta)), w)"
  using assms
  by (simp add: begin_item_def in_fair_def getMessageData_def reading_def andThen_def getMeta_def ret_def call_of_def)

lemma finish_retry:
  assumes "left_to_retry B (sm_attempt x) result" "1 \<le> or_default (bo_shardCount B) 1" "0 < sm_attempt x"
    and "inflight_data (batch_fair_options B) m q (bs_fair w) = Some (Json x)" "sm_id x = m"
  shows "\<exists>f delay. finish_item rnd B completionCallback (call_of B x meta) m q result w = (Inr (), w\<lparr>bs_fair := f\<rparr>)
    \<and> next_delay rnd (batch_fair_options B) (sm_attempt x) = Some delay
    \<and> waits_again (batch_fair_options B) (getShardForQueue (batch_fair_options B) q) q m (fs_now (bs_fair w) + delay)
        (Json (x\<lparr>sm_attempt := sm_attempt x + 1\<rparr>)) f"
proof -
  let ?F = "batch_fair_options B" and ?c = "call_of B x meta"
  obtain e where e: "record_result rnd B ?c m q result = retry_item rnd B m q e"
    using record_result_retries [of B ?c result rnd m q] assms(1) by (auto simp: call_of_def)
  obtain delay where delay: "next_delay rnd ?F (sm_attempt x) = Some delay"
    using retry_scheduled [of "sm_attempt x" B rnd] assms(1,3) by (auto simp: left_to_retry_def)
  obtain f where f: "failMessage rnd ?F m q (Some e) (bs_fair w) = (Inr (), f)"
    "waits_again ?F (getShardForQueue ?F q) q m (fs_now (bs_fair w) + delay) (Json (x\<lparr>sm_attempt := sm_attempt x + 1\<rparr>)) f"
    using failMessage_retries [OF batch_keys_ok _ assms(4,5) delay, of "Some e"] assms(2) by (auto simp: batch_fair_options_def)
  then have "finish_item rnd B completionCallback ?c m q result w = (Inr (), w\<lparr>bs_fair := f\<rparr>)"
    by (simp add: finish_item_def e retry_item_def andThen_def andDo_def in_fair_def ret_def)
  with delay f(2) show ?thesis by blast
qed

lemma finish_counted:
  assumes "\<not> left_to_retry B (sm_attempt x) result" "1 \<le> or_default (bo_shardCount B) 1"
    and "inflight_data (batch_fair_options B) m q (bs_fair w) = Some (Json x)"
  shows "\<exists>f. inflight_data (batch_fair_options B) m q f = None
    \<and> slots_freed (batch_fair_options B) (descriptor_of (batch_fair_options B) q (Some x) (bs_fair w)) m f
    \<and> finish_item rnd B completionCallback (call_of B x meta) m q result w
      = whenever (getProcessedCount (bp_batchId (sm_payload x)) (recorded (sm_payload x) result w) = bm_runCount meta)
          (finalizeBatch completionCallback (bp_batchId (sm_payload x))) ((recorded (sm_payload x) result w)\<lparr>bs_fair := f\<rparr>)"
proof -
  let ?F = "batch_fair_options B" and ?c = "call_of B x meta" and ?v = "recorded (sm_payload x) result w"
  have counted: "record_result rnd B ?c m q result w = (Inr (Some (getProcessedCount (bp_batchId (sm_payload x)) ?v)), ?v)"
    using record_result_counts [of B ?c result rnd m q w] assms(1) by (simp add: call_of_def)
  have found: "inflight_data ?F m q (bs_fair ?v) = Some (Json x)" using assms(3) by simp
  then obtain f where f: "completeMessage ?F m q (bs_fair ?v) = (Inr (), f)" "inflight_data ?F m q f = None"
    "slots_freed ?F (descriptor_of ?F q (Some x) (bs_fair ?v)) m f"
    using completeMessage_ends [OF batch_keys_ok _ found] assms(2)
    by (auto simp: batch_fair_options_def)
  with counted show ?thesis
    by (intro exI [of _ f]) (simp add: finish_item_def andThen_def andDo_def in_fair_def call_of_def)
qed

text \<open>Every key a batch has in Redis.\<close>

definition batch_keys_of :: "string \<Rightarrow> batch_state \<Rightarrow> batch_meta option \<times> zset \<times> batch_item_failure list
    \<times> nat option \<times> string list \<times> string list" where
  "batch_keys_of b w = (bs_meta w b, bs_runs w b, bs_failures w b, bs_processed w b, bs_processedItems w b, bs_enqueuedItems w b)"

text \<open>
  C15. A batch item in flight, whose data and whose batch's metadata are stored, is settled by the call of
  the callback. Where the answer is a failure that may be retried and attempts are left, it waits in
  its queue again one attempt later, and nothing is counted. Otherwise its message is in flight no
  longer, its slot is free, and it is counted: the last item of the batch hands the counts to the
  completion callback, after which each of the six keys of the batch (metadata, runs, failures,
  count, items counted, items enqueued) is gone and those of every other batch are as they were;
  where that callback throws, the keys stay but no message of the item does.
\<close>

theorem batch_item_settled:
  assumes "1 \<le> or_default (bo_shardCount B) 1" "inflight_data (batch_fair_options B) m q (bs_fair w) = Some (Json x)"
    and "sm_id x = m" "0 < sm_attempt x" "bs_meta w (bp_batchId (sm_payload x)) = Some meta"
    and "handleMessage rnd B processItemCallback completionCallback m q w = (r, w')"
  shows "let F = batch_fair_options B; b = bp_batchId (sm_payload x); result = processItemCallback (call_of B x meta);
      v = recorded (sm_payload x) result w; counts = getCompletionResult b v in
    if left_to_retry B (sm_attempt x) result
    then r = Inr () \<and> w' = w\<lparr>bs_fair := bs_fair w'\<rparr> \<and> (\<exists>delay. next_delay rnd F (sm_attempt x) = Some delay
      \<and> waits_again F (getShardForQueue F q) q m (fs_now (bs_fair w) + delay) (Json (x\<lparr>sm_attempt := sm_attempt x + 1\<rparr>)) (bs_fair w'))
    else inflight_data F m q (bs_fair w') = None \<and> slots_freed F (descriptor_of F q (Some x) (bs_fair w)) m (bs_fair w')
      \<and> (if getProcessedCount b v = bm_runCount meta then
           (case completionCallback counts of
              None \<Rightarrow> r = Inr () \<and> bs_completed w' = bs_completed w @ [counts]
                \<and> (\<forall>b'. batch_keys_of b' w' = (if b' = b then (None, [], [], None, [], []) else batch_keys_of b' v))
            | Some e \<Rightarrow> r = Inl e \<and> w' = v\<lparr>bs_fair := bs_fair w'\<rparr>)
         else r = Inr () \<and> w' = v\<lparr>bs_fair := bs_fair w'\<rparr>)"
proof -
  let ?F = "batch_fair_options B" and ?b = "bp_batchId (sm_payload x)"
  define result where "result = processItemCallback (call_of B x meta)"
  define v where "v = recorded (sm_payload x) result w"
  have run: "finish_item rnd B completionCallback (call_of B x meta) m q result w = (r, w')"
    using assms(6) begin_item_eq [OF assms(2,5)] by (simp add: handleMessage_def andThen_def result_def)
  show ?thesis
  proof (cases "left_to_retry B (sm_attempt x) result")
    case True
    from finish_retry [OF this assms(1,4,2,3), of rnd completionCallback meta] run True show ?thesis
      by (auto simp: Let_def result_def)
  next
    case False
    obtain f where f: "inflight_data ?F m q f = None" "slots_freed ?F (descriptor_of ?F q (Some x) (bs_fair w)) m f"
      "(r, w') = whenever (getProcessedCount ?b v = bm_runCount meta) (finalizeBatch completionCallback ?b) (v\<lparr>bs_fair := f\<rparr>)"
      using finish_counted [OF False assms(1,2), of rnd completionCallback meta] run by (auto simp: v_def)
    have counts: "getCompletionResult ?b (v\<lparr>bs_fair := f\<rparr>) = getCompletionResult ?b v"
      by (simp add: getCompletionResult_def getSuccessfulRuns_def)
    show ?thesis
    proof (cases "getProcessedCount ?b v = bm_runCount meta")
      case True
      with f False counts show ?thesis
        by (cases "completionCallback (getCompletionResult ?b v)")
          (auto simp: Let_def result_def [symmetric] v_def [symmetric] whenever_def finalizeBatch_def andThen_def reading_def
            throw_def andDo_def modify_def cleanup_def batch_keys_of_def, simp_all add: v_def)
    next
      case no: False
      with f False show ?thesis
        by (auto simp: Let_def result_def [symmetric] v_def [symmetric] whenever_def ret_def)
    qed
  qed
qed

definition example_batch_options :: batch_options where
  "example_batch_options = \<lparr>bo_sha256 = (\<lambda>_. []), bo_shardCount = None, bo_defaultConcurrency = None, bo_workerQueueMaxDepth = None,
     bo_retry = None, bo_quantum = 5, bo_maxDeficit = 50, bo_masterQueueLimit = None\<rparr>"

definition example_item :: "batch_item_payload stored_message" where
  "example_item = \<lparr>sm_id = ''m1'', sm_queueId = ''q1'', sm_tenantId = ''e1'',
     sm_payload = \<lparr>bp_batchId = ''b1'', bp_friendlyId = ''batch_1'', bp_itemIndex = 0,
       bp_item = \<lparr>bi_task = ''t1'', bi_payload = Undefined, bi_payloadType = None, bi_options = None\<rparr>\<rparr>,
     sm_timestamp = 5, sm_attempt = 1, sm_workerQueue = None, sm_metadata = None\<rparr>"

definition example_meta :: batch_meta where
  "example_meta = \<lparr>bm_batchId = ''b1'', bm_friendlyId = ''batch_1'', bm_environmentId = ''e1'', bm_environmentType = PRODUCTION,
     bm_organizationId = ''o1'', bm_projectId = ''p1'', bm_runCount = 1, bm_createdAt = 0, bm_parentRunId = None,
     bm_resumeParentOnCompletion = None, bm_triggerVersion = None, bm_traceContext = None, bm_spanParentAsLink = None,
     bm_realtimeStreamsVersion = None, bm_idempotencyKey = None, bm_processingConcurrency = None, bm_planType = None,
     bm_triggerSource = None\<rparr>"

definition example_batches :: batch_state where
  "example_batches = empty_batches\<lparr>bs_meta := (\<lambda>_. None)(''b1'' := Some example_meta),
     bs_fair := empty_store\<lparr>fs_data := (\<lambda>k m. if m = ''m1'' then Some (Json example_item) else None)\<rparr>\<rparr>"

theorem batch_item_settled_witness:
  "batch_keys_of ''b1'' (snd (handleMessage 0 example_batch_options (\<lambda>_. Created ''r1'') (\<lambda>_. None) ''m1'' ''q1'' example_batches))
    = (None, [], [], None, [], [])"
proof -
  let ?run = "handleMessage 0 example_batch_options (\<lambda>_. Created ''r1'') (\<lambda>_. None) ''m1'' ''q1'' example_batches"
  have found: "inflight_data (batch_fair_options example_batch_options) ''m1'' ''q1'' (bs_fair example_batches) = Some (Json example_item)"
    by (simp add: inflight_data_def example_batches_def)
  have meta: "bs_meta example_batches (bp_batchId (sm_payload example_item)) = Some example_meta"
    by (simp add: example_batches_def example_item_def)
  have count: "getProcessedCount ''b1'' (recorded (sm_payload example_item) (Created ''r1'') example_batches) = 1"
    by (simp add: recorded_def tracker_defs getProcessedCount_def count_item_eq example_item_def)
      (simp add: example_batches_def empty_batches_def processed_value_def)
  have item: "sm_id example_item = ''m1''" "sm_attempt example_item = 1" "bp_batchId (sm_payload example_item) = ''b1''"
    "1 \<le> or_default (bo_shardCount example_batch_options) 1" "bm_runCount example_meta = 1"
    by (simp_all add: example_item_def example_batch_options_def example_meta_def)
  have "\<not> left_to_retry example_batch_options 1 (Created ''r1'')" by (simp add: left_to_retry_def)
  with batch_item_settled [OF item(4) found item(1) _ meta prod.collapse [symmetric],
      where rnd = 0 and processItemCallback = "\<lambda>_. Created ''r1''" and completionCallback = "\<lambda>_. None"] count
  show ?thesis by (simp add: item Let_def)
qed

end
