(* ===== verification/BatchCompletion.thy ===== *)
theory BatchCompletion
  imports BatchQueue Batches
begin

text \<open>
  The way of a streamed batch through the queue of its items and the run engine: blocking its parent
  (\<open>blockRunWithCreatedBatch\<close> of \<open>run-engine/src/engine/index.ts\<close>), streaming its items and sealing it
  (\<open>apps/webapp/app/runEngine/services/streamBatchItems.server.ts\<close>), and what the callback of the
  batch queue does at the end (\<open>handleBatchCompletion\<close> of
  \<open>apps/webapp/app/v3/runEngineHandlersShared.server.ts\<close>). The database is one here, so the choice of
  the one that owns the batch is left out.
\<close>

section \<open>The two halves\<close>

text \<open>A row of \<open>BatchTaskRunError\<close>; its id and time are left out.\<close>

record batch_error_row =
  be_batchTaskRunId :: string
  be_index :: nat
  be_taskIdentifier :: string
  be_payload :: string
  be_options :: "string option"
  be_error :: string
  be_errorCode :: "string option"

record batch_system =
  sy_queue :: batch_state
  sy_engine :: world
  sy_errors :: "batch_error_row list"

type_synonym 'a batch_service = "(batch_system, engine_error, 'a) handler"

definition in_queue :: "'a batching \<Rightarrow> 'a batch_service" where
  "in_queue m s =
     (case m (sy_queue s) of
        (Inl e, q) \<Rightarrow> (Inl (Error e), s\<lparr>sy_queue := q\<rparr>) | (Inr x, q) \<Rightarrow> (Inr x, s\<lparr>sy_queue := q\<rparr>))"

definition in_engine :: "'a engine \<Rightarrow> 'a batch_service" where
  "in_engine m s = (case m (sy_engine s) of (r, w) \<Rightarrow> (r, s\<lparr>sy_engine := w\<rparr>))"

section \<open>Blocking the parent\<close>

text \<open>A key that is taken is an error that is caught, so that nothing is blocked.\<close>

definition blockRunWithCreatedBatch ::
    "engine_options \<Rightarrow> string \<Rightarrow> string \<Rightarrow> string \<Rightarrow> string \<Rightarrow> string \<Rightarrow> waitpoint option engine" where
  "blockRunWithCreatedBatch cfg runId batchId environmentId projectId organizationId =
     andThen (fresh_id ''waitpoint_'') (\<lambda>i.
     andThen (reading (find_by_key environmentId batchId)) (\<lambda>taken.
       if taken \<noteq> None then ret None
       else
         andThen (insertWaitpoint ((new_waitpoint i WP_BATCH batchId environmentId projectId)
             \<lparr>wp_completedByBatchId := Some batchId\<rparr>)) (\<lambda>x.
         andDo (blockRunWithWaitpoint cfg runId [wp_id x]
             \<lparr>ba_projectId = projectId, ba_organizationId = organizationId, ba_timeout = None, ba_spanIdToComplete = None,
              ba_batch = Some (batchId, None), ba_workerId = None, ba_runnerId = None\<rparr>)
           (ret (Some x)))))"

section \<open>Streaming the items\<close>

fun batch_status_name :: "BatchTaskRunStatus \<Rightarrow> string" where
  "batch_status_name BATCH_PENDING = ''PENDING''"
| "batch_status_name BATCH_PROCESSING = ''PROCESSING''"
| "batch_status_name BATCH_COMPLETED = ''COMPLETED''"
| "batch_status_name BATCH_PARTIAL_FAILED = ''PARTIAL_FAILED''"
| "batch_status_name BATCH_ABORTED = ''ABORTED''"

definition not_pending :: "string \<Rightarrow> BatchTaskRunStatus \<Rightarrow> engine_error" where
  "not_pending batchFriendlyId status = ServiceValidationError
     (''Batch '' @ batchFriendlyId @ '' is not in PENDING status (current: '' @ batch_status_name status @ '')'') 0"

definition unexpected_state :: "string \<Rightarrow> batch option \<Rightarrow> engine_error" where
  "unexpected_state batchFriendlyId current = ServiceValidationError
     (''Batch '' @ batchFriendlyId @ '' is in unexpected state (status: ''
       @ (case current of None \<Rightarrow> ''unknown'' | Some x \<Rightarrow> batch_status_name (bt_status x)) @ '', sealed: ''
       @ (case current of None \<Rightarrow> ''unknown'' | Some x \<Rightarrow> if bt_sealed x then ''true'' else ''false'')
       @ ''). Cannot seal batch.'') 0"

definition isIdempotentRetrySuccess :: "batch option \<Rightarrow> bool" where
  "isIdempotentRetrySuccess found =
     (case found of
        None \<Rightarrow> False
      | Some x \<Rightarrow> bt_status x \<in> {BATCH_PROCESSING, BATCH_COMPLETED, BATCH_PARTIAL_FAILED}
          \<or> (bt_status x = BATCH_PENDING \<and> (bt_sealed x \<or> bt_processingCompletedAt x \<noteq> None)))"

text \<open>
  An item of the stream as it was parsed: with its index, or the message of its rejection.
  Offloading a large payload, and the item that stands for one that is too large, are the service's
  own; the item here is the one to be enqueued.
\<close>

definition processItem :: "batch_options \<Rightarrow> string \<Rightarrow> string \<Rightarrow> int \<Rightarrow> string \<times> (string + nat \<times> batch_item) \<Rightarrow> bool batch_service" where
  "processItem B batchId environmentId runCount x =
     (case x of (nanoid, item) \<Rightarrow>
        (case item of
           Inl message \<Rightarrow> throw (ServiceValidationError message 0)
         | Inr (i, y) \<Rightarrow>
             if int i \<ge> runCount
             then throw (ServiceValidationError
               (''Item index '' @ nat_to_string i @ '' exceeds batch runCount '' @ nat_to_string (nat runCount)) 0)
             else in_queue (enqueueBatchItem B nanoid batchId environmentId i y)))"

text \<open>The answers, accepted or not, of the items up to the first that throws.\<close>

fun processItems ::
    "batch_options \<Rightarrow> string \<Rightarrow> string \<Rightarrow> int \<Rightarrow> (string \<times> (string + nat \<times> batch_item)) list \<Rightarrow> bool list batch_service" where
  "processItems B batchId environmentId runCount [] = ret []"
| "processItems B batchId environmentId runCount (x # xs) =
     andThen (processItem B batchId environmentId runCount x) (\<lambda>accepted.
     andThen (processItems B batchId environmentId runCount xs) (\<lambda>rest. ret (accepted # rest)))"

record stream_response =
  st_itemsAccepted :: nat
  st_itemsDeduplicated :: nat
  st_sealed :: bool

definition stream_response :: "bool list \<Rightarrow> bool \<Rightarrow> stream_response" where
  "stream_response outcomes isSealed =
     \<lparr>st_itemsAccepted = length (filter id outcomes), st_itemsDeduplicated = length (filter Not outcomes), st_sealed = isSealed\<rparr>"

definition seal_row :: "int \<Rightarrow> batch \<Rightarrow> batch" where
  "seal_row now x = x\<lparr>bt_sealed := True, bt_sealedAt := Some now, bt_status := BATCH_PROCESSING, bt_processingStartedAt := Some now\<rparr>"

text \<open>
  The end of the stream, for the number of items the tracker has seen. Where it is not the batch's,
  or another server was first, the row is read again.
\<close>

definition sealBatch :: "string \<Rightarrow> string \<Rightarrow> int \<Rightarrow> nat \<Rightarrow> bool list \<Rightarrow> stream_response engine" where
  "sealBatch batchFriendlyId batchId runCount enqueuedCount outcomes =
     (if int enqueuedCount \<noteq> runCount then
        andThen (reading (batch_of batchId)) (\<lambda>current.
          if isIdempotentRetrySuccess current then ret (stream_response outcomes True)
          else if map_option bt_status current = Some BATCH_ABORTED
            then throw (not_pending batchFriendlyId BATCH_ABORTED)
          else ret (stream_response outcomes False))
      else
        andThen the_time (\<lambda>now.
        andThen (updateBatches (still_open batchId) (seal_row now)) (\<lambda>n.
          if n \<noteq> 0 then ret (stream_response outcomes True)
          else
            andThen (reading (batch_of batchId)) (\<lambda>current.
              if isIdempotentRetrySuccess current then ret (stream_response outcomes True)
              else throw (unexpected_state batchFriendlyId current)))))"

definition streamBatchItems ::
    "batch_options \<Rightarrow> string \<Rightarrow> string \<Rightarrow> string \<Rightarrow> (string \<times> (string + nat \<times> batch_item)) list \<Rightarrow> stream_response batch_service" where
  "streamBatchItems B environmentId batchFriendlyId batchId items =
     andThen (in_engine (reading (batch_of batchId))) (\<lambda>found.
       case found of
         None \<Rightarrow> throw (ServiceValidationError (''Batch '' @ batchFriendlyId @ '' not found'') 0)
       | Some x \<Rightarrow>
           if bt_runtimeEnvironmentId x \<noteq> environmentId then throw (ServiceValidationError (''Batch '' @ batchFriendlyId @ '' not found'') 0)
           else if isIdempotentRetrySuccess (Some x) then ret (stream_response [] True)
           else if bt_status x \<noteq> BATCH_PENDING then throw (not_pending batchFriendlyId (bt_status x))
           else
             andThen (processItems B batchId environmentId (bt_runCount x) items) (\<lambda>outcomes.
             andThen (in_queue (reading (getEnqueuedCount batchId))) (\<lambda>enqueuedCount.
               in_engine (sealBatch batchFriendlyId batchId (bt_runCount x) enqueuedCount outcomes))))"

section \<open>The end of the batch\<close>

definition QUEUE_SIZE_LIMIT_EXCEEDED_ERROR_CODE :: string where
  "QUEUE_SIZE_LIMIT_EXCEEDED_ERROR_CODE = ''QUEUE_SIZE_LIMIT_EXCEEDED''"

definition completion_status :: "complete_batch_result \<Rightarrow> BatchTaskRunStatus" where
  "completion_status result =
     (if cr_failedRunCount result > 0 \<and> cr_successfulRunCount result = 0 then BATCH_ABORTED
      else if cr_failedRunCount result > 0 then BATCH_PARTIAL_FAILED
      else BATCH_PENDING)"

definition completion_row :: "int \<Rightarrow> complete_batch_result \<Rightarrow> batch \<Rightarrow> batch" where
  "completion_row now result x =
     x\<lparr>bt_status := completion_status result, bt_runIds := cr_runIds result,
       bt_successfulRunCount := Some (int (cr_successfulRunCount result)),
       bt_failedRunCount := Some (int (cr_failedRunCount result)),
       bt_completedAt := (if completion_status result = BATCH_ABORTED then Some now else bt_completedAt x),
       bt_processingCompletedAt := Some now\<rparr>"

definition error_row :: "string \<Rightarrow> batch_item_failure \<Rightarrow> batch_error_row" where
  "error_row batchId f =
     \<lparr>be_batchTaskRunId = batchId, be_index = bf_index f, be_taskIdentifier = bf_taskIdentifier f, be_payload = bf_payload f,
      be_options = bf_options f, be_error = bf_error f, be_errorCode = bf_errorCode f\<rparr>"

text \<open>Where every item failed at the limit of a queue, one row stands for all of them.\<close>

definition error_rows :: "complete_batch_result \<Rightarrow> batch_error_row list" where
  "error_rows result =
     (case cr_failures result of
        [] \<Rightarrow> []
      | sample # rest \<Rightarrow>
          if list_all (\<lambda>f. bf_errorCode f = Some QUEUE_SIZE_LIMIT_EXCEEDED_ERROR_CODE) (sample # rest)
          then [(error_row (cr_batchId result) sample)
            \<lparr>be_error := bf_error sample @ '' ('' @ nat_to_string (length (sample # rest))
               @ '' items in this batch failed with the same error)''\<rparr>]
          else map (error_row (cr_batchId result)) (sample # rest))"

text \<open>\<open>createMany\<close> with \<open>skipDuplicates\<close>: a row whose batch and index are taken is left out.\<close>

definition createErrors :: "batch_error_row list \<Rightarrow> unit batch_service" where
  "createErrors rows = modify (\<lambda>s. s\<lparr>sy_errors := fold (\<lambda>x old.
     if list_ex (\<lambda>y. be_batchTaskRunId y = be_batchTaskRunId x \<and> be_index y = be_index x) old then old else old @ [x])
     rows (sy_errors s)\<rparr>)"

text \<open>The transaction and, unless the batch is aborted, the check of whether its runs have ended.\<close>

definition handleBatchCompletion :: "complete_batch_result \<Rightarrow> unit batch_service" where
  "handleBatchCompletion result =
     andThen (in_engine (andThen the_time (\<lambda>now.
       updateBatches (\<lambda>x. bt_id x = cr_batchId result) (completion_row now result)))) (\<lambda>n.
       if n = 0 then throw RecordNotFound
       else
         andDo (createErrors (error_rows result))
           (whenever (completion_status result \<noteq> BATCH_ABORTED) (in_engine (scheduleCompleteBatch (cr_batchId result)))))"

end
