(* ===== verification/BatchEndings.thy ===== *)
theory BatchEndings
  imports BatchCompletion BatchQueueOutcomes BatchOutcomes
begin

text \<open>
  What becomes of a streamed batch in the end: the row it leaves, and the ways in which the counts
  that are reported, the rejection of all its items or the race of its last item with the stream
  leave its parent waiting or fail it.
\<close>

section \<open>The row of a batch\<close>

lemma completion_row_id [simp]: "bt_id (completion_row now result x) = bt_id x"
  by (simp add: completion_row_def)

definition reported :: "complete_batch_result \<Rightarrow> batch_system \<Rightarrow> batch \<Rightarrow> batch_system \<Rightarrow> bool" where
  "reported result s x s' =
     (batch_of (cr_batchId result) (sy_engine s') = Some (completion_row (en_now (sy_engine s)) result x)
      \<and> en_waitpoints (sy_engine s') = en_waitpoints (sy_engine s) \<and> en_runs (sy_engine s') = en_runs (sy_engine s)
      \<and> en_now (sy_engine s') = en_now (sy_engine s) \<and> sy_queue s' = sy_queue s)"

lemma completion_row_again: "completion_row now result (completion_row now result x) = completion_row now result x"
  by (simp add: completion_row_def)

text \<open>The state that is left, in full.\<close>

definition with_errors :: "batch_error_row list \<Rightarrow> batch_error_row list \<Rightarrow> batch_error_row list" where
  "with_errors rows old = fold (\<lambda>x old.
     if list_ex (\<lambda>y. be_batchTaskRunId y = be_batchTaskRunId x \<and> be_index y = be_index x) old then old else old @ [x]) rows old"

definition completed_engine :: "complete_batch_result \<Rightarrow> world \<Rightarrow> world" where
  "completed_engine result w =
     (let v = w\<lparr>en_batches := map (\<lambda>y. if bt_id y = cr_batchId result then completion_row (en_now w) result y else y) (en_batches w)\<rparr>
      in if completion_status result = BATCH_ABORTED then v
         else state_after (scheduleCompleteBatch (cr_batchId result)) v)"

definition completed_system :: "complete_batch_result \<Rightarrow> batch_system \<Rightarrow> batch_system" where
  "completed_system result s =
     s\<lparr>sy_engine := completed_engine result (sy_engine s), sy_errors := with_errors (error_rows result) (sy_errors s)\<rparr>"

lemma completed_engine_parts [simp]:
  "en_waitpoints (completed_engine result w) = en_waitpoints w" "en_runs (completed_engine result w) = en_runs w"
  "en_now (completed_engine result w) = en_now w"
  "en_batches (completed_engine result w)
     = map (\<lambda>y. if bt_id y = cr_batchId result then completion_row (en_now w) result y else y) (en_batches w)"
  "en_jobs (completed_engine result w) = (if completion_status result = BATCH_ABORTED then en_jobs w
     else (en_jobs w)(batch_job (cr_batchId result) := Some \<lparr>jb_payload = tryCompleteBatchJob (cr_batchId result), jb_availableAt = en_now w + 200\<rparr>))"
  by (simp_all add: completed_engine_def Let_def state_after_def scheduleCompleteBatch_def andThen_def the_time_def enqueueJob_def
      modify_def reading_def)

lemma completion_eq:
  assumes "batch_of (cr_batchId result) (sy_engine s) = Some x"
  shows "handleBatchCompletion result s = (Inr (), completed_system result s)"
proof -
  let ?b = "cr_batchId result"
  let ?w = "(sy_engine s)\<lparr>en_batches := map (\<lambda>y. if bt_id y = ?b then completion_row (en_now (sy_engine s)) result y else y) (en_batches (sy_engine s))\<rparr>"
  let ?n = "length (filter (\<lambda>y. bt_id y = ?b) (en_batches (sy_engine s)))"
  have "x \<in> set (en_batches (sy_engine s))" "bt_id x = ?b"
    using assms by (auto simp: batch_of_def find_Some_iff)
  then have n: "?n \<noteq> 0" by (auto simp: filter_empty_conv)
  have update: "in_engine (andThen the_time (\<lambda>now. updateBatches (\<lambda>x. bt_id x = ?b) (completion_row now result))) s
      = (Inr ?n, s\<lparr>sy_engine := ?w\<rparr>)"
    by (simp add: in_engine_def andThen_def the_time_def reading_def updateBatches_def)
  have "handleBatchCompletion result s = andDo (createErrors (error_rows result))
      (whenever (completion_status result \<noteq> BATCH_ABORTED) (in_engine (scheduleCompleteBatch ?b))) (s\<lparr>sy_engine := ?w\<rparr>)"
    using n by (simp only: handleBatchCompletion_def andThen_def [of "in_engine (andThen m f)" for m f] update) simp
  then show ?thesis
    by (auto simp: andDo_def andThen_def createErrors_def modify_def whenever_def ret_def in_engine_def completed_system_def
        completed_engine_def with_errors_def state_after_def scheduleCompleteBatch_def the_time_def reading_def enqueueJob_def Let_def)
qed

lemma completion_effect:
  assumes "batch_of (cr_batchId result) (sy_engine s) = Some x" "handleBatchCompletion result s = (r, s')"
  shows "r = Inr () \<and> s' = completed_system result s \<and> reported result s x s'"
proof -
  have "bt_id x = cr_batchId result" using assms(1) by (auto simp: batch_of_def find_Some_iff)
  then show ?thesis
    using assms completion_eq [OF assms(1)] by (auto simp: reported_def completed_system_def batch_of_def find_map_batch)
qed

lemma with_errors_again: "with_errors rows (with_errors rows old) = with_errors rows old"
proof -
  let ?taken = "\<lambda>x old. list_ex (\<lambda>y. be_batchTaskRunId y = be_batchTaskRunId x \<and> be_index y = be_index x) old"
  have more: "?taken x old \<Longrightarrow> ?taken x (with_errors rows old)" for x rows old
    by (induction rows arbitrary: old) (auto simp: with_errors_def)
  have all: "\<forall>x \<in> set rows. ?taken x (with_errors rows old)" for old
  proof (induction rows arbitrary: old)
    case (Cons x rows)
    let ?old = "if ?taken x old then old else old @ [x]"
    have "?taken x ?old" by simp
    from more [OF this, of rows] Cons [of ?old] show ?case by (simp add: with_errors_def)
  qed simp
  have "\<forall>x \<in> set xs. ?taken x old \<Longrightarrow> with_errors xs old = old" for xs old
    by (induction xs) (auto simp: with_errors_def)
  with all show ?thesis by blast
qed

lemma completed_again: "completed_system result (completed_system result s) = completed_system result s"
proof -
  have "completed_engine result (completed_engine result w) = completed_engine result w" for w
    by (rule world.equality)
      (auto simp: completed_engine_def Let_def state_after_def scheduleCompleteBatch_def andThen_def the_time_def enqueueJob_def
        modify_def reading_def completion_row_again intro!: map_cong)
  then show ?thesis by (simp add: completed_system_def with_errors_again)
qed

text \<open>
  What the callback of the batch queue does at the end of a batch: the row has the runs and the
  counts, and is aborted if no item became a run, partly failed if some did not; unless aborted, the
  check for its completion is scheduled. Doing it again changes nothing.
\<close>

theorem completion_reported_once:
  assumes "batch_of (cr_batchId result) (sy_engine s) = Some x" "handleBatchCompletion result s = (r, s')"
  shows "r = Inr () \<and> reported result s x s'
    \<and> (completion_status result \<noteq> BATCH_ABORTED \<longrightarrow> en_jobs (sy_engine s') (batch_job (cr_batchId result)) \<noteq> None)
    \<and> handleBatchCompletion result s' = (Inr (), s')"
proof -
  have eff: "r = Inr ()" "s' = completed_system result s" "reported result s x s'"
    using completion_effect [OF assms] by blast+
  then have "batch_of (cr_batchId result) (sy_engine s') = Some (completion_row (en_now (sy_engine s)) result x)"
    by (simp only: reported_def)
  from completion_eq [OF this] have "handleBatchCompletion result s' = (Inr (), s')"
    by (simp only: eff(2) completed_again)
  moreover have "completion_status result \<noteq> BATCH_ABORTED \<longrightarrow> en_jobs (sy_engine s') (batch_job (cr_batchId result)) \<noteq> None"
    by (simp add: eff(2) completed_system_def)
  ultimately show ?thesis using eff(1,3) by blast
qed

section \<open>Batches that strand their parent\<close>

text \<open>A row at which neither the check for completion nor the timeout does anything.\<close>

definition inert :: "batch \<Rightarrow> bool" where
  "inert x = (bt_sealed x \<and> (bt_status x = BATCH_ABORTED \<or> (bt_status x \<noteq> BATCH_COMPLETED \<and> processed_count x < bt_runCount x)))"

lemma update_none: "(\<And>x. x \<in> set xs \<Longrightarrow> \<not> p x) \<Longrightarrow> map (\<lambda>x. if p x then f x else x) xs = xs"
  by (induction xs) auto

lemma batch_unique: "distinct (map bt_id (en_batches w)) \<Longrightarrow> batch_of b w = Some x \<Longrightarrow> y \<in> set (en_batches w) \<Longrightarrow> bt_id y = b \<Longrightarrow> y = x"
  by (auto simp: batch_of_def find_Some_iff distinct_map dest: inj_onD nth_mem)

lemma inert_stays:
  assumes "batch_of b w = Some x" "inert x" "distinct (map bt_id (en_batches w))"
  shows "batch_step w (CompleteBatchJob b) = w \<and> batch_step w (ExpireBatchJob b) = w"
proof -
  have "batch_step w (ExpireBatchJob b) = w"
    using assms(1,2) by (simp add: inert_def expireBatch_def state_after_def andThen_def reading_def ret_def)
  moreover have "batch_step w (CompleteBatchJob b) = w"
  proof (cases "bt_status x = BATCH_ABORTED")
    case True
    let ?p = "\<lambda>y. bt_id y = b \<and> bt_status y \<notin> {BATCH_ABORTED, BATCH_COMPLETED}"
    have none: "\<not> ?p y" if "y \<in> set (en_batches w)" for y
      using batch_unique [OF assms(3,1) that] True by auto
    then have "updateBatches ?p (\<lambda>y. y\<lparr>bt_status := BATCH_COMPLETED\<rparr>) w = (Inr 0, w)"
      using update_none [of "en_batches w" ?p] by (simp add: updateBatches_def filter_empty_conv)
    with assms(1) True show ?thesis
      by (simp add: tryCompleteBatch_def state_after_def andThen_def reading_def ret_def)
  next
    case False
    with assms(1,2) show ?thesis
      by (simp add: inert_def tryCompleteBatch_def state_after_def andThen_def reading_def ret_def)
  qed
  ultimately show ?thesis by blast
qed

text \<open>
  A batch whose items gave the same run twice never completes: the tracker has counted every item,
  but reports each run once, so the row says that items are still to come. Whatever the runs do,
  no check completes the batch, no timeout ends it, and its waitpoint is left pending.
\<close>

theorem repeated_run_strands_batch:
  assumes "distinct (map fst items)" "\<not> distinct (map snd items)"
    and "batch_of b (sy_engine s) = Some x" "bt_batchVersion x = ''runengine:v2''" "bt_runCount x = int (length items)" "bt_sealed x"
    and "handleBatchCompletion (getCompletionResult b (foldl tracker_step empty_batches (map (created b) items))) s = (r, s')"
  shows "getProcessedCount b (foldl tracker_step empty_batches (map (created b) items)) = length items
    \<and> r = Inr () \<and> en_waitpoints (sy_engine s') = en_waitpoints (sy_engine s)
    \<and> (\<forall>w. batch_of b w = batch_of b (sy_engine s') \<and> distinct (map bt_id (en_batches w)) \<longrightarrow>
        batch_step w (CompleteBatchJob b) = w \<and> batch_step w (ExpireBatchJob b) = w)"
proof -
  let ?q = "foldl tracker_step empty_batches (map (created b) items)" and ?result = "getCompletionResult b (foldl tracker_step empty_batches (map (created b) items))"
  have ok: "counts_ok ?q" by (rule tracker.run_inv [OF empty_counts])
  have processed: "getProcessedCount b ?q = length items" by (rule created_count [OF assms(1)])
  have runs: "zmembers (bs_runs ?q b) = snd ` set items" "bs_failures ?q b = []"
    using recorded_runs [OF assms(1), of empty_batches b] by (simp_all add: empty_batches_def zmembers_def)
  have "length (bs_runs ?q b) = card (zmembers (bs_runs ?q b))"
    using ok distinct_card [of "map fst (bs_runs ?q b)"] by (simp add: counts_ok_def zset_ok_def zmembers_def)
  also have "\<dots> < length items"
    using assms(2) card_distinct [of "map snd items"] card_length [of "map snd items"] by (force simp: runs le_less)
  finally have few: "cr_successfulRunCount ?result + cr_failedRunCount ?result < length items"
    by (simp add: getCompletionResult_def getSuccessfulRuns_def runs(2))
  have b: "cr_batchId ?result = b" by (simp add: getCompletionResult_def)
  have eff: "r = Inr ()" "reported ?result s x s'"
    using completion_effect [of ?result s x r s', unfolded b, OF assms(3,7)] by blast+
  have "inert (completion_row (en_now (sy_engine s)) ?result x)"
    using few assms(4-6) runs(2)
    by (auto simp: inert_def completion_row_def processed_count_def or_default_def completion_status_def)
  then show ?thesis
    using processed eff inert_stays [of b] b by (auto simp: reported_def)
qed

text \<open>A batch of two items whose stream has sealed it.\<close>

definition example_system :: "batch \<Rightarrow> batch_system" where
  "example_system x = \<lparr>sy_queue = empty_batches, sy_engine = batch_world\<lparr>en_batches := [x]\<rparr>, sy_errors = []\<rparr>"

lemma example_system: "bt_id x = b \<Longrightarrow> batch_of b (sy_engine (example_system x)) = Some x"
  by (simp add: example_system_def batch_of_def)

theorem repeated_run_strands_batch_witness:
  "let items = [(0, ''r''), (1, ''r'')];
       s' = snd (handleBatchCompletion (getCompletionResult ''b1'' (foldl tracker_step empty_batches (map (created ''b1'') items)))
         (example_system (example_batch\<lparr>bt_runCount := 2\<rparr>)))
   in batch_step (sy_engine s') (CompleteBatchJob ''b1'') = sy_engine s'"
proof -
  let ?x = "example_batch\<lparr>bt_runCount := 2\<rparr>" and ?items = "[(0, ''r''), (1, ''r'')] :: (nat \<times> string) list"
  let ?result = "getCompletionResult ''b1'' (foldl tracker_step empty_batches (map (created ''b1'') ?items))"
  have x: "batch_of ''b1'' (sy_engine (example_system ?x)) = Some ?x" by (rule example_system) (simp add: example_batch_def)
  have "distinct (map bt_id (en_batches (sy_engine (snd (handleBatchCompletion ?result (example_system ?x))))))"
    using completion_eq [of ?result "example_system ?x" ?x] x
    by (simp add: getCompletionResult_def completed_system_def example_system_def)
  with repeated_run_strands_batch [of ?items, OF _ _ x _ _ _ prod.collapse [symmetric]]
  show ?thesis by (simp add: Let_def example_batch_def)
qed

text \<open>
  C34. A batch of which no item became a run strands the parent that waits for it: where the stream has
  sealed it, its row is aborted, and neither the check for completion nor the timeout completes
  its waitpoint.
\<close>

theorem rejected_batch_strands_parent:
  assumes "batch_of (cr_batchId result) (sy_engine s) = Some x" "bt_sealed x"
    and "cr_successfulRunCount result = 0" "0 < cr_failedRunCount result"
    and "handleBatchCompletion result s = (r, s')"
  shows "r = Inr () \<and> map_option bt_status (batch_of (cr_batchId result) (sy_engine s')) = Some BATCH_ABORTED
    \<and> en_waitpoints (sy_engine s') = en_waitpoints (sy_engine s) \<and> en_jobs (sy_engine s') = en_jobs (sy_engine s)
    \<and> (\<forall>w. batch_of (cr_batchId result) w = batch_of (cr_batchId result) (sy_engine s') \<and> distinct (map bt_id (en_batches w)) \<longrightarrow>
        batch_step w (CompleteBatchJob (cr_batchId result)) = w \<and> batch_step w (ExpireBatchJob (cr_batchId result)) = w)"
proof -
  let ?b = "cr_batchId result"
  note eff = completion_effect [OF assms(1,5)]
  have aborted: "completion_status result = BATCH_ABORTED" using assms(3,4) by (simp add: completion_status_def)
  then have "inert (completion_row (en_now (sy_engine s)) result x)"
    using assms(2) by (simp add: inert_def completion_row_def)
  moreover have "en_jobs (sy_engine s') = en_jobs (sy_engine s)"
    using eff aborted by (simp add: completed_system_def)
  ultimately show ?thesis
    using eff inert_stays aborted by (auto simp: reported_def completion_row_def)
qed

definition example_rejection :: complete_batch_result where
  "example_rejection = \<lparr>cr_batchId = ''b1'', cr_runIds = [], cr_successfulRunCount = 0, cr_failedRunCount = 1, cr_failures = []\<rparr>"

theorem rejected_batch_strands_parent_witness:
  "map_option bt_status (batch_of ''b1'' (sy_engine (snd (handleBatchCompletion example_rejection (example_system example_batch))))) = Some BATCH_ABORTED"
proof -
  have "batch_of (cr_batchId example_rejection) (sy_engine (example_system example_batch)) = Some example_batch"
    by (rule example_system) (simp add: example_batch_def example_rejection_def)
  from rejected_batch_strands_parent [OF this _ _ _ prod.collapse [symmetric]] show ?thesis
    by (simp add: example_batch_def example_rejection_def)
qed

section \<open>Streams that end after their batch\<close>

lemma expired_open_batch:
  assumes "batch_of b w = Some y" "bt_status y = BATCH_PENDING" "\<not> bt_sealed y"
    and "batch_waitpoint b w = Some z" "wp_status z = WP_PENDING"
  shows "map_option bt_status (batch_of b (state_after (expireBatch b) w)) = Some BATCH_ABORTED
    \<and> map_option wp_outputIsError (batch_waitpoint b (state_after (expireBatch b) w)) = Some True
    \<and> en_runs (state_after (expireBatch b) w) = en_runs w"
proof -
  let ?w = "w\<lparr>en_batches := map (\<lambda>x. if still_open b x then abort_row (en_now w) x else x) (en_batches w)\<rparr>"
  let ?out = "error_output (never_created y)"
  have y: "y \<in> set (en_batches w)" "bt_id y = b" using assms(1) by (auto simp: batch_of_def find_Some_iff)
  then have n: "filter (still_open b) (en_batches w) \<noteq> []"
    using assms(2,3) by (auto simp: filter_empty_conv still_open_def)
  have row: "batch_of b ?w = Some (abort_row (en_now w) y)"
    using assms(1-3) y(2) by (simp add: batch_of_def find_map_batch abort_row_def still_open_def)
  have after: "state_after (expireBatch b) w = snd (completeWaitpoint (wp_id z) (Some ?out) ?w)"
    using assms(1-4) n
    by (auto simp: expireBatch_def state_after_def andThen_def andDo_def the_time_def reading_def updateBatches_def ret_def
        complete_batch_waitpoint_def batch_waitpoint_def filter_empty_conv split: sum.split prod.split)
  obtain w' where w': "snd (completeWaitpoint (wp_id z) (Some ?out) ?w) = w'" "core w' = core ?w"
    "en_waitpoints w' = completed_rows (en_now w) (wp_id z) (Some ?out) (en_waitpoints w)"
    using completeWaitpoint_effect [of "wp_id z" "Some ?out" ?w] by auto
  have "batch_waitpoint b w' = Some (complete_row (en_now w) (Some ?out) z)"
    using assms(4,5) w'(3) by (simp add: batch_waitpoint_def find_completed complete_row_def)
  moreover have "en_batches w' = en_batches ?w"
    using batches_completeWaitpoint [of "wp_id z" "Some ?out" ?w] w'(1) by simp
  moreover have "en_runs w' = en_runs w" using w'(2) by (simp add: core_def)
  ultimately show ?thesis
    using row w'(1) by (simp add: after complete_row_def error_output_def batch_of_def abort_row_def)
qed

text \<open>
  A stream whose items were all handled before it counted them answers that the batch is sealed,
  but does not seal it, so the timeout fails the batch that was fully created: it is aborted and
  the parent's waitpoint is completed with an error, while the runs go on.
\<close>

theorem finished_stream_expires:
  assumes "batch_of b (sy_engine s) = Some x" "\<not> bt_sealed x" "bt_runCount x \<noteq> 0"
    and "cr_batchId result = b" "cr_failedRunCount result = 0"
    and "handleBatchCompletion result s = (r, s')"
  shows "sealBatch friendlyId b (bt_runCount x) 0 outcomes (sy_engine s') = (Inr (stream_response outcomes True), sy_engine s')
    \<and> (\<forall>w z. batch_of b w = batch_of b (sy_engine s') \<and> distinct (map bt_id (en_batches w))
          \<and> batch_waitpoint b w = Some z \<and> wp_status z = WP_PENDING \<longrightarrow>
        map_option bt_status (batch_of b (state_after (expireBatch b) w)) = Some BATCH_ABORTED
        \<and> map_option wp_outputIsError (batch_waitpoint b (state_after (expireBatch b) w)) = Some True
        \<and> en_runs (state_after (expireBatch b) w) = en_runs w)"
proof -
  let ?y = "completion_row (en_now (sy_engine s)) result x"
  have row: "batch_of b (sy_engine s') = Some ?y"
    using completion_effect [of result s x r s'] assms unfolding reported_def by blast
  have open_row: "bt_status ?y = BATCH_PENDING" "\<not> bt_sealed ?y" "bt_processingCompletedAt ?y \<noteq> None" "bt_id ?y = b"
    using assms by (auto simp: completion_row_def completion_status_def batch_of_def find_Some_iff)
  then have "sealBatch friendlyId b (bt_runCount x) 0 outcomes (sy_engine s') = (Inr (stream_response outcomes True), sy_engine s')"
    using assms(3) row by (simp add: sealBatch_def andThen_def reading_def isIdempotentRetrySuccess_def ret_def)
  moreover have "map_option bt_status (batch_of b (state_after (expireBatch b) w)) = Some BATCH_ABORTED
        \<and> map_option wp_outputIsError (batch_waitpoint b (state_after (expireBatch b) w)) = Some True
        \<and> en_runs (state_after (expireBatch b) w) = en_runs w"
    if "batch_of b w = Some ?y" "batch_waitpoint b w = Some z" "wp_status z = WP_PENDING" for w z
    using expired_open_batch [OF that(1) open_row(1,2) that(2,3)] by blast
  ultimately show ?thesis using row by auto
qed

definition example_success :: complete_batch_result where
  "example_success = \<lparr>cr_batchId = ''b1'', cr_runIds = [''r''], cr_successfulRunCount = 1, cr_failedRunCount = 0, cr_failures = []\<rparr>"

theorem finished_stream_expires_witness:
  "let x = example_batch\<lparr>bt_sealed := False, bt_status := BATCH_PENDING\<rparr>;
       w = sy_engine (snd (handleBatchCompletion example_success (example_system x)))
   in map_option bt_status (batch_of ''b1'' (state_after (expireBatch ''b1'') w)) = Some BATCH_ABORTED"
proof -
  let ?x = "example_batch\<lparr>bt_sealed := False, bt_status := BATCH_PENDING\<rparr>"
  let ?w = "sy_engine (snd (handleBatchCompletion example_success (example_system ?x)))"
  have x: "batch_of ''b1'' (sy_engine (example_system ?x)) = Some ?x" by (rule example_system) (simp add: example_batch_def)
  have w: "?w = completed_engine example_success (sy_engine (example_system ?x))"
    using completion_eq [of example_success "example_system ?x" ?x] x by (simp add: completed_system_def example_success_def)
  have "distinct (map bt_id (en_batches ?w))" unfolding w by (simp add: example_system_def)
  moreover have "batch_waitpoint ''b1'' ?w = Some (example_waitpoint\<lparr>wp_completedByBatchId := Some ''b1''\<rparr>)"
    unfolding w by (simp add: batch_waitpoint_def example_system_def batch_world_def)
  moreover have "wp_status (example_waitpoint\<lparr>wp_completedByBatchId := Some ''b1''\<rparr>) = WP_PENDING"
    by (simp add: example_waitpoint_def)
  ultimately show ?thesis
    using finished_stream_expires [OF x _ _ _ _ prod.collapse [symmetric], of example_success] by (simp add: Let_def example_batch_def example_success_def)
qed

end
