(* ===== verification/JobQueue.thy ===== *)
theory JobQueue
  imports Prelude RetryDelay Redis Retrying
begin

text \<open>
  The queue of background jobs (\<open>packages/redis-worker/src/queue.ts\<close>): a sorted set of job ids by
  the time they become available, a hash of the jobs themselves, and the same pair for dead
  letters. Each Lua script is one function of the store.

  The package \<open>nanoid\<close>, the schemas of the jobs, and what \<open>cjson\<close> makes of a job's payload when it
  decodes and encodes it are arguments. No command fails. A job's text is what \<open>enqueue\<close>
  writes, so it always parses and names its job.
\<close>

record 'i serialized_item =
  si_job :: string
  si_item :: 'i
  si_visibilityTimeoutMs :: int
  si_attempt :: "int option"
  si_deduplicationKey :: "string option"
  si_errorMessage :: "string option"

record 'i queue_item =
  qi_id :: string
  qi_job :: string
  qi_item :: 'i
  qi_visibilityTimeoutMs :: int
  qi_attempt :: int
  qi_timestamp :: int
  qi_deduplicationKey :: "string option"

text \<open>\<open>jq_cancelled\<close> has the time at which a cancellation key expires.\<close>

record 'i job_queue =
  jq_queue :: zset
  jq_items :: "string \<Rightarrow> 'i serialized_item option"
  jq_dlq :: zset
  jq_dlqItems :: "string \<Rightarrow> 'i serialized_item option"
  jq_cancelled :: "string \<Rightarrow> int option"
  jq_now :: int
  jq_ids :: nat

definition empty_job_queue :: "'i job_queue" where
  "empty_job_queue = \<lparr>jq_queue = [], jq_items = (\<lambda>_. None), jq_dlq = [], jq_dlqItems = (\<lambda>_. None),
     jq_cancelled = (\<lambda>_. None), jq_now = 0, jq_ids = 0\<rparr>"

record 'i job_queue_options =
  qo_nanoid :: "nat \<Rightarrow> string"
  qo_schema :: "string \<Rightarrow> ('i \<Rightarrow> 'i option) option"
  qo_cjson :: "'i \<Rightarrow> 'i"

type_synonym ('i, 'a) queueing = "('i job_queue, string, 'a) handler"

section \<open>The scripts\<close>

definition put_item :: "string \<Rightarrow> int \<Rightarrow> 'i serialized_item \<Rightarrow> 'i job_queue \<Rightarrow> 'i job_queue" where
  "put_item i score x st =
     st\<lparr>jq_queue := zadd score i (jq_queue st), jq_items := (jq_items st)(i := Some x)\<rparr>"

definition drop_item :: "string \<Rightarrow> 'i job_queue \<Rightarrow> 'i job_queue" where
  "drop_item i st = st\<lparr>jq_queue := zrem i (jq_queue st), jq_items := (jq_items st)(i := None)\<rparr>"

definition enqueueItem :: "string \<Rightarrow> int \<Rightarrow> 'i serialized_item \<Rightarrow> 'i job_queue \<Rightarrow> int \<times> 'i job_queue" where
  "enqueueItem i score x st = (1, put_item i score x st)"

definition key_lives :: "string \<Rightarrow> 'i job_queue \<Rightarrow> bool" where
  "key_lives k st = (case jq_cancelled st k of None \<Rightarrow> False | Some t \<Rightarrow> jq_now st < t)"

definition enqueueItemWithCancellationKey ::
    "string \<Rightarrow> string \<Rightarrow> int \<Rightarrow> 'i serialized_item \<Rightarrow> 'i job_queue \<Rightarrow> int \<times> 'i job_queue" where
  "enqueueItemWithCancellationKey cancellationKey i score x st =
     (if key_lives cancellationKey st then (1, st) else (1, put_item i score x st))"

definition enqueueItemOnce :: "string \<Rightarrow> int \<Rightarrow> 'i serialized_item \<Rightarrow> 'i job_queue \<Rightarrow> int \<times> 'i job_queue" where
  "enqueueItemOnce i score x st =
     (if jq_items st i \<noteq> None then (0, st)
      else (1, st\<lparr>jq_items := (jq_items st)(i := Some x),
                 jq_queue := (if i \<in> zmembers (jq_queue st) then jq_queue st else zadd score i (jq_queue st))\<rparr>))"

text \<open>One round of the loop of \<open>dequeueItems\<close>: the job is hidden for its visibility timeout.\<close>

definition dequeue_item ::
    "int \<Rightarrow> string \<times> int \<Rightarrow> 'i job_queue \<Rightarrow> (string \<times> 'i serialized_item \<times> int) list \<times> 'i job_queue" where
  "dequeue_item now e st =
     (case jq_items st (fst e) of
        None \<Rightarrow> ([], st\<lparr>jq_queue := zrem (fst e) (jq_queue st)\<rparr>)
      | Some x \<Rightarrow> ([(fst e, x, snd e)], st\<lparr>jq_queue := zadd (now + si_visibilityTimeoutMs x) (fst e) (jq_queue st)\<rparr>))"

fun dequeue_each ::
    "int \<Rightarrow> zset \<Rightarrow> 'i job_queue \<Rightarrow> (string \<times> 'i serialized_item \<times> int) list \<times> 'i job_queue" where
  "dequeue_each now [] st = ([], st)"
| "dequeue_each now (e # es) st =
     (if snd e > now then ([], st)
      else (case dequeue_item now e st of
              (found, st1) \<Rightarrow> (case dequeue_each now es st1 of (later, st2) \<Rightarrow> (found @ later, st2))))"

definition dequeueItems :: "int \<Rightarrow> nat \<Rightarrow> 'i job_queue \<Rightarrow> (string \<times> 'i serialized_item \<times> int) list \<times> 'i job_queue" where
  "dequeueItems now count st = dequeue_each now (zrangebyscore now count (jq_queue st)) st"

definition getOldestDueScore :: "int \<Rightarrow> 'i job_queue \<Rightarrow> int" where
  "getOldestDueScore now st =
     (case find (\<lambda>e. jq_items st (fst e) \<noteq> None) (zrangebyscore now 100 (jq_queue st)) of
        None \<Rightarrow> - 1 | Some e \<Rightarrow> snd e)"

definition ackItem :: "string \<Rightarrow> string \<Rightarrow> 'i job_queue \<Rightarrow> int \<times> 'i job_queue" where
  "ackItem i deduplicationKey st =
     (case jq_items st i of
        None \<Rightarrow> (- 1, st)
      | Some x \<Rightarrow>
          if deduplicationKey \<noteq> [] \<and> si_deduplicationKey x \<noteq> None \<and> si_deduplicationKey x \<noteq> Some deduplicationKey
          then (0, st) else (1, drop_item i st))"

text \<open>\<open>cjson\<close> decodes and encodes the whole job; its payload is the part it may change.\<close>

definition recoded :: "('i \<Rightarrow> 'i) \<Rightarrow> string option \<Rightarrow> 'i serialized_item \<Rightarrow> 'i serialized_item" where
  "recoded cjson errorMessage x = x\<lparr>si_item := cjson (si_item x), si_errorMessage := errorMessage\<rparr>"

definition moveToDeadLetterQueueScript :: "('i \<Rightarrow> 'i) \<Rightarrow> string \<Rightarrow> string \<Rightarrow> 'i job_queue \<Rightarrow> int \<times> 'i job_queue" where
  "moveToDeadLetterQueueScript cjson i errorMessage st =
     (case jq_items st i of
        None \<Rightarrow> (0, st)
      | Some x \<Rightarrow>
          (1, (drop_item i st)\<lparr>jq_dlq := zadd (jq_now st) i (jq_dlq st),
                jq_dlqItems := (jq_dlqItems st)(i := Some (recoded cjson (Some errorMessage) x))\<rparr>))"

definition redriveFromDeadLetterQueueScript :: "('i \<Rightarrow> 'i) \<Rightarrow> string \<Rightarrow> 'i job_queue \<Rightarrow> int \<times> 'i job_queue" where
  "redriveFromDeadLetterQueueScript cjson i st =
     (case jq_dlqItems st i of
        None \<Rightarrow> (0, st)
      | Some x \<Rightarrow>
          (1, put_item i (jq_now st) (recoded cjson None x)
                (st\<lparr>jq_dlq := zrem i (jq_dlq st), jq_dlqItems := (jq_dlqItems st)(i := None)\<rparr>)))"

section \<open>The operations\<close>

definition nanoid :: "'i job_queue_options \<Rightarrow> ('i, string) queueing" where
  "nanoid Q st = (Inr (qo_nanoid Q (jq_ids st)), st\<lparr>jq_ids := jq_ids st + 1\<rparr>)"

definition run_script :: "('i job_queue \<Rightarrow> 'a \<times> 'i job_queue) \<Rightarrow> ('i, 'a) queueing" where
  "run_script f st = (case f st of (x, st') \<Rightarrow> (Inr x, st'))"

text \<open>The job as \<open>JSON.stringify\<close> writes it, with a new deduplication key.\<close>

definition serialized ::
    "'i job_queue_options \<Rightarrow> string \<Rightarrow> 'i \<Rightarrow> int option \<Rightarrow> int \<Rightarrow> ('i, 'i serialized_item) queueing" where
  "serialized Q job item attempt visibilityTimeoutMs =
     andThen (nanoid Q) (\<lambda>key. ret
       \<lparr>si_job = job, si_item = item, si_visibilityTimeoutMs = visibilityTimeoutMs, si_attempt = attempt,
        si_deduplicationKey = Some key, si_errorMessage = None\<rparr>)"

definition cancel :: "string \<Rightarrow> ('i, unit) queueing" where
  "cancel cancellationKey =
     modify (\<lambda>st. st\<lparr>jq_cancelled := (jq_cancelled st)(cancellationKey := Some (jq_now st + 60 * 60 * 24 * 1000))\<rparr>)"

definition enqueueSimple ::
    "'i job_queue_options \<Rightarrow> string option \<Rightarrow> string \<Rightarrow> 'i \<Rightarrow> int option \<Rightarrow> int option \<Rightarrow> int \<Rightarrow> string option \<Rightarrow> ('i, unit) queueing" where
  "enqueueSimple Q ident job item attempt availableAt visibilityTimeoutMs cancellationKey =
     andThen (reading (\<lambda>st. or_default availableAt (jq_now st))) (\<lambda>score.
     andThen (serialized Q job item attempt visibilityTimeoutMs) (\<lambda>x.
     andThen (case ident of Some i \<Rightarrow> ret i | None \<Rightarrow> nanoid Q) (\<lambda>i.
     andThen (case truthy cancellationKey of
                Some k \<Rightarrow> run_script (enqueueItemWithCancellationKey k i score x)
              | None \<Rightarrow> run_script (enqueueItem i score x)) (\<lambda>result.
     require (result = 1) ''Enqueue operation failed''))))"

definition enqueueOnceSimple ::
    "'i job_queue_options \<Rightarrow> string \<Rightarrow> string \<Rightarrow> 'i \<Rightarrow> int option \<Rightarrow> int option \<Rightarrow> int \<Rightarrow> ('i, bool) queueing" where
  "enqueueOnceSimple Q i job item attempt availableAt visibilityTimeoutMs =
     andDo (require (i \<noteq> []) ''enqueueOnce requires an id'')
     (andThen (reading (\<lambda>st. or_default availableAt (jq_now st))) (\<lambda>score.
      andThen (serialized Q job item attempt visibilityTimeoutMs) (\<lambda>x.
      andThen (run_script (enqueueItemOnce i score x)) (\<lambda>result. ret (result = 1)))))"

text \<open>Jobs without a schema, or whose payload does not fit it, are skipped.\<close>

definition parsed_item :: "'i job_queue_options \<Rightarrow> string \<times> 'i serialized_item \<times> int \<Rightarrow> 'i queue_item option" where
  "parsed_item Q r =
     (case r of (i, x, score) \<Rightarrow>
        (case qo_schema Q (si_job x) of
           None \<Rightarrow> None
         | Some safeParse \<Rightarrow>
             map_option (\<lambda>data.
               \<lparr>qi_id = i, qi_job = si_job x, qi_item = data, qi_visibilityTimeoutMs = si_visibilityTimeoutMs x,
                qi_attempt = or_default (si_attempt x) 0, qi_timestamp = score,
                qi_deduplicationKey = si_deduplicationKey x\<rparr>) (safeParse (si_item x))))"

definition dequeueSimple :: "'i job_queue_options \<Rightarrow> nat \<Rightarrow> ('i, 'i queue_item list) queueing" where
  "dequeueSimple Q count =
     andThen (reading jq_now) (\<lambda>now.
     andThen (run_script (dequeueItems now count)) (\<lambda>results. ret (List.map_filter (parsed_item Q) results)))"

definition ackSimple :: "string \<Rightarrow> string option \<Rightarrow> ('i, unit) queueing" where
  "ackSimple i deduplicationKey =
     andDo (run_script (ackItem i (or_default deduplicationKey []))) (ret ())"

text \<open>\<open>ZADD queue XX\<close>.\<close>

definition rescheduleSimple :: "string \<Rightarrow> int \<Rightarrow> ('i, unit) queueing" where
  "rescheduleSimple i availableAt =
     modify (\<lambda>st. if i \<in> zmembers (jq_queue st) then st\<lparr>jq_queue := zadd availableAt i (jq_queue st)\<rparr> else st)"

definition oldestMessageAge :: "'i job_queue \<Rightarrow> int" where
  "oldestMessageAge st =
     (let score = getOldestDueScore (jq_now st) st in if score < 0 then 0 else max 0 (jq_now st - score))"

definition sizeSimple :: "bool \<Rightarrow> 'i job_queue \<Rightarrow> nat" where
  "sizeSimple includeFuture st =
     (if includeFuture then length (jq_queue st) else length (filter (\<lambda>e. snd e \<le> jq_now st) (jq_queue st)))"

text \<open>A job without a score has the timestamp \<open>new Date(Number(null))\<close>, which is 0.\<close>

definition getJob :: "string \<Rightarrow> 'i job_queue \<Rightarrow> 'i queue_item option" where
  "getJob i st = map_option (\<lambda>x.
     \<lparr>qi_id = i, qi_job = si_job x, qi_item = si_item x, qi_visibilityTimeoutMs = si_visibilityTimeoutMs x,
      qi_attempt = or_default (si_attempt x) 0, qi_timestamp = or_default (zscore i (jq_queue st)) 0,
      qi_deduplicationKey = si_deduplicationKey x\<rparr>) (jq_items st i)"

definition moveToDeadLetterQueueSimple :: "'i job_queue_options \<Rightarrow> string \<Rightarrow> string \<Rightarrow> ('i, unit) queueing" where
  "moveToDeadLetterQueueSimple Q i errorMessage =
     andThen (run_script (moveToDeadLetterQueueScript (qo_cjson Q) i errorMessage)) (\<lambda>result.
       require (result = 1) ''Move to Dead Letter Queue operation failed'')"

definition redriveFromDeadLetterQueueSimple :: "'i job_queue_options \<Rightarrow> string \<Rightarrow> ('i, unit) queueing" where
  "redriveFromDeadLetterQueueSimple Q i =
     andThen (run_script (redriveFromDeadLetterQueueScript (qo_cjson Q) i)) (\<lambda>result.
       require (result = 1) ''Redrive from Dead Letter Queue operation failed'')"

end
