(* ===== verification/JobQueueOutcomes.thy ===== *)
theory JobQueueOutcomes
  imports JobQueue
begin

text \<open>
  What the queue of background jobs promises. The workers of a queue share one Redis;
  \<open>job_step\<close> runs one of its commands, so a list of commands is an interleaving of any number
  of workers and producers, with the clock between them.
\<close>

datatype 'i job_command =
    AddJob string int "'i serialized_item"
  | AddJobUnlessCancelled string string int "'i serialized_item"
  | AddJobOnce string int "'i serialized_item"
  | TakeJobs nat
  | AckJob string string
  | BuryJob string string
  | RedriveJob string
  | MoveJob string int
  | CancelKey string
  | Wait nat

fun job_step :: "('i \<Rightarrow> 'i) \<Rightarrow> 'i job_queue \<Rightarrow> 'i job_command \<Rightarrow> 'i job_queue" where
  "job_step cjson st (AddJob i s x) = snd (enqueueItem i s x st)"
| "job_step cjson st (AddJobUnlessCancelled k i s x) = snd (enqueueItemWithCancellationKey k i s x st)"
| "job_step cjson st (AddJobOnce i s x) = snd (enqueueItemOnce i s x st)"
| "job_step cjson st (TakeJobs n) = snd (dequeueItems (jq_now st) n st)"
| "job_step cjson st (AckJob i k) = snd (ackItem i k st)"
| "job_step cjson st (BuryJob i e) = snd (moveToDeadLetterQueueScript cjson i e st)"
| "job_step cjson st (RedriveJob i) = snd (redriveFromDeadLetterQueueScript cjson i st)"
| "job_step cjson st (MoveJob i t) = state_after (rescheduleSimple i t) st"
| "job_step cjson st (CancelKey k) = state_after (cancel k) st"
| "job_step cjson st (Wait n) = st\<lparr>jq_now := jq_now st + int n\<rparr>"

section \<open>Jobs and their places\<close>

text \<open>Every stored job has a place in the sorted set, and nothing else has.\<close>

definition queue_ok :: "'i job_queue \<Rightarrow> bool" where
  "queue_ok st = (zset_ok (jq_queue st) \<and> zset_ok (jq_dlq st)
     \<and> zmembers (jq_queue st) = dom (jq_items st) \<and> zmembers (jq_dlq st) = dom (jq_dlqItems st))"

lemma put_item_parts [simp]:
  "jq_queue (put_item i s x st) = zadd s i (jq_queue st)" "jq_items (put_item i s x st) = (jq_items st)(i := Some x)"
  "jq_dlq (put_item i s x st) = jq_dlq st" "jq_dlqItems (put_item i s x st) = jq_dlqItems st"
  "jq_now (put_item i s x st) = jq_now st"
  by (simp_all add: put_item_def)

lemma drop_item_parts [simp]:
  "jq_queue (drop_item i st) = zrem i (jq_queue st)" "jq_items (drop_item i st) = (jq_items st)(i := None)"
  "jq_dlq (drop_item i st) = jq_dlq st" "jq_dlqItems (drop_item i st) = jq_dlqItems st"
  "jq_now (drop_item i st) = jq_now st"
  by (simp_all add: drop_item_def)

text \<open>Taking jobs only moves them.\<close>

lemma dequeue_item_parts [simp]:
  "jq_items (snd (dequeue_item now e st)) = jq_items st" "jq_dlq (snd (dequeue_item now e st)) = jq_dlq st"
  "jq_dlqItems (snd (dequeue_item now e st)) = jq_dlqItems st" "jq_now (snd (dequeue_item now e st)) = jq_now st"
  by (simp_all add: dequeue_item_def split: option.split)

lemma dequeue_item_ok:
  assumes "queue_ok st" "fst e \<in> dom (jq_items st)"
  shows "queue_ok (snd (dequeue_item now e st))"
proof -
  from assms(2) obtain x where "jq_items st (fst e) = Some x" by blast
  with assms show ?thesis by (simp add: dequeue_item_def queue_ok_def zset_ok_zadd insert_absorb)
qed

lemma dequeue_each_parts [simp]:
  "jq_items (snd (dequeue_each now es st)) = jq_items st" "jq_dlq (snd (dequeue_each now es st)) = jq_dlq st"
  "jq_dlqItems (snd (dequeue_each now es st)) = jq_dlqItems st" "jq_now (snd (dequeue_each now es st)) = jq_now st"
  by (induction es arbitrary: st) (simp_all add: case_prod_beta)

lemma dequeue_each_ok: "queue_ok st \<Longrightarrow> fst ` set es \<subseteq> dom (jq_items st) \<Longrightarrow> queue_ok (snd (dequeue_each now es st))"
proof (induction es arbitrary: st)
  case (Cons e es)
  from Cons.prems have "queue_ok (snd (dequeue_item now e st))"
    by (intro dequeue_item_ok) auto
  with Cons show ?case by (simp add: case_prod_beta)
qed simp

lemma due_entries:
  assumes "queue_ok st"
  shows "fst ` set (zrangebyscore now n (jq_queue st)) \<subseteq> dom (jq_items st)"
proof -
  have "fst ` set (zrangebyscore now n (jq_queue st)) \<subseteq> zmembers (jq_queue st)"
    using zrangebyscore_subset [of now n "jq_queue st"] unfolding zmembers_def by blast
  with assms show ?thesis by (simp only: queue_ok_def)
qed

lemma put_item_ok: "queue_ok st \<Longrightarrow> queue_ok (put_item i s x st)"
  by (simp add: queue_ok_def zset_ok_zadd)

lemma drop_item_ok: "queue_ok st \<Longrightarrow> queue_ok (drop_item i st)"
  by (auto simp: queue_ok_def zset_ok_zrem)

lemma bury_ok: "queue_ok st \<Longrightarrow> queue_ok (st\<lparr>jq_dlq := zadd t i (jq_dlq st), jq_dlqItems := (jq_dlqItems st)(i := Some x)\<rparr>)"
  by (simp add: queue_ok_def zset_ok_zadd)

lemma unbury_ok: "queue_ok st \<Longrightarrow> queue_ok (st\<lparr>jq_dlq := zrem i (jq_dlq st), jq_dlqItems := (jq_dlqItems st)(i := None)\<rparr>)"
  by (auto simp: queue_ok_def zset_ok_zrem)

lemma once_ok: "queue_ok st \<Longrightarrow> queue_ok (snd (enqueueItemOnce i s x st))"
  by (auto simp: queue_ok_def enqueueItemOnce_def zset_ok_zadd)

lemma bury_script_ok: "queue_ok st \<Longrightarrow> queue_ok (snd (moveToDeadLetterQueueScript cjson i e st))"
  using bury_ok [OF drop_item_ok, of st i] by (simp add: moveToDeadLetterQueueScript_def split: option.split)

lemma redrive_script_ok: "queue_ok st \<Longrightarrow> queue_ok (snd (redriveFromDeadLetterQueueScript cjson i st))"
  by (simp add: redriveFromDeadLetterQueueScript_def put_item_ok unbury_ok split: option.split)

lemma reschedule_ok: "queue_ok st \<Longrightarrow> queue_ok (state_after (rescheduleSimple i t) st)"
  by (simp add: rescheduleSimple_def modify_def state_after_def queue_ok_def zset_ok_zadd insert_absorb)

lemma job_step_ok: "queue_ok st \<Longrightarrow> queue_ok (job_step cjson st c)"
proof (cases c)
  case (TakeJobs n)
  assume "queue_ok st"
  with TakeJobs show ?thesis by (simp add: dequeueItems_def dequeue_each_ok due_entries)
next
  case (CancelKey k)
  assume "queue_ok st"
  with CancelKey show ?thesis by (simp add: cancel_def modify_def state_after_def queue_ok_def)
next
  case (Wait n)
  assume "queue_ok st"
  with Wait show ?thesis by (simp add: queue_ok_def)
qed (simp_all add: enqueueItem_def enqueueItemWithCancellationKey_def ackItem_def put_item_ok drop_item_ok
    once_ok bury_script_ok redrive_script_ok reschedule_ok split: option.split)

interpretation jobs: step_machine "job_step cjson" queue_ok for cjson
  by unfold_locales (rule job_step_ok)

lemma empty_queue_ok: "queue_ok empty_job_queue"
  by (simp add: queue_ok_def empty_job_queue_def)

lemma reachable_ok: "queue_ok (foldl (job_step cjson) empty_job_queue cmds)"
  by (rule jobs.run_inv [OF empty_queue_ok])

section \<open>Taking jobs\<close>

lemma dequeue_each_score:
  "i \<notin> fst ` set es \<Longrightarrow> zscore i (jq_queue (snd (dequeue_each now es st))) = zscore i (jq_queue st)"
  by (induction es arbitrary: st) (auto simp: case_prod_beta dequeue_item_def split: option.split)

lemma dequeue_each_result:
  "\<forall>e \<in> set es. snd e \<le> now \<Longrightarrow>
   fst (dequeue_each now es st) = List.map_filter (\<lambda>e. map_option (\<lambda>x. (fst e, x, snd e)) (jq_items st (fst e))) es"
proof (induction es arbitrary: st)
  case (Cons e es)
  have "fst (dequeue_item now e st) = (case jq_items st (fst e) of None \<Rightarrow> [] | Some x \<Rightarrow> [(fst e, x, snd e)])"
    by (simp add: dequeue_item_def split: option.split)
  with Cons show ?case by (simp add: case_prod_beta map_filter_def split: option.split)
qed (simp add: map_filter_def)

lemma dequeueItems_iff:
  "(i, x, s) \<in> set (fst (dequeueItems now n st)) \<longleftrightarrow> jq_items st i = Some x \<and> (i, s) \<in> set (zrangebyscore now n (jq_queue st))"
proof -
  have "\<forall>e \<in> set (zrangebyscore now n (jq_queue st)). snd e \<le> now"
    using zrangebyscore_subset [of now n "jq_queue st"] by auto
  from dequeue_each_result [OF this, of st] show ?thesis
    by (force simp: dequeueItems_def map_filter_def image_iff split: option.splits)
qed

lemma dequeue_each_hides:
  "(i, s) \<in> set es \<Longrightarrow> distinct (map fst es) \<Longrightarrow> \<forall>e \<in> set es. snd e \<le> now \<Longrightarrow> jq_items st i = Some x \<Longrightarrow>
   zscore i (jq_queue (snd (dequeue_each now es st))) = Some (now + si_visibilityTimeoutMs x)"
proof (induction es arbitrary: st)
  case (Cons e es)
  show ?case
  proof (cases "fst e = i")
    case True
    with Cons.prems(2) have "i \<notin> fst ` set es" by auto
    with True Cons.prems show ?thesis by (simp add: case_prod_beta dequeue_each_score dequeue_item_def)
  next
    case False
    with Cons.prems have "(i, s) \<in> set es" by auto
    with Cons show ?thesis by (simp add: case_prod_beta)
  qed
qed simp

lemma distinct_range: "zset_ok z \<Longrightarrow> distinct (map fst (zrangebyscore t n z))"
  unfolding zset_ok_def zrangebyscore_def by (metis distinct_map_filter distinct_take take_map)

lemma dequeueItems_hides:
  assumes "queue_ok st" "(i, x, s) \<in> set (fst (dequeueItems now n st))"
  shows "zscore i (jq_queue (snd (dequeueItems now n st))) = Some (now + si_visibilityTimeoutMs x)"
proof -
  have "(i, s) \<in> set (zrangebyscore now n (jq_queue st))" "jq_items st i = Some x"
    using assms(2) by (simp_all add: dequeueItems_iff)
  moreover have "\<forall>e \<in> set (zrangebyscore now n (jq_queue st)). snd e \<le> now"
    using zrangebyscore_subset [of now n "jq_queue st"] by auto
  ultimately show ?thesis
    using assms(1) by (simp add: dequeueItems_def dequeue_each_hides distinct_range queue_ok_def)
qed

text \<open>What is due is taken in the order of the sorted set.\<close>

lemma first_in_range:
  assumes "zset_ok z" "(i, s) \<in> set z" "s \<le> t" "length (filter (\<lambda>e. zscore_key e < (s, i)) z) < n"
  shows "(i, s) \<in> set (zrangebyscore t n z)"
proof -
  let ?f = "filter (\<lambda>e. snd e \<le> t) z" and ?before = "\<lambda>e. zscore_key e < (s, i)"
  obtain k where k: "k < length ?f" "?f ! k = (i, s)"
    using assms(2,3) by (metis (no_types, lifting) in_set_conv_nth mem_Collect_eq set_filter snd_conv)
  have "sorted (map zscore_key ?f)" "distinct (map fst ?f)"
    using assms(1) by (simp_all add: zset_ok_def sorted_filter distinct_map_filter)
  then have less: "zscore_key (?f ! j) < zscore_key (?f ! k)" if "j < k" for j
  proof -
    have "zscore_key (?f ! j) \<le> zscore_key (?f ! k)"
      using \<open>sorted (map zscore_key ?f)\<close> that k(1) sorted_nth_mono [of "map zscore_key ?f" j k] by simp
    moreover have "fst (?f ! j) \<noteq> fst (?f ! k)"
      using \<open>distinct (map fst ?f)\<close> that k(1) nth_eq_iff_index_eq [of "map fst ?f" j k] by simp
    ultimately show ?thesis by (auto simp: zscore_key_def less_le)
  qed
  have key: "zscore_key (?f ! k) = (s, i)" by (simp only: k(2) zscore_key_def) simp
  have "?before e" if e: "e \<in> set (take k ?f)" for e
  proof -
    from e obtain j where "j < k" "?f ! j = e" by (auto simp: in_set_conv_nth)
    with less [of j] show ?thesis by (simp only: key)
  qed
  then have "filter ?before (take k ?f) = take k ?f" unfolding filter_id_conv by blast
  moreover have "length (filter ?before ?f) = length (filter ?before (take k ?f)) + length (filter ?before (drop k ?f))"
    by (simp only: length_append [symmetric] filter_append [symmetric] append_take_drop_id)
  moreover have "length (take k ?f) = k" using k(1) by simp
  ultimately have "k \<le> length (filter ?before ?f)" by (simp only:)
  also have "filter ?before ?f = filter (\<lambda>e. snd e \<le> t) (filter ?before z)" by (simp only: filter_filter conj_commute)
  also have "length \<dots> \<le> length (filter ?before z)" by (rule length_filter_le)
  finally have "k < n" using assms(4) by simp
  with k(1) have "?f ! k \<in> set (take n ?f)" unfolding in_set_conv_nth by (intro exI [of _ k]) simp
  with k show ?thesis by (simp add: zrangebyscore_def)
qed

text \<open>
  C7. Whatever commands were run, a stored job has a time at which it becomes available; once that
  has passed and fewer jobs wait before it than a worker takes, the worker gets it, and its next
  time is the end of its visibility timeout.
\<close>

theorem due_job_handed_out:
  assumes "st = foldl (job_step cjson) empty_job_queue cmds" "jq_items st i = Some x"
  shows "\<exists>s. zscore i (jq_queue st) = Some s
    \<and> (s \<le> jq_now st \<and> length (filter (\<lambda>e. zscore_key e < (s, i)) (jq_queue st)) < n \<longrightarrow>
        (i, x, s) \<in> set (fst (dequeueItems (jq_now st) n st))
        \<and> zscore i (jq_queue (snd (dequeueItems (jq_now st) n st))) = Some (jq_now st + si_visibilityTimeoutMs x))"
proof -
  have ok: "queue_ok st" unfolding assms(1) by (rule reachable_ok)
  then have "i \<in> zmembers (jq_queue st)" using assms(2) by (auto simp: queue_ok_def)
  then obtain s where s: "zscore i (jq_queue st) = Some s" using zscore_None [of i "jq_queue st"] by auto
  have z: "zset_ok (jq_queue st)" using ok by (simp add: queue_ok_def)
  with s have "(i, s) \<in> set (jq_queue st)" by (simp add: zscore_iff)
  from first_in_range [OF z this] have "s \<le> jq_now st \<and> length (filter (\<lambda>e. zscore_key e < (s, i)) (jq_queue st)) < n \<longrightarrow>
        (i, x, s) \<in> set (fst (dequeueItems (jq_now st) n st))"
    using assms(2) by (simp add: dequeueItems_iff)
  with s dequeueItems_hides [OF ok] show ?thesis by blast
qed

section \<open>One worker at a time\<close>

fun leaves_alone :: "string \<Rightarrow> 'i job_command \<Rightarrow> bool" where
  "leaves_alone i (AddJob j s x) = (j \<noteq> i)"
| "leaves_alone i (AddJobUnlessCancelled k j s x) = (j \<noteq> i)"
| "leaves_alone i (AddJobOnce j s x) = (j \<noteq> i)"
| "leaves_alone i (RedriveJob j) = (j \<noteq> i)"
| "leaves_alone i (MoveJob j t) = (j \<noteq> i)"
| "leaves_alone i c = True"

definition hidden_until :: "string \<Rightarrow> int \<Rightarrow> 'i job_queue \<Rightarrow> bool" where
  "hidden_until i t st = (queue_ok st \<and> (jq_now st < t \<longrightarrow> (\<forall>s. zscore i (jq_queue st) = Some s \<longrightarrow> t \<le> s)))"

lemma hidden_not_due: "hidden_until i t st \<Longrightarrow> jq_now st < t \<Longrightarrow> i \<notin> fst ` set (zrangebyscore (jq_now st) n (jq_queue st))"
  using zrangebyscore_subset [of "jq_now st" n "jq_queue st"]
  by (fastforce simp: hidden_until_def queue_ok_def zscore_iff)

lemma hidden_step:
  assumes "leaves_alone i c" "hidden_until i t st"
  shows "hidden_until i t (job_step cjson st c)"
proof -
  have ok: "queue_ok (job_step cjson st c)" using assms(2) by (simp add: hidden_until_def job_step_ok)
  show ?thesis
  proof (cases c)
    case (TakeJobs n)
    then show ?thesis
      using ok assms(2) hidden_not_due [OF assms(2), of n]
      by (auto simp: hidden_until_def dequeueItems_def dequeue_each_score)
  qed (use ok assms in \<open>auto simp: hidden_until_def enqueueItem_def enqueueItemWithCancellationKey_def enqueueItemOnce_def
      ackItem_def moveToDeadLetterQueueScript_def redriveFromDeadLetterQueueScript_def rescheduleSimple_def cancel_def
      modify_def state_after_def split: option.splits if_splits\<close>)
qed

interpretation hiding: guarded_machine "job_step cjson" "leaves_alone i" "hidden_until i t" for cjson i t
  by unfold_locales (rule hidden_step)

text \<open>
  C23. While a worker has a job and its visibility timeout runs, no other worker is given that job,
  whatever else happens to the queue, unless the job is enqueued, rescheduled or redriven under
  the same id in the meantime.
\<close>

theorem job_hidden_while_processed:
  assumes "st = foldl (job_step cjson) empty_job_queue cmds"
    and "(i, x, s) \<in> set (fst (dequeueItems (jq_now st) n st))" "list_all (leaves_alone i) later"
    and "st' = foldl (job_step cjson) (snd (dequeueItems (jq_now st) n st)) later" "jq_now st' < jq_now st + si_visibilityTimeoutMs x"
  shows "i \<notin> fst ` set (fst (dequeueItems (jq_now st') n' st'))"
proof -
  have ok: "queue_ok st" unfolding assms(1) by (rule reachable_ok)
  have "hidden_until i (jq_now st + si_visibilityTimeoutMs x) (snd (dequeueItems (jq_now st) n st))"
    using job_step_ok [OF ok, of cjson "TakeJobs n"] dequeueItems_hides [OF ok assms(2)] by (simp add: hidden_until_def)
  from hiding.run_inv [OF assms(3) this] have "hidden_until i (jq_now st + si_visibilityTimeoutMs x) st'"
    unfolding assms(4) .
  from hidden_not_due [OF this assms(5), of n'] show ?thesis by (force simp: dequeueItems_iff)
qed

section \<open>No job is lost\<close>

definition same_job :: "'i serialized_item \<Rightarrow> 'i serialized_item \<Rightarrow> bool" where
  "same_job x y = (si_job y = si_job x \<and> si_deduplicationKey y = si_deduplicationKey x
     \<and> si_attempt y = si_attempt x \<and> si_visibilityTimeoutMs y = si_visibilityTimeoutMs x)"

lemma same_job_recoded [simp]: "same_job x (recoded cjson e y) = same_job x y"
  by (simp add: same_job_def recoded_def)

definition job_kept :: "string \<Rightarrow> 'i serialized_item \<Rightarrow> 'i job_queue \<Rightarrow> bool" where
  "job_kept i x st =
     ((\<exists>y. jq_items st i = Some y \<and> same_job x y) \<and> (\<forall>y. jq_dlqItems st i = Some y \<longrightarrow> same_job x y)
      \<or> jq_items st i = None \<and> (\<exists>y. jq_dlqItems st i = Some y \<and> same_job x y))"

text \<open>Commands that neither put another job under the id nor acknowledge it with its own key or none.\<close>

fun spares_job :: "string \<Rightarrow> 'i serialized_item \<Rightarrow> 'i job_command \<Rightarrow> bool" where
  "spares_job i x (AddJob j s y) = (j \<noteq> i)"
| "spares_job i x (AddJobUnlessCancelled k j s y) = (j \<noteq> i)"
| "spares_job i x (AddJobOnce j s y) = (j \<noteq> i)"
| "spares_job i x (AckJob j k) = (j \<noteq> i \<or> k \<noteq> [] \<and> si_deduplicationKey x \<noteq> None \<and> si_deduplicationKey x \<noteq> Some k)"
| "spares_job i x c = True"

lemma kept_step:
  assumes "spares_job i x c" "job_kept i x st"
  shows "job_kept i x (job_step cjson st c)"
proof (cases c)
  case (AckJob j k)
  with assms show ?thesis by (auto simp: job_kept_def ackItem_def same_job_def split: option.split)
next
  case (BuryJob j e)
  with assms show ?thesis
    by (cases "jq_items st j") (auto simp: job_kept_def moveToDeadLetterQueueScript_def)
next
  case (RedriveJob j)
  with assms show ?thesis
    by (cases "jq_dlqItems st j") (auto simp: job_kept_def redriveFromDeadLetterQueueScript_def)
qed (use assms in \<open>auto simp: job_kept_def enqueueItem_def enqueueItemWithCancellationKey_def enqueueItemOnce_def
    dequeueItems_def rescheduleSimple_def cancel_def modify_def state_after_def\<close>)

interpretation keeping_jobs: guarded_machine "job_step cjson" "spares_job i x" "job_kept i x" for cjson i x
  by unfold_locales (rule kept_step)

text \<open>
  C24. A stored job stays stored, as a job or as a dead letter, whatever workers do, until it is
  acknowledged with its own deduplication key or without one, or another is enqueued under its
  id. In particular a worker that was given an earlier job of that id cannot acknowledge the
  later one away.
\<close>

theorem job_not_lost:
  assumes "jq_items st i = Some x" "jq_dlqItems st i = None" "list_all (spares_job i x) cmds"
    and "st' = foldl (job_step cjson) st cmds"
  shows "\<exists>y. (jq_items st' i = Some y \<or> jq_dlqItems st' i = Some y)
    \<and> si_job y = si_job x \<and> si_deduplicationKey y = si_deduplicationKey x \<and> si_attempt y = si_attempt x"
proof -
  have "job_kept i x st" using assms(1,2) by (simp add: job_kept_def same_job_def)
  from keeping_jobs.run_inv [OF assms(3) this] have "job_kept i x st'" unfolding assms(4) .
  then show ?thesis by (auto simp: job_kept_def same_job_def)
qed

end
