(* ===== verification/JobWorker.thy ===== *)
theory JobWorker
  imports JobQueue TaskErrors "HOL-Library.AList"
begin

text \<open>
  The workers of a queue of background jobs (\<open>packages/redis-worker/src/worker.ts\<close>): enqueueing with
  the settings of a catalog, one iteration of a worker's loop, which collects jobs into batches
  or hands them to their handlers, what becomes of a job when its handler has ended, and the
  jobs that repeat by a cron expression.

  The handlers belong to the user of the worker: their outcome is an argument. So are the random
  numbers of the backoff and the jitter, and the package \<open>cron-parser\<close>, by the next time of an
  expression after a given one. Polling delays, the limiter's queue of tasks and shutting down
  are left out; the number of tasks the limiter has not finished is an argument.
\<close>

section \<open>The fields of a time\<close>

text \<open>\<open>getUTCFullYear\<close> and its like, as the language defines them on milliseconds since 1970.\<close>

definition day_from_year :: "int \<Rightarrow> int" where
  "day_from_year y = 365 * (y - 1970) + (y - 1969) div 4 - (y - 1901) div 100 + (y - 1601) div 400"

lemma day_from_year_less: "day_from_year y < day_from_year (y + 1)"
proof -
  have "(y - 1969) div 4 \<le> (y + 1 - 1969) div 4" "(y - 1601) div 400 \<le> (y + 1 - 1601) div 400"
    by (rule zdiv_mono1, simp, simp)+
  moreover have "(y + 1 - 1901) div 100 \<le> (y - 1901) div 100 + 1" by presburger
  ultimately show ?thesis unfolding day_from_year_def by (simp add: algebra_simps)
qed

function year_up :: "int \<Rightarrow> int \<Rightarrow> int" where
  "year_up d y = (if day_from_year (y + 1) \<le> d then year_up d (y + 1) else y)"
  by auto

termination
  by (relation "measure (\<lambda>(d, y). nat (d - day_from_year y))") (use less_le_trans [OF day_from_year_less] in \<open>auto simp: nat_less_eq_zless\<close>)

declare year_up.simps [simp del]

definition day_of :: "int \<Rightarrow> int" where
  "day_of t = t div 86400000"

definition getUTCFullYear :: "int \<Rightarrow> int" where
  "getUTCFullYear t = year_up (day_of t) (1970 + day_of t div (if day_of t < 0 then 365 else 366))"

definition month_starts :: "int \<Rightarrow> int list" where
  "month_starts y =
     (let l = day_from_year (y + 1) - day_from_year y - 365
      in [0, 31, 59 + l, 90 + l, 120 + l, 151 + l, 181 + l, 212 + l, 243 + l, 273 + l, 304 + l, 334 + l])"

definition day_in_year :: "int \<Rightarrow> int" where
  "day_in_year t = day_of t - day_from_year (getUTCFullYear t)"

definition getUTCMonth :: "int \<Rightarrow> nat" where
  "getUTCMonth t = length (takeWhile (\<lambda>s. s \<le> day_in_year t) (month_starts (getUTCFullYear t))) - 1"

definition getUTCDate :: "int \<Rightarrow> int" where
  "getUTCDate t = day_in_year t - month_starts (getUTCFullYear t) ! getUTCMonth t + 1"

definition getUTCHours :: "int \<Rightarrow> int" where "getUTCHours t = t div 3600000 mod 24"
definition getUTCMinutes :: "int \<Rightarrow> int" where "getUTCMinutes t = t div 60000 mod 60"
definition getUTCSeconds :: "int \<Rightarrow> int" where "getUTCSeconds t = t div 1000 mod 60"

definition timestampIdentifier :: "int \<Rightarrow> string" where
  "timestampIdentifier t =
     js_join ''-'' [int_to_string (getUTCFullYear t), nat_to_string (getUTCMonth t), int_to_string (getUTCDate t),
       int_to_string (getUTCHours t), int_to_string (getUTCMinutes t), int_to_string (getUTCSeconds t)]"

section \<open>The catalog\<close>

record batch_config =
  bc_maxSize :: nat
  bc_maxWaitMs :: int

record 'i catalog_item =
  ci_schema :: "'i \<Rightarrow> 'i option"
  ci_visibilityTimeoutMs :: int
  ci_retry :: "retry_options option"
  ci_cron :: "string option"
  ci_jitterInMs :: "rat option"
  ci_batch :: "batch_config option"

text \<open>\<open>wk_cronPayload\<close> builds the payload of a cron job, of which \<open>wk_cronTimestamp\<close> reads the time.\<close>

record 'i worker_options =
  wk_nanoid :: "nat \<Rightarrow> string"
  wk_cjson :: "'i \<Rightarrow> 'i"
  wk_catalog :: "(string \<times> 'i catalog_item) list"
  wk_handlers :: "string list"
  wk_tasksPerWorker :: nat
  wk_limit :: nat
  wk_cronNext :: "string \<Rightarrow> int \<Rightarrow> int"
  wk_cronPayload :: "int \<Rightarrow> int option \<Rightarrow> string \<Rightarrow> 'i"
  wk_cronTimestamp :: "'i \<Rightarrow> int"

definition catalog_of :: "'i worker_options \<Rightarrow> string \<Rightarrow> 'i catalog_item option" where
  "catalog_of W job = map_of (wk_catalog W) job"

definition worker_queue :: "'i worker_options \<Rightarrow> 'i job_queue_options" where
  "worker_queue W = \<lparr>qo_nanoid = wk_nanoid W, qo_schema = (\<lambda>job. map_option ci_schema (catalog_of W job)), qo_cjson = wk_cjson W\<rparr>"

text \<open>\<open>!timeout\<close> takes 0 for a timeout that is not there.\<close>

definition visibility_timeout :: "'i worker_options \<Rightarrow> string \<Rightarrow> string option \<Rightarrow> int option \<Rightarrow> (string, int) sum" where
  "visibility_timeout W job ident given =
     (let missing = ''No visibility timeout found for job '' @ job @ '' with id '' @ or_default ident ''undefined'' in
      case (case given of Some t \<Rightarrow> Some t | None \<Rightarrow> map_option ci_visibilityTimeoutMs (catalog_of W job)) of
        Some t \<Rightarrow> if t = 0 then Inl missing else Inr t
      | None \<Rightarrow> Inl missing)"

definition workerEnqueue ::
    "'i worker_options \<Rightarrow> string option \<Rightarrow> string \<Rightarrow> 'i \<Rightarrow> int option \<Rightarrow> int option \<Rightarrow> string option \<Rightarrow> ('i, unit) queueing" where
  "workerEnqueue W ident job payload visibilityTimeoutMs availableAt cancellationKey =
     (case visibility_timeout W job ident visibilityTimeoutMs of
        Inl e \<Rightarrow> throw e
      | Inr timeout \<Rightarrow> enqueueSimple (worker_queue W) ident job payload None availableAt timeout cancellationKey)"

definition workerEnqueueOnce ::
    "'i worker_options \<Rightarrow> string \<Rightarrow> string \<Rightarrow> 'i \<Rightarrow> int option \<Rightarrow> int option \<Rightarrow> ('i, bool) queueing" where
  "workerEnqueueOnce W i job payload visibilityTimeoutMs availableAt =
     (case visibility_timeout W job (Some i) visibilityTimeoutMs of
        Inl e \<Rightarrow> throw e
      | Inr timeout \<Rightarrow> enqueueOnceSimple (worker_queue W) i job payload None availableAt timeout)"

section \<open>Cron jobs\<close>

text \<open>A time in the past is replaced by the next one after now, and again where that is not later.\<close>

partial_function (option) calculateNextScheduledAt :: "(int \<Rightarrow> int) \<Rightarrow> int \<Rightarrow> int option \<Rightarrow> int option" where
  "calculateNextScheduledAt cronNext now lastTimestamp =
     (let scheduledAt = cronNext (or_default lastTimestamp now) in
      if scheduledAt < now then calculateNextScheduledAt cronNext now None else Some scheduledAt)"

text \<open>\<open>new Date\<close> of a number that is not whole.\<close>

definition js_trunc :: "rat \<Rightarrow> int" where
  "js_trunc x = (if x < 0 then \<lceil>x\<rceil> else \<lfloor>x\<rfloor>)"

definition cron_identifier :: "string \<Rightarrow> int \<Rightarrow> string" where
  "cron_identifier job scheduledAt = js_join '':'' [job, timestampIdentifier scheduledAt]"

text \<open>Recursion without end overflows the stack, which is an error like any other.\<close>

definition enqueueCronJob ::
    "rat \<Rightarrow> 'i worker_options \<Rightarrow> string \<Rightarrow> string \<Rightarrow> rat option \<Rightarrow> int option \<Rightarrow> ('i, bool) queueing" where
  "enqueueCronJob rnd W cron job jitter lastTimestamp =
     andThen (reading jq_now) (\<lambda>now.
       case calculateNextScheduledAt (wk_cronNext W cron) now lastTimestamp of
         None \<Rightarrow> throw ''Maximum call stack size exceeded''
       | Some scheduledAt \<Rightarrow>
           (let appliedJitter = (case jitter of Some j \<Rightarrow> rnd * j - j / 2 | None \<Rightarrow> 0) in
            workerEnqueueOnce W (cron_identifier job scheduledAt) job (wk_cronPayload W scheduledAt lastTimestamp cron)
              None (Some (js_trunc (of_int scheduledAt + appliedJitter)))))"

definition rescheduleCronJob :: "rat \<Rightarrow> 'i worker_options \<Rightarrow> string \<Rightarrow> 'i catalog_item \<Rightarrow> 'i \<Rightarrow> ('i, unit) queueing" where
  "rescheduleCronJob rnd W job catalogItem item =
     (case truthy (ci_cron catalogItem) of
        None \<Rightarrow> ret ()
      | Some cron \<Rightarrow>
          andDo (enqueueCronJob rnd W cron job (ci_jitterInMs catalogItem) (Some (wk_cronTimestamp W item))) (ret ()))"

text \<open>A \<open>try\<close> with its \<open>catch\<close>.\<close>

definition trying :: "('w, 'e, 'a) handler \<Rightarrow> ('e \<Rightarrow> ('w, 'e, 'a) handler) \<Rightarrow> ('w, 'e, 'a) handler" where
  "trying m h w = (case m w of (Inl e, w') \<Rightarrow> h e w' | (Inr x, w') \<Rightarrow> (Inr x, w'))"

text \<open>One random number stands for those of all the jobs.\<close>

definition setupCron :: "rat \<Rightarrow> 'i worker_options \<Rightarrow> ('i, unit) queueing" where
  "setupCron rnd W =
     forEach (wk_catalog W) (\<lambda>(job, c). case truthy (ci_cron c) of
        None \<Rightarrow> ret ()
      | Some cron \<Rightarrow> trying (andDo (enqueueCronJob rnd W cron job (ci_jitterInMs c) None) (ret ())) (\<lambda>_. ret ()))"

section \<open>The end of a job\<close>

definition default_retry_settings :: retry_options where
  "default_retry_settings = \<lparr>ro_maxAttempts = Some 12, ro_factor = Some 2, ro_minTimeoutInMs = Some 1000,
     ro_maxTimeoutInMs = Some 3600000, ro_randomize = Some True, ro_oomMachine = None\<rparr>"

definition overriding :: "'a option \<Rightarrow> 'a option \<Rightarrow> 'a option" where
  "overriding x d = (case x of Some v \<Rightarrow> Some v | None \<Rightarrow> d)"

text \<open>\<open>{ ...defaultRetrySettings, ...catalogItem?.retry }\<close>.\<close>

definition worker_retry :: "'i catalog_item \<Rightarrow> retry_options" where
  "worker_retry c =
     (case ci_retry c of
        None \<Rightarrow> default_retry_settings
      | Some r \<Rightarrow>
          \<lparr>ro_maxAttempts = overriding (ro_maxAttempts r) (ro_maxAttempts default_retry_settings),
           ro_factor = overriding (ro_factor r) (ro_factor default_retry_settings),
           ro_minTimeoutInMs = overriding (ro_minTimeoutInMs r) (ro_minTimeoutInMs default_retry_settings),
           ro_maxTimeoutInMs = overriding (ro_maxTimeoutInMs r) (ro_maxTimeoutInMs default_retry_settings),
           ro_randomize = overriding (ro_randomize r) (ro_randomize default_retry_settings),
           ro_oomMachine = ro_oomMachine r\<rparr>)"

text \<open>A delay of 0 counts as none.\<close>

definition worker_delay :: "rat \<Rightarrow> 'i catalog_item \<Rightarrow> int \<Rightarrow> int option" where
  "worker_delay rnd c newAttempt =
     (case calculateNextRetryDelay rnd (worker_retry c) newAttempt of
        None \<Rightarrow> None
      | Some d \<Rightarrow> if d = 0 then None else Some d)"

definition requeue_job :: "'i worker_options \<Rightarrow> 'i queue_item \<Rightarrow> int \<Rightarrow> ('i, unit) queueing" where
  "requeue_job W q retryDelay =
     andThen (reading jq_now) (\<lambda>now.
       enqueueSimple (worker_queue W) (Some (qi_id q)) (qi_job q) (qi_item q) (Some (qi_attempt q + 1))
         (Some (now + retryDelay)) (qi_visibilityTimeoutMs q) None)"

definition bury_job :: "rat \<Rightarrow> 'i worker_options \<Rightarrow> 'i catalog_item \<Rightarrow> 'i queue_item \<Rightarrow> string \<Rightarrow> ('i, unit) queueing" where
  "bury_job rnd W c q errorMessage =
     andDo (moveToDeadLetterQueueSimple (worker_queue W) (qi_id q) errorMessage)
       (case truthy (ci_cron c) of None \<Rightarrow> ret () | Some _ \<Rightarrow> rescheduleCronJob rnd W (qi_job q) c (qi_item q))"

text \<open>The handler failed: another attempt after a delay, or the dead letters. An error here is only logged.\<close>

definition fail_job :: "rat \<Rightarrow> 'i worker_options \<Rightarrow> 'i catalog_item \<Rightarrow> 'i queue_item \<Rightarrow> string \<Rightarrow> ('i, unit) queueing" where
  "fail_job rnd W c q errorMessage =
     trying (case worker_delay rnd c (qi_attempt q + 1) of
               None \<Rightarrow> bury_job rnd W c q errorMessage
             | Some retryDelay \<Rightarrow> requeue_job W q retryDelay) (\<lambda>_. ret ())"

definition succeed_job :: "rat \<Rightarrow> 'i worker_options \<Rightarrow> 'i catalog_item \<Rightarrow> 'i queue_item \<Rightarrow> ('i, unit) queueing" where
  "succeed_job rnd W c q =
     andDo (ackSimple (qi_id q) (qi_deduplicationKey q))
       (case truthy (ci_cron c) of None \<Rightarrow> ret () | Some _ \<Rightarrow> rescheduleCronJob rnd W (qi_job q) c (qi_item q))"

text \<open>\<open>processItem\<close> after its handler, which ended with an error message or without one.\<close>

definition finish_job :: "rat \<Rightarrow> 'i worker_options \<Rightarrow> 'i queue_item \<Rightarrow> string option \<Rightarrow> ('i, unit) queueing" where
  "finish_job rnd W q failed =
     (case (qi_job q \<in> set (wk_handlers W), catalog_of W (qi_job q)) of
        (True, Some c) \<Rightarrow>
          trying (case failed of None \<Rightarrow> succeed_job rnd W c q | Some e \<Rightarrow> throw e) (fail_job rnd W c q)
      | _ \<Rightarrow> ret ())"

text \<open>In a batch, cron jobs are not rescheduled.\<close>

definition fail_batch_item :: "rat \<Rightarrow> 'i worker_options \<Rightarrow> 'i catalog_item \<Rightarrow> string \<Rightarrow> 'i queue_item \<Rightarrow> ('i, unit) queueing" where
  "fail_batch_item rnd W c errorMessage q =
     trying (case worker_delay rnd c (qi_attempt q + 1) of
               None \<Rightarrow> moveToDeadLetterQueueSimple (worker_queue W) (qi_id q) errorMessage
             | Some retryDelay \<Rightarrow> requeue_job W q retryDelay) (\<lambda>_. ret ())"

definition finish_batch :: "rat \<Rightarrow> 'i worker_options \<Rightarrow> 'i queue_item list \<Rightarrow> string \<Rightarrow> string option \<Rightarrow> ('i, unit) queueing" where
  "finish_batch rnd W items jobType failed =
     (case (jobType \<in> set (wk_handlers W), catalog_of W jobType) of
        (True, Some c) \<Rightarrow>
          trying (case failed of
                    None \<Rightarrow> forEach items (\<lambda>q. ackSimple (qi_id q) (qi_deduplicationKey q))
                  | Some e \<Rightarrow> throw e)
            (\<lambda>e. forEach items (fail_batch_item rnd W c e))
      | _ \<Rightarrow> ret ())"

definition handleRedriveMessage :: "'i worker_options \<Rightarrow> string option \<Rightarrow> ('i, unit) queueing" where
  "handleRedriveMessage W message =
     trying (case message of
               None \<Rightarrow> throw ''Invalid message format: id must be a string''
             | Some i \<Rightarrow> redriveFromDeadLetterQueueSimple (worker_queue W) i) (\<lambda>_. ret ())"

section \<open>The loop of a worker\<close>

record 'i accumulator =
  ac_items :: "'i queue_item list"
  ac_firstItemAt :: int

datatype 'i loop_task = ProcessItem "'i queue_item" nat | ProcessBatch "'i queue_item list" string

text \<open>The accumulators in the order of the \<open>Map\<close>, and the tasks given to the limiter.\<close>

record 'i worker_loop =
  wl_queue :: "'i job_queue"
  wl_accumulators :: "(string \<times> 'i accumulator) list"
  wl_tasks :: "'i loop_task list"

definition getBatchConfig :: "'i worker_options \<Rightarrow> string \<Rightarrow> batch_config option" where
  "getBatchConfig W jobType = (case catalog_of W jobType of None \<Rightarrow> None | Some c \<Rightarrow> ci_batch c)"

definition isBatchJob :: "'i worker_options \<Rightarrow> string \<Rightarrow> bool" where
  "isBatchJob W jobType = (getBatchConfig W jobType \<noteq> None)"

definition maxDequeueCount :: "'i worker_options \<Rightarrow> nat" where
  "maxDequeueCount W =
     (let batchSizes = List.map_filter (\<lambda>(_, c). map_option bc_maxSize (ci_batch c)) (wk_catalog W)
      in if batchSizes = [] then wk_tasksPerWorker W else foldr max batchSizes 0)"

definition addToAccumulator :: "'i queue_item \<Rightarrow> 'i worker_loop \<Rightarrow> 'i worker_loop" where
  "addToAccumulator q w =
     (let a = (case map_of (wl_accumulators w) (qi_job q) of
                 Some a \<Rightarrow> a | None \<Rightarrow> \<lparr>ac_items = [], ac_firstItemAt = jq_now (wl_queue w)\<rparr>)
      in w\<lparr>wl_accumulators := AList.update (qi_job q) (a\<lparr>ac_items := ac_items a @ [q]\<rparr>) (wl_accumulators w)\<rparr>)"

definition flushBatch :: "string \<Rightarrow> 'i worker_loop \<Rightarrow> 'i worker_loop" where
  "flushBatch jobType w =
     (case map_of (wl_accumulators w) jobType of
        None \<Rightarrow> w
      | Some a \<Rightarrow>
          if ac_items a = [] then w
          else w\<lparr>wl_accumulators := AList.delete jobType (wl_accumulators w),
                 wl_tasks := wl_tasks w @ [ProcessBatch (ac_items a) jobType]\<rparr>)"

definition flushTimedOutBatches :: "'i worker_options \<Rightarrow> 'i worker_loop \<Rightarrow> 'i worker_loop" where
  "flushTimedOutBatches W w =
     fold (\<lambda>(jobType, a) w'. case getBatchConfig W jobType of
        None \<Rightarrow> w'
      | Some c \<Rightarrow> if jq_now (wl_queue w) - ac_firstItemAt a \<ge> bc_maxWaitMs c then flushBatch jobType w' else w')
       (wl_accumulators w) w"

definition flushAllBatches :: "'i worker_loop \<Rightarrow> 'i worker_loop" where
  "flushAllBatches w = fold (\<lambda>(jobType, _). flushBatch jobType) (wl_accumulators w) w"

definition route_item :: "'i worker_options \<Rightarrow> nat \<Rightarrow> 'i queue_item \<Rightarrow> 'i worker_loop \<Rightarrow> 'i worker_loop" where
  "route_item W batchSize q w =
     (case getBatchConfig W (qi_job q) of
        Some c \<Rightarrow>
          (let w1 = addToAccumulator q w in
           case map_of (wl_accumulators w1) (qi_job q) of
             Some a \<Rightarrow> if length (ac_items a) \<ge> bc_maxSize c then flushBatch (qi_job q) w1 else w1
           | None \<Rightarrow> w1)
      | None \<Rightarrow> w\<lparr>wl_tasks := wl_tasks w @ [ProcessItem q batchSize]\<rparr>)"

text \<open>\<open>active\<close> is the limiter's load when the iteration begins, before the batches it flushes.\<close>

definition worker_iteration :: "'i worker_options \<Rightarrow> nat \<Rightarrow> 'i worker_loop \<Rightarrow> 'i worker_loop" where
  "worker_iteration W active w =
     (let w1 = flushTimedOutBatches W w;
          busy = active + (length (wl_tasks w1) - length (wl_tasks w)) in
      if busy \<ge> wk_limit W then w1
      else
        (case dequeueSimple (worker_queue W) (min (maxDequeueCount W) (wk_limit W - busy)) (wl_queue w1) of
           (Inl _, queue) \<Rightarrow> w1\<lparr>wl_queue := queue\<rparr>
         | (Inr items, queue) \<Rightarrow> fold (route_item W (length items)) items (w1\<lparr>wl_queue := queue\<rparr>)))"

end
