(* ===== verification/JobWorkerOutcomes.thy ===== *)
theory JobWorkerOutcomes
  imports JobWorker JobQueueOutcomes
begin

text \<open>
  What workers make of the jobs they are given: how a job ends, that a cron job always has a
  next occurrence, under a name of its own, and that an iteration of the loop drops no job and
  keeps to the limit of tasks.
\<close>

section \<open>Operations in full\<close>

text \<open>\<open>enqueueSimple\<close> under a given id, without a cancellation key: what is written, and the new key.\<close>

definition fresh_job :: "'i job_queue_options \<Rightarrow> string \<Rightarrow> 'i \<Rightarrow> int option \<Rightarrow> int \<Rightarrow> 'i job_queue \<Rightarrow> 'i serialized_item" where
  "fresh_job Q job item attempt visibilityTimeoutMs st =
     \<lparr>si_job = job, si_item = item, si_visibilityTimeoutMs = visibilityTimeoutMs, si_attempt = attempt,
      si_deduplicationKey = Some (qo_nanoid Q (jq_ids st)), si_errorMessage = None\<rparr>"

lemma enqueueSimple_eq:
  "enqueueSimple Q (Some i) job item attempt availableAt v None st =
     (Inr (), put_item i (or_default availableAt (jq_now st)) (fresh_job Q job item attempt v st) (st\<lparr>jq_ids := jq_ids st + 1\<rparr>))"
  by (simp add: enqueueSimple_def serialized_def nanoid_def fresh_job_def andThen_def reading_def ret_def truthy_def
      run_script_def enqueueItem_def require_def)

lemma enqueueOnceSimple_eq:
  "i \<noteq> [] \<Longrightarrow> enqueueOnceSimple Q i job item attempt availableAt v st =
     (case enqueueItemOnce i (or_default availableAt (jq_now st)) (fresh_job Q job item attempt v st) (st\<lparr>jq_ids := jq_ids st + 1\<rparr>) of
        (n, st') \<Rightarrow> (Inr (n = 1), st'))"
  by (simp add: enqueueOnceSimple_def serialized_def nanoid_def fresh_job_def andDo_def andThen_def reading_def ret_def
      run_script_def require_def split: prod.split)

lemma ackSimple_eq: "ackSimple i k st = (Inr (), snd (ackItem i (or_default k []) st))"
  by (simp add: ackSimple_def andDo_def andThen_def run_script_def ret_def split: prod.split)

lemma moveToDead_eq:
  "moveToDeadLetterQueueSimple Q i e st =
     (case moveToDeadLetterQueueScript (qo_cjson Q) i e st of
        (n, st') \<Rightarrow> (if n = 1 then Inr () else Inl ''Move to Dead Letter Queue operation failed'', st'))"
  by (simp add: moveToDeadLetterQueueSimple_def andThen_def run_script_def require_def ret_def throw_def split: prod.split)

section \<open>How a job ends\<close>

definition settled :: "rat \<Rightarrow> 'i worker_options \<Rightarrow> 'i catalog_item \<Rightarrow> 'i queue_item \<Rightarrow> string option \<Rightarrow> 'i job_queue \<Rightarrow> 'i job_queue" where
  "settled rnd W c q failed st =
     (case failed of
        None \<Rightarrow> snd (ackItem (qi_id q) (or_default (qi_deduplicationKey q) []) st)
      | Some e \<Rightarrow>
          (case worker_delay rnd c (qi_attempt q + 1) of
             None \<Rightarrow> snd (moveToDeadLetterQueueScript (wk_cjson W) (qi_id q) e st)
           | Some d \<Rightarrow>
               put_item (qi_id q) (jq_now st + d)
                 (fresh_job (worker_queue W) (qi_job q) (qi_item q) (Some (qi_attempt q + 1)) (qi_visibilityTimeoutMs q) st)
                 (st\<lparr>jq_ids := jq_ids st + 1\<rparr>)))"

lemma requeue_job_eq:
  "requeue_job W q d st =
     (Inr (), put_item (qi_id q) (jq_now st + d)
        (fresh_job (worker_queue W) (qi_job q) (qi_item q) (Some (qi_attempt q + 1)) (qi_visibilityTimeoutMs q) st)
        (st\<lparr>jq_ids := jq_ids st + 1\<rparr>))"
  by (simp add: requeue_job_def enqueueSimple_eq or_default_def)

lemma finish_plain_job:
  assumes "qi_job q \<in> set (wk_handlers W)" "catalog_of W (qi_job q) = Some c" "truthy (ci_cron c) = None"
  shows "finish_job rnd W q failed st = (Inr (), settled rnd W c q failed st)"
proof (cases failed)
  case None
  with assms show ?thesis
    by (simp add: finish_job_def trying_def succeed_job_def settled_def andDo_def andThen_def ackSimple_eq ret_def)
next
  case (Some e)
  show ?thesis
  proof (cases "worker_delay rnd c (qi_attempt q + 1)")
    case None
    with Some assms show ?thesis
      by (simp add: finish_job_def trying_def throw_def fail_job_def bury_job_def settled_def andDo_def andThen_def
          moveToDead_eq worker_queue_def ret_def split: prod.split)
  next
    case (Some d)
    with \<open>failed = Some e\<close> assms show ?thesis
      by (simp add: finish_job_def trying_def throw_def fail_job_def settled_def requeue_job_eq)
  qed
qed

text \<open>A job among the dead letters, and no longer in the queue.\<close>

definition job_buried :: "('i \<Rightarrow> 'i) \<Rightarrow> string \<Rightarrow> string \<Rightarrow> 'i serialized_item \<Rightarrow> int \<Rightarrow> 'i job_queue \<Rightarrow> bool" where
  "job_buried cjson i e x now st =
     (jq_items st i = None \<and> zscore i (jq_queue st) = None
      \<and> zscore i (jq_dlq st) = Some now \<and> jq_dlqItems st i = Some (recoded cjson (Some e) x))"

text \<open>
  C25. How a job that is not a cron job ends, after its handler worked on it: after success it is gone, unless
  another job was enqueued under its id in the meantime, which is left alone; after a failure it waits
  for its next attempt, with the delay of its retry settings, or, when no attempt is left or the delay
  is 0, leaves the queue and is in the dead letter queue, since now, with the message of the error. No error leaves
  the worker. (The job is still stored, and it and the worker's copy of it have deduplication keys,
  as all enqueued jobs have.)
\<close>

theorem job_settled:
  assumes "qi_job q \<in> set (wk_handlers W)" "catalog_of W (qi_job q) = Some c" "truthy (ci_cron c) = None"
    and "jq_items st (qi_id q) = Some x" "qi_deduplicationKey q = Some k" "k \<noteq> []" "si_deduplicationKey x \<noteq> None"
    and "finish_job rnd W q failed st = (r, st')"
  shows "r = Inr () \<and>
    (case failed of
       None \<Rightarrow> (if si_deduplicationKey x = Some k
                then jq_items st' (qi_id q) = None \<and> zscore (qi_id q) (jq_queue st') = None
                  \<and> jq_dlq st' = jq_dlq st \<and> jq_dlqItems st' = jq_dlqItems st
                else st' = st)
     | Some e \<Rightarrow>
         (case calculateNextRetryDelay rnd (worker_retry c) (qi_attempt q + 1) of
            Some d \<Rightarrow> (if d = 0 then job_buried (wk_cjson W) (qi_id q) e x (jq_now st) st' else
              zscore (qi_id q) (jq_queue st') = Some (jq_now st + d)
              \<and> (\<exists>y. jq_items st' (qi_id q) = Some y \<and> si_job y = qi_job q \<and> si_item y = qi_item q
                    \<and> si_attempt y = Some (qi_attempt q + 1)))
          | None \<Rightarrow> job_buried (wk_cjson W) (qi_id q) e x (jq_now st) st'))"
proof -
  have st': "r = Inr ()" "st' = settled rnd W c q failed st"
    using assms(8) finish_plain_job [OF assms(1,2,3), of rnd failed st] by simp_all
  show ?thesis
  proof (cases failed)
    case None
    with st' assms(4-7) show ?thesis by (simp add: settled_def ackItem_def or_default_def)
  next
    case (Some e)
    with st' assms(4) show ?thesis
      by (simp add: settled_def worker_delay_def moveToDeadLetterQueueScript_def fresh_job_def job_buried_def split: option.split)
  qed
qed

text \<open>
  A failure loses what was enqueued while the handler ran: a producer that enqueues a job anew
  under the id of a job a worker is busy with, as debounced jobs are, has its payload replaced by
  the old one, or buried with it, when that attempt fails. After a success the new job stays.
\<close>

theorem late_failure_replaces_newer_job:
  assumes "qi_job q \<in> set (wk_handlers W)" "catalog_of W (qi_job q) = Some c" "truthy (ci_cron c) = None"
    and "qi_deduplicationKey q = Some k" "k \<noteq> []" "k \<noteq> wk_nanoid W (jq_ids st)"
  defines "newer \<equiv> \<lambda>new st. snd (enqueueSimple (worker_queue W) (Some (qi_id q)) (qi_job q) new None None (qi_visibilityTimeoutMs q) None st)"
  shows "map_option si_item (jq_items (snd (finish_job rnd W q (Some e) (newer new st))) (qi_id q)) \<in> {None, Some (qi_item q)}
    \<and> map_option si_item (jq_items (snd (finish_job rnd W q None (newer new st))) (qi_id q)) = Some new"
  unfolding newer_def finish_plain_job [OF assms(1-3)]
  using assms(4-6)
  by (simp add: enqueueSimple_eq settled_def moveToDeadLetterQueueScript_def ackItem_def fresh_job_def
      worker_queue_def or_default_def split: option.split)

section \<open>Cron jobs\<close>

lemma next_scheduled_at:
  assumes "\<And>t. t < cronNext t"
  shows "calculateNextScheduledAt cronNext now lastTimestamp =
    Some (let s = cronNext (or_default lastTimestamp now) in if s < now then cronNext now else s)"
  using assms [of now]
  by (subst calculateNextScheduledAt.simps) (simp add: Let_def calculateNextScheduledAt.simps [of _ _ None] or_default_def not_less)

text \<open>
  The search for the next time of a cron job ends, with a time that is not in the past, however
  long ago the job ran last: \<open>cron-parser\<close> gives times after the one it is asked about.
\<close>

theorem next_time_found:
  assumes "\<And>t. t < cronNext t"
  shows "\<exists>s. calculateNextScheduledAt cronNext now lastTimestamp = Some s \<and> now \<le> s
    \<and> (s = cronNext now \<or> s = cronNext (or_default lastTimestamp now))"
  using assms [of now] by (simp add: next_scheduled_at assms Let_def less_imp_le not_less)

lemma once_stored: "jq_items (snd (enqueueItemOnce i s x st)) i \<noteq> None"
  by (auto simp: enqueueItemOnce_def)

lemma once_simple_stored:
  assumes "i \<noteq> []" "enqueueOnceSimple Q i job item attempt availableAt v st = (r, st')"
  shows "jq_items st' i \<noteq> None \<and> r \<in> {Inr True, Inr False}"
proof -
  obtain t x st1 where "enqueueOnceSimple Q i job item attempt availableAt v st =
      (Inr (fst (enqueueItemOnce i t x st1) = 1), snd (enqueueItemOnce i t x st1))"
    by (simp add: enqueueOnceSimple_eq [OF assms(1)] case_prod_beta)
  with assms(2) show ?thesis using once_stored [of i t x st1] by auto
qed

lemma enqueueCronJob_stores:
  assumes "\<And>t. t < wk_cronNext W cron t" "catalog_of W job = Some c" "ci_visibilityTimeoutMs c \<noteq> 0"
    and "enqueueCronJob rnd W cron job jitter lastTimestamp st = (r, st')"
  shows "\<exists>s. jq_now st \<le> s \<and> jq_items st' (cron_identifier job s) \<noteq> None \<and> r \<in> {Inr True, Inr False}"
proof -
  obtain s where s: "calculateNextScheduledAt (wk_cronNext W cron) (jq_now st) lastTimestamp = Some s" "jq_now st \<le> s"
    using next_time_found [of "wk_cronNext W cron" "jq_now st" lastTimestamp] assms(1) by blast
  have i: "cron_identifier job s \<noteq> []" by (simp add: cron_identifier_def)
  obtain t where "enqueueCronJob rnd W cron job jitter lastTimestamp st =
     enqueueOnceSimple (worker_queue W) (cron_identifier job s) job (wk_cronPayload W s lastTimestamp cron) None (Some t) (ci_visibilityTimeoutMs c) st"
    using s(1) assms(2,3) by (simp add: enqueueCronJob_def workerEnqueueOnce_def visibility_timeout_def Let_def)
  with assms(4) once_simple_stored [OF i] s(2) show ?thesis by metis
qed

lemma rescheduled:
  assumes "\<And>t. t < wk_cronNext W cron t" "catalog_of W job = Some c" "ci_visibilityTimeoutMs c \<noteq> 0" "truthy (ci_cron c) = Some cron"
  shows "\<exists>s st'. rescheduleCronJob rnd W job c item st = (Inr (), st') \<and> jq_now st \<le> s \<and> jq_items st' (cron_identifier job s) \<noteq> None"
proof -
  obtain r st' where e: "enqueueCronJob rnd W cron job (ci_jitterInMs c) (Some (wk_cronTimestamp W item)) st = (r, st')" by fastforce
  from enqueueCronJob_stores [OF assms(1-3) e] obtain s b
    where s: "jq_now st \<le> s" "jq_items st' (cron_identifier job s) \<noteq> None" "r = Inr b" by auto
  with e assms(4) have "rescheduleCronJob rnd W job c item st = (Inr (), st')"
    by (simp add: rescheduleCronJob_def andDo_def andThen_def ret_def)
  with s show ?thesis by blast
qed

lemma parts_of_ends [simp]: "jq_now (snd (ackItem i k st)) = jq_now st" "jq_now (snd (moveToDeadLetterQueueScript cjson i e st)) = jq_now st"
  by (simp_all add: ackItem_def moveToDeadLetterQueueScript_def split: option.split)

text \<open>
  A cron job goes on: whenever its handler has ended, with success or with an error, either the
  job itself is still stored, for another attempt, or its next occurrence is, and that is not in
  the past.
\<close>

theorem cron_goes_on:
  assumes "\<And>t. t < wk_cronNext W cron t" "catalog_of W (qi_job q) = Some c" "truthy (ci_cron c) = Some cron"
    and "qi_job q \<in> set (wk_handlers W)" "ci_visibilityTimeoutMs c \<noteq> 0" "jq_items st (qi_id q) \<noteq> None"
  shows "fst (finish_job rnd W q failed st) = Inr ()
    \<and> (jq_items (snd (finish_job rnd W q failed st)) (qi_id q) \<noteq> None
      \<or> (\<exists>s. jq_now st \<le> s \<and> jq_items (snd (finish_job rnd W q failed st)) (cron_identifier (qi_job q) s) \<noteq> None))"
proof (cases failed)
  case None
  obtain s st' where "rescheduleCronJob rnd W (qi_job q) c (qi_item q) (snd (ackItem (qi_id q) (or_default (qi_deduplicationKey q) []) st)) = (Inr (), st')"
    and "jq_now st \<le> s" "jq_items st' (cron_identifier (qi_job q) s) \<noteq> None"
    using rescheduled [OF assms(1,2,5,3), of rnd "qi_item q" "snd (ackItem (qi_id q) (or_default (qi_deduplicationKey q) []) st)"]
    by auto
  then show ?thesis using None assms(2-4)
    by (auto simp: finish_job_def trying_def succeed_job_def andDo_def andThen_def ackSimple_eq)
next
  case (Some e)
  show ?thesis
  proof (cases "worker_delay rnd c (qi_attempt q + 1)")
    case None
    let ?st = "snd (moveToDeadLetterQueueScript (wk_cjson W) (qi_id q) e st)"
    obtain s st' where "rescheduleCronJob rnd W (qi_job q) c (qi_item q) ?st = (Inr (), st')"
      and "jq_now st \<le> s" "jq_items st' (cron_identifier (qi_job q) s) \<noteq> None"
      using rescheduled [OF assms(1,2,5,3), of rnd "qi_item q" ?st] by auto
    moreover have "moveToDeadLetterQueueSimple (worker_queue W) (qi_id q) e st = (Inr (), ?st)"
      using assms(6) by (auto simp: moveToDead_eq worker_queue_def moveToDeadLetterQueueScript_def)
    ultimately show ?thesis using Some None assms(2-4)
      by (auto simp: finish_job_def trying_def throw_def fail_job_def bury_job_def andDo_def andThen_def)
  next
    case (Some d)
    with \<open>failed = Some e\<close> assms(2-4) show ?thesis
      by (simp add: finish_job_def trying_def throw_def fail_job_def requeue_job_eq)
  qed
qed

section \<open>The names of occurrences\<close>

lemma first_days: "0 \<le> k \<Longrightarrow> day_from_year (1970 + k) \<le> 366 * k"
proof -
  assume k: "0 \<le> k"
  have "(k + 369) div 400 \<le> (k + 69) div 100"
  proof (cases "k < 31")
    case True
    with k have "(k + 369) div 400 = 0" "0 \<le> (k + 69) div 100" by (simp_all add: pos_imp_zdiv_nonneg_iff)
    then show ?thesis by simp
  next
    case False
    then have "(k + 369) div 4 \<le> k + 69" by presburger
    then have "(k + 369) div 4 div 100 \<le> (k + 69) div 100" by (rule zdiv_mono1) simp
    moreover have "(k + 369) div 400 = (k + 369) div 4 div 100" by (simp add: zdiv_zmult2_eq [symmetric])
    ultimately show ?thesis by simp
  qed
  moreover have "(k + 1) div 4 \<le> k" using k by presburger
  ultimately show ?thesis by (simp add: day_from_year_def algebra_simps)
qed

lemma year_up_ge: "y \<le> year_up d y \<and> (day_from_year y \<le> d \<longrightarrow> day_from_year (year_up d y) \<le> d)"
proof (induction d y rule: year_up.induct)
  case (1 d y)
  then show ?case by (subst (1 2) year_up.simps) auto
qed

lemma year_fields:
  assumes "0 \<le> t"
  shows "1970 \<le> getUTCFullYear t" "0 \<le> day_in_year t"
proof -
  have d: "0 \<le> day_of t" using assms by (simp add: day_of_def pos_imp_zdiv_nonneg_iff)
  let ?y = "1970 + day_of t div 366"
  have y: "getUTCFullYear t = year_up (day_of t) ?y" using d by (simp add: getUTCFullYear_def)
  have "0 \<le> day_of t div 366" using d by (simp add: pos_imp_zdiv_nonneg_iff)
  moreover have "366 * (day_of t div 366) \<le> day_of t" by presburger
  ultimately have "day_from_year ?y \<le> day_of t" using first_days [of "day_of t div 366"] by simp
  with year_up_ge [of ?y "day_of t"] y \<open>0 \<le> day_of t div 366\<close>
  show "1970 \<le> getUTCFullYear t" "0 \<le> day_in_year t" by (simp_all add: day_in_year_def)
qed

lemma date_positive: "0 \<le> t \<Longrightarrow> 1 \<le> getUTCDate t"
proof -
  assume t: "0 \<le> t"
  let ?tw = "takeWhile (\<lambda>s. s \<le> day_in_year t) (month_starts (getUTCFullYear t))"
  have "0 < length ?tw" using year_fields(2) [OF t] by (simp add: month_starts_def Let_def)
  then have m: "getUTCMonth t < length ?tw" by (simp add: getUTCMonth_def)
  then have "?tw ! getUTCMonth t \<in> set ?tw" by simp
  then have "?tw ! getUTCMonth t \<le> day_in_year t" by (blast dest: set_takeWhileD)
  with m show ?thesis by (simp add: getUTCDate_def takeWhile_nth)
qed

lemma fields_determine:
  assumes "getUTCFullYear s = getUTCFullYear t" "getUTCMonth s = getUTCMonth t" "getUTCDate s = getUTCDate t"
    and "getUTCHours s = getUTCHours t" "getUTCMinutes s = getUTCMinutes t" "getUTCSeconds s = getUTCSeconds t"
  shows "s div 1000 = t div 1000"
proof -
  have "day_of s = day_of t" using assms(1-3) by (simp add: getUTCDate_def day_in_year_def)
  moreover have "u div 1000 = day_of u * 86400 + getUTCHours u * 3600 + getUTCMinutes u * 60 + getUTCSeconds u" for u
  proof -
    have "u div 60000 = u div 1000 div 60" "u div 3600000 = u div 1000 div 60 div 60"
      "u div 86400000 = u div 1000 div 60 div 60 div 24"
      by (simp_all add: zdiv_zmult2_eq [symmetric])
    then show ?thesis unfolding day_of_def getUTCHours_def getUTCMinutes_def getUTCSeconds_def by presburger
  qed
  ultimately show ?thesis using assms(4-6) by simp
qed

lemma seconds_determine:
  assumes "s div 1000 = t div 1000"
  shows "timestampIdentifier s = timestampIdentifier t"
proof -
  have "u div 60000 = u div 1000 div 60" "u div 3600000 = u div 1000 div 3600" "u div 86400000 = u div 1000 div 86400" for u :: int
    by (simp_all add: zdiv_zmult2_eq [symmetric])
  with assms show ?thesis
    by (simp add: timestampIdentifier_def getUTCFullYear_def getUTCMonth_def getUTCDate_def day_in_year_def
        day_of_def getUTCHours_def getUTCMinutes_def getUTCSeconds_def)
qed

lemma dash_free: "0 \<le> i \<Longrightarrow> CHR ''-'' \<notin> set (int_to_string i)"
  using nat_to_string_digits [of "nat i"] by (auto simp: int_to_string_def is_digit_def)

lemma nonnegative_fields: "0 \<le> getUTCHours t" "0 \<le> getUTCMinutes t" "0 \<le> getUTCSeconds t"
  by (simp_all add: getUTCHours_def getUTCMinutes_def getUTCSeconds_def)

lemma timestamp_inject:
  assumes "0 \<le> s" "0 \<le> t" "timestampIdentifier s = timestampIdentifier t"
  shows "s div 1000 = t div 1000"
proof -
  let ?parts = "\<lambda>u. [int_to_string (getUTCFullYear u), nat_to_string (getUTCMonth u), int_to_string (getUTCDate u),
    int_to_string (getUTCHours u), int_to_string (getUTCMinutes u), int_to_string (getUTCSeconds u)]"
  have split: "js_split CHR ''-'' (timestampIdentifier u) = ?parts u" if "0 \<le> u" for u
  proof -
    have "CHR ''-'' \<notin> set (nat_to_string (getUTCMonth u))"
      using nat_to_string_digits [of "getUTCMonth u"] by (auto simp: is_digit_def)
    then show ?thesis unfolding timestampIdentifier_def
      using year_fields(1) [OF that] date_positive [OF that] nonnegative_fields [of u]
      by (intro js_split_join) (auto simp: dash_free)
  qed
  have inj: "int_to_string i = int_to_string j \<Longrightarrow> 0 \<le> i \<Longrightarrow> 0 \<le> j \<Longrightarrow> i = j" for i j
    by (simp add: int_to_string_def nat_to_string_inject)
  from assms split have "?parts s = ?parts t" by metis
  with year_fields(1) [OF assms(1)] year_fields(1) [OF assms(2)] date_positive [OF assms(1)] date_positive [OF assms(2)]
    nonnegative_fields [of s] nonnegative_fields [of t]
  show ?thesis by (intro fields_determine) (auto simp: nat_to_string_inject intro: inj)
qed

text \<open>
  The id of an occurrence of a cron job names its second: two servers that schedule the same
  occurrence use one id, so that the queue takes it once, and no two occurrences share an id, so
  that none is taken for another.
\<close>

theorem occurrence_has_one_id:
  assumes "0 \<le> s" "0 \<le> t"
  shows "cron_identifier job s = cron_identifier job t \<longleftrightarrow> s div 1000 = t div 1000"
proof -
  have "cron_identifier job s = cron_identifier job t \<longleftrightarrow> timestampIdentifier s = timestampIdentifier t"
    by (simp add: cron_identifier_def)
  with assms show ?thesis using timestamp_inject seconds_determine by blast
qed

end
