(* ===== verification/JobLoop.thy ===== *)
theory JobLoop
  imports JobWorkerOutcomes "HOL-Library.Multiset"
begin

text \<open>
  The loop of a worker: it drops no job it was given, keeps to its limit of tasks, and leaves no
  full batch waiting.
\<close>

fun task_items :: "'i loop_task \<Rightarrow> 'i queue_item list" where
  "task_items (ProcessItem q n) = [q]"
| "task_items (ProcessBatch qs jobType) = qs"

definition waiting_items :: "(string \<times> 'i accumulator) list \<Rightarrow> 'i queue_item multiset" where
  "waiting_items accs = mset (concat (map (\<lambda>e. ac_items (snd e)) accs))"

definition loop_items :: "'i worker_loop \<Rightarrow> 'i queue_item multiset" where
  "loop_items w = waiting_items (wl_accumulators w) + mset (concat (map task_items (wl_tasks w)))"

text \<open>Between iterations every accumulator holds at least one job and fewer than make a batch.\<close>

definition loop_ok :: "'i worker_options \<Rightarrow> 'i worker_loop \<Rightarrow> bool" where
  "loop_ok W w = (distinct (map fst (wl_accumulators w)) \<and>
     (\<forall>(jobType, a) \<in> set (wl_accumulators w). ac_items a \<noteq> [] \<and>
        (\<exists>c. getBatchConfig W jobType = Some c \<and> length (ac_items a) < bc_maxSize c)))"

lemma waiting_delete:
  "distinct (map fst accs) \<Longrightarrow> map_of accs j = Some a \<Longrightarrow>
   waiting_items accs = waiting_items (AList.delete j accs) + mset (ac_items a)"
proof (induction accs)
  case (Cons e accs)
  show ?case
  proof (cases "fst e = j")
    case True
    with Cons.prems have "j \<notin> fst ` set accs" by auto
    then have "AList.delete j accs = accs" by (simp add: delete_id)
    with True Cons.prems show ?thesis by (cases e) (simp add: waiting_items_def AList.delete_eq add.commute split: if_splits)
  next
    case False
    with Cons show ?thesis by (auto simp: waiting_items_def AList.delete_eq)
  qed
qed simp

lemma waiting_update:
  "distinct (map fst accs) \<Longrightarrow>
   waiting_items (AList.update j b accs) = waiting_items (AList.delete j accs) + mset (ac_items b)"
proof (induction accs)
  case Nil
  then show ?case by (simp add: waiting_items_def)
next
  case (Cons e accs)
  show ?case
  proof (cases "fst e = j")
    case True
    with Cons.prems have "AList.delete j accs = accs" by (auto simp: delete_id)
    with True show ?thesis by (cases e) (simp add: waiting_items_def AList.delete_eq add.commute)
  next
    case False
    with Cons show ?thesis by (cases e) (auto simp: waiting_items_def AList.delete_eq)
  qed
qed

lemma flushBatch_items: "distinct (map fst (wl_accumulators w)) \<Longrightarrow> loop_items (flushBatch j w) = loop_items w"
  using waiting_delete [of "wl_accumulators w" j]
  by (auto simp: flushBatch_def loop_items_def split: option.split)

lemma flushBatch_queue [simp]: "wl_queue (flushBatch j w) = wl_queue w"
  by (simp add: flushBatch_def split: option.split)

lemma flushBatch_tasks: "length (wl_tasks (flushBatch j w)) \<le> length (wl_tasks w) + 1 \<and> length (wl_tasks w) \<le> length (wl_tasks (flushBatch j w))"
  by (simp add: flushBatch_def split: option.split)

lemma flushBatch_ok:
  assumes "distinct (map fst (wl_accumulators w))"
    and "\<And>j' a. (j', a) \<in> set (wl_accumulators w) \<Longrightarrow> j' \<noteq> j \<Longrightarrow>
      ac_items a \<noteq> [] \<and> (\<exists>c. getBatchConfig W j' = Some c \<and> length (ac_items a) < bc_maxSize c)"
    and "\<And>a. map_of (wl_accumulators w) j = Some a \<Longrightarrow> ac_items a \<noteq> []"
  shows "loop_ok W (flushBatch j w)"
proof (cases "map_of (wl_accumulators w) j")
  case None
  then have "j \<notin> fst ` set (wl_accumulators w)" by (simp add: map_of_eq_None_iff)
  with None assms(1,2) show ?thesis by (force simp: loop_ok_def flushBatch_def)
next
  case (Some a)
  with assms show ?thesis by (auto simp: loop_ok_def flushBatch_def AList.delete_eq distinct_map_filter)
qed

lemma add_parts:
  assumes "loop_ok W w"
  shows "loop_items (addToAccumulator q w) = loop_items w + {#q#}" "distinct (map fst (wl_accumulators (addToAccumulator q w)))"
    "wl_tasks (addToAccumulator q w) = wl_tasks w" "wl_queue (addToAccumulator q w) = wl_queue w"
    "\<exists>a. map_of (wl_accumulators (addToAccumulator q w)) (qi_job q) = Some a \<and> ac_items a \<noteq> []"
    "\<And>j a. (j, a) \<in> set (wl_accumulators (addToAccumulator q w)) \<Longrightarrow> j \<noteq> qi_job q \<Longrightarrow> (j, a) \<in> set (wl_accumulators w)"
proof -
  have d: "distinct (map fst (wl_accumulators w))" using assms by (simp add: loop_ok_def)
  show "loop_items (addToAccumulator q w) = loop_items w + {#q#}"
  proof (cases "map_of (wl_accumulators w) (qi_job q)")
    case None
    then have "AList.delete (qi_job q) (wl_accumulators w) = wl_accumulators w"
      by (simp add: delete_id map_of_eq_None_iff)
    with None show ?thesis by (simp add: addToAccumulator_def loop_items_def waiting_update [OF d] Let_def)
  next
    case (Some a)
    with waiting_delete [OF d Some] show ?thesis by (simp add: addToAccumulator_def loop_items_def waiting_update [OF d] Let_def)
  qed
  show "distinct (map fst (wl_accumulators (addToAccumulator q w)))"
    using d by (simp add: addToAccumulator_def Let_def distinct_update)
  show "\<exists>a. map_of (wl_accumulators (addToAccumulator q w)) (qi_job q) = Some a \<and> ac_items a \<noteq> []"
    by (simp add: addToAccumulator_def Let_def update_conv')
  show "(j, a) \<in> set (wl_accumulators w)" if "(j, a) \<in> set (wl_accumulators (addToAccumulator q w))" "j \<noteq> qi_job q" for j a
  proof -
    have "map_of (wl_accumulators (addToAccumulator q w)) j = Some a"
      using that(1) \<open>distinct (map fst (wl_accumulators (addToAccumulator q w)))\<close> by simp
    with that(2) have "map_of (wl_accumulators w) j = Some a" by (simp add: addToAccumulator_def Let_def update_conv')
    then show ?thesis by (rule map_of_SomeD)
  qed
qed (simp_all add: addToAccumulator_def Let_def)

lemma route_item_ok:
  assumes "loop_ok W w"
  shows "loop_ok W (route_item W n q w) \<and> loop_items (route_item W n q w) = loop_items w + {#q#}
    \<and> wl_queue (route_item W n q w) = wl_queue w \<and> length (wl_tasks (route_item W n q w)) \<le> length (wl_tasks w) + 1"
proof (cases "getBatchConfig W (qi_job q)")
  case None
  with assms show ?thesis by (simp add: route_item_def loop_ok_def loop_items_def)
next
  case (Some c)
  let ?w = "addToAccumulator q w"
  note parts = add_parts [OF assms, where q = q]
  obtain a where a: "map_of (wl_accumulators ?w) (qi_job q) = Some a" "ac_items a \<noteq> []" using parts(5) by blast
  have others: "ac_items b \<noteq> [] \<and> (\<exists>c. getBatchConfig W j = Some c \<and> length (ac_items b) < bc_maxSize c)"
    if "(j, b) \<in> set (wl_accumulators ?w)" "j \<noteq> qi_job q" for j b
    using parts(6) [OF that] assms by (force simp: loop_ok_def)
  show ?thesis
  proof (cases "bc_maxSize c \<le> length (ac_items a)")
    case True
    have "loop_ok W (flushBatch (qi_job q) ?w)"
      using a by (intro flushBatch_ok [OF parts(2) others]) auto
    with True Some a parts(1-4) show ?thesis
      using flushBatch_tasks [of "qi_job q" ?w] by (simp add: route_item_def Let_def flushBatch_items)
  next
    case False
    have "loop_ok W ?w"
      unfolding loop_ok_def
    proof (intro conjI ballI parts(2), clarify)
      fix j b assume e: "(j, b) \<in> set (wl_accumulators ?w)"
      show "ac_items b \<noteq> [] \<and> (\<exists>c. getBatchConfig W j = Some c \<and> length (ac_items b) < bc_maxSize c)"
      proof (cases "j = qi_job q")
        case True
        with e a(1) parts(2) have "b = a" by (simp add: map_of_eq_Some_iff)
        with True a(2) Some False show ?thesis by simp
      next
        case False
        with others e show ?thesis by blast
      qed
    qed
    with False Some a parts(1-4) show ?thesis by (simp add: route_item_def Let_def)
  qed
qed

lemma route_items_ok:
  "loop_ok W w \<Longrightarrow> loop_ok W (fold (route_item W n) qs w) \<and> loop_items (fold (route_item W n) qs w) = loop_items w + mset qs
    \<and> wl_queue (fold (route_item W n) qs w) = wl_queue w \<and> length (wl_tasks (fold (route_item W n) qs w)) \<le> length (wl_tasks w) + length qs"
proof (induction qs arbitrary: w)
  case (Cons q qs)
  from route_item_ok [OF Cons.prems, of n q] have "loop_ok W (route_item W n q w)" by blast
  from Cons.IH [OF this] route_item_ok [OF Cons.prems, of n q] show ?case by simp
qed simp

lemma flush_timed_out:
  fixes W :: "'i worker_options" and w :: "'i worker_loop"
  assumes "loop_ok W w"
  shows "loop_ok W (flushTimedOutBatches W w) \<and> loop_items (flushTimedOutBatches W w) = loop_items w
    \<and> wl_queue (flushTimedOutBatches W w) = wl_queue w
    \<and> length (wl_tasks (flushTimedOutBatches W w)) \<le> length (wl_tasks w) + length (wl_accumulators w)
    \<and> length (wl_tasks w) \<le> length (wl_tasks (flushTimedOutBatches W w))"
proof -
  define f :: "string \<times> 'i accumulator \<Rightarrow> 'i worker_loop \<Rightarrow> 'i worker_loop" where "f = (\<lambda>(jobType, a) w'. case getBatchConfig W jobType of None \<Rightarrow> w'
    | Some c \<Rightarrow> if jq_now (wl_queue w) - ac_firstItemAt a \<ge> bc_maxWaitMs c then flushBatch jobType w' else w')"
  have step: "loop_ok W (f e v) \<and> loop_items (f e v) = loop_items v \<and> wl_queue (f e v) = wl_queue v
      \<and> length (wl_tasks (f e v)) \<le> length (wl_tasks v) + 1 \<and> length (wl_tasks v) \<le> length (wl_tasks (f e v))"
    if "loop_ok W v" for e v
  proof -
    have d: "distinct (map fst (wl_accumulators v))" using that by (simp add: loop_ok_def)
    have "loop_ok W (flushBatch j v)" for j
      using that by (intro flushBatch_ok [OF d]) (fastforce simp: loop_ok_def dest: map_of_SomeD)+
    then show ?thesis
      using that flushBatch_items [OF d] flushBatch_tasks [of _ v] by (cases e) (simp add: f_def split: option.split)
  qed
  have "loop_ok W v \<Longrightarrow> loop_ok W (fold f es v) \<and> loop_items (fold f es v) = loop_items v
      \<and> wl_queue (fold f es v) = wl_queue v \<and> length (wl_tasks (fold f es v)) \<le> length (wl_tasks v) + length es
      \<and> length (wl_tasks v) \<le> length (wl_tasks (fold f es v))" for es v
  proof (induction es arbitrary: v)
    case (Cons e es)
    from step [OF Cons.prems, of e] Cons.IH [of "f e v"] show ?case by simp
  qed simp
  from this [OF assms, of "wl_accumulators w"] show ?thesis by (simp add: flushTimedOutBatches_def f_def)
qed

lemma length_map_filter: "length (List.map_filter f xs) \<le> length xs"
  by (simp add: map_filter_def)

lemma length_dequeue_each: "length (fst (dequeue_each now es st)) \<le> length es"
proof (induction es arbitrary: st)
  case (Cons e es)
  have "length (fst (dequeue_item now e st)) \<le> 1" by (simp add: dequeue_item_def split: option.split)
  with Cons.IH [of "snd (dequeue_item now e st)"] show ?case by (simp add: case_prod_beta)
qed simp

lemma dequeueSimple_eq:
  "\<exists>items. dequeueSimple Q n st = (Inr items, snd (dequeueItems (jq_now st) n st)) \<and> length items \<le> n"
proof -
  have "length (fst (dequeueItems (jq_now st) n st)) \<le> n"
    using length_dequeue_each [of "jq_now st" "zrangebyscore (jq_now st) n (jq_queue st)" st]
      length_zrangebyscore [of "jq_now st" n "jq_queue st"] by (simp add: dequeueItems_def)
  with length_map_filter [of "parsed_item Q" "fst (dequeueItems (jq_now st) n st)"] show ?thesis
    by (simp add: dequeueSimple_def andThen_def reading_def run_script_def ret_def case_prod_beta)
qed

text \<open>
  C27. An iteration of a worker's loop hands over or keeps every job: the jobs it took from the queue and
  those that waited for their batch are afterwards in a task or still wait, each exactly once. No
  full batch is left waiting, and the tasks it starts do not exceed the limit, apart from
  batches that have waited long enough.
\<close>

theorem iteration_drops_no_job:
  assumes "loop_ok W w" "w' = worker_iteration W active w"
  shows "loop_ok W w' \<and> (\<exists>n items. loop_items w' = loop_items w + mset items
      \<and> (if n = 0 then items = [] \<and> wl_queue w' = wl_queue w
         else dequeueSimple (worker_queue W) n (wl_queue w) = (Inr items, wl_queue w')))
    \<and> active + (length (wl_tasks w') - length (wl_tasks w)) \<le> max (wk_limit W) (active + length (wl_accumulators w))"
proof -
  let ?w = "flushTimedOutBatches W w"
  define busy where "busy = active + (length (wl_tasks ?w) - length (wl_tasks w))"
  note flushed = flush_timed_out [OF assms(1)]
  show ?thesis
  proof (cases "wk_limit W \<le> busy")
    case True
    with assms(2) have "w' = ?w" by (simp add: worker_iteration_def busy_def Let_def)
    moreover have "active + (length (wl_tasks ?w) - length (wl_tasks w)) \<le> max (wk_limit W) (active + length (wl_accumulators w))"
      by (rule max.coboundedI2) (use flushed in linarith)
    ultimately show ?thesis using flushed by (intro conjI exI [of _ 0] exI [of _ "[]"]) simp_all
  next
    case False
    define n where "n = min (maxDequeueCount W) (wk_limit W - busy)"
    obtain items where items: "dequeueSimple (worker_queue W) n (wl_queue ?w) = (Inr items, snd (dequeueItems (jq_now (wl_queue ?w)) n (wl_queue ?w)))"
      "length items \<le> n" using dequeueSimple_eq by blast
    let ?v = "?w\<lparr>wl_queue := snd (dequeueItems (jq_now (wl_queue ?w)) n (wl_queue ?w))\<rparr>"
    have w': "w' = fold (route_item W (length items)) items ?v"
      using False assms(2) items(1) by (simp add: worker_iteration_def busy_def [symmetric] n_def [symmetric] Let_def)
    have "loop_ok W ?v" "loop_items ?v = loop_items w" using flushed by (simp_all add: loop_ok_def loop_items_def)
    note routed = route_items_ok [OF this(1), of "length items" items] this(2)
    have "busy + length items \<le> wk_limit W" using items(2) False by (simp add: n_def) linarith
    moreover have "length (wl_tasks w') \<le> length (wl_tasks ?w) + length items" using routed unfolding w' by simp
    moreover have "length (wl_tasks w) \<le> length (wl_tasks ?w)" using flushed by blast
    ultimately have "active + (length (wl_tasks w') - length (wl_tasks w)) \<le> wk_limit W" unfolding busy_def by arith
    moreover have "n = 0 \<Longrightarrow> items = [] \<and> wl_queue w' = wl_queue w"
      using items(2) routed flushed by (simp add: w' dequeueItems_def zrangebyscore_def)
    moreover have "n \<noteq> 0 \<Longrightarrow> dequeueSimple (worker_queue W) n (wl_queue w) = (Inr items, wl_queue w')"
      using items(1) routed flushed by (simp add: w')
    ultimately show ?thesis using routed unfolding w' [symmetric] by (intro conjI exI [of _ n] exI [of _ items]) auto
  qed
qed

end
