(* ===== verification/JobRefinement.thy ===== *)
theory JobRefinement
  imports JobLoop Snapshots
begin

text \<open>
  The jobs of the run engine (theory EngineState), a map from ids to a payload and a time, and
  the queue that implements them (theory JobQueue). And the queue and its workers on concrete jobs.
\<close>

section \<open>The engine's jobs\<close>

datatype 'i job_call =
    CallEnqueue string string 'i int int
  | CallReschedule string int
  | CallAck string

text \<open>\<open>D\<close> reads the payload of a job of the engine.\<close>

fun engine_call :: "(string \<Rightarrow> 'i \<Rightarrow> job_payload) \<Rightarrow> world \<Rightarrow> 'i job_call \<Rightarrow> world" where
  "engine_call D w (CallEnqueue i job item t v) = state_after (enqueueJob i (D job item) t) w"
| "engine_call D w (CallReschedule i t) = state_after (rescheduleJob i t) w"
| "engine_call D w (CallAck i) = state_after (ackJob i) w"

fun queue_call :: "'i job_queue_options \<Rightarrow> 'i job_queue \<Rightarrow> 'i job_call \<Rightarrow> 'i job_queue" where
  "queue_call Q st (CallEnqueue i job item t v) = state_after (enqueueSimple Q (Some i) job item None (Some t) v None) st"
| "queue_call Q st (CallReschedule i t) = state_after (rescheduleSimple i t) st"
| "queue_call Q st (CallAck i) = state_after (ackSimple i None) st"

definition jobs_of :: "(string \<Rightarrow> 'i \<Rightarrow> job_payload) \<Rightarrow> 'i job_queue \<Rightarrow> string \<Rightarrow> job option" where
  "jobs_of D st i = (case jq_items st i of None \<Rightarrow> None
     | Some x \<Rightarrow> Some \<lparr>jb_payload = D (si_job x) (si_item x), jb_availableAt = or_default (zscore i (jq_queue st)) 0\<rparr>)"

lemma queue_call_ok: "queue_ok st \<Longrightarrow> queue_ok (queue_call Q st c)"
proof (cases c)
  case (CallEnqueue i job item t v)
  moreover assume "queue_ok st"
  then have "queue_ok (st\<lparr>jq_ids := jq_ids st + 1\<rparr>)" by (simp add: queue_ok_def)
  ultimately show ?thesis by (simp add: state_after_def enqueueSimple_eq put_item_ok)
qed (simp_all add: state_after_def ackSimple_eq ackItem_def drop_item_ok reschedule_ok [unfolded state_after_def] split: option.split)

lemma queue_call_jobs:
  assumes "queue_ok st" "en_jobs w = jobs_of D st"
  shows "en_jobs (engine_call D w c) = jobs_of D (queue_call Q st c)"
proof (cases c)
  case (CallEnqueue i job item t v)
  show ?thesis unfolding CallEnqueue
    by (rule ext) (simp add: enqueueJob_def state_after_def modify_def enqueueSimple_eq jobs_of_def assms(2) fresh_job_def or_default_def
        split: option.split)
next
  case (CallReschedule i t)
  have "i \<in> zmembers (jq_queue st) \<longleftrightarrow> jq_items st i \<noteq> None" using assms(1) by (auto simp: queue_ok_def)
  then show ?thesis unfolding CallReschedule
    by (intro ext) (auto simp: rescheduleJob_def rescheduleSimple_def state_after_def modify_def jobs_of_def assms(2) or_default_def
        split: option.split)
next
  case (CallAck i)
  show ?thesis unfolding CallAck
    by (rule ext) (auto simp: ackJob_def state_after_def modify_def ackSimple_eq ackItem_def jobs_of_def assms(2) or_default_def
        split: option.split)
qed

text \<open>
  C10. The queue of background jobs implements the jobs of the run engine: after any sequence of
  the engine's calls it holds the jobs the engine's state says, each with its payload and its time.
\<close>

theorem queue_implements_engine_jobs:
  assumes "en_jobs w = (\<lambda>_. None)"
  shows "en_jobs (foldl (engine_call D) w calls) = jobs_of D (foldl (queue_call Q) empty_job_queue calls)"
proof -
  have "queue_ok st \<Longrightarrow> en_jobs w = jobs_of D st \<Longrightarrow>
      en_jobs (foldl (engine_call D) w calls) = jobs_of D (foldl (queue_call Q) st calls)" for st w
    by (induction calls arbitrary: st w) (simp_all add: queue_call_ok queue_call_jobs)
  moreover have "jobs_of D empty_job_queue = (\<lambda>_. None)" by (rule ext) (simp add: jobs_of_def empty_job_queue_def)
  ultimately show ?thesis using empty_queue_ok assms by metis
qed

theorem queue_implements_engine_jobs_witness:
  "en_jobs (foldl (engine_call (\<lambda>_ _. tryCompleteBatchJob ''b'')) empty_world [CallEnqueue ''a'' ''j'' (0 :: nat) 5 100, CallReschedule ''a'' 9])
   = (\<lambda>_. None)(''a'' := Some \<lparr>jb_payload = tryCompleteBatchJob ''b'', jb_availableAt = 9\<rparr>)"
proof -
  have "en_jobs empty_world = (\<lambda>_. None)" by (simp add: empty_world_def)
  from queue_implements_engine_jobs [OF this, of "\<lambda>_ _. tryCompleteBatchJob ''b''" "[CallEnqueue ''a'' ''j'' (0 :: nat) 5 100, CallReschedule ''a'' 9]"
      "\<lparr>qo_nanoid = (\<lambda>_. ''k''), qo_schema = (\<lambda>_. None), qo_cjson = id\<rparr>"]
  show ?thesis
    by (simp add: state_after_def enqueueSimple_eq fresh_job_def rescheduleSimple_def modify_def empty_job_queue_def
        jobs_of_def or_default_def fun_eq_iff)
qed

section \<open>Concrete jobs\<close>

text \<open>A job \<open>send\<close> of three attempts, and a job \<open>tick\<close> at every full minute.\<close>

definition example_worker :: "nat worker_options" where
  "example_worker = \<lparr>wk_nanoid = (\<lambda>n. ''key'' @ nat_to_string n), wk_cjson = id,
     wk_catalog =
       [(''send'', \<lparr>ci_schema = Some, ci_visibilityTimeoutMs = 5000,
          ci_retry = Some \<lparr>ro_maxAttempts = Some 3, ro_factor = Some 2, ro_minTimeoutInMs = Some 1000,
            ro_maxTimeoutInMs = None, ro_randomize = Some False, ro_oomMachine = None\<rparr>,
          ci_cron = None, ci_jitterInMs = None, ci_batch = Some \<lparr>bc_maxSize = 2, bc_maxWaitMs = 100\<rparr>\<rparr>),
        (''tick'', \<lparr>ci_schema = Some, ci_visibilityTimeoutMs = 5000, ci_retry = None, ci_cron = Some ''* * * * *'',
          ci_jitterInMs = None, ci_batch = None\<rparr>)],
     wk_handlers = [''send'', ''tick''], wk_tasksPerWorker = 1, wk_limit = 10,
     wk_cronNext = (\<lambda>_ t. (t div 60000 + 1) * 60000), wk_cronPayload = (\<lambda>t _ _. nat t), wk_cronTimestamp = int\<rparr>"

definition example_job :: "nat serialized_item" where
  "example_job = \<lparr>si_job = ''send'', si_item = 7, si_visibilityTimeoutMs = 5000, si_attempt = None,
     si_deduplicationKey = Some ''k1'', si_errorMessage = None\<rparr>"

definition example_delivery :: "nat queue_item" where
  "example_delivery = \<lparr>qi_id = ''j1'', qi_job = ''send'', qi_item = 7, qi_visibilityTimeoutMs = 5000, qi_attempt = 0,
     qi_timestamp = 0, qi_deduplicationKey = Some ''k1''\<rparr>"

definition example_tick :: "nat queue_item" where
  "example_tick = \<lparr>qi_id = ''t1'', qi_job = ''tick'', qi_item = 60000, qi_visibilityTimeoutMs = 5000, qi_attempt = 0,
     qi_timestamp = 0, qi_deduplicationKey = Some ''k1''\<rparr>"

lemmas example_job_defs = example_worker_def example_job_def example_delivery_def example_tick_def

definition one_job :: "nat job_queue" where
  "one_job = foldl (job_step id) empty_job_queue [AddJob ''j1'' 0 example_job]"

lemma one_job_eq: "one_job = put_item ''j1'' 0 example_job empty_job_queue"
  by (simp add: one_job_def enqueueItem_def)

lemma one_job_simps [simp]:
  "jq_queue one_job = [(''j1'', 0)]" "jq_items one_job ''j1'' = Some example_job" "jq_dlqItems one_job = (\<lambda>_. None)" "jq_now one_job = 0"
  by (simp_all add: one_job_eq put_item_def empty_job_queue_def zadd_def zrem_def)

theorem due_job_handed_out_witness:
  "(''j1'', example_job, 0) \<in> set (fst (dequeueItems 0 1 one_job))
   \<and> zscore ''j1'' (jq_queue (snd (dequeueItems 0 1 one_job))) = Some 5000"
  using due_job_handed_out [OF one_job_def, of "''j1''" example_job 1]
  by (simp add: zscore_def zscore_key_def example_job_def)

theorem job_hidden_while_processed_witness:
  "''j1'' \<notin> fst ` set (fst (dequeueItems 4000 5 (foldl (job_step id) (snd (dequeueItems 0 1 one_job)) [Wait 4000])))"
proof -
  have "(''j1'', example_job, 0) \<in> set (fst (dequeueItems (jq_now one_job) 1 one_job))"
    by (simp add: dequeueItems_iff zrangebyscore_def)
  from job_hidden_while_processed [OF one_job_def this, of "[Wait 4000]"] show ?thesis
    by (simp add: dequeueItems_def example_job_def)
qed

theorem job_not_lost_witness:
  "\<exists>y. (jq_items (foldl (job_step id) one_job [AckJob ''j1'' ''k0'', BuryJob ''j1'' ''error'']) ''j1'' = Some y
      \<or> jq_dlqItems (foldl (job_step id) one_job [AckJob ''j1'' ''k0'', BuryJob ''j1'' ''error'']) ''j1'' = Some y)
    \<and> si_job y = ''send'' \<and> si_deduplicationKey y = Some ''k1'' \<and> si_attempt y = None"
  using job_not_lost [of one_job "''j1''" example_job "[AckJob ''j1'' ''k0'', BuryJob ''j1'' ''error'']" _ id]
  by (simp add: example_job_def)

lemma example_catalog:
  "catalog_of example_worker ''send'' = Some (snd (wk_catalog example_worker ! 0))"
  "catalog_of example_worker ''tick'' = Some (snd (wk_catalog example_worker ! 1))"
  by (simp_all add: catalog_of_def example_worker_def)

theorem job_settled_witness:
  "zscore ''j1'' (jq_queue (snd (finish_job 0 example_worker example_delivery (Some ''error'') one_job))) = Some 1000"
proof -
  have "calculateNextRetryDelay 0 (worker_retry (snd (wk_catalog example_worker ! 0))) 1 = Some 1000"
    by (simp add: example_worker_def worker_retry_def overriding_def default_retry_settings_def calculateNextRetryDelay_def
        or_default_def Let_def) (simp add: js_round_def floor_eq_iff)
  then show ?thesis
    using job_settled [of example_delivery example_worker "snd (wk_catalog example_worker ! 0)" one_job example_job "''k1''" 0
        "Some ''error''" "fst (finish_job 0 example_worker example_delivery (Some ''error'') one_job)"
        "snd (finish_job 0 example_worker example_delivery (Some ''error'') one_job)"] example_catalog
    by (simp add: example_delivery_def example_job_def) (simp add: example_worker_def truthy_def)
qed

theorem late_failure_replaces_newer_job_witness:
  "map_option si_item (jq_items (snd (finish_job 0 example_worker example_delivery None
     (snd (enqueueSimple (worker_queue example_worker) (Some ''j1'') ''send'' 8 None None 5000 None one_job)))) ''j1'') = Some 8"
proof -
  have "''k1'' \<noteq> wk_nanoid example_worker (jq_ids one_job)" by (simp add: example_worker_def)
  then show ?thesis
    using late_failure_replaces_newer_job [of example_delivery example_worker "snd (wk_catalog example_worker ! 0)" "''k1''" one_job 0 _ 8]
      example_catalog
    by (simp add: example_delivery_def example_worker_def truthy_def)
qed

lemma example_next: "t < wk_cronNext example_worker cron t"
  by (simp add: example_worker_def)

theorem next_time_found_witness:
  "\<exists>s. calculateNextScheduledAt (wk_cronNext example_worker ''* * * * *'') 100000 (Some 0) = Some s \<and> 100000 \<le> s"
  using next_time_found [of "wk_cronNext example_worker ''* * * * *''" 100000 "Some 0"] example_next by blast

theorem cron_goes_on_witness:
  "\<exists>s. 0 \<le> s \<and> jq_items (snd (finish_job 0 example_worker example_tick None (put_item ''t1'' 0 example_job empty_job_queue)))
     (cron_identifier ''tick'' s) \<noteq> None
   \<or> jq_items (snd (finish_job 0 example_worker example_tick None (put_item ''t1'' 0 example_job empty_job_queue))) ''t1'' \<noteq> None"
proof -
  have "truthy (ci_cron (snd (wk_catalog example_worker ! 1))) = Some ''* * * * *''"
    "ci_visibilityTimeoutMs (snd (wk_catalog example_worker ! 1)) \<noteq> 0" "''tick'' \<in> set (wk_handlers example_worker)"
    by (simp_all add: example_worker_def truthy_def)
  then show ?thesis
    using cron_goes_on [of example_worker "''* * * * *''" example_tick "snd (wk_catalog example_worker ! 1)"
        "put_item ''t1'' 0 example_job empty_job_queue" 0 None] example_catalog example_next
    by (auto simp: example_tick_def empty_job_queue_def)
qed

theorem occurrence_has_one_id_witness: "cron_identifier ''tick'' 60000 \<noteq> cron_identifier ''tick'' 120000"
  using occurrence_has_one_id [of 60000 120000 "''tick''"] by simp

definition example_loop :: "nat worker_loop" where
  "example_loop = \<lparr>wl_queue = one_job,
     wl_accumulators = [(''send'', \<lparr>ac_items = [example_delivery\<lparr>qi_id := ''j0''\<rparr>], ac_firstItemAt = 0\<rparr>)], wl_tasks = []\<rparr>"

theorem iteration_drops_no_job_witness:
  "loop_ok example_worker (worker_iteration example_worker 9 example_loop)
   \<and> 9 + (length (wl_tasks (worker_iteration example_worker 9 example_loop)) - 0) \<le> 10"
proof -
  have "loop_ok example_worker example_loop"
    by (simp add: loop_ok_def example_loop_def getBatchConfig_def catalog_of_def example_worker_def)
  from iteration_drops_no_job [OF this refl, of 9] show ?thesis
    by (simp add: example_loop_def) (simp add: example_worker_def)
qed

end
