(* ===== verification/Mollifier.thy ===== *)
theory Mollifier
  imports Prelude Redis RetryDelay
begin

text \<open>
  The buffer in which triggered runs wait when an environment triggers more than the database
  should take at once (\<open>packages/redis-worker/src/mollifier/buffer.ts\<close>, \<open>schemas.ts\<close>): an entry per run,
  a first-in first-out list per environment, the organizations and environments that have entries,
  the bindings of idempotency keys and the claims of keys. Each Lua script is one function of
  the store.

  An entry's payload is the JSON of a trigger, of which the scripts read and write the fields named
  here; what \<open>cjson\<close> makes of the rest is an argument. An empty Lua table is written as an empty
  object, also where an empty array was read. A string is the sequence of its UTF-8 bytes.
\<close>

section \<open>Keys\<close>

definition base64url_alphabet :: string where
  "base64url_alphabet = ''ABCDEFGHIJKLMNOPQRSTUVWXYZabcdefghijklmnopqrstuvwxyz0123456789-_''"

definition sextet :: "nat \<Rightarrow> char" where
  "sextet n = base64url_alphabet ! n"

abbreviation byte :: "char \<Rightarrow> nat" where
  "byte c \<equiv> of_char c"

fun encodeKeyPart :: "string \<Rightarrow> string" where
  "encodeKeyPart [] = []"
| "encodeKeyPart [a] = [sextet (byte a div 4), sextet (byte a mod 4 * 16)]"
| "encodeKeyPart [a, b] =
     [sextet (byte a div 4), sextet (byte a mod 4 * 16 + byte b div 16), sextet (byte b mod 16 * 4)]"
| "encodeKeyPart (a # b # c # s) =
     sextet (byte a div 4) # sextet (byte a mod 4 * 16 + byte b div 16) #
     sextet (byte b mod 16 * 4 + byte c div 64) # sextet (byte c mod 64) # encodeKeyPart s"

record idempotency_input =
  ii_envId :: string
  ii_taskIdentifier :: string
  ii_idempotencyKey :: string

definition key_parts :: "idempotency_input \<Rightarrow> string" where
  "key_parts x = js_join '':'' [encodeKeyPart (ii_envId x), encodeKeyPart (ii_taskIdentifier x), encodeKeyPart (ii_idempotencyKey x)]"

definition idempotencyLookupKeyFor :: "idempotency_input \<Rightarrow> string" where
  "idempotencyLookupKeyFor x = ''mollifier:idempotency:'' @ key_parts x"

definition makeIdempotencyClaimKey :: "idempotency_input \<Rightarrow> string" where
  "makeIdempotencyClaimKey x = ''mollifier:claim:'' @ key_parts x"

definition PENDING_PREFIX :: string where
  "PENDING_PREFIX = ''pending:''"

section \<open>Entries and the store\<close>

datatype buffer_status = QUEUED_ENTRY | DRAINING_ENTRY | FAILED_ENTRY

datatype json_list = JsonArray "string list" | EmptyObject

record 'r mollifier_payload =
  mp_tags :: "json_list option"
  mp_metadata :: "string option"
  mp_metadataType :: "string option"
  mp_delayUntil :: "string option"
  mp_cancelledAt :: "string option"
  mp_cancelReason :: "string option"
  mp_idempotencyKey :: "string option"
  mp_idempotencyKeyExpiresAt :: "string option"
  mp_rest :: 'r

datatype 'r payload_text = Payload "'r mollifier_payload" | Unreadable

text \<open>\<open>me_expiresAt\<close> is the expiry of the hash.\<close>

record 'r buffer_entry =
  me_runId :: string
  me_envId :: string
  me_orgId :: string
  me_payload :: "'r payload_text"
  me_status :: buffer_status
  me_attempts :: nat
  me_createdAt :: int
  me_createdAtMicros :: int
  me_materialised :: bool
  me_idempotencyLookupKey :: string
  me_metadataVersion :: nat
  me_expiresAt :: "int option"

text \<open>The head of a list is where \<open>LPUSH\<close> puts a run, its end where \<open>RPOP\<close> takes it.\<close>

record 'r mollifier =
  mo_entries :: "string \<Rightarrow> 'r buffer_entry option"
  mo_queue :: "string \<Rightarrow> string list"
  mo_orgs :: "string list"
  mo_orgEnvs :: "string \<Rightarrow> string list"
  mo_draining :: zset
  mo_lookups :: "string \<Rightarrow> string option"
  mo_claims :: "string \<Rightarrow> (string \<times> int) option"
  mo_rates :: "string \<Rightarrow> (nat \<times> int) option"
  mo_tripped :: "string \<Rightarrow> int option"
  mo_now :: int

definition empty_mollifier :: "'r mollifier" where
  "empty_mollifier = \<lparr>mo_entries = (\<lambda>_. None), mo_queue = (\<lambda>_. []), mo_orgs = [], mo_orgEnvs = (\<lambda>_. []), mo_draining = [],
     mo_lookups = (\<lambda>_. None), mo_claims = (\<lambda>_. None), mo_rates = (\<lambda>_. None), mo_tripped = (\<lambda>_. None), mo_now = 0\<rparr>"

definition unexpired :: "int \<Rightarrow> 'r buffer_entry \<Rightarrow> bool" where
  "unexpired now x = (case me_expiresAt x of None \<Rightarrow> True | Some t \<Rightarrow> now < t)"

definition live_entry :: "string \<Rightarrow> 'r mollifier \<Rightarrow> 'r buffer_entry option" where
  "live_entry runId st =
     (case mo_entries st runId of None \<Rightarrow> None | Some x \<Rightarrow> if unexpired (mo_now st) x then Some x else None)"

definition set_entry :: "string \<Rightarrow> 'r buffer_entry \<Rightarrow> 'r mollifier \<Rightarrow> 'r mollifier" where
  "set_entry runId x st = st\<lparr>mo_entries := (mo_entries st)(runId := Some x)\<rparr>"

definition track_org :: "string \<Rightarrow> string \<Rightarrow> 'r mollifier \<Rightarrow> 'r mollifier" where
  "track_org orgId envId st =
     st\<lparr>mo_orgs := sadd orgId (mo_orgs st), mo_orgEnvs := (mo_orgEnvs st)(orgId := sadd envId (mo_orgEnvs st orgId))\<rparr>"

section \<open>Accepting and draining\<close>

datatype accept_result = Accepted | DuplicateRunId | DuplicateIdempotency string

definition new_entry :: "string \<Rightarrow> string \<Rightarrow> string \<Rightarrow> 'r payload_text \<Rightarrow> string \<Rightarrow> int \<Rightarrow> 'r buffer_entry" where
  "new_entry runId envId orgId payload lookupKey now =
     \<lparr>me_runId = runId, me_envId = envId, me_orgId = orgId, me_payload = payload, me_status = QUEUED_ENTRY, me_attempts = 0,
      me_createdAt = now, me_createdAtMicros = now * 1000, me_materialised = False,
      me_idempotencyLookupKey = lookupKey, me_metadataVersion = 0, me_expiresAt = None\<rparr>"

definition buffer_entry_new :: "'r buffer_entry \<Rightarrow> 'r mollifier \<Rightarrow> 'r mollifier" where
  "buffer_entry_new x st =
     track_org (me_orgId x) (me_envId x)
       ((set_entry (me_runId x) x st)\<lparr>mo_queue := (mo_queue st)(me_envId x := me_runId x # mo_queue st (me_envId x))\<rparr>)"

definition acceptMollifierEntry :: "'r buffer_entry \<Rightarrow> 'r mollifier \<Rightarrow> accept_result \<times> 'r mollifier" where
  "acceptMollifierEntry x st =
     (let lookupKey = me_idempotencyLookupKey x in
      if live_entry (me_runId x) st \<noteq> None then (DuplicateRunId, st)
      else if lookupKey = [] then (Accepted, buffer_entry_new x st)
      else
        (let bound = (st\<lparr>mo_lookups := (mo_lookups st)(lookupKey := Some (me_runId x))\<rparr>) in
         case mo_lookups st lookupKey of
           None \<Rightarrow> (Accepted, buffer_entry_new x bound)
         | Some existing \<Rightarrow>
             if live_entry existing st \<noteq> None then (DuplicateIdempotency existing, st)
             else (Accepted, buffer_entry_new x bound)))"

text \<open>The key of a run that is triggered with an idempotency key and a task.\<close>

definition accept_key :: "string \<Rightarrow> string option \<Rightarrow> string option \<Rightarrow> string" where
  "accept_key envId idempotencyKey taskIdentifier =
     (if or_default idempotencyKey [] \<noteq> [] \<and> or_default taskIdentifier [] \<noteq> []
      then idempotencyLookupKeyFor \<lparr>ii_envId = envId, ii_taskIdentifier = or_default taskIdentifier [],
             ii_idempotencyKey = or_default idempotencyKey []\<rparr>
      else [])"

text \<open>An empty run id that holds the key would read as a duplicate of the run.\<close>

definition accept ::
    "string \<Rightarrow> string \<Rightarrow> string \<Rightarrow> 'r payload_text \<Rightarrow> string option \<Rightarrow> string option \<Rightarrow> 'r mollifier \<Rightarrow> accept_result \<times> 'r mollifier" where
  "accept runId envId orgId payload idempotencyKey taskIdentifier st =
     (case acceptMollifierEntry (new_entry runId envId orgId payload (accept_key envId idempotencyKey taskIdentifier) (mo_now st)) st of
        (DuplicateIdempotency existing, st') \<Rightarrow> (if existing = [] then DuplicateRunId else DuplicateIdempotency existing, st')
      | r \<Rightarrow> r)"

text \<open>The loop of \<open>popAndMarkDraining\<close>, over the list from its end: runs without an entry are dropped.\<close>

fun pop_live :: "'r mollifier \<Rightarrow> string list \<Rightarrow> (string \<times> 'r buffer_entry) option \<times> string list" where
  "pop_live st [] = (None, [])"
| "pop_live st (runId # runIds) =
     (case live_entry runId st of
        Some x \<Rightarrow> (Some (runId, x), runIds)
      | None \<Rightarrow> pop_live st runIds)"

definition pruneOrgMembership :: "string \<Rightarrow> string \<Rightarrow> 'r mollifier \<Rightarrow> 'r mollifier" where
  "pruneOrgMembership envId orgId st =
     (let envs = srem envId (mo_orgEnvs st orgId) in
      st\<lparr>mo_orgEnvs := (mo_orgEnvs st)(orgId := envs),
         mo_orgs := (if envs = [] then srem orgId (mo_orgs st) else mo_orgs st)\<rparr>)"

definition popAndMarkDraining :: "string \<Rightarrow> 'r mollifier \<Rightarrow> 'r buffer_entry option \<times> 'r mollifier" where
  "popAndMarkDraining envId st =
     (case pop_live st (rev (mo_queue st envId)) of
        (None, _) \<Rightarrow> (None, st\<lparr>mo_queue := (mo_queue st)(envId := [])\<rparr>)
      | (Some (runId, x), rest) \<Rightarrow>
          (let x' = x\<lparr>me_status := DRAINING_ENTRY\<rparr>;
               st1 = (set_entry runId x' st)\<lparr>mo_queue := (mo_queue st)(envId := rev rest), mo_draining := zadd (mo_now st) runId (mo_draining st)\<rparr>
           in (Some x', if rest = [] then pruneOrgMembership envId (me_orgId x') st1 else st1)))"

text \<open>\<open>BufferEntrySchema\<close> refuses entries without ids.\<close>

definition parsed_entry :: "'r buffer_entry option \<Rightarrow> 'r buffer_entry option" where
  "parsed_entry e =
     (case e of None \<Rightarrow> None | Some x \<Rightarrow> if me_runId x = [] \<or> me_envId x = [] \<or> me_orgId x = [] then None else Some x)"

definition pop_entry :: "string \<Rightarrow> 'r mollifier \<Rightarrow> 'r buffer_entry option \<times> 'r mollifier" where
  "pop_entry envId st = (case popAndMarkDraining envId st of (e, st') \<Rightarrow> (parsed_entry e, st'))"

definition getEntry :: "string \<Rightarrow> 'r mollifier \<Rightarrow> 'r buffer_entry option" where
  "getEntry runId st = parsed_entry (live_entry runId st)"

definition listEnvsForOrg :: "string \<Rightarrow> 'r mollifier \<Rightarrow> string list" where
  "listEnvsForOrg orgId st = mo_orgEnvs st orgId"

definition listEntriesForEnv :: "string \<Rightarrow> int \<Rightarrow> 'r mollifier \<Rightarrow> 'r buffer_entry list" where
  "listEntriesForEnv envId maxCount st =
     (if maxCount \<le> 0 then [] else List.map_filter (\<lambda>runId. getEntry runId st) (take (nat maxCount) (mo_queue st envId)))"

definition requeueMollifierEntry :: "string \<Rightarrow> 'r mollifier \<Rightarrow> bool \<times> 'r mollifier" where
  "requeueMollifierEntry runId st =
     (case live_entry runId st of
        None \<Rightarrow> (False, st)
      | Some x \<Rightarrow>
          (True, track_org (me_orgId x) (me_envId x)
             ((set_entry runId (x\<lparr>me_status := QUEUED_ENTRY, me_attempts := me_attempts x + 1\<rparr>) st)
               \<lparr>mo_queue := (mo_queue st)(me_envId x := mo_queue st (me_envId x) @ [runId]), mo_draining := zrem runId (mo_draining st)\<rparr>)))"

definition clear_lookup :: "string \<Rightarrow> 'r mollifier \<Rightarrow> 'r mollifier" where
  "clear_lookup lookupKey st =
     (if lookupKey = [] then st else st\<lparr>mo_lookups := (mo_lookups st)(lookupKey := None)\<rparr>)"

definition undrain :: "string \<Rightarrow> 'r mollifier \<Rightarrow> 'r mollifier" where
  "undrain runId st = st\<lparr>mo_draining := zrem runId (mo_draining st)\<rparr>"

definition ackMollifierEntry :: "int \<Rightarrow> string \<Rightarrow> 'r mollifier \<Rightarrow> bool \<times> 'r mollifier" where
  "ackMollifierEntry graceTtlSeconds runId st =
     (let st1 = undrain runId st in
      case live_entry runId st of
        None \<Rightarrow> (False, st1)
      | Some x \<Rightarrow>
          (True, set_entry runId (x\<lparr>me_materialised := True, me_expiresAt := Some (mo_now st + graceTtlSeconds * 1000)\<rparr>)
             (clear_lookup (me_idempotencyLookupKey x) st1)))"

definition failMollifierEntry :: "string \<Rightarrow> 'r mollifier \<Rightarrow> bool \<times> 'r mollifier" where
  "failMollifierEntry runId st =
     (let st1 = undrain runId st in
      case live_entry runId st of
        None \<Rightarrow> (False, st1)
      | Some x \<Rightarrow>
          (True, (clear_lookup (me_idempotencyLookupKey x) st1)\<lparr>mo_entries := (mo_entries st)(runId := None)\<rparr>))"

definition listStaleDraining :: "int \<Rightarrow> int \<Rightarrow> 'r mollifier \<Rightarrow> string list" where
  "listStaleDraining olderThanMs limit st =
     map fst (zrangebyscore (mo_now st - max 0 olderThanMs) (nat limit) (mo_draining st))"

section \<open>Changing a buffered run\<close>

definition lua_array :: "string list \<Rightarrow> json_list" where
  "lua_array xs = (if xs = [] then EmptyObject else JsonArray xs)"

fun lua_elements :: "json_list \<Rightarrow> string list" where
  "lua_elements (JsonArray xs) = xs"
| "lua_elements EmptyObject = []"

text \<open>A payload that was decoded and encoded by \<open>cjson\<close>.\<close>

definition recoded_payload :: "('r \<Rightarrow> 'r) \<Rightarrow> 'r mollifier_payload \<Rightarrow> 'r mollifier_payload" where
  "recoded_payload cjson p =
     p\<lparr>mp_tags := map_option (\<lambda>t. lua_array (lua_elements t)) (mp_tags p), mp_rest := cjson (mp_rest p)\<rparr>"

datatype snapshot_patch =
    AppendTags "string list" "nat option"
  | SetMetadata string string
  | SetDelay string
  | MarkCancelled string "string option"

datatype mutate_result = AppliedToSnapshot | NotFound | Busy | LimitExceeded

text \<open>\<open>remdups\<close> from the front, as the script's table of seen tags.\<close>

definition merged_tags :: "string list \<Rightarrow> string list \<Rightarrow> string list" where
  "merged_tags old added = rev (remdups (rev (old @ added)))"

fun patch_payload :: "snapshot_patch \<Rightarrow> 'r mollifier_payload \<Rightarrow> 'r mollifier_payload option" where
  "patch_payload (AppendTags tags maxTags) p =
     (let merged = merged_tags (case mp_tags p of None \<Rightarrow> [] | Some t \<Rightarrow> lua_elements t) tags in
      if (case maxTags of Some n \<Rightarrow> n < length merged | None \<Rightarrow> False) then None
      else Some (p\<lparr>mp_tags := Some (lua_array merged)\<rparr>))"
| "patch_payload (SetMetadata metadata metadataType) p = Some (p\<lparr>mp_metadata := Some metadata, mp_metadataType := Some metadataType\<rparr>)"
| "patch_payload (SetDelay delayUntil) p = Some (p\<lparr>mp_delayUntil := Some delayUntil\<rparr>)"
| "patch_payload (MarkCancelled cancelledAt cancelReason) p = Some (p\<lparr>mp_cancelledAt := Some cancelledAt, mp_cancelReason := cancelReason\<rparr>)"

fun sets_metadata :: "snapshot_patch \<Rightarrow> bool" where
  "sets_metadata (SetMetadata metadata metadataType) = True"
| "sets_metadata patch = False"

definition mutateMollifierSnapshot :: "('r \<Rightarrow> 'r) \<Rightarrow> string \<Rightarrow> snapshot_patch \<Rightarrow> 'r mollifier \<Rightarrow> mutate_result \<times> 'r mollifier" where
  "mutateMollifierSnapshot cjson runId patch st =
     (case live_entry runId st of
        None \<Rightarrow> (NotFound, st)
      | Some x \<Rightarrow>
          if me_status x \<noteq> QUEUED_ENTRY \<or> me_materialised x then (Busy, st)
          else
            (case me_payload x of
               Unreadable \<Rightarrow> (Busy, st)
             | Payload p \<Rightarrow>
                 (case patch_payload patch p of
                    None \<Rightarrow> (LimitExceeded, st)
                  | Some p' \<Rightarrow>
                      (AppliedToSnapshot, set_entry runId (x\<lparr>me_payload := Payload (recoded_payload cjson p'),
                         me_metadataVersion := me_metadataVersion x + (if sets_metadata patch then 1 else 0)\<rparr>) st))))"

datatype cas_result = CasApplied nat | VersionConflict nat | CasNotFound | CasBusy

definition casSetMollifierMetadata ::
    "('r \<Rightarrow> 'r) \<Rightarrow> string \<Rightarrow> nat \<Rightarrow> string \<Rightarrow> string \<Rightarrow> 'r mollifier \<Rightarrow> cas_result \<times> 'r mollifier" where
  "casSetMollifierMetadata cjson runId expectedVersion newMetadata newMetadataType st =
     (case live_entry runId st of
        None \<Rightarrow> (CasNotFound, st)
      | Some x \<Rightarrow>
          if me_status x \<noteq> QUEUED_ENTRY \<or> me_materialised x then (CasBusy, st)
          else if me_metadataVersion x \<noteq> expectedVersion then (VersionConflict (me_metadataVersion x), st)
          else
            (case me_payload x of
               Unreadable \<Rightarrow> (CasBusy, st)
             | Payload p \<Rightarrow>
                 (CasApplied (me_metadataVersion x + 1),
                  set_entry runId (x\<lparr>me_payload := Payload (recoded_payload cjson (p\<lparr>mp_metadata := Some newMetadata, mp_metadataType := Some newMetadataType\<rparr>)),
                    me_metadataVersion := me_metadataVersion x + 1\<rparr>) st)))"

section \<open>Idempotency keys\<close>

datatype claim_result = Claimed | Pending | Resolved string

definition live_claim :: "string \<Rightarrow> 'r mollifier \<Rightarrow> string option" where
  "live_claim k st = (case mo_claims st k of None \<Rightarrow> None | Some (v, t) \<Rightarrow> if mo_now st < t then Some v else None)"

definition set_claim :: "string \<Rightarrow> string \<Rightarrow> int \<Rightarrow> 'r mollifier \<Rightarrow> 'r mollifier" where
  "set_claim k v ttlSeconds st = st\<lparr>mo_claims := (mo_claims st)(k := Some (v, mo_now st + ttlSeconds * 1000))\<rparr>"

definition read_claim_value :: "string \<Rightarrow> claim_result" where
  "read_claim_value v = (if js_startsWith v PENDING_PREFIX then Pending else Resolved v)"

definition claimMollifierIdempotency :: "string \<Rightarrow> string \<Rightarrow> int \<Rightarrow> 'r mollifier \<Rightarrow> claim_result \<times> 'r mollifier" where
  "claimMollifierIdempotency claimKey token ttlSeconds st =
     (case live_claim claimKey st of
        None \<Rightarrow> (Claimed, set_claim claimKey (PENDING_PREFIX @ token) ttlSeconds st)
      | Some existing \<Rightarrow> (read_claim_value existing, st))"

definition publishMollifierClaim :: "string \<Rightarrow> string \<Rightarrow> string \<Rightarrow> int \<Rightarrow> 'r mollifier \<Rightarrow> bool \<times> 'r mollifier" where
  "publishMollifierClaim claimKey token runId ttlSeconds st =
     (if live_claim claimKey st = Some (PENDING_PREFIX @ token) then (True, set_claim claimKey runId ttlSeconds st) else (False, st))"

definition delClaimIfEquals :: "string \<Rightarrow> string \<Rightarrow> 'r mollifier \<Rightarrow> bool \<times> 'r mollifier" where
  "delClaimIfEquals claimKey expected st =
     (if live_claim claimKey st = Some expected then (True, st\<lparr>mo_claims := (mo_claims st)(claimKey := None)\<rparr>) else (False, st))"

definition releaseMollifierClaim :: "string \<Rightarrow> string \<Rightarrow> 'r mollifier \<Rightarrow> bool \<times> 'r mollifier" where
  "releaseMollifierClaim claimKey token st = delClaimIfEquals claimKey (PENDING_PREFIX @ token) st"

definition resetResolvedClaim :: "idempotency_input \<Rightarrow> string \<Rightarrow> 'r mollifier \<Rightarrow> bool \<times> 'r mollifier" where
  "resetResolvedClaim x expectedRunId st = delClaimIfEquals (makeIdempotencyClaimKey x) expectedRunId st"

definition readClaim :: "idempotency_input \<Rightarrow> 'r mollifier \<Rightarrow> claim_result option" where
  "readClaim x st = map_option read_claim_value (live_claim (makeIdempotencyClaimKey x) st)"

definition delLookupIfEquals :: "string \<Rightarrow> string \<Rightarrow> 'r mollifier \<Rightarrow> 'r mollifier" where
  "delLookupIfEquals lookupKey runId st =
     (if mo_lookups st lookupKey = Some runId then st\<lparr>mo_lookups := (mo_lookups st)(lookupKey := None)\<rparr> else st)"

definition lookupIdempotency :: "idempotency_input \<Rightarrow> 'r mollifier \<Rightarrow> string option \<times> 'r mollifier" where
  "lookupIdempotency x st =
     (let lookupKey = idempotencyLookupKeyFor x in
      case mo_lookups st lookupKey of
        None \<Rightarrow> (None, st)
      | Some runId \<Rightarrow>
          if runId = [] then (None, st)
          else if getEntry runId st = None then (None, delLookupIfEquals lookupKey runId st)
          else (Some runId, st))"

definition unkeyed :: "('r \<Rightarrow> 'r) \<Rightarrow> 'r buffer_entry \<Rightarrow> 'r buffer_entry" where
  "unkeyed cjson x =
     x\<lparr>me_payload := (case me_payload x of
         Unreadable \<Rightarrow> Unreadable
       | Payload p \<Rightarrow> Payload (recoded_payload cjson (p\<lparr>mp_idempotencyKey := None, mp_idempotencyKeyExpiresAt := None\<rparr>))),
       me_idempotencyLookupKey := []\<rparr>"

definition resetMollifierIdempotency :: "('r \<Rightarrow> 'r) \<Rightarrow> idempotency_input \<Rightarrow> 'r mollifier \<Rightarrow> string option \<times> 'r mollifier" where
  "resetMollifierIdempotency cjson x st =
     (let lookupKey = idempotencyLookupKeyFor x;
          st1 = st\<lparr>mo_claims := (mo_claims st)(makeIdempotencyClaimKey x := None)\<rparr> in
      case mo_lookups st lookupKey of
        None \<Rightarrow> (None, st1)
      | Some runId \<Rightarrow>
          (let st2 = st1\<lparr>mo_lookups := (mo_lookups st)(lookupKey := None)\<rparr> in
           case live_entry runId st of
             None \<Rightarrow> (None, st2)
           | Some e \<Rightarrow> (if runId = [] then None else Some runId, set_entry runId (unkeyed cjson e) st2)))"

section \<open>When to buffer\<close>

definition mollifierEvaluateTrip :: "string \<Rightarrow> int \<Rightarrow> nat \<Rightarrow> int \<Rightarrow> 'r mollifier \<Rightarrow> (nat \<times> bool) \<times> 'r mollifier" where
  "mollifierEvaluateTrip envId windowMs threshold holdMs st =
     (let (count, ends) = (case mo_rates st envId of
                             Some (n, t) \<Rightarrow> if mo_now st < t then (n + 1, t) else (1, mo_now st + windowMs)
                           | None \<Rightarrow> (1, mo_now st + windowMs));
          st1 = st\<lparr>mo_rates := (mo_rates st)(envId := Some (count, ends)),
                   mo_tripped := (if threshold < count then (mo_tripped st)(envId := Some (mo_now st + holdMs)) else mo_tripped st)\<rparr>
      in ((count, case mo_tripped st1 envId of Some t \<Rightarrow> mo_now st < t | None \<Rightarrow> False), st1))"

text \<open>\<open>random\<close> is between 0 and 1.\<close>

definition mollifierReconnectDelayMs :: "rat \<Rightarrow> int \<Rightarrow> int \<Rightarrow> int \<Rightarrow> int" where
  "mollifierReconnectDelayMs random tries stepMs maxMs =
     (let base = min (tries * stepMs) maxMs; half = base div 2 in half + js_round (random * of_int (base - half)))"

end
