(* ===== verification/MollifierInvariants.thy ===== *)
theory MollifierInvariants
  imports Mollifier
begin

text \<open>
  The servers that trigger, drain and change buffered runs share one Redis. \<open>mollifier_step\<close> runs
  one of their scripts, so a list of commands is an interleaving of any number of servers, with the
  clock between them. Shown over all such lists: a queued run is in a list that the drainers find.
\<close>

datatype 'r buffer_command =
    AcceptRun string string string "'r payload_text" string
  | PopEnv string
  | RequeueRun string
  | AckRun string
  | FailRun string
  | Mutate string snapshot_patch
  | CasMetadata string nat string string
  | LookupKey idempotency_input
  | ResetKey idempotency_input
  | ClaimKey string string int
  | PublishClaim string string string int
  | DropClaim string string
  | EvaluateTrip string int nat int
  | Pass nat

fun mollifier_step :: "('r \<Rightarrow> 'r) \<Rightarrow> int \<Rightarrow> 'r mollifier \<Rightarrow> 'r buffer_command \<Rightarrow> 'r mollifier" where
  "mollifier_step cjson grace st (AcceptRun r e g p k) = snd (acceptMollifierEntry (new_entry r e g p k (mo_now st)) st)"
| "mollifier_step cjson grace st (PopEnv e) = snd (popAndMarkDraining e st)"
| "mollifier_step cjson grace st (RequeueRun r) = snd (requeueMollifierEntry r st)"
| "mollifier_step cjson grace st (AckRun r) = snd (ackMollifierEntry grace r st)"
| "mollifier_step cjson grace st (FailRun r) = snd (failMollifierEntry r st)"
| "mollifier_step cjson grace st (Mutate r patch) = snd (mutateMollifierSnapshot cjson r patch st)"
| "mollifier_step cjson grace st (CasMetadata r v m t) = snd (casSetMollifierMetadata cjson r v m t st)"
| "mollifier_step cjson grace st (LookupKey x) = snd (lookupIdempotency x st)"
| "mollifier_step cjson grace st (ResetKey x) = snd (resetMollifierIdempotency cjson x st)"
| "mollifier_step cjson grace st (ClaimKey k token ttl) = snd (claimMollifierIdempotency k token ttl st)"
| "mollifier_step cjson grace st (PublishClaim k token r ttl) = snd (publishMollifierClaim k token r ttl st)"
| "mollifier_step cjson grace st (DropClaim k v) = snd (delClaimIfEquals k v st)"
| "mollifier_step cjson grace st (EvaluateTrip e w t h) = snd (mollifierEvaluateTrip e w t h st)"
| "mollifier_step cjson grace st (Pass n) = st\<lparr>mo_now := mo_now st + int n\<rparr>"

section \<open>What the scripts leave alone\<close>

lemma live_iff: "live_entry r st = Some x \<longleftrightarrow> mo_entries st r = Some x \<and> unexpired (mo_now st) x"
  by (auto simp: live_entry_def split: option.splits)

lemma live_entry_cong: "mo_entries st' = mo_entries st \<Longrightarrow> mo_now st' = mo_now st \<Longrightarrow> live_entry r st' = live_entry r st"
  by (simp add: live_entry_def split: option.split)

lemma unexpired_parts [simp]:
  "unexpired now (x\<lparr>me_status := s\<rparr>) = unexpired now x" "unexpired now (x\<lparr>me_attempts := n\<rparr>) = unexpired now x"
  "unexpired now (x\<lparr>me_payload := p\<rparr>) = unexpired now x" "unexpired now (x\<lparr>me_metadataVersion := v\<rparr>) = unexpired now x"
  "unexpired now (x\<lparr>me_idempotencyLookupKey := k\<rparr>) = unexpired now x" "unexpired now (new_entry r e g q k t)"
  by (simp_all add: unexpired_def new_entry_def)

lemma set_entry_parts [simp]:
  "mo_queue (set_entry r x st) = mo_queue st" "mo_orgs (set_entry r x st) = mo_orgs st" "mo_orgEnvs (set_entry r x st) = mo_orgEnvs st"
  "mo_lookups (set_entry r x st) = mo_lookups st" "mo_claims (set_entry r x st) = mo_claims st" "mo_now (set_entry r x st) = mo_now st"
  "mo_entries (set_entry r x st) = (mo_entries st)(r := Some x)"
  by (simp_all add: set_entry_def)

lemma track_org_parts [simp]:
  "mo_queue (track_org g e st) = mo_queue st" "mo_entries (track_org g e st) = mo_entries st" "mo_lookups (track_org g e st) = mo_lookups st"
  "mo_claims (track_org g e st) = mo_claims st" "mo_now (track_org g e st) = mo_now st"
  by (simp_all add: track_org_def)

lemma clear_lookup_parts [simp]:
  "mo_queue (clear_lookup k st) = mo_queue st" "mo_entries (clear_lookup k st) = mo_entries st" "mo_claims (clear_lookup k st) = mo_claims st"
  "mo_orgs (clear_lookup k st) = mo_orgs st" "mo_orgEnvs (clear_lookup k st) = mo_orgEnvs st" "mo_now (clear_lookup k st) = mo_now st"
  "mo_lookups (clear_lookup k st) = (if k = [] then mo_lookups st else (mo_lookups st)(k := None))"
  by (simp_all add: clear_lookup_def)

lemma undrain_parts [simp]:
  "mo_queue (undrain r st) = mo_queue st" "mo_entries (undrain r st) = mo_entries st" "mo_claims (undrain r st) = mo_claims st"
  "mo_orgs (undrain r st) = mo_orgs st" "mo_orgEnvs (undrain r st) = mo_orgEnvs st" "mo_now (undrain r st) = mo_now st"
  "mo_lookups (undrain r st) = mo_lookups st"
  by (simp_all add: undrain_def)

lemma prune_parts [simp]:
  "mo_queue (pruneOrgMembership e g st) = mo_queue st" "mo_entries (pruneOrgMembership e g st) = mo_entries st"
  "mo_lookups (pruneOrgMembership e g st) = mo_lookups st" "mo_claims (pruneOrgMembership e g st) = mo_claims st"
  "mo_now (pruneOrgMembership e g st) = mo_now st"
  by (simp_all add: pruneOrgMembership_def Let_def)

text \<open>What \<open>pop_live\<close> takes and drops.\<close>

lemma pop_live_None: "pop_live st rs = (None, rest) \<Longrightarrow> rest = [] \<and> (\<forall>r \<in> set rs. live_entry r st = None)"
  by (induction rs) (auto split: option.splits)

lemma pop_live_Some:
  "pop_live st rs = (Some (r, x), rest) \<Longrightarrow>
   live_entry r st = Some x \<and> (\<exists>dropped. rs = dropped @ r # rest \<and> (\<forall>d \<in> set dropped. live_entry d st = None))"
proof (induction rs)
  case (Cons d rs)
  show ?case
  proof (cases "live_entry d st")
    case None
    with Cons obtain dropped where "live_entry r st = Some x" "rs = dropped @ r # rest" "\<forall>d \<in> set dropped. live_entry d st = None" by auto
    with None show ?thesis by (intro conjI exI [of _ "d # dropped"]) auto
  next
    case (Some y)
    with Cons.prems show ?thesis by (intro conjI exI [of _ "[]"]) auto
  qed
qed simp

definition popped :: "string \<Rightarrow> string \<Rightarrow> 'r buffer_entry \<Rightarrow> string list \<Rightarrow> 'r mollifier \<Rightarrow> 'r mollifier" where
  "popped e r x rest st = (set_entry r (x\<lparr>me_status := DRAINING_ENTRY\<rparr>) st)\<lparr>mo_queue := (mo_queue st)(e := rev rest),
     mo_draining := zadd (mo_now st) r (mo_draining st)\<rparr>"

lemma popped_parts [simp]:
  "mo_queue (popped e r x rest st) = (mo_queue st)(e := rev rest)" "mo_orgs (popped e r x rest st) = mo_orgs st"
  "mo_orgEnvs (popped e r x rest st) = mo_orgEnvs st" "mo_lookups (popped e r x rest st) = mo_lookups st"
  "mo_claims (popped e r x rest st) = mo_claims st" "mo_now (popped e r x rest st) = mo_now st"
  "mo_entries (popped e r x rest st) = (mo_entries st)(r := Some (x\<lparr>me_status := DRAINING_ENTRY\<rparr>))"
  by (simp_all add: popped_def)

text \<open>The two ways a pop can go.\<close>

lemma pop_cases:
  obtains (Empty) "popAndMarkDraining e st = (None, st\<lparr>mo_queue := (mo_queue st)(e := [])\<rparr>)"
      "\<forall>r \<in> set (mo_queue st e). live_entry r st = None"
  | (Taken) r x newer gone where "live_entry r st = Some x" "mo_queue st e = newer @ r # gone" "\<forall>d \<in> set gone. live_entry d st = None"
      "popAndMarkDraining e st = (Some (x\<lparr>me_status := DRAINING_ENTRY\<rparr>),
         if newer = [] then pruneOrgMembership e (me_orgId x) (popped e r x (rev newer) st) else popped e r x (rev newer) st)"
proof (cases "pop_live st (rev (mo_queue st e))")
  case (Pair found rest)
  show thesis
  proof (cases found)
    case None
    with Pair pop_live_None [of st "rev (mo_queue st e)" rest] show thesis
      by (intro Empty) (simp_all add: popAndMarkDraining_def)
  next
    case (Some f)
    then obtain r x where f: "found = Some (r, x)" by (cases f) auto
    with Pair pop_live_Some [of st "rev (mo_queue st e)" r x rest] obtain dropped
      where d: "live_entry r st = Some x" "rev (mo_queue st e) = dropped @ r # rest" "\<forall>d \<in> set dropped. live_entry d st = None" by auto
    from d(2) have "mo_queue st e = rev rest @ r # rev dropped" by (metis append.assoc append_Cons append_Nil rev.simps(2) rev_append rev_rev_ident)
    with d Pair f show thesis
      by (intro Taken [of r x "rev rest" "rev dropped"]) (simp_all add: popAndMarkDraining_def Let_def popped_def)
  qed
qed

section \<open>Queued runs are found\<close>

text \<open>A queued run is in the list of its environment, which is tracked under its organization.\<close>

definition tracked :: "string \<Rightarrow> 'r buffer_entry \<Rightarrow> 'r mollifier \<Rightarrow> bool" where
  "tracked r x st = (me_status x = QUEUED_ENTRY \<longrightarrow>
     r \<in> set (mo_queue st (me_envId x)) \<and> me_envId x \<in> set (mo_orgEnvs st (me_orgId x)) \<and> me_orgId x \<in> set (mo_orgs st))"

definition queued_tracked :: "'r mollifier \<Rightarrow> bool" where
  "queued_tracked st = (\<forall>r x. live_entry r st = Some x \<longrightarrow> tracked r x st)"

text \<open>Scripts that change one entry, keeping its status, and no list.\<close>

lemma tracked_same:
  assumes "queued_tracked st" "\<And>r x. live_entry r st' = Some x \<Longrightarrow>
      \<exists>y. live_entry r st = Some y \<and> me_status x = me_status y \<and> me_envId x = me_envId y \<and> me_orgId x = me_orgId y"
    and "mo_queue st' = mo_queue st" "mo_orgEnvs st' = mo_orgEnvs st" "mo_orgs st' = mo_orgs st"
  shows "queued_tracked st'"
  using assms unfolding queued_tracked_def tracked_def by metis

lemma buffer_entry_new_parts [simp]:
  "mo_queue (buffer_entry_new x st) = (mo_queue st)(me_envId x := me_runId x # mo_queue st (me_envId x))"
  "mo_orgs (buffer_entry_new x st) = sadd (me_orgId x) (mo_orgs st)"
  "mo_orgEnvs (buffer_entry_new x st) = (mo_orgEnvs st)(me_orgId x := sadd (me_envId x) (mo_orgEnvs st (me_orgId x)))"
  "mo_entries (buffer_entry_new x st) = (mo_entries st)(me_runId x := Some x)" "mo_lookups (buffer_entry_new x st) = mo_lookups st"
  "mo_claims (buffer_entry_new x st) = mo_claims st" "mo_now (buffer_entry_new x st) = mo_now st"
  by (simp_all add: buffer_entry_new_def track_org_def)

text \<open>Scripts that add to the lists.\<close>

lemma tracked_grow:
  assumes "queued_tracked st" "\<And>r x. live_entry r st' = Some x \<Longrightarrow> tracked r x st' \<or> live_entry r st = Some x"
    and "\<And>e. set (mo_queue st e) \<subseteq> set (mo_queue st' e)" "\<And>g. set (mo_orgEnvs st g) \<subseteq> set (mo_orgEnvs st' g)"
      "set (mo_orgs st) \<subseteq> set (mo_orgs st')"
  shows "queued_tracked st'"
  unfolding queued_tracked_def
proof (intro allI impI)
  fix r x assume l: "live_entry r st' = Some x"
  have "tracked r x st'" if "tracked r x st" using that assms(3-5) unfolding tracked_def by blast
  with assms(1,2) l show "tracked r x st'" unfolding queued_tracked_def by blast
qed

lemma tracked_buffer_new:
  assumes "queued_tracked st" "mo_entries st' = mo_entries st" "mo_now st' = mo_now st" "mo_queue st' = mo_queue st"
    "mo_orgEnvs st' = mo_orgEnvs st" "mo_orgs st' = mo_orgs st"
  shows "queued_tracked (buffer_entry_new x st')"
proof -
  have "tracked r y (buffer_entry_new x st')" if l: "live_entry r (buffer_entry_new x st') = Some y" for r y
  proof (cases "r = me_runId x")
    case True
    with l have "y = x" by (auto simp: live_iff)
    with True show ?thesis by (simp add: tracked_def)
  next
    case False
    with l assms(2,3) have "live_entry r st = Some y" by (simp add: live_iff)
    with assms(1) have "tracked r y st" by (simp add: queued_tracked_def)
    with assms(4-6) show ?thesis by (auto simp: tracked_def)
  qed
  then show ?thesis by (simp add: queued_tracked_def)
qed

lemma accept_tracked: "queued_tracked st \<Longrightarrow> queued_tracked (snd (acceptMollifierEntry (new_entry r e g p k t) st))"
  by (auto simp: acceptMollifierEntry_def Let_def new_entry_def split: option.split intro: tracked_buffer_new [of st])

lemma pop_tracked:
  assumes "queued_tracked st"
  shows "queued_tracked (snd (popAndMarkDraining e st))"
proof (cases e st rule: pop_cases)
  case Empty
  have "tracked r x (snd (popAndMarkDraining e st))" if l: "live_entry r (snd (popAndMarkDraining e st)) = Some x" for r x
  proof -
    have "live_entry r st = Some x" using l Empty(1) by (simp add: live_iff)
    with assms Empty(2) have "tracked r x st" "r \<notin> set (mo_queue st e)" by (auto simp: queued_tracked_def)
    with Empty(1) show ?thesis by (auto simp: tracked_def)
  qed
  then show ?thesis by (simp add: queued_tracked_def)
next
  case (Taken r x newer gone)
  let ?st = "popped e r x (rev newer) st"
  have still: "r' \<in> set (mo_queue ?st (me_envId y)) \<and> me_envId y \<in> set (mo_orgEnvs st (me_orgId y)) \<and> me_orgId y \<in> set (mo_orgs st)"
    if "live_entry r' ?st = Some y" "me_status y = QUEUED_ENTRY" for r' y
  proof -
    have y: "r' \<noteq> r" "live_entry r' st = Some y" using that by (auto simp: live_iff split: if_splits)
    with assms that(2) have t: "r' \<in> set (mo_queue st (me_envId y))" "me_envId y \<in> set (mo_orgEnvs st (me_orgId y))" "me_orgId y \<in> set (mo_orgs st)"
      by (simp_all add: queued_tracked_def tracked_def)
    moreover have "r' \<in> set newer" if "me_envId y = e"
      using t(1) Taken(2,3) y that by auto
    ultimately show ?thesis by simp
  qed
  show ?thesis
  proof (cases "newer = []")
    case False
    with still Taken(4) show ?thesis by (simp add: queued_tracked_def tracked_def)
  next
    case True
    have "tracked r' y (pruneOrgMembership e (me_orgId x) ?st)" if "live_entry r' ?st = Some y" for r' y
    proof (cases "me_status y = QUEUED_ENTRY")
      case q: True
      with still [OF that] True have "me_envId y \<noteq> e" by (metis Taken(4) fun_upd_same list.set(1) empty_iff popped_parts(1) rev.simps(1))
      with still [OF that q] show ?thesis by (auto simp: tracked_def pruneOrgMembership_def Let_def srem_def filter_empty_conv)
    qed (simp add: tracked_def)
    moreover have "live_entry r' (pruneOrgMembership e (me_orgId x) ?st) = live_entry r' ?st" for r'
      by (rule live_entry_cong) simp_all
    ultimately show ?thesis using True Taken(4) by (simp add: queued_tracked_def)
  qed
qed

lemma track_org_lists [simp]:
  "mo_orgs (track_org g e st) = sadd g (mo_orgs st)" "mo_orgEnvs (track_org g e st) = (mo_orgEnvs st)(g := sadd e (mo_orgEnvs st g))"
  by (simp_all add: track_org_def)

lemma requeue_tracked:
  assumes "queued_tracked st"
  shows "queued_tracked (snd (requeueMollifierEntry r st))"
proof (cases "live_entry r st")
  case None
  with assms show ?thesis by (simp add: requeueMollifierEntry_def)
next
  case (Some x)
  show ?thesis
  proof (rule tracked_grow [OF assms])
    fix r' y assume l: "live_entry r' (snd (requeueMollifierEntry r st)) = Some y"
    show "tracked r' y (snd (requeueMollifierEntry r st)) \<or> live_entry r' st = Some y"
    proof (cases "r' = r")
      case True
      with l Some have "y = x\<lparr>me_status := QUEUED_ENTRY, me_attempts := me_attempts x + 1\<rparr>" by (auto simp: requeueMollifierEntry_def live_iff)
      with True Some show ?thesis by (simp add: requeueMollifierEntry_def tracked_def)
    next
      case False
      with l Some show ?thesis by (simp add: requeueMollifierEntry_def live_iff)
    qed
  qed (use Some in \<open>auto simp: requeueMollifierEntry_def\<close>)
qed

lemma ack_tracked: "queued_tracked st \<Longrightarrow> queued_tracked (snd (ackMollifierEntry grace r st))"
  by (rule tracked_same [of st])
    (auto simp: ackMollifierEntry_def live_iff Let_def split: option.splits if_splits)

lemma fail_tracked: "queued_tracked st \<Longrightarrow> queued_tracked (snd (failMollifierEntry r st))"
  by (rule tracked_same [of st])
    (auto simp: failMollifierEntry_def live_iff Let_def split: option.splits if_splits)

lemma mutate_tracked: "queued_tracked st \<Longrightarrow> queued_tracked (snd (mutateMollifierSnapshot cjson r patch st))"
  by (rule tracked_same [of st])
    (auto simp: mutateMollifierSnapshot_def live_iff split: option.splits if_splits payload_text.splits)

lemma cas_tracked: "queued_tracked st \<Longrightarrow> queued_tracked (snd (casSetMollifierMetadata cjson r v m t st))"
  by (rule tracked_same [of st])
    (auto simp: casSetMollifierMetadata_def live_iff split: option.splits if_splits payload_text.splits)

lemma reset_tracked: "queued_tracked st \<Longrightarrow> queued_tracked (snd (resetMollifierIdempotency cjson x st))"
  by (rule tracked_same [of st])
    (auto simp: resetMollifierIdempotency_def Let_def unkeyed_def live_iff split: option.splits if_splits)

text \<open>The scripts that touch neither entries nor lists.\<close>

fun only_keys :: "'r buffer_command \<Rightarrow> bool" where
  "only_keys (LookupKey x) = True" | "only_keys (ClaimKey k token ttl) = True" | "only_keys (PublishClaim k token r ttl) = True"
| "only_keys (DropClaim k v) = True" | "only_keys (EvaluateTrip e w t h) = True" | "only_keys c = False"

lemma only_keys_parts:
  assumes "only_keys c"
  shows "mo_entries (mollifier_step cjson grace st c) = mo_entries st" "mo_queue (mollifier_step cjson grace st c) = mo_queue st"
    "mo_orgs (mollifier_step cjson grace st c) = mo_orgs st" "mo_orgEnvs (mollifier_step cjson grace st c) = mo_orgEnvs st"
    "mo_now (mollifier_step cjson grace st c) = mo_now st"
  using assms by (cases c; simp add: lookupIdempotency_def delLookupIfEquals_def Let_def claimMollifierIdempotency_def set_claim_def
      publishMollifierClaim_def delClaimIfEquals_def mollifierEvaluateTrip_def case_prod_beta split: option.split)+

lemma step_tracked: "queued_tracked st \<Longrightarrow> queued_tracked (mollifier_step cjson grace st c)"
proof (cases "only_keys c")
  case True
  assume "queued_tracked st"
  note parts = only_keys_parts [OF True, of cjson grace st]
  have "live_entry r (mollifier_step cjson grace st c) = live_entry r st" for r by (rule live_entry_cong) (rule parts)+
  with \<open>queued_tracked st\<close> show ?thesis by (simp add: queued_tracked_def tracked_def parts)
next
  case False
  assume t: "queued_tracked st"
  show ?thesis
  proof (cases c)
    case (Pass n)
    have "live_entry r (mollifier_step cjson grace st c) = Some x \<Longrightarrow> live_entry r st = Some x" for r x
      by (simp add: Pass live_iff unexpired_def split: option.splits)
    then show ?thesis by (rule tracked_grow [OF t, OF disjI2]) (simp_all add: Pass)
  qed (use False t in \<open>simp_all add: accept_tracked pop_tracked requeue_tracked ack_tracked fail_tracked mutate_tracked cas_tracked reset_tracked\<close>)
qed

interpretation tracking: step_machine "mollifier_step cjson grace" queued_tracked for cjson grace
  by unfold_locales (rule step_tracked)

text \<open>
  A queued run is found by the drainers: whatever the servers do, its organization is listed, its
  environment is listed under the organization, and the run is in the environment's list.
\<close>

theorem queued_run_found:
  assumes "live_entry r (foldl (mollifier_step cjson grace) empty_mollifier cmds) = Some x" "me_status x = QUEUED_ENTRY"
  defines "st \<equiv> foldl (mollifier_step cjson grace) empty_mollifier cmds"
  shows "me_orgId x \<in> set (mo_orgs st) \<and> me_envId x \<in> set (listEnvsForOrg (me_orgId x) st) \<and> r \<in> set (mo_queue st (me_envId x))"
proof -
  have "queued_tracked empty_mollifier" by (simp add: queued_tracked_def live_entry_def empty_mollifier_def)
  then have "queued_tracked st" unfolding st_def by (rule tracking.run_inv)
  then show ?thesis using assms by (simp add: queued_tracked_def tracked_def listEnvsForOrg_def)
qed

end
