(* ===== verification/Drainer.thy ===== *)
theory Drainer
  imports MollifierInvariants "HOL-Library.List_Lexorder" "HOL-Library.Char_ord"
begin

text \<open>
  The drainer of the buffer (\<open>packages/redis-worker/src/mollifier/drainer.ts\<close>): each tick takes a
  slice of the organizations, one environment of each, and pops runs of these environments in turn
  until each has had its share; each popped run is handed to the handler, and acknowledged, put back
  or failed as the handler ends.

  The handler, the callback of final failures and \<open>isRetryable\<close> are arguments; a call that throws
  is the error it throws. Calls of Redis that fail are left out. Strings are sorted by their bytes.
\<close>

section \<open>One popped run\<close>

text \<open>\<open>dr_onTerminalFailure\<close> tells whether there is a callback.\<close>

record 'e drainer_options =
  dr_isRetryable :: "'e \<Rightarrow> bool"
  dr_maxAttempts :: nat
  dr_maxOrgsPerTick :: nat
  dr_drainBatchSize :: nat
  dr_onTerminalFailure :: bool
  dr_parseError :: 'e
  dr_graceTtlSeconds :: int

datatype drain_outcome = Drained | DrainFailed

text \<open>A payload that \<open>deserialiseSnapshot\<close> cannot parse never reaches a callee.\<close>

definition with_payload :: "'e drainer_options \<Rightarrow> 'r buffer_entry \<Rightarrow> 'e option \<Rightarrow> 'e option" where
  "with_payload D x thrown = (case me_payload x of Unreadable \<Rightarrow> Some (dr_parseError D) | Payload p \<Rightarrow> thrown)"

text \<open>\<open>handled\<close> and \<open>written\<close> are what the handler and the callback throw, if anything.\<close>

definition processEntry ::
    "'e drainer_options \<Rightarrow> 'e option \<Rightarrow> 'e option \<Rightarrow> 'r buffer_entry \<Rightarrow> 'r mollifier \<Rightarrow> drain_outcome \<times> 'r mollifier" where
  "processEntry D handled written x st =
     (case with_payload D x handled of
        None \<Rightarrow> (Drained, snd (ackMollifierEntry (dr_graceTtlSeconds D) (me_runId x) st))
      | Some err \<Rightarrow>
          let nextAttempts = me_attempts x + 1;
              put_back = snd (requeueMollifierEntry (me_runId x) st);
              failed = snd (failMollifierEntry (me_runId x) st)
          in if dr_isRetryable D err \<and> nextAttempts < dr_maxAttempts D then (DrainFailed, put_back)
             else if dr_onTerminalFailure D then
               (case with_payload D x written of
                  None \<Rightarrow> (DrainFailed, failed)
                | Some writeErr \<Rightarrow> (DrainFailed, if dr_isRetryable D writeErr then put_back else failed))
             else (DrainFailed, failed))"

section \<open>Whose turn it is\<close>

record rotation =
  ro_orgCursor :: nat
  ro_perOrgEnvCursors :: "string \<Rightarrow> nat option"

definition fresh_rotation :: rotation where
  "fresh_rotation = \<lparr>ro_orgCursor = 0, ro_perOrgEnvCursors = (\<lambda>_. None)\<rparr>"

definition takeOrgSlice :: "nat \<Rightarrow> string list \<Rightarrow> rotation \<Rightarrow> string list \<times> rotation" where
  "takeOrgSlice maxOrgsPerTick orgs ro =
     (let sorted_orgs = sort orgs;
          n = length sorted_orgs;
          sliceSize = min maxOrgsPerTick n;
          start = ro_orgCursor ro mod n;
          stop = start + sliceSize
      in (if stop \<le> n then take sliceSize (drop start sorted_orgs)
          else drop start sorted_orgs @ take (stop - n) sorted_orgs,
          ro\<lparr>ro_orgCursor := (ro_orgCursor ro + 1) mod max n 1\<rparr>))"

definition pickEnvForOrg :: "string \<Rightarrow> string list \<Rightarrow> rotation \<Rightarrow> string \<times> rotation" where
  "pickEnvForOrg orgId envsForOrg ro =
     (let sorted_envs = sort envsForOrg;
          cursor = or_default (ro_perOrgEnvCursors ro orgId) 0
      in (sorted_envs ! (cursor mod length sorted_envs),
          ro\<lparr>ro_perOrgEnvCursors := (ro_perOrgEnvCursors ro)(orgId \<mapsto> (cursor + 1) mod length sorted_envs)\<rparr>))"

fun pick_targets :: "(string \<Rightarrow> string list) \<Rightarrow> string list \<Rightarrow> rotation \<Rightarrow> string list \<times> rotation" where
  "pick_targets envsByOrg [] ro = ([], ro)"
| "pick_targets envsByOrg (orgId # orgSlice) ro =
     (if envsByOrg orgId = [] then pick_targets envsByOrg orgSlice ro
      else (case pickEnvForOrg orgId (envsByOrg orgId) ro of
              (envId, ro1) \<Rightarrow> (case pick_targets envsByOrg orgSlice ro1 of (targets, ro2) \<Rightarrow> (envId # targets, ro2))))"

definition tick_targets :: "nat \<Rightarrow> string list \<Rightarrow> (string \<Rightarrow> string list) \<Rightarrow> rotation \<Rightarrow> string list \<times> rotation" where
  "tick_targets maxOrgsPerTick orgs envsByOrg ro =
     (if orgs = [] then ([], ro)
      else (case takeOrgSlice maxOrgsPerTick orgs ro of (orgSlice, ro1) \<Rightarrow> pick_targets envsByOrg orgSlice ro1))"

section \<open>One tick\<close>

record drain_tick =
  tk_targets :: "string list"
  tk_remaining :: "string \<Rightarrow> nat"
  tk_skip :: "string list"
  tk_cursor :: nat

definition new_tick :: "'e drainer_options \<Rightarrow> string list \<Rightarrow> drain_tick" where
  "new_tick D targets =
     \<lparr>tk_targets = targets, tk_remaining = (\<lambda>e. if e \<in> set targets then dr_drainBatchSize D else 0), tk_skip = [], tk_cursor = 0\<rparr>"

definition pickNextEnv :: "drain_tick \<Rightarrow> string option \<times> drain_tick" where
  "pickNextEnv tk =
     (let n = length (tk_targets tk);
          idx = (\<lambda>i. (tk_cursor tk + i) mod n);
          env = (\<lambda>i. tk_targets tk ! idx i)
      in case find (\<lambda>i. env i \<notin> set (tk_skip tk) \<and> tk_remaining tk (env i) > 0) [0..<n] of
           None \<Rightarrow> (None, tk)
         | Some i \<Rightarrow>
             (Some (env i), tk\<lparr>tk_remaining := (tk_remaining tk)(env i := tk_remaining tk (env i) - 1), tk_cursor := (idx i + 1) mod n\<rparr>))"

definition skip_env :: "string \<Rightarrow> drain_tick \<Rightarrow> drain_tick" where
  "skip_env envId tk = tk\<lparr>tk_skip := sadd envId (tk_skip tk)\<rparr>"

text \<open>What is left of the budgets.\<close>

definition tick_budget :: "drain_tick \<Rightarrow> nat" where
  "tick_budget tk = (\<Sum>e \<in> set (tk_targets tk). tk_remaining tk e)"

lemma pickNextEnv_Some:
  assumes "pickNextEnv tk = (Some e, tk')"
  shows "e \<in> set (tk_targets tk) \<and> e \<notin> set (tk_skip tk) \<and> tk_remaining tk e > 0 \<and> tk_targets tk' = tk_targets tk \<and>
    tk_skip tk' = tk_skip tk \<and> tk_remaining tk' = (tk_remaining tk)(e := tk_remaining tk e - 1)"
proof -
  let ?n = "length (tk_targets tk)"
  let ?env = "\<lambda>i. tk_targets tk ! ((tk_cursor tk + i) mod ?n)"
  from assms obtain i where i: "find (\<lambda>i. ?env i \<notin> set (tk_skip tk) \<and> tk_remaining tk (?env i) > 0) [0..<?n] = Some i"
      "e = ?env i" "tk' = tk\<lparr>tk_remaining := (tk_remaining tk)(?env i := tk_remaining tk (?env i) - 1), tk_cursor := ((tk_cursor tk + i) mod ?n + 1) mod ?n\<rparr>"
    by (auto simp: pickNextEnv_def Let_def split: option.splits)
  from i(1) have "i < ?n" "?env i \<notin> set (tk_skip tk)" "tk_remaining tk (?env i) > 0" by (auto simp: find_Some_iff)
  moreover from \<open>i < ?n\<close> have "(tk_cursor tk + i) mod ?n < ?n" by (intro mod_less_divisor) linarith
  then have "?env i \<in> set (tk_targets tk)" by (rule nth_mem)
  ultimately show ?thesis using i(2,3) by simp
qed

lemma pick_spends: "pickNextEnv tk = (Some e, tk') \<Longrightarrow> tick_budget tk = Suc (tick_budget tk')"
proof -
  assume "pickNextEnv tk = (Some e, tk')"
  note p = pickNextEnv_Some [OF this]
  then have "tick_budget tk = tk_remaining tk e + (\<Sum>x \<in> set (tk_targets tk) - {e}. tk_remaining tk x)"
    by (simp add: tick_budget_def sum.remove)
  moreover have "tick_budget tk' = tk_remaining tk e - 1 + (\<Sum>x \<in> set (tk_targets tk) - {e}. tk_remaining tk x)"
    using p by (simp add: tick_budget_def sum.remove [of "set (tk_targets tk)" e] del: sum.delta)
  ultimately show ?thesis using p by simp
qed

lemma skip_budget [simp]: "tick_budget (skip_env e tk) = tick_budget tk"
  by (simp add: tick_budget_def skip_env_def)

text \<open>The loop of one worker, which ends when every environment has had its share or is empty.\<close>

function drain_worker ::
    "'e drainer_options \<Rightarrow> ('r buffer_entry \<Rightarrow> 'e option) \<Rightarrow> ('r buffer_entry \<Rightarrow> 'e option) \<Rightarrow> drain_tick \<Rightarrow> nat \<times> nat \<Rightarrow> 'r mollifier \<Rightarrow>
     (nat \<times> nat) \<times> 'r mollifier" where
  "drain_worker D handler callback tk counts st =
     (case pickNextEnv tk of
        (None, _) \<Rightarrow> (counts, st)
      | (Some envId, tk1) \<Rightarrow>
          (case pop_entry envId st of
             (None, st1) \<Rightarrow> drain_worker D handler callback (skip_env envId tk1) counts st1
           | (Some x, st1) \<Rightarrow>
               (case processEntry D (handler x) (callback x) x st1 of
                  (Drained, st2) \<Rightarrow> drain_worker D handler callback tk1 (fst counts + 1, snd counts) st2
                | (DrainFailed, st2) \<Rightarrow> drain_worker D handler callback tk1 (fst counts, snd counts + 1) st2)))"
  by pat_completeness auto

termination
  by (relation "measure (\<lambda>(D, handler, callback, tk, counts, st). tick_budget tk)") (auto dest: pick_spends [OF sym])

declare drain_worker.simps [simp del]

text \<open>\<open>runOnce\<close> where the concurrency is one; the answer counts the drained and the failed runs.\<close>

definition runOnce ::
    "'e drainer_options \<Rightarrow> ('r buffer_entry \<Rightarrow> 'e option) \<Rightarrow> ('r buffer_entry \<Rightarrow> 'e option) \<Rightarrow> rotation \<Rightarrow> 'r mollifier \<Rightarrow>
     (nat \<times> nat) \<times> rotation \<times> 'r mollifier" where
  "runOnce D handler callback ro st =
     (case tick_targets (dr_maxOrgsPerTick D) (mo_orgs st) (\<lambda>g. listEnvsForOrg g st) ro of
        (targets, ro1) \<Rightarrow>
          if targets = [] then ((0, 0), ro1, st)
          else (case drain_worker D handler callback (new_tick D targets) (0, 0) st of (counts, st1) \<Rightarrow> (counts, ro1, st1)))"

definition backoffMs :: "int \<Rightarrow> int \<Rightarrow> int \<Rightarrow> nat \<Rightarrow> int" where
  "backoffMs pollIntervalMs backoffFloorMs maxBackoffMs consecutiveErrors =
     (let base = max pollIntervalMs (max 1 backoffFloorMs) in min (base * 2 ^ (consecutiveErrors - 1)) maxBackoffMs)"

end
