(* ===== verification/DrainerOutcomes.thy ===== *)
theory DrainerOutcomes
  imports Drainer
begin

text \<open>
  Drainers and servers at work on one buffer. A state is the store with the runs that were popped and
  not yet settled; an event is a script of a server, a pop, the end of the processing of a run, or
  the crash of the process that holds one. Shown for every list of events: a run is in one list or
  with one drainer, never both; without crashes none is in neither; and with the rotation every
  environment of every organization has its turn.
\<close>

record 'r drain_state =
  ds_store :: "'r mollifier"
  ds_inflight :: "'r buffer_entry list"

datatype ('r, 'e) drain_event =
    Serve "'r buffer_command"
  | DrainPop string
  | Settle string "'e option" "'e option"
  | Crash string

abbreviation runs_of :: "'r buffer_entry list \<Rightarrow> string list" where
  "runs_of xs \<equiv> map me_runId xs"

definition without :: "string \<Rightarrow> 'r buffer_entry list \<Rightarrow> 'r buffer_entry list" where
  "without r xs = filter (\<lambda>x. me_runId x \<noteq> r) xs"

fun drain_step :: "('r \<Rightarrow> 'r) \<Rightarrow> 'e drainer_options \<Rightarrow> 'r drain_state \<Rightarrow> ('r, 'e) drain_event \<Rightarrow> 'r drain_state" where
  "drain_step cjson D S (Serve c) = S\<lparr>ds_store := mollifier_step cjson (dr_graceTtlSeconds D) (ds_store S) c\<rparr>"
| "drain_step cjson D S (DrainPop e) =
     (case pop_entry e (ds_store S) of
        (None, st) \<Rightarrow> S\<lparr>ds_store := st\<rparr>
      | (Some x, st) \<Rightarrow> S\<lparr>ds_store := st, ds_inflight := x # ds_inflight S\<rparr>)"
| "drain_step cjson D S (Settle r handled written) =
     (case find (\<lambda>x. me_runId x = r) (ds_inflight S) of
        None \<Rightarrow> S
      | Some x \<Rightarrow> S\<lparr>ds_store := snd (processEntry D handled written x (ds_store S)), ds_inflight := without r (ds_inflight S)\<rparr>)"
| "drain_step cjson D S (Crash r) = S\<lparr>ds_inflight := without r (ds_inflight S)\<rparr>"

definition idle_drains :: "'r drain_state" where
  "idle_drains = \<lparr>ds_store = empty_mollifier, ds_inflight = []\<rparr>"

text \<open>Pops, acknowledgements and failures are the drainers' alone.\<close>

fun drainer_command :: "'r buffer_command \<Rightarrow> bool" where
  "drainer_command (PopEnv e) = True" | "drainer_command (RequeueRun r) = True" | "drainer_command (AckRun r) = True"
| "drainer_command (FailRun r) = True" | "drainer_command c = False"

fun named_accept :: "'r buffer_command \<Rightarrow> bool" where
  "named_accept (AcceptRun r e g p k) = (r \<noteq> [] \<and> e \<noteq> [] \<and> g \<noteq> [])"
| "named_accept c = True"

text \<open>With \<open>keep\<close>, no process crashes and every run comes with its ids.\<close>

fun event_ok :: "bool \<Rightarrow> ('r, 'e) drain_event \<Rightarrow> bool" where
  "event_ok keep (Serve c) = (\<not> drainer_command c \<and> (keep \<longrightarrow> named_accept c))"
| "event_ok keep (Crash r) = (\<not> keep)"
| "event_ok keep ev = True"

section \<open>Where runs are\<close>

definition waits :: "string \<Rightarrow> string \<Rightarrow> 'r mollifier \<Rightarrow> bool" where
  "waits r e st = (case mo_entries st r of Some x \<Rightarrow> me_status x = QUEUED_ENTRY \<and> me_envId x = e | None \<Rightarrow> False)"

definition drains :: "string \<Rightarrow> 'r mollifier \<Rightarrow> bool" where
  "drains r st = (case mo_entries st r of Some x \<Rightarrow> me_status x = DRAINING_ENTRY \<and> \<not> me_materialised x | None \<Rightarrow> False)"

lemma waits_iff: "waits r e st \<longleftrightarrow> (\<exists>x. mo_entries st r = Some x \<and> me_status x = QUEUED_ENTRY \<and> me_envId x = e)"
  by (auto simp: waits_def split: option.splits)

lemma drains_iff: "drains r st \<longleftrightarrow> (\<exists>x. mo_entries st r = Some x \<and> me_status x = DRAINING_ENTRY \<and> \<not> me_materialised x)"
  by (auto simp: drains_def split: option.splits)

definition entry_ok :: "bool \<Rightarrow> string \<Rightarrow> 'r buffer_entry \<Rightarrow> bool" where
  "entry_ok keep r x =
     (me_runId x = r \<and> (me_materialised x \<longleftrightarrow> me_expiresAt x \<noteq> None) \<and> (me_status x = QUEUED_ENTRY \<longrightarrow> \<not> me_materialised x) \<and>
      (keep \<longrightarrow> me_runId x \<noteq> [] \<and> me_envId x \<noteq> [] \<and> me_orgId x \<noteq> []) \<and> me_status x \<noteq> FAILED_ENTRY)"

definition store_ok :: "bool \<Rightarrow> 'r mollifier \<Rightarrow> bool" where
  "store_ok keep st =
     ((\<forall>r x. mo_entries st r = Some x \<longrightarrow> entry_ok keep r x) \<and>
      (\<forall>e. distinct (mo_queue st e) \<and> set (mo_queue st e) = {r. waits r e st}))"

definition drains_ok :: "bool \<Rightarrow> 'r drain_state \<Rightarrow> bool" where
  "drains_ok keep S =
     (store_ok keep (ds_store S) \<and> distinct (runs_of (ds_inflight S)) \<and>
      (\<forall>r \<in> set (runs_of (ds_inflight S)). drains r (ds_store S)) \<and>
      (keep \<longrightarrow> (\<forall>r. drains r (ds_store S) \<longrightarrow> r \<in> set (runs_of (ds_inflight S)))))"

lemma store_okD:
  assumes "store_ok keep st"
  shows "mo_entries st r = Some x \<Longrightarrow> entry_ok keep r x" "distinct (mo_queue st e)" "r \<in> set (mo_queue st e) \<longleftrightarrow> waits r e st"
  using assms by (auto simp: store_ok_def)

lemma ok_live:
  assumes "store_ok keep st" "waits r e st \<or> drains r st"
  shows "live_entry r st = mo_entries st r"
  using assms(2) store_okD(1) [OF assms(1), of r]
  by (auto simp: waits_iff drains_iff entry_ok_def live_entry_def unexpired_def)

lemma dead_nowhere: "store_ok keep st \<Longrightarrow> live_entry r st = None \<Longrightarrow> \<not> waits r e st \<and> \<not> drains r st"
  by (metis drains_iff ok_live option.distinct(1) waits_iff)

lemma waits_once: "waits r e st \<Longrightarrow> waits r e' st \<Longrightarrow> e = e'"
  by (auto simp: waits_iff)

lemma waits_not_drains: "waits r e st \<Longrightarrow> \<not> drains r st"
  by (auto simp: waits_iff drains_iff)

lemma in_without [simp]: "me_runId ` set (without r xs) = me_runId ` set xs - {r}"
  by (auto simp: without_def)

lemma distinct_without [simp]: "distinct (runs_of xs) \<Longrightarrow> distinct (runs_of (without r xs))"
  by (simp add: without_def distinct_map_filter)

text \<open>A change of one entry that keeps what it is, and of no list.\<close>

lemma same_places:
  assumes "store_ok keep st" "mo_queue st' = mo_queue st"
    and "\<And>r x'. mo_entries st' r = Some x' \<Longrightarrow> \<exists>x. mo_entries st r = Some x \<and> me_status x' = me_status x \<and> me_envId x' = me_envId x \<and>
      me_materialised x' = me_materialised x \<and> me_expiresAt x' = me_expiresAt x \<and> me_runId x' = me_runId x \<and> me_orgId x' = me_orgId x"
    and "\<And>r. mo_entries st' r = None \<Longrightarrow> mo_entries st r = None"
  shows "store_ok keep st' \<and> (\<forall>r. drains r st' = drains r st)"
proof -
  have w: "waits r e st' = waits r e st" and d: "drains r st' = drains r st" for r e
    using assms(3) [of r] assms(4) [of r] unfolding waits_iff drains_iff by (cases "mo_entries st' r"; force)+
  have "entry_ok keep r x" if "mo_entries st' r = Some x" for r x
    using assms(3) [OF that] store_okD(1) [OF assms(1), of r] by (auto simp: entry_ok_def)
  with w d assms(1,2) show ?thesis by (simp add: store_ok_def)
qed

lemma set_entry_places:
  assumes "store_ok keep st" "mo_entries st r = Some x" "mo_queue st' = mo_queue st" "mo_entries st' = (mo_entries st)(r := Some x')"
    "me_status x' = me_status x" "me_envId x' = me_envId x" "me_materialised x' = me_materialised x" "me_expiresAt x' = me_expiresAt x"
    "me_runId x' = me_runId x" "me_orgId x' = me_orgId x"
  shows "store_ok keep st' \<and> (\<forall>r. drains r st' = drains r st)"
  using assms(1,3) by (rule same_places) (use assms(2,4-) in \<open>auto split: if_splits\<close>)

section \<open>The servers' scripts\<close>

lemma new_entry_parts [simp]:
  "me_runId (new_entry r e g p k t) = r" "me_envId (new_entry r e g p k t) = e" "me_orgId (new_entry r e g p k t) = g"
  "me_status (new_entry r e g p k t) = QUEUED_ENTRY" "me_materialised (new_entry r e g p k t) = False"
  "me_expiresAt (new_entry r e g p k t) = None" "me_idempotencyLookupKey (new_entry r e g p k t) = k"
  by (simp_all add: new_entry_def)

lemma buffered_places:
  assumes "store_ok keep st" "live_entry (me_runId x) st = None" "entry_ok keep (me_runId x) x" "me_status x = QUEUED_ENTRY"
    and "mo_entries st' = mo_entries st" "mo_queue st' = mo_queue st"
  shows "store_ok keep (buffer_entry_new x st') \<and> (\<forall>r. drains r (buffer_entry_new x st') = drains r st)"
proof -
  let ?r = "me_runId x"
  have n: "\<not> waits ?r e st" "\<not> drains ?r st" for e using dead_nowhere [OF assms(1,2)] by auto
  have w: "waits r e (buffer_entry_new x st') = (if r = ?r then e = me_envId x else waits r e st)" for r e
    using assms(4,5) by (auto simp: waits_iff)
  have d: "drains r (buffer_entry_new x st') = drains r st" for r
    using assms(4,5) n(2) by (auto simp: drains_iff)
  have "entry_ok keep r y" if "mo_entries (buffer_entry_new x st') r = Some y" for r y
    using that assms(3,5) store_okD(1) [OF assms(1), of r] by (auto split: if_splits)
  moreover have "distinct (mo_queue (buffer_entry_new x st') e)" for e
    using store_okD(2,3) [OF assms(1)] n assms(6) by simp
  moreover have "set (mo_queue (buffer_entry_new x st') e) = {r. waits r e (buffer_entry_new x st')}" for e
    using store_okD(3) [OF assms(1)] n assms(6) w by auto
  ultimately show ?thesis using d by (simp add: store_ok_def)
qed

lemma accept_places:
  assumes "store_ok keep st" "keep \<longrightarrow> r \<noteq> [] \<and> e \<noteq> [] \<and> g \<noteq> []"
  shows "store_ok keep (snd (acceptMollifierEntry (new_entry r e g p k t) st)) \<and>
    (\<forall>r'. drains r' (snd (acceptMollifierEntry (new_entry r e g p k t) st)) = drains r' st)"
proof (cases "live_entry r st")
  case None
  have "entry_ok keep r (new_entry r e g p k t)" using assms(2) by (simp add: entry_ok_def)
  with None have new: "store_ok keep (buffer_entry_new (new_entry r e g p k t) st') \<and>
      (\<forall>r'. drains r' (buffer_entry_new (new_entry r e g p k t) st') = drains r' st)"
    if "mo_entries st' = mo_entries st" "mo_queue st' = mo_queue st" for st' :: "'a mollifier"
    using buffered_places [OF assms(1), of "new_entry r e g p k t" st'] that by simp
  with None assms(1) show ?thesis
    by (cases "k = []") (simp_all add: acceptMollifierEntry_def Let_def split: option.split)
qed (use assms(1) in \<open>simp add: acceptMollifierEntry_def Let_def\<close>)

definition repaid :: "'r payload_text \<Rightarrow> nat \<Rightarrow> 'r buffer_entry \<Rightarrow> 'r buffer_entry" where
  "repaid p n x = x\<lparr>me_payload := p, me_metadataVersion := n\<rparr>"

lemma repaid_places:
  assumes "store_ok keep st" "live_entry r st = Some x"
  shows "store_ok keep (set_entry r (repaid p n x) st) \<and> (\<forall>r'. drains r' (set_entry r (repaid p n x) st) = drains r' st)"
  by (rule set_entry_places [OF assms(1), of r x _ "repaid p n x"]) (use assms(2) in \<open>auto simp: live_iff repaid_def\<close>)

lemma mutate_places:
  assumes "store_ok keep st"
  shows "store_ok keep (snd (mutateMollifierSnapshot cjson r patch st)) \<and>
    (\<forall>r'. drains r' (snd (mutateMollifierSnapshot cjson r patch st)) = drains r' st)"
proof -
  have "snd (mutateMollifierSnapshot cjson r patch st) = st \<or>
      (\<exists>x p n. live_entry r st = Some x \<and> snd (mutateMollifierSnapshot cjson r patch st) = set_entry r (repaid p n x) st)"
    unfolding mutateMollifierSnapshot_def repaid_def [symmetric]
    by (simp split: option.split payload_text.split) blast
  with assms repaid_places [OF assms] show ?thesis by auto
qed

lemma cas_places:
  assumes "store_ok keep st"
  shows "store_ok keep (snd (casSetMollifierMetadata cjson r v m t st)) \<and>
    (\<forall>r'. drains r' (snd (casSetMollifierMetadata cjson r v m t st)) = drains r' st)"
proof -
  have "snd (casSetMollifierMetadata cjson r v m t st) = st \<or>
      (\<exists>x p n. live_entry r st = Some x \<and> snd (casSetMollifierMetadata cjson r v m t st) = set_entry r (repaid p n x) st)"
    by (auto simp: casSetMollifierMetadata_def repaid_def split: option.split payload_text.split)
  with assms repaid_places [OF assms] show ?thesis by auto
qed

lemma reset_places:
  assumes "store_ok keep st"
  shows "store_ok keep (snd (resetMollifierIdempotency cjson x st)) \<and>
    (\<forall>r'. drains r' (snd (resetMollifierIdempotency cjson x st)) = drains r' st)"
proof -
  let ?st = "snd (resetMollifierIdempotency cjson x st)"
  consider "mo_entries ?st = mo_entries st \<and> mo_queue ?st = mo_queue st"
    | r e where "live_entry r st = Some e" "mo_entries ?st = (mo_entries st)(r := Some (unkeyed cjson e))" "mo_queue ?st = mo_queue st"
    by (fastforce simp: resetMollifierIdempotency_def Let_def split: option.splits)
  then show ?thesis
  proof cases
    case 1
    with assms show ?thesis by (intro same_places) auto
  next
    case 2
    show ?thesis by (rule set_entry_places [OF assms(1), OF _ 2(3,2)]) (use 2(1) in \<open>auto simp: live_iff unkeyed_def\<close>)
  qed
qed

lemma serve_places:
  assumes "store_ok keep st" "\<not> drainer_command c" "keep \<longrightarrow> named_accept c"
  shows "store_ok keep (mollifier_step cjson grace st c) \<and> (\<forall>r. drains r (mollifier_step cjson grace st c) = drains r st)"
proof (cases "only_keys c")
  case True
  show ?thesis by (rule same_places [OF assms(1)]) (auto simp: only_keys_parts [OF True])
next
  case False
  show ?thesis
  proof (cases c)
    case (AcceptRun r e g p k)
    with accept_places [OF assms(1), of r e g p k "mo_now st"] assms(3) show ?thesis by simp
  next
    case (Mutate r patch)
    with mutate_places [OF assms(1), of cjson r patch] show ?thesis by simp
  next
    case (CasMetadata r v m t)
    with cas_places [OF assms(1), of cjson r v m t] show ?thesis by simp
  next
    case (ResetKey x)
    with reset_places [OF assms(1), of cjson x] show ?thesis by simp
  next
    case (Pass n)
    show ?thesis unfolding Pass by (rule same_places [OF assms(1)]) auto
  qed (use False assms(2) in simp_all)
qed

section \<open>The drainers' scripts\<close>

text \<open>A run whose entry is replaced: what the scripts of the drainer do to places.\<close>

lemma moved_places:
  assumes "store_ok keep st" "mo_entries st' = (mo_entries st)(r := Some x)" "entry_ok keep r x"
    and "\<And>e. distinct (mo_queue st' e)"
    and "\<And>e r'. r' \<in> set (mo_queue st' e) \<longleftrightarrow> (if r' = r then me_status x = QUEUED_ENTRY \<and> e = me_envId x else waits r' e st)"
  shows "store_ok keep st'"
proof -
  have w: "waits r' e st' = (if r' = r then me_status x = QUEUED_ENTRY \<and> e = me_envId x else waits r' e st)" for r' e
    using assms(2) by (auto simp: waits_iff)
  have "entry_ok keep r' y" if "mo_entries st' r' = Some y" for r' y
    using that assms(2,3) store_okD(1) [OF assms(1), of r'] by (auto split: if_splits)
  then show ?thesis using assms(4,5) w by (auto simp: store_ok_def)
qed

lemma drains_set [simp]:
  "mo_entries st' = (mo_entries st)(r := Some x) \<Longrightarrow>
   drains r' st' = (if r' = r then me_status x = DRAINING_ENTRY \<and> \<not> me_materialised x else drains r' st)"
  by (auto simp: drains_iff)

lemma pop_places:
  assumes "store_ok keep st"
  obtains (Empty) "popAndMarkDraining e st = (None, st)" "mo_queue st e = []"
  | (Taken) r x st' newer where "mo_entries st r = Some x" "me_status x = QUEUED_ENTRY" "me_envId x = e" "mo_queue st e = newer @ [r]"
      "popAndMarkDraining e st = (Some (x\<lparr>me_status := DRAINING_ENTRY\<rparr>), st')" "store_ok keep st'"
      "mo_entries st' = (mo_entries st)(r := Some (x\<lparr>me_status := DRAINING_ENTRY\<rparr>))" "mo_queue st' = (mo_queue st)(e := newer)"
proof (cases e st rule: pop_cases)
  case Empty
  have "live_entry r st \<noteq> None" if "r \<in> set (mo_queue st e)" for r
    using that store_okD(3) [OF assms, of r e] dead_nowhere [OF assms, of r e] by auto
  with Empty(2) have "mo_queue st e = []" by (meson last_in_set)
  moreover from this have "(mo_queue st)(e := []) = mo_queue st" by auto
  ultimately show thesis using Empty that(1) by simp
next
  case (Taken r x newer gone)
  have "live_entry d st \<noteq> None" if "d \<in> set (mo_queue st e)" for d
    using that store_okD(3) [OF assms, of d e] dead_nowhere [OF assms, of d e] by auto
  with Taken(2,3) have g: "gone = []" by (cases gone) auto
  with Taken(2) have q: "mo_queue st e = newer @ [r]" by simp
  with store_okD(3) [OF assms, of r e] have "waits r e st" by simp
  moreover from Taken(1) have x: "mo_entries st r = Some x" by (simp add: live_iff)
  ultimately have s: "me_status x = QUEUED_ENTRY" "me_envId x = e" by (auto simp: waits_iff)
  let ?st = "snd (popAndMarkDraining e st)"
  have parts: "mo_entries ?st = (mo_entries st)(r := Some (x\<lparr>me_status := DRAINING_ENTRY\<rparr>))" "mo_queue ?st = (mo_queue st)(e := newer)"
    using Taken(4) by simp_all
  have "store_ok keep ?st"
  proof (rule moved_places [OF assms parts(1)])
    show "entry_ok keep r (x\<lparr>me_status := DRAINING_ENTRY\<rparr>)" using store_okD(1) [OF assms x] s by (auto simp: entry_ok_def)
    show "distinct (mo_queue ?st e')" for e' using store_okD(2) [OF assms, of e'] store_okD(2) [OF assms, of e] q parts(2) by auto
    show "r' \<in> set (mo_queue ?st e') \<longleftrightarrow> (if r' = r then me_status (x\<lparr>me_status := DRAINING_ENTRY\<rparr>) = QUEUED_ENTRY \<and>
        e' = me_envId (x\<lparr>me_status := DRAINING_ENTRY\<rparr>) else waits r' e' st)" for e' r'
      using store_okD(2) [OF assms, of e] store_okD(3) [OF assms, of r' e'] q parts(2) waits_once [OF \<open>waits r e st\<close>, of e'] by auto
  qed
  with Taken(4) parts x s q that(2) show thesis by (metis fst_conv prod.collapse)
qed

lemma requeue_entry_places:
  assumes "store_ok keep st" "drains r st"
  shows "store_ok keep (snd (requeueMollifierEntry r st)) \<and>
    (\<forall>r'. drains r' (snd (requeueMollifierEntry r st)) = (r' \<noteq> r \<and> drains r' st))"
proof -
  from assms(2) obtain x where x: "mo_entries st r = Some x" "me_status x = DRAINING_ENTRY" "\<not> me_materialised x" by (auto simp: drains_iff)
  let ?x = "x\<lparr>me_status := QUEUED_ENTRY, me_attempts := me_attempts x + 1\<rparr>" and ?st = "snd (requeueMollifierEntry r st)"
  from x(1) assms have "live_entry r st = Some x" by (simp add: ok_live)
  then have p: "mo_entries ?st = (mo_entries st)(r := Some ?x)" "mo_queue ?st = (mo_queue st)(me_envId x := mo_queue st (me_envId x) @ [r])"
    by (simp_all add: requeueMollifierEntry_def)
  have n: "r \<notin> set (mo_queue st e)" for e using store_okD(3) [OF assms(1), of r e] assms(2) waits_not_drains by auto
  have "store_ok keep ?st"
  proof (rule moved_places [OF assms(1) p(1)])
    show "entry_ok keep r ?x" using store_okD(1) [OF assms(1) x(1)] x(2,3) by (auto simp: entry_ok_def)
    show "distinct (mo_queue ?st e)" for e using store_okD(2) [OF assms(1)] n p(2) by simp
    show "r' \<in> set (mo_queue ?st e) \<longleftrightarrow> (if r' = r then me_status ?x = QUEUED_ENTRY \<and> e = me_envId ?x else waits r' e st)" for e r'
      using store_okD(3) [OF assms(1), of r' e] n p(2) by auto
  qed
  with p(1) show ?thesis by simp
qed

lemma ack_entry_places:
  assumes "store_ok keep st" "drains r st"
  shows "store_ok keep (snd (ackMollifierEntry grace r st)) \<and>
    (\<forall>r'. drains r' (snd (ackMollifierEntry grace r st)) = (r' \<noteq> r \<and> drains r' st))"
proof -
  from assms(2) obtain x where x: "mo_entries st r = Some x" "me_status x = DRAINING_ENTRY" "\<not> me_materialised x" by (auto simp: drains_iff)
  let ?x = "x\<lparr>me_materialised := True, me_expiresAt := Some (mo_now st + grace * 1000)\<rparr>" and ?st = "snd (ackMollifierEntry grace r st)"
  from x(1) assms have "live_entry r st = Some x" by (simp add: ok_live)
  then have p: "mo_entries ?st = (mo_entries st)(r := Some ?x)" "mo_queue ?st = mo_queue st"
    by (simp_all add: ackMollifierEntry_def Let_def)
  have "store_ok keep ?st"
  proof (rule moved_places [OF assms(1) p(1)])
    show "entry_ok keep r ?x" using store_okD(1) [OF assms(1) x(1)] x(2) by (auto simp: entry_ok_def)
    show "distinct (mo_queue ?st e)" for e using store_okD(2) [OF assms(1)] p(2) by simp
    show "r' \<in> set (mo_queue ?st e) \<longleftrightarrow> (if r' = r then me_status ?x = QUEUED_ENTRY \<and> e = me_envId ?x else waits r' e st)" for e r'
      using store_okD(3) [OF assms(1), of r' e] p(2) x(2) waits_not_drains [of r e st] assms(2) by auto
  qed
  with p(1) show ?thesis by simp
qed

lemma fail_entry_places:
  assumes "store_ok keep st" "drains r st"
  shows "store_ok keep (snd (failMollifierEntry r st)) \<and>
    (\<forall>r'. drains r' (snd (failMollifierEntry r st)) = (r' \<noteq> r \<and> drains r' st))"
proof -
  let ?st = "snd (failMollifierEntry r st)"
  from assms obtain x where "live_entry r st = Some x" by (auto simp: ok_live drains_iff)
  then have p: "mo_entries ?st = (mo_entries st)(r := None)" "mo_queue ?st = mo_queue st"
    by (simp_all add: failMollifierEntry_def Let_def)
  have n: "\<not> waits r e st" for e using assms(2) waits_not_drains by auto
  have w: "waits r' e ?st = waits r' e st" for r' e using p(1) n [of e] by (auto simp: waits_iff)
  have "drains r' ?st = (r' \<noteq> r \<and> drains r' st)" for r' using p(1) by (auto simp: drains_iff)
  moreover have "store_ok keep ?st"
    using assms(1) w p by (auto simp: store_ok_def)
  ultimately show ?thesis by simp
qed

lemma process_places:
  assumes "store_ok keep st" "drains (me_runId x) st"
  shows "store_ok keep (snd (processEntry D handled written x st)) \<and>
    (\<forall>r. drains r (snd (processEntry D handled written x st)) = (r \<noteq> me_runId x \<and> drains r st))"
proof -
  let ?r = "me_runId x"
  have "snd (processEntry D handled written x st) \<in>
      {snd (ackMollifierEntry (dr_graceTtlSeconds D) ?r st), snd (requeueMollifierEntry ?r st), snd (failMollifierEntry ?r st)}"
    by (simp add: processEntry_def Let_def split: option.split)
  with ack_entry_places [OF assms] requeue_entry_places [OF assms] fail_entry_places [OF assms] show ?thesis by auto
qed

section \<open>Every event keeps runs where they are found\<close>

lemma pop_entry_places:
  assumes "store_ok keep st" "pop_entry e st = (found, st')"
  shows "store_ok keep st' \<and>
    (case found of
       Some x \<Rightarrow> waits (me_runId x) e st \<and> (\<forall>r. drains r st' = (r = me_runId x \<or> drains r st))
     | None \<Rightarrow> (\<forall>r. drains r st \<longrightarrow> drains r st') \<and> (keep \<longrightarrow> (\<forall>r. drains r st' = drains r st)))"
proof (rule pop_places [OF assms(1), of e], goal_cases Empty Taken)
  case Empty
  with assms show ?thesis by (auto simp: pop_entry_def parsed_entry_def)
next
  case (Taken r x s newer)
  have ok: "entry_ok keep r x" using store_okD(1) [OF assms(1) Taken(1)] .
  then have i: "me_runId x = r" by (simp add: entry_ok_def)
  have d: "drains r' s = (r' = r \<or> drains r' st)" for r'
    using Taken(2,7) ok by (auto simp: entry_ok_def)
  have s: "st' = s" "found = parsed_entry (Some (x\<lparr>me_status := DRAINING_ENTRY\<rparr>))" using assms(2) Taken(5) by (auto simp: pop_entry_def)
  show ?thesis
  proof (cases found)
    case None
    with s(2) ok have "\<not> keep" by (auto simp: parsed_entry_def entry_ok_def split: if_splits)
    with None s(1) d Taken(6) show ?thesis by simp
  next
    case (Some y)
    with s(2) have "me_runId y = r" using i by (auto simp: parsed_entry_def split: if_splits)
    moreover have "waits r e st" using Taken(1-3) by (auto simp: waits_iff)
    ultimately show ?thesis using Some s(1) d Taken(6) by simp
  qed
qed

lemma inflight_found:
  assumes "find (\<lambda>x. me_runId x = r) xs = Some x"
  shows "me_runId x = r \<and> r \<in> set (runs_of xs)"
  using assms by (auto simp: find_Some_iff)

lemma drains_okD:
  assumes "drains_ok keep S"
  shows "store_ok keep (ds_store S)" "distinct (runs_of (ds_inflight S))" "r \<in> set (runs_of (ds_inflight S)) \<Longrightarrow> drains r (ds_store S)"
    "keep \<Longrightarrow> drains r (ds_store S) \<Longrightarrow> r \<in> set (runs_of (ds_inflight S))"
  using assms by (auto simp: drains_ok_def)

lemma drains_okI:
  assumes "store_ok keep (ds_store S)" "distinct (runs_of (ds_inflight S))" "\<And>r. r \<in> set (runs_of (ds_inflight S)) \<Longrightarrow> drains r (ds_store S)"
    "\<And>r. keep \<Longrightarrow> drains r (ds_store S) \<Longrightarrow> r \<in> set (runs_of (ds_inflight S))"
  shows "drains_ok keep S"
  using assms by (auto simp: drains_ok_def)

lemma drain_step_ok:
  assumes "event_ok keep ev" "drains_ok keep S"
  shows "drains_ok keep (drain_step cjson D S ev)"
proof (cases ev)
  case (Serve c)
  with assms serve_places [of keep "ds_store S" c cjson "dr_graceTtlSeconds D"] show ?thesis by (simp add: drains_ok_def)
next
  case (DrainPop e)
  obtain found st' where p: "pop_entry e (ds_store S) = (found, st')" by (cases "pop_entry e (ds_store S)")
  have places: "store_ok keep st'" "case found of
       Some x \<Rightarrow> waits (me_runId x) e (ds_store S) \<and> (\<forall>r. drains r st' = (r = me_runId x \<or> drains r (ds_store S)))
     | None \<Rightarrow> (\<forall>r. drains r (ds_store S) \<longrightarrow> drains r st') \<and> (keep \<longrightarrow> (\<forall>r. drains r st' = drains r (ds_store S)))"
    using pop_entry_places [OF _ p, of keep] assms(2) by (auto simp: drains_ok_def)
  show ?thesis
  proof (cases found)
    case None
    with places p assms(2) DrainPop show ?thesis by (simp add: drains_ok_def)
  next
    case (Some x)
    with places(2) have "me_runId x \<notin> set (runs_of (ds_inflight S))"
      using assms(2) waits_not_drains by (fastforce simp: drains_ok_def)
    with places p Some assms(2) DrainPop show ?thesis by (auto simp: drains_ok_def)
  qed
next
  case (Settle r h w)
  show ?thesis
  proof (cases "find (\<lambda>x. me_runId x = r) (ds_inflight S)")
    case None
    with assms(2) Settle show ?thesis by simp
  next
    case (Some x)
    from inflight_found [OF Some] have x: "me_runId x = r" "r \<in> set (runs_of (ds_inflight S))" by auto
    let ?st = "snd (processEntry D h w x (ds_store S))"
    from process_places [of keep "ds_store S" x D h w] drains_okD(1,3) [OF assms(2)] x
    have p: "store_ok keep ?st" "drains r' ?st = (r' \<noteq> r \<and> drains r' (ds_store S))" for r' by simp_all
    have "drain_step cjson D S ev = S\<lparr>ds_store := ?st, ds_inflight := without r (ds_inflight S)\<rparr>" using Settle Some by simp
    then show ?thesis
      by (intro drains_okI) (use p drains_okD [OF assms(2)] in simp_all)
  qed
next
  case (Crash r)
  with assms show ?thesis by (auto simp: drains_ok_def)
qed

lemma drain_step_tracked: "queued_tracked (ds_store S) \<Longrightarrow> queued_tracked (ds_store (drain_step cjson D S ev))"
proof (cases ev)
  case (DrainPop e)
  assume "queued_tracked (ds_store S)"
  then have "queued_tracked (snd (popAndMarkDraining e (ds_store S)))" by (rule pop_tracked)
  with DrainPop show ?thesis by (simp add: pop_entry_def case_prod_beta split: option.split)
next
  case (Settle r h w)
  assume "queued_tracked (ds_store S)"
  with Settle show ?thesis
    by (simp add: processEntry_def Let_def ack_tracked requeue_tracked fail_tracked split: option.split)
qed (simp_all add: step_tracked)

interpretation draining: guarded_machine "drain_step cjson D" "event_ok keep" "\<lambda>S. drains_ok keep S \<and> queued_tracked (ds_store S)" for cjson D keep
  by unfold_locales (auto intro: drain_step_ok drain_step_tracked)

lemma idle_ok: "drains_ok keep idle_drains \<and> queued_tracked (ds_store idle_drains)"
  by (simp add: drains_ok_def store_ok_def idle_drains_def empty_mollifier_def waits_iff drains_iff queued_tracked_def live_entry_def)

lemma reached_ok:
  assumes "list_all (event_ok keep) evs"
  shows "drains_ok keep (foldl (drain_step cjson D) idle_drains evs)" "queued_tracked (ds_store (foldl (drain_step cjson D) idle_drains evs))"
  using draining.run_inv [OF assms idle_ok, of cjson D] by auto

text \<open>
  C22. Whatever servers and drainers do, and whatever processes crash, no run is popped twice while it
  is processed, and a run that is processed is in no list, so no other drainer pops it.
\<close>

theorem run_drained_by_one:
  assumes "list_all (event_ok False) evs" "r \<in> set (runs_of (ds_inflight (foldl (drain_step cjson D) idle_drains evs)))"
  shows "distinct (runs_of (ds_inflight (foldl (drain_step cjson D) idle_drains evs))) \<and>
    r \<notin> set (mo_queue (ds_store (foldl (drain_step cjson D) idle_drains evs)) e)"
proof -
  note ok = reached_ok(1) [OF assms(1), of cjson D]
  note drains_okD(3) [OF ok assms(2)]
  with waits_not_drains store_okD(3) [OF drains_okD(1) [OF ok]] drains_okD(2) [OF ok] show ?thesis by auto
qed

text \<open>The only event that takes a run from the buffer is the end of its own processing.\<close>

definition buffered :: "string \<Rightarrow> 'r mollifier \<Rightarrow> bool" where
  "buffered r st = (drains r st \<or> (\<exists>e. waits r e st))"

lemma buffered_iff:
  assumes "store_ok keep st"
  shows "buffered r st \<longleftrightarrow> (\<exists>x. mo_entries st r = Some x \<and> \<not> me_materialised x)"
proof
  assume "\<exists>x. mo_entries st r = Some x \<and> \<not> me_materialised x"
  then obtain x where x: "mo_entries st r = Some x" "\<not> me_materialised x" by auto
  with store_okD(1) [OF assms x(1)] show "buffered r st"
    by (cases "me_status x") (auto simp: buffered_def waits_iff drains_iff entry_ok_def)
next
  assume "buffered r st"
  then show "\<exists>x. mo_entries st r = Some x \<and> \<not> me_materialised x"
    using store_okD(1) [OF assms, of r] by (auto simp: buffered_def waits_iff drains_iff entry_ok_def)
qed

lemma command_keeps:
  assumes "mo_entries st r = Some x" "\<not> me_materialised x" "live_entry r st = Some x" "\<not> drainer_command c"
  shows "\<exists>y. mo_entries (mollifier_step cjson grace st c) r = Some y \<and> \<not> me_materialised y"
proof (cases "only_keys c")
  case True
  with assms(1,2) show ?thesis by (simp add: only_keys_parts [OF True])
next
  case False
  have acc: "\<exists>y. mo_entries (snd (acceptMollifierEntry z st)) r = Some y \<and> \<not> me_materialised y" for z
  proof (cases "me_runId z = r")
    case True
    with assms(1-3) show ?thesis by (simp add: acceptMollifierEntry_def)
  qed (use assms(1,2) in \<open>auto simp: acceptMollifierEntry_def Let_def split: option.split\<close>)
  have mut: "\<exists>y. mo_entries (snd (mutateMollifierSnapshot cjson r' patch st)) r = Some y \<and> \<not> me_materialised y" for r' patch
    using assms(1,2) by (auto simp: mutateMollifierSnapshot_def split: option.split payload_text.split)
  have cas: "\<exists>y. mo_entries (snd (casSetMollifierMetadata cjson r' v m t st)) r = Some y \<and> \<not> me_materialised y" for r' v m t
    using assms(1,2) by (auto simp: casSetMollifierMetadata_def split: option.split payload_text.split)
  have res: "\<exists>y. mo_entries (snd (resetMollifierIdempotency cjson k st)) r = Some y \<and> \<not> me_materialised y" for k
    using assms(1-3) by (auto simp: resetMollifierIdempotency_def Let_def unkeyed_def live_iff split: option.split)
  show ?thesis using False assms(1,2,4) acc mut cas res by (cases c) simp_all
qed

lemma others_keep:
  assumes "event_ok keep ev" "drains_ok keep S" "buffered r (ds_store S)" "\<And>h w. ev \<noteq> Settle r h w"
  shows "buffered r (ds_store (drain_step cjson D S ev))"
proof -
  note ok = drains_okD(1) [OF assms(2)] and ok' = drains_okD(1) [OF drain_step_ok [OF assms(1,2), of cjson D]]
  show ?thesis
  proof (cases ev)
    case (Serve c)
    from assms(3) ok obtain x where x: "mo_entries (ds_store S) r = Some x" "\<not> me_materialised x" by (auto simp: buffered_iff)
    with assms(3) ok_live [OF ok, of r] have "live_entry r (ds_store S) = Some x" by (auto simp: buffered_def)
    from command_keeps [OF x this, of c cjson "dr_graceTtlSeconds D"] assms(1) Serve ok' show ?thesis by (simp add: buffered_iff)
  next
    case (DrainPop e)
    have "ds_store (drain_step cjson D S ev) = snd (popAndMarkDraining e (ds_store S))"
      using DrainPop by (simp add: pop_entry_def case_prod_beta split: option.split)
    moreover have "buffered r (snd (popAndMarkDraining e (ds_store S)))"
    proof (rule pop_places [OF ok, of e], goal_cases Empty Taken)
      case Empty
      with assms(3) show ?case by simp
    next
      case (Taken r' x s newer)
      from assms(3) ok obtain y where y: "mo_entries (ds_store S) r = Some y" "\<not> me_materialised y" by (auto simp: buffered_iff)
      have "entry_ok keep r' x" using store_okD(1) [OF ok Taken(1)] .
      with y Taken(1,2,5-7) show ?case by (auto simp: buffered_iff entry_ok_def)
    qed
    ultimately show ?thesis by simp
  next
    case (Settle r' h w)
    with assms(4) have "r' \<noteq> r" by auto
    show ?thesis
    proof (cases "find (\<lambda>x. me_runId x = r') (ds_inflight S)")
      case None
      with Settle assms(3) show ?thesis by simp
    next
      case (Some x)
      let ?st = "ds_store S"
      from inflight_found [OF Some] have x: "me_runId x = r'" by simp
      have "mo_entries (snd (processEntry D h w x ?st)) r = mo_entries ?st r"
        using \<open>r' \<noteq> r\<close> x by (auto simp: processEntry_def Let_def ackMollifierEntry_def requeueMollifierEntry_def failMollifierEntry_def split: option.split)
      moreover have "ds_store (drain_step cjson D S ev) = snd (processEntry D h w x ?st)" using Settle Some by simp
      ultimately show ?thesis using assms(3) ok ok' by (simp add: buffered_iff)
    qed
  qed (use assms(3) in simp)
qed

text \<open>
  C6. No buffered run is lost: while no process crashes, a run that is not yet materialised is in the
  list of its environment, which is listed under its organization, or with a drainer; and no event but
  the end of its own processing takes it from the buffer.
\<close>

theorem buffered_run_kept:
  assumes "list_all (event_ok True) evs"
    and "mo_entries (ds_store (foldl (drain_step cjson D) idle_drains evs)) r = Some x" "\<not> me_materialised x"
    and "event_ok True ev" "\<forall>h w. ev \<noteq> Settle r h w"
  defines "S \<equiv> foldl (drain_step cjson D) idle_drains evs"
  shows "(if me_status x = QUEUED_ENTRY
      then r \<in> set (mo_queue (ds_store S) (me_envId x)) \<and> me_envId x \<in> set (listEnvsForOrg (me_orgId x) (ds_store S)) \<and>
        me_orgId x \<in> set (mo_orgs (ds_store S))
      else r \<in> set (runs_of (ds_inflight S))) \<and>
    (\<exists>y. mo_entries (ds_store (drain_step cjson D S ev)) r = Some y \<and> \<not> me_materialised y)"
proof -
  have ok: "drains_ok True S" "queued_tracked (ds_store S)" unfolding S_def by (rule reached_ok [OF assms(1)])+
  note x = assms(2,3) [folded S_def]
  have b: "buffered r (ds_store S)" using x drains_okD(1) [OF ok(1)] by (auto simp: buffered_iff)
  then have "live_entry r (ds_store S) = Some x" using ok_live [OF drains_okD(1) [OF ok(1)], of r] x by (auto simp: buffered_def)
  with ok(2) have "tracked r x (ds_store S)" by (simp add: queued_tracked_def)
  moreover have "r \<in> set (runs_of (ds_inflight S))" if "me_status x \<noteq> QUEUED_ENTRY"
    using b x(1) that drains_okD(4) [OF ok(1)] by (auto simp: buffered_def waits_iff)
  moreover have "buffered r (ds_store (drain_step cjson D S ev))"
    by (rule others_keep [OF assms(4) ok(1) b]) (use assms(5) in simp)
  then have "\<exists>y. mo_entries (ds_store (drain_step cjson D S ev)) r = Some y \<and> \<not> me_materialised y"
    using drains_okD(1) [OF drain_step_ok [OF assms(4) ok(1)], of cjson D] by (simp add: buffered_iff)
  ultimately show ?thesis by (simp add: tracked_def listEnvsForOrg_def)
qed

text \<open>A run that no drainer holds, although it is marked as draining.\<close>

definition orphaned :: "string \<Rightarrow> 'r drain_state \<Rightarrow> bool" where
  "orphaned r S = (drains r (ds_store S) \<and> r \<notin> set (runs_of (ds_inflight S)))"

lemma orphaned_step:
  assumes ev: "event_ok False ev" and T: "drains_ok False T" and o': "orphaned r T"
  shows "orphaned r (drain_step cjson D T ev)"
proof -
  from o' have o: "drains r (ds_store T)" "r \<notin> set (runs_of (ds_inflight T))" by (auto simp: orphaned_def)
  have "drains r (ds_store (drain_step cjson D T ev)) \<and> r \<notin> set (runs_of (ds_inflight (drain_step cjson D T ev)))"
  proof (cases ev)
    case (Serve c)
    with serve_places [of False "ds_store T" c cjson "dr_graceTtlSeconds D"] drains_okD(1) [OF T] ev o show ?thesis by simp
  next
    case (DrainPop f)
    obtain found st' where p: "pop_entry f (ds_store T) = (found, st')" by (cases "pop_entry f (ds_store T)")
    with pop_entry_places [OF drains_okD(1) [OF T] p] o DrainPop waits_not_drains show ?thesis by (cases found) auto
  next
    case (Settle r' h w)
    show ?thesis
    proof (cases "find (\<lambda>x. me_runId x = r') (ds_inflight T)")
      case (Some x)
      from inflight_found [OF Some] have x: "me_runId x = r'" "r' \<in> set (runs_of (ds_inflight T))" by auto
      with o have "r \<noteq> r'" by auto
      with process_places [of False "ds_store T" x D h w] drains_okD(1,3) [OF T] x o Settle Some show ?thesis by simp
    qed (use Settle o in simp)
  qed (use o in simp)
  then show ?thesis by (simp add: orphaned_def)
qed

interpretation orphans: guarded_machine "drain_step cjson D" "event_ok False" "\<lambda>S. drains_ok False S \<and> orphaned r S" for cjson D r
  by unfold_locales (simp add: drain_step_ok orphaned_step)

text \<open>
  C32. A drainer that crashes strands its runs: whatever servers and drainers do afterwards, the run stays
  marked as draining, is in no list, and is in none of the pages the sweep for stale entries reads.
\<close>

theorem crashed_run_stranded:
  assumes "list_all (event_ok False) evs" "r \<in> set (runs_of (ds_inflight (foldl (drain_step cjson D) idle_drains evs)))"
    and "list_all (event_ok False) later"
  defines "S \<equiv> foldl (drain_step cjson D) idle_drains (evs @ Crash r # later)"
  shows "drains r (ds_store S) \<and> r \<notin> set (mo_queue (ds_store S) e) \<and> r \<notin> set (runs_of (ds_inflight S)) \<and>
    r \<notin> set (runs_of (listEntriesForEnv e n (ds_store S)))"
proof -
  let ?T = "foldl (drain_step cjson D) idle_drains evs"
  have T: "drains_ok False ?T" by (rule reached_ok(1) [OF assms(1)])
  have "drains_ok False (drain_step cjson D ?T (Crash r))" by (rule drain_step_ok [OF _ T]) simp
  moreover have "orphaned r (drain_step cjson D ?T (Crash r))" using drains_okD(3) [OF T assms(2)] by (simp add: orphaned_def)
  ultimately have "drains_ok False S \<and> orphaned r S" unfolding S_def using orphans.run_inv [OF assms(3)] by simp
  then have S: "drains_ok False S" "drains r (ds_store S)" "r \<notin> set (runs_of (ds_inflight S))" unfolding orphaned_def by simp_all
  have q: "r \<notin> set (mo_queue (ds_store S) f)" for f
    using S(2) store_okD(3) [OF drains_okD(1) [OF S(1)], of r f] waits_not_drains [of r f "ds_store S"] by auto
  have "r \<notin> set (runs_of (listEntriesForEnv e n (ds_store S)))"
  proof
    assume "r \<in> set (runs_of (listEntriesForEnv e n (ds_store S)))"
    then obtain r' y where y: "r' \<in> set (mo_queue (ds_store S) e)" "getEntry r' (ds_store S) = Some y" "me_runId y = r"
      by (auto simp: listEntriesForEnv_def map_filter_def dest: in_set_takeD split: if_splits)
    then have "mo_entries (ds_store S) r' = Some y" by (auto simp: getEntry_def parsed_entry_def live_iff split: option.splits if_splits)
    from store_okD(1) [OF drains_okD(1) [OF S(1)] this] y q show False by (auto simp: entry_ok_def)
  qed
  with S q show ?thesis by simp
qed

end
