(* ===== verification/DrainerRotation.thy ===== *)
theory DrainerRotation
  imports DrainerOutcomes
begin

text \<open>
  The rotation of the drainer: while organizations and environments stay as they are, every environment
  has its turn within as many ticks as there are organizations times environments of its organization.
\<close>

text \<open>The rotation after some ticks that found the same organizations and environments.\<close>

definition after_ticks :: "nat \<Rightarrow> string list \<Rightarrow> (string \<Rightarrow> string list) \<Rightarrow> nat \<Rightarrow> rotation \<Rightarrow> rotation" where
  "after_ticks m orgs envs k ro = ((\<lambda>ro. snd (tick_targets m orgs envs ro)) ^^ k) ro"

lemma after_ticks_0 [simp]: "after_ticks m orgs envs 0 ro = ro"
  by (simp add: after_ticks_def)

lemma after_ticks_Suc [simp]: "after_ticks m orgs envs (Suc k) ro = snd (tick_targets m orgs envs (after_ticks m orgs envs k ro))"
  by (simp add: after_ticks_def)

abbreviation env_cursor :: "string \<Rightarrow> rotation \<Rightarrow> nat" where
  "env_cursor g ro \<equiv> or_default (ro_perOrgEnvCursors ro g) 0"

lemma pick_targets_orgCursor [simp]: "ro_orgCursor (snd (pick_targets envs gs ro)) = ro_orgCursor ro"
  by (induction gs arbitrary: ro) (auto simp: pickEnvForOrg_def Let_def case_prod_beta)

lemma pick_targets_other:
  "g \<notin> set gs \<Longrightarrow> ro_perOrgEnvCursors (snd (pick_targets envs gs ro)) g = ro_perOrgEnvCursors ro g"
  by (induction gs arbitrary: ro) (auto simp: pickEnvForOrg_def Let_def case_prod_beta)

text \<open>A visit of an organization picks the environment of its cursor and moves the cursor on.\<close>

lemma pick_targets_visit:
  assumes "g \<in> set gs" "distinct gs" "envs g \<noteq> []"
  shows "sort (envs g) ! (env_cursor g ro mod length (envs g)) \<in> set (fst (pick_targets envs gs ro)) \<and>
    env_cursor g (snd (pick_targets envs gs ro)) = (env_cursor g ro + 1) mod length (envs g)"
  using assms(1,2)
proof (induction gs arbitrary: ro)
  case (Cons h gs)
  show ?case
  proof (cases "h = g")
    case True
    with Cons.prems assms(3) show ?thesis
      by (simp add: pickEnvForOrg_def Let_def case_prod_beta pick_targets_other or_default_def)
  next
    case False
    have "env_cursor g (snd (pickEnvForOrg h (envs h) ro)) = env_cursor g ro" using False by (simp add: pickEnvForOrg_def Let_def)
    with Cons.IH [of ro] Cons.IH [of "snd (pickEnvForOrg h (envs h) ro)"] Cons.prems False
    show ?thesis by (auto simp: case_prod_beta)
  qed
qed simp

text \<open>The slice of a tick holds the organization at the cursor.\<close>

lemma slice_parts:
  assumes "orgs \<noteq> []" "0 < m"
  shows "sort orgs ! (ro_orgCursor ro mod length orgs) \<in> set (fst (takeOrgSlice m orgs ro))"
    "distinct orgs \<Longrightarrow> distinct (fst (takeOrgSlice m orgs ro))"
    "ro_orgCursor (snd (takeOrgSlice m orgs ro)) = (ro_orgCursor ro + 1) mod length orgs"
    "ro_perOrgEnvCursors (snd (takeOrgSlice m orgs ro)) = ro_perOrgEnvCursors ro"
proof -
  let ?n = "length orgs" and ?c = "ro_orgCursor ro mod length orgs" and ?s = "sort orgs"
  have c: "?c < ?n" using assms(1) by simp
  then have "drop ?c ?s = ?s ! ?c # drop (Suc ?c) ?s" by (simp add: Cons_nth_drop_Suc)
  with assms c show "?s ! ?c \<in> set (fst (takeOrgSlice m orgs ro))"
    by (cases "min m ?n") (auto simp: takeOrgSlice_def Let_def)
  show "ro_orgCursor (snd (takeOrgSlice m orgs ro)) = (ro_orgCursor ro + 1) mod length orgs"
  proof -
    have "max (length orgs) 1 = length orgs" using assms(1) by (cases orgs) simp_all
    then show ?thesis unfolding takeOrgSlice_def Let_def snd_conv length_sort by (simp only:) simp
  qed
  show "ro_perOrgEnvCursors (snd (takeOrgSlice m orgs ro)) = ro_perOrgEnvCursors ro"
    by (simp add: takeOrgSlice_def Let_def)
  assume "distinct orgs"
  then have d: "distinct (drop ?c ?s)" "distinct (take k ?s)" "k \<le> ?c \<Longrightarrow> set (drop ?c ?s) \<inter> set (take k ?s) = {}" for k
    using set_take_disj_set_drop_if_distinct [of ?s k ?c] by auto
  then show "distinct (fst (takeOrgSlice m orgs ro))"
    by (simp add: takeOrgSlice_def Let_def)
qed

text \<open>Whether a tick visits an organization, and how often the ticks so far have.\<close>

definition visited :: "nat \<Rightarrow> string list \<Rightarrow> rotation \<Rightarrow> string \<Rightarrow> bool" where
  "visited m orgs ro g = (g \<in> set (fst (takeOrgSlice m orgs ro)))"

definition visits :: "nat \<Rightarrow> string list \<Rightarrow> (string \<Rightarrow> string list) \<Rightarrow> rotation \<Rightarrow> string \<Rightarrow> nat \<Rightarrow> nat" where
  "visits m orgs envs ro g k = card {j. j < k \<and> visited m orgs (after_ticks m orgs envs j ro) g}"

lemma visits_0 [simp]: "visits m orgs envs ro g 0 = 0"
  by (simp add: visits_def)

lemma visits_Suc:
  "visits m orgs envs ro g (Suc k) = visits m orgs envs ro g k + (if visited m orgs (after_ticks m orgs envs k ro) g then 1 else 0)"
proof -
  have "{j. j < Suc k \<and> P j} = (if P k then insert k {j. j < k \<and> P j} else {j. j < k \<and> P j})" for P
    by (auto simp: less_Suc_eq)
  then show ?thesis by (simp add: visits_def)
qed

lemma visits_reach: "q < visits m orgs envs ro g K \<Longrightarrow>
   \<exists>k < K. visits m orgs envs ro g k = q \<and> visited m orgs (after_ticks m orgs envs k ro) g"
proof (induction K)
  case (Suc K)
  show ?case
  proof (cases "q < visits m orgs envs ro g K")
    case True
    with Suc.IH show ?thesis by (meson less_SucI)
  next
    case False
    with Suc.prems show ?thesis by (intro exI [of _ K]) (auto simp: visits_Suc split: if_splits)
  qed
qed simp

lemma org_cursor_after:
  assumes "orgs \<noteq> []" "0 < m"
  shows "ro_orgCursor (after_ticks m orgs envs k ro) mod length orgs = (ro_orgCursor ro + k) mod length orgs"
proof (induction k)
  case (Suc k)
  then have "Suc (ro_orgCursor (after_ticks m orgs envs k ro)) mod length orgs = Suc (ro_orgCursor ro + k) mod length orgs"
    by (metis mod_Suc_eq)
  with assms show ?case by (simp add: tick_targets_def case_prod_beta slice_parts(3))
qed simp

lemma env_cursor_after:
  assumes "orgs \<noteq> []" "0 < m" "distinct orgs" "envs g \<noteq> []"
  shows "env_cursor g (after_ticks m orgs envs k ro) mod length (envs g) = (env_cursor g ro + visits m orgs envs ro g k) mod length (envs g)"
proof (induction k)
  case (Suc k)
  let ?ro = "after_ticks m orgs envs k ro"
  note sl = slice_parts [OF assms(1,2), of ?ro]
  have eq: "env_cursor g (after_ticks m orgs envs (Suc k) ro) =
      env_cursor g (snd (pick_targets envs (fst (takeOrgSlice m orgs ?ro)) (snd (takeOrgSlice m orgs ?ro))))"
    using assms(1) by (simp add: tick_targets_def case_prod_beta)
  show ?case
  proof (cases "visited m orgs ?ro g")
    case True
    then have "g \<in> set (fst (takeOrgSlice m orgs ?ro))" by (simp add: visited_def)
    from pick_targets_visit [where envs = envs, OF this sl(2) [OF assms(3)] assms(4)] eq sl(4)
    have "env_cursor g (after_ticks m orgs envs (Suc k) ro) = (env_cursor g ?ro + 1) mod length (envs g)" by simp
    with True Suc show ?thesis by (simp add: visits_Suc) (metis mod_Suc_eq)
  next
    case False
    with eq sl(4) Suc show ?thesis by (simp add: visited_def visits_Suc pick_targets_other)
  qed
qed simp

text \<open>Each round of as many ticks as there are organizations visits each of them.\<close>

lemma round_visits:
  assumes "distinct orgs" "0 < m" "g \<in> set orgs"
  shows "\<exists>k. j * length orgs \<le> k \<and> k < Suc j * length orgs \<and> visited m orgs (after_ticks m orgs envs k ro) g"
proof -
  let ?n = "length orgs"
  have o: "orgs \<noteq> []" and n: "0 < ?n" using assms(3) by auto
  from assms(3) obtain i where i: "i < ?n" "sort orgs ! i = g" by (metis in_set_conv_nth length_sort set_sort)
  define d where "d = (i + ?n - ro_orgCursor ro mod ?n) mod ?n"
  have d: "d < ?n" unfolding d_def using n by simp
  have "(ro_orgCursor ro + (j * ?n + d)) mod ?n = (ro_orgCursor ro mod ?n + (i + ?n - ro_orgCursor ro mod ?n)) mod ?n"
  proof -
    have "(ro_orgCursor ro + (j * ?n + d)) mod ?n = (ro_orgCursor ro + d + j * ?n) mod ?n" by (simp add: ac_simps)
    also have "\<dots> = (ro_orgCursor ro + d) mod ?n" by simp
    finally show ?thesis unfolding d_def by (simp add: mod_simps)
  qed
  also have "ro_orgCursor ro mod ?n + (i + ?n - ro_orgCursor ro mod ?n) = i + ?n" using n by (simp add: less_imp_le trans_le_add2)
  finally have "(ro_orgCursor ro + (j * ?n + d)) mod ?n = i" using i(1) by simp
  then have "ro_orgCursor (after_ticks m orgs envs (j * ?n + d) ro) mod ?n = i" using org_cursor_after [OF o assms(2)] by simp
  with slice_parts(1) [OF o assms(2), of "after_ticks m orgs envs (j * ?n + d) ro"] i(2)
  have "visited m orgs (after_ticks m orgs envs (j * ?n + d) ro) g" by (simp add: visited_def)
  with d show ?thesis by (intro exI [of _ "j * ?n + d"]) simp
qed

lemma rounds_count:
  assumes "distinct orgs" "0 < m" "g \<in> set orgs"
  shows "j \<le> visits m orgs envs ro g (j * length orgs)"
proof (induction j)
  case (Suc j)
  let ?A = "\<lambda>k. {i. i < k \<and> visited m orgs (after_ticks m orgs envs i ro) g}"
  from round_visits [OF assms, of j envs ro] obtain k
    where k: "j * length orgs \<le> k" "k < Suc j * length orgs" "visited m orgs (after_ticks m orgs envs k ro) g" by blast
  then have "insert k (?A (j * length orgs)) \<subseteq> ?A (Suc j * length orgs)" by auto
  then have "card (insert k (?A (j * length orgs))) \<le> card (?A (Suc j * length orgs))" by (intro card_mono) auto
  moreover have "k \<notin> ?A (j * length orgs)" using k(1) by simp
  ultimately show ?case using Suc by (simp add: visits_def)
qed simp

text \<open>
  C26. The rotation starves nobody: while the organizations and their environments stay the same, every
  environment is a target within as many ticks as there are organizations times environments of its
  organization, whatever the cursors were and however few organizations a tick takes.
\<close>

theorem every_environment_served:
  assumes "distinct orgs" "0 < m" "g \<in> set orgs" "e \<in> set (envs g)"
  shows "\<exists>k < length orgs * length (envs g). e \<in> set (fst (tick_targets m orgs envs (after_ticks m orgs envs k ro)))"
proof -
  let ?L = "length (envs g)"
  have o: "orgs \<noteq> []" and L: "envs g \<noteq> []" "0 < ?L" using assms(3,4) by auto
  from assms(4) obtain t where t: "t < ?L" "sort (envs g) ! t = e" by (metis in_set_conv_nth length_sort set_sort)
  define q where "q = (t + ?L - env_cursor g ro mod ?L) mod ?L"
  have "q < ?L" unfolding q_def using L(2) by simp
  with rounds_count [OF assms(1-3), of ?L envs ro] have "q < visits m orgs envs ro g (?L * length orgs)" by simp
  from visits_reach [OF this] obtain k
    where k: "k < ?L * length orgs" "visits m orgs envs ro g k = q" "visited m orgs (after_ticks m orgs envs k ro) g" by blast
  let ?ro = "after_ticks m orgs envs k ro"
  have "(env_cursor g ro + q) mod ?L = (env_cursor g ro mod ?L + (t + ?L - env_cursor g ro mod ?L)) mod ?L"
    unfolding q_def by (simp add: mod_simps)
  also have "env_cursor g ro mod ?L + (t + ?L - env_cursor g ro mod ?L) = t + ?L" using L(2) by (simp add: less_imp_le trans_le_add2)
  finally have "env_cursor g ?ro mod ?L = t" using env_cursor_after [where envs = envs, OF o assms(2,1) L(1), of k ro] k(2) t(1) by simp
  moreover from k(3) have "g \<in> set (fst (takeOrgSlice m orgs ?ro))" by (simp add: visited_def)
  note pick_targets_visit [where envs = envs, OF this slice_parts(2) [OF o assms(2,1)] L(1), of "snd (takeOrgSlice m orgs ?ro)"]
  ultimately have "e \<in> set (fst (tick_targets m orgs envs ?ro))"
    using o t(2) slice_parts(4) [OF o assms(2), of ?ro] by (simp add: tick_targets_def case_prod_beta)
  with k(1) show ?thesis by (metis mult.commute)
qed

section \<open>The properties at a concrete drainer\<close>

definition example_drainer :: "bool drainer_options" where
  "example_drainer = \<lparr>dr_isRetryable = id, dr_maxAttempts = 3, dr_maxOrgsPerTick = 1, dr_drainBatchSize = 2,
     dr_onTerminalFailure = True, dr_parseError = False, dr_graceTtlSeconds = 30\<rparr>"

definition example_events :: "(unit, bool) drain_event list" where
  "example_events = [Serve (AcceptRun ''r1'' ''e1'' ''o1'' Unreadable []), Serve (AcceptRun ''r2'' ''e1'' ''o1'' Unreadable []), DrainPop ''e1'']"

theorem run_drained_by_one_witness:
  "''r1'' \<notin> set (mo_queue (ds_store (foldl (drain_step id example_drainer) idle_drains example_events)) ''e1'')"
  by (rule run_drained_by_one [of example_events "''r1''" id example_drainer "''e1''", THEN conjunct2]; code_simp)

theorem buffered_run_kept_witness:
  "\<exists>y. mo_entries (ds_store (drain_step id example_drainer (foldl (drain_step id example_drainer) idle_drains example_events)
      (DrainPop ''e1''))) ''r2'' = Some y \<and> \<not> me_materialised y"
  by (rule buffered_run_kept [of example_events id example_drainer "''r2''" "new_entry ''r2'' ''e1'' ''o1'' Unreadable [] 0" "DrainPop ''e1''", THEN conjunct2])
    (simp_all, code_simp+)

theorem crashed_run_stranded_witness:
  "''r1'' \<notin> set (runs_of (listEntriesForEnv ''e1'' 10
      (ds_store (foldl (drain_step id example_drainer) idle_drains (example_events @ Crash ''r1'' # [Serve (Pass 1000), DrainPop ''e1''])))))"
  by (rule crashed_run_stranded [of example_events "''r1''" id example_drainer "[Serve (Pass 1000), DrainPop ''e1'']" "''e1''" 10,
        THEN conjunct2, THEN conjunct2, THEN conjunct2]; code_simp)

theorem every_environment_served_witness:
  "\<exists>k < 4. ''e2'' \<in> set (fst (tick_targets 1 [''o1'', ''o2''] (\<lambda>_. [''e1'', ''e2'']) (after_ticks 1 [''o1'', ''o2''] (\<lambda>_. [''e1'', ''e2'']) k fresh_rotation)))"
  using every_environment_served [of "[''o1'', ''o2'']" 1 "''o2''" "''e2''" "\<lambda>_. [''e1'', ''e2'']" fresh_rotation]
  by (simp add: eval_nat_numeral)

end
