(* ===== verification/QueueSelection.thy ===== *)
theory QueueSelection
  imports RunQueue "HOL-Library.Multiset"
begin

text \<open>
  Which queues are served, and in which order
  (\<open>internal-packages/run-engine/src/run-queue/fairQueueSelectionStrategy.ts\<close>), and the loop over
  them that moves messages to the worker queues (\<open>#processMasterQueueShard\<close> of \<open>run-queue/index.ts\<close>),
  with the cooloff of queues that had nothing to give.

  The random numbers are a stream, an argument, with the position up to which it was used; they
  and the weights are real numbers, where the code's are rounded. The concurrency limits are read
  through a cache, whose answers are an argument. A division \<open>0 / 0\<close> of the code, of which every comparison
  is false, is written out where it can happen.
\<close>

section \<open>Random orders\<close>

text \<open>How many items the inner loops step over; they take the last of them, or the first item.\<close>

fun overshoot :: "real \<Rightarrow> real list \<Rightarrow> nat" where
  "overshoot random [] = 0"
| "overshoot random (w # ws) = (if random > 0 then Suc (overshoot (random - w) ws) else 0)"

definition without_nth :: "nat \<Rightarrow> 'a list \<Rightarrow> 'a list" where
  "without_nth i xs = take i xs @ drop (Suc i) xs"

text \<open>At most \<open>k\<close> draws, each from what is left, by weight.\<close>

fun weighted_draws :: "(nat \<Rightarrow> real) \<Rightarrow> nat \<Rightarrow> ('a \<times> real) list \<Rightarrow> real \<Rightarrow> nat \<Rightarrow> 'a list \<times> nat" where
  "weighted_draws rng 0 items totalWeight n = ([], n)"
| "weighted_draws rng (Suc k) items totalWeight n =
     (if items = [] then ([], n)
      else let index = overshoot (rng n * totalWeight) (map snd items) - 1 in
           case weighted_draws rng k (without_nth index items) (totalWeight - snd (items ! index)) (Suc n) of
             (xs, n') \<Rightarrow> (fst (items ! index) # xs, n'))"

definition weightedShuffle :: "(nat \<Rightarrow> real) \<Rightarrow> (string \<times> real) list \<Rightarrow> nat \<Rightarrow> string list \<times> nat" where
  "weightedShuffle rng items n = weighted_draws rng (length items) items (sum_list (map snd items)) n"

fun shuffle_from :: "(nat \<Rightarrow> real) \<Rightarrow> nat \<Rightarrow> 'a list \<Rightarrow> nat \<Rightarrow> 'a list \<times> nat" where
  "shuffle_from rng 0 xs n = (xs, n)"
| "shuffle_from rng (Suc currentIndex) xs n =
     (let randomIndex = nat \<lfloor>rng n * of_nat (Suc currentIndex)\<rfloor> in
      shuffle_from rng currentIndex (xs[currentIndex := xs ! randomIndex, randomIndex := xs ! currentIndex]) (Suc n))"

definition shuffle_list :: "(nat \<Rightarrow> real) \<Rightarrow> 'a list \<Rightarrow> nat \<Rightarrow> 'a list \<times> nat" where
  "shuffle_list rng xs n = shuffle_from rng (length xs) xs n"

section \<open>The snapshot\<close>

record selection_biases =
  sb_concurrencyLimitBias :: real
  sb_availableCapacityBias :: real
  sb_queueAgeRandomization :: real

record selection_options =
  so_defaultEnvConcurrencyLimit :: rat
  so_parentQueueLimit :: nat
  so_biases :: "selection_biases option"
  so_reuseSnapshotCount :: nat
  so_maximumEnvCount :: nat

definition defaultBiases :: selection_biases where
  "defaultBiases = \<lparr>sb_concurrencyLimitBias = 0, sb_availableCapacityBias = 0, sb_queueAgeRandomization = 0\<rparr>"

record fair_queue =
  fq_id :: string
  fq_age :: int
  fq_org :: string
  fq_env :: string
  fq_project :: string

record queue_concurrency =
  fc_current :: nat
  fc_limit :: int

record queue_snapshot =
  qs_envs :: "(string \<times> queue_concurrency) list"
  qs_queues :: "fair_queue list"

definition emptyFairQueueSnapshot :: queue_snapshot where
  "emptyFairQueueSnapshot = \<lparr>qs_envs = [], qs_queues = []\<rparr>"

definition allChildQueuesByScore :: "selection_options \<Rightarrow> string \<Rightarrow> int \<Rightarrow> 'm redis \<Rightarrow> fair_queue list" where
  "allChildQueuesByScore SO parentQueue now r =
     map (\<lambda>(queue, score). \<lparr>fq_id = queue, fq_age = now - score, fq_org = orgIdFromQueue queue,
         fq_env = envIdFromQueue queue, fq_project = projectIdFromQueue queue\<rparr>)
       (zrangebyscore now (so_parentQueueLimit SO) (r_zsets r parentQueue))"

text \<open>The values in the order of their first occurrence, as the keys of an object or a set have it.\<close>

definition firsts :: "'a list \<Rightarrow> 'a list" where
  "firsts xs = rev (remdups (rev xs))"

definition queues_of_env :: "string \<Rightarrow> fair_queue list \<Rightarrow> fair_queue list" where
  "queues_of_env envId queues = filter (\<lambda>q. fq_env q = envId) queues"

definition average_age :: "fair_queue list \<Rightarrow> real" where
  "average_age queues = of_int (sum_list (map fq_age queues)) / of_nat (length queues)"

definition selectTopEnvs :: "(nat \<Rightarrow> real) \<Rightarrow> fair_queue list \<Rightarrow> nat \<Rightarrow> nat \<Rightarrow> string list \<times> nat" where
  "selectTopEnvs rng queues maximumEnvCount n =
     (let envs = firsts (map fq_env queues);
          averages = map (\<lambda>e. average_age (queues_of_env e queues)) envs;
          maxAge = Max (set averages) in
      if maxAge = 0 then (take maximumEnvCount envs, n + min maximumEnvCount (length envs))
      else let items = zip envs (map (\<lambda>a. a / maxAge) averages) in
           weighted_draws rng maximumEnvCount items (sum_list (map snd items)) n)"

definition envDescriptorFromFairQueue :: "fair_queue \<Rightarrow> env_descriptor" where
  "envDescriptorFromFairQueue q = \<lparr>ed_orgId = fq_org q, ed_projectId = fq_project q, ed_envId = fq_env q\<rparr>"

text \<open>What \<open>getEnvConcurrencyLimit\<close> reads when the cache has nothing.\<close>

definition fresh_limit :: "selection_options \<Rightarrow> 'm redis \<Rightarrow> string \<Rightarrow> rat" where
  "fresh_limit SO r key = limit_or key (so_defaultEnvConcurrencyLimit SO) r"

definition readEnvConcurrency :: "(string \<Rightarrow> rat) \<Rightarrow> env_descriptor \<Rightarrow> 'm redis \<Rightarrow> queue_concurrency" where
  "readEnvConcurrency limits env r =
     \<lparr>fc_current = length (r_sets r (envCurrentConcurrencyKey env)),
      fc_limit = \<lfloor>limits (envConcurrencyLimitKey env) * limit_or (envConcurrencyLimitBurstFactorKey env) 1 r\<rfloor>\<rparr>"

definition env_concurrencies :: "(string \<Rightarrow> rat) \<Rightarrow> fair_queue list \<Rightarrow> 'm redis \<Rightarrow> (string \<times> queue_concurrency) list" where
  "env_concurrencies limits queues r =
     map (\<lambda>e. (e, readEnvConcurrency limits (envDescriptorFromFairQueue (last (queues_of_env e queues))) r))
       (firsts (map fq_env queues))"

definition at_full_concurrency :: "queue_concurrency \<Rightarrow> bool" where
  "at_full_concurrency c = (int (fc_current c) \<ge> fc_limit c)"

definition take_snapshot :: "(string \<Rightarrow> rat) \<Rightarrow> fair_queue list \<Rightarrow> 'm redis \<Rightarrow> queue_snapshot" where
  "take_snapshot limits queues r =
     (let envs = env_concurrencies limits queues r;
          full = map fst (filter (\<lambda>(_, c). at_full_concurrency c) envs) in
      \<lparr>qs_envs = filter (\<lambda>(e, _). e \<notin> set full) envs, qs_queues = filter (\<lambda>q. fq_env q \<notin> set full) queues\<rparr>)"

text \<open>What a strategy keeps: the snapshots of its consumers with the count of their reuses, and the stream.\<close>

record selector =
  sl_reused :: "string \<Rightarrow> (queue_snapshot \<times> nat) option"
  sl_draws :: nat

definition createQueueSnapshot ::
    "selection_options \<Rightarrow> (nat \<Rightarrow> real) \<Rightarrow> (string \<Rightarrow> rat) \<Rightarrow> string \<Rightarrow> string \<Rightarrow> int \<Rightarrow> 'm redis \<Rightarrow> selector \<Rightarrow>
     queue_snapshot \<times> selector" where
  "createQueueSnapshot SO rng limits parentQueue consumerId now r sl =
     (let key = parentQueue @ '':'' @ consumerId;
          reusable = (if so_reuseSnapshotCount SO > 0 then sl_reused sl key else None);
          fresh = (\<lambda>sl. let queues = allChildQueuesByScore SO parentQueue now r in
            if queues = [] then (emptyFairQueueSnapshot, sl)
            else (let (selected, n) = (if so_maximumEnvCount SO > 0 then selectTopEnvs rng queues (so_maximumEnvCount SO) (sl_draws sl)
                                       else (map fq_env queues, sl_draws sl));
                      snapshot = take_snapshot limits (filter (\<lambda>q. fq_env q \<in> set selected) queues) r
                  in (snapshot, sl\<lparr>sl_draws := n,
                        sl_reused := (if so_reuseSnapshotCount SO > 0 then (sl_reused sl)(key \<mapsto> (snapshot, 0)) else sl_reused sl)\<rparr>)))
      in case reusable of
           Some (snapshot, reuseCount) \<Rightarrow>
             if reuseCount < so_reuseSnapshotCount SO
             then (snapshot, sl\<lparr>sl_reused := (sl_reused sl)(key \<mapsto> (snapshot, reuseCount + 1))\<rparr>)
             else fresh (sl\<lparr>sl_reused := (sl_reused sl)(key := None)\<rparr>)
         | None \<Rightarrow> fresh sl)"

section \<open>The order of the queues\<close>

definition weightedRandomQueueOrder ::
    "selection_options \<Rightarrow> (nat \<Rightarrow> real) \<Rightarrow> fair_queue list \<Rightarrow> nat \<Rightarrow> fair_queue list \<times> nat" where
  "weightedRandomQueueOrder SO rng queues n =
     (let randomization = sb_queueAgeRandomization (or_default (so_biases SO) defaultBiases);
          maxAge = Max (set (map fq_age queues)) in
      if length queues \<le> 1 then (queues, n)
      else if randomization = 0 then (sort_key (\<lambda>q. - fq_age q) queues, n)
      else if maxAge = 0 then (queues, n + length queues)
      else let items = map (\<lambda>q. (q, 1 + of_int (fq_age q) / of_int maxAge * randomization)) queues in
           weighted_draws rng (length items) items (sum_list (map snd items)) n)"

fun orderQueuesByEnvs ::
    "selection_options \<Rightarrow> (nat \<Rightarrow> real) \<Rightarrow> string list \<Rightarrow> fair_queue list \<Rightarrow> nat \<Rightarrow> (string \<times> string list) list \<times> nat" where
  "orderQueuesByEnvs SO rng [] queues n = ([], n)"
| "orderQueuesByEnvs SO rng (envId # envs) queues n =
     (if queues_of_env envId queues = [] then orderQueuesByEnvs SO rng envs queues n
      else (case weightedRandomQueueOrder SO rng (queues_of_env envId queues) n of
              (ordered, n1) \<Rightarrow>
                (case orderQueuesByEnvs SO rng envs queues n1 of
                   (others, n2) \<Rightarrow> ((envId, map fq_id ordered) # others, n2))))"

definition env_weight :: "selection_biases \<Rightarrow> int \<Rightarrow> queue_concurrency \<Rightarrow> real" where
  "env_weight biases maxLimit c =
     (if sb_concurrencyLimitBias biases > 0
      then 1 + (of_int (fc_limit c) / of_int maxLimit * sb_concurrencyLimitBias biases) ^ 2 else 1)
     * (if sb_availableCapacityBias biases > 0
        then 1 + ((1 - of_nat (fc_current c) / of_int (fc_limit c)) * sb_availableCapacityBias biases) ^ 2 else 1)"

definition shuffleQueuesByEnv ::
    "selection_options \<Rightarrow> (nat \<Rightarrow> real) \<Rightarrow> queue_snapshot \<Rightarrow> nat \<Rightarrow> (string \<times> string list) list \<times> nat" where
  "shuffleQueuesByEnv SO rng snapshot n =
     (let biases = or_default (so_biases SO) defaultBiases;
          envs = qs_envs snapshot;
          (shuffledEnvs, n1) =
            (if sb_concurrencyLimitBias biases = 0 \<and> sb_availableCapacityBias biases = 0
             then shuffle_list rng (map fst envs) n
             else weightedShuffle rng
                    (map (\<lambda>(e, c). (e, env_weight biases (Max (set (map (fc_limit \<circ> snd) envs))) c)) envs) n)
      in orderQueuesByEnvs SO rng shuffledEnvs (qs_queues snapshot) n1)"

definition distributeFairQueuesFromParentQueue ::
    "selection_options \<Rightarrow> (nat \<Rightarrow> real) \<Rightarrow> (string \<Rightarrow> rat) \<Rightarrow> string \<Rightarrow> string \<Rightarrow> int \<Rightarrow> 'm redis \<Rightarrow> selector \<Rightarrow>
     (string \<times> string list) list \<times> selector" where
  "distributeFairQueuesFromParentQueue SO rng limits parentQueue consumerId now r sl =
     (case createQueueSnapshot SO rng limits parentQueue consumerId now r sl of
        (snapshot, sl1) \<Rightarrow>
          if qs_queues snapshot = [] then ([], sl1)
          else (case shuffleQueuesByEnv SO rng snapshot (sl_draws sl1) of (envQueues, n) \<Rightarrow> (envQueues, sl1\<lparr>sl_draws := n\<rparr>)))"

section \<open>Serving the queues\<close>

datatype queue_cooloff = Normal nat | Cooloff int

record cooloff_options =
  co_countThreshold :: int
  co_periodMs :: int

text \<open>\<open>processMasterQueueShard\<close> for one queue: the state of its cooloff, and what is dequeued.\<close>

definition cooled :: "int \<Rightarrow> queue_cooloff option \<Rightarrow> bool" where
  "cooled now c = (case c of Some (Cooloff expiresAt) \<Rightarrow> expiresAt > now | _ \<Rightarrow> False)"

definition next_cooloff :: "cooloff_options \<Rightarrow> int \<Rightarrow> bool \<Rightarrow> queue_cooloff option \<Rightarrow> queue_cooloff option" where
  "next_cooloff CO now found c =
     (if found then None
      else (case (case c of None \<Rightarrow> Normal 0 | Some s \<Rightarrow> s) of
              Cooloff expiresAt \<Rightarrow> None
            | Normal failures \<Rightarrow>
                if int failures \<ge> max 1 (co_countThreshold CO) then Some (Cooloff (now + co_periodMs CO))
                else Some (Normal (failures + 1))))"

definition dequeue_any ::
    "queue_options \<Rightarrow> int \<Rightarrow> string \<Rightarrow> nat \<Rightarrow> nat \<Rightarrow> message redis \<Rightarrow> (string \<times> int \<times> message) list \<times> message redis" where
  "dequeue_any cfg now queue n maxCount r =
     (if isCkWildcard queue then callDequeueMessagesFromCkQueue cfg now queue n maxCount r
      else callDequeueMessagesFromQueue cfg now queue n maxCount r)"

fun serve_queues ::
    "queue_options \<Rightarrow> cooloff_options \<Rightarrow> int \<Rightarrow> nat \<Rightarrow> nat \<Rightarrow> string list \<Rightarrow> (string \<Rightarrow> queue_cooloff option) \<times> message redis \<Rightarrow>
     (string \<Rightarrow> queue_cooloff option) \<times> message redis" where
  "serve_queues cfg CO now n maxCount [] s = s"
| "serve_queues cfg CO now n maxCount (queue # queues) (cooloffs, r) =
     (if cooled now (cooloffs queue) then serve_queues cfg CO now n maxCount queues (cooloffs, r)
      else (case dequeue_any cfg now queue n maxCount r of
              (messages, r1) \<Rightarrow>
                serve_queues cfg CO now n maxCount queues
                  (cooloffs(queue := next_cooloff CO now (messages \<noteq> []) (cooloffs queue)),
                   enqueueMessagesToWorkerQueues cfg messages r1)))"

definition processMasterQueueShard ::
    "queue_options \<Rightarrow> selection_options \<Rightarrow> cooloff_options \<Rightarrow> (nat \<Rightarrow> real) \<Rightarrow> (string \<Rightarrow> rat) \<Rightarrow> string \<Rightarrow> int \<Rightarrow> nat \<Rightarrow> nat \<Rightarrow>
     selector \<times> (string \<Rightarrow> queue_cooloff option) \<times> message redis \<Rightarrow> selector \<times> (string \<Rightarrow> queue_cooloff option) \<times> message redis" where
  "processMasterQueueShard cfg SO CO rng limits consumerId now n maxCount s =
     (case s of (sl, cooloffs, r) \<Rightarrow>
      case distributeFairQueuesFromParentQueue SO rng limits (masterQueueKeyForShard n) consumerId now r sl of
        (envQueues, sl1) \<Rightarrow> (sl1, serve_queues cfg CO now n maxCount (concat (map snd envQueues)) (cooloffs, r)))"

end
