(* ===== verification/QueueSelectionOutcomes.thy ===== *)
theory QueueSelectionOutcomes
  imports QueueSelection
begin

text \<open>
  The selection of queues is complete and fair: whatever the random numbers are, every due queue that is
  read, of a chosen environment that has capacity, is served, once, and no other is.
\<close>

lemma overshoot_le: "overshoot random ws \<le> length ws"
  by (induction random ws rule: overshoot.induct) auto

lemma mset_without_nth: "i < length xs \<Longrightarrow> add_mset (xs ! i) (mset (without_nth i xs)) = mset xs"
  by (metis (no_types, lifting) add_mset_add_single id_take_nth_drop mset.simps(2) mset_append union_mset_add_mset_right without_nth_def)

lemma length_without_nth: "i < length xs \<Longrightarrow> length (without_nth i xs) = length xs - 1"
  by (simp add: without_nth_def)

lemma draws_permute:
  assumes "length items \<le> k"
  shows "mset (fst (weighted_draws rng k items totalWeight n)) = mset (map fst items)"
  using assms
proof (induction k arbitrary: items totalWeight n)
  case (Suc k)
  show ?case
  proof (cases "items = []")
    case False
    let ?i = "overshoot (rng n * totalWeight) (map snd items) - 1"
    have i: "?i < length items" using overshoot_le [of "rng n * totalWeight" "map snd items"] False by (cases items) auto
    with Suc.prems have "mset (fst (weighted_draws rng k (without_nth ?i items) (totalWeight - snd (items ! ?i)) (Suc n))) = mset (map fst (without_nth ?i items))"
      by (intro Suc.IH) (simp add: length_without_nth)
    moreover have "image_mset fst (add_mset (items ! ?i) (mset (without_nth ?i items))) = image_mset fst (mset items)"
      using mset_without_nth [OF i] by simp
    ultimately show ?thesis using False by (simp add: Let_def case_prod_beta)
  qed simp
qed simp

lemma shuffle_permutes:
  assumes "\<And>k. rng k < 1" "c \<le> length xs"
  shows "mset (fst (shuffle_from rng c xs n)) = mset xs"
  using assms(2)
proof (induction c arbitrary: xs n)
  case (Suc c)
  let ?j = "nat \<lfloor>rng n * of_nat (Suc c)\<rfloor>"
  have "rng n * of_nat (Suc c) < of_nat (Suc c)" using assms(1) [of n] by simp
  then have "\<lfloor>rng n * of_nat (Suc c)\<rfloor> < int (Suc c)" by (simp add: floor_less_iff)
  then have j: "?j < Suc c" by linarith
  have "mset (fst (shuffle_from rng c (xs[c := xs ! ?j, ?j := xs ! c]) (Suc n))) = mset (xs[c := xs ! ?j, ?j := xs ! c])"
    using Suc.prems by (intro Suc.IH) simp
  also have "\<dots> = mset xs" using Suc.prems j by (intro mset_swap) simp_all
  finally show ?case by (simp add: Let_def)
qed simp

lemma order_permutes: "mset (fst (weightedRandomQueueOrder SO rng queues n)) = mset queues"
  by (simp add: weightedRandomQueueOrder_def Let_def draws_permute comp_def)

lemma order_by_age:
  assumes "sb_queueAgeRandomization (or_default (so_biases SO) defaultBiases) = 0"
  shows "fst (weightedRandomQueueOrder SO rng queues n) = sort_key (\<lambda>q. - fq_age q) queues"
proof (cases "length queues \<le> 1")
  case True
  then have "queues = [] \<or> (\<exists>q. queues = [q])" by (cases queues) auto
  then show ?thesis by (auto simp: weightedRandomQueueOrder_def Let_def)
qed (simp add: weightedRandomQueueOrder_def Let_def assms)

text \<open>What the environments in their order come to.\<close>

lemma ordered_envs: "map fst (fst (orderQueuesByEnvs SO rng envs queues n)) = filter (\<lambda>e. queues_of_env e queues \<noteq> []) envs"
  by (induction envs arbitrary: n) (auto simp: case_prod_beta)

lemma ordered_queues:
  "(e, qs) \<in> set (fst (orderQueuesByEnvs SO rng envs queues n)) \<Longrightarrow>
   \<exists>m. qs = map fq_id (fst (weightedRandomQueueOrder SO rng (queues_of_env e queues) m))"
  by (induction envs arbitrary: n) (auto simp: case_prod_beta split: if_splits)

lemma split_envs: "e \<notin> E \<Longrightarrow>
   mset (filter (\<lambda>q. fq_env q \<in> insert e E) queues) = mset (queues_of_env e queues) + mset (filter (\<lambda>q. fq_env q \<in> E) queues)"
  by (induction queues) (auto simp: queues_of_env_def)

lemma ordered_all:
  "distinct envs \<Longrightarrow> mset (concat (map snd (fst (orderQueuesByEnvs SO rng envs queues n)))) = mset (map fq_id (filter (\<lambda>q. fq_env q \<in> set envs) queues))"
proof (induction envs arbitrary: n)
  case (Cons e envs)
  have "image_mset fq_id (mset (filter (\<lambda>q. fq_env q \<in> set (e # envs)) queues)) =
      image_mset fq_id (mset (queues_of_env e queues)) + image_mset fq_id (mset (filter (\<lambda>q. fq_env q \<in> set envs) queues))"
    using split_envs [of e "set envs" queues] Cons.prems by (simp add: image_mset_union del: mset_filter)
  with Cons show ?case by (auto simp: case_prod_beta order_permutes simp del: mset_filter)
qed simp

section \<open>The snapshot\<close>

lemma set_firsts [simp]: "set (firsts xs) = set xs" and distinct_firsts [simp]: "distinct (firsts xs)"
  by (simp_all add: firsts_def)

definition env_has_capacity :: "(string \<Rightarrow> rat) \<Rightarrow> fair_queue list \<Rightarrow> 'm redis \<Rightarrow> string \<Rightarrow> bool" where
  "env_has_capacity limits queues r e =
     (\<not> at_full_concurrency (readEnvConcurrency limits (envDescriptorFromFairQueue (last (queues_of_env e queues))) r))"

lemma full_envs:
  "e \<in> set (map fst (filter (\<lambda>(_, c). at_full_concurrency c) (env_concurrencies limits queues r))) \<longleftrightarrow>
   e \<in> fq_env ` set queues \<and> \<not> env_has_capacity limits queues r e"
  by (force simp: env_concurrencies_def env_has_capacity_def)

lemma snapshot_envs: "map fst (qs_envs (take_snapshot limits queues r)) = filter (env_has_capacity limits queues r) (firsts (map fq_env queues))"
proof -
  let ?full = "set (map fst (filter (\<lambda>(_, c). at_full_concurrency c) (env_concurrencies limits queues r)))"
  have "map fst (qs_envs (take_snapshot limits queues r)) = map fst (filter (\<lambda>(e, _). e \<notin> ?full) (env_concurrencies limits queues r))"
    by (simp only: take_snapshot_def Let_def queue_snapshot.simps)
  also have "\<dots> = filter (\<lambda>e. e \<notin> ?full) (firsts (map fq_env queues))"
    by (simp only: env_concurrencies_def [of limits queues r] filter_map map_map comp_def fst_conv prod.case list.map_ident)
  also have "\<dots> = filter (env_has_capacity limits queues r) (firsts (map fq_env queues))"
    unfolding full_envs by (intro filter_cong) auto
  finally show ?thesis .
qed

lemma snapshot_queues: "qs_queues (take_snapshot limits queues r) = filter (\<lambda>q. env_has_capacity limits queues r (fq_env q)) queues"
proof -
  have "qs_queues (take_snapshot limits queues r) =
      filter (\<lambda>q. fq_env q \<notin> set (map fst (filter (\<lambda>(_, c). at_full_concurrency c) (env_concurrencies limits queues r)))) queues"
    by (simp only: take_snapshot_def Let_def queue_snapshot.simps)
  also have "\<dots> = filter (\<lambda>q. env_has_capacity limits queues r (fq_env q)) queues"
    unfolding full_envs by (intro filter_cong) auto
  finally show ?thesis .
qed

lemma shuffled_envs:
  assumes "\<And>k. rng k < 1"
  shows "\<exists>envs m. mset envs = mset (map fst (qs_envs snapshot)) \<and>
    fst (shuffleQueuesByEnv SO rng snapshot n) = fst (orderQueuesByEnvs SO rng envs (qs_queues snapshot) m)"
proof -
  have "mset (fst (shuffle_list rng (map fst (qs_envs snapshot)) n)) = mset (map fst (qs_envs snapshot))"
    unfolding shuffle_list_def by (rule shuffle_permutes [OF assms]) simp
  moreover have "mset (fst (weightedShuffle rng (map (\<lambda>(e, c). (e, f c)) (qs_envs snapshot)) n)) = mset (map fst (qs_envs snapshot))" for f
    by (simp add: weightedShuffle_def draws_permute comp_def case_prod_unfold)
  ultimately show ?thesis
    by (auto simp: shuffleQueuesByEnv_def Let_def case_prod_beta)
qed

text \<open>What is served of the queues of the chosen environments.\<close>

definition served :: "selection_options \<Rightarrow> (nat \<Rightarrow> real) \<Rightarrow> queue_snapshot \<Rightarrow> nat \<Rightarrow> (string \<times> string list) list" where
  "served SO rng snapshot n =
     (if qs_queues snapshot = [] then [] else fst (shuffleQueuesByEnv SO rng snapshot n))"

lemma served_queues:
  fixes r :: "'m redis" and SO rng limits queues n
  assumes "\<And>k. rng k < 1"
  defines "selected \<equiv> served SO rng (take_snapshot limits queues r) n"
  shows "distinct (map fst selected)"
    and "set (map fst selected) = {e \<in> fq_env ` set queues. env_has_capacity limits queues r e}"
    and "mset (concat (map snd selected)) = mset (map fq_id (filter (\<lambda>q. env_has_capacity limits queues r (fq_env q)) queues))"
    and "(e, qs) \<in> set selected \<Longrightarrow> \<exists>k. qs = map fq_id (fst (weightedRandomQueueOrder SO rng (queues_of_env e queues) k))"
proof -
  let ?snapshot = "take_snapshot limits queues r"
  have *: "distinct (map fst selected) \<and>
    set (map fst selected) = {e \<in> fq_env ` set queues. env_has_capacity limits queues r e} \<and>
    mset (concat (map snd selected)) = mset (map fq_id (filter (\<lambda>q. env_has_capacity limits queues r (fq_env q)) queues)) \<and>
    (\<forall>(e, qs) \<in> set selected. \<exists>k. qs = map fq_id (fst (weightedRandomQueueOrder SO rng (queues_of_env e queues) k)))"
  proof (cases "qs_queues ?snapshot = []")
    case True
    then have none: "filter (\<lambda>q. env_has_capacity limits queues r (fq_env q)) queues = []" by (simp add: snapshot_queues)
    then have "\<not> env_has_capacity limits queues r (fq_env q)" if "q \<in> set queues" for q
      using that by (auto simp: filter_empty_conv)
    with True none show ?thesis by (auto simp: selected_def served_def)
  next
    case False
    with shuffled_envs [where rng = rng and snapshot = ?snapshot and SO = SO and n = n, OF assms(1)] obtain envs m
      where envs: "mset envs = mset (filter (env_has_capacity limits queues r) (firsts (map fq_env queues)))"
        and sel: "selected = fst (orderQueuesByEnvs SO rng envs (qs_queues ?snapshot) m)"
      unfolding snapshot_envs selected_def served_def by auto
    have d: "distinct envs" and s: "set envs = {e \<in> fq_env ` set queues. env_has_capacity limits queues r e}"
      using mset_eq_imp_distinct_iff [OF envs] mset_eq_setD [OF envs] by auto
    have own: "queues_of_env e (qs_queues ?snapshot) = queues_of_env e queues" if "e \<in> set envs" for e
      using that unfolding s snapshot_queues queues_of_env_def by (auto intro!: filter_cong)
    have "filter (\<lambda>q. fq_env q \<in> set envs) (qs_queues ?snapshot) = qs_queues ?snapshot"
      unfolding s snapshot_queues by (auto intro!: filter_cong)
    with ordered_all [OF d, of SO rng "qs_queues ?snapshot" m] sel
    have "mset (concat (map snd selected)) = mset (map fq_id (qs_queues ?snapshot))" by simp
    moreover have "queues_of_env e (qs_queues ?snapshot) \<noteq> []" if "e \<in> set envs" for e
      using that own [OF that] s by (auto simp: queues_of_env_def filter_empty_conv)
    then have names: "map fst selected = envs" unfolding sel ordered_envs by (simp add: filter_id_conv)
    moreover have "\<exists>k. qs = map fq_id (fst (weightedRandomQueueOrder SO rng (queues_of_env e queues) k))" if "(e, qs) \<in> set selected" for e qs
    proof -
      have "e \<in> set (map fst selected)" using that by force
      then have "queues_of_env e (qs_queues ?snapshot) = queues_of_env e queues" by (simp add: names own del: set_map)
      with ordered_queues [of e qs SO rng envs "qs_queues ?snapshot" m] that sel show ?thesis by auto
    qed
    ultimately show ?thesis using d s by (auto simp: snapshot_queues)
  qed
  show "distinct (map fst selected)"
    and "set (map fst selected) = {e \<in> fq_env ` set queues. env_has_capacity limits queues r e}"
    and "mset (concat (map snd selected)) = mset (map fq_id (filter (\<lambda>q. env_has_capacity limits queues r (fq_env q)) queues))"
    and "(e, qs) \<in> set selected \<Longrightarrow> \<exists>k. qs = map fq_id (fst (weightedRandomQueueOrder SO rng (queues_of_env e queues) k))"
    using * by blast+
qed

text \<open>The environments a snapshot is taken of: as many as allowed, whatever was drawn.\<close>

lemma draws_within:
  "mset (fst (weighted_draws rng k items totalWeight n)) \<subseteq># mset (map fst items) \<and>
   length (fst (weighted_draws rng k items totalWeight n)) = min k (length items)"
proof (induction k arbitrary: items totalWeight n)
  case (Suc k)
  show ?case
  proof (cases "items = []")
    case False
    let ?i = "overshoot (rng n * totalWeight) (map snd items) - 1"
    let ?rest = "fst (weighted_draws rng k (without_nth ?i items) (totalWeight - snd (items ! ?i)) (Suc n))"
    have i: "?i < length items" using overshoot_le [of "rng n * totalWeight" "map snd items"] False by (cases items) auto
    have "add_mset (fst (items ! ?i)) (mset (map fst (without_nth ?i items))) = mset (map fst items)"
      using arg_cong [OF mset_without_nth [OF i], of "image_mset fst"] by simp
    moreover have "mset ?rest \<subseteq># mset (map fst (without_nth ?i items))" "length ?rest = min k (length items - 1)"
      using Suc.IH [of "without_nth ?i items" "totalWeight - snd (items ! ?i)" "Suc n", unfolded length_without_nth [OF i]] by blast+
    ultimately have "add_mset (fst (items ! ?i)) (mset ?rest) \<subseteq># mset (map fst items)" "Suc (length ?rest) = min (Suc k) (length items)"
      using i by (metis mset_subset_eq_add_mset_cancel, simp)
    then show ?thesis using False by (simp add: Let_def case_prod_beta)
  qed simp
qed simp

lemma top_envs:
  fixes queues n rng k
  defines "chosen \<equiv> fst (selectTopEnvs rng queues k n)"
  shows "set chosen \<subseteq> fq_env ` set queues \<and> card (set chosen) = min k (card (fq_env ` set queues))"
proof -
  let ?envs = "firsts (map fq_env queues)"
  have envs: "card (fq_env ` set queues) = length ?envs" using distinct_card [OF distinct_firsts, of "map fq_env queues"] by simp
  have "mset (take k ?envs) \<subseteq># mset ?envs" by (metis append_take_drop_id mset_append mset_subset_eq_add_left)
  moreover have "mset (fst (weighted_draws rng k (zip ?envs ws) tw n)) \<subseteq># mset ?envs"
      "length (fst (weighted_draws rng k (zip ?envs ws) tw n)) = min k (length ?envs)" if "length ws = length ?envs" for ws tw
    using draws_within [of rng k "zip ?envs ws" tw n] that by (simp_all del: mset_map)
  ultimately have sub: "mset chosen \<subseteq># mset ?envs" and len: "length chosen = min k (length ?envs)"
    unfolding chosen_def selectTopEnvs_def Let_def by (simp_all add: min.commute split: if_split)
  obtain others where "mset (chosen @ others) = mset ?envs" using sub by (metis ex_mset mset_append subset_mset.less_eqE)
  then have "distinct chosen" using mset_eq_imp_distinct_iff distinct_firsts by (metis distinct_append)
  moreover have "set chosen \<subseteq> set ?envs" using set_mset_mono [OF sub] by simp
  ultimately show ?thesis using distinct_card [of chosen] len envs by simp
qed

text \<open>
  C16. A round of selection that takes a new snapshot (the consumer has none left to use again) reads the
  due queues of the master queue, the first \<open>parentQueueLimit\<close> of them, and chooses among their
  environments as many as \<open>maximumEnvCount\<close> allows, or all where it is zero. For all random numbers
  below one, it serves each queue it read of a chosen environment with capacity exactly once, grouped by
  environment, and no queue of a full environment; without randomization the queues of an
  environment are served from the oldest on.
\<close>

theorem selection_complete:
  fixes r :: "'m redis" and SO rng limits parentQueue consumerId now sl
  assumes "\<And>k. rng k < 1"
    and "case sl_reused sl (parentQueue @ '':'' @ consumerId) of None \<Rightarrow> True | Some (_, uses) \<Rightarrow> so_reuseSnapshotCount SO \<le> uses"
  defines "queues \<equiv> allChildQueuesByScore SO parentQueue now r"
    and "selected \<equiv> fst (distributeFairQueuesFromParentQueue SO rng limits parentQueue consumerId now r sl)"
  shows "\<exists>chosen \<subseteq> fq_env ` set queues.
    card chosen = (if so_maximumEnvCount SO = 0 then id else min (so_maximumEnvCount SO)) (card (fq_env ` set queues)) \<and>
    distinct (map fst selected) \<and>
    set (map fst selected) = {e \<in> chosen. env_has_capacity limits queues r e} \<and>
    mset (concat (map snd selected))
      = mset (map fq_id (filter (\<lambda>q. fq_env q \<in> chosen \<and> env_has_capacity limits queues r (fq_env q)) queues)) \<and>
    (\<forall>(e, qs) \<in> set selected. mset qs = mset (map fq_id (queues_of_env e queues)) \<and>
      (sb_queueAgeRandomization (or_default (so_biases SO) defaultBiases) = 0 \<longrightarrow>
        qs = map fq_id (sort_key (\<lambda>q. - fq_age q) (queues_of_env e queues))))"
proof -
  define top where "top = (if so_maximumEnvCount SO > 0 then selectTopEnvs rng queues (so_maximumEnvCount SO) (sl_draws sl)
    else (map fq_env queues, sl_draws sl))"
  let ?own = "filter (\<lambda>q. fq_env q \<in> set (fst top)) queues"
  have top: "set (fst top) \<subseteq> fq_env ` set queues"
    "card (set (fst top)) = (if so_maximumEnvCount SO = 0 then id else min (so_maximumEnvCount SO)) (card (fq_env ` set queues))"
    using top_envs [of rng queues "so_maximumEnvCount SO" "sl_draws sl"] by (auto simp: top_def)
  have none: "qs_queues (take_snapshot limits [] r) = []" by (simp add: snapshot_queues)
  have sel: "selected = served SO rng (take_snapshot limits ?own r) (snd top)"
    using assms(2) none
    unfolding selected_def served_def distributeFairQueuesFromParentQueue_def createQueueSnapshot_def
    by (cases "sl_reused sl (parentQueue @ '':'' @ consumerId)"; cases "so_maximumEnvCount SO = 0"; cases "queues = []")
      (simp_all add: Let_def queues_def [symmetric] top_def case_prod_beta emptyFairQueueSnapshot_def)
  have own: "queues_of_env e ?own = queues_of_env e queues" if "e \<in> set (fst top)" for e
    using that unfolding queues_of_env_def by (auto intro!: filter_cong)
  then have cap: "env_has_capacity limits ?own r e = env_has_capacity limits queues r e" if "e \<in> set (fst top)" for e
    using that by (simp add: env_has_capacity_def)
  note served = served_queues [where rng = rng and SO = SO and limits = limits and queues = ?own and r = r and n = "snd top",
      OF assms(1), folded sel]
  have envs: "set (map fst selected) = {e \<in> set (fst top). env_has_capacity limits queues r e}"
    using top(1) cap unfolding served(2) by auto
  have eq: "filter (\<lambda>q. env_has_capacity limits ?own r (fq_env q)) ?own
      = filter (\<lambda>q. fq_env q \<in> set (fst top) \<and> env_has_capacity limits queues r (fq_env q)) queues"
    using cap by (auto intro!: filter_cong)
  have all: "mset (concat (map snd selected))
      = mset (map fq_id (filter (\<lambda>q. fq_env q \<in> set (fst top) \<and> env_has_capacity limits queues r (fq_env q)) queues))"
    unfolding served(3) eq ..
  have "mset qs = mset (map fq_id (queues_of_env e queues)) \<and>
        (sb_queueAgeRandomization (or_default (so_biases SO) defaultBiases) = 0 \<longrightarrow>
          qs = map fq_id (sort_key (\<lambda>q. - fq_age q) (queues_of_env e queues)))" if "(e, qs) \<in> set selected" for e qs
  proof -
    have "e \<in> set (map fst selected)" using that by force
    then have "e \<in> set (fst top)" unfolding envs by simp
    then show ?thesis using served(4) [OF that] own by (auto simp: order_permutes order_by_age)
  qed
  with top envs all served(1) show ?thesis by (intro exI [of _ "set (fst top)"]) auto
qed

text \<open>
  The scripts of the queue fall back to the default burst factor of the options, the selection to 1: an
  environment that has no factor of its own is not served beyond its plain limit.
\<close>

theorem default_burst_ignored:
  assumes "r_limits r (envConcurrencyLimitBurstFactorKeyFromQueue queue) = None" "qo_defaultEnvConcurrencyBurstFactor cfg = Some burst"
    and "so_defaultEnvConcurrencyLimit SO = qo_defaultEnvConcurrency cfg"
    and "of_nat (env_current queue r) = env_limit cfg queue r" "env_limit cfg queue r * burst \<ge> env_limit cfg queue r + 1"
  shows "int (env_current queue r) < env_limit_with_burst cfg queue r \<and>
    at_full_concurrency (readEnvConcurrency (fresh_limit SO r) (envDescriptorFromQueue queue) r)"
proof -
  have "env_limit_with_burst cfg queue r = \<lfloor>env_limit cfg queue r * burst\<rfloor>"
    using assms(1,2) by (simp add: env_limit_with_burst_def limit_or_def or_default_def)
  also have "\<dots> \<ge> \<lfloor>of_nat (env_current queue r) + (1 :: rat)\<rfloor>" using assms(4,5) by (intro floor_mono) simp
  finally have "int (env_current queue r) < env_limit_with_burst cfg queue r" by simp
  moreover have "fresh_limit SO r (envConcurrencyLimitKey (envDescriptorFromQueue queue)) = of_nat (env_current queue r)"
    using assms(3,4) by (simp add: fresh_limit_def env_limit_def envConcurrencyLimitKeyFromQueue_def)
  then have "at_full_concurrency (readEnvConcurrency (fresh_limit SO r) (envDescriptorFromQueue queue) r)"
    using assms(1) by (simp add: at_full_concurrency_def readEnvConcurrency_def limit_or_def env_current_def
        envCurrentConcurrencyKeyFromQueue_def envConcurrencyLimitBurstFactorKeyFromQueue_def)
  ultimately show ?thesis by simp
qed

section \<open>The selection at a concrete queue\<close>

definition example_selection :: selection_options where
  "example_selection = \<lparr>so_defaultEnvConcurrencyLimit = 10, so_parentQueueLimit = 5, so_biases = None,
     so_reuseSnapshotCount = 0, so_maximumEnvCount = 0\<rparr>"

text \<open>One of two environments is chosen: the one of the older queue.\<close>

definition two_envs :: "message redis" where
  "two_envs = ZADD ''master'' 50 (queueKey (example_env\<lparr>env_id := ''e2''\<rparr>) ''q1'' None)
     (ZADD ''master'' 20 (queueKey example_env ''q2'' None) empty_redis)"

theorem selection_complete_witness:
  "mset (concat (map snd (fst (distributeFairQueuesFromParentQueue example_selection (\<lambda>_. 0) (\<lambda>_. 10) ''master'' ''c1'' 100 two_envs
     \<lparr>sl_reused = (\<lambda>_. None), sl_draws = 0\<rparr>)))) = {#queueKey (example_env\<lparr>env_id := ''e2''\<rparr>) ''q1'' None, queueKey example_env ''q2'' None#} \<and>
   length (fst (distributeFairQueuesFromParentQueue (example_selection\<lparr>so_maximumEnvCount := 1, so_reuseSnapshotCount := 3\<rparr>)
     (\<lambda>_. 0) (\<lambda>_. 10) ''master'' ''c1'' 100 two_envs \<lparr>sl_reused = (\<lambda>_. None), sl_draws = 0\<rparr>)) = 1"
proof -
  let ?queues = "allChildQueuesByScore example_selection ''master'' 100 two_envs"
  have q: "map fq_id ?queues = [queueKey example_env ''q2'' None, queueKey (example_env\<lparr>env_id := ''e2''\<rparr>) ''q1'' None]"
    "map fq_env ?queues = [''e1'', ''e2'']" "list_all (\<lambda>q. env_has_capacity (\<lambda>_. 10) ?queues two_envs (fq_env q)) ?queues"
    by code_simp+
  have set: "fq_env ` set ?queues = {''e1'', ''e2''}" using arg_cong [OF q(2), of set] by simp
  have "\<forall>e \<in> fq_env ` set ?queues. env_has_capacity (\<lambda>_. 10) ?queues two_envs e"
    using q(3) unfolding list_all_iff by blast
  then have cap: "env_has_capacity (\<lambda>_. 10) ?queues two_envs e" if "e \<in> {''e1'', ''e2''}" for e
    using that unfolding set by blast
  have two: "card {''e1'', ''e2''} = 2" by simp
  let ?run = "\<lambda>SO. fst (distributeFairQueuesFromParentQueue SO (\<lambda>_. 0) (\<lambda>_. 10) ''master'' ''c1'' 100 two_envs
      \<lparr>sl_reused = (\<lambda>_. None), sl_draws = 0\<rparr>)"
  let ?one = "example_selection\<lparr>so_maximumEnvCount := 1, so_reuseSnapshotCount := 3\<rparr>"
  have same: "allChildQueuesByScore ?one ''master'' 100 two_envs = ?queues"
    by (simp add: allChildQueuesByScore_def example_selection_def)
  have zero: "so_maximumEnvCount example_selection = 0" by (simp add: example_selection_def)
  obtain chosen where chosen: "chosen \<subseteq> {''e1'', ''e2''}" "card chosen = 2" "mset (concat (map snd (?run example_selection)))
      = mset (map fq_id (filter (\<lambda>q. fq_env q \<in> chosen \<and> env_has_capacity (\<lambda>_. 10) ?queues two_envs (fq_env q)) ?queues))"
    using selection_complete [where SO = example_selection and rng = "\<lambda>_. 0" and limits = "\<lambda>_. 10" and parentQueue = "''master''"
        and consumerId = "''c1''" and now = 100 and r = two_envs and sl = "\<lparr>sl_reused = (\<lambda>_. None), sl_draws = 0\<rparr>"] two
    unfolding set zero by (simp add: two del: mset_map mset_filter) blast
  have "chosen = {''e1'', ''e2''}" by (rule card_subset_eq [OF _ chosen(1)]) (simp_all only: chosen(2) two finite.intros)
  moreover have "fq_env q \<in> {''e1'', ''e2''} \<and> env_has_capacity (\<lambda>_. 10) ?queues two_envs (fq_env q)" if "q \<in> set ?queues" for q
    using that cap [of "fq_env q"] set by blast
  ultimately have "filter (\<lambda>q. fq_env q \<in> chosen \<and> env_has_capacity (\<lambda>_. 10) ?queues two_envs (fq_env q)) ?queues = ?queues"
    unfolding filter_id_conv by blast
  moreover obtain chosen1 where one: "chosen1 \<subseteq> {''e1'', ''e2''}" "card chosen1 = 1" "distinct (map fst (?run ?one))"
      "set (map fst (?run ?one)) = {e \<in> chosen1. env_has_capacity (\<lambda>_. 10) ?queues two_envs e}"
    using selection_complete [where SO = ?one and rng = "\<lambda>_. 0" and limits = "\<lambda>_. 10" and parentQueue = "''master''"
        and consumerId = "''c1''" and now = 100 and r = two_envs and sl = "\<lparr>sl_reused = (\<lambda>_. None), sl_draws = 0\<rparr>"] two
    unfolding set same by (simp add: two del: mset_map mset_filter) blast
  then have "set (map fst (?run ?one)) = chosen1" using cap by blast
  then have "length (?run ?one) = 1" using one(2) distinct_card [OF one(3)] by (simp only: length_map)
  ultimately show ?thesis unfolding chosen(3) by (simp only: q(1)) (simp add: add_mset_commute)
qed

theorem default_burst_ignored_witness:
  "at_full_concurrency (readEnvConcurrency (fresh_limit (example_selection\<lparr>so_defaultEnvConcurrencyLimit := 1\<rparr>)
     (SADD (envCurrentConcurrencyKeyFromQueue (queueKey example_env ''q1'' None)) ''r1'' (empty_redis :: message redis)))
     (envDescriptorFromQueue (queueKey example_env ''q1'' None))
     (SADD (envCurrentConcurrencyKeyFromQueue (queueKey example_env ''q1'' None)) ''r1'' (empty_redis :: message redis)))"
  by (rule default_burst_ignored [where queue = "queueKey example_env ''q1'' None" and burst = 2
        and cfg = "example_cfg\<lparr>qo_defaultEnvConcurrency := 1, qo_defaultEnvConcurrencyBurstFactor := Some 2\<rparr>", THEN conjunct2])
    (simp_all add: SADD_def empty_redis_def env_limit_def limit_or_def env_current_def sadd_def)

end
