(* ===== verification/RunQueueSweeps.thy ===== *)
theory RunQueueSweeps
  imports EngineState JobQueue
begin

text \<open>
  What looks through the queues of runs for those that should leave them
  (\<open>internal-packages/run-engine/src/run-queue/index.ts\<close>): the expiry of messages whose time to live has
  run out, which hands their runs to the worker that expires them, and the sweeper, which
  acknowledges the messages of finished runs that still claim concurrency, as the callback of
  \<open>engine/index.ts\<close> finds them.

  The worker's queue of jobs is a \<open>job_queue\<close> beside the store; \<open>item\<close> makes the payload of a job.
\<close>

section \<open>Messages whose time to live has run out\<close>

text \<open>The organization in a queue key, between \<open>{org:\<close> and the next \<open>}\<close>; without it the script fails.\<close>

definition lua_org_section :: "string \<Rightarrow> string option" where
  "lua_org_section queue =
     (case js_indexOf queue ''{org:'' of
        None \<Rightarrow> None
      | Some start \<Rightarrow>
          (case js_indexOf (drop start queue) ''}'' of
             None \<Rightarrow> None
           | Some len \<Rightarrow> Some (js_slice (start + 5) (start + len) queue)))"

text \<open>Lua's \<open>string.match(queue, ":env:([^:]+)")\<close> and \<open>string.match(queue, ":proj:([^:]+):env:")\<close>.\<close>

fun lua_env_section :: "string \<Rightarrow> string option" where
  "lua_env_section [] = None"
| "lua_env_section (c # cs) =
     (let found = takeWhile (\<lambda>x. x \<noteq> colon) (drop 5 (c # cs)) in
      if js_startsWith (c # cs) '':env:'' \<and> found \<noteq> [] then Some found else lua_env_section cs)"

fun lua_proj_section :: "string \<Rightarrow> string option" where
  "lua_proj_section [] = None"
| "lua_proj_section (c # cs) =
     (let found = takeWhile (\<lambda>x. x \<noteq> colon) (drop 6 (c # cs)) in
      if js_startsWith (c # cs) '':proj:'' \<and> found \<noteq> [] \<and> js_startsWith (drop (6 + length found) (c # cs)) '':env:''
      then Some found else lua_proj_section cs)"

definition parse_ttl_member :: "string \<Rightarrow> (string \<times> string \<times> string) option" where
  "parse_ttl_member member =
     (case js_indexOf member ''|'' of
        None \<Rightarrow> None
      | Some i \<Rightarrow>
          (case js_indexOf (drop (i + 1) member) ''|'' of
             None \<Rightarrow> None
           | Some j \<Rightarrow> Some (take i member, take j (drop (i + 1) member), drop (j + 1) (drop (i + 1) member))))"

definition ttl_expire_job :: "(string \<Rightarrow> string \<Rightarrow> string \<Rightarrow> 'i) \<Rightarrow> int \<Rightarrow> string \<Rightarrow> string \<Rightarrow> string \<Rightarrow> 'i serialized_item" where
  "ttl_expire_job item visibilityTimeoutMs runId orgId queue =
     \<lparr>si_job = ''expireTtlRun'', si_item = item runId orgId queue, si_visibilityTimeoutMs = visibilityTimeoutMs,
      si_attempt = Some 0, si_deduplicationKey = None, si_errorMessage = None\<rparr>"

text \<open>The sets of the environment whose sections are in a queue key.\<close>

definition env_set :: "string \<Rightarrow> string \<Rightarrow> string \<Rightarrow> string" where
  "env_set org queue part = js_join '':'' [orgKeySection org, projKeySection (or_default (lua_proj_section queue) []),
     envKeySection (or_default (lua_env_section queue) []), part]"

text \<open>What the script does to the queues for one run.\<close>

definition expire_in_queue :: "string \<Rightarrow> string \<Rightarrow> string \<Rightarrow> 'm redis \<Rightarrow> 'm redis" where
  "expire_in_queue org queue runId r =
     (let r1 = DEL (messageKey org runId) r;
          removedFromZset = (\<not> zadded queue runId r1);
          r2 = ZREM queue runId r1;
          r3 = (case lua_env_section queue of None \<Rightarrow> r2 | Some e \<Rightarrow> ZREM (js_join '':'' [orgKeySection org, envKeySection e]) runId r2);
          r4 = SREM (queueCurrentConcurrencyKeyFromQueue queue) runId r3;
          removedFromDequeued = smember (queueCurrentDequeuedKeyFromQueue queue) runId r4;
          r5 = SREM (queueCurrentDequeuedKeyFromQueue queue) runId r4;
          r6 = SREM (env_set org queue ''currentDequeued'') runId (SREM (env_set org queue ''currentConcurrency'') runId r5)
      in case lua_ck_match queue of
           None \<Rightarrow> r6
         | Some base \<Rightarrow>
             (let r7 = (if removedFromZset then decrFloored (base @ '':lengthCounter'') r6 else r6);
                  r8 = (if removedFromDequeued then decrFloored (base @ '':runningCounter'') r7 else r7)
              in rebalance_ck_index (base @ '':ckIndex'') queue r8))"

text \<open>The loop of \<open>expireTtlRunsTracked\<close>; \<open>None\<close> is a Lua error.\<close>

fun expire_members ::
    "(string \<Rightarrow> string \<Rightarrow> string \<Rightarrow> 'i) \<Rightarrow> int \<Rightarrow> int \<Rightarrow> string \<Rightarrow> string list \<Rightarrow> 'm redis \<times> 'i job_queue \<Rightarrow>
     ((string \<times> string \<times> string) list \<times> 'm redis \<times> 'i job_queue) option" where
  "expire_members item visibilityTimeoutMs nowMs ttlQueueKey [] (r, jq) = Some ([], r, jq)"
| "expire_members item visibilityTimeoutMs nowMs ttlQueueKey (member # members) (r, jq) =
     (case parse_ttl_member member of
        None \<Rightarrow> expire_members item visibilityTimeoutMs nowMs ttlQueueKey members (r, jq)
      | Some (queue, runId, orgId) \<Rightarrow>
          (case lua_org_section queue of
             None \<Rightarrow> None
           | Some org \<Rightarrow>
               map_option (\<lambda>(expired, s). ((queue, runId, orgId) # expired, s))
                 (expire_members item visibilityTimeoutMs nowMs ttlQueueKey members
                    (expire_in_queue org queue runId (ZREM ttlQueueKey member r),
                     put_item runId nowMs (ttl_expire_job item visibilityTimeoutMs runId orgId queue) jq))))"

text \<open>\<open>migrateLegacyMasterQueues\<close>, for the queues without concurrency keys.\<close>

definition rebalance_expired :: "queue_options \<Rightarrow> string list \<Rightarrow> 'm redis \<Rightarrow> 'm redis" where
  "rebalance_expired cfg queues r =
     fold (\<lambda>queue. rebalance_master (masterQueueKey cfg (envIdFromQueue queue)) queue)
       (filter (\<lambda>queue. \<not> js_includes queue '':ck:'') queues) r"

definition expireTtlRuns ::
    "queue_options \<Rightarrow> (string \<Rightarrow> string \<Rightarrow> string \<Rightarrow> 'i) \<Rightarrow> int \<Rightarrow> nat \<Rightarrow> int \<Rightarrow> nat \<Rightarrow> 'm redis \<times> 'i job_queue \<Rightarrow>
     ((string \<times> string \<times> string) list \<times> 'm redis \<times> 'i job_queue) option" where
  "expireTtlRuns cfg item visibilityTimeoutMs n now batchSize s =
     (if \<not> qo_ttlSystem cfg then Some ([], s)
      else map_option (\<lambda>(expired, r, jq). (map (\<lambda>(queue, runId, orgId). (queue, runId, takeWhile (\<lambda>c. c \<noteq> CHR ''|'') orgId)) expired,
               rebalance_expired cfg (map fst expired) r, jq))
             (expire_members item visibilityTimeoutMs (jq_now (snd s)) (ttlQueueKeyForShard n)
                (map fst (zrangebyscore now batchSize (r_zsets (fst s) (ttlQueueKeyForShard n)))) s))"

section \<open>The sweeper of concurrency\<close>

definition markedForAckKey :: string where
  "markedForAckKey = ''markedForAck''"

text \<open>Finished for more than ten minutes.\<close>

definition concurrencySweeperCallback :: "string list \<Rightarrow> world \<Rightarrow> (string \<times> string) list" where
  "concurrencySweeperCallback runIds w =
     List.map_filter (\<lambda>t. map_option (\<lambda>orgId. (tr_id t, orgId)) (truthy (tr_organizationId t)))
       (filter (\<lambda>t. tr_id t \<in> set runIds \<and> (case tr_completedAt t of None \<Rightarrow> False | Some c \<Rightarrow> c \<le> en_now w - 1000 * 60 * 10)
          \<and> isFinalRunStatus (tr_status t)) (en_runs w))"

definition markRunsForAck :: "int \<Rightarrow> (string \<times> string) list \<Rightarrow> 'm redis \<Rightarrow> 'm redis" where
  "markRunsForAck now completedRuns = fold (\<lambda>(runId, orgId). ZADD markedForAckKey now (orgId @ '':'' @ runId)) completedRuns"

text \<open>One set of concurrency, in one page of its members.\<close>

definition processConcurrencySet :: "string \<Rightarrow> world \<Rightarrow> world" where
  "processConcurrencySet key w =
     w\<lparr>en_redis := markRunsForAck (en_now w) (concurrencySweeperCallback (r_sets (en_redis w) key) w) (en_redis w)\<rparr>"

definition parse_marked :: "string \<Rightarrow> (string \<times> string) option" where
  "parse_marked marked = map_option (\<lambda>i. (take i marked, drop (i + 1) marked)) (js_indexOf marked '':'')"

definition getMarkedRunsForAck :: "nat \<Rightarrow> 'm redis \<Rightarrow> (string \<times> string) list \<times> 'm redis" where
  "getMarkedRunsForAck maxCount r =
     (let marked = map fst (take maxCount (r_zsets r markedForAckKey));
          results = List.map_filter parse_marked marked
      in (results, if results = [] then r else fold (ZREM markedForAckKey) marked r))"

definition processMarkedRun :: "queue_options \<Rightarrow> string \<times> string \<Rightarrow> message redis \<Rightarrow> message redis" where
  "processMarkedRun cfg run r = snd (acknowledgeMessage cfg (fst run) (snd run) True False r)"

text \<open>\<open>processMarkedRuns\<close> goes on while runs are marked; \<open>fuel\<close> bounds the rounds of a hundred.\<close>

fun processMarkedRuns :: "nat \<Rightarrow> queue_options \<Rightarrow> message redis \<Rightarrow> message redis" where
  "processMarkedRuns 0 cfg r = r"
| "processMarkedRuns (Suc fuel) cfg r =
     (case getMarkedRunsForAck 100 r of
        (results, r1) \<Rightarrow>
          if results = [] then r1
          else (let r2 = fold (processMarkedRun cfg) results r1
                in if length (r_zsets r2 markedForAckKey) > 0 then processMarkedRuns fuel cfg r2 else r2))"

end
