(* ===== verification/RunQueueSweepOutcomes.thy ===== *)
theory RunQueueSweepOutcomes
  imports RunQueueSweeps EngineSteps
begin

text \<open>
  A message whose time to live has run out leaves every place of the queue and its run becomes a job of
  the worker that expires runs; a finished run that the sweeper finds gives up its concurrency.
\<close>

section \<open>Reading a queue key\<close>

lemma queueKey_colons:
  "\<exists>rest. queueKey env name ck = ''{org'' @ colon # (env_organizationId env @ ''}'') @ colon # ''proj'' @ colon # env_projectId env
     @ colon # ''env'' @ colon # env_id env @ colon # ''queue'' @ rest"
proof -
  obtain rest where "queueKey env name ck = env_prefix env @ '':queue:'' @ name @ rest" using queueKey_prefix by blast
  then show ?thesis by (intro exI [of _ "'':'' @ name @ rest"]) (simp add: env_prefix_def section_defs colon_def)
qed

lemma env_skip: "colon \<notin> set a \<Longrightarrow> lua_env_section (a @ colon # s) = lua_env_section (colon # s)"
  by (induction a) (auto simp: js_startsWith_def colon_def Let_def)

lemma proj_skip: "colon \<notin> set a \<Longrightarrow> lua_proj_section (a @ colon # s) = lua_proj_section (colon # s)"
  by (induction a) (auto simp: js_startsWith_def colon_def Let_def)

text \<open>A section that is not named so is stepped over.\<close>

lemma starts_section:
  assumes "colon \<notin> set p" "colon \<notin> set a"
  shows "js_startsWith (colon # a @ colon # s) (colon # p @ '':'') \<longleftrightarrow> a = p"
proof -
  have "a = p" if "a @ colon # s = p @ colon # t" for t
  proof -
    have "js_split colon (a @ colon # s) = js_split colon (p @ colon # t)" using that by simp
    then show ?thesis unfolding js_split_append [OF assms(1)] js_split_append [OF assms(2)] by simp
  qed
  then show ?thesis by (auto simp: js_startsWith_iff colon_def)
qed

text \<open>An environment whose ids the scripts can read from a queue key.\<close>

definition readable_env :: "environment \<Rightarrow> bool" where
  "readable_env env = (good_env env \<and> env_id env \<noteq> [] \<and> env_projectId env \<noteq> [] \<and> env_projectId env \<noteq> ''env'')"

lemma takeWhile_section: "colon \<notin> set a \<Longrightarrow> takeWhile (\<lambda>x. x \<noteq> colon) (a @ colon # s) = a"
  by (subst takeWhile_append2) auto

lemma lua_env_queueKey:
  assumes "readable_env env"
  shows "lua_env_section (queueKey env name ck) = Some (env_id env)"
proof -
  have free: "colon \<notin> set ''{org''" "colon \<notin> set (env_organizationId env @ ''}'')" "colon \<notin> set ''proj''" "colon \<notin> set (env_projectId env)"
    "colon \<notin> set ''env''" "colon \<notin> set (env_id env)"
    using assms by (simp_all add: readable_env_def good_env_def colon_def)
  have no: "\<not> js_startsWith (colon # a @ colon # s) '':env:''" if "colon \<notin> set a" "a \<noteq> ''env''" for a s
    using starts_section [of "''env''" a s] that free(5) by (simp add: colon_def)
  have yes: "js_startsWith (colon # ''env'' @ colon # s) '':env:''" for s
    using starts_section [of "''env''" "''env''" s] free(5) by (simp add: colon_def)
  have step: "lua_env_section (colon # a @ colon # s) = lua_env_section (colon # s)" if "colon \<notin> set a" "a \<noteq> ''env''" for a s
    using no [OF that, of s] env_skip [OF that(1), of s] by (simp add: Let_def)
  obtain rest where q: "queueKey env name ck = ''{org'' @ colon # (env_organizationId env @ ''}'') @ colon # ''proj'' @ colon # env_projectId env
     @ colon # ''env'' @ colon # env_id env @ colon # ''queue'' @ rest" using queueKey_colons by blast
  let ?R4 = "''env'' @ colon # env_id env @ colon # ''queue'' @ rest"
  let ?R3 = "env_projectId env @ colon # ?R4"
  let ?R2 = "''proj'' @ colon # ?R3"
  have "last (env_organizationId env @ ''}'') \<noteq> last ''env''" by simp
  then have org: "env_organizationId env @ ''}'' \<noteq> ''env''" by metis
  have "lua_env_section (queueKey env name ck) = lua_env_section (colon # (env_organizationId env @ ''}'') @ colon # ?R2)"
    unfolding q by (rule env_skip [OF free(1)])
  also have "\<dots> = lua_env_section (colon # ?R2)" by (rule step [OF free(2) org])
  also have "\<dots> = lua_env_section (colon # ?R3)" by (rule step [OF free(3)]) simp
  also have "\<dots> = lua_env_section (colon # ?R4)" by (rule step [OF free(4)]) (use assms in \<open>simp add: readable_env_def\<close>)
  also have "\<dots> = Some (env_id env)"
    using yes [of "env_id env @ colon # ''queue'' @ rest"] takeWhile_section [OF free(6), of "''queue'' @ rest"] assms
    by (simp add: readable_env_def)
  finally show ?thesis .
qed

lemma lua_proj_queueKey:
  assumes "readable_env env"
  shows "lua_proj_section (queueKey env name ck) = Some (env_projectId env)"
proof -
  have free: "colon \<notin> set ''{org''" "colon \<notin> set (env_organizationId env @ ''}'')" "colon \<notin> set ''proj''" "colon \<notin> set (env_projectId env)"
    using assms by (simp_all add: readable_env_def good_env_def colon_def)
  have no: "\<not> js_startsWith (colon # (env_organizationId env @ ''}'') @ colon # s) '':proj:''" for s
  proof -
    have "last (env_organizationId env @ ''}'') \<noteq> last ''proj''" by simp
    then have "env_organizationId env @ ''}'' \<noteq> ''proj''" by metis
    with starts_section [of "''proj''" "env_organizationId env @ ''}''" s] free(2,3) show ?thesis by (simp add: colon_def)
  qed
  obtain rest where q: "queueKey env name ck = ''{org'' @ colon # (env_organizationId env @ ''}'') @ colon # ''proj'' @ colon # env_projectId env
     @ colon # ''env'' @ colon # env_id env @ colon # ''queue'' @ rest" using queueKey_colons by blast
  let ?rest = "''env'' @ colon # env_id env @ colon # ''queue'' @ rest"
  have "lua_proj_section (queueKey env name ck) = lua_proj_section (colon # (env_organizationId env @ ''}'') @ colon # ''proj'' @ colon # env_projectId env @ colon # ?rest)"
    unfolding q by (rule proj_skip [OF free(1)])
  also have "\<dots> = lua_proj_section (colon # ''proj'' @ colon # env_projectId env @ colon # ?rest)"
    using no [of "''proj'' @ colon # env_projectId env @ colon # ?rest"]
      proj_skip [OF free(2), of "''proj'' @ colon # env_projectId env @ colon # ?rest"] by (simp add: Let_def)
  also have "\<dots> = Some (env_projectId env)"
  proof -
    have "js_startsWith (colon # ''proj'' @ colon # env_projectId env @ colon # ?rest) '':proj:''"
      using starts_section [of "''proj''" "''proj''" "env_projectId env @ colon # ?rest"] free(3) by (simp add: colon_def)
    moreover have "takeWhile (\<lambda>x. x \<noteq> colon) (env_projectId env @ colon # ?rest) = env_projectId env"
      by (rule takeWhile_section [OF free(4)])
    moreover have "js_startsWith (colon # ?rest) '':env:''" by (simp add: js_startsWith_def colon_def)
    moreover have "drop (6 + length (env_projectId env)) (colon # ''proj'' @ colon # env_projectId env @ x) = x" for x
      by (simp add: eval_nat_numeral)
    moreover have "drop 6 (colon # ''proj'' @ colon # x) = x" for x by simp
    ultimately show ?thesis using assms
      unfolding lua_proj_section.simps(2) [of colon] Let_def by (simp only: readable_env_def if_True simp_thms)
  qed
  finally show ?thesis .
qed

lemma indexOf_first:
  "(\<forall>i < length a. \<not> js_startsWith (drop i (a @ p @ s)) p) \<Longrightarrow> p \<noteq> [] \<Longrightarrow> js_indexOf (a @ p @ s) p = Some (length a)"
proof (induction a)
  case Nil
  then show ?case by (cases p) (auto simp: js_startsWith_iff)
next
  case (Cons c a)
  then have "\<not> js_startsWith (c # a @ p @ s) p" by force
  moreover have "js_indexOf (a @ p @ s) p = Some (length a)" using Cons.prems by (intro Cons.IH) force+
  ultimately show ?case by simp
qed

lemma indexOf_char: "c \<notin> set a \<Longrightarrow> js_indexOf (a @ c # s) [c] = Some (length a)"
  by (induction a) (auto simp: js_startsWith_def)

lemma lua_org_queueKey:
  assumes "good_env env"
  shows "lua_org_section (queueKey env name ck) = Some (env_organizationId env)"
proof -
  obtain rest where q: "queueKey env name ck = ''{org:'' @ env_organizationId env @ ''}'' @ rest"
    using queueKey_prefix [of env name ck] by (auto simp: env_prefix_def section_defs)
  have "js_indexOf (queueKey env name ck) ''{org:'' = Some 0" unfolding q by (simp add: js_startsWith_def)
  moreover have "js_indexOf (queueKey env name ck) ''}'' = Some (length (''{org:'' @ env_organizationId env))"
    unfolding q using assms indexOf_char [of "CHR ''}''" "''{org:'' @ env_organizationId env" rest] by (simp add: good_env_def)
  ultimately show ?thesis by (simp add: lua_org_section_def js_slice_def) (simp add: q)
qed

section \<open>An expired message is gone\<close>

text \<open>Nothing of the message is left: in no queue, in no set, not in the TTL set \<open>n\<close>, and without data.\<close>

definition gone :: "nat \<Rightarrow> message \<Rightarrow> message redis \<Rightarrow> bool" where
  "gone n m r = (\<not> queued m r \<and> m_runId m \<notin> zmembers (r_zsets r (envQueueKeyFromQueue (m_queue m)))
     \<and> ttl_member (m_queue m) (m_runId m) (m_orgId m) \<notin> zmembers (r_zsets r (ttlQueueKeyForShard n))
     \<and> \<not> running m r \<and> readMessage (m_orgId m) (m_runId m) r = None)"

lemma expire_messages: "r_messages (expire_in_queue org queue i r) = (r_messages r)(messageKey org i := None)"
  by (simp add: expire_in_queue_def Let_def split: option.split)

lemma srem_srem [simp]: "srem i (srem i xs) = srem i xs"
  by (simp add: srem_def)

lemma removed_from_four:
  "r_sets (SREM d i (SREM c i (SREM b i (SREM a i r)))) k = (if k \<in> {a, b, c, d} then srem i (r_sets r k) else r_sets r k)"
  by simp

lemma expire_sets:
  "r_sets (expire_in_queue org queue i r) k =
   (if k \<in> {queueCurrentConcurrencyKeyFromQueue queue, queueCurrentDequeuedKeyFromQueue queue,
            env_set org queue ''currentConcurrency'', env_set org queue ''currentDequeued''}
    then srem i (r_sets r k) else r_sets r k)"
proof -
  have "r_sets (expire_in_queue org queue i r) =
      r_sets (SREM (env_set org queue ''currentDequeued'') i (SREM (env_set org queue ''currentConcurrency'') i
        (SREM (queueCurrentDequeuedKeyFromQueue queue) i (SREM (queueCurrentConcurrencyKeyFromQueue queue) i r))))"
    by (cases "lua_ck_match queue"; cases "lua_env_section queue") (simp_all add: expire_in_queue_def Let_def del: fun_upd_apply)
  then show ?thesis unfolding removed_from_four [symmetric] by simp
qed

lemma rebalance_members: "zmembers (r_zsets (rebalance_ck_index idx queue r) k) \<subseteq> insert queue (zmembers (r_zsets r k))"
  by (auto simp: rebalance_ck_index_def split: option.split)

lemma expire_zset:
  "k \<noteq> or_default (lua_ck_match queue) [] @ '':ckIndex'' \<or> lua_ck_match queue = None \<Longrightarrow>
   zmembers (r_zsets (expire_in_queue org queue i r) k) \<subseteq> zmembers (r_zsets r k) - (if k = queue then {i} else {})"
  by (cases "lua_ck_match queue"; cases "lua_env_section queue") (auto simp: expire_in_queue_def Let_def or_default_def)

lemma expire_zset_index:
  "zmembers (r_zsets (expire_in_queue org queue i r) k) \<subseteq> zmembers (r_zsets r k) \<union> {q. q = queue \<and> lua_ck_match q \<noteq> None}"
proof (cases "lua_ck_match queue")
  case None
  then show ?thesis using expire_zset [of k queue org i r] by auto
next
  case (Some base)
  show ?thesis
  proof (cases "k = base @ '':ckIndex''")
    case False
    then show ?thesis using Some expire_zset [of k queue org i r] by (auto simp: or_default_def)
  next
    case True
    obtain r8 where "expire_in_queue org queue i r = rebalance_ck_index (base @ '':ckIndex'') queue r8"
      "zmembers (r_zsets r8 k) \<subseteq> zmembers (r_zsets r k)"
      using Some by (cases "lua_env_section queue") (auto simp: expire_in_queue_def Let_def)
    with rebalance_members [of "base @ '':ckIndex''" queue r8 k] Some show ?thesis by auto
  qed
qed

lemma ck_match_colon:
  assumes "lua_ck_match queue = Some base"
  shows "colon \<in> set queue" and "queue \<noteq> base @ '':ckIndex''"
proof -
  from assms obtain i where i: "js_indexOf queue '':ck:'' = Some i" "base = take i queue" by (auto simp: lua_ck_match_def)
  from js_indexOf_Some [OF i(1)] obtain t where "drop i queue = '':ck:'' @ t" by (auto simp: js_startsWith_iff)
  with i(2) have q: "queue = base @ '':ck:'' @ t" by (metis append_take_drop_id)
  then show "colon \<in> set queue" by (simp add: colon_def)
  show "queue \<noteq> base @ '':ckIndex''" unfolding q by (simp only: same_append_eq) simp
qed

text \<open>The run leaves the queue of its environment, whose key the script builds from the sections.\<close>

lemma expire_env_queue:
  assumes "lua_env_section queue = Some e" "colon \<notin> set i"
  shows "i \<notin> zmembers (r_zsets (expire_in_queue org queue i r) (js_join '':'' [orgKeySection org, envKeySection e]))"
proof (cases "lua_ck_match queue")
  case None
  with assms(1) show ?thesis by (simp add: expire_in_queue_def Let_def del: js_join.simps)
next
  case (Some base)
  let ?k = "js_join '':'' [orgKeySection org, envKeySection e]"
  obtain r8 where "expire_in_queue org queue i r = rebalance_ck_index (base @ '':ckIndex'') queue r8" "i \<notin> zmembers (r_zsets r8 ?k)"
    using Some assms(1) by (auto simp: expire_in_queue_def Let_def simp del: js_join.simps)
  with rebalance_members [of "base @ '':ckIndex''" queue r8 ?k] ck_match_colon(1) [OF Some] assms(2) show ?thesis by auto
qed

lemma ttl_not_index: "ttlQueueKeyForShard n \<noteq> base @ '':ckIndex''"
proof -
  have "last (ttlQueueKeyForShard n) = last (nat_to_string n)" by (simp add: ttlQueueKeyForShard_def)
  moreover have "is_digit (last (nat_to_string n))" using nat_to_string_digits [of n] by simp
  moreover have "last (base @ '':ckIndex'') = CHR ''x''" by simp
  moreover have "\<not> is_digit (CHR ''x'')" by code_simp
  ultimately show ?thesis by metis
qed

lemma expire_ttl: "zmembers (r_zsets (expire_in_queue org queue i r) (ttlQueueKeyForShard n)) \<subseteq> zmembers (r_zsets r (ttlQueueKeyForShard n))"
  using expire_zset [of "ttlQueueKeyForShard n" queue org i r] ttl_not_index by auto

lemma gone_stays:
  assumes "gone n m r" "colon \<notin> set (m_runId m)"
  shows "gone n m (expire_in_queue org queue i r)"
proof -
  have "m_runId m \<notin> zmembers (r_zsets (expire_in_queue org queue i r) (envQueueKeyFromQueue (m_queue m)))"
    using assms expire_zset_index [of org queue i r "envQueueKeyFromQueue (m_queue m)"] ck_match_colon(1) [of queue]
    by (auto simp: gone_def)
  moreover have "ttl_member (m_queue m) (m_runId m) (m_orgId m) \<notin> zmembers (r_zsets (expire_in_queue org queue i r) (ttlQueueKeyForShard n))"
    using assms(1) subsetD [OF expire_ttl] unfolding gone_def by blast
  moreover
  have "\<not> queued m (expire_in_queue org queue i r)"
    using assms expire_zset_index [of org queue i r "m_queue m"] ck_match_colon(1) [of queue]
    by (auto simp: gone_def queued_def)
  moreover have "\<not> running m (expire_in_queue org queue i r)"
    using assms(1) by (auto simp: gone_def running_def expire_sets)
  moreover have "readMessage (m_orgId m) (m_runId m) (expire_in_queue org queue i r) = None"
    using assms(1) by (simp add: gone_def readMessage_def expire_messages)
  ultimately show ?thesis by (simp add: gone_def)
qed

lemma expired_gone:
  assumes "readable_env env" "m_queue m = queueKey env name ck" "m_orgId m = env_organizationId env" "colon \<notin> set (m_runId m)"
    and "ttl_member (m_queue m) (m_runId m) (m_orgId m) \<notin> zmembers (r_zsets r (ttlQueueKeyForShard n))"
  shows "gone n m (expire_in_queue (m_orgId m) (m_queue m) (m_runId m) r)"
proof -
  have env: "good_env env" using assms(1) by (simp add: readable_env_def)
  have sets: "env_set (m_orgId m) (m_queue m) ''currentConcurrency'' = envCurrentConcurrencyKeyFromQueue (m_queue m)"
    "env_set (m_orgId m) (m_queue m) ''currentDequeued'' = envCurrentDequeuedKeyFromQueue (m_queue m)"
    unfolding assms(2,3) env_keys_queueKey [OF env] env_set_def lua_env_queueKey [OF assms(1)] lua_proj_queueKey [OF assms(1)]
    by (simp_all only: envCurrentConcurrencyKey_def envCurrentDequeuedKey_def env_key_def descriptorOfEnvironment_def env_descriptor.simps
        or_default_def option.case)
  have "m_queue m \<noteq> or_default (lua_ck_match (m_queue m)) [] @ '':ckIndex'' \<or> lua_ck_match (m_queue m) = None"
    using ck_match_colon(2) [of "m_queue m"] by (cases "lua_ck_match (m_queue m)") (simp_all add: or_default_def)
  from expire_zset [OF this, of "m_orgId m" "m_runId m" r]
  have "\<not> queued m (expire_in_queue (m_orgId m) (m_queue m) (m_runId m) r)" by (auto simp: queued_def)
  moreover have "\<not> running m (expire_in_queue (m_orgId m) (m_queue m) (m_runId m) r)"
    by (simp add: running_def expire_sets sets)
  moreover have "envQueueKeyFromQueue (m_queue m) = js_join '':'' [orgKeySection (m_orgId m), envKeySection (env_id env)]"
    unfolding assms(2,3) envQueueKeyFromQueue_def using envDescriptorFromQueue_queueKey [OF env, of name ck]
    by (simp add: envDescriptorFromQueue_def descriptorOfEnvironment_def orgIdFromQueue_def envIdFromQueue_def Let_def)
  then have "m_runId m \<notin> zmembers (r_zsets (expire_in_queue (m_orgId m) (m_queue m) (m_runId m) r) (envQueueKeyFromQueue (m_queue m)))"
    using expire_env_queue [OF _ assms(4), of "m_queue m" "env_id env" "m_orgId m" r] lua_env_queueKey [OF assms(1), of name ck] assms(2)
    by simp
  moreover have "ttl_member (m_queue m) (m_runId m) (m_orgId m)
      \<notin> zmembers (r_zsets (expire_in_queue (m_orgId m) (m_queue m) (m_runId m) r) (ttlQueueKeyForShard n))"
    using assms(5) subsetD [OF expire_ttl] by blast
  ultimately show ?thesis by (simp add: gone_def readMessage_def expire_messages)
qed

lemma parse_member: "CHR ''|'' \<notin> set queue \<Longrightarrow> CHR ''|'' \<notin> set i \<Longrightarrow> parse_ttl_member (ttl_member queue i org) = Some (queue, i, org)"
  using indexOf_char [of "CHR ''|''" queue "i @ ''|'' @ org"] indexOf_char [of "CHR ''|''" i org]
  by (simp add: parse_ttl_member_def ttl_member_def)

text \<open>The members of a TTL set whose queue the script can read.\<close>

definition readable_member :: "string \<Rightarrow> bool" where
  "readable_member member = (case parse_ttl_member member of None \<Rightarrow> True | Some (queue, runId, orgId) \<Rightarrow> lua_org_section queue \<noteq> None)"

definition has_expire_job :: "(string \<Rightarrow> string \<Rightarrow> string \<Rightarrow> 'i) \<Rightarrow> int \<Rightarrow> int \<Rightarrow> string \<Rightarrow> 'i job_queue \<Rightarrow> bool" where
  "has_expire_job item v now i jq =
     (zscore i (jq_queue jq) = Some now \<and> (\<exists>orgId queue. jq_items jq i = Some (ttl_expire_job item v i orgId queue)))"

lemma gone_ZREM: "gone n m r \<Longrightarrow> gone n m (ZREM k x r)"
  by (auto simp: gone_def queued_def readMessage_def)

lemma job_stays: "has_expire_job item v now i jq \<Longrightarrow> has_expire_job item v now i (put_item j now (ttl_expire_job item v j orgId queue) jq)"
  by (auto simp: has_expire_job_def put_item_def)

lemma new_job: "has_expire_job item v now i (put_item i now (ttl_expire_job item v i orgId queue) jq)"
  by (auto simp: has_expire_job_def put_item_def)

lemma expire_members_defined:
  "list_all readable_member members \<Longrightarrow> \<exists>expired r' jq'. expire_members item v now k members (r, jq) = Some (expired, r', jq')"
proof (induction members arbitrary: r jq)
  case (Cons member members)
  show ?case
  proof (cases "parse_ttl_member member")
    case None
    with Cons show ?thesis by simp
  next
    case (Some t)
    obtain queue i orgId where t: "t = (queue, i, orgId)" by (cases t)
    with Some Cons.prems obtain org where org: "lua_org_section queue = Some org" by (auto simp: readable_member_def)
    from Cons obtain expired r' jq' where "expire_members item v now k members
        (expire_in_queue org queue i (ZREM k member r), put_item i now (ttl_expire_job item v i orgId queue) jq) = Some (expired, r', jq')"
      by fastforce
    with Some t org show ?thesis by simp
  qed
qed simp

lemma expire_members_keep:
  assumes "expire_members item v now k members (r, jq) = Some (expired, r', jq')" "colon \<notin> set (m_runId m)"
  shows "(gone n m r \<longrightarrow> gone n m r') \<and> (has_expire_job item v now (m_runId m) jq \<longrightarrow> has_expire_job item v now (m_runId m) jq')"
  using assms(1)
proof (induction members arbitrary: r jq expired)
  case (Cons member members)
  show ?case
  proof (cases "parse_ttl_member member")
    case None
    with Cons show ?thesis by simp
  next
    case (Some t)
    obtain queue i orgId where t: "t = (queue, i, orgId)" by (cases t)
    with Some Cons.prems obtain org rest where "lua_org_section queue = Some org"
      and rest: "expire_members item v now k members
        (expire_in_queue org queue i (ZREM k member r), put_item i now (ttl_expire_job item v i orgId queue) jq) = Some (rest, r', jq')"
      by (auto split: option.splits)
    from Cons.IH [OF rest] show ?thesis
      using gone_stays [OF gone_ZREM assms(2)] job_stays [of item v now "m_runId m" jq i orgId queue] by blast
  qed
qed simp

lemma expire_members_take:
  assumes "readable_env env" "m_queue m = queueKey env name ck" "m_orgId m = env_organizationId env"
    and "colon \<notin> set (m_runId m)" "CHR ''|'' \<notin> set (m_queue m)" "CHR ''|'' \<notin> set (m_runId m)"
    and "expire_members item v now (ttlQueueKeyForShard n) members (r, jq) = Some (expired, r', jq')"
    and "ttl_member (m_queue m) (m_runId m) (m_orgId m) \<in> set members"
  shows "gone n m r' \<and> has_expire_job item v now (m_runId m) jq' \<and> (m_queue m, m_runId m, m_orgId m) \<in> set expired"
  using assms(7,8)
proof (induction members arbitrary: r jq expired)
  case (Cons member members)
  have env: "good_env env" using assms(1) by (simp add: readable_env_def)
  show ?case
  proof (cases "parse_ttl_member member")
    case None
    then have "member \<noteq> ttl_member (m_queue m) (m_runId m) (m_orgId m)" using parse_member [OF assms(5,6)] by auto
    with None Cons show ?thesis by simp
  next
    case (Some t)
    obtain queue i orgId where t: "t = (queue, i, orgId)" by (cases t)
    with Some Cons.prems(1) obtain org rest where org: "lua_org_section queue = Some org"
      and rest: "expire_members item v now (ttlQueueKeyForShard n) members
        (expire_in_queue org queue i (ZREM (ttlQueueKeyForShard n) member r), put_item i now (ttl_expire_job item v i orgId queue) jq) = Some (rest, r', jq')"
      and all: "expired = (queue, i, orgId) # rest"
      by (auto split: option.splits)
    show ?thesis
    proof (cases "member = ttl_member (m_queue m) (m_runId m) (m_orgId m)")
      case True
      with Some t parse_member [OF assms(5,6)] have eqs: "queue = m_queue m" "i = m_runId m" "orgId = m_orgId m" by simp_all
      with org lua_org_queueKey [OF env, of name ck] assms(2,3) have "org = m_orgId m" by simp
      have "member \<notin> zmembers (r_zsets (ZREM (ttlQueueKeyForShard n) member r) (ttlQueueKeyForShard n))" by simp
      then have "gone n m (expire_in_queue org queue i (ZREM (ttlQueueKeyForShard n) member r))"
        using expired_gone [OF assms(1-4)] True unfolding eqs \<open>org = m_orgId m\<close> by simp
      with expire_members_keep [OF rest assms(4), where n = n] show ?thesis
        unfolding all using new_job [of item v now "m_runId m"] eqs by simp
    next
      case False
      with Cons.IH [OF rest] Cons.prems(2) all show ?thesis by auto
    qed
  qed
qed simp

lemma not_master:
  "envQueueKeyFromQueue q \<noteq> masterQueueKeyForShard k" "ttlQueueKeyForShard n \<noteq> masterQueueKeyForShard k"
  by (simp_all add: envQueueKeyFromQueue_def section_defs masterQueueKeyForShard_def ttlQueueKeyForShard_def)

lemma rebalance_expired_gone: "own_zset (m_queue m) \<Longrightarrow> gone n m r \<Longrightarrow> gone n m (rebalance_expired cfg queues r)"
proof -
  assume own: "own_zset (m_queue m)"
  have "gone n m r \<Longrightarrow> gone n m (fold (\<lambda>queue. rebalance_master (masterQueueKey cfg (envIdFromQueue queue)) queue) qs r)" for qs
    using own not_master
    by (induction qs arbitrary: r) (simp_all add: gone_def queued_def readMessage_def own_zset_def masterQueueKey_def)
  then show "gone n m r \<Longrightarrow> gone n m (rebalance_expired cfg queues r)" by (simp add: rebalance_expired_def)
qed

text \<open>
  C17. A run whose time to live has run out leaves the run queue and becomes a job. Let the entry of its message
  in the TTL set be due and in the batch that is read, the queue of the message belong to an environment
  whose ids have no separators (and whose project is not named \<open>env\<close>), the run id have no colon
  and neither it nor the queue a bar, and the script be able to read an organization from each entry
  of the batch (otherwise it fails). Then afterwards the message is neither in its queue, nor in the queue of its
  environment, nor in the TTL set, claims no concurrency and is deleted; it is among the expired ones that
  are returned, and the worker that expires runs has a job for it, due at once.
\<close>

theorem expired_message_becomes_job:
  assumes "readable_env env" "m_queue m = queueKey env name ck" "m_orgId m = env_organizationId env"
    and "colon \<notin> set (m_runId m)" "CHR ''|'' \<notin> set (m_queue m)" "CHR ''|'' \<notin> set (m_runId m)" "qo_ttlSystem cfg"
    and "list_all readable_member (map fst (zrangebyscore now batchSize (r_zsets r (ttlQueueKeyForShard n))))"
    and "ttl_member (m_queue m) (m_runId m) (m_orgId m) \<in> set (map fst (zrangebyscore now batchSize (r_zsets r (ttlQueueKeyForShard n))))"
  shows "\<exists>expired r' jq'. expireTtlRuns cfg item v n now batchSize (r, jq) = Some (expired, r', jq') \<and> gone n m r' \<and>
    (\<exists>orgId. (m_queue m, m_runId m, orgId) \<in> set expired) \<and>
    zscore (m_runId m) (jq_queue jq') = Some (jq_now jq) \<and>
    (\<exists>orgId queue. jq_items jq' (m_runId m) = Some (ttl_expire_job item v (m_runId m) orgId queue))"
proof -
  have env: "good_env env" using assms(1) by (simp add: readable_env_def)
  from expire_members_defined [OF assms(8), of item v "jq_now jq" "ttlQueueKeyForShard n" r jq] obtain expired r' jq'
    where e: "expire_members item v (jq_now jq) (ttlQueueKeyForShard n)
      (map fst (zrangebyscore now batchSize (r_zsets r (ttlQueueKeyForShard n)))) (r, jq) = Some (expired, r', jq')" by blast
  note taken = expire_members_take [OF assms(1-6) e assms(9)]
  have "own_zset (m_queue m)" unfolding assms(2) by (rule own_zset_queueKey [OF env])
  with taken have "gone n m (rebalance_expired cfg (map fst expired) r')" by (simp add: rebalance_expired_gone)
  moreover have "\<exists>orgId. (m_queue m, m_runId m, orgId) \<in>
      set (map (\<lambda>(queue, runId, orgId). (queue, runId, takeWhile (\<lambda>c. c \<noteq> CHR ''|'') orgId)) expired)"
    using taken by force
  ultimately show ?thesis using taken e assms(7) by (simp add: expireTtlRuns_def has_expire_job_def del: set_map)
qed

text \<open>The message of \<open>example_message\<close>, which waits in its queue and is due in the TTL set.\<close>

definition expiring_redis :: "message redis" where
  "expiring_redis = ZADD (ttlQueueKeyForShard 0) 3 (ttl_member (m_queue example_message) ''r1'' ''o1'')
     (ZADD (m_queue example_message) 10 ''r1'' example_redis)"

definition no_jobs :: "string job_queue" where
  "no_jobs = \<lparr>jq_queue = [], jq_items = (\<lambda>_. None), jq_dlq = [], jq_dlqItems = (\<lambda>_. None), jq_cancelled = (\<lambda>_. None), jq_now = 7, jq_ids = 0\<rparr>"

theorem expired_message_becomes_job_witness:
  "\<exists>expired r' jq'. expireTtlRuns (example_cfg\<lparr>qo_ttlSystem := True\<rparr>) (\<lambda>i org q. i) 1000 0 5 10 (expiring_redis, no_jobs)
     = Some (expired, r', jq') \<and> gone 0 example_message r'"
proof -
  have q: "m_queue example_message = queueKey example_env ''q'' None" "m_orgId example_message = env_organizationId example_env"
    "m_runId example_message = ''r1''" by (simp_all add: example_message_def example_env_def)
  have members: "map fst (zrangebyscore 5 10 (r_zsets expiring_redis (ttlQueueKeyForShard 0))) = [ttl_member (m_queue example_message) ''r1'' ''o1'']"
    by code_simp
  have bars: "CHR ''|'' \<notin> set (m_queue example_message)" by code_simp
  have readable: "readable_member (ttl_member (m_queue example_message) ''r1'' ''o1'')" by code_simp
  have env: "readable_env example_env" by (simp add: readable_env_def example_env_def good_env_def colon_def)
  show ?thesis
    using expired_message_becomes_job [OF env q(1,2), of "example_cfg\<lparr>qo_ttlSystem := True\<rparr>" 5 10 expiring_redis 0
        "\<lambda>i org q. i" 1000 no_jobs] bars readable
    unfolding members q(3) by (auto simp: colon_def q(2) example_env_def)
qed

section \<open>The sweeper frees finished runs, and no others\<close>

text \<open>Messages are stored under the key of their run and organization, and no queue is named as the marks are.\<close>

definition filed :: "message redis \<Rightarrow> bool" where
  "filed r = (\<forall>orgId runId x. readMessage orgId runId r = Some x \<longrightarrow>
     m_orgId x = orgId \<and> m_runId x = runId \<and> m_queue x \<noteq> markedForAckKey)"

lemma ack_messages: "r_messages (callAcknowledgeMessage cfg x rm r) = (r_messages r)(messageKey (m_orgId x) (m_runId x) := None)"
  by (simp add: callAcknowledgeMessage_def Let_def)

lemma ack_sets: "set (r_sets (callAcknowledgeMessage cfg x rm r) k) \<subseteq> set (r_sets r k)"
  by (auto simp: callAcknowledgeMessage_def Let_def release_sets_def release_sets_tracked_def split: if_splits)

lemma marked_keys: "markedForAckKey \<noteq> masterQueueKey cfg e" "markedForAckKey \<noteq> ckIndexKeyFromQueue queue"
proof -
  show "markedForAckKey \<noteq> masterQueueKey cfg e" by (simp add: markedForAckKey_def masterQueueKey_def masterQueueKeyForShard_def)
  have "last markedForAckKey \<noteq> last (ckIndexKeyFromQueue queue)" by (simp add: markedForAckKey_def ckIndexKeyFromQueue_def)
  then show "markedForAckKey \<noteq> ckIndexKeyFromQueue queue" by metis
qed

lemma ack_marked:
  assumes "m_queue x \<noteq> markedForAckKey"
  shows "r_zsets (callAcknowledgeMessage cfg x rm r) markedForAckKey = r_zsets r markedForAckKey"
proof -
  have "markedForAckKey \<noteq> envQueueKeyFromQueue queue" for queue
    by (simp add: markedForAckKey_def envQueueKeyFromQueue_def section_defs)
  with assms show ?thesis by (simp add: callAcknowledgeMessage_def Let_def marked_keys unqueue_tracked_def)
qed

text \<open>The marked runs, one after the other.\<close>

definition kept_or_freed :: "message \<Rightarrow> message redis \<Rightarrow> bool" where
  "kept_or_freed m r = (readMessage (m_orgId m) (m_runId m) r = Some m \<or> \<not> running m r)"

lemma process_step:
  assumes "filed r" "own_zset (m_queue m)" "kept_or_freed m r"
  shows "filed (processMarkedRun cfg run r)" "r_zsets (processMarkedRun cfg run r) markedForAckKey = r_zsets r markedForAckKey"
    "kept_or_freed m (processMarkedRun cfg run r)"
    "run = (m_orgId m, m_runId m) \<or> \<not> running m r \<Longrightarrow> \<not> running m (processMarkedRun cfg run r)"
    "(orgId, runId) \<noteq> run \<Longrightarrow> readMessage orgId runId r = Some x \<Longrightarrow> readMessage orgId runId (processMarkedRun cfg run r) = Some x"
proof -
  obtain o' i' where run: "run = (o', i')" by (cases run)
  have all: "filed (processMarkedRun cfg run r) \<and> r_zsets (processMarkedRun cfg run r) markedForAckKey = r_zsets r markedForAckKey \<and>
    kept_or_freed m (processMarkedRun cfg run r) \<and>
    (run = (m_orgId m, m_runId m) \<or> \<not> running m r \<longrightarrow> \<not> running m (processMarkedRun cfg run r)) \<and>
    ((orgId, runId) \<noteq> run \<longrightarrow> readMessage orgId runId r = Some x \<longrightarrow> readMessage orgId runId (processMarkedRun cfg run r) = Some x)"
  proof (cases "readMessage o' i' r")
    case None
    then have "processMarkedRun cfg run r = r" by (simp add: processMarkedRun_def acknowledgeMessage_def run)
    moreover have "run = (m_orgId m, m_runId m) \<Longrightarrow> \<not> running m r" using None assms(3) run by (simp add: kept_or_freed_def)
    ultimately show ?thesis using assms by auto
  next
    case (Some y)
    then have eq: "processMarkedRun cfg run r = callAcknowledgeMessage cfg y False r"
      by (simp add: processMarkedRun_def acknowledgeMessage_def run)
    from assms(1) Some have y: "m_orgId y = o'" "m_runId y = i'" "m_queue y \<noteq> markedForAckKey" by (auto simp: filed_def)
    have msgs: "readMessage a b (callAcknowledgeMessage cfg y False r) = (if (a, b) = (o', i') then None else readMessage a b r)"
      if "readMessage a b r \<noteq> None" for a b
    proof -
      from that obtain z where z: "readMessage a b r = Some z" by blast
      with assms(1) have "m_orgId z = a \<and> m_runId z = b" by (auto simp: filed_def)
      moreover have "messageKey a b = messageKey o' i' \<Longrightarrow> z = y" using z Some by (simp add: readMessage_def)
      ultimately show ?thesis using y by (auto simp: readMessage_def ack_messages)
    qed
    have none: "readMessage a b r = None \<Longrightarrow> readMessage a b (callAcknowledgeMessage cfg y False r) = None" for a b
      by (simp add: readMessage_def ack_messages)
    have shrink: "\<not> running m r \<Longrightarrow> \<not> running m (callAcknowledgeMessage cfg y False r)"
      using ack_sets [of cfg y False r] unfolding running_def list_ex_iff by blast
    have freed: "run = (m_orgId m, m_runId m) \<Longrightarrow> \<not> running m (callAcknowledgeMessage cfg y False r)"
    proof -
      assume "run = (m_orgId m, m_runId m)"
      with Some assms(3) run have "y = m \<or> \<not> running m r" by (auto simp: kept_or_freed_def)
      with shrink ack_places [OF assms(2), of cfg False r] show ?thesis by auto
    qed
    have "filed (callAcknowledgeMessage cfg y False r)"
      unfolding filed_def
    proof (intro allI impI)
      fix a b z assume z: "readMessage a b (callAcknowledgeMessage cfg y False r) = Some z"
      with none [of a b] have "readMessage a b r \<noteq> None" by auto
      from msgs [OF this] z assms(1) show "m_orgId z = a \<and> m_runId z = b \<and> m_queue z \<noteq> markedForAckKey" by (auto simp: filed_def split: if_splits)
    qed
    moreover have "kept_or_freed m (callAcknowledgeMessage cfg y False r)"
    proof (cases "run = (m_orgId m, m_runId m)")
      case True
      with freed show ?thesis by (simp add: kept_or_freed_def)
    next
      case False
      with assms(3) msgs [of "m_orgId m" "m_runId m"] shrink run show ?thesis by (auto simp: kept_or_freed_def)
    qed
    ultimately show ?thesis
      unfolding eq using ack_marked [OF y(3), of cfg False r] shrink freed msgs [of orgId runId] run by auto
  qed
  then show "filed (processMarkedRun cfg run r)" "r_zsets (processMarkedRun cfg run r) markedForAckKey = r_zsets r markedForAckKey"
    "kept_or_freed m (processMarkedRun cfg run r)"
    "run = (m_orgId m, m_runId m) \<or> \<not> running m r \<Longrightarrow> \<not> running m (processMarkedRun cfg run r)"
    "(orgId, runId) \<noteq> run \<Longrightarrow> readMessage orgId runId r = Some x \<Longrightarrow> readMessage orgId runId (processMarkedRun cfg run r) = Some x"
    by blast+
qed

lemma process_all:
  fixes cfg runs r
  assumes "filed r" "own_zset (m_queue m)" "kept_or_freed m r"
  defines "r' \<equiv> fold (processMarkedRun cfg) runs r"
  shows "filed r' \<and> kept_or_freed m r' \<and> r_zsets r' markedForAckKey = r_zsets r markedForAckKey \<and>
    ((m_orgId m, m_runId m) \<in> set runs \<or> \<not> running m r \<longrightarrow> \<not> running m r') \<and>
    ((orgId, runId) \<notin> set runs \<longrightarrow> readMessage orgId runId r = Some x \<longrightarrow> readMessage orgId runId r' = Some x)"
  using assms(1,3) unfolding r'_def
proof (induction runs arbitrary: r)
  case (Cons run runs)
  note step = process_step [OF Cons.prems(1) assms(2) Cons.prems(2), where cfg = cfg and run = run]
  from Cons.IH [OF step(1,3)] step(2,4,5) show ?case by auto
qed simp

lemma mark_zset: "zmembers (r_zsets (markRunsForAck now runs (r :: 'm redis)) markedForAckKey) =
    (\<lambda>(runId, orgId). orgId @ '':'' @ runId) ` set runs \<union> zmembers (r_zsets r markedForAckKey)"
proof -
  have "zmembers (r_zsets (fold (\<lambda>(runId, orgId). ZADD markedForAckKey now (orgId @ '':'' @ runId)) runs r) markedForAckKey) =
      (\<lambda>(runId, orgId). orgId @ '':'' @ runId) ` set runs \<union> zmembers (r_zsets r markedForAckKey)" for r :: "'m redis"
    by (induction runs arbitrary: r) (auto simp: case_prod_beta)
  then show ?thesis by (simp add: markRunsForAck_def)
qed

lemma mark_frame:
  "r_sets (markRunsForAck now runs (r :: 'm redis)) = r_sets r" "r_messages (markRunsForAck now runs (r :: 'm redis)) = r_messages r"
  "k \<noteq> markedForAckKey \<Longrightarrow> r_zsets (markRunsForAck now runs (r :: 'm redis)) k = r_zsets r k"
proof -
  have "r_sets (fold (\<lambda>(runId, orgId). ZADD markedForAckKey now (orgId @ '':'' @ runId)) runs r) = r_sets r \<and>
      r_messages (fold (\<lambda>(runId, orgId). ZADD markedForAckKey now (orgId @ '':'' @ runId)) runs r) = r_messages r \<and>
      (k \<noteq> markedForAckKey \<longrightarrow> r_zsets (fold (\<lambda>(runId, orgId). ZADD markedForAckKey now (orgId @ '':'' @ runId)) runs r) k = r_zsets r k)"
    for r :: "'m redis"
    by (induction runs arbitrary: r) (simp_all add: case_prod_beta)
  then show "r_sets (markRunsForAck now runs (r :: 'm redis)) = r_sets r" "r_messages (markRunsForAck now runs (r :: 'm redis)) = r_messages r"
    "k \<noteq> markedForAckKey \<Longrightarrow> r_zsets (markRunsForAck now runs (r :: 'm redis)) k = r_zsets r k"
    by (simp_all add: markRunsForAck_def)
qed

lemma unmark_frame:
  "r_sets (fold (ZREM markedForAckKey) xs r) = r_sets r" "r_messages (fold (ZREM markedForAckKey) xs r) = r_messages r"
  "zmembers (r_zsets (fold (ZREM markedForAckKey) xs r) markedForAckKey) = zmembers (r_zsets r markedForAckKey) - set xs"
proof -
  show "r_sets (fold (ZREM markedForAckKey) xs r) = r_sets r" by (induction xs arbitrary: r) simp_all
  show "r_messages (fold (ZREM markedForAckKey) xs r) = r_messages r" by (induction xs arbitrary: r) simp_all
  show "zmembers (r_zsets (fold (ZREM markedForAckKey) xs r) markedForAckKey) = zmembers (r_zsets r markedForAckKey) - set xs"
    by (induction xs arbitrary: r) auto
qed

lemma parse_marked_pair: "colon \<notin> set orgId \<Longrightarrow> parse_marked (orgId @ '':'' @ runId) = Some (orgId, runId)"
  using indexOf_char [of colon orgId runId] by (simp add: parse_marked_def colon_def)

lemma parse_marked_inverse:
  assumes "parse_marked x = Some (orgId, runId)" shows "x = orgId @ '':'' @ runId"
proof -
  from assms obtain i where i: "js_indexOf x '':'' = Some i" "orgId = take i x" "runId = drop (i + 1) x"
    by (auto simp: parse_marked_def)
  from js_indexOf_Some [OF i(1)] obtain t where "drop i x = '':'' @ t" by (auto simp: js_startsWith_iff)
  moreover have "drop (i + 1) x = drop 1 (drop i x)" by simp
  ultimately have "drop i x = '':'' @ runId" using i(3) by simp
  then show ?thesis using i(2) append_take_drop_id [of i x] by metis
qed

text \<open>The runs that are marked, and that every mark can be read.\<close>

definition marked_runs :: "'m redis \<Rightarrow> (string \<times> string) set" where
  "marked_runs r = {run. \<exists>x \<in> zmembers (r_zsets r markedForAckKey). parse_marked x = Some run}"

definition readable_marks :: "'m redis \<Rightarrow> bool" where
  "readable_marks r = (\<forall>x \<in> zmembers (r_zsets r markedForAckKey). parse_marked x \<noteq> None)"

text \<open>A round takes the first hundred marks away.\<close>

lemma unmark_length:
  fixes r :: "'m redis"
  shows "length (r_zsets (fold (ZREM k) (map fst (take n (r_zsets r k))) r) k) \<le> length (r_zsets r k) - n"
proof -
  have "r_zsets (fold (ZREM k) xs r) k = filter (\<lambda>e. fst e \<notin> set xs) (r_zsets r k)" for xs and r :: "'m redis"
  proof (induction xs arbitrary: r)
    case (Cons x xs)
    have "filter (\<lambda>e. fst e \<notin> set xs) (zrem x z) = filter (\<lambda>e. fst e \<notin> set (x # xs)) z" for z :: zset
      by (induction z) (auto simp: zrem_def)
    with Cons show ?case by simp
  qed simp
  then have "length (r_zsets (fold (ZREM k) (map fst (take n (r_zsets r k))) r) k)
      = length (filter (\<lambda>e. fst e \<notin> set (map fst (take n (r_zsets r k)))) (take n (r_zsets r k) @ drop n (r_zsets r k)))" by simp
  also have "\<dots> = length (filter (\<lambda>e. fst e \<notin> set (map fst (take n (r_zsets r k)))) (drop n (r_zsets r k)))"
    unfolding filter_append by (simp add: filter_empty_conv)
  also have "\<dots> \<le> length (drop n (r_zsets r k))" by (rule length_filter_le)
  finally show ?thesis by simp
qed

lemma unmark_members:
  "zmembers z = set (map fst (take n z)) \<union> (zmembers z - set (map fst (take n z)))"
  using set_take_subset [of n z] by (auto simp: zmembers_def)

text \<open>A round: what it answers, and what is left of the marks.\<close>

lemma marked_round:
  fixes r :: "message redis"
  assumes "getMarkedRunsForAck 100 r = (results, r1)" "readable_marks r"
  shows "marked_runs r = set results \<union> marked_runs r1" and "readable_marks r1"
    and "length (r_zsets r1 markedForAckKey) \<le> length (r_zsets r markedForAckKey) - 100"
    and "r_sets r1 = r_sets r" and "readMessage o' i' r1 = readMessage o' i' r"
    and "results = [] \<Longrightarrow> r_zsets r markedForAckKey = []"
proof -
  let ?marks = "map fst (take 100 (r_zsets r markedForAckKey))"
  have set: "y \<in> set (List.map_filter parse_marked xs) \<longleftrightarrow> (\<exists>x \<in> set xs. parse_marked x = Some y)" for y xs
    by (force simp: map_filter_def)
  have results: "results = List.map_filter parse_marked ?marks" using assms(1) by (simp add: getMarkedRunsForAck_def Let_def)
  have none: "r_zsets r markedForAckKey = []" if "results = []"
  proof (rule ccontr)
    assume "r_zsets r markedForAckKey \<noteq> []"
    then obtain x y z where xyz: "r_zsets r markedForAckKey = (x, y) # z" by (metis list.exhaust prod.exhaust)
    then obtain run where "parse_marked x = Some run" using assms(2) by (auto simp: readable_marks_def)
    with xyz have "run \<in> set results" unfolding results set by (auto simp: numeral_eq_Suc)
    with that show False by simp
  qed
  have r1: "r1 = fold (ZREM markedForAckKey) ?marks r"
  proof -
    have "r1 = (if results = [] then r else fold (ZREM markedForAckKey) ?marks r)"
      using assms(1) by (auto simp: getMarkedRunsForAck_def Let_def)
    moreover have "fold (ZREM markedForAckKey) ?marks r = r" if "results = []" unfolding none [OF that] by simp
    ultimately show ?thesis by presburger
  qed
  have left: "zmembers (r_zsets r1 markedForAckKey) = zmembers (r_zsets r markedForAckKey) - set ?marks"
    unfolding r1 by (rule unmark_frame(3))
  have "x \<in> zmembers (r_zsets r markedForAckKey) \<longleftrightarrow> x \<in> set ?marks \<or> x \<in> zmembers (r_zsets r1 markedForAckKey)" for x
    using unmark_members [of "r_zsets r markedForAckKey" 100] unfolding left by blast
  then have "(\<exists>x \<in> zmembers (r_zsets r markedForAckKey). parse_marked x = Some run) \<longleftrightarrow>
      (\<exists>x \<in> set ?marks. parse_marked x = Some run) \<or> (\<exists>x \<in> zmembers (r_zsets r1 markedForAckKey). parse_marked x = Some run)" for run
    by (simp only: Bex_def) blast
  then have "run \<in> marked_runs r \<longleftrightarrow> run \<in> set results \<or> run \<in> marked_runs r1" for run
    unfolding marked_runs_def results set mem_Collect_eq .
  then show "marked_runs r = set results \<union> marked_runs r1" by blast
  show "readable_marks r1" using assms(2) unfolding readable_marks_def left by blast
  show "length (r_zsets r1 markedForAckKey) \<le> length (r_zsets r markedForAckKey) - 100" unfolding r1 by (rule unmark_length)
  show "r_sets r1 = r_sets r" "readMessage o' i' r1 = readMessage o' i' r"
    unfolding r1 readMessage_def by (simp_all only: unmark_frame)
  show "results = [] \<Longrightarrow> r_zsets r markedForAckKey = []" by (rule none)
qed

text \<open>Enough rounds process every mark, and nothing else.\<close>

lemma process_rounds:
  fixes m :: message and cfg fuel r
  assumes "filed r" "own_zset (m_queue m)" "kept_or_freed m r" "readable_marks r"
    and "length (r_zsets r markedForAckKey) \<le> 100 * fuel"
  defines "r' \<equiv> processMarkedRuns fuel cfg r"
  shows "((m_orgId m, m_runId m) \<in> marked_runs r \<or> \<not> running m r \<longrightarrow> \<not> running m r') \<and>
    ((m_orgId m, m_runId m) \<notin> marked_runs r \<longrightarrow> readMessage (m_orgId m) (m_runId m) r = Some m
      \<longrightarrow> readMessage (m_orgId m) (m_runId m) r' = Some m)"
  using assms(1,3-5) unfolding r'_def
proof (induction fuel arbitrary: r)
  case 0
  then show ?case by (simp add: marked_runs_def)
next
  case (Suc fuel)
  obtain results r1 where round: "getMarkedRunsForAck 100 r = (results, r1)" by (cases "getMarkedRunsForAck 100 r")
  note marks = marked_round [OF round Suc.prems(3)]
  have r1: "filed r1" "kept_or_freed m r1" "running m r1 = running m r"
    using Suc.prems(1,2) by (simp_all add: filed_def kept_or_freed_def running_def marks(4,5))
  let ?r2 = "fold (processMarkedRun cfg) results r1"
  note all = process_all [OF r1(1) assms(2) r1(2), where cfg = cfg and runs = results and orgId = "m_orgId m" and runId = "m_runId m" and x = m]
  have r2: "marked_runs ?r2 = marked_runs r1" "readable_marks ?r2"
    using all marks(2) by (simp_all add: marked_runs_def readable_marks_def)
  have left: "length (r_zsets ?r2 markedForAckKey) \<le> 100 * fuel" using all marks(3) Suc.prems(4) by simp
  have next_rounds: "((m_orgId m, m_runId m) \<in> marked_runs ?r2 \<or> \<not> running m ?r2 \<longrightarrow> \<not> running m (processMarkedRuns fuel cfg ?r2)) \<and>
    ((m_orgId m, m_runId m) \<notin> marked_runs ?r2 \<longrightarrow> readMessage (m_orgId m) (m_runId m) ?r2 = Some m
      \<longrightarrow> readMessage (m_orgId m) (m_runId m) (processMarkedRuns fuel cfg ?r2) = Some m)"
    using all r2(2) left by (intro Suc.IH) blast+
  show ?case
  proof (cases "results = []")
    case True
    then have "marked_runs r = {}" "r1 = r" using marks(6) round by (simp_all add: marked_runs_def getMarkedRunsForAck_def Let_def)
    with True round show ?thesis by simp
  next
    case False
    show ?thesis
    proof (cases "length (r_zsets ?r2 markedForAckKey) > 0")
      case True
      then have "processMarkedRuns (Suc fuel) cfg r = processMarkedRuns fuel cfg ?r2" using False round by (simp add: Let_def)
      with next_rounds all r1(3) r2(1) marks(1,5) show ?thesis by auto
    next
      case no: False
      then have end_r: "processMarkedRuns (Suc fuel) cfg r = ?r2" using False round by (simp add: Let_def)
      from no have "marked_runs ?r2 = {}" by (simp add: marked_runs_def)
      then have "marked_runs r1 = {}" using r2(1) by blast
      with end_r all r1(3) marks(1,5) show ?thesis by auto
    qed
  qed
qed

text \<open>The runs the sweeper finds in a set.\<close>

definition swept :: "string \<Rightarrow> world \<Rightarrow> (string \<times> string) list" where
  "swept key w = concurrencySweeperCallback (r_sets (en_redis w) key) w"

text \<open>The runs it finds give up their claims, the messages of the others stay.\<close>

lemma sweep_effect:
  fixes w :: world and cfg :: queue_options and fuel :: nat and key :: string and m :: message
  assumes "filed (en_redis w)" "readable_marks (en_redis w)" "own_zset (m_queue m)"
    and "readMessage (m_orgId m) (m_runId m) (en_redis w) = Some m"
    and "\<forall>t \<in> set (en_runs w). colon \<notin> set (or_default (tr_organizationId t) [])"
    and "length (r_zsets (en_redis (processConcurrencySet key w)) markedForAckKey) \<le> 100 * fuel"
  defines "r \<equiv> processMarkedRuns fuel cfg (en_redis (processConcurrencySet key w))"
  shows "((m_runId m, m_orgId m) \<in> set (swept key w) \<longrightarrow> \<not> running m r) \<and>
    ((m_runId m, m_orgId m) \<notin> set (swept key w) \<longrightarrow> (m_orgId m, m_runId m) \<notin> marked_runs (en_redis w)
      \<longrightarrow> readMessage (m_orgId m) (m_runId m) r = Some m)"
proof -
  let ?r0 = "en_redis (processConcurrencySet key w)"
  have r0: "?r0 = markRunsForAck (en_now w) (swept key w) (en_redis w)" by (simp add: processConcurrencySet_def swept_def)
  have free: "colon \<notin> set orgId" if "(runId, orgId) \<in> set (swept key w)" for runId orgId
    using that assms(5)
    by (fastforce simp: swept_def concurrencySweeperCallback_def map_filter_def truthy_def or_default_def split: option.splits if_splits)
  have pair: "parse_marked (o' @ '':'' @ i') = Some (o', i')" if "(i', o') \<in> set (swept key w)" for o' i'
    by (rule parse_marked_pair [OF free [OF that]])
  have members: "zmembers (r_zsets ?r0 markedForAckKey)
      = (\<lambda>(runId, orgId). orgId @ '':'' @ runId) ` set (swept key w) \<union> zmembers (r_zsets (en_redis w) markedForAckKey)"
    unfolding r0 by (rule mark_zset)
  have marked: "(o', i') \<in> marked_runs ?r0 \<longleftrightarrow> (i', o') \<in> set (swept key w) \<or> (o', i') \<in> marked_runs (en_redis w)" for o' i'
    unfolding marked_runs_def members using pair by fastforce
  have readable: "readable_marks ?r0"
    using assms(2) pair unfolding readable_marks_def members by fastforce
  have same: "readMessage o' i' ?r0 = readMessage o' i' (en_redis w)" for o' i'
    unfolding readMessage_def r0 by (simp add: mark_frame(2))
  have f: "filed ?r0" using assms(1) by (simp add: filed_def same)
  have k: "kept_or_freed m ?r0" using assms(4) same by (simp add: kept_or_freed_def)
  from process_rounds [OF f assms(3) k readable assms(6), of cfg] marked same assms(4) show ?thesis
    unfolding r_def by simp
qed

text \<open>A run that ended well more than ten minutes ago, by its row.\<close>

definition ended_long_ago :: "world \<Rightarrow> message \<Rightarrow> run \<Rightarrow> bool" where
  "ended_long_ago w m t = (tr_id t = m_runId m \<and> tr_organizationId t = Some (m_orgId m) \<and> isFinalRunStatus (tr_status t)
     \<and> (\<exists>c. tr_completedAt t = Some c \<and> c + 10 * 60 * 1000 \<le> en_now w))"

lemma swept_row: "m_orgId m \<noteq> [] \<Longrightarrow> (m_runId m, m_orgId m) \<in> set (swept key w) \<longleftrightarrow>
    m_runId m \<in> set (r_sets (en_redis w) key) \<and> (\<exists>t \<in> set (en_runs w). ended_long_ago w m t)"
proof -
  have found: "y \<in> set (List.map_filter f xs) \<longleftrightarrow> (\<exists>x \<in> set xs. f x = Some y)" for y f and xs :: "'x list"
    by (force simp: map_filter_def)
  assume "m_orgId m \<noteq> []"
  then have org: "map_option (Pair (tr_id t)) (truthy (tr_organizationId t)) = Some (m_runId m, m_orgId m) \<longleftrightarrow>
      tr_id t = m_runId m \<and> tr_organizationId t = Some (m_orgId m)" for t :: run
    by (auto simp: truthy_def split: option.splits)
  have "(case c of None \<Rightarrow> False | Some x \<Rightarrow> x \<le> en_now w - 1000 * 60 * 10) \<longleftrightarrow> (\<exists>x. c = Some x \<and> x + 10 * 60 * 1000 \<le> en_now w)" for c
    by (cases c) auto
  then show ?thesis unfolding swept_def concurrencySweeperCallback_def found org ended_long_ago_def by auto
qed

text \<open>
  C18. The sweeper frees the runs that finished and no others. Let the messages be stored under their runs, in
  queues of their own, the organizations of the rows have no colon, and the marks of earlier sweeps be
  readable; let one set of concurrency be scanned and then the marked runs be processed, in rounds of a
  hundred, as many as there are marks for. A run whose row ended more than ten minutes ago, that is
  in the scanned set and whose message is still stored, gives up every claim. The message of a run whose row
  has no final status, and that no earlier sweep marked, stays.
\<close>

theorem sweeper_frees_finished:
  fixes w :: world and cfg :: queue_options and fuel :: nat and key :: string and m :: message
  assumes "filed (en_redis w)" "readable_marks (en_redis w)" "own_zset (m_queue m)"
    and "readMessage (m_orgId m) (m_runId m) (en_redis w) = Some m" "m_orgId m \<noteq> []"
    and "\<forall>t \<in> set (en_runs w). colon \<notin> set (or_default (tr_organizationId t) [])"
    and "length (r_zsets (en_redis (processConcurrencySet key w)) markedForAckKey) \<le> 100 * fuel"
  defines "r \<equiv> processMarkedRuns fuel cfg (en_redis (processConcurrencySet key w))"
  shows "(m_runId m \<in> set (r_sets (en_redis w) key) \<and> (\<exists>t \<in> set (en_runs w). ended_long_ago w m t) \<longrightarrow> \<not> running m r) \<and>
    ((\<forall>t \<in> set (en_runs w). tr_id t = m_runId m \<longrightarrow> \<not> isFinalRunStatus (tr_status t))
      \<and> m_orgId m @ '':'' @ m_runId m \<notin> zmembers (r_zsets (en_redis w) markedForAckKey) \<longrightarrow>
      readMessage (m_orgId m) (m_runId m) r = Some m)"
proof -
  have "(m_orgId m, m_runId m) \<notin> marked_runs (en_redis w)"
    if "m_orgId m @ '':'' @ m_runId m \<notin> zmembers (r_zsets (en_redis w) markedForAckKey)"
    using that parse_marked_inverse unfolding marked_runs_def by blast
  with sweep_effect [OF assms(1-4,6,7), of cfg] show ?thesis
    unfolding r_def swept_row [OF assms(5)] by (auto simp: ended_long_ago_def)
qed

text \<open>A run that finished, and whose message still claims concurrency.\<close>

definition sweepable :: world where
  "sweepable = empty_world\<lparr>
     en_runs := [example_row\<lparr>tr_id := ''r1'', tr_status := TaskRunStatus.COMPLETED_SUCCESSFULLY, tr_completedAt := Some 0\<rparr>],
     en_now := 600000,
     en_redis := ZADD markedForAckKey 5 ''o7:r7''
       (SADD (queueCurrentConcurrencyKeyFromQueue (m_queue example_message)) ''r1'' example_redis)\<rparr>"

theorem sweeper_frees_finished_witness:
  "\<not> running example_message (processMarkedRuns 1 example_cfg (en_redis
     (processConcurrencySet (queueCurrentConcurrencyKeyFromQueue (m_queue example_message)) sweepable)))"
proof -
  let ?key = "queueCurrentConcurrencyKeyFromQueue (m_queue example_message)"
  have key: "org @ ''}:message:'' @ i = ''o1}:message:r1'' \<Longrightarrow> org = ''o1'' \<and> i = ''r1''" for org i
    by (auto simp: append_eq_Cons_conv)
  have filed: "filed (en_redis sweepable)"
    unfolding filed_def
  proof (intro allI impI)
    fix orgId runId x assume r: "readMessage orgId runId (en_redis sweepable) = Some x"
    then have "messageKey orgId runId = messageKey ''o1'' ''r1''" "x = example_message"
      by (simp_all add: readMessage_def sweepable_def example_redis_def empty_redis_def split: if_splits)
    moreover have "m_queue example_message \<noteq> markedForAckKey" by code_simp
    ultimately show "m_orgId x = orgId \<and> m_runId x = runId \<and> m_queue x \<noteq> markedForAckKey"
      using key [of orgId runId] by (simp add: messageKey_def section_defs example_message_def)
  qed
  have own: "own_zset (m_queue example_message)"
    unfolding example_message_def message.simps by (rule own_zset_queueKey) (simp add: good_env_def example_env_def colon_def)
  have row: "''r1'' \<in> set (r_sets (en_redis sweepable) ?key) \<and> (\<exists>t \<in> set (en_runs sweepable). ended_long_ago sweepable example_message t)"
    by (simp add: sweepable_def ended_long_ago_def example_row_def example_message_def SADD_def sadd_def)
  have marks: "length (r_zsets (en_redis (processConcurrencySet ?key sweepable)) markedForAckKey) \<le> 100 * 1" by code_simp
  have "zmembers (r_zsets (en_redis sweepable) markedForAckKey) = {''o7:r7''}"
    by (simp add: sweepable_def example_redis_def empty_redis_def)
  moreover have "parse_marked ''o7:r7'' = Some (''o7'', ''r7'')" by code_simp
  ultimately have readable: "readable_marks (en_redis sweepable)" by (simp add: readable_marks_def)
  have message: "readMessage ''o1'' ''r1'' (en_redis sweepable) = Some example_message"
    by (simp add: readMessage_def sweepable_def example_redis_def)
  have names: "m_orgId example_message = ''o1''" "m_runId example_message = ''r1''" by (simp_all add: example_message_def)
  have orgs: "\<forall>t \<in> set (en_runs sweepable). colon \<notin> set (or_default (tr_organizationId t) [])" by code_simp
  show ?thesis
    using sweeper_frees_finished [OF filed readable own _ _ orgs marks, of example_cfg] message row unfolding names by simp
qed

end
