(* ===== verification/Spec2Isabelle.thy ===== *)
theory Spec2Isabelle
  imports Prelude TaskErrors Statuses FriendlyId Duration KeyProducer RetryDelay Redis RunQueue
    Machines Retrying EngineState Snapshots EnqueueSystem Waitpoints Wakeups RunAttempts
    Checkpoints Expiry Batches StalledRuns EngineSteps Lifecycle StatusMachine
    AttemptOutcomes Endings BatchOutcomes FastPath DequeueSystem DequeueOutcomes Leftovers
    Debounce PendingVersions Trigger NewRuns DebounceRaces DebounceOutcomes TriggerOutcomes
    FairKeys FairStore FairScheduling FairQueue FairConsumers FairInvariants FairOutcomes FairLifecycle
    BatchQueue BatchQueueOutcomes BatchCompletion BatchEndings
    JobQueue JobQueueOutcomes JobWorker JobWorkerOutcomes JobLoop JobRefinement
    Mollifier MollifierInvariants Drainer DrainerOutcomes DrainerRotation
    QueueSelection QueueSelectionOutcomes RunQueueSweeps RunQueueSweepOutcomes
begin

text \<open>
  The run engine of trigger.dev, version 2: how a task run is created, given a place in a queue,
  handed to a worker, attempted, suspended, retried and ended, how the items of a streamed
  batch become runs through a fair queue, how the engine's background jobs are queued and run, and how
  triggers are buffered when there are too many. The models are translated from the TypeScript (and
  the Lua scripts inside it) under \<open>src/internal-packages/run-engine\<close> and
  \<open>src/packages/redis-worker/src\<close>, with the parts of \<open>src/packages/core\<close>,
  \<open>src/internal-packages/run-store\<close> and \<open>src/apps/webapp\<close> they rest on or are called by. Paths below
  are relative to \<open>src/\<close>; \<open>RE\<close> stands for \<open>internal-packages/run-engine/src\<close> and \<open>FQ\<close> for
  \<open>packages/redis-worker/src/fair-queue\<close>.

  Parts and theories.

  Shared: Prelude has generic lemmas, the collections \<open>pres\<close> and \<open>frame\<close>, a state monad with
  errors and its invariant rules, and the locales \<open>step_machine\<close>, \<open>guarded_machine\<close> and
  \<open>monotone_machine\<close> that lift what a step keeps to sequences of steps.

  Values: TaskErrors (\<open>packages/core/src/v3/errors.ts\<close>, \<open>schemas/common.ts\<close>) models the errors of a
  task, their sanitizing, truncation and classification; Statuses (\<open>RE/engine/statuses.ts\<close>,
  \<open>RE/engine/errors.ts\<close>, the Prisma schema) the status enumerations and the status an error gives a
  run; FriendlyId (\<open>packages/core/src/v3/isomorphic/friendlyId.ts\<close>, \<open>runOpsResidency.ts\<close>) ids, with
  words of the width the code shifts; Duration (\<open>isomorphic/duration.ts\<close>) durations; RetryDelay
  (\<open>packages/core/src/v3/utils/retries.ts\<close>) the backoff; Machines
  (\<open>RE/engine/machinePresets.ts\<close>, and \<open>calculateUpdatedUsage\<close> of \<open>runAttemptSystem.ts\<close>) machine presets
  and the usage of a run as a 32-bit column; Retrying (\<open>RE/engine/retrying.ts\<close>) what becomes of a
  failed attempt.

  The queue: KeyProducer (\<open>RE/run-queue/keyProducer.ts\<close>, \<open>packages/core/src/v3/serverOnly/jumpHash.ts\<close>)
  the keys; Redis the commands the scripts use, on a store of strings, lists, sets and sorted sets;
  RunQueue (\<open>RE/run-queue/index.ts\<close>, \<open>workerQueueResolver.ts\<close>) the scripts, one function of the store
  each, and the operations that call them; FastPath compares the two ways a message is enqueued.
  QueueSelection (\<open>RE/run-queue/fairQueueSelectionStrategy.ts\<close>, \<open>#processMasterQueueShard\<close>) is the choice
  of the queues a consumer serves, with its random orders and reused snapshots, and the loop over
  them with the cooloff of empty queues; RunQueueSweeps (\<open>RE/run-queue/index.ts\<close>) what leaves the queue
  unasked: the messages whose time to live ran out, which become jobs of a \<open>job_queue\<close>, and the finished
  runs that the sweeper finds in the sets of concurrency.

  The engine: EngineState has the database, the queue's store, the jobs, the events and the clock as
  one record \<open>world\<close>, the options of the engine, the monad \<open>'a engine\<close> (a result or a thrown error, and
  the world left behind), and the operations of \<open>internal-packages/run-store/src/PostgresRunStore.ts\<close>.
  On it: Snapshots (\<open>RE/engine/systems/executionSnapshotSystem.ts\<close>), EnqueueSystem (\<open>enqueueSystem.ts\<close>),
  Waitpoints (\<open>waitpointSystem.ts\<close>), RunAttempts (\<open>runAttemptSystem.ts\<close>), Checkpoints
  (\<open>checkpointSystem.ts\<close>), DequeueSystem (\<open>dequeueSystem.ts\<close>), Expiry (\<open>ttlSystem.ts\<close>,
  \<open>delayedRunSystem.ts\<close>), Batches (\<open>batchSystem.ts\<close>) and StalledRuns (the handlers of a missed heartbeat
  and of a repair in \<open>RE/engine/index.ts\<close>). A run is its row \<open>run\<close>, found by \<open>run_of\<close>, and its list of
  \<open>snapshot\<close>s, newest first, of which \<open>latest\<close> is the state the handlers look at. What a handler does
  under the run's lock is one step; what it wrote before an error stays written.

  The beginning of a run: Trigger (\<open>trigger\<close>, \<open>createCancelledRun\<close> and \<open>createFailedTaskRun\<close> of
  \<open>RE/engine/index.ts\<close>) creates the rows; PendingVersions (\<open>RE/engine/systems/pendingVersionSystem.ts\<close>,
  \<open>packages/core/src/v3/isomorphic/deploymentVersions.ts\<close>) parks a run until its version is deployed
  and releases it; Debounce (\<open>RE/engine/systems/debounceSystem.ts\<close>) gives a trigger with a key to the
  run that already waits under that key. A debounced trigger is a machine of phases, \<open>debounce_step\<close>,
  since other servers act between its commands.

  The fair queue: FairKeys (\<open>FQ/keyProducer.ts\<close>, \<open>FQ/retry.ts\<close>) its keys, whose laws are the locale
  \<open>fair_keys\<close>, and retry strategies; FairStore its store \<open>fair_store\<close> and the Lua scripts of \<open>FQ/index.ts\<close>,
  \<open>visibility.ts\<close>, \<open>concurrency.ts\<close> and \<open>schedulers/drr.ts\<close>, one function each; FairScheduling
  (\<open>FQ/concurrency.ts\<close>, \<open>tenantDispatch.ts\<close>, \<open>schedulers/drr.ts\<close>) the concurrency groups and whose turn
  it is; FairQueue (\<open>FQ/index.ts\<close>, \<open>visibility.ts\<close>) the operations on messages; FairConsumers one
  iteration of each of its loops. BatchQueue (\<open>RE/batch-queue\<close>) uses it for the items of
  batches: the state \<open>batch_state\<close> has the fair queue's store, the tracker's hashes and sets and the
  calls of the completion callback. BatchCompletion joins that state and the \<open>world\<close> of the engine
  in the record \<open>batch_system\<close>, with the service that streams the items
  (\<open>apps/webapp/app/runEngine/services/streamBatchItems.server.ts\<close>) and the callback of the
  end (\<open>handleBatchCompletion\<close> of \<open>apps/webapp/app/v3/runEngineHandlersShared.server.ts\<close>).

  Background jobs: JobQueue (\<open>packages/redis-worker/src/queue.ts\<close>) has the scripts of the queue of jobs,
  a sorted set of ids by due time and a hash of the items, on the state \<open>job_queue\<close>, and the operations
  that call them; JobWorker (\<open>packages/redis-worker/src/worker.ts\<close>) what the worker makes of a job:
  the catalog, retries, the dead letter queue, batches and the jobs of a cron schedule; one round of
  its loop is \<open>worker_iteration\<close>.

  The buffer of triggers: Mollifier (\<open>packages/redis-worker/src/mollifier/buffer.ts\<close>, \<open>schemas.ts\<close>) has an
  entry per run and a list per environment, with one function of the state \<open>mollifier\<close> for each script;
  Drainer (\<open>mollifier/drainer.ts\<close>) the rotation over organizations and environments, one tick, whose
  worker loop terminates by the budget of the tick, and the processing of a popped run.

  What is shown, and how.

  EngineSteps makes a step function of all the operations: an \<open>engine_event\<close> is a call with its
  arguments, \<open>engine_step\<close> runs it whatever its outcome, and the locale \<open>run_invariant\<close> has the lemma
  of each operation for invariants of rows and histories; it is interpreted with the bounds of the
  counters and with the order of histories. Lifecycle has the locale \<open>run_guard\<close>, a contract over
  which snapshots a run may get and which writes to its row are permitted; StatusMachine interprets
  it with the table of allowed status changes, which gives the refinement of the engine by a status
  machine, and with the row and latest snapshot of a finished run; Endings interprets it to
  see when a run finished. Wakeups states that a waiting run has a job that continues it once its
  waitpoints are completed, over any sequence of waitpoint operations. AttemptOutcomes,
  DequeueOutcomes, BatchOutcomes and Leftovers have what single calls come to, also where the code
  leaves something behind, as the batch of a run that expires. NewRuns has the contract of \<open>run_guard\<close> for the operations that begin runs,
  DebounceRaces what claims of a key guarantee under every interleaving of servers, DebounceOutcomes
  and TriggerOutcomes what single triggers, releases and deadlines come to.

  FairInvariants makes a step function of the commands of the fair queue, \<open>fair_step\<close>, so that a list
  of commands is an interleaving of servers, and interprets \<open>step_machine\<close> and \<open>guarded_machine\<close> on it:
  the indexes find what is due, slots stay within their limits, deficits within theirs, and no
  message is lost. FairOutcomes and FairLifecycle have what single operations come to.
  BatchQueueOutcomes does the same for the tracker of batches, \<open>tracker_step\<close>, and BatchEndings
  follows a batch through both queues to the row it leaves, also where its parent is left waiting.

  JobQueueOutcomes makes a step function of the commands of workers and clients, \<open>job_step\<close>: due jobs
  are handed out in order, hidden while they are processed and never lost. JobWorkerOutcomes has
  what becomes of a processed job and that a schedule goes on, JobLoop that an iteration drops no
  job, and JobRefinement that the queue implements the jobs the engine's model assumes: the
  abstraction of the queue's state is the engine's list of jobs, step for step. MollifierInvariants
  and DrainerOutcomes take lists of scripts, pops, ends of processing and crashes: a run is in one
  list or with one drainer, none is lost while no process crashes, and one whose drainer crashes is
  stranded. DrainerRotation shows that every environment has its turn.

  QueueSelectionOutcomes shows that a selection from a new snapshot has every queue it read of a chosen
  environment with capacity once, by age unless it is told to randomize; RunQueueSweepOutcomes that an
  expired message is gone from every place when its run becomes a job, and that the sweeper, in rounds of a
  hundred marks, frees finished runs and no others. All marks are processed
  when the rounds, the fuel, are at least a hundredth of them.

  Numbers. JavaScript numbers that count are integers; prices, delays, factors and the weights and
  random numbers of the selection of queues are reals; shifts
  and hashes of ids are words of 32 and 64 bits. The usage of a run is kept at or
  below \<open>2^31 - 1\<close> (but not from below: a negative duration is not turned away) and attempts within
  \<open>MAX_TASK_RUN_ATTEMPTS\<close>, 250, by the code itself. The failure of an attempt and
  the requeueing of its run call each other; the model gives them a number of rounds, 2, and
  \<open>attempt_failure_terminates\<close> shows that more change nothing. The round of a shard over its queues is
  bounded by the number of messages it may take. The scores of the fair queue and of jobs are whole
  milliseconds and its deficits rational numbers. The loops of the fair queue run over lists that
  are read before them, so they are structural recursions.

  Parameters. What the code calls and this repository does not have is an argument: SHA-256, the
  random number of a backoff, the bytes of an id, the package \<open>humanize-duration\<close>, the parsing of a
  retry configuration by zod (its result is a value of \<open>locked_retry_config\<close>), and the control plane's
  answers about environments, worker versions and deployments (fields of \<open>engine_options\<close> and
  arguments of PendingVersions). The limits, schemas and resolvers a user of the fair queue gives
  are fields of \<open>fair_options\<close>; what the callback that creates a batch item's run answers is an
  argument. So are the ids of \<open>nanoid\<close>, the next time \<open>cron-parser\<close> gives, the schemas of jobs and what
  their handlers throw, what Redis's \<open>cjson\<close> makes of a value it decodes and encodes, and the handler
  of the drainer, the random stream and the cached limits of the selection of queues.

  Not modelled. Tracing, logging and metrics, which no decision depends on; run locks, taken as the
  atomicity of a step; the transactions and replicas of the database except where the code compares
  a replica with the primary; of the run queue the timers of its loops, the schedule of the sweeper
  and the pages in which it scans keys and sets, and the migration of old keys when it starts; the
  polling delays, concurrency limit and shutdown of the worker's loop; of the mollifier the gate
  that decides whether a trigger is buffered, the handler that creates a buffered run, the reads of
  buffered runs and the sweep that counts stale entries, which changes nothing; of the fair queue
  its other schedulers (round robin, weighted), failing Redis commands, the timers of its loops and
  the cooloff of queues, into which no code puts one; the service that creates the row of a batch,
  whose checks are about billing and payload storage; the rest of the web application, the
  supervisor, the SDK and the CLI, which are input and output around the engine; the packages for
  queries and analytics.
\<close>

end
